(* ===== verification/Prelude.thy ===== *)
theory Prelude
  imports Main
begin

text \<open>
  Generic material the component theories share: names for the model's basic types, the
  fragment of the JavaScript standard library the sources use (trimming, truncating division,
  decimal rendering and parsing of bigints, a stable comparator sort, object spread), and
  lemmas on lists and paths. Nothing here is specific to one component.
\<close>

section \<open>Names of the model's basic types\<close>

type_synonym row_id = string      \<comment> \<open>a Prisma \<open>cuid()\<close> primary key\<close>
type_synonym address = string     \<comment> \<open>a Stellar strkey, compared and never interpreted\<close>
type_synonym instant = int        \<comment> \<open>a \<open>Date\<close>, in milliseconds since the epoch\<close>
type_synonym base_units = int     \<comment> \<open>a \<open>bigint\<close> amount in an asset's base units\<close>

named_theorems table_simps \<open>rewrite rules for the table operations\<close>
named_theorems decimal_simps \<open>rewrite rules for decimal strings\<close>

section \<open>Strings\<close>

abbreviation code_unit :: "char \<Rightarrow> nat" where
  "code_unit c \<equiv> of_char c"

text \<open>The white space that \<open>String.prototype.trim\<close> removes, below code point 256.\<close>

definition js_ws :: "char \<Rightarrow> bool" where
  "js_ws c \<longleftrightarrow> code_unit c \<in> {9, 10, 11, 12, 13, 32, 160}"

definition js_trim :: "string \<Rightarrow> string" where
  "js_trim s = rev (dropWhile js_ws (rev (dropWhile js_ws s)))"

text \<open>A string that a JavaScript conditional takes as true: present and not empty.\<close>

definition truthy :: "string option \<Rightarrow> bool" where
  "truthy s \<longleftrightarrow> s \<noteq> None \<and> s \<noteq> Some []"

lemma truthy_simps [simp]:
  "\<not> truthy None" "truthy (Some s) \<longleftrightarrow> s \<noteq> []"
  by (auto simp: truthy_def)

definition pad_start :: "nat \<Rightarrow> char \<Rightarrow> string \<Rightarrow> string" where
  "pad_start n c s = replicate (n - length s) c @ s"

definition pad_end :: "nat \<Rightarrow> char \<Rightarrow> string \<Rightarrow> string" where
  "pad_end n c s = s @ replicate (n - length s) c"

lemma length_pad_start [simp]: "length (pad_start n c s) = max n (length s)"
  by (simp add: pad_start_def)

lemma length_pad_end [simp]: "length (pad_end n c s) = max n (length s)"
  by (simp add: pad_end_def)

lemma js_trim_id:
  assumes "\<forall>c \<in> set s. \<not> js_ws c"
  shows "js_trim s = s"
proof -
  have "dropWhile js_ws s = s"
    using assms by (cases s) auto
  moreover have "dropWhile js_ws (rev s) = rev s"
    using assms by (cases s rule: rev_cases) auto
  ultimately show ?thesis by (simp add: js_trim_def)
qed

section \<open>Truncating division of bigints\<close>

text \<open>\<open>/\<close> and \<open>%\<close> on \<open>bigint\<close> round towards zero; \<open>div\<close> and \<open>mod\<close> of HOL round down.\<close>

definition js_div :: "int \<Rightarrow> int \<Rightarrow> int" where
  "js_div a b = sgn a * sgn b * (\<bar>a\<bar> div \<bar>b\<bar>)"

definition js_rem :: "int \<Rightarrow> int \<Rightarrow> int" where
  "js_rem a b = a - b * js_div a b"

lemma js_div_nonneg: "0 \<le> a \<Longrightarrow> 0 < b \<Longrightarrow> js_div a b = a div b"
  by (cases "a = 0") (simp_all add: js_div_def)

lemma js_div_mult_cancel: "0 < b \<Longrightarrow> js_div (h * b) b = h"
  by (simp add: js_div_def abs_mult sgn_mult mult.commute abs_mult_sgn)

section \<open>Decimal rendering and parsing\<close>

definition digit_char :: "nat \<Rightarrow> char" where
  "digit_char d = char_of (48 + d)"

definition is_digit :: "char \<Rightarrow> bool" where
  "is_digit c \<longleftrightarrow> 48 \<le> code_unit c \<and> code_unit c \<le> 57"

definition digit_val :: "char \<Rightarrow> nat" where
  "digit_val c = code_unit c - 48"

fun show_nat :: "nat \<Rightarrow> string" where
  "show_nat n = (if n < 10 then [digit_char n]
                 else show_nat (n div 10) @ [digit_char (n mod 10)])"

declare show_nat.simps [simp del]

text \<open>\<open>toString\<close> of a \<open>bigint\<close>.\<close>

definition show_int :: "int \<Rightarrow> string" where
  "show_int i = (if i < 0 then CHR ''-'' # show_nat (nat (- i)) else show_nat (nat i))"

definition digits_val :: "string \<Rightarrow> nat" where
  "digits_val s = foldl (\<lambda>a c. 10 * a + digit_val c) 0 s"

definition all_digits :: "string \<Rightarrow> bool" where
  "all_digits s \<longleftrightarrow> s \<noteq> [] \<and> list_all is_digit s"

lemma code_unit_digit_char: "d < 10 \<Longrightarrow> code_unit (digit_char d) = 48 + d"
  by (simp add: digit_char_def)

lemma digit_char_is_digit [decimal_simps]: "d < 10 \<Longrightarrow> is_digit (digit_char d)"
  by (simp add: is_digit_def code_unit_digit_char)

lemma digit_val_digit_char [decimal_simps]: "d < 10 \<Longrightarrow> digit_val (digit_char d) = d"
  by (simp add: digit_val_def code_unit_digit_char)

lemma digits_val_append:
  "digits_val (s @ t) = digits_val s * 10 ^ length t + digits_val t"
proof -
  have shift: "foldl (\<lambda>a c. 10 * a + digit_val c) b t
      = b * 10 ^ length t + foldl (\<lambda>a c. 10 * a + digit_val c) 0 t" for b t
  proof (induction t arbitrary: b)
    case Nil
    then show ?case by simp
  next
    case (Cons c t)
    show ?case
      using Cons [of "10 * b + digit_val c"] Cons [of "digit_val c"]
      by (simp add: algebra_simps)
  qed
  show ?thesis
    using shift [of "foldl (\<lambda>a c. 10 * a + digit_val c) 0 s" t]
    by (simp add: digits_val_def)
qed

lemma digits_val_single [simp]: "digits_val [c] = digit_val c"
  by (simp add: digits_val_def)

lemma digits_val_Nil [simp]: "digits_val [] = 0"
  by (simp add: digits_val_def)

lemma digits_val_show_nat [decimal_simps]: "digits_val (show_nat n) = n"
proof (induction n rule: show_nat.induct)
  case (1 n)
  then show ?case
    by (subst show_nat.simps)
      (auto simp: digits_val_append digit_val_digit_char)
qed

lemma show_nat_digits: "list_all is_digit (show_nat n)"
proof (induction n rule: show_nat.induct)
  case (1 n)
  then show ?case
    by (subst show_nat.simps) (auto simp: digit_char_is_digit)
qed

lemma show_nat_not_Nil [simp]: "show_nat n \<noteq> []"
  by (subst show_nat.simps) simp

lemma all_digits_show_nat [decimal_simps]: "all_digits (show_nat n)"
  by (simp add: all_digits_def show_nat_digits)

lemma show_nat_inj: "show_nat m = show_nat n \<Longrightarrow> m = n"
  by (metis digits_val_show_nat)

lemma length_show_nat: "n < 10 ^ k \<Longrightarrow> 0 < k \<Longrightarrow> length (show_nat n) \<le> k"
proof (induction n arbitrary: k rule: show_nat.induct)
  case (1 n)
  show ?case
  proof (cases "n < 10")
    case True
    then show ?thesis using "1.prems" by (subst show_nat.simps) simp
  next
    case False
    obtain j where k: "k = Suc j" "0 < j"
      using "1.prems" False by (cases k; cases "k - 1") auto
    then have "n div 10 < 10 ^ j" using "1.prems" by (auto simp: less_mult_imp_div_less)
    then show ?thesis
      using "1.IH" [OF False, of j] False k by (subst show_nat.simps) simp
  qed
qed

lemma digits_val_zeros_prefix: "digits_val (replicate k CHR ''0'' @ s) = digits_val s"
  by (induction k) (simp_all add: digits_val_def digit_val_def)

lemma is_digit_not_special:
  "is_digit c \<Longrightarrow> c \<noteq> CHR ''-'' \<and> c \<noteq> CHR ''.'' \<and> c \<noteq> CHR '','' \<and> \<not> js_ws c"
  by (auto simp: is_digit_def js_ws_def)

section \<open>Objects\<close>

text \<open>\<open>{...a, ...b}\<close>: the properties of \<open>b\<close> win.\<close>

definition spread :: "(string \<times> 'v) list \<Rightarrow> (string \<times> 'v) list \<Rightarrow> (string \<times> 'v) list" where
  "spread a b = filter (\<lambda>(k, _). k \<notin> fst ` set b) a @ b"

lemma map_of_filter_key:
  "map_of (filter (\<lambda>(k, _). P k) a) k = (if P k then map_of a k else None)"
  by (induction a) auto

lemma map_of_spread: "map_of (spread a b) = map_of a ++ map_of b"
proof
  fix k
  have "k \<in> fst ` set b \<longleftrightarrow> map_of b k \<noteq> None"
    by (simp add: map_of_eq_None_iff)
  then show "map_of (spread a b) k = (map_of a ++ map_of b) k"
    by (cases "map_of b k")
      (auto simp: spread_def map_add_def map_of_filter_key [where P = "\<lambda>k. k \<notin> fst ` set b"]
        simp del: image_iff split: option.splits)
qed

lemma set_zip_map: "set (zip (map f xs) (map g xs)) = (\<lambda>x. (f x, g x)) ` set xs"
  by (induction xs) auto

section \<open>Stable sorting by a comparator\<close>

text \<open>
  \<open>Array.prototype.sort\<close> with a comparator: stable, and sorted when the comparator is
  consistent. Elements that compare equal keep their order.
\<close>

fun js_insert :: "('a \<Rightarrow> 'a \<Rightarrow> int) \<Rightarrow> 'a \<Rightarrow> 'a list \<Rightarrow> 'a list" where
  "js_insert cmp x [] = [x]"
| "js_insert cmp x (y # ys) =
     (if cmp x y \<le> 0 then x # y # ys else y # js_insert cmp x ys)"

definition js_sort :: "('a \<Rightarrow> 'a \<Rightarrow> int) \<Rightarrow> 'a list \<Rightarrow> 'a list" where
  "js_sort cmp xs = foldr (js_insert cmp) xs []"

lemma set_js_insert [simp]: "set (js_insert cmp x xs) = insert x (set xs)"
  by (induction xs) auto

lemma set_js_sort [simp]: "set (js_sort cmp xs) = set xs"
  by (induction xs) (auto simp: js_sort_def)

lemma length_js_sort [simp]: "length (js_sort cmp xs) = length xs"
proof -
  have "length (js_insert cmp x ys) = Suc (length ys)" for x ys
    by (induction ys) auto
  then show ?thesis by (induction xs) (auto simp: js_sort_def)
qed

section \<open>Paths that must pass a cut\<close>

text \<open>
  If every step that leaves \<open>A\<close> enters \<open>c\<close>, then a path that starts in \<open>A\<close> and ends
  outside it passes through \<open>c\<close>.
\<close>

lemma successively_cut:
  assumes "successively E xs" and "xs \<noteq> []" and "hd xs \<in> A" and "last xs \<notin> A"
    and step: "\<And>s t. E s t \<Longrightarrow> s \<in> A \<Longrightarrow> t \<in> A \<or> t = c"
  shows "c \<in> set xs"
  using assms(1-4)
proof (induction xs rule: induct_list012)
  case (3 x y zs)
  show ?case
  proof (cases "y = c")
    case False
    have "y \<in> A" using step [of x y] "3.prems" False by simp
    then have "c \<in> set (y # zs)" using "3.IH"(2) "3.prems" by simp
    then show ?thesis by simp
  qed simp
qed auto

end
