(* ===== verification/Enums.thy ===== *)
theory Enums
  imports Prelude
begin

text \<open>
  The Prisma enums (\<open>prisma/schema.prisma\<close>) that the pure modules share: the payment states,
  the organization roles and the membership statuses. Each is an instance of \<open>enum\<close>, so
  that statements over all its values are executable, with the values in declaration order.
\<close>

datatype payment_state =
    DRAFT | VALIDATING | AWAITING_ORACLE | ORACLE_VERIFIED
  | AWAITING_MANAGER | AWAITING_FINANCE | READY_TO_SETTLE
  | SUBMITTING | CONFIRMING | PAID
  | REJECTED | CANCELLED | EXPIRED
  | SUBMISSION_FAILED | SETTLEMENT_FAILED | RECONCILIATION_REQUIRED

datatype org_role = OWNER | ADMIN | MANAGER | FINANCE | WORKER | VIEWER

datatype membership_status = INVITED | ACTIVE | SUSPENDED | REMOVED

instantiation payment_state :: enum
begin

definition enum_payment_state_def:
  "enum_class.enum = [DRAFT, VALIDATING, AWAITING_ORACLE, ORACLE_VERIFIED,
     AWAITING_MANAGER, AWAITING_FINANCE, READY_TO_SETTLE, SUBMITTING, CONFIRMING, PAID,
     REJECTED, CANCELLED, EXPIRED, SUBMISSION_FAILED, SETTLEMENT_FAILED, RECONCILIATION_REQUIRED]"

definition enum_all_payment_state_def:
  "enum_class.enum_all P \<longleftrightarrow> list_all P (enum_class.enum :: payment_state list)"

definition enum_ex_payment_state_def:
  "enum_class.enum_ex P \<longleftrightarrow> list_ex P (enum_class.enum :: payment_state list)"

instance
proof
  show univ: "(UNIV :: payment_state set) = set enum_class.enum"
  proof (intro equalityI subsetI)
    fix s :: payment_state
    show "s \<in> set enum_class.enum" by (cases s) (simp_all add: enum_payment_state_def)
  qed simp
  show "distinct (enum_class.enum :: payment_state list)"
    by (simp add: enum_payment_state_def)
  show "enum_class.enum_all P \<longleftrightarrow> Ball UNIV P" for P :: "payment_state \<Rightarrow> bool"
    by (simp add: enum_all_payment_state_def univ list_all_iff)
  show "enum_class.enum_ex P \<longleftrightarrow> Bex UNIV P" for P :: "payment_state \<Rightarrow> bool"
    by (simp add: enum_ex_payment_state_def univ list_ex_iff)
qed

end

instantiation org_role :: enum
begin

definition enum_org_role_def:
  "enum_class.enum = [OWNER, ADMIN, MANAGER, FINANCE, WORKER, VIEWER]"

definition enum_all_org_role_def:
  "enum_class.enum_all P \<longleftrightarrow> list_all P (enum_class.enum :: org_role list)"

definition enum_ex_org_role_def:
  "enum_class.enum_ex P \<longleftrightarrow> list_ex P (enum_class.enum :: org_role list)"

instance
proof
  show univ: "(UNIV :: org_role set) = set enum_class.enum"
  proof (intro equalityI subsetI)
    fix r :: org_role
    show "r \<in> set enum_class.enum" by (cases r) (simp_all add: enum_org_role_def)
  qed simp
  show "distinct (enum_class.enum :: org_role list)"
    by (simp add: enum_org_role_def)
  show "enum_class.enum_all P \<longleftrightarrow> Ball UNIV P" for P :: "org_role \<Rightarrow> bool"
    by (simp add: enum_all_org_role_def univ list_all_iff)
  show "enum_class.enum_ex P \<longleftrightarrow> Bex UNIV P" for P :: "org_role \<Rightarrow> bool"
    by (simp add: enum_ex_org_role_def univ list_ex_iff)
qed

end

text \<open>The names under which the values appear in JSON and in template strings.\<close>

definition payment_state_name :: "payment_state \<Rightarrow> string" where
  "payment_state_name s = (case s of
     DRAFT \<Rightarrow> ''DRAFT'' | VALIDATING \<Rightarrow> ''VALIDATING'' | AWAITING_ORACLE \<Rightarrow> ''AWAITING_ORACLE''
   | ORACLE_VERIFIED \<Rightarrow> ''ORACLE_VERIFIED'' | AWAITING_MANAGER \<Rightarrow> ''AWAITING_MANAGER''
   | AWAITING_FINANCE \<Rightarrow> ''AWAITING_FINANCE'' | READY_TO_SETTLE \<Rightarrow> ''READY_TO_SETTLE''
   | SUBMITTING \<Rightarrow> ''SUBMITTING'' | CONFIRMING \<Rightarrow> ''CONFIRMING'' | PAID \<Rightarrow> ''PAID''
   | REJECTED \<Rightarrow> ''REJECTED'' | CANCELLED \<Rightarrow> ''CANCELLED'' | EXPIRED \<Rightarrow> ''EXPIRED''
   | SUBMISSION_FAILED \<Rightarrow> ''SUBMISSION_FAILED'' | SETTLEMENT_FAILED \<Rightarrow> ''SETTLEMENT_FAILED''
   | RECONCILIATION_REQUIRED \<Rightarrow> ''RECONCILIATION_REQUIRED'')"

definition org_role_name :: "org_role \<Rightarrow> string" where
  "org_role_name r = (case r of
     OWNER \<Rightarrow> ''OWNER'' | ADMIN \<Rightarrow> ''ADMIN'' | MANAGER \<Rightarrow> ''MANAGER''
   | FINANCE \<Rightarrow> ''FINANCE'' | WORKER \<Rightarrow> ''WORKER'' | VIEWER \<Rightarrow> ''VIEWER'')"

lemma payment_state_all:
  "(\<forall>s :: payment_state. P s) \<longleftrightarrow> list_all P (enum_class.enum :: payment_state list)"
  by (simp add: list_all_iff enum_UNIV)

lemma org_role_all: "(\<forall>r :: org_role. P r) \<longleftrightarrow> list_all P (enum_class.enum :: org_role list)"
  by (simp add: list_all_iff enum_UNIV)

end
