(* ===== verification/Interfaces.thy ===== *)
theory Interfaces
  imports Prelude
begin

text \<open>
  The contracts between components, one locale each. A locale fixes the operations a client
  calls and assumes what the provider promises; the lemmas inside are proved once and reach the
  model through the interpretations in the theories of the providers:

    \<^item> \<open>codec\<close>: a rendering and its parser (money, bigints in a stored payload);
    \<^item> \<open>guarded_machine\<close>: a transition relation with terminal states (the payment state
      machine, the membership life cycle);
    \<^item> \<open>row_table\<close> and \<open>unique_table\<close>: what the database client promises about
      \<open>findFirst\<close>, \<open>updateMany\<close>, \<open>count\<close> and \<open>create\<close>;
    \<^item> \<open>event_log\<close>: a step that recognises the events it has already applied (the indexer).
\<close>

section \<open>Rendering and parsing\<close>

locale codec =
  fixes enc :: "'a \<Rightarrow> 'b"
    and dec :: "'b \<Rightarrow> 'a option"
    and valid :: "'a \<Rightarrow> bool"
  assumes dec_enc: "valid x \<Longrightarrow> dec (enc x) = Some x"
begin

lemma enc_eq_iff: "valid x \<Longrightarrow> valid y \<Longrightarrow> enc x = enc y \<longleftrightarrow> x = y"
  by (metis dec_enc option.inject)

lemma map_dec_enc: "list_all valid xs \<Longrightarrow> map (dec \<circ> enc) xs = map Some xs"
  by (induction xs) (simp_all add: dec_enc)

end

section \<open>Machines with terminal states\<close>

text \<open>
  \<open>run allowed s xs t\<close>: from \<open>s\<close> the steps \<open>xs\<close>, each a target state with the actor that
  moves there, lead to \<open>t\<close>.
\<close>

inductive run :: "('s \<Rightarrow> 's \<Rightarrow> 'a \<Rightarrow> bool) \<Rightarrow> 's \<Rightarrow> ('s \<times> 'a) list \<Rightarrow> 's \<Rightarrow> bool"
  for allowed where
  run_nil: "run allowed s [] s"
| run_step: "allowed s t a \<Longrightarrow> run allowed t xs u \<Longrightarrow> run allowed s ((t, a) # xs) u"

inductive_cases run_NilE: "run allowed s [] t"
inductive_cases run_ConsE: "run allowed s (x # xs) t"
inductive_simps run_Nil_iff [simp]: "run allowed s [] t"
inductive_simps run_Cons_iff [simp]: "run allowed s ((t, a) # xs) u"

lemma run_append:
  "run allowed s (xs @ ys) u \<longleftrightarrow> (\<exists>t. run allowed s xs t \<and> run allowed t ys u)"
  by (induction xs arbitrary: s) auto

lemma run_last: "run allowed s xs t \<Longrightarrow> t = last (s # map fst xs)"
  by (induction rule: run.induct) auto

lemma run_successively:
  "run allowed s xs t \<Longrightarrow> successively (\<lambda>u v. \<exists>a. allowed u v a) (s # map fst xs)"
  by (induction rule: run.induct) (auto simp: successively_Cons)

locale guarded_machine =
  fixes allowed :: "'s \<Rightarrow> 's \<Rightarrow> 'a \<Rightarrow> bool"
    and terminal :: "'s \<Rightarrow> bool"
  assumes terminal_refuses: "terminal s \<Longrightarrow> \<not> allowed s t a"
    and live: "\<not> terminal s \<Longrightarrow> \<exists>t a. allowed s t a"
    and irreflexive: "\<not> allowed s s a"
begin

lemma terminal_iff_stuck: "terminal s \<longleftrightarrow> (\<forall>t a. \<not> allowed s t a)"
  using terminal_refuses live by blast

lemma terminal_absorbing: "run allowed s xs t \<Longrightarrow> terminal s \<Longrightarrow> xs = [] \<and> t = s"
  by (cases xs) (auto dest: terminal_refuses elim: run_ConsE)

lemma terminal_only_last:
  "run allowed s (xs @ (u, a) # ys) t \<Longrightarrow> terminal u \<Longrightarrow> ys = [] \<and> t = u"
  by (auto simp: run_append dest: terminal_absorbing)

lemma steps_move: "run allowed s ((t, a) # xs) u \<Longrightarrow> s \<noteq> t"
  using irreflexive by auto

end

section \<open>Tables of the database client\<close>

locale row_table =
  fixes rows :: "'t \<Rightarrow> 'r list"
    and first :: "('r \<Rightarrow> bool) \<Rightarrow> 't \<Rightarrow> 'r option"
    and update_many :: "('r \<Rightarrow> bool) \<Rightarrow> ('r \<Rightarrow> 'r) \<Rightarrow> 't \<Rightarrow> 't \<times> nat"
  assumes first_rows: "first P t = List.find P (rows t)"
    and rows_update: "rows (fst (update_many P f t)) = map (\<lambda>r. if P r then f r else r) (rows t)"
    and count_update: "snd (update_many P f t) = length (filter P (rows t))"
begin

lemma first_SomeD: "first P t = Some r \<Longrightarrow> r \<in> set (rows t) \<and> P r"
  by (auto simp: first_rows find_Some_iff)

lemma first_None_iff: "first P t = None \<longleftrightarrow> (\<forall>r \<in> set (rows t). \<not> P r)"
  by (auto simp: first_rows find_None_iff)

lemma unclaimed: "snd (update_many P f t) = 0 \<Longrightarrow> rows (fst (update_many P f t)) = rows t"
  by (auto simp: count_update rows_update filter_empty_conv intro!: map_idI)

text \<open>A conditional update that falsifies its own condition is won at most once.\<close>

lemma claim_once:
  assumes "\<And>r. P r \<Longrightarrow> \<not> P (f r)"
  shows "snd (update_many P f (fst (update_many P f t))) = 0"
  using assms by (auto simp: count_update rows_update filter_empty_conv)

text \<open>A key that the update does not touch is never changed.\<close>

lemma update_keeps:
  assumes "\<And>r. P r \<Longrightarrow> g (f r) = g r"
  shows "map g (rows (fst (update_many P f t))) = map g (rows t)"
  using assms by (simp add: rows_update)

end

locale unique_table = row_table rows first update_many
  for rows :: "'t \<Rightarrow> 'r list"
    and first :: "('r \<Rightarrow> bool) \<Rightarrow> 't \<Rightarrow> 'r option"
    and update_many :: "('r \<Rightarrow> bool) \<Rightarrow> ('r \<Rightarrow> 'r) \<Rightarrow> 't \<Rightarrow> 't \<times> nat" +
  fixes key :: "'r \<Rightarrow> 'k"
    and create :: "'r \<Rightarrow> 't \<Rightarrow> 't option"
  assumes create_rows:
    "create r t = Some u \<Longrightarrow> rows u = rows t @ [r] \<and> key r \<notin> key ` set (rows t)"
    and create_refused: "create r t = None \<Longrightarrow> key r \<in> key ` set (rows t)"
begin

lemma create_distinct:
  "distinct (map key (rows t)) \<Longrightarrow> create r t = Some u \<Longrightarrow> distinct (map key (rows u))"
  by (auto dest!: create_rows)

lemma create_twice: "create r t = Some u \<Longrightarrow> key r = key q \<Longrightarrow> create q u = None"
  by (metis (no_types, lifting) create_rows image_eqI in_set_conv_decomp not_None_eq)

end

section \<open>Logs applied at most once\<close>

locale event_log =
  fixes seen :: "'s \<Rightarrow> 'e \<Rightarrow> bool"
    and apply_event :: "'e \<Rightarrow> 's \<Rightarrow> 's"
  assumes seen_skipped: "seen s e \<Longrightarrow> apply_event e s = s"
    and seen_mono: "seen s e \<Longrightarrow> seen (apply_event e' s) e"
begin

lemma fold_seen_mono: "seen s e \<Longrightarrow> seen (fold apply_event es s) e"
  by (induction es arbitrary: s) (simp_all add: seen_mono)

lemma fold_seen: "\<forall>e \<in> set es. seen s e \<Longrightarrow> fold apply_event es s = s"
  by (induction es) (simp_all add: seen_skipped)

end

end
