(* ===== verification/Database.thy ===== *)
theory Database
  imports Enums Interfaces
begin

text \<open>
  The tables of \<open>prisma/schema.prisma\<close> the modelled modules read and write, as lists of row
  records in insertion order, and the operations of the Prisma client on them. A column keeps its
  name behind a two-letter prefix of its table; a nullable column is an option, and \<open>null\<close> and an
  absent property are both \<open>None\<close>. Columns no modelled function reads or writes are left out.

  What the generated client and PostgreSQL contribute is taken at its documented meaning:
  \<open>findFirst\<close> returns the first matching row, \<open>updateMany\<close> updates every matching row and
  counts them, \<open>create\<close> fills the \<open>cuid()\<close> primary key. The clock and the key generator are
  the parameter \<open>env\<close> of every operation that uses them; a handler reads the clock once.
\<close>

section \<open>Values stored as JSON\<close>

datatype json =
    JNull | JBool bool | JNum int | JStr string | JArr "json list" | JObj "(string \<times> json) list"

type_synonym json_object = "(string \<times> json) list"

section \<open>Enums of the stored rows\<close>

datatype approval_decision = APPROVED | DECISION_REJECTED

datatype tx_kind =
    INITIALIZE_ESCROW | SUBMIT_HOURS_PROOF | MANAGER_APPROVE | FINANCE_APPROVE
  | PAY_BATCH | CANCEL_ESCROW | ROTATE_ORACLE_KEY | EXTEND_ESCROW_TTL

datatype tx_status =
    PREPARING | SIMULATING | AWAITING_SIGNATURE | SUBMITTED
  | CONFIRMED | FAILED | TX_EXPIRED | TX_CANCELLED

datatype finding_kind =
    DB_PAID_CHAIN_NOT | CHAIN_PAID_DB_NOT | AMOUNT_MISMATCH | ASSET_MISMATCH
  | RECIPIENT_MISMATCH | MISSING_ON_CHAIN | ORPHAN_ON_CHAIN | UNKNOWN_ON_CHAIN_OBJECT
  | FAILED_TX_ACTUALLY_SUCCEEDED | MISSING_PAYMENT_EVENT | DUPLICATE_PAYMENT_EVENT
  | CHAIN_UNREADABLE | OTHER

datatype finding_status = OPEN | ACKNOWLEDGED | INVESTIGATING | RESOLVED

datatype finding_severity = CRITICAL | HIGH | MEDIUM | LOW

datatype run_status = RUNNING | COMPLETED | RUN_FAILED | STALE

section \<open>The plan stored with a funding transaction\<close>

text \<open>\<open>StoredFundingPlan\<close> of \<open>src/lib/funding/service.ts\<close>, the content of the JSON column \<open>plan\<close>.\<close>

record plan_row =
  pr_paymentId :: row_id
  pr_worker :: address
  pr_token :: string
  pr_amountBaseUnits :: string
  pr_rateBaseUnits :: string
  pr_startDate :: int
  pr_endDate :: int

record stored_plan =
  sp_batchId :: row_id
  sp_reference :: string
  sp_orgId :: row_id
  sp_projectId :: "row_id option"
  sp_contractId :: string
  sp_custodyDestination :: string
  sp_network :: string
  sp_manager :: address
  sp_financeApprover :: address
  sp_oraclePublicKey :: string
  sp_assetCode :: string
  sp_assetContractId :: string
  sp_assetDecimals :: nat
  sp_totalBaseUnits :: string
  sp_paymentCount :: nat
  sp_createdAt :: instant
  sp_rows :: "plan_row list"

section \<open>Rows\<close>

record organization_row =
  og_id :: row_id
  og_name :: string
  og_slug :: string

record user_row =
  us_id :: row_id
  us_walletAddress :: address

record member_row =
  mb_id :: row_id
  mb_orgId :: row_id
  mb_userId :: row_id
  mb_role :: org_role
  mb_status :: membership_status
  mb_invitedAt :: "instant option"
  mb_activatedAt :: "instant option"
  mb_suspendedAt :: "instant option"
  mb_createdAt :: instant

record project_row =
  pj_id :: row_id
  pj_orgId :: row_id

record worker_row =
  wk_id :: row_id
  wk_orgId :: row_id
  wk_walletAddress :: address

record escrow_row =
  es_id :: row_id
  es_orgId :: row_id
  es_onChainId :: "int option"
  es_contractId :: string
  es_network :: string
  es_managerAddress :: address
  es_financeApproverAddress :: address
  es_assetDecimals :: nat
  es_totalAmountBaseUnits :: base_units
  es_managerApproved :: bool
  es_financeApproved :: bool
  es_cancelled :: bool
  es_oracleRotations :: int
  es_projectId :: "row_id option"
  es_oraclePublicKey :: "string option"
  es_tokenAddress :: "string option"
  es_createdAt :: instant

record batch_row =
  ba_id :: row_id
  ba_orgId :: row_id
  ba_reference :: string
  ba_projectId :: "row_id option"
  ba_periodStart :: "instant option"
  ba_periodEnd :: "instant option"
  ba_sourceFilename :: "string option"
  ba_sourceRowCount :: "nat option"
  ba_sourceChecksum :: "string option"
  ba_idempotencyKey :: "string option"
  ba_idempotencyFingerprint :: "string option"
  ba_uploadedBy :: "row_id option"
  ba_createdAt :: instant

record payment_row =
  pm_id :: row_id
  pm_orgId :: row_id
  pm_batchId :: row_id
  pm_escrowId :: "row_id option"
  pm_workerId :: "row_id option"
  pm_recipientAddress :: address
  pm_onChainPaymentIndex :: "int option"
  pm_assetContractId :: "string option"
  pm_assetDecimals :: nat
  pm_amountBaseUnits :: base_units
  pm_rateBaseUnits :: base_units
  pm_hours :: int
  pm_periodStart :: "instant option"
  pm_periodEnd :: "instant option"
  pm_state :: payment_state
  pm_stateUpdatedAt :: instant
  pm_stateReason :: "string option"
  pm_settledAt :: "instant option"
  pm_settlementTxHash :: "string option"
  pm_assetCode :: string
  pm_projectId :: "row_id option"
  pm_sourceReference :: "string option"
  pm_createdAt :: instant

record approval_row =
  ap_id :: row_id
  ap_orgId :: row_id
  ap_paymentId :: row_id
  ap_role :: org_role
  ap_decision :: approval_decision
  ap_actorAddress :: address
  ap_reason :: "string option"

record transaction_row =
  tx_id :: row_id
  tx_orgId :: row_id
  tx_paymentId :: "row_id option"
  tx_escrowId :: "row_id option"
  tx_kind :: tx_kind
  tx_status :: tx_status
  tx_idempotencyKey :: string
  tx_attempt :: nat
  tx_hash :: "string option"
  tx_contractId :: "string option"
  tx_batchId :: "row_id option"
  tx_network :: string
  tx_plan :: "stored_plan option"
  tx_planDigest :: "string option"
  tx_errorMessage :: "string option"
  tx_createdAt :: instant
  tx_submittedAt :: "instant option"
  tx_confirmedAt :: "instant option"

record audit_row =
  au_id :: row_id
  au_orgId :: row_id
  au_type :: string
  au_actorAddress :: "address option"
  au_actorSystem :: "string option"
  au_paymentId :: "row_id option"
  au_batchId :: "row_id option"
  au_escrowId :: "row_id option"
  au_previousState :: "payment_state option"
  au_newState :: "payment_state option"
  au_txHash :: "string option"
  au_metadata :: "json_object option"

record finding_row =
  fd_id :: row_id
  fd_orgId :: row_id
  fd_paymentId :: "row_id option"
  fd_kind :: finding_kind
  fd_dbState :: "string option"
  fd_chainState :: "string option"
  fd_metadata :: json_object
  fd_runId :: "row_id option"
  fd_status :: finding_status
  fd_severity :: finding_severity
  fd_txHash :: "string option"
  fd_escrowOnChainId :: "int option"
  fd_paymentIndex :: "int option"
  fd_detectedAt :: instant
  fd_lastObservedAt :: instant
  fd_observationCount :: nat
  fd_acknowledgedAt :: "instant option"
  fd_acknowledgedBy :: "address option"
  fd_resolvedAt :: "instant option"
  fd_resolvedBy :: "address option"
  fd_resolution :: "string option"

record run_row =
  rn_id :: row_id
  rn_orgId :: row_id
  rn_correlationId :: string
  rn_scope :: string
  rn_contractId :: "string option"
  rn_network :: "string option"
  rn_status :: run_status
  rn_startedAt :: instant
  rn_completedAt :: "instant option"
  rn_heartbeatAt :: instant
  rn_escrowsExamined :: nat
  rn_paymentsExamined :: nat
  rn_agreed :: nat
  rn_mismatched :: nat
  rn_unreadable :: nat
  rn_chainAhead :: nat
  rn_databaseAhead :: nat
  rn_findingsOpened :: nat
  rn_correctionsApplied :: nat
  rn_errorMessage :: "string option"

record invitation_row =
  iv_id :: row_id
  iv_orgId :: row_id
  iv_email :: string
  iv_orgRole :: org_role
  iv_tokenHash :: string
  iv_expiresAt :: instant
  iv_usedAt :: "instant option"
  iv_revokedAt :: "instant option"

record chain_event_row =
  ce_id :: string
  ce_contractId :: "string option"
  ce_network :: string
  ce_type :: string
  ce_ledger :: int
  ce_txHash :: "string option"
  ce_escrowOnChainId :: "int option"
  ce_paymentIndex :: "int option"
  ce_payload :: json
  ce_attributed :: bool
  ce_processedAt :: instant

record cursor_row =
  cu_contractId :: string
  cu_network :: string
  cu_lastLedger :: int

text \<open>The database; \<open>serial\<close> counts the primary keys handed out.\<close>

record database =
  organizations :: "organization_row list"
  users :: "user_row list"
  members :: "member_row list"
  projects :: "project_row list"
  workers :: "worker_row list"
  escrows :: "escrow_row list"
  batches :: "batch_row list"
  payments :: "payment_row list"
  approvals :: "approval_row list"
  transactions :: "transaction_row list"
  auditEvents :: "audit_row list"
  findings :: "finding_row list"
  invitations :: "invitation_row list"
  chainEvents :: "chain_event_row list"
  cursors :: "cursor_row list"
  reconciliationRuns :: "run_row list"
  serial :: nat

definition empty_db :: database where
  "empty_db = \<lparr>organizations = [], users = [], members = [], projects = [], workers = [],
     escrows = [], batches = [], payments = [], approvals = [], transactions = [],
     auditEvents = [], findings = [], invitations = [], chainEvents = [], cursors = [],
     reconciliationRuns = [], serial = 0\<rparr>"

record env =
  now :: instant
  cuid :: "nat \<Rightarrow> row_id"

definition new_id :: "env \<Rightarrow> database \<Rightarrow> row_id" where
  "new_id e db = cuid e (serial db)"

section \<open>Client operations on one table\<close>

definition findFirst :: "('r \<Rightarrow> bool) \<Rightarrow> 'r list \<Rightarrow> 'r option" where
  "findFirst P t = List.find P t"

definition updateMany :: "('r \<Rightarrow> bool) \<Rightarrow> ('r \<Rightarrow> 'r) \<Rightarrow> 'r list \<Rightarrow> 'r list \<times> nat" where
  "updateMany P f t = (map (\<lambda>r. if P r then f r else r) t, length (filter P t))"

definition updated :: "('r \<Rightarrow> bool) \<Rightarrow> ('r \<Rightarrow> 'r) \<Rightarrow> 'r list \<Rightarrow> 'r list" where
  "updated P f t = fst (updateMany P f t)"

text \<open>\<open>create\<close> under a unique constraint: \<open>None\<close> is the error \<open>P2002\<close>.\<close>

definition createUnique :: "('r \<Rightarrow> 'k) \<Rightarrow> 'r \<Rightarrow> 'r list \<Rightarrow> 'r list option" where
  "createUnique key r t = (if key r \<in> key ` set t then None else Some (t @ [r]))"

interpretation table: row_table "\<lambda>t. t" findFirst updateMany
  by unfold_locales (simp_all add: findFirst_def updateMany_def)

interpretation keyed: unique_table "\<lambda>t. t" findFirst updateMany key "createUnique key" for key
proof unfold_locales
  show "u = t @ [r] \<and> key r \<notin> key ` set t" if "createUnique key r t = Some u" for r t u
    using that by (simp add: createUnique_def split: if_splits)
  show "key r \<in> key ` set t" if "createUnique key r t = None" for r t
    using that by (simp add: createUnique_def split: if_splits)
qed

lemma updated_eq: "updated P f t = map (\<lambda>r. if P r then f r else r) t"
  by (simp add: updated_def updateMany_def)

lemma set_updated [table_simps]:
  "r \<in> set (updated P f t) \<longleftrightarrow> (\<exists>q \<in> set t. r = (if P q then f q else q))"
  by (auto simp: updated_eq)

lemma length_updated [simp]: "length (updated P f t) = length t"
  by (simp add: updated_eq)

lemma updated_none [table_simps]: "(\<And>r. r \<in> set t \<Longrightarrow> \<not> P r) \<Longrightarrow> updated P f t = t"
  by (auto simp: updated_eq intro: map_idI)

lemma map_updated: "(\<And>r. r \<in> set t \<Longrightarrow> P r \<Longrightarrow> g (f r) = g r) \<Longrightarrow> map g (updated P f t) = map g t"
  by (simp add: updated_eq)

lemma findFirst_SomeD: "findFirst P t = Some r \<Longrightarrow> r \<in> set t \<and> P r"
  by (rule table.first_SomeD)

lemma findFirst_None_iff [simp]: "findFirst P t = None \<longleftrightarrow> (\<forall>r \<in> set t. \<not> P r)"
  by (rule table.first_None_iff)

lemma findFirst_Nil [simp]: "findFirst P [] = None"
  by simp

lemma findFirst_Cons [table_simps]:
  "findFirst P (x # xs) = (if P x then Some x else findFirst P xs)"
  by (simp add: findFirst_def)

lemma findFirst_append:
  "findFirst P (xs @ ys) = (case findFirst P xs of Some r \<Rightarrow> Some r | None \<Rightarrow> findFirst P ys)"
  by (induction xs) (simp_all add: findFirst_def)

lemma findFirst_after: "\<forall>r \<in> set t. \<not> P r \<Longrightarrow> findFirst P (t @ u) = findFirst P u"
  by (induction t) (simp_all add: findFirst_def)

lemma filter_updated:
  "(\<And>r. r \<in> set t \<Longrightarrow> P r \<Longrightarrow> \<not> Q r \<and> \<not> Q (f r)) \<Longrightarrow> filter Q (updated P f t) = filter Q t"
  by (induction t) (auto simp: updated_eq)

text \<open>A lookup that does not read what an update writes finds the same row, updated.\<close>

lemma findFirst_updated:
  "(\<And>r. Q r \<Longrightarrow> P (f r) \<longleftrightarrow> P r) \<Longrightarrow>
   findFirst P (updated Q f t) = map_option (\<lambda>r. if Q r then f r else r) (findFirst P t)"
  by (induction t) (auto simp: updated_eq findFirst_Cons)

text \<open>A lookup by a column with distinct values finds the row itself.\<close>

lemma findFirst_unique:
  assumes "distinct (map g t)" and "r \<in> set t" and "P r" and "\<And>q. P q \<Longrightarrow> g q = g r"
  shows "findFirst P t = Some r"
  using assms(1,2)
proof (induction t)
  case (Cons x t)
  show ?case
  proof (cases "P x")
    case True
    then have "g x = g r" by (rule assms(4))
    then have "x = r" using Cons.prems by (metis distinct.simps(2) imageI list.simps(9) set_ConsD set_map)
    then show ?thesis using True by (simp add: findFirst_Cons)
  next
    case False
    then have "r \<in> set t" using Cons.prems assms(3) by auto
    then show ?thesis using Cons False by (simp add: findFirst_Cons)
  qed
qed simp

end
