(* ===== verification/Rbac.thy ===== *)
theory Rbac
  imports Enums Interfaces
begin

text \<open>
  \<open>src/lib/tenancy/rbac.ts\<close>: the permission matrix and the delegation matrix, as the
  data they are in the source. A permission string such as \<open>payment:approve:finance\<close> is the
  constructor \<open>Payment_approve_finance\<close>; \<open>permission_name\<close> gives the string back, for the
  sorted list of all permissions.
\<close>

section \<open>Permissions\<close>

datatype permission =
    Org_read | Org_update | Org_delete
  | Member_read | Member_invite | Member_role_assign | Member_suspend | Member_remove
  | Project_read | Project_create | Project_update | Project_archive
  | Worker_read | Worker_create | Worker_update | Worker_archive
  | Payroll_read | Payroll_create | Payroll_update | Payroll_delete
  | Payment_read | Payment_approve_manager | Payment_approve_finance | Payment_reject
  | Payment_cancel | Payment_submit | Payment_retry
  | Escrow_read | Escrow_create | Escrow_cancel | Oracle_attest_request
  | Treasury_read
  | Audit_read | Reconciliation_read | Reconciliation_resolve

definition permission_name :: "permission \<Rightarrow> string" where
  "permission_name p = (case p of
     Org_read \<Rightarrow> ''org:read''
   | Org_update \<Rightarrow> ''org:update''
   | Org_delete \<Rightarrow> ''org:delete''
   | Member_read \<Rightarrow> ''member:read''
   | Member_invite \<Rightarrow> ''member:invite''
   | Member_role_assign \<Rightarrow> ''member:role:assign''
   | Member_suspend \<Rightarrow> ''member:suspend''
   | Member_remove \<Rightarrow> ''member:remove''
   | Project_read \<Rightarrow> ''project:read''
   | Project_create \<Rightarrow> ''project:create''
   | Project_update \<Rightarrow> ''project:update''
   | Project_archive \<Rightarrow> ''project:archive''
   | Worker_read \<Rightarrow> ''worker:read''
   | Worker_create \<Rightarrow> ''worker:create''
   | Worker_update \<Rightarrow> ''worker:update''
   | Worker_archive \<Rightarrow> ''worker:archive''
   | Payroll_read \<Rightarrow> ''payroll:read''
   | Payroll_create \<Rightarrow> ''payroll:create''
   | Payroll_update \<Rightarrow> ''payroll:update''
   | Payroll_delete \<Rightarrow> ''payroll:delete''
   | Payment_read \<Rightarrow> ''payment:read''
   | Payment_approve_manager \<Rightarrow> ''payment:approve:manager''
   | Payment_approve_finance \<Rightarrow> ''payment:approve:finance''
   | Payment_reject \<Rightarrow> ''payment:reject''
   | Payment_cancel \<Rightarrow> ''payment:cancel''
   | Payment_submit \<Rightarrow> ''payment:submit''
   | Payment_retry \<Rightarrow> ''payment:retry''
   | Escrow_read \<Rightarrow> ''escrow:read''
   | Escrow_create \<Rightarrow> ''escrow:create''
   | Escrow_cancel \<Rightarrow> ''escrow:cancel''
   | Oracle_attest_request \<Rightarrow> ''oracle:attest:request''
   | Treasury_read \<Rightarrow> ''treasury:read''
   | Audit_read \<Rightarrow> ''audit:read''
   | Reconciliation_read \<Rightarrow> ''reconciliation:read''
   | Reconciliation_resolve \<Rightarrow> ''reconciliation:resolve'')"

definition GRANTS :: "org_role \<Rightarrow> permission list" where
  "GRANTS r = (case r of
     OWNER \<Rightarrow>
       [Org_read, Org_update, Org_delete,
        Member_read, Member_invite, Member_role_assign, Member_suspend, Member_remove,
        Project_read, Project_create, Project_update, Project_archive,
        Worker_read, Worker_create, Worker_update, Worker_archive,
        Payroll_read, Payroll_create, Payroll_update, Payroll_delete,
        Payment_read, Payment_approve_manager, Payment_approve_finance,
        Payment_reject, Payment_cancel, Payment_submit, Payment_retry,
        Escrow_read, Escrow_create, Escrow_cancel, Oracle_attest_request,
        Treasury_read,
        Audit_read, Reconciliation_read, Reconciliation_resolve]
   | ADMIN \<Rightarrow>
       [Org_read, Org_update,
        Member_read, Member_invite, Member_role_assign, Member_suspend, Member_remove,
        Project_read, Project_create, Project_update, Project_archive,
        Worker_read, Worker_create, Worker_update, Worker_archive,
        Payroll_read, Payroll_create, Payroll_update, Payroll_delete,
        Payment_read, Payment_approve_manager, Payment_approve_finance,
        Payment_reject, Payment_cancel, Payment_submit, Payment_retry,
        Escrow_read, Escrow_create, Escrow_cancel, Oracle_attest_request,
        Treasury_read,
        Audit_read, Reconciliation_read, Reconciliation_resolve]
   | MANAGER \<Rightarrow>
       [Org_read,
        Member_read,
        Project_read,
        Worker_read, Worker_create, Worker_update,
        Payroll_read, Payroll_create, Payroll_update,
        Payment_read, Payment_approve_manager, Payment_reject, Payment_cancel,
        Payment_submit, Payment_retry,
        Escrow_read, Escrow_create, Oracle_attest_request,
        Treasury_read,
        Audit_read, Reconciliation_read]
   | FINANCE \<Rightarrow>
       [Org_read,
        Member_read,
        Project_read,
        Worker_read,
        Payroll_read,
        Payment_read, Payment_approve_finance, Payment_reject, Payment_cancel,
        Payment_submit, Payment_retry,
        Escrow_read,
        Treasury_read,
        Audit_read, Reconciliation_read]
   | WORKER \<Rightarrow>
       []
   | VIEWER \<Rightarrow>
       [Org_read,
        Member_read,
        Project_read,
        Worker_read,
        Payroll_read,
        Payment_read,
        Escrow_read,
        Treasury_read,
        Audit_read, Reconciliation_read])"

definition permissionsFor :: "org_role \<Rightarrow> permission list" where
  "permissionsFor r = GRANTS r"

definition can :: "org_role \<Rightarrow> permission \<Rightarrow> bool" where
  "can r p \<longleftrightarrow> p \<in> set (GRANTS r)"

definition canAll :: "org_role \<Rightarrow> permission list \<Rightarrow> bool" where
  "canAll r ps \<longleftrightarrow> list_all (can r) ps"

definition canAny :: "org_role \<Rightarrow> permission list \<Rightarrow> bool" where
  "canAny r ps \<longleftrightarrow> list_ex (can r) ps"

text \<open>The default order of \<open>Array.prototype.sort\<close> on strings: by code unit.\<close>

fun string_compare :: "string \<Rightarrow> string \<Rightarrow> int" where
  "string_compare [] [] = 0"
| "string_compare [] (_ # _) = -1"
| "string_compare (_ # _) [] = 1"
| "string_compare (c # cs) (d # ds) =
     (if code_unit c < code_unit d then -1
      else if code_unit d < code_unit c then 1 else string_compare cs ds)"

definition ALL_ROLES :: "org_role list" where
  "ALL_ROLES = enum_class.enum"

definition ALL_PERMISSIONS :: "permission list" where
  "ALL_PERMISSIONS = js_sort (\<lambda>p q. string_compare (permission_name p) (permission_name q))
     (rev (remdups (rev (concat (map GRANTS ALL_ROLES)))))"

section \<open>Delegation\<close>

definition DELEGATABLE :: "org_role \<Rightarrow> org_role list" where
  "DELEGATABLE r = (case r of
     OWNER \<Rightarrow> [OWNER, ADMIN, MANAGER, FINANCE, WORKER, VIEWER]
   | ADMIN \<Rightarrow> [ADMIN, MANAGER, FINANCE, WORKER, VIEWER]
   | MANAGER \<Rightarrow> []
   | FINANCE \<Rightarrow> []
   | WORKER \<Rightarrow> []
   | VIEWER \<Rightarrow> [])"

definition canAssignRole :: "org_role \<Rightarrow> org_role \<Rightarrow> bool" where
  "canAssignRole actor_role target \<longleftrightarrow> target \<in> set (DELEGATABLE actor_role)"

definition assignableRoles :: "org_role \<Rightarrow> org_role list" where
  "assignableRoles actor_role = DELEGATABLE actor_role"

definition ADMINISTRATIVE_ROLES :: "org_role list" where
  "ADMINISTRATIVE_ROLES = [OWNER, ADMIN]"

definition isAdministrative :: "org_role \<Rightarrow> bool" where
  "isAdministrative r \<longleftrightarrow> r \<in> set ADMINISTRATIVE_ROLES"

section \<open>Lemmas\<close>

lemma isAdministrative_iff: "isAdministrative r \<longleftrightarrow> r = OWNER \<or> r = ADMIN"
  by (auto simp: isAdministrative_def ADMINISTRATIVE_ROLES_def)

lemma grant_le:
  "canAssignRole a t \<Longrightarrow> set (GRANTS t) \<subseteq> set (GRANTS a)"
  by (cases a; cases t) (simp_all add: canAssignRole_def DELEGATABLE_def GRANTS_def)

lemma delegation_needs_permission: "canAssignRole a t \<Longrightarrow> can a Member_role_assign"
  by (cases a) (simp_all add: canAssignRole_def DELEGATABLE_def can_def GRANTS_def)

text \<open>The permissions that only read.\<close>

definition reads :: "permission list" where
  "reads = [Org_read, Member_read, Project_read, Worker_read, Payroll_read, Payment_read,
     Escrow_read, Treasury_read, Audit_read, Reconciliation_read]"

section \<open>Properties\<close>

text \<open>
  Delegation cannot escalate. However many role assignments are chained, each by someone
  entitled to make it, the role at the end holds no permission the first role lacked; an
  \<open>OWNER\<close> is only ever made by an \<open>OWNER\<close>, and a role that may assign at all holds the
  permission to assign.
\<close>

theorem delegation_never_escalates:
  assumes "canAssignRole\<^sup>*\<^sup>* a t"
  shows "set (permissionsFor t) \<subseteq> set (permissionsFor a) \<and> (t = OWNER \<longrightarrow> a = OWNER)
         \<and> (a \<noteq> t \<longrightarrow> can a Member_role_assign)"
  using assms
proof (induction rule: converse_rtranclp_induct)
  case (step a b)
  have "b = OWNER \<longrightarrow> a = OWNER"
    using step.hyps(1) by (cases a) (auto simp: canAssignRole_def DELEGATABLE_def)
  then show ?case
    using step grant_le[OF step.hyps(1)] delegation_needs_permission[OF step.hyps(1)]
    by (auto simp: permissionsFor_def)
qed simp

theorem delegation_never_escalates_witness:
  "set (permissionsFor FINANCE) \<subseteq> set (permissionsFor OWNER) \<and> can OWNER Member_role_assign"
proof -
  have "canAssignRole\<^sup>*\<^sup>* OWNER FINANCE"
    by (rule rtranclp_trans[of _ _ ADMIN]; rule r_into_rtranclp;
        simp add: canAssignRole_def DELEGATABLE_def)
  from delegation_never_escalates[OF this] show ?thesis by simp
qed

text \<open>
  The matrix separates the duties it promises to. Manager and finance each hold one half of
  the dual approval and not the other, finance cannot create what it approves, an administrator
  has everything the owner has except deleting the organization, a viewer only reads, and a worker
  holds nothing.
\<close>

theorem permission_matrix_separates_duties:
  "can MANAGER Payment_approve_manager \<and> \<not> can MANAGER Payment_approve_finance \<and>
   can FINANCE Payment_approve_finance \<and> \<not> can FINANCE Payment_approve_manager \<and>
   \<not> canAny FINANCE [Payroll_create, Payroll_update, Worker_create, Worker_update] \<and>
   set (permissionsFor ADMIN) = set (permissionsFor OWNER) - {Org_delete} \<and>
   set (permissionsFor VIEWER) \<subseteq> set reads \<and> permissionsFor WORKER = [] \<and>
   set ALL_PERMISSIONS = set (permissionsFor OWNER)"
proof -
  have all: "set ALL_PERMISSIONS = set (GRANTS OWNER)"
    by (simp add: ALL_PERMISSIONS_def ALL_ROLES_def enum_org_role_def)
      (simp add: GRANTS_def insert_commute)
  have admin: "set (GRANTS ADMIN) = set (GRANTS OWNER) - {Org_delete}"
    by code_simp
  show ?thesis
    unfolding permissionsFor_def all admin
    by (simp add: can_def canAny_def GRANTS_def reads_def)
qed

end
