(* ===== verification/StateMachine.thy ===== *)
theory StateMachine
  imports Enums Interfaces
begin

text \<open>
  \<open>src/lib/payments/state-machine.ts\<close>: the table of payment transitions, who may perform
  each, the check every caller goes through, and the state descriptors. A transition is
  identified by its two states, so the English \<open>reason\<close> and the messages of a refusal, which
  nothing branches on, are left out; so is the one-line \<open>description\<close> of a state.
\<close>

section \<open>Actors and transitions\<close>

datatype actor_kind = User | Indexer | Reconciler | System

record actor =
  kind :: actor_kind
  role :: "org_role option"
  address :: "address option"
  system :: "string option"

record transition =
  from_state :: payment_state
  to_state :: payment_state
  actors :: "actor_kind list"
  roles :: "org_role list option"

definition ADMINISTRATIVE :: "org_role list" where
  "ADMINISTRATIVE = [OWNER, ADMIN]"

definition CHAIN_OBSERVERS :: "actor_kind list" where
  "CHAIN_OBSERVERS = [Indexer, Reconciler]"

abbreviation edge ::
  "payment_state \<Rightarrow> payment_state \<Rightarrow> actor_kind list \<Rightarrow> org_role list option \<Rightarrow> transition" where
  "edge f t ks rs \<equiv> \<lparr>from_state = f, to_state = t, actors = ks, roles = rs\<rparr>"

text \<open>The table, in the sections the source has.\<close>

definition AUTHORING_TRANSITIONS :: "transition list" where
  "AUTHORING_TRANSITIONS = [
    edge DRAFT VALIDATING [User] (Some (ADMINISTRATIVE @ [MANAGER])),
    edge DRAFT CANCELLED [User] (Some (ADMINISTRATIVE @ [MANAGER])),
    edge VALIDATING DRAFT [System] None,
    edge VALIDATING AWAITING_ORACLE CHAIN_OBSERVERS None,
    edge VALIDATING REJECTED [User] (Some (ADMINISTRATIVE @ [MANAGER, FINANCE])),
    edge VALIDATING CANCELLED [User] (Some (ADMINISTRATIVE @ [MANAGER]))]"

definition ORACLE_TRANSITIONS :: "transition list" where
  "ORACLE_TRANSITIONS = [
    edge AWAITING_ORACLE ORACLE_VERIFIED CHAIN_OBSERVERS None,
    edge AWAITING_ORACLE CANCELLED CHAIN_OBSERVERS None,
    edge AWAITING_ORACLE EXPIRED [System] None,
    edge ORACLE_VERIFIED AWAITING_MANAGER [System, Indexer] None,
    edge ORACLE_VERIFIED CANCELLED CHAIN_OBSERVERS None]"

definition DUAL_APPROVAL_TRANSITIONS :: "transition list" where
  "DUAL_APPROVAL_TRANSITIONS = [
    edge AWAITING_MANAGER AWAITING_FINANCE CHAIN_OBSERVERS None,
    edge AWAITING_MANAGER REJECTED [User] (Some (ADMINISTRATIVE @ [MANAGER])),
    edge AWAITING_MANAGER CANCELLED CHAIN_OBSERVERS None,
    edge AWAITING_MANAGER EXPIRED [System] None,
    edge AWAITING_FINANCE READY_TO_SETTLE CHAIN_OBSERVERS None,
    edge AWAITING_FINANCE REJECTED [User] (Some (ADMINISTRATIVE @ [FINANCE])),
    edge AWAITING_FINANCE CANCELLED CHAIN_OBSERVERS None,
    edge AWAITING_FINANCE EXPIRED [System] None]"

definition SETTLEMENT_TRANSITIONS :: "transition list" where
  "SETTLEMENT_TRANSITIONS = [
    edge READY_TO_SETTLE SUBMITTING [User] (Some (ADMINISTRATIVE @ [MANAGER, FINANCE])),
    edge READY_TO_SETTLE CANCELLED CHAIN_OBSERVERS None,
    edge SUBMITTING CONFIRMING [System] None,
    edge SUBMITTING SUBMISSION_FAILED [System] None,
    edge CONFIRMING PAID CHAIN_OBSERVERS None,
    edge READY_TO_SETTLE PAID CHAIN_OBSERVERS None,
    edge SUBMITTING PAID CHAIN_OBSERVERS None,
    edge CONFIRMING SETTLEMENT_FAILED [Indexer, System] None,
    edge CONFIRMING RECONCILIATION_REQUIRED [Reconciler, System] None]"

definition RECOVERY_TRANSITIONS :: "transition list" where
  "RECOVERY_TRANSITIONS = [
    edge SUBMISSION_FAILED READY_TO_SETTLE [User] (Some (ADMINISTRATIVE @ [MANAGER, FINANCE])),
    edge SUBMISSION_FAILED CANCELLED [User] (Some (ADMINISTRATIVE @ [MANAGER])),
    edge SUBMISSION_FAILED RECONCILIATION_REQUIRED [Reconciler] None,
    edge SETTLEMENT_FAILED RECONCILIATION_REQUIRED [Reconciler, System] None,
    edge SETTLEMENT_FAILED PAID CHAIN_OBSERVERS None,
    edge SETTLEMENT_FAILED READY_TO_SETTLE [Reconciler] None]"

definition RECONCILIATION_OUTCOMES_TRANSITIONS :: "transition list" where
  "RECONCILIATION_OUTCOMES_TRANSITIONS = [
    edge RECONCILIATION_REQUIRED PAID [Reconciler, Indexer] None,
    edge RECONCILIATION_REQUIRED READY_TO_SETTLE [Reconciler] None,
    edge RECONCILIATION_REQUIRED SETTLEMENT_FAILED [Reconciler] None,
    edge RECONCILIATION_REQUIRED CANCELLED [User, Reconciler] (Some (ADMINISTRATIVE))]"

definition TRANSITIONS :: "transition list" where
  "TRANSITIONS = AUTHORING_TRANSITIONS @ ORACLE_TRANSITIONS @ DUAL_APPROVAL_TRANSITIONS
     @ SETTLEMENT_TRANSITIONS @ RECOVERY_TRANSITIONS @ RECONCILIATION_OUTCOMES_TRANSITIONS"

definition TERMINAL_STATES :: "payment_state list" where
  "TERMINAL_STATES = [PAID, REJECTED, CANCELLED, EXPIRED]"

definition isTerminal :: "payment_state \<Rightarrow> bool" where
  "isTerminal state \<longleftrightarrow> state \<in> set TERMINAL_STATES"

definition transitionsFrom :: "payment_state \<Rightarrow> transition list" where
  "transitionsFrom state = filter (\<lambda>t. from_state t = state) TRANSITIONS"

definition findTransition :: "payment_state \<Rightarrow> payment_state \<Rightarrow> transition option" where
  "findTransition f t = List.find (\<lambda>tr. from_state tr = f \<and> to_state tr = t) TRANSITIONS"

section \<open>The check\<close>

datatype transition_error_code =
    SAME_STATE | TERMINAL | INVALID_TRANSITION
  | ACTOR_NOT_PERMITTED | ROLE_NOT_PERMITTED | ROLE_REQUIRED

type_synonym transition_check = "transition_error_code + transition"

definition checkTransition :: "payment_state \<Rightarrow> payment_state \<Rightarrow> actor \<Rightarrow> transition_check" where
  "checkTransition f t a =
     (if f = t then Inl SAME_STATE
      else if isTerminal f then Inl TERMINAL
      else case findTransition f t of
        None \<Rightarrow> Inl INVALID_TRANSITION
      | Some tr \<Rightarrow>
          if kind a \<notin> set (actors tr) then Inl ACTOR_NOT_PERMITTED
          else if kind a = User then
            (let allowed = (case roles tr of None \<Rightarrow> [] | Some rs \<Rightarrow> rs) in
             if length allowed = 0 then Inl ROLE_NOT_PERMITTED
             else case role a of
               None \<Rightarrow> Inl ROLE_REQUIRED
             | Some r \<Rightarrow> if r \<notin> set allowed then Inl ROLE_NOT_PERMITTED else Inr tr)
          else Inr tr)"

text \<open>The throwing form; the left value is the \<open>InvalidTransitionError\<close> it throws.\<close>

definition assertTransition ::
  "payment_state \<Rightarrow> payment_state \<Rightarrow> actor \<Rightarrow> transition_error_code + transition" where
  "assertTransition f t a = (case checkTransition f t a of Inl c \<Rightarrow> Inl c | Inr tr \<Rightarrow> Inr tr)"

section \<open>Presentation\<close>

datatype tone = Neutral | Progress | Pending | Success | Warning | Danger

record state_descriptor =
  label :: string
  state_tone :: tone
  mayHaveTransaction :: bool
  needsAttention :: bool

abbreviation descriptor :: "string \<Rightarrow> tone \<Rightarrow> bool \<Rightarrow> bool \<Rightarrow> state_descriptor" where
  "descriptor l t m n \<equiv> \<lparr>label = l, state_tone = t, mayHaveTransaction = m, needsAttention = n\<rparr>"

definition describeState :: "payment_state \<Rightarrow> state_descriptor" where
  "describeState state = (case state of
  DRAFT \<Rightarrow> descriptor ''Draft'' Neutral False False
  | VALIDATING \<Rightarrow> descriptor ''Validating'' Progress False False
  | AWAITING_ORACLE \<Rightarrow> descriptor ''Awaiting oracle verification'' Pending False False
  | ORACLE_VERIFIED \<Rightarrow> descriptor ''Work verified'' Progress True False
  | AWAITING_MANAGER \<Rightarrow> descriptor ''Awaiting manager approval'' Pending True True
  | AWAITING_FINANCE \<Rightarrow> descriptor ''Awaiting finance approval'' Pending True True
  | READY_TO_SETTLE \<Rightarrow> descriptor ''Ready to settle'' Progress True True
  | SUBMITTING \<Rightarrow> descriptor ''Submitting to Stellar'' Progress True False
  | CONFIRMING \<Rightarrow> descriptor ''Confirming on Stellar'' Progress True False
  | PAID \<Rightarrow> descriptor ''Paid'' Success True False
  | REJECTED \<Rightarrow> descriptor ''Rejected'' Danger False False
  | CANCELLED \<Rightarrow> descriptor ''Cancelled'' Neutral True False
  | EXPIRED \<Rightarrow> descriptor ''Expired'' Warning False True
  | SUBMISSION_FAILED \<Rightarrow> descriptor ''Submission failed'' Danger False True
  | SETTLEMENT_FAILED \<Rightarrow> descriptor ''Settlement failed'' Danger True True
  | RECONCILIATION_REQUIRED \<Rightarrow> descriptor ''Reconciliation required'' Danger True True)"

section \<open>The table as data\<close>

lemmas table_defs = TRANSITIONS_def AUTHORING_TRANSITIONS_def ORACLE_TRANSITIONS_def
  DUAL_APPROVAL_TRANSITIONS_def SETTLEMENT_TRANSITIONS_def RECOVERY_TRANSITIONS_def
  RECONCILIATION_OUTCOMES_TRANSITIONS_def ADMINISTRATIVE_def CHAIN_OBSERVERS_def

lemma isTerminal_simps [simp]:
  "isTerminal PAID" "isTerminal REJECTED" "isTerminal CANCELLED" "isTerminal EXPIRED"
  "\<not> isTerminal DRAFT" "\<not> isTerminal VALIDATING" "\<not> isTerminal AWAITING_ORACLE"
  "\<not> isTerminal ORACLE_VERIFIED" "\<not> isTerminal AWAITING_MANAGER"
  "\<not> isTerminal AWAITING_FINANCE" "\<not> isTerminal READY_TO_SETTLE" "\<not> isTerminal SUBMITTING"
  "\<not> isTerminal CONFIRMING" "\<not> isTerminal SUBMISSION_FAILED"
  "\<not> isTerminal SETTLEMENT_FAILED" "\<not> isTerminal RECONCILIATION_REQUIRED"
  by (simp_all add: isTerminal_def TERMINAL_STATES_def)

lemma TRANSITIONS_distinct: "distinct (map (\<lambda>tr. (from_state tr, to_state tr)) TRANSITIONS)"
  by (simp add: table_defs)

lemma TRANSITIONS_wf:
  "list_all (\<lambda>tr. \<not> isTerminal (from_state tr) \<and> from_state tr \<noteq> to_state tr \<and> actors tr \<noteq> []
     \<and> (User \<in> set (actors tr) \<longleftrightarrow> roles tr \<noteq> None) \<and> roles tr \<noteq> Some []) TRANSITIONS"
  by (simp add: table_defs)

lemma find_distinct:
  assumes "distinct (map g xs)"
  shows "List.find (\<lambda>x. g x = k) xs = Some x \<longleftrightarrow> x \<in> set xs \<and> g x = k"
  using assms by (induction xs) (auto simp: inj_on_def dest: image_eqI)

lemma findTransition_Some:
  "findTransition f t = Some tr \<longleftrightarrow> tr \<in> set TRANSITIONS \<and> from_state tr = f \<and> to_state tr = t"
  using find_distinct[OF TRANSITIONS_distinct, of "(f, t)" tr]
  by (simp add: findTransition_def)

lemma findTransition_None:
  "findTransition f t = None \<longleftrightarrow> (\<forall>tr \<in> set TRANSITIONS. (from_state tr, to_state tr) \<noteq> (f, t))"
  by (auto simp: findTransition_def find_None_iff)

lemma findTransition_not_terminal:
  "findTransition f t = Some tr \<Longrightarrow> \<not> isTerminal f \<and> f \<noteq> t"
  using TRANSITIONS_wf by (auto simp: findTransition_Some list_all_iff)

section \<open>The check, declaratively\<close>

text \<open>Whether the table lets \<open>a\<close> use \<open>tr\<close>: its kind is listed and a user holds a listed role.\<close>

definition permitted :: "transition \<Rightarrow> actor \<Rightarrow> bool" where
  "permitted tr a \<longleftrightarrow> kind a \<in> set (actors tr) \<and>
     (case kind a of
        User \<Rightarrow> (\<exists>r rs. role a = Some r \<and> roles tr = Some rs \<and> r \<in> set rs)
      | _ \<Rightarrow> True)"

lemma permitted_not_user: "kind a \<noteq> User \<Longrightarrow> permitted tr a \<longleftrightarrow> kind a \<in> set (actors tr)"
  by (cases "kind a") (simp_all add: permitted_def)

lemma checkTransition_Inr:
  "checkTransition f t a = Inr tr \<longleftrightarrow> findTransition f t = Some tr \<and> permitted tr a"
proof -
  have wf: "f \<noteq> t \<and> \<not> isTerminal f" if "findTransition f t = Some tr" for tr
    using findTransition_not_terminal[OF that] by blast
  show ?thesis
    using wf
    by (auto simp: checkTransition_def permitted_def Let_def
        split: option.splits if_splits actor_kind.splits)
qed

definition allowed :: "payment_state \<Rightarrow> payment_state \<Rightarrow> actor \<Rightarrow> bool" where
  "allowed f t a \<longleftrightarrow> (case checkTransition f t a of Inl _ \<Rightarrow> False | Inr _ \<Rightarrow> True)"

lemma allowed_iff:
  "allowed f t a \<longleftrightarrow>
     (\<exists>tr \<in> set TRANSITIONS. from_state tr = f \<and> to_state tr = t \<and> permitted tr a)"
proof -
  have "allowed f t a \<longleftrightarrow> (\<exists>tr. checkTransition f t a = Inr tr)"
    by (auto simp: allowed_def split: sum.splits)
  then show ?thesis by (auto simp: checkTransition_Inr findTransition_Some)
qed

text \<open>
  Every fact about \<open>allowed\<close> is a fact about the rows of the table; the rule turns one into a
  check of the rows.
\<close>

lemma allowed_table:
  assumes "allowed f t a"
    and "list_all (\<lambda>tr. permitted tr a \<longrightarrow> from_state tr = f \<longrightarrow> to_state tr = t \<longrightarrow> Q) TRANSITIONS"
  shows Q
  using assms by (auto simp: allowed_iff list_all_iff)

definition system_actor :: "actor_kind \<Rightarrow> actor" where
  "system_actor k = \<lparr>kind = k, role = None, address = None, system = None\<rparr>"

definition user_actor :: "org_role \<Rightarrow> actor" where
  "user_actor r = \<lparr>kind = User, role = Some r, address = None, system = None\<rparr>"

text \<open>Who to ask for, to move on from a state that is not terminal.\<close>

definition some_move :: "payment_state \<Rightarrow> payment_state \<times> actor" where
  "some_move s = (case s of
     DRAFT \<Rightarrow> (CANCELLED, user_actor MANAGER)
   | VALIDATING \<Rightarrow> (CANCELLED, user_actor MANAGER)
   | SUBMITTING \<Rightarrow> (SUBMISSION_FAILED, system_actor System)
   | CONFIRMING \<Rightarrow> (RECONCILIATION_REQUIRED, system_actor Reconciler)
   | SETTLEMENT_FAILED \<Rightarrow> (RECONCILIATION_REQUIRED, system_actor Reconciler)
   | SUBMISSION_FAILED \<Rightarrow> (CANCELLED, user_actor MANAGER)
   | RECONCILIATION_REQUIRED \<Rightarrow> (CANCELLED, user_actor OWNER)
   | _ \<Rightarrow> (CANCELLED, system_actor Indexer))"

lemma some_move_allowed: "\<not> isTerminal s \<Longrightarrow> allowed s (fst (some_move s)) (snd (some_move s))"
  by (cases s) (simp_all add: allowed_iff table_defs permitted_def some_move_def user_actor_def
      system_actor_def)

section \<open>Interfaces provided\<close>

interpretation payments: guarded_machine allowed isTerminal
proof unfold_locales
  show "isTerminal s \<Longrightarrow> \<not> allowed s t a" for s t a
    using TRANSITIONS_wf by (auto simp: allowed_iff list_all_iff)
  show "\<not> isTerminal s \<Longrightarrow> \<exists>t a. allowed s t a" for s
    using some_move_allowed by blast
  show "\<not> allowed s s a" for s a
    using TRANSITIONS_wf by (auto simp: allowed_iff list_all_iff)
qed

section \<open>Runs that leave a set of states\<close>

text \<open>
  A run that starts inside \<open>A\<close> and ends outside it uses an edge that leaves \<open>A\<close>; if the only
  edges that do enter \<open>c\<close> and are for \<open>K\<close>, an actor of \<open>K\<close> took the run to \<open>c\<close>.
\<close>

definition exits_to :: "payment_state list \<Rightarrow> payment_state \<Rightarrow> actor_kind list \<Rightarrow> payment_state list \<Rightarrow> bool" where
  "exits_to A c K ends \<longleftrightarrow>
     list_all (\<lambda>tr. from_state tr \<in> set A \<longrightarrow> to_state tr \<notin> set A \<longrightarrow>
        to_state tr = c \<and> set (actors tr) \<subseteq> set K
        \<or> isTerminal (to_state tr) \<and> to_state tr \<notin> set ends) TRANSITIONS"

text \<open>
  A run passes a list of gates in order when it enters the first of them by an actor of the
  kinds that may, and passes the others afterwards.
\<close>

fun passes :: "(payment_state \<times> actor_kind list) list \<Rightarrow> (payment_state \<times> actor) list \<Rightarrow> bool" where
  "passes [] xs = True"
| "passes (g # gs) [] = False"
| "passes (g # gs) (x # xs) =
     (if fst x = fst g \<and> kind (snd x) \<in> set (snd g) then passes gs xs else passes (g # gs) xs)"

lemma passes_tail: "passes (g # gs) xs \<Longrightarrow> passes gs xs"
proof (induction xs arbitrary: g gs)
  case (Cons y ys)
  then have "passes gs ys" by (auto split: if_splits)
  then show ?case using Cons.IH by (cases gs) auto
qed simp

lemma passes_Cons: "passes gs xs \<Longrightarrow> passes gs (x # xs)"
  using passes_tail by (cases gs) auto

lemma passes_append: "passes gs zs \<Longrightarrow> passes gs (ys @ zs)"
  by (induction ys) (simp_all add: passes_Cons)

lemma passes_entry:
  assumes "kind a \<in> set K" and "passes gs zs"
  shows "passes ((c, K) # gs) (ys @ (c, a) # zs)"
  using assms by (intro passes_append) simp

lemma run_crosses:
  assumes "run allowed s xs t" and "exits_to A c K ends" and "s \<in> set A" and "t \<notin> set A"
    and "t \<in> set ends"
  shows "\<exists>ys a zs. xs = ys @ (c, a) # zs \<and> kind a \<in> set K \<and> run allowed c zs t"
  using assms(1,3-5)
proof (induction rule: run.induct)
  case (run_step s u a xs t)
  obtain tr where tr: "tr \<in> set TRANSITIONS" "from_state tr = s" "to_state tr = u" "permitted tr a"
    using run_step.hyps(1) by (auto simp: allowed_iff)
  then have k: "kind a \<in> set (actors tr)" by (simp add: permitted_def)
  show ?case
  proof (cases "u \<in> set A")
    case True
    then obtain ys b zs where "xs = ys @ (c, b) # zs" "kind b \<in> set K" "run allowed c zs t"
      using run_step.IH run_step.prems by blast
    then show ?thesis by (intro exI [of _ "(u, a) # ys"]) auto
  next
    case False
    then consider "u = c" "set (actors tr) \<subseteq> set K" | "isTerminal u" "u \<notin> set ends"
      using assms(2) tr run_step.prems(1) by (auto simp: exits_to_def list_all_iff)
    then show ?thesis
    proof cases
      case 1
      then show ?thesis using k run_step.hyps(2) by (intro exI [of _ "[]"]) auto
    next
      case 2
      then have "t = u" using payments.terminal_absorbing run_step.hyps(2) by blast
      then show ?thesis using 2 run_step.prems by simp
    qed
  qed
qed simp

lemma passes_first:
  assumes "run allowed s xs t" and "exits_to A c K ends" and "s \<in> set A" and "t \<notin> set A"
    and "t \<in> set ends" and "\<And>zs. run allowed c zs t \<Longrightarrow> passes gs zs"
  shows "passes ((c, K) # gs) xs"
  using run_crosses [OF assms(1-5)] passes_entry assms(6) by blast

definition before_custody :: "payment_state list" where
  "before_custody = [DRAFT, VALIDATING]"

definition before_settlement :: "payment_state list" where
  "before_settlement = before_custody
     @ [AWAITING_ORACLE, ORACLE_VERIFIED, AWAITING_MANAGER, AWAITING_FINANCE]"

lemma exits:
  "exits_to [DRAFT, VALIDATING] AWAITING_ORACLE CHAIN_OBSERVERS [PAID]"
  "exits_to [DRAFT, VALIDATING, AWAITING_ORACLE] ORACLE_VERIFIED CHAIN_OBSERVERS [PAID]"
  "exits_to [DRAFT, VALIDATING, AWAITING_ORACLE, ORACLE_VERIFIED] AWAITING_MANAGER
     [System, Indexer] [PAID]"
  "exits_to [DRAFT, VALIDATING, AWAITING_ORACLE, ORACLE_VERIFIED, AWAITING_MANAGER]
     AWAITING_FINANCE CHAIN_OBSERVERS [PAID]"
  "exits_to before_settlement READY_TO_SETTLE CHAIN_OBSERVERS [PAID]"
  by (simp_all add: exits_to_def table_defs before_settlement_def before_custody_def)

section \<open>Properties\<close>

text \<open>The states a user with a role can move a payment to by hand.\<close>

definition user_moves :: "org_role \<Rightarrow> payment_state \<Rightarrow> payment_state list" where
  "user_moves r s = filter (\<lambda>t. allowed s t (user_actor r)) enum_class.enum"

text \<open>
  C11: The check decides exactly what the table says, and its refusals are graded. A transition is
  returned precisely for the one row of the table with these two states whose actors include the
  caller's kind and, for a user, whose roles include the caller's role; the other outcomes name
  the first thing that is wrong, in the order same state, terminal, undefined, actor, role.
\<close>

theorem checkTransition_decides:
  "(checkTransition f t a = Inr tr \<longleftrightarrow>
      tr \<in> set TRANSITIONS \<and> from_state tr = f \<and> to_state tr = t \<and> kind a \<in> set (actors tr) \<and>
      (case kind a of User \<Rightarrow> (\<exists>r rs. role a = Some r \<and> roles tr = Some rs \<and> r \<in> set rs)
                    | _ \<Rightarrow> True)) \<and>
   (checkTransition f t a = Inl SAME_STATE \<longleftrightarrow> f = t) \<and>
   (checkTransition f t a = Inl TERMINAL \<longleftrightarrow> f \<noteq> t \<and> isTerminal f) \<and>
   (checkTransition f t a = Inl INVALID_TRANSITION \<longleftrightarrow>
      f \<noteq> t \<and> \<not> isTerminal f \<and> (f, t) \<notin> set (map (\<lambda>tr. (from_state tr, to_state tr)) TRANSITIONS)) \<and>
   (checkTransition f t a = Inl ACTOR_NOT_PERMITTED \<longleftrightarrow>
      (\<exists>tr. findTransition f t = Some tr \<and> kind a \<notin> set (actors tr))) \<and>
   (checkTransition f t a = Inl ROLE_REQUIRED \<longleftrightarrow>
      (\<exists>tr. findTransition f t = Some tr \<and> User \<in> set (actors tr) \<and> kind a = User \<and> role a = None))"
proof (intro conjI)
  have wf: "f \<noteq> t \<and> \<not> isTerminal f \<and> (User \<in> set (actors tr) \<longleftrightarrow> roles tr \<noteq> None) \<and> roles tr \<noteq> Some []"
    if "findTransition f t = Some tr" for tr
    using that TRANSITIONS_wf by (auto simp: findTransition_Some list_all_iff)
  show "checkTransition f t a = Inr tr \<longleftrightarrow>
      tr \<in> set TRANSITIONS \<and> from_state tr = f \<and> to_state tr = t \<and> kind a \<in> set (actors tr) \<and>
      (case kind a of User \<Rightarrow> (\<exists>r rs. role a = Some r \<and> roles tr = Some rs \<and> r \<in> set rs)
                    | _ \<Rightarrow> True)"
    by (simp add: checkTransition_Inr findTransition_Some permitted_def)
  show "checkTransition f t a = Inl SAME_STATE \<longleftrightarrow> f = t"
    and "checkTransition f t a = Inl TERMINAL \<longleftrightarrow> f \<noteq> t \<and> isTerminal f"
    by (auto simp: checkTransition_def Let_def split: option.splits if_splits)
  show "checkTransition f t a = Inl INVALID_TRANSITION \<longleftrightarrow>
      f \<noteq> t \<and> \<not> isTerminal f \<and> (f, t) \<notin> set (map (\<lambda>tr. (from_state tr, to_state tr)) TRANSITIONS)"
    using findTransition_None[of f t]
    by (auto simp: checkTransition_def Let_def split: option.splits if_splits)
  show "checkTransition f t a = Inl ACTOR_NOT_PERMITTED \<longleftrightarrow>
      (\<exists>tr. findTransition f t = Some tr \<and> kind a \<notin> set (actors tr))"
    using wf by (auto simp: checkTransition_def Let_def split: option.splits if_splits)
  show "checkTransition f t a = Inl ROLE_REQUIRED \<longleftrightarrow>
      (\<exists>tr. findTransition f t = Some tr \<and> User \<in> set (actors tr) \<and> kind a = User \<and> role a = None)"
    using wf by (auto simp: checkTransition_def Let_def split: option.splits if_splits)
qed

text \<open>
  Nobody but a chain observer moves a payment to \<open>PAID\<close>: whatever the state, the check
  accepts \<open>PAID\<close> from the indexer or the reconciler only, never from a user of any role nor from
  the application itself, and only once settlement was authorised.
\<close>

theorem paid_only_by_chain_observers:
  assumes "checkTransition f PAID a = Inr tr"
  shows "kind a \<in> {Indexer, Reconciler} \<and>
    f \<in> {READY_TO_SETTLE, SUBMITTING, CONFIRMING, SETTLEMENT_FAILED, RECONCILIATION_REQUIRED}"
  using assms
  by (auto simp: checkTransition_Inr findTransition_Some permitted_def table_defs)

theorem paid_only_by_chain_observers_witness:
  "kind (system_actor Indexer) \<in> {Indexer, Reconciler} \<and>
   CONFIRMING \<in> {READY_TO_SETTLE, SUBMITTING, CONFIRMING, SETTLEMENT_FAILED, RECONCILIATION_REQUIRED}"
  by (rule paid_only_by_chain_observers[where tr = "edge CONFIRMING PAID CHAIN_OBSERVERS None"])
    (simp add: checkTransition_def findTransition_def system_actor_def table_defs)

text \<open>
  What each organization role may do to a payment by hand, state by state. In particular a
  manager has no move at \<open>AWAITING_FINANCE\<close> and finance none at \<open>AWAITING_MANAGER\<close>, so neither
  can exercise the other's half of the dual approval; workers and viewers have no move at all; and
  nobody retries a settlement that reached the chain.
\<close>

theorem user_authority:
  "user_moves MANAGER AWAITING_FINANCE = [] \<and>
   user_moves FINANCE AWAITING_MANAGER = [] \<and>
   user_moves MANAGER AWAITING_MANAGER = [REJECTED] \<and>
   user_moves FINANCE AWAITING_FINANCE = [REJECTED] \<and>
   user_moves FINANCE DRAFT = [] \<and>
   list_all (\<lambda>s. user_moves WORKER s = [] \<and> user_moves VIEWER s = [] \<and>
     user_moves OWNER s = user_moves ADMIN s) enum_class.enum \<and>
   list_all (\<lambda>r. user_moves r SETTLEMENT_FAILED = [] \<and> user_moves r SUBMITTING = [] \<and>
     user_moves r CONFIRMING = [] \<and>
     READY_TO_SETTLE \<notin> set (user_moves r RECONCILIATION_REQUIRED)) enum_class.enum"
  by code_simp

text \<open>
  A payment is finished exactly when nothing can move it: \<open>TERMINAL_STATES\<close> are the states
  out of which no actor has a transition, a run that reaches one ends there, and so a payment that
  was once \<open>PAID\<close> is \<open>PAID\<close> at the end of every run.
\<close>

theorem terminal_states_absorb:
  assumes "run allowed s (xs @ (u, a) # ys) t" and "isTerminal u"
  shows "ys = [] \<and> t = u \<and> (\<forall>v b. \<not> allowed u v b)"
  using payments.terminal_only_last[OF assms] payments.terminal_iff_stuck[of u] assms(2) by blast

theorem terminal_states_absorb_witness:
  "run allowed CONFIRMING [(PAID, system_actor Indexer)] PAID \<and> \<not> allowed PAID CANCELLED (user_actor OWNER)"
proof -
  have step: "run allowed CONFIRMING [(PAID, system_actor Indexer)] PAID"
    by (simp add: allowed_iff table_defs permitted_def system_actor_def)
  have final: "isTerminal PAID" by (simp add: table_defs)
  have "run allowed CONFIRMING ([] @ (PAID, system_actor Indexer) # []) PAID" using step by simp
  from terminal_states_absorb[OF this final] step show ?thesis by blast
qed

text \<open>The states on the way to payment, in the order of the gates, with who opens each.\<close>

definition gates :: "(payment_state \<times> actor_kind list) list" where
  "gates =
     [(AWAITING_ORACLE, CHAIN_OBSERVERS), (ORACLE_VERIFIED, CHAIN_OBSERVERS),
      (AWAITING_MANAGER, [System, Indexer]), (AWAITING_FINANCE, CHAIN_OBSERVERS),
      (READY_TO_SETTLE, CHAIN_OBSERVERS), (PAID, CHAIN_OBSERVERS)]"

text \<open>
  C8: Every road from \<open>DRAFT\<close> to \<open>PAID\<close> goes through custody, attestation, the manager's half
  and finance's half of the approval, the release and the payment, one after the other: the run
  holds an entry into each of these states, each later in the run than the one before, and the
  entry is made by a chain observer (into \<open>AWAITING_MANAGER\<close>, by the indexer or the application).
  No user can make one of these moves, whatever else happens in between.
\<close>

theorem paid_passes_every_gate:
  assumes "run allowed DRAFT xs PAID"
  shows "passes gates xs"
proof -
  have last: "exits_to (filter (\<lambda>s. s \<noteq> PAID) enum_class.enum) PAID CHAIN_OBSERVERS [PAID]"
    by code_simp
  show ?thesis
    unfolding gates_def using assms
    by (rule passes_first [OF _ exits(1)])
      ((simp_all add: before_settlement_def before_custody_def)[3],
        erule passes_first [OF _ exits(2)],
        (simp_all add: before_settlement_def before_custody_def)[3],
        erule passes_first [OF _ exits(3)],
        (simp_all add: before_settlement_def before_custody_def)[3],
        erule passes_first [OF _ exits(4)],
        (simp_all add: before_settlement_def before_custody_def)[3],
        erule passes_first [OF _ exits(5)],
        (simp_all add: before_settlement_def before_custody_def)[3],
        erule passes_first [OF _ last], simp_all add: enum_payment_state_def)
qed

definition settled_run :: "(payment_state \<times> actor) list" where
  "settled_run =
     [(VALIDATING, user_actor MANAGER), (AWAITING_ORACLE, system_actor Indexer),
      (ORACLE_VERIFIED, system_actor Indexer), (AWAITING_MANAGER, system_actor Indexer),
      (AWAITING_FINANCE, system_actor Indexer), (READY_TO_SETTLE, system_actor Indexer),
      (SUBMITTING, user_actor FINANCE), (CONFIRMING, system_actor System),
      (PAID, system_actor Indexer)]"

lemma settled_run_ok: "run allowed DRAFT settled_run PAID"
  by (simp add: settled_run_def allowed_iff table_defs permitted_def user_actor_def system_actor_def)

theorem paid_passes_every_gate_witness: "passes gates settled_run"
  by (rule paid_passes_every_gate [OF settled_run_ok])

text \<open>
  No payment is ever stuck. From every state that is not terminal a run leads to a terminal
  one, so every payment can be closed, whatever failed on the way.
\<close>

theorem every_payment_can_be_closed:
  assumes "\<not> isTerminal s"
  shows "\<exists>xs t. run allowed s xs t \<and> t = CANCELLED \<and> length xs \<le> 2"
proof -
  note first = some_move_allowed[OF assms]
  show ?thesis
  proof (cases "fst (some_move s) = CANCELLED")
    case True
    then have "run allowed s [some_move s] CANCELLED"
      using first by (cases "some_move s") simp
    then show ?thesis by (intro exI[of _ "[some_move s]"]) simp
  next
    case False
    let ?u = "fst (some_move s)"
    have next_move: "\<not> isTerminal ?u \<and> fst (some_move ?u) = CANCELLED"
      using False assms by (cases s) (simp_all add: some_move_def)
    then have "run allowed s [some_move s, some_move ?u] CANCELLED"
      using first some_move_allowed[of ?u] by (cases "some_move s"; cases "some_move ?u") simp
    then show ?thesis by (intro exI[of _ "[some_move s, some_move ?u]"]) simp
  qed
qed

theorem every_payment_can_be_closed_witness:
  "\<exists>xs t. run allowed SETTLEMENT_FAILED xs t \<and> t = CANCELLED \<and> length xs \<le> 2"
  by (rule every_payment_can_be_closed) simp

end
