(* ===== verification/Tenancy.thy ===== *)
theory Tenancy
  imports Database Rbac StateMachine
begin

text \<open>
  The tenant boundary: \<open>src/lib/tenancy/resolve.ts\<close>, the choice of the organization in
  \<open>src/lib/tenancy/http.ts\<close> and \<open>src/lib/payments/http.ts\<close>, and the payment domain's view of
  it, \<open>src/lib/payments/authz.ts\<close>. A \<open>Denial\<close> is the left side of a sum, with its status and
  code; the messages, which only differ by the label of the resource, are left out.
\<close>

section \<open>Results\<close>

record denial =
  dn_status :: nat
  dn_code :: "string option"

type_synonym 'a result = "denial + 'a"

definition deny :: "nat \<Rightarrow> string option \<Rightarrow> denial" where
  "deny status code = \<lparr>dn_status = status, dn_code = code\<rparr>"

definition NOT_FOUND :: denial where
  "NOT_FOUND = deny 404 None"

record tenant_context =
  tc_orgId :: row_id
  tc_orgName :: string
  tc_orgSlug :: string
  tc_userId :: row_id
  tc_walletAddress :: address
  tc_role :: org_role

section \<open>Resolving the tenant\<close>

definition find_member :: "database \<Rightarrow> row_id \<Rightarrow> row_id \<Rightarrow> member_row option" where
  "find_member db orgId userId =
     findFirst (\<lambda>m. mb_orgId m = orgId \<and> mb_userId m = userId) (members db)"

definition resolveTenant ::
  "database \<Rightarrow> row_id option \<Rightarrow> row_id option \<Rightarrow> tenant_context result" where
  "resolveTenant db userId orgId =
     (if \<not> truthy userId then Inl (deny 401 None)
      else if \<not> truthy orgId then Inl (deny 400 (Some ''ORGANIZATION_REQUIRED''))
      else case find_member db (the orgId) (the userId) of
        None \<Rightarrow> Inl NOT_FOUND
      | Some m \<Rightarrow>
          if mb_status m \<noteq> ACTIVE then Inl NOT_FOUND
          else
            (let org = findFirst (\<lambda>o'. og_id o' = mb_orgId m) (organizations db);
                 user = findFirst (\<lambda>u. us_id u = mb_userId m) (users db)
             in Inr \<lparr>tc_orgId = mb_orgId m,
                     tc_orgName = (case org of None \<Rightarrow> [] | Some r \<Rightarrow> og_name r),
                     tc_orgSlug = (case org of None \<Rightarrow> [] | Some r \<Rightarrow> og_slug r),
                     tc_userId = mb_userId m,
                     tc_walletAddress = (case user of None \<Rightarrow> [] | Some r \<Rightarrow> us_walletAddress r),
                     tc_role = mb_role m\<rparr>))"

record tenant_summary =
  ts_orgId :: row_id
  ts_name :: string
  ts_slug :: string
  ts_role :: org_role

definition listTenants :: "database \<Rightarrow> row_id \<Rightarrow> tenant_summary list" where
  "listTenants db userId =
     map (\<lambda>m. let org = findFirst (\<lambda>o'. og_id o' = mb_orgId m) (organizations db) in
            \<lparr>ts_orgId = mb_orgId m,
             ts_name = (case org of None \<Rightarrow> [] | Some r \<Rightarrow> og_name r),
             ts_slug = (case org of None \<Rightarrow> [] | Some r \<Rightarrow> og_slug r),
             ts_role = mb_role m\<rparr>)
       (js_sort (\<lambda>a b. mb_createdAt a - mb_createdAt b)
         (filter (\<lambda>m. mb_userId m = userId \<and> mb_status m = ACTIVE) (members db)))"

definition requirePermission :: "tenant_context \<Rightarrow> permission \<Rightarrow> denial option" where
  "requirePermission ctx p =
     (if can (tc_role ctx) p then None else Some (deny 403 (Some ''PERMISSION_DENIED'')))"

definition requireAnyPermission :: "tenant_context \<Rightarrow> permission list \<Rightarrow> denial option" where
  "requireAnyPermission ctx ps =
     (if list_ex (can (tc_role ctx)) ps then None
      else Some (deny 403 (Some ''PERMISSION_DENIED'')))"

section \<open>Scoped lookups\<close>

definition scoped ::
  "('r \<Rightarrow> row_id) \<Rightarrow> ('r \<Rightarrow> row_id) \<Rightarrow> 'r list \<Rightarrow> tenant_context \<Rightarrow> row_id \<Rightarrow> 'r result" where
  "scoped id_of org_of t ctx i =
     (case findFirst (\<lambda>r. id_of r = i \<and> org_of r = tc_orgId ctx) t of
        Some r \<Rightarrow> Inr r
      | None \<Rightarrow> Inl NOT_FOUND)"

definition findPayment :: "database \<Rightarrow> tenant_context \<Rightarrow> row_id \<Rightarrow> payment_row result" where
  "findPayment db = scoped pm_id pm_orgId (payments db)"

definition findBatch :: "database \<Rightarrow> tenant_context \<Rightarrow> row_id \<Rightarrow> batch_row result" where
  "findBatch db = scoped ba_id ba_orgId (batches db)"

definition findEscrow :: "database \<Rightarrow> tenant_context \<Rightarrow> row_id \<Rightarrow> escrow_row result" where
  "findEscrow db = scoped es_id es_orgId (escrows db)"

definition findProject :: "database \<Rightarrow> tenant_context \<Rightarrow> row_id \<Rightarrow> project_row result" where
  "findProject db = scoped pj_id pj_orgId (projects db)"

definition findWorker :: "database \<Rightarrow> tenant_context \<Rightarrow> row_id \<Rightarrow> worker_row result" where
  "findWorker db = scoped wk_id wk_orgId (workers db)"

definition findTransaction :: "database \<Rightarrow> tenant_context \<Rightarrow> row_id \<Rightarrow> transaction_row result" where
  "findTransaction db = scoped tx_id tx_orgId (transactions db)"

definition findAuditEvent :: "database \<Rightarrow> tenant_context \<Rightarrow> row_id \<Rightarrow> audit_row result" where
  "findAuditEvent db = scoped au_id au_orgId (auditEvents db)"

definition findFinding :: "database \<Rightarrow> tenant_context \<Rightarrow> row_id \<Rightarrow> finding_row result" where
  "findFinding db = scoped fd_id fd_orgId (findings db)"

definition findMember :: "database \<Rightarrow> tenant_context \<Rightarrow> row_id \<Rightarrow> member_row result" where
  "findMember db = scoped mb_id mb_orgId (members db)"

definition findEscrowByOnChainId :: "database \<Rightarrow> tenant_context \<Rightarrow> int \<Rightarrow> escrow_row result" where
  "findEscrowByOnChainId db ctx onChainId =
     (case findFirst (\<lambda>r. es_onChainId r = Some onChainId \<and> es_orgId r = tc_orgId ctx) (escrows db) of
        Some r \<Rightarrow> Inr r
      | None \<Rightarrow> Inl NOT_FOUND)"

definition assertProjectInTenant ::
  "database \<Rightarrow> tenant_context \<Rightarrow> row_id option \<Rightarrow> denial option" where
  "assertProjectInTenant db ctx projectId =
     (if \<not> truthy projectId then None
      else case findProject db ctx (the projectId) of Inr _ \<Rightarrow> None | Inl d \<Rightarrow> Some d)"

text \<open>The \<open>where\<close> fragments, as the predicates on rows they denote.\<close>

definition tenantScope :: "tenant_context \<Rightarrow> ('r \<Rightarrow> row_id) \<Rightarrow> 'r \<Rightarrow> bool" where
  "tenantScope ctx org_of r \<longleftrightarrow> org_of r = tc_orgId ctx"

definition paymentReadScope :: "tenant_context \<Rightarrow> payment_row \<Rightarrow> bool" where
  "paymentReadScope ctx p \<longleftrightarrow>
     (if can (tc_role ctx) Payment_read then pm_orgId p = tc_orgId ctx
      else pm_orgId p = tc_orgId ctx \<and> pm_recipientAddress p = tc_walletAddress ctx)"

section \<open>The organization of a request\<close>

text \<open>The header, the query parameter and the field of the body that may name one.\<close>

definition requestedOrgId :: "string option \<Rightarrow> string option \<Rightarrow> string option \<Rightarrow> string option" where
  "requestedOrgId header query body =
     (if truthy header then header else if truthy query then query else body)"

text \<open>
  \<open>withTenant\<close> up to the call of the handler: the caller's id, if any, and the permission the
  route asks for, if any.
\<close>

definition withTenant ::
  "database \<Rightarrow> row_id option \<Rightarrow> string option \<Rightarrow> string option \<Rightarrow> string option \<Rightarrow>
   permission option \<Rightarrow> tenant_context result" where
  "withTenant db user header query body permission =
     (case user of
        None \<Rightarrow> Inl (deny 401 None)
      | Some u \<Rightarrow>
          (let named = requestedOrgId header query body;
               mine = take 2 (filter (\<lambda>m. mb_userId m = u \<and> mb_status m = ACTIVE) (members db));
               orgId = (if truthy named then Inr named
                        else if length mine = 1 then Inr (Some (mb_orgId (hd mine)))
                        else if length mine = 0 then Inl (deny 403 (Some ''NO_ORGANIZATION''))
                        else Inl (deny 400 (Some ''ORGANIZATION_REQUIRED'')))
           in case orgId of
                Inl d \<Rightarrow> Inl d
              | Inr org \<Rightarrow>
                  (case resolveTenant db user org of
                     Inl d \<Rightarrow> Inl d
                   | Inr ctx \<Rightarrow>
                       (case permission of
                          None \<Rightarrow> Inr ctx
                        | Some p \<Rightarrow>
                            (case requirePermission ctx p of
                               Some d \<Rightarrow> Inl d
                             | None \<Rightarrow> Inr ctx)))))"

text \<open>\<open>resolveOrgId\<close> of the payment action routes, which counts memberships of any status.\<close>

definition resolveOrgId ::
  "database \<Rightarrow> string option \<Rightarrow> string option \<Rightarrow> string option \<Rightarrow> row_id \<Rightarrow> row_id option" where
  "resolveOrgId db header body query userId =
     (let explicit = (if header \<noteq> None then header else if body \<noteq> None then body else query);
          mine = take 2 (filter (\<lambda>m. mb_userId m = userId) (members db))
      in if truthy explicit then explicit
         else if length mine = 1 then Some (mb_orgId (hd mine)) else None)"

section \<open>The payment domain's view\<close>

type_synonym membership = tenant_context

definition READ_ROLES :: "org_role list" where
  "READ_ROLES = filter (\<lambda>r. can r Payment_read) enum_class.enum"

definition canRead :: "org_role \<Rightarrow> bool" where
  "canRead r \<longleftrightarrow> can r Payment_read"

definition resolveMembership :: "database \<Rightarrow> row_id option \<Rightarrow> row_id \<Rightarrow> membership result" where
  "resolveMembership db userId orgId = resolveTenant db userId (Some orgId)"

definition findPaymentForMember :: "database \<Rightarrow> membership \<Rightarrow> row_id \<Rightarrow> payment_row result" where
  "findPaymentForMember db m i = findPayment db m i"

definition findBatchForMember :: "database \<Rightarrow> membership \<Rightarrow> row_id \<Rightarrow> batch_row result" where
  "findBatchForMember db m i = findBatch db m i"

definition actorFromMembership :: "membership \<Rightarrow> actor" where
  "actorFromMembership m =
     \<lparr>kind = User, role = Some (tc_role m), address = Some (tc_walletAddress m), system = None\<rparr>"

text \<open>
  \<open>runPaymentAction\<close> up to the call of the action: the caller's id, the header, the body field
  and the query parameter, then the resolved membership.
\<close>

definition runPaymentAction ::
  "database \<Rightarrow> row_id option \<Rightarrow> string option \<Rightarrow> string option \<Rightarrow> string option \<Rightarrow>
   membership result" where
  "runPaymentAction db user header body query =
     (case user of
        None \<Rightarrow> Inl (deny 401 None)
      | Some u \<Rightarrow>
          (case resolveOrgId db header body query u of
             None \<Rightarrow> Inl (deny 400 None)
           | Some orgId \<Rightarrow> resolveMembership db user orgId))"

section \<open>Lemmas\<close>

lemma scoped_Inr:
  "scoped id_of org_of t ctx i = Inr r \<Longrightarrow> r \<in> set t \<and> id_of r = i \<and> org_of r = tc_orgId ctx"
  by (auto simp: scoped_def split: option.splits dest: findFirst_SomeD)

lemma scoped_filter:
  "scoped id_of org_of (filter (\<lambda>r. org_of r = tc_orgId ctx) t) ctx i = scoped id_of org_of t ctx i"
proof -
  have "findFirst (\<lambda>r. id_of r = i \<and> org_of r = o') (filter (\<lambda>r. org_of r = o') t)
      = findFirst (\<lambda>r. id_of r = i \<and> org_of r = o') t" for o'
    by (induction t) (simp_all add: findFirst_Cons)
  then show ?thesis by (simp add: scoped_def)
qed

lemma findPayment_Inr:
  "findPayment db ctx i = Inr p \<Longrightarrow> p \<in> set (payments db) \<and> pm_id p = i \<and> pm_orgId p = tc_orgId ctx"
  unfolding findPayment_def by (rule scoped_Inr)

text \<open>What a tenant can reach: its own rows of every tenant-owned table.\<close>

definition tenant_view :: "row_id \<Rightarrow> database \<Rightarrow> database" where
  "tenant_view o' db = db
     \<lparr>payments := filter (\<lambda>r. pm_orgId r = o') (payments db),
      batches := filter (\<lambda>r. ba_orgId r = o') (batches db),
      escrows := filter (\<lambda>r. es_orgId r = o') (escrows db),
      projects := filter (\<lambda>r. pj_orgId r = o') (projects db),
      workers := filter (\<lambda>r. wk_orgId r = o') (workers db),
      transactions := filter (\<lambda>r. tx_orgId r = o') (transactions db),
      auditEvents := filter (\<lambda>r. au_orgId r = o') (auditEvents db),
      findings := filter (\<lambda>r. fd_orgId r = o') (findings db),
      members := filter (\<lambda>r. mb_orgId r = o') (members db)\<rparr>"

text \<open>What does not belong to a tenant: the rows of all others, and the tables without an owner.\<close>

definition foreign_view :: "row_id \<Rightarrow> database \<Rightarrow> database" where
  "foreign_view o' db = db
     \<lparr>payments := filter (\<lambda>r. pm_orgId r \<noteq> o') (payments db),
      approvals := filter (\<lambda>r. ap_orgId r \<noteq> o') (approvals db),
      transactions := filter (\<lambda>r. tx_orgId r \<noteq> o') (transactions db),
      auditEvents := filter (\<lambda>r. au_orgId r \<noteq> o') (auditEvents db),
      findings := filter (\<lambda>r. fd_orgId r \<noteq> o') (findings db),
      escrows := filter (\<lambda>r. es_orgId r \<noteq> o') (escrows db),
      batches := filter (\<lambda>r. ba_orgId r \<noteq> o') (batches db),
      workers := filter (\<lambda>r. wk_orgId r \<noteq> o') (workers db),
      reconciliationRuns := filter (\<lambda>r. rn_orgId r \<noteq> o') (reconciliationRuns db),
      serial := 0\<rparr>"

lemma findEscrowByOnChainId_view:
  "findEscrowByOnChainId (tenant_view (tc_orgId ctx) db) ctx n = findEscrowByOnChainId db ctx n"
proof -
  have "findFirst (\<lambda>r. es_onChainId r = Some n \<and> es_orgId r = o') (filter (\<lambda>r. es_orgId r = o') t)
      = findFirst (\<lambda>r. es_onChainId r = Some n \<and> es_orgId r = o') t" for o' t
    by (induction t) (simp_all add: findFirst_Cons)
  from this[of "tc_orgId ctx" "escrows db"] show ?thesis
    by (simp add: findEscrowByOnChainId_def tenant_view_def)
qed

lemmas scoped_defs = findPayment_def findBatch_def findEscrow_def findProject_def findWorker_def
  findTransaction_def findAuditEvent_def findFinding_def findMember_def

lemma resolveTenant_Inr:
  assumes "resolveTenant db userId orgId = Inr ctx"
  obtains m where "m \<in> set (members db)" "find_member db (mb_orgId m) (mb_userId m) = Some m"
    "mb_status m = ACTIVE" "orgId = Some (mb_orgId m)" "userId = Some (mb_userId m)"
    "tc_orgId ctx = mb_orgId m" "tc_userId ctx = mb_userId m" "tc_role ctx = mb_role m"
proof -
  obtain u o' where uo: "userId = Some u" "orgId = Some o'"
    using assms by (cases userId; cases orgId) (auto simp: resolveTenant_def split: if_splits)
  then obtain m where m: "find_member db o' u = Some m" "mb_status m = ACTIVE"
    and ctx: "tc_orgId ctx = mb_orgId m" "tc_userId ctx = mb_userId m" "tc_role ctx = mb_role m"
    using assms by (auto simp: resolveTenant_def Let_def split: if_splits option.splits)
  have "m \<in> set (members db) \<and> mb_orgId m = o' \<and> mb_userId m = u"
    using m(1) by (auto simp: find_member_def dest: findFirst_SomeD)
  then show ?thesis using that[of m] m ctx uo by simp
qed

section \<open>Properties\<close>

text \<open>
  Authority comes from an ACTIVE membership row and from nothing else. A resolved context names
  an ACTIVE member row of exactly the requested organization and the authenticated user and carries
  that row's role; and when the user is authenticated and an organization is named, every other
  membership status gives the very denial that a missing membership gives, so a suspended or
  removed user cannot tell.
\<close>

theorem tenant_context_from_active_membership:
  assumes "userId = Some u" and "orgId = Some o'" and "u \<noteq> []" and "o' \<noteq> []"
  shows "(\<forall>ctx. resolveTenant db userId orgId = Inr ctx \<longrightarrow>
            (\<exists>m \<in> set (members db). mb_status m = ACTIVE \<and> mb_orgId m = o' \<and> mb_userId m = u \<and>
               tc_orgId ctx = o' \<and> tc_userId ctx = u \<and> tc_role ctx = mb_role m))
         \<and> ((\<exists>ctx. resolveTenant db userId orgId = Inr ctx) \<longleftrightarrow>
            map_option mb_status (find_member db o' u) = Some ACTIVE)
         \<and> (map_option mb_status (find_member db o' u) \<noteq> Some ACTIVE \<longrightarrow>
            resolveTenant db userId orgId = Inl NOT_FOUND)"
proof (intro conjI allI impI)
  fix ctx assume "resolveTenant db userId orgId = Inr ctx"
  then show "\<exists>m \<in> set (members db). mb_status m = ACTIVE \<and> mb_orgId m = o' \<and> mb_userId m = u \<and>
      tc_orgId ctx = o' \<and> tc_userId ctx = u \<and> tc_role ctx = mb_role m"
    using assms by (elim resolveTenant_Inr) auto
next
  show "(\<exists>ctx. resolveTenant db userId orgId = Inr ctx) \<longleftrightarrow>
      map_option mb_status (find_member db o' u) = Some ACTIVE"
    using assms by (auto simp: resolveTenant_def Let_def split: option.splits)
next
  assume "map_option mb_status (find_member db o' u) \<noteq> Some ACTIVE"
  then show "resolveTenant db userId orgId = Inl NOT_FOUND"
    using assms by (auto simp: resolveTenant_def split: option.splits)
qed

definition sample_member :: member_row where
  "sample_member = \<lparr>mb_id = ''m1'', mb_orgId = ''o1'', mb_userId = ''u1'', mb_role = FINANCE,
     mb_status = SUSPENDED, mb_invitedAt = None, mb_activatedAt = None, mb_suspendedAt = Some 5,
     mb_createdAt = 1\<rparr>"

theorem tenant_context_from_active_membership_witness:
  "resolveTenant (empty_db\<lparr>members := [sample_member]\<rparr>) (Some ''u1'') (Some ''o1'') = Inl NOT_FOUND"
proof -
  have "map_option mb_status (find_member (empty_db\<lparr>members := [sample_member]\<rparr>) ''o1'' ''u1'')
      \<noteq> Some ACTIVE"
    by (simp add: find_member_def findFirst_def sample_member_def)
  then show ?thesis
    using tenant_context_from_active_membership[of "Some ''u1''" "''u1''" "Some ''o1''" "''o1''"
        "empty_db\<lparr>members := [sample_member]\<rparr>"] by simp
qed

text \<open>
  C13: Possession of an id authorises nothing. Every scoped lookup computes its answer from the
  caller's own organization alone: erasing all rows of all other organizations changes no answer,
  so a foreign row and a row that does not exist are the same miss.
\<close>

theorem scoped_lookups_see_own_tenant_only:
  "(let view = tenant_view (tc_orgId ctx) db in
     findPayment view ctx i = findPayment db ctx i \<and>
     findBatch view ctx i = findBatch db ctx i \<and>
     findEscrow view ctx i = findEscrow db ctx i \<and>
     findProject view ctx i = findProject db ctx i \<and>
     findWorker view ctx i = findWorker db ctx i \<and>
     findTransaction view ctx i = findTransaction db ctx i \<and>
     findAuditEvent view ctx i = findAuditEvent db ctx i \<and>
     findFinding view ctx i = findFinding db ctx i \<and>
     findMember view ctx i = findMember db ctx i \<and>
     findEscrowByOnChainId view ctx n = findEscrowByOnChainId db ctx n \<and>
     assertProjectInTenant view ctx p = assertProjectInTenant db ctx p)"
proof -
  have *: "findProject (tenant_view (tc_orgId ctx) db) ctx j = findProject db ctx j" for j
    by (simp add: findProject_def tenant_view_def scoped_filter)
  show ?thesis
    by (simp add: scoped_defs tenant_view_def scoped_filter findEscrowByOnChainId_view
        assertProjectInTenant_def *[unfolded findProject_def tenant_view_def]
        findEscrowByOnChainId_view[unfolded tenant_view_def] Let_def)
qed

text \<open>
  The organization of a request is never guessed and never trusted. Whatever header, query
  parameter or body the client sends, a request that reaches its handler acts as an ACTIVE member
  of the organization it runs in, with the route's permission; and if the client named none, the
  organization is the caller's only ACTIVE membership.
\<close>

theorem withTenant_never_guesses:
  assumes "withTenant db user header query body permission = Inr ctx"
  shows "(\<exists>m \<in> set (members db). mb_status m = ACTIVE \<and> user = Some (mb_userId m) \<and>
            tc_orgId ctx = mb_orgId m \<and> tc_role ctx = mb_role m)
         \<and> (case permission of None \<Rightarrow> True | Some p \<Rightarrow> can (tc_role ctx) p)
         \<and> (if truthy (requestedOrgId header query body)
            then requestedOrgId header query body = Some (tc_orgId ctx)
            else map mb_orgId (filter (\<lambda>m. user = Some (mb_userId m) \<and> mb_status m = ACTIVE) (members db))
                   = [tc_orgId ctx])"
proof -
  let ?named = "requestedOrgId header query body"
  obtain u where u: "user = Some u" using assms by (cases user) (auto simp: withTenant_def)
  let ?mine = "filter (\<lambda>m. mb_userId m = u \<and> mb_status m = ACTIVE) (members db)"
  have org: "resolveTenant db user
      (if truthy ?named then ?named else Some (mb_orgId (hd (take 2 ?mine)))) = Inr ctx"
    "truthy ?named \<or> length (take 2 ?mine) = 1"
    "case permission of None \<Rightarrow> True | Some p \<Rightarrow> can (tc_role ctx) p"
    using assms u
    by (auto simp: withTenant_def Let_def requirePermission_def
        split: if_splits sum.splits option.splits)
  obtain m where m: "m \<in> set (members db)" "mb_status m = ACTIVE" "user = Some (mb_userId m)"
    "tc_orgId ctx = mb_orgId m" "tc_role ctx = mb_role m"
    "(if truthy ?named then ?named else Some (mb_orgId (hd (take 2 ?mine)))) = Some (mb_orgId m)"
    using org(1) by (elim resolveTenant_Inr) auto
  have "map mb_orgId ?mine = [tc_orgId ctx]" if "\<not> truthy ?named"
  proof -
    have "length ?mine = 1" using org(2) that by (simp add: min_def split: if_splits)
    then obtain x where "?mine = [x]" by (auto simp: length_Suc_conv)
    then show ?thesis using m(4,6) that by simp
  qed
  then show ?thesis using m org(3) u by (auto simp: eq_commute[of u] cong: filter_cong)
qed

theorem withTenant_never_guesses_witness:
  "withTenant (empty_db\<lparr>members := [sample_member\<lparr>mb_status := ACTIVE\<rparr>]\<rparr>)
     (Some ''u1'') None None None None = Inr \<lparr>tc_orgId = ''o1'', tc_orgName = [], tc_orgSlug = [],
       tc_userId = ''u1'', tc_walletAddress = [], tc_role = FINANCE\<rparr> \<and>
   map mb_orgId (filter (\<lambda>m. Some ''u1'' = Some (mb_userId m) \<and> mb_status m = ACTIVE)
     [sample_member\<lparr>mb_status := ACTIVE\<rparr>]) = [''o1'']"
proof -
  let ?db = "empty_db\<lparr>members := [sample_member\<lparr>mb_status := ACTIVE\<rparr>]\<rparr>"
  have run: "withTenant ?db (Some ''u1'') None None None None = Inr \<lparr>tc_orgId = ''o1'',
      tc_orgName = [], tc_orgSlug = [], tc_userId = ''u1'', tc_walletAddress = [], tc_role = FINANCE\<rparr>"
    by (simp add: withTenant_def requestedOrgId_def resolveTenant_def find_member_def findFirst_def
        sample_member_def empty_db_def)
  show ?thesis
    using withTenant_never_guesses[OF run] run by (simp add: requestedOrgId_def)
qed

end
