(* ===== verification/Transitions.thy ===== *)
theory Transitions
  imports Tenancy
begin

text \<open>
  \<open>src/lib/payments/service.ts\<close>: applying a transition with a compare-and-swap and an audit
  row, the audit row of other events, and the rollup of a batch. \<open>applyTransition\<close> is split at
  the point where another request can interleave: \<open>applyTransition_read\<close> is the read and the
  check, \<open>applyTransition_commit\<close> the conditional update and the audit row. The metadata entry
  \<open>transitionReason\<close>, a text determined by the two states, is left out.
\<close>

section \<open>Requests and outcomes\<close>

record transition_request =
  rq_paymentId :: row_id
  rq_to :: payment_state
  rq_actor :: actor
  rq_orgId :: row_id
  rq_reason :: "string option"
  rq_txHash :: "string option"
  rq_metadata :: "json_object option"
  rq_settledAt :: "instant option"

datatype refusal_code = Check transition_error_code | PAYMENT_NOT_FOUND | CONCURRENT_MODIFICATION

datatype transition_outcome =
    Changed payment_state payment_state
  | Unchanged payment_state payment_state
  | Refused nat refusal_code

definition actor_kind_name :: "actor_kind \<Rightarrow> string" where
  "actor_kind_name k = (case k of
     User \<Rightarrow> ''user'' | Indexer \<Rightarrow> ''indexer'' | Reconciler \<Rightarrow> ''reconciler'' | System \<Rightarrow> ''system'')"

section \<open>Applying a transition\<close>

definition applyTransition_read ::
  "database \<Rightarrow> transition_request \<Rightarrow> transition_outcome + payment_row \<times> transition" where
  "applyTransition_read db req =
     (case findFirst (\<lambda>p. pm_id p = rq_paymentId req \<and> pm_orgId p = rq_orgId req) (payments db) of
        None \<Rightarrow> Inl (Refused 404 PAYMENT_NOT_FOUND)
      | Some payment \<Rightarrow>
          if pm_state payment = rq_to req then Inl (Unchanged (pm_state payment) (rq_to req))
          else case checkTransition (pm_state payment) (rq_to req) (rq_actor req) of
            Inl code \<Rightarrow>
              Inl (Refused (if code = ROLE_NOT_PERMITTED \<or> code = ACTOR_NOT_PERMITTED \<or>
                              code = ROLE_REQUIRED then 403 else 409) (Check code))
          | Inr tr \<Rightarrow> Inr (payment, tr))"

definition set_state :: "env \<Rightarrow> transition_request \<Rightarrow> payment_row \<Rightarrow> payment_row" where
  "set_state e req p =
     (let p = p\<lparr>pm_state := rq_to req, pm_stateUpdatedAt := now e, pm_stateReason := rq_reason req\<rparr>;
          p = (if truthy (rq_txHash req) then p\<lparr>pm_settlementTxHash := rq_txHash req\<rparr> else p)
      in if rq_to req = PAID
         then p\<lparr>pm_settledAt := Some (case rq_settledAt req of None \<Rightarrow> now e | Some t \<Rightarrow> t)\<rparr>
         else p)"

definition actor_system :: "actor \<Rightarrow> string option" where
  "actor_system a =
     (if kind a = User then None
      else case system a of None \<Rightarrow> Some (actor_kind_name (kind a)) | Some s \<Rightarrow> Some s)"

definition transition_metadata :: "transition_request \<Rightarrow> json_object" where
  "transition_metadata req =
     spread ([(''actorKind'', JStr (actor_kind_name (kind (rq_actor req))))]
             @ (case role (rq_actor req) of
                  None \<Rightarrow> [] | Some r \<Rightarrow> [(''actorRole'', JStr (org_role_name r))])
             @ (if truthy (rq_reason req) then [(''operatorReason'', JStr (the (rq_reason req)))] else []))
       (case rq_metadata req of None \<Rightarrow> [] | Some m \<Rightarrow> m)"

definition applyTransition_commit ::
  "env \<Rightarrow> database \<Rightarrow> transition_request \<Rightarrow> payment_row \<Rightarrow> database \<times> transition_outcome" where
  "applyTransition_commit e db req payment =
     (let (rows, count) = updateMany
            (\<lambda>p. pm_id p = pm_id payment \<and> pm_orgId p = rq_orgId req \<and> pm_state p = pm_state payment)
            (set_state e req) (payments db)
      in if count = 0 then (db, Refused 409 CONCURRENT_MODIFICATION)
         else (db\<lparr>payments := rows,
                  auditEvents := auditEvents db @
                    [\<lparr>au_id = new_id e db, au_orgId = rq_orgId req,
                      au_type = ''payment.state.changed'',
                      au_actorAddress = address (rq_actor req),
                      au_actorSystem = actor_system (rq_actor req),
                      au_paymentId = Some (pm_id payment), au_batchId = Some (pm_batchId payment),
                      au_escrowId = pm_escrowId payment,
                      au_previousState = Some (pm_state payment), au_newState = Some (rq_to req),
                      au_txHash = rq_txHash req,
                      au_metadata = Some (transition_metadata req)\<rparr>],
                  serial := Suc (serial db)\<rparr>,
               Changed (pm_state payment) (rq_to req)))"

definition applyTransition ::
  "env \<Rightarrow> database \<Rightarrow> transition_request \<Rightarrow> database \<times> transition_outcome" where
  "applyTransition e db req =
     (case applyTransition_read db req of
        Inl out \<Rightarrow> (db, out)
      | Inr (payment, _) \<Rightarrow> applyTransition_commit e db req payment)"

text \<open>The form that opens its own transaction.\<close>

definition transitionPayment ::
  "env \<Rightarrow> database \<Rightarrow> transition_request \<Rightarrow> database \<times> transition_outcome" where
  "transitionPayment e db req = applyTransition e db req"

record audit_input =
  in_orgId :: row_id
  in_type :: string
  in_actor :: "actor option"
  in_paymentId :: "row_id option"
  in_batchId :: "row_id option"
  in_escrowId :: "row_id option"
  in_txHash :: "string option"
  in_metadata :: "json_object option"

definition recordAuditEvent :: "env \<Rightarrow> database \<Rightarrow> audit_input \<Rightarrow> database" where
  "recordAuditEvent e db input =
     db\<lparr>auditEvents := auditEvents db @
          [\<lparr>au_id = new_id e db, au_orgId = in_orgId input, au_type = in_type input,
            au_actorAddress = (case in_actor input of None \<Rightarrow> None | Some a \<Rightarrow> address a),
            au_actorSystem = (case in_actor input of None \<Rightarrow> None | Some a \<Rightarrow> actor_system a),
            au_paymentId = in_paymentId input, au_batchId = in_batchId input,
            au_escrowId = in_escrowId input, au_previousState = None, au_newState = None,
            au_txHash = in_txHash input, au_metadata = in_metadata input\<rparr>],
        serial := Suc (serial db)\<rparr>"

section \<open>The rollup of a batch\<close>

record batch_rollup =
  br_total :: nat
  br_byState :: "(payment_state \<times> nat) list"
  br_totalAmount :: base_units
  br_paidAmount :: base_units
  br_needsAttention :: nat
  br_headline :: string

definition PROGRESS_ORDER :: "payment_state list" where
  "PROGRESS_ORDER = [DRAFT, VALIDATING, AWAITING_ORACLE, ORACLE_VERIFIED, AWAITING_MANAGER,
     AWAITING_FINANCE, READY_TO_SETTLE, SUBMITTING, CONFIRMING, PAID]"

definition BROKEN_STATES :: "payment_state list" where
  "BROKEN_STATES = [RECONCILIATION_REQUIRED, SETTLEMENT_FAILED, SUBMISSION_FAILED, EXPIRED]"

text \<open>\<open>byState[s] = (byState[s] ?? 0) + 1\<close>\<close>

fun bump :: "'k \<Rightarrow> ('k \<times> nat) list \<Rightarrow> ('k \<times> nat) list" where
  "bump k [] = [(k, 1)]"
| "bump k ((j, n) # xs) = (if j = k then (j, n + 1) # xs else (j, n) # bump k xs)"

text \<open>One turn of the loop: the counts, the two sums and the payments that need attention.\<close>

fun rollup_step ::
  "(payment_state \<times> nat) list \<times> base_units \<times> base_units \<times> nat \<Rightarrow> payment_state \<times> base_units \<Rightarrow>
   (payment_state \<times> nat) list \<times> base_units \<times> base_units \<times> nat" where
  "rollup_step (counts, amounts, paid, attention) (s, amount) =
     (bump s counts, amounts + amount, (if s = PAID then paid + amount else paid),
      (if needsAttention (describeState s) then attention + 1 else attention))"

definition rollupBatch :: "(payment_state \<times> base_units) list \<Rightarrow> batch_rollup" where
  "rollupBatch ps =
     (let (counts, amounts, paid, attention) =
            foldl rollup_step ([], 0, 0, 0) ps;
          states = map fst ps;
          broken = List.find (\<lambda>s. s \<in> set BROKEN_STATES) states;
          headline = (if length ps = 0 then ''Empty''
                      else case broken of
                        Some b \<Rightarrow> label (describeState b)
                      | None \<Rightarrow>
                          (case List.find (\<lambda>s. s \<in> set states) PROGRESS_ORDER of
                             Some least \<Rightarrow> label (describeState least)
                           | None \<Rightarrow> label (describeState (hd states))))
      in \<lparr>br_total = length ps, br_byState = counts, br_totalAmount = amounts,
          br_paidAmount = paid, br_needsAttention = attention, br_headline = headline\<rparr>)"

section \<open>Lemmas on one transition\<close>

lemma set_state_simps [simp]:
  "pm_id (set_state e req p) = pm_id p"
  "pm_orgId (set_state e req p) = pm_orgId p"
  "pm_batchId (set_state e req p) = pm_batchId p"
  "pm_escrowId (set_state e req p) = pm_escrowId p"
  "pm_state (set_state e req p) = rq_to req"
  "pm_recipientAddress (set_state e req p) = pm_recipientAddress p"
  "pm_amountBaseUnits (set_state e req p) = pm_amountBaseUnits p"
  "pm_onChainPaymentIndex (set_state e req p) = pm_onChainPaymentIndex p"
  by (simp_all add: set_state_def Let_def)

lemma read_Inr:
  assumes "applyTransition_read db req = Inr (p, tr)"
  shows "p \<in> set (payments db) \<and> pm_id p = rq_paymentId req \<and> pm_orgId p = rq_orgId req \<and>
         pm_state p \<noteq> rq_to req \<and> checkTransition (pm_state p) (rq_to req) (rq_actor req) = Inr tr \<and>
         allowed (pm_state p) (rq_to req) (rq_actor req)"
  using assms
  by (auto simp: applyTransition_read_def allowed_def
      split: option.splits if_splits sum.splits dest!: findFirst_SomeD)

lemma read_Inl: "applyTransition_read db req = Inl out \<Longrightarrow> (\<nexists>f t. out = Changed f t)"
  by (auto simp: applyTransition_read_def split: option.splits if_splits sum.splits)

lemma commit_refused:
  "applyTransition_commit e db req p = (db', out) \<Longrightarrow> \<not> (\<exists>f t. out = Changed f t) \<Longrightarrow>
   db' = db \<and> out = Refused 409 CONCURRENT_MODIFICATION"
  by (auto simp: applyTransition_commit_def Let_def split: prod.splits if_splits)

lemma commit_changed:
  assumes "applyTransition_commit e db req p = (db', Changed f t)"
  shows "f = pm_state p \<and> t = rq_to req \<and>
    payments db' = updated (\<lambda>q. pm_id q = pm_id p \<and> pm_orgId q = rq_orgId req \<and> pm_state q = f)
       (set_state e req) (payments db) \<and>
    (\<exists>q \<in> set (payments db). pm_id q = pm_id p \<and> pm_orgId q = rq_orgId req \<and> pm_state q = f) \<and>
    (\<exists>a. auditEvents db' = auditEvents db @ [a] \<and> au_type a = ''payment.state.changed'' \<and>
       au_orgId a = rq_orgId req \<and> au_paymentId a = Some (pm_id p) \<and>
       au_previousState a = Some f \<and> au_newState a = Some t) \<and>
    db' = db\<lparr>payments := payments db', auditEvents := auditEvents db', serial := Suc (serial db)\<rparr>"
  using assms
  by (auto simp: applyTransition_commit_def Let_def updateMany_def updated_def filter_empty_conv
      split: prod.splits if_splits)

lemma commit_at_once:
  assumes "p \<in> set (payments db)" and "pm_orgId p = rq_orgId req"
  shows "\<exists>db'. applyTransition_commit e db req p = (db', Changed (pm_state p) (rq_to req))"
  using assms
  by (auto simp: applyTransition_commit_def Let_def updateMany_def filter_empty_conv)

lemma commit_keeps:
  assumes "applyTransition_commit e db req p = (db', out)"
  shows "organizations db' = organizations db" "users db' = users db" "members db' = members db"
    "projects db' = projects db" "workers db' = workers db" "escrows db' = escrows db"
    "batches db' = batches db" "approvals db' = approvals db" "transactions db' = transactions db"
    "findings db' = findings db" "invitations db' = invitations db"
    "chainEvents db' = chainEvents db" "cursors db' = cursors db"
  using assms by (auto simp: applyTransition_commit_def Let_def split: prod.splits if_splits)

lemma applyTransition_Changed:
  assumes "applyTransition e db req = (db', Changed f t)"
  obtains p tr where "applyTransition_read db req = Inr (p, tr)"
    "applyTransition_commit e db req p = (db', Changed f t)"
  using assms by (auto simp: applyTransition_def split: sum.splits dest: read_Inl)

lemma applyTransition_other:
  assumes "applyTransition e db req = (db', out)" and "\<not> (\<exists>f t. out = Changed f t)"
  shows "db' = db"
  using assms by (auto simp: applyTransition_def split: sum.splits dest: commit_refused)

lemma applyTransition_keeps:
  assumes "applyTransition e db req = (db', out)"
  shows "organizations db' = organizations db" "users db' = users db" "members db' = members db"
    "projects db' = projects db" "workers db' = workers db" "escrows db' = escrows db"
    "batches db' = batches db" "approvals db' = approvals db" "transactions db' = transactions db"
    "findings db' = findings db" "invitations db' = invitations db"
    "chainEvents db' = chainEvents db" "cursors db' = cursors db"
  using assms by (auto simp: applyTransition_def split: sum.splits dest: commit_keeps)

lemma commit_foreign:
  assumes "applyTransition_commit e db req p = (db', out)"
  shows "foreign_view (rq_orgId req) db' = foreign_view (rq_orgId req) db"
proof -
  let ?u = "updateMany (\<lambda>q. pm_id q = pm_id p \<and> pm_orgId q = rq_orgId req \<and> pm_state q = pm_state p)
      (set_state e req) (payments db)"
  have "filter (\<lambda>r. pm_orgId r \<noteq> rq_orgId req) (fst ?u)
      = filter (\<lambda>r. pm_orgId r \<noteq> rq_orgId req) (payments db)"
    unfolding updated_def[symmetric] by (rule filter_updated) auto
  then show ?thesis
    using assms
    by (cases ?u) (auto simp: applyTransition_commit_def foreign_view_def split: if_splits)
qed

lemma transition_foreign:
  "applyTransition e db req = (db', out) \<Longrightarrow>
   foreign_view (rq_orgId req) db' = foreign_view (rq_orgId req) db"
  by (auto simp: applyTransition_def split: sum.splits dest: commit_foreign)

text \<open>What a transition does not write is the same in every row, and in the same order.\<close>

lemma transition_map:
  assumes "applyTransition e db req = (db', out)" and "\<And>q. g (set_state e req q) = g q"
  shows "map g (payments db') = map g (payments db)"
proof (cases "\<exists>f t. out = Changed f t")
  case True
  then obtain f t where "applyTransition e db req = (db', Changed f t)" using assms(1) by blast
  then obtain p tr where "applyTransition_commit e db req p = (db', Changed f t)"
    by (rule applyTransition_Changed)
  from commit_changed[OF this] have "payments db' = updated (\<lambda>q. pm_id q = pm_id p \<and>
      pm_orgId q = rq_orgId req \<and> pm_state q = f) (set_state e req) (payments db)" by blast
  then show ?thesis by (simp add: map_updated assms(2))
next
  case False
  then show ?thesis using applyTransition_other[OF assms(1)] by simp
qed

section \<open>Interleaved requests\<close>

text \<open>
  Several requests run at once, each between its read and its commit. A configuration is the
  database with the requests in flight, each with the clock and keys of its transaction and the
  payment row it read.
\<close>

type_synonym inflight = "env \<times> transition_request \<times> payment_row"

inductive worker_step ::
  "database \<times> inflight list \<Rightarrow> database \<times> inflight list \<Rightarrow> bool" where
  worker_reads: "applyTransition_read db req = Inr (p, tr) \<Longrightarrow>
     worker_step (db, fl) (db, (e, req, p) # fl)"
| worker_commits: "applyTransition_commit e db req p = (db', out) \<Longrightarrow>
     worker_step (db, xs @ (e, req, p) # ys) (db', xs @ ys)"

inductive_cases worker_stepE: "worker_step (db, fl) c"

text \<open>The audit rows of the transitions of one payment, oldest first.\<close>

definition trail :: "database \<Rightarrow> row_id \<Rightarrow> (payment_state option \<times> payment_state option) list" where
  "trail db i = map (\<lambda>a. (au_previousState a, au_newState a))
     (filter (\<lambda>a. au_paymentId a = Some i \<and> au_type a = ''payment.state.changed'') (auditEvents db))"

text \<open>From \<open>s\<close> the trail leads to \<open>t\<close> along rows of the transition table.\<close>

fun chained :: "payment_state \<Rightarrow> (payment_state option \<times> payment_state option) list \<Rightarrow>
    payment_state \<Rightarrow> bool" where
  "chained s [] t \<longleftrightarrow> s = t"
| "chained s ((previous, next_state) # xs) t \<longleftrightarrow>
     previous = Some s \<and>
     (case next_state of None \<Rightarrow> False
      | Some u \<Rightarrow> findTransition s u \<noteq> None \<and> chained u xs t)"

definition audited :: "(row_id \<Rightarrow> payment_state) \<Rightarrow> database \<Rightarrow> bool" where
  "audited start db \<longleftrightarrow> distinct (map pm_id (payments db)) \<and>
     (\<forall>p \<in> set (payments db). chained (start (pm_id p)) (trail db (pm_id p)) (pm_state p))"

definition inflight_ok :: "inflight \<Rightarrow> bool" where
  "inflight_ok w = (case w of (e, req, p) \<Rightarrow> findTransition (pm_state p) (rq_to req) \<noteq> None)"

lemma chained_snoc:
  "chained s (xs @ [(Some t, Some u)]) v \<longleftrightarrow> chained s xs t \<and> findTransition t u \<noteq> None \<and> v = u"
  by (induction xs arbitrary: s) (auto split: option.splits)

lemma commit_audited:
  assumes "audited start db" and "findTransition (pm_state p) (rq_to req) \<noteq> None"
    and run: "applyTransition_commit e db req p = (db', out)"
  shows "audited start db'"
proof (cases "\<exists>f t. out = Changed f t")
  case False
  then show ?thesis using commit_refused[OF run] assms(1) by simp
next
  case True
  then obtain f t where "out = Changed f t" by blast
  note c = commit_changed[OF run[unfolded this]]
  let ?P = "\<lambda>q. pm_id q = pm_id p \<and> pm_orgId q = rq_orgId req \<and> pm_state q = f"
  have rows: "payments db' = updated ?P (set_state e req) (payments db)" using c by blast
  obtain a where a: "auditEvents db' = auditEvents db @ [a]" "au_type a = ''payment.state.changed''"
    "au_paymentId a = Some (pm_id p)" "au_previousState a = Some f" "au_newState a = Some t"
    using c by blast
  have trail: "trail db' i = trail db i @ (if i = pm_id p then [(Some f, Some t)] else [])" for i
    using a by (auto simp: trail_def)
  have ids: "map pm_id (payments db') = map pm_id (payments db)"
    by (simp add: rows map_updated)
  obtain q0 where q0: "q0 \<in> set (payments db)" "?P q0" using c by blast
  have only: "q = q0" if "q \<in> set (payments db)" "pm_id q = pm_id p" for q
    using assms(1) q0 that by (auto simp: audited_def distinct_map inj_on_def)
  have "chained (start (pm_id q)) (trail db' (pm_id q)) (pm_state q)" if "q \<in> set (payments db')" for q
  proof -
    have "\<exists>r \<in> set (payments db). q = (if ?P r then set_state e req r else r)"
      using that by (simp only: rows set_updated)
    then obtain r where r: "r \<in> set (payments db)" "q = (if ?P r then set_state e req r else r)"
      by blast
    have old: "chained (start (pm_id r)) (trail db (pm_id r)) (pm_state r)"
      using assms(1) r(1) by (simp add: audited_def)
    show ?thesis
    proof (cases "pm_id r = pm_id p")
      case True
      then have "r = q0" using only r(1) by blast
      then show ?thesis
        using old r(2) q0(2) c assms(2) by (auto simp: trail chained_snoc)
    qed (use old r(2) in \<open>auto simp: trail\<close>)
  qed
  then show ?thesis using assms(1) ids by (simp add: audited_def)
qed

lemma commit_terminal:
  assumes "findTransition (pm_state p) (rq_to req) \<noteq> None"
    and run: "applyTransition_commit e db req p = (db', out)"
    and q: "q \<in> set (payments db)" "isTerminal (pm_state q)"
  shows "q \<in> set (payments db')"
proof (cases "\<exists>f t. out = Changed f t")
  case False
  then show ?thesis using commit_refused[OF run] q by simp
next
  case True
  then obtain f t where "out = Changed f t" by blast
  note c = commit_changed[OF run[unfolded this]]
  have "\<not> isTerminal f"
    using assms(1) findTransition_not_terminal c by blast
  then show ?thesis using c q by (force simp: set_updated)
qed

lemma worker_step_invariant:
  assumes "worker_step (db, fl) (db', fl')" and "list_all inflight_ok fl"
  shows "list_all inflight_ok fl' \<and> (audited start db \<longrightarrow> audited start db') \<and>
    (\<forall>q \<in> set (payments db). isTerminal (pm_state q) \<longrightarrow> q \<in> set (payments db'))"
  using assms
proof (cases rule: worker_step.cases)
  case (worker_reads req p tr e)
  then have "findTransition (pm_state p) (rq_to req) \<noteq> None"
    using read_Inr checkTransition_Inr by fastforce
  then show ?thesis using worker_reads assms(2) by (simp add: inflight_ok_def)
next
  case (worker_commits e req p out xs ys)
  then have "findTransition (pm_state p) (rq_to req) \<noteq> None"
    using assms(2) by (simp add: inflight_ok_def)
  then show ?thesis
    using worker_commits assms(2) commit_audited commit_terminal by auto
qed

lemma worker_steps_invariant:
  assumes "worker_step\<^sup>*\<^sup>* c c'" and "list_all inflight_ok (snd c)"
  shows "list_all inflight_ok (snd c') \<and> (audited start (fst c) \<longrightarrow> audited start (fst c')) \<and>
    (\<forall>q \<in> set (payments (fst c)). isTerminal (pm_state q) \<longrightarrow> q \<in> set (payments (fst c')))"
  using assms
proof (induction rule: rtranclp_induct)
  case (step d f)
  then show ?case using worker_step_invariant[of "fst d" "snd d" "fst f" "snd f"] by auto
qed simp

section \<open>Lemmas on the rollup\<close>

lemma sum_bump: "sum_list (map snd (bump k xs)) = Suc (sum_list (map snd xs))"
  by (induction k xs rule: bump.induct) auto

lemma bump_lookup: "map_of (bump k xs) j
    = (if j = k then Some (case map_of xs k of None \<Rightarrow> 1 | Some n \<Rightarrow> n + 1) else map_of xs j)"
  by (induction k xs rule: bump.induct) auto

lemma label_broken:
  "label (describeState s) \<in> (label \<circ> describeState) ` set BROKEN_STATES \<longleftrightarrow> s \<in> set BROKEN_STATES"
  by (cases s) (simp_all add: describeState_def BROKEN_STATES_def)

lemma rollup_fold:
  assumes "foldl rollup_step ([], 0, 0, 0) ps = (counts, amounts, paid, attention)"
  shows "amounts = sum_list (map snd ps) \<and>
     paid = sum_list (map snd (filter (\<lambda>p. fst p = PAID) ps)) \<and>
     attention = length (filter (\<lambda>p. needsAttention (describeState (fst p))) ps) \<and>
     (\<forall>s. (case map_of counts s of None \<Rightarrow> 0 | Some n \<Rightarrow> n) = length (filter (\<lambda>p. fst p = s) ps))"
  using assms
proof (induction ps arbitrary: counts amounts paid attention rule: rev_induct)
  case (snoc p ps)
  obtain s a where p: "p = (s, a)" by fastforce
  obtain b t d n where f: "foldl rollup_step ([], 0, 0, 0) ps = (b, t, d, n)"
    by (metis prod_cases4)
  note ih = snoc.IH[OF f]
  have "(case map_of (bump s b) u of None \<Rightarrow> 0 | Some n \<Rightarrow> n)
      = length (filter (\<lambda>p. fst p = u) (ps @ [p]))" for u
  proof -
    have "(case map_of b u of None \<Rightarrow> 0 | Some n \<Rightarrow> n) = length (filter (\<lambda>p. fst p = u) ps)"
      using ih by blast
    then show ?thesis
      by (cases "u = s"; cases "map_of b u") (simp_all add: bump_lookup p)
  qed
  then show ?case using snoc.prems ih f p by auto
qed simp

lemma rollup_headline:
  "br_headline (rollupBatch ps) =
     (if ps = [] then ''Empty''
      else case List.find (\<lambda>s. s \<in> set BROKEN_STATES) (map fst ps) of
        Some b \<Rightarrow> label (describeState b)
      | None \<Rightarrow> (case List.find (\<lambda>s. s \<in> set (map fst ps)) PROGRESS_ORDER of
                 Some least \<Rightarrow> label (describeState least)
               | None \<Rightarrow> label (describeState (hd (map fst ps)))))"
  by (simp add: rollupBatch_def Let_def split: prod.splits)

lemma headline_from:
  assumes "List.find (\<lambda>s. s \<in> set BROKEN_STATES) (map fst ps) = None" and "ps \<noteq> []"
  shows "\<exists>y \<in> fst ` set ps. br_headline (rollupBatch ps) = label (describeState y)"
proof (cases "List.find (\<lambda>s. s \<in> set (map fst ps)) PROGRESS_ORDER")
  case None
  then show ?thesis using assms by (cases ps) (simp_all add: rollup_headline)
next
  case (Some z)
  then have "z \<in> set (map fst ps)" by (auto simp: find_Some_iff)
  then show ?thesis using assms Some by (auto simp: rollup_headline)
qed

section \<open>Properties\<close>

text \<open>
  C2: No transition is lost and none goes unrecorded, however requests interleave. Start from any
  database whose audit trails are chains; let any number of requests read and commit in any order.
  Then for every payment the audit rows still form one unbroken chain of table transitions from its
  start state to its current state, so no commit overwrote another, and a payment in a terminal
  state is exactly the row it was.
\<close>

theorem no_lost_transition:
  assumes "worker_step\<^sup>*\<^sup>* (db, []) (db', fl)" and "audited start db"
  shows "audited start db' \<and>
    (\<forall>q \<in> set (payments db). isTerminal (pm_state q) \<longrightarrow> q \<in> set (payments db'))"
  using worker_steps_invariant[OF assms(1), of start] assms(2) by simp

definition sample_payment :: payment_row where
  "sample_payment = \<lparr>pm_id = ''p1'', pm_orgId = ''o1'', pm_batchId = ''b1'', pm_escrowId = Some ''e1'',
     pm_workerId = None, pm_recipientAddress = ''GW'', pm_onChainPaymentIndex = Some 0,
     pm_assetContractId = None, pm_assetDecimals = 7, pm_amountBaseUnits = 100,
     pm_rateBaseUnits = 10, pm_hours = 10, pm_periodStart = None, pm_periodEnd = None,
     pm_state = READY_TO_SETTLE, pm_stateUpdatedAt = 0, pm_stateReason = None,
     pm_settledAt = None, pm_settlementTxHash = None, pm_assetCode = ''USDC'', pm_projectId = None,
     pm_sourceReference = None, pm_createdAt = 0\<rparr>"

definition sample_clock :: env where
  "sample_clock = \<lparr>now = 10, cuid = (\<lambda>n. CHR ''c'' # show_nat n)\<rparr>"

definition sample_request :: "payment_state \<Rightarrow> actor \<Rightarrow> transition_request" where
  "sample_request t a = \<lparr>rq_paymentId = ''p1'', rq_to = t, rq_actor = a, rq_orgId = ''o1'',
     rq_reason = None, rq_txHash = None, rq_metadata = None, rq_settledAt = None\<rparr>"

abbreviation sample_db :: database where
  "sample_db \<equiv> empty_db\<lparr>payments := [sample_payment]\<rparr>"

lemma sample_request_reads:
  "findTransition READY_TO_SETTLE t = Some tr \<Longrightarrow> permitted tr a \<Longrightarrow> t \<noteq> READY_TO_SETTLE \<Longrightarrow>
   applyTransition_read sample_db (sample_request t a) = Inr (sample_payment, tr)"
  using checkTransition_Inr[of READY_TO_SETTLE t a tr]
  by (simp add: applyTransition_read_def sample_request_def sample_payment_def findFirst_def)

theorem no_lost_transition_witness:
  "let submit = sample_request SUBMITTING (user_actor FINANCE);
       settle = sample_request PAID (system_actor Indexer);
       db1 = fst (applyTransition_commit sample_clock sample_db settle sample_payment);
       db2 = fst (applyTransition_commit sample_clock db1 submit sample_payment)
   in worker_step\<^sup>*\<^sup>* (sample_db, []) (db2, []) \<and> audited (\<lambda>_. READY_TO_SETTLE) db2 \<and>
      snd (applyTransition_commit sample_clock db1 submit sample_payment)
        = Refused 409 CONCURRENT_MODIFICATION"
proof -
  let ?e = sample_clock
  let ?u = "user_actor FINANCE" and ?i = "system_actor Indexer"
  let ?submit = "sample_request SUBMITTING ?u" and ?settle = "sample_request PAID ?i"
  obtain db1 o1 where c1: "applyTransition_commit ?e sample_db ?settle sample_payment = (db1, o1)"
    by fastforce
  obtain db2 o2 where c2: "applyTransition_commit ?e db1 ?submit sample_payment = (db2, o2)"
    by fastforce
  have r1: "applyTransition_read sample_db ?submit = Inr (sample_payment,
      edge READY_TO_SETTLE SUBMITTING [User] (Some (ADMINISTRATIVE @ [MANAGER, FINANCE])))"
    by (rule sample_request_reads)
      (simp_all add: findTransition_def table_defs permitted_def user_actor_def)
  have r2: "applyTransition_read sample_db ?settle = Inr (sample_payment,
      edge READY_TO_SETTLE PAID CHAIN_OBSERVERS None)"
    by (rule sample_request_reads)
      (simp_all add: findTransition_def table_defs permitted_def system_actor_def)
  have s1: "worker_step (sample_db, []) (sample_db, [(?e, ?submit, sample_payment)])"
    by (rule worker_reads[OF r1])
  have s2: "worker_step (sample_db, [(?e, ?submit, sample_payment)])
      (sample_db, [(?e, ?settle, sample_payment), (?e, ?submit, sample_payment)])"
    by (rule worker_reads[OF r2])
  have s3: "worker_step (sample_db, [(?e, ?settle, sample_payment), (?e, ?submit, sample_payment)])
      (db1, [(?e, ?submit, sample_payment)])"
    using worker_commits[OF c1, of "[]"] by simp
  have s4: "worker_step (db1, [(?e, ?submit, sample_payment)]) (db2, [])"
    using worker_commits[OF c2, of "[]" "[]"] by simp
  have steps: "worker_step\<^sup>*\<^sup>* (sample_db, []) (db2, [])"
    using s1 s2 s3 s4 by (meson converse_rtranclp_into_rtranclp rtranclp.rtrancl_refl)
  have start: "audited (\<lambda>_. READY_TO_SETTLE) sample_db"
    by (simp add: audited_def trail_def empty_db_def sample_payment_def)
  have "o2 = Refused 409 CONCURRENT_MODIFICATION"
    using c1 c2
    by (auto simp: applyTransition_commit_def updateMany_def sample_request_def sample_payment_def
        set_state_def Let_def)
  then show ?thesis
    using steps no_lost_transition[OF steps start] c1 c2 by (simp add: Let_def)
qed

text \<open>
  What one transition does, on every branch. A change happens only where the check allows it
  for the requested payment in the requested organization; it writes that payment's row, through
  \<open>set_state\<close>, and one audit row naming both states, and nothing else. Every other outcome,
  including a repeat of a transition already applied, leaves the database as it was.
\<close>

theorem applyTransition_effect:
  assumes "applyTransition e db req = (db', out)" and "distinct (map pm_id (payments db))"
  shows "(case out of
      Changed f t \<Rightarrow>
        t = rq_to req \<and> allowed f t (rq_actor req) \<and>
        (\<exists>p \<in> set (payments db). pm_id p = rq_paymentId req \<and> pm_orgId p = rq_orgId req \<and>
           pm_state p = f \<and>
           payments db' = map (\<lambda>q. if q = p then set_state e req q else q) (payments db)) \<and>
        (\<exists>a. db' = db\<lparr>payments := payments db', auditEvents := auditEvents db @ [a],
                      serial := Suc (serial db)\<rparr> \<and>
           au_paymentId a = Some (rq_paymentId req) \<and> au_orgId a = rq_orgId req \<and>
           au_previousState a = Some f \<and> au_newState a = Some t)
    | Unchanged f t \<Rightarrow> f = t \<and> t = rq_to req \<and> db' = db
    | Refused status code \<Rightarrow>
        db' = db \<and> status \<in> {403, 404, 409} \<and> (status = 404 \<longleftrightarrow> code = PAYMENT_NOT_FOUND))"
proof (cases "\<exists>f t. out = Changed f t")
  case True
  then obtain f t where out: "out = Changed f t" by blast
  obtain p tr where read: "applyTransition_read db req = Inr (p, tr)"
    and commit: "applyTransition_commit e db req p = (db', Changed f t)"
    using assms(1) out by (auto elim: applyTransition_Changed)
  note r = read_Inr[OF read] and c = commit_changed[OF commit]
  have only: "pm_id q = pm_id p \<longleftrightarrow> q = p" if "q \<in> set (payments db)" for q
    using assms(2) r that by (auto simp: distinct_map inj_on_def)
  then have iff: "pm_id q = pm_id p \<and> pm_orgId q = rq_orgId req \<and> pm_state q = f \<longleftrightarrow> q = p"
    if "q \<in> set (payments db)" for q
    using that c r by metis
  have "payments db' = updated (\<lambda>q. pm_id q = pm_id p \<and> pm_orgId q = rq_orgId req \<and> pm_state q = f)
      (set_state e req) (payments db)"
    using c by blast
  then have "payments db' = map (\<lambda>q. if q = p then set_state e req q else q) (payments db)"
    by (simp only: updated_eq iff cong: map_cong)
  then have rows: "\<exists>p \<in> set (payments db). pm_id p = rq_paymentId req \<and> pm_orgId p = rq_orgId req \<and>
      pm_state p = f \<and> payments db' = map (\<lambda>q. if q = p then set_state e req q else q) (payments db)"
    using r c by blast
  obtain a where a: "auditEvents db' = auditEvents db @ [a]" "au_orgId a = rq_orgId req"
    "au_paymentId a = Some (pm_id p)" "au_previousState a = Some f" "au_newState a = Some t"
    using c by blast
  have "db' = db\<lparr>payments := payments db', auditEvents := auditEvents db',
      serial := Suc (serial db)\<rparr>"
    using c by blast
  then have written: "db' = db\<lparr>payments := payments db', auditEvents := auditEvents db @ [a],
      serial := Suc (serial db)\<rparr>"
    unfolding a(1) .
  have "au_paymentId a = Some (rq_paymentId req)" using a(3) r by simp
  then have audit: "\<exists>a. db' = db\<lparr>payments := payments db', auditEvents := auditEvents db @ [a],
      serial := Suc (serial db)\<rparr> \<and> au_paymentId a = Some (rq_paymentId req) \<and>
      au_orgId a = rq_orgId req \<and> au_previousState a = Some f \<and> au_newState a = Some t"
    using a(2,4,5) by (intro exI[of _ a] conjI written)
  have target: "t = rq_to req" and allow: "allowed f t (rq_actor req)" using c r by blast+
  show ?thesis
    unfolding out transition_outcome.case by (intro conjI target allow rows audit)
next
  case False
  then have "db' = db" using applyTransition_other assms(1) by blast
  then show ?thesis
    using assms(1) False
    by (auto simp: applyTransition_def applyTransition_read_def applyTransition_commit_def Let_def
        split: transition_outcome.splits option.splits if_splits sum.splits prod.splits)
qed

theorem applyTransition_effect_witness:
  "let (db', out) = applyTransition sample_clock sample_db (sample_request PAID (system_actor Indexer))
   in out = Changed READY_TO_SETTLE PAID \<and> map pm_state (payments db') = [PAID] \<and>
      allowed READY_TO_SETTLE PAID (system_actor Indexer)"
proof -
  let ?req = "sample_request PAID (system_actor Indexer)"
  obtain db' out where run: "applyTransition sample_clock sample_db ?req = (db', out)" by fastforce
  have read: "applyTransition_read sample_db ?req = Inr (sample_payment,
      edge READY_TO_SETTLE PAID CHAIN_OBSERVERS None)"
    by (rule sample_request_reads)
      (simp_all add: findTransition_def table_defs permitted_def system_actor_def)
  have out: "out = Changed READY_TO_SETTLE PAID"
  proof -
    obtain db2 where "applyTransition_commit sample_clock sample_db ?req sample_payment
        = (db2, Changed (pm_state sample_payment) (rq_to ?req))"
      using commit_at_once[of sample_payment sample_db ?req sample_clock]
      by (auto simp: sample_payment_def sample_request_def)
    then show ?thesis
      using run by (simp add: applyTransition_def read) (simp add: sample_payment_def sample_request_def)
  qed
  have "distinct (map pm_id (payments sample_db))" by simp
  from applyTransition_effect[OF run this] show ?thesis
    using run out by (auto simp: sample_request_def)
qed

text \<open>
  The rollup of a batch counts exactly and hides nothing. The totals are the sums over the
  payments, the counts by state are the numbers of payments in each state, and the headline is the
  label of a broken state exactly when some payment is in a broken state.
\<close>

theorem rollupBatch_exact:
  "br_total (rollupBatch ps) = length ps \<and>
   br_totalAmount (rollupBatch ps) = sum_list (map snd ps) \<and>
   br_paidAmount (rollupBatch ps) = sum_list (map snd (filter (\<lambda>p. fst p = PAID) ps)) \<and>
   br_needsAttention (rollupBatch ps)
     = length (filter (\<lambda>p. needsAttention (describeState (fst p))) ps) \<and>
   (case map_of (br_byState (rollupBatch ps)) s of None \<Rightarrow> 0 | Some n \<Rightarrow> n)
     = length (filter (\<lambda>p. fst p = s) ps) \<and>
   (br_headline (rollupBatch ps) \<in> (label \<circ> describeState) ` set BROKEN_STATES
     \<longleftrightarrow> (\<exists>p \<in> set ps. fst p \<in> set BROKEN_STATES))"
proof -
  obtain b t d n where f: "foldl rollup_step ([], 0, 0, 0) ps = (b, t, d, n)"
    by (metis prod_cases4)
  have empty: "''Empty'' \<notin> (label \<circ> describeState) ` set BROKEN_STATES"
    by (simp add: BROKEN_STATES_def describeState_def)
  have headline: "br_headline (rollupBatch ps) \<in> (label \<circ> describeState) ` set BROKEN_STATES
     \<longleftrightarrow> (\<exists>p \<in> set ps. fst p \<in> set BROKEN_STATES)"
  proof (cases "List.find (\<lambda>s. s \<in> set BROKEN_STATES) (map fst ps)")
    case (Some x)
    then have "x \<in> set BROKEN_STATES" "x \<in> set (map fst ps)"
      by (auto simp: find_Some_iff)
    moreover have "br_headline (rollupBatch ps) = label (describeState x)"
      using Some by (cases ps) (simp_all add: rollup_headline)
    ultimately show ?thesis by auto
  next
    case None
    then have none: "\<forall>p \<in> set ps. fst p \<notin> set BROKEN_STATES" by (auto simp: find_None_iff)
    show ?thesis
    proof (cases "ps = []")
      case True
      then show ?thesis using empty by (simp add: rollup_headline)
    next
      case False
      then obtain p where "p \<in> set ps" "br_headline (rollupBatch ps) = label (describeState (fst p))"
        using headline_from[OF None] by blast
      then show ?thesis using none label_broken[of "fst p"] by simp
    qed
  qed
  show ?thesis
    using rollup_fold[OF f] headline by (simp add: rollupBatch_def f Let_def)
qed

end
