(* ===== verification/Actions.thy ===== *)
theory Actions
  imports Transitions
begin

text \<open>
  \<open>src/lib/payments/actions.ts\<close>: the business actions a member can perform on a payment.
  Each is a function of the clock and keys, the database and the action's context, and returns
  the database with the answer: a status with an optional code, or a status with a body. The
  English messages and notes of the answers are left out; the reasons an action stores are kept.
\<close>

section \<open>Contexts and answers\<close>

record action_context =
  ac_membership :: membership
  ac_paymentId :: row_id
  ac_idempotencyKey :: "string option"
  ac_reason :: "string option"

datatype action_code = Transition_code refusal_code | RECONCILIATION_FIRST

record attempt_summary =
  sm_id :: row_id
  sm_status :: tx_status
  sm_hash :: "string option"
  sm_attempt :: nat

record action_body =
  bd_previousState :: "payment_state option"
  bd_state :: payment_state
  bd_changed :: bool
  bd_approvalRole :: "org_role option"
  bd_decision :: "approval_decision option"
  bd_transaction :: "attempt_summary option"

type_synonym action_result = "(nat \<times> action_code option) + (nat \<times> action_body)"

definition body :: "payment_state option \<Rightarrow> payment_state \<Rightarrow> bool \<Rightarrow> action_body" where
  "body previous s changed = \<lparr>bd_previousState = previous, bd_state = s, bd_changed = changed,
     bd_approvalRole = None, bd_decision = None, bd_transaction = None\<rparr>"

definition outcomeToResult :: "transition_outcome \<Rightarrow> attempt_summary option \<Rightarrow> action_result" where
  "outcomeToResult out extra = (case out of
     Refused status code \<Rightarrow> Inl (status, Some (Transition_code code))
   | Changed f t \<Rightarrow> Inr (200, (body (Some f) t True)\<lparr>bd_transaction := extra\<rparr>)
   | Unchanged f t \<Rightarrow> Inr (200, (body (Some f) t False)\<lparr>bd_transaction := extra\<rparr>))"

section \<open>Approve\<close>

text \<open>Which half of the gate the caller exercises.\<close>

definition approvalRole :: "org_role \<Rightarrow> payment_state \<Rightarrow> org_role" where
  "approvalRole r s =
     (if r = FINANCE then FINANCE else if r = MANAGER then MANAGER
      else if s = AWAITING_FINANCE then FINANCE else MANAGER)"

definition find_approval :: "database \<Rightarrow> row_id \<Rightarrow> org_role \<Rightarrow> approval_row option" where
  "find_approval db i r = findFirst (\<lambda>a. ap_paymentId a = i \<and> ap_role a = r) (approvals db)"

definition approvePayment ::
  "env \<Rightarrow> database \<Rightarrow> action_context \<Rightarrow> database \<times> action_result" where
  "approvePayment e db ctx =
     (let membership = ac_membership ctx; r = tc_role membership in
      if r \<noteq> MANAGER \<and> r \<noteq> FINANCE \<and> r \<noteq> OWNER \<and> r \<noteq> ADMIN then (db, Inl (403, None))
      else case findPaymentForMember db membership (ac_paymentId ctx) of
        Inl d \<Rightarrow> (db, Inl (dn_status d, None))
      | Inr payment \<Rightarrow>
          (let half = approvalRole r (pm_state payment) in
           case find_approval db (pm_id payment) half of
             Some existing \<Rightarrow>
               (db, Inr (200, (body None (pm_state payment) False)
                  \<lparr>bd_decision := Some (ap_decision existing)\<rparr>))
           | None \<Rightarrow>
               (let other = find_approval db (pm_id payment)
                      (if half = MANAGER then FINANCE else MANAGER) in
                if other \<noteq> None \<and> ap_actorAddress (the other) = tc_walletAddress membership
                then (db, Inl (409, None))
                else
                  (let db1 = db\<lparr>approvals := approvals db @
                         [\<lparr>ap_id = new_id e db, ap_orgId = tc_orgId membership,
                           ap_paymentId = pm_id payment, ap_role = half, ap_decision = APPROVED,
                           ap_actorAddress = tc_walletAddress membership,
                           ap_reason = ac_reason ctx\<rparr>],
                         serial := Suc (serial db)\<rparr>;
                       db2 = recordAuditEvent e db1
                         \<lparr>in_orgId = tc_orgId membership, in_type = ''approval.granted'',
                          in_actor = Some (actorFromMembership membership),
                          in_paymentId = Some (pm_id payment),
                          in_batchId = Some (pm_batchId payment),
                          in_escrowId = pm_escrowId payment, in_txHash = None,
                          in_metadata = Some [(''role'', JStr (org_role_name half)),
                            (''decision'', JStr ''APPROVED'')]\<rparr>
                   in (db2, Inr (201, (body None (pm_state payment) False)
                         \<lparr>bd_approvalRole := Some half\<rparr>))))))"

section \<open>Reject, cancel\<close>

definition member_request ::
  "membership \<Rightarrow> row_id \<Rightarrow> payment_state \<Rightarrow> string option \<Rightarrow> json_object \<Rightarrow> transition_request" where
  "member_request membership i t reason metadata =
     \<lparr>rq_paymentId = i, rq_to = t, rq_actor = actorFromMembership membership,
      rq_orgId = tc_orgId membership, rq_reason = reason, rq_txHash = None,
      rq_metadata = Some metadata, rq_settledAt = None\<rparr>"

text \<open>\<open>db.approval.upsert\<close> of a rejection: an existing row keeps its author.\<close>

definition upsert_rejection ::
  "env \<Rightarrow> database \<Rightarrow> membership \<Rightarrow> row_id \<Rightarrow> org_role \<Rightarrow> string option \<Rightarrow> database" where
  "upsert_rejection e db membership i half reason =
     (case find_approval db i half of
        Some _ \<Rightarrow> db\<lparr>approvals := updated (\<lambda>a. ap_paymentId a = i \<and> ap_role a = half)
            (\<lambda>a. a\<lparr>ap_decision := DECISION_REJECTED, ap_reason := reason\<rparr>) (approvals db)\<rparr>
      | None \<Rightarrow> db\<lparr>approvals := approvals db @
            [\<lparr>ap_id = new_id e db, ap_orgId = tc_orgId membership, ap_paymentId = i,
              ap_role = half, ap_decision = DECISION_REJECTED,
              ap_actorAddress = tc_walletAddress membership, ap_reason = reason\<rparr>],
            serial := Suc (serial db)\<rparr>)"

definition rejectPayment ::
  "env \<Rightarrow> database \<Rightarrow> action_context \<Rightarrow> database \<times> action_result" where
  "rejectPayment e db ctx =
     (let membership = ac_membership ctx in
      if \<not> truthy (ac_reason ctx) \<or> length (js_trim (the (ac_reason ctx))) < 3
      then (db, Inl (400, None))
      else case findPaymentForMember db membership (ac_paymentId ctx) of
        Inl d \<Rightarrow> (db, Inl (dn_status d, None))
      | Inr payment \<Rightarrow>
          (let (db1, outcome) = transitionPayment e db
                 (member_request membership (pm_id payment) REJECTED (ac_reason ctx)
                    [(''action'', JStr ''reject'')]);
               half = (if tc_role membership = FINANCE then FINANCE else MANAGER);
               db2 = (case outcome of
                        Changed _ _ \<Rightarrow>
                          upsert_rejection e db1 membership (pm_id payment) half (ac_reason ctx)
                      | _ \<Rightarrow> db1)
           in (db2, outcomeToResult outcome None)))"

definition or_default :: "string option \<Rightarrow> string \<Rightarrow> string option" where
  "or_default s d = (case s of None \<Rightarrow> Some d | Some x \<Rightarrow> Some x)"

definition cancelPayment ::
  "env \<Rightarrow> database \<Rightarrow> action_context \<Rightarrow> database \<times> action_result" where
  "cancelPayment e db ctx =
     (let membership = ac_membership ctx in
      case findPaymentForMember db membership (ac_paymentId ctx) of
        Inl d \<Rightarrow> (db, Inl (dn_status d, None))
      | Inr payment \<Rightarrow>
          (let (db1, outcome) = transitionPayment e db
                 (member_request membership (pm_id payment) CANCELLED
                    (or_default (ac_reason ctx) ''Cancelled by operator.'')
                    [(''action'', JStr ''cancel'')])
           in (db1, outcomeToResult outcome None)))"

section \<open>Submit, retry, flag\<close>

definition create_attempt :: "env \<Rightarrow> database \<Rightarrow> membership \<Rightarrow> payment_row \<Rightarrow> string \<Rightarrow> transaction_row" where
  "create_attempt e db membership payment key =
     \<lparr>tx_id = new_id e db, tx_orgId = tc_orgId membership, tx_paymentId = Some (pm_id payment),
      tx_escrowId = pm_escrowId payment, tx_kind = PAY_BATCH, tx_status = PREPARING,
      tx_idempotencyKey = key,
      tx_attempt = length (filter (\<lambda>t. tx_paymentId t = Some (pm_id payment) \<and> tx_kind t = PAY_BATCH)
                     (transactions db)) + 1,
      tx_hash = None, tx_contractId = pm_assetContractId payment, tx_batchId = None,
      tx_network = ''testnet'', tx_plan = None, tx_planDigest = None, tx_errorMessage = None,
      tx_createdAt = now e, tx_submittedAt = None, tx_confirmedAt = None\<rparr>"

definition find_transaction :: "database \<Rightarrow> string \<Rightarrow> transaction_row option" where
  "find_transaction db key = findFirst (\<lambda>t. tx_idempotencyKey t = key) (transactions db)"

definition submitPaymentForSettlement ::
  "env \<Rightarrow> database \<Rightarrow> action_context \<Rightarrow> database \<times> action_result" where
  "submitPaymentForSettlement e db ctx =
     (let membership = ac_membership ctx in
      if \<not> truthy (ac_idempotencyKey ctx) then (db, Inl (400, None))
      else let key = the (ac_idempotencyKey ctx) in
        case findPaymentForMember db membership (ac_paymentId ctx) of
          Inl d \<Rightarrow> (db, Inl (dn_status d, None))
        | Inr payment \<Rightarrow>
            (case find_transaction db key of
               Some existing \<Rightarrow>
                 if tx_paymentId existing \<noteq> Some (pm_id payment) then (db, Inl (409, None))
                 else let current = findFirst (\<lambda>p. pm_id p = pm_id payment) (payments db) in
                   (db, Inr (200, (body None
                       (case current of None \<Rightarrow> pm_state payment | Some c \<Rightarrow> pm_state c) False)
                     \<lparr>bd_transaction := Some \<lparr>sm_id = tx_id existing, sm_status = tx_status existing,
                        sm_hash = tx_hash existing, sm_attempt = tx_attempt existing\<rparr>\<rparr>))
             | None \<Rightarrow>
                 (let (db1, outcome) = transitionPayment e db
                        (member_request membership (pm_id payment) SUBMITTING None
                           [(''action'', JStr ''submit''), (''idempotencyKey'', JStr key)])
                  in case outcome of
                       Refused status code \<Rightarrow> (db1, Inl (status, Some (Transition_code code)))
                     | _ \<Rightarrow>
                         (let tx = create_attempt e db1 membership payment key
                          in (db1\<lparr>transactions := transactions db1 @ [tx], serial := Suc (serial db1)\<rparr>,
                              outcomeToResult outcome
                                (Some \<lparr>sm_id = tx_id tx, sm_status = tx_status tx, sm_hash = None,
                                       sm_attempt = tx_attempt tx\<rparr>))))))"

definition retryPayment ::
  "env \<Rightarrow> database \<Rightarrow> action_context \<Rightarrow> database \<times> action_result" where
  "retryPayment e db ctx =
     (let membership = ac_membership ctx in
      case findPaymentForMember db membership (ac_paymentId ctx) of
        Inl d \<Rightarrow> (db, Inl (dn_status d, None))
      | Inr payment \<Rightarrow>
          if pm_state payment = SETTLEMENT_FAILED then (db, Inl (409, Some RECONCILIATION_FIRST))
          else
            (let (db1, outcome) = transitionPayment e db
                   (member_request membership (pm_id payment) READY_TO_SETTLE
                      (or_default (ac_reason ctx) ''Retried after a failed submission.'')
                      [(''action'', JStr ''retry'')])
             in (db1, outcomeToResult outcome None)))"

definition flagForReconciliation ::
  "env \<Rightarrow> database \<Rightarrow> action_context \<Rightarrow> database \<times> action_result" where
  "flagForReconciliation e db ctx =
     (let membership = ac_membership ctx; r = tc_role membership in
      if r \<noteq> OWNER \<and> r \<noteq> ADMIN then (db, Inl (403, None))
      else case findPaymentForMember db membership (ac_paymentId ctx) of
        Inl d \<Rightarrow> (db, Inl (dn_status d, None))
      | Inr payment \<Rightarrow>
          (let (db1, outcome) = transitionPayment e db
                 ((member_request membership (pm_id payment) RECONCILIATION_REQUIRED
                    (or_default (ac_reason ctx) ''Flagged for reconciliation by an operator.'')
                    [(''action'', JStr ''reconcile'')])
                  \<lparr>rq_actor := \<lparr>kind = Reconciler, role = None,
                     address = Some (tc_walletAddress membership),
                     system = Some ''reconciler''\<rparr>\<rparr>)
           in (db1, outcomeToResult outcome None)))"

text \<open>The six actions, one route each.\<close>

datatype action = Approve | Reject | Cancel | Submit | Retry | Flag

definition perform ::
  "action \<Rightarrow> env \<Rightarrow> database \<Rightarrow> action_context \<Rightarrow> database \<times> action_result" where
  "perform a = (case a of
     Approve \<Rightarrow> approvePayment | Reject \<Rightarrow> rejectPayment | Cancel \<Rightarrow> cancelPayment
   | Submit \<Rightarrow> submitPaymentForSettlement | Retry \<Rightarrow> retryPayment | Flag \<Rightarrow> flagForReconciliation)"

section \<open>What an action does to the payments\<close>

lemmas action_defs = approvePayment_def rejectPayment_def cancelPayment_def
  submitPaymentForSettlement_def retryPayment_def flagForReconciliation_def

lemmas found_simps = findPaymentForMember_def transitionPayment_def

lemma upsert_keeps [simp]:
  "payments (upsert_rejection e db m i r x) = payments db"
  "auditEvents (upsert_rejection e db m i r x) = auditEvents db"
  "transactions (upsert_rejection e db m i r x) = transactions db"
  by (simp_all add: upsert_rejection_def split: option.splits)

lemma record_keeps [simp]:
  "payments (recordAuditEvent e db x) = payments db"
  "approvals (recordAuditEvent e db x) = approvals db"
  "transactions (recordAuditEvent e db x) = transactions db"
  by (simp_all add: recordAuditEvent_def)

lemma member_request_simps [simp]:
  "rq_paymentId (member_request m i t x y) = i" "rq_to (member_request m i t x y) = t"
  "rq_actor (member_request m i t x y) = actorFromMembership m"
  "rq_orgId (member_request m i t x y) = tc_orgId m"
  by (simp_all add: member_request_def)

text \<open>
  The target of an action and the actor it acts as: an action changes payments through one
  transition with this target at most.
\<close>

definition target :: "action \<Rightarrow> payment_state option" where
  "target a = (case a of
     Approve \<Rightarrow> None | Reject \<Rightarrow> Some REJECTED | Cancel \<Rightarrow> Some CANCELLED
   | Submit \<Rightarrow> Some SUBMITTING | Retry \<Rightarrow> Some READY_TO_SETTLE
   | Flag \<Rightarrow> Some RECONCILIATION_REQUIRED)"

definition acts_as :: "action \<Rightarrow> membership \<Rightarrow> actor \<Rightarrow> bool" where
  "acts_as a m x \<longleftrightarrow>
     (if a = Flag then kind x = Reconciler \<and> tc_role m \<in> {OWNER, ADMIN}
      else x = actorFromMembership m)"

definition by_transition ::
  "action \<Rightarrow> env \<Rightarrow> database \<Rightarrow> action_context \<Rightarrow> database \<Rightarrow> bool" where
  "by_transition a e db ctx db' \<longleftrightarrow>
     (\<exists>req db1 f t. applyTransition e db req = (db1, Changed f t) \<and> payments db' = payments db1 \<and>
        rq_orgId req = tc_orgId (ac_membership ctx) \<and> rq_paymentId req = ac_paymentId ctx \<and>
        target a = Some (rq_to req) \<and> acts_as a (ac_membership ctx) (rq_actor req))"

lemma by_transitionI:
  assumes "applyTransition e db req = (db1, out)" and "payments db' = payments db1"
    and "rq_orgId req = tc_orgId (ac_membership ctx)" and "rq_paymentId req = ac_paymentId ctx"
    and "target a = Some (rq_to req)" and "acts_as a (ac_membership ctx) (rq_actor req)"
  shows "payments db' = payments db \<or> by_transition a e db ctx db'"
proof (cases "\<exists>f t. out = Changed f t")
  case True
  then show ?thesis using assms by (auto simp: by_transition_def)
next
  case False
  then show ?thesis using applyTransition_other assms(1,2) by metis
qed

lemma perform_payments:
  assumes "perform a e db ctx = (db', res)"
  shows "payments db' = payments db \<or> by_transition a e db ctx db'"
proof (cases a)
  case Approve
  then show ?thesis
    using assms
    by (auto simp: perform_def approvePayment_def Let_def split: if_splits sum.splits option.splits)
next
  case Reject
  show ?thesis
  proof (cases "payments db' = payments db")
    case False
    then obtain payment db1 out where p: "findPayment db (ac_membership ctx) (ac_paymentId ctx) = Inr payment"
      "applyTransition e db (member_request (ac_membership ctx) (pm_id payment) REJECTED
         (ac_reason ctx) [(''action'', JStr ''reject'')]) = (db1, out)" "payments db' = payments db1"
      using assms Reject
      by (auto simp: perform_def rejectPayment_def found_simps Let_def
          split: if_splits sum.splits prod.splits transition_outcome.splits)
    then show ?thesis
      using by_transitionI[OF p(2,3), of ctx a] findPayment_Inr[OF p(1)] Reject
      by (simp add: target_def acts_as_def)
  qed simp
next
  case Cancel
  show ?thesis
  proof (cases "payments db' = payments db")
    case False
    then obtain payment out where p: "findPayment db (ac_membership ctx) (ac_paymentId ctx) = Inr payment"
      "applyTransition e db (member_request (ac_membership ctx) (pm_id payment) CANCELLED
         (or_default (ac_reason ctx) ''Cancelled by operator.'') [(''action'', JStr ''cancel'')])
         = (db', out)"
      using assms Cancel
      by (auto simp: perform_def cancelPayment_def found_simps Let_def split: sum.splits prod.splits)
    then show ?thesis
      using by_transitionI[OF p(2) refl, of ctx a] findPayment_Inr[OF p(1)] Cancel
      by (simp add: target_def acts_as_def)
  qed simp
next
  case Submit
  show ?thesis
  proof (cases "payments db' = payments db")
    case False
    then obtain payment db1 out where p: "findPayment db (ac_membership ctx) (ac_paymentId ctx) = Inr payment"
      "applyTransition e db (member_request (ac_membership ctx) (pm_id payment) SUBMITTING None
         [(''action'', JStr ''submit''), (''idempotencyKey'', JStr (the (ac_idempotencyKey ctx)))])
         = (db1, out)" "payments db' = payments db1"
      using assms Submit
      by (auto simp: perform_def submitPaymentForSettlement_def found_simps Let_def
          split: if_splits sum.splits prod.splits option.splits transition_outcome.splits)
    then show ?thesis
      using by_transitionI[OF p(2,3), of ctx a] findPayment_Inr[OF p(1)] Submit
      by (simp add: target_def acts_as_def)
  qed simp
next
  case Retry
  show ?thesis
  proof (cases "payments db' = payments db")
    case False
    then obtain payment out where p: "findPayment db (ac_membership ctx) (ac_paymentId ctx) = Inr payment"
      "applyTransition e db (member_request (ac_membership ctx) (pm_id payment) READY_TO_SETTLE
         (or_default (ac_reason ctx) ''Retried after a failed submission.'')
         [(''action'', JStr ''retry'')]) = (db', out)"
      using assms Retry
      by (auto simp: perform_def retryPayment_def found_simps Let_def
          split: if_splits sum.splits prod.splits)
    then show ?thesis
      using by_transitionI[OF p(2) refl, of ctx a] findPayment_Inr[OF p(1)] Retry
      by (simp add: target_def acts_as_def)
  qed simp
next
  case Flag
  show ?thesis
  proof (cases "payments db' = payments db")
    case False
    then obtain payment out x where p: "findPayment db (ac_membership ctx) (ac_paymentId ctx) = Inr payment"
      "applyTransition e db ((member_request (ac_membership ctx) (pm_id payment) RECONCILIATION_REQUIRED
         (or_default (ac_reason ctx) ''Flagged for reconciliation by an operator.'')
         [(''action'', JStr ''reconcile'')])\<lparr>rq_actor := x\<rparr>) = (db', out)"
      "kind x = Reconciler" "tc_role (ac_membership ctx) \<in> {OWNER, ADMIN}"
      using assms Flag
      by (auto simp: perform_def flagForReconciliation_def found_simps Let_def
          split: if_splits sum.splits prod.splits)
    then show ?thesis
      using by_transitionI[OF p(2) refl, of ctx a] findPayment_Inr[OF p(1)] Flag
      by (simp add: target_def acts_as_def)
  qed simp
qed

lemma by_transition_rows:
  assumes "by_transition a e db ctx db'" and "q \<in> set (payments db')"
  shows "q \<in> set (payments db) \<or> target a = Some (pm_state q) \<and>
    pm_id q = ac_paymentId ctx \<and> pm_orgId q = tc_orgId (ac_membership ctx)"
proof -
  obtain req db1 f t where r: "applyTransition e db req = (db1, Changed f t)"
    "payments db' = payments db1" "rq_orgId req = tc_orgId (ac_membership ctx)"
    "rq_paymentId req = ac_paymentId ctx" "target a = Some (rq_to req)"
    using assms(1) by (auto simp: by_transition_def)
  obtain p tr where p: "applyTransition_read db req = Inr (p, tr)"
    "applyTransition_commit e db req p = (db1, Changed f t)"
    using r(1) by (rule applyTransition_Changed)
  have rows: "payments db1 = updated (\<lambda>q. pm_id q = pm_id p \<and> pm_orgId q = rq_orgId req \<and>
      pm_state q = f) (set_state e req) (payments db)"
    using commit_changed[OF p(2)] by blast
  have "\<exists>x \<in> set (payments db). q = (if pm_id x = pm_id p \<and> pm_orgId x = rq_orgId req \<and>
      pm_state x = f then set_state e req x else x)"
    using assms(2) unfolding r(2) rows set_updated .
  then show ?thesis using r read_Inr[OF p(1)] by (auto split: if_splits)
qed

section \<open>What an action does to other tenants\<close>

text \<open>The composite foreign key of \<open>Approval\<close>: its payment belongs to its organization.\<close>

definition approvals_owned :: "database \<Rightarrow> bool" where
  "approvals_owned db \<longleftrightarrow> distinct (map pm_id (payments db)) \<and>
     (\<forall>a \<in> set (approvals db). \<exists>p \<in> set (payments db).
        ap_paymentId a = pm_id p \<and> ap_orgId a = pm_orgId p)"

lemma transition_approvals:
  assumes "applyTransition e db req = (db', out)"
  shows "approvals db' = approvals db" "map pm_id (payments db') = map pm_id (payments db)"
    "map pm_orgId (payments db') = map pm_orgId (payments db)"
  by (rule applyTransition_keeps(8)[OF assms], (rule transition_map[OF assms], simp)+)

text \<open>Ownership of the approvals only reads the keys of the payments.\<close>

lemma approvals_owned_keys:
  "approvals_owned db \<longleftrightarrow> distinct (map pm_id (payments db)) \<and>
     (\<forall>a \<in> set (approvals db).
        (ap_paymentId a, ap_orgId a) \<in> set (zip (map pm_id (payments db)) (map pm_orgId (payments db))))"
  by (simp add: approvals_owned_def set_zip_map image_iff)

lemma transition_owned:
  "applyTransition e db req = (db', out) \<Longrightarrow> approvals_owned db' \<longleftrightarrow> approvals_owned db"
  unfolding approvals_owned_keys by (simp add: transition_approvals)

lemma upsert_foreign:
  assumes "approvals_owned db" and "findPayment db m i = Inr p"
  shows "foreign_view (tc_orgId m) (upsert_rejection e db m (pm_id p) half x)
       = foreign_view (tc_orgId m) db"
proof -
  have "ap_orgId a = tc_orgId m" if "a \<in> set (approvals db)" "ap_paymentId a = pm_id p" for a
  proof -
    have "\<exists>q \<in> set (payments db). pm_id q = pm_id p \<and> pm_orgId q = ap_orgId a"
    proof -
      obtain q where "q \<in> set (payments db)" "ap_paymentId a = pm_id q" "ap_orgId a = pm_orgId q"
        using assms(1) \<open>a \<in> set (approvals db)\<close> unfolding approvals_owned_def by blast
      then show ?thesis using \<open>ap_paymentId a = pm_id p\<close> by auto
    qed
    then obtain q where "q \<in> set (payments db)" "pm_id q = pm_id p" "pm_orgId q = ap_orgId a"
      by blast
    then show ?thesis
      using assms findPayment_Inr[OF assms(2)] by (auto simp: approvals_owned_def distinct_map inj_on_def)
  qed
  then have "filter (\<lambda>r. ap_orgId r \<noteq> tc_orgId m)
        (updated (\<lambda>a. ap_paymentId a = pm_id p \<and> ap_role a = half) f (approvals db))
      = filter (\<lambda>r. ap_orgId r \<noteq> tc_orgId m) (approvals db)"
    if "\<And>a. ap_orgId (f a) = ap_orgId a" for f
    using that by (intro filter_updated) auto
  then show ?thesis
    by (simp add: upsert_rejection_def foreign_view_def split: option.splits)
qed

lemma findPayment_keys:
  assumes "applyTransition e db req = (db', out)" and "findPayment db m i = Inr p"
  shows "\<exists>q. findPayment db' m i = Inr q \<and> pm_id q = pm_id p"
proof -
  have "(i, tc_orgId m) \<in> set (zip (map pm_id (payments db)) (map pm_orgId (payments db)))"
    using findPayment_Inr[OF assms(2)] by (force simp: set_zip_map)
  then have "(i, tc_orgId m) \<in> set (zip (map pm_id (payments db')) (map pm_orgId (payments db')))"
    by (simp add: transition_approvals[OF assms(1)])
  then obtain q where "q \<in> set (payments db')" "pm_id q = i \<and> pm_orgId q = tc_orgId m"
    by (auto simp: set_zip_map)
  then have "findFirst (\<lambda>r. pm_id r = i \<and> pm_orgId r = tc_orgId m) (payments db') \<noteq> None"
    by auto
  then obtain x where "findFirst (\<lambda>r. pm_id r = i \<and> pm_orgId r = tc_orgId m) (payments db') = Some x"
    by blast
  then obtain r where "findPayment db' m i = Inr r"
    by (simp add: findPayment_def scoped_def)
  then show ?thesis using findPayment_Inr assms(2) by blast
qed

lemma reject_foreign:
  assumes "approvals_owned db" and "rejectPayment e db ctx = (db', res)"
  shows "foreign_view (tc_orgId (ac_membership ctx)) db' = foreign_view (tc_orgId (ac_membership ctx)) db"
proof (cases "db' = db")
  case False
  let ?m = "ac_membership ctx"
  let ?half = "if tc_role ?m = FINANCE then FINANCE else MANAGER"
  obtain p db1 out where p: "findPayment db ?m (ac_paymentId ctx) = Inr p"
    and t: "applyTransition e db (member_request ?m (pm_id p) REJECTED (ac_reason ctx)
         [(''action'', JStr ''reject'')]) = (db1, out)"
    and db': "db' = db1 \<or> db' = upsert_rejection e db1 ?m (pm_id p) ?half (ac_reason ctx)"
    using assms(2) False
    by (auto simp: rejectPayment_def found_simps Let_def
        split: if_splits sum.splits prod.splits transition_outcome.splits)
  obtain q where q: "findPayment db1 ?m (ac_paymentId ctx) = Inr q" "pm_id q = pm_id p"
    using findPayment_keys[OF t p] by blast
  have "approvals_owned db1" using assms(1) transition_owned[OF t] by simp
  then have "foreign_view (tc_orgId ?m) db' = foreign_view (tc_orgId ?m) db1"
    using db' upsert_foreign[OF _ q(1)] q(2) by auto
  then show ?thesis using transition_foreign[OF t] by simp
qed simp

lemma perform_foreign:
  assumes "approvals_owned db" and "perform a e db ctx = (db', res)"
  shows "foreign_view (tc_orgId (ac_membership ctx)) db' = foreign_view (tc_orgId (ac_membership ctx)) db"
proof (cases a)
  case Reject
  then show ?thesis using reject_foreign[OF assms(1)] assms(2) by (simp add: perform_def)
next
  case Approve
  then show ?thesis
    using assms(2)
    by (auto simp: perform_def approvePayment_def Let_def foreign_view_def recordAuditEvent_def
        split: if_splits sum.splits option.splits)
next
  case Submit
  then show ?thesis
    using assms(2) transition_foreign
    by (auto simp: perform_def submitPaymentForSettlement_def found_simps Let_def create_attempt_def
        foreign_view_def split: if_splits sum.splits prod.splits option.splits
          transition_outcome.splits dest!: transition_foreign)
next
  case Cancel
  then show ?thesis
    using assms(2)
    by (auto simp: perform_def cancelPayment_def found_simps Let_def
        split: sum.splits prod.splits dest!: transition_foreign)
next
  case Retry
  then show ?thesis
    using assms(2)
    by (auto simp: perform_def retryPayment_def found_simps Let_def
        split: if_splits sum.splits prod.splits dest!: transition_foreign)
next
  case Flag
  then show ?thesis
    using assms(2)
    by (auto simp: perform_def flagForReconciliation_def found_simps Let_def
        split: if_splits sum.splits prod.splits dest!: transition_foreign)
qed

section \<open>What an action does to the approvals\<close>

text \<open>
  The off-chain half of the dual control: one decision per payment and half, and nobody
  approves both halves of the same payment.
\<close>

definition dual_control :: "database \<Rightarrow> bool" where
  "dual_control db \<longleftrightarrow> distinct (map (\<lambda>a. (ap_paymentId a, ap_role a)) (approvals db)) \<and>
     (\<forall>a \<in> set (approvals db). ap_role a \<in> {MANAGER, FINANCE}) \<and>
     (\<forall>a \<in> set (approvals db). \<forall>b \<in> set (approvals db).
        ap_paymentId a = ap_paymentId b \<longrightarrow> ap_decision a = APPROVED \<longrightarrow> ap_decision b = APPROVED \<longrightarrow>
        ap_actorAddress a = ap_actorAddress b \<longrightarrow> ap_role a = ap_role b)"

lemma dual_control_wallets:
  assumes "dual_control db" and "x \<in> set (approvals db)" and "y \<in> set (approvals db)"
    and "ap_paymentId x = ap_paymentId y" and "ap_role x = MANAGER" and "ap_role y = FINANCE"
    and "ap_decision x = APPROVED" and "ap_decision y = APPROVED"
  shows "ap_actorAddress x \<noteq> ap_actorAddress y"
proof
  assume "ap_actorAddress x = ap_actorAddress y"
  then have "ap_role x = ap_role y" using assms unfolding dual_control_def by blast
  then show False using assms(5,6) by simp
qed

lemma dual_control_approvals: "approvals db' = approvals db \<Longrightarrow> dual_control db' = dual_control db"
  by (simp add: dual_control_def)

lemma find_approval_Some:
  "find_approval db i r = Some a \<Longrightarrow> a \<in> set (approvals db) \<and> ap_paymentId a = i \<and> ap_role a = r"
  by (auto simp: find_approval_def dest: findFirst_SomeD)

lemma find_approval_None:
  "find_approval db i r = None \<longleftrightarrow> (\<forall>a \<in> set (approvals db). ap_paymentId a = i \<longrightarrow> ap_role a \<noteq> r)"
  by (auto simp: find_approval_def)

lemma approvalRole_half: "approvalRole r s = MANAGER \<or> approvalRole r s = FINANCE"
  by (simp add: approvalRole_def)

lemma dual_control_add:
  assumes "dual_control db" and "approvals db' = approvals db @ [x]"
    and "find_approval db (ap_paymentId x) (ap_role x) = None" and "ap_role x \<in> {MANAGER, FINANCE}"
    and other: "\<And>a. a \<in> set (approvals db) \<Longrightarrow> ap_paymentId a = ap_paymentId x \<Longrightarrow>
      ap_role a \<noteq> ap_role x \<Longrightarrow> ap_decision a = APPROVED \<Longrightarrow> ap_decision x = APPROVED \<Longrightarrow>
      ap_actorAddress a \<noteq> ap_actorAddress x"
  shows "dual_control db'"
proof -
  have "(ap_paymentId x, ap_role x) \<notin> (\<lambda>a. (ap_paymentId a, ap_role a)) ` set (approvals db)"
    using assms(3) by (auto simp: find_approval_None)
  then show ?thesis
    using assms(1,2,4) other unfolding dual_control_def by (fastforce simp: image_iff)
qed

lemma other_half:
  assumes "dual_control db" and "a \<in> set (approvals db)" and "ap_paymentId a = i"
    and "h = MANAGER \<or> h = FINANCE" and "ap_role a \<noteq> h"
  shows "find_approval db i (if h = MANAGER then FINANCE else MANAGER) = Some a"
  unfolding find_approval_def
proof (rule findFirst_unique[where g = "\<lambda>a. (ap_paymentId a, ap_role a)"])
  have "ap_role a = MANAGER \<or> ap_role a = FINANCE"
    using assms(1,2) by (auto simp: dual_control_def)
  then show "ap_paymentId a = i \<and> ap_role a = (if h = MANAGER then FINANCE else MANAGER)"
    using assms(3-5) by auto
  then show "(ap_paymentId q, ap_role q) = (ap_paymentId a, ap_role a)"
    if "ap_paymentId q = i \<and> ap_role q = (if h = MANAGER then FINANCE else MANAGER)" for q
    using that by simp
qed (use assms in \<open>simp_all add: dual_control_def\<close>)

lemma approve_dual:
  assumes "dual_control db" and "approvePayment e db ctx = (db', res)"
  shows "dual_control db'"
proof (cases "approvals db' = approvals db")
  case True
  then show ?thesis using assms(1) dual_control_approvals by blast
next
  case False
  let ?m = "ac_membership ctx"
  obtain p where p: "findPaymentForMember db ?m (ac_paymentId ctx) = Inr p"
    using assms(2) False by (auto simp: approvePayment_def Let_def split: if_splits sum.splits)
  let ?half = "approvalRole (tc_role ?m) (pm_state p)"
  let ?other = "find_approval db (pm_id p) (if ?half = MANAGER then FINANCE else MANAGER)"
  let ?x = "\<lparr>ap_id = new_id e db, ap_orgId = tc_orgId ?m, ap_paymentId = pm_id p, ap_role = ?half,
    ap_decision = APPROVED, ap_actorAddress = tc_walletAddress ?m, ap_reason = ac_reason ctx\<rparr>"
  have none: "find_approval db (pm_id p) ?half = None"
    and other: "\<not> (?other \<noteq> None \<and> ap_actorAddress (the ?other) = tc_walletAddress ?m)"
    and rows: "approvals db' = approvals db @ [?x]"
    using assms(2) False p
    by (auto simp: approvePayment_def Let_def split: if_splits option.splits)
  show ?thesis
  proof (rule dual_control_add[OF assms(1) rows])
    fix a assume a: "a \<in> set (approvals db)" "ap_paymentId a = ap_paymentId ?x" "ap_role a \<noteq> ap_role ?x"
    then have "?other = Some a"
      using other_half[OF assms(1), of a "pm_id p" ?half] approvalRole_half by simp
    then show "ap_actorAddress a \<noteq> ap_actorAddress ?x" using other by simp
  qed (use none approvalRole_half in auto)
qed

lemma upsert_dual:
  assumes "dual_control db" and "half = MANAGER \<or> half = FINANCE"
  shows "dual_control (upsert_rejection e db m i half x)"
proof (cases "find_approval db i half")
  case None
  let ?x = "\<lparr>ap_id = new_id e db, ap_orgId = tc_orgId m, ap_paymentId = i, ap_role = half,
    ap_decision = DECISION_REJECTED, ap_actorAddress = tc_walletAddress m, ap_reason = x\<rparr>"
  have "approvals (upsert_rejection e db m i half x) = approvals db @ [?x]"
    using None by (simp add: upsert_rejection_def)
  then show ?thesis
    by (rule dual_control_add[OF assms(1)]) (use None assms(2) in auto)
next
  case (Some a)
  let ?f = "\<lambda>a. a\<lparr>ap_decision := DECISION_REJECTED, ap_reason := x\<rparr>"
  let ?P = "\<lambda>a. ap_paymentId a = i \<and> ap_role a = half"
  have rows: "approvals (upsert_rejection e db m i half x) = updated ?P ?f (approvals db)"
    using Some by (simp add: upsert_rejection_def)
  have keys: "map (\<lambda>a. (ap_paymentId a, ap_role a)) (updated ?P ?f (approvals db))
      = map (\<lambda>a. (ap_paymentId a, ap_role a)) (approvals db)"
    by (rule map_updated) simp
  have old: "\<exists>b \<in> set (approvals db). ap_role b = ap_role a \<and> ap_paymentId b = ap_paymentId a \<and>
      (ap_decision a = APPROVED \<longrightarrow> b = a)" if "a \<in> set (updated ?P ?f (approvals db))" for a
    using that by (auto simp: set_updated split: if_splits)
  show ?thesis
    unfolding dual_control_def rows
  proof (intro conjI ballI impI)
    show "distinct (map (\<lambda>a. (ap_paymentId a, ap_role a)) (updated ?P ?f (approvals db)))"
      unfolding keys using assms(1) by (simp add: dual_control_def)
  next
    fix a assume "a \<in> set (updated ?P ?f (approvals db))"
    then obtain b where "b \<in> set (approvals db)" "ap_role b = ap_role a" using old by blast
    moreover have "\<forall>a \<in> set (approvals db). ap_role a \<in> {MANAGER, FINANCE}"
      using assms(1) by (simp add: dual_control_def)
    ultimately show "ap_role a \<in> {MANAGER, FINANCE}" by metis
  next
    fix a b assume "a \<in> set (updated ?P ?f (approvals db))" "b \<in> set (updated ?P ?f (approvals db))"
      and same: "ap_paymentId a = ap_paymentId b" "ap_decision a = APPROVED" "ap_decision b = APPROVED"
        "ap_actorAddress a = ap_actorAddress b"
    then have "a \<in> set (approvals db)" "b \<in> set (approvals db)" using old by blast+
    then show "ap_role a = ap_role b" using assms(1) same unfolding dual_control_def by blast
  qed
qed

lemma perform_dual:
  assumes "dual_control db" and "perform a e db ctx = (db', res)"
  shows "dual_control db'"
proof (cases a)
  case Approve
  then show ?thesis using approve_dual[OF assms(1)] assms(2) by (simp add: perform_def)
next
  case Reject
  show ?thesis
  proof (cases "db' = db")
    case False
    let ?half = "if tc_role (ac_membership ctx) = FINANCE then FINANCE else MANAGER"
    obtain db1 where db1: "approvals db1 = approvals db"
      and "db' = db1 \<or> (\<exists>i. db' = upsert_rejection e db1 (ac_membership ctx) i ?half (ac_reason ctx))"
      using assms(2) False Reject transition_approvals(1)
      by (auto simp: perform_def rejectPayment_def found_simps Let_def
          split: if_splits sum.splits prod.splits transition_outcome.splits) blast+
    then show ?thesis
      using upsert_dual[of db1 ?half] dual_control_approvals[OF db1] assms(1) by auto
  qed (use assms in simp)
next
  case Cancel
  then show ?thesis
    using assms
    by (auto simp: perform_def cancelPayment_def found_simps Let_def
        split: sum.splits prod.splits dest!: transition_approvals(1) dual_control_approvals)
next
  case Submit
  have "approvals db' = approvals db"
    using assms(2) Submit
    by (auto simp: perform_def submitPaymentForSettlement_def found_simps Let_def
        split: if_splits sum.splits prod.splits option.splits transition_outcome.splits
        dest!: transition_approvals(1))
  then show ?thesis using assms(1) dual_control_approvals by blast
next
  case Retry
  then show ?thesis
    using assms
    by (auto simp: perform_def retryPayment_def found_simps Let_def
        split: if_splits sum.splits prod.splits dest!: transition_approvals(1) dual_control_approvals)
next
  case Flag
  then show ?thesis
    using assms
    by (auto simp: perform_def flagForReconciliation_def found_simps Let_def
        split: if_splits sum.splits prod.splits dest!: transition_approvals(1) dual_control_approvals)
qed

section \<open>Lemmas on submission\<close>

lemma powerless:
  assumes "tc_role m \<in> {WORKER, VIEWER}"
  shows "\<not> allowed f t (actorFromMembership m)"
  using assms by (auto simp: allowed_iff permitted_def actorFromMembership_def table_defs)

lemma powerless_transition:
  assumes "tc_role m \<in> {WORKER, VIEWER}" and "applyTransition e db (member_request m i t x y) = (db', out)"
  shows "db' = db \<and> (\<nexists>f t. out = Changed f t)"
proof -
  have "\<nexists>f t. out = Changed f t"
    using assms powerless[OF assms(1)]
    by (fastforce elim!: applyTransition_Changed dest!: read_Inr commit_changed)
  then show ?thesis using applyTransition_other[OF assms(2)] by blast
qed

lemma by_transition_allowed:
  assumes "by_transition a e db ctx db'"
  shows "\<exists>f t x. allowed f t x \<and> target a = Some t \<and> acts_as a (ac_membership ctx) x"
  using assms by (auto simp: by_transition_def elim!: applyTransition_Changed dest!: read_Inr commit_changed)

lemma findPayment_transactions [simp]:
  "findPayment (db\<lparr>transactions := x, serial := n\<rparr>) m i = findPayment db m i"
  by (simp add: findPayment_def)

text \<open>The answer to a repeated key.\<close>

lemma submit_replays:
  assumes "findPayment db (ac_membership ctx) (ac_paymentId ctx) = Inr p"
    and "truthy (ac_idempotencyKey ctx)"
    and "find_transaction db (the (ac_idempotencyKey ctx)) = Some t"
    and "tx_paymentId t = Some (pm_id p)"
  shows "\<exists>b. submitPaymentForSettlement e db ctx = (db, Inr (200, b)) \<and> \<not> bd_changed b \<and>
    map_option sm_id (bd_transaction b) = Some (tx_id t)"
  using assms by (simp add: submitPaymentForSettlement_def found_simps Let_def body_def)

lemma submit_fresh:
  assumes "submitPaymentForSettlement e db ctx = (db', Inr (n, b))"
    and "find_transaction db (the (ac_idempotencyKey ctx)) = None"
  shows "\<exists>p db1 out t. findPayment db (ac_membership ctx) (ac_paymentId ctx) = Inr p \<and>
    truthy (ac_idempotencyKey ctx) \<and>
    applyTransition e db (member_request (ac_membership ctx) (pm_id p) SUBMITTING None
       [(''action'', JStr ''submit''), (''idempotencyKey'', JStr (the (ac_idempotencyKey ctx)))]) = (db1, out) \<and>
    t = create_attempt e db1 (ac_membership ctx) p (the (ac_idempotencyKey ctx)) \<and>
    db' = db1\<lparr>transactions := transactions db1 @ [t], serial := Suc (serial db1)\<rparr> \<and>
    map_option sm_id (bd_transaction b) = Some (tx_id t) \<and> n = 200"
proof -
  obtain p where p: "findPayment db (ac_membership ctx) (ac_paymentId ctx) = Inr p"
    "truthy (ac_idempotencyKey ctx)"
    using assms by (auto simp: submitPaymentForSettlement_def found_simps Let_def
        split: if_splits sum.splits)
  obtain db1 out where t: "applyTransition e db (member_request (ac_membership ctx) (pm_id p)
      SUBMITTING None [(''action'', JStr ''submit''),
        (''idempotencyKey'', JStr (the (ac_idempotencyKey ctx)))]) = (db1, out)"
    by fastforce
  have "out \<noteq> Refused x y" for x y
    using assms p t by (auto simp: submitPaymentForSettlement_def found_simps Let_def)
  then show ?thesis
    using assms p t
    by (cases out) (auto simp: submitPaymentForSettlement_def found_simps Let_def
        outcomeToResult_def body_def)
qed

lemma create_attempt_simps [simp]:
  "tx_paymentId (create_attempt e db m p k) = Some (pm_id p)"
  "tx_idempotencyKey (create_attempt e db m p k) = k"
  "tx_orgId (create_attempt e db m p k) = tc_orgId m"
  by (simp_all add: create_attempt_def)

section \<open>Properties\<close>

text \<open>
  No action settles a payment. Whatever a member asks for and whatever the state, a payment row
  after the action is either the row before it or the addressed payment of the member's own
  organization, moved to the one state this action aims at, which is never \<open>PAID\<close>; and a worker or
  a viewer changes no payment and no approval at all.
\<close>

theorem actions_never_settle:
  assumes "perform a e db ctx = (db', res)" and "q \<in> set (payments db')"
  shows "(q \<in> set (payments db) \<or>
            target a = Some (pm_state q) \<and> pm_id q = ac_paymentId ctx \<and>
            pm_orgId q = tc_orgId (ac_membership ctx) \<and> pm_state q \<noteq> PAID) \<and>
         (tc_role (ac_membership ctx) \<in> {WORKER, VIEWER} \<longrightarrow>
            payments db' = payments db \<and> approvals db' = approvals db)"
proof (intro conjI impI)
  have "target a \<noteq> Some PAID" by (cases a) (simp_all add: target_def)
  then show "q \<in> set (payments db) \<or>
      target a = Some (pm_state q) \<and> pm_id q = ac_paymentId ctx \<and>
      pm_orgId q = tc_orgId (ac_membership ctx) \<and> pm_state q \<noteq> PAID"
    using perform_payments[OF assms(1)] by_transition_rows assms(2) by metis
next
  assume r: "tc_role (ac_membership ctx) \<in> {WORKER, VIEWER}"
  have "\<not> by_transition a e db ctx db'"
    using by_transition_allowed powerless[OF r] r by (fastforce simp: acts_as_def split: if_splits)
  then show "payments db' = payments db" using perform_payments[OF assms(1)] by blast
  show "approvals db' = approvals db"
    using assms(1) r
    by (cases a) (auto simp: perform_def action_defs found_simps Let_def
        split: if_splits sum.splits prod.splits option.splits transition_outcome.splits
        dest!: transition_approvals(1) powerless_transition[OF r])
qed

definition sample_member_ctx :: "org_role \<Rightarrow> address \<Rightarrow> string option \<Rightarrow> string option \<Rightarrow> action_context" where
  "sample_member_ctx r w key reason =
     \<lparr>ac_membership = \<lparr>tc_orgId = ''o1'', tc_orgName = [], tc_orgSlug = [], tc_userId = ''u1'',
        tc_walletAddress = w, tc_role = r\<rparr>,
      ac_paymentId = ''p1'', ac_idempotencyKey = key, ac_reason = reason\<rparr>"

lemmas sample_defs = sample_member_ctx_def sample_payment_def empty_db_def findPaymentForMember_def
  findPayment_def scoped_def findFirst_def

theorem actions_never_settle_witness:
  "map pm_state (payments (fst (perform Submit sample_clock sample_db
       (sample_member_ctx FINANCE ''GF'' (Some ''k1'') None)))) = [SUBMITTING] \<and>
   (\<exists>q \<in> set (payments (fst (perform Submit sample_clock sample_db
       (sample_member_ctx FINANCE ''GF'' (Some ''k1'') None)))).
         target Submit = Some (pm_state q) \<and> pm_id q = ''p1'' \<and> pm_orgId q = ''o1'' \<and>
         pm_state q \<noteq> PAID)"
proof -
  let ?ctx = "sample_member_ctx FINANCE ''GF'' (Some ''k1'') None"
  obtain db' res where run: "perform Submit sample_clock sample_db ?ctx = (db', res)" by fastforce
  have state: "map pm_state (payments db') = [SUBMITTING]"
    using run
    by (auto simp: perform_def submitPaymentForSettlement_def sample_defs find_transaction_def
        transitionPayment_def applyTransition_def applyTransition_read_def member_request_def
        checkTransition_def findTransition_def table_defs actorFromMembership_def Let_def
        applyTransition_commit_def updateMany_def set_state_def)
  then obtain q where q: "q \<in> set (payments db')" "pm_state q = SUBMITTING" by auto
  then have "q \<notin> set (payments sample_db)" by (auto simp: sample_payment_def)
  then have "target Submit = Some (pm_state q) \<and> pm_id q = ''p1'' \<and> pm_orgId q = ''o1'' \<and> pm_state q \<noteq> PAID"
    using actions_never_settle[OF run] q(1) by (auto simp: sample_member_ctx_def)
  then show ?thesis using run state q(1) by auto
qed

text \<open>
  C33: An action stays inside its organization. Everything that belongs to other organizations, and
  every table the actions have no business with, is the same after any action with any input: an
  action writes only rows of the member's own organization.
\<close>

theorem actions_stay_in_tenant:
  assumes "approvals_owned db" and "perform a e db ctx = (db', res)"
  shows "foreign_view (tc_orgId (ac_membership ctx)) db'
       = foreign_view (tc_orgId (ac_membership ctx)) db"
  by (rule perform_foreign[OF assms])

theorem actions_stay_in_tenant_witness:
  "let db = empty_db\<lparr>payments := [sample_payment, sample_payment\<lparr>pm_id := ''p2'', pm_orgId := ''o2''\<rparr>]\<rparr>;
       ctx = sample_member_ctx FINANCE ''GF'' (Some ''k1'') None
   in foreign_view ''o1'' (fst (perform Submit sample_clock db ctx)) = foreign_view ''o1'' db"
proof -
  let ?db = "empty_db\<lparr>payments := [sample_payment, sample_payment\<lparr>pm_id := ''p2'', pm_orgId := ''o2''\<rparr>]\<rparr>"
  let ?ctx = "sample_member_ctx FINANCE ''GF'' (Some ''k1'') None"
  have owned: "approvals_owned ?db" by (simp add: approvals_owned_def sample_defs)
  obtain db' res where run: "perform Submit sample_clock ?db ?ctx = (db', res)" by fastforce
  then show ?thesis
    using actions_stay_in_tenant[OF owned run] by (simp add: sample_member_ctx_def)
qed

text \<open>
  C14: Dual control holds off-chain too. Whatever sequence of actions any members perform, in any
  roles and with any wallets, a payment has at most one recorded decision per half, and if both
  halves are recorded as APPROVED then two different wallets recorded them.
\<close>

theorem dual_control_preserved:
  assumes "dual_control db"
  shows "let db' = fold (\<lambda>(a, e, ctx) db. fst (perform a e db ctx)) steps db in
     dual_control db' \<and>
     (\<forall>x \<in> set (approvals db'). \<forall>y \<in> set (approvals db').
        ap_paymentId x = ap_paymentId y \<longrightarrow> ap_role x = MANAGER \<longrightarrow> ap_role y = FINANCE \<longrightarrow>
        ap_decision x = APPROVED \<longrightarrow> ap_decision y = APPROVED \<longrightarrow>
        ap_actorAddress x \<noteq> ap_actorAddress y)"
proof -
  have "dual_control (fold (\<lambda>(a, e, ctx) db. fst (perform a e db ctx)) steps db)"
    using assms
  proof (induction steps arbitrary: db)
    case (Cons step steps)
    obtain a e ctx where step: "step = (a, e, ctx)" by (cases step)
    have "dual_control (fst (perform a e db ctx))"
      using perform_dual[OF Cons.prems] by (metis prod.collapse)
    then show ?case using Cons.IH step by simp
  qed simp
  then show ?thesis unfolding Let_def using dual_control_wallets by blast
qed

theorem dual_control_preserved_witness:
  "let db = sample_db\<lparr>payments := [sample_payment\<lparr>pm_state := AWAITING_MANAGER\<rparr>]\<rparr>;
       steps = [(Approve, sample_clock, sample_member_ctx MANAGER ''GM'' None None),
                (Approve, sample_clock, sample_member_ctx FINANCE ''GM'' None None),
                (Approve, sample_clock, sample_member_ctx FINANCE ''GF'' None None)];
       db' = fold (\<lambda>(a, e, ctx) db. fst (perform a e db ctx)) steps db
   in dual_control db' \<and> map ap_actorAddress (approvals db') = [''GM'', ''GF'']"
proof -
  let ?db = "sample_db\<lparr>payments := [sample_payment\<lparr>pm_state := AWAITING_MANAGER\<rparr>]\<rparr>"
  let ?steps = "[(Approve, sample_clock, sample_member_ctx MANAGER ''GM'' None None),
      (Approve, sample_clock, sample_member_ctx FINANCE ''GM'' None None),
      (Approve, sample_clock, sample_member_ctx FINANCE ''GF'' None None)]"
  have "dual_control ?db" by (simp add: dual_control_def empty_db_def)
  note control = dual_control_preserved[OF this, of ?steps, unfolded Let_def, THEN conjunct1]
  have "map ap_actorAddress (approvals (fold (\<lambda>(a, e, ctx) db. fst (perform a e db ctx)) ?steps ?db))
      = [''GM'', ''GF'']"
    by code_simp
  then show ?thesis using control unfolding Let_def by blast
qed

text \<open>
  A repeated submission pays nothing twice. After a submission was accepted, every further
  request with the same key for the same payment, with any clock, is answered with the original
  attempt, changes nothing, and the key still names exactly one attempt.
\<close>

theorem submit_replay_idempotent:
  assumes "submitPaymentForSettlement e db ctx = (db', Inr (n, b))"
    and "distinct (map tx_idempotencyKey (transactions db))"
  shows "\<exists>b'. submitPaymentForSettlement e' db' ctx = (db', Inr (200, b')) \<and> \<not> bd_changed b' \<and>
     map_option sm_id (bd_transaction b') = map_option sm_id (bd_transaction b) \<and>
     distinct (map tx_idempotencyKey (transactions db')) \<and>
     the (ac_idempotencyKey ctx) \<in> tx_idempotencyKey ` set (transactions db')"
proof (cases "find_transaction db (the (ac_idempotencyKey ctx))")
  case (Some t)
  have old: "db' = db" and p: "\<exists>p. findPayment db (ac_membership ctx) (ac_paymentId ctx) = Inr p \<and>
      truthy (ac_idempotencyKey ctx) \<and> tx_paymentId t = Some (pm_id p)"
    using assms(1) Some by (auto simp: submitPaymentForSettlement_def found_simps Let_def
        split: if_splits sum.splits)
  then obtain p where "findPayment db (ac_membership ctx) (ac_paymentId ctx) = Inr p"
    "truthy (ac_idempotencyKey ctx)" "tx_paymentId t = Some (pm_id p)" by blast
  note replay = submit_replays[OF this(1,2) Some this(3)]
  have "t \<in> set (transactions db)" "tx_idempotencyKey t = the (ac_idempotencyKey ctx)"
    using Some by (auto simp: find_transaction_def dest: findFirst_SomeD)
  moreover have "map_option sm_id (bd_transaction b) = Some (tx_id t)"
    using replay[of e] assms(1) by auto
  ultimately show ?thesis using replay[of e'] assms(2) old by force
next
  case None
  let ?key = "the (ac_idempotencyKey ctx)"
  obtain p db1 out t where p: "findPayment db (ac_membership ctx) (ac_paymentId ctx) = Inr p"
    and key: "truthy (ac_idempotencyKey ctx)"
    and step: "applyTransition e db (member_request (ac_membership ctx) (pm_id p) SUBMITTING None
       [(''action'', JStr ''submit''), (''idempotencyKey'', JStr ?key)]) = (db1, out)"
    and t: "t = create_attempt e db1 (ac_membership ctx) p ?key"
    and db': "db' = db1\<lparr>transactions := transactions db1 @ [t], serial := Suc (serial db1)\<rparr>"
    and b: "map_option sm_id (bd_transaction b) = Some (tx_id t)"
    using submit_fresh[OF assms(1) None] by blast
  have txs: "transactions db1 = transactions db" by (rule applyTransition_keeps(9)[OF step])
  have new: "\<forall>x \<in> set (transactions db). tx_idempotencyKey x \<noteq> ?key"
    using None by (simp add: find_transaction_def)
  have found: "find_transaction db' ?key = Some t"
    using new by (simp add: find_transaction_def db' txs findFirst_after t findFirst_Cons)
  obtain q where q: "findPayment db1 (ac_membership ctx) (ac_paymentId ctx) = Inr q" "pm_id q = pm_id p"
    using findPayment_keys[OF step p] by blast
  have "\<exists>b'. submitPaymentForSettlement e' db' ctx = (db', Inr (200, b')) \<and> \<not> bd_changed b' \<and>
      map_option sm_id (bd_transaction b') = Some (tx_id t)"
    by (rule submit_replays[OF _ key found, of q]) (use q in \<open>simp_all add: db' t\<close>)
  moreover have "transactions db' = transactions db @ [t]" "tx_idempotencyKey t = ?key"
    by (simp_all add: db' txs t)
  then have "distinct (map tx_idempotencyKey (transactions db'))"
    "?key \<in> tx_idempotencyKey ` set (transactions db')"
    using new assms(2) by (simp_all add: image_iff) metis
  ultimately show ?thesis using b by metis
qed

theorem submit_replay_idempotent_witness:
  "\<exists>db' b b'. submitPaymentForSettlement sample_clock sample_db
       (sample_member_ctx FINANCE ''GF'' (Some ''k1'') None) = (db', Inr (200, b)) \<and> bd_changed b \<and>
     submitPaymentForSettlement sample_clock db'
       (sample_member_ctx FINANCE ''GF'' (Some ''k1'') None) = (db', Inr (200, b')) \<and>
     \<not> bd_changed b' \<and> length (transactions db') = 1"
proof -
  let ?ctx = "sample_member_ctx FINANCE ''GF'' (Some ''k1'') None"
  obtain db' b where run: "submitPaymentForSettlement sample_clock sample_db ?ctx = (db', Inr (200, b))"
    and facts: "bd_changed b" "length (transactions db') = 1"
    by (simp add: submitPaymentForSettlement_def sample_defs find_transaction_def
        transitionPayment_def applyTransition_def applyTransition_read_def member_request_def
        checkTransition_def findTransition_def table_defs actorFromMembership_def Let_def
        applyTransition_commit_def updateMany_def outcomeToResult_def body_def)
  have "distinct (map tx_idempotencyKey (transactions sample_db))" by (simp add: empty_db_def)
  from submit_replay_idempotent[OF run this, of sample_clock] show ?thesis
    using run facts by blast
qed

text \<open>
  A new attempt on a payment already being submitted asks for no role. When a payment is
  \<open>SUBMITTING\<close>, a request with a fresh key is answered before the transition table is consulted,
  so a member of any role, a viewer or a worker included, gets a further settlement attempt for the
  payment recorded as \<open>PREPARING\<close>, although the table gives such a member no move at all.
\<close>

theorem attempt_needs_no_role_when_submitting:
  assumes "findPayment db (ac_membership ctx) (ac_paymentId ctx) = Inr p"
    and "pm_state p = SUBMITTING" and "ac_idempotencyKey ctx = Some key" and "key \<noteq> []"
    and "find_transaction db key = None"
  shows "\<exists>b t. submitPaymentForSettlement e db ctx
      = (db\<lparr>transactions := transactions db @ [t], serial := Suc (serial db)\<rparr>, Inr (200, b)) \<and>
     tx_paymentId t = Some (pm_id p) \<and> tx_status t = PREPARING \<and> \<not> bd_changed b"
proof -
  have p: "findFirst (\<lambda>q. pm_id q = pm_id p \<and> pm_orgId q = tc_orgId (ac_membership ctx)) (payments db)
      = Some p"
    using assms(1) findPayment_Inr[OF assms(1)]
    by (simp add: findPayment_def scoped_def split: option.splits)
  show ?thesis
    using assms p
    by (auto simp: submitPaymentForSettlement_def found_simps applyTransition_def
        applyTransition_read_def member_request_def outcomeToResult_def body_def create_attempt_def Let_def)
qed

theorem attempt_needs_no_role_when_submitting_witness:
  "let db = sample_db\<lparr>payments := [sample_payment\<lparr>pm_state := SUBMITTING\<rparr>]\<rparr>;
       ctx = sample_member_ctx VIEWER ''GV'' (Some ''k2'') None
   in length (transactions (fst (submitPaymentForSettlement sample_clock db ctx))) = 1 \<and>
      user_moves VIEWER SUBMITTING = []"
proof -
  let ?db = "sample_db\<lparr>payments := [sample_payment\<lparr>pm_state := SUBMITTING\<rparr>]\<rparr>"
  let ?ctx = "sample_member_ctx VIEWER ''GV'' (Some ''k2'') None"
  have "findPayment ?db (ac_membership ?ctx) (ac_paymentId ?ctx) = Inr (sample_payment\<lparr>pm_state := SUBMITTING\<rparr>)"
    by (simp add: sample_defs)
  from attempt_needs_no_role_when_submitting[OF this, of "''k2''" sample_clock]
  have "length (transactions (fst (submitPaymentForSettlement sample_clock ?db ?ctx))) = 1"
    by (auto simp: sample_member_ctx_def find_transaction_def empty_db_def)
  moreover have "user_moves VIEWER SUBMITTING = []" by code_simp
  ultimately show ?thesis by (simp add: Let_def)
qed

text \<open>
  A rejection can rewrite somebody else's approval. When an owner rejects a payment that waits
  for finance and whose manager half was approved by another wallet, the stored approval of that
  wallet becomes REJECTED while it keeps naming that wallet as its author, and no row names the
  owner who rejected.
\<close>

theorem rejection_rewrites_approval:
  assumes "findPayment db (ac_membership ctx) (ac_paymentId ctx) = Inr p"
    and "pm_state p = AWAITING_FINANCE" and "tc_role (ac_membership ctx) = OWNER"
    and "ac_reason ctx = Some reason" and "length (js_trim reason) \<ge> 3"
    and "find_approval db (pm_id p) MANAGER = Some a" and "ap_decision a = APPROVED"
  shows "\<exists>db' b. rejectPayment e db ctx = (db', Inr (200, b)) \<and> bd_state b = REJECTED \<and>
     a\<lparr>ap_decision := DECISION_REJECTED, ap_reason := Some reason\<rparr> \<in> set (approvals db') \<and>
     map ap_actorAddress (approvals db') = map ap_actorAddress (approvals db)"
proof -
  let ?m = "ac_membership ctx"
  let ?req = "member_request ?m (pm_id p) REJECTED (ac_reason ctx) [(''action'', JStr ''reject'')]"
  have mem: "p \<in> set (payments db)" "pm_orgId p = tc_orgId ?m"
    using findPayment_Inr[OF assms(1)] by auto
  have p: "findFirst (\<lambda>q. pm_id q = pm_id p \<and> pm_orgId q = tc_orgId ?m) (payments db) = Some p"
    using assms(1) findPayment_Inr[OF assms(1)]
    by (simp add: findPayment_def scoped_def split: option.splits)
  obtain tr where "applyTransition_read db ?req = Inr (p, tr)"
    using assms(2,3) p
    by (simp add: applyTransition_read_def checkTransition_def findTransition_def table_defs
        actorFromMembership_def)
  moreover obtain db1 where commit: "applyTransition_commit e db ?req p = (db1, Changed AWAITING_FINANCE REJECTED)"
    using commit_at_once[of p db ?req e] mem assms(2) by auto
  ultimately have step: "applyTransition e db ?req = (db1, Changed AWAITING_FINANCE REJECTED)"
    by (simp add: applyTransition_def)
  have apps: "approvals db1 = approvals db" by (rule transition_approvals(1)[OF step])
  have a: "a \<in> set (approvals db)" "ap_paymentId a = pm_id p" "ap_role a = MANAGER"
    using find_approval_Some[OF assms(6)] by auto
  let ?f = "\<lambda>a. a\<lparr>ap_decision := DECISION_REJECTED, ap_reason := Some reason\<rparr>"
  let ?rows = "updated (\<lambda>a. ap_paymentId a = pm_id p \<and> ap_role a = MANAGER) ?f (approvals db)"
  have found: "find_approval db1 (pm_id p) MANAGER = Some a"
    using assms(6) by (simp add: find_approval_def apps)
  have "reason \<noteq> []" using assms(5) by (auto simp: js_trim_def)
  then have run: "rejectPayment e db ctx = (db1\<lparr>approvals := ?rows\<rparr>,
      Inr (200, (body (Some AWAITING_FINANCE) REJECTED True)\<lparr>bd_transaction := None\<rparr>))"
    using assms(1,3,4,5) step found
    by (simp add: rejectPayment_def found_simps Let_def upsert_rejection_def outcomeToResult_def apps)
  have "?f a \<in> set ?rows" using a by (force simp: set_updated)
  moreover have "map ap_actorAddress ?rows = map ap_actorAddress (approvals db)"
    by (rule map_updated) simp
  ultimately show ?thesis using run by (auto simp: body_def)
qed

theorem rejection_rewrites_approval_witness:
  "let a = \<lparr>ap_id = ''a1'', ap_orgId = ''o1'', ap_paymentId = ''p1'', ap_role = MANAGER,
         ap_decision = APPROVED, ap_actorAddress = ''GM'', ap_reason = None\<rparr>;
       db = sample_db\<lparr>payments := [sample_payment\<lparr>pm_state := AWAITING_FINANCE\<rparr>], approvals := [a]\<rparr>;
       ctx = sample_member_ctx OWNER ''GO'' None (Some ''duplicate'')
   in \<exists>db' b. rejectPayment sample_clock db ctx = (db', Inr (200, b)) \<and>
        a\<lparr>ap_decision := DECISION_REJECTED, ap_reason := Some ''duplicate''\<rparr> \<in> set (approvals db')"
proof -
  let ?a = "\<lparr>ap_id = ''a1'', ap_orgId = ''o1'', ap_paymentId = ''p1'', ap_role = MANAGER,
    ap_decision = APPROVED, ap_actorAddress = ''GM'', ap_reason = None\<rparr>"
  let ?db = "sample_db\<lparr>payments := [sample_payment\<lparr>pm_state := AWAITING_FINANCE\<rparr>], approvals := [?a]\<rparr>"
  let ?ctx = "sample_member_ctx OWNER ''GO'' None (Some ''duplicate'')"
  have "findPayment ?db (ac_membership ?ctx) (ac_paymentId ?ctx)
      = Inr (sample_payment\<lparr>pm_state := AWAITING_FINANCE\<rparr>)"
    by (simp add: sample_defs)
  moreover have "length (js_trim ''duplicate'') \<ge> 3" by code_simp
  moreover have "find_approval ?db ''p1'' MANAGER = Some ?a"
    by (simp add: find_approval_def findFirst_def)
  ultimately show ?thesis
    using rejection_rewrites_approval[of ?db ?ctx "sample_payment\<lparr>pm_state := AWAITING_FINANCE\<rparr>"
        "''duplicate''" ?a sample_clock]
    by (auto simp: sample_member_ctx_def sample_payment_def Let_def)
qed

end
