(* ===== verification/Membership.thy ===== *)
theory Membership
  imports Tenancy
begin

text \<open>
  \<open>src/lib/tenancy/membership.ts\<close>: the membership life cycle, the guards on role changes, and
  invitations. Tokens are compared through their SHA-256 digest; the digest is the parameter
  \<open>digest\<close> of the operations, of which nothing is assumed. A denial returned inside the
  transaction callback commits what was written before it, exactly as the code does.
\<close>

section \<open>Tokens\<close>

definition INVITATION_TTL_DAYS :: nat where
  "INVITATION_TTL_DAYS = 7"

definition tokenHashesMatch :: "string \<Rightarrow> string \<Rightarrow> bool" where
  "tokenHashesMatch a b \<longleftrightarrow> (if length a \<noteq> length b then False else list_all2 (=) a b)"

section \<open>The membership state machine\<close>

definition membershipTransitionsFrom :: "membership_status \<Rightarrow> membership_status list" where
  "membershipTransitionsFrom f = (case f of
     INVITED \<Rightarrow> [ACTIVE, REMOVED]
   | ACTIVE \<Rightarrow> [SUSPENDED, REMOVED]
   | SUSPENDED \<Rightarrow> [ACTIVE, REMOVED]
   | REMOVED \<Rightarrow> [])"

definition canTransitionMembership :: "membership_status \<Rightarrow> membership_status \<Rightarrow> bool" where
  "canTransitionMembership f t \<longleftrightarrow> t \<in> set (membershipTransitionsFrom f)"

section \<open>Guards\<close>

definition checkRoleAssignment :: "tenant_context \<Rightarrow> org_role \<Rightarrow> denial option" where
  "checkRoleAssignment ctx targetRole =
     (case requirePermission ctx Member_role_assign of
        Some d \<Rightarrow> Some d
      | None \<Rightarrow>
          if \<not> canAssignRole (tc_role ctx) targetRole
          then Some (deny 403 (Some ''ROLE_ESCALATION_REFUSED'')) else None)"

definition checkNotLastAdministrator :: "database \<Rightarrow> row_id \<Rightarrow> member_row \<Rightarrow> denial option" where
  "checkNotLastAdministrator db orgId member =
     (if \<not> isAdministrative (mb_role member) then None
      else if mb_status member \<noteq> ACTIVE then None
      else let remaining = length (filter (\<lambda>m. mb_orgId m = orgId \<and> mb_status m = ACTIVE \<and>
                 mb_role m \<in> set ADMINISTRATIVE_ROLES \<and> mb_id m \<noteq> mb_id member) (members db))
           in if remaining = 0 then Some (deny 409 (Some ''LAST_ADMINISTRATOR'')) else None)"

definition checkNotSelf :: "tenant_context \<Rightarrow> row_id \<Rightarrow> denial option" where
  "checkNotSelf ctx targetUserId =
     (if tc_userId ctx \<noteq> targetUserId then None else Some (deny 409 (Some ''SELF_TARGETED'')))"

section \<open>Invitations\<close>

datatype invitation_rejection = IR_NOT_FOUND | IR_EXPIRED | IR_ALREADY_USED | IR_REVOKED

record acceptable_invitation =
  ai_id :: row_id
  ai_orgId :: row_id
  ai_orgRole :: org_role
  ai_email :: string

text \<open>The left side carries the reason; to the caller each reason is the same \<open>NOT_FOUND\<close>.\<close>

definition resolveInvitation ::
  "env \<Rightarrow> (string \<Rightarrow> string) \<Rightarrow> database \<Rightarrow> string \<Rightarrow>
   (denial \<times> invitation_rejection) + acceptable_invitation" where
  "resolveInvitation e digest db token =
     (let tokenHash = digest token in
      case findFirst (\<lambda>i. iv_tokenHash i = tokenHash) (invitations db) of
        None \<Rightarrow> Inl (NOT_FOUND, IR_NOT_FOUND)
      | Some i \<Rightarrow>
          if \<not> tokenHashesMatch (iv_tokenHash i) tokenHash then Inl (NOT_FOUND, IR_NOT_FOUND)
          else if iv_revokedAt i \<noteq> None then Inl (NOT_FOUND, IR_REVOKED)
          else if iv_usedAt i \<noteq> None then Inl (NOT_FOUND, IR_ALREADY_USED)
          else if iv_expiresAt i \<le> now e then Inl (NOT_FOUND, IR_EXPIRED)
          else Inr \<lparr>ai_id = iv_id i, ai_orgId = iv_orgId i, ai_orgRole = iv_orgRole i,
                    ai_email = iv_email i\<rparr>)"

definition writeMembershipAudit ::
  "env \<Rightarrow> database \<Rightarrow> row_id \<Rightarrow> string \<Rightarrow> address option \<Rightarrow> string option \<Rightarrow> row_id option \<Rightarrow>
   json_object option \<Rightarrow> database" where
  "writeMembershipAudit e db orgId type actorAddress actorSystem targetUserId metadata =
     db\<lparr>auditEvents := auditEvents db @
          [\<lparr>au_id = new_id e db, au_orgId = orgId, au_type = type,
            au_actorAddress = actorAddress, au_actorSystem = actorSystem,
            au_paymentId = None, au_batchId = None, au_escrowId = None,
            au_previousState = None, au_newState = None, au_txHash = None,
            au_metadata = Some (spread
              (if truthy targetUserId then [(''targetUserId'', JStr (the targetUserId))] else [])
              (case metadata of None \<Rightarrow> [] | Some m \<Rightarrow> m))\<rparr>],
        serial := Suc (serial db)\<rparr>"

text \<open>The transaction of \<open>acceptInvitation\<close>, after the invitation was resolved.\<close>

definition claim_invitation :: "env \<Rightarrow> row_id \<Rightarrow> invitation_row list \<Rightarrow> invitation_row list \<times> nat" where
  "claim_invitation e i t =
     updateMany (\<lambda>r. iv_id r = i \<and> iv_usedAt r = None \<and> iv_revokedAt r = None)
       (\<lambda>r. r\<lparr>iv_usedAt := Some (now e)\<rparr>) t"

definition acceptInvitation_commit ::
  "env \<Rightarrow> database \<Rightarrow> acceptable_invitation \<Rightarrow> row_id \<Rightarrow> address \<Rightarrow>
   database \<times> (row_id \<times> org_role) result" where
  "acceptInvitation_commit e db0 invitation userId wallet =
     (let (claimed, count) = claim_invitation e (ai_id invitation) (invitations db0) in
      if count = 0 then (db0, Inl NOT_FOUND)
      else let db = db0\<lparr>invitations := claimed\<rparr> in
        case find_member db (ai_orgId invitation) userId of
          Some existing \<Rightarrow>
            if mb_status existing = ACTIVE then (db, Inr (ai_orgId invitation, mb_role existing))
            else if mb_status existing = REMOVED then (db, Inl (deny 403 None))
            else let db = db\<lparr>members := updated (\<lambda>m. mb_id m = mb_id existing)
                         (\<lambda>m. m\<lparr>mb_status := ACTIVE, mb_activatedAt := Some (now e),
                               mb_suspendedAt := None\<rparr>) (members db)\<rparr>
                 in (writeMembershipAudit e db (ai_orgId invitation) ''member.reactivated''
                       (Some wallet) None (Some userId)
                       (Some [(''invitationId'', JStr (ai_id invitation)),
                              (''role'', JStr (org_role_name (mb_role existing)))]),
                     Inr (ai_orgId invitation, mb_role existing))
        | None \<Rightarrow>
            let created = \<lparr>mb_id = new_id e db, mb_orgId = ai_orgId invitation, mb_userId = userId,
                  mb_role = ai_orgRole invitation, mb_status = ACTIVE, mb_invitedAt = Some (now e),
                  mb_activatedAt = Some (now e), mb_suspendedAt = None, mb_createdAt = now e\<rparr>;
                db = db\<lparr>members := members db @ [created], serial := Suc (serial db)\<rparr>
            in (writeMembershipAudit e db (ai_orgId invitation) ''invitation.accepted''
                  (Some wallet) None (Some userId)
                  (Some [(''invitationId'', JStr (ai_id invitation)),
                         (''role'', JStr (org_role_name (ai_orgRole invitation)))]),
                Inr (ai_orgId invitation, ai_orgRole invitation)))"

definition acceptInvitation ::
  "env \<Rightarrow> (string \<Rightarrow> string) \<Rightarrow> database \<Rightarrow> string \<Rightarrow> row_id \<Rightarrow> address \<Rightarrow>
   database \<times> (row_id \<times> org_role) result" where
  "acceptInvitation e digest db token userId wallet =
     (case resolveInvitation e digest db token of
        Inl (d, _) \<Rightarrow> (db, Inl d)
      | Inr invitation \<Rightarrow> acceptInvitation_commit e db invitation userId wallet)"

section \<open>Lemmas\<close>

lemma tokenHashesMatch_eq [simp]: "tokenHashesMatch a b \<longleftrightarrow> a = b"
  by (auto simp: tokenHashesMatch_def list.rel_eq)

lemma audit_keeps [simp]:
  "members (writeMembershipAudit e db a b c d f g) = members db"
  "invitations (writeMembershipAudit e db a b c d f g) = invitations db"
  by (simp_all add: writeMembershipAudit_def)

lemma claimed_twice: "snd (claim_invitation e' i (fst (claim_invitation e i t))) = 0"
  unfolding claim_invitation_def
  by (auto simp: updateMany_def filter_empty_conv)

lemma commit_claims:
  assumes "acceptInvitation_commit e db invitation u w = (db', r)"
    and "snd (claim_invitation e (ai_id invitation) (invitations db)) \<noteq> 0"
  shows "invitations db' = fst (claim_invitation e (ai_id invitation) (invitations db))"
  using assms
  by (auto simp: acceptInvitation_commit_def Let_def split: prod.splits option.splits if_splits)

lemma commit_unclaimed:
  "snd (claim_invitation e (ai_id invitation) (invitations db)) = 0 \<Longrightarrow>
   acceptInvitation_commit e db invitation u w = (db, Inl NOT_FOUND)"
  by (auto simp: acceptInvitation_commit_def split: prod.splits)

interpretation membership: guarded_machine
  "\<lambda>s t (_ :: unit). canTransitionMembership s t" "\<lambda>s. s = REMOVED"
proof unfold_locales
  show "\<exists>t a. canTransitionMembership s t" if "s \<noteq> REMOVED" for s
    using that by (cases s) (auto simp: canTransitionMembership_def membershipTransitionsFrom_def)
  show "\<not> canTransitionMembership s s" for s
    by (cases s) (simp_all add: canTransitionMembership_def membershipTransitionsFrom_def)
qed (simp add: canTransitionMembership_def membershipTransitionsFrom_def)

text \<open>The members that can run an organization.\<close>

definition active_administrators :: "database \<Rightarrow> row_id \<Rightarrow> member_row list" where
  "active_administrators db o' = filter (\<lambda>m. mb_orgId m = o' \<and> mb_status m = ACTIVE \<and>
     isAdministrative (mb_role m)) (members db)"

lemma administrators_survive:
  assumes other: "q \<in> set (members db)" "mb_id q \<noteq> i" "mb_orgId q = o'" "mb_status q = ACTIVE"
    "isAdministrative (mb_role q)"
  shows "active_administrators (db\<lparr>members := updated (\<lambda>m. mb_id m = i) f (members db)\<rparr>) o' \<noteq> []"
proof -
  have "q \<in> set (updated (\<lambda>m. mb_id m = i) f (members db))"
    using other by (force simp: set_updated)
  then show ?thesis using other by (auto simp: active_administrators_def filter_empty_conv)
qed

lemma commit_members:
  assumes "acceptInvitation_commit e db iv u w = (db', r)"
  shows "members db' = members db
    \<or> (\<exists>m. find_member db (ai_orgId iv) u = None \<and> members db' = members db @ [m] \<and>
           mb_orgId m = ai_orgId iv \<and> mb_userId m = u \<and> mb_role m = ai_orgRole iv \<and>
           mb_status m = ACTIVE \<and> r = Inr (ai_orgId iv, ai_orgRole iv))
    \<or> (\<exists>m. find_member db (ai_orgId iv) u = Some m \<and> mb_status m \<in> {INVITED, SUSPENDED} \<and>
           r = Inr (ai_orgId iv, mb_role m) \<and>
           members db' = updated (\<lambda>q. mb_id q = mb_id m)
             (\<lambda>q. q\<lparr>mb_status := ACTIVE, mb_activatedAt := Some (now e), mb_suspendedAt := None\<rparr>)
             (members db))"
proof (cases "snd (claim_invitation e (ai_id iv) (invitations db)) = 0")
  case True
  then show ?thesis using commit_unclaimed[OF True] assms by simp
next
  case False
  obtain claimed count where c: "claim_invitation e (ai_id iv) (invitations db) = (claimed, count)"
    by fastforce
  have fm: "find_member (db\<lparr>invitations := claimed\<rparr>) o' v = find_member db o' v" for o' v
    by (simp add: find_member_def)
  show ?thesis
  proof (cases "find_member db (ai_orgId iv) u")
    case None
    then show ?thesis
      using assms False c by (auto simp: acceptInvitation_commit_def Let_def fm)
  next
    case (Some m)
    then show ?thesis
      using assms False c
      by (cases "mb_status m") (auto simp: acceptInvitation_commit_def Let_def fm)
  qed
qed

section \<open>Properties\<close>

text \<open>
  Requests that interleave. \<open>acceptInvitation\<close> reads the invitation before its transaction, so a
  request is between the two for as long as it takes, while any others, for this invitation or
  another, read and commit. An answer is kept with the members before and after its transaction.
\<close>

record accept_answer =
  an_invitation :: acceptable_invitation
  an_user :: row_id
  an_result :: "(row_id \<times> org_role) result"
  an_before :: "member_row list"
  an_after :: "member_row list"

record accept_world =
  aw_db :: database
  aw_pending :: "(acceptable_invitation \<times> row_id \<times> address) list"
  aw_answers :: "accept_answer list"

inductive accept_move :: "(string \<Rightarrow> string) \<Rightarrow> accept_world \<Rightarrow> accept_world \<Rightarrow> bool"
  for digest :: "string \<Rightarrow> string" where
  resolves:
    "resolveInvitation e digest (aw_db w) token = Inr iv \<Longrightarrow>
     accept_move digest w (w\<lparr>aw_pending := aw_pending w @ [(iv, u, a)]\<rparr>)"
| commits:
    "aw_pending w = xs @ (iv, u, a) # ys \<Longrightarrow>
     acceptInvitation_commit e (aw_db w) iv u a = (db', r) \<Longrightarrow>
     accept_move digest w
       \<lparr>aw_db = db', aw_pending = xs @ ys,
        aw_answers = aw_answers w @
          [\<lparr>an_invitation = iv, an_user = u, an_result = r, an_before = members (aw_db w),
            an_after = members db'\<rparr>]\<rparr>"

definition accepted :: "accept_answer \<Rightarrow> bool" where
  "accepted a \<longleftrightarrow> \<not> isl (an_result a)"

text \<open>The one thing an accepted invitation may do to the members: a new seat, or the user's own
  invited or suspended seat again.\<close>

definition one_seat :: "accept_answer \<Rightarrow> bool" where
  "one_seat a \<longleftrightarrow>
     (\<exists>m. an_after a = an_before a @ [m] \<and> mb_orgId m = ai_orgId (an_invitation a) \<and>
        mb_userId m = an_user a \<and> mb_role m = ai_orgRole (an_invitation a) \<and> mb_status m = ACTIVE)
   \<or> (\<exists>m \<in> set (an_before a). \<exists>t. mb_orgId m = ai_orgId (an_invitation a) \<and> mb_userId m = an_user a \<and>
        mb_status m \<in> {INVITED, SUSPENDED} \<and>
        an_after a = updated (\<lambda>q. mb_id q = mb_id m)
          (\<lambda>q. q\<lparr>mb_status := ACTIVE, mb_activatedAt := Some t, mb_suspendedAt := None\<rparr>) (an_before a))"

text \<open>The members of the answers follow each other, from the first table to the last.\<close>

fun seat_chain :: "member_row list \<Rightarrow> accept_answer list \<Rightarrow> member_row list \<Rightarrow> bool" where
  "seat_chain ms [] ms' \<longleftrightarrow> ms' = ms"
| "seat_chain ms (a # as) ms' \<longleftrightarrow> an_before a = ms \<and> seat_chain (an_after a) as ms'"

lemma seat_chain_snoc: "seat_chain ms (as @ [a]) ms' \<longleftrightarrow> seat_chain ms as (an_before a) \<and> ms' = an_after a"
  by (induction as arbitrary: ms) auto

definition spent :: "database \<Rightarrow> row_id \<Rightarrow> bool" where
  "spent db i \<longleftrightarrow>
     filter (\<lambda>r. iv_id r = i \<and> iv_usedAt r = None \<and> iv_revokedAt r = None) (invitations db) = []"

lemma spent_iff: "snd (claim_invitation e i (invitations db)) = 0 \<longleftrightarrow> spent db i"
  by (simp add: spent_def claim_invitation_def updateMany_def)

lemma commit_spends:
  assumes "acceptInvitation_commit e db iv u w = (db', r)"
  shows "spent db' (ai_id iv)"
proof (cases "spent db (ai_id iv)")
  case True
  then show ?thesis using commit_unclaimed [of e iv db u w] assms by (simp add: spent_iff)
next
  case False
  then show ?thesis
    using commit_claims [OF assms] claimed_twice [of e "ai_id iv" e] by (metis spent_iff)
qed

lemma spent_stays:
  assumes "acceptInvitation_commit e db iv u w = (db', r)" and "spent db i"
  shows "spent db' i"
proof (cases "spent db (ai_id iv)")
  case True
  then show ?thesis using commit_unclaimed [of e iv db u w] assms by (simp add: spent_iff)
next
  case False
  then have "invitations db' = fst (claim_invitation e (ai_id iv) (invitations db))"
    using commit_claims [OF assms(1)] by (simp add: spent_iff)
  then show ?thesis
    using assms(2)
    by (auto simp: spent_def claim_invitation_def updateMany_def updated_eq filter_empty_conv)
qed

lemma commit_one_seat:
  assumes "acceptInvitation_commit e db iv u w = (db', r)"
  shows "members db' = members db \<or>
    (let a = \<lparr>an_invitation = iv, an_user = u, an_result = r, an_before = members db,
       an_after = members db'\<rparr> in accepted a \<and> one_seat a)"
proof -
  have mem: "m \<in> set (members db) \<and> mb_orgId m = o' \<and> mb_userId m = u"
    if "find_member db o' u = Some m" for m o'
    using that by (auto simp: find_member_def dest: findFirst_SomeD)
  from commit_members [OF assms] show ?thesis
    by (elim disjE) (auto simp: accepted_def one_seat_def Let_def dest!: mem)
qed

text \<open>
  C16: An invitation is used at most once, by however many requests that read it at the same time.
  Whatever requests, for one invitation or for several, resolve and commit in any order, no two of
  them are accepted for the same invitation; a request that is not accepted leaves the members as
  they were; and an accepted one either finds its user already a member or makes the one change
  of giving this user the invited seat, or his invited or suspended seat back. So an invitation
  makes at most one membership.
\<close>

theorem invitation_single_use_under_race:
  assumes "(accept_move digest)\<^sup>*\<^sup>* \<lparr>aw_db = db, aw_pending = [], aw_answers = []\<rparr> w"
  shows "distinct (map (\<lambda>a. ai_id (an_invitation a)) (filter accepted (aw_answers w))) \<and>
    seat_chain (members db) (aw_answers w) (members (aw_db w)) \<and>
    list_all (\<lambda>a. an_after a = an_before a \<or> accepted a \<and> one_seat a) (aw_answers w)"
proof -
  let ?spent = "\<lambda>w. \<forall>a \<in> set (aw_answers w). accepted a \<longrightarrow> spent (aw_db w) (ai_id (an_invitation a))"
  let ?safe = "\<lambda>w. distinct (map (\<lambda>a. ai_id (an_invitation a)) (filter accepted (aw_answers w))) \<and>
    seat_chain (members db) (aw_answers w) (members (aw_db w)) \<and>
    list_all (\<lambda>a. an_after a = an_before a \<or> accepted a \<and> one_seat a) (aw_answers w)"
  from assms have "?spent w \<and> ?safe w"
  proof (induction rule: rtranclp_induct)
    case (step w w')
    from step(2) show ?case
    proof cases
      case (commits xs iv u a ys e db' r)
      have fresh: "spent (aw_db w) (ai_id iv) \<Longrightarrow> isl r"
        using commit_unclaimed [of e iv "aw_db w" u a] commits(3) by (auto simp add: spent_iff)
      show ?thesis
        using step.IH commit_spends [OF commits(3)] spent_stays [OF commits(3)]
          commit_one_seat [OF commits(3)] fresh
        by (auto simp: commits(1) seat_chain_snoc accepted_def Let_def)
    qed (use step.IH in simp)
  qed simp
  then show ?thesis by blast
qed

definition sample_invitation :: invitation_row where
  "sample_invitation = \<lparr>iv_id = ''i1'', iv_orgId = ''o1'', iv_email = ''a@b'', iv_orgRole = MANAGER,
     iv_tokenHash = ''h'', iv_expiresAt = 100, iv_usedAt = None, iv_revokedAt = None\<rparr>"

definition sample_env :: env where
  "sample_env = \<lparr>now = 10, cuid = (\<lambda>n. CHR ''c'' # show_nat n)\<rparr>"

definition sample_resolved :: acceptable_invitation where
  "sample_resolved = \<lparr>ai_id = ''i1'', ai_orgId = ''o1'', ai_orgRole = MANAGER, ai_email = ''a@b''\<rparr>"

text \<open>Two users read the same invitation before either has used it.\<close>

definition contested :: database where
  "contested = empty_db\<lparr>invitations := [sample_invitation]\<rparr>"

definition after_first :: "database \<times> (row_id \<times> org_role) result" where
  "after_first = acceptInvitation_commit sample_env contested sample_resolved ''u1'' ''GA''"

lemma contested_race:
  "(accept_move (\<lambda>t. t))\<^sup>*\<^sup>* \<lparr>aw_db = contested, aw_pending = [], aw_answers = []\<rparr>
     \<lparr>aw_db = fst after_first, aw_pending = [], aw_answers =
       [\<lparr>an_invitation = sample_resolved, an_user = ''u1'', an_result = snd after_first, an_before = [],
          an_after = members (fst after_first)\<rparr>,
        \<lparr>an_invitation = sample_resolved, an_user = ''u2'', an_result = Inl NOT_FOUND,
          an_before = members (fst after_first), an_after = members (fst after_first)\<rparr>]\<rparr>"
proof -
  have read: "resolveInvitation sample_env (\<lambda>t. t) contested ''h'' = Inr sample_resolved"
    by (simp add: contested_def resolveInvitation_def sample_invitation_def sample_resolved_def
        sample_env_def findFirst_Cons)
  have first: "acceptInvitation_commit sample_env contested sample_resolved ''u1'' ''GA'' =
      (fst after_first, snd after_first)"
    by (simp add: after_first_def)
  have second: "acceptInvitation_commit sample_env (fst after_first) sample_resolved ''u2'' ''GB'' =
      (fst after_first, Inl NOT_FOUND)"
    using commit_spends [OF first] by (intro commit_unclaimed) (simp add: spent_iff)
  have none: "members contested = []" by (simp add: contested_def empty_db_def)
  let ?w = "\<lambda>ps. \<lparr>aw_db = contested, aw_pending = ps, aw_answers = []\<rparr>"
  let ?one = "(sample_resolved, ''u1'', ''GA'')" and ?two = "(sample_resolved, ''u2'', ''GB'')"
  let ?a = "\<lparr>an_invitation = sample_resolved, an_user = ''u1'', an_result = snd after_first, an_before = [],
    an_after = members (fst after_first)\<rparr>"
  note m1 = accept_move.resolves [of sample_env "\<lambda>t. t" "?w []" "''h''" sample_resolved "''u1''" "''GA''"]
  note m2 = accept_move.resolves [of sample_env "\<lambda>t. t" "?w [?one]" "''h''" sample_resolved "''u2''" "''GB''"]
  note m3 = accept_move.commits [of "?w [?one, ?two]" "[]" sample_resolved "''u1''" "''GA''" "[?two]" sample_env
      "fst after_first" "snd after_first" "\<lambda>t. t"]
  note m4 = accept_move.commits [of "\<lparr>aw_db = fst after_first, aw_pending = [?two], aw_answers = [?a]\<rparr>" "[]"
      sample_resolved "''u2''" "''GB''" "[]" sample_env "fst after_first" "Inl NOT_FOUND" "\<lambda>t. t"]
  have "accept_move (\<lambda>t. t) (?w []) (?w [?one])" using m1 read by simp
  moreover have "accept_move (\<lambda>t. t) (?w [?one]) (?w [?one, ?two])" using m2 read by simp
  moreover have "accept_move (\<lambda>t. t) (?w [?one, ?two])
      \<lparr>aw_db = fst after_first, aw_pending = [?two], aw_answers = [?a]\<rparr>"
    using m3 first none by simp
  ultimately show ?thesis
    using m4 second by (simp add: converse_rtranclp_into_rtranclp)
qed

theorem invitation_single_use_under_race_witness:
  "snd after_first = Inr (''o1'', MANAGER) \<and> length (members (fst after_first)) = 1 \<and>
   distinct (map (\<lambda>a. ai_id (an_invitation a)) (filter accepted
     [\<lparr>an_invitation = sample_resolved, an_user = ''u1'', an_result = snd after_first, an_before = [],
        an_after = members (fst after_first)\<rparr>,
      \<lparr>an_invitation = sample_resolved, an_user = ''u2'', an_result = Inl NOT_FOUND,
        an_before = members (fst after_first), an_after = members (fst after_first)\<rparr>]))"
proof -
  have "snd after_first = Inr (''o1'', MANAGER)" "length (members (fst after_first)) = 1"
    by (simp_all add: after_first_def contested_def acceptInvitation_commit_def claim_invitation_def
        updateMany_def sample_invitation_def sample_resolved_def find_member_def empty_db_def Let_def)
  then show ?thesis
    using invitation_single_use_under_race [OF contested_race] by simp
qed

text \<open>
  What accepting an invitation can change about who belongs where. No role is ever overwritten
  and no other membership is touched: either the members are unchanged, or the user, until then no
  member of the inviting organization, becomes an ACTIVE member with exactly the role of the stored
  invitation, or the user's own INVITED or SUSPENDED membership becomes ACTIVE with the role it
  had, which is an edge of the membership machine.
\<close>

theorem acceptInvitation_authority:
  assumes "acceptInvitation e digest db token u w = (db', r)"
    and "distinct (map mb_id (members db))"
  shows "members db' = members db
    \<or> (\<exists>i \<in> set (invitations db). \<exists>m. iv_tokenHash i = digest token \<and> now e < iv_expiresAt i \<and>
         iv_usedAt i = None \<and> iv_revokedAt i = None \<and> find_member db (iv_orgId i) u = None \<and>
         members db' = members db @ [m] \<and> mb_orgId m = iv_orgId i \<and> mb_userId m = u \<and>
         mb_role m = iv_orgRole i \<and> mb_status m = ACTIVE)
    \<or> (\<exists>m \<in> set (members db). mb_userId m = u \<and> canTransitionMembership (mb_status m) ACTIVE \<and>
         members db' = map (\<lambda>q. if q = m then q\<lparr>mb_status := ACTIVE,
           mb_activatedAt := Some (now e), mb_suspendedAt := None\<rparr> else q) (members db))"
proof (cases "resolveInvitation e digest db token")
  case (Inl d)
  then show ?thesis using assms by (cases d) (auto simp: acceptInvitation_def)
next
  case (Inr iv)
  have commit: "acceptInvitation_commit e db iv u w = (db', r)"
    using assms(1) Inr by (simp add: acceptInvitation_def)
  obtain i where i: "i \<in> set (invitations db)" "iv_tokenHash i = digest token"
    "now e < iv_expiresAt i" "iv_usedAt i = None" "iv_revokedAt i = None"
    "ai_orgId iv = iv_orgId i" "ai_orgRole iv = iv_orgRole i"
    using Inr by (auto simp: resolveInvitation_def Let_def not_le split: option.splits if_splits
        dest!: findFirst_SomeD)
  from commit_members[OF commit] show ?thesis
  proof (elim disjE exE conjE)
    fix m assume m: "find_member db (ai_orgId iv) u = Some m" "mb_status m \<in> {INVITED, SUSPENDED}"
      and upd: "members db' = updated (\<lambda>q. mb_id q = mb_id m)
         (\<lambda>q. q\<lparr>mb_status := ACTIVE, mb_activatedAt := Some (now e), mb_suspendedAt := None\<rparr>)
         (members db)"
    have mem: "m \<in> set (members db)" "mb_userId m = u"
      using m(1) by (auto simp: find_member_def dest: findFirst_SomeD)
    have "mb_id q = mb_id m \<longleftrightarrow> q = m" if "q \<in> set (members db)" for q
      using assms(2) mem(1) that by (auto simp: distinct_map inj_on_def)
    then have "members db' = map (\<lambda>q. if q = m then q\<lparr>mb_status := ACTIVE,
        mb_activatedAt := Some (now e), mb_suspendedAt := None\<rparr> else q) (members db)"
      by (auto simp: upd updated_eq)
    moreover have "canTransitionMembership (mb_status m) ACTIVE"
      using m(2) by (auto simp: canTransitionMembership_def membershipTransitionsFrom_def)
    ultimately show ?thesis using mem by blast
  qed (use i in \<open>auto\<close>)
qed

theorem acceptInvitation_authority_witness:
  "let db = empty_db\<lparr>invitations := [sample_invitation], members := [sample_member]\<rparr>;
       db' = fst (acceptInvitation sample_env (\<lambda>t. t) db ''h'' ''u1'' ''GA'')
   in members db' \<noteq> members db \<and>
      (\<exists>m \<in> set (members db). canTransitionMembership (mb_status m) ACTIVE \<and>
         members db' = map (\<lambda>q. if q = m then q\<lparr>mb_status := ACTIVE,
           mb_activatedAt := Some 10, mb_suspendedAt := None\<rparr> else q) (members db))"
proof -
  let ?db = "empty_db\<lparr>invitations := [sample_invitation], members := [sample_member]\<rparr>"
  obtain db' r where run: "acceptInvitation sample_env (\<lambda>t. t) ?db ''h'' ''u1'' ''GA'' = (db', r)"
    by fastforce
  have members: "members db' = [sample_member\<lparr>mb_status := ACTIVE, mb_activatedAt := Some 10,
      mb_suspendedAt := None\<rparr>]"
    using run
    by (auto simp: acceptInvitation_def resolveInvitation_def acceptInvitation_commit_def
        claim_invitation_def updateMany_def updated_def findFirst_def sample_invitation_def
        sample_env_def sample_member_def find_member_def empty_db_def Let_def)
  have "distinct (map mb_id (members ?db))" by simp
  from acceptInvitation_authority[OF run this] show ?thesis
    using run members by (auto simp: sample_env_def sample_member_def)
qed

text \<open>
  The last administrator cannot be lost. If the guard lets an action on a member through, then
  whatever the action writes to that member's row, demotion, suspension or removal, an organization
  that had an ACTIVE administrator still has one afterwards.
\<close>

theorem last_administrator_kept:
  assumes "checkNotLastAdministrator db o' m = None"
    and "m \<in> set (members db)" and "distinct (map mb_id (members db))"
    and "active_administrators db o' \<noteq> []"
  shows "active_administrators (db\<lparr>members := updated (\<lambda>q. mb_id q = mb_id m) f (members db)\<rparr>) o' \<noteq> []"
proof -
  have "\<exists>q \<in> set (members db). mb_id q \<noteq> mb_id m \<and> mb_orgId q = o' \<and> mb_status q = ACTIVE \<and>
      isAdministrative (mb_role q)"
  proof (cases "isAdministrative (mb_role m) \<and> mb_status m = ACTIVE")
    case True
    then show ?thesis
      using assms(1)
      by (auto simp: checkNotLastAdministrator_def isAdministrative_def Let_def filter_empty_conv
          split: if_splits)
  next
    case False
    obtain q where q: "q \<in> set (members db)" "mb_orgId q = o'" "mb_status q = ACTIVE"
      "isAdministrative (mb_role q)"
      using assms(4) by (auto simp: active_administrators_def filter_empty_conv)
    then have "q \<noteq> m" using False by blast
    then have "mb_id q \<noteq> mb_id m" using assms(2,3) q(1) by (auto simp: distinct_map inj_on_def)
    then show ?thesis using q by blast
  qed
  then show ?thesis using administrators_survive by blast
qed

theorem last_administrator_kept_witness:
  "let a = sample_member\<lparr>mb_role := OWNER, mb_status := ACTIVE\<rparr>;
       b = sample_member\<lparr>mb_id := ''m2'', mb_userId := ''u2'', mb_role := ADMIN, mb_status := ACTIVE\<rparr>;
       db = empty_db\<lparr>members := [a, b]\<rparr>
   in checkNotLastAdministrator db ''o1'' a = None \<and>
      active_administrators (db\<lparr>members := updated (\<lambda>q. mb_id q = mb_id a)
        (\<lambda>q. q\<lparr>mb_status := REMOVED\<rparr>) (members db)\<rparr>) ''o1'' \<noteq> [] \<and>
      checkNotLastAdministrator (empty_db\<lparr>members := [a]\<rparr>) ''o1'' a
        = Some (deny 409 (Some ''LAST_ADMINISTRATOR''))"
proof -
  let ?a = "sample_member\<lparr>mb_role := OWNER, mb_status := ACTIVE\<rparr>"
  let ?b = "sample_member\<lparr>mb_id := ''m2'', mb_userId := ''u2'', mb_role := ADMIN, mb_status := ACTIVE\<rparr>"
  let ?db = "empty_db\<lparr>members := [?a, ?b]\<rparr>"
  have guard: "checkNotLastAdministrator ?db ''o1'' ?a = None"
    by (simp add: checkNotLastAdministrator_def sample_member_def isAdministrative_def
        ADMINISTRATIVE_ROLES_def)
  have "active_administrators (?db\<lparr>members := updated (\<lambda>q. mb_id q = mb_id ?a)
      (\<lambda>q. q\<lparr>mb_status := REMOVED\<rparr>) (members ?db)\<rparr>) ''o1'' \<noteq> []"
    by (rule last_administrator_kept[OF guard])
      (simp_all add: sample_member_def active_administrators_def isAdministrative_def
        ADMINISTRATIVE_ROLES_def)
  moreover have "checkNotLastAdministrator (empty_db\<lparr>members := [?a]\<rparr>) ''o1'' ?a
      = Some (deny 409 (Some ''LAST_ADMINISTRATOR''))"
    by (simp add: checkNotLastAdministrator_def sample_member_def isAdministrative_def
        ADMINISTRATIVE_ROLES_def)
  ultimately show ?thesis using guard by (simp add: Let_def)
qed

text \<open>
  A removed member never returns. The membership machine has no way out of \<open>REMOVED\<close>, and a
  user whose membership of the inviting organization is \<open>REMOVED\<close> is refused by every
  invitation, however new: the invitation is consumed, the answer is the 403 that asks an
  administrator for a new invitation, and the members are unchanged.
\<close>

theorem removed_member_never_readmitted:
  assumes "resolveInvitation e digest db token = Inr iv"
    and "find_member db (ai_orgId iv) u = Some m" and "mb_status m = REMOVED"
  shows "\<exists>db'. acceptInvitation e digest db token u w = (db', Inl (deny 403 None)) \<and>
           members db' = members db \<and>
           fst (acceptInvitation e digest db' token u' w') = db' \<and>
           (\<forall>s. \<not> canTransitionMembership (mb_status m) s)"
proof -
  obtain i where i: "findFirst (\<lambda>i. iv_tokenHash i = digest token) (invitations db) = Some i"
    "iv_usedAt i = None" "iv_revokedAt i = None" "ai_id iv = iv_id i"
    using assms(1) by (auto simp: resolveInvitation_def Let_def split: option.splits if_splits)
  let ?c = "claim_invitation e (ai_id iv) (invitations db)"
  let ?db = "db\<lparr>invitations := fst ?c\<rparr>"
  have count: "snd ?c \<noteq> 0"
    using i by (auto simp: claim_invitation_def updateMany_def filter_empty_conv dest!: findFirst_SomeD)
  have run: "acceptInvitation_commit e db iv u w = (?db, Inl (deny 403 None))"
    using count assms(2,3)
    by (auto simp: acceptInvitation_commit_def Let_def find_member_def split: prod.splits)
  have again: "acceptInvitation_commit e ?db iv' u' w' = (?db, Inl NOT_FOUND)"
    if "ai_id iv' = ai_id iv" for iv'
    using that claimed_twice[of e "ai_id iv" e "invitations db"]
    by (intro commit_unclaimed) simp
  have same: "\<exists>d. resolveInvitation e digest ?db token = Inl d"
  proof -
    have "findFirst (\<lambda>i. iv_tokenHash i = digest token) (fst ?c)
        = Some (i\<lparr>iv_usedAt := Some (now e)\<rparr>)"
      using i by (simp add: claim_invitation_def updated_def[symmetric] findFirst_updated)
    then show ?thesis using i by (simp add: resolveInvitation_def Let_def)
  qed
  have "\<not> canTransitionMembership (mb_status m) s" for s
    using membership.terminal_refuses assms(3) by simp
  then show ?thesis
    using run same assms(1) by (intro exI[of _ ?db]) (auto simp: acceptInvitation_def)
qed

theorem removed_member_never_readmitted_witness:
  "\<exists>db'. acceptInvitation sample_env (\<lambda>t. t)
       (empty_db\<lparr>invitations := [sample_invitation], members := [sample_member\<lparr>mb_status := REMOVED\<rparr>]\<rparr>)
       ''h'' ''u1'' ''GA'' = (db', Inl (deny 403 None)) \<and>
     members db' = [sample_member\<lparr>mb_status := REMOVED\<rparr>]"
proof -
  let ?db = "empty_db\<lparr>invitations := [sample_invitation],
    members := [sample_member\<lparr>mb_status := REMOVED\<rparr>]\<rparr>"
  have resolved: "resolveInvitation sample_env (\<lambda>t. t) ?db ''h'' = Inr sample_resolved"
    by (simp add: resolveInvitation_def findFirst_def sample_invitation_def sample_env_def
        sample_resolved_def)
  have found: "find_member ?db (ai_orgId sample_resolved) ''u1''
      = Some (sample_member\<lparr>mb_status := REMOVED\<rparr>)"
    by (simp add: find_member_def findFirst_def sample_member_def sample_resolved_def)
  show ?thesis
    using removed_member_never_readmitted[OF resolved found, of "''GA''" "''u1''" "''GA''"] by (auto simp: sample_member_def)
qed

text \<open>
  A role is granted only from above. The guard lets a grant through exactly when the actor may
  assign roles and may delegate this one, and then every permission of the granted role is one the
  actor holds.
\<close>

theorem role_grant_from_above:
  assumes "checkRoleAssignment ctx r = None"
  shows "can (tc_role ctx) Member_role_assign \<and> isAdministrative (tc_role ctx) \<and>
         set (permissionsFor r) \<subseteq> set (permissionsFor (tc_role ctx)) \<and>
         (r = OWNER \<longrightarrow> tc_role ctx = OWNER)"
proof -
  have *: "can (tc_role ctx) Member_role_assign" "canAssignRole (tc_role ctx) r"
    using assms
    by (auto simp: checkRoleAssignment_def requirePermission_def split: option.splits if_splits)
  show ?thesis
    using * grant_le[OF *(2)]
    by (cases "tc_role ctx") (auto simp: permissionsFor_def canAssignRole_def DELEGATABLE_def
        isAdministrative_iff)
qed

definition sample_ctx :: tenant_context where
  "sample_ctx = \<lparr>tc_orgId = ''o1'', tc_orgName = [], tc_orgSlug = [], tc_userId = ''u1'',
     tc_walletAddress = ''GA'', tc_role = ADMIN\<rparr>"

theorem role_grant_from_above_witness:
  "can ADMIN Member_role_assign \<and> set (permissionsFor FINANCE) \<subseteq> set (permissionsFor ADMIN)"
  using role_grant_from_above[of sample_ctx FINANCE]
  by (simp add: sample_ctx_def checkRoleAssignment_def requirePermission_def can_def GRANTS_def
      canAssignRole_def DELEGATABLE_def)

end
