(* ===== verification/ChainEvents.thy ===== *)
theory ChainEvents
  imports Interfaces Database
begin

text \<open>
  \<open>src/lib/indexer/events.ts\<close> and the two payload functions at the end of
  \<open>src/lib/indexer/index.ts\<close>: decoding a contract event, and storing the decoded event as
  JSON. A decoded Soroban value is a \<open>js_value\<close>. The conversions \<open>Number(v)\<close>, \<open>String(v)\<close> and
  \<open>BigInt(v)\<close> are modelled on these values; for strings, \<open>Number\<close> covers integer literals
  (decimal, hexadecimal, octal, binary) and gives \<open>None\<close> for every other string, which is not an
  integer and no database column of these events accepts.

  Parsing can end in four ways: not an event we know (\<open>null\<close>), an event, an event with a field
  that is not a number (the code goes on with \<open>NaN\<close>, which the database client rejects at the
  first use), or a \<open>SyntaxError\<close> thrown by \<open>BigInt\<close>.
\<close>

section \<open>Decoded values and their conversions\<close>

datatype js_value =
    VUndefined | VNull | VBool bool | VNum int | VBig int | VStr string | VArr "js_value list"

fun join :: "string list \<Rightarrow> string" where
  "join [] = []"
| "join [s] = s"
| "join (s # t # ss) = s @ CHR '','' # join (t # ss)"

text \<open>\<open>String(v)\<close>; inside an array \<open>null\<close> and \<open>undefined\<close> print as the empty string.\<close>

fun js_string :: "js_value \<Rightarrow> string" where
  "js_string VUndefined = ''undefined''"
| "js_string VNull = ''null''"
| "js_string (VBool b) = (if b then ''true'' else ''false'')"
| "js_string (VNum n) = show_int n"
| "js_string (VBig n) = show_int n"
| "js_string (VStr s) = s"
| "js_string (VArr vs) =
     join (map (\<lambda>v. case v of VUndefined \<Rightarrow> [] | VNull \<Rightarrow> [] | _ \<Rightarrow> js_string v) vs)"

definition radix_digit :: "char \<Rightarrow> nat" where
  "radix_digit c =
     (if is_digit c then digit_val c
      else if 97 \<le> code_unit c \<and> code_unit c \<le> 102 then code_unit c - 87
      else if 65 \<le> code_unit c \<and> code_unit c \<le> 70 then code_unit c - 55
      else 99)"

definition radix_val :: "nat \<Rightarrow> string \<Rightarrow> int option" where
  "radix_val b s =
     (if s \<noteq> [] \<and> list_all (\<lambda>c. radix_digit c < b) s
      then Some (int (foldl (\<lambda>a c. b * a + radix_digit c) 0 s)) else None)"

text \<open>A \<open>StringIntegerLiteral\<close>: empty, prefixed, or decimal with an optional sign.\<close>

definition parse_integer :: "string \<Rightarrow> int option" where
  "parse_integer s0 =
     (let s = js_trim s0 in
      if s = [] then Some 0
      else if take 2 s = ''0x'' \<or> take 2 s = ''0X'' then radix_val 16 (drop 2 s)
      else if take 2 s = ''0o'' \<or> take 2 s = ''0O'' then radix_val 8 (drop 2 s)
      else if take 2 s = ''0b'' \<or> take 2 s = ''0B'' then radix_val 2 (drop 2 s)
      else if hd s = CHR ''-'' then
        (if all_digits (tl s) then Some (- int (digits_val (tl s))) else None)
      else if hd s = CHR ''+'' then
        (if all_digits (tl s) then Some (int (digits_val (tl s))) else None)
      else if all_digits s then Some (int (digits_val s)) else None)"

text \<open>The nearest double to an integer, ties to even: 53 significant bits.\<close>

fun bit_length :: "nat \<Rightarrow> nat" where
  "bit_length n = (if n = 0 then 0 else Suc (bit_length (n div 2)))"

declare bit_length.simps [simp del]

definition to_double :: "int \<Rightarrow> int" where
  "to_double i =
     (let n = nat \<bar>i\<bar>; e = bit_length n - 53; q = n div 2 ^ e; r = n mod 2 ^ e;
          up = (e > 0 \<and> (2 * r > 2 ^ e \<or> 2 * r = 2 ^ e \<and> odd q))
      in sgn i * int ((if up then q + 1 else q) * 2 ^ e))"

text \<open>\<open>Number(v)\<close>; \<open>None\<close> is \<open>NaN\<close>.\<close>

fun js_number :: "js_value \<Rightarrow> int option" where
  "js_number VUndefined = None"
| "js_number VNull = Some 0"
| "js_number (VBool b) = Some (if b then 1 else 0)"
| "js_number (VNum n) = Some n"
| "js_number (VBig n) = Some (to_double n)"
| "js_number (VStr s) = map_option to_double (parse_integer s)"
| "js_number (VArr vs) = map_option to_double (parse_integer (js_string (VArr vs)))"

text \<open>\<open>t[i]\<close> of an array, \<open>undefined\<close> when out of range.\<close>

definition at :: "js_value list \<Rightarrow> nat \<Rightarrow> js_value" where
  "at t i = (if i < length t then t ! i else VUndefined)"

section \<open>The three coercions of the parser\<close>

definition toNum :: "js_value \<Rightarrow> int option" where
  "toNum v = (case v of VArr vs \<Rightarrow> js_number (at vs 0) | _ \<Rightarrow> js_number v)"

text \<open>\<open>None\<close> is the \<open>SyntaxError\<close> that \<open>BigInt\<close> throws.\<close>

fun toBig :: "js_value \<Rightarrow> int option" where
  "toBig (VBig n) = Some n"
| "toBig (VNum n) = Some n"
| "toBig (VStr s) = parse_integer s"
| "toBig (VArr []) = Some 0"
| "toBig (VArr (v # vs)) = toBig v"
| "toBig VUndefined = Some 0"
| "toBig VNull = Some 0"
| "toBig (VBool b) = Some 0"

definition toAddr :: "js_value \<Rightarrow> string" where
  "toAddr v = js_string v"

section \<open>Events\<close>

datatype coreflow_event =
    Created (ev_escrowId: int) (ev_manager: address) (ev_totalAmount: base_units)
  | PaymentAdded (ev_escrowId: int) (ev_paymentIndex: int) (ev_worker: address) (ev_token: string)
      (ev_amountBaseUnits: base_units) (ev_rateBaseUnits: base_units)
      (ev_periodStart: int) (ev_periodEnd: int)
  | Hours (ev_escrowId: int) (ev_paymentIndex: int) (ev_hours: int)
  | ManagerApproved (ev_escrowId: int)
  | FinanceApproved (ev_escrowId: int)
  | PaymentPaid (ev_escrowId: int) (ev_paymentIndex: int) (ev_worker: address) (ev_token: string)
      (ev_amountBaseUnits: base_units) (ev_hours: int)
  | PaymentCancelled (ev_escrowId: int) (ev_paymentIndex: int)
  | Finalized (ev_escrowId: int) (ev_totalAmount: base_units) (ev_count: int)
  | EscrowCancelled (ev_escrowId: int)
  | OracleRotated (ev_escrowId: int) (ev_rotations: int)

definition event_kind :: "coreflow_event \<Rightarrow> string" where
  "event_kind ev = (case ev of
     Created _ _ _ \<Rightarrow> ''created''
   | PaymentAdded _ _ _ _ _ _ _ _ \<Rightarrow> ''payment_added''
   | Hours _ _ _ \<Rightarrow> ''hours''
   | ManagerApproved _ \<Rightarrow> ''manager_approved''
   | FinanceApproved _ \<Rightarrow> ''finance_approved''
   | PaymentPaid _ _ _ _ _ _ \<Rightarrow> ''payment_paid''
   | PaymentCancelled _ _ \<Rightarrow> ''payment_cancelled''
   | Finalized _ _ _ \<Rightarrow> ''finalized''
   | EscrowCancelled _ \<Rightarrow> ''cancelled''
   | OracleRotated _ _ \<Rightarrow> ''oracle_rotated'')"

definition paymentIndexOf :: "coreflow_event \<Rightarrow> int option" where
  "paymentIndexOf ev = (case ev of
     PaymentAdded _ i _ _ _ _ _ _ \<Rightarrow> Some i
   | Hours _ i _ \<Rightarrow> Some i
   | PaymentPaid _ i _ _ _ _ \<Rightarrow> Some i
   | PaymentCancelled _ i \<Rightarrow> Some i
   | _ \<Rightarrow> None)"

section \<open>Parsing\<close>

datatype parsed = Unrecognised | Recognised coreflow_event | Not_a_number | Syntax_error

text \<open>
  The object literal is built field by field: \<open>numbers\<close> are the \<open>toNum\<close> fields and \<open>bigs\<close> the
  \<open>toBig\<close> fields of the event.
\<close>

definition build :: "int option list \<Rightarrow> int option list \<Rightarrow> (int list \<Rightarrow> int list \<Rightarrow> coreflow_event) \<Rightarrow> parsed" where
  "build numbers bigs mk =
     (if None \<in> set bigs then Syntax_error
      else if None \<in> set numbers then Not_a_number
      else Recognised (mk (map the numbers) (map the bigs)))"

definition parseCoreFlowEvent :: "string \<Rightarrow> string \<Rightarrow> js_value \<Rightarrow> parsed" where
  "parseCoreFlowEvent topic0 topic1 value =
     (let t = (case value of VArr vs \<Rightarrow> vs | _ \<Rightarrow> [value]);
          key = topic0 @ CHR '':'' # topic1;
          num = (\<lambda>i. toNum (at t i)); big = (\<lambda>i. toBig (at t i)); addr = (\<lambda>i. toAddr (at t i))
      in if key = ''escrow:created'' then
           build [num 0] [big 2] (\<lambda>n b. Created (n ! 0) (addr 1) (b ! 0))
         else if key = ''payment:add'' then
           build [num 0, num 1] [big 4, big 5, big 6, big 7]
             (\<lambda>n b. PaymentAdded (n ! 0) (n ! 1) (addr 2) (addr 3) (b ! 0) (b ! 1) (b ! 2) (b ! 3))
         else if key = ''hours:submit'' then
           build [num 0, num 1] [big 2] (\<lambda>n b. Hours (n ! 0) (n ! 1) (b ! 0))
         else if key = ''approve:manager'' then
           build [num 0] [] (\<lambda>n b. ManagerApproved (n ! 0))
         else if key = ''approve:finance'' then
           build [num 0] [] (\<lambda>n b. FinanceApproved (n ! 0))
         else if key = ''payment:paid'' then
           build [num 0, num 1] [big 4, big 5]
             (\<lambda>n b. PaymentPaid (n ! 0) (n ! 1) (addr 2) (addr 3) (b ! 0) (b ! 1))
         else if key = ''payment:cancel'' then
           build [num 0, num 1] [] (\<lambda>n b. PaymentCancelled (n ! 0) (n ! 1))
         else if key = ''payment:final'' then
           build [num 0, num 2] [big 1] (\<lambda>n b. Finalized (n ! 0) (b ! 0) (n ! 1))
         else if key = ''escrow:cancel'' then
           build [num 0] [] (\<lambda>n b. EscrowCancelled (n ! 0))
         else if key = ''oracle:rotate'' then
           build [num 0, num 1] [] (\<lambda>n b. OracleRotated (n ! 0) (n ! 1))
         else Unrecognised)"

section \<open>The stored payload\<close>

text \<open>The entries of an event object, in the order the parser writes them.\<close>

definition event_fields :: "coreflow_event \<Rightarrow> (string \<times> js_value) list" where
  "event_fields ev = (''kind'', VStr (event_kind ev)) # (''escrowId'', VNum (ev_escrowId ev)) #
     (case ev of
        Created _ m a \<Rightarrow> [(''manager'', VStr m), (''totalAmount'', VBig a)]
      | PaymentAdded _ i w t a r s e \<Rightarrow>
          [(''paymentIndex'', VNum i), (''worker'', VStr w), (''token'', VStr t),
           (''amountBaseUnits'', VBig a), (''rateBaseUnits'', VBig r),
           (''periodStart'', VBig s), (''periodEnd'', VBig e)]
      | Hours _ i h \<Rightarrow> [(''paymentIndex'', VNum i), (''hours'', VBig h)]
      | ManagerApproved _ \<Rightarrow> []
      | FinanceApproved _ \<Rightarrow> []
      | PaymentPaid _ i w t a h \<Rightarrow>
          [(''paymentIndex'', VNum i), (''worker'', VStr w), (''token'', VStr t),
           (''amountBaseUnits'', VBig a), (''hours'', VBig h)]
      | PaymentCancelled _ i \<Rightarrow> [(''paymentIndex'', VNum i)]
      | Finalized _ a n \<Rightarrow> [(''totalAmount'', VBig a), (''count'', VNum n)]
      | EscrowCancelled _ \<Rightarrow> []
      | OracleRotated _ n \<Rightarrow> [(''rotations'', VNum n)])"

text \<open>A value on its way into a JSON column: a \<open>bigint\<close> becomes its decimal string.\<close>

definition serializePayload :: "coreflow_event option \<Rightarrow> json" where
  "serializePayload parsed_event = (case parsed_event of
     None \<Rightarrow> JNull
   | Some ev \<Rightarrow> JObj (map (\<lambda>(k, v). (k, case v of
        VBig n \<Rightarrow> JStr (show_int n) | VNum n \<Rightarrow> JNum n | VStr s \<Rightarrow> JStr s | _ \<Rightarrow> JNull))
      (event_fields ev)))"

definition BIGINT_FIELDS :: "string list" where
  "BIGINT_FIELDS = [''totalAmount'', ''amountBaseUnits'', ''rateBaseUnits'', ''periodStart'',
     ''periodEnd'', ''hours'']"

text \<open>
  Reading it back. The left side is the \<open>SyntaxError\<close> of \<open>BigInt\<close>; the object that results is
  cast to an event unchecked, which is \<open>event_of_fields\<close>.
\<close>

fun from_json :: "json \<Rightarrow> js_value" where
  "from_json JNull = VNull"
| "from_json (JBool b) = VBool b"
| "from_json (JNum n) = VNum n"
| "from_json (JStr s) = VStr s"
| "from_json (JArr js) = VArr (map from_json js)"
| "from_json (JObj fs) = VUndefined"

definition revive :: "string \<Rightarrow> json \<Rightarrow> js_value option" where
  "revive k v = (case v of
     JStr s \<Rightarrow> if k \<in> set BIGINT_FIELDS then map_option VBig (parse_integer s) else Some (VStr s)
   | _ \<Rightarrow> Some (from_json v))"

definition field :: "(string \<times> js_value) list \<Rightarrow> string \<Rightarrow> js_value" where
  "field fs k = (case map_of fs k of None \<Rightarrow> VUndefined | Some v \<Rightarrow> v)"

definition as_int :: "js_value \<Rightarrow> int option" where
  "as_int v = (case v of VNum n \<Rightarrow> Some n | VBig n \<Rightarrow> Some n | _ \<Rightarrow> None)"

definition as_str :: "js_value \<Rightarrow> string option" where
  "as_str v = (case v of VStr s \<Rightarrow> Some s | _ \<Rightarrow> None)"

definition build_stored ::
  "int option list \<Rightarrow> string option list \<Rightarrow> (int list \<Rightarrow> string list \<Rightarrow> coreflow_event) \<Rightarrow> coreflow_event option" where
  "build_stored numbers strings mk =
     (if None \<in> set numbers \<or> None \<in> set strings then None
      else Some (mk (map the numbers) (map the strings)))"

definition event_of_fields :: "(string \<times> js_value) list \<Rightarrow> coreflow_event option" where
  "event_of_fields fs =
     (let n = (\<lambda>k. as_int (field fs k)); s = (\<lambda>k. as_str (field fs k)); kd = field fs ''kind'';
          i = n ''escrowId'' in
      if kd = VStr ''created'' then
        build_stored [i, n ''totalAmount''] [s ''manager''] (\<lambda>n s. Created (n ! 0) (s ! 0) (n ! 1))
      else if kd = VStr ''payment_added'' then
        build_stored [i, n ''paymentIndex'', n ''amountBaseUnits'', n ''rateBaseUnits'',
            n ''periodStart'', n ''periodEnd''] [s ''worker'', s ''token'']
          (\<lambda>n s. PaymentAdded (n ! 0) (n ! 1) (s ! 0) (s ! 1) (n ! 2) (n ! 3) (n ! 4) (n ! 5))
      else if kd = VStr ''hours'' then
        build_stored [i, n ''paymentIndex'', n ''hours''] [] (\<lambda>n s. Hours (n ! 0) (n ! 1) (n ! 2))
      else if kd = VStr ''manager_approved'' then build_stored [i] [] (\<lambda>n s. ManagerApproved (n ! 0))
      else if kd = VStr ''finance_approved'' then build_stored [i] [] (\<lambda>n s. FinanceApproved (n ! 0))
      else if kd = VStr ''payment_paid'' then
        build_stored [i, n ''paymentIndex'', n ''amountBaseUnits'', n ''hours''] [s ''worker'', s ''token'']
          (\<lambda>n s. PaymentPaid (n ! 0) (n ! 1) (s ! 0) (s ! 1) (n ! 2) (n ! 3))
      else if kd = VStr ''payment_cancelled'' then
        build_stored [i, n ''paymentIndex''] [] (\<lambda>n s. PaymentCancelled (n ! 0) (n ! 1))
      else if kd = VStr ''finalized'' then
        build_stored [i, n ''totalAmount'', n ''count''] [] (\<lambda>n s. Finalized (n ! 0) (n ! 1) (n ! 2))
      else if kd = VStr ''cancelled'' then build_stored [i] [] (\<lambda>n s. EscrowCancelled (n ! 0))
      else if kd = VStr ''oracle_rotated'' then
        build_stored [i, n ''rotations''] [] (\<lambda>n s. OracleRotated (n ! 0) (n ! 1))
      else None)"

datatype stored_event = Nothing_stored | Stored coreflow_event | Corrupt

definition deserializePayload :: "json \<Rightarrow> stored_event" where
  "deserializePayload payload = (case payload of
     JObj fs \<Rightarrow>
       (case map_of fs ''kind'' of
          None \<Rightarrow> Nothing_stored
        | Some k \<Rightarrow>
            if k = JNull \<or> k = JStr [] \<or> k = JNum 0 \<or> k = JBool False then Nothing_stored
            else let revived = map (\<lambda>(k, v). (k, revive k v)) fs in
              if list_ex (\<lambda>(k, v). v = None) revived then Corrupt
              else (case event_of_fields (map (\<lambda>(k, v). (k, the v)) revived) of
                      None \<Rightarrow> Corrupt | Some ev \<Rightarrow> Stored ev))
   | _ \<Rightarrow> Nothing_stored)"

section \<open>Lemmas\<close>

lemma show_nat_digit: "c \<in> set (show_nat n) \<Longrightarrow> is_digit c"
  using show_nat_digits[of n] by (simp add: list_all_iff)

lemma no_prefix:
  assumes "list_all is_digit s"
  shows "take 2 s \<noteq> [c, CHR ''x'']" "take 2 s \<noteq> [c, CHR ''X'']" "take 2 s \<noteq> [c, CHR ''o'']"
    "take 2 s \<noteq> [c, CHR ''O'']" "take 2 s \<noteq> [c, CHR ''b'']" "take 2 s \<noteq> [c, CHR ''B'']"
  using assms
  by (cases s; cases "tl s"; auto simp: is_digit_def numeral_2_eq_2)+

lemma parse_show_int: "parse_integer (show_int n) = Some n"
proof -
  have digits: "list_all is_digit (show_nat k)" "all_digits (show_nat k)" for k
    by (simp_all add: show_nat_digits all_digits_show_nat)
  have trim: "js_trim (show_int n) = show_int n"
    by (rule js_trim_id) (auto simp: show_int_def js_ws_def dest!: show_nat_digit is_digit_not_special)
  show ?thesis
  proof (cases "n < 0")
    case True
    then show ?thesis
      using digits
      by (simp add: parse_integer_def trim Let_def) (simp add: show_int_def digits_val_show_nat)
  next
    case False
    let ?s = "show_nat (nat n)"
    have "is_digit (hd ?s)" by (rule show_nat_digit[of _ "nat n"]) simp
    then have "hd ?s \<noteq> CHR ''-'' \<and> hd ?s \<noteq> CHR ''+''" by (auto simp: is_digit_def)
    then show ?thesis
      using False digits no_prefix[OF digits(1)]
      by (simp add: parse_integer_def trim Let_def) (simp add: show_int_def digits_val_show_nat)
  qed
qed

interpretation bigint: codec show_int parse_integer "\<lambda>_. True"
  by unfold_locales (simp add: parse_show_int)

lemma deserialize_serialize: "deserializePayload (serializePayload (Some ev)) = Stored ev"
  by (cases ev)
    (simp_all add: serializePayload_def deserializePayload_def event_fields_def event_kind_def
      revive_def BIGINT_FIELDS_def bigint.dec_enc event_of_fields_def field_def as_int_def as_str_def
      build_stored_def Let_def)

interpretation payload: codec "\<lambda>ev. serializePayload (Some ev)"
  "\<lambda>j. case deserializePayload j of Stored ev \<Rightarrow> Some ev | _ \<Rightarrow> None" "\<lambda>_. True"
  by unfold_locales (simp add: deserialize_serialize)

text \<open>
  The topics and data the contract emits for an event: ids and counters as numbers, amounts as
  \<open>i128\<close>, which \<open>scValToNative\<close> turns into a \<open>bigint\<close>, a single value outside a tuple.
\<close>

definition wire :: "coreflow_event \<Rightarrow> string \<times> string \<times> js_value" where
  "wire ev = (case ev of
     Created i m a \<Rightarrow> (''escrow'', ''created'', VArr [VNum i, VStr m, VBig a])
   | PaymentAdded i p w t a r s e \<Rightarrow>
       (''payment'', ''add'', VArr [VNum i, VNum p, VStr w, VStr t, VBig a, VBig r, VBig s, VBig e])
   | Hours i p h \<Rightarrow> (''hours'', ''submit'', VArr [VNum i, VNum p, VBig h])
   | ManagerApproved i \<Rightarrow> (''approve'', ''manager'', VNum i)
   | FinanceApproved i \<Rightarrow> (''approve'', ''finance'', VNum i)
   | PaymentPaid i p w t a h \<Rightarrow>
       (''payment'', ''paid'', VArr [VNum i, VNum p, VStr w, VStr t, VBig a, VBig h])
   | PaymentCancelled i p \<Rightarrow> (''payment'', ''cancel'', VArr [VNum i, VNum p])
   | Finalized i a n \<Rightarrow> (''payment'', ''final'', VArr [VNum i, VBig a, VNum n])
   | EscrowCancelled i \<Rightarrow> (''escrow'', ''cancel'', VNum i)
   | OracleRotated i n \<Rightarrow> (''oracle'', ''rotate'', VArr [VNum i, VNum n]))"

lemma parse_wire: "(case wire ev of (t0, t1, v) \<Rightarrow> parseCoreFlowEvent t0 t1 v) = Recognised ev"
  by (cases ev)
    (simp_all add: wire_def parseCoreFlowEvent_def build_def at_def toNum_def toAddr_def Let_def
      numeral_2_eq_2 numeral_3_eq_3 nth_Cons')

section \<open>Properties\<close>

text \<open>
  Nothing of an event is lost between the chain and the stored log. Each of the ten events the
  contract emits is decoded to exactly the event it is, with every amount to the last base unit
  whatever its size; and the payload stored with it is read back as the same event, so a replay
  from the log applies what the chain said.
\<close>

theorem event_decoded_and_stored_exactly:
  "(case wire ev of (topic0, topic1, value) \<Rightarrow> parseCoreFlowEvent topic0 topic1 value) = Recognised ev \<and>
   deserializePayload (serializePayload (Some ev)) = Stored ev \<and>
   (serializePayload (Some ev) = serializePayload (Some ev') \<longleftrightarrow> ev = ev')"
  using parse_wire deserialize_serialize payload.enc_eq_iff by blast

end
