(* ===== verification/Indexer.thy ===== *)
theory Indexer
  imports Transitions ChainEvents
begin

text \<open>
  \<open>src/lib/indexer/index.ts\<close> and \<open>src/lib/indexer/run.ts\<close>: the projection of the contract's
  event log into the database. One definition per case of \<open>applyEvent\<close>; an event is applied in
  its transaction together with its marker (\<open>process_one\<close>), and a batch is a loop over the
  sorted events that ends early on an exception.

  What is outside the repository is a parameter: the comparison \<open>localeCompare\<close>, the database's
  collation of ids, the events the RPC returns, and \<open>faults\<close>, which says for an event id whether
  its transaction is rolled back and with what error. The detail texts of the findings are left
  out, and a \<open>Date\<close> is any number of milliseconds.
\<close>

section \<open>Contexts and results\<close>

record index_context =
  ix_contractId :: string
  ix_network :: string
  ix_assetDecimals :: "nat option"

record raw_event =
  re_id :: string
  re_ledger :: int
  re_topic0 :: string
  re_topic1 :: string
  re_value :: js_value
  re_txHash :: "string option"

record event_meta =
  mt_txHash :: "string option"
  mt_ledger :: int

record apply_result =
  ar_paymentsCreated :: nat
  ar_paymentsAdvanced :: nat
  ar_paymentsPaid :: nat
  ar_findings :: nat
  ar_attributed :: bool

definition nothing :: apply_result where
  "nothing = \<lparr>ar_paymentsCreated = 0, ar_paymentsAdvanced = 0, ar_paymentsPaid = 0,
     ar_findings = 0, ar_attributed = True\<rparr>"

definition INDEXER_ACTOR :: actor where
  "INDEXER_ACTOR = \<lparr>kind = Indexer, role = None, address = None, system = Some ''indexer''\<rparr>"

section \<open>Resolving and ensuring rows\<close>

definition resolveEscrowTenant :: "database \<Rightarrow> index_context \<Rightarrow> int \<Rightarrow> escrow_row option" where
  "resolveEscrowTenant db ctx i =
     findFirst (\<lambda>x. es_onChainId x = Some i \<and> es_contractId x = ix_contractId ctx \<and>
       es_network x = ix_network ctx) (escrows db)"

definition escrowBatchReference :: "int \<Rightarrow> string" where
  "escrowBatchReference i = ''CHAIN-'' @ pad_start 5 CHR ''0'' (show_int i)"

definition find_escrow :: "database \<Rightarrow> int \<Rightarrow> escrow_row option" where
  "find_escrow db i = findFirst (\<lambda>x. es_onChainId x = Some i) (escrows db)"

definition update_escrow :: "row_id \<Rightarrow> (escrow_row \<Rightarrow> escrow_row) \<Rightarrow> database \<Rightarrow> database" where
  "update_escrow i f db = db\<lparr>escrows := updated (\<lambda>x. es_id x = i) f (escrows db)\<rparr>"

definition default_to :: "'a option \<Rightarrow> 'a \<Rightarrow> 'a" where
  "default_to x d = (case x of None \<Rightarrow> d | Some y \<Rightarrow> y)"

text \<open>The patch is the manager's address and the total, when the event carries them.\<close>

definition ensureEscrow ::
  "env \<Rightarrow> database \<Rightarrow> index_context \<Rightarrow> row_id \<Rightarrow> int \<Rightarrow> (address \<times> base_units) option \<Rightarrow>
   database \<times> escrow_row" where
  "ensureEscrow e db ctx orgId i patch =
     (case find_escrow db i of
        Some existing \<Rightarrow>
          (case patch of
             None \<Rightarrow> (db, existing)
           | Some (m, a) \<Rightarrow>
               (let f = (\<lambda>x. x\<lparr>es_managerAddress := m, es_totalAmountBaseUnits := a\<rparr>)
                in (update_escrow (es_id existing) f db, f existing)))
      | None \<Rightarrow>
          (let row = \<lparr>es_id = new_id e db, es_orgId = orgId, es_onChainId = Some i,
                 es_contractId = ix_contractId ctx, es_network = ix_network ctx,
                 es_managerAddress = (case patch of None \<Rightarrow> [] | Some (m, _) \<Rightarrow> m),
                 es_financeApproverAddress = [],
                 es_assetDecimals = default_to (ix_assetDecimals ctx) 7,
                 es_totalAmountBaseUnits = (case patch of None \<Rightarrow> 0 | Some (_, a) \<Rightarrow> a),
                 es_managerApproved = False, es_financeApproved = False, es_cancelled = False,
                 es_oracleRotations = 0, es_projectId = None, es_oraclePublicKey = None,
                 es_tokenAddress = None, es_createdAt = now e\<rparr>
           in (db\<lparr>escrows := escrows db @ [row], serial := Suc (serial db)\<rparr>, row)))"

definition ensureBatch :: "env \<Rightarrow> database \<Rightarrow> row_id \<Rightarrow> int \<Rightarrow> database \<times> batch_row" where
  "ensureBatch e db orgId i =
     (let reference = escrowBatchReference i in
      case findFirst (\<lambda>b. ba_orgId b = orgId \<and> ba_reference b = reference) (batches db) of
        Some existing \<Rightarrow> (db, existing)
      | None \<Rightarrow>
          (let row = \<lparr>ba_id = new_id e db, ba_orgId = orgId, ba_reference = reference,
                 ba_projectId = None, ba_periodStart = None, ba_periodEnd = None,
                 ba_sourceFilename = None, ba_sourceRowCount = None, ba_sourceChecksum = None,
                 ba_idempotencyKey = None, ba_idempotencyFingerprint = None, ba_uploadedBy = None,
                 ba_createdAt = now e\<rparr>
           in (db\<lparr>batches := batches db @ [row], serial := Suc (serial db)\<rparr>, row)))"

definition ensureWorker :: "env \<Rightarrow> database \<Rightarrow> row_id \<Rightarrow> address \<Rightarrow> database \<times> worker_row" where
  "ensureWorker e db orgId wallet =
     (case findFirst (\<lambda>w. wk_orgId w = orgId \<and> wk_walletAddress w = wallet) (workers db) of
        Some existing \<Rightarrow> (db, existing)
      | None \<Rightarrow>
          (let row = \<lparr>wk_id = new_id e db, wk_orgId = orgId, wk_walletAddress = wallet\<rparr>
           in (db\<lparr>workers := workers db @ [row], serial := Suc (serial db)\<rparr>, row)))"

definition openFinding ::
  "env \<Rightarrow> database \<Rightarrow> row_id \<Rightarrow> row_id option \<Rightarrow> finding_kind \<Rightarrow> string option \<Rightarrow> string option \<Rightarrow>
   json_object \<Rightarrow> database" where
  "openFinding e db orgId paymentId k dbState chainState metadata =
     db\<lparr>findings := findings db @
          [\<lparr>fd_id = new_id e db, fd_orgId = orgId, fd_paymentId = paymentId, fd_kind = k,
            fd_dbState = dbState, fd_chainState = chainState, fd_metadata = metadata,
            fd_runId = None, fd_status = OPEN, fd_severity = MEDIUM, fd_txHash = None,
            fd_escrowOnChainId = None, fd_paymentIndex = None, fd_detectedAt = now e,
            fd_lastObservedAt = now e, fd_observationCount = 1,
            fd_acknowledgedAt = None, fd_acknowledgedBy = None, fd_resolvedAt = None, fd_resolvedBy = None,
            fd_resolution = None\<rparr>],
        serial := Suc (serial db)\<rparr>"

definition find_slot :: "database \<Rightarrow> row_id \<Rightarrow> int \<Rightarrow> payment_row option" where
  "find_slot db escrowId i =
     findFirst (\<lambda>p. pm_escrowId p = Some escrowId \<and> pm_onChainPaymentIndex p = Some i) (payments db)"

definition indexer_audit ::
  "env \<Rightarrow> database \<Rightarrow> row_id \<Rightarrow> string \<Rightarrow> row_id option \<Rightarrow> row_id option \<Rightarrow> row_id option \<Rightarrow>
   payment_state option \<Rightarrow> payment_state \<Rightarrow> string option \<Rightarrow> json_object \<Rightarrow> database" where
  "indexer_audit e db orgId type paymentId batchId escrowId previous next_state txHash metadata =
     db\<lparr>auditEvents := auditEvents db @
          [\<lparr>au_id = new_id e db, au_orgId = orgId, au_type = type, au_actorAddress = None,
            au_actorSystem = Some ''indexer'', au_paymentId = paymentId, au_batchId = batchId,
            au_escrowId = escrowId, au_previousState = previous, au_newState = Some next_state,
            au_txHash = txHash, au_metadata = Some metadata\<rparr>],
        serial := Suc (serial db)\<rparr>"

section \<open>Applying one event\<close>

definition apply_created ::
  "env \<Rightarrow> database \<Rightarrow> index_context \<Rightarrow> row_id \<Rightarrow> int \<Rightarrow> address \<Rightarrow> base_units \<Rightarrow>
   database \<times> apply_result" where
  "apply_created e db ctx orgId i manager amount =
     (let (db, _) = ensureEscrow e db ctx orgId i (Some (manager, amount));
          (db, _) = ensureBatch e db orgId i
      in (db, nothing))"

definition indexer_request ::
  "row_id \<Rightarrow> row_id \<Rightarrow> payment_state \<Rightarrow> string option \<Rightarrow> string option \<Rightarrow> json_object option \<Rightarrow>
   transition_request" where
  "indexer_request i orgId t reason txHash metadata =
     \<lparr>rq_paymentId = i, rq_to = t, rq_actor = INDEXER_ACTOR, rq_orgId = orgId, rq_reason = reason,
      rq_txHash = txHash, rq_metadata = metadata, rq_settledAt = None\<rparr>"

text \<open>A slot the database already has.\<close>

definition payment_added_again ::
  "env \<Rightarrow> database \<Rightarrow> row_id \<Rightarrow> int \<Rightarrow> int \<Rightarrow> address \<Rightarrow> base_units \<Rightarrow> payment_row \<Rightarrow>
   database \<times> apply_result" where
  "payment_added_again e db orgId i idx worker amount existing =
     (let mismatch = (pm_amountBaseUnits existing \<noteq> amount \<or> pm_recipientAddress existing \<noteq> worker);
          db1 = (if mismatch
                 then openFinding e db orgId (Some (pm_id existing)) AMOUNT_MISMATCH
                   (Some (pm_recipientAddress existing @ CHR '':'' # show_int (pm_amountBaseUnits existing)))
                   (Some (worker @ CHR '':'' # show_int amount))
                   [(''escrowId'', JNum i), (''paymentIndex'', JNum idx)]
                 else db);
          out = nothing\<lparr>ar_findings := (if mismatch then 1 else 0)\<rparr>
      in if pm_state existing = VALIDATING
         then let (db2, advanced) = applyTransition e db1
                (indexer_request (pm_id existing) orgId AWAITING_ORACLE None None None)
              in (db2, case advanced of Changed _ _ \<Rightarrow> out\<lparr>ar_paymentsAdvanced := 1\<rparr> | _ \<Rightarrow> out)
         else (db1, out))"

definition period_date :: "int \<Rightarrow> instant option" where
  "period_date n = (if n > 0 then Some (to_double (to_double n * 1000)) else None)"

definition apply_payment_added ::
  "env \<Rightarrow> database \<Rightarrow> index_context \<Rightarrow> row_id \<Rightarrow> event_meta \<Rightarrow> int \<Rightarrow> int \<Rightarrow> address \<Rightarrow> string \<Rightarrow>
   base_units \<Rightarrow> base_units \<Rightarrow> int \<Rightarrow> int \<Rightarrow> database \<times> apply_result" where
  "apply_payment_added e db ctx orgId meta i idx w token amount rate startAt endAt =
     (let (db1, escrow) = ensureEscrow e db ctx orgId i None;
          (db2, batch) = ensureBatch e db1 orgId i;
          (db3, worker) = ensureWorker e db2 orgId w
      in case find_slot db3 (es_id escrow) idx of
           Some existing \<Rightarrow> payment_added_again e db3 orgId i idx w amount existing
         | None \<Rightarrow>
             (let row = \<lparr>pm_id = new_id e db3, pm_orgId = orgId, pm_batchId = ba_id batch,
                    pm_escrowId = Some (es_id escrow), pm_workerId = Some (wk_id worker),
                    pm_recipientAddress = w, pm_onChainPaymentIndex = Some idx,
                    pm_assetContractId = Some token,
                    pm_assetDecimals = default_to (ix_assetDecimals ctx) (es_assetDecimals escrow),
                    pm_amountBaseUnits = amount, pm_rateBaseUnits = rate,
                    pm_hours = (if rate > 0 then js_div amount rate else 0),
                    pm_periodStart = period_date startAt, pm_periodEnd = period_date endAt,
                    pm_state = AWAITING_ORACLE, pm_stateUpdatedAt = now e, pm_stateReason = None,
                    pm_settledAt = None, pm_settlementTxHash = None, pm_assetCode = ''USDC'',
                    pm_projectId = None, pm_sourceReference = None, pm_createdAt = now e\<rparr>;
                  db4 = db3\<lparr>payments := payments db3 @ [row], serial := Suc (serial db3)\<rparr>;
                  db5 = indexer_audit e db4 orgId ''payment.indexed'' None (Some (ba_id batch))
                    (Some (es_id escrow)) None AWAITING_ORACLE (mt_txHash meta)
                    [(''escrowOnChainId'', JNum i), (''paymentIndex'', JNum idx),
                     (''ledger'', JNum (mt_ledger meta))]
              in (db5, nothing\<lparr>ar_paymentsCreated := 1\<rparr>)))"

definition verified :: "env \<Rightarrow> int \<Rightarrow> payment_row \<Rightarrow> payment_row" where
  "verified e hours p = p\<lparr>pm_state := ORACLE_VERIFIED, pm_stateUpdatedAt := now e, pm_hours := hours\<rparr>"

definition apply_hours ::
  "env \<Rightarrow> database \<Rightarrow> row_id \<Rightarrow> event_meta \<Rightarrow> int \<Rightarrow> int \<Rightarrow> int \<Rightarrow> database \<times> apply_result" where
  "apply_hours e db orgId meta i idx hours =
     (case find_escrow db i of
        None \<Rightarrow> (db, nothing)
      | Some escrow \<Rightarrow>
          (case find_slot db (es_id escrow) idx of
             None \<Rightarrow> (db, nothing)
           | Some payment \<Rightarrow>
               (let db1 = db\<lparr>payments := updated
                        (\<lambda>p. pm_id p = pm_id payment \<and> pm_state p = AWAITING_ORACLE)
                        (verified e hours) (payments db)\<rparr>
                in (indexer_audit e db1 orgId ''payment.oracle.verified'' (Some (pm_id payment)) None
                      (Some (es_id escrow)) (Some (pm_state payment)) ORACLE_VERIFIED (mt_txHash meta)
                      [(''hours'', JStr (show_int hours)), (''ledger'', JNum (mt_ledger meta))],
                    nothing))))"

text \<open>\<open>updateMany\<close> of the states of an escrow's payments.\<close>

definition move_all ::
  "env \<Rightarrow> row_id \<Rightarrow> payment_state list \<Rightarrow> payment_state \<Rightarrow> payment_row list \<Rightarrow> payment_row list" where
  "move_all e escrowId sources t rows =
     updated (\<lambda>p. pm_escrowId p = Some escrowId \<and> pm_state p \<in> set sources)
       (\<lambda>p. p\<lparr>pm_state := t, pm_stateUpdatedAt := now e\<rparr>) rows"

definition apply_approved ::
  "env \<Rightarrow> database \<Rightarrow> row_id \<Rightarrow> event_meta \<Rightarrow> int \<Rightarrow> bool \<Rightarrow> database \<times> apply_result" where
  "apply_approved e db orgId meta i isManager =
     (case find_escrow db i of
        None \<Rightarrow> (db, nothing)
      | Some escrow \<Rightarrow>
          (let db1 = update_escrow (es_id escrow)
                 (\<lambda>x. if isManager then x\<lparr>es_managerApproved := True\<rparr> else x\<lparr>es_financeApproved := True\<rparr>) db;
               waitingOn = (if isManager then AWAITING_MANAGER else AWAITING_FINANCE);
               nextState = (if isManager then AWAITING_FINANCE else READY_TO_SETTLE);
               rows1 = move_all e (es_id escrow) [ORACLE_VERIFIED] AWAITING_MANAGER (payments db1);
               affected = filter (\<lambda>p. pm_escrowId p = Some (es_id escrow) \<and> pm_state p = waitingOn) rows1;
               rows2 = move_all e (es_id escrow) [waitingOn] nextState rows1
           in (fold (\<lambda>p db. indexer_audit e db orgId
                  (if isManager then ''approval.manager.observed'' else ''approval.finance.observed'')
                  (Some (pm_id p)) None (Some (es_id escrow)) (Some waitingOn) nextState
                  (mt_txHash meta) [(''ledger'', JNum (mt_ledger meta))])
                affected (db1\<lparr>payments := rows2\<rparr>),
               nothing)))"

text \<open>The findings for a settlement that differs from the recorded payment, and their number.\<close>

definition settlement_findings ::
  "env \<Rightarrow> database \<Rightarrow> row_id \<Rightarrow> address \<Rightarrow> base_units \<Rightarrow> payment_row \<Rightarrow> database \<times> nat" where
  "settlement_findings e db orgId w amount payment =
     (let wrong_amount = (pm_amountBaseUnits payment \<noteq> amount);
          wrong_worker = (pm_recipientAddress payment \<noteq> w);
          db1 = (if wrong_amount
                 then openFinding e db orgId (Some (pm_id payment)) AMOUNT_MISMATCH
                   (Some (show_int (pm_amountBaseUnits payment))) (Some (show_int amount)) []
                 else db);
          db2 = (if wrong_worker
                 then openFinding e db1 orgId (Some (pm_id payment)) RECIPIENT_MISMATCH
                   (Some (pm_recipientAddress payment)) (Some w) []
                 else db1)
      in (db2, (if wrong_amount then 1 else 0) + (if wrong_worker then 1 else 0)))"

definition paid_request ::
  "row_id \<Rightarrow> payment_row \<Rightarrow> event_meta \<Rightarrow> int \<Rightarrow> int \<Rightarrow> base_units \<Rightarrow> int \<Rightarrow> transition_request" where
  "paid_request orgId payment meta i idx amount hours =
     indexer_request (pm_id payment) orgId PAID None (mt_txHash meta)
       (Some [(''ledger'', JNum (mt_ledger meta)), (''escrowOnChainId'', JNum i),
          (''paymentIndex'', JNum idx), (''settledAmountBaseUnits'', JStr (show_int amount)),
          (''hours'', JStr (show_int hours))])"

definition apply_payment_paid ::
  "env \<Rightarrow> database \<Rightarrow> row_id \<Rightarrow> event_meta \<Rightarrow> int \<Rightarrow> int \<Rightarrow> address \<Rightarrow> base_units \<Rightarrow> int \<Rightarrow>
   database \<times> apply_result" where
  "apply_payment_paid e db orgId meta i idx w amount hours =
     (case find_escrow db i of
        None \<Rightarrow> (db, nothing)
      | Some escrow \<Rightarrow>
          (case find_slot db (es_id escrow) idx of
             None \<Rightarrow>
               (openFinding e db orgId None ORPHAN_ON_CHAIN None (Some ''PAID'')
                  [(''escrowOnChainId'', JNum i), (''paymentIndex'', JNum idx), (''worker'', JStr w),
                   (''amountBaseUnits'', JStr (show_int amount))],
                nothing\<lparr>ar_findings := 1\<rparr>)
           | Some payment \<Rightarrow>
               (let (db2, count) = settlement_findings e db orgId w amount payment
                in if pm_state payment = PAID then (db2, nothing\<lparr>ar_findings := count\<rparr>)
                   else let (db3, result) = applyTransition e db2
                          (paid_request orgId payment meta i idx amount hours)
                        in case result of
                             Changed _ _ \<Rightarrow> (db3, nothing\<lparr>ar_paymentsPaid := 1, ar_findings := count\<rparr>)
                           | Unchanged _ _ \<Rightarrow> (db3, nothing\<lparr>ar_findings := count\<rparr>)
                           | Refused _ _ \<Rightarrow>
                               (openFinding e db3 orgId (Some (pm_id payment)) CHAIN_PAID_DB_NOT
                                  (Some (payment_state_name (pm_state payment))) (Some ''PAID'') [],
                                nothing\<lparr>ar_findings := count + 1\<rparr>))))"

definition apply_payment_cancelled ::
  "env \<Rightarrow> database \<Rightarrow> row_id \<Rightarrow> event_meta \<Rightarrow> int \<Rightarrow> int \<Rightarrow> database \<times> apply_result" where
  "apply_payment_cancelled e db orgId meta i idx =
     (case find_escrow db i of
        None \<Rightarrow> (db, nothing)
      | Some escrow \<Rightarrow>
          (case find_slot db (es_id escrow) idx of
             None \<Rightarrow> (db, nothing)
           | Some payment \<Rightarrow>
               if pm_state payment = PAID
               then (openFinding e db orgId (Some (pm_id payment)) DB_PAID_CHAIN_NOT
                       (Some ''PAID'') (Some ''CANCELLED'') [],
                     nothing\<lparr>ar_findings := 1\<rparr>)
               else (fst (applyTransition e db
                       (indexer_request (pm_id payment) orgId CANCELLED
                          (Some ''Escrow cancelled on-chain; custody refunded.'') (mt_txHash meta)
                          (Some [(''ledger'', JNum (mt_ledger meta))]))),
                     nothing)))"

definition apply_cancelled :: "database \<Rightarrow> int \<Rightarrow> database \<times> apply_result" where
  "apply_cancelled db i =
     (case find_escrow db i of
        None \<Rightarrow> (db, nothing)
      | Some escrow \<Rightarrow> (update_escrow (es_id escrow) (\<lambda>x. x\<lparr>es_cancelled := True\<rparr>) db, nothing))"

definition revoked_states :: "payment_state list" where
  "revoked_states = [ORACLE_VERIFIED, AWAITING_MANAGER, AWAITING_FINANCE, READY_TO_SETTLE]"

definition revoked :: "env \<Rightarrow> payment_row \<Rightarrow> payment_row" where
  "revoked e p = p\<lparr>pm_state := AWAITING_ORACLE, pm_stateUpdatedAt := now e,
     pm_stateReason := Some ''Oracle key rotated on-chain; prior attestations revoked.''\<rparr>"

definition apply_oracle_rotated :: "env \<Rightarrow> database \<Rightarrow> int \<Rightarrow> int \<Rightarrow> database \<times> apply_result" where
  "apply_oracle_rotated e db i rotations =
     (case find_escrow db i of
        None \<Rightarrow> (db, nothing)
      | Some escrow \<Rightarrow>
          (let db1 = update_escrow (es_id escrow) (\<lambda>x. x\<lparr>es_oracleRotations := rotations\<rparr>) db
           in (db1\<lparr>payments := updated
                  (\<lambda>p. pm_escrowId p = Some (es_id escrow) \<and> pm_state p \<in> set revoked_states)
                  (revoked e) (payments db1)\<rparr>,
               nothing)))"

definition apply_finalized ::
  "env \<Rightarrow> database \<Rightarrow> row_id \<Rightarrow> int \<Rightarrow> base_units \<Rightarrow> int \<Rightarrow> database \<times> apply_result" where
  "apply_finalized e db orgId i amount count =
     (case find_escrow db i of
        None \<Rightarrow> (db, nothing)
      | Some escrow \<Rightarrow>
          (let unpaid = length (filter (\<lambda>p. pm_escrowId p = Some (es_id escrow) \<and> pm_state p \<noteq> PAID)
                 (payments db))
           in if unpaid > 0
              then (openFinding e db orgId None CHAIN_PAID_DB_NOT None
                      (Some (''finalized count='' @ show_int count))
                      [(''escrowOnChainId'', JNum i), (''totalAmount'', JStr (show_int amount))],
                    nothing\<lparr>ar_findings := 1\<rparr>)
              else (db, nothing)))"

definition applyEvent ::
  "env \<Rightarrow> database \<Rightarrow> index_context \<Rightarrow> coreflow_event \<Rightarrow> event_meta \<Rightarrow> database \<times> apply_result" where
  "applyEvent e db ctx ev meta =
     (case resolveEscrowTenant db ctx (ev_escrowId ev) of
        None \<Rightarrow> (db, nothing\<lparr>ar_attributed := False\<rparr>)
      | Some tenant \<Rightarrow>
          (let orgId = es_orgId tenant in
           case ev of
             Created i m a \<Rightarrow> apply_created e db ctx orgId i m a
           | PaymentAdded i idx w t a r s f \<Rightarrow> apply_payment_added e db ctx orgId meta i idx w t a r s f
           | Hours i idx h \<Rightarrow> apply_hours e db orgId meta i idx h
           | ManagerApproved i \<Rightarrow> apply_approved e db orgId meta i True
           | FinanceApproved i \<Rightarrow> apply_approved e db orgId meta i False
           | PaymentPaid i idx w t a h \<Rightarrow> apply_payment_paid e db orgId meta i idx w a h
           | PaymentCancelled i idx \<Rightarrow> apply_payment_cancelled e db orgId meta i idx
           | EscrowCancelled i \<Rightarrow> apply_cancelled db i
           | OracleRotated i n \<Rightarrow> apply_oracle_rotated e db i n
           | Finalized i a n \<Rightarrow> apply_finalized e db orgId i a n))"

section \<open>The cursor\<close>

definition getCursor :: "database \<Rightarrow> index_context \<Rightarrow> int" where
  "getCursor db ctx =
     (case findFirst (\<lambda>c. cu_contractId c = ix_contractId ctx \<and> cu_network c = ix_network ctx) (cursors db) of
        None \<Rightarrow> 0 | Some c \<Rightarrow> cu_lastLedger c)"

definition setCursor :: "database \<Rightarrow> index_context \<Rightarrow> int \<Rightarrow> database" where
  "setCursor db ctx ledger =
     (let mine = (\<lambda>c. cu_contractId c = ix_contractId ctx \<and> cu_network c = ix_network ctx) in
      case findFirst mine (cursors db) of
        Some _ \<Rightarrow> db\<lparr>cursors := updated mine (\<lambda>c. c\<lparr>cu_lastLedger := ledger\<rparr>) (cursors db)\<rparr>
      | None \<Rightarrow> db\<lparr>cursors := cursors db @
            [\<lparr>cu_contractId = ix_contractId ctx, cu_network = ix_network ctx, cu_lastLedger = ledger\<rparr>]\<rparr>)"

section \<open>A batch of events\<close>

datatype tx_fault = P2002 | Other_fault

type_synonym faults = "string \<Rightarrow> tx_fault option"

datatype processed = Skipped | Applied apply_result | Lost_race | Threw

definition find_marker :: "database \<Rightarrow> string \<Rightarrow> chain_event_row option" where
  "find_marker db i = findFirst (\<lambda>c. ce_id c = i) (chainEvents db)"

definition marker :: "env \<Rightarrow> index_context \<Rightarrow> raw_event \<Rightarrow> coreflow_event option \<Rightarrow> bool \<Rightarrow> chain_event_row" where
  "marker e ctx raw ev attributed =
     \<lparr>ce_id = re_id raw, ce_contractId = Some (ix_contractId ctx), ce_network = ix_network ctx,
      ce_type = (case ev of
         Some x \<Rightarrow> event_kind x
       | None \<Rightarrow> ''unknown:'' @ re_topic0 raw @ CHR '':'' # re_topic1 raw),
      ce_ledger = re_ledger raw, ce_txHash = re_txHash raw,
      ce_escrowOnChainId = map_option ev_escrowId ev,
      ce_paymentIndex = (case ev of None \<Rightarrow> None | Some x \<Rightarrow> paymentIndexOf x),
      ce_payload = serializePayload ev, ce_attributed = attributed, ce_processedAt = now e\<rparr>"

text \<open>\<open>tx.chainEvent.upsert\<close>\<close>

definition upsert_marker ::
  "env \<Rightarrow> database \<Rightarrow> index_context \<Rightarrow> raw_event \<Rightarrow> coreflow_event option \<Rightarrow> bool \<Rightarrow> database" where
  "upsert_marker e db ctx raw ev attributed =
     (case find_marker db (re_id raw) of
        Some _ \<Rightarrow> db\<lparr>chainEvents := updated (\<lambda>c. ce_id c = re_id raw)
            (\<lambda>c. c\<lparr>ce_attributed := attributed, ce_processedAt := now e\<rparr>) (chainEvents db)\<rparr>
      | None \<Rightarrow> db\<lparr>chainEvents := chainEvents db @ [marker e ctx raw ev attributed]\<rparr>)"

definition already_done :: "database \<Rightarrow> string \<Rightarrow> bool" where
  "already_done db i \<longleftrightarrow> (case find_marker db i of None \<Rightarrow> False | Some c \<Rightarrow> ce_attributed c)"

text \<open>One turn of the loop for an event whose value was parsed without a \<open>SyntaxError\<close>.\<close>

definition process_one ::
  "env \<Rightarrow> index_context \<Rightarrow> faults \<Rightarrow> raw_event \<Rightarrow> parsed \<Rightarrow> database \<Rightarrow> database \<times> processed" where
  "process_one e ctx faults raw p db =
     (case faults (re_id raw) of
        Some P2002 \<Rightarrow> (db, Lost_race)
      | Some Other_fault \<Rightarrow> (db, Threw)
      | None \<Rightarrow>
          if already_done db (re_id raw) then (db, Skipped)
          else (case p of
              Recognised ev \<Rightarrow>
                (let (db1, effect) = applyEvent e db ctx ev
                       \<lparr>mt_txHash = re_txHash raw, mt_ledger = re_ledger raw\<rparr>
                 in (upsert_marker e db1 ctx raw (Some ev) (ar_attributed effect), Applied effect))
            | Unrecognised \<Rightarrow> (upsert_marker e db ctx raw None True, Applied nothing)
            | _ \<Rightarrow> (db, Threw)))"

record run_result =
  rr_processed :: nat
  rr_skipped :: nat
  rr_lastLedger :: int
  rr_paymentsCreated :: nat
  rr_paymentsPaid :: nat
  rr_findings :: nat
  rr_unattributed :: nat

definition no_result :: run_result where
  "no_result = \<lparr>rr_processed = 0, rr_skipped = 0, rr_lastLedger = 0, rr_paymentsCreated = 0,
     rr_paymentsPaid = 0, rr_findings = 0, rr_unattributed = 0\<rparr>"

definition count_effect :: "apply_result \<Rightarrow> run_result \<Rightarrow> run_result" where
  "count_effect a r = r\<lparr>rr_processed := rr_processed r + 1,
     rr_paymentsCreated := rr_paymentsCreated r + ar_paymentsCreated a,
     rr_paymentsPaid := rr_paymentsPaid r + ar_paymentsPaid a,
     rr_findings := rr_findings r + ar_findings a,
     rr_unattributed := (if ar_attributed a then rr_unattributed r else rr_unattributed r + 1)\<rparr>"

text \<open>How the loop ended: at the end, by the rethrown error, or by a parse that threw outside the try.\<close>

datatype ending = Completed | Stopped | Escaped

fun process_events ::
  "env \<Rightarrow> index_context \<Rightarrow> faults \<Rightarrow> raw_event list \<Rightarrow> database \<times> run_result \<times> int \<Rightarrow>
   database \<times> run_result \<times> int \<times> ending" where
  "process_events e ctx faults [] (db, r, committed) = (db, r, committed, Completed)"
| "process_events e ctx faults (raw # raws) (db, r, committed) =
     (let p = parseCoreFlowEvent (re_topic0 raw) (re_topic1 raw) (re_value raw) in
      if p = Syntax_error then (db, r, committed, Escaped)
      else let (db1, outcome) = process_one e ctx faults raw p db;
               committed1 = max committed (re_ledger raw);
               skipped = r\<lparr>rr_skipped := rr_skipped r + 1\<rparr>
        in case outcome of
             Skipped \<Rightarrow> process_events e ctx faults raws (db1, skipped, committed1)
           | Applied a \<Rightarrow> process_events e ctx faults raws (db1, count_effect a r, committed1)
           | Lost_race \<Rightarrow> process_events e ctx faults raws (db1, skipped, committed1)
           | Threw \<Rightarrow> (db1, r, committed, Stopped))"

definition event_order :: "(string \<Rightarrow> string \<Rightarrow> int) \<Rightarrow> raw_event \<Rightarrow> raw_event \<Rightarrow> int" where
  "event_order localeCompare a b =
     (if re_ledger a - re_ledger b \<noteq> 0 then re_ledger a - re_ledger b
      else localeCompare (re_id a) (re_id b))"

definition processBatch ::
  "env \<Rightarrow> (string \<Rightarrow> string \<Rightarrow> int) \<Rightarrow> index_context \<Rightarrow> faults \<Rightarrow> raw_event list \<Rightarrow> database \<Rightarrow>
   database \<times> run_result \<times> ending" where
  "processBatch e localeCompare ctx faults events db =
     (let (db1, r, committed, ending) =
            process_events e ctx faults (js_sort (event_order localeCompare) events) (db, no_result, 0)
      in if ending = Escaped then (db1, r, Escaped)
         else (if committed > 0 then setCursor db1 ctx committed else db1,
               r\<lparr>rr_lastLedger := committed\<rparr>, ending))"

section \<open>Replaying the unattributed events\<close>

record replay_result =
  rp_examined :: nat
  rp_applied :: nat
  rp_stillUnattributed :: nat
  rp_paymentsCreated :: nat
  rp_paymentsPaid :: nat

definition mark_attributed :: "string \<Rightarrow> bool \<Rightarrow> instant option \<Rightarrow> database \<Rightarrow> database" where
  "mark_attributed i b stamp db =
     db\<lparr>chainEvents := updated (\<lambda>c. ce_id c = i)
          (\<lambda>c. c\<lparr>ce_attributed := b, ce_processedAt := default_to stamp (ce_processedAt c)\<rparr>) (chainEvents db)\<rparr>"

text \<open>The loop; \<open>False\<close> says that a stored payload made \<open>BigInt\<close> throw, which ends the replay.\<close>

fun replay_rows ::
  "env \<Rightarrow> index_context \<Rightarrow> faults \<Rightarrow> chain_event_row list \<Rightarrow> database \<times> replay_result \<Rightarrow>
   database \<times> replay_result \<times> bool" where
  "replay_rows e ctx faults [] (db, out) = (db, out, True)"
| "replay_rows e ctx faults (row # rows) (db, out) =
     (case deserializePayload (ce_payload row) of
        Corrupt \<Rightarrow> (db, out, False)
      | Nothing_stored \<Rightarrow> replay_rows e ctx faults rows (mark_attributed (ce_id row) True None db, out)
      | Stored ev \<Rightarrow>
          if faults (ce_id row) \<noteq> None
          then replay_rows e ctx faults rows (db, out\<lparr>rp_stillUnattributed := rp_stillUnattributed out + 1\<rparr>)
          else let (db1, effect) = applyEvent e db ctx ev
                     \<lparr>mt_txHash = ce_txHash row, mt_ledger = ce_ledger row\<rparr>;
                   db2 = mark_attributed (ce_id row) (ar_attributed effect) (Some (now e)) db1
            in replay_rows e ctx faults rows (db2,
                 if ar_attributed effect
                 then out\<lparr>rp_applied := rp_applied out + 1,
                        rp_paymentsCreated := rp_paymentsCreated out + ar_paymentsCreated effect,
                        rp_paymentsPaid := rp_paymentsPaid out + ar_paymentsPaid effect\<rparr>
                 else out\<lparr>rp_stillUnattributed := rp_stillUnattributed out + 1\<rparr>))"

definition replayUnattributed ::
  "env \<Rightarrow> (string \<Rightarrow> string \<Rightarrow> int) \<Rightarrow> index_context \<Rightarrow> faults \<Rightarrow> nat option \<Rightarrow> database \<Rightarrow>
   database \<times> replay_result \<times> bool" where
  "replayUnattributed e collate ctx faults limit db =
     (let pending = take (default_to limit 1000)
            (js_sort (\<lambda>a b. if ce_ledger a - ce_ledger b \<noteq> 0 then ce_ledger a - ce_ledger b
                           else collate (ce_id a) (ce_id b))
              (filter (\<lambda>c. \<not> ce_attributed c \<and> ce_contractId c = Some (ix_contractId ctx) \<and>
                 ce_network c = ix_network ctx) (chainEvents db)))
      in replay_rows e ctx faults pending (db, \<lparr>rp_examined = length pending, rp_applied = 0,
           rp_stillUnattributed = 0, rp_paymentsCreated = 0, rp_paymentsPaid = 0\<rparr>))"

section \<open>A run against the RPC\<close>

definition LOOKBACK_LEDGERS :: int where
  "LOOKBACK_LEDGERS = 1000"

definition PAGE_LIMIT :: nat where
  "PAGE_LIMIT = 200"

definition start_ledger :: "database \<Rightarrow> index_context \<Rightarrow> int \<Rightarrow> int" where
  "start_ledger db ctx latest =
     (let cursor = getCursor db ctx
      in if cursor > 0 then cursor + 1 else max 1 (latest - LOOKBACK_LEDGERS))"

text \<open>
  \<open>fetch start limit\<close> is what \<open>getEvents\<close> returns for the contract. \<open>None\<close> is a run that ended
  with an exception; its database is the one the batch left.
\<close>

definition runIndexerFromRpc ::
  "env \<Rightarrow> (string \<Rightarrow> string \<Rightarrow> int) \<Rightarrow> (string \<Rightarrow> string \<Rightarrow> int) \<Rightarrow> index_context \<Rightarrow> faults \<Rightarrow> int \<Rightarrow>
   (int \<Rightarrow> nat \<Rightarrow> raw_event list) \<Rightarrow> database \<Rightarrow> database \<times> run_result option" where
  "runIndexerFromRpc e localeCompare collate ctx faults latest fetch db =
     (let events = fetch (start_ledger db ctx latest) PAGE_LIMIT;
          (db1, result, ending) = processBatch e localeCompare ctx faults events db
      in if ending \<noteq> Completed then (db1, None)
         else let (db2, replayed, ok) = replayUnattributed e collate ctx faults None db1
           in if \<not> ok then (db2, None)
              else (db2, Some (result
                \<lparr>rr_paymentsCreated := rr_paymentsCreated result + rp_paymentsCreated replayed,
                 rr_paymentsPaid := rr_paymentsPaid result + rp_paymentsPaid replayed,
                 rr_unattributed := rp_stillUnattributed replayed\<rparr>)))"

section \<open>Frame lemmas\<close>

text \<open>The tables no event touches, and the ones a step leaves alone.\<close>

definition same_logs :: "database \<Rightarrow> database \<Rightarrow> bool" where
  "same_logs db db' \<longleftrightarrow> chainEvents db' = chainEvents db \<and> cursors db' = cursors db \<and>
     organizations db' = organizations db \<and> users db' = users db \<and> members db' = members db \<and>
     projects db' = projects db \<and> approvals db' = approvals db \<and>
     transactions db' = transactions db \<and> invitations db' = invitations db \<and>
     serial db \<le> serial db'"

lemma same_logs_refl [simp]: "same_logs db db"
  by (simp add: same_logs_def)

lemma same_logs_trans: "same_logs a b \<Longrightarrow> same_logs b c \<Longrightarrow> same_logs a c"
  by (simp add: same_logs_def)

lemma transition_same_logs:
  assumes "applyTransition e db req = (db', out)"
  shows "same_logs db db'"
proof -
  have "serial db \<le> serial db'"
    using assms
    by (auto simp: applyTransition_def applyTransition_commit_def Let_def
        split: sum.splits prod.splits if_splits)
  then show ?thesis
    unfolding same_logs_def by (simp add: applyTransition_keeps[OF assms])
qed

lemma update_escrow_simps [simp]:
  "payments (update_escrow i f db) = payments db"
  "same_logs db (update_escrow i f db)"
  by (simp_all add: update_escrow_def same_logs_def)

lemma openFinding_simps [simp]:
  "payments (openFinding e db a b c d f g) = payments db"
  "escrows (openFinding e db a b c d f g) = escrows db"
  "same_logs db (openFinding e db a b c d f g)"
  by (simp_all add: openFinding_def same_logs_def)

lemma indexer_audit_simps [simp]:
  "payments (indexer_audit e db a b c d f g h i j) = payments db"
  "escrows (indexer_audit e db a b c d f g h i j) = escrows db"
  "same_logs db (indexer_audit e db a b c d f g h i j)"
  by (simp_all add: indexer_audit_def same_logs_def)

lemma ensureEscrow_keeps:
  "ensureEscrow e db ctx o' i patch = (db', x) \<Longrightarrow> payments db' = payments db \<and> same_logs db db'"
  by (auto simp: ensureEscrow_def update_escrow_def same_logs_def Let_def split: option.splits)

lemma ensureBatch_keeps:
  "ensureBatch e db o' i = (db', x) \<Longrightarrow>
   payments db' = payments db \<and> escrows db' = escrows db \<and> same_logs db db'"
  by (auto simp: ensureBatch_def same_logs_def Let_def split: option.splits)

lemma ensureWorker_keeps:
  "ensureWorker e db o' w = (db', x) \<Longrightarrow>
   payments db' = payments db \<and> escrows db' = escrows db \<and> same_logs db db'"
  by (auto simp: ensureWorker_def same_logs_def Let_def split: option.splits)

lemma fold_audit_simps [simp]:
  "payments (fold (\<lambda>p db. indexer_audit e db a b (c p) d f g h i j) ps db) = payments db"
  "escrows (fold (\<lambda>p db. indexer_audit e db a b (c p) d f g h i j) ps db) = escrows db"
  "same_logs db (fold (\<lambda>p db. indexer_audit e db a b (c p) d f g h i j) ps db)"
proof -
  show "payments (fold (\<lambda>p db. indexer_audit e db a b (c p) d f g h i j) ps db) = payments db"
    "escrows (fold (\<lambda>p db. indexer_audit e db a b (c p) d f g h i j) ps db) = escrows db"
    by (induction ps arbitrary: db) simp_all
  show "same_logs db (fold (\<lambda>p db. indexer_audit e db a b (c p) d f g h i j) ps db)"
  proof (induction ps arbitrary: db)
    case (Cons p ps)
    show ?case
      using same_logs_trans[OF indexer_audit_simps(3) Cons.IH, of db e a b "c p" d f g h i j] by simp
  qed simp
qed

lemma find_escrow_Some: "find_escrow db i = Some x \<Longrightarrow> x \<in> set (escrows db) \<and> es_onChainId x = Some i"
  by (auto simp: find_escrow_def dest: findFirst_SomeD)

lemma find_slot_Some:
  "find_slot db x i = Some p \<Longrightarrow>
   p \<in> set (payments db) \<and> pm_escrowId p = Some x \<and> pm_onChainPaymentIndex p = Some i"
  by (auto simp: find_slot_def dest: findFirst_SomeD)

section \<open>What an event does to settled payments\<close>

text \<open>
  \<open>settles db db' P\<close>: every settled row of \<open>db\<close> is in \<open>db'\<close>, and a settled row of \<open>db'\<close> that is
  not in \<open>db\<close> satisfies \<open>P\<close>.
\<close>

definition settles :: "database \<Rightarrow> database \<Rightarrow> (payment_row \<Rightarrow> bool) \<Rightarrow> bool" where
  "settles db db' P \<longleftrightarrow>
     (\<forall>q \<in> set (payments db). pm_state q = PAID \<longrightarrow> q \<in> set (payments db')) \<and>
     (\<forall>q \<in> set (payments db'). pm_state q = PAID \<longrightarrow> q \<in> set (payments db) \<or> P q)"

lemma settles_same: "payments db' = payments db \<Longrightarrow> settles db db' P"
  by (simp add: settles_def)

lemma settles_updated:
  assumes "payments db' = updated Q f (payments db)"
    and "\<And>q. Q q \<Longrightarrow> pm_state q \<noteq> PAID" and "\<And>q. pm_state (f q) \<noteq> PAID"
  shows "settles db db' P"
  unfolding settles_def assms(1)
proof (intro conjI ballI impI)
  fix q assume "q \<in> set (payments db)" "pm_state q = PAID"
  moreover have "\<not> Q q" using assms(2) \<open>pm_state q = PAID\<close> by blast
  ultimately show "q \<in> set (updated Q f (payments db))" by (force simp: set_updated)
next
  fix q assume "q \<in> set (updated Q f (payments db))" "pm_state q = PAID"
  then show "q \<in> set (payments db) \<or> P q" using assms(3) by (auto simp: set_updated split: if_splits)
qed

lemma settles_trans:
  "settles a b P \<Longrightarrow> settles b c P \<Longrightarrow> settles a c P"
  by (auto simp: settles_def)

lemma settles_transition:
  assumes "applyTransition e db req = (db', out)"
    and "\<And>p. p \<in> set (payments db) \<Longrightarrow> pm_id p = rq_paymentId req \<Longrightarrow> rq_to req = PAID \<Longrightarrow>
      allowed (pm_state p) PAID (rq_actor req) \<Longrightarrow> P (set_state e req p)"
    and unique: "distinct (map pm_id (payments db))"
  shows "settles db db' P"
proof (cases "\<exists>f t. out = Changed f t")
  case False
  then show ?thesis using applyTransition_other[OF assms(1)] by (simp add: settles_same)
next
  case True
  then obtain f t where "applyTransition e db req = (db', Changed f t)" using assms(1) by blast
  then obtain p tr where read: "applyTransition_read db req = Inr (p, tr)"
    and commit: "applyTransition_commit e db req p = (db', Changed f t)"
    by (rule applyTransition_Changed)
  note r = read_Inr[OF read]
  have "\<not> isTerminal (pm_state p)"
    using r payments.terminal_refuses by blast
  have f: "f = pm_state p" using commit_changed[OF commit] by blast
  have rows: "payments db' = updated (\<lambda>q. pm_id q = pm_id p \<and> pm_orgId q = rq_orgId req \<and>
      pm_state q = f) (set_state e req) (payments db)"
    using commit_changed[OF commit] by blast
  show ?thesis
    unfolding settles_def rows
  proof (intro conjI ballI impI)
    fix q assume q: "q \<in> set (payments db)" "pm_state q = PAID"
    then have "pm_state q \<noteq> f" using f \<open>\<not> isTerminal (pm_state p)\<close> by auto
    then show "q \<in> set (updated (\<lambda>q. pm_id q = pm_id p \<and> pm_orgId q = rq_orgId req \<and>
        pm_state q = f) (set_state e req) (payments db))"
      using q(1) by (force simp: set_updated)
  next
    fix q assume q: "q \<in> set (updated (\<lambda>q. pm_id q = pm_id p \<and> pm_orgId q = rq_orgId req \<and>
        pm_state q = f) (set_state e req) (payments db))" "pm_state q = PAID"
    then obtain x where x: "x \<in> set (payments db)"
      "q = (if pm_id x = pm_id p \<and> pm_orgId x = rq_orgId req \<and> pm_state x = f
            then set_state e req x else x)"
      unfolding set_updated by blast
    show "q \<in> set (payments db) \<or> P q"
    proof (cases "pm_id x = pm_id p \<and> pm_orgId x = rq_orgId req \<and> pm_state x = f")
      case True
      then have "x = p" using unique x(1) r by (auto simp: distinct_map inj_on_def)
      then show ?thesis using True x q(2) r assms(2)[of p] by simp
    qed (use x in auto)
  qed
qed

text \<open>The row \<open>q\<close> is the payment an event settles, moved from a state that permits it.\<close>

definition settled_by :: "database \<Rightarrow> coreflow_event \<Rightarrow> payment_row \<Rightarrow> bool" where
  "settled_by db ev q \<longleftrightarrow> event_kind ev = ''payment_paid'' \<and>
     (\<exists>p \<in> set (payments db). \<exists>x \<in> set (escrows db). pm_id q = pm_id p \<and>
        pm_escrowId p = Some (es_id x) \<and> es_onChainId x = Some (ev_escrowId ev) \<and>
        pm_onChainPaymentIndex p = paymentIndexOf ev \<and> allowed (pm_state p) PAID INDEXER_ACTOR \<and>
        pm_escrowId q = pm_escrowId p \<and> pm_onChainPaymentIndex q = pm_onChainPaymentIndex p \<and>
        pm_amountBaseUnits q = pm_amountBaseUnits p \<and> pm_recipientAddress q = pm_recipientAddress p)"

lemma created_frame:
  "apply_created e db ctx o' i m a = (db', r) \<Longrightarrow> payments db' = payments db \<and> same_logs db db'"
  by (auto simp: apply_created_def Let_def split: prod.splits
      dest!: ensureEscrow_keeps ensureBatch_keeps intro: same_logs_trans)

lemma added_again_settles:
  assumes "payment_added_again e db o' i idx w a x = (db', r)" and "distinct (map pm_id (payments db))"
  shows "settles db db' P \<and> same_logs db db'"
proof -
  let ?req = "indexer_request (pm_id x) o' AWAITING_ORACLE None None None"
  define db1 where "db1 = (if pm_amountBaseUnits x \<noteq> a \<or> pm_recipientAddress x \<noteq> w
      then openFinding e db o' (Some (pm_id x)) AMOUNT_MISMATCH
        (Some (pm_recipientAddress x @ CHR '':'' # show_int (pm_amountBaseUnits x)))
        (Some (w @ CHR '':'' # show_int a)) [(''escrowId'', JNum i), (''paymentIndex'', JNum idx)]
      else db)"
  have db1: "payments db1 = payments db" "same_logs db db1"
    "db' = db1 \<or> (\<exists>out. applyTransition e db1 ?req = (db', out))"
    using assms(1)
    by (auto simp: payment_added_again_def db1_def[symmetric] Let_def split: if_splits prod.splits)
      (simp_all add: db1_def)
  have "settles db1 db' P \<and> same_logs db1 db'"
    using db1(3)
  proof
    assume "\<exists>out. applyTransition e db1 ?req = (db', out)"
    then obtain out where t: "applyTransition e db1 ?req = (db', out)" by blast
    show ?thesis
      using settles_transition[OF t, of P] transition_same_logs[OF t] assms(2) db1(1)
      by (simp add: indexer_request_def)
  qed (simp add: settles_same)
  then show ?thesis
    using settles_trans[OF settles_same[OF db1(1)]] same_logs_trans[OF db1(2)] by blast
qed

lemma added_settles:
  assumes "apply_payment_added e db ctx o' meta i idx w t a rt s f = (db', r)"
    and "distinct (map pm_id (payments db))"
  shows "settles db db' P \<and> same_logs db db'"
proof -
  obtain db1 x where s1: "ensureEscrow e db ctx o' i None = (db1, x)" by fastforce
  obtain db2 b where s2: "ensureBatch e db1 o' i = (db2, b)" by fastforce
  obtain db3 wk where s3: "ensureWorker e db2 o' w = (db3, wk)" by fastforce
  have keep: "payments db3 = payments db" "same_logs db db3"
    using ensureEscrow_keeps[OF s1] ensureBatch_keeps[OF s2] ensureWorker_keeps[OF s3]
    by (auto intro: same_logs_trans)
  show ?thesis
  proof (cases "find_slot db3 (es_id x) idx")
    case (Some p)
    then have "payment_added_again e db3 o' i idx w a p = (db', r)"
      using assms(1) s1 s2 s3 by (simp add: apply_payment_added_def)
    from added_again_settles[OF this, of P] show ?thesis
      using keep assms(2) by (auto simp: settles_def intro: same_logs_trans)
  next
    case None
    then obtain row where "payments db' = payments db3 @ [row]" "pm_state row = AWAITING_ORACLE"
      and "same_logs db3 db'"
      using assms(1) s1 s2 s3
      by (auto simp: apply_payment_added_def Let_def same_logs_def indexer_audit_def)
    then show ?thesis using keep by (auto simp: settles_def intro: same_logs_trans)
  qed
qed

lemma hours_rows:
  assumes "apply_hours e db o' meta i idx h = (db', r)"
  shows "db' = db \<or> (\<exists>k. payments db' = updated (\<lambda>q. pm_id q = k \<and> pm_state q = AWAITING_ORACLE)
      (verified e h) (payments db)
      \<and> same_logs db db' \<and> escrows db' = escrows db)"
proof (cases "\<exists>x p. find_escrow db i = Some x \<and> find_slot db (es_id x) idx = Some p")
  case True
  then obtain x p where xp: "find_escrow db i = Some x" "find_slot db (es_id x) idx = Some p" by blast
  have "payments db' = updated (\<lambda>q. pm_id q = pm_id p \<and> pm_state q = AWAITING_ORACLE)
      (verified e h) (payments db)"
    "same_logs db db'" "escrows db' = escrows db"
    using assms xp by (auto simp: apply_hours_def Let_def same_logs_def indexer_audit_def)
  then show ?thesis by blast
next
  case False
  then show ?thesis using assms by (auto simp: apply_hours_def split: option.splits)
qed

lemma hours_settles:
  assumes "apply_hours e db o' meta i idx h = (db', r)"
  shows "settles db db' P \<and> same_logs db db'"
proof (cases "db' = db")
  case False
  then obtain k where rows: "payments db' = updated (\<lambda>q. pm_id q = k \<and> pm_state q = AWAITING_ORACLE)
      (verified e h) (payments db)" and logs: "same_logs db db'"
    using hours_rows[OF assms] by blast
  have "settles db db' P"
    using rows by (rule settles_updated) (auto simp: verified_def)
  then show ?thesis using logs by blast
qed (simp add: settles_same)

lemma move_all_settles:
  assumes "payments db' = move_all e x S t (payments db)" and "PAID \<notin> set S" and "t \<noteq> PAID"
  shows "settles db db' P"
  using assms(1) unfolding move_all_def by (rule settles_updated) (use assms(2,3) in auto)

lemma approved_settles:
  assumes "apply_approved e db o' meta i m = (db', r)"
  shows "settles db db' P \<and> same_logs db db'"
proof (cases "find_escrow db i")
  case None
  then show ?thesis using assms by (simp add: apply_approved_def settles_same)
next
  case (Some x)
  let ?w = "if m then AWAITING_MANAGER else AWAITING_FINANCE"
  let ?n = "if m then AWAITING_FINANCE else READY_TO_SETTLE"
  let ?mid = "db\<lparr>payments := move_all e (es_id x) [ORACLE_VERIFIED] AWAITING_MANAGER (payments db)\<rparr>"
  have rows: "payments db' = move_all e (es_id x) [?w] ?n (payments ?mid)"
    using assms Some by (auto simp: apply_approved_def Let_def)
  have "settles db ?mid P"
    by (rule move_all_settles[where e = e and x = "es_id x" and S = "[ORACLE_VERIFIED]"
        and t = AWAITING_MANAGER]) simp_all
  moreover have "settles ?mid db' P"
    by (rule move_all_settles[OF rows]) simp_all
  moreover have "same_logs db db'"
  proof -
    have "same_logs db (update_escrow (es_id x) g db\<lparr>payments := ps\<rparr>)" for g ps
      by (simp add: same_logs_def update_escrow_def)
    then show ?thesis
      using assms Some
      by (auto simp: apply_approved_def Let_def intro!: same_logs_trans[OF _ fold_audit_simps(3)])
  qed
  ultimately show ?thesis using settles_trans by blast
qed

lemma settlement_findings_keeps:
  assumes "settlement_findings e db o' w a p = (db', n)"
  shows "payments db' = payments db \<and> escrows db' = escrows db \<and> same_logs db db'"
proof -
  have "same_logs db (openFinding e (openFinding e db a1 b1 c1 d1 f1 g1) a2 b2 c2 d2 f2 g2)"
    for a1 b1 c1 d1 f1 g1 a2 b2 c2 d2 f2 g2
    by (rule same_logs_trans[OF openFinding_simps(3) openFinding_simps(3)])
  then show ?thesis
    using assms by (auto simp: settlement_findings_def Let_def split: if_splits)
qed

lemma paid_request_simps [simp]:
  "rq_paymentId (paid_request o' p meta i idx a h) = pm_id p"
  "rq_to (paid_request o' p meta i idx a h) = PAID"
  "rq_actor (paid_request o' p meta i idx a h) = INDEXER_ACTOR"
  "rq_orgId (paid_request o' p meta i idx a h) = o'"
  by (simp_all add: paid_request_def indexer_request_def)

text \<open>What is left of a settlement event: nothing but findings, or one transition to \<open>PAID\<close>.\<close>

lemma paid_steps:
  assumes "apply_payment_paid e db o' meta i idx w a h = (db', r)"
  shows "payments db' = payments db \<and> same_logs db db'
    \<or> (\<exists>x p db2 db3 out. find_escrow db i = Some x \<and> find_slot db (es_id x) idx = Some p \<and>
         payments db2 = payments db \<and> same_logs db db2 \<and>
         applyTransition e db2 (paid_request o' p meta i idx a h) = (db3, out) \<and>
         payments db' = payments db3 \<and> same_logs db3 db')"
proof (cases "find_escrow db i")
  case None
  then show ?thesis using assms by (simp add: apply_payment_paid_def)
next
  case (Some x)
  show ?thesis
  proof (cases "find_slot db (es_id x) idx")
    case None
    then show ?thesis using assms Some by (auto simp: apply_payment_paid_def)
  next
    case slot: (Some p)
    obtain db2 n where f: "settlement_findings e db o' w a p = (db2, n)" by fastforce
    note keep = settlement_findings_keeps[OF f]
    show ?thesis
    proof (cases "pm_state p = PAID")
      case True
      then show ?thesis using assms Some slot f keep by (simp add: apply_payment_paid_def)
    next
      case False
      obtain db3 out where t: "applyTransition e db2 (paid_request o' p meta i idx a h) = (db3, out)"
        by fastforce
      then have "payments db' = payments db3 \<and> same_logs db3 db'"
        using assms Some slot f False by (cases out) (auto simp: apply_payment_paid_def)
      then show ?thesis using Some slot t keep by blast
    qed
  qed
qed

lemma paid_settles:
  assumes "apply_payment_paid e db o' meta i idx w a h = (db', r)"
    and "distinct (map pm_id (payments db))"
  shows "settles db db' (settled_by db (PaymentPaid i idx w t a h)) \<and> same_logs db db'"
  using paid_steps[OF assms(1)]
proof (elim disjE exE conjE)
  fix x p db2 db3 out
  assume x: "find_escrow db i = Some x" and p: "find_slot db (es_id x) idx = Some p"
    and db2: "payments db2 = payments db" "same_logs db db2"
    and step: "applyTransition e db2 (paid_request o' p meta i idx a h) = (db3, out)"
    and db': "payments db' = payments db3" "same_logs db3 db'"
  note ps = find_slot_Some[OF p] and xs = find_escrow_Some[OF x]
  have "settles db2 db3 (settled_by db (PaymentPaid i idx w t a h))"
  proof (rule settles_transition[OF step])
    fix q assume q: "q \<in> set (payments db2)" "pm_id q = rq_paymentId (paid_request o' p meta i idx a h)"
      "allowed (pm_state q) PAID (rq_actor (paid_request o' p meta i idx a h))"
    then have "q = p" using ps assms(2) db2(1) by (auto simp: distinct_map inj_on_def)
    then show "settled_by db (PaymentPaid i idx w t a h)
        (set_state e (paid_request o' p meta i idx a h) q)"
      unfolding settled_by_def using q(3) ps xs
      by (intro conjI bexI[of _ p] bexI[of _ x]) (auto simp: event_kind_def paymentIndexOf_def)
  qed (use assms(2) db2(1) in simp)
  then have "settles db db' (settled_by db (PaymentPaid i idx w t a h))"
    using db2(1) db'(1) by (simp add: settles_def)
  then show ?thesis
    using db2(2) db'(2) transition_same_logs[OF step] by (blast intro: same_logs_trans)
qed (simp add: settles_same)

lemma cancelled_settles:
  assumes "apply_payment_cancelled e db o' meta i idx = (db', r)"
    and "distinct (map pm_id (payments db))"
  shows "settles db db' P \<and> same_logs db db'"
proof (cases "payments db' = payments db \<and> same_logs db db'")
  case False
  let ?req = "\<lambda>k. indexer_request k o' CANCELLED
    (Some ''Escrow cancelled on-chain; custody refunded.'') (mt_txHash meta)
    (Some [(''ledger'', JNum (mt_ledger meta))])"
  obtain k where "db' = fst (applyTransition e db (?req k))"
    using assms(1) False by (auto simp: apply_payment_cancelled_def split: option.splits if_splits)
  then obtain out where step: "applyTransition e db (?req k) = (db', out)"
    by (cases "applyTransition e db (?req k)") simp
  show ?thesis
    using settles_transition[OF step, of P] transition_same_logs[OF step] assms(2)
    by (simp add: indexer_request_def)
qed (simp add: settles_same)

lemma rotated_settles:
  assumes "apply_oracle_rotated e db i n = (db', r)"
  shows "settles db db' P \<and> same_logs db db'"
proof (cases "find_escrow db i")
  case None
  then show ?thesis using assms by (simp add: apply_oracle_rotated_def settles_same)
next
  case (Some x)
  then have "payments db' = updated
      (\<lambda>p. pm_escrowId p = Some (es_id x) \<and> pm_state p \<in> set revoked_states)
      (revoked e) (payments db)"
    and logs: "same_logs db db'"
    using assms by (auto simp: apply_oracle_rotated_def Let_def same_logs_def update_escrow_def)
  from this(1) have "settles db db' P"
    by (rule settles_updated) (auto simp: revoked_states_def revoked_def)
  then show ?thesis using logs by blast
qed

lemma added_again_logs: "payment_added_again e db o' i idx w a x = (db', r) \<Longrightarrow> same_logs db db'"
  by (auto simp: payment_added_again_def Let_def split: if_splits prod.splits
      dest!: transition_same_logs intro: same_logs_trans[OF openFinding_simps(3)])

lemma added_logs:
  assumes "apply_payment_added e db ctx o' meta i idx w t a rt s f = (db', r)"
  shows "same_logs db db'"
proof -
  obtain db1 x where s1: "ensureEscrow e db ctx o' i None = (db1, x)" by fastforce
  obtain db2 b where s2: "ensureBatch e db1 o' i = (db2, b)" by fastforce
  obtain db3 wk where s3: "ensureWorker e db2 o' w = (db3, wk)" by fastforce
  have "same_logs db db3"
    using ensureEscrow_keeps[OF s1] ensureBatch_keeps[OF s2] ensureWorker_keeps[OF s3]
    by (auto intro: same_logs_trans)
  moreover have "same_logs db3 db'"
    using assms s1 s2 s3
    by (auto simp: apply_payment_added_def Let_def same_logs_def indexer_audit_def
        split: option.splits dest!: added_again_logs)
  ultimately show ?thesis by (rule same_logs_trans)
qed

lemma cancelled_logs:
  assumes "apply_payment_cancelled e db o' meta i idx = (db', r)"
  shows "same_logs db db'"
proof -
  have "same_logs db (fst (applyTransition e db req))" for req
    by (rule transition_same_logs[OF surjective_pairing])
  then show ?thesis
    using assms by (auto simp: apply_payment_cancelled_def split: option.splits if_splits)
qed

lemma applyEvent_same_logs:
  assumes "applyEvent e db ctx ev meta = (db', r)"
  shows "same_logs db db'"
proof (cases "resolveEscrowTenant db ctx (ev_escrowId ev)")
  case None
  then show ?thesis using assms by (simp add: applyEvent_def)
next
  case (Some tenant)
  show ?thesis
  proof (cases ev)
    case (Created i m a)
    then show ?thesis using assms Some created_frame by (fastforce simp: applyEvent_def)
  next
    case (PaymentPaid i idx w t a h)
    then have "apply_payment_paid e db (es_orgId tenant) meta i idx w a h = (db', r)"
      using assms Some by (simp add: applyEvent_def)
    from paid_steps[OF this] show ?thesis
      by (auto dest!: transition_same_logs intro: same_logs_trans)
  next
    case (EscrowCancelled i)
    then show ?thesis
      using assms Some by (auto simp: applyEvent_def apply_cancelled_def split: option.splits)
  next
    case (Finalized i a n)
    then show ?thesis
      using assms Some
      by (auto simp: applyEvent_def apply_finalized_def Let_def split: option.splits if_splits)
  qed (use assms Some added_logs hours_settles approved_settles cancelled_logs rotated_settles in
      \<open>simp_all add: applyEvent_def\<close>)
qed

lemma applyEvent_settles:
  assumes "applyEvent e db ctx ev meta = (db', r)" and "distinct (map pm_id (payments db))"
  shows "settles db db' (settled_by db ev) \<and> same_logs db db'"
proof (cases "resolveEscrowTenant db ctx (ev_escrowId ev)")
  case None
  then show ?thesis using assms by (simp add: applyEvent_def settles_same)
next
  case (Some tenant)
  show ?thesis
  proof (cases ev)
    case (Created i m a)
    then show ?thesis
      using assms Some created_frame by (fastforce simp: applyEvent_def settles_same)
  next
    case (PaymentAdded i idx w t a rt s f)
    then show ?thesis using assms Some added_settles by (simp add: applyEvent_def)
  next
    case (PaymentPaid i idx w t a h)
    then show ?thesis using assms Some paid_settles by (simp add: applyEvent_def)
  next
    case (EscrowCancelled i)
    then show ?thesis
      using assms Some
      by (auto simp: applyEvent_def apply_cancelled_def settles_same split: option.splits)
  next
    case (Finalized i a n)
    then show ?thesis
      using assms Some
      by (auto simp: applyEvent_def apply_finalized_def settles_same Let_def
          split: option.splits if_splits)
  qed (use assms Some hours_settles approved_settles cancelled_settles rotated_settles in
      \<open>simp_all add: applyEvent_def\<close>)
qed

section \<open>What an event does to the identity of payments\<close>

text \<open>The keys of the schema: unique row ids and escrow numbers, and payments owned with their escrow.\<close>

definition keys_ok :: "database \<Rightarrow> bool" where
  "keys_ok db \<longleftrightarrow> distinct (map pm_id (payments db)) \<and> distinct (map es_id (escrows db)) \<and>
     (\<forall>x \<in> set (escrows db). \<forall>y \<in> set (escrows db).
        es_onChainId x \<noteq> None \<longrightarrow> es_onChainId x = es_onChainId y \<longrightarrow> x = y) \<and>
     (\<forall>p \<in> set (payments db). \<forall>x \<in> set (escrows db).
        pm_escrowId p = Some (es_id x) \<longrightarrow> pm_orgId p = es_orgId x)"

lemma tenant_escrow:
  assumes "keys_ok db" and "resolveEscrowTenant db ctx i = Some x"
  shows "find_escrow db i = Some x"
proof -
  have x: "x \<in> set (escrows db)" "es_onChainId x = Some i"
    using assms(2) by (auto simp: resolveEscrowTenant_def dest: findFirst_SomeD)
  obtain y where y: "find_escrow db i = Some y"
    using x by (cases "find_escrow db i") (auto simp: find_escrow_def)
  then have "y = x"
    using assms(1) x find_escrow_Some[OF y] unfolding keys_ok_def by (metis option.distinct(1))
  then show ?thesis using y by simp
qed

text \<open>
  The financial identity of a payment: its row, its owner, its slot on the chain, who is paid and
  how much. \<open>grows e db db'\<close>: the identities are the same, in the same order, or there is one more
  at the end, with a new key, in a slot that was free of an escrow of the organization that owns it.
\<close>

type_synonym identity = "row_id \<times> row_id \<times> row_id option \<times> int option \<times> address \<times> base_units"

definition identity :: "payment_row \<Rightarrow> identity" where
  "identity p = (pm_id p, pm_orgId p, pm_escrowId p, pm_onChainPaymentIndex p, pm_recipientAddress p,
     pm_amountBaseUnits p)"

definition slot :: "payment_row \<Rightarrow> row_id option \<times> int option" where
  "slot p = (pm_escrowId p, pm_onChainPaymentIndex p)"

definition grows :: "env \<Rightarrow> database \<Rightarrow> database \<Rightarrow> bool" where
  "grows e db db' \<longleftrightarrow> map identity (payments db') = map identity (payments db) \<or>
     (\<exists>q n. map identity (payments db') = map identity (payments db) @ [identity q] \<and>
        slot q \<notin> slot ` set (payments db) \<and>
        pm_id q = cuid e n \<and> serial db \<le> n \<and> n < serial db' \<and>
        (\<exists>x \<in> set (escrows db). pm_escrowId q = Some (es_id x) \<and> pm_orgId q = es_orgId x))"

lemma identity_simps [simp]:
  "identity (set_state e req p) = identity p"
  "identity (verified e h p) = identity p"
  "identity (revoked e p) = identity p"
  "identity (p\<lparr>pm_state := t, pm_stateUpdatedAt := n\<rparr>) = identity p"
  by (simp_all add: identity_def verified_def revoked_def set_state_def Let_def)

lemma grows_map: "map identity (payments db') = map identity (payments db) \<Longrightarrow> grows e db db'"
  by (simp add: grows_def)

lemma transition_identity:
  "applyTransition e db req = (db', out) \<Longrightarrow>
   map identity (payments db') = map identity (payments db)"
  by (rule transition_map) simp_all

lemma move_all_identity [simp]: "map identity (move_all e x S t ps) = map identity ps"
  unfolding move_all_def by (rule map_updated) simp

lemma applyEvent_grows:
  assumes "applyEvent e db ctx ev meta = (db', r)" and keys: "keys_ok db"
  shows "grows e db db'"
proof (cases "resolveEscrowTenant db ctx (ev_escrowId ev)")
  case None
  then show ?thesis using assms by (simp add: applyEvent_def grows_def)
next
  case tenant: (Some tenant)
  let ?o = "es_orgId tenant"
  show ?thesis
  proof (cases ev)
    case (Created i m a)
    then have "payments db' = payments db"
      using assms tenant created_frame by (fastforce simp: applyEvent_def)
    then show ?thesis by (simp add: grows_def)
  next
    case (PaymentAdded i idx w t a rt s f)
    have x: "find_escrow db i = Some tenant"
      using tenant_escrow[OF keys tenant] PaymentAdded by simp
    then have s1: "ensureEscrow e db ctx ?o i None = (db, tenant)" by (simp add: ensureEscrow_def)
    obtain db2 b where s2: "ensureBatch e db ?o i = (db2, b)" by fastforce
    obtain db3 wk where s3: "ensureWorker e db2 ?o w = (db3, wk)" by fastforce
    have keep: "payments db3 = payments db" "serial db \<le> serial db3"
      using ensureBatch_keeps[OF s2] ensureWorker_keeps[OF s3] by (auto simp: same_logs_def)
    show ?thesis
    proof (cases "find_slot db3 (es_id tenant) idx")
      case (Some p)
      then have "payment_added_again e db3 ?o i idx w a p = (db', r)"
        using assms tenant PaymentAdded s1 s2 s3 by (simp add: applyEvent_def apply_payment_added_def)
      then have "map identity (payments db') = map identity (payments db3)"
        by (auto simp: payment_added_again_def Let_def split: if_splits prod.splits
            dest!: transition_identity)
      then show ?thesis using keep by (simp add: grows_def)
    next
      case None
      then obtain row where row: "payments db' = payments db3 @ [row]"
        "slot row = (Some (es_id tenant), Some idx)" "pm_id row = cuid e (serial db3)"
        "pm_orgId row = es_orgId tenant" "serial db' = Suc (Suc (serial db3))"
        using assms tenant PaymentAdded s1 s2 s3
        by (auto simp: applyEvent_def apply_payment_added_def Let_def slot_def new_id_def
            indexer_audit_def)
      have "slot row \<notin> slot ` set (payments db3)"
        using None row(2) by (auto simp: find_slot_def slot_def)
      moreover have "\<exists>x \<in> set (escrows db). pm_escrowId row = Some (es_id x) \<and> pm_orgId row = es_orgId x"
        using find_escrow_Some[OF x] row by (auto simp: slot_def)
      ultimately show ?thesis
        unfolding grows_def
        by (intro disjI2 exI[of _ row] exI[of _ "serial db3"]) (simp add: row keep)
    qed
  next
    case (Hours i idx h)
    then have "apply_hours e db ?o meta i idx h = (db', r)"
      using assms tenant by (simp add: applyEvent_def)
    from hours_rows[OF this] have "map identity (payments db') = map identity (payments db)"
      by (auto simp: map_updated)
    then show ?thesis by (rule grows_map)
  next
    case (ManagerApproved i)
    then have "map identity (payments db') = map identity (payments db)"
      using assms tenant
      by (auto simp: applyEvent_def apply_approved_def Let_def split: option.splits)
    then show ?thesis by (rule grows_map)
  next
    case (FinanceApproved i)
    then have "map identity (payments db') = map identity (payments db)"
      using assms tenant
      by (auto simp: applyEvent_def apply_approved_def Let_def split: option.splits)
    then show ?thesis by (rule grows_map)
  next
    case (PaymentPaid i idx w t a h)
    then have "apply_payment_paid e db ?o meta i idx w a h = (db', r)"
      using assms tenant by (simp add: applyEvent_def)
    from paid_steps[OF this] have "map identity (payments db') = map identity (payments db)"
      by (auto dest!: transition_identity)
    then show ?thesis by (rule grows_map)
  next
    case (PaymentCancelled i idx)
    have "map identity (payments (fst (applyTransition e db req))) = map identity (payments db)" for req
      by (rule transition_identity[OF surjective_pairing])
    then have "map identity (payments db') = map identity (payments db)"
      using assms tenant PaymentCancelled
      by (auto simp: applyEvent_def apply_payment_cancelled_def Let_def split: option.splits if_splits)
    then show ?thesis by (rule grows_map)
  next
    case (Finalized i a n)
    then have "payments db' = payments db"
      using assms tenant
      by (auto simp: applyEvent_def apply_finalized_def Let_def split: option.splits if_splits)
    then show ?thesis by (simp add: grows_def)
  next
    case (EscrowCancelled i)
    then have "payments db' = payments db"
      using assms tenant by (auto simp: applyEvent_def apply_cancelled_def split: option.splits)
    then show ?thesis by (simp add: grows_def)
  next
    case (OracleRotated i n)
    then have "map identity (payments db') = map identity (payments db)"
      using assms tenant
      by (auto simp: applyEvent_def apply_oracle_rotated_def Let_def map_updated split: option.splits)
    then show ?thesis by (rule grows_map)
  qed
qed

section \<open>What an event does to other tenants\<close>

lemma foreign_escrow:
  assumes "keys_ok db" and "x \<in> set (escrows db)" and "\<And>y. es_orgId (f y) = es_orgId y"
  shows "foreign_view (es_orgId x) (update_escrow (es_id x) f db) = foreign_view (es_orgId x) db"
proof -
  have "filter (\<lambda>r. es_orgId r \<noteq> es_orgId x) (updated (\<lambda>y. es_id y = es_id x) f (escrows db))
      = filter (\<lambda>r. es_orgId r \<noteq> es_orgId x) (escrows db)"
    using assms by (intro filter_updated) (auto simp: keys_ok_def distinct_map inj_on_def)
  then show ?thesis by (simp add: foreign_view_def update_escrow_def)
qed

lemma foreign_payments:
  assumes "\<And>q. q \<in> set (payments db) \<Longrightarrow> Q q \<Longrightarrow> pm_orgId q = o'" and "\<And>q. pm_orgId (f q) = pm_orgId q"
  shows "foreign_view o' (db\<lparr>payments := updated Q f (payments db)\<rparr>) = foreign_view o' db"
proof -
  have "filter (\<lambda>r. pm_orgId r \<noteq> o') (updated Q f (payments db)) = filter (\<lambda>r. pm_orgId r \<noteq> o') (payments db)"
    using assms by (intro filter_updated) auto
  then show ?thesis by (simp add: foreign_view_def)
qed

lemma foreign_audit [simp]:
  "foreign_view o' (indexer_audit e db o' b c d f g h i j) = foreign_view o' db"
  by (simp add: foreign_view_def indexer_audit_def)

lemma foreign_finding [simp]:
  "foreign_view o' (openFinding e db o' b c d f g) = foreign_view o' db"
  by (simp add: foreign_view_def openFinding_def)

lemma foreign_fold_audit [simp]:
  "foreign_view o' (fold (\<lambda>p db. indexer_audit e db o' b (c p) d f g h i j) ps db) = foreign_view o' db"
  by (induction ps arbitrary: db) simp_all

lemma foreign_batch: "ensureBatch e db o' i = (db', b) \<Longrightarrow> foreign_view o' db' = foreign_view o' db"
  by (auto simp: ensureBatch_def foreign_view_def Let_def split: option.splits)

lemma foreign_worker: "ensureWorker e db o' w = (db', b) \<Longrightarrow> foreign_view o' db' = foreign_view o' db"
  by (auto simp: ensureWorker_def foreign_view_def Let_def split: option.splits)

lemma updated_foreign:
  assumes "\<forall>q \<in> set (payments db). Q q \<longrightarrow> pm_orgId q = o'" and "\<And>q. pm_orgId (f q) = pm_orgId q"
    and "db' = db\<lparr>payments := updated Q f (payments db)\<rparr>"
  shows "foreign_view o' db' = foreign_view o' db"
  unfolding assms(3) using assms(1,2) by (intro foreign_payments) auto

lemma owned:
  assumes "keys_ok db" and "x \<in> set (escrows db)"
  shows "\<forall>q \<in> set (payments db). pm_escrowId q = Some (es_id x) \<longrightarrow> pm_orgId q = es_orgId x"
  using assms by (simp add: keys_ok_def)

lemma slot_owned:
  assumes "keys_ok db" and "find_escrow db i = Some x" and "find_slot db (es_id x) idx = Some p"
  shows "\<forall>q \<in> set (payments db). pm_id q = pm_id p \<longrightarrow> pm_orgId q = es_orgId x"
proof (intro ballI impI)
  fix q assume q: "q \<in> set (payments db)" "pm_id q = pm_id p"
  note p = find_slot_Some[OF assms(3)] and x = find_escrow_Some[OF assms(2)]
  have "distinct (map pm_id (payments db))" using assms(1) by (simp add: keys_ok_def)
  then have "q = p" using q p by (auto simp: distinct_map inj_on_def)
  then show "pm_orgId q = es_orgId x" using owned[OF assms(1)] x p by blast
qed

lemma created_foreign:
  assumes "apply_created e db ctx (es_orgId x) i m a = (db', r)"
    and "keys_ok db" and "find_escrow db i = Some x"
  shows "foreign_view (es_orgId x) db' = foreign_view (es_orgId x) db"
proof -
  let ?f = "\<lambda>x. x\<lparr>es_managerAddress := m, es_totalAmountBaseUnits := a\<rparr>"
  let ?db = "update_escrow (es_id x) ?f db"
  obtain b where "ensureBatch e ?db (es_orgId x) i = (db', b)"
    using assms(1,3) by (auto simp: apply_created_def ensureEscrow_def Let_def split: prod.splits)
  from foreign_batch[OF this] show ?thesis
    using foreign_escrow[OF assms(2), of x ?f] find_escrow_Some[OF assms(3)] by simp
qed

lemma added_again_foreign:
  assumes "payment_added_again e db o' i idx w a x = (db', r)"
  shows "foreign_view o' db' = foreign_view o' db"
  using assms
  by (auto simp: payment_added_again_def Let_def split: if_splits prod.splits
      dest!: transition_foreign) (simp_all add: indexer_request_def)

lemma added_foreign:
  assumes "apply_payment_added e db ctx (es_orgId x) meta i idx w t a rt s f = (db', r)"
    and "find_escrow db i = Some x"
  shows "foreign_view (es_orgId x) db' = foreign_view (es_orgId x) db"
proof -
  obtain db2 b where s2: "ensureBatch e db (es_orgId x) i = (db2, b)" by fastforce
  obtain db3 wk where s3: "ensureWorker e db2 (es_orgId x) w = (db3, wk)" by fastforce
  have s1: "ensureEscrow e db ctx (es_orgId x) i None = (db, x)"
    using assms(2) by (simp add: ensureEscrow_def)
  have "foreign_view (es_orgId x) db' = foreign_view (es_orgId x) db3"
  proof (cases "find_slot db3 (es_id x) idx")
    case (Some p)
    then have "payment_added_again e db3 (es_orgId x) i idx w a p = (db', r)"
      using assms s1 s2 s3 by (simp add: apply_payment_added_def)
    then show ?thesis by (rule added_again_foreign)
  next
    case None
    then obtain row b1 c1 d1 f1 g1 h1 i1 j1 where db': "db' = indexer_audit e
        (db3\<lparr>payments := payments db3 @ [row], serial := Suc (serial db3)\<rparr>)
        (es_orgId x) b1 c1 d1 f1 g1 h1 i1 j1"
      "pm_orgId row = es_orgId x"
      using assms s1 s2 s3 by (auto simp: apply_payment_added_def Let_def)
    then show ?thesis by (simp add: foreign_view_def indexer_audit_def)
  qed
  then show ?thesis using foreign_batch[OF s2] foreign_worker[OF s3] by simp
qed

lemma hours_foreign:
  assumes "apply_hours e db (es_orgId x) meta i idx h = (db', r)"
    and "keys_ok db" and "find_escrow db i = Some x"
  shows "foreign_view (es_orgId x) db' = foreign_view (es_orgId x) db"
proof (cases "find_slot db (es_id x) idx")
  case None
  then show ?thesis using assms by (simp add: apply_hours_def)
next
  case (Some p)
  have "foreign_view (es_orgId x) (db\<lparr>payments := updated
      (\<lambda>q. pm_id q = pm_id p \<and> pm_state q = AWAITING_ORACLE) (verified e h) (payments db)\<rparr>)
      = foreign_view (es_orgId x) db"
    using slot_owned[OF assms(2,3) Some] by (intro foreign_payments) (auto simp: verified_def)
  then show ?thesis using assms Some by (auto simp: apply_hours_def Let_def)
qed

lemma move_all_foreign:
  assumes "\<forall>q \<in> set (payments db). pm_escrowId q = Some k \<longrightarrow> pm_orgId q = o'"
  shows "foreign_view o' (db\<lparr>payments := move_all e k S t (payments db)\<rparr>) = foreign_view o' db"
    and "\<forall>q \<in> set (move_all e k S t (payments db)). pm_escrowId q = Some k \<longrightarrow> pm_orgId q = o'"
proof -
  show "foreign_view o' (db\<lparr>payments := move_all e k S t (payments db)\<rparr>) = foreign_view o' db"
    unfolding move_all_def by (rule foreign_payments) (use assms in auto)
  show "\<forall>q \<in> set (move_all e k S t (payments db)). pm_escrowId q = Some k \<longrightarrow> pm_orgId q = o'"
    using assms by (auto simp: move_all_def set_updated)
qed

lemma approved_foreign:
  assumes "apply_approved e db (es_orgId x) meta i m = (db', r)"
    and "keys_ok db" and "find_escrow db i = Some x"
  shows "foreign_view (es_orgId x) db' = foreign_view (es_orgId x) db"
proof -
  let ?o = "es_orgId x"
  define db1 where "db1 = update_escrow (es_id x)
    (\<lambda>x. if m then x\<lparr>es_managerApproved := True\<rparr> else x\<lparr>es_financeApproved := True\<rparr>) db"
  define db2 where "db2 = db1\<lparr>payments := move_all e (es_id x) [ORACLE_VERIFIED] AWAITING_MANAGER (payments db1)\<rparr>"
  let ?w = "if m then AWAITING_MANAGER else AWAITING_FINANCE"
  let ?n = "if m then AWAITING_FINANCE else READY_TO_SETTLE"
  define db3 where "db3 = db2\<lparr>payments := move_all e (es_id x) [?w] ?n (payments db2)\<rparr>"
  have x: "x \<in> set (escrows db)" using find_escrow_Some[OF assms(3)] by blast
  have own: "\<forall>q \<in> set (payments db1). pm_escrowId q = Some (es_id x) \<longrightarrow> pm_orgId q = ?o"
    using owned[OF assms(2) x] by (simp add: db1_def)
  have "foreign_view ?o db' = foreign_view ?o db3"
    using assms(1,3)
    by (auto simp: apply_approved_def Let_def db3_def db2_def db1_def[symmetric])
  also have "\<dots> = foreign_view ?o db2"
    unfolding db3_def by (rule move_all_foreign(1)) (use move_all_foreign(2)[OF own] in \<open>simp add: db2_def\<close>)
  also have "\<dots> = foreign_view ?o db1"
    unfolding db2_def by (rule move_all_foreign(1)[OF own])
  also have "\<dots> = foreign_view ?o db"
    unfolding db1_def by (rule foreign_escrow[OF assms(2) x]) simp
  finally show ?thesis .
qed

lemma findings_foreign:
  "settlement_findings e db o' w a p = (db', n) \<Longrightarrow> foreign_view o' db' = foreign_view o' db"
  by (auto simp: settlement_findings_def Let_def split: if_splits)

lemma paid_foreign:
  assumes "apply_payment_paid e db o' meta i idx w a h = (db', r)"
  shows "foreign_view o' db' = foreign_view o' db"
  using assms
  by (auto simp: apply_payment_paid_def paid_request_def indexer_request_def
      split: option.splits prod.splits if_splits transition_outcome.splits
      dest!: findings_foreign transition_foreign)

lemma cancelled_foreign:
  assumes "apply_payment_cancelled e db o' meta i idx = (db', r)"
  shows "foreign_view o' db' = foreign_view o' db"
proof -
  have "foreign_view (rq_orgId req) (fst (applyTransition e db req)) = foreign_view (rq_orgId req) db"
    for req
    by (rule transition_foreign[OF surjective_pairing])
  then have "foreign_view o' (fst (applyTransition e db (indexer_request k o' t u v y))) = foreign_view o' db"
    for k t u v y
    by (metis indexer_request_def transition_request.select_convs(4))
  then show ?thesis
    using assms by (auto simp: apply_payment_cancelled_def split: option.splits if_splits)
qed

lemma rotated_foreign:
  assumes "apply_oracle_rotated e db i n = (db', r)"
    and "keys_ok db" and "find_escrow db i = Some x"
  shows "foreign_view (es_orgId x) db' = foreign_view (es_orgId x) db"
proof -
  let ?f = "\<lambda>x. x\<lparr>es_oracleRotations := n\<rparr>"
  let ?db = "update_escrow (es_id x) ?f db"
  have x: "x \<in> set (escrows db)" using find_escrow_Some[OF assms(3)] by blast
  have "foreign_view (es_orgId x) db' = foreign_view (es_orgId x) ?db"
    by (rule updated_foreign[where Q = "\<lambda>p. pm_escrowId p = Some (es_id x) \<and> pm_state p \<in> set revoked_states"
        and f = "revoked e"])
      (use assms(1,3) owned[OF assms(2) x] in \<open>auto simp: apply_oracle_rotated_def Let_def revoked_def\<close>)
  also have "\<dots> = foreign_view (es_orgId x) db"
    by (rule foreign_escrow[OF assms(2) x]) simp
  finally show ?thesis .
qed

lemma applyEvent_foreign:
  assumes "keys_ok db" and "resolveEscrowTenant db ctx (ev_escrowId ev) = Some x"
    and "applyEvent e db ctx ev meta = (db', r)"
  shows "foreign_view (es_orgId x) db' = foreign_view (es_orgId x) db"
proof -
  note x = tenant_escrow[OF assms(1,2)]
  note xs = find_escrow_Some[OF x]
  show ?thesis
  proof (cases ev)
    case (EscrowCancelled i)
    then show ?thesis
      using assms(2,3) x xs foreign_escrow[OF assms(1), of x "\<lambda>x. x\<lparr>es_cancelled := True\<rparr>"]
      by (auto simp: applyEvent_def apply_cancelled_def)
  next
    case (Finalized i a n)
    then show ?thesis
      using assms(2,3) x by (auto simp: applyEvent_def apply_finalized_def Let_def split: if_splits)
  qed (use assms x created_foreign added_foreign hours_foreign approved_foreign paid_foreign
      cancelled_foreign rotated_foreign in \<open>simp_all add: applyEvent_def\<close>)
qed

section \<open>What an event does to escrows\<close>

definition escrow_key :: "escrow_row \<Rightarrow> row_id \<times> row_id \<times> int option \<times> string \<times> string" where
  "escrow_key x = (es_id x, es_orgId x, es_onChainId x, es_contractId x, es_network x)"

lemma update_escrow_key:
  "(\<And>x. escrow_key (f x) = escrow_key x) \<Longrightarrow>
   map escrow_key (escrows (update_escrow i f db)) = map escrow_key (escrows db)"
  by (simp add: update_escrow_def map_updated)

lemma applyEvent_escrows:
  assumes "applyEvent e db ctx ev meta = (db', r)"
  shows "map escrow_key (escrows db') = map escrow_key (escrows db)"
proof (cases "resolveEscrowTenant db ctx (ev_escrowId ev)")
  case None
  then show ?thesis using assms by (simp add: applyEvent_def)
next
  case tenant: (Some tenant)
  then have "tenant \<in> set (escrows db) \<and> es_onChainId tenant = Some (ev_escrowId ev)"
    by (auto simp: resolveEscrowTenant_def dest: findFirst_SomeD)
  then obtain x where x: "find_escrow db (ev_escrowId ev) = Some x"
    by (cases "find_escrow db (ev_escrowId ev)") (auto simp: find_escrow_def)
  have upd: "map escrow_key (updated P f es) = map escrow_key es"
    if "\<And>x. escrow_key (f x) = escrow_key x" for P f es
    by (rule map_updated) (simp add: that)
  show ?thesis
  proof (cases ev)
    case (Created i m a)
    then show ?thesis
      using assms tenant x
      by (auto simp: applyEvent_def apply_created_def ensureEscrow_def Let_def update_escrow_def
          upd escrow_key_def split: prod.splits dest!: ensureBatch_keeps)
  next
    case (PaymentAdded i idx w t a rt s f)
    then show ?thesis
      using assms tenant x
      by (auto simp: applyEvent_def apply_payment_added_def ensureEscrow_def payment_added_again_def
          Let_def split: prod.splits option.splits if_splits
          dest!: ensureBatch_keeps ensureWorker_keeps applyTransition_keeps(6))
  next
    case (Hours i idx h)
    then show ?thesis
      using assms tenant by (auto simp: applyEvent_def dest!: hours_rows)
  next
    case (PaymentPaid i idx w t a h)
    then show ?thesis
      using assms tenant
      by (auto simp: applyEvent_def apply_payment_paid_def Let_def
          split: prod.splits option.splits if_splits transition_outcome.splits
          dest!: settlement_findings_keeps applyTransition_keeps(6))
  next
    case (PaymentCancelled i idx)
    have "escrows (fst (applyTransition e db req)) = escrows db" for req
      by (rule applyTransition_keeps(6)[OF surjective_pairing])
    then show ?thesis
      using assms tenant PaymentCancelled
      by (auto simp: applyEvent_def apply_payment_cancelled_def Let_def split: option.splits if_splits)
  next
    case (ManagerApproved i)
    then show ?thesis
      using assms tenant x
      by (auto simp: applyEvent_def apply_approved_def Let_def update_escrow_def upd escrow_key_def)
  next
    case (FinanceApproved i)
    then show ?thesis
      using assms tenant x
      by (auto simp: applyEvent_def apply_approved_def Let_def update_escrow_def upd escrow_key_def)
  next
    case (Finalized i a n)
    then show ?thesis
      using assms tenant x by (auto simp: applyEvent_def apply_finalized_def Let_def split: if_splits)
  next
    case (EscrowCancelled i)
    then show ?thesis
      using assms tenant x
      by (auto simp: applyEvent_def apply_cancelled_def update_escrow_def upd escrow_key_def)
  next
    case (OracleRotated i n)
    then show ?thesis
      using assms tenant x
      by (auto simp: applyEvent_def apply_oracle_rotated_def Let_def update_escrow_def upd escrow_key_def)
  qed
qed

lemma applyEvent_attributed:
  "applyEvent e db ctx ev meta = (db', r) \<Longrightarrow>
   ar_attributed r = (resolveEscrowTenant db ctx (ev_escrowId ev) \<noteq> None)"
  by (cases ev)
    (auto simp: applyEvent_def nothing_def Let_def apply_created_def apply_payment_added_def
      payment_added_again_def apply_hours_def apply_approved_def apply_payment_paid_def
      apply_payment_cancelled_def apply_cancelled_def apply_oracle_rotated_def apply_finalized_def
      split: option.splits prod.splits if_splits transition_outcome.splits)

end
