(* ===== verification/Projection.thy ===== *)
theory Projection
  imports Indexer
begin

text \<open>
  What runs of the indexer make of the database, whatever the feed delivers, however often, and
  whichever transactions are rolled back. The hypotheses are on the environment only: the key
  generator never repeats itself, and the chain is a function from event ids to events.

  The invariant \<open>sound\<close> relates the database to an earlier one: its keys are sound, its log is that
  of the chain, the payments of the earlier one are still there, and every payment settled since
  has its event in the log.
\<close>

section \<open>Keys\<close>

definition fresh :: "(nat \<Rightarrow> row_id) \<Rightarrow> database \<Rightarrow> bool" where
  "fresh gen db \<longleftrightarrow> (\<forall>p \<in> set (payments db). \<forall>n \<ge> serial db. pm_id p \<noteq> gen n)"

definition on_chain :: "payment_row \<Rightarrow> bool" where
  "on_chain p \<longleftrightarrow> pm_escrowId p \<noteq> None \<and> pm_onChainPaymentIndex p \<noteq> None"

definition slots_unique :: "database \<Rightarrow> bool" where
  "slots_unique db \<longleftrightarrow> distinct (map slot (filter on_chain (payments db)))"

definition wf_keys :: "(nat \<Rightarrow> row_id) \<Rightarrow> database \<Rightarrow> bool" where
  "wf_keys gen db \<longleftrightarrow> keys_ok db \<and> fresh gen db \<and> slots_unique db"

lemma identity_fields:
  "identity p = identity q \<Longrightarrow> pm_id p = pm_id q \<and> pm_orgId p = pm_orgId q \<and>
   pm_escrowId p = pm_escrowId q \<and> pm_onChainPaymentIndex p = pm_onChainPaymentIndex q"
  by (simp add: identity_def)

lemma map_pm_id: "map pm_id ps = map fst (map identity ps)"
  by (simp add: identity_def comp_def)

lemma map_slots: "map slot (filter on_chain ps)
    = map (\<lambda>(_, _, x, i, _, _). (x, i)) (filter (\<lambda>(_, _, x, i, _, _). x \<noteq> None \<and> i \<noteq> None) (map identity ps))"
  by (induction ps) (simp_all add: identity_def slot_def on_chain_def)

lemma map_eq_mem: "map f xs = map g ys \<Longrightarrow> x \<in> set xs \<Longrightarrow> \<exists>y \<in> set ys. f x = g y"
  by (metis image_iff image_set)

lemma keys_ok_transfer:
  assumes keys: "keys_ok db" and escrows: "map escrow_key (escrows db') = map escrow_key (escrows db)"
    and ids: "distinct (map pm_id (payments db'))"
    and rows: "\<And>q. q \<in> set (payments db') \<Longrightarrow> (\<exists>p \<in> set (payments db). identity q = identity p) \<or>
      (\<exists>x \<in> set (escrows db). pm_escrowId q = Some (es_id x) \<and> pm_orgId q = es_orgId x)"
  shows "keys_ok db'"
  unfolding keys_ok_def
proof (intro conjI ballI impI)
  have es_ids: "map es_id (escrows db') = map es_id (escrows db)"
    using arg_cong[OF escrows, of "map fst"] by (simp add: escrow_key_def comp_def)
  show dist: "distinct (map es_id (escrows db'))"
    unfolding es_ids using keys by (simp add: keys_ok_def)
  have old: "\<exists>y \<in> set (escrows db). escrow_key x = escrow_key y" if "x \<in> set (escrows db')" for x
    by (rule map_eq_mem[OF escrows that])
  have same: "x = y" if "x \<in> set (escrows db)" "y \<in> set (escrows db)" "es_id x = es_id y" for x y
    using that keys by (auto simp: keys_ok_def distinct_map inj_on_def)
  show "distinct (map pm_id (payments db'))" by (rule ids)
  show "x = y" if x: "x \<in> set (escrows db')" and y: "y \<in> set (escrows db')"
    and n: "es_onChainId x \<noteq> None" "es_onChainId x = es_onChainId y" for x y
  proof -
    obtain u v where u: "u \<in> set (escrows db)" "escrow_key x = escrow_key u"
      and v: "v \<in> set (escrows db)" "escrow_key y = escrow_key v"
      using old[OF x] old[OF y] by blast
    have "u = v"
      using keys u v n unfolding keys_ok_def escrow_key_def by (metis Pair_inject)
    then have "es_id x = es_id y" using u v by (simp add: escrow_key_def)
    then show ?thesis using dist x y by (auto simp: distinct_map inj_on_def)
  qed
  show "pm_orgId q = es_orgId x" if q: "q \<in> set (payments db')" and x: "x \<in> set (escrows db')"
    and of: "pm_escrowId q = Some (es_id x)" for q x
  proof -
    obtain u where u: "u \<in> set (escrows db)" "escrow_key x = escrow_key u" using old[OF x] by blast
    then have ux: "es_id u = es_id x" "es_orgId u = es_orgId x" by (simp_all add: escrow_key_def)
    from rows[OF q] show ?thesis
    proof
      assume "\<exists>p \<in> set (payments db). identity q = identity p"
      then obtain p where p: "p \<in> set (payments db)" "identity q = identity p" by blast
      have "pm_escrowId p = Some (es_id u)" "pm_orgId p = pm_orgId q"
        using identity_fields[OF p(2)] of ux by simp_all
      then show ?thesis using owned[OF keys u(1)] p(1) ux by auto
    next
      assume "\<exists>y \<in> set (escrows db). pm_escrowId q = Some (es_id y) \<and> pm_orgId q = es_orgId y"
      then obtain y where y: "y \<in> set (escrows db)" "pm_escrowId q = Some (es_id y)"
        "pm_orgId q = es_orgId y" by blast
      have "y = u" by (rule same) (use y u of ux in simp_all)
      then show ?thesis using y ux by simp
    qed
  qed
qed

lemma wf_same:
  assumes "wf_keys gen db" and "map identity (payments db') = map identity (payments db)"
    and "map escrow_key (escrows db') = map escrow_key (escrows db)" and "serial db \<le> serial db'"
  shows "wf_keys gen db'"
proof -
  have ids: "distinct (map pm_id (payments db'))"
    unfolding map_pm_id assms(2) using assms(1) by (simp only: wf_keys_def keys_ok_def map_pm_id)
  have "keys_ok db'"
    by (rule keys_ok_transfer[of db])
      (use assms ids map_eq_mem[OF assms(2)] in \<open>auto simp: wf_keys_def\<close>)
  moreover have "fresh gen db'"
    unfolding fresh_def
  proof (intro ballI allI impI)
    fix q n assume "q \<in> set (payments db')" "serial db' \<le> n"
    moreover obtain p where "p \<in> set (payments db)" "identity q = identity p"
      using map_eq_mem[OF assms(2)] \<open>q \<in> set (payments db')\<close> by blast
    ultimately show "pm_id q \<noteq> gen n"
      using assms(1,4) identity_fields[of q p] by (auto simp: wf_keys_def fresh_def)
  qed
  moreover have "slots_unique db'"
    using assms(1) by (simp add: wf_keys_def slots_unique_def map_slots assms(2))
  ultimately show ?thesis by (simp add: wf_keys_def)
qed

lemma wf_event:
  assumes wf: "wf_keys gen db" and gen: "cuid e = gen" "inj gen"
    and run: "applyEvent e db ctx ev meta = (db', r)"
  shows "wf_keys gen db'"
proof -
  have keys: "keys_ok db" using wf by (simp add: wf_keys_def)
  note escrows = applyEvent_escrows[OF run] and logs = applyEvent_same_logs[OF run]
  have serial: "serial db \<le> serial db'" using logs by (simp add: same_logs_def)
  from applyEvent_grows[OF run keys, unfolded grows_def] show ?thesis
  proof
    assume "map identity (payments db') = map identity (payments db)"
    then show ?thesis using wf_same[OF wf] escrows serial by blast
  next
    assume "\<exists>q n. map identity (payments db') = map identity (payments db) @ [identity q] \<and>
        slot q \<notin> slot ` set (payments db) \<and>
        pm_id q = cuid e n \<and> serial db \<le> n \<and> n < serial db' \<and>
        (\<exists>x \<in> set (escrows db). pm_escrowId q = Some (es_id x) \<and> pm_orgId q = es_orgId x)"
    then obtain q n x where rows: "map identity (payments db') = map identity (payments db @ [q])"
      and slot: "slot q \<notin> slot ` set (payments db)"
      and n: "pm_id q = gen n" "serial db \<le> n" "n < serial db'"
      and x: "x \<in> set (escrows db)" "pm_escrowId q = Some (es_id x)" "pm_orgId q = es_orgId x"
      using gen(1) by auto
    have old: "\<exists>p \<in> set (payments db @ [q]). identity y = identity p" if "y \<in> set (payments db')" for y
      by (rule map_eq_mem[OF rows that])
    have "map pm_id (payments db') = map pm_id (payments db @ [q])"
      by (simp only: map_pm_id rows)
    moreover have "\<forall>p \<in> set (payments db). pm_id p \<noteq> pm_id q"
      using wf n(2) unfolding n(1) by (simp add: wf_keys_def fresh_def)
    ultimately have ids: "distinct (map pm_id (payments db'))"
      using keys by (auto simp: keys_ok_def)
    have "keys_ok db'"
    proof (rule keys_ok_transfer[OF keys escrows ids])
      fix y assume "y \<in> set (payments db')"
      then show "(\<exists>p \<in> set (payments db). identity y = identity p) \<or>
        (\<exists>x \<in> set (escrows db). pm_escrowId y = Some (es_id x) \<and> pm_orgId y = es_orgId x)"
        using old x identity_fields[of y q] by fastforce
    qed
    moreover have "fresh gen db'"
      unfolding fresh_def
    proof (intro ballI allI impI)
      fix y m assume y: "y \<in> set (payments db')" and m: "serial db' \<le> m"
      obtain p where p: "p \<in> set (payments db @ [q])" "identity y = identity p" using old[OF y] by blast
      have "gen n \<noteq> gen m" using gen(2) n m by (auto dest: injD)
      then show "pm_id y \<noteq> gen m"
        using p n m serial wf identity_fields[OF p(2)] by (auto simp: wf_keys_def fresh_def)
    qed
    moreover have "slots_unique db'"
      using wf slot unfolding slots_unique_def map_slots rows unfolding map_slots[symmetric]
      by (auto simp: wf_keys_def slots_unique_def)
    ultimately show ?thesis by (simp add: wf_keys_def)
  qed
qed

section \<open>The log\<close>

text \<open>A marker agrees with the event of the chain that has its id.\<close>

definition recorded :: "(string \<Rightarrow> raw_event) \<Rightarrow> chain_event_row \<Rightarrow> bool" where
  "recorded chain c \<longleftrightarrow>
     (let raw = chain (ce_id c) in
      case parseCoreFlowEvent (re_topic0 raw) (re_topic1 raw) (re_value raw) of
        Recognised ev \<Rightarrow> ce_type c = event_kind ev \<and> ce_escrowOnChainId c = Some (ev_escrowId ev) \<and>
          ce_paymentIndex c = paymentIndexOf ev \<and> ce_payload c = serializePayload (Some ev)
      | Unrecognised \<Rightarrow> ce_payload c = JNull
      | _ \<Rightarrow> False)"

definition log_ok :: "(string \<Rightarrow> raw_event) \<Rightarrow> database \<Rightarrow> bool" where
  "log_ok chain db \<longleftrightarrow> distinct (map ce_id (chainEvents db)) \<and> (\<forall>c \<in> set (chainEvents db). recorded chain c)"

text \<open>What the log keeps when another event is marked.\<close>

definition log_extends :: "database \<Rightarrow> database \<Rightarrow> bool" where
  "log_extends db db' \<longleftrightarrow>
     (\<forall>c \<in> set (chainEvents db). ce_attributed c \<longrightarrow> c \<in> set (chainEvents db'))"

lemma log_extends_same: "chainEvents db' = chainEvents db \<Longrightarrow> log_extends db db'"
  by (simp add: log_extends_def)

lemma find_marker_Some: "find_marker db i = Some c \<Longrightarrow> c \<in> set (chainEvents db) \<and> ce_id c = i"
  by (auto simp: find_marker_def dest: findFirst_SomeD)

lemma marker_unique:
  "log_ok chain db \<Longrightarrow> c \<in> set (chainEvents db) \<Longrightarrow> d \<in> set (chainEvents db) \<Longrightarrow> ce_id c = ce_id d \<Longrightarrow> c = d"
  by (auto simp: log_ok_def distinct_map inj_on_def)

lemma remark_log:
  assumes ok: "log_ok chain db" and row: "row \<in> set (chainEvents db)" "\<not> ce_attributed row"
    and f: "\<And>c. ce_id (f c) = ce_id c \<and> ce_type (f c) = ce_type c \<and> ce_payload (f c) = ce_payload c \<and>
      ce_escrowOnChainId (f c) = ce_escrowOnChainId c \<and> ce_paymentIndex (f c) = ce_paymentIndex c"
    and upd: "chainEvents db' = updated (\<lambda>c. ce_id c = ce_id row) f (chainEvents db)"
  shows "log_ok chain db' \<and> log_extends db db' \<and> f row \<in> set (chainEvents db') \<and>
    (\<forall>c \<in> set (chainEvents db). ce_id c \<noteq> ce_id row \<longrightarrow> c \<in> set (chainEvents db'))"
proof (intro conjI)
  have "recorded chain (f c) = recorded chain c" for c
    using f[of c] by (simp add: recorded_def Let_def split: parsed.split)
  moreover have "map ce_id (chainEvents db') = map ce_id (chainEvents db)"
    unfolding upd by (rule map_updated) (simp add: f)
  ultimately show "log_ok chain db'"
    using ok unfolding log_ok_def by (auto simp: upd set_updated)
  show "f row \<in> set (chainEvents db')" using row(1) by (force simp: upd set_updated)
  show others: "\<forall>c \<in> set (chainEvents db). ce_id c \<noteq> ce_id row \<longrightarrow> c \<in> set (chainEvents db')"
    by (force simp: upd set_updated)
  show "log_extends db db'"
    unfolding log_extends_def
  proof (intro ballI impI)
    fix c assume c: "c \<in> set (chainEvents db)" "ce_attributed c"
    then have "ce_id c \<noteq> ce_id row" using marker_unique[OF ok c(1) row(1)] row(2) by auto
    then show "c \<in> set (chainEvents db')" using others c(1) by blast
  qed
qed

lemma upsert_simps [simp]:
  "payments (upsert_marker e db ctx raw o' b) = payments db"
  "escrows (upsert_marker e db ctx raw o' b) = escrows db"
  "serial (upsert_marker e db ctx raw o' b) = serial db"
  by (simp_all add: upsert_marker_def split: option.split)

lemma mark_attributed_simps [simp]:
  "payments (mark_attributed i b t db) = payments db"
  "escrows (mark_attributed i b t db) = escrows db"
  "serial (mark_attributed i b t db) = serial db"
  by (simp_all add: mark_attributed_def)

lemma setCursor_simps [simp]:
  "payments (setCursor db ctx l) = payments db"
  "escrows (setCursor db ctx l) = escrows db"
  "serial (setCursor db ctx l) = serial db"
  "chainEvents (setCursor db ctx l) = chainEvents db"
  by (simp_all add: setCursor_def Let_def split: option.split)

text \<open>\<open>p\<close> is what the parser made of the event, and \<open>o'\<close> the event it recognised.\<close>

definition parsed_as :: "raw_event \<Rightarrow> coreflow_event option \<Rightarrow> bool" where
  "parsed_as raw o' \<longleftrightarrow>
     parseCoreFlowEvent (re_topic0 raw) (re_topic1 raw) (re_value raw)
       = (case o' of None \<Rightarrow> Unrecognised | Some ev \<Rightarrow> Recognised ev)"

lemma marker_simps [simp]:
  "ce_id (marker e ctx raw o' b) = re_id raw"
  "ce_attributed (marker e ctx raw o' b) = b"
  by (simp_all add: marker_def)

lemma recorded_marker:
  assumes "parsed_as raw o'" and "chain (re_id raw) = raw"
  shows "recorded chain (marker e ctx raw o' b)"
  using assms
  by (cases o') (simp_all add: recorded_def marker_def parsed_as_def serializePayload_def)

lemma upsert_log:
  assumes ok: "log_ok chain db" and new: "\<not> already_done db (re_id raw)"
    and chain: "chain (re_id raw) = raw" and p: "parsed_as raw o'"
  shows "log_ok chain (upsert_marker e db ctx raw o' b) \<and> log_extends db (upsert_marker e db ctx raw o' b) \<and>
    (\<exists>c \<in> set (chainEvents (upsert_marker e db ctx raw o' b)). ce_id c = re_id raw \<and> ce_attributed c = b)"
    (is "?goal")
proof (cases "find_marker db (re_id raw)")
  case None
  then have "\<forall>c \<in> set (chainEvents db). ce_id c \<noteq> re_id raw" by (simp add: find_marker_def)
  then have "log_ok chain (db\<lparr>chainEvents := chainEvents db @ [marker e ctx raw o' b]\<rparr>)"
    using ok recorded_marker[where chain = chain, OF p chain, of e ctx b]
    by (force simp: log_ok_def)
  then show ?thesis
    using None by (auto simp: upsert_marker_def log_extends_def)
next
  case (Some row)
  let ?f = "\<lambda>c. c\<lparr>ce_attributed := b, ce_processedAt := now e\<rparr>"
  note row = find_marker_Some[OF Some]
  have upd: "chainEvents (upsert_marker e db ctx raw o' b)
      = updated (\<lambda>c. ce_id c = ce_id row) ?f (chainEvents db)"
    using Some row by (simp add: upsert_marker_def)
  have "\<not> ce_attributed row" using new Some by (simp add: already_done_def)
  note remark_log[OF ok conjunct1[OF row] this _ upd, simplified]
  then show ?thesis
    using row by (intro conjI bexI[of _ "?f row"]) simp_all
qed

lemma replayed_payload:
  assumes "log_ok chain db" and "row \<in> set (chainEvents db)"
  obtains ev where "deserializePayload (ce_payload row) = Stored ev" "ce_type row = event_kind ev"
      "ce_escrowOnChainId row = Some (ev_escrowId ev)" "ce_paymentIndex row = paymentIndexOf ev"
    | "deserializePayload (ce_payload row) = Nothing_stored"
proof -
  have "recorded chain row" using assms by (simp add: log_ok_def)
  then show thesis
    using that deserialize_serialize
    by (auto simp: recorded_def Let_def deserializePayload_def split: parsed.splits)
qed

section \<open>The invariant of a run\<close>

text \<open>A settled payment has an attributed settlement event of its slot in the log.\<close>

definition evidence :: "database \<Rightarrow> payment_row \<Rightarrow> bool" where
  "evidence db q \<longleftrightarrow> (\<exists>c \<in> set (chainEvents db). \<exists>x \<in> set (escrows db).
     ce_type c = ''payment_paid'' \<and> ce_attributed c \<and>
     pm_escrowId q = Some (es_id x) \<and> ce_escrowOnChainId c = es_onChainId x \<and>
     es_onChainId x \<noteq> None \<and> ce_paymentIndex c = pm_onChainPaymentIndex q)"

definition sound :: "(nat \<Rightarrow> row_id) \<Rightarrow> (string \<Rightarrow> raw_event) \<Rightarrow> database \<Rightarrow> database \<Rightarrow> bool" where
  "sound gen chain db0 db \<longleftrightarrow> wf_keys gen db \<and> log_ok chain db \<and>
     (\<exists>new. map identity (payments db) = map identity (payments db0) @ new) \<and>
     settles db0 db (evidence db)"

lemma evidence_mono:
  assumes "log_extends db db'" and "map escrow_key (escrows db') = map escrow_key (escrows db)"
    and "evidence db q"
  shows "evidence db' q"
proof -
  obtain c x where c: "c \<in> set (chainEvents db)" "ce_type c = ''payment_paid''" "ce_attributed c"
    and x: "x \<in> set (escrows db)" "pm_escrowId q = Some (es_id x)" "ce_escrowOnChainId c = es_onChainId x"
      "es_onChainId x \<noteq> None" "ce_paymentIndex c = pm_onChainPaymentIndex q"
    using assms(3) unfolding evidence_def by blast
  obtain y where "y \<in> set (escrows db')" "escrow_key x = escrow_key y"
    using map_eq_mem[OF assms(2)[symmetric] x(1)] by blast
  moreover have "c \<in> set (chainEvents db')" using assms(1) c by (simp add: log_extends_def)
  ultimately show ?thesis
    unfolding evidence_def using c x
    by (intro bexI[of _ c] bexI[of _ y]) (simp_all add: escrow_key_def)
qed

lemma settles_weaken: "settles a b P \<Longrightarrow> (\<And>q. P q \<Longrightarrow> Q q) \<Longrightarrow> settles a b Q"
  by (auto simp: settles_def)

lemma mark_sound:
  assumes "sound gen chain db0 db" and "payments db' = payments db" and "escrows db' = escrows db"
    and "serial db' = serial db" and "log_ok chain db'" and "log_extends db db'"
  shows "sound gen chain db0 db'"
proof -
  have "settles db0 db' (evidence db')"
    using settles_weaken[of db0 db "evidence db" "evidence db'"] evidence_mono[of db db'] assms
    by (auto simp: sound_def settles_def)
  moreover have "wf_keys gen db'"
    using assms by (auto simp: sound_def intro!: wf_same[of gen db])
  ultimately show ?thesis using assms by (simp add: sound_def)
qed

text \<open>An event applied in one transaction with its marker.\<close>

lemma event_sound:
  assumes sound: "sound gen chain db0 db" and gen: "cuid e = gen" "inj gen"
    and run: "applyEvent e db ctx ev meta = (db1, r)"
    and same: "payments db2 = payments db1" "escrows db2 = escrows db1" "serial db2 = serial db1"
    and log: "log_ok chain db2" "log_extends db db2"
    and mark: "ar_attributed r \<Longrightarrow> \<exists>c \<in> set (chainEvents db2). ce_type c = event_kind ev \<and>
      ce_escrowOnChainId c = Some (ev_escrowId ev) \<and> ce_paymentIndex c = paymentIndexOf ev \<and>
      ce_attributed c"
  shows "sound gen chain db0 db2"
proof (cases "ar_attributed r")
  case False
  then have "db1 = db"
    using run applyEvent_attributed[OF run] by (auto simp: applyEvent_def split: option.splits)
  then show ?thesis using mark_sound[OF sound] same log by simp
next
  case True
  have wf: "wf_keys gen db" using sound by (simp add: sound_def)
  then have keys: "keys_ok db" by (simp add: wf_keys_def)
  have escrows: "map escrow_key (escrows db2) = map escrow_key (escrows db)"
    using applyEvent_escrows[OF run] same by simp
  have wf2: "wf_keys gen db2"
    using wf_same[OF wf_event[OF wf gen run]] same by simp
  have "\<exists>new. map identity (payments db2) = map identity (payments db) @ new"
    using applyEvent_grows[OF run keys] same unfolding grows_def by auto
  then have grown: "\<exists>new. map identity (payments db2) = map identity (payments db0) @ new"
    using sound unfolding sound_def by (metis append.assoc)
  have step: "settles db db2 (settled_by db ev)"
    using applyEvent_settles[OF run] keys same by (simp add: settles_def keys_ok_def)
  have new: "evidence db2 q" if by_event: "settled_by db ev q" for q
  proof -
    obtain c where c: "c \<in> set (chainEvents db2)" "ce_type c = event_kind ev"
      "ce_escrowOnChainId c = Some (ev_escrowId ev)" "ce_paymentIndex c = paymentIndexOf ev" "ce_attributed c"
      using mark True by blast
    obtain p x where p: "event_kind ev = ''payment_paid''" "x \<in> set (escrows db)"
      "pm_escrowId q = Some (es_id x)" "es_onChainId x = Some (ev_escrowId ev)"
      "pm_onChainPaymentIndex q = paymentIndexOf ev"
      using by_event unfolding settled_by_def by auto
    obtain y where "y \<in> set (escrows db2)" and "escrow_key x = escrow_key y"
      using map_eq_mem[OF escrows[symmetric] p(2)] by blast
    moreover have "es_onChainId y = Some (ev_escrowId ev)" "es_id y = es_id x"
      using \<open>escrow_key x = escrow_key y\<close> p(4) by (simp_all add: escrow_key_def)
    ultimately show ?thesis
      unfolding evidence_def using c p
      by (intro bexI[of _ c] bexI[of _ y]) simp_all
  qed
  have "settles db0 db2 (evidence db2)"
    using sound step new evidence_mono[OF log(2) escrows] unfolding sound_def settles_def by blast
  then show ?thesis using wf2 log(1) grown by (simp add: sound_def)
qed

section \<open>Batches, replays and runs\<close>

lemma process_one_sound:
  assumes sound: "sound gen chain db0 db" and gen: "cuid e = gen" "inj gen"
    and chain: "chain (re_id raw) = raw"
    and run: "process_one e ctx faults raw
      (parseCoreFlowEvent (re_topic0 raw) (re_topic1 raw) (re_value raw)) db = (db', out)"
  shows "sound gen chain db0 db'"
proof (cases "db' = db")
  case False
  have new: "\<not> already_done db (re_id raw)"
    using run False by (auto simp: process_one_def split: option.splits tx_fault.splits if_splits)
  have ok: "log_ok chain db" using sound by (simp add: sound_def)
  show ?thesis
  proof (cases "parseCoreFlowEvent (re_topic0 raw) (re_topic1 raw) (re_value raw)")
    case (Recognised ev)
    then obtain db1 r where eff: "applyEvent e db ctx ev
          \<lparr>mt_txHash = re_txHash raw, mt_ledger = re_ledger raw\<rparr> = (db1, r)"
      and db': "db' = upsert_marker e db1 ctx raw (Some ev) (ar_attributed r)"
      using run False new
      by (auto simp: process_one_def Let_def split: option.splits tx_fault.splits prod.splits)
    have logs: "chainEvents db1 = chainEvents db"
      using applyEvent_same_logs[OF eff] by (simp add: same_logs_def)
    have p: "parsed_as raw (Some ev)" using Recognised by (simp add: parsed_as_def)
    have "log_ok chain db1" "\<not> already_done db1 (re_id raw)"
      using ok new logs by (simp_all add: log_ok_def already_done_def find_marker_def)
    from upsert_log[OF this chain p, of e ctx "ar_attributed r"]
    have m: "log_ok chain db'" "log_extends db1 db'"
      "\<exists>c \<in> set (chainEvents db'). ce_id c = re_id raw \<and> ce_attributed c = ar_attributed r"
      by (simp_all add: db')
    obtain c where c: "c \<in> set (chainEvents db')" "ce_id c = re_id raw" "ce_attributed c = ar_attributed r"
      using m(3) by blast
    have "recorded chain c" using m(1) c(1) by (simp add: log_ok_def)
    then have rec: "ce_type c = event_kind ev \<and> ce_escrowOnChainId c = Some (ev_escrowId ev) \<and>
        ce_paymentIndex c = paymentIndexOf ev"
      using c(2) chain Recognised by (simp add: recorded_def)
    show ?thesis
    proof (rule event_sound[OF sound gen eff])
      show "log_extends db db'" using m(2) logs by (simp add: log_extends_def)
    qed (use db' m(1) c rec in auto)
  next
    case Unrecognised
    then have db': "db' = upsert_marker e db ctx raw None True"
      using run False new by (auto simp: process_one_def split: option.splits tx_fault.splits)
    have "parsed_as raw None" using Unrecognised by (simp add: parsed_as_def)
    from upsert_log[OF ok new chain this, of e ctx True] show ?thesis
      using mark_sound[OF sound] db' by simp
  qed (use run False new in \<open>auto simp: process_one_def split: option.splits tx_fault.splits\<close>)
qed (use sound in simp)

lemma process_events_sound:
  assumes "sound gen chain db0 db" and "cuid e = gen" "inj gen"
    and "\<forall>raw \<in> set raws. chain (re_id raw) = raw"
    and "process_events e ctx faults raws (db, r, n) = (db', r', n', ending)"
  shows "sound gen chain db0 db'"
  using assms
proof (induction raws arbitrary: db r n)
  case (Cons raw raws)
  let ?p = "parseCoreFlowEvent (re_topic0 raw) (re_topic1 raw) (re_value raw)"
  show ?case
  proof (cases "?p = Syntax_error")
    case False
    obtain db1 out where one: "process_one e ctx faults raw ?p db = (db1, out)" by fastforce
    have "sound gen chain db0 db1"
      using process_one_sound[OF Cons.prems(1-3) _ one] Cons.prems(4) by simp
    then show ?thesis
      using Cons.IH[of db1] Cons.prems one False by (auto simp: Let_def split: processed.splits)
  qed (use Cons.prems in simp)
qed simp

lemma processBatch_sound:
  assumes "sound gen chain db0 db" and "cuid e = gen" "inj gen"
    and "\<forall>raw \<in> set events. chain (re_id raw) = raw"
    and "processBatch e lc ctx faults events db = (db', r, ending)"
  shows "sound gen chain db0 db'"
proof -
  obtain db1 r1 n ed where run: "process_events e ctx faults (js_sort (event_order lc) events)
      (db, no_result, 0) = (db1, r1, n, ed)" by (metis prod_cases4)
  have s: "sound gen chain db0 db1"
    by (rule process_events_sound[OF assms(1-3) _ run]) (use assms(4) in simp)
  have "sound gen chain db0 (setCursor db1 ctx n)"
    by (rule mark_sound[OF s]) (use s in \<open>simp_all add: sound_def log_ok_def log_extends_def\<close>)
  then show ?thesis
    using assms(5) run s by (auto simp: processBatch_def Let_def split: if_splits)
qed

lemma replay_rows_sound:
  assumes "sound gen chain db0 db" and "cuid e = gen" "inj gen"
    and "distinct (map ce_id rows)"
    and "\<forall>row \<in> set rows. row \<in> set (chainEvents db) \<and> \<not> ce_attributed row"
    and "replay_rows e ctx faults rows (db, out) = (db', out', ok)"
  shows "sound gen chain db0 db' \<and> ok"
  using assms
proof (induction rows arbitrary: db out)
  case (Cons row rows)
  note sound = Cons.prems(1)
  have log: "log_ok chain db" using sound by (simp add: sound_def)
  have row: "row \<in> set (chainEvents db)" "\<not> ce_attributed row" using Cons.prems(5) by simp_all
  have others: "\<forall>c \<in> set rows. c \<in> set (chainEvents db) \<and> ce_id c \<noteq> ce_id row"
    using Cons.prems(4,5) by (auto simp: image_iff)
  have remark: "log_ok chain db2 \<and> log_extends db db2 \<and>
      (\<exists>c \<in> set (chainEvents db2). ce_type c = ce_type row \<and> ce_escrowOnChainId c = ce_escrowOnChainId row \<and>
         ce_paymentIndex c = ce_paymentIndex row \<and> ce_attributed c = b) \<and>
      (\<forall>c \<in> set rows. c \<in> set (chainEvents db2) \<and> \<not> ce_attributed c)"
    if db2: "db2 = mark_attributed (ce_id row) b t db1" "chainEvents db1 = chainEvents db" for b t db1 db2
  proof -
    let ?f = "\<lambda>c. c\<lparr>ce_attributed := b, ce_processedAt := default_to t (ce_processedAt c)\<rparr>"
    have "chainEvents db2 = updated (\<lambda>c. ce_id c = ce_id row) ?f (chainEvents db)"
      using db2 by (simp add: mark_attributed_def)
    note m = remark_log[OF log row _ this, simplified]
    moreover have "\<forall>c \<in> set rows. c \<in> set (chainEvents db2) \<and> \<not> ce_attributed c"
      using m others Cons.prems(5) by simp
    ultimately show ?thesis by (intro conjI bexI[of _ "?f row"]) simp_all
  qed
  show ?case
  proof (cases rule: replayed_payload[OF log row(1)])
    case (1 ev)
    show ?thesis
    proof (cases "faults (ce_id row)")
      case None
      let ?meta = "\<lparr>mt_txHash = ce_txHash row, mt_ledger = ce_ledger row\<rparr>"
      obtain db1 r where eff: "applyEvent e db ctx ev ?meta = (db1, r)" by fastforce
      define db2 where "db2 = mark_attributed (ce_id row) (ar_attributed r) (Some (now e)) db1"
      have "chainEvents db1 = chainEvents db"
        using applyEvent_same_logs[OF eff] by (simp add: same_logs_def)
      note m = remark[OF db2_def this]
      have "sound gen chain db0 db2"
        by (rule event_sound[OF sound Cons.prems(2,3) eff]) (use m 1 in \<open>auto simp: db2_def\<close>)
      then show ?thesis
        using Cons.IH[of db2] Cons.prems m 1(1) None eff
        by (auto simp: db2_def[symmetric] split: if_splits)
    next
      case (Some f)
      then show ?thesis using Cons.IH[of db] Cons.prems 1(1) by auto
    qed
  next
    case 2
    define db2 where "db2 = mark_attributed (ce_id row) True None db"
    note m = remark[OF db2_def refl]
    have "sound gen chain db0 db2"
      by (rule mark_sound[OF sound]) (use m in \<open>simp_all add: db2_def\<close>)
    then show ?thesis
      using Cons.IH[of db2] Cons.prems m 2 by (auto simp: db2_def[symmetric])
  qed
qed simp

lemma map_js_sort_distinct: "distinct (map f (js_sort cmp xs)) = distinct (map f xs)"
  by (metis card_distinct distinct_card length_js_sort length_map set_js_sort set_map)

lemma replay_sound:
  assumes "sound gen chain db0 db" and "cuid e = gen" "inj gen"
    and "replayUnattributed e collate ctx faults limit db = (db', out, ok)"
  shows "sound gen chain db0 db' \<and> ok"
proof -
  define pending where "pending = js_sort (\<lambda>a b. if ce_ledger a - ce_ledger b \<noteq> 0 then ce_ledger a - ce_ledger b
        else collate (ce_id a) (ce_id b))
      (filter (\<lambda>c. \<not> ce_attributed c \<and> ce_contractId c = Some (ix_contractId ctx) \<and>
         ce_network c = ix_network ctx) (chainEvents db))"
  have "distinct (map ce_id pending)"
    using assms(1) by (simp add: pending_def map_js_sort_distinct sound_def log_ok_def distinct_map_filter)
  then have dist: "distinct (map ce_id (take n pending))" for n
    by (metis distinct_take take_map)
  have rows: "\<forall>row \<in> set (take n pending). row \<in> set (chainEvents db) \<and> \<not> ce_attributed row" for n
    by (auto simp: pending_def dest!: in_set_takeD)
  have "replay_rows e ctx faults (take (default_to limit 1000) pending)
      (db, \<lparr>rp_examined = length (take (default_to limit 1000) pending), rp_applied = 0,
         rp_stillUnattributed = 0, rp_paymentsCreated = 0, rp_paymentsPaid = 0\<rparr>) = (db', out, ok)"
    using assms(4) by (simp add: replayUnattributed_def pending_def Let_def)
  from replay_rows_sound[OF assms(1-3) dist rows this] show ?thesis .
qed

text \<open>Runs of the indexer: what each of them gets from its environment.\<close>

record indexer_run =
  ir_env :: env
  ir_localeCompare :: "string \<Rightarrow> string \<Rightarrow> int"
  ir_collate :: "string \<Rightarrow> string \<Rightarrow> int"
  ir_ctx :: index_context
  ir_faults :: faults
  ir_latest :: int
  ir_fetch :: "int \<Rightarrow> nat \<Rightarrow> raw_event list"

definition execute :: "indexer_run \<Rightarrow> database \<Rightarrow> database" where
  "execute r db = fst (runIndexerFromRpc (ir_env r) (ir_localeCompare r) (ir_collate r) (ir_ctx r)
     (ir_faults r) (ir_latest r) (ir_fetch r) db)"

definition faithful :: "(nat \<Rightarrow> row_id) \<Rightarrow> (string \<Rightarrow> raw_event) \<Rightarrow> indexer_run \<Rightarrow> bool" where
  "faithful gen chain r \<longleftrightarrow> cuid (ir_env r) = gen \<and>
     (\<forall>start. \<forall>raw \<in> set (ir_fetch r start PAGE_LIMIT). chain (re_id raw) = raw)"

lemma execute_sound:
  assumes "sound gen chain db0 db" and "inj gen" and "faithful gen chain r"
  shows "sound gen chain db0 (execute r db)"
proof -
  let ?events = "ir_fetch r (start_ledger db (ir_ctx r) (ir_latest r)) PAGE_LIMIT"
  obtain db1 res ed where batch: "processBatch (ir_env r) (ir_localeCompare r) (ir_ctx r) (ir_faults r)
      ?events db = (db1, res, ed)" by (metis prod_cases3)
  have gen: "cuid (ir_env r) = gen" and events: "\<forall>raw \<in> set ?events. chain (re_id raw) = raw"
    using assms(3) by (simp_all add: faithful_def)
  have s1: "sound gen chain db0 db1"
    by (rule processBatch_sound[OF assms(1) gen assms(2) events batch])
  obtain db2 out ok where replay: "replayUnattributed (ir_env r) (ir_collate r) (ir_ctx r) (ir_faults r) None db1
      = (db2, out, ok)" by (metis prod_cases3)
  have "sound gen chain db0 db2" using replay_sound[OF s1 gen assms(2) replay] by blast
  then show ?thesis
    using s1 batch replay by (simp add: execute_def runIndexerFromRpc_def)
qed

lemma runs_sound:
  assumes "inj gen" and "\<forall>r \<in> set runs. faithful gen chain r" and "sound gen chain db0 db"
  shows "sound gen chain db0 (fold execute runs db)"
  using assms(2,3) by (induction runs arbitrary: db) (simp_all add: execute_sound[OF _ assms(1)])

lemma sound_start: "wf_keys gen db \<Longrightarrow> log_ok chain db \<Longrightarrow> sound gen chain db db"
  by (simp add: sound_def settles_def)

section \<open>Events delivered again\<close>

type_synonym delivery = "env \<times> index_context \<times> faults \<times> raw_event"

definition deliver :: "delivery \<Rightarrow> database \<Rightarrow> database" where
  "deliver d db = (case d of (e, ctx, faults, raw) \<Rightarrow>
     fst (process_one e ctx faults raw
       (parseCoreFlowEvent (re_topic0 raw) (re_topic1 raw) (re_value raw)) db))"

definition delivered :: "database \<Rightarrow> delivery \<Rightarrow> bool" where
  "delivered db d \<longleftrightarrow> (case d of (e, ctx, faults, raw) \<Rightarrow> already_done db (re_id raw))"

lemma event_marker: "applyEvent e db ctx ev meta = (db', r) \<Longrightarrow> find_marker db' i = find_marker db i"
  by (drule applyEvent_same_logs) (simp add: same_logs_def find_marker_def)

lemma upsert_other:
  assumes "i \<noteq> re_id raw"
  shows "find_marker (upsert_marker e db ctx raw o' b) i = find_marker db i"
proof (cases "find_marker db (re_id raw)")
  case None
  have "find_marker (db\<lparr>chainEvents := chainEvents db @ [marker e ctx raw o' b]\<rparr>) i = find_marker db i"
    using assms
    by (auto simp: find_marker_def findFirst_append findFirst_Cons simp del: findFirst_None_iff
        split: option.splits)
  then show ?thesis using None by (simp add: upsert_marker_def)
next
  case (Some c)
  let ?f = "\<lambda>c. c\<lparr>ce_attributed := b, ce_processedAt := now e\<rparr>"
  have "find_marker (upsert_marker e db ctx raw o' b) i
      = map_option (\<lambda>c. if ce_id c = re_id raw then ?f c else c) (find_marker db i)"
    using Some by (simp add: upsert_marker_def find_marker_def findFirst_updated)
  then show ?thesis
    using assms find_marker_Some[of db i] by (cases "find_marker db i") auto
qed

lemma getCursor_setCursor: "getCursor (setCursor db ctx l) ctx = l"
proof -
  let ?mine = "\<lambda>c. cu_contractId c = ix_contractId ctx \<and> cu_network c = ix_network ctx"
  let ?new = "\<lparr>cu_contractId = ix_contractId ctx, cu_network = ix_network ctx, cu_lastLedger = l\<rparr>"
  show ?thesis
  proof (cases "findFirst ?mine (cursors db)")
    case None
    then have "findFirst ?mine (cursors db @ [?new]) = Some ?new"
      by (simp add: findFirst_append findFirst_Cons del: findFirst_None_iff)
    then show ?thesis
      using None by (simp add: getCursor_def setCursor_def Let_def del: findFirst_None_iff)
  next
    case (Some c)
    moreover have "findFirst ?mine (updated ?mine (\<lambda>c. c\<lparr>cu_lastLedger := l\<rparr>) (cursors db))
        = map_option (\<lambda>c. if ?mine c then c\<lparr>cu_lastLedger := l\<rparr> else c) (findFirst ?mine (cursors db))"
      by (rule findFirst_updated) simp
    ultimately show ?thesis
      using findFirst_SomeD[OF Some] by (simp add: getCursor_def setCursor_def Let_def)
  qed
qed

lemma upsert_done:
  "already_done (upsert_marker e db ctx raw o' b) i = (if i = re_id raw then b else already_done db i)"
proof (cases "find_marker db (re_id raw)")
  case None
  have "find_marker (db\<lparr>chainEvents := chainEvents db @ [marker e ctx raw o' b]\<rparr>) i
      = (if i = re_id raw then Some (marker e ctx raw o' b) else find_marker db i)"
    using None
    by (auto simp: find_marker_def findFirst_append findFirst_Cons simp del: findFirst_None_iff
        split: option.splits)
  then show ?thesis using None by (simp add: upsert_marker_def already_done_def)
next
  case (Some c)
  let ?f = "\<lambda>c. c\<lparr>ce_attributed := b, ce_processedAt := now e\<rparr>"
  have "find_marker (upsert_marker e db ctx raw o' b) i
      = map_option (\<lambda>c. if ce_id c = re_id raw then ?f c else c) (find_marker db i)"
    using Some by (simp add: upsert_marker_def find_marker_def findFirst_updated)
  then show ?thesis
    using Some find_marker_Some[of db i]
    by (cases "find_marker db i") (auto simp: already_done_def)
qed

lemma process_one_done:
  assumes "process_one e ctx faults raw p db = (db', out)" and "already_done db i"
  shows "already_done db' i"
proof -
  have "already_done db1 i" if "chainEvents db1 = chainEvents db" for db1
    using assms(2) that by (simp add: already_done_def find_marker_def)
  moreover have "chainEvents (fst (applyEvent e db ctx ev meta)) = chainEvents db" for ev meta
    using applyEvent_same_logs[OF surjective_pairing] by (simp add: same_logs_def)
  ultimately show ?thesis
    using assms
    by (auto simp: process_one_def upsert_done Let_def
        split: option.splits tx_fault.splits if_splits parsed.splits prod.splits)
      (metis fst_conv)+
qed

interpretation ingest: event_log delivered deliver
proof unfold_locales
  show "deliver d db = db" if "delivered db d" for db d
    using that
    by (auto simp: deliver_def delivered_def process_one_def split: prod.splits option.splits tx_fault.splits)
  show "delivered (deliver d' db) d" if "delivered db d" for db d d'
    using that process_one_done[OF surjective_pairing]
    by (auto simp: deliver_def delivered_def split: prod.splits)
qed

section \<open>Approvals in the other order\<close>

lemma find_escrow_update:
  "(\<And>x. es_onChainId (f x) = es_onChainId x) \<Longrightarrow>
   find_escrow (update_escrow k f db) i = map_option (\<lambda>x. if es_id x = k then f x else x) (find_escrow db i)"
  by (simp add: find_escrow_def update_escrow_def findFirst_updated)

lemma tenant_update:
  "(\<And>x. escrow_key (f x) = escrow_key x) \<Longrightarrow>
   resolveEscrowTenant (update_escrow k f db) ctx i
     = map_option (\<lambda>x. if es_id x = k then f x else x) (resolveEscrowTenant db ctx i)"
  by (simp add: resolveEscrowTenant_def update_escrow_def findFirst_updated escrow_key_def)

lemma move_all_row:
  assumes "p \<in> set ps" and "pm_escrowId p = Some k"
  shows "\<exists>q \<in> set (move_all e k S t ps). identity q = identity p \<and>
    pm_state q = (if pm_state p \<in> set S then t else pm_state p)"
proof (cases "pm_state p \<in> set S")
  case True
  then show ?thesis
    using assms unfolding move_all_def
    by (intro bexI[of _ "p\<lparr>pm_state := t, pm_stateUpdatedAt := now e\<rparr>"]) (force simp: set_updated)+
next
  case False
  then show ?thesis
    using assms unfolding move_all_def by (intro bexI[of _ p]) (force simp: set_updated)+
qed

lemma approved_row:
  assumes "apply_approved e db o' meta i m = (db', r)" and "find_escrow db i = Some x"
    and "p \<in> set (payments db)" and "pm_escrowId p = Some (es_id x)"
  shows "\<exists>q \<in> set (payments db'). identity q = identity p \<and>
    pm_state q = (let s = (if pm_state p = ORACLE_VERIFIED then AWAITING_MANAGER else pm_state p)
      in if s = (if m then AWAITING_MANAGER else AWAITING_FINANCE)
         then (if m then AWAITING_FINANCE else READY_TO_SETTLE) else s)"
proof -
  let ?rows = "move_all e (es_id x) [ORACLE_VERIFIED] AWAITING_MANAGER (payments db)"
  have rows: "payments db' = move_all e (es_id x) [if m then AWAITING_MANAGER else AWAITING_FINANCE]
      (if m then AWAITING_FINANCE else READY_TO_SETTLE) ?rows"
    using assms(1,2) by (auto simp: apply_approved_def Let_def)
  obtain q where q: "q \<in> set ?rows" "identity q = identity p"
    "pm_state q = (if pm_state p = ORACLE_VERIFIED then AWAITING_MANAGER else pm_state p)"
    using move_all_row[OF assms(3,4), of e "[ORACLE_VERIFIED]" AWAITING_MANAGER] by auto
  have "pm_escrowId q = Some (es_id x)" using identity_fields[OF q(2)] assms(4) by simp
  from move_all_row[OF q(1) this, of e "[if m then AWAITING_MANAGER else AWAITING_FINANCE]"
      "if m then AWAITING_FINANCE else READY_TO_SETTLE"]
  show ?thesis unfolding rows Let_def using q by (auto split: if_splits)
qed

lemma approved_escrows:
  assumes "apply_approved e db o' meta i m = (db', r)" and "find_escrow db i = Some x"
  shows "\<exists>f. (\<forall>y. escrow_key (f y) = escrow_key y) \<and> escrows db' = escrows (update_escrow (es_id x) f db)"
proof -
  let ?f = "\<lambda>x. if m then x\<lparr>es_managerApproved := True\<rparr> else x\<lparr>es_financeApproved := True\<rparr>"
  have "escrows db' = escrows (update_escrow (es_id x) ?f db)"
    using assms by (auto simp: apply_approved_def Let_def)
  then show ?thesis by (intro exI[of _ ?f]) (simp add: escrow_key_def)
qed

lemma approved_lookups:
  assumes "apply_approved e db o' meta i m = (db', r)" and "find_escrow db i = Some x"
    and "resolveEscrowTenant db ctx j = Some t"
  shows "(\<exists>y. find_escrow db' i = Some y \<and> es_id y = es_id x) \<and>
    (\<exists>u. resolveEscrowTenant db' ctx j = Some u \<and> es_orgId u = es_orgId t)"
proof -
  obtain f where f: "\<And>y. escrow_key (f y) = escrow_key y"
    and es: "escrows db' = escrows (update_escrow (es_id x) f db)"
    using approved_escrows[OF assms(1,2)] by blast
  have k: "es_onChainId (f y) = es_onChainId y \<and> es_id (f y) = es_id y \<and> es_orgId (f y) = es_orgId y" for y
    using f[of y] by (simp add: escrow_key_def)
  have "find_escrow db' i = find_escrow (update_escrow (es_id x) f db) i"
    by (simp add: find_escrow_def es)
  moreover have "resolveEscrowTenant db' ctx j = resolveEscrowTenant (update_escrow (es_id x) f db) ctx j"
    by (simp add: resolveEscrowTenant_def es)
  ultimately show ?thesis
    using assms(2,3) find_escrow_update[of f] tenant_update[of f] k f by simp
qed

lemma paid_refused:
  assumes ids: "distinct (map pm_id (payments db))" and t: "resolveEscrowTenant db ctx i = Some t"
    and x: "find_escrow db i = Some x" and q: "find_slot db (es_id x) idx = Some q"
    and st: "pm_state q \<noteq> PAID" "\<not> allowed (pm_state q) PAID INDEXER_ACTOR"
    and run: "applyEvent e db ctx (PaymentPaid i idx w tok a h) meta = (db', r)"
  shows "payments db' = payments db \<and>
    (\<exists>f \<in> set (findings db'). fd_kind f = CHAIN_PAID_DB_NOT \<and> fd_paymentId f = Some (pm_id q))"
proof -
  let ?o = "es_orgId t"
  obtain db2 n where f: "settlement_findings e db ?o w a q = (db2, n)" by fastforce
  obtain db3 out where step: "applyTransition e db2 (paid_request ?o q meta i idx a h) = (db3, out)"
    by fastforce
  note keep = settlement_findings_keeps[OF f]
  have "\<not> (\<exists>u v. out = Changed u v)"
  proof
    assume "\<exists>u v. out = Changed u v"
    then obtain u v where "applyTransition e db2 (paid_request ?o q meta i idx a h) = (db3, Changed u v)"
      using step by blast
    then obtain p tr where "applyTransition_read db2 (paid_request ?o q meta i idx a h) = Inr (p, tr)"
      by (rule applyTransition_Changed)
    from read_Inr[OF this] have p: "p \<in> set (payments db)" "pm_id p = pm_id q"
      "allowed (pm_state p) PAID INDEXER_ACTOR"
      using keep by simp_all
    then have "p = q" using ids find_slot_Some[OF q] by (auto simp: distinct_map inj_on_def)
    then show False using p st by simp
  qed
  moreover have "\<not> (\<exists>u v. out = Unchanged u v)"
  proof
    assume "\<exists>u v. out = Unchanged u v"
    then obtain p where "p \<in> set (payments db)" "pm_id p = pm_id q" "pm_state p = PAID"
      using step keep
      by (auto simp: applyTransition_def applyTransition_read_def applyTransition_commit_def Let_def
          split: sum.splits option.splits if_splits prod.splits dest!: findFirst_SomeD)
    then show False using ids find_slot_Some[OF q] st by (auto simp: distinct_map inj_on_def)
  qed
  ultimately obtain c d where out: "out = Refused c d" by (cases out) auto
  then have db3: "db3 = db2" using applyTransition_other[OF step] by blast
  show ?thesis
    using run t x q st(1) f step out db3 keep
    by (auto simp: applyEvent_def apply_payment_paid_def openFinding_def)
qed

section \<open>Properties\<close>

text \<open>
  C1: Every settlement has its event. Whatever the indexer is given over any number of runs, with
  transactions rolled back at will, events delivered twice, and events that were stored first and
  replayed later, a payment settled by it has an attributed \<open>payment_paid\<close> event of exactly its
  escrow and slot in the stored log; and a payment that was settled before is never touched again.
\<close>

theorem settlement_backed_by_event:
  assumes "inj gen" and "wf_keys gen db" and "log_ok chain db"
    and "\<forall>r \<in> set runs. faithful gen chain r"
  shows "let db' = fold execute runs db in
     (\<forall>q \<in> set (payments db). pm_state q = PAID \<longrightarrow> q \<in> set (payments db')) \<and>
     (\<forall>q \<in> set (payments db'). pm_state q = PAID \<longrightarrow> q \<in> set (payments db) \<or> evidence db' q)"
  using runs_sound[OF assms(1,4) sound_start[OF assms(2,3)]]
  by (simp add: sound_def settles_def)

definition sample_escrow :: escrow_row where
  "sample_escrow = \<lparr>es_id = ''e1'', es_orgId = ''o1'', es_onChainId = Some 7, es_contractId = ''C'',
     es_network = ''testnet'', es_managerAddress = ''GM'', es_financeApproverAddress = ''GF'',
     es_assetDecimals = 7, es_totalAmountBaseUnits = 100, es_managerApproved = False,
     es_financeApproved = False, es_cancelled = False, es_oracleRotations = 0,
     es_projectId = None, es_oraclePublicKey = None, es_tokenAddress = None, es_createdAt = 0\<rparr>"

definition sample_deployment :: index_context where
  "sample_deployment = \<lparr>ix_contractId = ''C'', ix_network = ''testnet'', ix_assetDecimals = None\<rparr>"

definition sample_raw :: "string \<Rightarrow> int \<Rightarrow> coreflow_event \<Rightarrow> raw_event" where
  "sample_raw i ledger ev = (case wire ev of (t0, t1, v) \<Rightarrow>
     \<lparr>re_id = i, re_ledger = ledger, re_topic0 = t0, re_topic1 = t1, re_value = v, re_txHash = None\<rparr>)"

definition sample_paid :: raw_event where
  "sample_paid = sample_raw ''ev1'' 5 (PaymentPaid 7 0 ''GW'' ''T'' 100 10)"

definition sample_run :: "raw_event list \<Rightarrow> indexer_run" where
  "sample_run events = \<lparr>ir_env = sample_clock, ir_localeCompare = (\<lambda>a b. if a = b then 0 else -1),
     ir_collate = (\<lambda>a b. 0), ir_ctx = sample_deployment, ir_faults = (\<lambda>_. None), ir_latest = 100,
     ir_fetch = (\<lambda>_ _. events)\<rparr>"

abbreviation indexed_db :: database where
  "indexed_db \<equiv> sample_db\<lparr>escrows := [sample_escrow]\<rparr>"

lemma sample_keys: "inj (cuid sample_clock)" "wf_keys (cuid sample_clock) indexed_db" "log_ok chain indexed_db"
  by (auto simp: inj_def sample_clock_def wf_keys_def keys_ok_def fresh_def slots_unique_def log_ok_def
      sample_escrow_def sample_payment_def empty_db_def on_chain_def dest: show_nat_inj)

lemma sample_faithful: "faithful (cuid sample_clock) (\<lambda>_. raw) (sample_run [raw, raw])"
  by (simp add: faithful_def sample_run_def)

theorem settlement_backed_by_event_witness:
  "let db' = fold execute [sample_run [sample_paid, sample_paid]] indexed_db in
   map pm_state (payments db') = [PAID] \<and> (\<exists>q \<in> set (payments db'). evidence db' q)"
proof -
  let ?runs = "[sample_run [sample_paid, sample_paid]]"
  have paid: "map pm_state (payments (fold execute ?runs indexed_db)) = [PAID]" by code_simp
  have "\<forall>r \<in> set ?runs. faithful (cuid sample_clock) (\<lambda>_. sample_paid) r"
    using sample_faithful by simp
  note evident = settlement_backed_by_event[OF sample_keys this, unfolded Let_def]
  obtain q where q: "q \<in> set (payments (fold execute ?runs indexed_db))" "pm_state q = PAID"
    using paid by auto
  then have "q \<notin> set (payments indexed_db)" by (auto simp: sample_payment_def)
  then show ?thesis using evident paid q unfolding Let_def by blast
qed

text \<open>
  C9: The financial identity of a payment is immutable. Over any runs the payments keep their key,
  their organization, their slot on the chain, their recipient and their amount, in the order they
  were created, whatever the events say; new payments come after them, with new keys; and one slot
  of an escrow never has two payments, so an event delivered again creates nothing.
\<close>

theorem payment_identity_immutable:
  assumes "inj gen" and "wf_keys gen db" and "log_ok chain db"
    and "\<forall>r \<in> set runs. faithful gen chain r"
  shows "let db' = fold execute runs db in
     (\<exists>new. map identity (payments db') = map identity (payments db) @ new) \<and>
     distinct (map pm_id (payments db')) \<and>
     distinct (map slot (filter on_chain (payments db')))"
  using runs_sound[OF assms(1,4) sound_start[OF assms(2,3)]]
  by (simp add: sound_def wf_keys_def keys_ok_def slots_unique_def)

definition sample_added :: raw_event where
  "sample_added = sample_raw ''ev0'' 4 (PaymentAdded 7 1 ''GX'' ''T'' 50 5 0 0)"

theorem payment_identity_immutable_witness:
  "let db' = fold execute [sample_run [sample_added, sample_added], sample_run [sample_added, sample_added]]
       indexed_db in
   map slot (payments db') = [(Some ''e1'', Some 0), (Some ''e1'', Some 1)] \<and>
   distinct (map pm_id (payments db'))"
proof -
  let ?runs = "[sample_run [sample_added, sample_added], sample_run [sample_added, sample_added]]"
  have slots: "map slot (payments (fold execute ?runs indexed_db)) = [(Some ''e1'', Some 0), (Some ''e1'', Some 1)]"
    by code_simp
  have "\<forall>r \<in> set ?runs. faithful (cuid sample_clock) (\<lambda>_. sample_added) r"
    using sample_faithful by simp
  from payment_identity_immutable[OF sample_keys this] slots show ?thesis
    by (simp add: Let_def)
qed

text \<open>
  C12: An event belongs to one tenant or to none. An event of an escrow nobody claimed changes
  nothing at all; an event of a claimed escrow changes only rows of the organization that claimed
  it, and every other organization's view of the database is the same.
\<close>

theorem event_stays_in_tenant:
  assumes "keys_ok db" and "applyEvent e db ctx ev meta = (db', r)"
  shows "case resolveEscrowTenant db ctx (ev_escrowId ev) of
     None \<Rightarrow> db' = db \<and> \<not> ar_attributed r
   | Some x \<Rightarrow> foreign_view (es_orgId x) db' = foreign_view (es_orgId x) db \<and> ar_attributed r"
  using applyEvent_foreign[OF assms(1) _ assms(2)] applyEvent_attributed[OF assms(2)] assms(2)
  by (auto simp: applyEvent_def split: option.split)

theorem event_stays_in_tenant_witness:
  "let db = indexed_db\<lparr>payments := [sample_payment, sample_payment\<lparr>pm_id := ''p2'', pm_orgId := ''o2'',
         pm_escrowId := Some ''e2''\<rparr>],
       escrows := [sample_escrow, sample_escrow\<lparr>es_id := ''e2'', es_orgId := ''o2'', es_onChainId := Some 8\<rparr>]\<rparr>;
       db' = fst (applyEvent sample_clock db sample_deployment (PaymentPaid 7 0 ''GW'' ''T'' 100 10)
         \<lparr>mt_txHash = None, mt_ledger = 5\<rparr>)
   in map pm_state (payments db') = [PAID, READY_TO_SETTLE] \<and> foreign_view ''o1'' db' = foreign_view ''o1'' db"
proof -
  define db where "db = indexed_db\<lparr>payments := [sample_payment, sample_payment\<lparr>pm_id := ''p2'',
      pm_orgId := ''o2'', pm_escrowId := Some ''e2''\<rparr>],
    escrows := [sample_escrow, sample_escrow\<lparr>es_id := ''e2'', es_orgId := ''o2'', es_onChainId := Some 8\<rparr>]\<rparr>"
  let ?ev = "PaymentPaid 7 0 ''GW'' ''T'' 100 10" and ?m = "\<lparr>mt_txHash = None, mt_ledger = 5\<rparr>"
  obtain db' r where run: "applyEvent sample_clock db sample_deployment ?ev ?m = (db', r)" by fastforce
  have keys: "keys_ok db"
    by (simp add: keys_ok_def db_def sample_payment_def sample_escrow_def)
  have "resolveEscrowTenant db sample_deployment (ev_escrowId ?ev) = Some sample_escrow"
    by (simp add: db_def resolveEscrowTenant_def findFirst_Cons sample_escrow_def sample_deployment_def)
  then have "foreign_view ''o1'' db' = foreign_view ''o1'' db"
    using event_stays_in_tenant[OF keys run] by (simp add: sample_escrow_def)
  moreover have "map pm_state (payments (fst (applyEvent sample_clock db sample_deployment ?ev ?m)))
      = [PAID, READY_TO_SETTLE]"
    unfolding db_def by code_simp
  ultimately show ?thesis using run unfolding db_def[symmetric] Let_def by simp
qed

text \<open>
  An event is projected at most once. Once an event has been applied and attributed, delivering
  any event with its id again changes nothing, after any further deliveries, in any context, with
  any clock and whatever transactions fail in between.
\<close>

theorem event_projected_once:
  assumes "process_one e ctx faults raw p db = (db1, Applied r)" and "ar_attributed r"
    and "re_id raw' = re_id raw"
  shows "let db2 = fold deliver later db1 in deliver (e', ctx', faults', raw') db2 = db2"
proof -
  have "already_done db1 (re_id raw)"
    using assms(1,2)
    by (auto simp: process_one_def upsert_done Let_def
        split: option.splits tx_fault.splits if_splits parsed.splits prod.splits)
  then have "delivered db1 (e', ctx', faults', raw')" by (simp add: delivered_def assms(3))
  then show ?thesis
    unfolding Let_def by (intro ingest.seen_skipped ingest.fold_seen_mono)
qed

theorem event_projected_once_witness:
  "let again = (sample_clock, sample_deployment, \<lambda>_. None, sample_added);
       later = [(sample_clock, sample_deployment, \<lambda>_. None, sample_paid)];
       db1 = deliver again indexed_db
   in length (payments db1) = 2 \<and> deliver again (fold deliver later db1) = fold deliver later db1"
proof -
  let ?none = "\<lambda>_. None" and ?p = "Recognised (PaymentAdded 7 1 ''GX'' ''T'' 50 5 0 0)"
  have parse: "parseCoreFlowEvent (re_topic0 sample_added) (re_topic1 sample_added) (re_value sample_added) = ?p"
    by code_simp
  have one: "case snd (process_one sample_clock sample_deployment ?none sample_added ?p indexed_db) of
      Applied r \<Rightarrow> ar_attributed r | _ \<Rightarrow> False" by code_simp
  have len: "length (payments (deliver (sample_clock, sample_deployment, ?none, sample_added) indexed_db)) = 2"
    by code_simp
  obtain db1 r where run: "process_one sample_clock sample_deployment ?none sample_added ?p indexed_db
      = (db1, Applied r)" and "ar_attributed r"
    using one by (cases "process_one sample_clock sample_deployment ?none sample_added ?p indexed_db")
      (auto split: processed.splits)
  then have "deliver (sample_clock, sample_deployment, ?none, sample_added) indexed_db = db1"
    by (simp add: deliver_def parse)
  then show ?thesis
    using event_projected_once[OF run \<open>ar_attributed r\<close> refl,
        where later = "[(sample_clock, sample_deployment, ?none, sample_paid)]"] len
    unfolding Let_def by simp
qed

text \<open>
  Finance before manager leaves payments behind. The contract accepts the two approvals in either
  order. When the finance approval is seen first, a payment that was waiting for the manager ends,
  after the manager approval too, in \<open>AWAITING_FINANCE\<close> although both approvals are on the chain;
  and the settlement of a payment in that state is then refused by the transition table and
  recorded as \<open>CHAIN_PAID_DB_NOT\<close>, and the payment is not marked as paid.
\<close>

theorem finance_first_never_ready:
  assumes "distinct (map pm_id (payments db))"
    and "resolveEscrowTenant db ctx i = Some t" and "find_escrow db i = Some x"
    and "p \<in> set (payments db)" and "pm_escrowId p = Some (es_id x)"
    and "pm_state p = ORACLE_VERIFIED \<or> pm_state p = AWAITING_MANAGER"
    and "applyEvent e db ctx (FinanceApproved i) m1 = (db1, r1)"
    and "applyEvent e db1 ctx (ManagerApproved i) m2 = (db2, r2)"
  shows "(\<exists>q \<in> set (payments db2). identity q = identity p \<and> pm_state q = AWAITING_FINANCE) \<and>
    (\<forall>idx q w tok a h m3. find_slot db2 (es_id x) idx = Some q \<longrightarrow> pm_state q = AWAITING_FINANCE \<longrightarrow>
       (let db3 = fst (applyEvent e db2 ctx (PaymentPaid i idx w tok a h) m3)
        in payments db3 = payments db2 \<and>
           (\<exists>f \<in> set (findings db3). fd_kind f = CHAIN_PAID_DB_NOT \<and> fd_paymentId f = Some (pm_id q))))"
proof -
  have a1: "apply_approved e db (es_orgId t) m1 i False = (db1, r1)"
    using assms(2,7) by (simp add: applyEvent_def)
  obtain y u where y: "find_escrow db1 i = Some y" "es_id y = es_id x"
    and u: "resolveEscrowTenant db1 ctx i = Some u"
    using approved_lookups[OF a1 assms(3,2)] by blast
  have a2: "apply_approved e db1 (es_orgId u) m2 i True = (db2, r2)"
    using assms(8) u by (simp add: applyEvent_def)
  obtain z v where z: "find_escrow db2 i = Some z" "es_id z = es_id x"
    and v: "resolveEscrowTenant db2 ctx i = Some v"
    using approved_lookups[OF a2 y(1) u] y(2) by auto
  have "\<exists>p1 \<in> set (payments db1). identity p1 = identity p \<and> pm_state p1 = AWAITING_MANAGER"
    using approved_row[OF a1 assms(3-5)] assms(6) by (auto simp: Let_def)
  then obtain p1 where p1: "p1 \<in> set (payments db1)" "identity p1 = identity p" "pm_state p1 = AWAITING_MANAGER"
    by blast
  have "pm_escrowId p1 = Some (es_id y)" using identity_fields[OF p1(2)] assms(5) y(2) by simp
  from approved_row[OF a2 y(1) p1(1) this]
  have waits: "\<exists>q \<in> set (payments db2). identity q = identity p \<and> pm_state q = AWAITING_FINANCE"
    using p1 by (simp add: Let_def)
  have "map identity (payments db2) = map identity (payments db)"
    using a1 a2 by (auto simp: apply_approved_def Let_def split: option.splits)
  then have ids: "distinct (map pm_id (payments db2))"
    using assms(1) by (simp only: map_pm_id)
  have closed: "\<not> allowed AWAITING_FINANCE PAID INDEXER_ACTOR" by code_simp
  have "payments db3 = payments db2 \<and>
      (\<exists>f \<in> set (findings db3). fd_kind f = CHAIN_PAID_DB_NOT \<and> fd_paymentId f = Some (pm_id q))"
    if "find_slot db2 (es_id x) idx = Some q" "pm_state q = AWAITING_FINANCE"
      "db3 = fst (applyEvent e db2 ctx (PaymentPaid i idx w tok a h) m3)" for idx q w tok a h m3 db3
    by (rule paid_refused[OF ids v z(1) _ _ _ surjective_pairing[of "applyEvent e db2 ctx (PaymentPaid i idx w tok a h) m3", folded that(3)]])
      (use that z(2) closed in simp_all)
  then show ?thesis using waits unfolding Let_def by blast
qed

theorem finance_first_never_ready_witness:
  "let db = indexed_db\<lparr>payments := [sample_payment\<lparr>pm_state := ORACLE_VERIFIED\<rparr>]\<rparr>;
       m = \<lparr>mt_txHash = None, mt_ledger = 5\<rparr>;
       step = (\<lambda>ev db. fst (applyEvent sample_clock db sample_deployment ev m));
       db2 = step (ManagerApproved 7) (step (FinanceApproved 7) db);
       db3 = step (PaymentPaid 7 0 ''GW'' ''T'' 100 10) db2
   in (\<exists>q \<in> set (payments db2). pm_state q = AWAITING_FINANCE) \<and>
      map pm_state (payments db3) = [AWAITING_FINANCE] \<and> map fd_kind (findings db3) = [CHAIN_PAID_DB_NOT]"
proof -
  define db where "db = indexed_db\<lparr>payments := [sample_payment\<lparr>pm_state := ORACLE_VERIFIED\<rparr>]\<rparr>"
  define m :: event_meta where "m = \<lparr>mt_txHash = None, mt_ledger = 5\<rparr>"
  let ?step = "\<lambda>ev db. fst (applyEvent sample_clock db sample_deployment ev m)"
  let ?db2 = "?step (ManagerApproved 7) (?step (FinanceApproved 7) db)"
  have db: "distinct (map pm_id (payments db))" "resolveEscrowTenant db sample_deployment 7 = Some sample_escrow"
    "find_escrow db 7 = Some sample_escrow" "sample_payment\<lparr>pm_state := ORACLE_VERIFIED\<rparr> \<in> set (payments db)"
    by (simp_all add: db_def resolveEscrowTenant_def find_escrow_def findFirst_Cons sample_escrow_def
        sample_deployment_def)
  obtain db1 r1 where one: "applyEvent sample_clock db sample_deployment (FinanceApproved 7) m = (db1, r1)"
    by fastforce
  obtain db2 r2 where two: "applyEvent sample_clock db1 sample_deployment (ManagerApproved 7) m = (db2, r2)"
    by fastforce
  have "\<exists>q \<in> set (payments db2). pm_state q = AWAITING_FINANCE"
    using finance_first_never_ready[OF db _ _ one two]
    by (auto simp: sample_payment_def sample_escrow_def)
  moreover have "map pm_state (payments (?step (PaymentPaid 7 0 ''GW'' ''T'' 100 10) ?db2)) = [AWAITING_FINANCE] \<and>
      map fd_kind (findings (?step (PaymentPaid 7 0 ''GW'' ''T'' 100 10) ?db2)) = [CHAIN_PAID_DB_NOT]"
    unfolding db_def m_def by code_simp
  ultimately show ?thesis using one two unfolding db_def[symmetric] m_def[symmetric] Let_def by simp
qed

text \<open>
  The audit trail reports verifications that did not happen. An accepted attestation for a
  payment that is past \<open>AWAITING_ORACLE\<close>, or not yet there, changes no payment, and still appends an
  audit event that says it moved from its present state to \<open>ORACLE_VERIFIED\<close>.
\<close>

theorem verification_audited_without_change:
  assumes "distinct (map pm_id (payments db))" and "resolveEscrowTenant db ctx i = Some t"
    and "find_escrow db i = Some x" and "find_slot db (es_id x) idx = Some p"
    and "pm_state p \<noteq> AWAITING_ORACLE"
    and "applyEvent e db ctx (Hours i idx h) meta = (db', r)"
  shows "payments db' = payments db \<and>
    (\<exists>a. auditEvents db' = auditEvents db @ [a] \<and> au_type a = ''payment.oracle.verified'' \<and>
       au_paymentId a = Some (pm_id p) \<and> au_previousState a = Some (pm_state p) \<and>
       au_newState a = Some ORACLE_VERIFIED)"
proof -
  have "updated (\<lambda>q. pm_id q = pm_id p \<and> pm_state q = AWAITING_ORACLE) (verified e h) (payments db) = payments db"
    using assms(1,5) find_slot_Some[OF assms(4)]
    by (intro updated_none) (auto simp: distinct_map inj_on_def)
  then show ?thesis
    using assms(2-4,6) by (auto simp: applyEvent_def apply_hours_def Let_def indexer_audit_def)
qed

theorem verification_audited_without_change_witness:
  "let db' = fst (applyEvent sample_clock indexed_db sample_deployment (Hours 7 0 10)
       \<lparr>mt_txHash = None, mt_ledger = 5\<rparr>)
   in payments db' = [sample_payment] \<and> length (auditEvents db') = 1"
proof -
  let ?m = "\<lparr>mt_txHash = None, mt_ledger = 5\<rparr>"
  obtain db' r where run: "applyEvent sample_clock indexed_db sample_deployment (Hours 7 0 10) ?m = (db', r)"
    by fastforce
  have "resolveEscrowTenant indexed_db sample_deployment 7 = Some sample_escrow"
    "find_escrow indexed_db 7 = Some sample_escrow"
    "find_slot indexed_db (es_id sample_escrow) 0 = Some sample_payment"
    by (simp_all add: resolveEscrowTenant_def find_escrow_def find_slot_def findFirst_Cons
        sample_escrow_def sample_deployment_def sample_payment_def)
  from verification_audited_without_change[OF _ this _ run] show ?thesis
    using run by (auto simp: sample_payment_def empty_db_def)
qed

end
