(* ===== verification/ChainVerifier.thy ===== *)
theory ChainVerifier
  imports Transitions
begin

text \<open>
  The pure part of \<open>src/lib/reconciliation/chain-verifier.ts\<close>: matching the asset movements the
  token contract reported against what a payment should have moved, and the types of the facts read
  from the chain. The reads from the RPC are parameters; their results are the arguments here. A
  \<open>Map\<close> is an association list in insertion order.
\<close>

section \<open>Facts\<close>

record observed_transfer =
  ot_from :: address
  ot_to :: address
  ot_assetContractId :: string
  ot_amountBaseUnits :: base_units
  ot_ledger :: int
  ot_txHash :: "string option"

record chain_payment_facts =
  cp_index :: int
  cp_worker :: address
  cp_token :: string
  cp_amountBaseUnits :: base_units
  cp_hours :: int
  cp_proofVerified :: bool
  cp_status :: int

record chain_escrow_facts =
  cf_onChainId :: int
  cf_manager :: address
  cf_financeApprover :: address
  cf_managerApproved :: bool
  cf_financeApproved :: bool
  cf_cancelled :: bool
  cf_payments :: "chain_payment_facts list"

text \<open>\<open>CHAIN_STATUS\<close>\<close>

definition CHAIN_PENDING :: int where "CHAIN_PENDING = 0"

definition CHAIN_FINALIZED :: int where "CHAIN_FINALIZED = 3"

definition CHAIN_CANCELLED :: int where "CHAIN_CANCELLED = 4"

text \<open>
  Why a read failed. A verifier reads the chain; what it answers is a parameter, a function for
  each of its reads. A run makes each read once, so the answers need not agree over time.
\<close>

datatype verification_error = Unreadable string | Not_found string

fun error_reason :: "verification_error \<Rightarrow> string" where
  "error_reason (Unreadable r) = r"
| "error_reason (Not_found r) = r"

type_synonym 'a reading = "verification_error + 'a"

record chain_verifier =
  readEscrow :: "int \<Rightarrow> chain_escrow_facts reading"
  readTransfers :: "string \<Rightarrow> int option \<Rightarrow> observed_transfer list reading"
  readTransactionSucceeded :: "string \<Rightarrow> bool reading"
  findEscrowsCreatedByTransaction :: "string \<Rightarrow> int list reading"

record settlement_expectation =
  xp_escrowContractId :: address
  xp_recipient :: address
  xp_assetContractId :: string
  xp_amountBaseUnits :: base_units
  xp_txHash :: "string option"

record expected_payment =
  ep_recipient :: address
  ep_amountBaseUnits :: base_units
  ep_assetContractId :: string

section \<open>Matching\<close>

definition matchSettlementTransfer ::
  "observed_transfer list \<Rightarrow> settlement_expectation \<Rightarrow> observed_transfer list" where
  "matchSettlementTransfer transfers x =
     (let candidates = filter (\<lambda>t. ot_from t = xp_escrowContractId x \<and> ot_to t = xp_recipient x \<and>
            ot_assetContractId t = xp_assetContractId x \<and> ot_amountBaseUnits t = xp_amountBaseUnits x)
          transfers
      in if truthy (xp_txHash x) then filter (\<lambda>t. ot_txHash t = xp_txHash x) candidates else candidates)"

definition findAmountMismatchedTransfers ::
  "observed_transfer list \<Rightarrow> settlement_expectation \<Rightarrow> observed_transfer list" where
  "findAmountMismatchedTransfers transfers x =
     (let candidates = filter (\<lambda>t. ot_from t = xp_escrowContractId x \<and> ot_to t = xp_recipient x \<and>
            ot_assetContractId t = xp_assetContractId x \<and> ot_amountBaseUnits t \<noteq> xp_amountBaseUnits x)
          transfers
      in if truthy (xp_txHash x) then filter (\<lambda>t. ot_txHash t = xp_txHash x) candidates else candidates)"

record duplicates =
  dp_duplicated :: bool
  dp_txHash :: "string option"
  dp_count :: nat

fun count_by_tx :: "observed_transfer list \<Rightarrow> (string \<times> nat) list \<Rightarrow> (string \<times> nat) list" where
  "count_by_tx [] byTx = byTx"
| "count_by_tx (t # ts) byTx =
     count_by_tx ts (if truthy (ot_txHash t) then bump (the (ot_txHash t)) byTx else byTx)"

definition countDuplicateSettlementsInSameTransaction :: "observed_transfer list \<Rightarrow> duplicates" where
  "countDuplicateSettlementsInSameTransaction matches =
     (case List.find (\<lambda>(h, n). n > 1) (count_by_tx matches []) of
        Some (h, n) \<Rightarrow> \<lparr>dp_duplicated = True, dp_txHash = Some h, dp_count = n\<rparr>
      | None \<Rightarrow> \<lparr>dp_duplicated = False, dp_txHash = None, dp_count = length matches\<rparr>)"

fun add_to_group ::
  "string \<Rightarrow> observed_transfer \<Rightarrow> (string \<times> observed_transfer list) list \<Rightarrow>
   (string \<times> observed_transfer list) list" where
  "add_to_group h t [] = [(h, [t])]"
| "add_to_group h t ((k, ts) # groups) =
     (if k = h then (k, ts @ [t]) # groups else (k, ts) # add_to_group h t groups)"

fun group_by_tx ::
  "address \<Rightarrow> observed_transfer list \<Rightarrow> (string \<times> observed_transfer list) list \<Rightarrow>
   (string \<times> observed_transfer list) list" where
  "group_by_tx escrow [] byTx = byTx"
| "group_by_tx escrow (t # ts) byTx =
     group_by_tx escrow ts
       (if ot_from t \<noteq> escrow \<or> \<not> truthy (ot_txHash t) then byTx
        else add_to_group (the (ot_txHash t)) t byTx)"

definition covers_all :: "expected_payment list \<Rightarrow> observed_transfer list \<Rightarrow> bool" where
  "covers_all expected grp \<longleftrightarrow>
     list_all (\<lambda>x. list_ex (\<lambda>t. ot_to t = ep_recipient x \<and> ot_assetContractId t = ep_assetContractId x \<and>
       ot_amountBaseUnits t = ep_amountBaseUnits x) grp) expected"

definition max_ledger :: "observed_transfer list \<Rightarrow> int" where
  "max_ledger grp = fold max (map ot_ledger (tl grp)) (ot_ledger (hd grp))"

fun pick_latest ::
  "expected_payment list \<Rightarrow> (string \<times> observed_transfer list) list \<Rightarrow> (string \<times> int) option \<Rightarrow>
   (string \<times> int) option" where
  "pick_latest expected [] best = best"
| "pick_latest expected ((h, grp) # grps) best =
     pick_latest expected grps
       (if \<not> covers_all expected grp then best
        else case best of
          None \<Rightarrow> Some (h, max_ledger grp)
        | Some (_, l) \<Rightarrow> if max_ledger grp > l then Some (h, max_ledger grp) else best)"

definition inferSettlementTransaction ::
  "observed_transfer list \<Rightarrow> address \<Rightarrow> expected_payment list \<Rightarrow> string option" where
  "inferSettlementTransaction transfers escrow expected =
     (if expected = [] then None
      else map_option fst (pick_latest expected (group_by_tx escrow transfers []) None))"

section \<open>Lemmas\<close>

definition in_tx :: "string \<Rightarrow> observed_transfer \<Rightarrow> bool" where
  "in_tx h t \<longleftrightarrow> ot_txHash t = Some h"

lemma truthy_Some: "truthy x \<longleftrightarrow> (\<exists>h. x = Some h \<and> h \<noteq> [])"
  by (cases x) auto

definition lookup :: "('k \<times> nat) list \<Rightarrow> 'k \<Rightarrow> nat" where
  "lookup m k = (case map_of m k of None \<Rightarrow> 0 | Some n \<Rightarrow> n)"

lemma lookup_bump: "lookup (bump k m) j = lookup m j + (if j = k then 1 else 0)"
  by (simp add: lookup_def bump_lookup split: option.split)

lemma bump_distinct: "distinct (map fst m) \<Longrightarrow> distinct (map fst (bump k m)) \<and> set (map fst (bump k m)) = insert k (set (map fst m))"
  by (induction k m rule: bump.induct) auto

lemma count_by_tx_lookup:
  "h \<noteq> [] \<Longrightarrow> lookup (count_by_tx ts m) h = lookup m h + length (filter (in_tx h) ts)"
  by (induction ts arbitrary: m) (auto simp: lookup_bump in_tx_def truthy_Some)

lemma count_by_tx_distinct:
  "distinct (map fst m) \<Longrightarrow> [] \<notin> fst ` set m \<Longrightarrow>
   distinct (map fst (count_by_tx ts m)) \<and> [] \<notin> fst ` set (count_by_tx ts m)"
proof (induction ts arbitrary: m)
  case (Cons t ts)
  let ?m = "if truthy (ot_txHash t) then bump (the (ot_txHash t)) m else m"
  have "distinct (map fst ?m) \<and> [] \<notin> fst ` set ?m"
    using bump_distinct[OF Cons.prems(1)] Cons.prems by (auto simp: truthy_Some)
  then show ?case using Cons.IH[of ?m] by simp
qed simp

lemma count_entry:
  assumes "(h, n) \<in> set (count_by_tx ts [])"
  shows "h \<noteq> [] \<and> n = length (filter (in_tx h) ts)"
proof -
  have d: "distinct (map fst (count_by_tx ts []))" "[] \<notin> fst ` set (count_by_tx ts [])"
    using count_by_tx_distinct[of "[]" ts] by simp_all
  then have "h \<noteq> []" using assms by (metis fst_conv image_eqI)
  moreover have "map_of (count_by_tx ts []) h = Some n" using d(1) assms by simp
  ultimately show ?thesis
    using count_by_tx_lookup[of h ts "[]"] by (simp add: lookup_def)
qed

lemma count_present:
  assumes "h \<noteq> []" and "filter (in_tx h) ts \<noteq> []"
  shows "(h, length (filter (in_tx h) ts)) \<in> set (count_by_tx ts [])"
proof -
  have "lookup (count_by_tx ts []) h = length (filter (in_tx h) ts)"
    using count_by_tx_lookup[OF assms(1), of ts "[]"] by (simp add: lookup_def)
  then show ?thesis
    using assms(2) by (auto simp: lookup_def dest: map_of_SomeD split: option.splits)
qed

lemma duplicated_iff:
  "dp_duplicated (countDuplicateSettlementsInSameTransaction ts) \<longleftrightarrow>
   (\<exists>h. h \<noteq> [] \<and> 1 < length (filter (in_tx h) ts))"
proof (cases "List.find (\<lambda>(h, n). n > 1) (count_by_tx ts [])")
  case None
  then have "\<forall>(h, n) \<in> set (count_by_tx ts []). \<not> 1 < n" by (auto simp: find_None_iff)
  then have "\<not> 1 < length (filter (in_tx h) ts)" if "h \<noteq> []" for h
    using count_present[OF that, of ts] by (cases "filter (in_tx h) ts = []") auto
  then show ?thesis
    using None by (auto simp: countDuplicateSettlementsInSameTransaction_def)
next
  case (Some e)
  then obtain h n where e: "e = (h, n)" "(h, n) \<in> set (count_by_tx ts [])" "1 < n"
    by (auto simp: find_Some_iff) (metis nth_mem)
  then show ?thesis
    using Some count_entry[OF e(2)] by (auto simp: countDuplicateSettlementsInSameTransaction_def)
qed

text \<open>The transfers out of the escrow in one transaction.\<close>

definition payouts :: "address \<Rightarrow> observed_transfer list \<Rightarrow> string \<Rightarrow> observed_transfer list" where
  "payouts escrow ts h = filter (\<lambda>t. ot_from t = escrow \<and> in_tx h t) ts"

definition glookup :: "(string \<times> observed_transfer list) list \<Rightarrow> string \<Rightarrow> observed_transfer list" where
  "glookup m h = (case map_of m h of None \<Rightarrow> [] | Some ts \<Rightarrow> ts)"

lemma glookup_add: "glookup (add_to_group h t m) j = glookup m j @ (if j = h then [t] else [])"
  by (induction h t m rule: add_to_group.induct) (auto simp: glookup_def)

lemma group_lookup:
  "h \<noteq> [] \<Longrightarrow> glookup (group_by_tx escrow ts m) h = glookup m h @ payouts escrow ts h"
  by (induction ts arbitrary: m) (auto simp: glookup_add payouts_def in_tx_def truthy_Some)

definition groups_ok :: "(string \<times> observed_transfer list) list \<Rightarrow> bool" where
  "groups_ok m \<longleftrightarrow> distinct (map fst m) \<and> (\<forall>(h, ts) \<in> set m. h \<noteq> [] \<and> ts \<noteq> [])"

lemma add_to_group_keys: "fst ` set (add_to_group h t m) = insert h (fst ` set m)"
  by (induction h t m rule: add_to_group.induct) auto

lemma add_to_group_ok: "groups_ok m \<Longrightarrow> h \<noteq> [] \<Longrightarrow> groups_ok (add_to_group h t m)"
  by (induction h t m rule: add_to_group.induct) (auto simp: groups_ok_def add_to_group_keys)

lemma group_by_tx_ok: "groups_ok m \<Longrightarrow> groups_ok (group_by_tx escrow ts m)"
  by (induction ts arbitrary: m) (auto simp: truthy_Some add_to_group_ok)

lemma group_entries:
  "(h, g) \<in> set (group_by_tx escrow ts []) \<longleftrightarrow> h \<noteq> [] \<and> g \<noteq> [] \<and> g = payouts escrow ts h"
proof -
  let ?m = "group_by_tx escrow ts []"
  have ok: "groups_ok ?m" by (rule group_by_tx_ok) (simp add: groups_ok_def)
  have look: "glookup ?m h = payouts escrow ts h" if "h \<noteq> []"
    using group_lookup[OF that, of escrow ts "[]"] by (simp add: glookup_def)
  show ?thesis
  proof
    assume e: "(h, g) \<in> set ?m"
    then have "h \<noteq> []" "g \<noteq> []" using ok by (auto simp: groups_ok_def)
    moreover have "map_of ?m h = Some g" using ok e by (simp add: groups_ok_def)
    ultimately show "h \<noteq> [] \<and> g \<noteq> [] \<and> g = payouts escrow ts h"
      using look by (simp add: glookup_def)
  next
    assume "h \<noteq> [] \<and> g \<noteq> [] \<and> g = payouts escrow ts h"
    then show "(h, g) \<in> set ?m"
      using look by (auto simp: glookup_def dest: map_of_SomeD split: option.splits)
  qed
qed

lemma pick_latest_spec:
  "case pick_latest expected grps best of
     None \<Rightarrow> best = None \<and> (\<forall>(h, g) \<in> set grps. \<not> covers_all expected g)
   | Some (h, l) \<Rightarrow>
       (best = Some (h, l) \<or> (\<exists>g. (h, g) \<in> set grps \<and> covers_all expected g \<and> l = max_ledger g)) \<and>
       (\<forall>k m. best = Some (k, m) \<longrightarrow> m \<le> l) \<and>
       (\<forall>(k, g) \<in> set grps. covers_all expected g \<longrightarrow> max_ledger g \<le> l)"
proof (induction grps arbitrary: best)
  case (Cons e grps)
  obtain h g where e: "e = (h, g)" by fastforce
  define next_best where "next_best = (if \<not> covers_all expected g then best
    else case best of None \<Rightarrow> Some (h, max_ledger g)
       | Some (_, l) \<Rightarrow> if max_ledger g > l then Some (h, max_ledger g) else best)"
  have step: "pick_latest expected (e # grps) best = pick_latest expected grps next_best"
    by (simp add: e next_best_def)
  show ?case
    unfolding step using Cons.IH[of next_best]
    by (auto simp: e next_best_def split: option.splits if_splits prod.splits)
qed (auto split: option.split)

lemma infer_spec:
  assumes "expected \<noteq> []"
  shows "case inferSettlementTransaction ts escrow expected of
     None \<Rightarrow> \<forall>h. h \<noteq> [] \<longrightarrow> \<not> covers_all expected (payouts escrow ts h)
   | Some h \<Rightarrow> h \<noteq> [] \<and> covers_all expected (payouts escrow ts h) \<and>
       (\<forall>k. k \<noteq> [] \<longrightarrow> covers_all expected (payouts escrow ts k) \<longrightarrow>
          max_ledger (payouts escrow ts k) \<le> max_ledger (payouts escrow ts h))"
proof -
  let ?m = "group_by_tx escrow ts []"
  note spec = pick_latest_spec[where expected = expected and grps = ?m and best = None]
  have nonempty: "payouts escrow ts k \<noteq> []" if "covers_all expected (payouts escrow ts k)" for k
    using that assms by (cases expected) (auto simp: covers_all_def)
  have entry: "(k, payouts escrow ts k) \<in> set ?m"
    if "k \<noteq> []" "covers_all expected (payouts escrow ts k)" for k
    using that nonempty by (simp add: group_entries)
  show ?thesis
  proof (cases "pick_latest expected ?m None")
    case None
    then show ?thesis using spec entry assms by (auto simp: inferSettlementTransaction_def)
  next
    case (Some r)
    obtain h l where r: "r = (h, l)" by fastforce
    have "\<exists>g. (h, g) \<in> set ?m \<and> covers_all expected g \<and> l = max_ledger g"
      and latest: "\<forall>(k, g) \<in> set ?m. covers_all expected g \<longrightarrow> max_ledger g \<le> l"
      using spec Some r by simp_all
    then obtain g where g: "(h, g) \<in> set ?m" "covers_all expected g" "l = max_ledger g" by blast
    then have "h \<noteq> []" "g = payouts escrow ts h" by (simp_all add: group_entries)
    then show ?thesis
      using Some r g latest entry assms by (auto simp: inferSettlementTransaction_def)
  qed
qed

section \<open>Properties\<close>

text \<open>
  The settlement check is exact. The transfers matched to a payment are precisely those out of
  the escrow contract, to its recipient, in its asset, of its amount, and in its transaction when one
  is known; a transfer of the wrong amount is never among them; a duplicate is reported exactly when
  one transaction holds two of the matches. The transaction inferred for an escrow is one whose
  transfers cover every expected payment, and no later one does; none is inferred only when no
  transaction covers them.
\<close>

theorem settlement_match_exact:
  assumes "expected \<noteq> []"
  shows "(let m = matchSettlementTransfer ts x in
     set m = {t \<in> set ts. ot_from t = xp_escrowContractId x \<and> ot_to t = xp_recipient x \<and>
       ot_assetContractId t = xp_assetContractId x \<and> ot_amountBaseUnits t = xp_amountBaseUnits x \<and>
       (\<not> truthy (xp_txHash x) \<or> ot_txHash t = xp_txHash x)} \<and>
     set m \<inter> set (findAmountMismatchedTransfers ts x) = {} \<and>
     (dp_duplicated (countDuplicateSettlementsInSameTransaction m) \<longleftrightarrow>
        (\<exists>h. h \<noteq> [] \<and> 1 < length (filter (in_tx h) m)))) \<and>
   (case inferSettlementTransaction ts escrow expected of
      None \<Rightarrow> \<forall>h. h \<noteq> [] \<longrightarrow> \<not> covers_all expected (payouts escrow ts h)
    | Some h \<Rightarrow> h \<noteq> [] \<and> covers_all expected (payouts escrow ts h) \<and>
        (\<forall>k. k \<noteq> [] \<longrightarrow> covers_all expected (payouts escrow ts k) \<longrightarrow>
           max_ledger (payouts escrow ts k) \<le> max_ledger (payouts escrow ts h)))"
proof (rule conjI[OF _ infer_spec[OF assms]])
  show "let m = matchSettlementTransfer ts x in
     set m = {t \<in> set ts. ot_from t = xp_escrowContractId x \<and> ot_to t = xp_recipient x \<and>
       ot_assetContractId t = xp_assetContractId x \<and> ot_amountBaseUnits t = xp_amountBaseUnits x \<and>
       (\<not> truthy (xp_txHash x) \<or> ot_txHash t = xp_txHash x)} \<and>
     set m \<inter> set (findAmountMismatchedTransfers ts x) = {} \<and>
     (dp_duplicated (countDuplicateSettlementsInSameTransaction m) \<longleftrightarrow>
        (\<exists>h. h \<noteq> [] \<and> 1 < length (filter (in_tx h) m)))"
    unfolding Let_def duplicated_iff
    by (auto simp: matchSettlementTransfer_def findAmountMismatchedTransfers_def Let_def split: if_splits)
qed

definition batch_transfers :: "address \<Rightarrow> string \<Rightarrow> int \<Rightarrow> expected_payment list \<Rightarrow> observed_transfer list" where
  "batch_transfers escrow h ledger pays =
     map (\<lambda>p. \<lparr>ot_from = escrow, ot_to = ep_recipient p, ot_assetContractId = ep_assetContractId p,
       ot_amountBaseUnits = ep_amountBaseUnits p, ot_ledger = ledger, ot_txHash = Some h\<rparr>) pays"

definition expect_in :: "address \<Rightarrow> string option \<Rightarrow> expected_payment \<Rightarrow> settlement_expectation" where
  "expect_in escrow h p = \<lparr>xp_escrowContractId = escrow, xp_recipient = ep_recipient p,
     xp_assetContractId = ep_assetContractId p, xp_amountBaseUnits = ep_amountBaseUnits p, xp_txHash = h\<rparr>"

abbreviation sample_payee :: expected_payment where
  "sample_payee \<equiv> \<lparr>ep_recipient = ''GW'', ep_amountBaseUnits = 100, ep_assetContractId = ''T''\<rparr>"

theorem settlement_match_exact_witness:
  "let ts = batch_transfers ''C'' ''old'' 3 [sample_payee] @ batch_transfers ''C'' ''new'' 9 [sample_payee]
   in inferSettlementTransaction ts ''C'' [sample_payee] = Some ''new'' \<and>
      max_ledger (payouts ''C'' ts ''old'') \<le> max_ledger (payouts ''C'' ts ''new'')"
proof -
  let ?ts = "batch_transfers ''C'' ''old'' 3 [sample_payee] @ batch_transfers ''C'' ''new'' 9 [sample_payee]"
  have new: "inferSettlementTransaction ?ts ''C'' [sample_payee] = Some ''new''" by code_simp
  have old: "covers_all [sample_payee] (payouts ''C'' ?ts ''old'')" by code_simp
  show ?thesis
    using settlement_match_exact[of "[sample_payee]" ?ts x "''C''"] new old by (simp add: Let_def)
qed

text \<open>
  A batch that pays one worker twice the same amount looks like a double payment. When a
  transaction makes exactly one transfer per payment of its batch, a payment is reported as settled
  twice precisely if the batch itself has another payment with the same recipient, asset and amount,
  which the contract accepts; and one single transfer covers both of them.
\<close>

theorem equal_payments_reported_as_duplicate:
  assumes "h \<noteq> []"
  shows "(dp_duplicated (countDuplicateSettlementsInSameTransaction
       (matchSettlementTransfer (batch_transfers escrow h ledger pays) (expect_in escrow (Some h) p)))
     \<longleftrightarrow> 1 < length (filter (\<lambda>q. q = p) pays)) \<and>
   covers_all [p, p] (batch_transfers escrow h ledger [p])"
proof -
  let ?m = "matchSettlementTransfer (batch_transfers escrow h ledger pays) (expect_in escrow (Some h) p)"
  have len: "length ?m = length (filter (\<lambda>q. q = p) pays)"
    using assms
    by (induction pays)
      (auto simp: matchSettlementTransfer_def batch_transfers_def expect_in_def Let_def)
  have "\<forall>t \<in> set ?m. ot_txHash t = Some h"
    using assms by (auto simp: matchSettlementTransfer_def expect_in_def Let_def)
  then have "filter (in_tx k) ?m = (if k = h then ?m else [])" for k
    by (auto simp: in_tx_def filter_empty_conv)
  then have "dp_duplicated (countDuplicateSettlementsInSameTransaction ?m)
     \<longleftrightarrow> 1 < length (filter (\<lambda>q. q = p) pays)"
    unfolding duplicated_iff using assms by (auto simp: len)
  then show ?thesis by (simp add: covers_all_def batch_transfers_def)
qed

theorem equal_payments_reported_as_duplicate_witness:
  "dp_duplicated (countDuplicateSettlementsInSameTransaction
     (matchSettlementTransfer (batch_transfers ''C'' ''h'' 3 [sample_payee, sample_payee])
        (expect_in ''C'' (Some ''h'') sample_payee)))"
  using equal_payments_reported_as_duplicate[of "''h''" "''C''" 3 "[sample_payee, sample_payee]" sample_payee]
  by simp

end
