(* ===== verification/Reconciler.thy ===== *)
theory Reconciler
  imports ChainVerifier
begin

text \<open>
  \<open>src/lib/reconciliation/reconciler.ts\<close>: the comparison of the projection with the chain, escrow by
  escrow and payment by payment, and the findings it records. The state of a run is the database
  with the counters of the run. The payments an escrow is compared with are the rows read at the
  start of the run, as in the source; only \<open>applyTransition\<close> reads them again. A transfer list is
  read once per asset in a run, so the cache of the source is the verifier's function itself. The
  detail and remediation texts of the findings are left out.
\<close>

section \<open>Findings\<close>

definition RECONCILER :: actor where
  "RECONCILER = \<lparr>kind = Reconciler, role = None, address = None, system = Some ''reconciler''\<rparr>"

definition policyFor :: "finding_kind \<Rightarrow> finding_severity" where
  "policyFor k = (case k of
     DB_PAID_CHAIN_NOT \<Rightarrow> CRITICAL
   | FAILED_TX_ACTUALLY_SUCCEEDED \<Rightarrow> CRITICAL
   | AMOUNT_MISMATCH \<Rightarrow> HIGH
   | RECIPIENT_MISMATCH \<Rightarrow> HIGH
   | ASSET_MISMATCH \<Rightarrow> HIGH
   | DUPLICATE_PAYMENT_EVENT \<Rightarrow> HIGH
   | MISSING_PAYMENT_EVENT \<Rightarrow> HIGH
   | CHAIN_PAID_DB_NOT \<Rightarrow> MEDIUM
   | MISSING_ON_CHAIN \<Rightarrow> MEDIUM
   | ORPHAN_ON_CHAIN \<Rightarrow> MEDIUM
   | UNKNOWN_ON_CHAIN_OBJECT \<Rightarrow> LOW
   | CHAIN_UNREADABLE \<Rightarrow> LOW
   | OTHER \<Rightarrow> MEDIUM)"

record finding_input =
  fi_orgId :: row_id
  fi_runId :: row_id
  fi_kind :: finding_kind
  fi_paymentId :: "row_id option"
  fi_dbState :: "string option"
  fi_chainState :: "string option"
  fi_txHash :: "string option"
  fi_escrowOnChainId :: "int option"
  fi_paymentIndex :: "int option"
  fi_metadata :: json_object

text \<open>The identity of a finding: its kind, payment, escrow and slot, in its organization.\<close>

definition same_problem :: "finding_input \<Rightarrow> finding_row \<Rightarrow> bool" where
  "same_problem inp f \<longleftrightarrow> fd_orgId f = fi_orgId inp \<and> fd_kind f = fi_kind inp \<and>
     fd_paymentId f = fi_paymentId inp \<and> fd_escrowOnChainId f = fi_escrowOnChainId inp \<and>
     fd_paymentIndex f = fi_paymentIndex inp \<and> fd_status f \<noteq> RESOLVED"

definition or_else :: "'a option \<Rightarrow> 'a option \<Rightarrow> 'a option" where
  "or_else x y = (case x of None \<Rightarrow> y | Some _ \<Rightarrow> x)"

definition observed_again :: "env \<Rightarrow> finding_input \<Rightarrow> finding_row \<Rightarrow> finding_row" where
  "observed_again e inp f = f\<lparr>fd_runId := Some (fi_runId inp), fd_lastObservedAt := now e,
     fd_observationCount := fd_observationCount f + 1,
     fd_dbState := or_else (fi_dbState inp) (fd_dbState f),
     fd_chainState := or_else (fi_chainState inp) (fd_chainState f)\<rparr>"

definition new_finding :: "env \<Rightarrow> database \<Rightarrow> finding_input \<Rightarrow> finding_row" where
  "new_finding e db inp =
     \<lparr>fd_id = new_id e db, fd_orgId = fi_orgId inp, fd_paymentId = fi_paymentId inp,
      fd_kind = fi_kind inp, fd_dbState = fi_dbState inp, fd_chainState = fi_chainState inp,
      fd_metadata = fi_metadata inp, fd_runId = Some (fi_runId inp), fd_status = OPEN,
      fd_severity = policyFor (fi_kind inp), fd_txHash = fi_txHash inp,
      fd_escrowOnChainId = fi_escrowOnChainId inp, fd_paymentIndex = fi_paymentIndex inp,
      fd_detectedAt = now e, fd_lastObservedAt = now e, fd_observationCount = 1,
      fd_acknowledgedAt = None, fd_acknowledgedBy = None, fd_resolvedAt = None, fd_resolvedBy = None,
      fd_resolution = None\<rparr>"

definition upsertFinding :: "env \<Rightarrow> database \<Rightarrow> finding_input \<Rightarrow> database \<times> bool" where
  "upsertFinding e db inp =
     (case findFirst (same_problem inp) (findings db) of
        Some existing \<Rightarrow>
          (db\<lparr>findings := updated (\<lambda>f. fd_id f = fd_id existing) (observed_again e inp) (findings db)\<rparr>,
           False)
      | None \<Rightarrow>
          (db\<lparr>findings := findings db @ [new_finding e db inp], serial := Suc (serial db)\<rparr>, True))"

section \<open>A run\<close>

record reconcile_options =
  ro_contractId :: "string option"
  ro_network :: "string option"
  ro_maxEscrows :: "nat option"
  ro_fromLedger :: "int option"

record tally =
  ty_escrowsExamined :: nat
  ty_paymentsExamined :: nat
  ty_agreed :: nat
  ty_mismatched :: nat
  ty_unreadable :: nat
  ty_chainAhead :: nat
  ty_databaseAhead :: nat
  ty_findingsOpened :: nat
  ty_correctionsApplied :: nat

definition no_tally :: tally where
  "no_tally = \<lparr>ty_escrowsExamined = 0, ty_paymentsExamined = 0, ty_agreed = 0, ty_mismatched = 0,
     ty_unreadable = 0, ty_chainAhead = 0, ty_databaseAhead = 0, ty_findingsOpened = 0,
     ty_correctionsApplied = 0\<rparr>"

definition add_escrow :: "tally \<Rightarrow> tally" where
  "add_escrow t = t\<lparr>ty_escrowsExamined := ty_escrowsExamined t + 1\<rparr>"

definition add_payment :: "tally \<Rightarrow> tally" where
  "add_payment t = t\<lparr>ty_paymentsExamined := ty_paymentsExamined t + 1\<rparr>"

definition add_agreed :: "tally \<Rightarrow> tally" where
  "add_agreed t = t\<lparr>ty_agreed := ty_agreed t + 1\<rparr>"

definition add_mismatched :: "tally \<Rightarrow> tally" where
  "add_mismatched t = t\<lparr>ty_mismatched := ty_mismatched t + 1\<rparr>"

definition add_unreadable :: "tally \<Rightarrow> tally" where
  "add_unreadable t = t\<lparr>ty_unreadable := ty_unreadable t + 1\<rparr>"

definition add_chainAhead :: "tally \<Rightarrow> tally" where
  "add_chainAhead t = t\<lparr>ty_chainAhead := ty_chainAhead t + 1\<rparr>"

definition add_databaseAhead :: "tally \<Rightarrow> tally" where
  "add_databaseAhead t = t\<lparr>ty_databaseAhead := ty_databaseAhead t + 1\<rparr>"

definition add_finding :: "tally \<Rightarrow> tally" where
  "add_finding t = t\<lparr>ty_findingsOpened := ty_findingsOpened t + 1\<rparr>"

definition add_correction :: "tally \<Rightarrow> tally" where
  "add_correction t = t\<lparr>ty_correctionsApplied := ty_correctionsApplied t + 1\<rparr>"

lemmas tally_defs = add_escrow_def add_payment_def add_agreed_def add_mismatched_def
  add_unreadable_def add_chainAhead_def add_databaseAhead_def add_finding_def add_correction_def

record run_context =
  rc_orgId :: row_id
  rc_runId :: row_id
  rc_correlationId :: string
  rc_options :: reconcile_options

type_synonym run_state = "database \<times> tally"

text \<open>\<open>const r = await upsertFinding(...); if (r.opened) tally.findingsOpened++\<close>\<close>

definition report :: "env \<Rightarrow> finding_input \<Rightarrow> run_state \<Rightarrow> run_state" where
  "report e inp = (\<lambda>(db, t).
     (let (db, opened) = upsertFinding e db inp in (db, if opened then add_finding t else t)))"

definition count :: "(tally \<Rightarrow> tally) \<Rightarrow> run_state \<Rightarrow> run_state" where
  "count f = (\<lambda>(db, t). (db, f t))"

definition finding :: "run_context \<Rightarrow> finding_kind \<Rightarrow> finding_input" where
  "finding rc k =
     \<lparr>fi_orgId = rc_orgId rc, fi_runId = rc_runId rc, fi_kind = k, fi_paymentId = None,
      fi_dbState = None, fi_chainState = None, fi_txHash = None, fi_escrowOnChainId = None,
      fi_paymentIndex = None, fi_metadata = []\<rparr>"

text \<open>A finding about one payment, with both sides of the disagreement.\<close>

definition slot_finding ::
  "run_context \<Rightarrow> finding_kind \<Rightarrow> payment_row \<Rightarrow> int \<Rightarrow> int \<Rightarrow> string option \<Rightarrow> string option \<Rightarrow>
   finding_input" where
  "slot_finding rc k p onChainId idx dbState chainState =
     (finding rc k)\<lparr>fi_paymentId := Some (pm_id p), fi_escrowOnChainId := Some onChainId,
       fi_paymentIndex := Some idx, fi_dbState := dbState, fi_chainState := chainState\<rparr>"

section \<open>Comparing one payment\<close>

definition check_recipient ::
  "env \<Rightarrow> run_context \<Rightarrow> int \<Rightarrow> payment_row \<Rightarrow> chain_payment_facts \<Rightarrow> run_state \<times> bool \<Rightarrow>
   run_state \<times> bool" where
  "check_recipient e rc onChainId p cp = (\<lambda>(st, bad).
     if pm_recipientAddress p \<noteq> cp_worker cp
     then (report e (slot_finding rc RECIPIENT_MISMATCH p onChainId (cp_index cp)
             (Some (pm_recipientAddress p)) (Some (cp_worker cp))) st, True)
     else (st, bad))"

definition check_amount ::
  "env \<Rightarrow> run_context \<Rightarrow> int \<Rightarrow> payment_row \<Rightarrow> chain_payment_facts \<Rightarrow> run_state \<times> bool \<Rightarrow>
   run_state \<times> bool" where
  "check_amount e rc onChainId p cp = (\<lambda>(st, bad).
     if pm_amountBaseUnits p \<noteq> cp_amountBaseUnits cp
     then (report e (slot_finding rc AMOUNT_MISMATCH p onChainId (cp_index cp)
             (Some (show_int (pm_amountBaseUnits p))) (Some (show_int (cp_amountBaseUnits cp)))) st, True)
     else (st, bad))"

definition check_asset ::
  "env \<Rightarrow> run_context \<Rightarrow> int \<Rightarrow> payment_row \<Rightarrow> chain_payment_facts \<Rightarrow> run_state \<times> bool \<Rightarrow>
   run_state \<times> bool" where
  "check_asset e rc onChainId p cp = (\<lambda>(st, bad).
     if truthy (pm_assetContractId p) \<and> pm_assetContractId p \<noteq> Some (cp_token cp)
     then (report e (slot_finding rc ASSET_MISMATCH p onChainId (cp_index cp)
             (pm_assetContractId p) (Some (cp_token cp))) st, True)
     else (st, bad))"

definition identity_checks ::
  "env \<Rightarrow> run_context \<Rightarrow> int \<Rightarrow> payment_row \<Rightarrow> chain_payment_facts \<Rightarrow> run_state \<Rightarrow> run_state \<times> bool" where
  "identity_checks e rc onChainId p cp st =
     (let (st, bad) = check_asset e rc onChainId p cp (check_amount e rc onChainId p cp
            (check_recipient e rc onChainId p cp (st, False)))
      in (if bad then count add_mismatched st else st, bad))"

datatype transfer_verdict = TRANSFER_CONFIRMED | ABSENT | TRANSFER_UNREADABLE | NOT_APPLICABLE

definition verdict_name :: "transfer_verdict \<Rightarrow> string" where
  "verdict_name v = (case v of
     TRANSFER_CONFIRMED \<Rightarrow> ''CONFIRMED'' | ABSENT \<Rightarrow> ''ABSENT''
   | TRANSFER_UNREADABLE \<Rightarrow> ''UNREADABLE'' | NOT_APPLICABLE \<Rightarrow> ''NOT_APPLICABLE'')"

definition expected_payments :: "chain_escrow_facts \<Rightarrow> expected_payment list" where
  "expected_payments chain = map (\<lambda>q. \<lparr>ep_recipient = cp_worker q,
     ep_amountBaseUnits = cp_amountBaseUnits q, ep_assetContractId = cp_token q\<rparr>) (cf_payments chain)"

definition payment_asset :: "payment_row \<Rightarrow> chain_payment_facts \<Rightarrow> string" where
  "payment_asset p cp = (case pm_assetContractId p of None \<Rightarrow> cp_token cp | Some a \<Rightarrow> a)"

text \<open>What the settlement of a payment must have moved, in the one transaction it is looked for in.\<close>

definition expectation ::
  "escrow_row \<Rightarrow> chain_escrow_facts \<Rightarrow> payment_row \<Rightarrow> chain_payment_facts \<Rightarrow> observed_transfer list \<Rightarrow>
   settlement_expectation" where
  "expectation escrow chain p cp transfers =
     \<lparr>xp_escrowContractId = es_contractId escrow, xp_recipient = cp_worker cp,
      xp_assetContractId = payment_asset p cp, xp_amountBaseUnits = cp_amountBaseUnits cp,
      xp_txHash = or_else (pm_settlementTxHash p)
        (inferSettlementTransaction transfers (es_contractId escrow) (expected_payments chain))\<rparr>"

definition first_tx :: "observed_transfer list \<Rightarrow> string option" where
  "first_tx ts = (case ts of [] \<Rightarrow> None | t # _ \<Rightarrow> ot_txHash t)"

fun join_with :: "string \<Rightarrow> string list \<Rightarrow> string" where
  "join_with sep [] = []"
| "join_with sep [x] = x"
| "join_with sep (x # xs) = x @ sep @ join_with sep xs"

definition transfer_check ::
  "env \<Rightarrow> chain_verifier \<Rightarrow> run_context \<Rightarrow> escrow_row \<Rightarrow> int \<Rightarrow> chain_escrow_facts \<Rightarrow> payment_row \<Rightarrow>
   chain_payment_facts \<Rightarrow> run_state \<Rightarrow> run_state \<times> transfer_verdict \<times> string option" where
  "transfer_check e v rc escrow onChainId chain p cp st =
     (case readTransfers v (payment_asset p cp) (ro_fromLedger (rc_options rc)) of
        Inl _ \<Rightarrow> (st, TRANSFER_UNREADABLE, pm_settlementTxHash p)
      | Inr transfers \<Rightarrow>
          (let x = expectation escrow chain p cp transfers;
               matched = matchSettlementTransfer transfers x;
               dup = countDuplicateSettlementsInSameTransaction matched
           in if dp_duplicated dup
              then (count add_mismatched (report e
                      ((slot_finding rc DUPLICATE_PAYMENT_EVENT p onChainId (cp_index cp) None
                         (Some (show_nat (dp_count dup) @ '' transfers in transaction ''
                                @ (case dp_txHash dup of None \<Rightarrow> ''undefined'' | Some h \<Rightarrow> h))))
                       \<lparr>fi_txHash := dp_txHash dup\<rparr>) st),
                    TRANSFER_CONFIRMED,
                    or_else (dp_txHash dup) (or_else (first_tx matched) (pm_settlementTxHash p)))
              else if length matched \<ge> 1
              then (st, TRANSFER_CONFIRMED, or_else (first_tx matched) (pm_settlementTxHash p))
              else (let wrong = findAmountMismatchedTransfers transfers x
                    in if length wrong > 0
                       then count add_mismatched (report e
                              ((slot_finding rc AMOUNT_MISMATCH p onChainId (cp_index cp)
                                 (Some (show_int (cp_amountBaseUnits cp)))
                                 (Some (join_with '', '' (map (\<lambda>t. show_int (ot_amountBaseUnits t)) wrong))))
                               \<lparr>fi_txHash := first_tx wrong\<rparr>) st)
                       else st,
                    ABSENT, pm_settlementTxHash p)))"

definition settle_request ::
  "run_context \<Rightarrow> int \<Rightarrow> payment_row \<Rightarrow> chain_payment_facts \<Rightarrow> string option \<Rightarrow> transition_request" where
  "settle_request rc onChainId p cp tx =
     \<lparr>rq_paymentId = pm_id p, rq_to = PAID, rq_actor = RECONCILER, rq_orgId = rc_orgId rc,
      rq_reason = Some ''Reconciliation: settlement independently confirmed on-chain.'',
      rq_txHash = tx,
      rq_metadata = Some [(''source'', JStr ''reconciliation''),
        (''correlationId'', JStr (rc_correlationId rc)), (''verifiedBy'', JStr ''sac-transfer-event''),
        (''escrowOnChainId'', JNum onChainId), (''paymentIndex'', JNum (cp_index cp))],
      rq_settledAt = None\<rparr>"

definition cancel_request :: "run_context \<Rightarrow> payment_row \<Rightarrow> transition_request" where
  "cancel_request rc p =
     \<lparr>rq_paymentId = pm_id p, rq_to = CANCELLED, rq_actor = RECONCILER, rq_orgId = rc_orgId rc,
      rq_reason = Some ''Reconciliation: the escrow was cancelled on-chain.'', rq_txHash = None,
      rq_metadata = Some [(''source'', JStr ''reconciliation''),
        (''correlationId'', JStr (rc_correlationId rc))],
      rq_settledAt = None\<rparr>"

definition request_transition :: "env \<Rightarrow> transition_request \<Rightarrow> run_state \<Rightarrow> run_state \<times> bool" where
  "request_transition e req = (\<lambda>(db, t).
     (let (db, out) = applyTransition e db req
      in ((db, t), case out of Changed _ _ \<Rightarrow> True | _ \<Rightarrow> False)))"

text \<open>The chain says settled, the database does not.\<close>

definition chain_ahead ::
  "env \<Rightarrow> run_context \<Rightarrow> int \<Rightarrow> payment_row \<Rightarrow> chain_payment_facts \<Rightarrow> transfer_verdict \<Rightarrow>
   string option \<Rightarrow> run_state \<Rightarrow> run_state" where
  "chain_ahead e rc onChainId p cp verdict tx st =
     (if verdict = TRANSFER_UNREADABLE
      then report e (slot_finding rc CHAIN_UNREADABLE p onChainId (cp_index cp)
             (Some (payment_state_name (pm_state p))) (Some ''contract reports FINALIZED''))
             (count add_unreadable st)
      else if verdict = ABSENT
      then report e (slot_finding rc MISSING_PAYMENT_EVENT p onChainId (cp_index cp)
             (Some (payment_state_name (pm_state p)))
             (Some ''contract reports FINALIZED, no transfer observed''))
             (count add_mismatched st)
      else (let (st, changed) = request_transition e (settle_request rc onChainId p cp tx) st
            in if changed then count add_correction (count add_chainAhead st)
               else count add_mismatched (report e
                      (slot_finding rc CHAIN_PAID_DB_NOT p onChainId (cp_index cp)
                        (Some (payment_state_name (pm_state p)))
                        (Some ''FINALIZED (transfer confirmed)'')) st)))"

definition database_ahead ::
  "env \<Rightarrow> run_context \<Rightarrow> int \<Rightarrow> payment_row \<Rightarrow> chain_payment_facts \<Rightarrow> transfer_verdict \<Rightarrow>
   run_state \<Rightarrow> run_state" where
  "database_ahead e rc onChainId p cp verdict st =
     report e ((slot_finding rc DB_PAID_CHAIN_NOT p onChainId (cp_index cp) (Some ''PAID'')
         (Some (''contract status='' @ show_int (cp_status cp) @ '', transfer='' @ verdict_name verdict)))
       \<lparr>fi_txHash := pm_settlementTxHash p,
        fi_metadata := [(''transferVerdict'', JStr (verdict_name verdict))]\<rparr>)
       (count add_databaseAhead st)"

definition both_settled ::
  "env \<Rightarrow> run_context \<Rightarrow> int \<Rightarrow> payment_row \<Rightarrow> chain_payment_facts \<Rightarrow> transfer_verdict \<Rightarrow> bool \<Rightarrow>
   run_state \<Rightarrow> run_state" where
  "both_settled e rc onChainId p cp verdict identityMismatch st =
     (if verdict = TRANSFER_CONFIRMED
      then if \<not> identityMismatch then count add_agreed st else st
      else if verdict = TRANSFER_UNREADABLE then count add_unreadable st
      else report e ((slot_finding rc MISSING_PAYMENT_EVENT p onChainId (cp_index cp) (Some ''PAID'')
               (Some ''FINALIZED, no transfer observed''))\<lparr>fi_txHash := pm_settlementTxHash p\<rparr>)
             (count add_mismatched st))"

text \<open>A payment whose slot exists on the chain.\<close>

definition reconcile_slot ::
  "env \<Rightarrow> chain_verifier \<Rightarrow> run_context \<Rightarrow> escrow_row \<Rightarrow> int \<Rightarrow> chain_escrow_facts \<Rightarrow> payment_row \<Rightarrow>
   chain_payment_facts \<Rightarrow> run_state \<Rightarrow> run_state" where
  "reconcile_slot e v rc escrow onChainId chain p cp st =
     (let (st, identityMismatch) = identity_checks e rc onChainId p cp st;
          chainSettled = (cp_status cp = CHAIN_FINALIZED);
          chainCancelled = (cp_status cp = CHAIN_CANCELLED);
          dbSettled = (pm_state p = PAID);
          (st, verdict, tx) =
            (if chainSettled \<or> dbSettled then transfer_check e v rc escrow onChainId chain p cp st
             else (st, NOT_APPLICABLE, pm_settlementTxHash p))
      in if chainSettled \<and> \<not> dbSettled then chain_ahead e rc onChainId p cp verdict tx st
         else if dbSettled \<and> \<not> chainSettled then database_ahead e rc onChainId p cp verdict st
         else if dbSettled \<and> chainSettled
         then both_settled e rc onChainId p cp verdict identityMismatch st
         else if chainCancelled \<and> pm_state p \<noteq> CANCELLED
         then let (st, changed) = request_transition e (cancel_request rc p) st
              in if changed then count add_correction st else st
         else if \<not> identityMismatch then count add_agreed st else st)"

text \<open>\<open>new Map(payments.map(p => [p.index, p])).get(i)\<close>: the last slot with the index.\<close>

definition byIndex :: "chain_escrow_facts \<Rightarrow> int \<Rightarrow> chain_payment_facts option" where
  "byIndex chain i = List.find (\<lambda>c. cp_index c = i) (rev (cf_payments chain))"

definition chain_slot :: "chain_escrow_facts \<Rightarrow> payment_row \<Rightarrow> chain_payment_facts option" where
  "chain_slot chain p =
     (case pm_onChainPaymentIndex p of None \<Rightarrow> None | Some i \<Rightarrow> byIndex chain i)"

definition reconcile_payment ::
  "env \<Rightarrow> chain_verifier \<Rightarrow> run_context \<Rightarrow> escrow_row \<Rightarrow> int \<Rightarrow> chain_escrow_facts \<Rightarrow> payment_row \<Rightarrow>
   run_state \<Rightarrow> run_state" where
  "reconcile_payment e v rc escrow onChainId chain p st =
     (let st = count add_payment st in
      case chain_slot chain p of
        None \<Rightarrow>
          count add_mismatched (report e
            ((finding rc MISSING_ON_CHAIN)\<lparr>fi_paymentId := Some (pm_id p),
               fi_escrowOnChainId := Some onChainId, fi_paymentIndex := pm_onChainPaymentIndex p,
               fi_dbState := Some (payment_state_name (pm_state p))\<rparr>) st)
      | Some cp \<Rightarrow> reconcile_slot e v rc escrow onChainId chain p cp st)"

section \<open>Comparing one escrow\<close>

definition report_orphan ::
  "env \<Rightarrow> run_context \<Rightarrow> int \<Rightarrow> payment_row list \<Rightarrow> chain_payment_facts \<Rightarrow> run_state \<Rightarrow> run_state" where
  "report_orphan e rc onChainId rows cp st =
     (if list_ex (\<lambda>p. pm_onChainPaymentIndex p = Some (cp_index cp)) rows then st
      else count add_mismatched (report e
        ((finding rc ORPHAN_ON_CHAIN)\<lparr>fi_escrowOnChainId := Some onChainId,
           fi_paymentIndex := Some (cp_index cp),
           fi_chainState := Some (''status='' @ show_int (cp_status cp)),
           fi_metadata := [(''worker'', JStr (cp_worker cp)),
             (''amountBaseUnits'', JStr (show_int (cp_amountBaseUnits cp)))]\<rparr>) st))"

definition report_unreadable ::
  "env \<Rightarrow> run_context \<Rightarrow> escrow_row \<Rightarrow> int \<Rightarrow> nat \<Rightarrow> verification_error \<Rightarrow> run_state \<Rightarrow> run_state" where
  "report_unreadable e rc escrow onChainId recorded err st =
     (let absent = (case err of Not_found _ \<Rightarrow> True | Unreadable _ \<Rightarrow> False)
      in report e
        ((finding rc (if absent then MISSING_ON_CHAIN else CHAIN_UNREADABLE))
         \<lparr>fi_escrowOnChainId := Some onChainId,
          fi_dbState := Some (show_nat recorded @ '' payment(s) recorded''),
          fi_chainState := Some (if absent then ''escrow absent'' else ''unreadable''),
          fi_metadata := [(''escrowId'', JStr (es_id escrow)), (''reason'', JStr (error_reason err))]\<rparr>)
        (count add_unreadable st))"

definition reconcile_escrow ::
  "env \<Rightarrow> chain_verifier \<Rightarrow> run_context \<Rightarrow> escrow_row \<times> payment_row list \<Rightarrow> run_state \<Rightarrow> run_state" where
  "reconcile_escrow e v rc = (\<lambda>(escrow, rows) st.
     (let onChainId = the (es_onChainId escrow); st = count add_escrow st in
      case readEscrow v onChainId of
        Inl err \<Rightarrow> report_unreadable e rc escrow onChainId (length rows) err st
      | Inr chain \<Rightarrow>
          fold (reconcile_payment e v rc escrow onChainId chain) rows
            (fold (report_orphan e rc onChainId rows) (cf_payments chain) st)))"

text \<open>\<open>orderBy: { onChainPaymentIndex: 'asc' }\<close>, which puts \<open>NULL\<close> last.\<close>

definition index_order :: "payment_row \<Rightarrow> payment_row \<Rightarrow> int" where
  "index_order p q =
     (case (pm_onChainPaymentIndex p, pm_onChainPaymentIndex q) of
        (Some i, Some j) \<Rightarrow> i - j | (Some _, None) \<Rightarrow> -1 | (None, Some _) \<Rightarrow> 1 | (None, None) \<Rightarrow> 0)"

definition escrow_payments :: "database \<Rightarrow> escrow_row \<Rightarrow> payment_row list" where
  "escrow_payments db escrow = js_sort index_order
     (filter (\<lambda>p. pm_escrowId p = Some (es_id escrow) \<and> pm_orgId p = es_orgId escrow) (payments db))"

definition escrows_to_examine ::
  "database \<Rightarrow> row_id \<Rightarrow> reconcile_options \<Rightarrow> (escrow_row \<times> payment_row list) list" where
  "escrows_to_examine db orgId opts =
     map (\<lambda>x. (x, escrow_payments db x))
       (take (case ro_maxEscrows opts of None \<Rightarrow> 100 | Some n \<Rightarrow> n)
         (js_sort (\<lambda>a b. es_createdAt b - es_createdAt a)
           (filter (\<lambda>x. es_orgId x = orgId \<and> es_onChainId x \<noteq> None \<and>
              (truthy (ro_contractId opts) \<longrightarrow> ro_contractId opts = Some (es_contractId x)) \<and>
              (truthy (ro_network opts) \<longrightarrow> ro_network opts = Some (es_network x))) (escrows db))))"

definition reconcileOrganization ::
  "env \<Rightarrow> chain_verifier \<Rightarrow> run_context \<Rightarrow> database \<Rightarrow> database \<times> tally" where
  "reconcileOrganization e v rc db =
     fold (reconcile_escrow e v rc) (escrows_to_examine db (rc_orgId rc) (rc_options rc)) (db, no_tally)"

section \<open>Transactions recorded as failed\<close>

record failed_check =
  fc_checked :: nat
  fc_falselyFailed :: nat
  fc_findingsOpened :: nat

definition confirmed_after_all :: "transaction_row \<Rightarrow> transaction_row" where
  "confirmed_after_all t = t\<lparr>tx_status := CONFIRMED, tx_errorMessage :=
     Some ''Recorded as failed in error; the chain confirms success. Corrected by reconciliation.''\<rparr>"

definition failed_step ::
  "env \<Rightarrow> chain_verifier \<Rightarrow> run_context \<Rightarrow> transaction_row \<Rightarrow> database \<times> failed_check \<Rightarrow>
   database \<times> failed_check" where
  "failed_step e v rc tx = (\<lambda>(db, r).
     (case readTransactionSucceeded v (the (tx_hash tx)) of
        Inr True \<Rightarrow>
          (let (db1, opened) = upsertFinding e db
                 ((finding rc FAILED_TX_ACTUALLY_SUCCEEDED)\<lparr>fi_paymentId := tx_paymentId tx,
                    fi_txHash := tx_hash tx, fi_dbState := Some ''FAILED'',
                    fi_chainState := Some ''SUCCESS'',
                    fi_metadata := [(''transactionId'', JStr (tx_id tx))]\<rparr>)
           in (db1\<lparr>transactions :=
                 updated (\<lambda>t. tx_id t = tx_id tx) confirmed_after_all (transactions db1)\<rparr>,
               r\<lparr>fc_falselyFailed := fc_falselyFailed r + 1,
                 fc_findingsOpened := (if opened then fc_findingsOpened r + 1 else fc_findingsOpened r)\<rparr>))
      | _ \<Rightarrow> (db, r)))"

definition failed_transactions :: "database \<Rightarrow> row_id \<Rightarrow> transaction_row list" where
  "failed_transactions db orgId = take 200
     (filter (\<lambda>t. tx_orgId t = orgId \<and> tx_status t = FAILED \<and> tx_hash t \<noteq> None) (transactions db))"

definition reconcileFailedTransactions ::
  "env \<Rightarrow> chain_verifier \<Rightarrow> run_context \<Rightarrow> database \<Rightarrow> database \<times> failed_check" where
  "reconcileFailedTransactions e v rc db =
     (let failed = failed_transactions db (rc_orgId rc)
      in fold (failed_step e v rc) failed
           (db, \<lparr>fc_checked = length failed, fc_falselyFailed = 0, fc_findingsOpened = 0\<rparr>))"

section \<open>Escrows of no organization\<close>

text \<open>\<open>distinct: ['escrowOnChainId']\<close> keeps the first row of each escrow.\<close>

fun first_of_each :: "int option list \<Rightarrow> chain_event_row list \<Rightarrow> chain_event_row list" where
  "first_of_each seen [] = []"
| "first_of_each seen (c # cs) =
     (if ce_escrowOnChainId c \<in> set seen then first_of_each seen cs
      else c # first_of_each (ce_escrowOnChainId c # seen) cs)"

definition unattributed_escrows :: "database \<Rightarrow> string \<Rightarrow> string \<Rightarrow> chain_event_row list" where
  "unattributed_escrows db contractId network = take 100 (first_of_each []
     (filter (\<lambda>c. \<not> ce_attributed c \<and> ce_contractId c = Some contractId \<and> ce_network c = network \<and>
        ce_escrowOnChainId c \<noteq> None) (chainEvents db)))"

definition unknown_step ::
  "env \<Rightarrow> run_context \<Rightarrow> string \<Rightarrow> chain_event_row \<Rightarrow> database \<times> nat \<Rightarrow> database \<times> nat" where
  "unknown_step e rc contractId row = (\<lambda>(db, n).
     (let (db1, opened) = upsertFinding e db
            ((finding rc UNKNOWN_ON_CHAIN_OBJECT)\<lparr>fi_escrowOnChainId := ce_escrowOnChainId row,
               fi_chainState := Some ''exists on-chain, unattributed'',
               fi_metadata := [(''contractId'', JStr contractId),
                 (''firstSeenLedger'', JNum (ce_ledger row))]\<rparr>)
      in (db1, if opened then n + 1 else n)))"

definition reportUnattributedEscrows ::
  "env \<Rightarrow> run_context \<Rightarrow> string \<Rightarrow> string \<Rightarrow> database \<Rightarrow> database \<times> nat \<times> nat" where
  "reportUnattributedEscrows e rc contractId network db =
     (let rows = unattributed_escrows db contractId network;
          (db1, opened) = fold (unknown_step e rc contractId) rows (db, 0)
      in (db1, length rows, opened))"

section \<open>What a run may do\<close>

text \<open>The chain facts that let a run settle, or cancel, the payment with a given key.\<close>

definition settlement_evidence ::
  "chain_verifier \<Rightarrow> run_context \<Rightarrow> (escrow_row \<times> payment_row list) list \<Rightarrow> row_id \<Rightarrow> bool" where
  "settlement_evidence v rc work i \<longleftrightarrow>
     (\<exists>escrow rows p chain cp ts. (escrow, rows) \<in> set work \<and> p \<in> set rows \<and> pm_id p = i \<and>
        readEscrow v (the (es_onChainId escrow)) = Inr chain \<and> chain_slot chain p = Some cp \<and>
        cp_status cp = CHAIN_FINALIZED \<and>
        readTransfers v (payment_asset p cp) (ro_fromLedger (rc_options rc)) = Inr ts \<and>
        matchSettlementTransfer ts (expectation escrow chain p cp ts) \<noteq> [])"

definition cancellation_evidence ::
  "chain_verifier \<Rightarrow> (escrow_row \<times> payment_row list) list \<Rightarrow> row_id \<Rightarrow> bool" where
  "cancellation_evidence v work i \<longleftrightarrow>
     (\<exists>escrow rows p chain cp. (escrow, rows) \<in> set work \<and> p \<in> set rows \<and> pm_id p = i \<and>
        readEscrow v (the (es_onChainId escrow)) = Inr chain \<and> chain_slot chain p = Some cp \<and>
        cp_status cp = CHAIN_CANCELLED)"

definition licensed ::
  "chain_verifier \<Rightarrow> run_context \<Rightarrow> (escrow_row \<times> payment_row list) list \<Rightarrow> transition_request \<Rightarrow> bool" where
  "licensed v rc work req \<longleftrightarrow> rq_orgId req = rc_orgId rc \<and> rq_actor req = RECONCILER \<and>
     (rq_to req = PAID \<and> settlement_evidence v rc work (rq_paymentId req) \<or>
      rq_to req = CANCELLED \<and> cancellation_evidence v work (rq_paymentId req))"

lemma fst_report [simp]: "fst (report e inp st) = fst (upsertFinding e (fst st) inp)"
  by (simp add: report_def split: prod.splits)

lemma fst_count [simp]: "fst (count f st) = fst st"
  by (simp add: count_def split: prod.splits)

lemma fst_request [simp]: "fst (fst (request_transition e req st)) = fst (applyTransition e (fst st) req)"
  by (simp add: request_transition_def split: prod.splits)

lemma slot_finding_org [simp]: "fi_orgId (slot_finding rc k p n i d c) = rc_orgId rc"
  by (simp add: slot_finding_def finding_def)

lemma finding_org [simp]: "fi_orgId (finding rc k) = rc_orgId rc"
  by (simp add: finding_def)

lemma confirmed_matches:
  assumes "transfer_check e v rc escrow n chain p cp st = (st', TRANSFER_CONFIRMED, tx)"
  obtains ts where "readTransfers v (payment_asset p cp) (ro_fromLedger (rc_options rc)) = Inr ts"
    "matchSettlementTransfer ts (expectation escrow chain p cp ts) \<noteq> []"
proof (cases "readTransfers v (payment_asset p cp) (ro_fromLedger (rc_options rc))")
  case (Inr ts)
  let ?m = "matchSettlementTransfer ts (expectation escrow chain p cp ts)"
  have "?m \<noteq> []"
  proof
    assume none: "?m = []"
    then have "\<not> dp_duplicated (countDuplicateSettlementsInSameTransaction ?m)"
      by (simp add: duplicated_iff)
    then show False using assms Inr none by (simp add: transfer_check_def Let_def split: if_splits)
  qed
  then show ?thesis using that Inr by blast
qed (use assms in \<open>simp add: transfer_check_def\<close>)

text \<open>
  A property of the database that findings and licensed transitions keep is kept by a whole run.
\<close>

locale run_invariant =
  fixes e :: env and v :: chain_verifier and rc :: run_context
    and work :: "(escrow_row \<times> payment_row list) list" and I :: "database \<Rightarrow> bool"
  assumes on_finding: "I db \<Longrightarrow> fi_orgId inp = rc_orgId rc \<Longrightarrow> I (fst (upsertFinding e db inp))"
    and on_transition: "I db \<Longrightarrow> licensed v rc work req \<Longrightarrow> I (fst (applyTransition e db req))"
begin

lemma reports:
  "I (fst st) \<Longrightarrow> fi_orgId inp = rc_orgId rc \<Longrightarrow> I (fst (report e inp st))"
  by (simp add: on_finding)

lemma identity:
  "I (fst st) \<Longrightarrow> I (fst (fst (identity_checks e rc n p cp st)))"
  by (auto simp: identity_checks_def check_recipient_def check_amount_def check_asset_def on_finding
      split: if_splits)

lemma transfers:
  "I (fst st) \<Longrightarrow> I (fst (fst (transfer_check e v rc escrow n chain p cp st)))"
  by (auto simp: transfer_check_def Let_def on_finding split: sum.splits)

lemma slot:
  assumes "I (fst st)" and "(escrow, rows) \<in> set work" and "p \<in> set rows"
    and "readEscrow v (the (es_onChainId escrow)) = Inr chain" and "chain_slot chain p = Some cp"
  shows "I (fst (reconcile_slot e v rc escrow n chain p cp st))"
proof -
  obtain st1 bad where st1: "identity_checks e rc n p cp st = (st1, bad)" by fastforce
  then have i1: "I (fst st1)" using identity[OF assms(1), of n p cp] by simp
  obtain st2 verdict tx where st2:
    "(if cp_status cp = CHAIN_FINALIZED \<or> pm_state p = PAID
      then transfer_check e v rc escrow n chain p cp st1
      else (st1, NOT_APPLICABLE, pm_settlementTxHash p)) = (st2, verdict, tx)"
    by (metis prod_cases3)
  then have i2: "I (fst st2)"
    using i1 transfers[OF i1, of escrow n chain p cp] by (auto split: if_splits)
  have cancel: "I (fst (applyTransition e (fst st2) (cancel_request rc p)))"
    if "cp_status cp = CHAIN_CANCELLED"
  proof (rule on_transition[OF i2])
    have "cancellation_evidence v work (pm_id p)"
      unfolding cancellation_evidence_def using assms that by blast
    then show "licensed v rc work (cancel_request rc p)"
      by (simp add: licensed_def cancel_request_def)
  qed
  have settle: "I (fst (applyTransition e (fst st2) (settle_request rc n p cp tx)))"
    if "cp_status cp = CHAIN_FINALIZED" "verdict = TRANSFER_CONFIRMED"
  proof (rule on_transition[OF i2])
    have "transfer_check e v rc escrow n chain p cp st1 = (st2, TRANSFER_CONFIRMED, tx)"
      using st2 that by simp
    then obtain ts where "readTransfers v (payment_asset p cp) (ro_fromLedger (rc_options rc)) = Inr ts"
      "matchSettlementTransfer ts (expectation escrow chain p cp ts) \<noteq> []"
      by (rule confirmed_matches)
    then have "settlement_evidence v rc work (pm_id p)"
      unfolding settlement_evidence_def using assms that by blast
    then show "licensed v rc work (settle_request rc n p cp tx)"
      by (simp add: licensed_def settle_request_def)
  qed
  have branches: "reconcile_slot e v rc escrow n chain p cp st =
      (if cp_status cp = CHAIN_FINALIZED \<and> pm_state p \<noteq> PAID
       then chain_ahead e rc n p cp verdict tx st2
       else if pm_state p = PAID \<and> cp_status cp \<noteq> CHAIN_FINALIZED
       then database_ahead e rc n p cp verdict st2
       else if pm_state p = PAID then both_settled e rc n p cp verdict bad st2
       else if cp_status cp = CHAIN_CANCELLED \<and> pm_state p \<noteq> CANCELLED
       then let (st, changed) = request_transition e (cancel_request rc p) st2
            in if changed then count add_correction st else st
       else if \<not> bad then count add_agreed st2 else st2)"
    by (simp add: reconcile_slot_def st1 st2)
  have ahead: "I (fst (chain_ahead e rc n p cp verdict tx st2))" if "cp_status cp = CHAIN_FINALIZED"
  proof (cases verdict)
    case TRANSFER_CONFIRMED
    obtain st3 b where r: "request_transition e (settle_request rc n p cp tx) st2 = (st3, b)"
      by fastforce
    then have "I (fst st3)"
      using settle[OF that TRANSFER_CONFIRMED] fst_request[of e "settle_request rc n p cp tx" st2] by simp
    then show ?thesis by (simp add: chain_ahead_def TRANSFER_CONFIRMED r on_finding)
  next
    case NOT_APPLICABLE
    then show ?thesis using st2 that i1 by (auto simp: transfer_check_def Let_def split: sum.splits if_splits)
  qed (simp_all add: chain_ahead_def on_finding i2)
  obtain st4 b4 where r4: "request_transition e (cancel_request rc p) st2 = (st4, b4)"
    by fastforce
  then have i4: "I (fst st4)" if "cp_status cp = CHAIN_CANCELLED"
    using cancel[OF that] fst_request[of e "cancel_request rc p" st2] by simp
  show ?thesis
    unfolding branches using i2 i4 ahead
    by (simp add: r4 database_ahead_def both_settled_def on_finding)
qed

lemma payment:
  assumes "I (fst st)" and "(escrow, rows) \<in> set work" and "p \<in> set rows"
    and "readEscrow v (the (es_onChainId escrow)) = Inr chain"
  shows "I (fst (reconcile_payment e v rc escrow n chain p st))"
  using assms slot[of "count add_payment st"]
  by (auto simp: reconcile_payment_def Let_def on_finding split: option.split)

lemma all_payments:
  assumes "I (fst st)" and "(escrow, rows) \<in> set work"
    and "readEscrow v (the (es_onChainId escrow)) = Inr chain" and "set ps \<subseteq> set rows"
  shows "I (fst (fold (reconcile_payment e v rc escrow n chain) ps st))"
  using assms(1,4)
proof (induction ps arbitrary: st)
  case (Cons p ps)
  then show ?case using payment[OF _ assms(2) _ assms(3)] by simp
qed simp

lemma orphans: "I (fst st) \<Longrightarrow> I (fst (fold (report_orphan e rc n rows) cs st))"
  by (induction cs arbitrary: st) (auto simp: report_orphan_def on_finding)

lemma escrow:
  assumes "I (fst st)" and "x \<in> set work"
  shows "I (fst (reconcile_escrow e v rc x st))"
proof -
  obtain escrow rows where x: "x = (escrow, rows)" by fastforce
  show ?thesis
  proof (cases "readEscrow v (the (es_onChainId escrow))")
    case (Inl err)
    then show ?thesis
      using assms(1) by (simp add: reconcile_escrow_def x Let_def report_unreadable_def on_finding)
  next
    case (Inr chain)
    then show ?thesis
      using assms all_payments[OF orphans] by (simp add: reconcile_escrow_def x Let_def)
  qed
qed

lemma escrows:
  "I (fst st) \<Longrightarrow> set xs \<subseteq> set work \<Longrightarrow> I (fst (fold (reconcile_escrow e v rc) xs st))"
  by (induction xs arbitrary: st) (simp_all add: escrow)

lemma whole_run:
  assumes "I db" and "work = escrows_to_examine db (rc_orgId rc) (rc_options rc)"
  shows "I (fst (reconcileOrganization e v rc db))"
  using escrows[of "(db, no_tally)" work] assms by (simp add: reconcileOrganization_def)

end

section \<open>What a run does to payments\<close>

text \<open>One payment row, before and after: untouched, or moved once on the chain's evidence.\<close>

definition settled_by_evidence ::
  "env \<Rightarrow> chain_verifier \<Rightarrow> run_context \<Rightarrow> (escrow_row \<times> payment_row list) list \<Rightarrow> payment_row \<Rightarrow>
   payment_row \<Rightarrow> bool" where
  "settled_by_evidence e v rc work p q \<longleftrightarrow> q = p \<or>
     (\<exists>req. licensed v rc work req \<and> rq_paymentId req = pm_id p \<and> pm_orgId p = rc_orgId rc \<and>
        allowed (pm_state p) (rq_to req) RECONCILER \<and> q = set_state e req p)"

lemma upsertFinding_keeps [simp]:
  "payments (fst (upsertFinding e db inp)) = payments db"
  "transactions (fst (upsertFinding e db inp)) = transactions db"
  "chainEvents (fst (upsertFinding e db inp)) = chainEvents db"
  "escrows (fst (upsertFinding e db inp)) = escrows db"
  "reconciliationRuns (fst (upsertFinding e db inp)) = reconciliationRuns db"
  "auditEvents (fst (upsertFinding e db inp)) = auditEvents db"
  by (simp_all add: upsertFinding_def split: option.split)

lemma licensed_terminal: "licensed v rc work req \<Longrightarrow> isTerminal (rq_to req)"
  by (auto simp: licensed_def isTerminal_def TERMINAL_STATES_def)

lemma evidence_step:
  assumes "list_all2 (settled_by_evidence e v rc work) ps (payments db)"
    and "licensed v rc work req"
  shows "list_all2 (settled_by_evidence e v rc work) ps (payments (fst (applyTransition e db req)))"
proof (cases "applyTransition e db req")
  case (Pair db' out)
  show ?thesis
  proof (cases "\<exists>f t. out = Changed f t")
    case True
    then obtain f t where "applyTransition e db req = (db', Changed f t)" using Pair by blast
    then obtain p tr where read: "applyTransition_read db req = Inr (p, tr)"
      and commit: "applyTransition_commit e db req p = (db', Changed f t)"
      by (rule applyTransition_Changed)
    have rows: "payments db' = updated (\<lambda>q. pm_id q = pm_id p \<and> pm_orgId q = rq_orgId req \<and>
        pm_state q = f) (set_state e req) (payments db)"
      and f: "f = pm_state p"
      using commit_changed[OF commit] by blast+
    have ok: "pm_id p = rq_paymentId req" "allowed f (rq_to req) RECONCILER" "rq_orgId req = rc_orgId rc"
      using read_Inr[OF read] f assms(2) by (auto simp: licensed_def)
    have "settled_by_evidence e v rc work a (if pm_id q = pm_id p \<and> pm_orgId q = rq_orgId req \<and>
        pm_state q = f then set_state e req q else q)"
      if s: "settled_by_evidence e v rc work a q" for a q
    proof (cases "pm_id q = pm_id p \<and> pm_orgId q = rq_orgId req \<and> pm_state q = f")
      case True
      have "\<not> isTerminal f"
        using ok(2) payments.terminal_refuses by blast
      then have "a = q"
        using s True licensed_terminal by (auto simp: settled_by_evidence_def)
      then show ?thesis
        using True ok assms(2) by (auto simp: settled_by_evidence_def)
    next
      case False
      then show ?thesis using s by auto
    qed
    then show ?thesis
      unfolding Pair fst_conv rows updated_eq
      by (intro list_all2_map2[THEN iffD2] list_all2_mono[OF assms(1)]) simp
  next
    case False
    then show ?thesis using applyTransition_other[OF Pair] Pair assms(1) by simp
  qed
qed

interpretation evidence: run_invariant e v rc work
  "\<lambda>db. list_all2 (settled_by_evidence e v rc work) ps (payments db)" for e v rc work ps
  by unfold_locales (simp_all add: evidence_step)

section \<open>Findings\<close>

text \<open>The identities of the unresolved findings of an organization.\<close>

definition unresolved_problems ::
  "row_id \<Rightarrow> database \<Rightarrow> (finding_kind \<times> row_id option \<times> int option \<times> int option) list" where
  "unresolved_problems o' db =
     map (\<lambda>f. (fd_kind f, fd_paymentId f, fd_escrowOnChainId f, fd_paymentIndex f))
       (filter (\<lambda>f. fd_orgId f = o' \<and> fd_status f \<noteq> RESOLVED) (findings db))"

lemma observed_again_simps [simp]:
  "fd_id (observed_again e inp f) = fd_id f" "fd_orgId (observed_again e inp f) = fd_orgId f"
  "fd_kind (observed_again e inp f) = fd_kind f" "fd_status (observed_again e inp f) = fd_status f"
  "fd_paymentId (observed_again e inp f) = fd_paymentId f"
  "fd_escrowOnChainId (observed_again e inp f) = fd_escrowOnChainId f"
  "fd_paymentIndex (observed_again e inp f) = fd_paymentIndex f"
  "fd_txHash (observed_again e inp f) = fd_txHash f"
  "fd_metadata (observed_again e inp f) = fd_metadata f"
  "fd_severity (observed_again e inp f) = fd_severity f"
  by (simp_all add: observed_again_def)

lemma problems_observed:
  "unresolved_problems o' (db\<lparr>findings := updated P (observed_again e inp) (findings db)\<rparr>)
   = unresolved_problems o' db"
proof -
  have "map g (filter Q (updated P f t)) = map g (filter Q t)"
    if "\<And>r. Q (f r) = Q r" "\<And>r. g (f r) = g r" for g :: "finding_row \<Rightarrow> 'x" and Q P f t
    using that by (induction t) (auto simp: updated_eq)
  from this[of "\<lambda>f. fd_orgId f = o' \<and> fd_status f \<noteq> RESOLVED" "observed_again e inp"
      "\<lambda>f. (fd_kind f, fd_paymentId f, fd_escrowOnChainId f, fd_paymentIndex f)"]
  show ?thesis by (simp add: unresolved_problems_def)
qed

lemma upsert_problems:
  "unresolved_problems o' (fst (upsertFinding e db inp)) =
     (if fi_orgId inp = o' \<and> (fi_kind inp, fi_paymentId inp, fi_escrowOnChainId inp, fi_paymentIndex inp)
           \<notin> set (unresolved_problems o' db)
      then unresolved_problems o' db
        @ [(fi_kind inp, fi_paymentId inp, fi_escrowOnChainId inp, fi_paymentIndex inp)]
      else unresolved_problems o' db)"
proof (cases "findFirst (same_problem inp) (findings db)")
  case None
  then have "\<forall>f \<in> set (findings db). \<not> same_problem inp f" by simp
  then have "(fi_kind inp, fi_paymentId inp, fi_escrowOnChainId inp, fi_paymentIndex inp)
      \<notin> set (unresolved_problems (fi_orgId inp) db)"
    by (auto simp: unresolved_problems_def same_problem_def)
  then show ?thesis
    using None by (auto simp: upsertFinding_def unresolved_problems_def new_finding_def
        simp del: findFirst_None_iff)
next
  case (Some f)
  then have "f \<in> set (findings db)" "same_problem inp f" by (auto dest: findFirst_SomeD)
  then have "fi_orgId inp = o' \<Longrightarrow>
      (fi_kind inp, fi_paymentId inp, fi_escrowOnChainId inp, fi_paymentIndex inp)
      \<in> set (unresolved_problems o' db)"
    by (force simp: unresolved_problems_def same_problem_def)
  then show ?thesis using Some by (auto simp: upsertFinding_def problems_observed)
qed

lemma transition_problems [simp]:
  "unresolved_problems o' (fst (applyTransition e db req)) = unresolved_problems o' db"
proof (cases "applyTransition e db req")
  case (Pair db' out)
  then show ?thesis using applyTransition_keeps(10)[OF Pair] by (simp add: unresolved_problems_def)
qed

interpretation deduplicated: run_invariant e v rc work
  "\<lambda>db. distinct (unresolved_problems o' db)" for e v rc work o'
  by unfold_locales (auto simp: upsert_problems)

lemma problems_transactions [simp]:
  "unresolved_problems o' (db\<lparr>transactions := x\<rparr>) = unresolved_problems o' db"
  by (simp add: unresolved_problems_def)

definition false_failure :: "run_context \<Rightarrow> transaction_row \<Rightarrow> finding_input" where
  "false_failure rc tx = (finding rc FAILED_TX_ACTUALLY_SUCCEEDED)
     \<lparr>fi_paymentId := tx_paymentId tx, fi_txHash := tx_hash tx, fi_dbState := Some ''FAILED'',
      fi_chainState := Some ''SUCCESS'', fi_metadata := [(''transactionId'', JStr (tx_id tx))]\<rparr>"

lemma false_failure_org [simp]: "fi_orgId (false_failure rc tx) = rc_orgId rc"
  by (simp add: false_failure_def finding_def)

lemma fst_failed_step:
  "fst (failed_step e v rc tx (db, r)) =
     (case readTransactionSucceeded v (the (tx_hash tx)) of
        Inr True \<Rightarrow> (fst (upsertFinding e db (false_failure rc tx)))
          \<lparr>transactions := updated (\<lambda>t. tx_id t = tx_id tx) confirmed_after_all (transactions db)\<rparr>
      | _ \<Rightarrow> db)"
proof -
  have "transactions db1 = transactions db" if "upsertFinding e db inp = (db1, b)" for inp db1 b
    using upsertFinding_keeps(2)[of e db inp] that by simp
  then show ?thesis
    by (auto simp: failed_step_def false_failure_def Let_def split: sum.split bool.split prod.split)
qed

lemma fst_unknown_step:
  "fst (unknown_step e rc contractId row (db, n)) = fst (upsertFinding e db
     ((finding rc UNKNOWN_ON_CHAIN_OBJECT)\<lparr>fi_escrowOnChainId := ce_escrowOnChainId row,
        fi_chainState := Some ''exists on-chain, unattributed'',
        fi_metadata := [(''contractId'', JStr contractId), (''firstSeenLedger'', JNum (ce_ledger row))]\<rparr>))"
  by (simp add: unknown_step_def Let_def split: prod.split)

lemma upsert_distinct:
  "distinct (unresolved_problems o' db) \<Longrightarrow> distinct (unresolved_problems o' (fst (upsertFinding e db inp)))"
  by (simp add: upsert_problems)

definition landed :: "chain_verifier \<Rightarrow> transaction_row \<Rightarrow> bool" where
  "landed v t \<longleftrightarrow> readTransactionSucceeded v (the (tx_hash t)) = Inr True"

lemma confirmed_again [simp]:
  "confirmed_after_all (confirmed_after_all t) = confirmed_after_all t"
  "tx_id (confirmed_after_all t) = tx_id t" "tx_orgId (confirmed_after_all t) = tx_orgId t"
  "tx_status (confirmed_after_all t) = CONFIRMED"
  by (simp_all add: confirmed_after_all_def)

lemma failed_step_transactions:
  "transactions (fst (failed_step e v rc x st)) =
     (if landed v x then updated (\<lambda>t. tx_id t = tx_id x) confirmed_after_all (transactions (fst st))
      else transactions (fst st))"
  by (cases st) (auto simp: fst_failed_step landed_def split: sum.splits bool.splits)

lemma failed_fold_transactions:
  "transactions (fst (fold (failed_step e v rc) xs st)) =
     map (\<lambda>t. if tx_id t \<in> tx_id ` {x \<in> set xs. landed v x} then confirmed_after_all t else t)
       (transactions (fst st))"
proof (induction xs arbitrary: st)
  case (Cons x xs)
  show ?case
    unfolding fold.simps comp_apply Cons.IH failed_step_transactions
    by (cases "landed v x") (auto simp: updated_eq)
qed simp

lemma failed_fold_payments: "payments (fst (fold (failed_step e v rc) xs st)) = payments (fst st)"
proof (induction xs arbitrary: st)
  case (Cons x xs)
  have "payments (fst (failed_step e v rc x st)) = payments (fst st)"
    by (cases st) (auto simp: fst_failed_step split: sum.splits bool.splits)
  then show ?case using Cons.IH by simp
qed simp

lemma failed_fold_count:
  "fc_falselyFailed (snd (fold (failed_step e v rc) xs st))
     = fc_falselyFailed (snd st) + length (filter (landed v) xs) \<and>
   fc_checked (snd (fold (failed_step e v rc) xs st)) = fc_checked (snd st)"
proof (induction xs arbitrary: st)
  case (Cons x xs)
  have "fc_falselyFailed (snd (failed_step e v rc x st))
      = fc_falselyFailed (snd st) + (if landed v x then 1 else 0)"
    "fc_checked (snd (failed_step e v rc x st)) = fc_checked (snd st)"
    by (cases st; auto simp: failed_step_def landed_def Let_def
        split: sum.splits bool.splits prod.splits)+
  then show ?case using Cons.IH[of "failed_step e v rc x st"] by simp
qed simp

lemma take_two: "2 < n \<Longrightarrow> take n xs = [a, b] \<Longrightarrow> xs = [a, b]"
  by (metis length_Cons length_take list.size(3) min_def nat_neq_iff numeral_2_eq_2 order.refl take_all)

section \<open>Counters\<close>

text \<open>The counters by which a payment leaves a trace in the result of a run.\<close>

definition accounted :: "tally \<Rightarrow> nat" where
  "accounted t = ty_agreed t + ty_mismatched t + ty_unreadable t + ty_databaseAhead t
     + ty_correctionsApplied t"

lemma accounted_simps [simp]:
  "accounted (snd (report e inp st)) = accounted (snd st)"
  "accounted (snd (count add_mismatched st)) = Suc (accounted (snd st))"
  "accounted (snd (count add_agreed st)) = Suc (accounted (snd st))"
  "accounted (snd (count add_unreadable st)) = Suc (accounted (snd st))"
  "accounted (snd (count add_databaseAhead st)) = Suc (accounted (snd st))"
  "accounted (snd (count add_correction st)) = Suc (accounted (snd st))"
  "accounted (snd (count add_chainAhead st)) = accounted (snd st)"
  "accounted (snd (count add_payment st)) = accounted (snd st)"
  "accounted (snd (fst (request_transition e req st))) = accounted (snd st)"
  by (simp_all add: accounted_def report_def count_def request_transition_def tally_defs split: prod.splits)

lemma identity_mismatch:
  assumes "identity_checks e rc n p cp st = (st', bad)"
  shows "accounted (snd st') = accounted (snd st) + (if bad then 1 else 0)"
    and "bad \<longleftrightarrow> pm_recipientAddress p \<noteq> cp_worker cp \<or> pm_amountBaseUnits p \<noteq> cp_amountBaseUnits cp \<or>
      truthy (pm_assetContractId p) \<and> pm_assetContractId p \<noteq> Some (cp_token cp)"
    and "\<not> bad \<Longrightarrow> st' = st"
  using assms
  by (auto simp: identity_checks_def check_recipient_def check_amount_def check_asset_def
      split: if_splits)

lemma transfer_check_accounted:
  "transfer_check e v rc escrow n chain p cp st = (st', verdict, tx) \<Longrightarrow>
   accounted (snd st) \<le> accounted (snd st') \<and> verdict \<noteq> NOT_APPLICABLE"
  by (auto simp: transfer_check_def Let_def split: sum.splits if_splits)

text \<open>The states from which the table refuses the reconciler the move to \<open>CANCELLED\<close>.\<close>

definition uncancellable :: "payment_state list" where
  "uncancellable = [DRAFT, VALIDATING, SUBMITTING, CONFIRMING, SUBMISSION_FAILED, SETTLEMENT_FAILED,
     REJECTED, EXPIRED]"

lemma reconciler_cancels:
  "s \<noteq> PAID \<Longrightarrow> s \<noteq> CANCELLED \<Longrightarrow> allowed s CANCELLED RECONCILER \<longleftrightarrow> s \<notin> set uncancellable"
  by (cases s)
    (simp_all add: allowed_iff table_defs permitted_def RECONCILER_def uncancellable_def)

lemma request_unique:
  assumes "p \<in> set (payments db)" "distinct (map pm_id (payments db))" "pm_id p = rq_paymentId req"
    "pm_orgId p = rq_orgId req" "pm_state p \<noteq> rq_to req"
  shows "snd (request_transition e req (db, t)) \<longleftrightarrow> allowed (pm_state p) (rq_to req) (rq_actor req)"
    and "\<not> allowed (pm_state p) (rq_to req) (rq_actor req) \<Longrightarrow>
      fst (request_transition e req (db, t)) = (db, t)"
proof -
  have found: "findFirst (\<lambda>p. pm_id p = rq_paymentId req \<and> pm_orgId p = rq_orgId req) (payments db) = Some p"
    by (rule findFirst_unique[where g = pm_id]) (use assms in auto)
  obtain db' where commit: "applyTransition_commit e db req p = (db', Changed (pm_state p) (rq_to req))"
    using commit_at_once[of p db req e] assms by auto
  show "snd (request_transition e req (db, t)) \<longleftrightarrow> allowed (pm_state p) (rq_to req) (rq_actor req)"
    using assms(5)
    by (auto simp: request_transition_def applyTransition_def applyTransition_read_def found commit
        allowed_def split: sum.splits prod.splits)
  show "fst (request_transition e req (db, t)) = (db, t)"
    if "\<not> allowed (pm_state p) (rq_to req) (rq_actor req)"
    using assms(5) that
    by (auto simp: request_transition_def applyTransition_def applyTransition_read_def found
        allowed_def split: sum.splits prod.splits)
qed

lemma slot_accounted:
  assumes "identity_checks e rc n p cp st = (st1, bad)"
  shows "accounted (snd st1) \<le> accounted (snd (reconcile_slot e v rc escrow n chain p cp st)) \<and>
    (\<not> bad \<longrightarrow> \<not> (cp_status cp = CHAIN_CANCELLED \<and> pm_state p \<noteq> PAID \<and> pm_state p \<noteq> CANCELLED) \<longrightarrow>
     accounted (snd st1) < accounted (snd (reconcile_slot e v rc escrow n chain p cp st)))"
proof -
  obtain st2 verdict tx where st2:
    "(if cp_status cp = CHAIN_FINALIZED \<or> pm_state p = PAID
      then transfer_check e v rc escrow n chain p cp st1
      else (st1, NOT_APPLICABLE, pm_settlementTxHash p)) = (st2, verdict, tx)"
    by (metis prod_cases3)
  then have le: "accounted (snd st1) \<le> accounted (snd st2)"
    using transfer_check_accounted[of e v rc escrow n chain p cp st1 st2 verdict tx]
    by (auto split: if_splits)
  have changed: "accounted (snd st') = accounted (snd st2)"
    if "request_transition e req st2 = (st', b)" for req st' b
    using accounted_simps(9)[of e req st2] that by simp
  have ahead: "accounted (snd st2) < accounted (snd (chain_ahead e rc n p cp verdict tx st2))"
  proof -
    obtain st4 c where r: "request_transition e (settle_request rc n p cp tx) st2 = (st4, c)" by fastforce
    show ?thesis using changed[OF r] by (simp add: chain_ahead_def r)
  qed
  have both: "accounted (snd st2) \<le> accounted (snd (both_settled e rc n p cp verdict bad st2)) \<and>
      (\<not> bad \<longrightarrow> accounted (snd st2) < accounted (snd (both_settled e rc n p cp verdict bad st2)))"
    by (simp add: both_settled_def)
  have slot: "reconcile_slot e v rc escrow n chain p cp st =
      (if cp_status cp = CHAIN_FINALIZED \<and> pm_state p \<noteq> PAID
       then chain_ahead e rc n p cp verdict tx st2
       else if pm_state p = PAID \<and> cp_status cp \<noteq> CHAIN_FINALIZED
       then database_ahead e rc n p cp verdict st2
       else if pm_state p = PAID then both_settled e rc n p cp verdict bad st2
       else if cp_status cp = CHAIN_CANCELLED \<and> pm_state p \<noteq> CANCELLED
       then let (st, changed) = request_transition e (cancel_request rc p) st2
            in if changed then count add_correction st else st
       else if \<not> bad then count add_agreed st2 else st2)"
    by (simp add: reconcile_slot_def assms st2)
  obtain st3 c where r: "request_transition e (cancel_request rc p) st2 = (st3, c)" by fastforce
  show ?thesis
    unfolding slot using le ahead both changed[OF r] by (auto simp: r database_ahead_def)
qed

section \<open>Properties\<close>

definition sample_custody :: escrow_row where
  "sample_custody = \<lparr>es_id = ''e1'', es_orgId = ''o1'', es_onChainId = Some 7, es_contractId = ''C'',
     es_network = ''testnet'', es_managerAddress = ''GM'', es_financeApproverAddress = ''GF'',
     es_assetDecimals = 7, es_totalAmountBaseUnits = 100, es_managerApproved = True,
     es_financeApproved = True, es_cancelled = False, es_oracleRotations = 0, es_projectId = None,
     es_oraclePublicKey = None, es_tokenAddress = None, es_createdAt = 0\<rparr>"

definition sample_slot :: "int \<Rightarrow> chain_payment_facts" where
  "sample_slot status = \<lparr>cp_index = 0, cp_worker = ''GW'', cp_token = ''T'', cp_amountBaseUnits = 100,
     cp_hours = 10, cp_proofVerified = True, cp_status = status\<rparr>"

definition sample_facts :: "int \<Rightarrow> chain_escrow_facts" where
  "sample_facts status = \<lparr>cf_onChainId = 7, cf_manager = ''GM'', cf_financeApprover = ''GF'',
     cf_managerApproved = True, cf_financeApproved = True, cf_cancelled = False,
     cf_payments = [sample_slot status]\<rparr>"

definition sample_transfers :: "observed_transfer list" where
  "sample_transfers = batch_transfers ''C'' ''h'' 3 [sample_payee]"

definition sample_verifier :: "int \<Rightarrow> observed_transfer list \<Rightarrow> chain_verifier" where
  "sample_verifier status ts =
     \<lparr>readEscrow = (\<lambda>i. if i = 7 then Inr (sample_facts status) else Inl (Not_found ''absent'')),
      readTransfers = (\<lambda>_ _. Inr ts), readTransactionSucceeded = (\<lambda>_. Inr True),
      findEscrowsCreatedByTransaction = (\<lambda>_. Inr [7])\<rparr>"

definition sample_run :: run_context where
  "sample_run = \<lparr>rc_orgId = ''o1'', rc_runId = ''r1'', rc_correlationId = ''rec'',
     rc_options = \<lparr>ro_contractId = None, ro_network = None, ro_maxEscrows = None, ro_fromLedger = None\<rparr>\<rparr>"

text \<open>
  C4: A run moves a payment only on the chain's evidence, and never touches a finished one. Every
  payment row is after the run what it was before, or it was in a state that is not terminal and
  was moved once: to \<open>PAID\<close>, and then contract storage reports its slot finalized and the token
  contract's own events hold a transfer of exactly the slot's amount from the escrow contract to
  the slot's payee; or to \<open>CANCELLED\<close>, and then storage reports its slot cancelled. Whose payment it
  is, and how much, never changes, and no row appears or goes.
\<close>

theorem reconciler_settles_on_evidence:
  assumes "reconcileOrganization e v rc db = (db', t)"
    and "work = escrows_to_examine db (rc_orgId rc) (rc_options rc)"
  shows "list_all2 (\<lambda>p q. q = p \<or>
      \<not> isTerminal (pm_state p) \<and> pm_orgId p = rc_orgId rc \<and>
      (pm_state q = PAID \<and> settlement_evidence v rc work (pm_id p) \<or>
       pm_state q = CANCELLED \<and> cancellation_evidence v work (pm_id p)) \<and>
      pm_id q = pm_id p \<and> pm_orgId q = pm_orgId p \<and> pm_recipientAddress q = pm_recipientAddress p \<and>
      pm_amountBaseUnits q = pm_amountBaseUnits p \<and> pm_escrowId q = pm_escrowId p \<and>
      pm_onChainPaymentIndex q = pm_onChainPaymentIndex p) (payments db) (payments db')"
proof -
  have "list_all2 (settled_by_evidence e v rc work) (payments db) (payments db')"
    using evidence.whole_run[of e v rc work "payments db" db] assms
    by (simp add: list_all2_refl settled_by_evidence_def)
  then show ?thesis
    by (rule list_all2_mono)
      (auto simp: settled_by_evidence_def licensed_def dest: payments.terminal_refuses)
qed

theorem reconciler_settles_on_evidence_witness:
  "let db = sample_db\<lparr>escrows := [sample_custody]\<rparr>;
       v = sample_verifier 3 sample_transfers;
       (db', t) = reconcileOrganization sample_clock v sample_run db
   in map pm_state (payments db') = [PAID] \<and> ty_correctionsApplied t = 1 \<and>
      settlement_evidence v sample_run
        (escrows_to_examine db (rc_orgId sample_run) (rc_options sample_run)) ''p1''"
proof -
  let ?db = "sample_db\<lparr>escrows := [sample_custody]\<rparr>"
  let ?v = "sample_verifier 3 sample_transfers"
  obtain db' t where run: "reconcileOrganization sample_clock ?v sample_run ?db = (db', t)"
    by fastforce
  have out: "map pm_state (payments (fst (reconcileOrganization sample_clock ?v sample_run ?db))) = [PAID]
      \<and> ty_correctionsApplied (snd (reconcileOrganization sample_clock ?v sample_run ?db)) = 1"
    by code_simp
  have one: "payments ?db = [sample_payment]" "pm_id sample_payment = ''p1''"
    "pm_state sample_payment = READY_TO_SETTLE" by (simp_all add: sample_payment_def)
  show ?thesis
    using reconciler_settles_on_evidence[OF run refl] out run one
    by (auto simp: Let_def list_all2_Cons1)
qed

text \<open>
  A finding is observed again, not opened again. If no organization's problem is recorded twice
  among its unresolved findings, then this is so after each of the three passes of a run, whatever
  the chain answered.
\<close>

theorem findings_not_duplicated:
  assumes "distinct (unresolved_problems o' db)"
  shows "distinct (unresolved_problems o' (fst (reconcileOrganization e v rc db))) \<and>
    distinct (unresolved_problems o' (fst (reconcileFailedTransactions e v rc db))) \<and>
    distinct (unresolved_problems o' (fst (reportUnattributedEscrows e rc contractId network db)))"
proof (intro conjI)
  show "distinct (unresolved_problems o' (fst (reconcileOrganization e v rc db)))"
    using deduplicated.whole_run assms by blast
next
  have "distinct (unresolved_problems o' (fst (failed_step e v rc x st)))"
    if "distinct (unresolved_problems o' (fst st))" for x st
    using that by (cases st) (auto simp: fst_failed_step upsert_distinct split: sum.splits bool.splits)
  then have "distinct (unresolved_problems o' (fst (fold (failed_step e v rc) xs st)))"
    if "distinct (unresolved_problems o' (fst st))" for xs st
    using that by (induction xs arbitrary: st) simp_all
  then show "distinct (unresolved_problems o' (fst (reconcileFailedTransactions e v rc db)))"
    using assms by (simp add: reconcileFailedTransactions_def Let_def)
next
  have "distinct (unresolved_problems o' (fst (unknown_step e rc contractId x st)))"
    if "distinct (unresolved_problems o' (fst st))" for x st
    using that by (cases st) (simp add: fst_unknown_step upsert_distinct)
  then have "distinct (unresolved_problems o' (fst (fold (unknown_step e rc contractId) xs st)))"
    if "distinct (unresolved_problems o' (fst st))" for xs st
    using that by (induction xs arbitrary: st) simp_all
  from this[of "(db, 0)"] show
    "distinct (unresolved_problems o' (fst (reportUnattributedEscrows e rc contractId network db)))"
    using assms by (simp add: reportUnattributedEscrows_def Let_def split: prod.splits)
      (metis fst_conv)
qed

theorem findings_not_duplicated_witness:
  "let db = sample_db\<lparr>escrows := [sample_custody]\<rparr>; v = sample_verifier 3 []; again = (\<lambda>db.
         fst (reconcileOrganization sample_clock v sample_run db))
   in distinct (unresolved_problems ''o1'' (again (again db))) \<and>
      map fd_kind (findings (again (again db))) = [MISSING_PAYMENT_EVENT]"
proof -
  let ?db = "sample_db\<lparr>escrows := [sample_custody]\<rparr>"
  let ?again = "\<lambda>db. fst (reconcileOrganization sample_clock (sample_verifier 3 []) sample_run db)"
  have "distinct (unresolved_problems ''o1'' ?db)" by code_simp
  then have "distinct (unresolved_problems ''o1'' (?again ?db))"
    using findings_not_duplicated by blast
  moreover have "map fd_kind (findings (?again (?again ?db))) = [MISSING_PAYMENT_EVENT]"
    by code_simp
  ultimately show ?thesis
    using findings_not_duplicated[of "''o1''" "?again ?db"] by (simp add: Let_def)
qed

text \<open>
  A payment is examined without leaving any trace in exactly one case: the chain has cancelled
  its slot and the table refuses the reconciler the cancellation, because the payment is, among
  others, \<open>SUBMITTING\<close> or \<open>CONFIRMING\<close>. Then no counter moves, nothing is recorded and the payment
  stays where it is; every other payment is counted as agreed, mismatched, unreadable, ahead of the
  chain or corrected.
\<close>

theorem unreported_exactly_when_cancellation_refused:
  assumes "p \<in> set (payments db)" and "distinct (map pm_id (payments db))"
    and "pm_orgId p = rc_orgId rc"
  shows "reconcile_payment e v rc escrow n chain p (db, t) = (db, add_payment t) \<longleftrightarrow>
    (\<exists>cp. chain_slot chain p = Some cp \<and> cp_status cp = CHAIN_CANCELLED \<and>
       pm_recipientAddress p = cp_worker cp \<and> pm_amountBaseUnits p = cp_amountBaseUnits cp \<and>
       (truthy (pm_assetContractId p) \<longrightarrow> pm_assetContractId p = Some (cp_token cp)) \<and>
       pm_state p \<in> set uncancellable)"
proof (cases "chain_slot chain p")
  case None
  have "snd (reconcile_payment e v rc escrow n chain p (db, t)) \<noteq> add_payment t"
  proof
    assume "snd (reconcile_payment e v rc escrow n chain p (db, t)) = add_payment t"
    then have "accounted (snd (reconcile_payment e v rc escrow n chain p (db, t)))
        = accounted (snd (count add_payment (db, t)))" by (simp add: count_def)
    then show False using None by (simp add: reconcile_payment_def Let_def)
  qed
  then show ?thesis using None by auto
next
  case (Some cp)
  let ?st = "count add_payment (db, t)"
  obtain st1 bad where st1: "identity_checks e rc n p cp ?st = (st1, bad)" by fastforce
  note bad = identity_mismatch[OF st1] and more = slot_accounted[OF st1, of v escrow chain]
  have run: "reconcile_payment e v rc escrow n chain p (db, t)
      = reconcile_slot e v rc escrow n chain p cp ?st"
    by (simp add: reconcile_payment_def Let_def Some)
  have st: "?st = (db, add_payment t)" by (simp add: count_def)
  show ?thesis
  proof (cases "\<not> bad \<and> cp_status cp = CHAIN_CANCELLED \<and> pm_state p \<noteq> PAID \<and> pm_state p \<noteq> CANCELLED")
    case False
    then have "accounted (snd ?st) < accounted (snd (reconcile_slot e v rc escrow n chain p cp ?st))"
      using more bad(1) by (cases bad) auto
    then have "reconcile_slot e v rc escrow n chain p cp ?st \<noteq> ?st" by auto
    then show ?thesis
      using False run st Some bad(2) by (auto simp: uncancellable_def)
  next
    case True
    then have st1': "st1 = (db, add_payment t)" using bad(3) st by simp
    note req = request_unique[of p db "cancel_request rc p" e "add_payment t"]
    have ok: "snd (request_transition e (cancel_request rc p) (db, add_payment t))
        \<longleftrightarrow> pm_state p \<notin> set uncancellable"
      and same: "pm_state p \<in> set uncancellable \<Longrightarrow>
        fst (request_transition e (cancel_request rc p) (db, add_payment t)) = (db, add_payment t)"
      using req assms True reconciler_cancels[of "pm_state p"] by (simp_all add: cancel_request_def)
    have slot: "reconcile_slot e v rc escrow n chain p cp ?st =
        (let (st, changed) = request_transition e (cancel_request rc p) (db, add_payment t)
         in if changed then count add_correction st else st)"
      using True by (simp add: reconcile_slot_def st1 st1' CHAIN_CANCELLED_def CHAIN_FINALIZED_def)
    obtain st2 c where r: "request_transition e (cancel_request rc p) (db, add_payment t) = (st2, c)"
      by fastforce
    have "accounted (snd st2) = accounted (add_payment t)"
      using accounted_simps(9)[of e "cancel_request rc p" "(db, add_payment t)"] r by simp
    then have "count add_correction st2 \<noteq> (db, add_payment t)"
      using accounted_simps(6)[of st2] by (metis n_not_Suc_n snd_conv)
    then show ?thesis
      using True ok same run slot Some bad(2) by (auto simp: r)
  qed
qed

theorem unreported_exactly_when_cancellation_refused_witness:
  "let db = empty_db\<lparr>payments := [sample_payment\<lparr>pm_state := SUBMITTING\<rparr>]\<rparr>
   in reconcile_payment sample_clock (sample_verifier 4 []) sample_run sample_custody 7 (sample_facts 4)
        (sample_payment\<lparr>pm_state := SUBMITTING\<rparr>) (db, no_tally) = (db, add_payment no_tally)"
proof -
  let ?p = "sample_payment\<lparr>pm_state := SUBMITTING\<rparr>"
  have "chain_slot (sample_facts 4) ?p = Some (sample_slot 4)" by code_simp
  then show ?thesis
    using unreported_exactly_when_cancellation_refused[of ?p "empty_db\<lparr>payments := [?p]\<rparr>" sample_run]
    by (simp add: sample_payment_def sample_run_def sample_slot_def CHAIN_CANCELLED_def uncancellable_def)
qed

text \<open>
  A double payment counts as agreed. When both sides call a payment settled and the identity
  agrees, two transfers for it in one transaction raise the count of mismatched payments and the
  count of agreed ones, although agreement is meant for payments about which nothing disagreed.
\<close>

theorem double_payment_counted_as_agreed:
  assumes "pm_state p = PAID" and "chain_slot chain p = Some cp" and "cp_status cp = CHAIN_FINALIZED"
    and "pm_recipientAddress p = cp_worker cp" and "pm_amountBaseUnits p = cp_amountBaseUnits cp"
    and "pm_assetContractId p = Some (cp_token cp)"
    and "readTransfers v (cp_token cp) (ro_fromLedger (rc_options rc)) = Inr ts"
    and "dp_duplicated (countDuplicateSettlementsInSameTransaction
           (matchSettlementTransfer ts (expectation escrow chain p cp ts)))"
    and "reconcile_payment e v rc escrow n chain p (db, t) = (db', t')"
  shows "ty_agreed t' = ty_agreed t + 1 \<and> ty_mismatched t' = ty_mismatched t + 1 \<and>
    ty_paymentsExamined t' = ty_paymentsExamined t + 1"
proof -
  have counters: "ty_agreed (snd (report e inp st)) = ty_agreed (snd st)"
    "ty_mismatched (snd (report e inp st)) = ty_mismatched (snd st)"
    "ty_paymentsExamined (snd (report e inp st)) = ty_paymentsExamined (snd st)" for inp st
    by (simp_all add: report_def tally_defs split: prod.splits)
  have "identity_checks e rc n p cp st = (st, False)" for st
    using assms(4,5,6)
    by (simp add: identity_checks_def check_recipient_def check_amount_def check_asset_def)
  moreover have "payment_asset p cp = cp_token cp" using assms(6) by (simp add: payment_asset_def)
  ultimately have "t' = snd (reconcile_payment e v rc escrow n chain p (db, t))" and
    "reconcile_payment e v rc escrow n chain p (db, t) = (let (st, verdict, tx) =
       transfer_check e v rc escrow n chain p cp (count add_payment (db, t))
     in both_settled e rc n p cp verdict False st)"
    using assms(1,2,3,9) by (simp_all add: reconcile_payment_def reconcile_slot_def Let_def split: prod.splits)
  moreover obtain inp tx where "transfer_check e v rc escrow n chain p cp (count add_payment (db, t))
      = (count add_mismatched (report e inp (count add_payment (db, t))), TRANSFER_CONFIRMED, tx)"
    using assms(7,8) \<open>payment_asset p cp = cp_token cp\<close> by (auto simp: transfer_check_def Let_def)
  ultimately have "t' = snd (count add_agreed (count add_mismatched
      (report e inp (count add_payment (db, t)))))"
    by (simp add: both_settled_def)
  then show ?thesis
    using counters[of inp "count add_payment (db, t)"]
    by (simp add: count_def tally_defs split: prod.splits)
qed

theorem double_payment_counted_as_agreed_witness:
  "let p = sample_payment\<lparr>pm_state := PAID, pm_assetContractId := Some ''T''\<rparr>;
       v = sample_verifier 3 (sample_transfers @ sample_transfers);
       (db, t) = reconcile_payment sample_clock v sample_run sample_custody 7 (sample_facts 3) p
         (sample_db, no_tally)
   in ty_agreed t = 1 \<and> ty_mismatched t = 1"
proof -
  let ?p = "sample_payment\<lparr>pm_state := PAID, pm_assetContractId := Some ''T''\<rparr>"
  let ?v = "sample_verifier 3 (sample_transfers @ sample_transfers)"
  obtain db t where run: "reconcile_payment sample_clock ?v sample_run sample_custody 7 (sample_facts 3) ?p
      (sample_db, no_tally) = (db, t)" by fastforce
  have slot: "chain_slot (sample_facts 3) ?p = Some (sample_slot 3)"
    and dup: "dp_duplicated (countDuplicateSettlementsInSameTransaction (matchSettlementTransfer
      (sample_transfers @ sample_transfers)
      (expectation sample_custody (sample_facts 3) ?p (sample_slot 3) (sample_transfers @ sample_transfers))))"
    by code_simp+
  have "ty_agreed t = ty_agreed no_tally + 1 \<and> ty_mismatched t = ty_mismatched no_tally + 1 \<and>
      ty_paymentsExamined t = ty_paymentsExamined no_tally + 1"
    by (rule double_payment_counted_as_agreed[OF _ slot _ _ _ _ _ dup run])
      (simp_all add: sample_slot_def sample_payment_def sample_verifier_def CHAIN_FINALIZED_def)
  then show ?thesis using run by (simp add: no_tally_def)
qed

text \<open>
  The second pass corrects exactly the false failures. Of the first 200 transactions recorded as
  failed with a hash, those whose success the chain confirms become confirmed and all others stay
  as they are, also those the chain could not be asked about; no payment changes, and the result
  counts what was checked and what was corrected.
\<close>

theorem failed_transactions_corrected_exactly:
  assumes "reconcileFailedTransactions e v rc db = (db', r)"
    and "distinct (map tx_id (transactions db))"
  shows "transactions db' = map (\<lambda>t. if t \<in> set (failed_transactions db (rc_orgId rc)) \<and>
      readTransactionSucceeded v (the (tx_hash t)) = Inr True then confirmed_after_all t else t)
      (transactions db) \<and>
    payments db' = payments db \<and>
    fc_checked r = length (failed_transactions db (rc_orgId rc)) \<and>
    fc_falselyFailed r = length (filter (\<lambda>t. readTransactionSucceeded v (the (tx_hash t)) = Inr True)
      (failed_transactions db (rc_orgId rc)))"
proof -
  let ?failed = "failed_transactions db (rc_orgId rc)"
  have sub: "set ?failed \<subseteq> set (transactions db)"
    by (auto simp: failed_transactions_def dest: in_set_takeD)
  have "tx_id t \<in> tx_id ` {x \<in> set ?failed. landed v x} \<longleftrightarrow> t \<in> set ?failed \<and> landed v t"
    if "t \<in> set (transactions db)" for t
    using assms(2) sub that by (auto simp: distinct_map inj_on_def)
  then have "map (\<lambda>t. if tx_id t \<in> tx_id ` {x \<in> set ?failed. landed v x} then confirmed_after_all t else t)
      (transactions db)
    = map (\<lambda>t. if t \<in> set ?failed \<and> landed v t then confirmed_after_all t else t) (transactions db)"
    by (intro map_cong) simp_all
  moreover have "(db', r) = fold (failed_step e v rc) ?failed
      (db, \<lparr>fc_checked = length ?failed, fc_falselyFailed = 0, fc_findingsOpened = 0\<rparr>)"
    using assms(1) by (simp add: reconcileFailedTransactions_def Let_def)
  ultimately show ?thesis
    using failed_fold_transactions[of e v rc ?failed] failed_fold_payments[of e v rc ?failed]
      failed_fold_count[of e v rc ?failed]
    unfolding landed_def by (metis (no_types, lifting) add_0 failed_check.select_convs(1,2) fst_conv snd_conv)
qed

definition sample_failed :: "string \<Rightarrow> string \<Rightarrow> transaction_row" where
  "sample_failed i h = \<lparr>tx_id = i, tx_orgId = ''o1'', tx_paymentId = None, tx_escrowId = None,
     tx_kind = INITIALIZE_ESCROW, tx_status = FAILED, tx_idempotencyKey = i, tx_attempt = 1,
     tx_hash = Some h, tx_contractId = None, tx_batchId = None, tx_network = ''testnet'', tx_plan = None,
     tx_planDigest = None, tx_errorMessage = None, tx_createdAt = 0, tx_submittedAt = None,
     tx_confirmedAt = None\<rparr>"

theorem failed_transactions_corrected_exactly_witness:
  "let db = empty_db\<lparr>transactions := [sample_failed ''t1'' ''h1'']\<rparr>;
       (db', r) = reconcileFailedTransactions sample_clock (sample_verifier 3 []) sample_run db
   in map tx_status (transactions db') = [CONFIRMED] \<and> fc_falselyFailed r = 1"
proof -
  let ?db = "empty_db\<lparr>transactions := [sample_failed ''t1'' ''h1'']\<rparr>"
  obtain db' r where run:
    "reconcileFailedTransactions sample_clock (sample_verifier 3 []) sample_run ?db = (db', r)"
    by fastforce
  have "failed_transactions ?db ''o1'' = [sample_failed ''t1'' ''h1'']" by code_simp
  then show ?thesis
    using failed_transactions_corrected_exactly[OF run] run
    by (simp add: sample_run_def sample_verifier_def)
qed

text \<open>
  Two false failures share one finding. When two failed transactions that name the same payment,
  or, like funding transactions, none, turn out to have succeeded, one finding is opened. It keeps
  the hash of the first; the second only raises the count, so that the hash of a settlement that
  must not be retried is in no finding, and as both rows are confirmed now no later run reports it.
\<close>

theorem false_failures_share_a_finding:
  assumes "reconcileFailedTransactions e v rc db = (db', r)"
    and "failed_transactions db (rc_orgId rc) = [a, b]"
    and "readTransactionSucceeded v (the (tx_hash a)) = Inr True"
    and "readTransactionSucceeded v (the (tx_hash b)) = Inr True"
    and "tx_paymentId b = tx_paymentId a"
    and "(FAILED_TX_ACTUALLY_SUCCEEDED, tx_paymentId a, None, None)
           \<notin> set (unresolved_problems (rc_orgId rc) db)"
    and "new_id e db \<notin> fd_id ` set (findings db)"
  shows "(\<exists>f. findings db' = findings db @ [f] \<and> fd_txHash f = tx_hash a \<and>
      fd_metadata f = [(''transactionId'', JStr (tx_id a))] \<and> fd_observationCount f = 2) \<and>
    failed_transactions db' (rc_orgId rc) = [] \<and> fc_falselyFailed r = 2"
proof -
  let ?fa = "new_finding e db (false_failure rc a)"
  let ?g = "\<lambda>t. if tx_id t \<in> {tx_id a, tx_id b} then confirmed_after_all t else t"
  have none: "findFirst (same_problem (false_failure rc a)) (findings db) = None"
    using assms(6)
    by (force simp: unresolved_problems_def same_problem_def false_failure_def finding_def image_iff)
  define db1 where "db1 = fst (failed_step e v rc a
    (db, \<lparr>fc_checked = 2, fc_falselyFailed = 0, fc_findingsOpened = 0\<rparr>))"
  have db1: "findings db1 = findings db @ [?fa]"
    using none assms(3) by (simp add: db1_def fst_failed_step upsertFinding_def del: findFirst_None_iff)
  have same: "same_problem (false_failure rc b) = same_problem (false_failure rc a)"
    using assms(5) by (auto simp: same_problem_def false_failure_def finding_def)
  have found: "findFirst (same_problem (false_failure rc b)) (findings db1) = Some ?fa"
    unfolding same db1 findFirst_append none
    by (simp add: findFirst_Cons same_problem_def new_finding_def false_failure_def finding_def)
  have "fd_id f \<noteq> fd_id ?fa" if "f \<in> set (findings db)" for f
    using assms(7) that by (force simp: new_finding_def)
  then have again: "updated (\<lambda>f. fd_id f = fd_id ?fa) (observed_again e (false_failure rc b)) (findings db1)
      = findings db @ [observed_again e (false_failure rc b) ?fa]"
    by (auto simp: db1 updated_eq intro: map_idI)
  have run: "db' = fst (fold (failed_step e v rc) [a, b]
      (db, \<lparr>fc_checked = 2, fc_falselyFailed = 0, fc_findingsOpened = 0\<rparr>))"
    using assms(1,2) by (auto simp: reconcileFailedTransactions_def Let_def numeral_2_eq_2)
  have "findings (fst (failed_step e v rc b (db1, r'))) = findings db @ [observed_again e (false_failure rc b) ?fa]" for r'
    using found again assms(4) by (simp add: fst_failed_step upsertFinding_def)
  then have "findings db' = findings db @ [observed_again e (false_failure rc b) ?fa]"
    unfolding run by (simp add: db1_def) (metis prod.collapse)
  moreover have rows: "transactions db' = map ?g (transactions db)"
    unfolding run failed_fold_transactions using assms(3,4) by (auto simp: landed_def)
  have two: "filter (\<lambda>t. tx_orgId t = rc_orgId rc \<and> tx_status t = FAILED \<and> tx_hash t \<noteq> None) (transactions db)
      = [a, b]"
    using assms(2) take_two[of 200] by (simp add: failed_transactions_def)
  then have "t \<in> {a, b}" if "t \<in> set (transactions db)" "tx_orgId t = rc_orgId rc" "tx_status t = FAILED"
      "tx_hash t \<noteq> None" for t
  proof -
    have "t \<in> set [a, b]" unfolding two[symmetric] using that by simp
    then show ?thesis by simp
  qed
  then have "\<not> (tx_orgId (?g t) = rc_orgId rc \<and> tx_status (?g t) = FAILED \<and> tx_hash (?g t) \<noteq> None)"
    if "t \<in> set (transactions db)" for t
    using that by (cases "tx_id t \<in> {tx_id a, tx_id b}"; cases "tx_hash t") auto
  then have "failed_transactions db' (rc_orgId rc) = []"
    by (simp add: failed_transactions_def rows filter_map o_def)
  moreover have "fc_falselyFailed r = 2"
    using assms(1,2,3,4) failed_fold_count[of e v rc "[a, b]"]
    by (auto simp: reconcileFailedTransactions_def Let_def landed_def prod_eq_iff)
  ultimately show ?thesis
    by (auto simp: observed_again_def new_finding_def false_failure_def finding_def)
qed

theorem false_failures_share_a_finding_witness:
  "let db = empty_db\<lparr>transactions := [sample_failed ''t1'' ''h1'', sample_failed ''t2'' ''h2'']\<rparr>;
       (db', r) = reconcileFailedTransactions sample_clock (sample_verifier 3 []) sample_run db
   in map fd_txHash (findings db') = [Some ''h1''] \<and> fc_falselyFailed r = 2"
proof -
  let ?db = "empty_db\<lparr>transactions := [sample_failed ''t1'' ''h1'', sample_failed ''t2'' ''h2'']\<rparr>"
  obtain db' r where run:
    "reconcileFailedTransactions sample_clock (sample_verifier 3 []) sample_run ?db = (db', r)"
    by fastforce
  have two: "failed_transactions ?db (rc_orgId sample_run) = [sample_failed ''t1'' ''h1'', sample_failed ''t2'' ''h2'']"
    by code_simp
  have "(\<exists>f. findings db' = findings ?db @ [f] \<and> fd_txHash f = tx_hash (sample_failed ''t1'' ''h1'') \<and>
      fd_metadata f = [(''transactionId'', JStr (tx_id (sample_failed ''t1'' ''h1'')))] \<and>
      fd_observationCount f = 2) \<and>
    failed_transactions db' (rc_orgId sample_run) = [] \<and> fc_falselyFailed r = 2"
    by (rule false_failures_share_a_finding[OF run two])
      (simp_all add: sample_verifier_def sample_failed_def unresolved_problems_def empty_db_def)
  then show ?thesis using run by (auto simp: sample_failed_def empty_db_def)
qed

end
