(* ===== verification/Scheduler.thy ===== *)
theory Scheduler
  imports Reconciler
begin

text \<open>
  \<open>src/lib/reconciliation/scheduler.ts\<close>: the lock of a reconciliation run, its heartbeat, the run
  itself and the health report. The lock is a row with status \<open>RUNNING\<close>; a partial unique index on
  the organization refuses a second one. The statements of \<open>startRun\<close> are separate definitions, as
  other workers act between them (\<open>lock_step\<close>).

  The random correlation id is a parameter. \<open>fault\<close> says where in the run a call throws, if one
  does: in which pass, after how many of its escrows or rows, and with what message. The timer that
  calls \<open>heartbeat\<close> during a run is left out of \<open>runReconciliation\<close>: it writes \<open>heartbeatAt\<close> of the
  run's own row, which the end of the run overwrites.
\<close>

definition STALE_RUN_AFTER_MS :: int where
  "STALE_RUN_AFTER_MS = 10 * 60 * 1000"

section \<open>The lock\<close>

datatype start_result = Started row_id string | Already_running row_id instant

definition abandoned :: "env \<Rightarrow> run_row \<Rightarrow> run_row" where
  "abandoned e r = r\<lparr>rn_status := STALE, rn_completedAt := Some (now e),
     rn_errorMessage := Some (''Abandoned: the worker stopped reporting a heartbeat. The lock was ''
       @ ''reclaimed by a later run.'')\<rparr>"

definition reclaim_stale :: "env \<Rightarrow> row_id \<Rightarrow> database \<Rightarrow> database" where
  "reclaim_stale e orgId db =
     db\<lparr>reconciliationRuns := updated
          (\<lambda>r. rn_orgId r = orgId \<and> rn_status r = RUNNING \<and> rn_heartbeatAt r < now e - STALE_RUN_AFTER_MS)
          (abandoned e) (reconciliationRuns db)\<rparr>"

definition active_run :: "row_id \<Rightarrow> database \<Rightarrow> run_row option" where
  "active_run orgId db = findFirst (\<lambda>r. rn_orgId r = orgId \<and> rn_status r = RUNNING) (reconciliationRuns db)"

definition new_run ::
  "env \<Rightarrow> database \<Rightarrow> row_id \<Rightarrow> string \<Rightarrow> string option \<Rightarrow> string option \<Rightarrow> string \<Rightarrow> run_row" where
  "new_run e db orgId scope contractId network correlationId =
     \<lparr>rn_id = new_id e db, rn_orgId = orgId, rn_correlationId = correlationId, rn_scope = scope,
      rn_contractId = contractId, rn_network = network, rn_status = RUNNING, rn_startedAt = now e,
      rn_completedAt = None, rn_heartbeatAt = now e, rn_escrowsExamined = 0, rn_paymentsExamined = 0,
      rn_agreed = 0, rn_mismatched = 0, rn_unreadable = 0, rn_chainAhead = 0, rn_databaseAhead = 0,
      rn_findingsOpened = 0, rn_correctionsApplied = 0, rn_errorMessage = None\<rparr>"

definition insert_run ::
  "env \<Rightarrow> row_id \<Rightarrow> string \<Rightarrow> string option \<Rightarrow> string option \<Rightarrow> string \<Rightarrow> database \<Rightarrow>
   database \<times> start_result" where
  "insert_run e orgId scope contractId network correlationId db =
     (let row = new_run e db orgId scope contractId network correlationId in
      case createUnique rn_orgId row (filter (\<lambda>r. rn_status r = RUNNING) (reconciliationRuns db)) of
        Some _ \<Rightarrow>
          (db\<lparr>reconciliationRuns := reconciliationRuns db @ [row], serial := Suc (serial db)\<rparr>,
           Started (rn_id row) correlationId)
      | None \<Rightarrow>
          (db, case active_run orgId db of
             Some other \<Rightarrow> Already_running (rn_id other) (rn_startedAt other)
           | None \<Rightarrow> Already_running ''unknown'' (now e)))"

definition startRun ::
  "env \<Rightarrow> row_id \<Rightarrow> string \<Rightarrow> string option \<Rightarrow> string option \<Rightarrow> string \<Rightarrow> database \<Rightarrow>
   database \<times> start_result" where
  "startRun e orgId scope contractId network correlationId db =
     (let db = reclaim_stale e orgId db in
      case active_run orgId db of
        Some active \<Rightarrow> (db, Already_running (rn_id active) (rn_startedAt active))
      | None \<Rightarrow> insert_run e orgId scope contractId network correlationId db)"

definition heartbeat :: "env \<Rightarrow> row_id \<Rightarrow> database \<Rightarrow> database" where
  "heartbeat e runId db =
     db\<lparr>reconciliationRuns := updated (\<lambda>r. rn_id r = runId \<and> rn_status r = RUNNING)
          (\<lambda>r. r\<lparr>rn_heartbeatAt := now e\<rparr>) (reconciliationRuns db)\<rparr>"

definition finished_run :: "env \<Rightarrow> run_status \<Rightarrow> tally \<Rightarrow> string option \<Rightarrow> run_row \<Rightarrow> run_row" where
  "finished_run e status t err r = r\<lparr>rn_status := status, rn_completedAt := Some (now e),
     rn_heartbeatAt := now e, rn_escrowsExamined := ty_escrowsExamined t,
     rn_paymentsExamined := ty_paymentsExamined t, rn_agreed := ty_agreed t,
     rn_mismatched := ty_mismatched t, rn_unreadable := ty_unreadable t,
     rn_chainAhead := ty_chainAhead t, rn_databaseAhead := ty_databaseAhead t,
     rn_findingsOpened := ty_findingsOpened t, rn_correctionsApplied := ty_correctionsApplied t,
     rn_errorMessage := err\<rparr>"

definition finishRun ::
  "env \<Rightarrow> row_id \<Rightarrow> run_status \<Rightarrow> tally \<Rightarrow> string option \<Rightarrow> database \<Rightarrow> database" where
  "finishRun e runId status t err db =
     db\<lparr>reconciliationRuns :=
          updated (\<lambda>r. rn_id r = runId) (finished_run e status t err) (reconciliationRuns db)\<rparr>"

section \<open>A run\<close>

datatype fault = In_escrows nat string | In_failed nat string | In_unattributed nat string

definition escrow_pass ::
  "env \<Rightarrow> chain_verifier \<Rightarrow> run_context \<Rightarrow> fault option \<Rightarrow> database \<Rightarrow> run_state \<times> string option" where
  "escrow_pass e v rc f db =
     (let work = escrows_to_examine db (rc_orgId rc) (rc_options rc) in
      case f of
        Some (In_escrows k m) \<Rightarrow> (fold (reconcile_escrow e v rc) (take k work) (db, no_tally), Some m)
      | _ \<Rightarrow> (reconcileOrganization e v rc db, None))"

definition failed_pass ::
  "env \<Rightarrow> chain_verifier \<Rightarrow> run_context \<Rightarrow> fault option \<Rightarrow> run_state \<Rightarrow> run_state \<times> string option" where
  "failed_pass e v rc f = (\<lambda>(db, t).
     (case f of
        Some (In_failed k m) \<Rightarrow>
          ((fst (fold (failed_step e v rc) (take k (failed_transactions db (rc_orgId rc)))
              (db, \<lparr>fc_checked = 0, fc_falselyFailed = 0, fc_findingsOpened = 0\<rparr>)), t), Some m)
      | _ \<Rightarrow>
          (let (db, txCheck) = reconcileFailedTransactions e v rc db
           in ((db, t\<lparr>ty_findingsOpened := ty_findingsOpened t + fc_findingsOpened txCheck\<rparr>), None))))"

definition unattributed_pass ::
  "env \<Rightarrow> run_context \<Rightarrow> fault option \<Rightarrow> run_state \<Rightarrow> run_state \<times> string option" where
  "unattributed_pass e rc f = (\<lambda>(db, t).
     (let c = ro_contractId (rc_options rc); n = ro_network (rc_options rc) in
      if truthy c \<and> truthy n
      then (case f of
          Some (In_unattributed k m) \<Rightarrow>
            ((fst (fold (unknown_step e rc (the c)) (take k (unattributed_escrows db (the c) (the n)))
                (db, 0)), t), Some m)
        | _ \<Rightarrow>
            (let (db, _, opened) = reportUnattributedEscrows e rc (the c) (the n) db
             in ((db, t\<lparr>ty_findingsOpened := ty_findingsOpened t + opened\<rparr>), None)))
      else ((db, t), None)))"

text \<open>The body of the \<open>try\<close>: the passes in order, until one throws.\<close>

definition run_passes ::
  "env \<Rightarrow> chain_verifier \<Rightarrow> run_context \<Rightarrow> fault option \<Rightarrow> database \<Rightarrow> run_state \<times> string option" where
  "run_passes e v rc f db =
     (case escrow_pass e v rc f db of
        (st, Some m) \<Rightarrow> (st, Some m)
      | (st, None) \<Rightarrow>
          (case failed_pass e v rc f st of
             (st, Some m) \<Rightarrow> (st, Some m)
           | (st, None) \<Rightarrow> unattributed_pass e rc f st))"

record run_summary =
  su_runId :: row_id
  su_correlationId :: string
  su_status :: run_status
  su_tally :: tally
  su_errorMessage :: "string option"

datatype run_reply = Ran run_summary | Skipped_run row_id

definition runReconciliation ::
  "env \<Rightarrow> chain_verifier \<Rightarrow> row_id \<Rightarrow> reconcile_options \<Rightarrow> string option \<Rightarrow> string \<Rightarrow> fault option \<Rightarrow>
   database \<Rightarrow> database \<times> run_reply" where
  "runReconciliation e v orgId opts scope correlationId f db =
     (let (db, claim) = startRun e orgId (case scope of None \<Rightarrow> ''organization'' | Some s \<Rightarrow> s)
            (ro_contractId opts) (ro_network opts) correlationId db
      in case claim of
           Already_running i _ \<Rightarrow> (db, Skipped_run i)
         | Started i c \<Rightarrow>
             (let rc = \<lparr>rc_orgId = orgId, rc_runId = i, rc_correlationId = c, rc_options = opts\<rparr>;
                  ((db, t), thrown) = run_passes e v rc f db
              in case thrown of
                   None \<Rightarrow> (finishRun e i COMPLETED t None db,
                     Ran \<lparr>su_runId = i, su_correlationId = c, su_status = COMPLETED, su_tally = t,
                       su_errorMessage = None\<rparr>)
                 | Some m \<Rightarrow> (finishRun e i RUN_FAILED no_tally (Some m) db,
                     Ran \<lparr>su_runId = i, su_correlationId = c, su_status = RUN_FAILED, su_tally = no_tally,
                       su_errorMessage = Some m\<rparr>)))"

section \<open>Health\<close>

datatype degradation = Never_ran | Last_failed string | Last_abandoned | Not_responding

record reconciliation_health =
  rh_lastRun :: "run_row option"
  rh_openFindings :: nat
  rh_criticalFindings :: nat
  rh_oldestUnresolvedHours :: "int option"
  rh_degraded :: "degradation option"

definition newest_run :: "database \<Rightarrow> row_id \<Rightarrow> run_row option" where
  "newest_run db orgId = List.find (\<lambda>r. True) (js_sort (\<lambda>a b. rn_startedAt b - rn_startedAt a)
     (filter (\<lambda>r. rn_orgId r = orgId) (reconciliationRuns db)))"

definition degradation_of :: "env \<Rightarrow> run_row option \<Rightarrow> degradation option" where
  "degradation_of e lastRun =
     (case lastRun of
        None \<Rightarrow> Some Never_ran
      | Some r \<Rightarrow>
          (case rn_status r of
             RUN_FAILED \<Rightarrow> Some (Last_failed
               (case rn_errorMessage r of None \<Rightarrow> ''unknown error'' | Some m \<Rightarrow> m))
           | STALE \<Rightarrow> Some Last_abandoned
           | RUNNING \<Rightarrow>
               if now e - rn_heartbeatAt r > STALE_RUN_AFTER_MS then Some Not_responding else None
           | COMPLETED \<Rightarrow> None))"

definition reconciliationHealth :: "env \<Rightarrow> database \<Rightarrow> row_id \<Rightarrow> reconciliation_health" where
  "reconciliationHealth e db orgId =
     (let unresolved = filter (\<lambda>f. fd_orgId f = orgId \<and> fd_status f \<noteq> RESOLVED) (findings db)
      in \<lparr>rh_lastRun = newest_run db orgId,
          rh_openFindings = length unresolved,
          rh_criticalFindings = length (filter (\<lambda>f. fd_severity f = CRITICAL) unresolved),
          rh_oldestUnresolvedHours =
            (case js_sort (\<lambda>a b. fd_detectedAt a - fd_detectedAt b) unresolved of
               [] \<Rightarrow> None | f # _ \<Rightarrow> Some ((now e - fd_detectedAt f) div 3600000)),
          rh_degraded = degradation_of e (newest_run db orgId)\<rparr>)"

lemma abandoned_simps [simp]:
  "rn_id (abandoned e r) = rn_id r" "rn_orgId (abandoned e r) = rn_orgId r"
  "rn_status (abandoned e r) = STALE" "rn_errorMessage (abandoned e r) \<noteq> None"
  by (simp_all add: abandoned_def)

lemma finished_simps [simp]:
  "rn_id (finished_run e s t m r) = rn_id r" "rn_orgId (finished_run e s t m r) = rn_orgId r"
  "rn_status (finished_run e s t m r) = s" "rn_errorMessage (finished_run e s t m r) = m"
  "rn_completedAt (finished_run e s t m r) = Some (now e)"
  "rn_paymentsExamined (finished_run e s t m r) = ty_paymentsExamined t"
  "rn_agreed (finished_run e s t m r) = ty_agreed t"
  "rn_mismatched (finished_run e s t m r) = ty_mismatched t"
  "rn_correctionsApplied (finished_run e s t m r) = ty_correctionsApplied t"
  by (simp_all add: finished_run_def)

section \<open>The lock under interleaving\<close>

text \<open>What workers do to the lock, one statement at a time, each with its own clock.\<close>

inductive lock_step :: "database \<Rightarrow> database \<Rightarrow> bool" where
  step_reclaims: "lock_step db (reclaim_stale e o' db)"
| step_inserts: "lock_step db (fst (insert_run e o' scope c n corr db))"
| step_beats: "lock_step db (heartbeat e i db)"
| step_finishes: "status \<noteq> RUNNING \<Longrightarrow> lock_step db (finishRun e i status t err db)"

definition running :: "row_id \<Rightarrow> database \<Rightarrow> run_row list" where
  "running o' db = filter (\<lambda>r. rn_orgId r = o' \<and> rn_status r = RUNNING) (reconciliationRuns db)"

lemma running_updated:
  assumes "\<And>r. rn_orgId (f r) = rn_orgId r"
    and "\<And>r. P r \<Longrightarrow> rn_status (f r) = RUNNING \<Longrightarrow> rn_status r = RUNNING"
  shows "length (running o' (db\<lparr>reconciliationRuns := updated P f (reconciliationRuns db)\<rparr>))
    \<le> length (running o' db)"
proof -
  have "length (filter (\<lambda>r. rn_orgId r = o' \<and> rn_status r = RUNNING) (updated P f t))
      \<le> length (filter (\<lambda>r. rn_orgId r = o' \<and> rn_status r = RUNNING) t)" for t
    using assms by (induction t) (auto simp: updated_eq)
  then show ?thesis by (simp add: running_def)
qed

lemma insert_run_cases:
  "insert_run e o' scope c n corr db =
     (if running o' db = []
      then (db\<lparr>reconciliationRuns := reconciliationRuns db @ [new_run e db o' scope c n corr],
               serial := Suc (serial db)\<rparr>, Started (new_id e db) corr)
      else (db, let r = hd (running o' db) in Already_running (rn_id r) (rn_startedAt r)))"
proof -
  have free: "rn_orgId (new_run e db o' scope c n corr) = o'" "rn_id (new_run e db o' scope c n corr) = new_id e db"
    by (simp_all add: new_run_def)
  have first: "active_run o' db = (case running o' db of [] \<Rightarrow> None | r # _ \<Rightarrow> Some r)"
  proof -
    have "findFirst P t = (case filter P t of [] \<Rightarrow> None | r # _ \<Rightarrow> Some r)" for P and t :: "run_row list"
      by (induction t) (simp_all add: findFirst_Cons)
    then show ?thesis by (simp add: active_run_def running_def)
  qed
  have "o' \<in> rn_orgId ` set (filter (\<lambda>r. rn_status r = RUNNING) (reconciliationRuns db))
      \<longleftrightarrow> running o' db \<noteq> []"
    by (auto simp: running_def filter_empty_conv)
  then show ?thesis
    using first free
    by (cases "running o' db") (auto simp: insert_run_def createUnique_def Let_def)
qed

lemma active_run_running: "active_run o' db = None \<longleftrightarrow> running o' db = []"
  by (auto simp: active_run_def running_def filter_empty_conv)

lemma lock_step_running:
  assumes "lock_step db db'" and "length (running o' db) \<le> 1"
  shows "length (running o' db') \<le> 1"
  using assms(1)
proof cases
  case (step_reclaims e o1)
  have "length (running o' db') \<le> length (running o' db)"
    unfolding step_reclaims reclaim_stale_def by (rule running_updated) simp_all
  then show ?thesis using assms(2) by simp
next
  case (step_inserts e o1 scope c n corr)
  then show ?thesis
    using assms(2)
    by (auto simp: insert_run_cases running_def new_run_def filter_empty_conv split: if_splits)
next
  case (step_beats e i)
  have "length (running o' db') \<le> length (running o' db)"
    unfolding step_beats heartbeat_def by (rule running_updated) simp_all
  then show ?thesis using assms(2) by simp
next
  case (step_finishes status e i t err)
  have "length (running o' db') \<le> length (running o' db)"
    unfolding step_finishes(1) finishRun_def
    by (rule running_updated) (use step_finishes in \<open>simp_all add: finished_run_def\<close>)
  then show ?thesis using assms(2) by simp
qed

section \<open>What the passes keep\<close>

lemma transition_runs: "reconciliationRuns (fst (applyTransition e db req)) = reconciliationRuns db"
  by (auto simp: applyTransition_def applyTransition_commit_def Let_def split: sum.split prod.split)

lemma transition_serial: "serial db \<le> serial (fst (applyTransition e db req))"
  by (auto simp: applyTransition_def applyTransition_commit_def Let_def split: sum.split prod.split)

interpretation runs_kept: run_invariant e v rc work "\<lambda>db. reconciliationRuns db = runs" for e v rc work runs
  by unfold_locales (simp_all add: transition_runs)

text \<open>
  The other organizations' view of the database is the same, and the keys are as a database hands
  them out: no two findings or transactions share one, and none is still to come.
\<close>

definition isolated :: "env \<Rightarrow> row_id \<Rightarrow> database \<Rightarrow> database \<Rightarrow> bool" where
  "isolated e o' db0 db \<longleftrightarrow> foreign_view o' db = foreign_view o' db0 \<and> inj (cuid e) \<and>
     distinct (map fd_id (findings db)) \<and>
     (\<forall>f \<in> set (findings db). \<forall>n \<ge> serial db. fd_id f \<noteq> cuid e n) \<and>
     map (\<lambda>t. (tx_id t, tx_orgId t)) (transactions db) = map (\<lambda>t. (tx_id t, tx_orgId t)) (transactions db0)"

lemma upsert_isolated:
  assumes "isolated e o' db0 db" and "fi_orgId inp = o'"
  shows "isolated e o' db0 (fst (upsertFinding e db inp))"
proof (cases "findFirst (same_problem inp) (findings db)")
  case None
  have new: "fd_orgId (new_finding e db inp) = o'" "fd_id (new_finding e db inp) = cuid e (serial db)"
    using assms(2) by (simp_all add: new_finding_def new_id_def)
  have later: "cuid e (serial db) \<noteq> cuid e n" if "Suc (serial db) \<le> n" for n
    using assms(1) that by (auto simp: isolated_def dest: injD)
  have other: "cuid e (serial db) \<notin> fd_id ` set (findings db)"
    using assms(1) by (force simp: isolated_def)
  have db': "fst (upsertFinding e db inp)
      = db\<lparr>findings := findings db @ [new_finding e db inp], serial := Suc (serial db)\<rparr>"
    using None by (simp add: upsertFinding_def del: findFirst_None_iff)
  have "foreign_view o' (fst (upsertFinding e db inp)) = foreign_view o' db"
    unfolding db' by (simp add: foreign_view_def new)
  moreover have "fd_id f \<noteq> cuid e n" if "f \<in> set (findings db @ [new_finding e db inp])" "Suc (serial db) \<le> n"
    for f n
    using that assms(1) later[of n] new(2) by (auto simp: isolated_def)
  moreover have "distinct (map fd_id (findings db @ [new_finding e db inp]))"
    using assms(1) other new(2) by (simp add: isolated_def)
  ultimately show ?thesis
    using assms(1) unfolding isolated_def by (simp add: db')
next
  case (Some f)
  then have f: "f \<in> set (findings db)" "fd_orgId f = o'"
    using assms(2) by (auto simp: same_problem_def dest: findFirst_SomeD)
  have only: "g = f" if "g \<in> set (findings db)" "fd_id g = fd_id f" for g
    using assms(1) f(1) that by (auto simp: isolated_def distinct_map inj_on_def)
  have "filter (\<lambda>r. fd_orgId r \<noteq> o') (updated (\<lambda>g. fd_id g = fd_id f) (observed_again e inp) (findings db))
      = filter (\<lambda>r. fd_orgId r \<noteq> o') (findings db)"
    by (rule filter_updated) (use f(2) only in auto)
  moreover have "map fd_id (updated (\<lambda>g. fd_id g = fd_id f) (observed_again e inp) (findings db))
      = map fd_id (findings db)"
    by (rule map_updated) simp
  moreover have "fd_id g \<noteq> cuid e n"
    if g: "g \<in> set (updated (\<lambda>g. fd_id g = fd_id f) (observed_again e inp) (findings db))" and n: "serial db \<le> n" for g n
  proof -
    obtain q where "q \<in> set (findings db)" "fd_id g = fd_id q"
      using g by (auto simp: set_updated)
    then show ?thesis using n assms(1) by (simp add: isolated_def)
  qed
  ultimately show ?thesis
    using assms(1) Some by (simp add: upsertFinding_def isolated_def foreign_view_def)
qed

lemma transition_isolated:
  assumes "isolated e o' db0 db" and "rq_orgId req = o'"
  shows "isolated e o' db0 (fst (applyTransition e db req))"
proof (cases "applyTransition e db req")
  case (Pair db' out)
  have "serial db \<le> serial db'" using transition_serial[of db e req] Pair by simp
  then show ?thesis
    using assms Pair transition_foreign[OF Pair] applyTransition_keeps(9,10)[OF Pair]
    by (simp add: isolated_def)
qed

interpretation tenant_kept: run_invariant e v rc work "isolated e (rc_orgId rc) db0" for e v rc work db0
  by unfold_locales (simp_all add: upsert_isolated transition_isolated licensed_def)

lemma failed_isolated:
  assumes "isolated e (rc_orgId rc) db0 (fst st)"
    and "\<And>t. t \<in> set (transactions db0) \<Longrightarrow> tx_id t = tx_id x \<Longrightarrow> tx_orgId t = rc_orgId rc"
  shows "isolated e (rc_orgId rc) db0 (fst (failed_step e v rc x st))"
proof -
  obtain db r where st: "st = (db, r)" by fastforce
  let ?db1 = "fst (upsertFinding e db (false_failure rc x))"
  have iso: "isolated e (rc_orgId rc) db0 ?db1"
    by (rule upsert_isolated) (use assms(1) in \<open>simp_all add: st\<close>)
  have own: "tx_orgId t = rc_orgId rc" if "t \<in> set (transactions db)" "tx_id t = tx_id x" for t
  proof -
    have "(tx_id t, tx_orgId t) \<in> set (map (\<lambda>t. (tx_id t, tx_orgId t)) (transactions db))"
      using that(1) by force
    moreover have "map (\<lambda>t. (tx_id t, tx_orgId t)) (transactions db)
        = map (\<lambda>t. (tx_id t, tx_orgId t)) (transactions db0)"
      using assms(1) by (simp add: isolated_def st)
    ultimately have "(tx_id t, tx_orgId t) \<in> set (map (\<lambda>t. (tx_id t, tx_orgId t)) (transactions db0))"
      by (simp only:)
    then show ?thesis using assms(2) that(2) by auto
  qed
  have "filter (\<lambda>r. tx_orgId r \<noteq> rc_orgId rc) (updated (\<lambda>t. tx_id t = tx_id x) confirmed_after_all (transactions db))
      = filter (\<lambda>r. tx_orgId r \<noteq> rc_orgId rc) (transactions db)"
    by (rule filter_updated) (use own in auto)
  moreover have "map (\<lambda>t. (tx_id t, tx_orgId t)) (updated (\<lambda>t. tx_id t = tx_id x) confirmed_after_all (transactions db))
      = map (\<lambda>t. (tx_id t, tx_orgId t)) (transactions db)"
    by (rule map_updated) simp
  ultimately show ?thesis
    using iso assms(1)
    by (auto simp: st fst_failed_step isolated_def foreign_view_def split: sum.split bool.split)
qed

lemma unknown_isolated:
  "isolated e (rc_orgId rc) db0 (fst st) \<Longrightarrow> isolated e (rc_orgId rc) db0 (fst (unknown_step e rc c x st))"
  by (cases st) (simp add: fst_unknown_step upsert_isolated)

lemma fold_keeps:
  assumes "\<And>x st. x \<in> set xs \<Longrightarrow> I (fst st) \<Longrightarrow> I (fst (step x st))" and "I (fst st)"
  shows "I (fst (fold step xs st))"
  using assms by (induction xs arbitrary: st) auto

text \<open>An invariant of the three passes is one of their composition, wherever it stops.\<close>

lemma passes_keep:
  assumes "I db"
    and "\<And>db0 xs. I db0 \<Longrightarrow> set xs \<subseteq> set (escrows_to_examine db (rc_orgId rc) (rc_options rc)) \<Longrightarrow>
           I (fst (fold (reconcile_escrow e v rc) xs (db0, no_tally)))"
    and "\<And>db0 x st. I db0 \<Longrightarrow> x \<in> set (failed_transactions db0 (rc_orgId rc)) \<Longrightarrow> I (fst st) \<Longrightarrow>
           I (fst (failed_step e v rc x st))"
    and "\<And>c x st. I (fst st) \<Longrightarrow> I (fst (unknown_step e rc c x st))"
  shows "I (fst (fst (run_passes e v rc f db)))"
proof -
  have one: "I (fst (fst (escrow_pass e v rc f db)))"
    using assms(2)[OF assms(1)]
    by (auto simp: escrow_pass_def reconcileOrganization_def Let_def set_take_subset
        split: option.split fault.split)
  have two: "I (fst (fst (failed_pass e v rc f st)))" if "I (fst st)" for st
  proof -
    obtain db0 t where st: "st = (db0, t)" by fastforce
    have "I (fst (fold (failed_step e v rc) xs (db0, r)))"
      if "set xs \<subseteq> set (failed_transactions db0 (rc_orgId rc))" for xs r
      by (rule fold_keeps[where I = I]) (use assms(3) \<open>I (fst st)\<close> st that in auto)
    then show ?thesis
      by (auto simp: st failed_pass_def reconcileFailedTransactions_def Let_def set_take_subset
          split: option.split fault.split prod.split) (metis fst_conv subset_refl)+
  qed
  have three: "I (fst (fst (unattributed_pass e rc f st)))" if "I (fst st)" for st
  proof -
    obtain db0 t where st: "st = (db0, t)" by fastforce
    have "I (fst (fold (unknown_step e rc c) xs (db0, n)))" for c xs n
      by (rule fold_keeps[where I = I]) (use assms(4) that st in auto)
    then show ?thesis
      using that
      by (auto simp: st unattributed_pass_def reportUnattributedEscrows_def Let_def
          split: option.split fault.split prod.split) (metis fst_conv)+
  qed
  obtain st1 o1 where p1: "escrow_pass e v rc f db = (st1, o1)" by fastforce
  obtain st2 o2 where p2: "failed_pass e v rc f st1 = (st2, o2)" by fastforce
  show ?thesis
    using one two[of st1] three[of st2] p1 p2
    by (auto simp: run_passes_def split: option.split)
qed

lemma passes_runs:
  "reconciliationRuns (fst (fst (run_passes e v rc f db))) = reconciliationRuns db"
proof (rule passes_keep[where I = "\<lambda>x. reconciliationRuns x = reconciliationRuns db"])
  show "reconciliationRuns (fst (fold (reconcile_escrow e v rc) xs (db0, no_tally))) = reconciliationRuns db"
    if "reconciliationRuns db0 = reconciliationRuns db"
      "set xs \<subseteq> set (escrows_to_examine db (rc_orgId rc) (rc_options rc))" for db0 xs
    using runs_kept.escrows[of "(db0, no_tally)" "reconciliationRuns db" xs
        "escrows_to_examine db (rc_orgId rc) (rc_options rc)" e v rc] that by simp
  show "reconciliationRuns (fst (failed_step e v rc x st)) = reconciliationRuns db"
    if "reconciliationRuns (fst st) = reconciliationRuns db" for x st
    using that by (cases st) (auto simp: fst_failed_step split: sum.split bool.split)
  show "reconciliationRuns (fst (unknown_step e rc c x st)) = reconciliationRuns db"
    if "reconciliationRuns (fst st) = reconciliationRuns db" for c x st
    using that by (cases st) (simp add: fst_unknown_step)
qed simp

lemma passes_isolated:
  assumes "isolated e (rc_orgId rc) db db" and "distinct (map tx_id (transactions db))"
  shows "isolated e (rc_orgId rc) db (fst (fst (run_passes e v rc f db)))"
proof (rule passes_keep)
  show "isolated e (rc_orgId rc) db (fst (fold (reconcile_escrow e v rc) xs (db0, no_tally)))"
    if "isolated e (rc_orgId rc) db db0"
      "set xs \<subseteq> set (escrows_to_examine db (rc_orgId rc) (rc_options rc))" for db0 xs
    using tenant_kept.escrows[of e rc db "(db0, no_tally)"] that by auto
  show "isolated e (rc_orgId rc) db (fst (failed_step e v rc x st))"
    if iso: "isolated e (rc_orgId rc) db db0" and x: "x \<in> set (failed_transactions db0 (rc_orgId rc))"
      and st: "isolated e (rc_orgId rc) db (fst st)" for db0 x st
  proof (rule failed_isolated[OF st])
    fix t assume t: "t \<in> set (transactions db)" "tx_id t = tx_id x"
    have "x \<in> set (transactions db0)" "tx_orgId x = rc_orgId rc"
      using x by (auto simp: failed_transactions_def dest: in_set_takeD)
    then have "(tx_id x, rc_orgId rc) \<in> set (map (\<lambda>t. (tx_id t, tx_orgId t)) (transactions db0))"
      by force
    then have "(tx_id x, rc_orgId rc) \<in> set (map (\<lambda>t. (tx_id t, tx_orgId t)) (transactions db))"
      using iso by (simp only: isolated_def)
    then obtain u where "u \<in> set (transactions db)" "tx_id u = tx_id x" "tx_orgId u = rc_orgId rc"
      by auto
    then show "tx_orgId t = rc_orgId rc"
      using t assms(2) by (metis distinct_map inj_on_def)
  qed
qed (use assms in \<open>simp_all add: unknown_isolated\<close>)

text \<open>\<open>startRun\<close> in one step.\<close>

lemma startRun_eq:
  "startRun e o' scope contractId network corr db =
     (let db1 = reclaim_stale e o' db in
      if running o' db1 = []
      then (db1\<lparr>reconciliationRuns := reconciliationRuns db1
              @ [new_run e db1 o' scope contractId network corr], serial := Suc (serial db1)\<rparr>,
            Started (new_id e db1) corr)
      else (db1, let a = the (active_run o' db1) in Already_running (rn_id a) (rn_startedAt a)))"
  using active_run_running[of o' "reclaim_stale e o' db"]
  by (cases "active_run o' (reclaim_stale e o' db)")
    (simp_all add: startRun_def Let_def insert_run_cases)

lemma started_running:
  "startRun e o' scope contractId network corr db = (db', Started i c) \<Longrightarrow>
   map rn_id (running o' db') = [i] \<and> c = corr"
  by (auto simp: startRun_eq Let_def running_def new_run_def split: if_splits)

section \<open>Properties\<close>

text \<open>The clock of the examples, at a given time.\<close>

definition at_time :: "instant \<Rightarrow> env" where
  "at_time t = sample_clock\<lparr>now := t\<rparr>"

text \<open>
  C15: One run at a time. However workers interleave their statements on the lock, each organization
  has at most one running run; and a worker that inserts its run is told it started exactly when
  the organization had none, in which case its run is now the running one, and otherwise is told
  the run that holds the lock.
\<close>

theorem one_run_at_a_time:
  assumes "lock_step\<^sup>*\<^sup>* db0 db" and "length (running o' db0) \<le> 1"
    and "insert_run e o' scope contractId network corr db = (db', r)"
  shows "length (running o' db') \<le> 1 \<and>
    (case r of
       Started i _ \<Rightarrow> running o' db = [] \<and> map rn_id (running o' db') = [i]
     | Already_running i _ \<Rightarrow> db' = db \<and> map rn_id (running o' db) = [i])"
proof -
  have one: "length (running o' db) \<le> 1"
    using assms(1,2) by (induction rule: rtranclp_induct) (auto dest: lock_step_running)
  have bound: "length (running o' db') \<le> 1"
    using lock_step_running[OF step_inserts one, of e o' scope contractId network corr] assms(3) by simp
  show ?thesis
  proof (cases "running o' db = []")
    case True
    have "map rn_id (running o' db') = [new_id e db]" "r = Started (new_id e db) corr"
      using assms(3) True by (auto simp: insert_run_cases running_def new_run_def)
    then show ?thesis using True bound by simp
  next
    case False
    then have "map rn_id (running o' db) = [rn_id (hd (running o' db))]"
      using one by (cases "running o' db") auto
    moreover have "(db', r) = (db, Already_running (rn_id (hd (running o' db))) (rn_startedAt (hd (running o' db))))"
      unfolding assms(3)[symmetric] insert_run_cases using False by (simp add: Let_def)
    ultimately show ?thesis using bound by simp
  qed
qed

theorem one_run_at_a_time_witness:
  "let (db1, _) = insert_run sample_clock ''o1'' ''s'' None None ''a'' sample_db;
       (db2, r) = insert_run sample_clock ''o1'' ''s'' None None ''b'' db1
   in db2 = db1 \<and> map rn_id (running ''o1'' db1) = [''c0''] \<and> r = Already_running ''c0'' 10"
proof -
  obtain db1 r1 where i1: "insert_run sample_clock ''o1'' ''s'' None None ''a'' sample_db = (db1, r1)"
    by fastforce
  obtain db2 r2 where i2: "insert_run sample_clock ''o1'' ''s'' None None ''b'' db1 = (db2, r2)"
    by fastforce
  have "lock_step\<^sup>*\<^sup>* sample_db db1"
    using step_inserts[of sample_db sample_clock "''o1''" "''s''" None None "''a''"] i1 by auto
  moreover have "length (running ''o1'' sample_db) \<le> 1" by code_simp
  moreover have "snd (insert_run sample_clock ''o1'' ''s'' None None ''b''
      (fst (insert_run sample_clock ''o1'' ''s'' None None ''a'' sample_db))) = Already_running ''c0'' 10"
    by code_simp
  ultimately show ?thesis using one_run_at_a_time[OF _ _ i2] i1 i2 by (simp add: Let_def)
qed

text \<open>
  A dead worker does not block reconciliation. A run starts exactly when every running run of
  the organization last reported more than ten minutes ago; those become stale, whether or not a
  run starts no other row changes, and a run that starts is the organization's only running one.
\<close>

theorem startRun_takes_over_dead_runs:
  assumes "startRun e o' scope contractId network corr db = (db', r)"
  shows "((\<exists>i c. r = Started i c) \<longleftrightarrow>
      (\<forall>x \<in> set (running o' db). rn_heartbeatAt x < now e - STALE_RUN_AFTER_MS)) \<and>
    (\<forall>i c. r = Started i c \<longrightarrow> map rn_id (running o' db') = [i] \<and> c = corr) \<and>
    (\<exists>new. reconciliationRuns db' =
       map (\<lambda>x. if x \<in> set (running o' db) \<and> rn_heartbeatAt x < now e - STALE_RUN_AFTER_MS
                then abandoned e x else x) (reconciliationRuns db) @ new)"
proof -
  let ?db1 = "reclaim_stale e o' db"
  let ?dead = "\<lambda>x. x \<in> set (running o' db) \<and> rn_heartbeatAt x < now e - STALE_RUN_AFTER_MS"
  have rows: "reconciliationRuns ?db1 = map (\<lambda>x. if ?dead x then abandoned e x else x) (reconciliationRuns db)"
    by (simp add: reclaim_stale_def updated_eq running_def)
  have "filter (\<lambda>r. rn_orgId r = o' \<and> rn_status r = RUNNING) (updated (\<lambda>x. rn_orgId x = o' \<and>
      rn_status x = RUNNING \<and> d x) (abandoned e) t) = [] \<longleftrightarrow>
    (\<forall>x \<in> set (filter (\<lambda>r. rn_orgId r = o' \<and> rn_status r = RUNNING) t). d x)" for d t
    by (induction t) (auto simp: updated_eq)
  from this[of "\<lambda>x. rn_heartbeatAt x < now e - STALE_RUN_AFTER_MS" "reconciliationRuns db"]
  have free: "running o' ?db1 = [] \<longleftrightarrow>
      (\<forall>x \<in> set (running o' db). rn_heartbeatAt x < now e - STALE_RUN_AFTER_MS)"
    unfolding running_def reclaim_stale_def by simp
  have "map rn_id (running o' db') = [i] \<and> c = corr" if "r = Started i c" for i c
    using assms that started_running by blast
  moreover have "(\<exists>i c. r = Started i c) \<longleftrightarrow> running o' ?db1 = []"
    using assms by (auto simp: startRun_eq Let_def split: if_splits)
  moreover have "\<exists>new. reconciliationRuns db' = reconciliationRuns ?db1 @ new"
    using assms by (auto simp: startRun_eq Let_def split: if_splits)
  ultimately show ?thesis unfolding free rows by blast
qed

theorem startRun_takes_over_dead_runs_witness:
  "let (db1, _) = startRun (at_time 0) ''o1'' ''s'' None None ''a'' sample_db;
       (db2, early) = startRun (at_time 600000) ''o1'' ''s'' None None ''b'' db1;
       (db3, late) = startRun (at_time 600001) ''o1'' ''s'' None None ''c'' db2
   in early = Already_running ''c0'' 0 \<and> late = Started ''c1'' ''c'' \<and> map rn_id (running ''o1'' db3) = [''c1'']"
proof -
  obtain db1 r1 where s1: "startRun (at_time 0) ''o1'' ''s'' None None ''a'' sample_db = (db1, r1)"
    by fastforce
  obtain db2 r2 where s2: "startRun (at_time 600000) ''o1'' ''s'' None None ''b'' db1 = (db2, r2)"
    by fastforce
  obtain db3 r3 where s3: "startRun (at_time 600001) ''o1'' ''s'' None None ''c'' db2 = (db3, r3)"
    by fastforce
  have "let db1 = fst (startRun (at_time 0) ''o1'' ''s'' None None ''a'' sample_db);
      (db2, r2) = startRun (at_time 600000) ''o1'' ''s'' None None ''b'' db1
    in r2 = Already_running ''c0'' 0 \<and>
       snd (startRun (at_time 600001) ''o1'' ''s'' None None ''c'' db2) = Started ''c1'' ''c''"
    by code_simp
  then have "r2 = Already_running ''c0'' 0 \<and> r3 = Started ''c1'' ''c''" using s1 s2 s3 by simp
  then show ?thesis using startRun_takes_over_dead_runs[OF s3] s1 s2 s3 by simp
qed

text \<open>
  A run that started always ends on the record. Wherever it throws, its row is afterwards
  completed or failed as the caller is told, with the counters and the error of the summary, and
  the organization has no running run.
\<close>

theorem run_always_recorded:
  assumes "runReconciliation e v o' opts scope corr f db = (db', Ran s)"
  shows "running o' db' = [] \<and> su_status s \<in> {COMPLETED, RUN_FAILED} \<and>
    (su_status s = RUN_FAILED \<longleftrightarrow> su_errorMessage s \<noteq> None) \<and>
    (\<exists>r \<in> set (reconciliationRuns db'). rn_id r = su_runId s \<and> rn_orgId r = o' \<and>
       rn_status r = su_status s \<and> rn_errorMessage r = su_errorMessage s \<and>
       rn_completedAt r = Some (now e) \<and> rn_paymentsExamined r = ty_paymentsExamined (su_tally s) \<and>
       rn_agreed r = ty_agreed (su_tally s) \<and> rn_mismatched r = ty_mismatched (su_tally s) \<and>
       rn_correctionsApplied r = ty_correctionsApplied (su_tally s))"
proof -
  obtain db1 claim where start: "startRun e o' (case scope of None \<Rightarrow> ''organization'' | Some s \<Rightarrow> s)
      (ro_contractId opts) (ro_network opts) corr db = (db1, claim)" by fastforce
  then obtain i c where claim: "claim = Started i c"
    using assms by (auto simp: runReconciliation_def split: start_result.splits)
  let ?rc = "\<lparr>rc_orgId = o', rc_runId = i, rc_correlationId = c, rc_options = opts\<rparr>"
  obtain db2 t thrown where run: "run_passes e v ?rc f db1 = ((db2, t), thrown)" by (metis prod.collapse)
  have runs: "reconciliationRuns db2 = reconciliationRuns db1"
    using passes_runs[of e v ?rc f db1] run by simp
  have "map rn_id (running o' db1) = [i]"
    using started_running start claim by blast
  then obtain r where r: "running o' db1 = [r]" "rn_id r = i" by auto
  have ended: "running o' (finishRun e i status tl err db2) = []" if "status \<noteq> RUNNING" for status tl err
  proof -
    have "\<not> (rn_orgId q = o' \<and> rn_status q = RUNNING)"
      if q: "q \<in> set (reconciliationRuns (finishRun e i status tl err db2))" for q
    proof -
      obtain p where p: "p \<in> set (reconciliationRuns db1)"
        "q = (if rn_id p = i then finished_run e status tl err p else p)"
        using q by (auto simp: finishRun_def runs set_updated)
      show ?thesis
      proof (cases "rn_id p = i")
        case True
        then show ?thesis using p(2) \<open>status \<noteq> RUNNING\<close> by simp
      next
        case False
        then have "p \<notin> set (running o' db1)" using r by auto
        then show ?thesis using False p by (simp add: running_def)
      qed
    qed
    then show ?thesis by (simp add: running_def filter_empty_conv)
  qed
  have "r \<in> set (running o' db1)" using r by simp
  then have org: "rn_orgId r = o'" and "r \<in> set (reconciliationRuns db1)"
    by (simp_all add: running_def)
  then have row: "finished_run e status tl err r \<in> set (reconciliationRuns (finishRun e i status tl err db2))"
    for status tl err
    using r(2) by (auto simp: finishRun_def runs set_updated)
  show ?thesis
  proof (cases thrown)
    case None
    then have "s = \<lparr>su_runId = i, su_correlationId = c, su_status = COMPLETED, su_tally = t, su_errorMessage = None\<rparr>"
      "db' = finishRun e i COMPLETED t None db2"
      using assms start claim run by (simp_all add: runReconciliation_def)
    then show ?thesis
      using ended[of COMPLETED t None] row[of COMPLETED t None] r(2) org
      by (auto intro!: bexI[of _ "finished_run e COMPLETED t None r"] simp del: not_None_eq)
  next
    case (Some m)
    then have "s = \<lparr>su_runId = i, su_correlationId = c, su_status = RUN_FAILED, su_tally = no_tally,
        su_errorMessage = Some m\<rparr>"
      "db' = finishRun e i RUN_FAILED no_tally (Some m) db2"
      using assms start claim run by (simp_all add: runReconciliation_def)
    then show ?thesis
      using ended[of RUN_FAILED no_tally "Some m"] row[of RUN_FAILED no_tally "Some m"] r(2) org
      by (auto intro!: bexI[of _ "finished_run e RUN_FAILED no_tally (Some m) r"] simp del: not_None_eq)
  qed
qed

theorem run_always_recorded_witness:
  "let opts = rc_options sample_run;
       (db', reply) = runReconciliation sample_clock (sample_verifier 3 []) ''o1'' opts None ''rec''
         (Some (In_failed 0 ''timeout'')) (sample_db\<lparr>escrows := [sample_custody]\<rparr>)
   in running ''o1'' db' = [] \<and> map rn_errorMessage (reconciliationRuns db') = [Some ''timeout'']"
proof -
  let ?go = "runReconciliation sample_clock (sample_verifier 3 []) ''o1'' (rc_options sample_run) None ''rec''
         (Some (In_failed 0 ''timeout'')) (sample_db\<lparr>escrows := [sample_custody]\<rparr>)"
  have out: "(case snd ?go of Ran s \<Rightarrow> True | _ \<Rightarrow> False) \<and>
      map rn_errorMessage (reconciliationRuns (fst ?go)) = [Some ''timeout'']" by code_simp
  then obtain db' s where run: "?go = (db', Ran s)"
    by (cases ?go; cases "snd ?go") auto
  show ?thesis using run_always_recorded[OF run] run out by simp
qed

text \<open>
  Reconciling one organization writes nothing of another. Whatever the chain answers and
  wherever the run throws, the rows of the other organizations, findings, transactions and run
  records included, are what they were.
\<close>

theorem reconciliation_stays_in_tenant:
  assumes "runReconciliation e v o' opts scope corr f db = (db', r)"
    and "inj (cuid e)" and "distinct (map fd_id (findings db))" and "distinct (map tx_id (transactions db))"
    and "\<forall>n \<ge> serial db. cuid e n \<notin> fd_id ` set (findings db) \<and> cuid e n \<notin> rn_id ` set (reconciliationRuns db)"
  shows "foreign_view o' db' = foreign_view o' db"
proof -
  obtain db1 claim where start: "startRun e o' (case scope of None \<Rightarrow> ''organization'' | Some s \<Rightarrow> s)
      (ro_contractId opts) (ro_network opts) corr db = (db1, claim)" by fastforce
  have "filter (\<lambda>r. rn_orgId r \<noteq> o') (reconciliationRuns (reclaim_stale e o' db))
      = filter (\<lambda>r. rn_orgId r \<noteq> o') (reconciliationRuns db)"
    unfolding reclaim_stale_def by (simp, rule filter_updated) auto
  then have reclaimed: "foreign_view o' (reclaim_stale e o' db) = foreign_view o' db"
    by (simp add: foreign_view_def reclaim_stale_def)
  have same: "findings db1 = findings db" "transactions db1 = transactions db" "serial db \<le> serial db1"
    using start by (auto simp: startRun_eq reclaim_stale_def Let_def split: if_splits)
  have "foreign_view o' (x\<lparr>reconciliationRuns := reconciliationRuns x @ [new_run e y o' a b c d],
      serial := m\<rparr>) = foreign_view o' x" for x y a b c d m
    by (simp add: foreign_view_def new_run_def)
  then have one: "foreign_view o' db1 = foreign_view o' db"
    using start reclaimed by (auto simp: startRun_eq Let_def split: if_splits)
  show ?thesis
  proof (cases claim)
    case (Already_running i t)
    then show ?thesis using assms(1) start one by (simp add: runReconciliation_def)
  next
    case (Started i c)
    let ?rc = "\<lparr>rc_orgId = o', rc_runId = i, rc_correlationId = c, rc_options = opts\<rparr>"
    obtain db2 t thrown where run: "run_passes e v ?rc f db1 = ((db2, t), thrown)" by (metis prod.collapse)
    have "isolated e (rc_orgId ?rc) db1 db1"
    proof -
      have "fd_id g \<noteq> cuid e n" if "g \<in> set (findings db)" "serial db1 \<le> n" for g n
        using assms(5) same(3) that by (metis imageI order_trans)
      then show ?thesis using assms(2,3) same by (simp add: isolated_def)
    qed
    then have two: "foreign_view o' db2 = foreign_view o' db1"
      using passes_isolated[of e ?rc db1 v f] assms(4) same run by (simp add: isolated_def)
    have ids: "map rn_id (reconciliationRuns (reclaim_stale e o' db)) = map rn_id (reconciliationRuns db)"
      by (simp add: reclaim_stale_def map_updated)
    have "i = cuid e (serial db) \<and> (\<exists>n. reconciliationRuns db1 = reconciliationRuns (reclaim_stale e o' db) @ [n] \<and>
        rn_orgId n = o')"
      using start Started
      by (auto simp: startRun_eq Let_def new_id_def reclaim_stale_def new_run_def split: if_splits)
    moreover have "rn_id q \<noteq> cuid e (serial db)" if "q \<in> set (reconciliationRuns (reclaim_stale e o' db))" for q
      using that assms(5) arg_cong[OF ids, of set] by (metis image_eqI order_refl set_map)
    ultimately have own: "rn_orgId q = o'" if "q \<in> set (reconciliationRuns db1)" "rn_id q = i" for q
      using that by auto
    have runs: "reconciliationRuns db2 = reconciliationRuns db1"
      using passes_runs[of e v ?rc f db1] run by simp
    have "filter (\<lambda>r. rn_orgId r \<noteq> o') (updated (\<lambda>r. rn_id r = i) (finished_run e st tl m) (reconciliationRuns db2))
        = filter (\<lambda>r. rn_orgId r \<noteq> o') (reconciliationRuns db2)" for st tl m
      by (rule filter_updated) (use own runs in auto)
    then have "foreign_view o' (finishRun e i st tl m db2) = foreign_view o' db2" for st tl m
      by (simp add: finishRun_def foreign_view_def)
    then show ?thesis
      using assms(1) start Started run one two
      by (auto simp: runReconciliation_def split: option.splits)
  qed
qed

theorem reconciliation_stays_in_tenant_witness:
  "let db = sample_db\<lparr>escrows := [sample_custody], transactions := [sample_failed ''t1'' ''h'',
         (sample_failed ''t2'' ''h2'')\<lparr>tx_orgId := ''o2''\<rparr>]\<rparr>;
       (db', r) = runReconciliation sample_clock (sample_verifier 3 []) ''o1'' (rc_options sample_run) None ''rec''
         None db
   in foreign_view ''o1'' db' = foreign_view ''o1'' db \<and> length (findings db') = 2"
proof -
  let ?db = "sample_db\<lparr>escrows := [sample_custody], transactions := [sample_failed ''t1'' ''h'',
         (sample_failed ''t2'' ''h2'')\<lparr>tx_orgId := ''o2''\<rparr>]\<rparr>"
  let ?go = "runReconciliation sample_clock (sample_verifier 3 []) ''o1'' (rc_options sample_run) None ''rec''
         None ?db"
  obtain db' r where run: "?go = (db', r)" by fastforce
  have "length (findings (fst ?go)) = 2" by code_simp
  moreover have "inj (cuid sample_clock)"
    by (auto simp: sample_clock_def intro!: injI dest: show_nat_inj)
  ultimately show ?thesis
    using reconciliation_stays_in_tenant[OF run] run
    by (simp add: sample_failed_def empty_db_def)
qed

text \<open>
  A worker that was taken for dead erases the evidence of it. A run whose heartbeat is too old is
  marked stale when the next one takes the lock; when its worker ends after all, \<open>finishRun\<close> does
  not look at the status, and the row becomes an ordinary completed run without an error.
\<close>

theorem late_finish_erases_stale_mark:
  assumes "running o' db = [x]" and "rn_heartbeatAt x < now e - STALE_RUN_AFTER_MS"
    and "startRun e o' scope contractId network corr db = (db1, Started i c)" and "rn_id x \<noteq> i"
    and "db2 = finishRun e2 (rn_id x) COMPLETED t None db1"
  shows "abandoned e x \<in> set (reconciliationRuns db1) \<and>
    abandoned e x \<notin> set (reconciliationRuns db2) \<and>
    (\<forall>r \<in> set (reconciliationRuns db2). rn_id r = rn_id x \<longrightarrow>
       rn_status r = COMPLETED \<and> rn_errorMessage r = None) \<and>
    map rn_id (running o' db2) = [i]"
proof -
  have x: "x \<in> set (reconciliationRuns db)" "rn_orgId x = o'" "rn_status x = RUNNING"
  proof -
    have "x \<in> set (running o' db)" using assms(1) by simp
    then show "x \<in> set (reconciliationRuns db)" "rn_orgId x = o'" "rn_status x = RUNNING"
      by (simp_all add: running_def)
  qed
  have "abandoned e x \<in> set (reconciliationRuns (reclaim_stale e o' db))"
    using x assms(2) by (auto simp: reclaim_stale_def set_updated)
  then have mark: "abandoned e x \<in> set (reconciliationRuns db1)"
    using assms(3) by (auto simp: startRun_eq Let_def split: if_splits)
  have all: "rn_status r = COMPLETED \<and> rn_errorMessage r = None"
    if r: "r \<in> set (reconciliationRuns db2)" "rn_id r = rn_id x" for r
  proof -
    obtain q where "q \<in> set (reconciliationRuns db1)"
      "r = (if rn_id q = rn_id x then finished_run e2 COMPLETED t None q else q)"
      using r(1) by (auto simp: assms(5) finishRun_def set_updated)
    then show ?thesis using r(2) by (cases "rn_id q = rn_id x") simp_all
  qed
  have "abandoned e x \<notin> set (reconciliationRuns db2)"
    using all[of "abandoned e x"] by auto
  moreover have "running o' db2 = running o' db1"
  proof -
    have one: "map rn_id (running o' db1) = [i]" using started_running[OF assms(3)] by simp
    have "filter (\<lambda>r. rn_orgId r = o' \<and> rn_status r = RUNNING)
        (updated (\<lambda>r. rn_id r = rn_id x) (finished_run e2 COMPLETED t None) (reconciliationRuns db1))
      = filter (\<lambda>r. rn_orgId r = o' \<and> rn_status r = RUNNING) (reconciliationRuns db1)"
    proof (rule filter_updated)
      fix r assume "r \<in> set (reconciliationRuns db1)" "rn_id r = rn_id x"
      then have "r \<notin> set (running o' db1)" using one assms(4) by auto
      then show "\<not> (rn_orgId r = o' \<and> rn_status r = RUNNING) \<and>
          \<not> (rn_orgId (finished_run e2 COMPLETED t None r) = o' \<and>
             rn_status (finished_run e2 COMPLETED t None r) = RUNNING)"
        using \<open>r \<in> set (reconciliationRuns db1)\<close> by (auto simp: running_def)
    qed
    then show ?thesis by (simp add: running_def assms(5) finishRun_def)
  qed
  ultimately show ?thesis using mark all started_running[OF assms(3)] by auto
qed

theorem late_finish_erases_stale_mark_witness:
  "let (db1, _) = startRun (at_time 0) ''o1'' ''s'' None None ''a'' sample_db;
       (db2, _) = startRun (at_time 600001) ''o1'' ''s'' None None ''b'' db1;
       db3 = finishRun (at_time 600002) ''c0'' COMPLETED no_tally None db2
   in map rn_status (reconciliationRuns db2) = [STALE, RUNNING] \<and>
      map rn_status (reconciliationRuns db3) = [COMPLETED, RUNNING] \<and>
      map rn_errorMessage (reconciliationRuns db3) = [None, None] \<and> map rn_id (running ''o1'' db3) = [''c1'']"
proof -
  let ?s1 = "startRun (at_time 0) ''o1'' ''s'' None None ''a'' sample_db"
  obtain db1 r1 where s1: "?s1 = (db1, r1)" by fastforce
  let ?s2 = "startRun (at_time 600001) ''o1'' ''s'' None None ''b'' db1"
  obtain db2 r2 where s2: "?s2 = (db2, r2)" by fastforce
  let ?x = "new_run (at_time 0) sample_db ''o1'' ''s'' None None ''a''"
  have db1: "db1 = sample_db\<lparr>reconciliationRuns := [?x], serial := 1\<rparr>"
    using s1 by (simp add: startRun_eq Let_def reclaim_stale_def running_def updated_eq empty_db_def)
  have r2: "r2 = Started ''c1'' ''b''"
  proof -
    have "snd (startRun (at_time 600001) ''o1'' ''s'' None None ''b'' (fst ?s1)) = Started ''c1'' ''b''"
      by code_simp
    then show ?thesis using s1 s2 by simp
  qed
  have run: "running ''o1'' db1 = [?x]" by (simp add: db1 running_def new_run_def)
  have x: "rn_id ?x = ''c0''" "rn_heartbeatAt ?x < now (at_time 600001) - STALE_RUN_AFTER_MS"
    by code_simp+
  have "startRun (at_time 600001) ''o1'' ''s'' None None ''b'' db1 = (db2, Started ''c1'' ''b'')"
    using s2 r2 by simp
  note late = late_finish_erases_stale_mark[OF run x(2) this _ refl, of "at_time 600002" no_tally]
  have "map rn_status (reconciliationRuns (fst (startRun (at_time 600001) ''o1'' ''s'' None None ''b'' (fst ?s1))))
      = [STALE, RUNNING] \<and>
    map (\<lambda>r. (rn_status r, rn_errorMessage r)) (reconciliationRuns (finishRun (at_time 600002) ''c0'' COMPLETED no_tally None
      (fst (startRun (at_time 600001) ''o1'' ''s'' None None ''b'' (fst ?s1))))) = [(COMPLETED, None), (RUNNING, None)]"
    by code_simp
  then show ?thesis using late s1 s2 x(1) by (auto simp: Let_def)
qed

end
