(* ===== verification/Money.thy ===== *)
theory Money
  imports Interfaces
begin

text \<open>
  \<open>src/lib/money.ts\<close>: exact conversion between decimal strings and integer base units.
  Strings are lists of characters, a \<open>bigint\<close> is an \<open>int\<close>, the number of decimals is a
  \<open>nat\<close>, and the class \<open>MoneyParseError\<close> is a datatype with one constructor for each place
  that throws it, carrying the values the message is built from.
\<close>

section \<open>The operations\<close>

datatype money_error =
    InvalidAmount string
  | TooManyDecimals string nat nat

definition SAC_DECIMALS :: nat where
  "SAC_DECIMALS = 7"

definition strip_commas :: "string \<Rightarrow> string" where
  "strip_commas s = filter (\<lambda>c. c \<noteq> CHR '','') s"

definition unsigned :: "string \<Rightarrow> bool \<times> string" where
  "unsigned s = (case s of [] \<Rightarrow> (False, [])
                 | c # cs \<Rightarrow> if c = CHR ''-'' then (True, cs) else (False, s))"

text \<open>\<open>/^-?\d+(\.\d+)?$/\<close>\<close>

definition DECIMAL_RE :: "string \<Rightarrow> bool" where
  "DECIMAL_RE raw =
     (let body = snd (unsigned raw);
          whole = takeWhile is_digit body;
          rest = dropWhile is_digit body
      in whole \<noteq> [] \<and> (rest = [] \<or> hd rest = CHR ''.'' \<and> all_digits (tl rest)))"

text \<open>\<open>const [whole, fraction = ''] = s.split('.')\<close>\<close>

definition split_point :: "string \<Rightarrow> string \<times> string" where
  "split_point s =
     (takeWhile (\<lambda>c. c \<noteq> CHR ''.'') s,
      takeWhile (\<lambda>c. c \<noteq> CHR ''.'') (tl (dropWhile (\<lambda>c. c \<noteq> CHR ''.'') s)))"

definition parseAmount :: "string \<Rightarrow> nat \<Rightarrow> money_error + base_units" where
  "parseAmount input decimals =
     (let raw = strip_commas (js_trim input) in
      if \<not> DECIMAL_RE raw then Inl (InvalidAmount input)
      else let (negative, body) = unsigned raw;
               (whole, fraction) = split_point body
           in if length fraction > decimals
              then Inl (TooManyDecimals input (length fraction) decimals)
              else let padded = pad_end decimals CHR ''0'' fraction;
                       units = int (digits_val (whole @ padded))
                   in Inr (if negative then - units else units))"

record fmt_opts =
  trimTrailingZeros :: bool
  minFractionDigits :: nat

definition default_opts :: fmt_opts where
  "default_opts = \<lparr>trimTrailingZeros = True, minFractionDigits = 2\<rparr>"

definition drop_trailing_zeros :: "string \<Rightarrow> string" where
  "drop_trailing_zeros s = rev (dropWhile (\<lambda>c. c = CHR ''0'') (rev s))"

definition formatAmount :: "base_units \<Rightarrow> nat \<Rightarrow> fmt_opts \<Rightarrow> string" where
  "formatAmount units decimals opts =
     (let negative = units < 0;
          abs = nat (if negative then - units else units);
          divisor = 10 ^ decimals;
          whole = show_nat (abs div divisor);
          padded = pad_start decimals CHR ''0'' (show_nat (abs mod divisor));
          trimmed = (if trimTrailingZeros opts then drop_trailing_zeros padded else padded);
          fraction = pad_end (minFractionDigits opts) CHR ''0'' trimmed;
          body = (if length fraction > 0 then whole @ CHR ''.'' # fraction else whole)
      in if negative then CHR ''-'' # body else body)"

text \<open>
  \<open>whole.replace(/\B(?=(\d{3})+(?!\d))/g, ',')\<close>: a comma between two digits when a positive
  multiple of three digits follows.
\<close>

fun group_thousands :: "string \<Rightarrow> string" where
  "group_thousands [] = []"
| "group_thousands [c] = [c]"
| "group_thousands (c # d # cs) =
     c # (if length (d # cs) mod 3 = 0 then CHR '','' # group_thousands (d # cs)
          else group_thousands (d # cs))"

definition formatAmountWithSeparators :: "base_units \<Rightarrow> nat \<Rightarrow> fmt_opts \<Rightarrow> string" where
  "formatAmountWithSeparators units decimals opts =
     (let (negative, rest) = unsigned (formatAmount units decimals opts);
          (whole, fraction) = split_point rest;
          grouped = group_thousands whole;
          body = (if fraction \<noteq> [] then grouped @ CHR ''.'' # fraction else grouped)
      in if negative then CHR ''-'' # body else body)"

definition sumAmounts :: "base_units list \<Rightarrow> base_units" where
  "sumAmounts amounts = foldl (+) 0 amounts"

definition hoursForAmount :: "base_units \<Rightarrow> base_units \<Rightarrow> int option" where
  "hoursForAmount amount ratePerHour =
     (if ratePerHour \<le> 0 then None
      else if js_rem amount ratePerHour = 0 then Some (js_div amount ratePerHour) else None)"

section \<open>What the parser does on a well-formed string\<close>

text \<open>The strings \<open>[-]whole[.fraction]\<close> the parser accepts, put together from their parts.\<close>

definition decimal_string :: "bool \<Rightarrow> string \<Rightarrow> string \<Rightarrow> string" where
  "decimal_string negative whole fraction =
     (let body = (if fraction \<noteq> [] then whole @ CHR ''.'' # fraction else whole)
      in if negative then CHR ''-'' # body else body)"

lemma digits_no_point: "list_all is_digit s \<Longrightarrow> c \<in> set s \<Longrightarrow> c \<noteq> CHR ''.'' \<and> c \<noteq> CHR '',''"
  by (auto simp: list_all_iff dest: is_digit_not_special)

lemma split_point_decimal:
  assumes "list_all is_digit whole" and "list_all is_digit fraction"
  shows "split_point (if fraction \<noteq> [] then whole @ CHR ''.'' # fraction else whole)
           = (whole, fraction)"
proof -
  have none: "\<And>c. c \<in> set whole \<Longrightarrow> c \<noteq> CHR ''.''" "\<And>c. c \<in> set fraction \<Longrightarrow> c \<noteq> CHR ''.''"
    using assms by (auto dest: digits_no_point)
  then show ?thesis
    by (auto simp: split_point_def takeWhile_append2 dropWhile_append2 takeWhile_eq_all_conv
        dropWhile_eq_Nil_conv[THEN iffD2])
qed

lemma unsigned_decimal:
  assumes "list_all is_digit whole" and "whole \<noteq> []"
  shows "unsigned (decimal_string negative whole fraction)
    = (negative, if fraction \<noteq> [] then whole @ CHR ''.'' # fraction else whole)"
  using assms by (cases whole) (auto simp: decimal_string_def unsigned_def Let_def dest: is_digit_not_special)

lemma decimal_string_matches:
  assumes "list_all is_digit whole" and "whole \<noteq> []" and "list_all is_digit fraction"
  shows "DECIMAL_RE (decimal_string negative whole fraction)"
proof -
  have digits: "\<And>c. c \<in> set whole \<Longrightarrow> is_digit c" using assms(1) by (simp add: list_all_iff)
  have point: "\<not> is_digit CHR ''.''" by (simp add: is_digit_def)
  show ?thesis
  proof (cases "fraction = []")
    case True
    then show ?thesis
      using assms(2) digits
      by (simp add: DECIMAL_RE_def unsigned_decimal[OF assms(1,2)] takeWhile_eq_all_conv[THEN iffD2]
          dropWhile_eq_Nil_conv[THEN iffD2] Let_def)
  next
    case False
    then show ?thesis
      using assms digits point
      by (simp add: DECIMAL_RE_def unsigned_decimal takeWhile_append2 dropWhile_append2
          all_digits_def Let_def)
  qed
qed

lemma decimal_string_clean:
  assumes "list_all is_digit whole" and "list_all is_digit fraction"
  shows "strip_commas (js_trim (decimal_string negative whole fraction))
           = decimal_string negative whole fraction"
proof -
  have chars: "c \<noteq> CHR '','' \<and> \<not> js_ws c"
    if "c \<in> set (decimal_string negative whole fraction)" for c
  proof -
    have "c = CHR ''-'' \<or> c = CHR ''.'' \<or> is_digit c"
      using that assms by (auto simp: decimal_string_def Let_def list_all_iff split: if_splits)
    then show ?thesis
      by (elim disjE) (simp add: js_ws_def, simp add: js_ws_def, simp add: is_digit_not_special)
  qed
  then have "js_trim (decimal_string negative whole fraction) = decimal_string negative whole fraction"
    by (intro js_trim_id ballI) simp
  then show ?thesis using chars by (simp add: strip_commas_def filter_id_conv)
qed

lemma parse_decimal_string:
  assumes "list_all is_digit whole" and "whole \<noteq> []" and "list_all is_digit fraction"
    and clean: "strip_commas (js_trim input) = decimal_string negative whole fraction"
  shows "parseAmount input decimals =
    (if length fraction > decimals then Inl (TooManyDecimals input (length fraction) decimals)
     else Inr ((if negative then -1 else 1)
               * int (digits_val (whole @ pad_end decimals CHR ''0'' fraction))))"
  using assms
  by (simp add: parseAmount_def decimal_string_matches unsigned_decimal split_point_decimal Let_def
      del: if_split_asm)

section \<open>What the formatter produces\<close>

lemma drop_trailing_zeros_pad:
  "drop_trailing_zeros s @ replicate (length s - length (drop_trailing_zeros s)) CHR ''0'' = s"
proof -
  let ?P = "\<lambda>c. c = CHR ''0''"
  have "takeWhile ?P (rev s) = replicate (length (takeWhile ?P (rev s))) CHR ''0''"
    by (intro replicate_eqI) (auto dest: set_takeWhileD)
  moreover have "length (takeWhile ?P (rev s)) = length s - length (drop_trailing_zeros s)"
    using arg_cong[OF takeWhile_dropWhile_id[of ?P "rev s"], of length]
    unfolding length_append by (simp add: drop_trailing_zeros_def)
  ultimately have "rev s = replicate (length s - length (drop_trailing_zeros s)) CHR ''0''
      @ dropWhile ?P (rev s)"
    by (metis takeWhile_dropWhile_id)
  then have "s = rev (replicate (length s - length (drop_trailing_zeros s)) CHR ''0''
      @ dropWhile ?P (rev s))"
    by (metis rev_rev_ident)
  then show ?thesis by (simp add: drop_trailing_zeros_def)
qed

lemma drop_trailing_zeros_length: "length (drop_trailing_zeros s) \<le> length s"
  by (simp add: drop_trailing_zeros_def length_dropWhile_le[of _ "rev s", simplified])

lemma drop_trailing_zeros_digits:
  "list_all is_digit s \<Longrightarrow> list_all is_digit (drop_trailing_zeros s)"
  by (auto simp: drop_trailing_zeros_def list_all_iff dest: set_dropWhileD)

lemma digit_char_zero: "digit_char 0 = CHR ''0''"
  by code_simp

lemma zero_is_digit [simp]: "is_digit CHR ''0''"
  by (simp add: is_digit_def)

lemma pad_digits [simp]:
  "list_all is_digit (pad_start n CHR ''0'' s) \<longleftrightarrow> list_all is_digit s"
  "list_all is_digit (pad_end n CHR ''0'' s) \<longleftrightarrow> list_all is_digit s"
  by (auto simp: pad_start_def pad_end_def list_all_iff)

text \<open>The options under which no digit is added beyond the asset's own decimals.\<close>

definition faithful_opts :: "nat \<Rightarrow> fmt_opts \<Rightarrow> bool" where
  "faithful_opts decimals opts \<longleftrightarrow>
     minFractionDigits opts \<le> decimals \<and> (trimTrailingZeros opts \<or> 0 < decimals)"

definition format_fraction :: "nat \<Rightarrow> nat \<Rightarrow> fmt_opts \<Rightarrow> string" where
  "format_fraction r decimals opts =
     (let padded = pad_start decimals CHR ''0'' (show_nat r)
      in pad_end (minFractionDigits opts) CHR ''0''
           (if trimTrailingZeros opts then drop_trailing_zeros padded else padded))"

lemma format_fraction_digits: "list_all is_digit (format_fraction r decimals opts)"
  by (simp add: format_fraction_def show_nat_digits drop_trailing_zeros_digits Let_def)

lemma formatAmount_shape:
  "formatAmount u d opts =
     decimal_string (u < 0) (show_nat (nat \<bar>u\<bar> div 10 ^ d)) (format_fraction (nat \<bar>u\<bar> mod 10 ^ d) d opts)"
  by (simp add: formatAmount_def decimal_string_def format_fraction_def Let_def abs_if)

lemma pad_end_pad_end:
  "length s \<le> n \<Longrightarrow> m \<le> n \<Longrightarrow> pad_end n c (pad_end m c s) = pad_end n c s"
  by (simp add: pad_end_def replicate_add[symmetric] max_def del: replicate_add)

lemma pad_end_drop_zeros:
  "length s = n \<Longrightarrow> pad_end n CHR ''0'' (drop_trailing_zeros s) = s"
  using drop_trailing_zeros_pad[of s] by (simp add: pad_end_def)

lemma pad_end_format_fraction:
  assumes opts: "faithful_opts d opts" and r: "r < 10 ^ d"
  shows "length (format_fraction r d opts) \<le> d \<and>
         length (pad_end d CHR ''0'' (format_fraction r d opts)) = d \<and>
         digits_val (pad_end d CHR ''0'' (format_fraction r d opts)) = r"
proof (cases "d = 0")
  case True
  then show ?thesis
    using assms
    by (simp add: faithful_opts_def format_fraction_def pad_start_def pad_end_def
        drop_trailing_zeros_def show_nat.simps digit_char_zero Let_def)
next
  case False
  define p where "p = pad_start d CHR ''0'' (show_nat r)"
  have len: "length p = d" using length_show_nat[OF r] False by (simp add: p_def)
  have short: "length (drop_trailing_zeros p) \<le> d"
    using drop_trailing_zeros_length[of p] len by simp
  have frac: "format_fraction r d opts = pad_end (minFractionDigits opts) CHR ''0''
      (if trimTrailingZeros opts then drop_trailing_zeros p else p)"
    by (simp add: format_fraction_def p_def Let_def)
  have "pad_end d CHR ''0'' (format_fraction r d opts) = p"
    using opts len short
    by (simp add: faithful_opts_def frac pad_end_pad_end pad_end_drop_zeros)
      (simp add: pad_end_def)
  moreover have "digits_val p = r"
    by (simp add: p_def pad_start_def digits_val_zeros_prefix digits_val_show_nat)
  moreover have "length (format_fraction r d opts) \<le> d"
    using opts len short by (simp add: faithful_opts_def frac)
  ultimately show ?thesis using len by simp
qed

lemma parse_of_format:
  assumes opts: "faithful_opts d opts"
    and input: "strip_commas (js_trim input) = formatAmount u d opts"
  shows "parseAmount input d = Inr u"
proof -
  let ?n = "nat \<bar>u\<bar>"
  have r: "?n mod 10 ^ d < 10 ^ d" by simp
  note fraction = pad_end_format_fraction[OF opts r]
  have "digits_val (show_nat (?n div 10 ^ d)
          @ pad_end d CHR ''0'' (format_fraction (?n mod 10 ^ d) d opts)) = ?n"
    using fraction by (simp add: digits_val_append digits_val_show_nat div_mult_mod_eq)
  then show ?thesis
    using parse_decimal_string[OF show_nat_digits show_nat_not_Nil format_fraction_digits
        input[unfolded formatAmount_shape], of d] fraction
    by simp
qed

lemma strip_group_thousands:
  "list_all is_digit s \<Longrightarrow> strip_commas (group_thousands s) = s"
  by (induction s rule: group_thousands.induct)
    (auto simp: strip_commas_def dest: is_digit_not_special)

lemma group_thousands_not_Nil [simp]: "group_thousands s = [] \<longleftrightarrow> s = []"
  by (cases s rule: group_thousands.cases) auto

lemma group_thousands_chars:
  "c \<in> set (group_thousands s) \<Longrightarrow> c = CHR '','' \<or> c \<in> set s"
  by (induction s rule: group_thousands.induct) (auto split: if_splits)

lemma strip_separators:
  "strip_commas (js_trim (formatAmountWithSeparators u d opts)) = formatAmount u d opts"
proof -
  define w where "w = show_nat (nat \<bar>u\<bar> div 10 ^ d)"
  define f where "f = format_fraction (nat \<bar>u\<bar> mod 10 ^ d) d opts"
  have w: "list_all is_digit w" "w \<noteq> []" by (simp_all add: w_def show_nat_digits)
  have f: "list_all is_digit f" by (simp add: f_def format_fraction_digits)
  have fmt: "formatAmount u d opts = decimal_string (u < 0) w f"
    by (simp add: formatAmount_shape w_def f_def)
  have sep: "formatAmountWithSeparators u d opts = decimal_string (u < 0) (group_thousands w) f"
    using w f
    by (simp add: formatAmountWithSeparators_def fmt unsigned_decimal split_point_decimal
        decimal_string_def[of _ "group_thousands w"] Let_def del: if_split_asm)
  have "\<not> js_ws c" if "c \<in> set (decimal_string (u < 0) (group_thousands w) f)" for c
  proof -
    have "c = CHR ''-'' \<or> c = CHR ''.'' \<or> c = CHR '','' \<or> is_digit c"
      using that w(1) f
      by (auto simp: decimal_string_def Let_def list_all_iff split: if_splits
          dest: group_thousands_chars)
    then show ?thesis
      by (elim disjE) (simp add: js_ws_def, simp add: js_ws_def, simp add: js_ws_def,
          simp add: is_digit_not_special)
  qed
  then have "js_trim (decimal_string (u < 0) (group_thousands w) f)
      = decimal_string (u < 0) (group_thousands w) f"
    by (intro js_trim_id ballI)
  moreover have "strip_commas f = f"
    using f by (auto simp: strip_commas_def list_all_iff filter_id_conv dest: is_digit_not_special)
  ultimately show ?thesis
    using w strip_group_thousands[OF w(1)]
    by (simp add: sep fmt decimal_string_def Let_def) (simp add: strip_commas_def)
qed

section \<open>What the parser accepts\<close>

lemma DECIMAL_RE_parts:
  assumes "DECIMAL_RE raw"
  obtains negative whole fraction where "list_all is_digit whole" "whole \<noteq> []"
    "list_all is_digit fraction" "raw = decimal_string negative whole fraction"
proof -
  obtain negative body where u: "unsigned raw = (negative, body)" by fastforce
  then have raw: "raw = (if negative then CHR ''-'' # body else body)"
    by (auto simp: unsigned_def split: list.splits if_splits)
  define w r where "w = takeWhile is_digit body" and "r = dropWhile is_digit body"
  then have body: "body = w @ r" by simp
  have re: "w \<noteq> []" "r = [] \<or> hd r = CHR ''.'' \<and> all_digits (tl r)"
    using assms u by (auto simp: DECIMAL_RE_def Let_def w_def r_def)
  have w: "list_all is_digit w" by (auto simp: list_all_iff w_def dest: set_takeWhileD)
  show ?thesis
  proof (cases r)
    case Nil
    then show ?thesis
      using that[of w "[]" negative] w re raw body by (simp add: decimal_string_def)
  next
    case (Cons c f)
    then show ?thesis
      using that[of w f negative] w re raw body by (simp add: decimal_string_def all_digits_def)
  qed
qed

lemma digits_val_pad_end:
  "length s \<le> n \<Longrightarrow> digits_val (t @ pad_end n CHR ''0'' s) = digits_val (t @ s) * 10 ^ (n - length s)"
proof -
  have zeros: "digits_val (replicate k CHR ''0'') = 0" for k
    using digits_val_zeros_prefix[of k "[]"] by simp
  then show "length s \<le> n \<Longrightarrow> ?thesis"
    by (simp add: pad_end_def zeros digits_val_append[of "t @ s", simplified])
qed

section \<open>Interfaces provided\<close>

definition right :: "'e + 'a \<Rightarrow> 'a option" where
  "right r = (case r of Inl _ \<Rightarrow> None | Inr x \<Rightarrow> Some x)"

lemma format_clean: "strip_commas (js_trim (formatAmount u d opts)) = formatAmount u d opts"
  by (simp add: formatAmount_shape decimal_string_clean show_nat_digits format_fraction_digits)

interpretation sac: codec "\<lambda>u. formatAmount u SAC_DECIMALS default_opts"
  "\<lambda>s. right (parseAmount s SAC_DECIMALS)" "\<lambda>_. True"
  by unfold_locales
    (simp add: parse_of_format[OF _ format_clean] right_def faithful_opts_def default_opts_def
      SAC_DECIMALS_def)

section \<open>Properties\<close>

text \<open>
  C20: Formatting loses nothing, with options that ask for no more fraction digits than the
  asset has decimals and, when it has none, trim trailing zeros (\<open>faithful_opts\<close>; the defaults do
  from two decimals on): parsing what \<open>formatAmount\<close> or \<open>formatAmountWithSeparators\<close> printed
  gives back the same number of base units, for every amount of either sign. With other options what
  is printed may have more digits than the asset, which \<open>parseAmount\<close> refuses: 5 base units
  without decimals print as 5.00.
\<close>

theorem money_roundtrip:
  assumes "faithful_opts d opts"
  shows "parseAmount (formatAmount u d opts) d = Inr u \<and>
         parseAmount (formatAmountWithSeparators u d opts) d = Inr u"
  using parse_of_format[OF assms] by (simp add: format_clean strip_separators)

theorem money_roundtrip_witness:
  "parseAmount (formatAmount (-8420000000) 7 default_opts) 7 = Inr (-8420000000) \<and>
   parseAmount (formatAmountWithSeparators (-8420000000) 7 default_opts) 7 = Inr (-8420000000)"
  by (rule money_roundtrip) (simp add: faithful_opts_def default_opts_def)

text \<open>
  \<open>parseAmount\<close> never rounds and never guesses. It returns \<open>u\<close> exactly when the input,
  trimmed and without separators, is an optional sign, digits and an optional point with
  digits, with at most \<open>d\<close> digits after the point, and \<open>u\<close> is that decimal times \<open>10 ^ d\<close>.
\<close>

theorem parseAmount_exact:
  "parseAmount input d = Inr u \<longleftrightarrow>
    (\<exists>negative whole fraction.
       list_all is_digit whole \<and> whole \<noteq> [] \<and> list_all is_digit fraction \<and>
       strip_commas (js_trim input) = decimal_string negative whole fraction \<and>
       length fraction \<le> d \<and>
       u * 10 ^ length fraction
         = (if negative then -1 else 1) * int (digits_val (whole @ fraction)) * 10 ^ d)"
  (is "?parse \<longleftrightarrow> ?spec")
proof
  assume ?parse
  then have "DECIMAL_RE (strip_commas (js_trim input))"
    by (auto simp: parseAmount_def Let_def split: if_splits)
  then obtain negative whole fraction where parts: "list_all is_digit whole" "whole \<noteq> []"
    "list_all is_digit fraction"
    "strip_commas (js_trim input) = decimal_string negative whole fraction"
    by (rule DECIMAL_RE_parts)
  with \<open>?parse\<close> have len: "length fraction \<le> d" and u: "u = (if negative then -1 else 1)
      * int (digits_val (whole @ pad_end d CHR ''0'' fraction))"
    using parse_decimal_string[OF parts, of d] by (auto split: if_splits)
  have "u * 10 ^ length fraction
      = (if negative then -1 else 1) * int (digits_val (whole @ fraction)) * 10 ^ d"
    using len by (simp add: u digits_val_pad_end power_add[symmetric] mult.assoc del: digits_val_append)
  then show ?spec using parts len by blast
next
  assume ?spec
  then obtain negative whole fraction where parts: "list_all is_digit whole" "whole \<noteq> []"
    "list_all is_digit fraction"
    "strip_commas (js_trim input) = decimal_string negative whole fraction"
    and len: "length fraction \<le> d"
    and u: "u * 10 ^ length fraction
         = (if negative then -1 else 1) * int (digits_val (whole @ fraction)) * 10 ^ d"
    by blast
  have "(10::int) ^ d = 10 ^ (d - length fraction) * 10 ^ length fraction"
    using len by (simp add: power_add[symmetric])
  then have "u = (if negative then -1 else 1) * int (digits_val (whole @ fraction))
      * 10 ^ (d - length fraction)"
    using u by simp
  then show ?parse
    using parse_decimal_string[OF parts, of d] len by (simp add: digits_val_pad_end)
qed

text \<open>
  \<open>hoursForAmount\<close> answers \<open>h\<close> exactly when the rate is positive and the amount is \<open>h\<close>
  times the rate, which is the equation the contract enforces; every other amount or rate gives
  \<open>null\<close>.
\<close>

theorem hoursForAmount_exact:
  "hoursForAmount amount rate = Some h \<longleftrightarrow> 0 < rate \<and> amount = h * rate"
proof (cases "0 < rate")
  case True
  then show ?thesis
    by (auto simp: hoursForAmount_def js_rem_def js_div_mult_cancel algebra_simps)
qed (simp add: hoursForAmount_def)

end
