(* ===== verification/Eligibility.thy ===== *)
theory Eligibility
  imports Database Money
begin

text \<open>
  \<open>src/lib/funding/eligibility.ts\<close>: the pure decision whether a batch may be funded, with every
  reason why not. The texts of the reasons are left out; a reason keeps its code, the payment it is
  about and the position of that payment. The asset comes from \<open>src/lib/payroll/assets.ts\<close>.
\<close>

section \<open>Inputs and the assessment\<close>

definition MAX_FUNDABLE_PAYMENTS :: nat where
  "MAX_FUNDABLE_PAYMENTS = 100"

definition FUNDABLE_STATES :: "payment_state list" where
  "FUNDABLE_STATES = [DRAFT, VALIDATING]"

definition FUNDING_ROLES :: "org_role list" where
  "FUNDING_ROLES = [OWNER, ADMIN, MANAGER]"

datatype blocker_code =
    NO_PAYMENTS | TOO_MANY_PAYMENTS | ALREADY_FUNDED | FUNDING_IN_FLIGHT | PAYMENT_NOT_FUNDABLE
  | PAYMENT_ALREADY_ON_CHAIN | SETTLEMENT_ASSET_UNCONFIGURED | PAYMENT_ASSET_MISMATCH | MIXED_ASSETS
  | AMOUNT_NOT_POSITIVE | HOURS_RATE_MISMATCH | PERIOD_REQUIRED | PERIOD_INVALID
  | NO_DISTINCT_FINANCE_APPROVER | ORACLE_KEY_UNAVAILABLE | ROLE_NOT_PERMITTED

record funding_blocker =
  fb_code :: blocker_code
  fb_paymentId :: "row_id option"
  fb_position :: "nat option"

record funding_payment =
  fp_id :: row_id
  fp_recipientAddress :: address
  fp_assetCode :: string
  fp_assetContractId :: "string option"
  fp_assetDecimals :: nat
  fp_amountBaseUnits :: base_units
  fp_rateBaseUnits :: base_units
  fp_hours :: int
  fp_periodStart :: "instant option"
  fp_periodEnd :: "instant option"
  fp_state :: payment_state
  fp_escrowId :: "row_id option"
  fp_onChainPaymentIndex :: "int option"

record funding_attempt =
  fa_id :: row_id
  fa_status :: tx_status
  fa_hash :: "string option"
  fa_createdAt :: instant

record settlement_asset =
  sa_code :: string
  sa_contractId :: "string option"
  sa_decimals :: nat

record eligibility_input =
  ei_payments :: "funding_payment list"
  ei_asset :: settlement_asset
  ei_walletAddress :: address
  ei_role :: org_role
  ei_financeApproverAddress :: "address option"
  ei_attempt :: "funding_attempt option"
  ei_oraclePublicKey :: "string option"

record funding_assessment =
  fs_eligible :: bool
  fs_blockers :: "funding_blocker list"
  fs_totalBaseUnits :: base_units
  fs_paymentCount :: nat

definition IN_FLIGHT :: "tx_status list" where
  "IN_FLIGHT = [PREPARING, SIMULATING, AWAITING_SIGNATURE, SUBMITTED]"

section \<open>The checks\<close>

definition blocker :: "blocker_code \<Rightarrow> funding_blocker" where
  "blocker c = \<lparr>fb_code = c, fb_paymentId = None, fb_position = None\<rparr>"

definition payment_blocker :: "funding_payment \<Rightarrow> nat \<Rightarrow> blocker_code \<Rightarrow> funding_blocker" where
  "payment_blocker p position c = \<lparr>fb_code = c, fb_paymentId = Some (fp_id p), fb_position = Some position\<rparr>"

definition push_if :: "bool \<Rightarrow> 'a \<Rightarrow> 'a list" where
  "push_if b x = (if b then [x] else [])"

definition attempt_blockers :: "funding_attempt option \<Rightarrow> funding_blocker list" where
  "attempt_blockers attempt =
     (case attempt of
        None \<Rightarrow> []
      | Some a \<Rightarrow>
          if fa_status a = CONFIRMED then [blocker ALREADY_FUNDED]
          else if fa_status a \<in> set IN_FLIGHT then [blocker FUNDING_IN_FLIGHT]
          else [])"

definition payment_blockers :: "settlement_asset \<Rightarrow> funding_payment \<Rightarrow> nat \<Rightarrow> funding_blocker list" where
  "payment_blockers asset p position =
     (let b = payment_blocker p position in
      push_if (fp_state p \<notin> set FUNDABLE_STATES) (b PAYMENT_NOT_FUNDABLE)
      @ push_if (fp_escrowId p \<noteq> None \<or> fp_onChainPaymentIndex p \<noteq> None) (b PAYMENT_ALREADY_ON_CHAIN)
      @ push_if (fp_assetCode p \<noteq> sa_code asset) (b PAYMENT_ASSET_MISMATCH)
      @ (if fp_amountBaseUnits p \<le> 0 \<or> fp_rateBaseUnits p \<le> 0 \<or> fp_hours p \<le> 0
         then [b AMOUNT_NOT_POSITIVE]
         else push_if (fp_hours p * fp_rateBaseUnits p \<noteq> fp_amountBaseUnits p) (b HOURS_RATE_MISMATCH))
      @ (case (fp_periodStart p, fp_periodEnd p) of
           (Some s, Some f) \<Rightarrow> push_if (f \<le> s) (b PERIOD_INVALID)
         | _ \<Rightarrow> [b PERIOD_REQUIRED]))"

text \<open>The loop over \<open>payments.entries()\<close>: the reasons so far and the running total.\<close>

fun assess_payments ::
  "settlement_asset \<Rightarrow> nat \<Rightarrow> funding_payment list \<Rightarrow> funding_blocker list \<times> base_units \<Rightarrow>
   funding_blocker list \<times> base_units" where
  "assess_payments asset i [] (blockers, running) = (blockers, running)"
| "assess_payments asset i (p # ps) (blockers, running) =
     assess_payments asset (i + 1) ps
       (blockers @ payment_blockers asset p (i + 1), running + fp_amountBaseUnits p)"

definition approver_blockers :: "address option \<Rightarrow> address \<Rightarrow> funding_blocker list" where
  "approver_blockers approver wallet =
     (case approver of
        None \<Rightarrow> [blocker NO_DISTINCT_FINANCE_APPROVER]
      | Some a \<Rightarrow> push_if (a = wallet) (blocker NO_DISTINCT_FINANCE_APPROVER))"

definition assessFundingEligibility :: "eligibility_input \<Rightarrow> funding_assessment" where
  "assessFundingEligibility inp =
     (let ps = ei_payments inp; asset = ei_asset inp;
          before =
            push_if (ei_role inp \<notin> set FUNDING_ROLES) (blocker ROLE_NOT_PERMITTED)
            @ attempt_blockers (ei_attempt inp)
            @ push_if (ps = []) (blocker NO_PAYMENTS)
            @ push_if (length ps > MAX_FUNDABLE_PAYMENTS) (blocker TOO_MANY_PAYMENTS)
            @ push_if (sa_contractId asset = None) (blocker SETTLEMENT_ASSET_UNCONFIGURED)
            @ push_if (length (remdups (map fp_assetCode ps)) > 1) (blocker MIXED_ASSETS);
          (during, amount) = assess_payments asset 0 ps (before, 0);
          blockers = during
            @ approver_blockers (ei_financeApproverAddress inp) (ei_walletAddress inp)
            @ push_if (\<not> truthy (ei_oraclePublicKey inp)) (blocker ORACLE_KEY_UNAVAILABLE)
      in \<lparr>fs_eligible = (blockers = []), fs_blockers = blockers, fs_totalBaseUnits = amount,
          fs_paymentCount = length ps\<rparr>)"

section \<open>What eligible means\<close>

text \<open>
  What \<open>initialize_multi_sig_escrow\<close> and the settlement after it demand of a payment: amount, rate
  and hours agree and are positive, the period has an end after its start; and what the application
  demands: the payment waits for funding, is on no escrow, and is in the asset of the deployment.
\<close>

definition fundable_payment :: "settlement_asset \<Rightarrow> funding_payment \<Rightarrow> bool" where
  "fundable_payment asset p \<longleftrightarrow>
     fp_state p \<in> {DRAFT, VALIDATING} \<and> fp_escrowId p = None \<and> fp_onChainPaymentIndex p = None \<and>
     fp_assetCode p = sa_code asset \<and>
     0 < fp_rateBaseUnits p \<and> 0 < fp_hours p \<and> fp_amountBaseUnits p = fp_hours p * fp_rateBaseUnits p \<and>
     (\<exists>s f. fp_periodStart p = Some s \<and> fp_periodEnd p = Some f \<and> s < f)"

definition fundable :: "eligibility_input \<Rightarrow> bool" where
  "fundable inp \<longleftrightarrow>
     ei_role inp \<in> {OWNER, ADMIN, MANAGER} \<and>
     (case ei_attempt inp of None \<Rightarrow> True | Some a \<Rightarrow> fa_status a \<in> {FAILED, TX_EXPIRED, TX_CANCELLED}) \<and>
     1 \<le> length (ei_payments inp) \<and> length (ei_payments inp) \<le> 100 \<and>
     sa_contractId (ei_asset inp) \<noteq> None \<and>
     list_all (fundable_payment (ei_asset inp)) (ei_payments inp) \<and>
     (\<exists>f. ei_financeApproverAddress inp = Some f \<and> f \<noteq> ei_walletAddress inp) \<and>
     truthy (ei_oraclePublicKey inp)"

lemma push_if_Nil [simp]: "push_if b x = [] \<longleftrightarrow> \<not> b"
  by (simp add: push_if_def)

lemma in_push_if [simp]: "y \<in> set (push_if b x) \<longleftrightarrow> b \<and> y = x"
  by (cases b) (simp_all add: push_if_def)

lemma assess_payments_eq:
  "assess_payments asset i ps (bs, n) =
     (bs @ concat (map (\<lambda>(k, p). payment_blockers asset p (k + 1)) (enumerate i ps)),
      n + sum_list (map fp_amountBaseUnits ps))"
  by (induction ps arbitrary: i bs n) simp_all

lemma payment_blockers_Nil: "payment_blockers asset p i = [] \<longleftrightarrow> fundable_payment asset p"
proof -
  have "0 < fp_hours p \<Longrightarrow> 0 < fp_rateBaseUnits p \<Longrightarrow> \<not> fp_hours p * fp_rateBaseUnits p \<le> 0"
    by (metis mult_pos_pos not_le)
  then show ?thesis
    by (auto simp: payment_blockers_def fundable_payment_def FUNDABLE_STATES_def Let_def
        split: option.split)
qed

lemma attempt_blockers_Nil: "attempt_blockers attempt = [] \<longleftrightarrow>
    (case attempt of None \<Rightarrow> True | Some a \<Rightarrow> fa_status a \<in> {FAILED, TX_EXPIRED, TX_CANCELLED})"
  by (auto simp: attempt_blockers_def IN_FLIGHT_def split: option.split intro: tx_status.exhaust)

lemma approver_blockers_Nil: "approver_blockers approver wallet = [] \<longleftrightarrow>
    (\<exists>f. approver = Some f \<and> f \<noteq> wallet)"
  by (auto simp: approver_blockers_def split: option.split)

lemma one_asset:
  assumes "list_all (fundable_payment asset) ps"
  shows "length (remdups (map fp_assetCode ps)) \<le> 1"
proof -
  have "set (map fp_assetCode ps) \<subseteq> {sa_code asset}"
    using assms by (auto simp: list_all_iff fundable_payment_def)
  then have "card (set (map fp_assetCode ps)) \<le> card {sa_code asset}" by (intro card_mono) simp_all
  then show ?thesis by (simp add: length_remdups_card_conv)
qed

lemma no_position:
  "b \<in> set (attempt_blockers attempt) \<Longrightarrow> fb_position b = None"
  "b \<in> set (approver_blockers approver wallet) \<Longrightarrow> fb_position b = None"
  "fb_position (blocker c) = None"
  by (auto simp: attempt_blockers_def approver_blockers_def blocker_def split: option.splits if_splits)

lemma payment_position:
  "b \<in> set (payment_blockers asset p i) \<Longrightarrow> fb_position b = Some i \<and> fb_paymentId b = Some (fp_id p)"
  by (auto simp: payment_blockers_def payment_blocker_def Let_def split: option.splits if_splits)

lemma blocker_positions:
  assumes b: "b \<in> set (fs_blockers (assessFundingEligibility inp))" and i: "fb_position b = Some i"
  shows "0 < i \<and> i \<le> length (ei_payments inp) \<and>
    b \<in> set (payment_blockers (ei_asset inp) (ei_payments inp ! (i - 1)) i)"
proof -
  have "b \<in> set (concat (map (\<lambda>(k, p). payment_blockers (ei_asset inp) p (k + 1))
      (enumerate 0 (ei_payments inp))))"
    using b i
    by (auto simp: assessFundingEligibility_def assess_payments_eq Let_def no_position)
  then obtain k where k: "k < length (ei_payments inp)"
    "b \<in> set (payment_blockers (ei_asset inp) (ei_payments inp ! k) (k + 1))"
    by (auto simp: in_set_enumerate_eq)
  then show ?thesis using payment_position[OF k(2)] i by simp
qed

lemma payment_blockers_reported:
  assumes "k < length (ei_payments inp)" and "b \<in> set (payment_blockers (ei_asset inp) (ei_payments inp ! k) (k + 1))"
  shows "b \<in> set (fs_blockers (assessFundingEligibility inp))"
proof -
  have "(k, ei_payments inp ! k) \<in> set (enumerate 0 (ei_payments inp))"
    using assms(1) by (simp add: in_set_enumerate_eq)
  then show ?thesis
    using assms(2) by (force simp: assessFundingEligibility_def assess_payments_eq Let_def)
qed

lemma eligible_iff: "fs_eligible (assessFundingEligibility inp) \<longleftrightarrow> fundable inp"
proof -
  let ?ps = "ei_payments inp" and ?a = "ei_asset inp"
  have rows: "concat (map (\<lambda>(k, p). payment_blockers ?a p (k + 1)) (enumerate i ps)) = []
      \<longleftrightarrow> list_all (fundable_payment ?a) ps" for i ps
    by (induction ps arbitrary: i) (simp_all add: payment_blockers_Nil)
  have "length (remdups (map fp_assetCode ?ps)) \<le> 1" if "list_all (fundable_payment ?a) ?ps"
    by (rule one_asset[OF that])
  then show ?thesis
    unfolding assessFundingEligibility_def assess_payments_eq Let_def fundable_def
    using rows
    by (auto simp: attempt_blockers_Nil approver_blockers_Nil FUNDING_ROLES_def
        MAX_FUNDABLE_PAYMENTS_def not_less Suc_le_eq)
qed

section \<open>Properties\<close>

text \<open>
  C26: A batch is eligible exactly when it can be funded. The verdict is positive if and only if the
  role may fund, no earlier attempt is in flight or confirmed, the batch has between 1 and 100
  payments, every payment waits for funding, is on no escrow, is in the configured asset, is worth
  exactly its hours at its rate and has a pay period, the finance approver is another wallet than
  the funder's, and there is an oracle key. The total is the exact sum of the amounts, and a reason
  that names a row names the payment in that row.
\<close>

theorem eligibility_exact:
  "let v = assessFundingEligibility inp in
     fs_eligible v = fundable inp \<and>
     fs_totalBaseUnits v = sum_list (map fp_amountBaseUnits (ei_payments inp)) \<and>
     fs_paymentCount v = length (ei_payments inp) \<and>
     (\<forall>b \<in> set (fs_blockers v). \<forall>i. fb_position b = Some i \<longrightarrow>
        0 < i \<and> i \<le> length (ei_payments inp) \<and>
        fb_paymentId b = Some (fp_id (ei_payments inp ! (i - 1))))"
proof -
  let ?v = "assessFundingEligibility inp"
  have "fs_totalBaseUnits ?v = sum_list (map fp_amountBaseUnits (ei_payments inp))"
    "fs_paymentCount ?v = length (ei_payments inp)"
    by (simp_all add: assessFundingEligibility_def assess_payments_eq Let_def)
  moreover have "0 < i \<and> i \<le> length (ei_payments inp) \<and>
      fb_paymentId b = Some (fp_id (ei_payments inp ! (i - 1)))"
    if "b \<in> set (fs_blockers ?v)" "fb_position b = Some i" for b i
    using blocker_positions[OF that] payment_position by blast
  ultimately show ?thesis using eligible_iff unfolding Let_def by blast
qed

definition sample_funding :: "funding_payment" where
  "sample_funding = \<lparr>fp_id = ''p1'', fp_recipientAddress = ''GW'', fp_assetCode = ''USDC'',
     fp_assetContractId = None, fp_assetDecimals = 7, fp_amountBaseUnits = 100, fp_rateBaseUnits = 10,
     fp_hours = 10, fp_periodStart = Some 0, fp_periodEnd = Some 1000, fp_state = DRAFT,
     fp_escrowId = None, fp_onChainPaymentIndex = None\<rparr>"

definition sample_batch :: "funding_payment list \<Rightarrow> eligibility_input" where
  "sample_batch ps = \<lparr>ei_payments = ps,
     ei_asset = \<lparr>sa_code = ''USDC'', sa_contractId = Some ''C1'', sa_decimals = 7\<rparr>,
     ei_walletAddress = ''GM'', ei_role = MANAGER, ei_financeApproverAddress = Some ''GF'',
     ei_attempt = None, ei_oraclePublicKey = Some ''K''\<rparr>"

theorem eligibility_exact_witness:
  "fs_eligible (assessFundingEligibility (sample_batch [sample_funding])) \<and>
   fundable (sample_batch [sample_funding]) \<and>
   map fb_code (fs_blockers (assessFundingEligibility
     (sample_batch [sample_funding, sample_funding\<lparr>fp_hours := 9\<rparr>]))) = [HOURS_RATE_MISMATCH] \<and>
   map fb_paymentId (fs_blockers (assessFundingEligibility
     (sample_batch [sample_funding, sample_funding\<lparr>fp_hours := 9\<rparr>]))) = [Some ''p1'']"
proof -
  have "fs_eligible (assessFundingEligibility (sample_batch [sample_funding]))" by code_simp
  moreover have "fundable (sample_batch [sample_funding])"
    using calculation eligibility_exact[of "sample_batch [sample_funding]"] by (simp add: Let_def)
  moreover have "map fb_code (fs_blockers (assessFundingEligibility
     (sample_batch [sample_funding, sample_funding\<lparr>fp_hours := 9\<rparr>]))) = [HOURS_RATE_MISMATCH]" by code_simp
  moreover have "map fb_paymentId (fs_blockers (assessFundingEligibility
     (sample_batch [sample_funding, sample_funding\<lparr>fp_hours := 9\<rparr>]))) = [Some ''p1'']" by code_simp
  ultimately show ?thesis by blast
qed

end
