(* ===== verification/JsonText.thy ===== *)
theory JsonText
  imports Database
begin

text \<open>
  \<open>JSON.stringify\<close> on the values the sources hash or compare as text: no indentation, the escapes of
  the standard, numbers that are integers. The text determines the value (\<open>json_text_inj\<close>), so that
  a digest of the text is one of the value.
\<close>

section \<open>The text of a value\<close>

definition hex_digit :: "nat \<Rightarrow> char" where
  "hex_digit d = (if d < 10 then char_of (48 + d) else char_of (87 + d))"

abbreviation dquote :: char where "dquote \<equiv> CHR 0x22"

abbreviation backslash :: char where "backslash \<equiv> CHR 0x5C"

definition json_char :: "char \<Rightarrow> string" where
  "json_char c =
     (let n = code_unit c in
      if c = dquote then [backslash, dquote]
      else if c = backslash then [backslash, backslash]
      else if c = CHR 0x08 then [backslash, CHR ''b'']
      else if c = CHR 0x09 then [backslash, CHR ''t'']
      else if c = CHR 0x0A then [backslash, CHR ''n'']
      else if c = CHR 0x0C then [backslash, CHR ''f'']
      else if c = CHR 0x0D then [backslash, CHR ''r'']
      else if n < 32 then [backslash, CHR ''u'', CHR ''0'', CHR ''0'', hex_digit (n div 16), hex_digit (n mod 16)]
      else [c])"

definition json_string :: "string \<Rightarrow> string" where
  "json_string s = dquote # concat (map json_char s) @ [dquote]"

fun json_text :: "json \<Rightarrow> string" and json_items :: "json list \<Rightarrow> string"
  and json_members :: "(string \<times> json) list \<Rightarrow> string" where
  "json_text JNull = ''null''"
| "json_text (JBool b) = (if b then ''true'' else ''false'')"
| "json_text (JNum n) = show_int n"
| "json_text (JStr s) = json_string s"
| "json_text (JArr xs) = CHR ''['' # json_items xs"
| "json_text (JObj ms) = CHR ''{'' # json_members ms"
| "json_items [] = [CHR '']'']"
| "json_items [x] = json_text x @ [CHR '']'']"
| "json_items (x # xs) = json_text x @ CHR '','' # json_items xs"
| "json_members [] = [CHR ''}'']"
| "json_members [(k, x)] = json_string k @ CHR '':'' # json_text x @ [CHR ''}'']"
| "json_members ((k, x) # ms) = json_string k @ CHR '':'' # json_text x @ CHR '','' # json_members ms"

section \<open>The text determines the value\<close>

definition unhex :: "char \<Rightarrow> nat" where
  "unhex c = (if code_unit c < 58 then code_unit c - 48 else code_unit c - 87)"

lemma unhex_hex [simp]: "d < 16 \<Longrightarrow> unhex (hex_digit d) = d"
  by (simp add: unhex_def hex_digit_def)

text \<open>Reading one character back, with what follows it.\<close>

definition read_char :: "string \<Rightarrow> (char \<times> string) option" where
  "read_char s = (case s of
     [] \<Rightarrow> None
   | c # cs \<Rightarrow>
       if c = dquote then None
       else if c \<noteq> backslash then Some (c, cs)
       else (case cs of
           [] \<Rightarrow> None
         | d # ds \<Rightarrow>
             if d = CHR ''u''
             then (case ds of _ # _ # x # y # r \<Rightarrow> Some (char_of (16 * unhex x + unhex y), r) | _ \<Rightarrow> None)
             else Some (if d = CHR ''b'' then CHR 0x08 else if d = CHR ''t'' then CHR 0x09
               else if d = CHR ''n'' then CHR 0x0A else if d = CHR ''f'' then CHR 0x0C
               else if d = CHR ''r'' then CHR 0x0D else d, ds)))"

lemma char_of_code_unit: "code_unit c = n \<Longrightarrow> char_of n = c"
  by auto

lemma read_json_char: "read_char (json_char c @ r) = Some (c, r)"
proof -
  let ?special = "[dquote, backslash, CHR 0x08, CHR 0x09, CHR 0x0A, CHR 0x0C, CHR 0x0D]"
  consider "c \<in> set ?special" | "c \<notin> set ?special" "code_unit c < 32" | "c \<notin> set ?special" "\<not> code_unit c < 32"
    by blast
  then show ?thesis
  proof cases
    case 1
    then show ?thesis
      unfolding set_simps by (elim insertE emptyE) (simp_all add: json_char_def read_char_def Let_def)
  next
    case 2
    let ?n = "code_unit c"
    have "?n div 16 < 16" "?n mod 16 < 16" "16 * (?n div 16) + ?n mod 16 = ?n" using 2(2) by simp_all
    then show ?thesis using 2 by (simp add: json_char_def read_char_def Let_def)
  next
    case 3
    then have "json_char c = [c]" by (simp add: json_char_def Let_def)
    then show ?thesis using 3(1) by (simp add: read_char_def)
  qed
qed

lemma json_char_inj: "json_char c @ r = json_char c' @ r' \<Longrightarrow> c = c' \<and> r = r'"
  by (metis option.inject prod.inject read_json_char)

lemma json_char_no_end: "json_char c @ r \<noteq> dquote # r'"
proof
  assume "json_char c @ r = dquote # r'"
  then have "read_char (dquote # r') = Some (c, r)" by (metis read_json_char)
  then show False by (simp add: read_char_def)
qed

lemma json_string_inj: "json_string s @ r = json_string s' @ r' \<Longrightarrow> s = s' \<and> r = r'"
proof (induction s arbitrary: s')
  case Nil
  then show ?case using json_char_no_end[of _ _ r] by (cases s') (auto simp: json_string_def dest: sym)
next
  case (Cons c s)
  show ?case
  proof (cases s')
    case Nil
    then show ?thesis using Cons.prems json_char_no_end by (simp add: json_string_def)
  next
    case (Cons c' t)
    then have "c = c' \<and> json_string s @ r = json_string t @ r'"
      using Cons.prems json_char_inj[of c _ c'] by (simp add: json_string_def)
    then show ?thesis using Cons.IH[of t] Cons by simp
  qed
qed

text \<open>What may follow a value.\<close>

definition ends :: "string \<Rightarrow> bool" where
  "ends r \<longleftrightarrow> r = [] \<or> hd r \<in> {CHR '','', CHR '']'', CHR ''}''}"

lemma ends_simps [simp]:
  "ends []" "ends (c # r) \<longleftrightarrow> c \<in> {CHR '','', CHR '']'', CHR ''}''}"
  by (auto simp: ends_def)

lemma digits_end: "ends r \<Longrightarrow> r \<noteq> [] \<Longrightarrow> \<not> is_digit (hd r)"
  by (auto simp: ends_def is_digit_def)

lemma digits_inj:
  assumes "list_all is_digit s" "list_all is_digit t" "s @ r = t @ q" "ends r" "ends q"
  shows "s = t \<and> r = q"
  using assms(1-3)
proof (induction s arbitrary: t)
  case Nil
  then show ?case using digits_end[OF assms(4)] by (cases t) auto
next
  case (Cons c s)
  then show ?case using digits_end[OF assms(5)] by (cases t) auto
qed

lemma show_nat_first: "show_nat n @ r = c # x \<Longrightarrow> is_digit c"
  using show_nat_digits[of n] show_nat_not_Nil[of n] by (cases "show_nat n") auto

lemma show_int_inj:
  assumes "show_int a @ r = show_int b @ q" "ends r" "ends q"
  shows "a = b \<and> r = q"
proof -
  have minus: "\<not> is_digit (CHR ''-'')" by (simp add: is_digit_def)
  have nat_inj: "m = n \<and> r = q" if "show_nat m @ r = show_nat n @ q" for m n
    using digits_inj[OF show_nat_digits show_nat_digits that assms(2,3)] show_nat_inj by blast
  show ?thesis
  proof (cases "a < 0"; cases "b < 0")
    assume "a < 0" "b < 0"
    then have "show_nat (nat (- a)) @ r = show_nat (nat (- b)) @ q"
      using assms(1) by (simp add: show_int_def)
    then have "nat (- a) = nat (- b) \<and> r = q" by (rule nat_inj)
    then show ?thesis using \<open>a < 0\<close> \<open>b < 0\<close> by auto
  next
    assume "a < 0" "\<not> b < 0"
    then have "show_nat (nat b) @ q = CHR ''-'' # show_nat (nat (- a)) @ r"
      using assms(1) by (simp add: show_int_def)
    then show ?thesis using show_nat_first minus by blast
  next
    assume "\<not> a < 0" "b < 0"
    then have "show_nat (nat a) @ r = CHR ''-'' # show_nat (nat (- b)) @ q"
      using assms(1) by (simp add: show_int_def)
    then show ?thesis using show_nat_first minus by blast
  next
    assume "\<not> a < 0" "\<not> b < 0"
    then show ?thesis using assms(1) nat_inj[of "nat a" "nat b"] by (auto simp: show_int_def)
  qed
qed

text \<open>The first character tells the kind of a value.\<close>

definition kind_of_text :: "char \<Rightarrow> nat" where
  "kind_of_text c = (if c = CHR ''n'' then 0 else if c = CHR ''t'' then 1 else if c = CHR ''f'' then 2
     else if c = dquote then 4 else if c = CHR ''['' then 5 else if c = CHR ''{'' then 6 else 3)"

fun kind_of_json :: "json \<Rightarrow> nat" where
  "kind_of_json JNull = 0"
| "kind_of_json (JBool b) = (if b then 1 else 2)"
| "kind_of_json (JNum n) = 3"
| "kind_of_json (JStr s) = 4"
| "kind_of_json (JArr xs) = 5"
| "kind_of_json (JObj ms) = 6"

lemma show_int_first: "\<exists>c x. show_int n = c # x \<and> (is_digit c \<or> c = CHR ''-'')"
  using show_nat_first[of _ "[]"] show_nat_not_Nil
  by (cases "show_nat (nat n)") (auto simp: show_int_def)

lemma not_digit:
  "\<not> is_digit (CHR ''n'')" "\<not> is_digit (CHR ''t'')" "\<not> is_digit (CHR ''f'')" "\<not> is_digit dquote"
  "\<not> is_digit (CHR ''['')" "\<not> is_digit (CHR ''{'')" "\<not> is_digit (CHR '']'')"
  by (simp_all add: is_digit_def)

lemma json_text_first: "\<exists>c x. json_text j = c # x \<and> kind_of_text c = kind_of_json j \<and> c \<noteq> CHR '']''"
proof (cases j)
  case (JNum n)
  obtain c x where c: "show_int n = c # x" "is_digit c \<or> c = CHR ''-''"
    using show_int_first by blast
  then have "kind_of_text c = 3 \<and> c \<noteq> CHR '']''"
    using not_digit by (auto simp: kind_of_text_def)
  then show ?thesis using c JNum by simp
qed (auto simp: kind_of_text_def json_string_def)

lemma json_text_kind: "json_text j @ r = json_text k @ q \<Longrightarrow> kind_of_json j = kind_of_json k"
  using json_text_first[of j] json_text_first[of k] by auto

lemma json_items_inj_step:
  assumes x: "\<And>k r q. json_text x @ r = json_text k @ q \<Longrightarrow> ends r \<Longrightarrow> ends q \<Longrightarrow> x = k \<and> r = q"
    and xs: "\<And>ys r q. xs \<noteq> [] \<Longrightarrow> json_items xs @ r = json_items ys @ q \<Longrightarrow> xs = ys \<and> r = q"
    and eq: "json_items (x # xs) @ r = json_items ys @ q"
  shows "x # xs = ys \<and> r = q"
proof -
  have form: "\<exists>c t. json_items (y # ys) @ q = json_text y @ c # t \<and> c \<in> {CHR '','', CHR '']''} \<and>
      (c = CHR '']'' \<longleftrightarrow> ys = []) \<and> (ys = [] \<longrightarrow> t = q) \<and> (ys \<noteq> [] \<longrightarrow> t = json_items ys @ q)" for y ys q
    by (cases ys) auto
  obtain c t where l: "json_items (x # xs) @ r = json_text x @ c # t" "c \<in> {CHR '','', CHR '']''}"
      "c = CHR '']'' \<longleftrightarrow> xs = []" "xs = [] \<longrightarrow> t = r" "xs \<noteq> [] \<longrightarrow> t = json_items xs @ r"
    using form[of x xs r] by blast
  obtain y zs where ys: "ys = y # zs"
    using eq json_text_first[of x] l(1) by (cases ys) auto
  obtain d u where k: "json_items (y # zs) @ q = json_text y @ d # u" "d \<in> {CHR '','', CHR '']''}"
      "d = CHR '']'' \<longleftrightarrow> zs = []" "zs = [] \<longrightarrow> u = q" "zs \<noteq> [] \<longrightarrow> u = json_items zs @ q"
    using form[of y zs q] by blast
  have "x = y \<and> c # t = d # u"
    by (rule x) (use eq l k ys in auto)
  then show ?thesis using l k ys xs[of r zs q] by auto
qed

lemma json_members_inj_step:
  assumes x: "\<And>k r q. json_text x @ r = json_text k @ q \<Longrightarrow> ends r \<Longrightarrow> ends q \<Longrightarrow> x = k \<and> r = q"
    and ms: "\<And>ns r q. ms \<noteq> [] \<Longrightarrow> json_members ms @ r = json_members ns @ q \<Longrightarrow> ms = ns \<and> r = q"
    and eq: "json_members ((k, x) # ms) @ r = json_members ns @ q"
  shows "(k, x) # ms = ns \<and> r = q"
proof -
  have form: "\<exists>c t. json_members ((i, y) # ns) @ q = json_string i @ CHR '':'' # json_text y @ c # t \<and>
      c \<in> {CHR '','', CHR ''}''} \<and> (c = CHR ''}'' \<longleftrightarrow> ns = []) \<and> (ns = [] \<longrightarrow> t = q) \<and>
      (ns \<noteq> [] \<longrightarrow> t = json_members ns @ q)" for i y ns q
    by (cases ns) auto
  obtain c t where l: "json_members ((k, x) # ms) @ r = json_string k @ CHR '':'' # json_text x @ c # t"
      "c \<in> {CHR '','', CHR ''}''}" "c = CHR ''}'' \<longleftrightarrow> ms = []" "ms = [] \<longrightarrow> t = r"
      "ms \<noteq> [] \<longrightarrow> t = json_members ms @ r"
    using form[of k x ms r] by blast
  obtain i y zs where ns: "ns = (i, y) # zs"
    using eq l(1) by (cases ns rule: list.exhaust) (auto simp: json_string_def)
  obtain d u where m: "json_members ((i, y) # zs) @ q = json_string i @ CHR '':'' # json_text y @ d # u"
      "d \<in> {CHR '','', CHR ''}''}" "d = CHR ''}'' \<longleftrightarrow> zs = []" "zs = [] \<longrightarrow> u = q"
      "zs \<noteq> [] \<longrightarrow> u = json_members zs @ q"
    using form[of i y zs q] by blast
  have "json_string k @ CHR '':'' # json_text x @ c # t = json_string i @ CHR '':'' # json_text y @ d # u"
    using eq l(1) m(1) ns by simp
  then have key: "k = i \<and> json_text x @ c # t = json_text y @ d # u"
    using json_string_inj by blast
  have "x = y \<and> c # t = d # u"
    by (rule x) (use key l m in auto)
  then show ?thesis using l m ns key ms[of r zs q] by auto
qed

lemma items_first: "ys \<noteq> [] \<Longrightarrow> \<exists>c t. json_items ys = c # t \<and> c \<noteq> CHR '']''"
  using json_text_first[of "hd ys"] by (cases ys rule: list.exhaust; cases "tl ys") auto

lemma json_text_prefix_inj:
  "\<And>k r q. json_text j @ r = json_text k @ q \<Longrightarrow> ends r \<Longrightarrow> ends q \<Longrightarrow> j = k \<and> r = q"
  and "\<And>ys r q. xs \<noteq> [] \<Longrightarrow> json_items xs @ r = json_items ys @ q \<Longrightarrow> xs = ys \<and> r = q"
  and "\<And>ns r q. ms \<noteq> [] \<Longrightarrow> json_members ms @ r = json_members ns @ q \<Longrightarrow> ms = ns \<and> r = q"
proof (induction j and xs and ms rule: json_text_json_items_json_members.induct)
  case 1
  then show ?case using json_text_kind[of JNull r k q] by (cases k) (auto split: if_splits)
next
  case (2 b)
  then show ?case using json_text_kind[of "JBool b" r k q] by (cases k) (auto split: if_splits)
next
  case (3 n)
  then obtain m where "k = JNum m"
    using json_text_kind[of "JNum n" r k q] by (cases k) (auto split: if_splits)
  then show ?case using 3 show_int_inj[of n r m q] by simp
next
  case (4 s)
  then obtain t where "k = JStr t"
    using json_text_kind[of "JStr s" r k q] by (cases k) (auto split: if_splits)
  then show ?case using 4 json_string_inj[of s r t q] by simp
next
  case (5 xs)
  then obtain ys where k: "k = JArr ys"
    using json_text_kind[of "JArr xs" r k q] by (cases k) (auto split: if_splits)
  show ?case
  proof (cases "xs = []")
    case True
    then have "CHR '']'' # r = json_items ys @ q" using 5 k by simp
    then show ?thesis using items_first[of ys] True k by (cases "ys = []") auto
  next
    case False
    then show ?thesis using 5 k by simp
  qed
next
  case (6 ms)
  then obtain ns where k: "k = JObj ns"
    using json_text_kind[of "JObj ms" r k q] by (cases k) (auto split: if_splits)
  show ?case
  proof (cases "ms = []")
    case True
    then show ?thesis using 6 k by (cases ns rule: json_members.cases) (auto simp: json_string_def)
  next
    case False
    then show ?thesis using 6 k by simp
  qed
next
  case (8 x)
  show ?case by (rule json_items_inj_step[OF "8.IH" _ "8.prems"(2)]) simp_all
next
  case (9 x y xs)
  show ?case by (rule json_items_inj_step[OF "9.IH"(1) "9.IH"(2) "9.prems"(2)])
next
  case (11 i x)
  show ?case by (rule json_members_inj_step[OF "11.IH" _ "11.prems"(2)]) simp_all
next
  case (12 i x m ms)
  show ?case by (rule json_members_inj_step[OF "12.IH"(1) "12.IH"(2) "12.prems"(2)])
qed simp_all

theorem json_text_inj: "json_text j = json_text k \<longleftrightarrow> j = k"
  using json_text_prefix_inj(1)[of j "[]" k "[]"] by auto

end
