(* ===== verification/Funding.thy ===== *)
theory Funding
  imports Eligibility ChainEvents Reconciler JsonText
begin

text \<open>
  \<open>src/lib/funding/service.ts\<close>: an approved draft becomes a funded escrow. The plan to sign is frozen
  with its digest when the intent is opened, and funding is recorded only when the chain agrees with
  it. Opening and abandoning an intent are split where another request can act in between: between
  the reads and the transaction.

  Parameters: the deployment (network, contract, asset, oracle key), the digest \<open>sha256\<close>, the
  collation of ids in the database, and the verifier that reads the chain. An ISO date is a number
  of milliseconds. A thrown error that is not an \<open>ApiError\<close>, such as a violated unique constraint,
  is \<open>Thrown\<close>, and undoes its transaction. Texts of outcomes that are not stored are left out.
\<close>

section \<open>Deployment, plans and views\<close>

record deployment =
  dy_network :: string
  dy_contractId :: string
  dy_asset :: settlement_asset
  dy_oraclePublicKey :: "string option"
  dy_sha256 :: "string \<Rightarrow> string"
  dy_collate :: "string \<Rightarrow> string \<Rightarrow> int"

datatype api_error = Api_error nat string | Thrown

definition networkLabel :: "deployment \<Rightarrow> string" where
  "networkLabel dy = (if dy_network dy = ''public'' then ''Stellar Mainnet'' else ''Stellar Testnet'')"

definition isMainnet :: "deployment \<Rightarrow> bool" where
  "isMainnet dy \<longleftrightarrow> dy_network dy = ''public''"

definition requireContractId :: "deployment \<Rightarrow> api_error + string" where
  "requireContractId dy = (if dy_contractId dy = [] then Inl Thrown else Inr (dy_contractId dy))"

definition fundingIdempotencyKey :: "row_id \<Rightarrow> nat \<Rightarrow> string" where
  "fundingIdempotencyKey batchId attempt =
     (if attempt \<le> 1 then ''fund:batch:'' @ batchId
      else ''fund:batch:'' @ batchId @ '':retry:'' @ show_nat attempt)"

record funding_plan =
  pl_batchId :: row_id
  pl_reference :: string
  pl_paymentCount :: nat
  pl_total :: string
  pl_totalBaseUnits :: string
  pl_assetCode :: string
  pl_assetContractId :: string
  pl_assetDecimals :: nat
  pl_networkId :: string
  pl_networkLabel :: string
  pl_isMainnet :: bool
  pl_contractId :: string
  pl_custodyDestination :: string
  pl_manager :: address
  pl_financeApprover :: address
  pl_oraclePublicKey :: string
  pl_schedule :: "plan_row list"

definition serializePlan :: "funding_plan \<Rightarrow> row_id \<Rightarrow> row_id option \<Rightarrow> instant \<Rightarrow> stored_plan" where
  "serializePlan plan orgId projectId createdAt =
     \<lparr>sp_batchId = pl_batchId plan, sp_reference = pl_reference plan, sp_orgId = orgId,
      sp_projectId = projectId, sp_contractId = pl_contractId plan,
      sp_custodyDestination = pl_custodyDestination plan, sp_network = pl_networkId plan,
      sp_manager = pl_manager plan, sp_financeApprover = pl_financeApprover plan,
      sp_oraclePublicKey = pl_oraclePublicKey plan, sp_assetCode = pl_assetCode plan,
      sp_assetContractId = pl_assetContractId plan, sp_assetDecimals = pl_assetDecimals plan,
      sp_totalBaseUnits = pl_totalBaseUnits plan, sp_paymentCount = pl_paymentCount plan,
      sp_createdAt = createdAt, sp_rows = pl_schedule plan\<rparr>"

definition canonical_row :: "plan_row \<Rightarrow> json" where
  "canonical_row r = JArr [JStr (pr_paymentId r), JStr (pr_worker r), JStr (pr_token r),
     JStr (pr_amountBaseUnits r), JStr (pr_rateBaseUnits r), JNum (pr_startDate r), JNum (pr_endDate r)]"

definition canonical_plan :: "stored_plan \<Rightarrow> json" where
  "canonical_plan p = JArr [JStr (sp_batchId p), JStr (sp_orgId p),
     (case sp_projectId p of None \<Rightarrow> JNull | Some i \<Rightarrow> JStr i), JStr (sp_contractId p),
     JStr (sp_custodyDestination p), JStr (sp_network p), JStr (sp_manager p),
     JStr (sp_financeApprover p), JStr (sp_oraclePublicKey p), JStr (sp_assetCode p),
     JStr (sp_assetContractId p), JNum (int (sp_assetDecimals p)), JStr (sp_totalBaseUnits p),
     JNum (int (sp_paymentCount p)), JArr (map canonical_row (sp_rows p))]"

definition planDigest :: "(string \<Rightarrow> string) \<Rightarrow> stored_plan \<Rightarrow> string" where
  "planDigest sha256 p = sha256 (json_text (canonical_plan p))"

definition readStoredPlan :: "(string \<Rightarrow> string) \<Rightarrow> transaction_row \<Rightarrow> api_error + stored_plan" where
  "readStoredPlan sha256 t =
     (case tx_plan t of
        None \<Rightarrow> Inl (Api_error 409 ''STATE_CONFLICT'')
      | Some plan \<Rightarrow>
          if \<not> truthy (tx_planDigest t) \<or> Some (planDigest sha256 plan) \<noteq> tx_planDigest t
          then Inl (Api_error 409 ''STATE_CONFLICT'') else Inr plan)"

record attempt_view =
  av_id :: row_id
  av_status :: tx_status
  av_planDigest :: "string option"
  av_attempt :: nat
  av_hash :: "string option"
  av_errorMessage :: "string option"
  av_createdAt :: instant
  av_submittedAt :: "instant option"
  av_confirmedAt :: "instant option"

definition viewAttempt :: "transaction_row \<Rightarrow> attempt_view" where
  "viewAttempt t = \<lparr>av_id = tx_id t, av_status = tx_status t, av_planDigest = tx_planDigest t,
     av_attempt = tx_attempt t, av_hash = tx_hash t, av_errorMessage = tx_errorMessage t,
     av_createdAt = tx_createdAt t, av_submittedAt = tx_submittedAt t, av_confirmedAt = tx_confirmedAt t\<rparr>"

section \<open>Loading\<close>

definition approver_priority :: "org_role \<Rightarrow> int" where
  "approver_priority r = (case r of FINANCE \<Rightarrow> 0 | OWNER \<Rightarrow> 1 | ADMIN \<Rightarrow> 2 | _ \<Rightarrow> 9)"

definition wallet_of :: "database \<Rightarrow> member_row \<Rightarrow> string option" where
  "wallet_of db m = map_option us_walletAddress (findFirst (\<lambda>u. us_id u = mb_userId m) (users db))"

definition selectFinanceApprover :: "database \<Rightarrow> row_id \<Rightarrow> address \<Rightarrow> address option" where
  "selectFinanceApprover db orgId excludeWalletAddress =
     (let rows = js_sort (\<lambda>a b. mb_createdAt a - mb_createdAt b)
            (filter (\<lambda>m. mb_orgId m = orgId \<and> mb_status m = ACTIVE \<and> mb_role m \<in> {FINANCE, OWNER, ADMIN})
              (members db));
          candidates = js_sort (\<lambda>a b.
              let d = approver_priority (mb_role a) - approver_priority (mb_role b)
              in if d \<noteq> 0 then d else mb_createdAt a - mb_createdAt b)
            (filter (\<lambda>m. truthy (wallet_of db m) \<and> wallet_of db m \<noteq> Some excludeWalletAddress) rows)
      in case candidates of [] \<Rightarrow> None | m # _ \<Rightarrow> wallet_of db m)"

definition projectIdForBatch :: "database \<Rightarrow> row_id \<Rightarrow> row_id \<Rightarrow> row_id option" where
  "projectIdForBatch db orgId batchId =
     (case findFirst (\<lambda>b. ba_orgId b = orgId \<and> ba_id b = batchId) (batches db) of
        None \<Rightarrow> None | Some b \<Rightarrow> ba_projectId b)"

definition batch_attempts :: "database \<Rightarrow> row_id \<Rightarrow> row_id \<Rightarrow> transaction_row list" where
  "batch_attempts db orgId batchId =
     filter (\<lambda>t. tx_orgId t = orgId \<and> tx_batchId t = Some batchId \<and> tx_kind t = INITIALIZE_ESCROW)
       (transactions db)"

definition latestAttempt :: "database \<Rightarrow> row_id \<Rightarrow> row_id \<Rightarrow> transaction_row option" where
  "latestAttempt db orgId batchId =
     (case js_sort (\<lambda>a b. int (tx_attempt b) - int (tx_attempt a)) (batch_attempts db orgId batchId) of
        [] \<Rightarrow> None | t # _ \<Rightarrow> Some t)"

definition unixSeconds :: "instant \<Rightarrow> int" where
  "unixSeconds d = d div 1000"

text \<open>\<open>orderBy: [{ createdAt: 'asc' }, { id: 'asc' }]\<close>\<close>

definition payment_order :: "(string \<Rightarrow> string \<Rightarrow> int) \<Rightarrow> payment_row \<Rightarrow> payment_row \<Rightarrow> int" where
  "payment_order collate p q =
     (if pm_createdAt p \<noteq> pm_createdAt q then pm_createdAt p - pm_createdAt q
      else collate (pm_id p) (pm_id q))"

definition batch_payments ::
  "(string \<Rightarrow> string \<Rightarrow> int) \<Rightarrow> database \<Rightarrow> row_id \<Rightarrow> row_id \<Rightarrow> payment_row list" where
  "batch_payments collate db orgId batchId = js_sort (payment_order collate)
     (filter (\<lambda>p. pm_orgId p = orgId \<and> pm_batchId p = batchId) (payments db))"

text \<open>\<open>PAYMENT_SELECT\<close>\<close>

definition funding_payment_of :: "payment_row \<Rightarrow> funding_payment" where
  "funding_payment_of p = \<lparr>fp_id = pm_id p, fp_recipientAddress = pm_recipientAddress p,
     fp_assetCode = pm_assetCode p, fp_assetContractId = pm_assetContractId p,
     fp_assetDecimals = pm_assetDecimals p, fp_amountBaseUnits = pm_amountBaseUnits p,
     fp_rateBaseUnits = pm_rateBaseUnits p, fp_hours = pm_hours p, fp_periodStart = pm_periodStart p,
     fp_periodEnd = pm_periodEnd p, fp_state = pm_state p, fp_escrowId = pm_escrowId p,
     fp_onChainPaymentIndex = pm_onChainPaymentIndex p\<rparr>"

section \<open>The assessment and the plan\<close>

definition planReady :: "funding_assessment \<Rightarrow> bool" where
  "planReady a \<longleftrightarrow> list_all (\<lambda>b. fb_code b = FUNDING_IN_FLIGHT) (fs_blockers a)"

definition schedule_row :: "string \<Rightarrow> funding_payment \<Rightarrow> plan_row" where
  "schedule_row token p = \<lparr>pr_paymentId = fp_id p, pr_worker = fp_recipientAddress p, pr_token = token,
     pr_amountBaseUnits = show_int (fp_amountBaseUnits p), pr_rateBaseUnits = show_int (fp_rateBaseUnits p),
     pr_startDate = unixSeconds (the (fp_periodStart p)), pr_endDate = unixSeconds (the (fp_periodEnd p))\<rparr>"

text \<open>A missing period or contract id throws.\<close>

definition buildFundingPlan ::
  "deployment \<Rightarrow> row_id \<Rightarrow> string \<Rightarrow> funding_payment list \<Rightarrow> string \<Rightarrow> address \<Rightarrow> address \<Rightarrow> string \<Rightarrow>
   base_units \<Rightarrow> api_error + funding_plan" where
  "buildFundingPlan dy batchId reference ps token manager financeApprover oraclePublicKey amount =
     (if list_ex (\<lambda>p. fp_periodStart p = None \<or> fp_periodEnd p = None) ps then Inl Thrown
      else case requireContractId dy of
        Inl err \<Rightarrow> Inl err
      | Inr contractId \<Rightarrow> Inr
          \<lparr>pl_batchId = batchId, pl_reference = reference, pl_paymentCount = length ps,
           pl_total = formatAmountWithSeparators amount (sa_decimals (dy_asset dy)) default_opts,
           pl_totalBaseUnits = show_int amount, pl_assetCode = sa_code (dy_asset dy),
           pl_assetContractId = token, pl_assetDecimals = sa_decimals (dy_asset dy),
           pl_networkId = dy_network dy, pl_networkLabel = networkLabel dy, pl_isMainnet = isMainnet dy,
           pl_contractId = contractId, pl_custodyDestination = contractId, pl_manager = manager,
           pl_financeApprover = financeApprover, pl_oraclePublicKey = oraclePublicKey,
           pl_schedule = map (schedule_row token) ps\<rparr>)"

record funding_state =
  fv_eligible :: bool
  fv_blockers :: "funding_blocker list"
  fv_paymentCount :: nat
  fv_total :: string
  fv_totalBaseUnits :: string
  fv_plan :: "funding_plan option"
  fv_attempt :: "attempt_view option"
  fv_escrow :: "(row_id \<times> int option) option"

definition attempt_input :: "transaction_row \<Rightarrow> funding_attempt" where
  "attempt_input t = \<lparr>fa_id = tx_id t, fa_status = tx_status t, fa_hash = tx_hash t, fa_createdAt = tx_createdAt t\<rparr>"

definition funding_input ::
  "deployment \<Rightarrow> database \<Rightarrow> tenant_context \<Rightarrow> row_id \<Rightarrow> eligibility_input" where
  "funding_input dy db ctx batchId =
     \<lparr>ei_payments = map funding_payment_of (batch_payments (dy_collate dy) db (tc_orgId ctx) batchId),
      ei_asset = dy_asset dy, ei_walletAddress = tc_walletAddress ctx, ei_role = tc_role ctx,
      ei_financeApproverAddress = selectFinanceApprover db (tc_orgId ctx) (tc_walletAddress ctx),
      ei_attempt = map_option attempt_input (latestAttempt db (tc_orgId ctx) batchId),
      ei_oraclePublicKey = dy_oraclePublicKey dy\<rparr>"

text \<open>The plan, when the batch is fundable apart from an attempt in flight.\<close>

definition funding_plan_for ::
  "deployment \<Rightarrow> eligibility_input \<Rightarrow> row_id \<Rightarrow> string \<Rightarrow> api_error + funding_plan option" where
  "funding_plan_for dy inp batchId reference =
     (let a = assessFundingEligibility inp in
      if planReady a \<and> truthy (sa_contractId (ei_asset inp)) \<and> truthy (ei_financeApproverAddress inp) \<and>
         truthy (ei_oraclePublicKey inp)
      then map_sum id Some (buildFundingPlan dy batchId reference (ei_payments inp)
             (the (sa_contractId (ei_asset inp))) (ei_walletAddress inp)
             (the (ei_financeApproverAddress inp)) (the (ei_oraclePublicKey inp)) (fs_totalBaseUnits a))
      else Inr None)"

definition getFundingState ::
  "deployment \<Rightarrow> database \<Rightarrow> tenant_context \<Rightarrow> row_id \<Rightarrow> string \<Rightarrow> api_error + funding_state" where
  "getFundingState dy db ctx batchId reference =
     (let inp = funding_input dy db ctx batchId;
          a = assessFundingEligibility inp;
          decimals = (case ei_payments inp of [] \<Rightarrow> sa_decimals (dy_asset dy) | p # _ \<Rightarrow> fp_assetDecimals p);
          escrow = (case List.find (\<lambda>p. fp_escrowId p \<noteq> None) (ei_payments inp) of
              None \<Rightarrow> None
            | Some p \<Rightarrow> map_option (\<lambda>x. (es_id x, es_onChainId x))
                (findFirst (\<lambda>x. es_orgId x = tc_orgId ctx \<and> Some (es_id x) = fp_escrowId p) (escrows db)))
      in case funding_plan_for dy inp batchId reference of
           Inl err \<Rightarrow> Inl err
         | Inr plan \<Rightarrow> Inr
             \<lparr>fv_eligible = fs_eligible a, fv_blockers = fs_blockers a, fv_paymentCount = fs_paymentCount a,
              fv_total = formatAmountWithSeparators (fs_totalBaseUnits a) decimals default_opts,
              fv_totalBaseUnits = show_int (fs_totalBaseUnits a), fv_plan = plan,
              fv_attempt = map_option viewAttempt (latestAttempt db (tc_orgId ctx) batchId),
              fv_escrow = escrow\<rparr>)"

section \<open>Opening an intent\<close>

record open_result =
  or_created :: bool
  or_attempt :: attempt_view
  or_plan :: funding_plan

text \<open>What a request that may open an intent has prepared before its transaction.\<close>

record intent =
  it_attempt :: nat
  it_key :: string
  it_plan :: funding_plan
  it_stored :: stored_plan
  it_digest :: string
  it_totalBaseUnits :: string

definition member_actor :: "tenant_context \<Rightarrow> actor" where
  "member_actor ctx =
     \<lparr>kind = User, role = Some (tc_role ctx), address = Some (tc_walletAddress ctx), system = None\<rparr>"

definition VERIFIER_ACTOR :: actor where
  "VERIFIER_ACTOR = \<lparr>kind = Reconciler, role = None, address = None, system = Some ''funding-verifier''\<rparr>"

definition open_read ::
  "env \<Rightarrow> deployment \<Rightarrow> database \<Rightarrow> tenant_context \<Rightarrow> row_id \<Rightarrow> string \<Rightarrow>
   api_error + open_result + intent" where
  "open_read e dy db ctx batchId reference =
     (case getFundingState dy db ctx batchId reference of
        Inl err \<Rightarrow> Inl err
      | Inr state \<Rightarrow>
          (case (fv_attempt state, fv_plan state) of
             (attempt, None) \<Rightarrow> Inl (Api_error 409 ''STATE_CONFLICT'')
           | (attempt, Some plan) \<Rightarrow>
               if attempt \<noteq> None \<and> av_status (the attempt) \<in> set IN_FLIGHT
               then Inr (Inl \<lparr>or_created = False, or_attempt = the attempt, or_plan = plan\<rparr>)
               else if \<not> fv_eligible state then Inl (Api_error 409 ''STATE_CONFLICT'')
               else (let n = (case attempt of None \<Rightarrow> 0 | Some a \<Rightarrow> av_attempt a) + 1;
                         stored = serializePlan plan (tc_orgId ctx)
                           (projectIdForBatch db (tc_orgId ctx) batchId) (now e)
                     in Inr (Inr \<lparr>it_attempt = n, it_key = fundingIdempotencyKey batchId n, it_plan = plan,
                          it_stored = stored, it_digest = planDigest (dy_sha256 dy) stored,
                          it_totalBaseUnits = fv_totalBaseUnits state\<rparr>))))"

definition new_attempt :: "env \<Rightarrow> database \<Rightarrow> tenant_context \<Rightarrow> row_id \<Rightarrow> intent \<Rightarrow> transaction_row" where
  "new_attempt e db ctx batchId it =
     \<lparr>tx_id = new_id e db, tx_orgId = tc_orgId ctx, tx_paymentId = None, tx_escrowId = None,
      tx_kind = INITIALIZE_ESCROW, tx_status = AWAITING_SIGNATURE, tx_idempotencyKey = it_key it,
      tx_attempt = it_attempt it, tx_hash = None, tx_contractId = Some (pl_contractId (it_plan it)),
      tx_batchId = Some batchId, tx_network = pl_networkId (it_plan it), tx_plan = Some (it_stored it),
      tx_planDigest = Some (it_digest it), tx_errorMessage = None, tx_createdAt = now e,
      tx_submittedAt = None, tx_confirmedAt = None\<rparr>"

definition set_validating :: "env \<Rightarrow> payment_row \<Rightarrow> payment_row" where
  "set_validating e p = p\<lparr>pm_state := VALIDATING, pm_stateUpdatedAt := now e,
     pm_stateReason := Some ''Funding transaction prepared; awaiting signature.''\<rparr>"

definition validate_rows :: "env \<Rightarrow> row_id \<Rightarrow> plan_row list \<Rightarrow> payment_row list \<Rightarrow> payment_row list" where
  "validate_rows e orgId schedule rows =
     fold (\<lambda>r. updated (\<lambda>p. pm_id p = pr_paymentId r \<and> pm_orgId p = orgId \<and> pm_state p = DRAFT)
        (set_validating e)) schedule rows"

definition funding_audit ::
  "row_id \<Rightarrow> string \<Rightarrow> actor \<Rightarrow> row_id option \<Rightarrow> string option \<Rightarrow> json_object \<Rightarrow> audit_input" where
  "funding_audit orgId type a batchId txHash metadata =
     \<lparr>in_orgId = orgId, in_type = type, in_actor = Some a, in_paymentId = None, in_batchId = batchId,
      in_escrowId = None, in_txHash = txHash, in_metadata = Some metadata\<rparr>"

definition opened_metadata :: "intent \<Rightarrow> json_object" where
  "opened_metadata it = (let plan = it_plan it in
     [(''attempt'', JNum (int (it_attempt it))), (''idempotencyKey'', JStr (it_key it)),
      (''paymentCount'', JNum (int (length (pl_schedule plan)))),
      (''totalBaseUnits'', JStr (it_totalBaseUnits it)), (''asset'', JStr (pl_assetCode plan)),
      (''assetContractId'', JStr (pl_assetContractId plan)), (''contractId'', JStr (pl_contractId plan)),
      (''network'', JStr (pl_networkId plan)), (''manager'', JStr (pl_manager plan)),
      (''financeApprover'', JStr (pl_financeApprover plan)), (''planDigest'', JStr (it_digest it))])"

definition open_commit ::
  "env \<Rightarrow> database \<Rightarrow> tenant_context \<Rightarrow> row_id \<Rightarrow> intent \<Rightarrow> database \<times> (api_error + open_result)" where
  "open_commit e db ctx batchId it =
     (let record = new_attempt e db ctx batchId it in
      case createUnique tx_idempotencyKey record (transactions db) of
        None \<Rightarrow>
          (db, case latestAttempt db (tc_orgId ctx) batchId of
             None \<Rightarrow> Inl Thrown
           | Some existing \<Rightarrow>
               Inr \<lparr>or_created = False, or_attempt = viewAttempt existing, or_plan = it_plan it\<rparr>)
      | Some rows \<Rightarrow>
          (let db1 = db\<lparr>transactions := rows,
                 payments := validate_rows e (tc_orgId ctx) (pl_schedule (it_plan it)) (payments db),
                 serial := Suc (serial db)\<rparr>
           in (recordAuditEvent e db1 (funding_audit (tc_orgId ctx) ''funding.intent.opened''
                 (member_actor ctx) (Some batchId) None (opened_metadata it)),
               Inr \<lparr>or_created = True, or_attempt = viewAttempt record, or_plan = it_plan it\<rparr>)))"

definition openFundingIntent ::
  "env \<Rightarrow> deployment \<Rightarrow> database \<Rightarrow> tenant_context \<Rightarrow> row_id \<Rightarrow> string \<Rightarrow>
   database \<times> (api_error + open_result)" where
  "openFundingIntent e dy db ctx batchId reference =
     (case open_read e dy db ctx batchId reference of
        Inl err \<Rightarrow> (db, Inl err)
      | Inr (Inl answer) \<Rightarrow> (db, Inr answer)
      | Inr (Inr it) \<Rightarrow> open_commit e db ctx batchId it)"

section \<open>Submitted, abandoned\<close>

definition find_attempt :: "database \<Rightarrow> row_id \<Rightarrow> row_id \<Rightarrow> row_id \<Rightarrow> transaction_row option" where
  "find_attempt db orgId batchId i =
     findFirst (\<lambda>t. tx_id t = i \<and> tx_orgId t = orgId \<and> tx_batchId t = Some batchId) (transactions db)"

definition recordFundingSubmitted ::
  "env \<Rightarrow> database \<Rightarrow> tenant_context \<Rightarrow> row_id \<Rightarrow> string \<Rightarrow> row_id \<Rightarrow>
   database \<times> (api_error + attempt_view)" where
  "recordFundingSubmitted e db ctx attemptId transactionHash batchId =
     (let open_one = (\<lambda>t. tx_id t = attemptId \<and> tx_orgId t = tc_orgId ctx \<and> tx_batchId t = Some batchId \<and>
            tx_status t \<in> {AWAITING_SIGNATURE, PREPARING, SIMULATING});
          (rows, count) = updateMany open_one
            (\<lambda>t. t\<lparr>tx_status := SUBMITTED, tx_hash := Some transactionHash, tx_submittedAt := Some (now e)\<rparr>)
            (transactions db)
      in if count > 0 \<and> list_ex (\<lambda>t. tx_hash t = Some transactionHash \<and> \<not> open_one t) (transactions db)
         then (db, Inl Thrown)
         else (let db1 = db\<lparr>transactions := rows\<rparr> in
           case find_attempt db1 (tc_orgId ctx) batchId attemptId of
             None \<Rightarrow> (db1, Inl (Api_error 404 ''NOT_FOUND''))
           | Some record \<Rightarrow>
               (if count = 1
                then recordAuditEvent e db1 (funding_audit (tc_orgId ctx) ''funding.submitted''
                       (member_actor ctx) (tx_batchId record) (Some transactionHash)
                       [(''attemptId'', JStr attemptId), (''attempt'', JNum (int (tx_attempt record)))])
                else db1,
                Inr (viewAttempt record))))"

definition back_to_draft :: "env \<Rightarrow> string \<Rightarrow> payment_row \<Rightarrow> payment_row" where
  "back_to_draft e reason p = p\<lparr>pm_state := DRAFT, pm_stateUpdatedAt := now e, pm_stateReason := Some reason\<rparr>"

text \<open>The payments of a batch that wait for its funding return to \<open>DRAFT\<close>.\<close>

definition release_payments :: "env \<Rightarrow> row_id \<Rightarrow> row_id option \<Rightarrow> string \<Rightarrow> database \<Rightarrow> database" where
  "release_payments e orgId batchId reason db =
     db\<lparr>payments := updated
          (\<lambda>p. pm_orgId p = orgId \<and> Some (pm_batchId p) = batchId \<and> pm_state p = VALIDATING)
          (back_to_draft e reason) (payments db)\<rparr>"

definition end_attempt :: "row_id \<Rightarrow> row_id \<Rightarrow> tx_status \<Rightarrow> string \<Rightarrow> database \<Rightarrow> database" where
  "end_attempt i orgId status reason db =
     db\<lparr>transactions := updated (\<lambda>t. tx_id t = i \<and> tx_orgId t = orgId)
          (\<lambda>t. t\<lparr>tx_status := status, tx_errorMessage := Some (take 500 reason)\<rparr>) (transactions db)\<rparr>"

definition view_after :: "database \<Rightarrow> row_id \<Rightarrow> row_id \<Rightarrow> api_error + attempt_view" where
  "view_after db orgId i =
     (case findFirst (\<lambda>t. tx_id t = i \<and> tx_orgId t = orgId) (transactions db) of
        None \<Rightarrow> Inl Thrown | Some t \<Rightarrow> Inr (viewAttempt t))"

definition fail_read ::
  "database \<Rightarrow> tenant_context \<Rightarrow> row_id \<Rightarrow> row_id \<Rightarrow> api_error + transaction_row" where
  "fail_read db ctx attemptId batchId =
     (case findFirst (\<lambda>t. tx_id t = attemptId \<and> tx_orgId t = tc_orgId ctx \<and> tx_batchId t = Some batchId \<and>
            tx_kind t = INITIALIZE_ESCROW) (transactions db) of
        None \<Rightarrow> Inl (Api_error 404 ''NOT_FOUND'')
      | Some record \<Rightarrow>
          if tx_status record = CONFIRMED then Inl (Api_error 409 ''STATE_CONFLICT'') else Inr record)"

definition fail_commit ::
  "env \<Rightarrow> database \<Rightarrow> tenant_context \<Rightarrow> transaction_row \<Rightarrow> string \<Rightarrow> bool \<Rightarrow>
   database \<times> (api_error + attempt_view)" where
  "fail_commit e db ctx record reason userRejected =
     (let orgId = tc_orgId ctx; nothingSubmitted = (tx_hash record = None);
          db1 = end_attempt (tx_id record) orgId (if userRejected then TX_CANCELLED else FAILED) reason db;
          db2 = (if nothingSubmitted \<and> truthy (tx_batchId record)
                 then release_payments e orgId (tx_batchId record)
                   (if userRejected then ''Funding signature declined; the batch is editable again.''
                    else ''Funding failed before submission: '' @ take 200 reason) db1
                 else db1);
          db3 = recordAuditEvent e db2 (funding_audit orgId
                  (if userRejected then ''funding.declined'' else ''funding.failed'') (member_actor ctx)
                  (tx_batchId record) (tx_hash record)
                  [(''attemptId'', JStr (tx_id record)), (''attempt'', JNum (int (tx_attempt record))),
                   (''reason'', JStr (take 500 reason)), (''paymentsReturnedToDraft'', JBool nothingSubmitted)])
      in (db3, view_after db3 orgId (tx_id record)))"

definition failFundingIntent ::
  "env \<Rightarrow> database \<Rightarrow> tenant_context \<Rightarrow> row_id \<Rightarrow> string \<Rightarrow> bool \<Rightarrow> row_id \<Rightarrow>
   database \<times> (api_error + attempt_view)" where
  "failFundingIntent e db ctx attemptId reason userRejected batchId =
     (case fail_read db ctx attemptId batchId of
        Inl err \<Rightarrow> (db, Inl err)
      | Inr record \<Rightarrow> fail_commit e db ctx record reason userRejected)"

definition markFailed ::
  "env \<Rightarrow> database \<Rightarrow> tenant_context \<Rightarrow> transaction_row \<Rightarrow> string \<Rightarrow>
   database \<times> (api_error + attempt_view)" where
  "markFailed e db ctx record reason =
     (let orgId = tc_orgId ctx;
          db1 = end_attempt (tx_id record) orgId FAILED reason db;
          db2 = (if truthy (tx_batchId record)
                 then release_payments e orgId (tx_batchId record)
                   ''Funding transaction failed on-chain; no funds moved.'' db1
                 else db1);
          db3 = recordAuditEvent e db2 (funding_audit orgId ''funding.failed'' VERIFIER_ACTOR
                  (tx_batchId record) (tx_hash record)
                  [(''attemptId'', JStr (tx_id record)), (''reason'', JStr reason)])
      in (db3, view_after db3 orgId (tx_id record)))"

section \<open>Which escrow a transaction created\<close>

datatype resolution_source = Indexed_event | Chain_event

datatype escrow_resolution = Resolved int resolution_source | Pending_resolution | Ambiguous string

definition comma_separated :: "int list \<Rightarrow> string" where
  "comma_separated is = join_with '', '' (map show_int is)"

definition indexed_escrows :: "database \<Rightarrow> string \<Rightarrow> string \<Rightarrow> string \<Rightarrow> int list" where
  "indexed_escrows db txHash contractId network =
     rev (remdups (rev (filter (\<lambda>i. i > 0) (List.map_filter ce_escrowOnChainId
       (filter (\<lambda>c. ce_txHash c = Some txHash \<and> ce_type c = ''created'' \<and>
          ce_contractId c = Some contractId \<and> ce_network c = network) (chainEvents db))))))"

definition resolveEscrowFromTransaction ::
  "database \<Rightarrow> chain_verifier \<Rightarrow> string \<Rightarrow> string \<Rightarrow> string \<Rightarrow> escrow_resolution" where
  "resolveEscrowFromTransaction db v txHash contractId network =
     (case indexed_escrows db txHash contractId network of
        [i] \<Rightarrow> Resolved i Indexed_event
      | i # j # is \<Rightarrow> Ambiguous (''Transaction '' @ txHash @ '' is recorded as creating more than one escrow ('' @
          comma_separated (i # j # is) @ ''). Refusing to choose.'')
      | [] \<Rightarrow>
          (case findEscrowsCreatedByTransaction v txHash of
             Inl _ \<Rightarrow> Pending_resolution
           | Inr [] \<Rightarrow> Pending_resolution
           | Inr [i] \<Rightarrow> Resolved i Chain_event
           | Inr is \<Rightarrow> Ambiguous (''Transaction '' @ txHash @ '' created more than one escrow ('' @
               comma_separated is @ ''). Refusing to choose.'')))"

section \<open>Comparing the chain with the plan\<close>

datatype difference =
    Ambiguous_escrow string
  | Client_claims int string int
  | Network_differs string string
  | Contract_differs string string
  | Escrow_is_cancelled
  | Manager_differs address address
  | Approver_differs address address
  | Same_signers
  | Count_differs nat nat
  | Payee_differs nat address address
  | Amount_differs nat int string
  | Asset_differs nat string string
  | Payment_gone row_id
  | Payment_altered row_id
  | Batch_size_differs nat nat

fun difference_text :: "difference \<Rightarrow> string" where
  "difference_text (Ambiguous_escrow d) = d"
| "difference_text (Client_claims c h i) = ''the escrow reported by the client ('' @ show_int c @
     '') is not the escrow transaction '' @ h @ '' created ('' @ show_int i @ '')''"
| "difference_text (Network_differs a p) = ''the attempt records network '' @ a @ '', the plan says '' @ p"
| "difference_text (Contract_differs a p) = ''the attempt records contract '' @ a @ '', the plan says '' @ p"
| "difference_text Escrow_is_cancelled = ''the on-chain escrow is cancelled''"
| "difference_text (Manager_differs a p) = ''the escrow manager is '' @ a @ '', the plan says '' @ p"
| "difference_text (Approver_differs a p) =
     ''the escrow finance approver is '' @ a @ '', the plan says '' @ p"
| "difference_text Same_signers = ''the escrow has the same address as manager and finance approver''"
| "difference_text (Count_differs n m) =
     ''the escrow holds '' @ show_nat n @ '' payments, the plan has '' @ show_nat m"
| "difference_text (Payee_differs i a p) =
     ''payment '' @ show_nat i @ '' pays '' @ a @ '', the plan says '' @ p"
| "difference_text (Amount_differs i a p) =
     ''payment '' @ show_nat i @ '' is for '' @ show_int a @ '' base units, the plan says '' @ p"
| "difference_text (Asset_differs i a p) =
     ''payment '' @ show_nat i @ '' uses asset '' @ a @ '', the plan says '' @ p"
| "difference_text (Payment_gone i) = ''payment '' @ i @ '' named in the plan no longer exists''"
| "difference_text (Payment_altered i) = ''payment '' @ i @ '' has been altered since the plan was prepared''"
| "difference_text (Batch_size_differs n m) = ''this batch now has '' @ show_nat n @
     '' payments, the plan was prepared for '' @ show_nat m"

text \<open>\<open>None\<close> where \<open>BigInt\<close> throws.\<close>

fun collect :: "'a list option list \<Rightarrow> 'a list option" where
  "collect [] = Some []"
| "collect (x # xs) = (case x of None \<Rightarrow> None | Some ys \<Rightarrow> map_option ((@) ys) (collect xs))"

definition header_differences :: "transaction_row \<Rightarrow> stored_plan \<Rightarrow> chain_escrow_facts \<Rightarrow> difference list" where
  "header_differences record plan facts =
     push_if (tx_network record \<noteq> sp_network plan) (Network_differs (tx_network record) (sp_network plan))
     @ push_if (truthy (tx_contractId record) \<and> tx_contractId record \<noteq> Some (sp_contractId plan))
         (Contract_differs (the (tx_contractId record)) (sp_contractId plan))
     @ push_if (cf_cancelled facts) Escrow_is_cancelled
     @ push_if (cf_manager facts \<noteq> sp_manager plan) (Manager_differs (cf_manager facts) (sp_manager plan))
     @ push_if (cf_financeApprover facts \<noteq> sp_financeApprover plan)
         (Approver_differs (cf_financeApprover facts) (sp_financeApprover plan))
     @ push_if (cf_manager facts = cf_financeApprover facts) Same_signers"

definition slot_differences :: "nat \<Rightarrow> plan_row \<Rightarrow> chain_payment_facts \<Rightarrow> difference list option" where
  "slot_differences i expected actual =
     (case parse_integer (pr_amountBaseUnits expected) of
        None \<Rightarrow> None
      | Some amount \<Rightarrow> Some
          (push_if (cp_worker actual \<noteq> pr_worker expected) (Payee_differs i (cp_worker actual) (pr_worker expected))
           @ push_if (cp_amountBaseUnits actual \<noteq> amount)
               (Amount_differs i (cp_amountBaseUnits actual) (pr_amountBaseUnits expected))
           @ push_if (cp_token actual \<noteq> pr_token expected)
               (Asset_differs i (cp_token actual) (pr_token expected))))"

definition schedule_differences ::
  "stored_plan \<Rightarrow> chain_escrow_facts \<Rightarrow> difference list option" where
  "schedule_differences plan facts =
     (if length (cf_payments facts) \<noteq> length (sp_rows plan)
      then Some [Count_differs (length (cf_payments facts)) (length (sp_rows plan))]
      else collect (map (\<lambda>(i, expected, actual). slot_differences i expected actual)
             (enumerate 0 (zip (sp_rows plan) (cf_payments facts)))))"

text \<open>\<open>new Map(payments.map(p => [p.id, p])).get(id)\<close> and the comparison, which short-circuits.\<close>

definition row_differences :: "payment_row list \<Rightarrow> plan_row \<Rightarrow> difference list option" where
  "row_differences ps row =
     (case List.find (\<lambda>p. pm_id p = pr_paymentId row) (rev ps) of
        None \<Rightarrow> Some [Payment_gone (pr_paymentId row)]
      | Some current \<Rightarrow>
          if pm_recipientAddress current \<noteq> pr_worker row then Some [Payment_altered (pr_paymentId row)]
          else (case parse_integer (pr_amountBaseUnits row) of
              None \<Rightarrow> None
            | Some amount \<Rightarrow>
                if pm_amountBaseUnits current \<noteq> amount then Some [Payment_altered (pr_paymentId row)]
                else (case parse_integer (pr_rateBaseUnits row) of
                    None \<Rightarrow> None
                  | Some rate \<Rightarrow> Some (push_if (pm_rateBaseUnits current \<noteq> rate)
                      (Payment_altered (pr_paymentId row))))))"

definition batch_differences :: "payment_row list \<Rightarrow> stored_plan \<Rightarrow> difference list option" where
  "batch_differences ps plan =
     map_option (\<lambda>ds. ds @ push_if (length ps \<noteq> length (sp_rows plan))
         (Batch_size_differs (length ps) (length (sp_rows plan))))
       (collect (map (row_differences ps) (sp_rows plan)))"

definition plan_differences ::
  "transaction_row \<Rightarrow> stored_plan \<Rightarrow> chain_escrow_facts \<Rightarrow> payment_row list \<Rightarrow> difference list option" where
  "plan_differences record plan facts ps =
     collect [Some (header_differences record plan facts), schedule_differences plan facts,
       batch_differences ps plan]"

section \<open>Confirming\<close>

datatype confirmation =
    Confirmed attempt_view row_id int
  | Unverifiable attempt_view
  | Funding_failed attempt_view
  | Mismatch attempt_view "difference list"

definition mismatch_audit ::
  "env \<Rightarrow> database \<Rightarrow> tenant_context \<Rightarrow> transaction_row \<Rightarrow> json_object \<Rightarrow> database" where
  "mismatch_audit e db ctx record metadata = recordAuditEvent e db
     (funding_audit (tc_orgId ctx) ''funding.mismatch'' VERIFIER_ACTOR (tx_batchId record) (tx_hash record) metadata)"

definition digest_text :: "transaction_row \<Rightarrow> string" where
  "digest_text t = (case tx_planDigest t of None \<Rightarrow> ''null'' | Some d \<Rightarrow> d)"

definition mismatch_finding ::
  "env \<Rightarrow> database \<Rightarrow> tenant_context \<Rightarrow> transaction_row \<Rightarrow> int \<Rightarrow> difference list \<Rightarrow> finding_row" where
  "mismatch_finding e db ctx record onChainId ds =
     \<lparr>fd_id = new_id e db, fd_orgId = tc_orgId ctx, fd_paymentId = None, fd_kind = UNKNOWN_ON_CHAIN_OBJECT,
      fd_dbState = Some (''plan:'' @ digest_text record),
      fd_chainState = Some (''escrow:'' @ show_int onChainId),
      fd_metadata = [(''differences'', JArr (map (\<lambda>d. JStr (difference_text d)) ds)),
        (''txHash'', JStr (the (tx_hash record)))],
      fd_runId = None, fd_status = OPEN, fd_severity = CRITICAL, fd_txHash = None,
      fd_escrowOnChainId = None, fd_paymentIndex = None, fd_detectedAt = now e, fd_lastObservedAt = now e,
      fd_observationCount = 1,
      fd_acknowledgedAt = None, fd_acknowledgedBy = None, fd_resolvedAt = None, fd_resolvedBy = None,
      fd_resolution = None\<rparr>"

definition record_mismatch ::
  "env \<Rightarrow> database \<Rightarrow> tenant_context \<Rightarrow> transaction_row \<Rightarrow> int \<Rightarrow> difference list \<Rightarrow> database" where
  "record_mismatch e db ctx record onChainId ds =
     (let db1 = db\<lparr>transactions := updated (\<lambda>t. tx_id t = tx_id record \<and> tx_orgId t = tc_orgId ctx)
            (\<lambda>t. t\<lparr>tx_errorMessage := Some (take 500 (''Chain disagrees with the funding plan: '' @
               join_with ''; '' (map difference_text ds)))\<rparr>) (transactions db)\<rparr>;
          db2 = mismatch_audit e db1 ctx record
            [(''onChainEscrowId'', JNum onChainId),
             (''differences'', JArr (map (\<lambda>d. JStr (difference_text d)) ds)),
             (''planDigest'', case tx_planDigest record of None \<Rightarrow> JNull | Some d \<Rightarrow> JStr d)]
      in db2\<lparr>findings := findings db2 @ [mismatch_finding e db2 ctx record onChainId ds],
             serial := Suc (serial db2)\<rparr>)"

text \<open>The transfer that moved the whole amount into custody in this transaction.\<close>

definition custody_transfer ::
  "transaction_row \<Rightarrow> stored_plan \<Rightarrow> int \<Rightarrow> observed_transfer list \<Rightarrow> observed_transfer option" where
  "custody_transfer record plan expectedTotal ts = List.find (\<lambda>t. ot_txHash t = tx_hash record \<and>
     ot_to t = sp_custodyDestination plan \<and> ot_from t = sp_manager plan \<and>
     ot_amountBaseUnits t = expectedTotal) ts"

text \<open>
  One statement of the loop over the payments; \<open>None\<close> when another payment has the slot, which the
  unique constraint on escrow and slot refuses.
\<close>

definition link_payment ::
  "row_id \<Rightarrow> row_id \<Rightarrow> string \<Rightarrow> int \<Rightarrow> row_id \<Rightarrow> payment_row list \<Rightarrow> payment_row list option" where
  "link_payment orgId escrowId asset i p rows =
     (let mine = (\<lambda>q. pm_id q = p \<and> pm_orgId q = orgId) in
      if list_ex mine rows \<and>
         list_ex (\<lambda>q. \<not> mine q \<and> pm_escrowId q = Some escrowId \<and> pm_onChainPaymentIndex q = Some i) rows
      then None
      else Some (updated mine (\<lambda>q. q\<lparr>pm_escrowId := Some escrowId, pm_onChainPaymentIndex := Some i,
             pm_assetContractId := Some asset\<rparr>) rows))"

fun link_payments ::
  "row_id \<Rightarrow> row_id \<Rightarrow> string \<Rightarrow> nat \<Rightarrow> row_id list \<Rightarrow> payment_row list \<Rightarrow> payment_row list option" where
  "link_payments orgId escrowId asset i [] rows = Some rows"
| "link_payments orgId escrowId asset i (p # ps) rows =
     (case link_payment orgId escrowId asset (int i) p rows of
        None \<Rightarrow> None
      | Some rows \<Rightarrow> link_payments orgId escrowId asset (i + 1) ps rows)"

definition funded_escrow ::
  "env \<Rightarrow> database \<Rightarrow> tenant_context \<Rightarrow> transaction_row \<Rightarrow> stored_plan \<Rightarrow> chain_escrow_facts \<Rightarrow> int \<Rightarrow> int \<Rightarrow>
   escrow_row" where
  "funded_escrow e db ctx record plan facts onChainId amount =
     \<lparr>es_id = new_id e db, es_orgId = tc_orgId ctx, es_onChainId = Some onChainId,
      es_contractId = (case tx_contractId record of None \<Rightarrow> sp_custodyDestination plan | Some c \<Rightarrow> c),
      es_network = tx_network record, es_managerAddress = cf_manager facts,
      es_financeApproverAddress = cf_financeApprover facts, es_assetDecimals = sp_assetDecimals plan,
      es_totalAmountBaseUnits = amount, es_managerApproved = False, es_financeApproved = False,
      es_cancelled = False, es_oracleRotations = 0, es_projectId = sp_projectId plan,
      es_oraclePublicKey = Some (sp_oraclePublicKey plan), es_tokenAddress = Some (sp_assetContractId plan),
      es_createdAt = now e\<rparr>"

text \<open>The escrow row: the one the organization has, or a new one; \<open>None\<close> when another owns the id.\<close>

definition ensure_funded_escrow ::
  "env \<Rightarrow> database \<Rightarrow> tenant_context \<Rightarrow> transaction_row \<Rightarrow> stored_plan \<Rightarrow> chain_escrow_facts \<Rightarrow> int \<Rightarrow> int \<Rightarrow>
   (database \<times> row_id) option" where
  "ensure_funded_escrow e db ctx record plan facts onChainId amount =
     (case findFirst (\<lambda>x. es_orgId x = tc_orgId ctx \<and> es_onChainId x = Some onChainId) (escrows db) of
        Some row \<Rightarrow> Some (db, es_id row)
      | None \<Rightarrow>
          (let row = funded_escrow e db ctx record plan facts onChainId amount in
           case createUnique es_onChainId row (escrows db) of
             None \<Rightarrow> None
           | Some rows \<Rightarrow> Some (db\<lparr>escrows := rows, serial := Suc (serial db)\<rparr>, es_id row)))"

definition source_name :: "resolution_source \<Rightarrow> string" where
  "source_name x = (case x of Indexed_event \<Rightarrow> ''indexed-event'' | Chain_event \<Rightarrow> ''chain-event'')"

definition confirm_record ::
  "env \<Rightarrow> database \<Rightarrow> tenant_context \<Rightarrow> transaction_row \<Rightarrow> stored_plan \<Rightarrow> chain_escrow_facts \<Rightarrow>
   payment_row list \<Rightarrow> int \<Rightarrow> resolution_source \<Rightarrow> int \<Rightarrow> database \<times> (api_error + confirmation)" where
  "confirm_record e db ctx record plan facts ps onChainId source amount =
     (case ensure_funded_escrow e db ctx record plan facts onChainId amount of
        None \<Rightarrow> (db, Inl Thrown)
      | Some (db1, escrowId) \<Rightarrow>
          (case link_payments (tc_orgId ctx) escrowId (sp_assetContractId plan) 0 (map pm_id ps) (payments db1) of
             None \<Rightarrow> (db, Inl Thrown)
           | Some rows \<Rightarrow>
               (let db2 = db1\<lparr>payments := rows, transactions := updated
                       (\<lambda>t. tx_id t = tx_id record \<and> tx_orgId t = tc_orgId ctx)
                       (\<lambda>t. t\<lparr>tx_status := CONFIRMED, tx_escrowId := Some escrowId,
                          tx_confirmedAt := Some (now e), tx_errorMessage := None\<rparr>) (transactions db1)\<rparr>;
                    db3 = recordAuditEvent e db2
                      ((funding_audit (tc_orgId ctx) ''funding.confirmed'' VERIFIER_ACTOR (tx_batchId record)
                         (tx_hash record)
                         [(''onChainEscrowId'', JNum onChainId), (''totalBaseUnits'', JStr (show_int amount)),
                          (''escrowResolvedFrom'', JStr (source_name source)), (''asset'', JStr (sp_assetCode plan)),
                          (''assetContractId'', JStr (sp_assetContractId plan)),
                          (''planDigest'', JStr (digest_text record)),
                          (''custodyDestination'', JStr (sp_custodyDestination plan)),
                          (''paymentCount'', JNum (int (length ps))),
                          (''verifiedManager'', JStr (cf_manager facts)),
                          (''verifiedFinanceApprover'', JStr (cf_financeApprover facts))])
                       \<lparr>in_escrowId := Some escrowId\<rparr>)
                in (db3, map_sum id (\<lambda>a. Confirmed a escrowId onChainId)
                      (view_after db3 (tc_orgId ctx) (tx_id record))))))"

definition confirm_escrow ::
  "env \<Rightarrow> deployment \<Rightarrow> chain_verifier \<Rightarrow> database \<Rightarrow> tenant_context \<Rightarrow> transaction_row \<Rightarrow> int \<Rightarrow>
   resolution_source \<Rightarrow> database \<times> (api_error + confirmation)" where
  "confirm_escrow e dy v db ctx record onChainId source =
     (let unverifiable = (db, Inr (Unverifiable (viewAttempt record))) in
      case readStoredPlan (dy_sha256 dy) record of
        Inl err \<Rightarrow> (db, Inl err)
      | Inr plan \<Rightarrow>
          (case readEscrow v onChainId of
             Inl _ \<Rightarrow> unverifiable
           | Inr facts \<Rightarrow>
               (let ps = batch_payments (dy_collate dy) db (tc_orgId ctx) (the (tx_batchId record)) in
                case (parse_integer (sp_totalBaseUnits plan), plan_differences record plan facts ps) of
                  (Some amount, Some []) \<Rightarrow>
                    (case readTransfers v (sp_assetContractId plan) None of
                       Inl _ \<Rightarrow> unverifiable
                     | Inr ts \<Rightarrow>
                         if custody_transfer record plan amount ts = None then unverifiable
                         else confirm_record e db ctx record plan facts ps onChainId source amount)
                | (Some amount, Some ds) \<Rightarrow>
                    (record_mismatch e db ctx record onChainId ds, Inr (Mismatch (viewAttempt record) ds))
                | _ \<Rightarrow> (db, Inl Thrown))))"

definition confirm_transaction ::
  "env \<Rightarrow> deployment \<Rightarrow> chain_verifier \<Rightarrow> database \<Rightarrow> tenant_context \<Rightarrow> transaction_row \<Rightarrow> int option \<Rightarrow>
   database \<times> (api_error + confirmation)" where
  "confirm_transaction e dy v db ctx record claimed =
     (let hash = the (tx_hash record);
          mismatch = (\<lambda>metadata d. (mismatch_audit e db ctx record metadata,
            Inr (Mismatch (viewAttempt record) [d])))
      in case readTransactionSucceeded v hash of
           Inl _ \<Rightarrow> (db, Inr (Unverifiable (viewAttempt record)))
         | Inr False \<Rightarrow>
             (let (db1, after) = markFailed e db ctx record ''The network reported this transaction as failed.''
              in (db1, map_sum id Funding_failed after))
         | Inr True \<Rightarrow>
             (case resolveEscrowFromTransaction db v hash
                 (case tx_contractId record of None \<Rightarrow> [] | Some c \<Rightarrow> c) (tx_network record) of
                Ambiguous d \<Rightarrow>
                  mismatch [(''reason'', JStr ''AMBIGUOUS''), (''detail'', JStr d)] (Ambiguous_escrow d)
              | Pending_resolution \<Rightarrow> (db, Inr (Unverifiable (viewAttempt record)))
              | Resolved onChainId source \<Rightarrow>
                  if claimed \<noteq> None \<and> claimed \<noteq> Some onChainId
                  then mismatch [(''claimedEscrowId'', JNum (the claimed)), (''resolvedEscrowId'', JNum onChainId)]
                         (Client_claims (the claimed) hash onChainId)
                  else confirm_escrow e dy v db ctx record onChainId source))"

text \<open>The answer to replay, when the attempt is confirmed and its escrow has an id on the chain.\<close>

definition confirmed_before :: "database \<Rightarrow> tenant_context \<Rightarrow> transaction_row \<Rightarrow> (row_id \<times> int) option" where
  "confirmed_before db ctx record =
     (if tx_status record = CONFIRMED \<and> truthy (tx_escrowId record)
      then (case findFirst (\<lambda>x. es_orgId x = tc_orgId ctx \<and> Some (es_id x) = tx_escrowId record) (escrows db) of
          None \<Rightarrow> None
        | Some x \<Rightarrow> map_option (\<lambda>i. (es_id x, i)) (es_onChainId x))
      else None)"

definition confirmFunding ::
  "env \<Rightarrow> deployment \<Rightarrow> chain_verifier \<Rightarrow> database \<Rightarrow> tenant_context \<Rightarrow> row_id \<Rightarrow> int option \<Rightarrow> row_id \<Rightarrow>
   database \<times> (api_error + confirmation)" where
  "confirmFunding e dy v db ctx attemptId claimed batchId =
     (case findFirst (\<lambda>t. tx_id t = attemptId \<and> tx_orgId t = tc_orgId ctx \<and> tx_batchId t = Some batchId \<and>
            tx_kind t = INITIALIZE_ESCROW) (transactions db) of
        None \<Rightarrow> (db, Inl (Api_error 404 ''NOT_FOUND''))
      | Some record \<Rightarrow>
          if \<not> truthy (tx_hash record) \<or> \<not> truthy (tx_batchId record)
          then (db, Inl (Api_error 409 ''STATE_CONFLICT''))
          else (case confirmed_before db ctx record of
              Some (escrowId, onChainId) \<Rightarrow> (db, Inr (Confirmed (viewAttempt record) escrowId onChainId))
            | None \<Rightarrow> confirm_transaction e dy v db ctx record claimed))"

section \<open>Interleaved funding requests\<close>

text \<open>
  Requests of any members act on the funding of any batches; a request that opens an intent is in
  flight between its reads and its transaction, and one that abandons or confirms an attempt may act
  on a row it read at any time before.
\<close>

type_synonym pending_open = "tenant_context \<times> row_id \<times> intent"

inductive funding_step :: "database \<times> pending_open list \<Rightarrow> database \<times> pending_open list \<Rightarrow> bool" where
  step_prepares: "open_read e dy db ctx b ref = Inr (Inr it) \<Longrightarrow> funding_step (db, fl) (db, (ctx, b, it) # fl)"
| step_opens: "open_commit e db ctx b it = (db', r) \<Longrightarrow>
     funding_step (db, xs @ (ctx, b, it) # ys) (db', xs @ ys)"
| step_submits: "recordFundingSubmitted e db ctx i h b = (db', r) \<Longrightarrow> funding_step (db, fl) (db', fl)"
| step_fails: "fail_commit e db ctx record reason u = (db', r) \<Longrightarrow> funding_step (db, fl) (db', fl)"
| step_confirms: "confirm_transaction e dy v db ctx record claimed = (db', r) \<Longrightarrow>
     funding_step (db, fl) (db', fl)"

inductive_cases funding_stepE: "funding_step (db, fl) c"

definition in_flight :: "transaction_row \<Rightarrow> bool" where
  "in_flight t \<longleftrightarrow> tx_status t \<in> set IN_FLIGHT"

text \<open>A row whose identity stays and that is in flight afterwards only if it was before.\<close>

definition row_moves :: "transaction_row \<Rightarrow> transaction_row \<Rightarrow> bool" where
  "row_moves t u \<longleftrightarrow> tx_id u = tx_id t \<and> tx_orgId u = tx_orgId t \<and> tx_batchId u = tx_batchId t \<and>
     tx_kind u = tx_kind t \<and> tx_idempotencyKey u = tx_idempotencyKey t \<and> tx_attempt u = tx_attempt t \<and>
     (in_flight u \<longrightarrow> in_flight t)"

abbreviation rows_move :: "database \<Rightarrow> database \<Rightarrow> bool" where
  "rows_move db db' \<equiv> list_all2 row_moves (transactions db) (transactions db')"

lemma row_moves_refl [simp]: "row_moves t t"
  by (simp add: row_moves_def)

lemma rows_move_same: "transactions db' = transactions db \<Longrightarrow> rows_move db db'"
  by (simp add: list_all2_refl)

lemma rows_move_updated:
  "(\<And>t. P t \<Longrightarrow> row_moves t (f t)) \<Longrightarrow> list_all2 row_moves rows (updated P f rows)"
  by (induction rows) (auto simp: updated_eq)

lemma recordAuditEvent_keeps [simp]:
  "transactions (recordAuditEvent e db inp) = transactions db"
  "payments (recordAuditEvent e db inp) = payments db"
  "escrows (recordAuditEvent e db inp) = escrows db"
  "batches (recordAuditEvent e db inp) = batches db"
  "members (recordAuditEvent e db inp) = members db"
  "users (recordAuditEvent e db inp) = users db"
  "findings (recordAuditEvent e db inp) = findings db"
  by (simp_all add: recordAuditEvent_def)

lemma end_attempt_moves:
  "status \<notin> set IN_FLIGHT \<Longrightarrow> rows_move db (end_attempt i o' status reason db)"
  unfolding end_attempt_def by (simp, rule rows_move_updated) (simp add: row_moves_def in_flight_def)

lemma release_keeps [simp]:
  "transactions (release_payments e o' b reason db) = transactions db"
  "escrows (release_payments e o' b reason db) = escrows db"
  "members (release_payments e o' b reason db) = members db"
  "users (release_payments e o' b reason db) = users db"
  by (simp_all add: release_payments_def)

lemma not_in_flight: "FAILED \<notin> set IN_FLIGHT" "TX_CANCELLED \<notin> set IN_FLIGHT" "CONFIRMED \<notin> set IN_FLIGHT"
  by (simp_all add: IN_FLIGHT_def)

lemma submitted_moves:
  "recordFundingSubmitted e db ctx i h b = (db', r) \<Longrightarrow> rows_move db db'"
proof -
  assume eq: "recordFundingSubmitted e db ctx i h b = (db', r)"
  let ?P = "\<lambda>t. tx_id t = i \<and> tx_orgId t = tc_orgId ctx \<and> tx_batchId t = Some b \<and>
      tx_status t \<in> {AWAITING_SIGNATURE, PREPARING, SIMULATING}"
  let ?f = "\<lambda>t. t\<lparr>tx_status := SUBMITTED, tx_hash := Some h, tx_submittedAt := Some (now e)\<rparr>"
  have "list_all2 row_moves (transactions db) (updated ?P ?f (transactions db))"
    by (rule rows_move_updated) (auto simp: row_moves_def in_flight_def IN_FLIGHT_def)
  then show "rows_move db db'"
    using eq
    by (auto simp: recordFundingSubmitted_def Let_def updateMany_def updated_def list_all2_refl
        split: if_splits option.splits)
qed

lemma fail_moves: "fail_commit e db ctx record reason u = (db', r) \<Longrightarrow> rows_move db db'"
  using end_attempt_moves[of "if u then TX_CANCELLED else FAILED" db "tx_id record" "tc_orgId ctx" reason]
    not_in_flight
  by (auto simp: fail_commit_def Let_def split: if_splits)

lemma markFailed_moves: "markFailed e db ctx record reason = (db', r) \<Longrightarrow> rows_move db db'"
  using end_attempt_moves[OF not_in_flight(1), of db "tx_id record" "tc_orgId ctx" reason]
  by (auto simp: markFailed_def Let_def)

lemma record_mismatch_moves: "rows_move db (record_mismatch e db ctx record n ds)"
proof -
  have "transactions (record_mismatch e db ctx record n ds) = updated
      (\<lambda>t. tx_id t = tx_id record \<and> tx_orgId t = tc_orgId ctx)
      (\<lambda>t. t\<lparr>tx_errorMessage := Some (take 500 (''Chain disagrees with the funding plan: '' @
         join_with ''; '' (map difference_text ds)))\<rparr>) (transactions db)"
    by (simp add: record_mismatch_def mismatch_audit_def Let_def)
  then show ?thesis by (auto intro!: rows_move_updated simp: row_moves_def in_flight_def)
qed

lemma ensure_funded_keeps:
  "ensure_funded_escrow e db ctx record plan facts n amount = Some (db1, i) \<Longrightarrow>
   transactions db1 = transactions db \<and> payments db1 = payments db"
  by (auto simp: ensure_funded_escrow_def Let_def split: option.splits)

lemma confirm_record_moves:
  "confirm_record e db ctx record plan facts ps n source amount = (db', r) \<Longrightarrow> rows_move db db'"
  using not_in_flight(3)
  by (auto simp: confirm_record_def Let_def list_all2_refl row_moves_def in_flight_def
      split: option.splits prod.splits dest!: ensure_funded_keeps intro!: rows_move_updated)

lemma confirm_escrow_moves:
  "confirm_escrow e dy v db ctx record n source = (db', r) \<Longrightarrow> rows_move db db'"
  by (auto simp: confirm_escrow_def Let_def list_all2_refl record_mismatch_moves confirm_record_moves
      split: sum.splits option.splits list.splits if_splits)

lemma confirm_moves: "confirm_transaction e dy v db ctx record claimed = (db', r) \<Longrightarrow> rows_move db db'"
  by (auto simp: confirm_transaction_def Let_def list_all2_refl mismatch_audit_def
      split: sum.splits bool.splits escrow_resolution.splits if_splits prod.splits
      dest: confirm_escrow_moves markFailed_moves)

end
