(* ===== verification/FundingSafety.thy ===== *)
theory FundingSafety
  imports Funding
begin

text \<open>
  What holds of the funding requests of \<open>Funding\<close>: at most one intent of a batch is open whatever
  the requests and their interleaving, a plan adds up, and funding is recorded on evidence of the
  chain only. The last section holds what the code does not intend.
\<close>

section \<open>Attempts are numbered and claimed once\<close>

lemma js_sort_sorted:
  fixes k :: "'a \<Rightarrow> 'b::linorder"
  assumes "\<And>x y. cmp x y \<le> 0 \<longleftrightarrow> k x \<le> k y"
  shows "sorted (map k (js_sort cmp xs))"
proof -
  have "sorted (map k (js_insert cmp x ys))" if "sorted (map k ys)" for x ys
    using that by (induction ys) (auto simp: assms)
  then show ?thesis by (induction xs) (auto simp: js_sort_def)
qed

lemma js_sort_rel:
  assumes "list_all2 R xs ys" and "\<And>x y x' y'. R x x' \<Longrightarrow> R y y' \<Longrightarrow> cmp x' y' = cmp x y"
  shows "list_all2 R (js_sort cmp xs) (js_sort cmp ys)"
proof -
  have insert: "list_all2 R (js_insert cmp x us) (js_insert cmp x' vs)"
    if "list_all2 R us vs" "R x x'" for x x' us vs
    using that by (induction) (auto simp: assms(2))
  show ?thesis using assms(1) by (induction) (auto simp: js_sort_def insert)
qed

lemma latest_None: "latestAttempt db o' b = None \<longleftrightarrow> batch_attempts db o' b = []"
proof -
  have "js_sort cmp xs = [] \<longleftrightarrow> xs = []" for cmp and xs :: "transaction_row list"
    by (metis length_0_conv length_js_sort)
  then show ?thesis unfolding latestAttempt_def by (metis list.case_eq_if option.distinct(1))
qed

lemma latest_SomeD:
  assumes "latestAttempt db o' b = Some t"
  shows "t \<in> set (batch_attempts db o' b)"
    and "u \<in> set (batch_attempts db o' b) \<Longrightarrow> tx_attempt u \<le> tx_attempt t"
proof -
  let ?cmp = "\<lambda>a b. int (tx_attempt b) - int (tx_attempt a)" and ?A = "batch_attempts db o' b"
  obtain ts where ts: "js_sort ?cmp ?A = t # ts"
    using assms by (auto simp: latestAttempt_def split: list.splits)
  then show "t \<in> set ?A" by (metis list.set_intros(1) set_js_sort)
  have "sorted (map (\<lambda>t. - int (tx_attempt t)) (js_sort ?cmp ?A))" by (rule js_sort_sorted) simp
  moreover assume "u \<in> set ?A"
  then have "u \<in> set (t # ts)" by (metis set_js_sort ts)
  ultimately show "tx_attempt u \<le> tx_attempt t" by (auto simp: ts)
qed

text \<open>
  The state of the attempts of one batch: they are numbered from 1 without a gap, carry the key of
  their number, and only the last one can be in flight.
\<close>

definition well_numbered :: "row_id \<Rightarrow> transaction_row list \<Rightarrow> bool" where
  "well_numbered b A \<longleftrightarrow> map tx_attempt A = [1..<Suc (length A)] \<and>
     map tx_idempotencyKey A = map (fundingIdempotencyKey b) [1..<Suc (length A)] \<and>
     list_all (\<lambda>t. \<not> in_flight t) (butlast A)"

text \<open>An intent prepared earlier: when its number is still free, nothing is in flight.\<close>

definition pending_sound :: "row_id \<Rightarrow> transaction_row list \<Rightarrow> intent \<Rightarrow> bool" where
  "pending_sound b A it \<longleftrightarrow> 1 \<le> it_attempt it \<and> it_attempt it \<le> Suc (length A) \<and>
     it_key it = fundingIdempotencyKey b (it_attempt it) \<and>
     (it_attempt it = Suc (length A) \<longrightarrow> list_all (\<lambda>t. \<not> in_flight t) A)"

lemma batch_attempts_move:
  assumes "rows_move db db'"
  shows "list_all2 row_moves (batch_attempts db o' b) (batch_attempts db' o' b)"
proof -
  have "list_all2 row_moves (filter P rows) (filter P rows')"
    if "list_all2 row_moves rows rows'" "\<And>t u. row_moves t u \<Longrightarrow> P t \<longleftrightarrow> P u" for P rows rows'
    using that by (induction rule: list_all2_induct) auto
  then show ?thesis
    unfolding batch_attempts_def using assms by (simp add: row_moves_def)
qed

lemma moves_maps:
  assumes "list_all2 row_moves A A'"
  shows "map tx_attempt A' = map tx_attempt A" "map tx_idempotencyKey A' = map tx_idempotencyKey A"
    "length A' = length A"
  using assms by (induction) (auto simp: row_moves_def)

lemma moves_not_in_flight:
  "list_all2 row_moves A A' \<Longrightarrow> list_all (\<lambda>t. \<not> in_flight t) A \<Longrightarrow> list_all (\<lambda>t. \<not> in_flight t) A'"
  by (induction rule: list_all2_induct) (auto simp: row_moves_def)

lemma moves_well_numbered:
  assumes "list_all2 row_moves A A'" and "well_numbered b A"
  shows "well_numbered b A'"
proof -
  have "list_all2 row_moves (butlast A) (butlast A')"
    using assms(1) by (metis butlast_conv_take list_all2_lengthD list_all2_takeI)
  then show ?thesis
    using assms(2) moves_maps[OF assms(1)] moves_not_in_flight unfolding well_numbered_def by metis
qed

lemma moves_pending:
  "list_all2 row_moves A A' \<Longrightarrow> pending_sound b A it \<Longrightarrow> pending_sound b A' it"
  using moves_not_in_flight moves_maps(3) unfolding pending_sound_def by metis

lemma well_numbered_nth:
  assumes "well_numbered b A" and "i < length A"
  shows "tx_attempt (A ! i) = Suc i" "tx_idempotencyKey (A ! i) = fundingIdempotencyKey b (Suc i)"
proof -
  have "map tx_attempt A ! i = [1..<Suc (length A)] ! i"
    "map tx_idempotencyKey A ! i = map (fundingIdempotencyKey b) [1..<Suc (length A)] ! i"
    using assms(1) by (simp_all only: well_numbered_def)
  then show "tx_attempt (A ! i) = Suc i" "tx_idempotencyKey (A ! i) = fundingIdempotencyKey b (Suc i)"
    using assms(2) by (simp_all del: upt_Suc)
qed

lemma latest_is_last:
  assumes w: "well_numbered b (batch_attempts db o' b)" and t: "latestAttempt db o' b = Some t"
  shows "batch_attempts db o' b \<noteq> []" "t = last (batch_attempts db o' b)"
    "tx_attempt t = length (batch_attempts db o' b)"
proof -
  let ?A = "batch_attempts db o' b"
  obtain i where i: "i < length ?A" "t = ?A ! i" using latest_SomeD(1)[OF t] by (auto simp: in_set_conv_nth)
  then show ne: "?A \<noteq> []" by auto
  have "tx_attempt (last ?A) \<le> tx_attempt t" by (rule latest_SomeD(2)[OF t]) (simp add: ne)
  then have "Suc (length ?A - 1) \<le> Suc i"
    using well_numbered_nth[OF w] ne i by (simp add: last_conv_nth)
  then have "i = length ?A - 1" using i(1) by linarith
  then show "t = last ?A" "tx_attempt t = length ?A"
    using well_numbered_nth(1)[OF w i(1)] i ne by (simp_all add: last_conv_nth)
qed

lemma not_in_flight_append:
  "list_all (\<lambda>t. \<not> in_flight t) (butlast A) \<Longrightarrow> A \<noteq> [] \<Longrightarrow> \<not> in_flight (last A) \<Longrightarrow>
   list_all (\<lambda>t. \<not> in_flight t) A"
  by (cases A rule: rev_cases) simp_all

lemma state_attempt: "getFundingState dy db ctx b ref = Inr s \<Longrightarrow>
    fv_attempt s = map_option viewAttempt (latestAttempt db (tc_orgId ctx) b)"
  by (auto simp: getFundingState_def Let_def split: sum.splits)

lemma open_read_intentD:
  assumes "open_read e dy db ctx b ref = Inr (Inr it)"
  shows "case latestAttempt db (tc_orgId ctx) b of
      None \<Rightarrow> it_attempt it = 1
    | Some t \<Rightarrow> it_attempt it = Suc (tx_attempt t) \<and> \<not> in_flight t"
    and "it_key it = fundingIdempotencyKey b (it_attempt it)"
  using assms state_attempt[of dy db ctx b ref]
  by (auto simp: open_read_def Let_def in_flight_def viewAttempt_def split: sum.splits option.splits if_splits)

lemma open_read_pending:
  assumes r: "open_read e dy db ctx b ref = Inr (Inr it)"
    and w: "well_numbered b (batch_attempts db (tc_orgId ctx) b)"
  shows "pending_sound b (batch_attempts db (tc_orgId ctx) b) it"
proof (cases "latestAttempt db (tc_orgId ctx) b")
  case None
  then have "batch_attempts db (tc_orgId ctx) b = []" by (simp only: latest_None)
  then show ?thesis using None open_read_intentD[OF r] by (simp add: pending_sound_def)
next
  case (Some t)
  then show ?thesis
    using open_read_intentD[OF r] latest_is_last[OF w Some] w not_in_flight_append
    by (simp add: pending_sound_def well_numbered_def)
qed

lemma batch_attempts_audit [simp]: "batch_attempts (recordAuditEvent e db x) o' b = batch_attempts db o' b"
  by (simp add: batch_attempts_def)

lemma open_commit_attempts:
  assumes "open_commit e db ctx b it = (db', r)"
  shows "transactions db' = transactions db \<or>
    transactions db' = transactions db @ [new_attempt e db ctx b it] \<and>
    it_key it \<notin> tx_idempotencyKey ` set (transactions db)"
  using assms by (auto simp: open_commit_def Let_def createUnique_def new_attempt_def split: if_splits)

lemma claimed_number_is_last:
  assumes w: "well_numbered b A" and p: "pending_sound b A it"
    and fresh: "it_key it \<notin> tx_idempotencyKey ` set A"
  shows "it_attempt it = Suc (length A)"
proof (rule ccontr)
  assume "it_attempt it \<noteq> Suc (length A)"
  then have "it_attempt it - 1 < length A" "Suc (it_attempt it - 1) = it_attempt it"
    using p by (auto simp: pending_sound_def)
  then show False
    using well_numbered_nth(2)[OF w, of "it_attempt it - 1"] p fresh nth_mem
    by (force simp: pending_sound_def)
qed

lemma claim_keeps_numbering:
  assumes w: "well_numbered b A" and p: "pending_sound b A it"
    and fresh: "it_key it \<notin> tx_idempotencyKey ` set A"
    and t: "tx_attempt t = it_attempt it" "tx_idempotencyKey t = it_key it"
  shows "well_numbered b (A @ [t])"
  using w p t claimed_number_is_last[OF w p fresh] by (simp add: well_numbered_def pending_sound_def)

lemma claim_keeps_pending:
  "pending_sound b A it \<Longrightarrow> pending_sound b (A @ [t]) it"
  by (auto simp: pending_sound_def)

definition funding_sound :: "row_id \<Rightarrow> row_id \<Rightarrow> database \<times> pending_open list \<Rightarrow> bool" where
  "funding_sound o' b c \<longleftrightarrow> well_numbered b (batch_attempts (fst c) o' b) \<and>
     (\<forall>(ctx, b', it) \<in> set (snd c). tc_orgId ctx = o' \<and> b' = b \<longrightarrow>
        pending_sound b (batch_attempts (fst c) o' b) it)"

lemma moves_sound:
  assumes "funding_sound o' b (db, fl)" and "rows_move db db'"
  shows "funding_sound o' b (db', fl)"
  using assms(1) moves_well_numbered[OF batch_attempts_move[OF assms(2)]]
    moves_pending[OF batch_attempts_move[OF assms(2)]]
  by (fastforce simp: funding_sound_def)

lemma open_sound:
  assumes s: "funding_sound o' b (db, xs @ (ctx, b', it) # ys)"
    and c: "open_commit e db ctx b' it = (db', r)"
  shows "funding_sound o' b (db', xs @ ys)"
proof (cases "transactions db' = transactions db")
  case True
  then show ?thesis using s by (auto simp: funding_sound_def batch_attempts_def)
next
  case False
  let ?A = "batch_attempts db o' b" and ?t = "new_attempt e db ctx b' it"
  have new: "transactions db' = transactions db @ [?t]"
    and fresh: "it_key it \<notin> tx_idempotencyKey ` set (transactions db)"
    using open_commit_attempts[OF c] False by auto
  show ?thesis
  proof (cases "tc_orgId ctx = o' \<and> b' = b")
    case True
    have "batch_attempts db' o' b = ?A @ [?t]" using True by (simp add: batch_attempts_def new new_attempt_def)
    moreover have "it_key it \<notin> tx_idempotencyKey ` set ?A" using fresh by (auto simp: batch_attempts_def)
    ultimately show ?thesis
      using s True by (auto simp: funding_sound_def new_attempt_def intro: claim_keeps_numbering claim_keeps_pending)
  next
    case False
    then have "batch_attempts db' o' b = ?A" by (auto simp: batch_attempts_def new new_attempt_def)
    then show ?thesis using s by (auto simp: funding_sound_def)
  qed
qed

lemma funding_step_sound:
  assumes "funding_step c d" and "funding_sound o' b c"
  shows "funding_sound o' b d"
  using assms
proof (induction rule: funding_step.induct)
  case (step_prepares e dy db ctx b' ref it fl)
  then show ?case using open_read_pending[OF step_prepares(1)] by (auto simp: funding_sound_def)
next
  case (step_opens e db ctx b' it db' r xs ys)
  then show ?case using open_sound by blast
next
  case step_submits
  then show ?case using moves_sound submitted_moves by blast
next
  case step_fails
  then show ?case using moves_sound fail_moves by blast
next
  case step_confirms
  then show ?case using moves_sound confirm_moves by blast
qed

lemma funding_reachable_sound:
  "funding_step\<^sup>*\<^sup>* c d \<Longrightarrow> funding_sound o' b c \<Longrightarrow> funding_sound o' b d"
  by (induction rule: rtranclp_induct) (auto intro: funding_step_sound)

lemma one_in_flight:
  assumes "well_numbered b A"
  shows "length (filter in_flight A) \<le> 1"
proof (cases A rule: rev_cases)
  case (snoc B t)
  then have "filter in_flight B = []" using assms by (auto simp: well_numbered_def list_all_iff filter_empty_conv)
  then show ?thesis using snoc by simp
qed simp

section \<open>When there is a plan\<close>

text \<open>The batch may be funded, an attempt in flight apart.\<close>

definition fundable_batch :: "eligibility_input \<Rightarrow> bool" where
  "fundable_batch inp \<longleftrightarrow> fundable (inp\<lparr>ei_attempt := None\<rparr>) \<and>
     (case ei_attempt inp of None \<Rightarrow> True | Some a \<Rightarrow> fa_status a \<noteq> CONFIRMED)"

abbreviation in_flight_only :: "funding_blocker list \<Rightarrow> bool" where
  "in_flight_only \<equiv> list_all (\<lambda>b. fb_code b = FUNDING_IN_FLIGHT)"

lemma in_flight_only_push:
  "c \<noteq> FUNDING_IN_FLIGHT \<Longrightarrow> in_flight_only (push_if P (blocker c)) \<longleftrightarrow> \<not> P"
  "c \<noteq> FUNDING_IN_FLIGHT \<Longrightarrow> in_flight_only [blocker c] \<longleftrightarrow> False"
  by (auto simp: push_if_def blocker_def)

lemma in_flight_only_payment:
  "in_flight_only (payment_blockers asset p i) \<longleftrightarrow> fundable_payment asset p"
proof -
  have "in_flight_only (payment_blockers asset p i) \<longleftrightarrow> payment_blockers asset p i = []"
    by (auto simp: payment_blockers_def payment_blocker_def push_if_def Let_def split: option.split)
  then show ?thesis by (simp add: payment_blockers_Nil)
qed

lemma in_flight_only_attempt:
  "in_flight_only (attempt_blockers a) \<longleftrightarrow> (case a of None \<Rightarrow> True | Some a \<Rightarrow> fa_status a \<noteq> CONFIRMED)"
  by (auto simp: attempt_blockers_def blocker_def IN_FLIGHT_def split: option.split)

lemma in_flight_only_approver: "in_flight_only (approver_blockers a w) \<longleftrightarrow> (\<exists>f. a = Some f \<and> f \<noteq> w)"
  by (auto simp: approver_blockers_def push_if_def blocker_def split: option.split)

lemma planReady_iff: "planReady (assessFundingEligibility inp) \<longleftrightarrow> fundable_batch inp"
proof -
  let ?ps = "ei_payments inp" and ?a = "ei_asset inp"
  have rows: "in_flight_only (concat (map (\<lambda>(k, p). payment_blockers ?a p (k + 1)) (enumerate i ps)))
      \<longleftrightarrow> list_all (fundable_payment ?a) ps" for i ps
    by (induction ps arbitrary: i) (simp_all add: in_flight_only_payment)
  have "planReady (assessFundingEligibility inp) \<longleftrightarrow>
      ei_role inp \<in> set FUNDING_ROLES \<and>
      (case ei_attempt inp of None \<Rightarrow> True | Some a \<Rightarrow> fa_status a \<noteq> CONFIRMED) \<and>
      ?ps \<noteq> [] \<and> \<not> length ?ps > MAX_FUNDABLE_PAYMENTS \<and> sa_contractId ?a \<noteq> None \<and>
      \<not> length (remdups (map fp_assetCode ?ps)) > 1 \<and> list_all (fundable_payment ?a) ?ps \<and>
      (\<exists>f. ei_financeApproverAddress inp = Some f \<and> f \<noteq> ei_walletAddress inp) \<and>
      truthy (ei_oraclePublicKey inp)"
    unfolding planReady_def assessFundingEligibility_def assess_payments_eq Let_def
    by (simp only: prod.case funding_assessment.select_convs list_all_append rows in_flight_only_push
        in_flight_only_attempt in_flight_only_approver blocker_code.distinct not_False_eq_True not_not
        simp_thms conj_assoc)
  then show ?thesis
    using one_asset[of ?a ?ps]
    by (auto simp: fundable_batch_def fundable_def FUNDING_ROLES_def MAX_FUNDABLE_PAYMENTS_def not_less Suc_le_eq)
qed

lemma total_amount:
  "fs_totalBaseUnits (assessFundingEligibility inp) = sum_list (map fp_amountBaseUnits (ei_payments inp))"
  by (simp add: assessFundingEligibility_def assess_payments_eq Let_def)

lemma fundable_batch_periods:
  "fundable_batch inp \<Longrightarrow> \<not> list_ex (\<lambda>p. fp_periodStart p = None \<or> fp_periodEnd p = None) (ei_payments inp)"
  by (auto simp: fundable_batch_def fundable_def fundable_payment_def list_ex_iff list_all_iff)

lemma funding_plan_for_iff:
  "funding_plan_for dy inp b ref = Inr (Some plan) \<longleftrightarrow>
     fundable_batch inp \<and> truthy (sa_contractId (ei_asset inp)) \<and> truthy (ei_financeApproverAddress inp) \<and>
     buildFundingPlan dy b ref (ei_payments inp) (the (sa_contractId (ei_asset inp)))
       (ei_walletAddress inp) (the (ei_financeApproverAddress inp)) (the (ei_oraclePublicKey inp))
       (sum_list (map fp_amountBaseUnits (ei_payments inp))) = Inr plan"
  unfolding funding_plan_for_def Let_def planReady_iff total_amount
  by (cases "buildFundingPlan dy b ref (ei_payments inp) (the (sa_contractId (ei_asset inp)))
       (ei_walletAddress inp) (the (ei_financeApproverAddress inp)) (the (ei_oraclePublicKey inp))
       (sum_list (map fp_amountBaseUnits (ei_payments inp)))")
    (auto simp: fundable_batch_def fundable_def)

lemma build_planD:
  assumes "buildFundingPlan dy b ref ps token manager approver key amount = Inr plan"
  shows "pl_schedule plan = map (schedule_row token) ps" "pl_manager plan = manager"
    "pl_financeApprover plan = approver" "pl_totalBaseUnits plan = show_int amount"
    "pl_custodyDestination plan = pl_contractId plan" "pl_contractId plan = dy_contractId dy"
    "pl_assetContractId plan = token" "pl_networkId plan = dy_network dy" "pl_oraclePublicKey plan = key"
  using assms
  by (auto simp: buildFundingPlan_def requireContractId_def split: if_splits sum.splits)

lemma plan_manager:
  "funding_plan_for dy inp b ref = Inr (Some plan) \<Longrightarrow> pl_manager plan = ei_walletAddress inp"
  by (auto simp: funding_plan_for_iff dest: build_planD(2))

text \<open>Payments that differ only in waiting for funding give the same plan.\<close>

lemma plan_for_waiting:
  assumes "funding_plan_for dy inp b ref = Inr (Some plan)"
    and same: "ei_asset inp' = ei_asset inp" "ei_walletAddress inp' = ei_walletAddress inp"
      "ei_role inp' = ei_role inp" "ei_financeApproverAddress inp' = ei_financeApproverAddress inp"
      "ei_oraclePublicKey inp' = ei_oraclePublicKey inp"
    and ps: "list_all2 (\<lambda>p q. \<exists>st. q = p\<lparr>fp_state := st\<rparr> \<and> (st = DRAFT \<or> st = VALIDATING))
      (ei_payments inp) (ei_payments inp')"
    and free: "case ei_attempt inp' of None \<Rightarrow> True | Some a \<Rightarrow> fa_status a \<noteq> CONFIRMED"
  shows "funding_plan_for dy inp' b ref = Inr (Some plan)"
proof -
  have maps: "map f (ei_payments inp') = map f (ei_payments inp)"
    if "\<And>p st. f (p\<lparr>fp_state := st\<rparr>) = f p" for f :: "funding_payment \<Rightarrow> 'z"
    using ps by (induction rule: list_all2_induct) (auto simp: that)
  have periods: "list_ex (\<lambda>p. fp_periodStart p = None \<or> fp_periodEnd p = None) (ei_payments inp') =
     list_ex (\<lambda>p. fp_periodStart p = None \<or> fp_periodEnd p = None) (ei_payments inp)"
    using ps by (induction rule: list_all2_induct) auto
  have kept: "list_all (fundable_payment asset) (ei_payments inp')"
    if "list_all (fundable_payment asset) (ei_payments inp)" for asset
    using ps that by (induction rule: list_all2_induct) (auto simp: fundable_payment_def)
  have "map (schedule_row token) (ei_payments inp') = map (schedule_row token) (ei_payments inp)" for token
    by (rule maps) (simp add: schedule_row_def)
  moreover have "map fp_amountBaseUnits (ei_payments inp') = map fp_amountBaseUnits (ei_payments inp)"
    by (rule maps) simp
  moreover have "length (ei_payments inp') = length (ei_payments inp)"
    using list_all2_lengthD[OF ps] by simp
  moreover note periods
  ultimately have rows: "map (schedule_row token) (ei_payments inp') = map (schedule_row token) (ei_payments inp)"
    "map fp_amountBaseUnits (ei_payments inp') = map fp_amountBaseUnits (ei_payments inp)"
    "length (ei_payments inp') = length (ei_payments inp)"
    "list_ex (\<lambda>p. fp_periodStart p = None \<or> fp_periodEnd p = None) (ei_payments inp') =
     list_ex (\<lambda>p. fp_periodStart p = None \<or> fp_periodEnd p = None) (ei_payments inp)" for token
    by blast+
  have "fundable_batch inp'"
    using assms(1) kept free
    by (auto simp: funding_plan_for_iff fundable_batch_def fundable_def same rows(3))
  then show ?thesis
    using assms(1) unfolding funding_plan_for_iff buildFundingPlan_def same rows by simp
qed

lemma state_plan: "getFundingState dy db ctx b ref = Inr s \<Longrightarrow>
    funding_plan_for dy (funding_input dy db ctx b) b ref = Inr (fv_plan s)"
  by (auto simp: getFundingState_def Let_def split: sum.splits)

lemma approver_member:
  assumes "selectFinanceApprover db o' w = Some a"
  shows "a \<noteq> w \<and> (\<exists>m \<in> set (members db). mb_orgId m = o' \<and> mb_status m = ACTIVE \<and>
    mb_role m \<in> {FINANCE, OWNER, ADMIN} \<and> wallet_of db m = Some a)"
proof -
  let ?ok = "\<lambda>m. mb_orgId m = o' \<and> mb_status m = ACTIVE \<and> mb_role m \<in> {FINANCE, OWNER, ADMIN}"
  let ?can = "\<lambda>m. truthy (wallet_of db m) \<and> wallet_of db m \<noteq> Some w"
  define cmp where "cmp = (\<lambda>(a :: member_row) (b :: member_row). mb_createdAt a - mb_createdAt b)"
  define rank where "rank = (\<lambda>(a :: member_row) (b :: member_row). let d = approver_priority (mb_role a) - approver_priority (mb_role b)
              in if d \<noteq> 0 then d else mb_createdAt a - mb_createdAt b)"
  let ?cs = "js_sort rank (filter ?can (js_sort cmp (filter ?ok (members db))))"
  have "(case ?cs of [] \<Rightarrow> None | m # _ \<Rightarrow> wallet_of db m) = Some a"
    using assms unfolding selectFinanceApprover_def cmp_def rank_def by (simp only: Let_def)
  then obtain m ms where m: "?cs = m # ms" and a: "wallet_of db m = Some a" by (cases ?cs) auto
  have "m \<in> set ?cs" by (simp only: m list.set_intros)
  then show ?thesis using a by auto
qed

section \<open>What a confirmation has read\<close>

lemma collect_Nil: "collect xs = Some [] \<longleftrightarrow> list_all (\<lambda>x. x = Some []) xs"
  by (induction xs) (auto split: option.splits)

definition slot_as_planned :: "plan_row \<Rightarrow> chain_payment_facts \<Rightarrow> bool" where
  "slot_as_planned row slot \<longleftrightarrow> cp_worker slot = pr_worker row \<and> cp_token slot = pr_token row \<and>
     parse_integer (pr_amountBaseUnits row) = Some (cp_amountBaseUnits slot)"

lemma slot_differences_Nil: "slot_differences i row slot = Some [] \<longleftrightarrow> slot_as_planned row slot"
  by (auto simp: slot_differences_def slot_as_planned_def split: option.split)

lemma schedule_differences_Nil:
  "schedule_differences plan facts = Some [] \<longleftrightarrow> list_all2 slot_as_planned (sp_rows plan) (cf_payments facts)"
proof -
  have slots: "list_all (\<lambda>x. x = Some []) (map (\<lambda>(i, row, slot). slot_differences i row slot) (enumerate n (zip rows slots)))
      \<longleftrightarrow> list_all2 slot_as_planned rows slots" if "length slots = length rows" for n rows slots
    using that
    by (induction rows arbitrary: n slots) (auto simp: length_Suc_conv slot_differences_Nil)
  show ?thesis
    using slots[of "cf_payments facts" "sp_rows plan" 0]
    by (auto simp: schedule_differences_def collect_Nil dest: list_all2_lengthD)
qed

text \<open>A row of the plan is met by the payment the database has under its id.\<close>

definition payment_as_planned :: "payment_row list \<Rightarrow> plan_row \<Rightarrow> bool" where
  "payment_as_planned ps row \<longleftrightarrow> (\<exists>p \<in> set ps. pm_id p = pr_paymentId row \<and>
     pm_recipientAddress p = pr_worker row \<and>
     parse_integer (pr_amountBaseUnits row) = Some (pm_amountBaseUnits p) \<and>
     parse_integer (pr_rateBaseUnits row) = Some (pm_rateBaseUnits p))"

lemma row_differences_Nil: "row_differences ps row = Some [] \<Longrightarrow> payment_as_planned ps row"
  unfolding row_differences_def payment_as_planned_def
  by (auto simp: find_Some_iff in_set_conv_nth rev_nth split: option.splits if_splits)
    (metis diff_Suc_less length_pos_if_in_set nth_mem length_greater_0_conv list.size(3) not_less_zero)+

lemma batch_differences_Nil:
  "batch_differences ps plan = Some [] \<Longrightarrow>
   length ps = length (sp_rows plan) \<and> list_all (payment_as_planned ps) (sp_rows plan)"
  unfolding batch_differences_def
  by (auto simp: collect_Nil list_all_iff dest: row_differences_Nil)

lemma header_differences_Nil:
  "header_differences record plan facts = [] \<longleftrightarrow> tx_network record = sp_network plan \<and>
     (truthy (tx_contractId record) \<longrightarrow> tx_contractId record = Some (sp_contractId plan)) \<and>
     \<not> cf_cancelled facts \<and> cf_manager facts = sp_manager plan \<and>
     cf_financeApprover facts = sp_financeApprover plan \<and> cf_manager facts \<noteq> cf_financeApprover facts"
  by (auto simp: header_differences_def)

text \<open>
  The evidence for funding: the transaction succeeded, the escrow it created holds the frozen plan
  slot by slot under its two signers, and the whole amount moved from the manager into custody.
\<close>

definition funding_evidence ::
  "deployment \<Rightarrow> chain_verifier \<Rightarrow> transaction_row \<Rightarrow> stored_plan \<Rightarrow> int \<Rightarrow> chain_escrow_facts \<Rightarrow> bool" where
  "funding_evidence dy v record plan i facts \<longleftrightarrow>
     readTransactionSucceeded v (the (tx_hash record)) = Inr True \<and>
     tx_plan record = Some plan \<and> tx_planDigest record = Some (planDigest (dy_sha256 dy) plan) \<and>
     readEscrow v i = Inr facts \<and> \<not> cf_cancelled facts \<and> tx_network record = sp_network plan \<and>
     cf_manager facts = sp_manager plan \<and> cf_financeApprover facts = sp_financeApprover plan \<and>
     sp_manager plan \<noteq> sp_financeApprover plan \<and>
     list_all2 slot_as_planned (sp_rows plan) (cf_payments facts) \<and>
     (case (readTransfers v (sp_assetContractId plan) None, parse_integer (sp_totalBaseUnits plan)) of
        (Inr ts, Some amount) \<Rightarrow> list_ex (\<lambda>t. ot_txHash t = tx_hash record \<and>
          ot_to t = sp_custodyDestination plan \<and> ot_from t = sp_manager plan \<and>
          ot_amountBaseUnits t = amount) ts
      | _ \<Rightarrow> False)"

lemma readStoredPlanD:
  "readStoredPlan sha t = Inr plan \<Longrightarrow> tx_plan t = Some plan \<and> tx_planDigest t = Some (planDigest sha plan)"
  by (auto simp: readStoredPlan_def split: option.splits if_splits)

lemma view_after_no_confirmation: "map_sum id Funding_failed x \<noteq> Inr (Confirmed a esc i)"
  by (cases x) simp_all

lemma confirm_record_source:
  "confirm_record e db ctx record plan facts ps n source amount = (db', Inr (Confirmed a esc i)) \<Longrightarrow> i = n"
  by (auto simp: confirm_record_def Let_def map_sum_def split: option.splits prod.splits sum.splits)

lemma confirm_escrowD:
  assumes "confirm_escrow e dy v db ctx record n source = (db', Inr (Confirmed a esc i))"
  obtains plan facts amount where "i = n" "readStoredPlan (dy_sha256 dy) record = Inr plan" "readEscrow v n = Inr facts"
    "plan_differences record plan facts
       (batch_payments (dy_collate dy) db (tc_orgId ctx) (the (tx_batchId record))) = Some []"
    "parse_integer (sp_totalBaseUnits plan) = Some amount"
    "\<exists>ts. readTransfers v (sp_assetContractId plan) None = Inr ts \<and> custody_transfer record plan amount ts \<noteq> None"
    "confirm_record e db ctx record plan facts
       (batch_payments (dy_collate dy) db (tc_orgId ctx) (the (tx_batchId record))) n source amount =
     (db', Inr (Confirmed a esc i))"
  using assms
  by (auto simp: confirm_escrow_def Let_def split: sum.splits option.splits list.splits if_splits)
    (blast dest: confirm_record_source)

lemma confirm_transactionD:
  assumes "confirm_transaction e dy v db ctx record claimed = (db', Inr (Confirmed a esc i))"
  obtains source where "readTransactionSucceeded v (the (tx_hash record)) = Inr True"
    "resolveEscrowFromTransaction db v (the (tx_hash record))
       (case tx_contractId record of None \<Rightarrow> [] | Some c \<Rightarrow> c) (tx_network record) = Resolved i source"
    "claimed = None \<or> claimed = Some i"
    "confirm_escrow e dy v db ctx record i source = (db', Inr (Confirmed a esc i))"
proof -
  let ?hash = "the (tx_hash record)"
  have ok: "readTransactionSucceeded v ?hash = Inr True"
    using assms view_after_no_confirmation
    by (fastforce simp: confirm_transaction_def Let_def split: sum.splits bool.splits prod.splits)
  then obtain n source where n: "resolveEscrowFromTransaction db v ?hash
      (case tx_contractId record of None \<Rightarrow> [] | Some c \<Rightarrow> c) (tx_network record) = Resolved n source"
    and c: "claimed = None \<or> claimed = Some n"
    and esc: "confirm_escrow e dy v db ctx record n source = (db', Inr (Confirmed a esc i))"
    using assms
    by (auto simp: confirm_transaction_def Let_def split: escrow_resolution.splits if_splits)
  have "i = n" using esc by (rule confirm_escrowD) blast
  then show thesis using that ok n c esc by blast
qed

lemma confirmed_evidence:
  assumes "confirm_transaction e dy v db ctx record claimed = (db', Inr (Confirmed a esc i))"
  obtains plan facts where "funding_evidence dy v record plan i facts"
    "length (batch_payments (dy_collate dy) db (tc_orgId ctx) (the (tx_batchId record))) = length (sp_rows plan)"
    "list_all (payment_as_planned (batch_payments (dy_collate dy) db (tc_orgId ctx) (the (tx_batchId record))))
       (sp_rows plan)"
proof -
  let ?ps = "batch_payments (dy_collate dy) db (tc_orgId ctx) (the (tx_batchId record))"
  obtain source where ok: "readTransactionSucceeded v (the (tx_hash record)) = Inr True"
    and esc: "confirm_escrow e dy v db ctx record i source = (db', Inr (Confirmed a esc i))"
    using assms by (rule confirm_transactionD) blast
  obtain plan facts amount where plan: "readStoredPlan (dy_sha256 dy) record = Inr plan"
    and facts: "readEscrow v i = Inr facts" and diff: "plan_differences record plan facts ?ps = Some []"
    and amount: "parse_integer (sp_totalBaseUnits plan) = Some amount"
    and moved: "\<exists>ts. readTransfers v (sp_assetContractId plan) None = Inr ts \<and> custody_transfer record plan amount ts \<noteq> None"
    using esc by (rule confirm_escrowD) blast
  have "header_differences record plan facts = []" "schedule_differences plan facts = Some []"
    and batch: "batch_differences ?ps plan = Some []"
    using diff unfolding plan_differences_def collect_Nil by simp_all
  then have "funding_evidence dy v record plan i facts"
    using ok readStoredPlanD[OF plan] facts amount moved
    by (auto simp: funding_evidence_def header_differences_Nil schedule_differences_Nil custody_transfer_def
        find_None_iff list_ex_iff)
  then show thesis using that batch_differences_Nil[OF batch] by blast
qed

lemma confirm_transactionI:
  assumes "readTransactionSucceeded v (the (tx_hash record)) = Inr True"
    and "resolveEscrowFromTransaction db v (the (tx_hash record))
      (case tx_contractId record of None \<Rightarrow> [] | Some c \<Rightarrow> c) (tx_network record) = Resolved i source"
    and "claimed = None \<or> claimed = Some i" and "readStoredPlan (dy_sha256 dy) record = Inr plan"
    and "readEscrow v i = Inr facts"
    and "plan_differences record plan facts
      (batch_payments (dy_collate dy) db (tc_orgId ctx) (the (tx_batchId record))) = Some []"
    and "parse_integer (sp_totalBaseUnits plan) = Some amount"
    and "readTransfers v (sp_assetContractId plan) None = Inr ts" "custody_transfer record plan amount ts = Some x"
  shows "confirm_transaction e dy v db ctx record claimed = confirm_record e db ctx record plan facts
      (batch_payments (dy_collate dy) db (tc_orgId ctx) (the (tx_batchId record))) i source amount"
  using assms by (auto simp: confirm_transaction_def confirm_escrow_def Let_def)

lemma confirm_record_new:
  assumes "Some i \<notin> es_onChainId ` set (escrows db)"
    and "link_payments (tc_orgId ctx) (new_id e db) (sp_assetContractId plan) 0 (map pm_id ps) (payments db) = Some rows"
    and "findFirst (\<lambda>t. tx_id t = tx_id record \<and> tx_orgId t = tc_orgId ctx) (transactions db) = Some record"
  shows "snd (confirm_record e db ctx record plan facts ps i source amount) =
    Inr (Confirmed (viewAttempt (record\<lparr>tx_status := CONFIRMED, tx_escrowId := Some (new_id e db),
      tx_confirmedAt := Some (now e), tx_errorMessage := None\<rparr>)) (new_id e db) i)"
proof -
  let ?esc = "funded_escrow e db ctx record plan facts i amount"
  have "findFirst (\<lambda>x. es_orgId x = tc_orgId ctx \<and> es_onChainId x = Some i) (escrows db) = None"
    using assms(1) by (force simp: image_iff)
  then have "ensure_funded_escrow e db ctx record plan facts i amount =
      Some (db\<lparr>escrows := escrows db @ [?esc], serial := Suc (serial db)\<rparr>, new_id e db)"
    using assms(1)
    by (simp add: ensure_funded_escrow_def createUnique_def funded_escrow_def del: findFirst_None_iff)
  moreover have "tx_id record = tx_id record \<and> tx_orgId record = tc_orgId ctx"
    using findFirst_SomeD[OF assms(3)] by simp
  ultimately show ?thesis
    using assms(2,3)
    by (simp add: confirm_record_def Let_def view_after_def findFirst_updated del: findFirst_None_iff)
qed

section \<open>Linking the payments\<close>

definition link_of :: "row_id \<Rightarrow> string \<Rightarrow> nat \<Rightarrow> payment_row \<Rightarrow> payment_row" where
  "link_of esc asset k q = q\<lparr>pm_escrowId := Some esc, pm_onChainPaymentIndex := Some (int k),
     pm_assetContractId := Some asset\<rparr>"

text \<open>After the loop the payment with the \<open>k\<close>-th id has slot \<open>i + k\<close>, and the others are untouched.\<close>

lemma link_payments_spec:
  assumes "link_payments o' esc asset i ids rows = Some rows'" and "distinct ids"
  shows "rows' = map (\<lambda>q. if pm_orgId q = o' \<and> pm_id q \<in> set ids
      then link_of esc asset (i + length (takeWhile (\<lambda>x. x \<noteq> pm_id q) ids)) q else q) rows"
  using assms
proof (induction ids arbitrary: i rows)
  case (Cons p ids)
  let ?rows = "map (\<lambda>q. if pm_id q = p \<and> pm_orgId q = o' then link_of esc asset i q else q) rows"
  have rest: "link_payments o' esc asset (Suc i) ids ?rows = Some rows'"
    using Cons.prems(1)
    by (auto simp: link_payment_def Let_def updated_eq link_of_def cong: if_cong split: option.splits if_splits)
  have step: "rows' = map (\<lambda>q. if pm_orgId q = o' \<and> pm_id q \<in> set ids
      then link_of esc asset (Suc i + length (takeWhile (\<lambda>x. x \<noteq> pm_id q) ids)) q else q) ?rows"
    by (rule Cons.IH[OF rest]) (use Cons.prems(2) in simp)
  show ?case
    using Cons.prems(2) unfolding step map_map
    by (intro map_cong) (auto simp: link_of_def)
qed simp

lemma confirm_record_links:
  assumes rec: "confirm_record e db ctx record plan facts ps n source amount = (db', Inr (Confirmed a esc i))"
  shows "\<exists>rows. link_payments (tc_orgId ctx) esc (sp_assetContractId plan) 0 (map pm_id ps) (payments db) = Some rows \<and>
    payments db' = rows"
proof -
  obtain db1 x where esc: "ensure_funded_escrow e db ctx record plan facts n amount = Some (db1, x)"
    using rec by (auto simp: confirm_record_def split: option.splits)
  then obtain rows where link: "link_payments (tc_orgId ctx) x (sp_assetContractId plan) 0 (map pm_id ps) (payments db1) = Some rows"
    using rec by (auto simp: confirm_record_def split: option.splits)
  have "x = esc \<and> payments db' = rows"
    using rec unfolding confirm_record_def esc link option.case prod.case Let_def
    by (auto simp: map_sum_def split: sum.splits)
  then show ?thesis using link ensure_funded_keeps[OF esc] by auto
qed

lemma confirm_record_answer:
  "confirm_record e db ctx record plan facts ps n source amount = (db', Inr answer) \<Longrightarrow>
   \<exists>a esc. answer = Confirmed a esc n"
  by (auto simp: confirm_record_def Let_def map_sum_def split: option.splits prod.splits sum.splits)

text \<open>Rows that keep what the order of a batch reads.\<close>

definition same_place :: "payment_row \<Rightarrow> payment_row \<Rightarrow> bool" where
  "same_place p q \<longleftrightarrow> pm_id q = pm_id p \<and> pm_orgId q = pm_orgId p \<and> pm_batchId q = pm_batchId p \<and>
     pm_createdAt q = pm_createdAt p"

abbreviation rows_of :: "database \<Rightarrow> char list \<Rightarrow> char list \<Rightarrow> payment_row list" where
  "rows_of db o' b \<equiv> filter (\<lambda>p. pm_orgId p = o' \<and> pm_batchId p = b) (payments db)"

lemma same_order:
  assumes "list_all2 same_place (rows_of db0 o' b) (rows_of db o' b)"
  shows "list_all2 same_place (batch_payments collate db0 o' b) (batch_payments collate db o' b)"
  unfolding batch_payments_def using assms
  by (intro js_sort_rel) (auto simp: same_place_def payment_order_def)

lemma same_ids: "list_all2 same_place ps qs \<Longrightarrow> map pm_id qs = map pm_id ps"
  by (induction rule: list_all2_induct) (simp_all add: same_place_def)

lemma batch_payments_in: "p \<in> set (batch_payments collate db o' b) \<Longrightarrow>
    p \<in> set (payments db) \<and> pm_orgId p = o' \<and> pm_batchId p = b"
  by (auto simp: batch_payments_def)

lemma distinct_js_sort: "distinct (map f xs) \<Longrightarrow> distinct (map f (js_sort cmp xs))"
proof (induction xs)
  case (Cons x xs)
  have "distinct (map f (js_insert cmp x ys))" if "distinct (map f ys)" "f x \<notin> f ` set ys" for ys
    using that by (induction ys) auto
  moreover have "set (js_sort cmp xs) = set xs" by simp
  ultimately show ?case using Cons by (simp add: js_sort_def)
qed (simp add: js_sort_def)

lemma distinct_batch:
  "distinct (map pm_id (payments db)) \<Longrightarrow> distinct (map pm_id (batch_payments collate db o' b))"
  unfolding batch_payments_def by (intro distinct_js_sort) (simp add: distinct_map_filter)

lemma takeWhile_nth: "distinct xs \<Longrightarrow> k < length xs \<Longrightarrow> length (takeWhile (\<lambda>x. x \<noteq> xs ! k) xs) = k"
proof (induction xs arbitrary: k)
  case (Cons x xs)
  then show ?case by (cases k) (auto simp: nth_eq_iff_index_eq)
qed simp

lemma open_read_stored:
  assumes "open_read e dy db ctx b ref = Inr (Inr it)"
  shows "\<exists>s. getFundingState dy db ctx b ref = Inr s \<and> fv_plan s = Some (it_plan it) \<and>
    sp_rows (it_stored it) = pl_schedule (it_plan it)"
  using assms by (auto simp: open_read_def Let_def serializePlan_def split: sum.splits option.splits if_splits)

lemma planned_ids:
  assumes "open_read e dy db ctx b ref = Inr (Inr it)"
  shows "map pr_paymentId (sp_rows (it_stored it)) = map pm_id (batch_payments (dy_collate dy) db (tc_orgId ctx) b)"
proof -
  obtain s where s: "getFundingState dy db ctx b ref = Inr s" "fv_plan s = Some (it_plan it)"
    and rows: "sp_rows (it_stored it) = pl_schedule (it_plan it)"
    using open_read_stored[OF assms] by blast
  have "funding_plan_for dy (funding_input dy db ctx b) b ref = Inr (Some (it_plan it))"
    using state_plan[OF s(1)] s(2) by simp
  then show ?thesis
    using build_planD(1) unfolding rows funding_plan_for_iff
    by (fastforce simp: funding_input_def schedule_row_def funding_payment_of_def)
qed

text \<open>What an answer other than a confirmation leaves of the payments.\<close>

definition released :: "payment_row \<Rightarrow> payment_row \<Rightarrow> bool" where
  "released p q \<longleftrightarrow> q = p \<or> pm_state p = VALIDATING \<and>
     (\<exists>at' why. q = p\<lparr>pm_state := DRAFT, pm_stateUpdatedAt := at', pm_stateReason := why\<rparr>)"

lemma release_released:
  "list_all2 released (payments db) (payments (release_payments e o' b reason db))"
proof -
  have step: "list_all2 released ps (updated P (back_to_draft e reason) ps)"
    if "\<And>p. P p \<Longrightarrow> pm_state p = VALIDATING" for P ps
    using that by (induction ps) (auto simp: updated_eq released_def back_to_draft_def)
  show ?thesis by (simp add: release_payments_def) (rule step, simp)
qed

lemma end_attempt_keeps [simp]:
  "payments (end_attempt i o' st reason db) = payments db" "escrows (end_attempt i o' st reason db) = escrows db"
  by (simp_all add: end_attempt_def)

lemma released_refl: "list_all2 released ps ps"
  by (simp add: list_all2_refl released_def)

lemma markFailed_releases:
  "markFailed e db ctx record reason = (db', r) \<Longrightarrow>
   list_all2 released (payments db) (payments db') \<and> escrows db' = escrows db"
  using release_released[of "end_attempt (tx_id record) (tc_orgId ctx) FAILED reason db"]
  by (auto simp: markFailed_def Let_def released_refl)

lemma record_mismatch_keeps:
  "payments (record_mismatch e db ctx record i ds) = payments db"
  "escrows (record_mismatch e db ctx record i ds) = escrows db"
  by (simp_all add: record_mismatch_def mismatch_audit_def Let_def)

lemma confirm_escrow_answer:
  "confirm_escrow e dy v db ctx t n source = (db', Inr answer) \<Longrightarrow>
   (\<exists>a esc. answer = Confirmed a esc n) \<or> escrows db' = escrows db \<and> payments db' = payments db"
  by (auto simp: confirm_escrow_def Let_def record_mismatch_keeps
      split: sum.splits option.splits list.splits if_splits dest: confirm_record_answer)

section \<open>Opening an intent twice\<close>

definition validated :: "env \<Rightarrow> row_id \<Rightarrow> row_id set \<Rightarrow> payment_row \<Rightarrow> payment_row" where
  "validated e o' ids p = (if pm_id p \<in> ids \<and> pm_orgId p = o' \<and> pm_state p = DRAFT then set_validating e p else p)"

lemma set_validating_fields [simp]:
  "pm_id (set_validating e p) = pm_id p" "pm_orgId (set_validating e p) = pm_orgId p"
  "pm_batchId (set_validating e p) = pm_batchId p" "pm_createdAt (set_validating e p) = pm_createdAt p"
  "pm_state (set_validating e p) = VALIDATING"
  by (simp_all add: set_validating_def)

lemma validate_rows_eq:
  "validate_rows e o' sched rows = map (validated e o' (pr_paymentId ` set sched)) rows"
proof -
  have "fold (\<lambda>r. updated (\<lambda>p. pm_id p = pr_paymentId r \<and> pm_orgId p = o' \<and> pm_state p = DRAFT)
      (set_validating e)) sched rows = map (validated e o' (pr_paymentId ` set sched)) rows"
  proof (induction sched arbitrary: rows)
    case Nil
    show ?case by (simp add: validated_def map_idI)
  next
    case (Cons r sched)
    show ?case
      by (simp only: fold_Cons o_apply Cons.IH) (auto simp: updated_eq validated_def)
  qed
  then show ?thesis by (simp add: validate_rows_def)
qed

lemma batch_payments_validated:
  assumes "payments db' = map (validated e o' ids) (payments db)"
  shows "batch_payments collate db' o'' b = map (validated e o' ids) (batch_payments collate db o'' b)"
proof -
  let ?P = "\<lambda>p. pm_orgId p = o'' \<and> pm_batchId p = b"
  have "filter ?P (payments db') = map (validated e o' ids) (filter ?P (payments db))"
    by (simp add: assms filter_map comp_def validated_def cong: filter_cong)
      (metis (no_types, lifting) set_validating_fields(2,3))
  then have "list_all2 (\<lambda>p q. q = validated e o' ids p) (batch_payments collate db o'' b) (batch_payments collate db' o'' b)"
    unfolding batch_payments_def
    by (intro js_sort_rel) (auto simp: payment_order_def validated_def list_all2_conv_all_nth)
  then show ?thesis by (induction rule: list_all2_induct) simp_all
qed

lemma latest_after_open:
  assumes "transactions db' = transactions db @ [t]" and "tx_orgId t = o'" "tx_batchId t = Some b" "tx_kind t = INITIALIZE_ESCROW"
    and "case latestAttempt db o' b of None \<Rightarrow> True | Some u \<Rightarrow> tx_attempt u < tx_attempt t"
  shows "latestAttempt db' o' b = Some t"
proof -
  have A: "batch_attempts db' o' b = batch_attempts db o' b @ [t]" using assms(1-4) by (simp add: batch_attempts_def)
  have less: "tx_attempt u < tx_attempt t" if "u \<in> set (batch_attempts db o' b)" for u
  proof (cases "latestAttempt db o' b")
    case None
    then have "batch_attempts db o' b = []" by (simp only: latest_None)
    then show ?thesis using that by simp
  next
    case (Some w)
    then show ?thesis using assms(5) latest_SomeD(2)[OF Some that] by simp
  qed
  obtain w where w: "latestAttempt db' o' b = Some w" using A latest_None[of db' o' b] by fastforce
  then have "tx_attempt t \<le> tx_attempt w" "w \<in> set (batch_attempts db o' b @ [t])"
    using latest_SomeD[OF w] A by auto
  then show ?thesis using w less by fastforce
qed

lemma open_createdD:
  assumes "openFundingIntent e dy db ctx b ref = (db', Inr r)" and "or_created r"
  obtains it where "open_read e dy db ctx b ref = Inr (Inr it)"
    "transactions db' = transactions db @ [new_attempt e db ctx b it]"
    "payments db' = map (validated e (tc_orgId ctx) (pr_paymentId ` set (pl_schedule (it_plan it)))) (payments db)"
    "users db' = users db" "members db' = members db" "escrows db' = escrows db"
    "or_plan r = it_plan it" "or_attempt r = viewAttempt (new_attempt e db ctx b it)"
  using assms
  by (auto simp: openFundingIntent_def open_read_def open_commit_def Let_def createUnique_def validate_rows_eq
      split: sum.splits option.splits if_splits)

lemma approver_same:
  assumes "users db' = users db" and "members db' = members db"
  shows "selectFinanceApprover db' = selectFinanceApprover db"
proof -
  have "wallet_of db' = wallet_of db" by (rule ext) (simp add: wallet_of_def assms)
  then show ?thesis by (intro ext) (simp only: selectFinanceApprover_def assms)
qed

text \<open>Attempts that change neither number nor batch: the latest is the same row, changed.\<close>

lemma latest_mapped:
  assumes "transactions db' = map g (transactions db)"
    and "\<And>t. tx_orgId (g t) = tx_orgId t \<and> tx_batchId (g t) = tx_batchId t \<and> tx_kind (g t) = tx_kind t \<and>
      tx_attempt (g t) = tx_attempt t"
  shows "latestAttempt db' o' b = map_option g (latestAttempt db o' b)"
proof -
  let ?cmp = "\<lambda>a b. int (tx_attempt b) - int (tx_attempt a)"
  have "batch_attempts db' o' b = map g (batch_attempts db o' b)"
    by (simp add: batch_attempts_def assms filter_map comp_def)
  then have "list_all2 (\<lambda>t u. u = g t) (js_sort ?cmp (batch_attempts db o' b)) (js_sort ?cmp (batch_attempts db' o' b))"
    by (intro js_sort_rel) (auto simp: assms(2) list_all2_conv_all_nth)
  then have "js_sort ?cmp (batch_attempts db' o' b) = map g (js_sort ?cmp (batch_attempts db o' b))"
    by (induction rule: list_all2_induct) simp_all
  then show ?thesis by (simp add: latestAttempt_def split: list.split)
qed

section \<open>A payroll to fund\<close>

fun compare_codes :: "string \<Rightarrow> string \<Rightarrow> int" where
  "compare_codes [] [] = 0"
| "compare_codes [] (y # ys) = -1"
| "compare_codes (x # xs) [] = 1"
| "compare_codes (x # xs) (y # ys) =
     (if x = y then compare_codes xs ys else int (code_unit x) - int (code_unit y))"

definition sample_deployment :: deployment where
  "sample_deployment = \<lparr>dy_network = ''testnet'', dy_contractId = ''C'',
     dy_asset = \<lparr>sa_code = ''USDC'', sa_contractId = Some ''T'', sa_decimals = 7\<rparr>,
     dy_oraclePublicKey = Some ''K'', dy_sha256 = id, dy_collate = compare_codes\<rparr>"

definition sample_wage :: "row_id \<Rightarrow> address \<Rightarrow> int \<Rightarrow> payment_row" where
  "sample_wage i recipient hours = sample_payment\<lparr>pm_id := i, pm_escrowId := None,
     pm_onChainPaymentIndex := None, pm_recipientAddress := recipient, pm_hours := hours,
     pm_amountBaseUnits := hours * 10, pm_periodStart := Some 0, pm_periodEnd := Some 86400000,
     pm_state := DRAFT\<rparr>"

definition sample_member :: "row_id \<Rightarrow> org_role \<Rightarrow> member_row" where
  "sample_member u r = \<lparr>mb_id = ''m-'' @ u, mb_orgId = ''o1'', mb_userId = u, mb_role = r, mb_status = ACTIVE,
     mb_invitedAt = None, mb_activatedAt = None, mb_suspendedAt = None, mb_createdAt = 0\<rparr>"

definition sample_team :: database where
  "sample_team = empty_db\<lparr>
     users := [\<lparr>us_id = ''u1'', us_walletAddress = ''GM''\<rparr>, \<lparr>us_id = ''u2'', us_walletAddress = ''GF''\<rparr>,
       \<lparr>us_id = ''u3'', us_walletAddress = ''GA''\<rparr>],
     members := [sample_member ''u1'' MANAGER, sample_member ''u2'' FINANCE, sample_member ''u3'' ADMIN],
     payments := [sample_wage ''p2'' ''GX'' 5, sample_wage ''p1'' ''GW'' 10]\<rparr>"

definition sample_signer :: "row_id \<Rightarrow> address \<Rightarrow> org_role \<Rightarrow> tenant_context" where
  "sample_signer u wallet r = \<lparr>tc_orgId = ''o1'', tc_orgName = ''Org'', tc_orgSlug = ''org'',
     tc_userId = u, tc_walletAddress = wallet, tc_role = r\<rparr>"

definition sample_manager :: tenant_context where
  "sample_manager = sample_signer ''u1'' ''GM'' MANAGER"

definition sample_plan :: funding_plan where
  "sample_plan = \<lparr>pl_batchId = ''b1'', pl_reference = ''REF'', pl_paymentCount = 2,
     pl_total = formatAmountWithSeparators 150 7 default_opts, pl_totalBaseUnits = show_int 150,
     pl_assetCode = ''USDC'', pl_assetContractId = ''T'', pl_assetDecimals = 7,
     pl_networkId = ''testnet'', pl_networkLabel = ''Stellar Testnet'', pl_isMainnet = False,
     pl_contractId = ''C'', pl_custodyDestination = ''C'', pl_manager = ''GM'',
     pl_financeApprover = ''GF'', pl_oraclePublicKey = ''K'',
     pl_schedule = map (schedule_row ''T'' \<circ> funding_payment_of)
       [sample_wage ''p1'' ''GW'' 10, sample_wage ''p2'' ''GX'' 5]\<rparr>"

definition sample_intent :: intent where
  "sample_intent = \<lparr>it_attempt = 1, it_key = fundingIdempotencyKey ''b1'' 1, it_plan = sample_plan,
     it_stored = serializePlan sample_plan ''o1'' None 10,
     it_digest = planDigest id (serializePlan sample_plan ''o1'' None 10), it_totalBaseUnits = show_int 150\<rparr>"

lemma sample_payments:
  "batch_payments compare_codes sample_team ''o1'' ''b1'' = [sample_wage ''p1'' ''GW'' 10, sample_wage ''p2'' ''GX'' 5]"
  by code_simp

lemma sample_approver: "selectFinanceApprover sample_team ''o1'' ''GM'' = Some ''GF''"
  by code_simp

lemma sample_fundable: "fundable_batch (funding_input sample_deployment sample_team sample_manager ''b1'')"
  unfolding planReady_iff[symmetric] by code_simp

lemma sample_plan_for:
  "funding_plan_for sample_deployment (funding_input sample_deployment sample_team sample_manager ''b1'') ''b1'' ''REF''
   = Inr (Some sample_plan)"
  unfolding funding_plan_for_iff
  by (simp add: sample_fundable)
    (simp add: funding_input_def sample_payments sample_approver sample_deployment_def sample_manager_def
      sample_signer_def buildFundingPlan_def requireContractId_def networkLabel_def isMainnet_def sample_plan_def
      funding_payment_of_def sample_wage_def)

lemma sample_read:
  "open_read sample_clock sample_deployment sample_team sample_manager ''b1'' ''REF'' = Inr (Inr sample_intent)"
proof -
  let ?inp = "funding_input sample_deployment sample_team sample_manager ''b1''"
  have none: "latestAttempt sample_team ''o1'' ''b1'' = None" "projectIdForBatch sample_team ''o1'' ''b1'' = None"
    by code_simp+
  have amounts: "fs_totalBaseUnits (assessFundingEligibility ?inp) = 150"
    "fs_eligible (assessFundingEligibility ?inp)" by code_simp+
  have "tc_orgId sample_manager = ''o1''" "dy_sha256 sample_deployment = id" "now sample_clock = 10"
    by (simp_all add: sample_manager_def sample_signer_def sample_deployment_def sample_clock_def)
  then show ?thesis
    by (simp add: open_read_def getFundingState_def Let_def sample_plan_for none amounts sample_intent_def)
qed

definition sample_submitted :: transaction_row where
  "sample_submitted = (new_attempt sample_clock sample_team sample_manager ''b1'' sample_intent)\<lparr>
     tx_status := SUBMITTED, tx_hash := Some ''h''\<rparr>"

definition sample_wages :: "payment_row list" where
  "sample_wages = map (set_validating sample_clock) [sample_wage ''p2'' ''GX'' 5, sample_wage ''p1'' ''GW'' 10]"

definition sample_waiting :: database where
  "sample_waiting = sample_team\<lparr>transactions := [sample_submitted], payments := sample_wages\<rparr>"

definition sample_custody_facts :: chain_escrow_facts where
  "sample_custody_facts = (sample_facts 0)\<lparr>cf_onChainId := 9, cf_manager := ''GM'', cf_financeApprover := ''GF'',
     cf_cancelled := False, cf_payments :=
       [(sample_slot 0)\<lparr>cp_worker := ''GW'', cp_token := ''T'', cp_amountBaseUnits := 100\<rparr>,
        (sample_slot 0)\<lparr>cp_worker := ''GX'', cp_token := ''T'', cp_amountBaseUnits := 50\<rparr>]\<rparr>"

definition sample_deposit :: observed_transfer where
  "sample_deposit = \<lparr>ot_from = ''GM'', ot_to = ''C'', ot_assetContractId = ''T'', ot_amountBaseUnits = 150,
     ot_ledger = 3, ot_txHash = Some ''h''\<rparr>"

definition sample_ledger :: chain_verifier where
  "sample_ledger = \<lparr>readEscrow = (\<lambda>i. if i = 9 then Inr sample_custody_facts else Inl (Not_found ''absent'')),
     readTransfers = (\<lambda>_ _. Inr [sample_deposit]), readTransactionSucceeded = (\<lambda>_. Inr True),
     findEscrowsCreatedByTransaction = (\<lambda>_. Inr [9])\<rparr>"

abbreviation sample_stored :: stored_plan where
  "sample_stored \<equiv> serializePlan sample_plan ''o1'' None 10"

lemma sample_ids: "show_nat 0 = ''0''" "show_nat (Suc 0) = ''1''"
  by code_simp+

lemma sample_submitted_fields:
  "tx_hash sample_submitted = Some ''h''" "tx_plan sample_submitted = Some sample_stored"
  "tx_planDigest sample_submitted = Some (planDigest id sample_stored)" "tx_network sample_submitted = ''testnet''"
  "tx_contractId sample_submitted = Some ''C''" "tx_batchId sample_submitted = Some ''b1''"
  "tx_orgId sample_submitted = ''o1''" "tx_kind sample_submitted = INITIALIZE_ESCROW"
  "tx_status sample_submitted = SUBMITTED" "tx_id sample_submitted = ''c0''" "tx_attempt sample_submitted = 1"
  by (simp_all add: sample_submitted_def new_attempt_def sample_intent_def sample_plan_def sample_manager_def
      sample_signer_def new_id_def sample_clock_def sample_team_def empty_db_def sample_ids)

lemma sample_waiting_fields:
  "transactions sample_waiting = [sample_submitted]" "payments sample_waiting = sample_wages"
  "escrows sample_waiting = []" "chainEvents sample_waiting = []" "batches sample_waiting = []"
  by (simp_all add: sample_waiting_def sample_team_def empty_db_def)

lemma sample_fixed [simp]:
  "dy_sha256 sample_deployment = id" "dy_collate sample_deployment = compare_codes"
  "tc_orgId sample_manager = ''o1''" "tc_walletAddress sample_manager = ''GM''" "now sample_clock = 10"
  by (simp_all add: sample_deployment_def sample_manager_def sample_signer_def sample_clock_def)

lemma sample_batch_waiting: "batch_payments compare_codes sample_waiting ''o1'' ''b1'' = rev sample_wages"
proof -
  have "batch_payments compare_codes (empty_db\<lparr>payments := sample_wages\<rparr>) ''o1'' ''b1'' = rev sample_wages" by code_simp
  then show ?thesis by (simp add: batch_payments_def sample_waiting_fields)
qed

lemma sample_rows: "sp_rows sample_stored =
    [\<lparr>pr_paymentId = ''p1'', pr_worker = ''GW'', pr_token = ''T'', pr_amountBaseUnits = show_int 100,
       pr_rateBaseUnits = show_int 10, pr_startDate = 0, pr_endDate = 86400\<rparr>,
     \<lparr>pr_paymentId = ''p2'', pr_worker = ''GX'', pr_token = ''T'', pr_amountBaseUnits = show_int 50,
       pr_rateBaseUnits = show_int 10, pr_startDate = 0, pr_endDate = 86400\<rparr>]"
  by (simp add: serializePlan_def sample_plan_def schedule_row_def funding_payment_of_def sample_wage_def
      sample_payment_def unixSeconds_def)

lemma sample_agrees: "plan_differences sample_submitted sample_stored sample_custody_facts (rev sample_wages) = Some []"
proof -
  have "header_differences sample_submitted sample_stored sample_custody_facts = []"
    by (simp add: header_differences_Nil sample_submitted_fields sample_custody_facts_def serializePlan_def
        sample_plan_def)
  moreover have "schedule_differences sample_stored sample_custody_facts = Some []"
    by (simp add: schedule_differences_Nil slot_as_planned_def sample_rows sample_custody_facts_def parse_show_int)
  moreover have "batch_differences (rev sample_wages) sample_stored = Some []"
    by (simp add: batch_differences_def row_differences_def sample_rows sample_wages_def set_validating_def
        sample_wage_def sample_payment_def parse_show_int)
  ultimately show ?thesis unfolding plan_differences_def by simp
qed

lemma sample_plan_read: "readStoredPlan id sample_submitted = Inr sample_stored"
proof -
  have "truthy (Some (planDigest id sample_stored))" by (simp add: planDigest_def canonical_plan_def)
  then show ?thesis by (simp add: readStoredPlan_def sample_submitted_fields)
qed

lemma sample_confirms:
  "confirm_transaction e sample_deployment sample_ledger sample_waiting sample_manager sample_submitted None =
   confirm_record e sample_waiting sample_manager sample_submitted sample_stored sample_custody_facts
     (rev sample_wages) 9 Chain_event 150"
proof -
  have "indexed_escrows sample_waiting ''h'' ''C'' ''testnet'' = []"
    by (simp add: indexed_escrows_def sample_waiting_fields)
  moreover have "parse_integer (sp_totalBaseUnits sample_stored) = Some 150"
    by (simp add: serializePlan_def sample_plan_def parse_show_int)
  moreover have "custody_transfer sample_submitted sample_stored 150 [sample_deposit] = Some sample_deposit"
    by (simp add: custody_transfer_def sample_submitted_fields sample_deposit_def serializePlan_def sample_plan_def)
  ultimately show ?thesis
    using confirm_transactionI[of sample_ledger sample_submitted sample_waiting 9 Chain_event None
        sample_deployment sample_stored sample_custody_facts sample_manager 150 "[sample_deposit]" sample_deposit e]
    by (simp add: sample_submitted_fields sample_batch_waiting sample_agrees sample_plan_read
        sample_ledger_def resolveEscrowFromTransaction_def)
qed

definition sample_funded :: "env \<Rightarrow> database" where
  "sample_funded e = fst (confirm_transaction e sample_deployment sample_ledger sample_waiting sample_manager
     sample_submitted None)"

lemma sample_confirmed:
  "confirm_transaction e sample_deployment sample_ledger sample_waiting sample_manager sample_submitted None =
   (sample_funded e, Inr (Confirmed (viewAttempt (sample_submitted\<lparr>tx_status := CONFIRMED,
      tx_escrowId := Some (cuid e (serial sample_waiting)), tx_confirmedAt := Some (now e),
      tx_errorMessage := None\<rparr>)) (cuid e (serial sample_waiting)) 9))"
proof -
  let ?esc = "cuid e (serial sample_waiting)"
  have ids: "map pm_id (rev sample_wages) = [''p1'', ''p2'']"
    by (simp add: sample_wages_def set_validating_def sample_wage_def)
  have "\<exists>rows. link_payments ''o1'' ?esc ''T'' 0 [''p1'', ''p2''] sample_wages = Some rows"
    by (simp add: link_payment_def updated_eq sample_wages_def set_validating_def sample_wage_def sample_payment_def)
  then obtain rows where "link_payments ''o1'' ?esc ''T'' 0 [''p1'', ''p2''] sample_wages = Some rows" ..
  moreover have "sp_assetContractId sample_stored = ''T''" by (simp add: serializePlan_def sample_plan_def)
  ultimately show ?thesis
    using confirm_record_new[of 9 sample_waiting sample_manager e sample_stored "rev sample_wages" rows
        sample_submitted sample_custody_facts Chain_event 150] ids
    by (simp add: sample_funded_def prod_eq_iff sample_confirms new_id_def sample_waiting_fields
        sample_submitted_fields findFirst_Cons del: rev_map map_map)
qed

lemma sample_confirmation:
  "confirmFunding e sample_deployment sample_ledger sample_waiting sample_manager ''c0'' None ''b1'' =
   (sample_funded e, Inr (Confirmed (viewAttempt (sample_submitted\<lparr>tx_status := CONFIRMED,
      tx_escrowId := Some (cuid e (serial sample_waiting)), tx_confirmedAt := Some (now e),
      tx_errorMessage := None\<rparr>)) (cuid e (serial sample_waiting)) 9))"
  by (simp add: confirmFunding_def sample_waiting_fields findFirst_Cons sample_submitted_fields
      confirmed_before_def sample_confirmed)

text \<open>While the attempt is in flight the batch keeps its plan, for a member with another wallet too.\<close>

lemma sample_waiting_members: "users sample_waiting = users sample_team" "members sample_waiting = members sample_team"
  by (simp_all add: sample_waiting_def)

lemma sample_latest: "latestAttempt sample_waiting ''o1'' ''b1'' = Some sample_submitted"
  by (simp add: latestAttempt_def batch_attempts_def sample_waiting_fields sample_submitted_fields js_sort_def)

lemma sample_waiting_state:
  "\<exists>s. getFundingState sample_deployment sample_waiting sample_manager ''b1'' ''REF'' = Inr s \<and>
     fv_plan s = Some sample_plan"
proof -
  have "funding_plan_for sample_deployment (funding_input sample_deployment sample_waiting sample_manager ''b1'')
      ''b1'' ''REF'' = Inr (Some sample_plan)"
  proof (rule plan_for_waiting[OF sample_plan_for])
    have "\<exists>st. funding_payment_of (set_validating sample_clock p) = (funding_payment_of p)\<lparr>fp_state := st\<rparr> \<and>
        (st = DRAFT \<or> st = VALIDATING)" for p
      by (intro exI[of _ VALIDATING]) (simp add: funding_payment_of_def set_validating_def)
    then show "list_all2 (\<lambda>p q. \<exists>st. q = p\<lparr>fp_state := st\<rparr> \<and> (st = DRAFT \<or> st = VALIDATING))
        (ei_payments (funding_input sample_deployment sample_team sample_manager ''b1''))
        (ei_payments (funding_input sample_deployment sample_waiting sample_manager ''b1''))"
      by (simp add: funding_input_def sample_payments sample_batch_waiting sample_wages_def)
  qed (simp_all add: funding_input_def approver_same[OF sample_waiting_members] sample_latest attempt_input_def
      sample_submitted_fields)
  then show ?thesis by (simp add: getFundingState_def Let_def)
qed

section \<open>Properties\<close>

text \<open>
  C5: A batch has at most one funding intent open. Take any number of requests that prepare an
  intent, open it, record its submission, abandon it or confirm it, of any members and on any
  batches, interleaved between their reads and their transactions in any way, and abandoning or
  confirming on rows read at any time before. A batch that started without an attempt has at most
  one attempt in flight, its attempts are numbered from 1 without a gap, and each carries the
  idempotency key of its number.
\<close>

theorem one_open_intent_per_batch:
  assumes "funding_step\<^sup>*\<^sup>* (db0, []) (db, fl)" and "batch_attempts db0 o' b = []"
  shows "let A = batch_attempts db o' b in
    length (filter in_flight A) \<le> 1 \<and> map tx_attempt A = [1..<Suc (length A)] \<and>
    map tx_idempotencyKey A = map (fundingIdempotencyKey b) [1..<Suc (length A)]"
proof -
  have "funding_sound o' b (db0, [])" using assms(2) by (simp add: funding_sound_def well_numbered_def)
  then have "funding_sound o' b (db, fl)" by (rule funding_reachable_sound[OF assms(1)])
  then have w: "well_numbered b (batch_attempts db o' b)" by (simp add: funding_sound_def)
  then show ?thesis using one_in_flight[OF w] by (simp add: well_numbered_def Let_def)
qed

lemma sample_claims:
  assumes "open_commit e1 sample_team sample_manager ''b1'' sample_intent = (db1, r1)"
    and "open_commit e2 db1 sample_manager ''b1'' sample_intent = (db2, r2)"
  shows "batch_attempts db2 ''o1'' ''b1'' = [new_attempt e1 sample_team sample_manager ''b1'' sample_intent]"
proof -
  let ?t = "new_attempt e1 sample_team sample_manager ''b1'' sample_intent"
  have none: "transactions sample_team = []" by (simp add: sample_team_def empty_db_def)
  have "transactions db1 = [?t]"
    using assms(1) by (auto simp: open_commit_def Let_def none createUnique_def)
  moreover from this have "transactions db2 = [?t]"
    using assms(2) by (auto simp: open_commit_def Let_def createUnique_def new_attempt_def)
  ultimately show ?thesis
    by (simp add: batch_attempts_def new_attempt_def sample_manager_def sample_signer_def)
qed

theorem one_open_intent_per_batch_witness:
  "\<exists>db. funding_step\<^sup>*\<^sup>* (sample_team, []) (db, []) \<and>
     map tx_attempt (batch_attempts db ''o1'' ''b1'') = [1] \<and>
     length (filter in_flight (batch_attempts db ''o1'' ''b1'')) = 1"
proof -
  let ?q = "(sample_manager, ''b1'', sample_intent)"
  obtain db1 r1 where c1: "open_commit sample_clock sample_team sample_manager ''b1'' sample_intent = (db1, r1)"
    by fastforce
  obtain db2 r2 where c2: "open_commit sample_clock db1 sample_manager ''b1'' sample_intent = (db2, r2)"
    by fastforce
  have "funding_step (sample_team, []) (sample_team, [?q])" "funding_step (sample_team, [?q]) (sample_team, [?q, ?q])"
    using step_prepares[OF sample_read] by auto
  moreover have "funding_step (sample_team, [] @ ?q # [?q]) (db1, [] @ [?q])" by (rule step_opens[OF c1])
  moreover have "funding_step (db1, [] @ ?q # []) (db2, [] @ [])" by (rule step_opens[OF c2])
  ultimately have run: "funding_step\<^sup>*\<^sup>* (sample_team, []) (db2, [])" by simp
  have one: "batch_attempts db2 ''o1'' ''b1'' = [new_attempt sample_clock sample_team sample_manager ''b1'' sample_intent]"
    by (rule sample_claims[OF c1 c2])
  have "batch_attempts sample_team ''o1'' ''b1'' = []" by code_simp
  then show ?thesis
    using run one one_open_intent_per_batch[OF run, of "''o1''" "''b1''"]
    by (intro exI[of _ db2]) (simp add: Let_def in_flight_def IN_FLIGHT_def new_attempt_def)
qed

text \<open>
  The plan a member signs pays exactly the batch. When a funding state carries a plan, the batch
  has between 1 and 100 payments; the plan's rows are those payments in their order, each with its
  payee and its exact amount, which is its hours at its rate; the total is the sum of the rows, in
  the same base units; the manager is the wallet of the member who asked; and the finance approver
  is another wallet, of an active member of the organization with a role that may approve.
\<close>

theorem plan_pays_the_batch:
  assumes "getFundingState dy db ctx b ref = Inr s" and "fv_plan s = Some plan"
  shows "let ps = batch_payments (dy_collate dy) db (tc_orgId ctx) b; rows = pl_schedule plan in
    1 \<le> length ps \<and> length ps \<le> 100 \<and> map pr_paymentId rows = map pm_id ps \<and>
    map pr_worker rows = map pm_recipientAddress ps \<and>
    map (parse_integer \<circ> pr_amountBaseUnits) rows = map (\<lambda>p. Some (pm_hours p * pm_rateBaseUnits p)) ps \<and>
    map (\<lambda>p. pm_hours p * pm_rateBaseUnits p) ps = map pm_amountBaseUnits ps \<and>
    parse_integer (pl_totalBaseUnits plan) = Some (sum_list (map pm_amountBaseUnits ps)) \<and>
    pl_manager plan = tc_walletAddress ctx \<and> pl_financeApprover plan \<noteq> pl_manager plan \<and>
    (\<exists>m \<in> set (members db). mb_orgId m = tc_orgId ctx \<and> mb_status m = ACTIVE \<and>
       mb_role m \<in> {FINANCE, OWNER, ADMIN} \<and> wallet_of db m = Some (pl_financeApprover plan))"
proof -
  let ?inp = "funding_input dy db ctx b" and ?ps = "batch_payments (dy_collate dy) db (tc_orgId ctx) b"
  have plan: "funding_plan_for dy ?inp b ref = Inr (Some plan)" using state_plan[OF assms(1)] assms(2) by simp
  have inp: "ei_payments ?inp = map funding_payment_of ?ps" "ei_walletAddress ?inp = tc_walletAddress ctx"
    "ei_financeApproverAddress ?inp = selectFinanceApprover db (tc_orgId ctx) (tc_walletAddress ctx)"
    by (simp_all add: funding_input_def)
  have ok: "fundable (?inp\<lparr>ei_attempt := None\<rparr>)"
    using plan by (simp add: funding_plan_for_iff fundable_batch_def)
  obtain token where build: "buildFundingPlan dy b ref (map funding_payment_of ?ps) token (tc_walletAddress ctx)
      (the (selectFinanceApprover db (tc_orgId ctx) (tc_walletAddress ctx))) (the (ei_oraclePublicKey ?inp))
      (sum_list (map fp_amountBaseUnits (map funding_payment_of ?ps))) = Inr plan"
    using plan unfolding funding_plan_for_iff inp by blast
  obtain a where a: "selectFinanceApprover db (tc_orgId ctx) (tc_walletAddress ctx) = Some a"
    using ok by (auto simp: fundable_def inp)
  have worth: "\<forall>p \<in> set ?ps. pm_amountBaseUnits p = pm_hours p * pm_rateBaseUnits p"
    using ok by (auto simp: fundable_def inp list_all_iff fundable_payment_def funding_payment_of_def)
  have size: "1 \<le> length ?ps" "length ?ps \<le> 100" using ok by (simp_all add: fundable_def inp)
  have "map fp_amountBaseUnits (map funding_payment_of ?ps) = map pm_amountBaseUnits ?ps"
    by (simp add: funding_payment_of_def)
  note rows = build_planD[OF build[unfolded this]]
  have fields: "map (pr_paymentId \<circ> (schedule_row token \<circ> funding_payment_of)) ?ps = map pm_id ?ps"
    "map (pr_worker \<circ> (schedule_row token \<circ> funding_payment_of)) ?ps = map pm_recipientAddress ?ps"
    "map (parse_integer \<circ> (pr_amountBaseUnits \<circ> (schedule_row token \<circ> funding_payment_of))) ?ps =
     map (\<lambda>p. Some (pm_hours p * pm_rateBaseUnits p)) ?ps"
    using worth by (simp_all add: schedule_row_def funding_payment_of_def parse_show_int)
  have "map (\<lambda>p. pm_hours p * pm_rateBaseUnits p) ?ps = map pm_amountBaseUnits ?ps" using worth by simp
  then show ?thesis
    using size approver_member[OF a] fields a by (simp add: Let_def rows(1-4) parse_show_int comp_assoc)
qed

lemma sample_state:
  "\<exists>s. getFundingState sample_deployment sample_team sample_manager ''b1'' ''REF'' = Inr s \<and> fv_plan s = Some sample_plan"
  by (simp add: getFundingState_def Let_def sample_plan_for)

theorem plan_pays_the_batch_witness:
  "\<exists>s. getFundingState sample_deployment sample_team sample_manager ''b1'' ''REF'' = Inr s \<and>
     fv_plan s = Some sample_plan \<and> map pr_paymentId (pl_schedule sample_plan) = [''p1'', ''p2''] \<and>
     parse_integer (pl_totalBaseUnits sample_plan) = Some 150"
proof -
  obtain s where s: "getFundingState sample_deployment sample_team sample_manager ''b1'' ''REF'' = Inr s"
    "fv_plan s = Some sample_plan" using sample_state by blast
  have "tc_orgId sample_manager = ''o1''" "dy_collate sample_deployment = compare_codes"
    by (simp_all add: sample_manager_def sample_signer_def sample_deployment_def)
  then have ps: "batch_payments (dy_collate sample_deployment) sample_team (tc_orgId sample_manager) ''b1'' =
      [sample_wage ''p1'' ''GW'' 10, sample_wage ''p2'' ''GX'' 5]"
    by (simp add: sample_payments)
  have "map pr_paymentId (pl_schedule sample_plan) = map pm_id [sample_wage ''p1'' ''GW'' 10, sample_wage ''p2'' ''GX'' 5]"
    "parse_integer (pl_totalBaseUnits sample_plan) =
      Some (sum_list (map pm_amountBaseUnits [sample_wage ''p1'' ''GW'' 10, sample_wage ''p2'' ''GX'' 5]))"
    using plan_pays_the_batch[OF s] unfolding Let_def ps by blast+
  then have "map pr_paymentId (pl_schedule sample_plan) = [''p1'', ''p2'']"
    "parse_integer (pl_totalBaseUnits sample_plan) = Some 150"
    by (simp_all add: sample_wage_def)
  then show ?thesis using s by (intro exI[of _ s] conjI)
qed

text \<open>
  C3: Funding is confirmed on evidence of the chain only. When an attempt that was not confirmed
  before is answered as confirmed with an escrow, the network says that the attempt's transaction
  succeeded; that transaction, and not the client, named the escrow, and a client that named another
  was refused; the stored plan still has its digest; the escrow on the chain is not cancelled, has
  the plan's two distinct signers and holds in every slot the payee, asset and amount of the plan's
  row; the whole amount was seen moving from the manager into custody in that transaction; and every
  row of the plan is still the payment of the batch, and there are no others.
\<close>

theorem funding_confirmed_on_evidence:
  assumes "confirmFunding e dy v db ctx attemptId claimed b = (db', Inr (Confirmed a esc i))"
    and "\<And>t. t \<in> set (transactions db) \<Longrightarrow> tx_id t = attemptId \<Longrightarrow> tx_status t \<noteq> CONFIRMED"
  shows "\<exists>record \<in> set (transactions db). \<exists>plan facts source. tx_id record = attemptId \<and>
    tx_orgId record = tc_orgId ctx \<and> tx_batchId record = Some b \<and> (claimed = None \<or> claimed = Some i) \<and>
    resolveEscrowFromTransaction db v (the (tx_hash record))
      (case tx_contractId record of None \<Rightarrow> [] | Some c \<Rightarrow> c) (tx_network record) = Resolved i source \<and>
    funding_evidence dy v record plan i facts \<and>
    (let ps = batch_payments (dy_collate dy) db (tc_orgId ctx) b in
       length ps = length (sp_rows plan) \<and> list_all (payment_as_planned ps) (sp_rows plan))"
proof -
  obtain t where found: "t \<in> set (transactions db)" "tx_id t = attemptId"
      "tx_orgId t = tc_orgId ctx" "tx_batchId t = Some b"
    and run: "confirm_transaction e dy v db ctx t claimed = (db', Inr (Confirmed a esc i))"
    using assms by (auto simp: confirmFunding_def confirmed_before_def dest!: findFirst_SomeD
        split: option.splits if_splits simp del: findFirst_None_iff)
  obtain source where "resolveEscrowFromTransaction db v (the (tx_hash t))
      (case tx_contractId t of None \<Rightarrow> [] | Some c \<Rightarrow> c) (tx_network t) = Resolved i source"
    "claimed = None \<or> claimed = Some i"
    using run by (rule confirm_transactionD) blast
  moreover obtain plan facts where "funding_evidence dy v t plan i facts"
    "length (batch_payments (dy_collate dy) db (tc_orgId ctx) b) = length (sp_rows plan)"
    "list_all (payment_as_planned (batch_payments (dy_collate dy) db (tc_orgId ctx) b)) (sp_rows plan)"
    using confirmed_evidence[OF run] found(4) by auto
  ultimately show ?thesis using found unfolding Let_def by blast
qed

theorem funding_confirmed_on_evidence_witness:
  "\<exists>a esc record plan facts. confirmFunding sample_clock sample_deployment sample_ledger sample_waiting sample_manager
       ''c0'' None ''b1'' = (sample_funded sample_clock, Inr (Confirmed a esc 9)) \<and>
     record \<in> set (transactions sample_waiting) \<and>
     funding_evidence sample_deployment sample_ledger record plan 9 facts"
  using funding_confirmed_on_evidence[OF sample_confirmation[of sample_clock]] sample_confirmation[of sample_clock]
  by (simp add: sample_waiting_fields sample_submitted_fields) blast

text \<open>The slot of a payment that the plan, the batch and the chain agree on.\<close>

lemma linked_slot:
  fixes ctx :: tenant_context
  defines "ps \<equiv> \<lambda>collate db b. batch_payments collate db (tc_orgId ctx) b"
  assumes link: "link_payments (tc_orgId ctx) esc asset 0 (map pm_id (ps collate db b)) (payments db) = Some rows"
    and distinct: "distinct (map pm_id (ps collate db b))"
    and batch: "length (ps collate db b) = length plan" "list_all (payment_as_planned (ps collate db b)) plan"
    and slots: "list_all2 slot_as_planned plan cps"
    and planned: "map pr_paymentId plan = map pm_id (ps collate db b)"
  shows "\<forall>k < length cps. \<exists>p \<in> set rows. pm_orgId p = tc_orgId ctx \<and> pm_batchId p = b \<and>
      pm_escrowId p = Some esc \<and> pm_onChainPaymentIndex p = Some (int k) \<and>
      pm_recipientAddress p = cp_worker (cps ! k) \<and> pm_amountBaseUnits p = cp_amountBaseUnits (cps ! k)"
proof (intro allI impI)
  fix k assume "k < length cps"
  let ?ps = "ps collate db b" and ?p = "ps collate db b ! k" and ?row = "plan ! k"
  note spec = link_payments_spec[OF link distinct]
  have k: "k < length ?ps" "k < length plan"
    using \<open>k < length cps\<close> batch(1) list_all2_lengthD[OF slots] by simp_all
  have row: "pr_paymentId ?row = pm_id ?p"
    using planned k by (metis nth_map)
  obtain q where q: "q \<in> set ?ps" "pm_id q = pr_paymentId ?row" "pm_recipientAddress q = pr_worker ?row"
    "parse_integer (pr_amountBaseUnits ?row) = Some (pm_amountBaseUnits q)"
    using batch(2) k(2) by (auto simp: list_all_iff payment_as_planned_def dest!: nth_mem)
  have "q = ?p" using q(1,2) row distinct k(1) by (metis eq_key_imp_eq_value inj_onD distinct_map nth_mem)
  moreover have "slot_as_planned ?row (cps ! k)"
    using slots k(2) by (simp add: list_all2_conv_all_nth)
  ultimately have agree: "pm_recipientAddress ?p = cp_worker (cps ! k)"
    "pm_amountBaseUnits ?p = cp_amountBaseUnits (cps ! k)"
    using q by (auto simp: slot_as_planned_def)
  have p: "?p \<in> set (payments db)" "pm_orgId ?p = tc_orgId ctx" "pm_batchId ?p = b"
    using batch_payments_in[OF nth_mem[OF k(1) [unfolded ps_def]]] by (simp_all add: ps_def)
  have "length (takeWhile (\<lambda>x. x \<noteq> pm_id ?p) (map pm_id ?ps)) = k"
    using takeWhile_nth[OF distinct, of k] k(1) by simp
  then have "link_of esc asset k ?p \<in> set rows"
    using p k(1) unfolding spec by (force simp: image_iff)
  then show "\<exists>p \<in> set rows. pm_orgId p = tc_orgId ctx \<and> pm_batchId p = b \<and>
      pm_escrowId p = Some esc \<and> pm_onChainPaymentIndex p = Some (int k) \<and>
      pm_recipientAddress p = cp_worker (cps ! k) \<and> pm_amountBaseUnits p = cp_amountBaseUnits (cps ! k)"
    using p agree by (intro bexI) (auto simp: link_of_def)
qed

text \<open>
  C10: A confirmed escrow is linked slot by slot to the payments it pays. Take an intent opened on one
  database and confirmed on a later one in which the batch still consists of the payments it had
  then: the same ids, in the table's order, and each as old as it was; what these payments hold
  otherwise, and every payment of other batches and organizations, is free. Then for every slot of the escrow on the chain the organization has a payment of that batch with
  the escrow and the slot, and the slot pays this payment's recipient this payment's amount.
\<close>

theorem linked_slots_pay_recorded_payments:
  assumes opened: "open_read e0 dy db0 ctx0 b ref = Inr (Inr it)" and orgs: "tc_orgId ctx0 = tc_orgId ctx"
    and frozen: "tx_plan record = Some (it_stored it)" "tx_batchId record = Some b"
    and same: "list_all2 same_place (rows_of db0 (tc_orgId ctx) b) (rows_of db (tc_orgId ctx) b)"
    and ids: "distinct (map pm_id (payments db))"
    and run: "confirm_transaction e dy v db ctx record claimed = (db', Inr (Confirmed a esc i))"
  shows "\<exists>facts. readEscrow v i = Inr facts \<and> (\<forall>k < length (cf_payments facts). \<exists>p \<in> set (payments db').
    pm_orgId p = tc_orgId ctx \<and> pm_batchId p = b \<and>
    pm_escrowId p = Some esc \<and> pm_onChainPaymentIndex p = Some (int k) \<and>
    pm_recipientAddress p = cp_worker (cf_payments facts ! k) \<and>
    pm_amountBaseUnits p = cp_amountBaseUnits (cf_payments facts ! k))"
proof -
  let ?ps = "batch_payments (dy_collate dy) db (tc_orgId ctx) b"
  obtain source where "confirm_escrow e dy v db ctx record i source = (db', Inr (Confirmed a esc i))"
    using run by (rule confirm_transactionD) blast
  then obtain plan facts amount where plan: "readStoredPlan (dy_sha256 dy) record = Inr plan"
    and facts: "readEscrow v i = Inr facts" and diff: "plan_differences record plan facts ?ps = Some []"
    and rec: "confirm_record e db ctx record plan facts ?ps i source amount = (db', Inr (Confirmed a esc i))"
    using frozen(2) by (rule_tac confirm_escrowD) auto
  have stored: "plan = it_stored it" using readStoredPlanD[OF plan] frozen(1) by simp
  have slots: "list_all2 slot_as_planned (sp_rows plan) (cf_payments facts)"
    and batch: "length ?ps = length (sp_rows plan)" "list_all (payment_as_planned ?ps) (sp_rows plan)"
    using diff batch_differences_Nil
    unfolding plan_differences_def collect_Nil schedule_differences_Nil[symmetric] by auto
  have planned: "map pr_paymentId (sp_rows plan) = map pm_id ?ps"
    using planned_ids[OF opened] same_ids[OF same_order[OF same]] by (simp add: stored orgs)
  have distinct: "distinct (map pm_id ?ps)" by (rule distinct_batch[OF ids])
  obtain rows where link: "link_payments (tc_orgId ctx) esc (sp_assetContractId plan) 0 (map pm_id ?ps) (payments db) = Some rows"
    and out: "payments db' = rows"
    using confirm_record_links[OF rec] by blast
  show ?thesis
    unfolding out using facts linked_slot [OF link distinct batch slots planned] by blast
qed

theorem linked_slots_pay_recorded_payments_witness:
  "\<exists>facts p. readEscrow sample_ledger 9 = Inr facts \<and> p \<in> set (payments (sample_funded sample_clock)) \<and>
     pm_onChainPaymentIndex p = Some 1 \<and> pm_recipientAddress p = cp_worker (cf_payments facts ! 1) \<and>
     cp_worker (cf_payments facts ! 1) = ''GX''"
proof -
  have frozen: "tx_plan sample_submitted = Some (it_stored sample_intent)"
    by (simp add: sample_submitted_fields sample_intent_def)
  have same: "list_all2 same_place (rows_of sample_team (tc_orgId sample_manager) ''b1'')
      (rows_of sample_waiting (tc_orgId sample_manager) ''b1'')"
    by (simp add: sample_waiting_fields sample_team_def sample_wages_def same_place_def set_validating_def sample_wage_def)
  have ids: "distinct (map pm_id (payments sample_waiting))"
    by (simp add: sample_waiting_fields sample_wages_def set_validating_def sample_wage_def)
  have facts: "readEscrow sample_ledger 9 = Inr sample_custody_facts" by (simp add: sample_ledger_def)
  show ?thesis
    using linked_slots_pay_recorded_payments[OF sample_read refl frozen sample_submitted_fields(6) same ids sample_confirmed]
      facts
    by (fastforce simp: sample_custody_facts_def)
qed

text \<open>
  C23: Funding that is not confirmed moves nothing. Whatever else a confirmation answers, no escrow row is written and no payment is linked, settled or changed in payee or amount;
  only an answer that the network reported the transaction as failed changes payments at all, and it
  returns those that waited for their funding to \<open>DRAFT\<close>.
\<close>

theorem unconfirmed_funding_moves_nothing:
  assumes run: "confirmFunding e dy v db ctx attemptId claimed b = (db', Inr answer)"
    and other: "\<And>a esc i. answer \<noteq> Confirmed a esc i"
  shows "escrows db' = escrows db \<and> list_all2 released (payments db) (payments db') \<and>
    (payments db' = payments db \<or> (\<exists>a. answer = Funding_failed a))"
proof -
  have esc: "escrows db' = escrows db \<and> payments db' = payments db"
    if "confirm_escrow e dy v db ctx t n source = (db', Inr answer)" for t n source
    using confirm_escrow_answer[OF that] other by blast
  have "escrows db' = escrows db \<and> list_all2 released (payments db) (payments db') \<and>
      (payments db' = payments db \<or> (\<exists>a. answer = Funding_failed a))"
    if "confirm_transaction e dy v db ctx t claimed = (db', Inr answer)" for t
    using that
    by (auto simp: confirm_transaction_def Let_def released_refl mismatch_audit_def map_sum_def
        split: sum.splits bool.splits escrow_resolution.splits if_splits prod.splits
        dest: esc markFailed_releases)
  then show ?thesis
    using run other by (auto simp: confirmFunding_def split: option.splits if_splits)
qed

theorem unconfirmed_funding_moves_nothing_witness:
  "\<exists>db a. confirmFunding sample_clock sample_deployment sample_ledger sample_waiting sample_manager ''c0'' (Some 8) ''b1'' =
      (db, Inr (Mismatch a [Client_claims 8 ''h'' 9])) \<and> escrows db = [] \<and> payments db = sample_wages"
proof -
  have "indexed_escrows sample_waiting ''h'' ''C'' ''testnet'' = []"
    by (simp add: indexed_escrows_def sample_waiting_fields)
  then have "resolveEscrowFromTransaction sample_waiting sample_ledger ''h'' ''C'' ''testnet'' = Resolved 9 Chain_event"
    by (simp add: resolveEscrowFromTransaction_def sample_ledger_def)
  moreover have "readTransactionSucceeded sample_ledger ''h'' = Inr True" by (simp add: sample_ledger_def)
  ultimately obtain db a where run: "confirmFunding sample_clock sample_deployment sample_ledger sample_waiting sample_manager
      ''c0'' (Some 8) ''b1'' = (db, Inr (Mismatch a [Client_claims 8 ''h'' 9]))"
    by (simp add: confirmFunding_def sample_waiting_fields findFirst_Cons sample_submitted_fields confirmed_before_def
        confirm_transaction_def)
  then show ?thesis
    using unconfirmed_funding_moves_nothing[OF run] by (auto simp: sample_waiting_fields)
qed

text \<open>
  A double click, a refresh and a second tab of one member converge. Once a request of the member
  has opened an intent, every payment of the batch waits for its signature, and any later request of
  that member, at any time and before anything else happens, changes nothing and answers with the
  same attempt and the same plan.
\<close>

theorem double_click_converges:
  assumes run: "openFundingIntent e dy db ctx b ref = (db', Inr r)" and created: "or_created r"
  shows "openFundingIntent e' dy db' ctx b ref = (db', Inr (r\<lparr>or_created := False\<rparr>)) \<and>
    (\<forall>p \<in> set (payments db'). pm_orgId p = tc_orgId ctx \<and> pm_batchId p = b \<longrightarrow> pm_state p = VALIDATING)"
proof -
  obtain it where read: "open_read e dy db ctx b ref = Inr (Inr it)"
    and tx: "transactions db' = transactions db @ [new_attempt e db ctx b it]"
    and pay: "payments db' = map (validated e (tc_orgId ctx) (pr_paymentId ` set (pl_schedule (it_plan it)))) (payments db)"
    and same: "users db' = users db" "members db' = members db" "escrows db' = escrows db"
    and r: "or_plan r = it_plan it" "or_attempt r = viewAttempt (new_attempt e db ctx b it)"
    using open_createdD[OF run created] by blast
  let ?t = "new_attempt e db ctx b it" and ?ids = "pr_paymentId ` set (pl_schedule (it_plan it))"
  let ?inp = "funding_input dy db ctx b" and ?inp' = "funding_input dy db' ctx b"
  let ?ps = "batch_payments (dy_collate dy) db (tc_orgId ctx) b"
  obtain s where s: "getFundingState dy db ctx b ref = Inr s" "fv_plan s = Some (it_plan it)"
    using open_read_stored[OF read] by blast
  have latest: "latestAttempt db' (tc_orgId ctx) b = Some ?t"
    by (rule latest_after_open[OF tx]) (use open_read_intentD(1)[OF read] in \<open>auto simp: new_attempt_def split: option.splits\<close>)
  have plan: "funding_plan_for dy ?inp b ref = Inr (Some (it_plan it))" using state_plan[OF s(1)] s(2) by simp
  have ids: "?ids = pm_id ` set ?ps"
  proof -
    have "map pr_paymentId (pl_schedule (it_plan it)) = map pm_id ?ps"
      using planned_ids[OF read] open_read_stored[OF read] by auto
    then show ?thesis by (metis set_map)
  qed
  have waiting: "pm_state p = DRAFT \<or> pm_state p = VALIDATING" if "p \<in> set ?ps" for p
    using plan that
    by (auto simp: funding_plan_for_iff fundable_batch_def fundable_def funding_input_def list_all_iff
        fundable_payment_def funding_payment_of_def)
  have ps': "batch_payments (dy_collate dy) db' (tc_orgId ctx) b = map (validated e (tc_orgId ctx) ?ids) ?ps"
    by (rule batch_payments_validated[OF pay])
  note approver = approver_same[OF same(1,2)]
  have "funding_plan_for dy ?inp' b ref = Inr (Some (it_plan it))"
  proof (rule plan_for_waiting[OF plan])
    have "\<exists>st. funding_payment_of (validated e (tc_orgId ctx) ?ids p) = (funding_payment_of p)\<lparr>fp_state := st\<rparr> \<and>
        (st = DRAFT \<or> st = VALIDATING)" if "p \<in> set ?ps" for p
      using waiting[OF that]
      by (intro exI[of _ "pm_state (validated e (tc_orgId ctx) ?ids p)"])
        (auto simp: validated_def funding_payment_of_def set_validating_def)
    then show "list_all2 (\<lambda>p q. \<exists>st. q = p\<lparr>fp_state := st\<rparr> \<and> (st = DRAFT \<or> st = VALIDATING))
        (ei_payments ?inp) (ei_payments ?inp')"
      by (auto simp: funding_input_def ps' list_all2_conv_all_nth)
  qed (simp_all add: funding_input_def approver latest attempt_input_def new_attempt_def)
  then have "\<exists>s'. getFundingState dy db' ctx b ref = Inr s' \<and> fv_plan s' = Some (it_plan it) \<and>
      fv_attempt s' = Some (viewAttempt ?t)"
    by (simp add: getFundingState_def Let_def latest)
  moreover have "av_status (viewAttempt ?t) \<in> set IN_FLIGHT" by (simp add: viewAttempt_def new_attempt_def IN_FLIGHT_def)
  ultimately have "openFundingIntent e' dy db' ctx b ref = (db', Inr (r\<lparr>or_created := False\<rparr>))"
    using r by (auto simp: openFundingIntent_def open_read_def intro!: open_result.equality)
  moreover have "pm_state p = VALIDATING" if "p \<in> set (payments db')" "pm_orgId p = tc_orgId ctx" "pm_batchId p = b" for p
  proof -
    have "p \<in> set (batch_payments (dy_collate dy) db' (tc_orgId ctx) b)" using that by (simp add: batch_payments_def)
    then obtain q where "q \<in> set ?ps" "p = validated e (tc_orgId ctx) ?ids q" by (auto simp: ps')
    then show ?thesis using waiting ids batch_payments_in[of q] by (auto simp: validated_def)
  qed
  ultimately show ?thesis by blast
qed

theorem double_click_converges_witness:
  "\<exists>db r. openFundingIntent sample_clock sample_deployment sample_team sample_manager ''b1'' ''REF'' = (db, Inr r) \<and>
     or_created r \<and>
     openFundingIntent sample_clock sample_deployment db sample_manager ''b1'' ''REF'' = (db, Inr (r\<lparr>or_created := False\<rparr>))"
proof -
  have "\<exists>db r. openFundingIntent sample_clock sample_deployment sample_team sample_manager ''b1'' ''REF'' = (db, Inr r) \<and> or_created r"
    by (simp add: openFundingIntent_def sample_read open_commit_def Let_def createUnique_def)
      (simp add: sample_team_def empty_db_def)
  then obtain db r where "openFundingIntent sample_clock sample_deployment sample_team sample_manager ''b1'' ''REF'' = (db, Inr r)"
    "or_created r" by blast
  then show ?thesis using double_click_converges by blast
qed

text \<open>
  The digest of a stored plan covers every term of it. Under a digest without collisions two plans
  have the same digest exactly when they agree on everything but their reference and their time of
  creation; so a plan that is read back has the payees, amounts, asset, signers, network, contract
  and periods that were frozen. The reference and the time, which the schema says are covered too,
  can be altered without being noticed.
\<close>

theorem frozen_plan_untampered:
  assumes "inj sha"
  shows "planDigest sha p = planDigest sha q \<longleftrightarrow>
    q = p\<lparr>sp_reference := sp_reference q, sp_createdAt := sp_createdAt q\<rparr>"
proof -
  have rows: "map canonical_row rs = map canonical_row ss \<longleftrightarrow> rs = ss" for rs ss
    by (rule inj_map_eq_map) (auto simp: inj_def canonical_row_def)
  have project: "(case a of None \<Rightarrow> JNull | Some i \<Rightarrow> JStr i) = (case b of None \<Rightarrow> JNull | Some i \<Rightarrow> JStr i) \<longleftrightarrow> a = b"
    for a b :: "row_id option"
    by (cases a; cases b) simp_all
  have "planDigest sha p = planDigest sha q \<longleftrightarrow> canonical_plan p = canonical_plan q"
    using assms by (simp add: planDigest_def inj_eq json_text_inj)
  also have "\<dots> \<longleftrightarrow> q = p\<lparr>sp_reference := sp_reference q, sp_createdAt := sp_createdAt q\<rparr>"
    by (cases p; cases q) (auto simp: canonical_plan_def rows project)
  finally show ?thesis .
qed

theorem frozen_plan_untampered_witness:
  "planDigest id sample_stored = planDigest id (sample_stored\<lparr>sp_reference := ''X''\<rparr>) \<and>
   planDigest id sample_stored \<noteq> planDigest id (sample_stored\<lparr>sp_manager := ''GX''\<rparr>)"
proof -
  have "sample_stored\<lparr>sp_manager := ''GX''\<rparr> \<noteq>
      sample_stored\<lparr>sp_reference := sp_reference (sample_stored\<lparr>sp_manager := ''GX''\<rparr>),
        sp_createdAt := sp_createdAt (sample_stored\<lparr>sp_manager := ''GX''\<rparr>)\<rparr>"
    by (simp add: serializePlan_def sample_plan_def)
  then show ?thesis
    using frozen_plan_untampered[OF inj_on_id, of sample_stored "sample_stored\<lparr>sp_reference := ''X''\<rparr>"]
      frozen_plan_untampered[OF inj_on_id, of sample_stored "sample_stored\<lparr>sp_manager := ''GX''\<rparr>"]
    by (simp add: serializePlan_def)
qed

section \<open>Behaviour the code does not intend\<close>

lemma findFirst_exists: "r \<in> set t \<Longrightarrow> P r \<Longrightarrow> \<exists>u. findFirst P t = Some u"
  by (induction t) (auto simp: findFirst_Cons)

text \<open>Abandoning an attempt with a hash: the row is marked and nothing else is touched.\<close>

lemma abandon_submitted:
  fixes reason :: string
  assumes latest: "latestAttempt db (tc_orgId ctx) b = Some t" and hash: "tx_hash t = Some h"
    and only: "\<And>u. u \<in> set (transactions db) \<Longrightarrow> tx_id u = tx_id t \<Longrightarrow> u = t"
    and status: "tx_status t = SUBMITTED"
  defines "f \<equiv> \<lambda>u. u\<lparr>tx_status := FAILED, tx_errorMessage := Some (take 500 reason)\<rparr>"
  obtains db1 a where "failFundingIntent e db ctx (tx_id t) reason False b = (db1, Inr a)"
    "transactions db1 = map (\<lambda>u. if tx_id u = tx_id t \<and> tx_orgId u = tc_orgId ctx then f u else u) (transactions db)"
    "payments db1 = payments db" "users db1 = users db" "members db1 = members db"
    "latestAttempt db1 (tc_orgId ctx) b = Some (f t)"
proof -
  let ?o = "tc_orgId ctx"
  let ?P = "\<lambda>u. tx_id u = tx_id t \<and> tx_orgId u = ?o"
  let ?g = "\<lambda>u. if ?P u then f u else u"
  have t: "t \<in> set (transactions db)" "tx_orgId t = ?o" "tx_batchId t = Some b" "tx_kind t = INITIALIZE_ESCROW"
    using latest_SomeD(1)[OF latest] by (auto simp: batch_attempts_def)
  have "\<exists>u. findFirst (\<lambda>u. tx_id u = tx_id t \<and> tx_orgId u = ?o \<and> tx_batchId u = Some b \<and>
      tx_kind u = INITIALIZE_ESCROW) (transactions db) = Some u"
    by (rule findFirst_exists[OF t(1)]) (simp add: t)
  then obtain u where u: "findFirst (\<lambda>u. tx_id u = tx_id t \<and> tx_orgId u = ?o \<and> tx_batchId u = Some b \<and>
      tx_kind u = INITIALIZE_ESCROW) (transactions db) = Some u" by blast
  have "u = t" using findFirst_SomeD[OF u] only by blast
  then have read: "fail_read db ctx (tx_id t) b = Inr t" using u status by (simp add: fail_read_def)
  obtain db1 r where run: "failFundingIntent e db ctx (tx_id t) reason False b = (db1, r)" by fastforce
  then have tx: "transactions db1 = map ?g (transactions db)"
    and same: "payments db1 = payments db" "users db1 = users db" "members db1 = members db"
    and r: "r = view_after db1 ?o (tx_id t)"
    using hash by (auto simp: failFundingIntent_def read fail_commit_def Let_def end_attempt_def updated_eq f_def)
  have "f t \<in> set (transactions db1)" using t by (force simp: tx)
  then have "\<exists>u. findFirst ?P (transactions db1) = Some u"
    by (rule findFirst_exists) (simp add: f_def t)
  then obtain a where "r = Inr a" using r by (auto simp: view_after_def)
  moreover have "latestAttempt db1 ?o b = Some (f t)"
    using latest_mapped[OF tx, of ?o b] latest t(2) by (simp add: f_def)
  ultimately show thesis using that run tx same by blast
qed

text \<open>
  A submitted transaction can be abandoned, and its batch funded again. When the latest attempt
  of a batch has a hash on the network and the batch has a plan, a request that abandons the attempt
  succeeds, although only the chain can tell whether the money moved; it leaves the payments waiting,
  so the next request opens a second attempt with the same plan to sign. If the first transaction
  succeeds, the batch is paid into custody twice.
\<close>

theorem abandoned_submission_fundable_again:
  assumes latest: "latestAttempt db (tc_orgId ctx) b = Some t" and hash: "tx_hash t = Some h"
    and only: "\<And>u. u \<in> set (transactions db) \<Longrightarrow> tx_id u = tx_id t \<Longrightarrow> u = t"
    and status: "tx_status t = SUBMITTED"
    and state: "getFundingState dy db ctx b ref = Inr s" "fv_plan s = Some plan"
    and fresh: "fundingIdempotencyKey b (Suc (tx_attempt t)) \<notin> tx_idempotencyKey ` set (transactions db)"
  shows "let (db1, answer) = failFundingIntent e db ctx (tx_id t) reason False b;
             (db2, r) = openFundingIntent e' dy db1 ctx b ref
    in (\<exists>a. answer = Inr a) \<and> payments db1 = payments db \<and>
       (\<exists>a. r = Inr \<lparr>or_created = True, or_attempt = a, or_plan = plan\<rparr> \<and> av_attempt a = Suc (tx_attempt t)) \<and>
       (\<exists>u \<in> set (batch_attempts db2 (tc_orgId ctx) b). tx_hash u = Some h \<and> tx_status u = FAILED)"
proof -
  let ?o = "tc_orgId ctx" and ?f = "\<lambda>u. u\<lparr>tx_status := FAILED, tx_errorMessage := Some (take 500 reason)\<rparr>"
  obtain db1 a where fail: "failFundingIntent e db ctx (tx_id t) reason False b = (db1, Inr a)"
    and tx: "transactions db1 = map (\<lambda>u. if tx_id u = tx_id t \<and> tx_orgId u = ?o then ?f u else u) (transactions db)"
    and same: "payments db1 = payments db" "users db1 = users db" "members db1 = members db"
    and latest1: "latestAttempt db1 ?o b = Some (?f t)"
    by (rule abandon_submitted[OF latest hash only status])
  let ?inp = "funding_input dy db ctx b" and ?inp1 = "funding_input dy db1 ctx b"
  have plan: "funding_plan_for dy ?inp b ref = Inr (Some plan)" using state_plan[OF state(1)] state(2) by simp
  have inp: "ei_payments ?inp1 = ei_payments ?inp"
    by (simp add: funding_input_def batch_payments_def same)
  have "funding_plan_for dy ?inp1 b ref = Inr (Some plan)"
  proof (rule plan_for_waiting[OF plan])
    have "\<exists>st. p = p\<lparr>fp_state := st\<rparr> \<and> (st = DRAFT \<or> st = VALIDATING)" if "p \<in> set (ei_payments ?inp)" for p
      using plan that
      by (intro exI[of _ "fp_state p"])
        (auto simp: funding_plan_for_iff fundable_batch_def fundable_def list_all_iff fundable_payment_def)
    then show "list_all2 (\<lambda>p q. \<exists>st. q = p\<lparr>fp_state := st\<rparr> \<and> (st = DRAFT \<or> st = VALIDATING))
        (ei_payments ?inp) (ei_payments ?inp1)"
      by (simp add: inp list_all2_same)
  qed (simp_all add: funding_input_def approver_same[OF same(2,3)] latest1 attempt_input_def)
  moreover from this have "fs_eligible (assessFundingEligibility ?inp1)"
    unfolding eligible_iff funding_plan_for_iff fundable_batch_def
    by (simp add: fundable_def) (simp add: funding_input_def latest1 attempt_input_def)
  ultimately obtain it where it: "open_read e' dy db1 ctx b ref = Inr (Inr it)" "it_plan it = plan"
      "it_attempt it = Suc (tx_attempt t)" "it_key it = fundingIdempotencyKey b (Suc (tx_attempt t))"
    by (simp add: open_read_def getFundingState_def Let_def latest1 viewAttempt_def IN_FLIGHT_def)
  have "it_key it \<notin> tx_idempotencyKey ` set (transactions db1)"
    using fresh by (auto simp: it(4) tx image_iff)
  then obtain db2 where db2: "openFundingIntent e' dy db1 ctx b ref =
      (db2, Inr \<lparr>or_created = True, or_attempt = viewAttempt (new_attempt e' db1 ctx b it), or_plan = plan\<rparr>)"
    and tx2: "transactions db2 = transactions db1 @ [new_attempt e' db1 ctx b it]"
    by (simp add: openFundingIntent_def it(1,2) open_commit_def Let_def createUnique_def new_attempt_def)
  have "t \<in> set (batch_attempts db ?o b)" by (rule latest_SomeD(1)[OF latest])
  then have "?f t \<in> set (batch_attempts db2 ?o b)" by (force simp: batch_attempts_def tx2 tx)
  moreover have "tx_hash (?f t) = Some h \<and> tx_status (?f t) = FAILED" using hash by simp
  ultimately have "\<exists>u \<in> set (batch_attempts db2 ?o b). tx_hash u = Some h \<and> tx_status u = FAILED" by blast
  then show ?thesis
    by (simp add: fail db2 same(1) it(3) viewAttempt_def new_attempt_def)
qed

theorem abandoned_submission_fundable_again_witness:
  "let (db1, answer) = failFundingIntent sample_clock sample_waiting sample_manager ''c0'' ''lost'' False ''b1'';
       (db2, r) = openFundingIntent sample_clock sample_deployment db1 sample_manager ''b1'' ''REF''
   in (\<exists>a. r = Inr \<lparr>or_created = True, or_attempt = a, or_plan = sample_plan\<rparr> \<and> av_attempt a = 2) \<and>
      (\<exists>u \<in> set (batch_attempts db2 ''o1'' ''b1''). tx_hash u = Some ''h'' \<and> tx_status u = FAILED)"
proof -
  obtain s where s: "getFundingState sample_deployment sample_waiting sample_manager ''b1'' ''REF'' = Inr s"
    "fv_plan s = Some sample_plan" using sample_waiting_state by blast
  have latest: "latestAttempt sample_waiting (tc_orgId sample_manager) ''b1'' = Some sample_submitted"
    by (simp add: sample_latest)
  have only: "u \<in> set (transactions sample_waiting) \<Longrightarrow> tx_id u = tx_id sample_submitted \<Longrightarrow> u = sample_submitted" for u
    by (simp add: sample_waiting_fields)
  have "fundingIdempotencyKey ''b1'' 2 \<noteq> fundingIdempotencyKey ''b1'' 1" by code_simp
  then have fresh: "fundingIdempotencyKey ''b1'' (Suc (tx_attempt sample_submitted)) \<notin>
      tx_idempotencyKey ` set (transactions sample_waiting)"
    by (simp add: sample_waiting_fields sample_submitted_fields)
      (simp add: sample_submitted_def new_attempt_def sample_intent_def numeral_2_eq_2)
  show ?thesis
    using abandoned_submission_fundable_again[OF latest sample_submitted_fields(1) only sample_submitted_fields(9) s fresh,
        of sample_clock "''lost''" sample_clock]
    by (simp add: sample_submitted_fields Let_def case_prod_beta numeral_2_eq_2)
qed

text \<open>
  A second member is given a plan that cannot be confirmed. When an attempt is in flight, the
  request of another member with the right to fund answers with that attempt, but with a plan built
  anew, whose manager is that member's own wallet. An escrow created from it is never confirmed for
  the attempt, whose stored plan names the manager who opened it; the money is in custody, and the
  database does not record it.
\<close>

theorem second_member_signs_unconfirmable_plan:
  assumes run: "openFundingIntent e dy db ctx b ref = (db', Inr r)"
    and latest: "latestAttempt db (tc_orgId ctx) b = Some t" and flight: "in_flight t"
    and frozen: "tx_plan t = Some plan" "sp_manager plan \<noteq> tc_walletAddress ctx"
    and chain: "readEscrow v i = Inr facts" "cf_manager facts = pl_manager (or_plan r)"
  shows "or_attempt r = viewAttempt t \<and> pl_manager (or_plan r) = tc_walletAddress ctx \<and>
    \<not> (\<exists>db3 a esc n. confirm_escrow e' dy v db2 ctx2 t i source = (db3, Inr (Confirmed a esc n)))"
proof -
  obtain s where s: "getFundingState dy db ctx b ref = Inr s"
    using run by (auto simp: openFundingIntent_def open_read_def split: sum.splits)
  have "fv_attempt s = Some (viewAttempt t)" using state_attempt[OF s] latest by simp
  moreover have "av_status (viewAttempt t) \<in> set IN_FLIGHT" using flight by (simp add: viewAttempt_def in_flight_def)
  ultimately have r: "fv_plan s = Some (or_plan r)" "or_attempt r = viewAttempt t"
    using run by (auto simp: openFundingIntent_def open_read_def s split: option.splits)
  then have "funding_plan_for dy (funding_input dy db ctx b) b ref = Inr (Some (or_plan r))"
    using state_plan[OF s] by simp
  then have manager: "pl_manager (or_plan r) = tc_walletAddress ctx"
    using plan_manager by (simp add: funding_input_def)
  have False if conf: "confirm_escrow e' dy v db2 ctx2 t i source = (db3, Inr (Confirmed a esc n))" for db3 a esc n
  proof -
    obtain plan' facts' where "readStoredPlan (dy_sha256 dy) t = Inr plan'" "readEscrow v i = Inr facts'"
      "plan_differences t plan' facts' (batch_payments (dy_collate dy) db2 (tc_orgId ctx2) (the (tx_batchId t))) = Some []"
      using conf by (rule confirm_escrowD) blast
    then have "cf_manager facts = sp_manager plan"
      using frozen(1) chain(1) readStoredPlanD[of "dy_sha256 dy" t plan']
      unfolding plan_differences_def collect_Nil by (auto simp: header_differences_Nil)
    then show False using chain(2) manager frozen(2) by simp
  qed
  then show ?thesis using r manager by blast
qed

definition sample_colleague :: tenant_context where
  "sample_colleague = sample_signer ''u3'' ''GA'' ADMIN"

definition sample_other_ledger :: chain_verifier where
  "sample_other_ledger = sample_ledger\<lparr>readEscrow := (\<lambda>_. Inr (sample_custody_facts\<lparr>cf_manager := ''GA''\<rparr>))\<rparr>"

lemma sample_colleague_opens:
  "\<exists>r. openFundingIntent sample_clock sample_deployment sample_waiting sample_colleague ''b1'' ''REF'' =
     (sample_waiting, Inr r)"
proof -
  let ?inp = "funding_input sample_deployment sample_waiting sample_manager ''b1''"
  let ?inp' = "funding_input sample_deployment sample_waiting sample_colleague ''b1''"
  have ctx: "tc_orgId sample_colleague = ''o1''" "tc_walletAddress sample_colleague = ''GA''" "tc_role sample_colleague = ADMIN"
    by (simp_all add: sample_colleague_def sample_signer_def)
  have "selectFinanceApprover sample_team ''o1'' ''GA'' = Some ''GF''" by code_simp
  then have inp: "ei_payments ?inp' = ei_payments ?inp" "ei_asset ?inp' = ei_asset ?inp" "ei_walletAddress ?inp' = ''GA''"
    "ei_role ?inp' = ADMIN" "ei_financeApproverAddress ?inp' = Some ''GF''" "ei_attempt ?inp' = ei_attempt ?inp"
    "ei_oraclePublicKey ?inp' = ei_oraclePublicKey ?inp"
    by (simp_all add: funding_input_def ctx approver_same[OF sample_waiting_members])
  have ready: "fundable_batch ?inp" "truthy (sa_contractId (ei_asset ?inp))"
    using sample_waiting_state state_plan by (metis funding_plan_for_iff)+
  then have "fundable_batch ?inp'" unfolding fundable_batch_def fundable_def by (simp add: inp)
  moreover have "\<not> list_ex (\<lambda>p. fp_periodStart p = None \<or> fp_periodEnd p = None) (ei_payments ?inp')"
    by (rule fundable_batch_periods) fact
  ultimately have "\<exists>plan. funding_plan_for sample_deployment ?inp' ''b1'' ''REF'' = Inr (Some plan)"
    using ready(2) unfolding funding_plan_for_iff
    by (simp add: buildFundingPlan_def requireContractId_def inp) (simp add: sample_deployment_def)
  then show ?thesis
    by (auto simp: openFundingIntent_def open_read_def getFundingState_def Let_def ctx sample_latest viewAttempt_def
        sample_submitted_fields IN_FLIGHT_def)
qed

theorem second_member_signs_unconfirmable_plan_witness:
  "\<exists>r. openFundingIntent sample_clock sample_deployment sample_waiting sample_colleague ''b1'' ''REF'' =
      (sample_waiting, Inr r) \<and> or_attempt r = viewAttempt sample_submitted \<and> pl_manager (or_plan r) = ''GA'' \<and>
     \<not> (\<exists>db a esc n. confirm_escrow sample_clock sample_deployment sample_other_ledger sample_waiting sample_manager
       sample_submitted 9 Chain_event = (db, Inr (Confirmed a esc n)))"
proof -
  obtain r where run: "openFundingIntent sample_clock sample_deployment sample_waiting sample_colleague ''b1'' ''REF'' =
      (sample_waiting, Inr r)" using sample_colleague_opens by blast
  obtain s where s: "getFundingState sample_deployment sample_waiting sample_colleague ''b1'' ''REF'' = Inr s"
    using run by (auto simp: openFundingIntent_def open_read_def split: sum.splits)
  have ctx: "tc_orgId sample_colleague = ''o1''" "tc_walletAddress sample_colleague = ''GA''"
    by (simp_all add: sample_colleague_def sample_signer_def)
  have latest: "latestAttempt sample_waiting (tc_orgId sample_colleague) ''b1'' = Some sample_submitted"
    by (simp add: sample_latest ctx)
  have flight: "in_flight sample_submitted" by (simp add: in_flight_def IN_FLIGHT_def sample_submitted_fields)
  have other: "sp_manager sample_stored \<noteq> tc_walletAddress sample_colleague"
    by (simp add: ctx serializePlan_def sample_plan_def)
  have ledger: "readEscrow sample_other_ledger 9 = Inr (sample_custody_facts\<lparr>cf_manager := ''GA''\<rparr>)"
    by (simp add: sample_other_ledger_def)
  have "fv_plan s = Some (or_plan r)"
    using run state_attempt[OF s] latest flight
    by (auto simp: openFundingIntent_def open_read_def s viewAttempt_def in_flight_def split: option.splits)
  then have "pl_manager (or_plan r) = ''GA''"
    using state_plan[OF s] plan_manager by (simp add: funding_input_def ctx)
  then show ?thesis
    using second_member_signs_unconfirmable_plan[OF run latest flight sample_submitted_fields(2) other ledger,
        of sample_clock sample_waiting sample_manager Chain_event] run by simp
qed

text \<open>
  Declining a signature can rewind a submitted transaction. Between the read of a request that
  abandons an attempt and its write, the attempt may be submitted; the request then still acts on
  what it has read. The transaction with its hash is marked as abandoned, and every payment of the
  batch that waited for it returns to \<open>DRAFT\<close>, where it can be changed while the money is on its way.
\<close>

theorem late_submission_rewound:
  assumes read: "fail_read db ctx i b = Inr t" "tx_hash t = None" and batch: "truthy (Some b)"
    and submitted: "recordFundingSubmitted e db ctx2 i h b = (db1, Inr a)" "av_status a = SUBMITTED" "av_hash a = Some h"
      "tc_orgId ctx2 = tc_orgId ctx"
    and fail: "fail_commit e' db1 ctx t reason declined = (db2, r)"
  shows "(\<exists>u \<in> set (transactions db2). tx_id u = i \<and> tx_orgId u = tc_orgId ctx \<and> tx_hash u = Some h \<and>
      tx_status u = (if declined then TX_CANCELLED else FAILED)) \<and>
    (\<forall>p \<in> set (payments db2). pm_orgId p = tc_orgId ctx \<and> pm_batchId p = b \<longrightarrow> pm_state p \<noteq> VALIDATING)"
proof -
  have t: "tx_id t = i" "tx_batchId t = Some b"
    using read(1) by (auto simp: fail_read_def dest!: findFirst_SomeD split: option.splits if_splits)
  obtain u where u: "find_attempt db1 (tc_orgId ctx) b i = Some u" "a = viewAttempt u"
    using submitted(1,4)
    by (auto simp: recordFundingSubmitted_def Let_def find_attempt_def split: option.splits if_splits prod.splits)
  then have "u \<in> set (transactions db1)" "tx_id u = i" "tx_orgId u = tc_orgId ctx" "tx_hash u = Some h"
    using submitted(3) findFirst_SomeD by (fastforce simp: find_attempt_def viewAttempt_def)+
  moreover have tx: "transactions db2 = updated (\<lambda>w. tx_id w = i \<and> tx_orgId w = tc_orgId ctx)
      (\<lambda>w. w\<lparr>tx_status := if declined then TX_CANCELLED else FAILED, tx_errorMessage := Some (take 500 reason)\<rparr>)
      (transactions db1)"
    and pay: "\<exists>why. payments db2 = updated (\<lambda>p. pm_orgId p = tc_orgId ctx \<and> pm_batchId p = b \<and> pm_state p = VALIDATING)
      (back_to_draft e' why) (payments db1)"
    using fail batch read(2) t by (auto simp: fail_commit_def Let_def end_attempt_def release_payments_def)
  ultimately have "u\<lparr>tx_status := if declined then TX_CANCELLED else FAILED, tx_errorMessage := Some (take 500 reason)\<rparr>
      \<in> set (transactions db2)" and u': "tx_id u = i" "tx_orgId u = tc_orgId ctx" "tx_hash u = Some h"
    by (auto simp: set_updated intro!: bexI[of _ u])
  then have "\<exists>u \<in> set (transactions db2). tx_id u = i \<and> tx_orgId u = tc_orgId ctx \<and> tx_hash u = Some h \<and>
      tx_status u = (if declined then TX_CANCELLED else FAILED)"
    by (intro bexI) auto
  moreover have "pm_state p \<noteq> VALIDATING" if p: "p \<in> set (payments db2)" "pm_orgId p = tc_orgId ctx" "pm_batchId p = b" for p
  proof -
    obtain why where "payments db2 = updated (\<lambda>p. pm_orgId p = tc_orgId ctx \<and> pm_batchId p = b \<and> pm_state p = VALIDATING)
        (back_to_draft e' why) (payments db1)" using pay by blast
    then obtain q where "p = (if pm_orgId q = tc_orgId ctx \<and> pm_batchId q = b \<and> pm_state q = VALIDATING
        then back_to_draft e' why q else q)" using p(1) by (auto simp only: set_updated)
    then show ?thesis using p(2,3) by (auto simp: back_to_draft_def split: if_splits)
  qed
  ultimately show ?thesis by blast
qed

definition sample_unsigned :: database where
  "sample_unsigned = sample_waiting\<lparr>transactions :=
     [sample_submitted\<lparr>tx_status := AWAITING_SIGNATURE, tx_hash := None\<rparr>]\<rparr>"

theorem late_submission_rewound_witness:
  "\<exists>t db1 db2 r. fail_read sample_unsigned sample_manager ''c0'' ''b1'' = Inr t \<and>
     fst (recordFundingSubmitted sample_clock sample_unsigned sample_manager ''c0'' ''h'' ''b1'') = db1 \<and>
     fail_commit sample_clock db1 sample_manager t ''declined'' True = (db2, r) \<and>
     (\<exists>u \<in> set (transactions db2). tx_hash u = Some ''h'' \<and> tx_status u = TX_CANCELLED)"
proof -
  let ?t = "sample_submitted\<lparr>tx_status := AWAITING_SIGNATURE, tx_hash := None\<rparr>"
  have one: "transactions sample_unsigned = [?t]" by (simp add: sample_unsigned_def)
  have read: "fail_read sample_unsigned sample_manager ''c0'' ''b1'' = Inr ?t"
    by (simp add: fail_read_def one findFirst_Cons sample_submitted_fields)
  obtain db1 a where submitted: "recordFundingSubmitted sample_clock sample_unsigned sample_manager ''c0'' ''h'' ''b1'' =
      (db1, Inr a)" "av_status a = SUBMITTED" "av_hash a = Some ''h''"
    by (auto simp: recordFundingSubmitted_def one updateMany_def find_attempt_def findFirst_Cons
        sample_submitted_fields viewAttempt_def)
  obtain db2 r where fail: "fail_commit sample_clock db1 sample_manager ?t ''declined'' True = (db2, r)" by fastforce
  show ?thesis
    using late_submission_rewound[OF read _ _ submitted refl fail] read submitted(1) fail by auto
qed

end
