(* ===== verification/ClaimBytes.thy ===== *)
theory ClaimBytes
  imports JsonText "HOL-Library.Word"
begin

text \<open>
  Bytes as the claims SDK and the oracle service use them: \<open>Uint8Array\<close> values, hexadecimal text
  (\<open>packages/sdk/src/bytes.ts\<close>), big-endian integers as \<open>DataView\<close> and \<open>Buffer\<close> read and write them,
  writing a block into a buffer at an offset, and the UTF-8 text that is hashed.
\<close>

section \<open>Calls that may throw\<close>

text \<open>What follows a call that may throw: the exception passes by the rest of the function.\<close>

definition bind_ok :: "'e + 'a \<Rightarrow> ('a \<Rightarrow> 'e + 'b) \<Rightarrow> 'e + 'b" where
  "bind_ok m f = (case m of Inl e \<Rightarrow> Inl e | Inr x \<Rightarrow> f x)"

lemma bind_ok_simps [simp]: "bind_ok (Inl e) f = Inl e" "bind_ok (Inr x) f = f x"
  by (simp_all add: bind_ok_def)

lemma bind_ok_Inr_iff: "bind_ok m f = Inr y \<longleftrightarrow> (\<exists>x. m = Inr x \<and> f x = Inr y)"
  by (simp add: bind_ok_def split: sum.splits)

lemma guard_Inr_iff: "(if b then Inl e else m) = Inr y \<longleftrightarrow> \<not> b \<and> m = Inr y"
  by simp

section \<open>Byte arrays\<close>

type_synonym byte = "8 word"
type_synonym bytes = "byte list"   \<comment> \<open>a \<open>Uint8Array\<close> or a \<open>Buffer\<close>\<close>

named_theorems byte_simps \<open>rewrite rules for byte arrays\<close>

definition zero_bytes :: "nat \<Rightarrow> bytes" where
  "zero_bytes n = replicate n 0"

text \<open>\<open>out.set(xs, off)\<close>, for a block that fits.\<close>

definition set_bytes :: "nat \<Rightarrow> bytes \<Rightarrow> bytes \<Rightarrow> bytes" where
  "set_bytes off xs out = take off out @ xs @ drop (off + length xs) out"

text \<open>\<open>bytes.slice(off, off + n)\<close>.\<close>

definition slice_bytes :: "nat \<Rightarrow> nat \<Rightarrow> bytes \<Rightarrow> bytes" where
  "slice_bytes off n bs = take n (drop off bs)"

definition isZero :: "bytes \<Rightarrow> bool" where
  "isZero bs = list_all (\<lambda>b. b = 0) bs"

lemma isZero_zero_bytes [simp]: "isZero (zero_bytes n)"
  by (simp add: isZero_def zero_bytes_def list_all_iff)

lemma isZero_iff: "isZero bs \<longleftrightarrow> bs = zero_bytes (length bs)"
  by (induction bs) (simp_all add: isZero_def zero_bytes_def)

lemma length_zero_bytes [simp]: "length (zero_bytes n) = n"
  by (simp add: zero_bytes_def)

lemma length_set_bytes [byte_simps]:
  "off + length xs \<le> length out \<Longrightarrow> length (set_bytes off xs out) = length out"
  by (simp add: set_bytes_def)

lemma length_slice_bytes [byte_simps]:
  "off + n \<le> length bs \<Longrightarrow> length (slice_bytes off n bs) = n"
  by (simp add: slice_bytes_def)

text \<open>What is read back from a buffer: the block itself, or what was there before.\<close>

lemma slice_set_same [byte_simps]:
  "off + length xs \<le> length out \<Longrightarrow> n = length xs \<Longrightarrow> slice_bytes off n (set_bytes off xs out) = xs"
  by (simp add: slice_bytes_def set_bytes_def)

lemma slice_set_before [byte_simps]:
  assumes "a + n \<le> off" and "off + length xs \<le> length out"
  shows "slice_bytes a n (set_bytes off xs out) = slice_bytes a n out"
proof (rule nth_equalityI)
  show "length (slice_bytes a n (set_bytes off xs out)) = length (slice_bytes a n out)"
    using assms by (simp add: byte_simps)
next
  fix i assume "i < length (slice_bytes a n (set_bytes off xs out))"
  then have "i < n" using assms by (simp add: byte_simps)
  then show "slice_bytes a n (set_bytes off xs out) ! i = slice_bytes a n out ! i"
    using assms by (simp add: slice_bytes_def set_bytes_def nth_append)
qed

lemma slice_set_after [byte_simps]:
  assumes "off + length xs \<le> a" and "a + n \<le> length out"
  shows "slice_bytes a n (set_bytes off xs out) = slice_bytes a n out"
proof (rule nth_equalityI)
  show "length (slice_bytes a n (set_bytes off xs out)) = length (slice_bytes a n out)"
    using assms by (simp add: byte_simps)
next
  fix i assume "i < length (slice_bytes a n (set_bytes off xs out))"
  then have "i < n" using assms by (simp add: byte_simps)
  then show "slice_bytes a n (set_bytes off xs out) ! i = slice_bytes a n out ! i"
    using assms by (simp add: slice_bytes_def set_bytes_def nth_append)
qed

section \<open>Big-endian integers\<close>

text \<open>
  \<open>setUint16\<close>, \<open>setBigUint64\<close> and \<open>writeUInt32BE\<close> write the low bytes of the value, the most
  significant first; \<open>getUint16\<close> and \<open>getBigUint64\<close> read them back.
\<close>

fun be_bytes :: "nat \<Rightarrow> int \<Rightarrow> bytes" where
  "be_bytes 0 v = []"
| "be_bytes (Suc n) v = word_of_int (v div 256 ^ n) # be_bytes n v"

fun be_value :: "bytes \<Rightarrow> int" where
  "be_value [] = 0"
| "be_value (b # bs) = uint b * 256 ^ length bs + be_value bs"

lemma length_be_bytes [simp]: "length (be_bytes n v) = n"
  by (induction n) simp_all

lemma be_value_bounds: "0 \<le> be_value bs \<and> be_value bs < 256 ^ length bs"
proof (induction bs)
  case (Cons b bs)
  have b: "0 \<le> uint b" "uint b \<le> 255"
    using uint_lt2p [of b] by auto
  have "uint b * 256 ^ length bs + 256 ^ length bs \<le> 256 * 256 ^ length bs"
    using mult_right_mono [OF b(2), of "256 ^ length bs"] by simp
  moreover have "0 \<le> uint b * 256 ^ length bs" using b by simp
  ultimately show ?case using Cons unfolding be_value.simps list.size power_add power_Suc power_0 by linarith
qed simp

lemma be_value_nonneg [simp]: "0 \<le> be_value bs"
  using be_value_bounds by blast

lemma be_value_u64: "length bs = 8 \<Longrightarrow> be_value bs < 2 ^ 64"
  using be_value_bounds [of bs] by simp

lemma be_value_be_bytes: "be_value (be_bytes n v) = v mod 256 ^ n"
proof (induction n)
  case (Suc n)
  have "v mod (256 ^ n * 256) = 256 ^ n * (v div 256 ^ n mod 256) + v mod 256 ^ n"
    by (rule zmod_zmult2_eq) simp
  then show ?case using Suc by (simp add: uint_word_of_int mult.commute)
qed simp

lemma be_value_inj: "length xs = length ys \<Longrightarrow> be_value xs = be_value ys \<Longrightarrow> xs = ys"
proof (induction xs ys rule: list_induct2)
  case (Cons x xs y ys)
  let ?m = "256 ^ length xs :: int"
  have r: "be_value xs mod ?m = be_value xs" "be_value ys mod ?m = be_value ys"
    "be_value xs div ?m = 0" "be_value ys div ?m = 0"
    using be_value_bounds [of xs] be_value_bounds [of ys] Cons.hyps by auto
  have eq: "uint x * ?m + be_value xs = uint y * ?m + be_value ys"
    using Cons.prems Cons.hyps by simp
  have "(uint x * ?m + be_value xs) div ?m = uint x" "(uint y * ?m + be_value ys) div ?m = uint y"
    using r by simp_all
  then have "uint x = uint y" using eq by simp
  then show ?case using eq Cons.IH by (simp add: word_uint_eq_iff)
qed simp

lemma be_bytes_be_value: "length bs = n \<Longrightarrow> be_bytes n (be_value bs) = bs"
  by (rule be_value_inj) (use be_value_bounds [of bs] in \<open>simp_all add: be_value_be_bytes\<close>)

lemma be_bytes_eq_iff: "be_bytes n v = be_bytes n w \<longleftrightarrow> v mod 256 ^ n = w mod 256 ^ n"
proof
  assume "v mod 256 ^ n = w mod 256 ^ n"
  then show "be_bytes n v = be_bytes n w"
    by (intro be_value_inj) (simp_all add: be_value_be_bytes)
qed (metis be_value_be_bytes)

definition U64_MAX :: int where
  "U64_MAX = 0xffffffffffffffff"

text \<open>\<open>assertU64\<close> on a \<open>bigint\<close>.\<close>

definition is_u64 :: "int \<Rightarrow> bool" where
  "is_u64 v \<longleftrightarrow> 0 \<le> v \<and> v \<le> U64_MAX"

lemma is_u64_iff: "is_u64 v \<longleftrightarrow> 0 \<le> v \<and> v < 2 ^ 64"
  by (auto simp: is_u64_def U64_MAX_def)

lemma u64_mod: "is_u64 v \<Longrightarrow> v mod 256 ^ 8 = v"
  by (simp add: is_u64_iff)

lemma be_value_is_u64: "length bs = 8 \<Longrightarrow> is_u64 (be_value bs)"
  using be_value_u64 by (simp add: is_u64_iff)

interpretation u64_bytes: codec "be_bytes 8"
  "\<lambda>bs. if length bs = 8 then Some (be_value bs) else None" is_u64
  by unfold_locales (use be_value_be_bytes [of 8] u64_mod in simp)

section \<open>Hexadecimal text\<close>

text \<open>\<open>toString(16)\<close>.\<close>

fun show_hex :: "nat \<Rightarrow> string" where
  "show_hex n = (if n < 16 then [hex_digit n] else show_hex (n div 16) @ [hex_digit (n mod 16)])"

declare show_hex.simps [simp del]

definition toHex :: "bytes \<Rightarrow> string" where
  "toHex bs = concat (map (\<lambda>b. pad_start 2 CHR ''0'' (show_hex (unat b))) bs)"

definition hex_char :: "char \<Rightarrow> bool" where
  "hex_char c = (let n = code_unit c in
     48 \<le> n \<and> n \<le> 57 \<or> 65 \<le> n \<and> n \<le> 70 \<or> 97 \<le> n \<and> n \<le> 102)"

text \<open>\<open>parseInt(s, 16)\<close> on hexadecimal digits.\<close>

definition hex_val :: "char \<Rightarrow> nat" where
  "hex_val c = (let n = code_unit c in if n \<le> 57 then n - 48 else if n \<le> 70 then n - 55 else n - 87)"

fun hex_pairs :: "string \<Rightarrow> bytes" where
  "hex_pairs (a # b # s) = of_nat (16 * hex_val a + hex_val b) # hex_pairs s"
| "hex_pairs _ = []"

definition fromHex :: "string \<Rightarrow> bytes option" where
  "fromHex s = (if even (length s) \<and> list_all hex_char s then Some (hex_pairs s) else None)"

lemma hex_digit_facts [simp]:
  "d < 16 \<Longrightarrow> hex_char (hex_digit d)" "d < 16 \<Longrightarrow> hex_val (hex_digit d) = d"
  by (auto simp: hex_char_def hex_val_def hex_digit_def)

lemma byte_hex: "pad_start 2 CHR ''0'' (show_hex (unat (b :: byte)))
    = [hex_digit (unat b div 16), hex_digit (unat b mod 16)]"
proof -
  have b: "unat b < 256" using unsigned_less [of b, where 'a = nat] by simp
  have zero: "hex_digit 0 = CHR ''0''" by code_simp
  show ?thesis
  proof (cases "unat b < 16")
    case True
    then show ?thesis using zero by (subst show_hex.simps) (simp add: pad_start_def)
  next
    case False
    then have "show_hex (unat b div 16) = [hex_digit (unat b div 16)]"
      using b by (subst show_hex.simps) auto
    then show ?thesis using False by (subst show_hex.simps) (simp add: pad_start_def)
  qed
qed

lemma toHex_Nil [simp]: "toHex [] = []"
  by (simp add: toHex_def)

lemma toHex_Cons [simp]:
  "toHex (b # bs) = hex_digit (unat b div 16) # hex_digit (unat b mod 16) # toHex bs"
  by (simp add: toHex_def byte_hex)

lemma byte_nibble [simp]: "unat (b :: byte) div 16 < 16"
  using unsigned_less [of b, where 'a = nat] by auto

lemma hex_pairs_toHex [simp]: "hex_pairs (toHex bs) = bs"
  by (induction bs) simp_all

lemma length_toHex [simp]: "length (toHex bs) = 2 * length bs"
  by (induction bs) simp_all

lemma toHex_hex_chars [simp]: "list_all hex_char (toHex bs)"
  by (induction bs) simp_all

lemma fromHex_toHex [simp]: "fromHex (toHex bs) = Some bs"
  by (simp add: fromHex_def)

lemma length_hex_pairs: "even (length s) \<Longrightarrow> length (hex_pairs s) = length s div 2"
  by (induction s rule: hex_pairs.induct) auto

interpretation hex_text: codec toHex fromHex "\<lambda>_. True"
  by unfold_locales simp

section \<open>Text as bytes\<close>

text \<open>\<open>new TextEncoder().encode(s)\<close>, on the code points below 256 that a \<open>string\<close> has.\<close>

definition utf8_char :: "char \<Rightarrow> bytes" where
  "utf8_char c = (let n = code_unit c in
     if n < 128 then [of_nat n] else [of_nat (192 + n div 64), of_nat (128 + n mod 64)])"

definition utf8 :: "string \<Rightarrow> bytes" where
  "utf8 s = concat (map utf8_char s)"

lemma utf8_char_inj:
  assumes "utf8_char a @ xs = utf8_char b @ ys"
  shows "a = b \<and> xs = ys"
proof -
  have n: "code_unit a < (256::nat)" "code_unit b < (256::nat)"
    by simp_all
  have w: "i < 256 \<Longrightarrow> j < 256 \<Longrightarrow> (of_nat i :: byte) = of_nat j \<longleftrightarrow> i = j" for i j :: nat
    by (simp add: word_of_nat_eq_iff take_bit_eq_mod)
  have q: "192 + i div 64 < 256" "128 + i mod 64 < 256" if "i < 256" for i :: nat
    using that by auto
  have "code_unit a = (code_unit b :: nat) \<and> xs = ys"
  proof (cases "code_unit a < (128::nat)"; cases "code_unit b < (128::nat)")
    assume "\<not> code_unit a < (128::nat)" "\<not> code_unit b < (128::nat)"
    then have "192 + code_unit a div 64 = 192 + (code_unit b :: nat) div 64"
      "128 + code_unit a mod 64 = 128 + (code_unit b :: nat) mod 64" "xs = ys"
      using assms w [OF q(1) q(1)] w [OF q(2) q(2)] n by (simp_all add: utf8_char_def Let_def)
    then show ?thesis by (metis add_left_cancel div_mult_mod_eq)
  qed (use assms n w w [OF _ q(1)] w [OF q(1)] in \<open>simp_all add: utf8_char_def Let_def\<close>)
  then show ?thesis by simp
qed

lemma utf8_inj: "utf8 s = utf8 t \<Longrightarrow> s = t"
proof (induction s arbitrary: t)
  case Nil
  then show ?case by (cases t) (auto simp: utf8_def utf8_char_def Let_def split: if_splits)
next
  case (Cons c s)
  then obtain d t' where t: "t = d # t'"
    by (cases t) (auto simp: utf8_def utf8_char_def Let_def split: if_splits)
  then have "c = d \<and> utf8 s = utf8 t'"
    using Cons.prems utf8_char_inj by (simp add: utf8_def)
  then show ?case using Cons.IH t by blast
qed

end
