(* ===== verification/Claims.thy ===== *)
theory Claims
  imports ClaimBytes
begin

text \<open>
  The claims SDK, \<open>packages/sdk/src\<close>: a claim is encoded into a preimage of 256 bytes, signed, checked
  before it is sent to the contract, read back and compared field by field, and kept as JSON
  (the theory \<open>ClaimJson\<close>). \<open>@stellar/stellar-base\<close> (the hash, the keys and the address codec) is the
  parameter \<open>stellar_base\<close>.
\<close>

section \<open>Errors\<close>

datatype claim_error = InvalidInput | IssuerMismatch | InvalidSignature | IssuerNotRegistered
  | InvalidWindow | ClaimExpired | InvalidReplayFields | NonceMismatch | ClaimAlreadyUsed
  | NonceOverflow | IssuerAlreadyRegistered | IssuerNotFound

definition CONTRACT_CODES :: "(int \<times> claim_error) list" where
  "CONTRACT_CODES =
     [(1101, IssuerNotRegistered), (1102, InvalidWindow), (1103, ClaimExpired),
      (1104, InvalidReplayFields), (1105, NonceMismatch), (1106, ClaimAlreadyUsed),
      (1107, NonceOverflow), (1108, IssuerAlreadyRegistered), (1109, IssuerNotFound)]"

definition fromContractErrorCode :: "int \<Rightarrow> claim_error option" where
  "fromContractErrorCode code = map_of CONTRACT_CODES code"

section \<open>The library below\<close>

record stellar_base =
  sb_hash :: "bytes \<Rightarrow> bytes"                 \<comment> \<open>SHA-256\<close>
  sb_isContract :: "string \<Rightarrow> bool"           \<comment> \<open>\<open>StrKey.isValidContract\<close>\<close>
  sb_decodeContract :: "string \<Rightarrow> bytes"
  sb_isPublic :: "string \<Rightarrow> bool"             \<comment> \<open>\<open>StrKey.isValidEd25519PublicKey\<close>\<close>
  sb_decodePublic :: "string \<Rightarrow> bytes"
  sb_encodePublic :: "bytes \<Rightarrow> string"
  sb_isSeed :: "string \<Rightarrow> bool"               \<comment> \<open>\<open>StrKey.isValidEd25519SecretSeed\<close>\<close>
  sb_decodeSeed :: "string \<Rightarrow> bytes"
  sb_public :: "bytes \<Rightarrow> bytes"               \<comment> \<open>the raw public key of a raw seed\<close>
  sb_sign :: "bytes \<Rightarrow> bytes \<Rightarrow> bytes"        \<comment> \<open>seed, message\<close>
  sb_verify :: "bytes \<Rightarrow> bytes \<Rightarrow> bytes \<Rightarrow> bool"  \<comment> \<open>raw public key, message, signature\<close>

text \<open>What the code relies on: the sizes, and that a public key is read back from its address.\<close>

definition sizes_documented :: "stellar_base \<Rightarrow> bool" where
  "sizes_documented lib \<longleftrightarrow>
     (\<forall>x. length (sb_hash lib x) = 32) \<and>
     (\<forall>c. sb_isContract lib c \<longrightarrow> length (sb_decodeContract lib c) = 32) \<and>
     (\<forall>s. length (sb_public lib s) = 32) \<and>
     (\<forall>s m. length (sb_sign lib s m) = 64)"

definition keys_documented :: "stellar_base \<Rightarrow> bool" where
  "keys_documented lib \<longleftrightarrow>
     (\<forall>k. length k = 32 \<longrightarrow> sb_decodePublic lib (sb_encodePublic lib k) = k) \<and>
     (\<forall>s m. sb_verify lib (sb_public lib s) m (sb_sign lib s m))"

section \<open>Claims\<close>

text \<open>
  A field of a value handed in by untyped code. \<open>VNumber\<close> is an integral number; every other value,
  \<open>null\<close> included, is \<open>VOther\<close>.
\<close>

datatype js_value = VBytes bytes | VBigint int | VNumber int | VOther

text \<open>The replay field is read with the members its mode does not have, which are \<open>undefined\<close> in a
  claim that has the declared type.\<close>

record replay_value =
  rp_mode :: string
  rp_nonce :: "js_value option"
  rp_claimId :: "js_value option"

record claim =
  cl_issuer :: bytes
  cl_claimType :: bytes
  cl_subject :: bytes
  cl_payloadHash :: bytes
  cl_payloadEncoding :: string
  cl_replay :: replay_value
  cl_issuedAt :: int
  cl_expiresAt :: int

record claim_context =
  cx_networkPassphrase :: string
  cx_contractId :: string

section \<open>Digests\<close>

definition sha256 :: "stellar_base \<Rightarrow> bytes \<Rightarrow> bytes" where
  "sha256 lib data = sb_hash lib data"

definition claimType :: "stellar_base \<Rightarrow> string \<Rightarrow> claim_error + bytes" where
  "claimType lib name = (if name = [] then Inl InvalidInput else Inr (sha256 lib (utf8 name)))"

definition networkId :: "stellar_base \<Rightarrow> string \<Rightarrow> bytes" where
  "networkId lib passphrase = sha256 lib (utf8 passphrase)"

definition contractDigest :: "stellar_base \<Rightarrow> string \<Rightarrow> claim_error + bytes" where
  "contractDigest lib contractId =
     (if \<not> sb_isContract lib contractId then Inl InvalidInput
      else
        let xdr = set_bytes 0 [0x00, 0x00, 0x00, 0x12, 0x00, 0x00, 0x00, 0x01] (zero_bytes 40);
            xdr = set_bytes 8 (sb_decodeContract lib contractId) xdr
        in Inr (sha256 lib xdr))"

section \<open>Encoding\<close>

definition PREIMAGE_LENGTH :: nat where
  "PREIMAGE_LENGTH = 256"

definition MAGIC :: bytes where
  "MAGIC = [0x43, 0x46, 0x43, 0x4c]"

definition WIRE_VERSION :: int where
  "WIRE_VERSION = 1"

record wire_values =
  wv_encoding :: byte
  wv_mode :: byte
  wv_nonce :: int
  wv_claimId :: bytes

definition claimWireValues :: "claim \<Rightarrow> claim_error + wire_values" where
  "claimWireValues c =
     (if length (cl_issuer c) \<noteq> 32 then Inl InvalidInput
      else if length (cl_claimType c) \<noteq> 32 then Inl InvalidInput
      else if length (cl_subject c) \<noteq> 32 then Inl InvalidInput
      else if length (cl_payloadHash c) \<noteq> 32 then Inl InvalidInput
      else if \<not> is_u64 (cl_issuedAt c) then Inl InvalidInput
      else if \<not> is_u64 (cl_expiresAt c) then Inl InvalidInput
      else case (if cl_payloadEncoding c = ''raw'' then Some 0
                 else if cl_payloadEncoding c = ''xdr'' then Some 1 else None) of
        None \<Rightarrow> Inl InvalidInput
      | Some encoding \<Rightarrow>
          let replay = cl_replay c in
          if rp_mode replay = ''sequence''
          then (case rp_nonce replay of
                  Some (VBigint n) \<Rightarrow>
                    if is_u64 n
                    then Inr \<lparr>wv_encoding = encoding, wv_mode = 0, wv_nonce = n,
                              wv_claimId = zero_bytes 32\<rparr>
                    else Inl InvalidInput
                | _ \<Rightarrow> Inl InvalidInput)
          else if rp_mode replay = ''unique-id''
          then (case rp_claimId replay of
                  Some (VBytes i) \<Rightarrow>
                    if length i = 32
                    then Inr \<lparr>wv_encoding = encoding, wv_mode = 1, wv_nonce = 0, wv_claimId = i\<rparr>
                    else Inl InvalidInput
                | _ \<Rightarrow> Inl InvalidInput)
          else Inl InvalidInput)"

definition assertReplayFields :: "claim \<Rightarrow> claim_error + unit" where
  "assertReplayFields c =
     (let replay = cl_replay c in
      if rp_mode replay = ''sequence'' \<and>
         (case rp_claimId replay of
            None \<Rightarrow> False | Some (VBytes i) \<Rightarrow> \<not> isZero i | Some _ \<Rightarrow> True)
      then Inl InvalidReplayFields
      else if rp_mode replay = ''unique-id'' \<and>
         (case rp_nonce replay of
            None \<Rightarrow> False | Some (VBigint n) \<Rightarrow> n \<noteq> 0 | Some (VNumber n) \<Rightarrow> n \<noteq> 0 | Some _ \<Rightarrow> True)
      then Inl InvalidReplayFields
      else Inr ())"

text \<open>The writes of \<open>encodeClaim\<close>, in its order.\<close>

definition write_preimage :: "bytes \<Rightarrow> bytes \<Rightarrow> claim \<Rightarrow> wire_values \<Rightarrow> bytes" where
  "write_preimage network contract c w =
     (let out = zero_bytes PREIMAGE_LENGTH;
          out = set_bytes 0 MAGIC out;
          out = set_bytes 4 (be_bytes 2 WIRE_VERSION) out;
          out = set_bytes 6 network out;
          out = set_bytes 38 contract out;
          out = set_bytes 70 (cl_issuer c) out;
          out = set_bytes 102 (cl_claimType c) out;
          out = set_bytes 134 (cl_subject c) out;
          out = set_bytes 166 (cl_payloadHash c) out;
          out = out[198 := wv_encoding w];
          out = out[199 := wv_mode w];
          out = set_bytes 200 (be_bytes 8 (wv_nonce w)) out;
          out = set_bytes 208 (wv_claimId w) out;
          out = set_bytes 240 (be_bytes 8 (cl_issuedAt c)) out;
          out = set_bytes 248 (be_bytes 8 (cl_expiresAt c)) out
      in out)"

definition encodeClaim :: "stellar_base \<Rightarrow> claim \<Rightarrow> claim_context \<Rightarrow> claim_error + bytes" where
  "encodeClaim lib c ctx =
     (case claimWireValues c of
        Inl e \<Rightarrow> Inl e
      | Inr w \<Rightarrow>
          (let network = networkId lib (cx_networkPassphrase ctx) in
           case contractDigest lib (cx_contractId ctx) of
             Inl e \<Rightarrow> Inl e
           | Inr contract \<Rightarrow> Inr (write_preimage network contract c w)))"

section \<open>Layout\<close>

datatype preimage_field_name = F_magic | F_version | F_network_id | F_contract | F_issuer
  | F_claim_type | F_subject | F_payload_hash | F_payload_encoding | F_replay_mode | F_nonce
  | F_claim_id | F_issued_at | F_expires_at

record preimage_field =
  pf_name :: preimage_field_name
  pf_offset :: nat
  pf_size :: nat

definition PREIMAGE_LAYOUT :: "preimage_field list" where
  "PREIMAGE_LAYOUT =
     (let field = (\<lambda>n off s. \<lparr>pf_name = n, pf_offset = off, pf_size = s\<rparr>) in
      [field F_magic 0 4, field F_version 4 2, field F_network_id 6 32, field F_contract 38 32,
       field F_issuer 70 32, field F_claim_type 102 32, field F_subject 134 32,
       field F_payload_hash 166 32, field F_payload_encoding 198 1, field F_replay_mode 199 1,
       field F_nonce 200 8, field F_claim_id 208 32, field F_issued_at 240 8,
       field F_expires_at 248 8])"

datatype known_network = Mainnet | Testnet | Futurenet

definition KNOWN_NETWORKS :: "(known_network \<times> string) list" where
  "KNOWN_NETWORKS =
     [(Mainnet, ''Public Global Stellar Network ; September 2015''),
      (Testnet, ''Test SDF Network ; September 2015''),
      (Futurenet, ''Test SDF Future Network ; October 2022'')]"

text \<open>\<open>xs.every((b, i) => b === ys[i])\<close>.\<close>

definition bytes_every :: "bytes \<Rightarrow> bytes \<Rightarrow> bool" where
  "bytes_every xs ys \<longleftrightarrow> list_all (\<lambda>i. i < length ys \<and> xs ! i = ys ! i) [0..<length xs]"

definition identifyNetwork :: "stellar_base \<Rightarrow> bytes \<Rightarrow> known_network option" where
  "identifyNetwork lib bs =
     (if length bs \<noteq> 32 then None
      else map_option fst
        (List.find (\<lambda>(_, passphrase). bytes_every (sha256 lib (utf8 passphrase)) bs) KNOWN_NETWORKS))"

section \<open>Decoding and comparing\<close>

record decoded_preimage =
  dp_version :: int
  dp_networkId :: bytes
  dp_contractDigest :: bytes
  dp_issuer :: bytes
  dp_claimType :: bytes
  dp_subject :: bytes
  dp_payloadHash :: bytes
  dp_payloadEncoding :: byte
  dp_replayMode :: byte
  dp_nonce :: int
  dp_claimId :: bytes
  dp_issuedAt :: int
  dp_expiresAt :: int

definition slice_field :: "bytes \<Rightarrow> preimage_field_name \<Rightarrow> bytes" where
  "slice_field bs name =
     (case List.find (\<lambda>f. pf_name f = name) PREIMAGE_LAYOUT of
        Some f \<Rightarrow> slice_bytes (pf_offset f) (pf_size f) bs
      | None \<Rightarrow> [])"

definition decodePreimage :: "bytes \<Rightarrow> claim_error + decoded_preimage" where
  "decodePreimage p =
     (if length p \<noteq> PREIMAGE_LENGTH then Inl InvalidInput
      else if \<not> bytes_every MAGIC p then Inl InvalidInput
      else
        let version = be_value (slice_bytes 4 2 p) in
        if version \<noteq> 1 then Inl InvalidInput
        else Inr
          \<lparr>dp_version = version,
           dp_networkId = slice_field p F_network_id,
           dp_contractDigest = slice_field p F_contract,
           dp_issuer = slice_field p F_issuer,
           dp_claimType = slice_field p F_claim_type,
           dp_subject = slice_field p F_subject,
           dp_payloadHash = slice_field p F_payload_hash,
           dp_payloadEncoding = p ! 198,
           dp_replayMode = p ! 199,
           dp_nonce = be_value (slice_bytes 200 8 p),
           dp_claimId = slice_field p F_claim_id,
           dp_issuedAt = be_value (slice_bytes 240 8 p),
           dp_expiresAt = be_value (slice_bytes 248 8 p)\<rparr>)"

definition verifyPreimage :: "stellar_base \<Rightarrow> bytes \<Rightarrow> bytes \<Rightarrow> claim_error + unit" where
  "verifyPreimage lib p signature =
     (if length signature \<noteq> 64 then Inl InvalidInput
      else case decodePreimage p of
        Inl e \<Rightarrow> Inl e
      | Inr d \<Rightarrow>
          (let key = sb_decodePublic lib (sb_encodePublic lib (dp_issuer d)) in
           if \<not> sb_verify lib key p signature then Inl InvalidSignature else Inr ()))"

record preimage_field_diff =
  fd_name :: preimage_field_name
  fd_offset :: nat
  fd_size :: nat
  fd_a :: bytes
  fd_b :: bytes

definition comparePreimages :: "bytes \<Rightarrow> bytes \<Rightarrow> claim_error + preimage_field_diff list" where
  "comparePreimages a b =
     (if length a \<noteq> PREIMAGE_LENGTH then Inl InvalidInput
      else if length b \<noteq> PREIMAGE_LENGTH then Inl InvalidInput
      else Inr (List.map_filter
        (\<lambda>f. let x = slice_bytes (pf_offset f) (pf_size f) a;
                y = slice_bytes (pf_offset f) (pf_size f) b
             in if \<not> bytes_every x y
                then Some \<lparr>fd_name = pf_name f, fd_offset = pf_offset f, fd_size = pf_size f,
                           fd_a = x, fd_b = y\<rparr>
                else None)
        PREIMAGE_LAYOUT))"

section \<open>Keys and signatures\<close>

record keypair =
  kp_public :: bytes
  kp_seed :: "bytes option"

definition fromRawEd25519Seed :: "stellar_base \<Rightarrow> bytes \<Rightarrow> keypair" where
  "fromRawEd25519Seed lib seed = \<lparr>kp_public = sb_public lib seed, kp_seed = Some seed\<rparr>"

text \<open>
  \<open>IssuerSecret\<close>: an address text, a raw seed, a key pair of this copy of the library, one of another
  copy (its seed if it can sign), or anything else.
\<close>

datatype issuer_secret = SecretText string | SecretSeed bytes | SecretPair keypair
  | ForeignPair "bytes option" | SecretOther

definition toKeypair :: "stellar_base \<Rightarrow> issuer_secret \<Rightarrow> claim_error + keypair" where
  "toKeypair lib secret =
     (case secret of
        SecretText s \<Rightarrow>
          if \<not> sb_isSeed lib s then Inl InvalidInput
          else Inr (fromRawEd25519Seed lib (sb_decodeSeed lib s))
      | SecretSeed b \<Rightarrow>
          if length b \<noteq> 32 then Inl InvalidInput else Inr (fromRawEd25519Seed lib b)
      | SecretPair k \<Rightarrow> if kp_seed k = None then Inl InvalidInput else Inr k
      | ForeignPair None \<Rightarrow> Inl InvalidInput
      | ForeignPair (Some seed) \<Rightarrow>
          if length seed \<noteq> 32 then Inl InvalidInput else Inr (fromRawEd25519Seed lib seed)
      | SecretOther \<Rightarrow> Inl InvalidInput)"

definition issuerPublicKey :: "stellar_base \<Rightarrow> issuer_secret \<Rightarrow> claim_error + bytes" where
  "issuerPublicKey lib secret =
     (case toKeypair lib secret of Inl e \<Rightarrow> Inl e | Inr k \<Rightarrow> Inr (kp_public k))"

definition signClaim ::
  "stellar_base \<Rightarrow> claim \<Rightarrow> claim_context \<Rightarrow> issuer_secret \<Rightarrow> claim_error + (bytes \<times> bytes)" where
  "signClaim lib c ctx secret =
     (case encodeClaim lib c ctx of
        Inl e \<Rightarrow> Inl e
      | Inr preimage \<Rightarrow>
          (case assertReplayFields c of
             Inl e \<Rightarrow> Inl e
           | Inr _ \<Rightarrow>
               (case toKeypair lib secret of
                  Inl e \<Rightarrow> Inl e
                | Inr keypair \<Rightarrow>
                    if \<not> bytes_every (kp_public keypair) (cl_issuer c) then Inl IssuerMismatch
                    else Inr (preimage, sb_sign lib (the (kp_seed keypair)) preimage))))"

definition issuerFromStrkey :: "stellar_base \<Rightarrow> string \<Rightarrow> claim_error + bytes" where
  "issuerFromStrkey lib a =
     (if \<not> sb_isPublic lib a then Inl InvalidInput else Inr (sb_decodePublic lib a))"

definition issuerToStrkey :: "stellar_base \<Rightarrow> bytes \<Rightarrow> claim_error + string" where
  "issuerToStrkey lib k =
     (if length k \<noteq> 32 then Inl InvalidInput else Inr (sb_encodePublic lib k))"

section \<open>Checking a claim\<close>

datatype now_arg = NowDefault | NowNumber int | NowBigint int

text \<open>The clock is in milliseconds; a number that is not an integer is not modelled.\<close>

definition toUnixSeconds :: "instant \<Rightarrow> now_arg \<Rightarrow> claim_error + int" where
  "toUnixSeconds clock arg =
     (case arg of
        NowDefault \<Rightarrow> Inr (clock div 1000)
      | NowNumber n \<Rightarrow>
          if \<bar>n\<bar> > 9007199254740991 \<or> n < 0 then Inl InvalidInput else Inr n
      | NowBigint n \<Rightarrow> if \<not> is_u64 n then Inl InvalidInput else Inr n)"

definition verifyClaim ::
  "stellar_base \<Rightarrow> instant \<Rightarrow> claim \<Rightarrow> claim_context \<Rightarrow> bytes \<Rightarrow> now_arg \<Rightarrow> claim_error + unit" where
  "verifyClaim lib clock c ctx signature at_time =
     (if length signature \<noteq> 64 then Inl InvalidInput
      else case toUnixSeconds clock at_time of
        Inl e \<Rightarrow> Inl e
      | Inr secs \<Rightarrow>
          (case encodeClaim lib c ctx of
             Inl e \<Rightarrow> Inl e
           | Inr preimage \<Rightarrow>
               if cl_expiresAt c \<le> cl_issuedAt c then Inl InvalidWindow
               else if secs > cl_expiresAt c then Inl ClaimExpired
               else case assertReplayFields c of
                 Inl e \<Rightarrow> Inl e
               | Inr _ \<Rightarrow>
                   (let key = sb_decodePublic lib (sb_encodePublic lib (cl_issuer c)) in
                    if \<not> sb_verify lib key preimage signature then Inl InvalidSignature
                    else Inr ())))"

section \<open>Lemmas on the layout\<close>

lemma bytes_every_iff [simp]: "length xs = length ys \<Longrightarrow> bytes_every xs ys \<longleftrightarrow> xs = ys"
  by (auto simp: bytes_every_def list_all_iff intro: nth_equalityI)

lemma bytes_every_magic: "4 \<le> length p \<Longrightarrow> bytes_every MAGIC p \<longleftrightarrow> slice_bytes 0 4 p = MAGIC"
proof -
  assume "4 \<le> length p"
  then have "bytes_every MAGIC p \<longleftrightarrow> bytes_every MAGIC (slice_bytes 0 4 p)"
    by (auto simp: bytes_every_def list_all_iff slice_bytes_def MAGIC_def)
  then show ?thesis using \<open>4 \<le> length p\<close> by (auto simp: MAGIC_def byte_simps)
qed

lemma slice_append: "b = a + n \<Longrightarrow> slice_bytes a n p @ slice_bytes b m p = slice_bytes a (n + m) p"
  by (simp add: slice_bytes_def take_add add.commute [of n a])

lemma slice_append_more:
  "b = a + n \<Longrightarrow> slice_bytes a n p @ slice_bytes b m p @ r = slice_bytes a (n + m) p @ r"
  using slice_append [of b a n p m] by (metis append_assoc)

lemma slice_one: "i < length p \<Longrightarrow> slice_bytes i 1 p = [p ! i]"
  by (simp add: slice_bytes_def hd_drop_conv_nth take_Suc)

lemma update_set_bytes: "i < length p \<Longrightarrow> p[i := v] = set_bytes i [v] p"
  by (simp add: set_bytes_def upd_conv_take_nth_drop)

lemma layout_fields:
  "f \<in> set PREIMAGE_LAYOUT \<Longrightarrow> slice_field p (pf_name f) = slice_bytes (pf_offset f) (pf_size f) p"
  by (auto simp: PREIMAGE_LAYOUT_def slice_field_def)

lemma slice_field_simps [byte_simps]:
  "slice_field p F_magic = slice_bytes 0 4 p"
  "slice_field p F_version = slice_bytes 4 2 p"
  "slice_field p F_network_id = slice_bytes 6 32 p"
  "slice_field p F_contract = slice_bytes 38 32 p"
  "slice_field p F_issuer = slice_bytes 70 32 p"
  "slice_field p F_claim_type = slice_bytes 102 32 p"
  "slice_field p F_subject = slice_bytes 134 32 p"
  "slice_field p F_payload_hash = slice_bytes 166 32 p"
  "slice_field p F_claim_id = slice_bytes 208 32 p"
  by (simp_all add: slice_field_def PREIMAGE_LAYOUT_def)

text \<open>The regions are contiguous and cover the preimage.\<close>

lemma layout_covers:
  assumes "length p = PREIMAGE_LENGTH"
  shows "concat (map (\<lambda>f. slice_bytes (pf_offset f) (pf_size f) p) PREIMAGE_LAYOUT) = p"
proof -
  have "concat (map (\<lambda>f. slice_bytes (pf_offset f) (pf_size f) p) PREIMAGE_LAYOUT)
      = slice_bytes 0 256 p"
    by (simp add: PREIMAGE_LAYOUT_def slice_append slice_append_more)
  then show ?thesis using assms by (simp add: slice_bytes_def PREIMAGE_LENGTH_def)
qed

lemma preimage_ext:
  assumes "length p = PREIMAGE_LENGTH" "length q = PREIMAGE_LENGTH"
    and "list_all (\<lambda>f. slice_bytes (pf_offset f) (pf_size f) p = slice_bytes (pf_offset f) (pf_size f) q)
      PREIMAGE_LAYOUT"
  shows "p = q"
proof -
  have "map (\<lambda>f. slice_bytes (pf_offset f) (pf_size f) p) PREIMAGE_LAYOUT
      = map (\<lambda>f. slice_bytes (pf_offset f) (pf_size f) q) PREIMAGE_LAYOUT"
    using assms(3) by (simp add: list_all_iff)
  then show ?thesis using layout_covers [OF assms(1)] layout_covers [OF assms(2)] by metis
qed

text \<open>What a wire-valid claim leaves to write.\<close>

definition wire_fits :: "bytes \<Rightarrow> bytes \<Rightarrow> claim \<Rightarrow> wire_values \<Rightarrow> bool" where
  "wire_fits network contract c w \<longleftrightarrow>
     length network = 32 \<and> length contract = 32 \<and> length (cl_issuer c) = 32 \<and>
     length (cl_claimType c) = 32 \<and> length (cl_subject c) = 32 \<and> length (cl_payloadHash c) = 32 \<and>
     length (wv_claimId w) = 32 \<and> is_u64 (wv_nonce w) \<and> is_u64 (cl_issuedAt c) \<and>
     is_u64 (cl_expiresAt c)"

lemma wire_values_fit:
  "claimWireValues c = Inr w \<Longrightarrow> length network = 32 \<Longrightarrow> length contract = 32
    \<Longrightarrow> wire_fits network contract c w"
  by (auto simp: claimWireValues_def wire_fits_def Let_def is_u64_def U64_MAX_def
      split: if_splits option.splits js_value.splits)

lemma set_bytes_next:
  "length ys = off \<Longrightarrow> length xs \<le> n
    \<Longrightarrow> set_bytes off xs (ys @ zero_bytes n) = (ys @ xs) @ zero_bytes (n - length xs)"
  by (simp add: set_bytes_def zero_bytes_def)

lemma update_next:
  "length ys = off \<Longrightarrow> 0 < n \<Longrightarrow> (ys @ zero_bytes n)[off := v] = (ys @ [v]) @ zero_bytes (n - 1)"
  by (simp add: update_set_bytes set_bytes_next)

lemma write_preimage_concat:
  assumes "wire_fits network contract c w"
  shows "write_preimage network contract c w =
    MAGIC @ be_bytes 2 1 @ network @ contract @ cl_issuer c @ cl_claimType c @ cl_subject c @
    cl_payloadHash c @ [wv_encoding w] @ [wv_mode w] @ be_bytes 8 (wv_nonce w) @ wv_claimId w @
    be_bytes 8 (cl_issuedAt c) @ be_bytes 8 (cl_expiresAt c)"
proof -
  have "zero_bytes PREIMAGE_LENGTH = [] @ zero_bytes 256" "zero_bytes 0 = []"
    by (simp_all add: PREIMAGE_LENGTH_def zero_bytes_def)
  moreover have "length MAGIC = 4" by (simp add: MAGIC_def)
  ultimately show ?thesis
    using assms unfolding write_preimage_def wire_fits_def Let_def
    by (simp add: set_bytes_next update_next WIRE_VERSION_def del: append_assoc append.simps)
qed

lemma slice_skip:
  "length xs \<le> off \<Longrightarrow> slice_bytes off n (xs @ ys) = slice_bytes (off - length xs) n ys"
  by (simp add: slice_bytes_def)

lemma slice_here: "n = length xs \<Longrightarrow> slice_bytes 0 n (xs @ ys) = xs"
  by (simp add: slice_bytes_def)

lemma slice_all: "n = length xs \<Longrightarrow> slice_bytes 0 n xs = xs"
  by (simp add: slice_bytes_def)

lemma write_preimage_fields:
  assumes "wire_fits network contract c w"
  defines "p \<equiv> write_preimage network contract c w"
  shows "length p = PREIMAGE_LENGTH" "slice_bytes 0 4 p = MAGIC" "slice_bytes 4 2 p = be_bytes 2 1"
    "slice_bytes 6 32 p = network" "slice_bytes 38 32 p = contract"
    "slice_bytes 70 32 p = cl_issuer c" "slice_bytes 102 32 p = cl_claimType c"
    "slice_bytes 134 32 p = cl_subject c" "slice_bytes 166 32 p = cl_payloadHash c"
    "slice_bytes 198 1 p = [wv_encoding w]" "slice_bytes 199 1 p = [wv_mode w]"
    "slice_bytes 200 8 p = be_bytes 8 (wv_nonce w)" "slice_bytes 208 32 p = wv_claimId w"
    "slice_bytes 240 8 p = be_bytes 8 (cl_issuedAt c)"
    "slice_bytes 248 8 p = be_bytes 8 (cl_expiresAt c)"
proof -
  have m: "length MAGIC = 4" by (simp add: MAGIC_def)
  note facts = m slice_skip slice_here slice_all
  note p = p_def [unfolded write_preimage_concat [OF assms(1)]]
  have w: "length network = 32" "length contract = 32" "length (cl_issuer c) = 32"
    "length (cl_claimType c) = 32" "length (cl_subject c) = 32" "length (cl_payloadHash c) = 32"
    "length (wv_claimId w) = 32"
    using assms(1) by (simp_all add: wire_fits_def)
  show "length p = PREIMAGE_LENGTH" by (simp add: p w m PREIMAGE_LENGTH_def)
  show "slice_bytes 0 4 p = MAGIC" "slice_bytes 4 2 p = be_bytes 2 1"
    "slice_bytes 6 32 p = network" "slice_bytes 38 32 p = contract"
    "slice_bytes 70 32 p = cl_issuer c" "slice_bytes 102 32 p = cl_claimType c"
    "slice_bytes 134 32 p = cl_subject c" "slice_bytes 166 32 p = cl_payloadHash c"
    "slice_bytes 198 1 p = [wv_encoding w]" "slice_bytes 199 1 p = [wv_mode w]"
    "slice_bytes 200 8 p = be_bytes 8 (wv_nonce w)" "slice_bytes 208 32 p = wv_claimId w"
    "slice_bytes 240 8 p = be_bytes 8 (cl_issuedAt c)"
    "slice_bytes 248 8 p = be_bytes 8 (cl_expiresAt c)"
    by (simp_all only: p) (simp_all add: facts w del: append_Cons append_Nil append.simps be_bytes.simps)
qed

lemma encodeClaim_InrE:
  assumes "encodeClaim lib c ctx = Inr p" and "sizes_documented lib"
  obtains w k where "claimWireValues c = Inr w" "contractDigest lib (cx_contractId ctx) = Inr k"
    "p = write_preimage (networkId lib (cx_networkPassphrase ctx)) k c w"
    "wire_fits (networkId lib (cx_networkPassphrase ctx)) k c w"
proof -
  obtain w k where wk: "claimWireValues c = Inr w" "contractDigest lib (cx_contractId ctx) = Inr k"
    "p = write_preimage (networkId lib (cx_networkPassphrase ctx)) k c w"
    using assms(1) by (auto simp: encodeClaim_def Let_def split: sum.splits)
  moreover have "length (networkId lib (cx_networkPassphrase ctx)) = 32" "length k = 32"
    using assms(2) wk(2)
    by (auto simp: sizes_documented_def networkId_def sha256_def contractDigest_def Let_def split: if_splits)
  ultimately show thesis using that wire_values_fit by blast
qed

lemma encodeClaim_length:
  "encodeClaim lib c ctx = Inr p \<Longrightarrow> sizes_documented lib \<Longrightarrow> length p = PREIMAGE_LENGTH"
  by (erule encodeClaim_InrE) (auto simp: write_preimage_fields)

text \<open>A claim of the declared type has no inactive replay field.\<close>

definition declared_claim :: "claim \<Rightarrow> bool" where
  "declared_claim c \<longleftrightarrow>
     (rp_mode (cl_replay c) = ''sequence'' \<longrightarrow> rp_claimId (cl_replay c) = None) \<and>
     (rp_mode (cl_replay c) = ''unique-id'' \<longrightarrow> rp_nonce (cl_replay c) = None)"

lemma wire_values_replay:
  assumes "claimWireValues c = Inr w" "declared_claim c"
  shows "cl_replay c =
      (if wv_mode w = 0
       then \<lparr>rp_mode = ''sequence'', rp_nonce = Some (VBigint (wv_nonce w)), rp_claimId = None\<rparr>
       else \<lparr>rp_mode = ''unique-id'', rp_nonce = None, rp_claimId = Some (VBytes (wv_claimId w))\<rparr>)"
    and "cl_payloadEncoding c = (if wv_encoding w = 0 then ''raw'' else ''xdr'')"
  using assms
  by (auto simp: claimWireValues_def declared_claim_def Let_def intro!: replay_value.equality
      split: if_splits option.splits js_value.splits)

lemma declared_claim_eqI:
  assumes "claimWireValues c = Inr w" "claimWireValues c' = Inr w" "declared_claim c" "declared_claim c'"
    and "cl_issuer c = cl_issuer c'" "cl_claimType c = cl_claimType c'" "cl_subject c = cl_subject c'"
    and "cl_payloadHash c = cl_payloadHash c'" "cl_issuedAt c = cl_issuedAt c'"
    and "cl_expiresAt c = cl_expiresAt c'"
  shows "c = c'"
  using assms wire_values_replay [OF assms(1,3)] wire_values_replay [OF assms(2,4)]
  by (intro claim.equality) simp_all

lemma declared_replay_ok: "declared_claim c \<Longrightarrow> assertReplayFields c = Inr ()"
  by (auto simp: assertReplayFields_def declared_claim_def Let_def)

section \<open>Instances for the concrete checks\<close>

text \<open>A base library with the documented sizes: digests and keys are the padded input.\<close>

definition fit32 :: "bytes \<Rightarrow> bytes" where
  "fit32 b = take 32 (b @ zero_bytes 32)"

definition sample_base :: stellar_base where
  "sample_base =
     \<lparr>sb_hash = fit32, sb_isContract = (\<lambda>c. c \<noteq> []), sb_decodeContract = fit32 \<circ> utf8,
      sb_isPublic = (\<lambda>c. length c = 64), sb_decodePublic = hex_pairs, sb_encodePublic = toHex,
      sb_isSeed = (\<lambda>c. c \<noteq> []), sb_decodeSeed = fit32 \<circ> utf8, sb_public = fit32,
      sb_sign = (\<lambda>s m. fit32 s @ fit32 m), sb_verify = (\<lambda>k m s. s = k @ fit32 m)\<rparr>"

lemma length_fit32 [simp]: "length (fit32 b) = 32"
  by (simp add: fit32_def)

lemma sample_base_sizes: "sizes_documented sample_base"
  by (simp add: sizes_documented_def sample_base_def)

lemma sample_base_keys: "keys_documented sample_base"
  by (simp add: keys_documented_def sample_base_def)

definition sample_claim :: claim where
  "sample_claim =
     \<lparr>cl_issuer = fit32 [7], cl_claimType = fit32 [1], cl_subject = fit32 [2],
      cl_payloadHash = fit32 [3], cl_payloadEncoding = ''raw'',
      cl_replay = \<lparr>rp_mode = ''sequence'', rp_nonce = Some (VBigint 5), rp_claimId = None\<rparr>,
      cl_issuedAt = 100, cl_expiresAt = 200\<rparr>"

definition sample_context :: claim_context where
  "sample_context = \<lparr>cx_networkPassphrase = ''Test'', cx_contractId = ''C''\<rparr>"

lemma sample_wire: "claimWireValues sample_claim
    = Inr \<lparr>wv_encoding = 0, wv_mode = 0, wv_nonce = 5, wv_claimId = zero_bytes 32\<rparr>"
  by (simp add: claimWireValues_def sample_claim_def is_u64_def U64_MAX_def)

lemma sample_declared: "declared_claim sample_claim"
  by (simp add: declared_claim_def sample_claim_def)

lemma sample_digest: "contractDigest sample_base (cx_contractId sample_context) =
    Inr (fit32 (set_bytes 8 (fit32 (utf8 ''C'')) (set_bytes 0 [0, 0, 0, 0x12, 0, 0, 0, 1] (zero_bytes 40))))"
  by (simp add: contractDigest_def sample_base_def sample_context_def sha256_def)

lemma sample_encodes: "\<exists>p. encodeClaim sample_base sample_claim sample_context = Inr p"
  by (simp add: encodeClaim_def sample_wire sample_digest)

section \<open>Properties\<close>

text \<open>
  C22: The signed bytes bind everything: if two claims encode to the same preimage then they are the
  same claim, for the same network and contract digests, so that no field can be changed, moved
  between fields or reinterpreted under one signature.
\<close>

theorem preimage_binds:
  assumes "sizes_documented lib" "declared_claim c" "declared_claim c'"
    and "encodeClaim lib c ctx = Inr p" "encodeClaim lib c' ctx' = Inr p"
  shows "c = c' \<and> networkId lib (cx_networkPassphrase ctx) = networkId lib (cx_networkPassphrase ctx') \<and>
    contractDigest lib (cx_contractId ctx) = contractDigest lib (cx_contractId ctx')"
proof -
  obtain w k where 1: "claimWireValues c = Inr w" "contractDigest lib (cx_contractId ctx) = Inr k"
    "p = write_preimage (networkId lib (cx_networkPassphrase ctx)) k c w"
    "wire_fits (networkId lib (cx_networkPassphrase ctx)) k c w"
    using encodeClaim_InrE assms(1,4) by blast
  obtain w' k' where 2: "claimWireValues c' = Inr w'" "contractDigest lib (cx_contractId ctx') = Inr k'"
    "p = write_preimage (networkId lib (cx_networkPassphrase ctx')) k' c' w'"
    "wire_fits (networkId lib (cx_networkPassphrase ctx')) k' c' w'"
    using encodeClaim_InrE assms(1,5) by blast
  note f = write_preimage_fields [OF 1(4), folded 1(3)] and g = write_preimage_fields [OF 2(4), folded 2(3)]
  have u: "is_u64 x \<Longrightarrow> is_u64 y \<Longrightarrow> be_bytes 8 x = be_bytes 8 y \<Longrightarrow> x = y" for x y
    using u64_bytes.enc_eq_iff by blast
  have "w = w'"
    using f(10-13) g(10-13) 1(4) 2(4) u [of "wv_nonce w" "wv_nonce w'"]
    by (intro wire_values.equality) (simp_all add: wire_fits_def)
  moreover have "cl_issuedAt c = cl_issuedAt c'" "cl_expiresAt c = cl_expiresAt c'"
    using f(14,15) g(14,15) 1(4) 2(4) u by (simp_all add: wire_fits_def)
  ultimately have "c = c'"
    using f(6-9) g(6-9) 1(1) 2(1) assms(2,3) by (intro declared_claim_eqI [of c w c']) simp_all
  then show ?thesis using f(4,5) g(4,5) 1(2) 2(2) by simp
qed

lemma preimage_binds_witness:
  "\<exists>p. encodeClaim sample_base sample_claim sample_context = Inr p \<and> sample_claim = sample_claim"
proof -
  obtain p where "encodeClaim sample_base sample_claim sample_context = Inr p"
    using sample_encodes by blast
  then show ?thesis
    using preimage_binds [OF sample_base_sizes sample_declared sample_declared] by blast
qed

text \<open>
  A preimage is read back as it was written: version 1, both digests, the five byte fields, the wire
  values of the encoding and the replay mode with the inactive field zero, and the two times.
\<close>

theorem decode_encode:
  assumes "sizes_documented lib" "encodeClaim lib c ctx = Inr p" "claimWireValues c = Inr w"
    and "contractDigest lib (cx_contractId ctx) = Inr k"
  shows "decodePreimage p = Inr
    \<lparr>dp_version = 1, dp_networkId = networkId lib (cx_networkPassphrase ctx), dp_contractDigest = k,
     dp_issuer = cl_issuer c, dp_claimType = cl_claimType c, dp_subject = cl_subject c,
     dp_payloadHash = cl_payloadHash c, dp_payloadEncoding = wv_encoding w, dp_replayMode = wv_mode w,
     dp_nonce = wv_nonce w, dp_claimId = wv_claimId w, dp_issuedAt = cl_issuedAt c,
     dp_expiresAt = cl_expiresAt c\<rparr>"
proof -
  have p: "p = write_preimage (networkId lib (cx_networkPassphrase ctx)) k c w"
    and fits: "wire_fits (networkId lib (cx_networkPassphrase ctx)) k c w"
    using assms by (auto elim!: encodeClaim_InrE)
  note f = write_preimage_fields [OF fits, folded p]
  have "p ! 198 = wv_encoding w" "p ! 199 = wv_mode w"
    using f(10,11) slice_one [of 198 p] slice_one [of 199 p] f(1) by (simp_all add: PREIMAGE_LENGTH_def)
  moreover have "is_u64 v \<Longrightarrow> be_value (be_bytes 8 v) = v" for v
    using be_value_be_bytes [of 8 v] u64_mod [of v] by simp
  ultimately show ?thesis
    using f fits be_value_be_bytes [of 2 1]
    by (simp add: decodePreimage_def bytes_every_magic PREIMAGE_LENGTH_def slice_field_simps wire_fits_def
        del: be_bytes.simps)
qed

lemma decode_encode_witness:
  "\<exists>p. encodeClaim sample_base sample_claim sample_context = Inr p \<and>
    (case decodePreimage p of Inr d \<Rightarrow> dp_nonce d = 5 \<and> dp_expiresAt d = 200 | Inl _ \<Rightarrow> False)"
proof -
  obtain p where "encodeClaim sample_base sample_claim sample_context = Inr p"
    using sample_encodes by blast
  then show ?thesis
    using decode_encode [OF sample_base_sizes _ sample_wire sample_digest]
    by (simp add: sample_claim_def)
qed

text \<open>
  Nothing on the wire escapes the decoder: two preimages it accepts with the same fields are the same
  256 bytes.
\<close>

theorem decode_injective:
  assumes "decodePreimage p = Inr d" "decodePreimage q = Inr d"
  shows "p = q"
proof -
  have len: "length p = 256" "length q = 256"
    using assms by (auto simp: decodePreimage_def PREIMAGE_LENGTH_def split: if_splits)
  have n: "slice_bytes a k p = slice_bytes a k q"
    if "be_value (slice_bytes a k p) = be_value (slice_bytes a k q)" "a + k \<le> 256" for a k
    using be_value_inj [of "slice_bytes a k p" "slice_bytes a k q"] that len by (simp add: byte_simps)
  have m: "slice_bytes 0 4 p = MAGIC" "slice_bytes 0 4 q = MAGIC"
    using assms len by (auto simp: decodePreimage_def PREIMAGE_LENGTH_def bytes_every_magic split: if_splits)
  have e: "be_value (slice_bytes 4 2 p) = be_value (slice_bytes 4 2 q)"
    "be_value (slice_bytes 200 8 p) = be_value (slice_bytes 200 8 q)"
    "be_value (slice_bytes 240 8 p) = be_value (slice_bytes 240 8 q)"
    "be_value (slice_bytes 248 8 p) = be_value (slice_bytes 248 8 q)"
    "slice_bytes 6 32 p = slice_bytes 6 32 q" "slice_bytes 38 32 p = slice_bytes 38 32 q"
    "slice_bytes 70 32 p = slice_bytes 70 32 q" "slice_bytes 102 32 p = slice_bytes 102 32 q"
    "slice_bytes 134 32 p = slice_bytes 134 32 q" "slice_bytes 166 32 p = slice_bytes 166 32 q"
    "p ! 198 = q ! 198" "p ! 199 = q ! 199" "slice_bytes 208 32 p = slice_bytes 208 32 q"
    using assms by (auto simp: decodePreimage_def Let_def slice_field_simps split: if_splits)
  have "slice_bytes 198 1 p = slice_bytes 198 1 q" "slice_bytes 199 1 p = slice_bytes 199 1 q"
    using e(11,12) len slice_one [of 198] slice_one [of 199] by simp_all
  then show ?thesis
    using len m e(5-13) n [OF e(1)] n [OF e(2)] n [OF e(3)] n [OF e(4)]
    by (intro preimage_ext) (simp_all add: PREIMAGE_LENGTH_def PREIMAGE_LAYOUT_def)
qed

lemma decode_injective_witness:
  "\<exists>p d. decodePreimage p = Inr d \<and> dp_version d = 1 \<and> p = p"
proof -
  obtain p where p: "encodeClaim sample_base sample_claim sample_context = Inr p"
    using sample_encodes by blast
  obtain d where "decodePreimage p = Inr d \<and> dp_version d = 1"
    using decode_encode [OF sample_base_sizes p sample_wire sample_digest] by simp
  then show ?thesis using decode_injective by blast
qed

text \<open>
  The comparison names exactly the fields that differ, in the order of the layout, and names none
  only for identical bytes, whatever the preimages hold.
\<close>

theorem compare_exact:
  assumes "length a = PREIMAGE_LENGTH" "length b = PREIMAGE_LENGTH"
  shows "\<exists>ds. comparePreimages a b = Inr ds \<and>
    map fd_name ds = filter (\<lambda>n. slice_field a n \<noteq> slice_field b n) (map pf_name PREIMAGE_LAYOUT) \<and>
    (ds = [] \<longleftrightarrow> a = b)"
proof -
  let ?differ = "\<lambda>f. slice_bytes (pf_offset f) (pf_size f) a \<noteq> slice_bytes (pf_offset f) (pf_size f) b"
  have every: "bytes_every (slice_bytes (pf_offset f) (pf_size f) a) (slice_bytes (pf_offset f) (pf_size f) b)
      \<longleftrightarrow> \<not> ?differ f" for f
    using assms by (intro trans [OF bytes_every_iff]) (simp_all add: slice_bytes_def)
  obtain ds where ds: "comparePreimages a b = Inr ds"
    "map fd_name ds = map pf_name (filter ?differ PREIMAGE_LAYOUT)"
    using assms by (simp add: comparePreimages_def every map_filter_def Let_def comp_def cong: filter_cong)
  have names: "map pf_name (filter ?differ PREIMAGE_LAYOUT)
      = filter (\<lambda>n. slice_field a n \<noteq> slice_field b n) (map pf_name PREIMAGE_LAYOUT)"
    by (simp add: filter_map comp_def layout_fields cong: filter_cong)
  have "ds = [] \<longleftrightarrow> filter ?differ PREIMAGE_LAYOUT = []"
    using arg_cong [OF ds(2), of "\<lambda>l. l = []"] by (simp del: filter_empty_conv empty_filter_conv)
  also have "\<dots> \<longleftrightarrow> a = b"
    using preimage_ext [OF assms] by (auto simp: filter_empty_conv list_all_iff)
  finally show ?thesis using ds names by simp
qed

lemma compare_exact_witness:
  "\<exists>ds. comparePreimages (zero_bytes 256) (set_bytes 70 [1] (zero_bytes 256)) = Inr ds \<and> ds \<noteq> []"
proof -
  have "zero_bytes 256 \<noteq> set_bytes 70 [1] (zero_bytes 256)"
  proof
    assume "zero_bytes 256 = set_bytes 70 [1] (zero_bytes 256)"
    then have "slice_bytes 70 1 (zero_bytes 256) = slice_bytes 70 1 (set_bytes 70 [1] (zero_bytes 256))"
      by simp
    then show False by (subst (asm) slice_set_same) (simp_all add: slice_bytes_def zero_bytes_def)
  qed
  then show ?thesis
    using compare_exact [of "zero_bytes 256" "set_bytes 70 [1] (zero_bytes 256)"]
    by (auto simp: PREIMAGE_LENGTH_def byte_simps)
qed

text \<open>
  The off-chain check decides as the contract documents: a claim passes exactly when the shapes are
  right, the window is not empty, it has not expired at the given second (the last second included), the
  inactive replay field is not set, and the signature is the issuer's over this preimage.
\<close>

theorem verifyClaim_decides:
  assumes "keys_documented lib"
  shows "verifyClaim lib clock c ctx signature at_time = Inr () \<longleftrightarrow>
    (\<exists>secs p. length signature = 64 \<and> toUnixSeconds clock at_time = Inr secs \<and>
       encodeClaim lib c ctx = Inr p \<and> cl_issuedAt c < cl_expiresAt c \<and> secs \<le> cl_expiresAt c \<and>
       assertReplayFields c = Inr () \<and> sb_verify lib (cl_issuer c) p signature)"
proof -
  have "sb_decodePublic lib (sb_encodePublic lib (cl_issuer c)) = cl_issuer c"
    if "encodeClaim lib c ctx = Inr p" for p
    using that assms by (auto simp: encodeClaim_def claimWireValues_def keys_documented_def split: if_splits)
  then show ?thesis
    by (auto simp: verifyClaim_def Let_def split: sum.splits if_splits)
qed

lemma verifyClaim_decides_witness:
  "verifyClaim sample_base 150000 sample_claim sample_context (zero_bytes 64) NowDefault \<noteq> Inr ()"
proof -
  have "\<not> sb_verify sample_base (cl_issuer sample_claim) p (zero_bytes 64)" for p
  proof
    assume "sb_verify sample_base (cl_issuer sample_claim) p (zero_bytes 64)"
    then have "hd (zero_bytes 64) = hd (fit32 [7])"
      by (simp add: sample_base_def sample_claim_def fit32_def)
    then show False by (simp add: fit32_def zero_bytes_def)
  qed
  then show ?thesis
    by (simp add: verifyClaim_decides [OF sample_base_keys])
qed

text \<open>A key pair of the library holds the public key of its seed.\<close>

definition genuine_secret :: "stellar_base \<Rightarrow> issuer_secret \<Rightarrow> bool" where
  "genuine_secret lib secret =
     (case secret of
        SecretPair k \<Rightarrow> (case kp_seed k of Some s \<Rightarrow> kp_public k = sb_public lib s | None \<Rightarrow> True)
      | _ \<Rightarrow> True)"

lemma toKeypair_genuine:
  "toKeypair lib secret = Inr k \<Longrightarrow> genuine_secret lib secret
    \<Longrightarrow> \<exists>s. kp_seed k = Some s \<and> kp_public k = sb_public lib s"
  by (auto simp: toKeypair_def genuine_secret_def fromRawEd25519Seed_def
      split: issuer_secret.splits if_splits option.splits)

text \<open>
  What the issuer signs is accepted: a claim that is signed, with a window that is not empty, passes
  both checks of the SDK until it expires, and only the secret of the issuer it names can sign it.
\<close>

theorem signed_claim_verifies:
  assumes "sizes_documented lib" "keys_documented lib" "genuine_secret lib secret"
    and "signClaim lib c ctx secret = Inr (p, signature)"
    and "cl_issuedAt c < cl_expiresAt c" "toUnixSeconds clock at_time = Inr secs" "secs \<le> cl_expiresAt c"
  shows "verifyClaim lib clock c ctx signature at_time = Inr () \<and> verifyPreimage lib p signature = Inr () \<and>
    issuerPublicKey lib secret = Inr (cl_issuer c)"
proof -
  obtain k where enc: "encodeClaim lib c ctx = Inr p" and ok: "assertReplayFields c = Inr ()"
    and k: "toKeypair lib secret = Inr k" "bytes_every (kp_public k) (cl_issuer c)"
    and sig: "signature = sb_sign lib (the (kp_seed k)) p"
    using assms(4) by (auto simp: signClaim_def split: sum.splits if_splits)
  obtain s where s: "kp_seed k = Some s" "kp_public k = sb_public lib s"
    using toKeypair_genuine [OF k(1) assms(3)] by blast
  obtain w d where w: "claimWireValues c = Inr w" "contractDigest lib (cx_contractId ctx) = Inr d"
    using enc assms(1) by (auto elim: encodeClaim_InrE)
  have issuer: "kp_public k = cl_issuer c"
    using k(2) s(2) assms(1) wire_values_fit [OF w(1), of "zero_bytes 32" "zero_bytes 32"]
    by (simp add: sizes_documented_def wire_fits_def)
  have ver: "sb_verify lib (cl_issuer c) p signature" "length signature = 64"
    using s sig issuer assms(1,2) by (auto simp: sizes_documented_def keys_documented_def)
  have read: "sb_decodePublic lib (sb_encodePublic lib (cl_issuer c)) = cl_issuer c"
    using issuer s(2) assms(1,2) unfolding sizes_documented_def keys_documented_def by metis
  show ?thesis
    using ver ok enc assms(5-7) k(1) issuer read decode_encode [OF assms(1) enc w]
    by (auto simp: verifyClaim_decides [OF assms(2)] verifyPreimage_def issuerPublicKey_def)
qed

lemma signed_claim_verifies_witness:
  "\<exists>p sg. signClaim sample_base sample_claim sample_context (SecretText [char_of (7 :: nat)]) = Inr (p, sg) \<and>
    verifyClaim sample_base 200999 sample_claim sample_context sg NowDefault = Inr ()"
proof -
  let ?s = "SecretText [char_of (7 :: nat)]"
  obtain p where p: "encodeClaim sample_base sample_claim sample_context = Inr p"
    using sample_encodes by blast
  have "toKeypair sample_base ?s = Inr (fromRawEd25519Seed sample_base (fit32 [7]))"
    by (simp add: toKeypair_def sample_base_def fromRawEd25519Seed_def utf8_def utf8_char_def)
  moreover have "bytes_every (fit32 (fit32 [7])) (cl_issuer sample_claim)"
    by (simp add: sample_claim_def fit32_def)
  ultimately obtain sg where sg: "signClaim sample_base sample_claim sample_context ?s = Inr (p, sg)"
    using p declared_replay_ok [OF sample_declared]
    by (simp add: signClaim_def fromRawEd25519Seed_def sample_base_def)
  have "genuine_secret sample_base ?s" by (simp add: genuine_secret_def)
  then show ?thesis
    using sg signed_claim_verifies [OF sample_base_sizes sample_base_keys _ sg, of 200999 NowDefault 200]
    by (simp add: toUnixSeconds_def sample_claim_def)
qed

end
