(* ===== verification/ClaimJson.thy ===== *)
theory ClaimJson
  imports Claims
begin

text \<open>
  The portable JSON form of a claim, \<open>packages/sdk/src/json.ts\<close>. The parser takes the value; the step
  from text to a value, \<open>JSON.parse\<close>, is not modelled. A number of the model is an integer.
\<close>

section \<open>Writing\<close>

definition JSON_KEYS :: "string list" where
  "JSON_KEYS =
     [''issuer'', ''claim_type'', ''subject'', ''payload_hash'', ''payload_encoding'', ''replay_mode'',
      ''nonce'', ''claim_id'', ''issued_at'', ''expires_at'']"

definition claimToJSON :: "claim \<Rightarrow> claim_error + json" where
  "claimToJSON c =
     (case claimWireValues c of
        Inl e \<Rightarrow> Inl e
      | Inr w \<Rightarrow>
          (case assertReplayFields c of
             Inl e \<Rightarrow> Inl e
           | Inr _ \<Rightarrow> Inr (JObj
               [(''issuer'', JStr (toHex (cl_issuer c))),
                (''claim_type'', JStr (toHex (cl_claimType c))),
                (''subject'', JStr (toHex (cl_subject c))),
                (''payload_hash'', JStr (toHex (cl_payloadHash c))),
                (''payload_encoding'', JNum (uint (wv_encoding w))),
                (''replay_mode'', JNum (uint (wv_mode w))),
                (''nonce'', JStr (show_int (wv_nonce w))),
                (''claim_id'', JStr (toHex (wv_claimId w))),
                (''issued_at'', JStr (show_int (cl_issuedAt c))),
                (''expires_at'', JStr (show_int (cl_expiresAt c)))])))"

section \<open>Reading\<close>

definition hex32 :: "json option \<Rightarrow> claim_error + bytes" where
  "hex32 value =
     (case value of
        Some (JStr s) \<Rightarrow>
          if length s = 64 \<and> list_all hex_char s
          then (case fromHex s of Some b \<Rightarrow> Inr b | None \<Rightarrow> Inl InvalidInput)
          else Inl InvalidInput
      | _ \<Rightarrow> Inl InvalidInput)"

text \<open>\<open>/^(0|[1-9][0-9]*)$/\<close>.\<close>

definition decimal_u64 :: "string \<Rightarrow> bool" where
  "decimal_u64 s \<longleftrightarrow> s = ''0'' \<or> all_digits s \<and> hd s \<noteq> CHR ''0''"

definition json_u64 :: "json option \<Rightarrow> claim_error + int" where
  "json_u64 value =
     (case value of
        Some (JNum n) \<Rightarrow>
          if \<bar>n\<bar> > 9007199254740991 \<or> n < 0 then Inl InvalidInput else Inr n
      | Some (JStr s) \<Rightarrow>
          if decimal_u64 s \<and> int (digits_val s) \<le> U64_MAX then Inr (int (digits_val s))
          else Inl InvalidInput
      | _ \<Rightarrow> Inl InvalidInput)"

definition json_flag :: "json option \<Rightarrow> claim_error + int" where
  "json_flag value =
     (if value = Some (JNum 0) then Inr 0 else if value = Some (JNum 1) then Inr 1
      else Inl InvalidInput)"

text \<open>The inactive field is kept when it is not zero.\<close>

definition json_replay :: "int \<Rightarrow> int \<Rightarrow> bytes \<Rightarrow> replay_value" where
  "json_replay mode nonce claim_id =
     (if mode = 0
      then \<lparr>rp_mode = ''sequence'', rp_nonce = Some (VBigint nonce),
            rp_claimId = (if \<not> isZero claim_id then Some (VBytes claim_id) else None)\<rparr>
      else \<lparr>rp_mode = ''unique-id'', rp_nonce = (if nonce \<noteq> 0 then Some (VBigint nonce) else None),
            rp_claimId = Some (VBytes claim_id)\<rparr>)"

definition claimFromJSON :: "json \<Rightarrow> claim_error + claim" where
  "claimFromJSON v =
     (case v of
        JObj mems \<Rightarrow>
          if \<not> list_all (\<lambda>(k, _). k \<in> set JSON_KEYS) mems then Inl InvalidInput
          else if \<not> list_all (\<lambda>k. map_of mems k \<noteq> None) JSON_KEYS then Inl InvalidInput
          else
            bind_ok (hex32 (map_of mems ''issuer'')) (\<lambda>issuer.
            bind_ok (hex32 (map_of mems ''claim_type'')) (\<lambda>claim_type.
            bind_ok (hex32 (map_of mems ''subject'')) (\<lambda>subject.
            bind_ok (hex32 (map_of mems ''payload_hash'')) (\<lambda>payload_hash.
            bind_ok (json_flag (map_of mems ''payload_encoding'')) (\<lambda>encoding.
            bind_ok (json_flag (map_of mems ''replay_mode'')) (\<lambda>mode.
            bind_ok (json_u64 (map_of mems ''nonce'')) (\<lambda>nonce.
            bind_ok (hex32 (map_of mems ''claim_id'')) (\<lambda>claim_id.
            bind_ok (json_u64 (map_of mems ''issued_at'')) (\<lambda>issued_at.
            bind_ok (json_u64 (map_of mems ''expires_at'')) (\<lambda>expires_at.
              Inr \<lparr>cl_issuer = issuer, cl_claimType = claim_type, cl_subject = subject,
                   cl_payloadHash = payload_hash,
                   cl_payloadEncoding = (if encoding = 0 then ''raw'' else ''xdr''),
                   cl_replay = json_replay mode nonce claim_id, cl_issuedAt = issued_at,
                   cl_expiresAt = expires_at\<rparr>))))))))))
      | _ \<Rightarrow> Inl InvalidInput)"

section \<open>Lemmas\<close>

lemma hex32_toHex [simp]: "length b = 32 \<Longrightarrow> hex32 (Some (JStr (toHex b))) = Inr b"
  by (simp add: hex32_def)

lemma hex32_length: "hex32 v = Inr b \<Longrightarrow> length b = 32"
  by (auto simp: hex32_def fromHex_def length_hex_pairs split: option.splits json.splits if_splits)

lemma json_u64_range: "json_u64 v = Inr n \<Longrightarrow> is_u64 n"
  by (auto simp: json_u64_def is_u64_def U64_MAX_def split: option.splits json.splits if_splits)

lemma show_nat_head: "0 < n \<Longrightarrow> hd (show_nat n) \<noteq> CHR ''0''"
proof (induction n rule: show_nat.induct)
  case (1 n)
  show ?case
  proof (cases "n < 10")
    case True
    then have "code_unit (digit_char n) \<noteq> (48 :: nat)"
      using "1.prems" by (simp add: code_unit_digit_char)
    then show ?thesis using True by (subst show_nat.simps) auto
  next
    case False
    then show ?thesis using "1.IH" by (subst show_nat.simps) simp
  qed
qed

lemma decimal_show: "decimal_u64 (show_nat n)"
proof (cases "n = 0")
  case True
  then have "show_nat n = ''0''" by (simp add: show_nat.simps digit_char_def) code_simp
  then show ?thesis by (simp add: decimal_u64_def)
qed (simp add: decimal_u64_def all_digits_show_nat show_nat_head)

lemma json_u64_show [simp]: "is_u64 n \<Longrightarrow> json_u64 (Some (JStr (show_int n))) = Inr n"
  by (auto simp: json_u64_def show_int_def is_u64_def decimal_show digits_val_show_nat)

lemma claimFromJSON_InrE:
  assumes "claimFromJSON (JObj mems) = Inr c"
  obtains encoding mode nonce claim_id where
    "hex32 (map_of mems ''issuer'') = Inr (cl_issuer c)"
    "hex32 (map_of mems ''claim_type'') = Inr (cl_claimType c)"
    "hex32 (map_of mems ''subject'') = Inr (cl_subject c)"
    "hex32 (map_of mems ''payload_hash'') = Inr (cl_payloadHash c)"
    "json_flag (map_of mems ''payload_encoding'') = Inr encoding"
    "json_flag (map_of mems ''replay_mode'') = Inr mode"
    "json_u64 (map_of mems ''nonce'') = Inr nonce"
    "hex32 (map_of mems ''claim_id'') = Inr claim_id"
    "json_u64 (map_of mems ''issued_at'') = Inr (cl_issuedAt c)"
    "json_u64 (map_of mems ''expires_at'') = Inr (cl_expiresAt c)"
    "cl_payloadEncoding c = (if encoding = 0 then ''raw'' else ''xdr'')"
    "cl_replay c = json_replay mode nonce claim_id"
  using assms unfolding claimFromJSON_def json.case guard_Inr_iff bind_ok_Inr_iff sum.inject
  by (elim exE conjE, hypsubst) (rule that, auto)

lemma json_replay_ok:
  "is_u64 nonce \<Longrightarrow> length claim_id = 32 \<Longrightarrow> length (cl_issuer c) = 32 \<Longrightarrow> length (cl_claimType c) = 32
    \<Longrightarrow> length (cl_subject c) = 32 \<Longrightarrow> length (cl_payloadHash c) = 32 \<Longrightarrow> is_u64 (cl_issuedAt c)
    \<Longrightarrow> is_u64 (cl_expiresAt c) \<Longrightarrow> cl_payloadEncoding c = (if encoding = (0 :: int) then ''raw'' else ''xdr'')
    \<Longrightarrow> cl_replay c = json_replay mode nonce claim_id
    \<Longrightarrow> \<exists>w. claimWireValues c = Inr w \<and> is_u64 (wv_nonce w) \<and> length (wv_claimId w) = 32"
  by (simp add: claimWireValues_def json_replay_def) (simp add: is_u64_def U64_MAX_def)

section \<open>Reading back\<close>

lemma claimFromJSON_members:
  "claimFromJSON (JObj
      [(''issuer'', a), (''claim_type'', b), (''subject'', c), (''payload_hash'', d),
       (''payload_encoding'', e), (''replay_mode'', f), (''nonce'', g), (''claim_id'', h),
       (''issued_at'', i), (''expires_at'', j)]) =
    bind_ok (hex32 (Some a)) (\<lambda>issuer. bind_ok (hex32 (Some b)) (\<lambda>claim_type.
    bind_ok (hex32 (Some c)) (\<lambda>subject. bind_ok (hex32 (Some d)) (\<lambda>payload_hash.
    bind_ok (json_flag (Some e)) (\<lambda>encoding. bind_ok (json_flag (Some f)) (\<lambda>mode.
    bind_ok (json_u64 (Some g)) (\<lambda>nonce. bind_ok (hex32 (Some h)) (\<lambda>claim_id.
    bind_ok (json_u64 (Some i)) (\<lambda>issued_at. bind_ok (json_u64 (Some j)) (\<lambda>expires_at.
      Inr \<lparr>cl_issuer = issuer, cl_claimType = claim_type, cl_subject = subject,
           cl_payloadHash = payload_hash, cl_payloadEncoding = (if encoding = 0 then ''raw'' else ''xdr''),
           cl_replay = json_replay mode nonce claim_id, cl_issuedAt = issued_at,
           cl_expiresAt = expires_at\<rparr>))))))))))"
  by (simp add: claimFromJSON_def JSON_KEYS_def)

lemma wire_bits:
  assumes "claimWireValues c = Inr w"
  shows "wv_encoding w = 0 \<or> wv_encoding w = 1"
    and "wv_mode w = 0 \<and> wv_claimId w = zero_bytes 32 \<or> wv_mode w = 1 \<and> wv_nonce w = 0"
  using assms by (auto simp: claimWireValues_def Let_def split: if_splits option.splits js_value.splits)

lemma claim_read_back:
  assumes "declared_claim c" "claimToJSON c = Inr v"
  shows "claimFromJSON v = Inr c"
proof -
  obtain w where w: "claimWireValues c = Inr w"
    using assms(2) by (auto simp: claimToJSON_def split: sum.splits)
  have fits: "wire_fits (zero_bytes 32) (zero_bytes 32) c w"
    using wire_values_fit [OF w] by simp
  have flags: "json_flag (Some (JNum (uint (wv_encoding w)))) = Inr (uint (wv_encoding w))"
    "json_flag (Some (JNum (uint (wv_mode w)))) = Inr (uint (wv_mode w))"
    using wire_bits [OF w] by (auto simp: json_flag_def)
  have "cl_payloadEncoding c = (if uint (wv_encoding w) = 0 then ''raw'' else ''xdr'')"
    "cl_replay c = json_replay (uint (wv_mode w)) (wv_nonce w) (wv_claimId w)"
    using wire_bits [OF w] wire_values_replay [OF w assms(1)] by (auto simp: json_replay_def)
  then show ?thesis
    using fits assms(2) declared_replay_ok [OF assms(1)]
    by (auto simp: claimToJSON_def w claimFromJSON_members flags wire_fits_def)
qed

definition claim_written :: "claim \<Rightarrow> bool" where
  "claim_written c \<longleftrightarrow> declared_claim c \<and> (\<exists>v. claimToJSON c = Inr v)"

interpretation claim_json: codec claimToJSON
  "\<lambda>r. case r of Inr v \<Rightarrow> (case claimFromJSON v of Inr c \<Rightarrow> Some c | Inl _ \<Rightarrow> None) | Inl _ \<Rightarrow> None"
  claim_written
  by unfold_locales (auto simp: claim_written_def dest: claim_read_back)

lemma sample_written: "\<exists>v. claimToJSON sample_claim = Inr v"
  using declared_replay_ok [OF sample_declared] by (simp add: claimToJSON_def sample_wire)

section \<open>Properties\<close>

text \<open>
  C29: What is parsed is well formed: a claim read from JSON has fields of 32 bytes, times and nonce that
  fit a u64 and a known encoding and mode, so that its wire values exist and it can be encoded.
\<close>

theorem parsed_claim_well_formed:
  assumes "claimFromJSON v = Inr c"
  shows "\<exists>w. claimWireValues c = Inr w \<and> is_u64 (wv_nonce w) \<and> length (wv_claimId w) = 32 \<and>
    is_u64 (cl_issuedAt c) \<and> is_u64 (cl_expiresAt c)"
proof (cases v)
  case (JObj mems)
  show ?thesis
    using assms unfolding JObj
  proof (rule claimFromJSON_InrE)
    fix encoding mode nonce :: int and claim_id
    assume r: "hex32 (map_of mems ''issuer'') = Inr (cl_issuer c)"
      "hex32 (map_of mems ''claim_type'') = Inr (cl_claimType c)"
      "hex32 (map_of mems ''subject'') = Inr (cl_subject c)"
      "hex32 (map_of mems ''payload_hash'') = Inr (cl_payloadHash c)"
      "hex32 (map_of mems ''claim_id'') = Inr claim_id"
      "json_u64 (map_of mems ''nonce'') = Inr nonce"
      "json_u64 (map_of mems ''issued_at'') = Inr (cl_issuedAt c)"
      "json_u64 (map_of mems ''expires_at'') = Inr (cl_expiresAt c)"
      and enc: "cl_payloadEncoding c = (if encoding = 0 then ''raw'' else ''xdr'')"
      and replay: "cl_replay c = json_replay mode nonce claim_id"
    note len = r(1-5) [THEN hex32_length] and range = r(6-8) [THEN json_u64_range]
    show ?thesis
      using json_replay_ok [OF range(1) len(5) len(1-4) range(2,3) enc replay] range by blast
  qed
qed (use assms in \<open>simp_all add: claimFromJSON_def\<close>)

lemma parsed_claim_well_formed_witness:
  "\<exists>v c w. claimFromJSON v = Inr c \<and> claimWireValues c = Inr w"
proof -
  obtain v where "claimFromJSON v = Inr sample_claim"
    using sample_written claim_read_back [OF sample_declared] by blast
  then show ?thesis using parsed_claim_well_formed by blast
qed

text \<open>
  JSON keeps the claim: a declared claim that is written is read back as the same claim, and no other
  declared claim has that record, whatever its replay mode; u64 values above the integers that a JSON
  number can hold survive.
\<close>

theorem json_roundtrip:
  assumes "declared_claim c" "declared_claim c'" "claimToJSON c = Inr v"
  shows "claimFromJSON v = Inr c \<and> (claimToJSON c' = Inr v \<longleftrightarrow> c' = c)"
  using claim_read_back [OF assms(1,3)] claim_json.enc_eq_iff [of c c'] assms
  by (auto simp: claim_written_def)

lemma json_roundtrip_witness:
  "\<exists>v. claimToJSON sample_claim = Inr v \<and> claimFromJSON v = Inr sample_claim"
proof -
  obtain v where "claimToJSON sample_claim = Inr v"
    using sample_written by blast
  then show ?thesis using json_roundtrip [OF sample_declared sample_declared] by blast
qed

text \<open>
  An inactive replay field that is not zero is kept by the parser, so that the check refuses the claim
  with the error of the contract instead of signing another claim than the one that was written: a
  parsed claim fails the replay check exactly when its record carried both fields.
\<close>

theorem parsed_replay_conflict_reported:
  assumes "claimFromJSON (JObj ms) = Inr c" "hex32 (map_of ms ''claim_id'') = Inr i"
    and "json_u64 (map_of ms ''nonce'') = Inr n"
  shows "assertReplayFields c =
    (if map_of ms ''replay_mode'' = Some (JNum 0) \<and> \<not> isZero i \<or>
        map_of ms ''replay_mode'' \<noteq> Some (JNum 0) \<and> n \<noteq> 0
     then Inl InvalidReplayFields else Inr ())"
  using assms(1)
proof (rule claimFromJSON_InrE)
  fix encoding mode nonce claim_id
  assume "json_flag (map_of ms ''replay_mode'') = Inr mode"
    "json_u64 (map_of ms ''nonce'') = Inr nonce" "hex32 (map_of ms ''claim_id'') = Inr claim_id"
    "cl_replay c = json_replay mode nonce claim_id"
  then show ?thesis
    using assms(2,3) by (auto simp: json_flag_def json_replay_def assertReplayFields_def split: if_splits)
qed

lemma parsed_replay_conflict_reported_witness:
  "\<exists>c. claimFromJSON (JObj
      [(''issuer'', JStr (toHex (fit32 [7]))), (''claim_type'', JStr (toHex (fit32 [7]))),
       (''subject'', JStr (toHex (fit32 [7]))), (''payload_hash'', JStr (toHex (fit32 [7]))),
       (''payload_encoding'', JNum 0), (''replay_mode'', JNum 1), (''nonce'', JStr ''9''),
       (''claim_id'', JStr (toHex (fit32 [7]))), (''issued_at'', JNum 1), (''expires_at'', JNum 2)]) = Inr c \<and>
    assertReplayFields c = Inl InvalidReplayFields"
  (is "\<exists>c. claimFromJSON (JObj ?ms) = Inr c \<and> _")
proof -
  have n: "json_u64 (Some (JStr ''9'')) = Inr 9"
    by (simp add: json_u64_def decimal_u64_def U64_MAX_def all_digits_def is_digit_def digit_val_def)
  have t: "json_u64 (Some (JNum 1)) = Inr 1" "json_u64 (Some (JNum 2)) = Inr 2"
    by (simp_all add: json_u64_def)
  obtain c where c: "claimFromJSON (JObj ?ms) = Inr c"
    by (simp add: claimFromJSON_members n t json_flag_def)
  have "hex32 (map_of ?ms ''claim_id'') = Inr (fit32 [7])" "json_u64 (map_of ?ms ''nonce'') = Inr 9"
    by (simp_all add: n)
  from parsed_replay_conflict_reported [OF c this] show ?thesis using c by simp
qed

end
