(* ===== verification/OracleProof.thy ===== *)
theory OracleProof
  imports ClaimBytes
begin

text \<open>
  The oracle's signing service, \<open>src/lib/oracle/index.ts\<close>: the 198 bytes it signs, the key it keeps in the
  module, and the signature as base64 text. The hash, the address encoding and the Ed25519 operations
  are the parameter \<open>oracle_lib\<close>; \<open>process.env\<close> and the module's cache are arguments.
\<close>

section \<open>The library below\<close>

record oracle_lib =
  ol_hash :: "bytes \<Rightarrow> bytes"                \<comment> \<open>SHA-256\<close>
  ol_addressXdr :: "address \<Rightarrow> bytes option"  \<comment> \<open>\<open>nativeToScVal(a).toXDR()\<close>, \<open>None\<close> when it throws\<close>
  ol_public :: "bytes \<Rightarrow> bytes"              \<comment> \<open>raw seed to raw public key\<close>
  ol_sign :: "bytes \<Rightarrow> bytes \<Rightarrow> bytes"
  ol_verify :: "bytes \<Rightarrow> bytes \<Rightarrow> bytes \<Rightarrow> bool option"  \<comment> \<open>public key, message, signature; \<open>None\<close> when it throws\<close>

definition oracle_lib_documented :: "oracle_lib \<Rightarrow> bool" where
  "oracle_lib_documented lib \<longleftrightarrow>
     (\<forall>x. length (ol_hash lib x) = 32) \<and>
     (\<forall>s m. ol_verify lib (ol_public lib s) m (ol_sign lib s m) = Some True)"

datatype proof_error = OracleKeyMissing | RangeError | AddressError | PreimageLength

section \<open>The key\<close>

text \<open>The cache holds the raw seed of the key pair. A key that is cached is used whatever the environment says.\<close>

definition getOracleKeypair :: "string option \<Rightarrow> bytes option \<Rightarrow> (proof_error + bytes) \<times> bytes option" where
  "getOracleKeypair seedHex cache =
     (case cache of
        Some seed \<Rightarrow> (Inr seed, cache)
      | None \<Rightarrow>
          if \<not> truthy seedHex \<or> \<not> (length (the seedHex) = 64 \<and> list_all hex_char (the seedHex))
          then (Inl OracleKeyMissing, cache)
          else (let seed = hex_pairs (the seedHex) in (Inr seed, Some seed)))"

definition getOraclePublicKeyHex ::
  "oracle_lib \<Rightarrow> string option \<Rightarrow> bytes option \<Rightarrow> (proof_error + string) \<times> bytes option" where
  "getOraclePublicKeyHex lib seedHex cache =
     (let (r, cache') = getOracleKeypair seedHex cache in
      (bind_ok r (\<lambda>seed. Inr (toHex (ol_public lib seed))), cache'))"

section \<open>Integers\<close>

text \<open>\<open>n >>> 0\<close> wraps; \<open>writeBigUInt64BE\<close> throws out of range.\<close>

definition u16be :: "int \<Rightarrow> bytes" where
  "u16be n = be_bytes 2 n"

definition u32be :: "int \<Rightarrow> bytes" where
  "u32be n = be_bytes 4 (n mod 2 ^ 32)"

definition u64be :: "int \<Rightarrow> proof_error + bytes" where
  "u64be n = (if is_u64 n then Inr (be_bytes 8 n) else Inl RangeError)"

text \<open>The loop of \<open>i128be\<close> fills the buffer from its last byte to its first.\<close>

fun i128_fill :: "nat \<Rightarrow> int \<Rightarrow> bytes \<Rightarrow> bytes" where
  "i128_fill 0 v b = b"
| "i128_fill (Suc i) v b = i128_fill i (v div 256) (b[i := word_of_int (v mod 256)])"

definition i128be :: "int \<Rightarrow> bytes" where
  "i128be n = i128_fill 16 (n mod 2 ^ 128) (zero_bytes 16)"

section \<open>The message\<close>

definition PROOF_MAGIC :: bytes where
  "PROOF_MAGIC = [0x43, 0x46, 0x57, 0x50]"

definition PROOF_VERSION :: int where
  "PROOF_VERSION = 2"

definition PROOF_MESSAGE_BYTES :: nat where
  "PROOF_MESSAGE_BYTES = 198"

definition proof_networkId :: "oracle_lib \<Rightarrow> string \<Rightarrow> bytes" where
  "proof_networkId lib passphrase = ol_hash lib (utf8 passphrase)"

definition addressDigest :: "oracle_lib \<Rightarrow> address \<Rightarrow> proof_error + bytes" where
  "addressDigest lib a =
     (case ol_addressXdr lib a of None \<Rightarrow> Inl AddressError | Some xdr \<Rightarrow> Inr (ol_hash lib xdr))"

record proof_context =
  pc_networkPassphrase :: string
  pc_contractId :: address
  pc_worker :: address
  pc_token :: address
  pc_amount :: int
  pc_startDate :: int
  pc_endDate :: int

definition buildProofMessage ::
  "oracle_lib \<Rightarrow> proof_context \<Rightarrow> int \<Rightarrow> int \<Rightarrow> int \<Rightarrow> int \<Rightarrow> proof_error + bytes" where
  "buildProofMessage lib ctx escrowId paymentId hours nonce =
     bind_ok (addressDigest lib (pc_contractId ctx)) (\<lambda>contract.
     bind_ok (addressDigest lib (pc_worker ctx)) (\<lambda>worker.
     bind_ok (addressDigest lib (pc_token ctx)) (\<lambda>token.
     bind_ok (u64be (pc_startDate ctx)) (\<lambda>startDate.
     bind_ok (u64be (pc_endDate ctx)) (\<lambda>endDate.
     bind_ok (u64be nonce) (\<lambda>nonceBytes.
       let msg = concat
         [PROOF_MAGIC, u16be PROOF_VERSION, proof_networkId lib (pc_networkPassphrase ctx),
          contract, worker, token, u32be escrowId, u32be paymentId, i128be (pc_amount ctx),
          i128be hours, startDate, endDate, nonceBytes]
       in if length msg \<noteq> PROOF_MESSAGE_BYTES then Inl PreimageLength else Inr msg))))))"

section \<open>Base64\<close>

definition b64_char :: "nat \<Rightarrow> char" where
  "b64_char n =
     (if n < 26 then char_of (65 + n) else if n < 52 then char_of (71 + n)
      else if n < 62 then char_of (n - 4) else if n = 62 then CHR ''+'' else CHR ''/'')"

fun to_base64 :: "bytes \<Rightarrow> string" where
  "to_base64 (a # b # c # bs) =
     b64_char (unat a div 4) # b64_char (unat a mod 4 * 16 + unat b div 16) #
     b64_char (unat b mod 16 * 4 + unat c div 64) # b64_char (unat c mod 64) # to_base64 bs"
| "to_base64 [a, b] =
     [b64_char (unat a div 4), b64_char (unat a mod 4 * 16 + unat b div 16),
      b64_char (unat b mod 16 * 4), CHR ''='']"
| "to_base64 [a] = [b64_char (unat a div 4), b64_char (unat a mod 4 * 16), CHR ''='', CHR ''='']"
| "to_base64 [] = []"

text \<open>
  \<open>Buffer.from(s, 'base64')\<close> also takes the URL alphabet, passes over other characters and stops at the
  padding.
\<close>

definition b64_val :: "char \<Rightarrow> nat option" where
  "b64_val c =
     (let n = code_unit c in
      if 65 \<le> n \<and> n \<le> 90 then Some (n - 65) else if 97 \<le> n \<and> n \<le> 122 then Some (n - 71)
      else if 48 \<le> n \<and> n \<le> 57 then Some (n + 4)
      else if c = CHR ''+'' \<or> c = CHR ''-'' then Some 62
      else if c = CHR ''/'' \<or> c = CHR ''_'' then Some 63 else None)"

fun sextets :: "nat list \<Rightarrow> bytes" where
  "sextets (p # q # r # s # xs) =
     of_nat (p * 4 + q div 16) # of_nat (q mod 16 * 16 + r div 4) # of_nat (r mod 4 * 64 + s) # sextets xs"
| "sextets [p, q, r] = [of_nat (p * 4 + q div 16), of_nat (q mod 16 * 16 + r div 4)]"
| "sextets [p, q] = [of_nat (p * 4 + q div 16)]"
| "sextets _ = []"

definition from_base64 :: "string \<Rightarrow> bytes" where
  "from_base64 s = sextets (List.map_filter b64_val (takeWhile (\<lambda>c. c \<noteq> CHR ''='') s))"

section \<open>Signing and checking\<close>

definition signHoursProof ::
  "oracle_lib \<Rightarrow> string option \<Rightarrow> bytes option \<Rightarrow> proof_context \<Rightarrow> int \<Rightarrow> int \<Rightarrow> int \<Rightarrow> int \<Rightarrow>
   (proof_error + string) \<times> bytes option" where
  "signHoursProof lib seedHex cache ctx escrowId paymentId hours nonce =
     (case buildProofMessage lib ctx escrowId paymentId hours nonce of
        Inl e \<Rightarrow> (Inl e, cache)
      | Inr msg \<Rightarrow>
          (let (r, cache') = getOracleKeypair seedHex cache in
           (bind_ok r (\<lambda>seed. Inr (to_base64 (ol_sign lib seed msg))), cache')))"

definition verifyHoursProof ::
  "oracle_lib \<Rightarrow> string option \<Rightarrow> bytes option \<Rightarrow> proof_context \<Rightarrow> int \<Rightarrow> int \<Rightarrow> int \<Rightarrow> int \<Rightarrow> string \<Rightarrow>
   (proof_error + bool) \<times> bytes option" where
  "verifyHoursProof lib seedHex cache ctx escrowId paymentId hours nonce signature =
     (case buildProofMessage lib ctx escrowId paymentId hours nonce of
        Inl e \<Rightarrow> (Inl e, cache)
      | Inr msg \<Rightarrow>
          (let (r, cache') = getOracleKeypair seedHex cache in
           (case r of
              Inl _ \<Rightarrow> (Inr False, cache')
            | Inr seed \<Rightarrow>
                (Inr (case ol_verify lib (ol_public lib seed) msg (from_base64 signature) of
                        Some b \<Rightarrow> b | None \<Rightarrow> False), cache'))))"

section \<open>Lemmas\<close>

text \<open>The loop writes the big-endian bytes.\<close>

lemma i128_fill_be:
  "i \<le> length b \<Longrightarrow> i128_fill i v b = be_bytes i v @ drop i b"
proof (induction i arbitrary: v b)
  case (Suc i)
  have be: "be_bytes i (v div 256) @ [word_of_int (v mod 256)] = be_bytes (Suc i) v" for i v
  proof (rule be_value_inj)
    have "be_value (xs @ [w]) = be_value xs * 256 + uint w" for xs and w :: byte
      by (induction xs) (simp_all add: algebra_simps)
    moreover have "v mod (256 * 256 ^ i) = 256 * (v div 256 mod 256 ^ i) + v mod 256"
      by (rule zmod_zmult2_eq) simp
    ultimately show "be_value (be_bytes i (v div 256) @ [word_of_int (v mod 256)]) = be_value (be_bytes (Suc i) v)"
      by (simp add: be_value_be_bytes uint_word_of_int del: be_bytes.simps)
  qed simp
  have "i128_fill (Suc i) v b = be_bytes i (v div 256) @ drop i (b[i := word_of_int (v mod 256)])"
    using Suc by simp
  also have "drop i (b[i := word_of_int (v mod 256)]) = word_of_int (v mod 256) # drop (Suc i) b"
    using Suc.prems by (simp add: drop_update_swap Cons_nth_drop_Suc [symmetric])
  finally show ?case using be [of i v] by simp
qed simp

lemma i128be_bytes: "i128be n = be_bytes 16 n"
proof -
  have "i128be n = be_bytes 16 (n mod 2 ^ 128)"
    by (simp add: i128be_def i128_fill_be)
  also have "\<dots> = be_bytes 16 n"
    by (simp only: be_bytes_eq_iff) simp
  finally show ?thesis .
qed

lemma length_u32be [simp]: "length (u32be n) = 4"
  by (simp add: u32be_def)

lemma length_i128be [simp]: "length (i128be n) = 16"
  by (simp only: i128be_bytes length_be_bytes)

lemma u32be_eq_iff: "u32be m = u32be n \<longleftrightarrow> m mod 2 ^ 32 = n mod 2 ^ 32"
  unfolding u32be_def be_bytes_eq_iff by simp

lemma i128be_eq_iff: "i128be m = i128be n \<longleftrightarrow> m mod 2 ^ 128 = n mod 2 ^ 128"
  unfolding i128be_bytes be_bytes_eq_iff by simp

lemma b64_val_char [simp]: "n < 64 \<Longrightarrow> b64_val (b64_char n) = Some n"
  by (auto simp: b64_val_def b64_char_def Let_def)

lemma b64_char_not_pad [simp]: "n < 64 \<Longrightarrow> b64_char n \<noteq> CHR ''=''"
  using b64_val_char [of n] by (auto simp: b64_val_def Let_def)

lemma byte_sextets:
  fixes a b c :: byte
  shows "unat a div 4 < 64" "unat a mod 4 * 16 + unat b div 16 < 64" "unat b mod 16 * 4 + unat c div 64 < 64"
    "unat c mod 64 < 64" "unat b mod 16 * 4 < 64" "unat a mod 4 * 16 < 64"
  using unsigned_less [of a, where 'a = nat] unsigned_less [of b, where 'a = nat]
    unsigned_less [of c, where 'a = nat]
  by auto

lemma join_sextets:
  fixes a b c :: nat
  assumes "b < 256" "c < 256"
  shows "a div 4 * 4 + (a mod 4 * 16 + b div 16) div 16 = a"
    "(a mod 4 * 16 + b div 16) mod 16 * 16 + (b mod 16 * 4 + c div 64) div 4 = b"
    "(b mod 16 * 4 + c div 64) mod 4 * 64 + c mod 64 = c"
    "a div 4 * 4 + (a mod 4 * 16) div 16 = a"
    "(a mod 4 * 16 + b div 16) mod 16 * 16 + (b mod 16 * 4) div 4 = b"
proof -
  have small: "b div 16 < 16" "c div 64 < 4" using assms by auto
  have parts: "(a mod 4 * 16 + b div 16) div 16 = a mod 4" "(a mod 4 * 16 + b div 16) mod 16 = b div 16"
    "(b mod 16 * 4 + c div 64) div 4 = b mod 16" "(b mod 16 * 4 + c div 64) mod 4 = c div 64"
    using small by (simp_all add: div_mult_self3 del: div_mult_self1)
  show "a div 4 * 4 + (a mod 4 * 16 + b div 16) div 16 = a"
    "(a mod 4 * 16 + b div 16) mod 16 * 16 + (b mod 16 * 4 + c div 64) div 4 = b"
    "(b mod 16 * 4 + c div 64) mod 4 * 64 + c mod 64 = c"
    "a div 4 * 4 + (a mod 4 * 16) div 16 = a"
    "(a mod 4 * 16 + b div 16) mod 16 * 16 + (b mod 16 * 4) div 4 = b"
    unfolding parts by (simp_all add: div_mult_mod_eq)
qed

lemma sextets_bytes:
  fixes a b c :: byte
  shows "sextets (unat a div 4 # (unat a mod 4 * 16 + unat b div 16) # (unat b mod 16 * 4 + unat c div 64) #
      unat c mod 64 # xs) = a # b # c # sextets xs"
    "sextets [unat a div 4, unat a mod 4 * 16 + unat b div 16, unat b mod 16 * 4] = [a, b]"
    "sextets [unat a div 4, unat a mod 4 * 16] = [a]"
proof -
  have u: "unat b < 256" "unat c < 256"
    using unsigned_less [of b, where 'a = nat] unsigned_less [of c, where 'a = nat] by simp_all
  note j = join_sextets [OF u]
  show "sextets (unat a div 4 # (unat a mod 4 * 16 + unat b div 16) # (unat b mod 16 * 4 + unat c div 64) #
      unat c mod 64 # xs) = a # b # c # sextets xs"
    "sextets [unat a div 4, unat a mod 4 * 16 + unat b div 16, unat b mod 16 * 4] = [a, b]"
    "sextets [unat a div 4, unat a mod 4 * 16] = [a]"
    by (simp_all only: sextets.simps j) simp_all
qed

lemma from_to_base64 [simp]: "from_base64 (to_base64 bs) = bs"
  by (induction bs rule: to_base64.induct)
    (simp_all add: from_base64_def byte_sextets List.map_filter_simps sextets_bytes del: sextets.simps(1-3))

interpretation base64_text: codec to_base64 "\<lambda>s. Some (from_base64 s)" "\<lambda>_. True"
  by unfold_locales simp

lemma bytes_append_cancel: "length xs = length ys \<Longrightarrow> xs @ us = ys @ vs \<longleftrightarrow> xs = ys \<and> us = vs"
  by simp

text \<open>The message of a call that returns, with what each call it makes returned.\<close>

lemma buildProofMessage_InrE:
  assumes "buildProofMessage lib ctx e p h n = Inr m"
  obtains contract worker token where "addressDigest lib (pc_contractId ctx) = Inr contract"
    "addressDigest lib (pc_worker ctx) = Inr worker" "addressDigest lib (pc_token ctx) = Inr token"
    "is_u64 (pc_startDate ctx)" "is_u64 (pc_endDate ctx)" "is_u64 n"
    "m = PROOF_MAGIC @ u16be PROOF_VERSION @ proof_networkId lib (pc_networkPassphrase ctx) @ contract @
       worker @ token @ u32be e @ u32be p @ i128be (pc_amount ctx) @ i128be h @
       be_bytes 8 (pc_startDate ctx) @ be_bytes 8 (pc_endDate ctx) @ be_bytes 8 n"
proof -
  have u64be: "u64be v = Inr b \<Longrightarrow> is_u64 v \<and> b = be_bytes 8 v" for v b
    by (auto simp: u64be_def split: if_splits)
  show thesis
    using assms unfolding buildProofMessage_def bind_ok_Inr_iff Let_def guard_Inr_iff
    by (elim exE conjE) (rule that, auto dest!: u64be simp del: be_bytes.simps)
qed

lemma digest_length: "oracle_lib_documented lib \<Longrightarrow> addressDigest lib a = Inr d \<Longrightarrow> length d = 32"
  by (auto simp: addressDigest_def oracle_lib_documented_def split: option.splits)

text \<open>The length check never fires with the documented sizes.\<close>

lemma buildProofMessage_ok:
  assumes "oracle_lib_documented lib" "addressDigest lib (pc_contractId ctx) = Inr contract"
    "addressDigest lib (pc_worker ctx) = Inr worker" "addressDigest lib (pc_token ctx) = Inr token"
    "is_u64 (pc_startDate ctx)" "is_u64 (pc_endDate ctx)" "is_u64 n"
  shows "\<exists>m. buildProofMessage lib ctx e p h n = Inr m \<and> length m = PROOF_MESSAGE_BYTES"
  using assms digest_length [OF assms(1)]
  by (auto simp: buildProofMessage_def u64be_def Let_def PROOF_MAGIC_def u16be_def PROOF_MESSAGE_BYTES_def
      proof_networkId_def oracle_lib_documented_def simp del: be_bytes.simps)

lemma keypair_cached: "getOracleKeypair env c = (Inr seed, c') \<Longrightarrow> getOracleKeypair env' c' = (Inr seed, c')"
  by (auto simp: getOracleKeypair_def Let_def split: option.splits if_splits)

lemma signed_proof_accepted:
  assumes "oracle_lib_documented lib"
    and "signHoursProof lib seedHex cache ctx e p h n = (Inr sg, cache')"
  shows "fst (verifyHoursProof lib seedHex' cache' ctx e p h n sg) = Inr True \<and>
    (cache \<noteq> None \<or> truthy seedHex)"
proof -
  obtain m where m: "buildProofMessage lib ctx e p h n = Inr m"
    using assms(2) by (auto simp: signHoursProof_def split: sum.splits)
  obtain seed where k: "getOracleKeypair seedHex cache = (Inr seed, cache')"
    and sg: "sg = to_base64 (ol_sign lib seed m)"
    using assms(2) m by (auto simp: signHoursProof_def bind_ok_Inr_iff Let_def split: prod.splits)
  have "cache \<noteq> None \<or> truthy seedHex"
    using k by (cases cache) (auto simp: getOracleKeypair_def split: if_splits)
  then show ?thesis
    using keypair_cached [OF k, of seedHex'] assms(1)
    by (simp add: verifyHoursProof_def m sg oracle_lib_documented_def)
qed

section \<open>An instance for the concrete checks\<close>

definition pad32 :: "bytes \<Rightarrow> bytes" where
  "pad32 b = take 32 (b @ zero_bytes 32)"

definition sample_oracle :: oracle_lib where
  "sample_oracle =
     \<lparr>ol_hash = pad32, ol_addressXdr = (\<lambda>a. if a = [] then None else Some (utf8 a)), ol_public = pad32,
      ol_sign = (\<lambda>s m. pad32 s @ pad32 m), ol_verify = (\<lambda>k m s. Some (s = k @ pad32 m))\<rparr>"

lemma length_pad32 [simp]: "length (pad32 b) = 32"
  by (simp add: pad32_def)

lemma sample_oracle_documented: "oracle_lib_documented sample_oracle"
  by (simp add: oracle_lib_documented_def sample_oracle_def)

definition sample_proof_context :: proof_context where
  "sample_proof_context =
     \<lparr>pc_networkPassphrase = ''Test'', pc_contractId = ''C'', pc_worker = ''W'', pc_token = ''T'',
      pc_amount = 100, pc_startDate = 1, pc_endDate = 2\<rparr>"

lemma sample_message:
  "is_u64 n \<Longrightarrow> \<exists>m. buildProofMessage sample_oracle sample_proof_context e p h n = Inr m \<and>
     length m = PROOF_MESSAGE_BYTES"
  by (rule buildProofMessage_ok [OF sample_oracle_documented])
    (auto simp: addressDigest_def sample_oracle_def sample_proof_context_def is_u64_def U64_MAX_def)

section \<open>Properties\<close>

text \<open>
  What one attestation can be taken for: two calls build the same message exactly when network,
  contract, worker and asset have the same digests, the period and the nonce are equal, and the ids,
  the amount and the hours are equal modulo their width on the wire; so within those widths the
  signature is for one payment only, and outside them the wrap-around is the only confusion.
\<close>

theorem proof_message_binds:
  assumes "oracle_lib_documented lib"
    and "buildProofMessage lib c e p h n = Inr m" "buildProofMessage lib c' e' p' h' n' = Inr m'"
  shows "m = m' \<longleftrightarrow>
    proof_networkId lib (pc_networkPassphrase c) = proof_networkId lib (pc_networkPassphrase c') \<and>
    addressDigest lib (pc_contractId c) = addressDigest lib (pc_contractId c') \<and>
    addressDigest lib (pc_worker c) = addressDigest lib (pc_worker c') \<and>
    addressDigest lib (pc_token c) = addressDigest lib (pc_token c') \<and>
    e mod 2 ^ 32 = e' mod 2 ^ 32 \<and> p mod 2 ^ 32 = p' mod 2 ^ 32 \<and>
    pc_amount c mod 2 ^ 128 = pc_amount c' mod 2 ^ 128 \<and> h mod 2 ^ 128 = h' mod 2 ^ 128 \<and>
    pc_startDate c = pc_startDate c' \<and> pc_endDate c = pc_endDate c' \<and> n = n'"
proof -
  obtain k w t where 1: "addressDigest lib (pc_contractId c) = Inr k"
    "addressDigest lib (pc_worker c) = Inr w" "addressDigest lib (pc_token c) = Inr t"
    "is_u64 (pc_startDate c)" "is_u64 (pc_endDate c)" "is_u64 n"
    "m = PROOF_MAGIC @ u16be PROOF_VERSION @ proof_networkId lib (pc_networkPassphrase c) @ k @ w @ t @
       u32be e @ u32be p @ i128be (pc_amount c) @ i128be h @
       be_bytes 8 (pc_startDate c) @ be_bytes 8 (pc_endDate c) @ be_bytes 8 n"
    using assms(2) by (rule buildProofMessage_InrE)
  obtain k' w' t' where 2: "addressDigest lib (pc_contractId c') = Inr k'"
    "addressDigest lib (pc_worker c') = Inr w'" "addressDigest lib (pc_token c') = Inr t'"
    "is_u64 (pc_startDate c')" "is_u64 (pc_endDate c')" "is_u64 n'"
    "m' = PROOF_MAGIC @ u16be PROOF_VERSION @ proof_networkId lib (pc_networkPassphrase c') @ k' @ w' @ t' @
       u32be e' @ u32be p' @ i128be (pc_amount c') @ i128be h' @
       be_bytes 8 (pc_startDate c') @ be_bytes 8 (pc_endDate c') @ be_bytes 8 n'"
    using assms(3) by (rule buildProofMessage_InrE)
  have len: "length (proof_networkId lib x) = 32" for x
    using assms(1) by (simp add: proof_networkId_def oracle_lib_documented_def)
  have len': "length k = 32" "length w = 32" "length t = 32" "length k' = 32" "length w' = 32"
    "length t' = 32"
    using digest_length [OF assms(1)] 1(1-3) 2(1-3) by simp_all
  show ?thesis
    unfolding 1(7) 2(7)
    by (simp add: bytes_append_cancel len len' u32be_eq_iff i128be_eq_iff 1(1-6) 2(1-6)
        u64_bytes.enc_eq_iff del: be_bytes.simps append_eq_append_conv2)
qed

lemma proof_message_binds_witness:
  "\<exists>m m'. buildProofMessage sample_oracle sample_proof_context 1 0 5 7 = Inr m \<and>
    buildProofMessage sample_oracle sample_proof_context (1 + 2 ^ 32) 0 5 7 = Inr m' \<and> m = m'"
proof -
  have n: "is_u64 7" by (simp add: is_u64_def U64_MAX_def)
  obtain m m' where m: "buildProofMessage sample_oracle sample_proof_context 1 0 5 7 = Inr m"
    "buildProofMessage sample_oracle sample_proof_context (1 + 2 ^ 32) 0 5 7 = Inr m'"
    using sample_message [OF n] by blast
  then show ?thesis
    using proof_message_binds [OF sample_oracle_documented m] by simp
qed

text \<open>
  A signature the service issues is one it accepts for the same payment, also when the environment
  changes in between, because the key is kept; and it issues none before a key was configured.
\<close>

theorem issued_proof_verifies:
  assumes "oracle_lib_documented lib"
    and "signHoursProof lib seedHex cache ctx e p h n = (Inr sg, cache')"
  shows "fst (verifyHoursProof lib seedHex' cache' ctx e p h n sg) = Inr True \<and>
    (cache \<noteq> None \<or> truthy seedHex)"
  using signed_proof_accepted [OF assms] .

lemma issued_proof_verifies_witness:
  "\<exists>sg. signHoursProof sample_oracle None (Some [7]) sample_proof_context 1 0 5 7 = (Inr sg, Some [7]) \<and>
    fst (verifyHoursProof sample_oracle None (Some [7]) sample_proof_context 1 0 5 7 sg) = Inr True"
proof -
  have "is_u64 7" by (simp add: is_u64_def U64_MAX_def)
  then obtain sg where
    s: "signHoursProof sample_oracle None (Some [7]) sample_proof_context 1 0 5 7 = (Inr sg, Some [7])"
    using sample_message [of 7 1 0 5] by (auto simp: signHoursProof_def getOracleKeypair_def)
  then show ?thesis using issued_proof_verifies [OF sample_oracle_documented s] by blast
qed

end
