(* ===== verification/RateLimit.thy ===== *)
theory RateLimit
  imports Prelude
begin

text \<open>
  The rate limiter of the authentication and oracle routes, \<open>src/lib/ratelimit.ts\<close>. The state of the
  module (its \<open>Map\<close> and its counter) is a record; \<open>Date.now()\<close> is read once by the cleanup and once
  by the call, and both readings are arguments.
\<close>

section \<open>The limiter\<close>

record bucket =
  bk_count :: int
  bk_resetAt :: instant

record limiter =
  lm_buckets :: "string \<Rightarrow> bucket option"
  lm_calls :: nat

record limit_result =
  lr_ok :: bool
  lr_remaining :: int
  lr_retryAfter :: int

definition MAX_BUCKET_AGE_CHECK :: nat where
  "MAX_BUCKET_AGE_CHECK = 1000"

text \<open>\<open>Math.ceil(ms / 1000)\<close>.\<close>

definition ceil_seconds :: "int \<Rightarrow> int" where
  "ceil_seconds ms = - ((- ms) div 1000)"

definition cleanupExpiredBuckets ::
  "instant \<Rightarrow> (string \<Rightarrow> bucket option) \<Rightarrow> string \<Rightarrow> bucket option" where
  "cleanupExpiredBuckets t m =
     (\<lambda>k. case m k of None \<Rightarrow> None | Some b \<Rightarrow> if t > bk_resetAt b then None else Some b)"

definition tick_cleanup :: "instant \<Rightarrow> limiter \<Rightarrow> limiter" where
  "tick_cleanup t s =
     (let s = s\<lparr>lm_calls := lm_calls s + 1\<rparr> in
      if lm_calls s \<ge> MAX_BUCKET_AGE_CHECK
      then s\<lparr>lm_calls := 0, lm_buckets := cleanupExpiredBuckets t (lm_buckets s)\<rparr>
      else s)"

definition take_token ::
  "instant \<Rightarrow> string \<Rightarrow> int \<Rightarrow> int \<Rightarrow> limiter \<Rightarrow> limiter \<times> limit_result" where
  "take_token t key limit windowMs s =
     (let fresh = (s\<lparr>lm_buckets := (lm_buckets s)
                       (key := Some \<lparr>bk_count = 1, bk_resetAt = t + windowMs\<rparr>)\<rparr>,
                   \<lparr>lr_ok = True, lr_remaining = limit - 1, lr_retryAfter = 0\<rparr>) in
      case lm_buckets s key of
        None \<Rightarrow> fresh
      | Some b \<Rightarrow>
          if t > bk_resetAt b then fresh
          else if bk_count b \<ge> limit
          then (s, \<lparr>lr_ok = False, lr_remaining = 0, lr_retryAfter = ceil_seconds (bk_resetAt b - t)\<rparr>)
          else
            let b = b\<lparr>bk_count := bk_count b + 1\<rparr> in
            (s\<lparr>lm_buckets := (lm_buckets s)(key := Some b)\<rparr>,
             \<lparr>lr_ok = True, lr_remaining = limit - bk_count b, lr_retryAfter = 0\<rparr>))"

definition rateLimit ::
  "instant \<Rightarrow> instant \<Rightarrow> string \<Rightarrow> int \<Rightarrow> int \<Rightarrow> limiter \<Rightarrow> limiter \<times> limit_result" where
  "rateLimit t0 t key limit windowMs s = take_token t key limit windowMs (tick_cleanup t0 s)"

definition empty_limiter :: limiter where
  "empty_limiter = \<lparr>lm_buckets = (\<lambda>_. None), lm_calls = 0\<rparr>"

text \<open>The address a request is counted under: the first entry of \<open>x-forwarded-for\<close>, as it was sent.\<close>

definition clientIp :: "string option \<Rightarrow> string option \<Rightarrow> string" where
  "clientIp xff realIp =
     (if truthy xff then js_trim (takeWhile (\<lambda>c. c \<noteq> CHR '','') (the xff))
      else if truthy realIp then the realIp else ''unknown'')"

section \<open>A sequence of calls\<close>

record call =
  cl_cleanup :: instant
  cl_time :: instant
  cl_key :: string
  cl_limit :: int
  cl_window :: int

definition do_call :: "call \<Rightarrow> limiter \<Rightarrow> limiter \<times> limit_result" where
  "do_call c s = rateLimit (cl_cleanup c) (cl_time c) (cl_key c) (cl_limit c) (cl_window c) s"

fun do_calls :: "call list \<Rightarrow> limiter \<Rightarrow> limit_result list" where
  "do_calls [] s = []"
| "do_calls (c # cs) s = (let (s', r) = do_call c s in r # do_calls cs s')"

text \<open>The clock does not run back, within a call or between calls.\<close>

fun in_order :: "instant \<Rightarrow> call list \<Rightarrow> bool" where
  "in_order t [] \<longleftrightarrow> True"
| "in_order t (c # cs) \<longleftrightarrow> t \<le> cl_cleanup c \<and> cl_cleanup c \<le> cl_time c \<and> in_order (cl_time c) cs"

definition granted :: "string \<Rightarrow> call list \<Rightarrow> limiter \<Rightarrow> nat" where
  "granted k cs s = length (filter (\<lambda>(c, r). cl_key c = k \<and> lr_ok r) (zip cs (do_calls cs s)))"

text \<open>The specification: a limiter that never forgets a bucket.\<close>

fun spec_calls :: "call list \<Rightarrow> limiter \<Rightarrow> limit_result list" where
  "spec_calls [] s = []"
| "spec_calls (c # cs) s =
     (let (s', r) = take_token (cl_time c) (cl_key c) (cl_limit c) (cl_window c) s
      in r # spec_calls cs s')"

section \<open>Lemmas\<close>

text \<open>Two states that differ only in buckets that are over at \<open>t\<close>.\<close>

definition live_at :: "instant \<Rightarrow> bucket option \<Rightarrow> bucket option" where
  "live_at t b = (case b of None \<Rightarrow> None | Some b \<Rightarrow> if t > bk_resetAt b then None else Some b)"

definition agree_at :: "instant \<Rightarrow> limiter \<Rightarrow> limiter \<Rightarrow> bool" where
  "agree_at t s s' \<longleftrightarrow> (\<forall>k. live_at t (lm_buckets s k) = live_at t (lm_buckets s' k))"

lemma live_at_later: "t \<le> u \<Longrightarrow> live_at u (live_at t b) = live_at u b"
  by (auto simp: live_at_def split: option.splits)

lemma live_at_mono: "live_at t a = live_at t b \<Longrightarrow> t \<le> u \<Longrightarrow> live_at u a = live_at u b"
  by (metis live_at_later)

lemma tick_cleanup_agrees:
  "agree_at t s s' \<Longrightarrow> t \<le> u \<Longrightarrow> agree_at u (tick_cleanup u s) s'"
proof -
  assume a: "agree_at t s s'" "t \<le> u"
  have "live_at u (lm_buckets (tick_cleanup u s) k) = live_at u (lm_buckets s k)" for k
    by (auto simp: tick_cleanup_def cleanupExpiredBuckets_def live_at_def Let_def split: option.splits)
  then show ?thesis using a by (metis agree_at_def live_at_mono)
qed

lemma take_token_live:
  "take_token t k l w s =
     (case live_at t (lm_buckets s k) of
        None \<Rightarrow> (s\<lparr>lm_buckets := (lm_buckets s)(k := Some \<lparr>bk_count = 1, bk_resetAt = t + w\<rparr>)\<rparr>,
                 \<lparr>lr_ok = True, lr_remaining = l - 1, lr_retryAfter = 0\<rparr>)
      | Some b \<Rightarrow>
          if bk_count b \<ge> l
          then (s, \<lparr>lr_ok = False, lr_remaining = 0, lr_retryAfter = ceil_seconds (bk_resetAt b - t)\<rparr>)
          else (s\<lparr>lm_buckets := (lm_buckets s)(k := Some (b\<lparr>bk_count := bk_count b + 1\<rparr>))\<rparr>,
                \<lparr>lr_ok = True, lr_remaining = l - (bk_count b + 1), lr_retryAfter = 0\<rparr>))"
  by (auto simp: take_token_def live_at_def Let_def split: option.splits)

lemma take_token_agrees:
  assumes "agree_at t s s'"
  shows "snd (take_token t k l w s) = snd (take_token t k l w s')"
    and "agree_at t (fst (take_token t k l w s)) (fst (take_token t k l w s'))"
  using assms by (auto simp: take_token_live agree_at_def split: option.splits)

lemma take_token_other:
  "k' \<noteq> k \<Longrightarrow> lm_buckets (fst (take_token t k l w s)) k' = lm_buckets s k'"
  by (auto simp: take_token_live split: option.splits)

lemma do_call_live:
  "do_call c s = (s', r) \<Longrightarrow> cl_cleanup c \<le> cl_time c \<Longrightarrow> cl_key c \<noteq> k
    \<Longrightarrow> live_at (cl_time c) (lm_buckets s' k) = live_at (cl_time c) (lm_buckets s k)"
proof -
  assume a: "do_call c s = (s', r)" "cl_cleanup c \<le> cl_time c" "cl_key c \<noteq> k"
  have "lm_buckets s' k = lm_buckets (tick_cleanup (cl_cleanup c) s) k"
    using a(1,3) take_token_other [of k "cl_key c"] by (metis do_call_def fst_conv rateLimit_def)
  moreover have "agree_at (cl_cleanup c) (tick_cleanup (cl_cleanup c) s) s"
    using tick_cleanup_agrees [of "cl_cleanup c" s s] by (simp add: agree_at_def)
  ultimately show ?thesis using a(2) by (metis agree_at_def live_at_mono)
qed

lemma do_call_own:
  assumes "do_call c s = (s', r)" "cl_cleanup c \<le> cl_time c"
  shows "(case live_at (cl_time c) (lm_buckets s (cl_key c)) of
      None \<Rightarrow> lr_ok r \<and> lm_buckets s' (cl_key c) = Some \<lparr>bk_count = 1, bk_resetAt = cl_time c + cl_window c\<rparr>
    | Some b \<Rightarrow>
        if bk_count b \<ge> cl_limit c then \<not> lr_ok r \<and> live_at (cl_time c) (lm_buckets s' (cl_key c)) = Some b
        else lr_ok r \<and> lm_buckets s' (cl_key c) = Some (b\<lparr>bk_count := bk_count b + 1\<rparr>))"
proof -
  have "agree_at (cl_time c) (tick_cleanup (cl_cleanup c) s) s"
    using tick_cleanup_agrees [of "cl_cleanup c" s s] assms(2) by (metis agree_at_def live_at_mono order_refl)
  then have "live_at (cl_time c) (lm_buckets (tick_cleanup (cl_cleanup c) s) (cl_key c))
      = live_at (cl_time c) (lm_buckets s (cl_key c))"
    by (simp add: agree_at_def)
  then show ?thesis
    using assms(1) by (auto simp: do_call_def rateLimit_def take_token_live split: option.splits if_splits)
qed

text \<open>What a key can still be granted before the time \<open>e\<close>: the rest of a live bucket, and one more.\<close>

definition budget :: "string \<Rightarrow> int \<Rightarrow> instant \<Rightarrow> instant \<Rightarrow> limiter \<Rightarrow> int" where
  "budget k L e t s =
     (case live_at t (lm_buckets s k) of
        None \<Rightarrow> L
      | Some b \<Rightarrow> if bk_resetAt b \<ge> e then max 0 (L - bk_count b) else max 0 (L - bk_count b) + L)"

lemma budget_mono:
  "0 \<le> L \<Longrightarrow> t \<le> u \<Longrightarrow> u \<le> e \<Longrightarrow> budget k L e u s \<le> budget k L e t s"
  by (auto simp: budget_def live_at_def split: option.splits)

definition calls_of :: "string \<Rightarrow> int \<Rightarrow> int \<Rightarrow> call list \<Rightarrow> bool" where
  "calls_of k L W cs \<longleftrightarrow> list_all (\<lambda>c. cl_key c = k \<longrightarrow> cl_limit c = L \<and> cl_window c = W) cs"

lemma granted_within:
  assumes "1 \<le> L" "0 \<le> W"
  shows "in_order t cs \<Longrightarrow> calls_of k L W cs \<Longrightarrow> e - W \<le> t \<Longrightarrow> list_all (\<lambda>c. cl_time c \<le> e) cs
    \<Longrightarrow> int (granted k cs s) \<le> budget k L e t s"
proof (induction cs arbitrary: t s)
  case Nil
  then show ?case using assms by (auto simp: granted_def budget_def split: option.splits)
next
  case (Cons c cs)
  let ?u = "cl_time c"
  obtain s' r where call: "do_call c s = (s', r)" by force
  have ord: "t \<le> ?u" "cl_cleanup c \<le> ?u" "in_order ?u cs" "?u \<le> e" "e - W \<le> ?u" "calls_of k L W cs"
    "list_all (\<lambda>c. cl_time c \<le> e) cs"
    using Cons.prems by (auto simp: calls_of_def)
  have rest: "int (granted k cs s') \<le> budget k L e ?u s'"
    using Cons.IH ord by blast
  have split_off: "int (granted k (c # cs) s)
      = (if cl_key c = k \<and> lr_ok r then 1 else 0) + int (granted k cs s')"
    by (simp add: granted_def call)
  have step: "(if cl_key c = k \<and> lr_ok r then 1 else 0) + budget k L e ?u s' \<le> budget k L e ?u s"
  proof (cases "cl_key c = k")
    case True
    then have lw: "cl_limit c = L" "cl_window c = W" using Cons.prems by (auto simp: calls_of_def)
    then show ?thesis
      using do_call_own [OF call ord(2)] True assms ord(4,5)
      by (auto simp: budget_def live_at_def split: option.splits if_splits)
  next
    case False
    then show ?thesis using do_call_live [OF call ord(2)] by (simp add: budget_def)
  qed
  have "budget k L e ?u s \<le> budget k L e t s"
    using budget_mono assms ord by simp
  then show ?case using rest split_off step by linarith
qed

section \<open>Properties\<close>

text \<open>
  Forgetting is invisible: with a clock that does not run back, the limiter with its periodic cleanup
  answers every sequence of calls as the one that keeps every bucket for ever.
\<close>

theorem cleanup_refines:
  assumes "agree_at t s s'" "in_order t cs"
  shows "do_calls cs s = spec_calls cs s'"
  using assms
proof (induction cs arbitrary: t s s')
  case (Cons c cs)
  have "agree_at (cl_cleanup c) (tick_cleanup (cl_cleanup c) s) s'"
    using tick_cleanup_agrees Cons.prems by auto
  then have a: "agree_at (cl_time c) (tick_cleanup (cl_cleanup c) s) s'"
    using Cons.prems(2) by (metis agree_at_def in_order.simps(2) live_at_mono)
  show ?case
    using take_token_agrees [OF a, of "cl_key c" "cl_limit c" "cl_window c"] Cons
    by (simp add: do_call_def rateLimit_def split_beta)
qed simp

lemma cleanup_refines_witness:
  "do_calls [\<lparr>cl_cleanup = 5, cl_time = 5, cl_key = ''a'', cl_limit = 1, cl_window = 10\<rparr>,
             \<lparr>cl_cleanup = 20, cl_time = 20, cl_key = ''a'', cl_limit = 1, cl_window = 10\<rparr>]
     (empty_limiter\<lparr>lm_calls := 998\<rparr>)
   = spec_calls [\<lparr>cl_cleanup = 5, cl_time = 5, cl_key = ''a'', cl_limit = 1, cl_window = 10\<rparr>,
             \<lparr>cl_cleanup = 20, cl_time = 20, cl_key = ''a'', cl_limit = 1, cl_window = 10\<rparr>]
     empty_limiter"
  by (rule cleanup_refines [of 0]) (simp_all add: agree_at_def)

text \<open>
  C31: The abuse bound: over any span of one window, whatever the other keys do and whenever the cleanup
  runs, a key is granted at most twice its limit; when it has no live bucket at the start, at most its
  limit.
\<close>

theorem grants_bounded:
  assumes "1 \<le> L" "0 \<le> W" "in_order t cs" "calls_of k L W cs"
    and "list_all (\<lambda>c. cl_time c \<le> t + W) cs" "\<And>b. lm_buckets s k = Some b \<Longrightarrow> 0 \<le> bk_count b"
  shows "int (granted k cs s) \<le> 2 * L \<and>
    (live_at t (lm_buckets s k) = None \<longrightarrow> int (granted k cs s) \<le> L)"
proof -
  have "int (granted k cs s) \<le> budget k L (t + W) t s"
    using granted_within [OF assms(1,2,3,4), of "t + W"] assms(5) by simp
  moreover have "budget k L (t + W) t s \<le> 2 * L"
    using assms(1,6) by (auto simp: budget_def live_at_def split: option.splits)
  ultimately show ?thesis by (auto simp: budget_def)
qed

lemma grants_bounded_witness:
  "int (granted ''a'' [\<lparr>cl_cleanup = 5, cl_time = 5, cl_key = ''a'', cl_limit = 1, cl_window = 10\<rparr>,
      \<lparr>cl_cleanup = 6, cl_time = 7, cl_key = ''a'', cl_limit = 1, cl_window = 10\<rparr>] empty_limiter) \<le> 2 * 1"
  using grants_bounded [of 1 10 5
      "[\<lparr>cl_cleanup = 5, cl_time = 5, cl_key = ''a'', cl_limit = 1, cl_window = 10\<rparr>,
        \<lparr>cl_cleanup = 6, cl_time = 7, cl_key = ''a'', cl_limit = 1, cl_window = 10\<rparr>]" "''a''" empty_limiter]
  by (simp add: calls_of_def empty_limiter_def)

end
