(* ===== verification/OracleAttest.thy ===== *)
theory OracleAttest
  imports OracleProof RateLimit Tenancy
begin

text \<open>
  The attestation route, \<open>src/app/api/oracle/attest/route.ts\<close>: who may have the oracle sign, what it signs,
  and the table of what was signed. The session and the contract's answer are arguments (the routes
  read them through the session library and the RPC client).
\<close>

section \<open>State\<close>

record attestation_row =
  at_orgId :: row_id
  at_escrowOnChainId :: int
  at_onChainPaymentIndex :: int
  at_hours :: int
  at_nonce :: int
  at_signature :: string
  at_schema :: string
  at_contractId :: address
  at_createdBy :: address

text \<open>The unique index of the table has neither the organization nor the contract.\<close>

definition at_key :: "attestation_row \<Rightarrow> int \<times> int \<times> int" where
  "at_key r = (at_escrowOnChainId r, at_onChainPaymentIndex r, at_nonce r)"

record oracle_state =
  os_db :: database
  os_attestations :: "attestation_row list"
  os_limiter :: limiter
  os_cache :: "bytes option"

text \<open>What the process has: the clock, the configuration, the library and the contract's read call.\<close>

record chain_payment =
  cq_worker :: address
  cq_token :: address
  cq_amount :: int
  cq_rate_per_hour :: int
  cq_start_date :: int
  cq_end_date :: int

record chain_escrow =
  ce_manager :: address
  ce_payments :: "chain_payment list"

record oracle_env =
  oe_clock :: instant
  oe_seedHex :: "string option"
  oe_networkPassphrase :: string
  oe_contractId :: address
  oe_lib :: oracle_lib
  oe_getEscrow :: "int \<Rightarrow> chain_escrow option"   \<comment> \<open>\<open>None\<close> when the read fails\<close>

section \<open>The request\<close>

record session_user =
  su_userId :: row_id
  su_walletAddress :: address

record attest_request =
  ar_user :: "session_user option"
  ar_header :: "string option"
  ar_query :: "string option"
  ar_body :: json

record attest_data =
  ad_onChainId :: int
  ad_paymentId :: int
  ad_hoursLogged :: int
  ad_nonce :: int

text \<open>\<open>attestSchema\<close>: four integers, none negative, the hours positive. Other fields are dropped.\<close>

definition body_int :: "json \<Rightarrow> string \<Rightarrow> int option" where
  "body_int b k =
     (case b of JObj ms \<Rightarrow> (case map_of ms k of Some (JNum n) \<Rightarrow> Some n | _ \<Rightarrow> None) | _ \<Rightarrow> None)"

definition attestSchema :: "json \<Rightarrow> attest_data option" where
  "attestSchema b =
     (case (body_int b ''onChainId'', body_int b ''paymentId'', body_int b ''hoursLogged'',
            body_int b ''nonce'') of
        (Some e, Some p, Some h, Some n) \<Rightarrow>
          if 0 \<le> e \<and> 0 \<le> p \<and> 0 < h \<and> 0 \<le> n
          then Some \<lparr>ad_onChainId = e, ad_paymentId = p, ad_hoursLogged = h, ad_nonce = n\<rparr>
          else None
      | _ \<Rightarrow> None)"

datatype attest_response =
    Refused nat "string option"
  | Attested nat string string int bool   \<comment> \<open>status, signature, pubkey, nonce, reused\<close>

section \<open>The handler\<close>

definition existing_attestation :: "attest_data \<Rightarrow> attestation_row list \<Rightarrow> attestation_row option" where
  "existing_attestation d =
     findFirst (\<lambda>r. at_key r = (ad_onChainId d, ad_paymentId d, ad_nonce d))"

definition sole_membership :: "database \<Rightarrow> row_id \<Rightarrow> row_id option" where
  "sole_membership db u =
     (let m = take 2 (filter (\<lambda>m. mb_userId m = u \<and> mb_status m = ACTIVE) (members db))
      in if length m = 1 then Some (mb_orgId (hd m)) else None)"

definition attest_org :: "attest_request \<Rightarrow> session_user \<Rightarrow> database \<Rightarrow> row_id option" where
  "attest_org rq user db =
     (if ar_header rq \<noteq> None then ar_header rq
      else if ar_query rq \<noteq> None then ar_query rq
      else sole_membership db (su_userId user))"

definition attest_context :: "oracle_env \<Rightarrow> chain_payment \<Rightarrow> proof_context" where
  "attest_context e q =
     \<lparr>pc_networkPassphrase = oe_networkPassphrase e, pc_contractId = oe_contractId e,
      pc_worker = cq_worker q, pc_token = cq_token q, pc_amount = cq_amount q,
      pc_startDate = cq_start_date q, pc_endDate = cq_end_date q\<rparr>"

text \<open>From the tenant on: the checks against the chain, the signature and the row.\<close>

definition attest_sign ::
  "oracle_env \<Rightarrow> session_user \<Rightarrow> row_id \<Rightarrow> string \<Rightarrow> attest_data \<Rightarrow> oracle_state \<Rightarrow>
   attest_response \<times> oracle_state" where
  "attest_sign e user orgId pubkey d s =
     (case oe_getEscrow e (ad_onChainId d) of
        None \<Rightarrow> (Refused 502 None, s)
      | Some escrow \<Rightarrow>
          if ce_manager escrow \<noteq> su_walletAddress user then (Refused 403 None, s)
          else if ad_paymentId d \<ge> int (length (ce_payments escrow)) then (Refused 400 None, s)
          else
            let payment = ce_payments escrow ! nat (ad_paymentId d) in
            if cq_rate_per_hour payment = 0 then (Refused 500 None, s)
            else if ad_hoursLogged d \<noteq> js_div (cq_amount payment) (cq_rate_per_hour payment)
            then (Refused 409 None, s)
            else
              let (signed, cache) = signHoursProof (oe_lib e) (oe_seedHex e) (os_cache s)
                    (attest_context e payment) (ad_onChainId d) (ad_paymentId d) (ad_hoursLogged d)
                    (ad_nonce d);
                  s = s\<lparr>os_cache := cache\<rparr>
              in case signed of
                   Inl _ \<Rightarrow> (Refused 500 None, s)
                 | Inr signature \<Rightarrow>
                     let row = \<lparr>at_orgId = orgId, at_escrowOnChainId = ad_onChainId d,
                           at_onChainPaymentIndex = ad_paymentId d, at_hours = ad_hoursLogged d,
                           at_nonce = ad_nonce d, at_signature = signature, at_schema = ''CFWP-v2'',
                           at_contractId = oe_contractId e, at_createdBy = su_walletAddress user\<rparr>
                     in case createUnique at_key row (os_attestations s) of
                          None \<Rightarrow> (Refused 500 None, s)
                        | Some rows \<Rightarrow>
                            (Attested 201 signature pubkey (ad_nonce d) False,
                             s\<lparr>os_attestations := rows\<rparr>))"

text \<open>
  What the handler decides before it looks at the chain: a refusal, the recorded signature, or to go
  on. Another request may run between this and \<open>attest_sign\<close>.
\<close>

datatype attest_step = Done attest_response | Continue session_user row_id string attest_data

definition attest_authorize ::
  "oracle_env \<Rightarrow> attest_request \<Rightarrow> session_user \<Rightarrow> string \<Rightarrow> oracle_state \<Rightarrow> attest_step" where
  "attest_authorize e rq user pubkey s =
     (case attestSchema (ar_body rq) of
        None \<Rightarrow> Done (Refused 400 None)
      | Some d \<Rightarrow>
          (case resolveTenant (os_db s) (Some (su_userId user)) (attest_org rq user (os_db s)) of
               Inl dn \<Rightarrow> Done (Refused (dn_status dn) None)
             | Inr ctx \<Rightarrow>
                 (case requirePermission ctx Oracle_attest_request of
                    Some dn \<Rightarrow> Done (Refused 403 (dn_code dn))
                  | None \<Rightarrow>
                      (case findEscrowByOnChainId (os_db s) ctx (ad_onChainId d) of
                         Inl dn \<Rightarrow> Done (Refused (dn_status dn) None)
                       | Inr _ \<Rightarrow>
                           (case existing_attestation d (os_attestations s) of
                              Some r \<Rightarrow> Done (Attested 200 (at_signature r) pubkey (ad_nonce d) True)
                            | None \<Rightarrow> Continue user (tc_orgId ctx) pubkey d)))))"

definition attest_begin ::
  "oracle_env \<Rightarrow> attest_request \<Rightarrow> oracle_state \<Rightarrow> attest_step \<times> oracle_state" where
  "attest_begin e rq s =
     (case ar_user rq of
        None \<Rightarrow> (Done (Refused 401 None), s)
      | Some user \<Rightarrow>
          let (lim, rl) = rateLimit (oe_clock e) (oe_clock e) (''attest:'' @ su_walletAddress user) 30 60000
                            (os_limiter s);
              s = s\<lparr>os_limiter := lim\<rparr>
          in if \<not> lr_ok rl then (Done (Refused 429 None), s)
             else
               let (key, cache) = getOraclePublicKeyHex (oe_lib e) (oe_seedHex e) (os_cache s);
                   s = s\<lparr>os_cache := cache\<rparr>
               in case key of
                    Inl _ \<Rightarrow> (Done (Refused 503 None), s)
                  | Inr pubkey \<Rightarrow> (attest_authorize e rq user pubkey s, s))"

definition attest_finish :: "oracle_env \<Rightarrow> attest_step \<Rightarrow> oracle_state \<Rightarrow> attest_response \<times> oracle_state" where
  "attest_finish e step s =
     (case step of
        Done r \<Rightarrow> (r, s)
      | Continue user orgId pubkey d \<Rightarrow> attest_sign e user orgId pubkey d s)"

definition attest_POST :: "oracle_env \<Rightarrow> attest_request \<Rightarrow> oracle_state \<Rightarrow> attest_response \<times> oracle_state" where
  "attest_POST e rq s = (let (step, s) = attest_begin e rq s in attest_finish e step s)"

section \<open>Concurrent requests\<close>

text \<open>
  Any number of requests in flight; each begins, at any time of the clock, and then finishes, in any order.
  An open request and a reply are kept with the request they belong to.
\<close>

record oracle_world =
  ow_state :: oracle_state
  ow_open :: "(attest_request \<times> attest_step) list"
  ow_replies :: "(attest_request \<times> attest_response) list"

inductive oracle_move :: "oracle_env \<Rightarrow> oracle_world \<Rightarrow> oracle_world \<Rightarrow> bool" for e where
  move_begin: "attest_begin (e\<lparr>oe_clock := t\<rparr>) rq (ow_state w) = (step, s) \<Longrightarrow>
    oracle_move e w (w\<lparr>ow_state := s, ow_open := ow_open w @ [(rq, step)]\<rparr>)"
| move_finish: "ow_open w = xs @ (rq, step) # ys \<Longrightarrow> attest_finish e step (ow_state w) = (r, s) \<Longrightarrow>
    oracle_move e w (w\<lparr>ow_state := s, ow_open := xs @ ys, ow_replies := ow_replies w @ [(rq, r)]\<rparr>)"

inductive_cases oracle_moveE: "oracle_move e w w'"

section \<open>Lemmas\<close>

lemma findEscrowByOnChainId_Inr:
  "findEscrowByOnChainId db ctx i = Inr x \<Longrightarrow>
    x \<in> set (escrows db) \<and> es_onChainId x = Some i \<and> es_orgId x = tc_orgId ctx"
  by (auto simp: findEscrowByOnChainId_def split: option.splits dest: findFirst_SomeD)

text \<open>What lets a request go on to the signature.\<close>

lemma attest_authorize_Continue:
  assumes "attest_authorize e rq user pubkey s = Continue user' orgId pubkey' d"
  shows "user' = user \<and> pubkey' = pubkey \<and> attestSchema (ar_body rq) = Some d \<and>
    existing_attestation d (os_attestations s) = None \<and>
    (\<exists>m x. m \<in> set (members (os_db s)) \<and> mb_userId m = su_userId user \<and> mb_orgId m = orgId \<and>
       mb_status m = ACTIVE \<and> can (mb_role m) Oracle_attest_request \<and>
       x \<in> set (escrows (os_db s)) \<and> es_onChainId x = Some (ad_onChainId d) \<and> es_orgId x = orgId)"
proof -
  obtain ctx x where a:
    "resolveTenant (os_db s) (Some (su_userId user)) (attest_org rq user (os_db s)) = Inr ctx"
    "requirePermission ctx Oracle_attest_request = None"
    "findEscrowByOnChainId (os_db s) ctx (ad_onChainId d) = Inr x"
    "user' = user" "pubkey' = pubkey" "attestSchema (ar_body rq) = Some d" "orgId = tc_orgId ctx"
    "existing_attestation d (os_attestations s) = None"
    using assms by (auto simp: attest_authorize_def split: option.splits sum.splits)
  have "can (tc_role ctx) Oracle_attest_request"
    using a(2) by (simp add: requirePermission_def split: if_splits)
  then show ?thesis
    using a findEscrowByOnChainId_Inr [OF a(3)] by (elim resolveTenant_Inr) fastforce
qed

lemma attest_begin_keeps:
  "attest_begin e rq s = (step, s') \<Longrightarrow> os_attestations s' = os_attestations s \<and> os_db s' = os_db s"
  by (auto simp: attest_begin_def Let_def split: option.splits if_splits prod.splits sum.splits)

lemma attest_begin_Continue:
  assumes "attest_begin e rq s = (Continue user orgId pubkey d, s')"
  shows "ar_user rq = Some user \<and> attest_authorize e rq user pubkey s' = Continue user orgId pubkey d"
  using assms
  by (auto simp: attest_begin_def Let_def split: option.splits if_splits prod.splits sum.splits
      dest: attest_authorize_Continue)

lemma attest_sign_Attested:
  assumes "attest_sign e user orgId pubkey d s = (Attested st sg pk n reused, s')"
  shows "\<exists>escrow q row. oe_getEscrow e (ad_onChainId d) = Some escrow \<and>
    ce_manager escrow = su_walletAddress user \<and> ad_paymentId d < int (length (ce_payments escrow)) \<and>
    q = ce_payments escrow ! nat (ad_paymentId d) \<and> cq_rate_per_hour q \<noteq> 0 \<and>
    ad_hoursLogged d = js_div (cq_amount q) (cq_rate_per_hour q) \<and>
    signHoursProof (oe_lib e) (oe_seedHex e) (os_cache s) (attest_context e q) (ad_onChainId d)
      (ad_paymentId d) (ad_hoursLogged d) (ad_nonce d) = (Inr sg, os_cache s') \<and>
    at_key row = (ad_onChainId d, ad_paymentId d, ad_nonce d) \<and> at_signature row = sg \<and>
    at_orgId row = orgId \<and> at_hours row = ad_hoursLogged d \<and> at_createdBy row = su_walletAddress user \<and>
    at_key row \<notin> at_key ` set (os_attestations s) \<and>
    os_attestations s' = os_attestations s @ [row] \<and> os_db s' = os_db s \<and>
    st = 201 \<and> pk = pubkey \<and> n = ad_nonce d \<and> \<not> reused"
  using assms
  by (auto simp: attest_sign_def Let_def at_key_def createUnique_def
      split: option.splits if_splits prod.splits sum.splits)

lemma attest_sign_grows:
  assumes "attest_sign e user orgId pubkey d s = (r, s')"
  shows "os_db s' = os_db s \<and> (os_attestations s' = os_attestations s \<or>
    (\<exists>row. os_attestations s' = os_attestations s @ [row] \<and> at_key row \<notin> at_key ` set (os_attestations s)))"
  using assms
  by (auto simp: attest_sign_def Let_def createUnique_def
      split: option.splits if_splits prod.splits sum.splits)

lemma attest_begin_Done:
  assumes "attest_begin e rq s = (Done r, s')"
  shows "(\<exists>st code. r = Refused st code) \<or> (\<exists>sg pk n. r = Attested 200 sg pk n True)"
  using assms
  by (auto simp: attest_begin_def attest_authorize_def Let_def
      split: option.splits if_splits prod.splits sum.splits)

text \<open>The contract names whoever created the row, and its amount and rate give the hours.\<close>

definition by_manager :: "oracle_env \<Rightarrow> attestation_row \<Rightarrow> bool" where
  "by_manager e row \<longleftrightarrow>
     (case oe_getEscrow e (at_escrowOnChainId row) of
        None \<Rightarrow> False
      | Some escrow \<Rightarrow>
          at_createdBy row = ce_manager escrow \<and>
          at_onChainPaymentIndex row < int (length (ce_payments escrow)) \<and>
          (let q = ce_payments escrow ! nat (at_onChainPaymentIndex row) in
           at_hours row = js_div (cq_amount q) (cq_rate_per_hour q)))"

lemma attest_sign_refused:
  assumes "attest_sign e user orgId pubkey d s = (Refused st code, s')"
  shows "os_attestations s' = os_attestations s \<and> os_db s' = os_db s"
  using assms
  by (auto simp: attest_sign_def Let_def split: option.splits if_splits prod.splits sum.splits)

lemma attest_sign_cases:
  assumes "attest_sign e user orgId pubkey d s = (r, s')"
  shows "os_db s' = os_db s \<and>
    ((\<exists>st code. r = Refused st code) \<and> os_attestations s' = os_attestations s \<or>
     (\<exists>row. r = Attested 201 (at_signature row) pubkey (ad_nonce d) False \<and> by_manager e row \<and>
        at_key row = (ad_onChainId d, ad_paymentId d, ad_nonce d) \<and>
        at_key row \<notin> at_key ` set (os_attestations s) \<and> os_attestations s' = os_attestations s @ [row]))"
proof (cases r)
  case (Attested st sg pk n reused)
  then obtain escrow q row where k: "oe_getEscrow e (ad_onChainId d) = Some escrow"
    "ce_manager escrow = su_walletAddress user" "ad_paymentId d < int (length (ce_payments escrow))"
    "q = ce_payments escrow ! nat (ad_paymentId d)" "ad_hoursLogged d = js_div (cq_amount q) (cq_rate_per_hour q)"
    "at_key row = (ad_onChainId d, ad_paymentId d, ad_nonce d)" "at_signature row = sg"
    "at_hours row = ad_hoursLogged d" "at_createdBy row = su_walletAddress user"
    "at_key row \<notin> at_key ` set (os_attestations s)" "os_attestations s' = os_attestations s @ [row]"
    "os_db s' = os_db s" "st = 201" "pk = pubkey" "n = ad_nonce d" "\<not> reused"
    using attest_sign_Attested assms by blast
  have "at_escrowOnChainId row = ad_onChainId d" "at_onChainPaymentIndex row = ad_paymentId d"
    using k(6) by (simp_all add: at_key_def)
  then have "by_manager e row" using k(1-5,8,9) by (simp add: by_manager_def)
  then show ?thesis using k Attested by blast
qed (use attest_sign_refused assms in blast)

text \<open>A request that passed the checks of its tenant once is stopped later by a recorded signature only.\<close>

lemma authorized_later:
  assumes "attest_authorize e rq user pubkey s = Continue user orgId pubkey d" and "os_db s' = os_db s"
  shows "attest_authorize e' rq user pk s' =
    (case existing_attestation d (os_attestations s') of
       Some r \<Rightarrow> Done (Attested 200 (at_signature r) pk (ad_nonce d) True) | None \<Rightarrow> Continue user orgId pk d)"
  using assms by (auto simp: attest_authorize_def split: option.splits sum.splits)

lemma authorized_again:
  assumes "attest_authorize e rq user pubkey s = Done (Attested st sg pk n reused)"
  shows "\<exists>d r. attestSchema (ar_body rq) = Some d \<and> existing_attestation d (os_attestations s) = Some r \<and>
    sg = at_signature r \<and> n = ad_nonce d \<and> st = 200 \<and> pk = pubkey \<and> reused"
  using assms by (auto simp: attest_authorize_def split: option.splits sum.splits)

lemma existing_append:
  "existing_attestation d rows = Some r \<Longrightarrow> existing_attestation d (rows @ rows2) = Some r"
  by (simp add: existing_attestation_def findFirst_append)

lemma authorized_same:
  assumes "attest_authorize e rq user pubkey s = Done (Attested st sg pk n reused)"
    and "os_db s' = os_db s" and "os_attestations s' = os_attestations s @ rows"
  shows "attest_authorize e' rq user pubkey s' = Done (Attested st sg pk n reused)"
  using assms
  by (auto simp: attest_authorize_def existing_append split: option.splits sum.splits)

text \<open>The key, once there, stays.\<close>

lemma key_cached:
  assumes "getOraclePublicKeyHex lib env c = (Inr pk, c')"
  shows "\<exists>seed. c' = Some seed \<and> pk = toHex (ol_public lib seed)"
  using assms
  by (auto simp: getOraclePublicKeyHex_def getOracleKeypair_def bind_ok_def Let_def
      split: option.splits if_splits)

lemma sign_keeps_key:
  assumes "attest_sign e user orgId pubkey d s = (r, s')" and "os_cache s = Some seed"
  shows "os_cache s' = Some seed"
  using assms
  by (auto simp: attest_sign_def signHoursProof_def getOracleKeypair_def Let_def
      split: option.splits if_splits prod.splits sum.splits)

lemma finish_cases:
  assumes "attest_finish e step s = (r, s')"
  shows "os_db s' = os_db s \<and> (os_cache s = Some seed \<longrightarrow> os_cache s' = Some seed) \<and>
    (\<exists>new. os_attestations s' = os_attestations s @ new \<and> list_all (by_manager e) new \<and>
       (distinct (map at_key (os_attestations s)) \<longrightarrow> distinct (map at_key (os_attestations s @ new))))"
  using assms attest_sign_cases [of e _ _ _ _ s r s'] sign_keeps_key [of e _ _ _ _ s r s' seed]
  by (cases step) (auto simp: attest_finish_def, fastforce+)

section \<open>Replies that stand\<close>

definition slot_asked :: "attest_request \<Rightarrow> (int \<times> int \<times> int) option" where
  "slot_asked rq = map_option (\<lambda>d. (ad_onChainId d, ad_paymentId d, ad_nonce d)) (attestSchema (ar_body rq))"

definition has_key :: "oracle_env \<Rightarrow> oracle_state \<Rightarrow> string \<Rightarrow> bool" where
  "has_key e s pk \<longleftrightarrow> (case os_cache s of None \<Rightarrow> False | Some seed \<Rightarrow> pk = toHex (ol_public (oe_lib e) seed))"

text \<open>A signature that was handed out is the one the same request would be given again.\<close>

definition reply_stands :: "oracle_env \<Rightarrow> oracle_state \<Rightarrow> attest_request \<Rightarrow> attest_response \<Rightarrow> bool" where
  "reply_stands e s rq r \<longleftrightarrow>
     (case r of
        Refused _ _ \<Rightarrow> True
      | Attested st sg pk n reused \<Rightarrow> has_key e s pk \<and>
          (case ar_user rq of
             None \<Rightarrow> False
           | Some user \<Rightarrow> attest_authorize e rq user pk s = Done (Attested 200 sg pk n True)))"

definition step_stands :: "oracle_env \<Rightarrow> oracle_state \<Rightarrow> attest_request \<Rightarrow> attest_step \<Rightarrow> bool" where
  "step_stands e s rq step \<longleftrightarrow>
     (case step of
        Done r \<Rightarrow> reply_stands e s rq r
      | Continue user orgId pk d \<Rightarrow> has_key e s pk \<and> ar_user rq = Some user \<and>
          (\<exists>s0. os_db s0 = os_db s \<and> attest_authorize e rq user pk s0 = Continue user orgId pk d))"

text \<open>A state that has the same database, keeps the key and only adds rows.\<close>

definition state_grows :: "oracle_state \<Rightarrow> oracle_state \<Rightarrow> bool" where
  "state_grows s s' \<longleftrightarrow> os_db s' = os_db s \<and> (os_cache s \<noteq> None \<longrightarrow> os_cache s' = os_cache s) \<and>
     (\<exists>rows. os_attestations s' = os_attestations s @ rows)"

lemma has_key_grows: "has_key e s pk \<Longrightarrow> state_grows s s' \<Longrightarrow> has_key e s' pk"
  by (auto simp: has_key_def state_grows_def split: option.splits)

lemma reply_grows:
  assumes "reply_stands e s rq r" and "state_grows s s'"
  shows "reply_stands e s' rq r"
proof (cases r)
  case (Attested st sg pk n reused)
  then obtain user where user: "ar_user rq = Some user" "has_key e s pk"
    "attest_authorize e rq user pk s = Done (Attested 200 sg pk n True)"
    using assms(1) by (auto simp: reply_stands_def split: option.splits)
  obtain rows where "os_db s' = os_db s" "os_attestations s' = os_attestations s @ rows"
    using assms(2) by (auto simp: state_grows_def)
  from authorized_same [OF user(3) this, of e] show ?thesis
    using Attested user has_key_grows [OF user(2) assms(2)] by (simp add: reply_stands_def)
qed (simp add: reply_stands_def)

lemma step_grows:
  assumes "step_stands e s rq step" and "state_grows s s'"
  shows "step_stands e s' rq step"
proof (cases step)
  case (Done r)
  then show ?thesis using assms reply_grows by (simp add: step_stands_def)
next
  case (Continue user orgId pk d)
  moreover have "os_db s' = os_db s" using assms(2) by (simp add: state_grows_def)
  ultimately show ?thesis
    using assms(1) has_key_grows [OF _ assms(2)] by (auto simp: step_stands_def)
qed

lemma begin_stands:
  assumes "attest_begin e' rq s = (step, s')" and "oe_lib e' = oe_lib e"
  shows "state_grows s s' \<and> step_stands e s' rq step"
proof -
  have same: "os_attestations s' = os_attestations s" "os_db s' = os_db s"
    using attest_begin_keeps [OF assms(1)] by simp_all
  show ?thesis
  proof (cases "\<exists>r. step = Done r \<and> (\<exists>st code. r = Refused st code)")
    case True
    then show ?thesis
      using assms same
      by (auto simp: step_stands_def reply_stands_def state_grows_def attest_begin_def Let_def
          getOraclePublicKeyHex_def getOracleKeypair_def split: option.splits if_splits prod.splits sum.splits)
  next
    case False
    then obtain user lim rl cache pk where user: "ar_user rq = Some user"
      and key: "getOraclePublicKeyHex (oe_lib e) (oe_seedHex e') (os_cache s) = (Inr pk, cache)"
      and s': "s' = s\<lparr>os_limiter := lim, os_cache := cache\<rparr>"
      and step: "step = attest_authorize e' rq user pk s'"
      using assms by (auto simp: attest_begin_def Let_def split: option.splits if_splits prod.splits sum.splits)
    have grows: "state_grows s s'"
      using key by (auto simp: state_grows_def s' getOraclePublicKeyHex_def getOracleKeypair_def Let_def split: option.splits)
    have k: "has_key e s' pk" using key_cached [OF key] by (auto simp: has_key_def s')
    have e: "attest_authorize e' rq user pk s' = attest_authorize e rq user pk s'"
      by (simp add: attest_authorize_def)
    show ?thesis
    proof (cases step)
      case (Done r)
      then obtain st sg p n reused where r: "r = Attested st sg p n reused" using False by (cases r) auto
      have a: "attest_authorize e rq user pk s' = Done (Attested st sg p n reused)" using step Done r e by simp
      then show ?thesis
        using authorized_again [OF a] k grows user Done r by (auto simp: step_stands_def reply_stands_def)
    next
      case (Continue u o' p d)
      then have a: "attest_authorize e rq user pk s' = Continue u o' p d" using step e by simp
      then show ?thesis
        using attest_authorize_Continue [OF a] k grows user Continue by (auto simp: step_stands_def)
    qed
  qed
qed

lemma finish_stands:
  assumes "attest_finish e step s = (r, s')" and "step_stands e s rq step"
  shows "state_grows s s' \<and> reply_stands e s' rq r"
proof (cases step)
  case (Done d)
  then show ?thesis using assms by (simp add: attest_finish_def step_stands_def state_grows_def)
next
  case (Continue user orgId pk d)
  then have sign: "attest_sign e user orgId pk d s = (r, s')" using assms(1) by (simp add: attest_finish_def)
  obtain s0 where k: "has_key e s pk" "ar_user rq = Some user" "os_db s0 = os_db s"
    "attest_authorize e rq user pk s0 = Continue user orgId pk d"
    using assms(2) Continue by (auto simp: step_stands_def)
  have grows: "state_grows s s'"
    using attest_sign_cases [OF sign] sign_keeps_key [OF sign] by (auto simp: state_grows_def)
  have "reply_stands e s' rq r"
  proof (cases r)
    case (Attested st sg p n reused)
    then obtain row where row: "sg = at_signature row" "p = pk" "n = ad_nonce d"
      "at_key row = (ad_onChainId d, ad_paymentId d, ad_nonce d)"
      "at_key row \<notin> at_key ` set (os_attestations s)" "os_attestations s' = os_attestations s @ [row]"
      using attest_sign_cases [OF sign] by auto
    have "existing_attestation d (os_attestations s') = Some row"
      unfolding existing_attestation_def row(6) using row(4,5)
      by (subst findFirst_after) (auto simp: findFirst_Cons image_iff)
    then show ?thesis
      using authorized_later [OF k(4), of s' e pk] k grows row Attested attest_sign_cases [OF sign]
      by (auto simp: reply_stands_def has_key_grows)
  qed (simp add: reply_stands_def)
  then show ?thesis using grows by blast
qed

lemma reply_again:
  assumes "reply_stands e s rq (Attested st sg pk n reused)"
  shows "(\<exists>row \<in> set (os_attestations s). slot_asked rq = Some (at_key row) \<and> at_signature row = sg) \<and>
    (\<forall>t r s'. attest_POST (e\<lparr>oe_clock := t\<rparr>) rq s = (r, s') \<longrightarrow>
       os_attestations s' = os_attestations s \<and> (r = Refused 429 None \<or> r = Attested 200 sg pk n True))"
proof -
  obtain user where user: "ar_user rq = Some user"
    and dn: "attest_authorize e rq user pk s = Done (Attested 200 sg pk n True)"
    and key: "has_key e s pk"
    using assms by (auto simp: reply_stands_def split: option.splits)
  obtain d row where row: "attestSchema (ar_body rq) = Some d"
    "existing_attestation d (os_attestations s) = Some row" "sg = at_signature row"
    using authorized_again [OF dn] by blast
  have "row \<in> set (os_attestations s) \<and> slot_asked rq = Some (at_key row)"
    using row(1,2) by (auto simp: existing_attestation_def slot_asked_def dest: findFirst_SomeD)
  moreover have "os_attestations s' = os_attestations s \<and> (r = Refused 429 None \<or> r = Attested 200 sg pk n True)"
    if post: "attest_POST (e\<lparr>oe_clock := t\<rparr>) rq s = (r, s')" for t r s'
  proof -
    obtain lim rl where lim: "rateLimit t t (''attest:'' @ su_walletAddress user) 30 60000 (os_limiter s) = (lim, rl)"
      by fastforce
    obtain seed where cache: "os_cache s = Some seed" "pk = toHex (ol_public (oe_lib e) seed)"
      using key by (auto simp: has_key_def split: option.splits)
    have pk: "getOraclePublicKeyHex (oe_lib e) (oe_seedHex e) (os_cache s) = (Inr pk, os_cache s)"
      by (simp add: getOraclePublicKeyHex_def getOracleKeypair_def cache)
    have again: "attest_authorize (e\<lparr>oe_clock := t\<rparr>) rq user pk (s\<lparr>os_limiter := lim, os_cache := os_cache s\<rparr>)
        = Done (Attested 200 sg pk n True)"
      by (rule authorized_same [OF dn, where rows = "[]"]) simp_all
    show ?thesis
      using post user lim pk again
      by (cases "lr_ok rl") (auto simp: attest_POST_def attest_begin_def attest_finish_def)
  qed
  ultimately show ?thesis using row(3) by blast
qed

section \<open>An instance for the concrete checks\<close>

definition sample_oracle_env :: oracle_env where
  "sample_oracle_env =
     \<lparr>oe_clock = 0, oe_seedHex = None, oe_networkPassphrase = ''Test'', oe_contractId = ''C'',
      oe_lib = sample_oracle,
      oe_getEscrow = (\<lambda>i. if i = 7 then Some \<lparr>ce_manager = ''GM'', ce_payments =
        [\<lparr>cq_worker = ''W'', cq_token = ''T'', cq_amount = 100, cq_rate_per_hour = 20,
          cq_start_date = 1, cq_end_date = 2\<rparr>]\<rparr> else None)\<rparr>"

definition sample_oracle_db :: database where
  "sample_oracle_db = empty_db
     \<lparr>members := [\<lparr>mb_id = ''m1'', mb_orgId = ''o1'', mb_userId = ''u1'', mb_role = MANAGER,
        mb_status = ACTIVE, mb_invitedAt = None, mb_activatedAt = None, mb_suspendedAt = None,
        mb_createdAt = 0\<rparr>],
      escrows := [\<lparr>es_id = ''e1'', es_orgId = ''o1'', es_onChainId = Some 7, es_contractId = ''C'',
        es_network = ''testnet'', es_managerAddress = ''GM'', es_financeApproverAddress = ''GF'',
        es_assetDecimals = 7, es_totalAmountBaseUnits = 100, es_managerApproved = False,
        es_financeApproved = False, es_cancelled = False, es_oracleRotations = 0, es_projectId = None,
        es_oraclePublicKey = None, es_tokenAddress = None, es_createdAt = 0\<rparr>]\<rparr>"

definition sample_oracle_state :: oracle_state where
  "sample_oracle_state =
     \<lparr>os_db = sample_oracle_db, os_attestations = [], os_limiter = empty_limiter, os_cache = Some [7]\<rparr>"

definition sample_attest :: "string \<Rightarrow> int \<Rightarrow> attest_request" where
  "sample_attest wallet hours =
     \<lparr>ar_user = Some \<lparr>su_userId = ''u1'', su_walletAddress = wallet\<rparr>, ar_header = None, ar_query = None,
      ar_body = JObj [(''onChainId'', JNum 7), (''paymentId'', JNum 0), (''hoursLogged'', JNum hours),
                      (''nonce'', JNum 3)]\<rparr>"

definition sample_attest_data :: "int \<Rightarrow> attest_data" where
  "sample_attest_data hours =
     \<lparr>ad_onChainId = 7, ad_paymentId = 0, ad_hoursLogged = hours, ad_nonce = 3\<rparr>"

lemma sample_attest_schema:
  "0 < hours \<Longrightarrow> attestSchema (ar_body (sample_attest wallet hours)) = Some (sample_attest_data hours)"
  by (simp add: attestSchema_def body_int_def sample_attest_def sample_attest_data_def)

lemma sample_attest_authorize:
  assumes "0 < hours" "os_db s = sample_oracle_db"
  shows "attest_authorize e (sample_attest wallet hours) \<lparr>su_userId = ''u1'', su_walletAddress = w\<rparr> pk s =
    (case existing_attestation (sample_attest_data hours) (os_attestations s) of
       Some r \<Rightarrow> Done (Attested 200 (at_signature r) pk 3 True)
     | None \<Rightarrow> Continue \<lparr>su_userId = ''u1'', su_walletAddress = w\<rparr> ''o1'' pk (sample_attest_data hours))"
proof -
  have org: "attest_org (sample_attest wallet hours) \<lparr>su_userId = ''u1'', su_walletAddress = w\<rparr> sample_oracle_db
      = Some ''o1''"
    by (simp add: attest_org_def sample_attest_def sole_membership_def sample_oracle_db_def)
  obtain ctx where ctx: "resolveTenant sample_oracle_db (Some ''u1'') (Some ''o1'') = Inr ctx"
    "tc_orgId ctx = ''o1''" "tc_role ctx = MANAGER"
    by (simp add: resolveTenant_def find_member_def findFirst_def sample_oracle_db_def empty_db_def)
  have "requirePermission ctx Oracle_attest_request = None"
    using ctx(3) by (simp add: requirePermission_def) code_simp
  moreover have "\<exists>x. findEscrowByOnChainId sample_oracle_db ctx 7 = Inr x"
    using ctx(2) by (simp add: findEscrowByOnChainId_def findFirst_def sample_oracle_db_def)
  ultimately show ?thesis
    using assms ctx org
    by (auto simp: attest_authorize_def sample_attest_schema sample_attest_data_def split: option.splits)
qed

lemma sample_attest_begin:
  assumes "0 < hours"
  shows "\<exists>s lim. attest_begin sample_oracle_env (sample_attest ''GM'' hours) sample_oracle_state =
      (Continue \<lparr>su_userId = ''u1'', su_walletAddress = ''GM''\<rparr> ''o1'' (toHex (pad32 [7])) (sample_attest_data hours),
       sample_oracle_state\<lparr>os_limiter := lim\<rparr>)"
proof -
  obtain lim rl where rl: "rateLimit 0 0 ''attest:GM'' 30 60000 empty_limiter = (lim, rl)" "lr_ok rl"
    by (simp add: rateLimit_def take_token_def tick_cleanup_def empty_limiter_def MAX_BUCKET_AGE_CHECK_def)
  show ?thesis
    using rl assms
    by (simp add: attest_begin_def sample_attest_def [of "''GM''"] sample_oracle_state_def sample_oracle_env_def
        getOraclePublicKeyHex_def getOracleKeypair_def sample_oracle_def
        sample_attest_authorize [of hours, unfolded sample_attest_def] existing_attestation_def findFirst_def)
qed

lemma sample_attest_issued:
  "\<exists>sg s. attest_POST sample_oracle_env (sample_attest ''GM'' 5) sample_oracle_state
    = (Attested 201 sg (toHex (pad32 [7])) 3 False, s)"
proof -
  obtain lim where b: "attest_begin sample_oracle_env (sample_attest ''GM'' 5) sample_oracle_state =
      (Continue \<lparr>su_userId = ''u1'', su_walletAddress = ''GM''\<rparr> ''o1'' (toHex (pad32 [7])) (sample_attest_data 5),
       sample_oracle_state\<lparr>os_limiter := lim\<rparr>)"
    using sample_attest_begin [of 5] by auto
  let ?q = "\<lparr>cq_worker = ''W'', cq_token = ''T'', cq_amount = 100, cq_rate_per_hour = 20,
    cq_start_date = 1, cq_end_date = 2\<rparr>"
  have "attest_context sample_oracle_env ?q = sample_proof_context"
    by (simp add: attest_context_def sample_oracle_env_def sample_proof_context_def)
  moreover have "is_u64 3" by (simp add: is_u64_def U64_MAX_def)
  ultimately obtain m where "buildProofMessage sample_oracle (attest_context sample_oracle_env ?q) 7 0 5 3 = Inr m"
    using sample_message [of 3 7 0 5] by auto
  then have "\<exists>sg. signHoursProof sample_oracle None (Some [7]) (attest_context sample_oracle_env ?q) 7 0 5 3
      = (Inr sg, Some [7])"
    by (simp add: signHoursProof_def getOracleKeypair_def)
  moreover have "oe_getEscrow sample_oracle_env 7 = Some \<lparr>ce_manager = ''GM'', ce_payments = [?q]\<rparr>"
    "oe_lib sample_oracle_env = sample_oracle" "oe_seedHex sample_oracle_env = None"
    "os_cache sample_oracle_state = Some [7]" "os_attestations sample_oracle_state = []"
    by (simp_all add: sample_oracle_env_def sample_oracle_state_def)
  ultimately show ?thesis
    by (auto simp: attest_POST_def b attest_finish_def attest_sign_def sample_attest_data_def js_div_def
        createUnique_def)
qed

section \<open>Properties\<close>

text \<open>
  C6: What a new attestation is worth: it is issued only to an active member whose role may ask for it, in
  the organization that owns the escrow, who is the manager the contract names; for the hours the
  contract's amount and rate give; and its signature verifies for the terms read from the contract, not
  for anything in the request. It is recorded under that organization, once for its slot and nonce.
\<close>

theorem attested_on_chain_terms:
  assumes "oracle_lib_documented (oe_lib e)"
    and "attest_POST e rq s = (Attested 201 sg pk n reused, s')"
  shows "\<exists>user d m x escrow q row.
    ar_user rq = Some user \<and> attestSchema (ar_body rq) = Some d \<and>
    m \<in> set (members (os_db s)) \<and> mb_userId m = su_userId user \<and> mb_status m = ACTIVE \<and>
    can (mb_role m) Oracle_attest_request \<and>
    x \<in> set (escrows (os_db s)) \<and> es_onChainId x = Some (ad_onChainId d) \<and> es_orgId x = mb_orgId m \<and>
    oe_getEscrow e (ad_onChainId d) = Some escrow \<and> ce_manager escrow = su_walletAddress user \<and>
    ad_paymentId d < int (length (ce_payments escrow)) \<and> q = ce_payments escrow ! nat (ad_paymentId d) \<and>
    ad_hoursLogged d = js_div (cq_amount q) (cq_rate_per_hour q) \<and>
    fst (verifyHoursProof (oe_lib e) (oe_seedHex e) (os_cache s') (attest_context e q) (ad_onChainId d)
      (ad_paymentId d) (ad_hoursLogged d) (ad_nonce d) sg) = Inr True \<and>
    os_attestations s' = os_attestations s @ [row] \<and> at_signature row = sg \<and>
    at_orgId row = mb_orgId m \<and> at_key row = (ad_onChainId d, ad_paymentId d, ad_nonce d) \<and>
    at_key row \<notin> at_key ` set (os_attestations s)"
proof -
  obtain step s1 where step: "attest_begin e rq s = (step, s1)"
    "attest_finish e step s1 = (Attested 201 sg pk n reused, s')"
    using assms(2) by (auto simp: attest_POST_def split: prod.splits)
  obtain user orgId pubkey d where c: "step = Continue user orgId pubkey d"
    using step attest_begin_Done by (cases step) (fastforce simp: attest_finish_def)+
  have u: "ar_user rq = Some user" "attest_authorize e rq user pubkey s1 = Continue user orgId pubkey d"
    using attest_begin_Continue step(1) c by blast+
  obtain m x where m: "attestSchema (ar_body rq) = Some d" "m \<in> set (members (os_db s))"
    "mb_userId m = su_userId user" "mb_orgId m = orgId" "mb_status m = ACTIVE"
    "can (mb_role m) Oracle_attest_request" "x \<in> set (escrows (os_db s))"
    "es_onChainId x = Some (ad_onChainId d)" "es_orgId x = orgId"
    using attest_authorize_Continue [OF u(2)] attest_begin_keeps [OF step(1)] by auto
  have sign: "attest_sign e user orgId pubkey d s1 = (Attested 201 sg pk n reused, s')"
    using step(2) c by (simp add: attest_finish_def)
  obtain escrow q row where k: "oe_getEscrow e (ad_onChainId d) = Some escrow"
    "ce_manager escrow = su_walletAddress user" "ad_paymentId d < int (length (ce_payments escrow))"
    "q = ce_payments escrow ! nat (ad_paymentId d)"
    "ad_hoursLogged d = js_div (cq_amount q) (cq_rate_per_hour q)"
    "signHoursProof (oe_lib e) (oe_seedHex e) (os_cache s1) (attest_context e q) (ad_onChainId d)
      (ad_paymentId d) (ad_hoursLogged d) (ad_nonce d) = (Inr sg, os_cache s')"
    "at_key row = (ad_onChainId d, ad_paymentId d, ad_nonce d)" "at_signature row = sg"
    "at_orgId row = orgId" "at_key row \<notin> at_key ` set (os_attestations s1)"
    "os_attestations s' = os_attestations s1 @ [row]"
    using attest_sign_Attested [OF sign] by blast
  have v: "fst (verifyHoursProof (oe_lib e) (oe_seedHex e) (os_cache s') (attest_context e q) (ad_onChainId d)
      (ad_paymentId d) (ad_hoursLogged d) (ad_nonce d) sg) = Inr True"
    using signed_proof_accepted [OF assms(1) k(6)] by blast
  show ?thesis
    using u(1) m k(1-5,7-11) v attest_begin_keeps [OF step(1)]
    by (intro exI [of _ user] exI [of _ d] exI [of _ m] exI [of _ x] exI [of _ escrow] exI [of _ q]
        exI [of _ row]) simp
qed

lemma attested_on_chain_terms_witness:
  "\<exists>sg s row. attest_POST sample_oracle_env (sample_attest ''GM'' 5) sample_oracle_state
    = (Attested 201 sg (toHex (pad32 [7])) 3 False, s) \<and> os_attestations s = [row] \<and> at_signature row = sg"
proof -
  obtain sg s where r: "attest_POST sample_oracle_env (sample_attest ''GM'' 5) sample_oracle_state
    = (Attested 201 sg (toHex (pad32 [7])) 3 False, s)"
    using sample_attest_issued by blast
  have "oracle_lib_documented (oe_lib sample_oracle_env)"
    by (simp add: sample_oracle_env_def sample_oracle_documented)
  from attested_on_chain_terms [OF this r] r show ?thesis
    by (auto simp: sample_oracle_state_def)
qed

definition replies_stand :: "oracle_env \<Rightarrow> oracle_world \<Rightarrow> oracle_world \<Rightarrow> bool" where
  "replies_stand e w v \<longleftrightarrow> distinct (map at_key (os_attestations (ow_state v))) \<and>
    (\<exists>later. os_attestations (ow_state v) = os_attestations (ow_state w) @ later \<and> list_all (by_manager e) later) \<and>
    (\<forall>x \<in> set (ow_open v). step_stands e (ow_state v) (fst x) (snd x)) \<and>
    (\<forall>x \<in> set (ow_replies v). reply_stands e (ow_state v) (fst x) (snd x))"

lemma move_replies_stand:
  assumes "replies_stand e w v" and "oracle_move e v v'"
  shows "replies_stand e w v'"
  using assms(2)
proof cases
  case (move_begin t rq st s)
  have b: "state_grows (ow_state v) s" "step_stands e s rq st"
    using begin_stands [OF move_begin(2), of e] by simp_all
  have "os_attestations s = os_attestations (ow_state v)" using attest_begin_keeps [OF move_begin(2)] by simp
  then show ?thesis
    using assms(1) b step_grows [OF _ b(1)] reply_grows [OF _ b(1)] unfolding move_begin(1) replies_stand_def by auto
next
  case (move_finish xs rq st ys r s)
  have st: "step_stands e (ow_state v) rq st" using assms(1) move_finish(2) by (auto simp: replies_stand_def)
  have f: "state_grows (ow_state v) s" "reply_stands e s rq r"
    using finish_stands [OF move_finish(3) st] by simp_all
  obtain new where new: "os_attestations s = os_attestations (ow_state v) @ new" "list_all (by_manager e) new"
    "distinct (map at_key (os_attestations (ow_state v))) \<Longrightarrow> distinct (map at_key (os_attestations (ow_state v) @ new))"
    using finish_cases [OF move_finish(3)] by blast
  have rest: "distinct (map at_key (os_attestations s))"
    "\<exists>later. os_attestations s = os_attestations (ow_state w) @ later \<and> list_all (by_manager e) later"
    using assms(1) new by (simp_all add: replies_stand_def) (metis append.assoc list_all_append)
  show ?thesis
    using assms(1) f rest step_grows [OF _ f(1)] reply_grows [OF _ f(1)]
    unfolding move_finish(1) replies_stand_def by (auto simp: move_finish(2))
qed

text \<open>
  C21: A nonce is signed once, and every request for it is given that signature. From a state in which
  nothing is in flight, let requests begin and finish in any order and at any times. Then a slot and
  nonce has one row, rows are only added, and each added row was created by the wallet the contract names
  as manager, for the hours its amount and rate give. Whoever was given a signature was given the one
  recorded for the slot and nonce he asked for, whether it was made for him or found, so two answers for
  the same slot and nonce carry the same signature; and the same request, made again at any time, is
  answered with this signature, marked as reused, and signs and records nothing, unless the rate
  limiter refuses it.
\<close>

theorem nonce_signed_once:
  assumes "(oracle_move e)\<^sup>*\<^sup>* w w'" and "ow_open w = []" "ow_replies w = []"
    and "distinct (map at_key (os_attestations (ow_state w)))"
  shows "distinct (map at_key (os_attestations (ow_state w'))) \<and>
    (\<exists>later. os_attestations (ow_state w') = os_attestations (ow_state w) @ later \<and> list_all (by_manager e) later) \<and>
    (\<forall>rq st sg pk n reused. (rq, Attested st sg pk n reused) \<in> set (ow_replies w') \<longrightarrow>
       (\<exists>row \<in> set (os_attestations (ow_state w')). slot_asked rq = Some (at_key row) \<and> at_signature row = sg) \<and>
       (\<forall>t r s. attest_POST (e\<lparr>oe_clock := t\<rparr>) rq (ow_state w') = (r, s) \<longrightarrow>
          os_attestations s = os_attestations (ow_state w') \<and>
          (r = Refused 429 None \<or> r = Attested 200 sg pk n True)))"
proof -
  have "replies_stand e w w" using assms(2-4) by (simp add: replies_stand_def)
  with assms(1) have inv: "replies_stand e w w'"
    by (induction rule: rtranclp_induct) (auto intro: move_replies_stand)
  have each: "(\<exists>row \<in> set (os_attestations (ow_state w')). slot_asked rq = Some (at_key row) \<and> at_signature row = sg) \<and>
      (\<forall>t r s. attest_POST (e\<lparr>oe_clock := t\<rparr>) rq (ow_state w') = (r, s) \<longrightarrow>
         os_attestations s = os_attestations (ow_state w') \<and> (r = Refused 429 None \<or> r = Attested 200 sg pk n True))"
    if "(rq, Attested st sg pk n reused) \<in> set (ow_replies w')" for rq st sg pk n reused
    using inv that reply_again unfolding replies_stand_def by fastforce
  show ?thesis using inv each unfolding replies_stand_def by blast
qed

lemma nonce_signed_once_witness:
  "\<exists>sg w'. (oracle_move sample_oracle_env)\<^sup>*\<^sup>*
      \<lparr>ow_state = sample_oracle_state, ow_open = [], ow_replies = []\<rparr> w' \<and>
    ow_replies w' = [(sample_attest ''GM'' 5, Attested 201 sg (toHex (pad32 [7])) 3 False)] \<and>
    fst (attest_POST (sample_oracle_env\<lparr>oe_clock := 100\<rparr>) (sample_attest ''GM'' 5) (ow_state w'))
      \<in> {Refused 429 None, Attested 200 sg (toHex (pad32 [7])) 3 True}"
proof -
  let ?w = "\<lparr>ow_state = sample_oracle_state, ow_open = [], ow_replies = []\<rparr>" and ?rq = "sample_attest ''GM'' 5"
  obtain sg s step s1 where r: "attest_begin sample_oracle_env ?rq sample_oracle_state = (step, s1)"
    "attest_finish sample_oracle_env step s1 = (Attested 201 sg (toHex (pad32 [7])) 3 False, s)"
    using sample_attest_issued by (auto simp: attest_POST_def split: prod.splits)
  let ?v = "?w\<lparr>ow_state := s1, ow_open := [(?rq, step)]\<rparr>"
  let ?v' = "\<lparr>ow_state = s, ow_open = [], ow_replies = [(?rq, Attested 201 sg (toHex (pad32 [7])) 3 False)]\<rparr>"
  have clock: "sample_oracle_env\<lparr>oe_clock := 0\<rparr> = sample_oracle_env" by (simp add: sample_oracle_env_def)
  have "oracle_move sample_oracle_env ?w ?v"
    using move_begin [where e = sample_oracle_env and t = 0 and rq = ?rq and w = ?w and step = step and s = s1] r(1) clock
    by simp
  moreover have "oracle_move sample_oracle_env ?v ?v'"
    using move_finish [where e = sample_oracle_env and w = ?v and xs = "[]" and rq = ?rq and step = step and ys = "[]"] r(2)
    by simp
  ultimately have run: "(oracle_move sample_oracle_env)\<^sup>*\<^sup>* ?w ?v'"
    by (meson converse_rtranclp_into_rtranclp r_into_rtranclp)
  obtain r' s' where again: "attest_POST (sample_oracle_env\<lparr>oe_clock := 100\<rparr>) ?rq s = (r', s')" by fastforce
  have "r' = Refused 429 None \<or> r' = Attested 200 sg (toHex (pad32 [7])) 3 True"
    using nonce_signed_once [OF run] again by (simp add: sample_oracle_state_def) blast
  then show ?thesis using run again by (intro exI [of _ sg] exI [of _ ?v']) auto
qed

text \<open>
  A recorded signature is handed out without the checks that a new one needs: any active member with
  the permission, in the organization that owns the escrow row, receives it, also when the contract
  names another manager, when the hours of the request are others, and when it was recorded for another
  organization or for a contract that is no longer in use.
\<close>

theorem recorded_signature_skips_checks:
  assumes "attestSchema (ar_body rq) = Some d"
    and "resolveTenant (os_db s) (Some (su_userId user)) (attest_org rq user (os_db s)) = Inr ctx"
    and "can (tc_role ctx) Oracle_attest_request"
    and "findEscrowByOnChainId (os_db s) ctx (ad_onChainId d) = Inr x"
    and "findFirst (\<lambda>r. at_key r = (ad_onChainId d, ad_paymentId d, ad_nonce d)) (os_attestations s) = Some row"
  shows "attest_finish e (attest_authorize e rq user pubkey s) s
    = (Attested 200 (at_signature row) pubkey (ad_nonce d) True, s)"
  using assms
  by (simp add: attest_authorize_def attest_finish_def existing_attestation_def requirePermission_def)

lemma recorded_signature_skips_checks_witness:
  "attest_finish sample_oracle_env
     (attest_authorize sample_oracle_env (sample_attest ''GX'' 99) \<lparr>su_userId = ''u1'', su_walletAddress = ''GX''\<rparr> ''pk''
        (sample_oracle_state\<lparr>os_attestations := [\<lparr>at_orgId = ''o2'', at_escrowOnChainId = 7,
           at_onChainPaymentIndex = 0, at_hours = 5, at_nonce = 3, at_signature = ''sig'', at_schema = ''CFWP-v2'',
           at_contractId = ''OLD'', at_createdBy = ''GM''\<rparr>]\<rparr>))
     (sample_oracle_state\<lparr>os_attestations := [\<lparr>at_orgId = ''o2'', at_escrowOnChainId = 7,
           at_onChainPaymentIndex = 0, at_hours = 5, at_nonce = 3, at_signature = ''sig'', at_schema = ''CFWP-v2'',
           at_contractId = ''OLD'', at_createdBy = ''GM''\<rparr>]\<rparr>)
   = (Attested 200 ''sig'' ''pk'' 3 True,
      sample_oracle_state\<lparr>os_attestations := [\<lparr>at_orgId = ''o2'', at_escrowOnChainId = 7,
           at_onChainPaymentIndex = 0, at_hours = 5, at_nonce = 3, at_signature = ''sig'', at_schema = ''CFWP-v2'',
           at_contractId = ''OLD'', at_createdBy = ''GM''\<rparr>]\<rparr>)"
  (is "attest_finish _ (attest_authorize _ ?rq ?u _ ?s) ?s = _")
proof -
  have org: "attest_org ?rq ?u (os_db ?s) = Some ''o1''"
    by (simp add: attest_org_def sample_attest_def sole_membership_def sample_oracle_db_def sample_oracle_state_def)
  obtain ctx where ctx: "resolveTenant (os_db ?s) (Some (su_userId ?u)) (attest_org ?rq ?u (os_db ?s)) = Inr ctx"
    "tc_orgId ctx = ''o1''" "tc_role ctx = MANAGER"
    unfolding org
    by (simp add: resolveTenant_def find_member_def findFirst_def sample_oracle_db_def empty_db_def
        sample_oracle_state_def)
  have can: "can (tc_role ctx) Oracle_attest_request" unfolding ctx(3) by code_simp
  obtain x where x: "findEscrowByOnChainId (os_db ?s) ctx (ad_onChainId (sample_attest_data 99)) = Inr x"
    using ctx(2) by (simp add: findEscrowByOnChainId_def findFirst_def sample_oracle_db_def
        sample_oracle_state_def sample_attest_data_def)
  show ?thesis
    using recorded_signature_skips_checks [OF sample_attest_schema ctx(1) can x]
    by (simp add: findFirst_def at_key_def sample_attest_data_def)
qed

text \<open>
  A second request for a slot and nonce that passed the lookup before the first one was recorded is
  refused with status 500 or for a reason of the chain, and is not given the recorded signature.
\<close>

theorem racing_repeat_refused:
  assumes "(ad_onChainId d, ad_paymentId d, ad_nonce d) \<in> at_key ` set (os_attestations s)"
  shows "\<exists>st code s'. attest_finish e (Continue user orgId pubkey d) s = (Refused st code, s') \<and>
    os_attestations s' = os_attestations s"
proof -
  obtain r s' where rs: "attest_finish e (Continue user orgId pubkey d) s = (r, s')" by force
  then have sign: "attest_sign e user orgId pubkey d s = (r, s')" by (simp add: attest_finish_def)
  show ?thesis
  proof (cases r)
    case (Attested st sg pk n reused)
    then show ?thesis using attest_sign_Attested sign assms by metis
  next
    case (Refused st code)
    then show ?thesis
      using sign rs
      by (auto simp: attest_sign_def Let_def split: option.splits if_splits prod.splits sum.splits)
  qed
qed

lemma racing_repeat_refused_witness:
  "\<exists>st code s'. attest_finish sample_oracle_env
     (Continue \<lparr>su_userId = ''u1'', su_walletAddress = ''GM''\<rparr> ''o1'' ''pk'' (sample_attest_data 5))
     (sample_oracle_state\<lparr>os_attestations := [\<lparr>at_orgId = ''o1'', at_escrowOnChainId = 7,
        at_onChainPaymentIndex = 0, at_hours = 5, at_nonce = 3, at_signature = ''sig'', at_schema = ''CFWP-v2'',
        at_contractId = ''C'', at_createdBy = ''GM''\<rparr>]\<rparr>) = (Refused st code, s')"
  using racing_repeat_refused [of "sample_attest_data 5" "sample_oracle_state\<lparr>os_attestations :=
      [\<lparr>at_orgId = ''o1'', at_escrowOnChainId = 7,
        at_onChainPaymentIndex = 0, at_hours = 5, at_nonce = 3, at_signature = ''sig'', at_schema = ''CFWP-v2'',
        at_contractId = ''C'', at_createdBy = ''GM''\<rparr>]\<rparr>"]
  by (simp add: sample_attest_data_def at_key_def) blast

end
