(* ===== verification/CsvText.thy ===== *)
theory CsvText
  imports Prelude
begin

text \<open>
  The CSV reader of the payroll upload, \<open>parseCsvText\<close> of \<open>src/lib/payroll/csv.ts\<close>, and the grammar it
  implements. A text is a list of code points below 256, so the byte order mark that the reader strips
  does not occur.
\<close>

section \<open>The reader\<close>

abbreviation csv_quote :: char where "csv_quote \<equiv> CHR 0x22"
abbreviation csv_lf :: char where "csv_lf \<equiv> CHR 0x0A"
abbreviation csv_cr :: char where "csv_cr \<equiv> CHR 0x0D"

record csv_reader =
  rd_rows :: "string list list"
  rd_row :: "string list"
  rd_field :: string
  rd_quoted :: bool
  rd_sawField :: bool

definition new_reader :: csv_reader where
  "new_reader = \<lparr>rd_rows = [], rd_row = [], rd_field = [], rd_quoted = False, rd_sawField = False\<rparr>"

definition endField :: "csv_reader \<Rightarrow> csv_reader" where
  "endField s = s\<lparr>rd_row := rd_row s @ [rd_field s], rd_field := [], rd_sawField := False\<rparr>"

definition endRow :: "csv_reader \<Rightarrow> csv_reader" where
  "endRow s =
     (let s = (if rd_sawField s \<or> rd_field s \<noteq> [] \<or> rd_row s \<noteq> []
               then s\<lparr>rd_row := rd_row s @ [rd_field s], rd_field := []\<rparr> else s);
          s = (if rd_row s \<noteq> [] then s\<lparr>rd_rows := rd_rows s @ [rd_row s]\<rparr> else s)
      in s\<lparr>rd_row := [], rd_sawField := False\<rparr>)"

definition next_is :: "char \<Rightarrow> string \<Rightarrow> bool" where
  "next_is c cs \<longleftrightarrow> cs \<noteq> [] \<and> hd cs = c"

function csv_scan :: "csv_reader \<Rightarrow> string \<Rightarrow> csv_reader" where
  "csv_scan s [] = s"
| "csv_scan s (c # cs) =
     (if rd_quoted s
      then if c = csv_quote
           then if next_is csv_quote cs
                then csv_scan (s\<lparr>rd_field := rd_field s @ [csv_quote]\<rparr>) (tl cs)
                else csv_scan (s\<lparr>rd_quoted := False\<rparr>) cs
           else csv_scan (s\<lparr>rd_field := rd_field s @ [c]\<rparr>) cs
      else if c = csv_quote then csv_scan (s\<lparr>rd_quoted := True, rd_sawField := True\<rparr>) cs
      else if c = CHR '','' then csv_scan (endField s) cs
      else if c = csv_lf then csv_scan (endRow s) cs
      else if c = csv_cr then csv_scan (endRow s) (if next_is csv_lf cs then tl cs else cs)
      else csv_scan (s\<lparr>rd_field := rd_field s @ [c], rd_sawField := True\<rparr>) cs)"
  by pat_completeness auto

termination
  by (relation "measure (\<lambda>(s, cs). length cs)") auto

definition nonblank :: "string list \<Rightarrow> bool" where
  "nonblank r \<longleftrightarrow> list_ex (\<lambda>f. js_trim f \<noteq> []) r"

definition parseCsvText :: "string \<Rightarrow> string list list" where
  "parseCsvText text =
     (let s = csv_scan new_reader text;
          s = (if rd_sawField s \<or> rd_field s \<noteq> [] \<or> rd_row s \<noteq> [] then endRow s else s)
      in filter nonblank (rd_rows s))"

section \<open>The grammar\<close>

text \<open>
  A field is written plainly when it has no separator, quote or line end, or in quotes with its quotes
  doubled; a record is its fields with commas between them; a text is its records, each ended by a line
  feed with or without a carriage return, the last perhaps by nothing.
\<close>

definition csv_special :: "char \<Rightarrow> bool" where
  "csv_special c \<longleftrightarrow> c = csv_quote \<or> c = CHR '','' \<or> c = csv_lf \<or> c = csv_cr"

definition double_quotes :: "string \<Rightarrow> string" where
  "double_quotes f = concat (map (\<lambda>c. if c = csv_quote then [csv_quote, csv_quote] else [c]) f)"

inductive field_text :: "string \<Rightarrow> string \<Rightarrow> bool" where
  plain_field: "list_all (\<lambda>c. \<not> csv_special c) f \<Longrightarrow> field_text f f"
| quoted_field: "field_text f (csv_quote # double_quotes f @ [csv_quote])"

inductive record_text :: "string list \<Rightarrow> string \<Rightarrow> bool" where
  last_field: "field_text f t \<Longrightarrow> record_text [f] t"
| more_fields: "field_text f t \<Longrightarrow> record_text fs ts \<Longrightarrow> record_text (f # fs) (t @ CHR '','' # ts)"

inductive csv_lines :: "string list list \<Rightarrow> string \<Rightarrow> bool" where
  no_lines: "csv_lines [] []"
| more_lines: "record_text fs t \<Longrightarrow> e = [csv_lf] \<or> e = [csv_cr, csv_lf] \<Longrightarrow> csv_lines rs ts
    \<Longrightarrow> csv_lines (fs # rs) (t @ e @ ts)"

inductive csv_text :: "string list list \<Rightarrow> string \<Rightarrow> bool" where
  all_ended: "csv_lines rs t \<Longrightarrow> csv_text rs t"
| last_open: "csv_lines rs t \<Longrightarrow> record_text fs u \<Longrightarrow> csv_text (rs @ [fs]) (t @ u)"

text \<open>One text of every table: all fields in quotes, all lines ended.\<close>

definition write_field :: "string \<Rightarrow> string" where
  "write_field f = csv_quote # double_quotes f @ [csv_quote]"

fun write_record :: "string list \<Rightarrow> string" where
  "write_record [] = []"
| "write_record [f] = write_field f"
| "write_record (f # fs) = write_field f @ CHR '','' # write_record fs"

definition write_csv :: "string list list \<Rightarrow> string" where
  "write_csv rs = concat (map (\<lambda>r. write_record r @ [csv_lf]) rs)"

section \<open>Lemmas\<close>

declare csv_scan.simps [simp del]

lemma csv_scan_Nil [simp]: "csv_scan s [] = s"
  by (simp add: csv_scan.simps)

lemma scan_plain:
  "list_all (\<lambda>c. \<not> csv_special c) f \<Longrightarrow> \<not> rd_quoted s \<Longrightarrow>
    csv_scan s (f @ rest) =
    csv_scan (s\<lparr>rd_field := rd_field s @ f, rd_sawField := rd_sawField s \<or> f \<noteq> []\<rparr>) rest"
proof (induction f arbitrary: s)
  case (Cons c f)
  have "csv_scan s ((c # f) @ rest) = csv_scan (s\<lparr>rd_field := rd_field s @ [c], rd_sawField := True\<rparr>) (f @ rest)"
    using Cons.prems by (simp add: csv_scan.simps csv_special_def)
  then show ?case using Cons by simp
qed simp

lemma scan_inside_quotes:
  "rd_quoted s \<Longrightarrow> csv_scan s (double_quotes f @ rest) = csv_scan (s\<lparr>rd_field := rd_field s @ f\<rparr>) rest"
proof (induction f arbitrary: s)
  case (Cons c f)
  have "csv_scan s (double_quotes (c # f) @ rest)
      = csv_scan (s\<lparr>rd_field := rd_field s @ [c]\<rparr>) (double_quotes f @ rest)"
    using Cons.prems by (simp add: csv_scan.simps double_quotes_def next_is_def)
  then show ?case using Cons by simp
qed (simp add: double_quotes_def)

lemma scan_quoted:
  assumes "\<not> rd_quoted s" "\<not> next_is csv_quote rest"
  shows "csv_scan s (csv_quote # double_quotes f @ csv_quote # rest)
    = csv_scan (s\<lparr>rd_field := rd_field s @ f, rd_sawField := True\<rparr>) rest"
proof -
  have "csv_scan s (csv_quote # double_quotes f @ csv_quote # rest)
      = csv_scan (s\<lparr>rd_quoted := True, rd_sawField := True\<rparr>) (double_quotes f @ csv_quote # rest)"
    using assms by (simp add: csv_scan.simps)
  also have "\<dots> = csv_scan (s\<lparr>rd_quoted := True, rd_sawField := True, rd_field := rd_field s @ f\<rparr>) (csv_quote # rest)"
    by (simp add: scan_inside_quotes)
  also have "\<dots> = csv_scan (s\<lparr>rd_field := rd_field s @ f, rd_sawField := True\<rparr>) rest"
    using assms by (cases s) (simp add: csv_scan.simps)
  finally show ?thesis .
qed

text \<open>The reader between two fields, and after a field.\<close>

definition at_field :: "csv_reader \<Rightarrow> bool" where
  "at_field s \<longleftrightarrow> rd_field s = [] \<and> \<not> rd_quoted s \<and> \<not> rd_sawField s"

lemma scan_field:
  assumes "field_text f t" "at_field s" "\<not> next_is csv_quote rest"
  shows "\<exists>saw. csv_scan s (t @ rest) = csv_scan (s\<lparr>rd_field := f, rd_sawField := saw\<rparr>) rest \<and> (f \<noteq> [] \<longrightarrow> saw)"
  using assms(1)
proof (cases rule: field_text.cases)
  case plain_field
  then show ?thesis
    using assms(2,3) by (intro exI [of _ "f \<noteq> []"]) (simp add: scan_plain at_field_def)
next
  case quoted_field
  then show ?thesis
    using assms(2,3) by (intro exI [of _ True]) (simp add: scan_quoted at_field_def)
qed

lemma scan_record:
  "record_text fs t \<Longrightarrow> at_field s \<Longrightarrow> \<not> next_is csv_quote rest \<Longrightarrow>
    \<exists>saw. csv_scan s (t @ rest) =
      csv_scan (s\<lparr>rd_row := rd_row s @ butlast fs, rd_field := last fs, rd_sawField := saw\<rparr>) rest \<and>
      (last fs \<noteq> [] \<longrightarrow> saw) \<and> fs \<noteq> []"
proof (induction arbitrary: s rule: record_text.induct)
  case (last_field f t)
  obtain saw where "csv_scan s (t @ rest) = csv_scan (s\<lparr>rd_field := f, rd_sawField := saw\<rparr>) rest"
    "f \<noteq> [] \<longrightarrow> saw"
    using scan_field [OF last_field] by blast
  then show ?case by (auto intro!: exI [of _ saw])
next
  case (more_fields f t fs ts)
  let ?s = "s\<lparr>rd_row := rd_row s @ [f]\<rparr>"
  have "\<not> next_is csv_quote (CHR '','' # ts @ rest)" by (simp add: next_is_def)
  then obtain saw where "csv_scan s (t @ CHR '','' # ts @ rest)
      = csv_scan (s\<lparr>rd_field := f, rd_sawField := saw\<rparr>) (CHR '','' # ts @ rest)"
    using scan_field more_fields by blast
  also have "\<dots> = csv_scan ?s (ts @ rest)"
    using more_fields.prems by (cases s) (simp add: csv_scan.simps endField_def at_field_def)
  finally have first: "csv_scan s ((t @ CHR '','' # ts) @ rest) = csv_scan ?s (ts @ rest)" by simp
  have "at_field ?s" using more_fields.prems by (simp add: at_field_def)
  from more_fields.IH [OF this more_fields.prems(2)] obtain saw where
    "csv_scan ?s (ts @ rest) =
      csv_scan (?s\<lparr>rd_row := rd_row ?s @ butlast fs, rd_field := last fs, rd_sawField := saw\<rparr>) rest"
    "last fs \<noteq> [] \<longrightarrow> saw" "fs \<noteq> []"
    by blast
  then show ?case using first by (auto intro!: exI [of _ saw])
qed

lemma endRow_of_record:
  assumes "fs \<noteq> []" "rd_row s = []"
  shows "\<exists>keep. endRow (s\<lparr>rd_row := butlast fs, rd_field := last fs, rd_sawField := saw\<rparr>)
      = s\<lparr>rd_rows := rd_rows s @ (if keep then [fs] else []), rd_row := [], rd_field := [], rd_sawField := False\<rparr> \<and>
    (keep \<or> fs = [[]])"
proof (cases "saw \<or> last fs \<noteq> [] \<or> butlast fs \<noteq> []")
  case True
  then show ?thesis
    using assms by (auto simp: endRow_def intro!: exI [of _ True])
next
  case False
  then have "fs = [[]]" using assms(1) by (metis append_Nil append_butlast_last_id)
  then show ?thesis using False assms(2) by (auto simp: endRow_def intro!: exI [of _ False])
qed

lemma blank_record [simp]: "\<not> nonblank [[]]"
  by (simp add: nonblank_def js_trim_def)

definition finish_reader :: "csv_reader \<Rightarrow> string list list" where
  "finish_reader s =
     filter nonblank (rd_rows (if rd_sawField s \<or> rd_field s \<noteq> [] \<or> rd_row s \<noteq> [] then endRow s else s))"

lemma parseCsvText_finish: "parseCsvText text = finish_reader (csv_scan new_reader text)"
  by (simp add: parseCsvText_def finish_reader_def Let_def)

lemma finish_at_end:
  assumes "fs \<noteq> []" "at_field s" "rd_row s = []"
  shows "finish_reader (s\<lparr>rd_row := butlast fs, rd_field := last fs, rd_sawField := saw\<rparr>)
    = filter nonblank (rd_rows s @ [fs])"
proof (cases "saw \<or> last fs \<noteq> [] \<or> butlast fs \<noteq> []")
  case True
  then show ?thesis
    using endRow_of_record [OF assms(1,3), of saw] by (auto simp: finish_reader_def)
next
  case False
  then have "fs = [[]]" using assms(1) by (metis append_Nil append_butlast_last_id)
  then show ?thesis using False by (simp add: finish_reader_def)
qed

text \<open>What ended records add to the rows read before them.\<close>

lemma scan_lines:
  "csv_lines rs t \<Longrightarrow> at_field s \<Longrightarrow> rd_row s = [] \<Longrightarrow>
    \<exists>rows. csv_scan s (t @ rest) = csv_scan (s\<lparr>rd_rows := rd_rows s @ rows\<rparr>) rest \<and>
      filter nonblank rows = filter nonblank rs"
proof (induction arbitrary: s rule: csv_lines.induct)
  case no_lines
  then show ?case by (auto intro!: exI [of _ "[]"])
next
  case (more_lines fs t e rs ts)
  have "\<not> next_is csv_quote (e @ ts @ rest)" using more_lines.hyps(2) by (auto simp: next_is_def)
  then obtain saw where scan: "csv_scan s (t @ e @ ts @ rest) =
      csv_scan (s\<lparr>rd_row := butlast fs, rd_field := last fs, rd_sawField := saw\<rparr>) (e @ ts @ rest)" "fs \<noteq> []"
    using scan_record [OF more_lines.hyps(1) more_lines.prems(1)] more_lines.prems(2) by auto
  let ?t = "s\<lparr>rd_row := butlast fs, rd_field := last fs, rd_sawField := saw\<rparr>"
  obtain keep where keep: "endRow ?t
      = s\<lparr>rd_rows := rd_rows s @ (if keep then [fs] else []), rd_row := [], rd_field := [], rd_sawField := False\<rparr>"
    "keep \<or> fs = [[]]"
    using endRow_of_record [OF scan(2) more_lines.prems(2)] by blast
  let ?u = "s\<lparr>rd_rows := rd_rows s @ (if keep then [fs] else [])\<rparr>"
  have u: "endRow ?t = ?u"
    using keep(1) more_lines.prems by (simp add: at_field_def)
  have "csv_scan ?t (e @ ts @ rest) = csv_scan ?u (ts @ rest)"
    using more_lines.hyps(2) more_lines.prems(1) u by (auto simp: csv_scan.simps next_is_def at_field_def)
  moreover obtain rows where "csv_scan ?u (ts @ rest) = csv_scan (?u\<lparr>rd_rows := rd_rows ?u @ rows\<rparr>) rest"
    "filter nonblank rows = filter nonblank rs"
    using more_lines.IH [of ?u] more_lines.prems by (auto simp: at_field_def)
  ultimately show ?case
    using scan(1) keep(2) by (intro exI [of _ "(if keep then [fs] else []) @ rows"]) auto
qed

lemma write_record_text: "fs \<noteq> [] \<Longrightarrow> record_text fs (write_record fs)"
  by (induction fs rule: write_record.induct)
    (auto simp: write_field_def intro: last_field more_fields [OF quoted_field, simplified] quoted_field)

lemma write_csv_lines: "list_all (\<lambda>r. r \<noteq> []) rs \<Longrightarrow> csv_lines rs (write_csv rs)"
proof (induction rs)
  case (Cons r rs)
  have "write_csv (r # rs) = write_record r @ [csv_lf] @ write_csv rs" by (simp add: write_csv_def)
  moreover have "csv_lines rs (write_csv rs)" "record_text r (write_record r)"
    using Cons write_record_text by simp_all
  ultimately show ?case using more_lines by metis
qed (simp add: write_csv_def no_lines)

lemma scan_open:
  "csv_quote \<notin> set rest \<Longrightarrow> rd_quoted s \<Longrightarrow> csv_scan s rest = s\<lparr>rd_field := rd_field s @ rest\<rparr>"
  by (induction rest arbitrary: s) (auto simp: csv_scan.simps)

lemma new_reader_simps [simp]: "at_field new_reader" "rd_row new_reader = []" "rd_rows new_reader = []"
  by (simp_all add: new_reader_def at_field_def)

lemma reader_filters:
  assumes "csv_text rs t"
  shows "parseCsvText t = filter nonblank rs"
  using assms
proof (cases rule: csv_text.cases)
  case all_ended
  obtain rows where "csv_scan new_reader (t @ []) = csv_scan (new_reader\<lparr>rd_rows := rows\<rparr>) []"
    "filter nonblank rows = filter nonblank rs"
    using scan_lines [OF all_ended, of new_reader "[]"] by auto
  then show ?thesis by (simp add: parseCsvText_finish finish_reader_def new_reader_def)
next
  case (last_open rs' t' fs u)
  obtain rows where lines: "csv_scan new_reader (t' @ u) = csv_scan (new_reader\<lparr>rd_rows := rows\<rparr>) u"
    "filter nonblank rows = filter nonblank rs'"
    using scan_lines [OF last_open(3), of new_reader u] by auto
  let ?s = "new_reader\<lparr>rd_rows := rows\<rparr>"
  have s: "at_field ?s" "rd_row ?s = []" by (simp_all add: new_reader_def at_field_def)
  have "\<not> next_is csv_quote []" by (simp add: next_is_def)
  then obtain saw where "csv_scan ?s (u @ []) =
      csv_scan (?s\<lparr>rd_row := rd_row ?s @ butlast fs, rd_field := last fs, rd_sawField := saw\<rparr>) []" "fs \<noteq> []"
    using scan_record [OF last_open(4) s(1)] by blast
  then show ?thesis
    using lines last_open(1,2) finish_at_end [OF _ s] s(2) by (simp add: parseCsvText_finish)
qed

section \<open>Properties\<close>

text \<open>
  C19: The reader implements the grammar: of any text that writes a table, with any mixture of plain and
  quoted fields and of line ends, it reads exactly the rows of the table that are not blank, each with
  exactly its fields; and what it read, written out again, is read back the same.
\<close>

theorem reader_refines_grammar:
  assumes "csv_text rs t"
  shows "parseCsvText t = filter nonblank rs \<and> parseCsvText (write_csv (parseCsvText t)) = parseCsvText t"
proof -
  have read: "parseCsvText t = filter nonblank rs" using assms by (rule reader_filters)
  have "list_all (\<lambda>r. r \<noteq> []) (filter nonblank rs)"
    by (auto simp: list_all_iff nonblank_def)
  then have "parseCsvText (write_csv (filter nonblank rs)) = filter nonblank rs"
    using reader_filters [OF all_ended, OF write_csv_lines] by simp
  then show ?thesis using read by simp
qed

lemma reader_refines_grammar_witness:
  "parseCsvText (write_csv [[''a,b'', [csv_quote]], [[]], [''c'']]) = [[''a,b'', [csv_quote]], [''c'']]"
  using reader_refines_grammar [OF all_ended, OF write_csv_lines, of "[[''a,b'', [csv_quote]], [[]], [''c'']]"]
  by (simp add: nonblank_def js_trim_def js_ws_def)

text \<open>
  A quote that is opened and not closed swallows the rest of the file: whatever records follow become
  text of that one field, and the reader reports nothing.
\<close>

theorem open_quote_swallows_rows:
  assumes "csv_lines rs t" "record_text fs u" "csv_quote \<notin> set rest"
  shows "parseCsvText (t @ u @ CHR '','' # csv_quote # rest) = filter nonblank (rs @ [fs @ [rest]])"
proof -
  let ?tail = "CHR '','' # csv_quote # rest"
  obtain rows where lines: "csv_scan new_reader (t @ u @ ?tail) = csv_scan (new_reader\<lparr>rd_rows := rows\<rparr>) (u @ ?tail)"
    "filter nonblank rows = filter nonblank rs"
    using scan_lines [OF assms(1), of new_reader "u @ ?tail"] by auto
  let ?s = "new_reader\<lparr>rd_rows := rows\<rparr>"
  have s: "at_field ?s" "rd_row ?s = []" by (simp_all add: new_reader_def at_field_def)
  have "\<not> next_is csv_quote ?tail" by (simp add: next_is_def)
  then obtain saw where rec: "csv_scan ?s (u @ ?tail) =
      csv_scan (?s\<lparr>rd_row := butlast fs, rd_field := last fs, rd_sawField := saw\<rparr>) ?tail" "fs \<noteq> []"
    using scan_record [OF assms(2) s(1)] s(2) by auto
  have "csv_scan (?s\<lparr>rd_row := butlast fs, rd_field := last fs, rd_sawField := saw\<rparr>) ?tail
      = ?s\<lparr>rd_row := fs, rd_field := rest, rd_quoted := True, rd_sawField := True\<rparr>"
    using rec(2) assms(3) by (simp add: csv_scan.simps endField_def new_reader_def scan_open)
  then show ?thesis
    using lines rec(1) by (simp add: parseCsvText_finish finish_reader_def endRow_def Let_def)
qed

lemma open_quote_swallows_rows_witness:
  "length (parseCsvText (write_csv [[''h'', ''r'']] @ write_record [''a''] @ CHR '','' # csv_quote # ''x'' @ [csv_lf]
      @ ''b,y'' @ [csv_lf] @ ''c,z'' @ [csv_lf])) = 2"
  using open_quote_swallows_rows [OF write_csv_lines write_record_text, of "[[''h'', ''r'']]" "[''a'']"
      "''x'' @ [csv_lf] @ ''b,y'' @ [csv_lf] @ ''c,z'' @ [csv_lf]"]
  by (simp add: nonblank_def js_trim_def js_ws_def)

end
