(* ===== verification/PayrollCsv.thy ===== *)
theory PayrollCsv
  imports CsvText Money
begin

text \<open>
  Validation of a payroll file, \<open>src/lib/payroll/csv.ts\<close>. An issue has its line, column and code; the
  message texts are left out. A text is a list of code points below 256.
\<close>

section \<open>Limits and codes\<close>

definition MAX_CSV_BYTES :: nat where
  "MAX_CSV_BYTES = 1000000"

definition MAX_ROWS :: nat where
  "MAX_ROWS = 100"

definition MAX_FIELD_LENGTH :: nat where
  "MAX_FIELD_LENGTH = 256"

definition REQUIRED_COLUMNS :: "string list" where
  "REQUIRED_COLUMNS =
     [''recipient'', ''amount'', ''asset'', ''hours'', ''rate'', ''period_start'', ''period_end'']"

definition OPTIONAL_COLUMNS :: "string list" where
  "OPTIONAL_COLUMNS = [''reference'']"

definition SUPPORTED_ASSETS :: "string list" where
  "SUPPORTED_ASSETS = [''USDC'', ''XLM'']"

text \<open>A prime marks the codes whose names the funding check uses too.\<close>

datatype csv_issue_code = FILE_EMPTY | FILE_TOO_LARGE | TOO_MANY_ROWS | MISSING_COLUMN
  | DUPLICATE_COLUMN | FIELD_TOO_LONG | WRONG_FIELD_COUNT | INVALID_ADDRESS | INVALID_AMOUNT
  | AMOUNT_NOT_POSITIVE' | AMOUNT_PRECISION | AMBIGUOUS_NUMBER | INVALID_HOURS | HOURS_RATE_MISMATCH'
  | FRACTIONAL_HOURS | UNSUPPORTED_ASSET | MIXED_ASSETS' | DUPLICATE_RECIPIENT | INVALID_PERIOD
  | PERIOD_REQUIRED' | NO_ROWS

record csv_issue =
  ci_line :: nat
  ci_column :: "string option"
  ci_code :: csv_issue_code

definition issue :: "nat \<Rightarrow> string option \<Rightarrow> csv_issue_code \<Rightarrow> csv_issue" where
  "issue line column code = \<lparr>ci_line = line, ci_column = column, ci_code = code\<rparr>"

record parsed_payroll_row =
  py_line :: nat
  py_recipient :: address
  py_asset :: string
  py_amountBaseUnits :: base_units
  py_rateBaseUnits :: base_units
  py_hours :: int
  py_periodStart :: instant
  py_periodEnd :: instant
  py_reference :: "string option"

record csv_parse_result =
  cp_rows :: "parsed_payroll_row list"
  cp_issues :: "csv_issue list"
  cp_warnings :: "csv_issue list"
  cp_totalsByAsset :: "(string \<times> base_units) list"
  cp_rowCount :: nat

section \<open>Text\<close>

definition sanitizeForSpreadsheet :: "string \<Rightarrow> string" where
  "sanitizeForSpreadsheet v =
     (if v = [] then v
      else if hd v \<in> {CHR ''='', CHR ''+'', CHR ''-'', CHR ''@'', CHR 0x09, CHR 0x0D}
      then CHR 0x27 # v else v)"

definition control_char :: "char \<Rightarrow> bool" where
  "control_char c =
     (let n = code_unit c in n \<le> 8 \<or> n = 11 \<or> n = 12 \<or> 14 \<le> n \<and> n \<le> 31 \<or> n = 127)"

definition containsControlChars :: "string \<Rightarrow> bool" where
  "containsControlChars v = list_ex control_char v"

definition stripControlChars :: "string \<Rightarrow> string" where
  "stripControlChars v = filter (\<lambda>c. \<not> control_char c) v"

definition js_lower_char :: "char \<Rightarrow> char" where
  "js_lower_char c =
     (let n = code_unit c in
      if 65 \<le> n \<and> n \<le> 90 \<or> 192 \<le> n \<and> n \<le> 222 \<and> n \<noteq> 215 then char_of (n + 32) else c)"

text \<open>Upper case of the letters whose upper case is one code point below 256.\<close>

definition js_upper_char :: "char \<Rightarrow> char" where
  "js_upper_char c =
     (let n = code_unit c in
      if 97 \<le> n \<and> n \<le> 122 \<or> 224 \<le> n \<and> n \<le> 254 \<and> n \<noteq> 247 then char_of (n - 32) else c)"

definition toLowerCase :: "string \<Rightarrow> string" where
  "toLowerCase s = map js_lower_char s"

definition toUpperCase :: "string \<Rightarrow> string" where
  "toUpperCase s = map js_upper_char s"

definition utf8_length :: "string \<Rightarrow> nat" where
  "utf8_length s = sum_list (map (\<lambda>c. if code_unit c < (128 :: nat) then 1 else 2) s)"

text \<open>\<open>/^G[A-Z2-7]{55}$/\<close>.\<close>

definition STELLAR_ADDRESS :: "string \<Rightarrow> bool" where
  "STELLAR_ADDRESS s \<longleftrightarrow>
     length s = 56 \<and> hd s = CHR ''G'' \<and>
     list_all (\<lambda>c. let n = code_unit c in 65 \<le> n \<and> n \<le> (90 :: nat) \<or> 50 \<le> n \<and> n \<le> 55) (tl s)"

section \<open>Money\<close>

text \<open>\<open>value.replace(/[$\s]|USDC|XLM/gi, '')\<close>.\<close>

definition starts_ci :: "string \<Rightarrow> string \<Rightarrow> bool" where
  "starts_ci p s \<longleftrightarrow> toUpperCase (take (length p) s) = p"

fun strip_marks :: "string \<Rightarrow> string" where
  "strip_marks [] = []"
| "strip_marks (c # cs) =
     (if c = CHR ''$'' \<or> js_ws c then strip_marks cs
      else if starts_ci ''USDC'' (c # cs) then strip_marks (drop 3 cs)
      else if starts_ci ''XLM'' (c # cs) then strip_marks (drop 2 cs)
      else c # strip_marks cs)"

definition parseMoneyField :: "string \<Rightarrow> nat \<Rightarrow> string \<Rightarrow> csv_issue list \<times> base_units option" where
  "parseMoneyField raw line column =
     (let v = js_trim raw;
          refuse = (\<lambda>code. ([issue line (Some column) code], None))
      in if v = [] then refuse INVALID_AMOUNT
         else if list_ex (\<lambda>c. c = CHR ''e'' \<or> c = CHR ''E'') v then refuse AMBIGUOUS_NUMBER
         else if hd v = CHR ''('' \<or> last v = CHR '')'' then refuse AMOUNT_NOT_POSITIVE'
         else case parseAmount (strip_marks v) SAC_DECIMALS of
                Inr units \<Rightarrow> if units \<le> 0 then refuse AMOUNT_NOT_POSITIVE' else ([], Some units)
              | Inl (TooManyDecimals _ _ _) \<Rightarrow> refuse AMOUNT_PRECISION
              | Inl (InvalidAmount _) \<Rightarrow> refuse INVALID_AMOUNT)"

section \<open>Dates\<close>

definition leap_year :: "int \<Rightarrow> bool" where
  "leap_year y \<longleftrightarrow> y mod 4 = 0 \<and> (y mod 100 \<noteq> 0 \<or> y mod 400 = 0)"

definition month_days :: "int \<Rightarrow> int \<Rightarrow> int" where
  "month_days y m =
     (if m = 2 then (if leap_year y then 29 else 28) else if m \<in> {4, 6, 9, 11} then 30 else 31)"

definition days_before_month :: "int \<Rightarrow> int \<Rightarrow> int" where
  "days_before_month y m = sum_list (map (month_days y) [1..m - 1])"

text \<open>The day number of the first of January, as the language defines it.\<close>

definition day_from_year :: "int \<Rightarrow> int" where
  "day_from_year y =
     365 * (y - 1970) + (y - 1969) div 4 - (y - 1901) div 100 + (y - 1601) div 400"

definition real_date :: "int \<Rightarrow> int \<Rightarrow> int \<Rightarrow> bool" where
  "real_date y m d \<longleftrightarrow> 1 \<le> m \<and> m \<le> 12 \<and> 1 \<le> d \<and> d \<le> month_days y m"

definition utc_midnight :: "int \<Rightarrow> int \<Rightarrow> int \<Rightarrow> instant" where
  "utc_midnight y m d = 86400000 * (day_from_year y + days_before_month y m + (d - 1))"

text \<open>\<open>/^\d{4}-\d{2}-\d{2}$/\<close>, and the three numbers.\<close>

definition iso_date :: "string \<Rightarrow> (int \<times> int \<times> int) option" where
  "iso_date s =
     (if length s = 10 \<and> s ! 4 = CHR ''-'' \<and> s ! 7 = CHR ''-'' \<and>
         list_all is_digit (take 4 s @ take 2 (drop 5 s) @ drop 8 s)
      then Some (int (digits_val (take 4 s)), int (digits_val (take 2 (drop 5 s))),
                 int (digits_val (drop 8 s)))
      else None)"

text \<open>
  A day that is not in the calendar is refused by the \<open>Date\<close> constructor or by the comparison with
  \<open>toISOString\<close>, whichever the engine lets it reach.
\<close>

definition parseDateField :: "string \<Rightarrow> nat \<Rightarrow> string \<Rightarrow> csv_issue list \<times> instant option" where
  "parseDateField raw line column =
     (let v = js_trim raw;
          refuse = (\<lambda>code. ([issue line (Some column) code], None))
      in if v = [] then refuse PERIOD_REQUIRED'
         else case iso_date v of
                None \<Rightarrow> refuse INVALID_PERIOD
              | Some (y, m, d) \<Rightarrow>
                  if \<not> real_date y m d then refuse INVALID_PERIOD
                  else ([], Some (utc_midnight y m d)))"

section \<open>Hours\<close>

definition parse_hours :: "string \<Rightarrow> nat \<Rightarrow> csv_issue list \<times> int option" where
  "parse_hours raw line =
     (let v = js_trim raw;
          refuse = (\<lambda>code. [issue line (Some ''hours'') code])
      in if v = [] then (refuse INVALID_HOURS, None)
         else if list_ex (\<lambda>c. c = CHR ''.'' \<or> c = CHR '','') v then (refuse FRACTIONAL_HOURS, None)
         else if \<not> all_digits v then (refuse INVALID_HOURS, None)
         else let hours = int (digits_val v)
              in (if hours \<le> 0 then refuse INVALID_HOURS else [], Some hours))"

section \<open>One row\<close>

text \<open>\<open>header.indexOf(col)\<close>, \<open>None\<close> for \<open>-1\<close>.\<close>

definition column_index :: "string list \<Rightarrow> string \<Rightarrow> nat option" where
  "column_index header col =
     (if col \<in> set header then Some (length (takeWhile (\<lambda>h. h \<noteq> col) header)) else None)"

definition cell :: "string list \<Rightarrow> string list \<Rightarrow> string \<Rightarrow> string" where
  "cell header raw col =
     (case column_index header col of
        None \<Rightarrow> []
      | Some i \<Rightarrow> if i < length raw then stripControlChars (raw ! i) else [])"

definition long_fields :: "string list \<Rightarrow> string list \<Rightarrow> nat \<Rightarrow> csv_issue list" where
  "long_fields header raw line =
     map (\<lambda>col. issue line (Some col) FIELD_TOO_LONG)
       (filter (\<lambda>col. length (cell header raw col) > MAX_FIELD_LENGTH)
         (REQUIRED_COLUMNS @ OPTIONAL_COLUMNS))"

definition check_payee ::
  "bool \<Rightarrow> string \<Rightarrow> nat \<Rightarrow> (string \<Rightarrow> nat option) \<Rightarrow> csv_issue list \<times> (string \<Rightarrow> nat option)" where
  "check_payee rejectDuplicates recipient line seen =
     (if \<not> STELLAR_ADDRESS recipient
      then ([issue line (Some ''recipient'') INVALID_ADDRESS], seen)
      else if rejectDuplicates \<and> seen recipient \<noteq> None
      then ([issue line (Some ''recipient'') DUPLICATE_RECIPIENT], seen)
      else ([], seen(recipient := Some line)))"

definition check_product :: "nat \<Rightarrow> int option \<Rightarrow> int option \<Rightarrow> int option \<Rightarrow> csv_issue list" where
  "check_product line amount rate hours =
     (case (amount, rate, hours) of
        (Some a, Some r, Some h) \<Rightarrow>
          if h * r \<noteq> a then [issue line None HOURS_RATE_MISMATCH']
          else if hoursForAmount a r = None then [issue line None HOURS_RATE_MISMATCH']
          else []
      | _ \<Rightarrow> [])"

definition check_period :: "nat \<Rightarrow> instant option \<Rightarrow> instant option \<Rightarrow> csv_issue list" where
  "check_period line starts ends =
     (case (starts, ends) of
        (Some s, Some e) \<Rightarrow> if e \<le> s then [issue line None INVALID_PERIOD] else []
      | _ \<Rightarrow> [])"

record csv_options =
  co_rejectDuplicateRecipients :: bool
  co_supportedAssets :: "string list"

text \<open>
  The body of the loop. Every \<open>fail()\<close> of the code stands beside a pushed issue, so a row is kept when it
  has none.
\<close>

definition check_row ::
  "csv_options \<Rightarrow> string list \<Rightarrow> nat \<Rightarrow> string list \<Rightarrow> (string \<Rightarrow> nat option) \<Rightarrow>
   csv_issue list \<times> parsed_payroll_row option \<times> (string \<Rightarrow> nat option)" where
  "check_row opts header line raw seen =
     (let get = cell header raw;
          recipient = js_trim (get ''recipient'');
          (i_recipient, seen') = check_payee (co_rejectDuplicateRecipients opts) recipient line seen;
          asset = toUpperCase (js_trim (get ''asset''));
          i_asset = (if asset \<in> set (map toUpperCase (co_supportedAssets opts)) then []
                     else [issue line (Some ''asset'') UNSUPPORTED_ASSET]);
          (i_amount, amount) = parseMoneyField (get ''amount'') line ''amount'';
          (i_rate, rate) = parseMoneyField (get ''rate'') line ''rate'';
          (i_hours, hours) = parse_hours (get ''hours'') line;
          (i_start, starts) = parseDateField (get ''period_start'') line ''period_start'';
          (i_end, ends) = parseDateField (get ''period_end'') line ''period_end'';
          reference = js_trim (get ''reference'');
          issues = long_fields header raw line @ i_recipient @ i_asset @ i_amount @ i_rate @ i_hours @
                   check_product line amount rate hours @ i_start @ i_end @ check_period line starts ends
      in (issues,
          if issues \<noteq> [] then None
          else Some \<lparr>py_line = line, py_recipient = recipient, py_asset = asset,
                     py_amountBaseUnits = the amount, py_rateBaseUnits = the rate, py_hours = the hours,
                     py_periodStart = the starts, py_periodEnd = the ends,
                     py_reference = (if reference \<noteq> [] then Some (sanitizeForSpreadsheet reference) else None)\<rparr>,
          seen'))"

section \<open>The file\<close>

text \<open>\<open>totalsByAsset[key] = (totalsByAsset[key] ?? 0n) + amount\<close>, the keys in the order they came.\<close>

fun add_total :: "string \<Rightarrow> base_units \<Rightarrow> (string \<times> base_units) list \<Rightarrow> (string \<times> base_units) list" where
  "add_total k v [] = [(k, v)]"
| "add_total k v ((k', v') # ts) = (if k = k' then (k', v' + v) # ts else (k', v') # add_total k v ts)"

record csv_loop =
  lo_issues :: "csv_issue list"
  lo_warnings :: "csv_issue list"
  lo_rows :: "parsed_payroll_row list"
  lo_totals :: "(string \<times> base_units) list"
  lo_seen :: "string \<Rightarrow> nat option"

definition csv_step :: "csv_options \<Rightarrow> string list \<Rightarrow> csv_loop \<Rightarrow> nat \<times> string list \<Rightarrow> csv_loop" where
  "csv_step opts header s nr =
     (let (line, raw) = nr;
          (issues, row, seen) = check_row opts header line raw (lo_seen s)
      in s\<lparr>lo_issues := lo_issues s @ issues,
           lo_warnings := lo_warnings s @
             (if length raw \<noteq> length header then [issue line None WRONG_FIELD_COUNT] else []),
           lo_rows := lo_rows s @ (case row of Some r \<Rightarrow> [r] | None \<Rightarrow> []),
           lo_totals := (case row of Some r \<Rightarrow> add_total (py_asset r) (py_amountBaseUnits r) (lo_totals s)
                                   | None \<Rightarrow> lo_totals s),
           lo_seen := seen\<rparr>)"

text \<open>Line \<open>n + 2\<close> of the code: the position among the rows that are not blank, after the header.\<close>

definition csv_rows :: "csv_options \<Rightarrow> string list \<Rightarrow> csv_issue list \<Rightarrow> string list list \<Rightarrow> csv_loop" where
  "csv_rows opts header issues dataRows =
     foldl (csv_step opts header)
       \<lparr>lo_issues = issues, lo_warnings = [], lo_rows = [], lo_totals = [], lo_seen = (\<lambda>_. None)\<rparr>
       (enumerate 2 dataRows)"

definition header_issues :: "string list \<Rightarrow> csv_issue list" where
  "header_issues header =
     map (\<lambda>(i, col). issue 1 (Some col) DUPLICATE_COLUMN)
       (filter (\<lambda>(i, col). col \<noteq> [] \<and> col \<in> set (take i header)) (enumerate 0 header)) @
     map (\<lambda>col. issue 1 (Some col) MISSING_COLUMN)
       (filter (\<lambda>col. column_index header col = None) REQUIRED_COLUMNS)"

definition csv_failure :: "csv_issue list \<Rightarrow> nat \<Rightarrow> csv_parse_result" where
  "csv_failure issues n =
     \<lparr>cp_rows = [], cp_issues = issues, cp_warnings = [], cp_totalsByAsset = [], cp_rowCount = n\<rparr>"

definition parsePayrollCsv :: "string \<Rightarrow> csv_options \<Rightarrow> csv_parse_result" where
  "parsePayrollCsv text opts =
     (if utf8_length text > MAX_CSV_BYTES then csv_failure [issue 0 None FILE_TOO_LARGE] 0
      else case parseCsvText text of
        [] \<Rightarrow> csv_failure [issue 0 None FILE_EMPTY] 0
      | first # dataRows \<Rightarrow>
          (let header = map (\<lambda>h. toLowerCase (js_trim (stripControlChars h))) first;
               issues = header_issues header
           in if list_ex (\<lambda>i. ci_code i = MISSING_COLUMN) issues then csv_failure issues 0
              else if dataRows = [] then csv_failure (issues @ [issue 1 None NO_ROWS]) 0
              else if length dataRows > MAX_ROWS
              then csv_failure (issues @ [issue 0 None TOO_MANY_ROWS]) (length dataRows)
              else
                let s = csv_rows opts header issues dataRows in
                \<lparr>cp_rows = lo_rows s, cp_issues = lo_issues s,
                 cp_warnings = lo_warnings s @
                   (if length (lo_totals s) > 1 then [issue 0 None MIXED_ASSETS'] else []),
                 cp_totalsByAsset = lo_totals s, cp_rowCount = length dataRows\<rparr>))"

definition default_options :: csv_options where
  "default_options = \<lparr>co_rejectDuplicateRecipients = True, co_supportedAssets = SUPPORTED_ASSETS\<rparr>"

record parse_summary =
  sm_recipientCount :: nat
  sm_totalHours :: int
  sm_totals :: "(string \<times> string) list"
  sm_hasBlockingIssues :: bool

definition summarizeParse :: "csv_parse_result \<Rightarrow> parse_summary" where
  "summarizeParse r =
     \<lparr>sm_recipientCount = length (cp_rows r),
      sm_totalHours = foldl (\<lambda>t row. t + py_hours row) 0 (cp_rows r),
      sm_totals = map (\<lambda>(a, units). (a, formatAmount units SAC_DECIMALS default_opts)) (cp_totalsByAsset r),
      sm_hasBlockingIssues = (cp_issues r \<noteq> [])\<rparr>"

section \<open>Lemmas\<close>

lemma parseMoneyField_ok: "parseMoneyField raw line col = ([], a) \<Longrightarrow> \<exists>u. a = Some u \<and> 0 < u"
  by (auto simp: parseMoneyField_def Let_def split: if_splits sum.splits money_error.splits)

lemma parse_hours_ok: "parse_hours raw line = ([], h) \<Longrightarrow> \<exists>n. h = Some n \<and> 0 < n"
  by (auto simp: parse_hours_def Let_def split: if_splits)

lemma parseDateField_ok: "parseDateField raw line col = ([], d) \<Longrightarrow> \<exists>t. d = Some t"
  by (auto simp: parseDateField_def Let_def split: if_splits option.splits)

lemma check_payee_ok:
  "check_payee rej r line seen = ([], seen') \<Longrightarrow>
    STELLAR_ADDRESS r \<and> (rej \<longrightarrow> seen r = None) \<and> seen' = seen(r := Some line)"
  by (auto simp: check_payee_def split: if_splits)

lemma check_payee_seen:
  "check_payee rej r line seen = (i, seen') \<Longrightarrow> seen x \<noteq> None \<Longrightarrow> seen' x \<noteq> None"
  by (auto simp: check_payee_def split: if_splits)

text \<open>What a kept row is worth: everything the contract will ask of it.\<close>

definition formula_start :: "char \<Rightarrow> bool" where
  "formula_start c \<longleftrightarrow> c \<in> {CHR ''='', CHR ''+'', CHR ''-'', CHR ''@'', CHR 0x09, CHR 0x0D}"

definition settleable_row :: "csv_options \<Rightarrow> parsed_payroll_row \<Rightarrow> bool" where
  "settleable_row opts r \<longleftrightarrow>
     STELLAR_ADDRESS (py_recipient r) \<and> py_asset r \<in> set (map toUpperCase (co_supportedAssets opts)) \<and>
     0 < py_hours r \<and> 0 < py_rateBaseUnits r \<and> py_amountBaseUnits r = py_hours r * py_rateBaseUnits r \<and>
     py_periodStart r < py_periodEnd r \<and>
     (case py_reference r of None \<Rightarrow> True | Some t \<Rightarrow> t \<noteq> [] \<and> \<not> formula_start (hd t))"

lemma sanitize_safe: "v \<noteq> [] \<Longrightarrow> sanitizeForSpreadsheet v \<noteq> [] \<and> \<not> formula_start (hd (sanitizeForSpreadsheet v))"
  by (auto simp: sanitizeForSpreadsheet_def formula_start_def)

lemma check_row_kept:
  assumes "check_row opts header line raw seen = (iss, Some r, seen')"
  shows "iss = [] \<and> settleable_row opts r \<and> py_line r = line \<and> seen' = seen(py_recipient r := Some line) \<and>
    (co_rejectDuplicateRecipients opts \<longrightarrow> seen (py_recipient r) = None)"
proof -
  let ?get = "cell header raw"
  obtain i_recipient where rec: "check_payee (co_rejectDuplicateRecipients opts)
      (js_trim (?get ''recipient'')) line seen = (i_recipient, seen')"
    using assms by (auto simp: check_row_def Let_def split: prod.splits)
  obtain i1 amount i2 rate i3 hours i4 starts i5 ends where
    f: "parseMoneyField (?get ''amount'') line ''amount'' = (i1, amount)"
    "parseMoneyField (?get ''rate'') line ''rate'' = (i2, rate)"
    "parse_hours (?get ''hours'') line = (i3, hours)"
    "parseDateField (?get ''period_start'') line ''period_start'' = (i4, starts)"
    "parseDateField (?get ''period_end'') line ''period_end'' = (i5, ends)"
    by force
  have none: "i_recipient = []" "i1 = []" "i2 = []" "i3 = []" "i4 = []" "i5 = []" "iss = []"
    "toUpperCase (js_trim (?get ''asset'')) \<in> set (map toUpperCase (co_supportedAssets opts))"
    "check_product line amount rate hours = []" "check_period line starts ends = []"
    and r: "r = \<lparr>py_line = line, py_recipient = js_trim (?get ''recipient''),
      py_asset = toUpperCase (js_trim (?get ''asset'')),
      py_amountBaseUnits = the amount, py_rateBaseUnits = the rate, py_hours = the hours,
      py_periodStart = the starts, py_periodEnd = the ends,
      py_reference = (if js_trim (?get ''reference'') \<noteq> []
        then Some (sanitizeForSpreadsheet (js_trim (?get ''reference''))) else None)\<rparr>"
    using assms rec f by (simp_all add: check_row_def Let_def split: if_splits)
  obtain a b h u v where "amount = Some a" "rate = Some b" "hours = Some h" "starts = Some u" "ends = Some v"
    "0 < a" "0 < b" "0 < h"
    using f none(2-6) parseMoneyField_ok parse_hours_ok parseDateField_ok by metis
  then show ?thesis
    using none(1,7-10) rec r check_payee_ok [of _ _ _ seen seen'] sanitize_safe
    by (auto simp: settleable_row_def check_product_def check_period_def split: if_splits)
qed

lemma check_row_refused:
  "check_row opts header line raw seen = (iss, None, seen') \<Longrightarrow> iss \<noteq> []"
  by (auto simp: check_row_def Let_def split: prod.splits if_splits)

lemma check_row_seen:
  "check_row opts header line raw seen = (iss, row, seen') \<Longrightarrow> seen x \<noteq> None \<Longrightarrow> seen' x \<noteq> None"
  by (auto simp: check_row_def Let_def split: prod.splits dest: check_payee_seen)

definition total_of :: "string \<Rightarrow> parsed_payroll_row list \<Rightarrow> base_units" where
  "total_of a rows = sum_list (map py_amountBaseUnits (filter (\<lambda>r. py_asset r = a) rows))"

lemma map_of_add_total:
  "map_of (add_total k v ts) =
    (map_of ts)(k := Some (v + (case map_of ts k of None \<Rightarrow> 0 | Some w \<Rightarrow> w)))"
  by (induction k v ts rule: add_total.induct) (auto split: option.splits)

text \<open>The invariant of the loop.\<close>

definition loop_ok :: "csv_options \<Rightarrow> nat \<Rightarrow> csv_loop \<Rightarrow> bool" where
  "loop_ok opts n s \<longleftrightarrow>
     list_all (settleable_row opts) (lo_rows s) \<and>
     length (lo_rows s) \<le> n \<and> (lo_issues s = [] \<longrightarrow> length (lo_rows s) = n) \<and>
     (co_rejectDuplicateRecipients opts \<longrightarrow>
        distinct (map py_recipient (lo_rows s)) \<and> (\<forall>r \<in> set (lo_rows s). lo_seen s (py_recipient r) \<noteq> None)) \<and>
     (\<forall>a. map_of (lo_totals s) a =
        (if a \<in> py_asset ` set (lo_rows s) then Some (total_of a (lo_rows s)) else None))"

lemma csv_step_ok:
  assumes "loop_ok opts n s"
  shows "loop_ok opts (Suc n) (csv_step opts header s nr)"
proof -
  obtain line raw where nr: "nr = (line, raw)" by force
  obtain iss row seen where c: "check_row opts header line raw (lo_seen s) = (iss, row, seen)"
    using prod_cases3 by blast
  show ?thesis
  proof (cases row)
    case None
    then show ?thesis
      using assms c check_row_refused [OF c [unfolded None]] check_row_seen [OF c]
      by (auto simp: csv_step_def nr loop_ok_def)
  next
    case (Some r)
    note k = check_row_kept [OF c [unfolded Some]]
    have "total_of a (lo_rows s @ [r]) = total_of a (lo_rows s) + (if py_asset r = a then py_amountBaseUnits r else 0)"
      for a by (simp add: total_of_def)
    moreover have "total_of a (lo_rows s) = 0" if "a \<notin> py_asset ` set (lo_rows s)" for a
    proof -
      have "filter (\<lambda>r. py_asset r = a) (lo_rows s) = []" using that by (auto simp: filter_empty_conv)
      then show ?thesis by (simp add: total_of_def)
    qed
    ultimately show ?thesis
      using assms c Some k
      by (auto simp: csv_step_def nr loop_ok_def map_of_add_total split: option.splits)
  qed
qed

lemma csv_rows_ok: "loop_ok opts (length dataRows) (csv_rows opts header issues dataRows)"
proof -
  have "loop_ok opts (n + length xs) (foldl (csv_step opts header) s xs)" if "loop_ok opts n s" for n s xs
    using that
  proof (induction xs arbitrary: n s)
    case (Cons x xs)
    then show ?case using csv_step_ok [of opts n s header x] Cons.IH [of "Suc n"] by simp
  qed simp
  from this [of 0 _ "enumerate 2 dataRows"] show ?thesis
    by (simp add: csv_rows_def loop_ok_def total_of_def)
qed

lemma parsed_by_loop:
  assumes "cp_rows (parsePayrollCsv text opts) \<noteq> []"
  obtains header dataRows issues where "parseCsvText text = header # dataRows"
    "length dataRows \<le> MAX_ROWS"
    "parsePayrollCsv text opts = (let s = csv_rows opts (map (\<lambda>h. toLowerCase (js_trim (stripControlChars h))) header)
        issues dataRows in
      \<lparr>cp_rows = lo_rows s, cp_issues = lo_issues s,
       cp_warnings = lo_warnings s @ (if length (lo_totals s) > 1 then [issue 0 None MIXED_ASSETS'] else []),
       cp_totalsByAsset = lo_totals s, cp_rowCount = length dataRows\<rparr>)"
proof (cases "parseCsvText text")
  case Nil
  then show thesis using assms by (simp add: parsePayrollCsv_def csv_failure_def split: if_splits)
next
  case (Cons header dataRows)
  then show thesis
    using assms that [of header dataRows]
    by (simp add: parsePayrollCsv_def csv_failure_def Let_def split: if_splits)
qed

section \<open>Instances for the concrete checks\<close>

definition sample_address :: address where
  "sample_address = CHR ''G'' # replicate 55 CHR ''A''"

definition sample_cells :: "string \<Rightarrow> string list" where
  "sample_cells amount =
     [sample_address, amount, ''usdc'', ''2'', ''5'', ''2026-01-01'', ''2026-01-31'', ''=x'']"

definition sample_header :: "string list" where
  "sample_header = REQUIRED_COLUMNS @ OPTIONAL_COLUMNS"

definition sample_file :: string where
  "sample_file = write_csv [sample_header, sample_cells ''10'']"

definition sample_row :: "nat \<Rightarrow> parsed_payroll_row" where
  "sample_row line =
     \<lparr>py_line = line, py_recipient = sample_address, py_asset = ''USDC'', py_amountBaseUnits = 100000000,
      py_rateBaseUnits = 50000000, py_hours = 2, py_periodStart = 1767225600000,
      py_periodEnd = 1769817600000, py_reference = Some [CHR 0x27, CHR ''='', CHR ''x'']\<rparr>"

lemma sample_address_ok: "STELLAR_ADDRESS sample_address" "js_trim sample_address = sample_address"
  "stripControlChars sample_address = sample_address"
  by code_simp+

lemma sample_get:
  "cell sample_header (sample_cells a) ''recipient'' = sample_address"
  "cell sample_header (sample_cells a) ''amount'' = stripControlChars a"
  "cell sample_header (sample_cells a) ''asset'' = ''usdc''"
  "cell sample_header (sample_cells a) ''hours'' = ''2''"
  "cell sample_header (sample_cells a) ''rate'' = ''5''"
  "cell sample_header (sample_cells a) ''period_start'' = ''2026-01-01''"
  "cell sample_header (sample_cells a) ''period_end'' = ''2026-01-31''"
  "cell sample_header (sample_cells a) ''reference'' = ''=x''"
proof -
  have "stripControlChars ''usdc'' = ''usdc''" "stripControlChars ''2'' = ''2''" "stripControlChars ''5'' = ''5''"
    "stripControlChars ''2026-01-01'' = ''2026-01-01''" "stripControlChars ''2026-01-31'' = ''2026-01-31''"
    "stripControlChars ''=x'' = ''=x''"
    by code_simp+
  then show "cell sample_header (sample_cells a) ''recipient'' = sample_address"
    "cell sample_header (sample_cells a) ''amount'' = stripControlChars a"
    "cell sample_header (sample_cells a) ''asset'' = ''usdc''"
    "cell sample_header (sample_cells a) ''hours'' = ''2''"
    "cell sample_header (sample_cells a) ''rate'' = ''5''"
    "cell sample_header (sample_cells a) ''period_start'' = ''2026-01-01''"
    "cell sample_header (sample_cells a) ''period_end'' = ''2026-01-31''"
    "cell sample_header (sample_cells a) ''reference'' = ''=x''"
    by (simp_all add: cell_def column_index_def sample_header_def sample_cells_def REQUIRED_COLUMNS_def
        OPTIONAL_COLUMNS_def sample_address_ok)
qed

lemmas amount_eval = parseAmount_def js_trim_def js_ws_def strip_commas_def DECIMAL_RE_def unsigned_def
  split_point_def is_digit_def pad_end_def digits_val_def digit_val_def Let_def all_digits_def SAC_DECIMALS_def

lemma sample_money:
  "parseMoneyField ''10'' line col = ([], Some 100000000)"
  "parseMoneyField ''5'' line col = ([], Some 50000000)"
proof -
  have seven: "replicate 7 c = [c, c, c, c, c, c, c]" for c :: char
    by (simp add: numeral_eq_Suc)
  have "strip_marks ''10'' = ''10''" "strip_marks ''5'' = ''5''"
    by code_simp+
  then show "parseMoneyField ''10'' line col = ([], Some 100000000)"
    "parseMoneyField ''5'' line col = ([], Some 50000000)"
    by (simp_all add: parseMoneyField_def amount_eval seven)
qed

lemma sample_dates:
  "parseDateField ''2026-01-01'' line col = ([], Some 1767225600000)"
  "parseDateField ''2026-01-31'' line col = ([], Some 1769817600000)"
  by code_simp+

lemma sample_hours: "parse_hours ''2'' line = ([], Some 2)"
  by (simp add: parse_hours_def js_trim_def js_ws_def all_digits_def is_digit_def digit_val_def)

lemma sample_check:
  assumes "''USDC'' \<in> set (map toUpperCase (co_supportedAssets opts))" "seen sample_address = None"
  shows "check_row opts sample_header line (sample_cells ''10'') seen =
    ([], Some (sample_row line), seen(sample_address := Some line))"
proof -
  have tx: "stripControlChars ''10'' = ''10''" "js_trim ''usdc'' = ''usdc''" "toUpperCase ''usdc'' = ''USDC''"
    "js_trim ''=x'' = ''=x''" "sanitizeForSpreadsheet ''=x'' = [CHR 0x27, CHR ''='', CHR ''x'']"
    by code_simp+
  have "long_fields sample_header (sample_cells ''10'') line = []"
    by (simp add: long_fields_def REQUIRED_COLUMNS_def OPTIONAL_COLUMNS_def sample_get tx MAX_FIELD_LENGTH_def
        sample_address_def)
  moreover have "check_product line (Some 100000000) (Some 50000000) (Some 2) = []"
    "check_period line (Some 1767225600000) (Some 1769817600000) = []"
    by (simp_all add: check_product_def check_period_def hoursForAmount_def js_rem_def js_div_def)
  moreover have "check_payee reject sample_address line seen = ([], seen(sample_address := Some line))" for reject
    using assms(2) by (simp add: check_payee_def sample_address_ok)
  ultimately show ?thesis
    using assms(1)
    by (simp add: check_row_def sample_get tx sample_money sample_dates sample_hours sample_address_ok Let_def
        sample_row_def)
qed

lemma sample_file_short: "length sample_file < 400"
  by code_simp

lemma sample_parsed_by:
  assumes "''USDC'' \<in> set (map toUpperCase (co_supportedAssets opts))"
  shows "parsePayrollCsv sample_file opts =
    \<lparr>cp_rows = [sample_row 2], cp_issues = [], cp_warnings = [], cp_totalsByAsset = [(''USDC'', 100000000)],
     cp_rowCount = 1\<rparr>"
proof -
  have "utf8_length s \<le> 2 * length s" for s
    by (induction s) (auto simp: utf8_length_def)
  from this [of sample_file] have "utf8_length sample_file \<le> 800"
    using sample_file_short by linarith
  then have "utf8_length sample_file \<le> MAX_CSV_BYTES"
    by (simp add: MAX_CSV_BYTES_def)
  moreover have "parseCsvText sample_file = [sample_header, sample_cells ''10'']"
    by code_simp
  moreover have "map (\<lambda>h. toLowerCase (js_trim (stripControlChars h))) sample_header = sample_header"
    "header_issues sample_header = []" "length (sample_cells ''10'') = length sample_header"
    by code_simp+
  ultimately show ?thesis
    by (simp add: parsePayrollCsv_def csv_rows_def csv_step_def sample_check [OF assms] MAX_ROWS_def)
      (simp add: sample_row_def)
qed

lemma sample_parsed:
  "parsePayrollCsv sample_file default_options =
    \<lparr>cp_rows = [sample_row 2], cp_issues = [], cp_warnings = [], cp_totalsByAsset = [(''USDC'', 100000000)],
     cp_rowCount = 1\<rparr>"
proof -
  have "''USDC'' \<in> set (map toUpperCase (co_supportedAssets default_options))" by code_simp
  then show ?thesis by (rule sample_parsed_by)
qed

lemma sample_settleable: "settleable_row default_options (sample_row line)"
proof -
  have "''USDC'' \<in> toUpperCase ` set SUPPORTED_ASSETS" by code_simp
  then show ?thesis
    by (simp add: settleable_row_def sample_row_def sample_address_ok default_options_def formula_start_def)
qed

section \<open>What the money field takes away\<close>

definition money_char :: "char \<Rightarrow> bool" where
  "money_char c \<longleftrightarrow> is_digit c \<or> c = CHR '','' \<or> c = CHR ''.''"

lemma money_char_facts:
  "money_char c \<Longrightarrow> \<not> js_ws c \<and> c \<noteq> CHR ''$'' \<and> c \<noteq> CHR ''e'' \<and> c \<noteq> CHR ''E'' \<and> c \<noteq> CHR ''('' \<and>
    c \<noteq> CHR '')'' \<and> js_upper_char c = c \<and> c \<noteq> CHR ''U'' \<and> c \<noteq> CHR ''X''"
  by (auto simp: money_char_def is_digit_def js_ws_def js_upper_char_def Let_def)

lemma strip_marks_money:
  "list_all money_char s \<Longrightarrow> strip_marks (s @ rest) = s @ strip_marks rest"
proof (induction s)
  case (Cons c s)
  then have c: "js_upper_char c = c" "c \<noteq> CHR ''U''" "c \<noteq> CHR ''X''" "\<not> js_ws c" "c \<noteq> CHR ''$''"
    using money_char_facts by simp_all
  then show ?case using Cons by (simp add: starts_ci_def toUpperCase_def)
qed simp

text \<open>The field on a text of digits, commas and points followed by \<open>suffix\<close>.\<close>

lemma parseMoneyField_plain:
  assumes "list_all money_char s" "s \<noteq> []" "js_trim (s @ suffix) = s @ suffix" "strip_marks suffix = []"
    and "list_all (\<lambda>c. c \<noteq> CHR ''e'' \<and> c \<noteq> CHR ''E'' \<and> c \<noteq> CHR '')'') suffix"
  shows "parseMoneyField (s @ suffix) line col =
    (let refuse = (\<lambda>code. ([issue line (Some col) code], None)) in
     case parseAmount s SAC_DECIMALS of
       Inr units \<Rightarrow> if units \<le> 0 then refuse AMOUNT_NOT_POSITIVE' else ([], Some units)
     | Inl (TooManyDecimals _ _ _) \<Rightarrow> refuse AMOUNT_PRECISION
     | Inl (InvalidAmount _) \<Rightarrow> refuse INVALID_AMOUNT)"
proof -
  have "strip_marks (s @ suffix) = s"
    using strip_marks_money [OF assms(1), of suffix] assms(4) by simp
  moreover have "\<not> list_ex (\<lambda>c. c = CHR ''e'' \<or> c = CHR ''E'') (s @ suffix)"
    using assms(1,5) money_char_facts by (auto simp: list_ex_iff list_all_iff)
  moreover have "hd (s @ suffix) \<noteq> CHR ''(''"
    using assms(1,2) money_char_facts by (cases s) auto
  moreover have "last (s @ suffix) \<noteq> CHR '')''"
  proof -
    have s: "\<And>c. c \<in> set s \<Longrightarrow> c \<noteq> CHR '')''" using assms(1) money_char_facts by (simp add: list_all_iff)
    have t: "\<And>c. c \<in> set suffix \<Longrightarrow> c \<noteq> CHR '')''" using assms(5) by (simp add: list_all_iff)
    show ?thesis
    proof (cases "suffix = []")
      case True
      then show ?thesis using s [OF last_in_set [OF assms(2)]] by simp
    next
      case False
      then show ?thesis using t [OF last_in_set [OF False]] by simp
    qed
  qed
  ultimately show ?thesis
    using assms(2,3) by (simp add: parseMoneyField_def Let_def)
qed

lemma digits_money: "list_all is_digit s \<Longrightarrow> list_all money_char s"
  by (auto simp: list_all_iff money_char_def)

lemma money_trim: "list_all money_char s \<Longrightarrow> js_trim s = s"
  by (rule js_trim_id) (auto simp: list_all_iff dest: money_char_facts)

text \<open>What holds of the kept rows, shared by the properties.\<close>

lemma kept_rows_ok:
  "list_all (settleable_row opts) (cp_rows (parsePayrollCsv t opts)) \<and>
   length (cp_rows (parsePayrollCsv t opts)) \<le> MAX_ROWS \<and>
   (\<not> co_rejectDuplicateRecipients opts \<or> distinct (map py_recipient (cp_rows (parsePayrollCsv t opts))))"
proof (cases "cp_rows (parsePayrollCsv t opts) = []")
  case False
  then obtain header dataRows issues where n: "length dataRows \<le> MAX_ROWS"
    and r: "cp_rows (parsePayrollCsv t opts)
      = lo_rows (csv_rows opts (map (\<lambda>h. toLowerCase (js_trim (stripControlChars h))) header) issues dataRows)"
    by (rule parsed_by_loop) (auto simp: Let_def)
  show ?thesis
    using csv_rows_ok [of opts dataRows "map (\<lambda>h. toLowerCase (js_trim (stripControlChars h))) header" issues] n
    unfolding r loop_ok_def by (meson order_trans)
qed simp

section \<open>Properties\<close>



text \<open>
  An accepted file is complete: without an issue every row the reader found after the header became
  one payment row, there is at least one and at most 100, and the total of each asset is the exact sum
  of its rows.
\<close>

theorem accepted_file_complete:
  assumes "cp_issues (parsePayrollCsv t opts) = []"
  shows "\<exists>header dataRows. parseCsvText t = header # dataRows \<and> dataRows \<noteq> [] \<and> length dataRows \<le> MAX_ROWS \<and>
    length (cp_rows (parsePayrollCsv t opts)) = length dataRows \<and>
    cp_rowCount (parsePayrollCsv t opts) = length dataRows \<and>
    (\<forall>a. map_of (cp_totalsByAsset (parsePayrollCsv t opts)) a =
       (if a \<in> py_asset ` set (cp_rows (parsePayrollCsv t opts))
        then Some (total_of a (cp_rows (parsePayrollCsv t opts))) else None))"
proof (cases "parseCsvText t")
  case Nil
  then show ?thesis using assms by (simp add: parsePayrollCsv_def csv_failure_def split: if_splits)
next
  case (Cons header dataRows)
  let ?h = "map (\<lambda>h. toLowerCase (js_trim (stripControlChars h))) header"
  let ?s = "csv_rows opts ?h (header_issues ?h) dataRows"
  have r: "dataRows \<noteq> []" "length dataRows \<le> MAX_ROWS" "cp_rows (parsePayrollCsv t opts) = lo_rows ?s"
    "lo_issues ?s = []" "cp_rowCount (parsePayrollCsv t opts) = length dataRows"
    "cp_totalsByAsset (parsePayrollCsv t opts) = lo_totals ?s"
    using assms Cons by (auto simp: parsePayrollCsv_def csv_failure_def Let_def split: if_splits)
  have "loop_ok opts (length dataRows) ?s" by (rule csv_rows_ok)
  then show ?thesis
    using r Cons by (auto simp: loop_ok_def)
qed

lemma accepted_file_complete_witness:
  "\<exists>header dataRows. parseCsvText sample_file = header # dataRows \<and> length dataRows = 1 \<and>
    map_of (cp_totalsByAsset (parsePayrollCsv sample_file default_options)) ''USDC'' = Some 100000000"
  using accepted_file_complete [of sample_file default_options] by (auto simp: sample_parsed)

text \<open>
  A decimal comma is dropped and not refused, and the mark of an asset is taken away whichever it is:
  with digits before and after it, an amount reads as if the comma were not there, so that 1,50 is 150;
  and an amount in XLM reads the same in a row whose asset is USDC. The product check does not see it
  when amount and rate are written alike.
\<close>

theorem comma_and_mark_dropped:
  assumes "list_all is_digit a" "list_all is_digit b" "a \<noteq> []"
  shows "parseMoneyField (a @ CHR '','' # b) line col = parseMoneyField (a @ b) line col"
    "parseMoneyField (a @ '' XLM'') line col = parseMoneyField a line col"
proof -
  have m: "list_all money_char (a @ CHR '','' # b)" "list_all money_char (a @ b)" "list_all money_char a"
    using assms digits_money by (auto simp: money_char_def)
  have code: "(case parseAmount x d of Inr u \<Rightarrow> f u | Inl (TooManyDecimals _ _ _) \<Rightarrow> p | Inl (InvalidAmount _) \<Rightarrow> q)
      = (case parseAmount y d of Inr u \<Rightarrow> f u | Inl (TooManyDecimals _ _ _) \<Rightarrow> p | Inl (InvalidAmount _) \<Rightarrow> q)"
    if "strip_commas (js_trim x) = strip_commas (js_trim y)" for x y d and f :: "base_units \<Rightarrow> 'z" and p q
    using that by (auto simp: parseAmount_def Let_def split: prod.splits)
  have "strip_commas (a @ CHR '','' # b) = strip_commas (a @ b)" by (simp add: strip_commas_def)
  then show "parseMoneyField (a @ CHR '','' # b) line col = parseMoneyField (a @ b) line col"
    using parseMoneyField_plain [OF m(1), of "[]"] parseMoneyField_plain [OF m(2), of "[]"] assms(3)
      code [of "a @ CHR '','' # b" "a @ b"] money_trim [OF m(1)] money_trim [OF m(2)]
    by (simp add: Let_def)
  have "dropWhile js_ws (a @ '' XLM'') = a @ '' XLM''"
    using assms(3) m(3) money_char_facts by (cases a) auto
  then have "js_trim (a @ '' XLM'') = a @ '' XLM''" by (simp add: js_trim_def js_ws_def)
  moreover have "strip_marks '' XLM'' = []" by code_simp
  ultimately show "parseMoneyField (a @ '' XLM'') line col = parseMoneyField a line col"
    using parseMoneyField_plain [OF m(3) assms(3), of "'' XLM''"] parseMoneyField_plain [OF m(3) assms(3), of "[]"]
      money_trim [OF m(3)]
    by simp
qed

lemma comma_and_mark_dropped_witness:
  "parseMoneyField ''1,0'' 2 ''amount'' = ([], Some 100000000) \<and>
   parseMoneyField ''10 XLM'' 2 ''amount'' = ([], Some 100000000)"
proof -
  have "list_all is_digit ''1''" "list_all is_digit ''0''" "list_all is_digit ''10''"
    by code_simp+
  then show ?thesis
    using comma_and_mark_dropped(1) [of "''1''" "''0''" 2 "''amount''"]
      comma_and_mark_dropped(2) [of "''10''" "[]" 2 "''amount''"]
    by (simp add: sample_money)
qed

text \<open>
  The line a message names is not the line of the file: a blank record changes nothing in the result,
  the line numbers included, so that everything below it is reported too high up.
\<close>

theorem blank_line_not_counted:
  assumes "csv_text (xs @ ys) t" "csv_text (xs @ [b] @ ys) t'" "\<not> nonblank b"
    and "utf8_length t \<le> MAX_CSV_BYTES" "utf8_length t' \<le> MAX_CSV_BYTES"
  shows "parsePayrollCsv t' opts = parsePayrollCsv t opts"
  using assms reader_filters [OF assms(1)] reader_filters [OF assms(2)]
  by (simp add: parsePayrollCsv_def)

lemma blank_line_not_counted_witness:
  "map py_line (cp_rows (parsePayrollCsv (write_csv [sample_header, [[]], [[]], sample_cells ''10'']) default_options)) = [2]"
proof -
  have len: "utf8_length s \<le> 2 * length s" for s
    by (induction s) (auto simp: utf8_length_def)
  have "length (write_csv [sample_header, [[]], [[]], sample_cells ''10'']) < 400"
    "length (write_csv [sample_header, [[]], sample_cells ''10'']) < 400"
    by code_simp+
  then have small: "utf8_length (write_csv [sample_header, [[]], [[]], sample_cells ''10'']) \<le> MAX_CSV_BYTES"
    "utf8_length (write_csv [sample_header, [[]], sample_cells ''10'']) \<le> MAX_CSV_BYTES"
    "utf8_length sample_file \<le> MAX_CSV_BYTES"
    using len [of "write_csv [sample_header, [[]], [[]], sample_cells ''10'']"]
      len [of "write_csv [sample_header, [[]], sample_cells ''10'']"] len [of sample_file] sample_file_short
    unfolding MAX_CSV_BYTES_def by linarith+
  have ne: "list_all (\<lambda>r. r \<noteq> []) [sample_header, [[]], [[]], sample_cells ''10'']"
    by (simp add: sample_header_def REQUIRED_COLUMNS_def sample_cells_def)
  have t: "csv_text ([sample_header, [[]]] @ [[[]]] @ [sample_cells ''10'']) (write_csv [sample_header, [[]], [[]], sample_cells ''10''])"
    "csv_text ([sample_header, [[]]] @ [sample_cells ''10'']) (write_csv [sample_header, [[]], sample_cells ''10''])"
    "csv_text ([sample_header] @ [sample_cells ''10'']) sample_file"
    unfolding sample_file_def append.simps by (rule all_ended, rule write_csv_lines, use ne in simp)+
  have "csv_text ([sample_header] @ [[[]]] @ [sample_cells ''10'']) (write_csv [sample_header, [[]], sample_cells ''10''])"
    using t(2) by simp
  from blank_line_not_counted [OF t(2,1) blank_record small(2,1)] blank_line_not_counted [OF t(3) this blank_record small(3,2)]
  show ?thesis by (simp add: sample_parsed sample_row_def)
qed

end
