(* ===== verification/PayrollBatches.thy ===== *)
theory PayrollBatches
  imports PayrollCsv Transitions Tenancy Eligibility "HOL-Library.Sublist"
begin

text \<open>
  Creating a draft batch, \<open>src/lib/payroll/batches.ts\<close>: the fast path for a repeated request, the loop over
  proposed references, the transaction that inserts the batch with one payment per row, and the recovery
  from a violated unique index. The steps between two reads of the database are definitions of their own,
  so that requests interleave; \<open>createDraftBatch\<close> composes them. Texts of messages are left out.

  When a row violates two unique indexes PostgreSQL reports one of them; which one is the parameter
  \<open>be_referenceFirst\<close>. A value that no \<open>bigint\<close> column holds and a project of another organization make
  the client throw, \<open>Client_failure\<close>.
\<close>

section \<open>Requests and answers\<close>

definition DUPLICATE_UPLOAD_WINDOW_MS :: int where
  "DUPLICATE_UPLOAD_WINDOW_MS = 60 * 60 * 1000"

definition MAX_REFERENCE_ATTEMPTS :: nat where
  "MAX_REFERENCE_ATTEMPTS = 5"

definition ascii_alnum :: "char \<Rightarrow> bool" where
  "ascii_alnum c =
     (let n = code_unit c in 48 \<le> n \<and> n \<le> (57 :: nat) \<or> 65 \<le> n \<and> n \<le> 90 \<or> 97 \<le> n \<and> n \<le> 122)"

text \<open>\<open>/^[A-Za-z0-9][A-Za-z0-9._\-/ ]{0,62}$/\<close>.\<close>

definition REFERENCE_FORMAT :: "string \<Rightarrow> bool" where
  "REFERENCE_FORMAT s \<longleftrightarrow>
     s \<noteq> [] \<and> ascii_alnum (hd s) \<and> length s \<le> 63 \<and>
     list_all (\<lambda>c. ascii_alnum c \<or> c \<in> {CHR ''.'', CHR ''_'', CHR ''-'', CHR ''/'', CHR '' ''}) (tl s)"

record draft_input =
  di_rows :: "parsed_payroll_row list"
  di_asset :: settlement_asset
  di_reference :: "string option"
  di_projectId :: "row_id option"
  di_sourceFilename :: "string option"
  di_sourceRowCount :: "nat option"
  di_sourceChecksum :: "string option"
  di_idempotencyKey :: "string option"
  di_idempotencyFingerprint :: "string option"

record created_batch =
  cb_id :: row_id
  cb_reference :: string
  cb_paymentCount :: nat
  cb_periodStart :: "instant option"
  cb_periodEnd :: "instant option"
  cb_totalBaseUnits :: base_units
  cb_unlinkedRecipients :: nat

datatype draft_code = INVALID_REFERENCE | IDEMPOTENCY_KEY_REUSED | REFERENCE_TAKEN | REFERENCE_EXHAUSTED

text \<open>The flag is \<open>created\<close>; a replay carries a note besides.\<close>

datatype draft_result = Draft_ok bool created_batch | Draft_refused nat "draft_code option"

text \<open>What the database client throws: \<open>P2002\<close> with the columns of the violated index, or another error.\<close>

datatype client_error = P2002 "string list" | Client_failure

record batch_env =
  be_env :: env
  be_referenceFirst :: bool

text \<open>\<open>value?.trim() || null\<close>.\<close>

definition trim_or_none :: "string option \<Rightarrow> string option" where
  "trim_or_none v =
     (case v of None \<Rightarrow> None | Some s \<Rightarrow> if js_trim s = [] then None else Some (js_trim s))"

section \<open>Helpers\<close>

definition deriveBatchPeriod :: "parsed_payroll_row list \<Rightarrow> instant option \<times> instant option" where
  "deriveBatchPeriod rows =
     foldl (\<lambda>(starts, ends) r.
       (if starts = None \<or> py_periodStart r < the starts then Some (py_periodStart r) else starts,
        if ends = None \<or> the ends < py_periodEnd r then Some (py_periodEnd r) else ends))
       (None, None) rows"

definition reference_number :: "nat \<Rightarrow> string" where
  "reference_number n = ''CF-'' @ pad_start 5 (CHR ''0'') (show_nat n)"

definition generateReference :: "database \<Rightarrow> row_id \<Rightarrow> nat \<Rightarrow> string" where
  "generateReference db orgId attempt =
     reference_number (length (filter (\<lambda>b. ba_orgId b = orgId) (batches db)) + 1 + attempt)"

text \<open>\<open>orderBy createdAt desc\<close>, the older row first among equals.\<close>

definition findDuplicateUpload ::
  "database \<Rightarrow> row_id \<Rightarrow> string \<Rightarrow> instant \<Rightarrow> row_id option \<Rightarrow> (row_id \<times> string \<times> instant) option" where
  "findDuplicateUpload db orgId checksum at_time excludeId =
     (if checksum = [] then None
      else case sort_key (\<lambda>b. - ba_createdAt b)
             (filter (\<lambda>b. ba_orgId b = orgId \<and> ba_sourceChecksum b = Some checksum \<and>
                at_time - DUPLICATE_UPLOAD_WINDOW_MS \<le> ba_createdAt b \<and>
                (truthy excludeId \<longrightarrow> ba_id b \<noteq> the excludeId)) (batches db)) of
             [] \<Rightarrow> None
           | b # _ \<Rightarrow> Some (ba_id b, ba_reference b, ba_createdAt b))"

definition describeExisting :: "database \<Rightarrow> row_id \<Rightarrow> batch_row \<Rightarrow> created_batch" where
  "describeExisting db orgId b =
     (let ps = filter (\<lambda>p. pm_orgId p = orgId \<and> pm_batchId p = ba_id b) (payments db) in
      \<lparr>cb_id = ba_id b, cb_reference = ba_reference b, cb_paymentCount = length ps,
       cb_periodStart = ba_periodStart b, cb_periodEnd = ba_periodEnd b,
       cb_totalBaseUnits = sumAmounts (map pm_amountBaseUnits ps),
       cb_unlinkedRecipients = length (filter (\<lambda>p. pm_workerId p = None) ps)\<rparr>)"

datatype replay_verdict = Replay | Conflict

definition replayVerdict :: "batch_row \<Rightarrow> string option \<Rightarrow> replay_verdict" where
  "replayVerdict prior fingerprint =
     (if fingerprint = None then Replay
      else if ba_idempotencyFingerprint prior = None then Replay
      else if ba_idempotencyFingerprint prior = fingerprint then Replay else Conflict)"

definition find_prior :: "database \<Rightarrow> row_id \<Rightarrow> string option \<Rightarrow> batch_row option" where
  "find_prior db orgId key =
     (if key = None then None
      else findFirst (\<lambda>b. ba_orgId b = orgId \<and> ba_idempotencyKey b = key) (batches db))"

definition replay_answer :: "database \<Rightarrow> row_id \<Rightarrow> string option \<Rightarrow> batch_row \<Rightarrow> draft_result" where
  "replay_answer db orgId fingerprint prior =
     (if replayVerdict prior fingerprint = Conflict then Draft_refused 409 (Some IDEMPOTENCY_KEY_REUSED)
      else Draft_ok False (describeExisting db orgId prior))"

section \<open>Before the loop\<close>

record draft_plan =
  dp_reference :: "string option"
  dp_key :: "string option"
  dp_fingerprint :: "string option"
  dp_recipients :: "address list"
  dp_workerByAddress :: "(address \<times> row_id) list"

text \<open>\<open>Array.from(new Set(xs))\<close>.\<close>

definition js_distinct :: "'a list \<Rightarrow> 'a list" where
  "js_distinct xs = rev (remdups (rev xs))"

text \<open>A \<open>Map\<close> built from pairs keeps the last value of a key.\<close>

definition worker_of :: "draft_plan \<Rightarrow> address \<Rightarrow> row_id option" where
  "worker_of plan a = map_of (rev (dp_workerByAddress plan)) a"

definition begin_draft :: "tenant_context \<Rightarrow> draft_input \<Rightarrow> database \<Rightarrow> draft_result + draft_plan" where
  "begin_draft ctx inp db =
     (let reference = trim_or_none (di_reference inp);
          key = trim_or_none (di_idempotencyKey inp);
          fingerprint = trim_or_none (di_idempotencyFingerprint inp);
          recipients = js_distinct (map py_recipient (di_rows inp))
      in if di_rows inp = [] then Inl (Draft_refused 400 None)
         else if reference \<noteq> None \<and> \<not> REFERENCE_FORMAT (the reference)
         then Inl (Draft_refused 400 (Some INVALID_REFERENCE))
         else case find_prior db (tc_orgId ctx) key of
           Some prior \<Rightarrow> Inl (replay_answer db (tc_orgId ctx) fingerprint prior)
         | None \<Rightarrow>
             Inr \<lparr>dp_reference = reference, dp_key = key, dp_fingerprint = fingerprint,
                  dp_recipients = recipients,
                  dp_workerByAddress = map (\<lambda>w. (wk_walletAddress w, wk_id w))
                    (filter (\<lambda>w. wk_orgId w = tc_orgId ctx \<and> wk_walletAddress w \<in> set recipients)
                      (workers db))\<rparr>)"

section \<open>The transaction\<close>

definition draft_batch_row ::
  "env \<Rightarrow> tenant_context \<Rightarrow> draft_input \<Rightarrow> draft_plan \<Rightarrow> string \<Rightarrow> database \<Rightarrow> batch_row" where
  "draft_batch_row e ctx inp plan reference db =
     \<lparr>ba_id = new_id e db, ba_orgId = tc_orgId ctx, ba_reference = reference,
      ba_projectId = di_projectId inp, ba_periodStart = fst (deriveBatchPeriod (di_rows inp)),
      ba_periodEnd = snd (deriveBatchPeriod (di_rows inp)), ba_sourceFilename = di_sourceFilename inp,
      ba_sourceRowCount = Some (case di_sourceRowCount inp of Some n \<Rightarrow> n | None \<Rightarrow> length (di_rows inp)),
      ba_sourceChecksum = di_sourceChecksum inp, ba_idempotencyKey = dp_key plan,
      ba_idempotencyFingerprint = dp_fingerprint plan, ba_uploadedBy = Some (tc_userId ctx),
      ba_createdAt = now e\<rparr>"

definition reference_index :: "batch_row \<Rightarrow> row_id \<times> string" where
  "reference_index b = (ba_orgId b, ba_reference b)"

text \<open>A \<open>NULL\<close> key is in the index but equal to no other.\<close>

definition key_index :: "batch_row list \<Rightarrow> (row_id \<times> string option) list" where
  "key_index bs = map (\<lambda>b. (ba_orgId b, ba_idempotencyKey b)) (filter (\<lambda>b. ba_idempotencyKey b \<noteq> None) bs)"

definition batch_violations :: "database \<Rightarrow> batch_row \<Rightarrow> string list list" where
  "batch_violations db b =
     (if reference_index b \<in> reference_index ` set (batches db) then [[''orgId'', ''reference'']] else []) @
     (if (ba_orgId b, ba_idempotencyKey b) \<in> set (key_index (batches db))
      then [[''orgId'', ''idempotencyKey'']] else [])"

definition project_missing :: "database \<Rightarrow> row_id \<Rightarrow> row_id option \<Rightarrow> bool" where
  "project_missing db orgId projectId \<longleftrightarrow>
     projectId \<noteq> None \<and> findFirst (\<lambda>j. pj_orgId j = orgId \<and> pj_id j = the projectId) (projects db) = None"

definition create_batch :: "batch_env \<Rightarrow> batch_row \<Rightarrow> database \<Rightarrow> client_error + database" where
  "create_batch be b db =
     (let vs = batch_violations db b in
      if vs \<noteq> [] then Inl (P2002 (if be_referenceFirst be then hd vs else last vs))
      else if project_missing db (ba_orgId b) (ba_projectId b) then Inl Client_failure
      else Inr (db\<lparr>batches := batches db @ [b], serial := Suc (serial db)\<rparr>))"

definition fits_bigint :: "int \<Rightarrow> bool" where
  "fits_bigint i \<longleftrightarrow> - (2 ^ 63) \<le> i \<and> i < 2 ^ 63"

definition storable :: "parsed_payroll_row \<Rightarrow> bool" where
  "storable r \<longleftrightarrow>
     fits_bigint (py_amountBaseUnits r) \<and> fits_bigint (py_rateBaseUnits r) \<and> fits_bigint (py_hours r)"

definition draft_payment ::
  "env \<Rightarrow> tenant_context \<Rightarrow> draft_input \<Rightarrow> draft_plan \<Rightarrow> row_id \<Rightarrow> parsed_payroll_row \<Rightarrow> database \<Rightarrow> payment_row" where
  "draft_payment e ctx inp plan batchId r db =
     \<lparr>pm_id = new_id e db, pm_orgId = tc_orgId ctx, pm_batchId = batchId, pm_escrowId = None,
      pm_workerId = worker_of plan (py_recipient r), pm_recipientAddress = py_recipient r,
      pm_onChainPaymentIndex = None, pm_assetContractId = sa_contractId (di_asset inp),
      pm_assetDecimals = sa_decimals (di_asset inp), pm_amountBaseUnits = py_amountBaseUnits r,
      pm_rateBaseUnits = py_rateBaseUnits r, pm_hours = py_hours r,
      pm_periodStart = Some (py_periodStart r), pm_periodEnd = Some (py_periodEnd r), pm_state = DRAFT,
      pm_stateUpdatedAt = now e, pm_stateReason = None, pm_settledAt = None, pm_settlementTxHash = None,
      pm_assetCode = sa_code (di_asset inp), pm_projectId = di_projectId inp,
      pm_sourceReference = py_reference r, pm_createdAt = now e\<rparr>"

fun create_payments ::
  "env \<Rightarrow> tenant_context \<Rightarrow> draft_input \<Rightarrow> draft_plan \<Rightarrow> row_id \<Rightarrow> parsed_payroll_row list \<Rightarrow> database
   \<Rightarrow> client_error + database" where
  "create_payments e ctx inp plan batchId [] db = Inr db"
| "create_payments e ctx inp plan batchId (r # rs) db =
     (if storable r
      then create_payments e ctx inp plan batchId rs
        (db\<lparr>payments := payments db @ [draft_payment e ctx inp plan batchId r db], serial := Suc (serial db)\<rparr>)
      else Inl Client_failure)"

definition json_or_null :: "string option \<Rightarrow> json" where
  "json_or_null s = (case s of None \<Rightarrow> JNull | Some v \<Rightarrow> JStr v)"

definition draft_audit :: "tenant_context \<Rightarrow> draft_input \<Rightarrow> draft_plan \<Rightarrow> string \<Rightarrow> row_id \<Rightarrow> audit_input" where
  "draft_audit ctx inp plan reference batchId =
     \<lparr>in_orgId = tc_orgId ctx, in_type = ''payroll.batch.created'', in_actor = Some (actorFromMembership ctx),
      in_paymentId = None, in_batchId = Some batchId, in_escrowId = None, in_txHash = None,
      in_metadata = Some
        [(''reference'', JStr reference), (''paymentCount'', JNum (int (length (di_rows inp)))),
         (''totalBaseUnits'', JStr (show_int (sumAmounts (map py_amountBaseUnits (di_rows inp))))),
         (''asset'', JStr (sa_code (di_asset inp))),
         (''assetContractId'', json_or_null (sa_contractId (di_asset inp))),
         (''sourceFilename'', json_or_null (di_sourceFilename inp)),
         (''sourceRowCount'', JNum (int (case di_sourceRowCount inp of Some n \<Rightarrow> n | None \<Rightarrow> length (di_rows inp)))),
         (''sourceChecksum'', json_or_null (di_sourceChecksum inp)),
         (''uploadedByUserId'', JStr (tc_userId ctx)), (''idempotencyKey'', json_or_null (dp_key plan))]\<rparr>"

definition insert_draft ::
  "batch_env \<Rightarrow> tenant_context \<Rightarrow> draft_input \<Rightarrow> draft_plan \<Rightarrow> string \<Rightarrow> database
   \<Rightarrow> client_error + row_id \<times> database" where
  "insert_draft be ctx inp plan reference db =
     (let b = draft_batch_row (be_env be) ctx inp plan reference db in
      case create_batch be b db of
        Inl err \<Rightarrow> Inl err
      | Inr db1 \<Rightarrow>
          (case create_payments (be_env be) ctx inp plan (ba_id b) (di_rows inp) db1 of
             Inl err \<Rightarrow> Inl err
           | Inr db2 \<Rightarrow>
               Inr (ba_id b, recordAuditEvent (be_env be) db2 (draft_audit ctx inp plan reference (ba_id b)))))"

section \<open>The loop\<close>

definition propose :: "tenant_context \<Rightarrow> draft_plan \<Rightarrow> nat \<Rightarrow> database \<Rightarrow> string" where
  "propose ctx plan attempt db =
     (case dp_reference plan of Some r \<Rightarrow> r | None \<Rightarrow> generateReference db (tc_orgId ctx) attempt)"

definition new_batch :: "draft_input \<Rightarrow> draft_plan \<Rightarrow> string \<Rightarrow> row_id \<Rightarrow> created_batch" where
  "new_batch inp plan reference batchId =
     \<lparr>cb_id = batchId, cb_reference = reference, cb_paymentCount = length (di_rows inp),
      cb_periodStart = fst (deriveBatchPeriod (di_rows inp)),
      cb_periodEnd = snd (deriveBatchPeriod (di_rows inp)),
      cb_totalBaseUnits = sumAmounts (map py_amountBaseUnits (di_rows inp)),
      cb_unlinkedRecipients = length (filter (\<lambda>a. worker_of plan a = None) (dp_recipients plan))\<rparr>"

definition hit :: "string list \<Rightarrow> string \<Rightarrow> bool" where
  "hit target col = list_ex (sublist col) target"

text \<open>The \<open>catch\<close> block; \<open>None\<close> is \<open>continue\<close>, \<open>Inl\<close> throws the error again.\<close>

definition recover ::
  "tenant_context \<Rightarrow> draft_plan \<Rightarrow> client_error \<Rightarrow> database \<Rightarrow> (client_error + draft_result) option" where
  "recover ctx plan err db =
     (case err of
        Client_failure \<Rightarrow> Some (Inl err)
      | P2002 target \<Rightarrow>
          (case (if hit target ''idempotencyKey'' then find_prior db (tc_orgId ctx) (dp_key plan) else None) of
             Some prior \<Rightarrow> Some (Inr (replay_answer db (tc_orgId ctx) (dp_fingerprint plan) prior))
           | None \<Rightarrow>
               if hit target ''reference'' then
                 (if dp_reference plan \<noteq> None then Some (Inr (Draft_refused 409 (Some REFERENCE_TAKEN))) else None)
               else Some (Inl err)))"

fun try_references ::
  "batch_env \<Rightarrow> tenant_context \<Rightarrow> draft_input \<Rightarrow> draft_plan \<Rightarrow> nat list \<Rightarrow> database
   \<Rightarrow> (client_error + draft_result) \<times> database" where
  "try_references be ctx inp plan [] db = (Inr (Draft_refused 409 (Some REFERENCE_EXHAUSTED)), db)"
| "try_references be ctx inp plan (attempt # rest) db =
     (let reference = propose ctx plan attempt db in
      case insert_draft be ctx inp plan reference db of
        Inr (batchId, db') \<Rightarrow> (Inr (Draft_ok True (new_batch inp plan reference batchId)), db')
      | Inl err \<Rightarrow>
          (case recover ctx plan err db of
             Some answer \<Rightarrow> (answer, db)
           | None \<Rightarrow> try_references be ctx inp plan rest db))"

definition createDraftBatch ::
  "batch_env \<Rightarrow> tenant_context \<Rightarrow> draft_input \<Rightarrow> database \<Rightarrow> (client_error + draft_result) \<times> database" where
  "createDraftBatch be ctx inp db =
     (case begin_draft ctx inp db of
        Inl answer \<Rightarrow> (Inr answer, db)
      | Inr plan \<Rightarrow> try_references be ctx inp plan [0..<MAX_REFERENCE_ATTEMPTS] db)"

section \<open>Requests in flight together\<close>

text \<open>
  Where a request stands: not begun, at the top of the loop for an attempt, with a proposed reference
  before its transaction, in the \<open>catch\<close> block, answered.
\<close>

datatype draft_phase = Asked | Looping draft_plan nat | Proposed draft_plan nat string
  | Caught draft_plan nat client_error | Answered "client_error + draft_result"

record draft_job =
  jb_ctx :: tenant_context
  jb_input :: draft_input
  jb_phase :: draft_phase

fun draft_step ::
  "batch_env \<Rightarrow> tenant_context \<Rightarrow> draft_input \<Rightarrow> draft_phase \<Rightarrow> database \<Rightarrow> draft_phase \<times> database" where
  "draft_step be ctx inp Asked db =
     (case begin_draft ctx inp db of Inl answer \<Rightarrow> (Answered (Inr answer), db) | Inr plan \<Rightarrow> (Looping plan 0, db))"
| "draft_step be ctx inp (Looping plan n) db =
     (if n < MAX_REFERENCE_ATTEMPTS then (Proposed plan n (propose ctx plan n db), db)
      else (Answered (Inr (Draft_refused 409 (Some REFERENCE_EXHAUSTED))), db))"
| "draft_step be ctx inp (Proposed plan n reference) db =
     (case insert_draft be ctx inp plan reference db of
        Inr (batchId, db') \<Rightarrow> (Answered (Inr (Draft_ok True (new_batch inp plan reference batchId))), db')
      | Inl err \<Rightarrow> (Caught plan n err, db))"
| "draft_step be ctx inp (Caught plan n err) db =
     (case recover ctx plan err db of
        Some answer \<Rightarrow> (Answered answer, db)
      | None \<Rightarrow> (Looping plan (Suc n), db))"
| "draft_step be ctx inp (Answered a) db = (Answered a, db)"

record draft_world =
  dw_jobs :: "draft_job list"
  dw_db :: database

inductive draft_move :: "batch_env \<Rightarrow> draft_world \<Rightarrow> draft_world \<Rightarrow> bool" for be where
  "i < length (dw_jobs w) \<Longrightarrow> j = dw_jobs w ! i \<Longrightarrow> \<not> (\<exists>a. jb_phase j = Answered a) \<Longrightarrow>
   draft_step be (jb_ctx j) (jb_input j) (jb_phase j) (dw_db w) = (phase, db') \<Longrightarrow>
   draft_move be w \<lparr>dw_jobs = (dw_jobs w)[i := j\<lparr>jb_phase := phase\<rparr>], dw_db = db'\<rparr>"

inductive_cases draft_moveE: "draft_move be w w'"

text \<open>A run of such moves, with the positions of the requests that moved, in order.\<close>

inductive draft_run :: "batch_env \<Rightarrow> draft_world \<Rightarrow> nat list \<Rightarrow> draft_world \<Rightarrow> bool" for be w where
  run_start: "draft_run be w [] w"
| run_further:
  "draft_run be w ms v \<Longrightarrow> i < length (dw_jobs v) \<Longrightarrow> j = dw_jobs v ! i \<Longrightarrow> \<nexists>a. jb_phase j = Answered a \<Longrightarrow>
   draft_step be (jb_ctx j) (jb_input j) (jb_phase j) (dw_db v) = (phase, db') \<Longrightarrow>
   draft_run be w (ms @ [i]) \<lparr>dw_jobs = (dw_jobs v)[i := j\<lparr>jb_phase := phase\<rparr>], dw_db = db'\<rparr>"

lemma moves_are_runs: "(draft_move be ^^ n) w w' \<Longrightarrow> \<exists>ms. length ms = n \<and> draft_run be w ms w'"
proof (induction n arbitrary: w')
  case 0
  then show ?case by (auto intro: run_start)
next
  case (Suc n)
  then obtain v where v: "(draft_move be ^^ n) w v" "draft_move be v w'" by auto
  obtain ms where ms: "length ms = n" "draft_run be w ms v" using Suc.IH [OF v(1)] by blast
  obtain i j phase db' where m:
    "w' = \<lparr>dw_jobs = (dw_jobs v)[i := j\<lparr>jb_phase := phase\<rparr>], dw_db = db'\<rparr>" "i < length (dw_jobs v)"
    "j = dw_jobs v ! i" "\<nexists>a. jb_phase j = Answered a"
    "draft_step be (jb_ctx j) (jb_input j) (jb_phase j) (dw_db v) = (phase, db')"
    using v(2) by (rule draft_moveE) auto
  have "draft_run be w (ms @ [i]) w'" unfolding m(1) by (rule run_further [OF ms(2) m(2-5)])
  then show ?case using ms(1) by (intro exI [of _ "ms @ [i]"]) simp
qed

lemma runs_are_moves: "draft_run be w ms w' \<Longrightarrow> (draft_move be ^^ length ms) w w'"
proof (induction rule: draft_run.induct)
  case (run_further ms v i j phase db')
  have "draft_move be v \<lparr>dw_jobs = (dw_jobs v)[i := j\<lparr>jb_phase := phase\<rparr>], dw_db = db'\<rparr>"
    by (rule draft_move.intros) (use run_further in simp_all)
  then show ?case using run_further.IH by auto
qed simp

section \<open>The transaction, and what it violates\<close>

lemma hits [simp]:
  "hit [''orgId'', ''reference''] ''reference''" "\<not> hit [''orgId'', ''reference''] ''idempotencyKey''"
  "hit [''orgId'', ''idempotencyKey''] ''idempotencyKey''" "\<not> hit [''orgId'', ''idempotencyKey''] ''reference''"
  by (simp_all add: hit_def sublist_Cons_right)

definition draft_payments ::
  "env \<Rightarrow> tenant_context \<Rightarrow> draft_input \<Rightarrow> draft_plan \<Rightarrow> row_id \<Rightarrow> parsed_payroll_row list \<Rightarrow> database
   \<Rightarrow> payment_row list" where
  "draft_payments e ctx inp plan batchId rs db =
     map (\<lambda>(k, r). draft_payment e ctx inp plan batchId r (db\<lparr>serial := k\<rparr>)) (enumerate (serial db) rs)"

lemma draft_payments_Cons:
  "draft_payments e ctx inp plan i (r # rs) db =
     draft_payment e ctx inp plan i r db # draft_payments e ctx inp plan i rs (db\<lparr>serial := Suc (serial db)\<rparr>)"
  by (simp add: draft_payments_def draft_payment_def new_id_def)

lemma draft_payments_serial:
  "serial db = serial db' \<Longrightarrow> draft_payments e ctx inp plan i rs db = draft_payments e ctx inp plan i rs db'"
  by (simp add: draft_payments_def draft_payment_def new_id_def)

lemma create_payments_eq:
  "create_payments e ctx inp plan i rs db =
     (if list_all storable rs
      then Inr (db\<lparr>payments := payments db @ draft_payments e ctx inp plan i rs db,
                   serial := serial db + length rs\<rparr>)
      else Inl Client_failure)"
proof (induction rs arbitrary: db)
  case Nil
  show ?case by (cases db) (simp add: draft_payments_def)
next
  case (Cons r rs)
  let ?db = "db\<lparr>payments := payments db @ [draft_payment e ctx inp plan i r db], serial := Suc (serial db)\<rparr>"
  have "draft_payments e ctx inp plan i rs ?db = draft_payments e ctx inp plan i rs (db\<lparr>serial := Suc (serial db)\<rparr>)"
    by (rule draft_payments_serial) simp
  then show ?case using Cons [of ?db] by (simp add: draft_payments_Cons)
qed

text \<open>The database after the transaction.\<close>

definition drafted_db ::
  "batch_env \<Rightarrow> tenant_context \<Rightarrow> draft_input \<Rightarrow> draft_plan \<Rightarrow> string \<Rightarrow> database \<Rightarrow> database" where
  "drafted_db be ctx inp plan reference db =
     (let b = draft_batch_row (be_env be) ctx inp plan reference db in
      recordAuditEvent (be_env be)
        (db\<lparr>batches := batches db @ [b],
            payments := payments db @
              draft_payments (be_env be) ctx inp plan (ba_id b) (di_rows inp) (db\<lparr>serial := Suc (serial db)\<rparr>),
            serial := Suc (serial db) + length (di_rows inp)\<rparr>)
        (draft_audit ctx inp plan reference (ba_id b)))"

lemma insert_draft_eq:
  "insert_draft be ctx inp plan reference db =
     (let b = draft_batch_row (be_env be) ctx inp plan reference db; vs = batch_violations db b in
      if vs \<noteq> [] then Inl (P2002 (if be_referenceFirst be then hd vs else last vs))
      else if project_missing db (tc_orgId ctx) (di_projectId inp) \<or> \<not> list_all storable (di_rows inp)
      then Inl Client_failure
      else Inr (ba_id b, drafted_db be ctx inp plan reference db))"
  by (simp add: insert_draft_def create_batch_def create_payments_eq drafted_db_def Let_def draft_batch_row_def
      draft_payments_def draft_payment_def new_id_def)

lemma drafted_db_batches [simp]:
  "batches (drafted_db be ctx inp plan reference db)
     = batches db @ [draft_batch_row (be_env be) ctx inp plan reference db]"
  by (simp add: drafted_db_def recordAuditEvent_def Let_def)

lemma draft_batch_row_simps [simp]:
  "ba_orgId (draft_batch_row e ctx inp plan reference db) = tc_orgId ctx"
  "ba_reference (draft_batch_row e ctx inp plan reference db) = reference"
  "ba_idempotencyKey (draft_batch_row e ctx inp plan reference db) = dp_key plan"
  "ba_idempotencyFingerprint (draft_batch_row e ctx inp plan reference db) = dp_fingerprint plan"
  by (simp_all add: draft_batch_row_def)

lemma key_index_append [simp]: "key_index (bs @ cs) = key_index bs @ key_index cs"
  by (simp add: key_index_def)

lemma in_key_index: "(org, key) \<in> set (key_index bs) \<longleftrightarrow>
    key \<noteq> None \<and> (\<exists>b \<in> set bs. ba_orgId b = org \<and> ba_idempotencyKey b = key)"
  by (auto simp: key_index_def)

lemma find_prior_Some:
  "find_prior db org key = Some b \<Longrightarrow>
     key \<noteq> None \<and> b \<in> set (batches db) \<and> ba_orgId b = org \<and> ba_idempotencyKey b = key"
  by (auto simp: find_prior_def findFirst_def find_Some_iff split: if_splits)

lemma find_prior_None:
  "find_prior db org key = None \<longleftrightarrow> (org, key) \<notin> set (key_index (batches db))"
  by (auto simp: find_prior_def findFirst_def find_None_iff in_key_index)

definition batch_keys_unique :: "database \<Rightarrow> bool" where
  "batch_keys_unique db \<longleftrightarrow>
     distinct (map reference_index (batches db)) \<and> distinct (key_index (batches db))"

lemma inserted_keys_unique:
  assumes "batch_keys_unique db" "batch_violations db b = []" "batches db' = batches db @ [b]"
  shows "batch_keys_unique db'"
proof -
  have "distinct (key_index [b])" "set (key_index [b]) \<subseteq> {(ba_orgId b, ba_idempotencyKey b)}"
    by (simp_all add: key_index_def)
  then show ?thesis
    using assms by (auto simp: batch_keys_unique_def batch_violations_def split: if_splits)
qed

lemma key_determines_batch:
  assumes "batch_keys_unique db" "b \<in> set (batches db)" "c \<in> set (batches db)"
    "ba_orgId b = ba_orgId c" "ba_idempotencyKey b = Some k" "ba_idempotencyKey c = Some k"
  shows "b = c"
proof -
  have "inj_on (\<lambda>b. (ba_orgId b, ba_idempotencyKey b)) (set (filter (\<lambda>b. ba_idempotencyKey b \<noteq> None) (batches db)))"
    using assms(1) by (simp add: batch_keys_unique_def key_index_def distinct_map)
  then show ?thesis using assms(2-) by (simp add: inj_on_def)
qed

section \<open>Every request comes to an answer\<close>

definition steps_left :: "draft_phase \<Rightarrow> nat" where
  "steps_left p =
     (case p of
        Asked \<Rightarrow> 17
      | Looping _ n \<Rightarrow> 3 * (5 - n) + 1
      | Proposed _ n _ \<Rightarrow> max 3 (3 * (5 - n))
      | Caught _ n _ \<Rightarrow> max 2 (3 * (5 - n) - 1)
      | Answered _ \<Rightarrow> 0)"

lemma draft_step_decreases:
  assumes "\<not> (\<exists>a. phase = Answered a)"
  shows "steps_left (fst (draft_step be ctx inp phase db)) < steps_left phase"
  using assms
  by (cases phase)
    (auto simp: steps_left_def MAX_REFERENCE_ATTEMPTS_def split: sum.splits option.splits prod.splits)

definition work_left :: "draft_world \<Rightarrow> nat" where
  "work_left w = sum_list (map (\<lambda>j. steps_left (jb_phase j)) (dw_jobs w))"

lemma draft_move_decreases:
  assumes "draft_move be w w'"
  shows "work_left w' < work_left w \<and> length (dw_jobs w') = length (dw_jobs w)"
proof -
  obtain i j phase db' where m:
    "w' = \<lparr>dw_jobs = (dw_jobs w)[i := j\<lparr>jb_phase := phase\<rparr>], dw_db = db'\<rparr>" "i < length (dw_jobs w)"
    "j = dw_jobs w ! i" "\<nexists>a. jb_phase j = Answered a"
    "draft_step be (jb_ctx j) (jb_input j) (jb_phase j) (dw_db w) = (phase, db')"
    using assms by (rule draft_moveE) auto
  have less: "steps_left phase < steps_left (jb_phase j)"
    using draft_step_decreases [OF m(4)] m(5) by (metis fst_conv)
  have "sum_list ((map (\<lambda>j. steps_left (jb_phase j)) (dw_jobs w))[i := steps_left phase])
      = sum_list (map (\<lambda>j. steps_left (jb_phase j)) (dw_jobs w)) + steps_left phase
        - map (\<lambda>j. steps_left (jb_phase j)) (dw_jobs w) ! i"
    using m(2) by (simp add: sum_list_update)
  moreover have "map (\<lambda>j. steps_left (jb_phase j)) (dw_jobs w) ! i \<le> sum_list (map (\<lambda>j. steps_left (jb_phase j)) (dw_jobs w))"
    using elem_le_sum_list [of i "map (\<lambda>j. steps_left (jb_phase j)) (dw_jobs w)"] m(2) by simp
  ultimately show ?thesis
    using m(1,2,3) less by (simp add: work_left_def map_update)
qed

section \<open>What a step keeps\<close>

definition request_key :: "draft_input \<Rightarrow> string option" where
  "request_key inp = trim_or_none (di_idempotencyKey inp)"

definition has_batch :: "database \<Rightarrow> row_id \<Rightarrow> string option \<Rightarrow> row_id \<Rightarrow> bool" where
  "has_batch db org key i \<longleftrightarrow>
     (\<exists>x \<in> set (batches db). ba_orgId x = org \<and> ba_idempotencyKey x = key \<and> ba_id x = i)"

fun phase_ok :: "tenant_context \<Rightarrow> draft_input \<Rightarrow> database \<Rightarrow> draft_phase \<Rightarrow> bool" where
  "phase_ok ctx inp db (Looping plan n) = (dp_key plan = request_key inp)"
| "phase_ok ctx inp db (Proposed plan n r) = (dp_key plan = request_key inp)"
| "phase_ok ctx inp db (Caught plan n err) = (dp_key plan = request_key inp)"
| "phase_ok ctx inp db (Answered (Inr (Draft_ok c b))) = has_batch db (tc_orgId ctx) (request_key inp) (cb_id b)"
| "phase_ok ctx inp db _ = True"

lemma phase_ok_mono:
  "phase_ok ctx inp db phase \<Longrightarrow> batches db' = batches db @ bs \<Longrightarrow> phase_ok ctx inp db' phase"
  by (induction ctx inp db phase rule: phase_ok.induct) (auto simp: has_batch_def)

lemma replay_answer_ok:
  assumes "find_prior db org key = Some prior" "replay_answer db org fp prior = Draft_ok c b"
  shows "\<not> c \<and> has_batch db org key (cb_id b)"
  using assms find_prior_Some [OF assms(1)]
  by (auto simp: replay_answer_def describeExisting_def has_batch_def Let_def split: if_splits)

lemma begin_draft_Inl:
  assumes "begin_draft ctx inp db = Inl (Draft_ok c b)"
  shows "\<not> c \<and> has_batch db (tc_orgId ctx) (request_key inp) (cb_id b)"
  using assms replay_answer_ok
  by (fastforce simp: begin_draft_def request_key_def Let_def split: if_splits option.splits)

lemma begin_draft_Inr:
  assumes "begin_draft ctx inp db = Inr plan"
  shows "dp_key plan = request_key inp \<and> dp_reference plan = trim_or_none (di_reference inp) \<and>
    dp_fingerprint plan = trim_or_none (di_idempotencyFingerprint inp) \<and> di_rows inp \<noteq> [] \<and>
    (\<forall>r. dp_reference plan = Some r \<longrightarrow> REFERENCE_FORMAT r) \<and>
    find_prior db (tc_orgId ctx) (dp_key plan) = None"
  using assms by (auto simp: begin_draft_def request_key_def Let_def split: if_splits option.splits)

lemma recover_ok:
  assumes "recover ctx plan err db = Some (Inr (Draft_ok c b))"
  shows "\<not> c \<and> has_batch db (tc_orgId ctx) (dp_key plan) (cb_id b)"
proof (cases err)
  case (P2002 target)
  show ?thesis
  proof (cases "if hit target ''idempotencyKey'' then find_prior db (tc_orgId ctx) (dp_key plan) else None")
    case None
    then show ?thesis using assms P2002 by (auto simp: recover_def split: if_splits)
  next
    case (Some prior)
    then have "find_prior db (tc_orgId ctx) (dp_key plan) = Some prior" by (simp split: if_splits)
    moreover have "replay_answer db (tc_orgId ctx) (dp_fingerprint plan) prior = Draft_ok c b"
      using assms P2002 Some by (simp add: recover_def)
    ultimately show ?thesis using replay_answer_ok by blast
  qed
qed (use assms in \<open>simp add: recover_def\<close>)

lemma insert_draft_Inr:
  assumes "insert_draft be ctx inp plan reference db = Inr (i, db')"
  shows "batch_violations db (draft_batch_row (be_env be) ctx inp plan reference db) = [] \<and>
    i = ba_id (draft_batch_row (be_env be) ctx inp plan reference db) \<and>
    db' = drafted_db be ctx inp plan reference db \<and>
    \<not> project_missing db (tc_orgId ctx) (di_projectId inp) \<and> list_all storable (di_rows inp)"
  using assms by (auto simp: insert_draft_eq Let_def split: if_splits)

lemma draft_step_keeps:
  assumes "draft_step be ctx inp phase db = (phase', db')" "phase_ok ctx inp db phase" "batch_keys_unique db"
  shows "phase_ok ctx inp db' phase' \<and> batch_keys_unique db' \<and> (\<exists>bs. batches db' = batches db @ bs) \<and>
    (phase' \<noteq> phase \<and> phase' = Answered (Inr (Draft_ok True b)) \<longrightarrow>
       (tc_orgId ctx, request_key inp) \<notin> set (key_index (batches db)))"
proof (cases phase)
  case Asked
  then show ?thesis
    using assms begin_draft_Inl begin_draft_Inr
    by (cases "begin_draft ctx inp db"; cases "projl (begin_draft ctx inp db)") fastforce+
next
  case (Looping plan n)
  then show ?thesis using assms by (auto split: if_splits)
next
  case (Proposed plan n reference)
  show ?thesis
  proof (cases "insert_draft be ctx inp plan reference db")
    case (Inl err)
    then show ?thesis using Proposed assms by auto
  next
    case (Inr x)
    obtain i db1 where x: "x = (i, db1)" by force
    let ?b = "draft_batch_row (be_env be) ctx inp plan reference db"
    note r = insert_draft_Inr [OF Inr [unfolded x]]
    have p: "phase' = Answered (Inr (Draft_ok True (new_batch inp plan reference (ba_id ?b))))"
      "db' = drafted_db be ctx inp plan reference db" "dp_key plan = request_key inp"
      using Proposed Inr x r assms(1,2) by auto
    have "has_batch db' (tc_orgId ctx) (request_key inp) (ba_id ?b)"
      using p by (auto simp: has_batch_def)
    moreover have "batch_keys_unique db'"
      using inserted_keys_unique [OF assms(3), of ?b db'] r p(2) by simp
    moreover have "(tc_orgId ctx, request_key inp) \<notin> set (key_index (batches db))"
      using r p(3) by (auto simp: batch_violations_def split: if_splits)
    ultimately show ?thesis using p by (simp add: new_batch_def)
  qed
next
  case (Caught plan n err)
  show ?thesis
  proof (cases "recover ctx plan err db")
    case None
    then show ?thesis using Caught assms by auto
  next
    case (Some answer)
    then have p: "phase' = Answered answer" "db' = db" "dp_key plan = request_key inp"
      using Caught assms by auto
    show ?thesis
    proof (cases "\<exists>c b. answer = Inr (Draft_ok c b)")
      case True
      then show ?thesis using p Some recover_ok assms(3) by fastforce
    next
      case False
      then have "phase_ok ctx inp db' phase'"
        unfolding p(1) by (cases answer; cases "projr answer") auto
      then show ?thesis using p False assms(3) by auto
    qed
  qed
next
  case (Answered a)
  then show ?thesis using assms by auto
qed

section \<open>The loop of one request\<close>

lemma draft_batch_row_id: "ba_id (draft_batch_row e ctx inp plan reference db) = new_id e db"
  by (simp add: draft_batch_row_def)

lemma try_references_created:
  assumes "try_references be ctx inp plan attempts db = (Inr (Draft_ok True b), db')"
  shows "\<exists>attempt \<in> set attempts. \<exists>reference. reference = propose ctx plan attempt db \<and>
    insert_draft be ctx inp plan reference db = Inr (new_id (be_env be) db, db') \<and>
    b = new_batch inp plan reference (new_id (be_env be) db)"
  using assms
proof (induction attempts)
  case (Cons attempt rest)
  let ?reference = "propose ctx plan attempt db"
  show ?case
  proof (cases "insert_draft be ctx inp plan ?reference db")
    case (Inr x)
    then obtain i db1 where x: "insert_draft be ctx inp plan ?reference db = Inr (i, db1)" by (cases x) auto
    show ?thesis
      using Cons.prems x insert_draft_Inr [OF x] draft_batch_row_id by (auto simp: Let_def)
  next
    case (Inl err)
    then show ?thesis
      using Cons recover_ok [of ctx plan err db True b] by (auto simp: Let_def split: option.splits)
  qed
qed simp

lemma created_draftD:
  assumes "createDraftBatch be ctx inp db = (Inr (Draft_ok True b), db')"
  obtains plan reference where "begin_draft ctx inp db = Inr plan"
    "insert_draft be ctx inp plan reference db = Inr (new_id (be_env be) db, db')"
    "b = new_batch inp plan reference (new_id (be_env be) db)"
proof (cases "begin_draft ctx inp db")
  case (Inl answer)
  then show thesis using assms begin_draft_Inl [of ctx inp db True b] by (auto simp: createDraftBatch_def)
next
  case (Inr plan)
  then show thesis
    using that try_references_created assms by (fastforce simp: createDraftBatch_def)
qed

lemma propose_taken:
  "batch_violations db (draft_batch_row e ctx inp plan reference db) = [] \<longleftrightarrow>
     (tc_orgId ctx, reference) \<notin> reference_index ` set (batches db) \<and>
     find_prior db (tc_orgId ctx) (dp_key plan) = None"
  by (simp add: batch_violations_def reference_index_def find_prior_None)

text \<open>An attempt of a request whose key is not in use.\<close>

lemma fresh_attempt:
  assumes "find_prior db (tc_orgId ctx) (dp_key plan) = None"
  shows "try_references be ctx inp plan (attempt # rest) db =
    (let reference = propose ctx plan attempt db in
     if (tc_orgId ctx, reference) \<in> reference_index ` set (batches db)
     then (if dp_reference plan \<noteq> None then (Inr (Draft_refused 409 (Some REFERENCE_TAKEN)), db)
           else try_references be ctx inp plan rest db)
     else if project_missing db (tc_orgId ctx) (di_projectId inp) \<or> \<not> list_all storable (di_rows inp)
     then (Inl Client_failure, db)
     else (Inr (Draft_ok True (new_batch inp plan reference (new_id (be_env be) db))),
           drafted_db be ctx inp plan reference db))"
proof -
  have "batch_violations db (draft_batch_row (be_env be) ctx inp plan reference db) =
      (if (tc_orgId ctx, reference) \<in> reference_index ` set (batches db) then [[''orgId'', ''reference'']] else [])" for reference
    using assms by (simp add: batch_violations_def reference_index_def find_prior_None)
  then show ?thesis
    by (auto simp: insert_draft_eq Let_def recover_def draft_batch_row_id)
qed

lemma fresh_created_iff:
  assumes "find_prior db (tc_orgId ctx) (dp_key plan) = None"
  shows "(\<exists>b db'. try_references be ctx inp plan attempts db = (Inr (Draft_ok True b), db')) \<longleftrightarrow>
    \<not> project_missing db (tc_orgId ctx) (di_projectId inp) \<and> list_all storable (di_rows inp) \<and>
    (\<exists>attempt \<in> set attempts. (tc_orgId ctx, propose ctx plan attempt db) \<notin> reference_index ` set (batches db))"
proof (induction attempts)
  case (Cons attempt rest)
  let ?taken = "\<lambda>a. (tc_orgId ctx, propose ctx plan a db) \<in> reference_index ` set (batches db)"
  note one = fresh_attempt [OF assms, of be inp attempt rest, unfolded Let_def]
  show ?case
  proof (cases "?taken attempt")
    case taken: True
    show ?thesis
    proof (cases "dp_reference plan = None")
      case True
      have "try_references be ctx inp plan (attempt # rest) db = try_references be ctx inp plan rest db"
        unfolding one if_P [OF taken] using True by (simp only: simp_thms if_False)
      moreover have "(\<exists>a \<in> set (attempt # rest). \<not> ?taken a) \<longleftrightarrow> (\<exists>a \<in> set rest. \<not> ?taken a)"
        using taken by simp
      ultimately show ?thesis using Cons.IH by presburger
    next
      case False
      then have "propose ctx plan a db = propose ctx plan attempt db" for a
        by (auto simp: propose_def)
      then have "\<not> (\<exists>a \<in> set (attempt # rest). \<not> ?taken a)"
        using taken by metis
      moreover have "try_references be ctx inp plan (attempt # rest) db = (Inr (Draft_refused 409 (Some REFERENCE_TAKEN)), db)"
        unfolding one if_P [OF taken] using False by (simp only: simp_thms if_True)
      ultimately show ?thesis by (simp del: try_references.simps)
    qed
  next
    case False
    then show ?thesis unfolding one if_not_P [OF False] by auto
  qed
qed simp

section \<open>One request among others\<close>

definition with_job :: "draft_job list \<Rightarrow> nat \<Rightarrow> tenant_context \<Rightarrow> draft_input \<Rightarrow> draft_phase \<Rightarrow> database \<Rightarrow> draft_world" where
  "with_job js i ctx inp phase db =
     \<lparr>dw_jobs = js[i := \<lparr>jb_ctx = ctx, jb_input = inp, jb_phase = phase\<rparr>], dw_db = db\<rparr>"

lemma job_moves:
  assumes "i < length js" "\<not> (\<exists>a. phase = Answered a)" "draft_step be ctx inp phase db = (phase', db')"
  shows "draft_move be (with_job js i ctx inp phase db) (with_job js i ctx inp phase' db')"
  using draft_move.intros [of i "with_job js i ctx inp phase db" _ be phase' db'] assms
  by (simp add: with_job_def)

lemma loop_alone:
  assumes "i < length js" "n \<le> MAX_REFERENCE_ATTEMPTS"
    and "try_references be ctx inp plan [n..<MAX_REFERENCE_ATTEMPTS] db = (answer, db')"
  shows "(draft_move be)\<^sup>*\<^sup>* (with_job js i ctx inp (Looping plan n) db) (with_job js i ctx inp (Answered answer) db')"
  using assms(2,3)
proof (induction n rule: inc_induct)
  case base
  then show ?case
    using job_moves [OF assms(1), of "Looping plan MAX_REFERENCE_ATTEMPTS"] by auto
next
  case (step n)
  let ?reference = "propose ctx plan n db"
  have up: "[n..<MAX_REFERENCE_ATTEMPTS] = n # [Suc n..<MAX_REFERENCE_ATTEMPTS]"
    using step.hyps by (simp add: upt_conv_Cons)
  have first: "draft_move be (with_job js i ctx inp (Looping plan n) db) (with_job js i ctx inp (Proposed plan n ?reference) db)"
    using job_moves [OF assms(1)] step.hyps by simp
  show ?case
  proof (cases "insert_draft be ctx inp plan ?reference db")
    case (Inr x)
    then have "draft_step be ctx inp (Proposed plan n ?reference) db = (Answered answer, db')"
      using step.prems up by (auto simp: Let_def split: prod.splits)
    then have "draft_move be (with_job js i ctx inp (Proposed plan n ?reference) db) (with_job js i ctx inp (Answered answer) db')"
      using job_moves [OF assms(1)] by blast
    with first show ?thesis by (meson converse_rtranclp_into_rtranclp r_into_rtranclp)
  next
    case (Inl err)
    have second: "draft_move be (with_job js i ctx inp (Proposed plan n ?reference) db) (with_job js i ctx inp (Caught plan n err) db)"
      using job_moves [OF assms(1)] Inl by simp
    have "(draft_move be)\<^sup>*\<^sup>* (with_job js i ctx inp (Caught plan n err) db) (with_job js i ctx inp (Answered answer) db')"
    proof (cases "recover ctx plan err db")
      case None
      then have "draft_move be (with_job js i ctx inp (Caught plan n err) db) (with_job js i ctx inp (Looping plan (Suc n)) db)"
        using job_moves [OF assms(1)] by simp
      moreover have "try_references be ctx inp plan [Suc n..<MAX_REFERENCE_ATTEMPTS] db = (answer, db')"
        using step.prems up Inl None by (simp add: Let_def)
      ultimately show ?thesis using step.IH by (meson converse_rtranclp_into_rtranclp)
    next
      case (Some a)
      then have "draft_step be ctx inp (Caught plan n err) db = (Answered answer, db')"
        using step.prems up Inl by (simp add: Let_def)
      then show ?thesis using job_moves [OF assms(1)] by (simp add: r_into_rtranclp)
    qed
    then show ?thesis using first second by (meson converse_rtranclp_into_rtranclp)
  qed
qed

text \<open>A request that runs while the others wait is \<open>createDraftBatch\<close>.\<close>

lemma request_alone:
  assumes "i < length js" "createDraftBatch be ctx inp db = (answer, db')"
  shows "(draft_move be)\<^sup>*\<^sup>* (with_job js i ctx inp Asked db) (with_job js i ctx inp (Answered answer) db')"
proof (cases "begin_draft ctx inp db")
  case (Inl a)
  then show ?thesis
    using job_moves [OF assms(1), of Asked] assms(2) by (auto simp: createDraftBatch_def)
next
  case (Inr plan)
  then have "draft_move be (with_job js i ctx inp Asked db) (with_job js i ctx inp (Looping plan 0) db)"
    using job_moves [OF assms(1)] by simp
  moreover have "(draft_move be)\<^sup>*\<^sup>* (with_job js i ctx inp (Looping plan 0) db) (with_job js i ctx inp (Answered answer) db')"
    using loop_alone [OF assms(1)] assms(2) Inr by (simp add: createDraftBatch_def)
  ultimately show ?thesis by (meson converse_rtranclp_into_rtranclp)
qed

section \<open>Instances for the concrete checks\<close>

definition sample_draft_ctx :: tenant_context where
  "sample_draft_ctx = \<lparr>tc_orgId = ''o1'', tc_orgName = ''Acme'', tc_orgSlug = ''acme'', tc_userId = ''u1'',
     tc_walletAddress = ''GM'', tc_role = FINANCE\<rparr>"

definition sample_draft :: "string option \<Rightarrow> draft_input" where
  "sample_draft reference =
     \<lparr>di_rows = [sample_row 2], di_asset = \<lparr>sa_code = ''USDC'', sa_contractId = Some ''CU'', sa_decimals = 7\<rparr>,
      di_reference = reference, di_projectId = None, di_sourceFilename = None, di_sourceRowCount = Some 1,
      di_sourceChecksum = Some ''c1'', di_idempotencyKey = Some ''key-1'', di_idempotencyFingerprint = Some ''f1''\<rparr>"

definition sample_draft_env :: batch_env where
  "sample_draft_env = \<lparr>be_env = \<lparr>now = 0, cuid = (\<lambda>n. show_nat n)\<rparr>, be_referenceFirst = True\<rparr>"

definition sample_plan :: "string option \<Rightarrow> draft_plan" where
  "sample_plan reference =
     \<lparr>dp_reference = reference, dp_key = Some ''key-1'', dp_fingerprint = Some ''f1'',
      dp_recipients = [sample_address], dp_workerByAddress = []\<rparr>"

definition sample_made :: "string \<Rightarrow> created_batch" where
  "sample_made reference = new_batch (sample_draft None) (sample_plan None) reference ''0''"

definition sample_drafted :: "string option \<Rightarrow> database" where
  "sample_drafted reference =
     drafted_db sample_draft_env sample_draft_ctx (sample_draft reference) (sample_plan reference)
       (propose sample_draft_ctx (sample_plan reference) 0 empty_db) empty_db"

lemma sample_begin:
  assumes "reference \<in> {None, Some ''June''}"
  shows "begin_draft sample_draft_ctx (sample_draft reference) empty_db = Inr (sample_plan reference)"
proof -
  have "REFERENCE_FORMAT ''June''" by code_simp
  then show ?thesis
    using assms
    by (auto simp: begin_draft_def sample_draft_def sample_plan_def trim_or_none_def js_trim_def js_ws_def
        find_prior_def findFirst_def empty_db_def js_distinct_def sample_row_def)
qed

lemma sample_creates:
  assumes "reference \<in> {None, Some ''June''}"
  shows "createDraftBatch sample_draft_env sample_draft_ctx (sample_draft reference) empty_db
     = (Inr (Draft_ok True (sample_made (propose sample_draft_ctx (sample_plan reference) 0 empty_db))),
        sample_drafted reference)"
proof -
  have "[0..<MAX_REFERENCE_ATTEMPTS] = 0 # [1..<MAX_REFERENCE_ATTEMPTS]"
    by (simp add: MAX_REFERENCE_ATTEMPTS_def upt_conv_Cons)
  moreover have "show_nat 0 = ''0''" by code_simp
  moreover have "storable (sample_row 2)" by (simp add: storable_def fits_bigint_def sample_row_def)
  moreover have "find_prior empty_db (tc_orgId sample_draft_ctx) (dp_key (sample_plan reference)) = None"
    by (simp add: find_prior_def findFirst_def empty_db_def)
  ultimately show ?thesis
    using sample_begin [OF assms] fresh_attempt [of empty_db sample_draft_ctx "sample_plan reference" sample_draft_env]
    by (simp add: createDraftBatch_def sample_draft_def project_missing_def empty_db_def sample_drafted_def
        sample_made_def new_batch_def worker_of_def sample_plan_def new_id_def sample_draft_env_def Let_def
        del: try_references.simps)
qed

lemma sample_created:
  "createDraftBatch sample_draft_env sample_draft_ctx (sample_draft None) empty_db
     = (Inr (Draft_ok True (sample_made ''CF-00001'')), sample_drafted None)"
proof -
  have "propose sample_draft_ctx (sample_plan None) 0 empty_db = ''CF-00001''" by code_simp
  then show ?thesis using sample_creates [of None] by simp
qed

lemma sample_created_named:
  "createDraftBatch sample_draft_env sample_draft_ctx (sample_draft (Some ''June'')) empty_db
     = (Inr (Draft_ok True (sample_made ''June'')), sample_drafted (Some ''June''))"
  using sample_creates [of "Some ''June''"] by (simp add: propose_def sample_plan_def)

lemma sample_key: "request_key (sample_draft r) = Some ''key-1''"
  by (simp add: request_key_def sample_draft_def trim_or_none_def js_trim_def js_ws_def)

section \<open>Properties\<close>

text \<open>One payment is the draft of one row of the file.\<close>

definition drafted :: "tenant_context \<Rightarrow> draft_input \<Rightarrow> row_id \<Rightarrow> parsed_payroll_row \<Rightarrow> payment_row \<Rightarrow> bool" where
  "drafted ctx inp batchId r p \<longleftrightarrow>
     pm_orgId p = tc_orgId ctx \<and> pm_batchId p = batchId \<and> pm_state p = DRAFT \<and>
     pm_recipientAddress p = py_recipient r \<and> pm_amountBaseUnits p = py_amountBaseUnits r \<and>
     pm_rateBaseUnits p = py_rateBaseUnits r \<and> pm_hours p = py_hours r \<and>
     pm_periodStart p = Some (py_periodStart r) \<and> pm_periodEnd p = Some (py_periodEnd r) \<and>
     pm_assetCode p = sa_code (di_asset inp) \<and> pm_assetContractId p = sa_contractId (di_asset inp) \<and>
     pm_assetDecimals p = sa_decimals (di_asset inp) \<and> pm_sourceReference p = py_reference r \<and>
     pm_escrowId p = None \<and> pm_onChainPaymentIndex p = None \<and> pm_settledAt p = None \<and> pm_settlementTxHash p = None"

lemma draft_payments_drafted:
  "list_all2 (drafted ctx inp i) rs (draft_payments e ctx inp plan i rs db)"
  by (induction rs arbitrary: db) (simp_all add: draft_payments_def [of _ _ _ _ _ "[]"] draft_payments_Cons
      drafted_def draft_payment_def)

lemma drafted_amounts:
  "list_all2 (drafted ctx inp i) rs ps \<Longrightarrow> sum_list (map pm_amountBaseUnits ps) = sumAmounts (map py_amountBaseUnits rs)"
proof -
  assume "list_all2 (drafted ctx inp i) rs ps"
  then have "map pm_amountBaseUnits ps = map py_amountBaseUnits rs"
    by induction (simp_all add: drafted_def)
  moreover have "foldl (+) a xs = a + sum_list xs" for a :: int and xs
    by (induction xs arbitrary: a) simp_all
  ultimately show ?thesis by (simp add: sumAmounts_def)
qed

lemma draft_created:
  assumes "createDraftBatch be ctx inp db = (Inr (Draft_ok True b), db')"
  shows "\<exists>x ps a. batches db' = batches db @ [x] \<and> payments db' = payments db @ ps \<and>
    auditEvents db' = auditEvents db @ [a] \<and>
    ba_id x = cb_id b \<and> ba_orgId x = tc_orgId ctx \<and> ba_reference x = cb_reference b \<and>
    ba_idempotencyKey x = request_key inp \<and>
    list_all2 (drafted ctx inp (cb_id b)) (di_rows inp) ps \<and> ps \<noteq> [] \<and>
    cb_paymentCount b = length ps \<and> cb_totalBaseUnits b = sum_list (map pm_amountBaseUnits ps) \<and>
    au_type a = ''payroll.batch.created'' \<and> au_batchId a = Some (cb_id b) \<and> au_orgId a = tc_orgId ctx \<and>
    db' = db\<lparr>batches := batches db', payments := payments db', auditEvents := auditEvents db', serial := serial db'\<rparr>"
proof -
  obtain plan reference where p: "begin_draft ctx inp db = Inr plan"
    "insert_draft be ctx inp plan reference db = Inr (new_id (be_env be) db, db')"
    "b = new_batch inp plan reference (new_id (be_env be) db)"
    using assms by (rule created_draftD)
  let ?b = "draft_batch_row (be_env be) ctx inp plan reference db"
  let ?ps = "draft_payments (be_env be) ctx inp plan (ba_id ?b) (di_rows inp) (db\<lparr>serial := Suc (serial db)\<rparr>)"
  have ps: "list_all2 (drafted ctx inp (cb_id b)) (di_rows inp) ?ps"
    using draft_payments_drafted p(3) by (simp add: new_batch_def draft_batch_row_id)
  have "payments db' = payments db @ ?ps"
    "auditEvents db' = auditEvents db @ [last (auditEvents db')]" "au_type (last (auditEvents db')) = ''payroll.batch.created''"
    "au_batchId (last (auditEvents db')) = Some (cb_id b)" "au_orgId (last (auditEvents db')) = tc_orgId ctx"
    "db' = db\<lparr>batches := batches db', payments := payments db', auditEvents := auditEvents db', serial := serial db'\<rparr>"
    using insert_draft_Inr [OF p(2)] p(3)
    by (simp_all add: drafted_db_def Let_def recordAuditEvent_def draft_audit_def new_batch_def draft_batch_row_id)
  moreover have "batches db' = batches db @ [?b]" "ba_id ?b = cb_id b" "ba_reference ?b = cb_reference b"
    "ba_idempotencyKey ?b = request_key inp"
    using insert_draft_Inr [OF p(2)] p(3) begin_draft_Inr [OF p(1)] by (simp_all add: new_batch_def draft_batch_row_id)
  moreover have "cb_paymentCount b = length ?ps" "?ps \<noteq> []"
    using list_all2_lengthD [OF ps] p(3) begin_draft_Inr [OF p(1)] by (auto simp: new_batch_def)
  moreover have "cb_totalBaseUnits b = sum_list (map pm_amountBaseUnits ?ps)"
    using drafted_amounts [OF ps] p(3) by (simp add: new_batch_def)
  ultimately show ?thesis using ps by (intro exI [of _ ?b] exI [of _ ?ps] exI [of _ "last (auditEvents db')"]) simp
qed

text \<open>
  C17: What a created batch is: one batch of the caller's organization with the answered id and reference,
  one draft payment per row in the order of the file with this row's payee, amount, rate, hours and
  period, none of them on a chain; the answered total is the exact sum of the payments; one audit event
  is added, and nothing else of the database changes.
\<close>

theorem draft_batch_effect:
  assumes "createDraftBatch be ctx inp db = (Inr (Draft_ok True b), db')"
  shows "\<exists>x ps a. batches db' = batches db @ [x] \<and> payments db' = payments db @ ps \<and>
    auditEvents db' = auditEvents db @ [a] \<and>
    ba_id x = cb_id b \<and> ba_orgId x = tc_orgId ctx \<and> ba_reference x = cb_reference b \<and>
    ba_idempotencyKey x = request_key inp \<and>
    list_all2 (drafted ctx inp (cb_id b)) (di_rows inp) ps \<and> ps \<noteq> [] \<and>
    cb_paymentCount b = length ps \<and> cb_totalBaseUnits b = sum_list (map pm_amountBaseUnits ps) \<and>
    au_type a = ''payroll.batch.created'' \<and> au_batchId a = Some (cb_id b) \<and> au_orgId a = tc_orgId ctx \<and>
    db' = db\<lparr>batches := batches db', payments := payments db', auditEvents := auditEvents db', serial := serial db'\<rparr>"
  using assms by (rule draft_created)

lemma draft_batch_effect_witness:
  "length (batches (sample_drafted None)) = 1 \<and> map pm_state (payments (sample_drafted None)) = [DRAFT]"
  using draft_batch_effect [OF sample_created]
  by (auto simp: empty_db_def sample_draft_def drafted_def list_all2_Cons1)

lemma creation_iff:
  "(\<exists>b db'. createDraftBatch be ctx inp db = (Inr (Draft_ok True b), db')) \<longleftrightarrow>
     di_rows inp \<noteq> [] \<and>
     (case trim_or_none (di_reference inp) of
        Some r \<Rightarrow> REFERENCE_FORMAT r \<and> (tc_orgId ctx, r) \<notin> reference_index ` set (batches db)
      | None \<Rightarrow> \<exists>attempt \<in> {0..<5}. (tc_orgId ctx, generateReference db (tc_orgId ctx) attempt)
                  \<notin> reference_index ` set (batches db)) \<and>
     find_prior db (tc_orgId ctx) (request_key inp) = None \<and>
     \<not> project_missing db (tc_orgId ctx) (di_projectId inp) \<and> list_all storable (di_rows inp)"
proof (cases "begin_draft ctx inp db")
  case (Inl answer)
  then have "\<nexists>b. answer = Draft_ok True b" using begin_draft_Inl by blast
  moreover have "di_rows inp = [] \<or> (\<exists>r. trim_or_none (di_reference inp) = Some r \<and> \<not> REFERENCE_FORMAT r) \<or>
      find_prior db (tc_orgId ctx) (request_key inp) \<noteq> None"
    using Inl by (auto simp: begin_draft_def request_key_def Let_def split: if_splits option.splits)
  ultimately show ?thesis using Inl by (auto simp: createDraftBatch_def)
next
  case (Inr plan)
  note p = begin_draft_Inr [OF Inr]
  have fresh: "find_prior db (tc_orgId ctx) (dp_key plan) = None" using p by blast
  have "(\<exists>b db'. createDraftBatch be ctx inp db = (Inr (Draft_ok True b), db')) \<longleftrightarrow>
      \<not> project_missing db (tc_orgId ctx) (di_projectId inp) \<and> list_all storable (di_rows inp) \<and>
      (\<exists>attempt \<in> {0..<5}. (tc_orgId ctx, propose ctx plan attempt db) \<notin> reference_index ` set (batches db))"
    using fresh_created_iff [OF fresh, of be inp "[0..<5]"] Inr
    by (simp add: createDraftBatch_def MAX_REFERENCE_ATTEMPTS_def)
  moreover have "\<exists>n :: nat. n < 5" by (rule exI [of _ 0]) simp
  ultimately show ?thesis using p by (auto simp: propose_def split: option.splits)
qed

text \<open>
  C27: When a draft is created: exactly when the file has rows, the reference of the caller is well formed
  and free, or one of the five numbers proposed for him is, his key is not in use, the project is his
  organization's, and every number fits the column that stores it.
\<close>

theorem creation_succeeds_iff:
  "(\<exists>b db'. createDraftBatch be ctx inp db = (Inr (Draft_ok True b), db')) \<longleftrightarrow>
     di_rows inp \<noteq> [] \<and>
     (case trim_or_none (di_reference inp) of
        Some r \<Rightarrow> REFERENCE_FORMAT r \<and> (tc_orgId ctx, r) \<notin> reference_index ` set (batches db)
      | None \<Rightarrow> \<exists>attempt \<in> {0..<5}. (tc_orgId ctx, generateReference db (tc_orgId ctx) attempt)
                  \<notin> reference_index ` set (batches db)) \<and>
     find_prior db (tc_orgId ctx) (request_key inp) = None \<and>
     \<not> project_missing db (tc_orgId ctx) (di_projectId inp) \<and> list_all storable (di_rows inp)"
  by (rule creation_iff)

text \<open>
  C28: Every request comes to an answer: however the steps of any number of requests interleave, no request
  takes more than 17 steps of its own, whatever the others do; so a run is never longer than 17 steps per
  request, and one that cannot be continued has answered them all.
\<close>

theorem every_request_answered:
  assumes "draft_run be w ms w'" "list_all (\<lambda>j. jb_phase j = Asked) (dw_jobs w)"
  shows "(\<forall>i. count_list ms i \<le> 17) \<and> set ms \<subseteq> {0 ..< length (dw_jobs w)} \<and> length ms \<le> 17 * length (dw_jobs w) \<and>
    ((\<nexists>w''. draft_move be w' w'') \<longrightarrow> list_all (\<lambda>j. \<exists>a. jb_phase j = Answered a) (dw_jobs w'))"
proof -
  have runs: "length (dw_jobs w') = length (dw_jobs w) \<and> set ms \<subseteq> {0 ..< length (dw_jobs w)} \<and>
      length ms + work_left w' \<le> work_left w \<and>
      (\<forall>i < length (dw_jobs w). count_list ms i + steps_left (jb_phase (dw_jobs w' ! i)) \<le> 17)"
    using assms(1)
  proof (induction rule: draft_run.induct)
    case run_start
    then show ?case using assms(2) by (simp add: list_all_length steps_left_def)
  next
    case (run_further ms v i j phase db')
    have "draft_move be v \<lparr>dw_jobs = (dw_jobs v)[i := j\<lparr>jb_phase := phase\<rparr>], dw_db = db'\<rparr>"
      by (rule draft_move.intros) (use run_further in simp_all)
    note less = draft_move_decreases [OF this]
    have "steps_left phase < steps_left (jb_phase j)"
      using draft_step_decreases run_further(4,5) by (metis fst_conv)
    then show ?case
      using run_further.IH run_further(2,3) less by (auto simp: nth_list_update count_list_append)
  qed
  moreover have "work_left w = 17 * length (dw_jobs w)"
    using assms(2) by (simp add: work_left_def steps_left_def list_all_iff cong: map_cong)
      (simp add: sum_list_triv)
  moreover have "\<exists>w''. draft_move be w' w''" if h: "\<not> list_all (\<lambda>j. \<exists>a. jb_phase j = Answered a) (dw_jobs w')"
  proof -
    obtain i where i: "i < length (dw_jobs w')" "\<not> (\<exists>a. jb_phase (dw_jobs w' ! i) = Answered a)"
      using h unfolding list_all_length by blast
    let ?j = "dw_jobs w' ! i"
    obtain phase db' where "draft_step be (jb_ctx ?j) (jb_input ?j) (jb_phase ?j) (dw_db w') = (phase, db')"
      by force
    from draft_move.intros [OF i(1) refl i(2) this] show ?thesis by (rule exI)
  qed
  moreover have "count_list ms i \<le> 17" for i
    using runs by (cases "i \<in> set ms") (force simp: count_notin)+
  ultimately show ?thesis by auto
qed

lemma every_request_answered_witness:
  "\<exists>ms w'. draft_run sample_draft_env
      \<lparr>dw_jobs = [\<lparr>jb_ctx = sample_draft_ctx, jb_input = sample_draft None, jb_phase = Asked\<rparr>], dw_db = empty_db\<rparr> ms w' \<and>
    count_list ms 0 \<le> 17 \<and> length ms \<le> 17 \<and> dw_db w' = sample_drafted None"
proof -
  let ?w = "\<lparr>dw_jobs = [\<lparr>jb_ctx = sample_draft_ctx, jb_input = sample_draft None, jb_phase = Asked\<rparr>], dw_db = empty_db\<rparr>"
  have w: "?w = with_job [undefined] 0 sample_draft_ctx (sample_draft None) Asked empty_db"
    by (simp add: with_job_def)
  let ?w' = "with_job [undefined] 0 sample_draft_ctx (sample_draft None)
    (Answered (Inr (Draft_ok True (sample_made ''CF-00001'')))) (sample_drafted None)"
  have "(draft_move sample_draft_env)\<^sup>*\<^sup>* ?w ?w'"
    unfolding w by (rule request_alone) (simp_all add: sample_created)
  then obtain n where n: "(draft_move sample_draft_env ^^ n) ?w ?w'"
    by (meson rtranclp_imp_relpowp)
  obtain ms where run: "draft_run sample_draft_env ?w ms ?w'" using moves_are_runs [OF n] by blast
  have "count_list ms 0 \<le> 17" "length ms \<le> 17" "dw_db ?w' = sample_drafted None"
    using every_request_answered [OF run] by (simp_all add: with_job_def)
  then show ?thesis using run by blast
qed

text \<open>What holds of the requests together: the answers name batches that are there, and a key creates once.\<close>

definition creator :: "draft_job \<Rightarrow> row_id \<Rightarrow> string option \<Rightarrow> bool" where
  "creator j org key \<longleftrightarrow>
     tc_orgId (jb_ctx j) = org \<and> request_key (jb_input j) = key \<and> key \<noteq> None \<and>
     (\<exists>b. jb_phase j = Answered (Inr (Draft_ok True b)))"

definition drafts_sound :: "draft_world \<Rightarrow> bool" where
  "drafts_sound w \<longleftrightarrow>
     batch_keys_unique (dw_db w) \<and>
     list_all (\<lambda>j. phase_ok (jb_ctx j) (jb_input j) (dw_db w) (jb_phase j)) (dw_jobs w) \<and>
     (\<forall>i < length (dw_jobs w). \<forall>k < length (dw_jobs w). \<forall>org key.
        creator (dw_jobs w ! i) org key \<and> creator (dw_jobs w ! k) org key \<longrightarrow> i = k)"

lemma creator_in_index:
  assumes "phase_ok (jb_ctx j) (jb_input j) db (jb_phase j)" "creator j org key"
  shows "(org, key) \<in> set (key_index (batches db))"
  using assms by (auto simp: creator_def has_batch_def in_key_index)

lemma draft_move_sound:
  assumes "draft_move be w w'" "drafts_sound w"
  shows "drafts_sound w'"
proof -
  obtain i j phase db' where m:
    "w' = \<lparr>dw_jobs = (dw_jobs w)[i := j\<lparr>jb_phase := phase\<rparr>], dw_db = db'\<rparr>" "i < length (dw_jobs w)"
    "j = dw_jobs w ! i" "\<nexists>a. jb_phase j = Answered a"
    "draft_step be (jb_ctx j) (jb_input j) (jb_phase j) (dw_db w) = (phase, db')"
    using assms(1) by (rule draft_moveE) auto
  have ok: "phase_ok (jb_ctx q) (jb_input q) (dw_db w) (jb_phase q)" if "q \<in> set (dw_jobs w)" for q
    using that assms(2) by (simp add: drafts_sound_def list_all_iff)
  have s: "phase_ok (jb_ctx j) (jb_input j) db' phase" "batch_keys_unique db'"
    "\<exists>bs. batches db' = batches (dw_db w) @ bs"
    using draft_step_keeps [OF m(5)] ok m(2,3) assms(2) by (auto simp: drafts_sound_def)
  let ?j = "j\<lparr>jb_phase := phase\<rparr>"
  have kept: "phase_ok (jb_ctx q) (jb_input q) db' (jb_phase q)" if "q \<in> set (dw_jobs w')" for q
    using that s(1,3) ok phase_ok_mono set_update_subset_insert [of "dw_jobs w" i ?j] m(1) by fastforce
  have new: "\<not> creator q org key" if c: "creator ?j org key" and member: "q \<in> set (dw_jobs w)" for q org key
  proof
    assume q: "creator q org key"
    obtain b where b: "phase = Answered (Inr (Draft_ok True b))" "org = tc_orgId (jb_ctx j)"
      "key = request_key (jb_input j)"
      using c by (auto simp: creator_def)
    moreover have "phase \<noteq> jb_phase j" using m(4) b(1) by metis
    moreover have "phase_ok (jb_ctx j) (jb_input j) (dw_db w) (jb_phase j)" "batch_keys_unique (dw_db w)"
      using ok m(2,3) assms(2) by (simp_all add: drafts_sound_def)
    ultimately have "(org, key) \<notin> set (key_index (batches (dw_db w)))"
      using draft_step_keeps [OF m(5), of b] by blast
    then show False using creator_in_index [OF ok [OF member] q] by simp
  qed
  have "a = c" if h: "a < length (dw_jobs w')" "c < length (dw_jobs w')"
    "creator (dw_jobs w' ! a) org key" "creator (dw_jobs w' ! c) org key" for a c org key
  proof -
    have old: "dw_jobs w' ! x = dw_jobs w ! x" if "x \<noteq> i" for x using m(1) that by simp
    have here: "dw_jobs w' ! i = ?j" using m(1,2) by simp
    have len: "length (dw_jobs w') = length (dw_jobs w)" using m(1) by simp
    show ?thesis
    proof (cases "a = i \<or> c = i")
      case True
      then show ?thesis using h here old new len by (metis nth_mem)
    next
      case False
      then show ?thesis using h old len assms(2) unfolding drafts_sound_def by metis
    qed
  qed
  then show ?thesis
    using s(2) kept m(1) by (auto simp: drafts_sound_def list_all_iff)
qed

text \<open>
  C7: A key makes one payroll: however any number of requests interleave, all that are answered with a batch
  under the same key in the same organization are answered with the same batch, at most one of them
  created it, and the table has exactly one batch with this key. A request may also be refused: when another
  payload came first under its key, and, with a supplied reference, when it lost a race for that reference.
\<close>

theorem one_batch_per_key:
  assumes "(draft_move be)\<^sup>*\<^sup>* w w'" "batch_keys_unique (dw_db w)" "list_all (\<lambda>j. jb_phase j = Asked) (dw_jobs w)"
    and "i < length (dw_jobs w')" "jb_phase (dw_jobs w' ! i) = Answered (Inr (Draft_ok c b))"
    and "k < length (dw_jobs w')" "jb_phase (dw_jobs w' ! k) = Answered (Inr (Draft_ok c' b'))"
    and "tc_orgId (jb_ctx (dw_jobs w' ! i)) = org" "tc_orgId (jb_ctx (dw_jobs w' ! k)) = org"
    and "request_key (jb_input (dw_jobs w' ! i)) = Some key" "request_key (jb_input (dw_jobs w' ! k)) = Some key"
  shows "cb_id b = cb_id b' \<and> (c \<and> c' \<longrightarrow> i = k) \<and>
    length (filter (\<lambda>x. ba_orgId x = org \<and> ba_idempotencyKey x = Some key) (batches (dw_db w'))) = 1"
proof -
  have "\<not> creator j o' k'" if "jb_phase j = Asked" for j o' k' using that by (simp add: creator_def)
  then have start: "drafts_sound w"
    using assms(2,3) by (auto simp: drafts_sound_def list_all_iff)
  have s: "drafts_sound w'"
    using assms(1) start by (induction rule: rtranclp_induct) (auto intro: draft_move_sound)
  have batch: "has_batch (dw_db w') org (Some key) (cb_id b)" "has_batch (dw_db w') org (Some key) (cb_id b')"
    using s assms(4-) by (fastforce simp: drafts_sound_def list_all_length)+
  have u: "batch_keys_unique (dw_db w')" using s by (simp add: drafts_sound_def)
  obtain x where x: "x \<in> set (batches (dw_db w'))" "ba_orgId x = org" "ba_idempotencyKey x = Some key" "ba_id x = cb_id b"
    using batch(1) by (auto simp: has_batch_def)
  then have only: "y = x" if "y \<in> set (batches (dw_db w'))" "ba_orgId y = org" "ba_idempotencyKey y = Some key" for y
    using key_determines_batch [OF u] that by simp
  have "cb_id b = cb_id b'" using batch(2) only x(4) by (auto simp: has_batch_def)
  moreover have "i = k" if "c" "c'"
  proof -
    have "creator (dw_jobs w' ! i) org (Some key)" "creator (dw_jobs w' ! k) org (Some key)"
      using assms(4-) that by (simp_all add: creator_def)
    then show ?thesis using s assms(4,6) unfolding drafts_sound_def by metis
  qed
  moreover have "length (filter (\<lambda>x. ba_orgId x = org \<and> ba_idempotencyKey x = Some key) (batches (dw_db w'))) = 1"
  proof -
    have "distinct (batches (dw_db w'))" using u by (simp add: batch_keys_unique_def distinct_map)
    then have "length (filter (\<lambda>x. ba_orgId x = org \<and> ba_idempotencyKey x = Some key) (batches (dw_db w')))
        = card {y \<in> set (batches (dw_db w')). ba_orgId y = org \<and> ba_idempotencyKey y = Some key}"
      by (simp add: distinct_length_filter Int_def conj_commute)
    also have "{y \<in> set (batches (dw_db w')). ba_orgId y = org \<and> ba_idempotencyKey y = Some key} = {x}"
      using x only by blast
    finally show ?thesis by simp
  qed
  ultimately show ?thesis by blast
qed

lemma find_prior_drafted:
  assumes "find_prior db (tc_orgId ctx) (dp_key plan) = None" "dp_key plan \<noteq> None"
  shows "find_prior (drafted_db be ctx inp plan reference db) (tc_orgId ctx) (dp_key plan)
    = Some (draft_batch_row (be_env be) ctx inp plan reference db)"
proof -
  have "List.find P (xs @ [x]) = (case List.find P xs of None \<Rightarrow> if P x then Some x else None | Some y \<Rightarrow> Some y)"
    for P and xs :: "batch_row list" and x
    by (induction xs) simp_all
  then show ?thesis using assms by (simp add: find_prior_def findFirst_def)
qed

lemma prior_after_insert:
  assumes "begin_draft ctx inp db = Inr plan" "insert_draft be ctx inp plan reference db = Inr (i, db')"
    and "dp_key plan \<noteq> None"
  shows "find_prior db' (tc_orgId ctx) (dp_key plan) = Some (draft_batch_row (be_env be) ctx inp plan reference db)"
proof -
  have "find_prior db (tc_orgId ctx) (dp_key plan) = None" using begin_draft_Inr [OF assms(1)] by blast
  from find_prior_drafted [OF this assms(3)] show ?thesis using insert_draft_Inr [OF assms(2)] by blast
qed

lemma created_is_replayed:
  assumes "createDraftBatch be ctx inp db = (Inr (Draft_ok True b), db')" "request_key inp = Some key"
  shows "\<exists>b'. createDraftBatch be' ctx inp db' = (Inr (Draft_ok False b'), db') \<and> cb_id b' = cb_id b \<and>
      cb_reference b' = cb_reference b \<and> cb_periodStart b' = cb_periodStart b \<and> cb_periodEnd b' = cb_periodEnd b"
    "\<exists>x. find_prior db' (tc_orgId ctx) (Some key) = Some x \<and>
      ba_idempotencyFingerprint x = trim_or_none (di_idempotencyFingerprint inp)"
proof -
  obtain plan reference where p: "begin_draft ctx inp db = Inr plan"
    "insert_draft be ctx inp plan reference db = Inr (new_id (be_env be) db, db')"
    "b = new_batch inp plan reference (new_id (be_env be) db)"
    using assms(1) by (rule created_draftD)
  let ?b = "draft_batch_row (be_env be) ctx inp plan reference db"
  note q = begin_draft_Inr [OF p(1)]
  have prior: "find_prior db' (tc_orgId ctx) (Some key) = Some ?b"
    using prior_after_insert [OF p(1,2)] q assms(2) by auto
  have f: "ba_idempotencyFingerprint ?b = trim_or_none (di_idempotencyFingerprint inp)" using q by simp
  have "begin_draft ctx inp db' = Inl (replay_answer db' (tc_orgId ctx) (trim_or_none (di_idempotencyFingerprint inp)) ?b)"
    using q prior assms(2) by (auto simp: begin_draft_def Let_def request_key_def)
  then have "createDraftBatch be' ctx inp db' = (Inr (Draft_ok False (describeExisting db' (tc_orgId ctx) ?b)), db')"
    using f by (simp add: createDraftBatch_def replay_answer_def replayVerdict_def)
  then show "\<exists>b'. createDraftBatch be' ctx inp db' = (Inr (Draft_ok False b'), db') \<and> cb_id b' = cb_id b \<and>
      cb_reference b' = cb_reference b \<and> cb_periodStart b' = cb_periodStart b \<and> cb_periodEnd b' = cb_periodEnd b"
    using p(3) by (auto simp: describeExisting_def Let_def new_batch_def draft_batch_row_def)
  show "\<exists>x. find_prior db' (tc_orgId ctx) (Some key) = Some x \<and>
      ba_idempotencyFingerprint x = trim_or_none (di_idempotencyFingerprint inp)"
    using prior f by blast
qed

lemma one_batch_per_key_witness:
  "\<exists>w' b b'. (draft_move sample_draft_env)\<^sup>*\<^sup>*
      \<lparr>dw_jobs = replicate 2 \<lparr>jb_ctx = sample_draft_ctx, jb_input = sample_draft None, jb_phase = Asked\<rparr>,
       dw_db = empty_db\<rparr> w' \<and>
    map jb_phase (dw_jobs w') = [Answered (Inr (Draft_ok True b)), Answered (Inr (Draft_ok False b'))] \<and>
    cb_id b = cb_id b'"
proof -
  let ?j = "\<lambda>phase. \<lparr>jb_ctx = sample_draft_ctx, jb_input = sample_draft None, jb_phase = phase\<rparr>"
  let ?w = "\<lparr>dw_jobs = replicate 2 (?j Asked), dw_db = empty_db\<rparr>"
  let ?first = "Answered (Inr (Draft_ok True (sample_made ''CF-00001'')))"
  let ?db = "sample_drafted None"
  obtain b' where b': "createDraftBatch sample_draft_env sample_draft_ctx (sample_draft None) ?db
      = (Inr (Draft_ok False b'), ?db)"
    using created_is_replayed(1) [OF sample_created sample_key] by blast
  let ?w' = "\<lparr>dw_jobs = [?j ?first, ?j (Answered (Inr (Draft_ok False b')))], dw_db = ?db\<rparr>"
  have one: "(draft_move sample_draft_env)\<^sup>*\<^sup>* ?w \<lparr>dw_jobs = [?j ?first, ?j Asked], dw_db = ?db\<rparr>"
    using request_alone [OF _ sample_created, of 0 "replicate 2 (?j Asked)"]
    by (simp add: with_job_def numeral_2_eq_2)
  have two: "(draft_move sample_draft_env)\<^sup>*\<^sup>* \<lparr>dw_jobs = [?j ?first, ?j Asked], dw_db = ?db\<rparr> ?w'"
    using request_alone [OF _ b', of 1 "[?j ?first, ?j Asked]"] by (simp add: with_job_def)
  have run: "(draft_move sample_draft_env)\<^sup>*\<^sup>* ?w ?w'" by (rule rtranclp_trans [OF one two])
  have "batch_keys_unique empty_db" by (simp add: batch_keys_unique_def key_index_def empty_db_def)
  then have "cb_id (sample_made ''CF-00001'') = cb_id b'"
    using one_batch_per_key [OF run, of 0 True "sample_made ''CF-00001''" 1 False b' "tc_orgId sample_draft_ctx" "''key-1''"]
    by (simp add: sample_key list_all_iff)
  then show ?thesis
    using run by (intro exI [of _ ?w'] exI [of _ "sample_made ''CF-00001''"] exI [of _ b']) simp
qed

text \<open>
  A retry is answered and changes nothing: once a batch was created under a key, the same request is
  answered with that batch, its reference and its period; and another request with that key and another
  fingerprint is refused.
\<close>

theorem creation_replayed:
  assumes "createDraftBatch be ctx inp db = (Inr (Draft_ok True b), db')" "request_key inp = Some key"
  shows "\<exists>b'. createDraftBatch be' ctx inp db' = (Inr (Draft_ok False b'), db') \<and> cb_id b' = cb_id b \<and>
      cb_reference b' = cb_reference b \<and> cb_periodStart b' = cb_periodStart b \<and> cb_periodEnd b' = cb_periodEnd b"
    "di_rows other \<noteq> [] \<Longrightarrow> trim_or_none (di_reference other) = None \<Longrightarrow> request_key other = Some key \<Longrightarrow>
     trim_or_none (di_idempotencyFingerprint inp) = Some f \<Longrightarrow>
     trim_or_none (di_idempotencyFingerprint other) = Some f' \<Longrightarrow> f \<noteq> f' \<Longrightarrow>
     createDraftBatch be' ctx other db' = (Inr (Draft_refused 409 (Some IDEMPOTENCY_KEY_REUSED)), db')"
  using created_is_replayed [OF assms]
  by (auto simp: createDraftBatch_def begin_draft_def Let_def request_key_def replay_answer_def replayVerdict_def)

lemma creation_replayed_witness:
  "\<exists>b'. createDraftBatch sample_draft_env sample_draft_ctx (sample_draft None) (sample_drafted None)
      = (Inr (Draft_ok False b'), sample_drafted None) \<and> cb_reference b' = ''CF-00001''"
    "createDraftBatch sample_draft_env sample_draft_ctx
       ((sample_draft None)\<lparr>di_idempotencyFingerprint := Some ''f2''\<rparr>) (sample_drafted None)
      = (Inr (Draft_refused 409 (Some IDEMPOTENCY_KEY_REUSED)), sample_drafted None)"
proof -
  let ?other = "(sample_draft None)\<lparr>di_idempotencyFingerprint := Some ''f2''\<rparr>"
  show "\<exists>b'. createDraftBatch sample_draft_env sample_draft_ctx (sample_draft None) (sample_drafted None)
      = (Inr (Draft_ok False b'), sample_drafted None) \<and> cb_reference b' = ''CF-00001''"
    using creation_replayed(1) [OF sample_created sample_key] by (auto simp: sample_made_def new_batch_def)
  have "trim_or_none (Some ''f1'') = Some ''f1''" "trim_or_none (Some ''f2'') = Some ''f2''" by code_simp+
  moreover have "request_key ?other = Some ''key-1''"
    using sample_key [of None] by (simp add: request_key_def)
  ultimately show "createDraftBatch sample_draft_env sample_draft_ctx ?other (sample_drafted None)
      = (Inr (Draft_refused 409 (Some IDEMPOTENCY_KEY_REUSED)), sample_drafted None)"
    by (intro creation_replayed(2) [OF sample_created sample_key, of _ "''f1''" "''f2''"])
      (simp_all add: sample_draft_def trim_or_none_def [of None])
qed

text \<open>
  Two clicks at the same time on a payroll with a reference of its own: when both passed the lookup
  before the first was stored, the second is refused with \<open>REFERENCE_TAKEN\<close> by a database that reports
  the index of the reference first, and is only answered with the first one's batch, as the recovery
  means it, by one that reports the index of the key.
\<close>

theorem double_click_with_reference:
  assumes "begin_draft ctx inp db = Inr plan" "dp_key plan \<noteq> None" "dp_reference plan = Some reference"
    and "draft_step be ctx inp (Proposed plan 0 reference) db = (Answered (Inr (Draft_ok True b)), db')"
  shows "\<exists>err. draft_step be ctx inp (Proposed plan 0 reference) db' = (Caught plan 0 err, db') \<and>
    (if be_referenceFirst be
     then draft_step be ctx inp (Caught plan 0 err) db' = (Answered (Inr (Draft_refused 409 (Some REFERENCE_TAKEN))), db')
     else \<exists>b'. draft_step be ctx inp (Caught plan 0 err) db' = (Answered (Inr (Draft_ok False b')), db') \<and> cb_id b' = cb_id b)"
proof -
  obtain i where i: "insert_draft be ctx inp plan reference db = Inr (i, db')" "b = new_batch inp plan reference i"
    using assms(4) by (auto split: sum.splits prod.splits)
  note r = insert_draft_Inr [OF i(1)]
  let ?b = "draft_batch_row (be_env be) ctx inp plan reference db"
  have prior: "find_prior db' (tc_orgId ctx) (dp_key plan) = Some ?b"
    using prior_after_insert [OF assms(1) i(1) assms(2)] .
  have "batch_violations db' (draft_batch_row (be_env be) ctx inp plan reference db')
      = [[''orgId'', ''reference''], [''orgId'', ''idempotencyKey'']]"
    using r assms(2) by (simp add: batch_violations_def reference_index_def key_index_def)
  then have "insert_draft be ctx inp plan reference db'
      = Inl (P2002 (if be_referenceFirst be then [''orgId'', ''reference''] else [''orgId'', ''idempotencyKey'']))"
    by (simp add: insert_draft_eq Let_def)
  moreover have "replay_answer db' (tc_orgId ctx) (dp_fingerprint plan) ?b = Draft_ok False (describeExisting db' (tc_orgId ctx) ?b)"
    by (simp add: replay_answer_def replayVerdict_def)
  ultimately show ?thesis
    using prior assms(3) i(2) r by (auto simp: recover_def describeExisting_def Let_def new_batch_def)
qed


lemma double_click_with_reference_witness:
  "\<exists>err. draft_step sample_draft_env sample_draft_ctx (sample_draft (Some ''June''))
      (Proposed (sample_plan (Some ''June'')) 0 ''June'') (sample_drafted (Some ''June''))
        = (Caught (sample_plan (Some ''June'')) 0 err, sample_drafted (Some ''June'')) \<and>
    draft_step sample_draft_env sample_draft_ctx (sample_draft (Some ''June''))
      (Caught (sample_plan (Some ''June'')) 0 err) (sample_drafted (Some ''June''))
        = (Answered (Inr (Draft_refused 409 (Some REFERENCE_TAKEN))), sample_drafted (Some ''June''))"
proof -
  have b: "begin_draft sample_draft_ctx (sample_draft (Some ''June'')) empty_db = Inr (sample_plan (Some ''June''))"
    by (rule sample_begin) simp
  obtain reference where r: "insert_draft sample_draft_env sample_draft_ctx (sample_draft (Some ''June''))
      (sample_plan (Some ''June'')) reference empty_db = Inr (new_id (be_env sample_draft_env) empty_db, sample_drafted (Some ''June''))"
    "sample_made ''June'' = new_batch (sample_draft (Some ''June'')) (sample_plan (Some ''June'')) reference
       (new_id (be_env sample_draft_env) empty_db)"
    using sample_created_named b by (auto elim: created_draftD)
  have "reference = ''June''"
    using arg_cong [OF r(2), of cb_reference] by (simp add: sample_made_def new_batch_def)
  then have "draft_step sample_draft_env sample_draft_ctx (sample_draft (Some ''June''))
      (Proposed (sample_plan (Some ''June'')) 0 ''June'') empty_db
        = (Answered (Inr (Draft_ok True (sample_made ''June''))), sample_drafted (Some ''June''))"
    using r by simp
  from double_click_with_reference [OF b _ _ this] show ?thesis
    by (simp add: sample_plan_def sample_draft_env_def)
qed

end
