(* ===== verification/PayrollApi.thy ===== *)
theory PayrollApi
  imports PayrollBatches Actions Funding JsonText
begin

text \<open>
  The orchestration behind the payroll routes, \<open>src/lib/payroll/api.ts\<close>: validating a file, creating its
  batch, checking a draft again, approving a batch payment by payment, and what the detail view shows;
  and the settlement asset of the deployment, \<open>src/lib/payroll/assets.ts\<close>, as a function of its two
  environment variables. The hash of a text in hexadecimal is the parameter \<open>sha256Hex\<close>. Texts of
  messages are left out.
\<close>

section \<open>The settlement asset\<close>

record asset_config =
  cf_assetCode :: "string option"
  cf_tokenId :: "string option"

definition DEFAULT_CODE :: string where
  "DEFAULT_CODE = ''USDC''"

definition settlementAsset :: "asset_config \<Rightarrow> settlement_asset" where
  "settlementAsset cfg =
     (let code = toUpperCase (js_trim (if truthy (cf_assetCode cfg) then the (cf_assetCode cfg) else DEFAULT_CODE));
          contractId = js_trim (if truthy (cf_tokenId cfg) then the (cf_tokenId cfg) else [])
      in \<lparr>sa_code = code, sa_contractId = (if contractId \<noteq> [] then Some contractId else None),
          sa_decimals = SAC_DECIMALS\<rparr>)"

definition settleableAssetCodes :: "asset_config \<Rightarrow> string list" where
  "settleableAssetCodes cfg = [sa_code (settlementAsset cfg)]"

text \<open>\<open>None\<close> is the thrown error.\<close>

definition requireSettlementContractId :: "asset_config \<Rightarrow> string option" where
  "requireSettlementContractId cfg = sa_contractId (settlementAsset cfg)"

section \<open>Validation\<close>

datatype report_code = Csv_code csv_issue_code | Funding_code blocker_code | ASSET_NOT_SETTLEABLE

record field_issue =
  fi_row :: "nat option"
  fi_field :: "string option"
  fi_code :: report_code

definition toFieldIssue :: "csv_issue \<Rightarrow> field_issue" where
  "toFieldIssue i =
     \<lparr>fi_row = (if ci_line i > 0 then Some (ci_line i) else None),
      fi_field = (if truthy (ci_column i) then ci_column i else None), fi_code = Csv_code (ci_code i)\<rparr>"

record validation_report =
  vr_valid :: bool
  vr_errors :: "field_issue list"
  vr_warnings :: "field_issue list"
  vr_rowsSeen :: nat
  vr_paymentsToCreate :: nat
  vr_recipientCount :: nat
  vr_totalHours :: string
  vr_totals :: "(string \<times> string) list"
  vr_asset :: settlement_asset
  vr_configured :: bool

definition csv_options_of :: "asset_config \<Rightarrow> bool option \<Rightarrow> csv_options" where
  "csv_options_of cfg rejectDuplicates =
     \<lparr>co_rejectDuplicateRecipients = (case rejectDuplicates of None \<Rightarrow> True | Some r \<Rightarrow> r),
      co_supportedAssets = settleableAssetCodes cfg\<rparr>"

definition validateCsv ::
  "asset_config \<Rightarrow> string \<Rightarrow> bool option \<Rightarrow> validation_report \<times> csv_parse_result \<times> settlement_asset" where
  "validateCsv cfg csv rejectDuplicates =
     (let asset = settlementAsset cfg;
          parsed = parsePayrollCsv csv (csv_options_of cfg rejectDuplicates);
          summary = summarizeParse parsed
      in (\<lparr>vr_valid = (cp_issues parsed = [] \<and> length (cp_rows parsed) > 0),
           vr_errors = map toFieldIssue (cp_issues parsed), vr_warnings = map toFieldIssue (cp_warnings parsed),
           vr_rowsSeen = cp_rowCount parsed, vr_paymentsToCreate = length (cp_rows parsed),
           vr_recipientCount = sm_recipientCount summary, vr_totalHours = show_int (sm_totalHours summary),
           vr_totals = sm_totals summary, vr_asset = asset, vr_configured = (sa_contractId asset \<noteq> None)\<rparr>,
          parsed, asset))"

section \<open>Creation\<close>

definition fingerprintCreateRequest ::
  "(string \<Rightarrow> string) \<Rightarrow> string \<Rightarrow> string option \<Rightarrow> string option \<Rightarrow> string \<Rightarrow> bool \<Rightarrow> string" where
  "fingerprintCreateRequest sha256Hex csv reference projectId assetCode rejectDuplicates =
     sha256Hex (json_text (JArr [JStr (sha256Hex csv), json_or_null reference, json_or_null projectId,
       JStr assetCode, JBool rejectDuplicates]))"

record create_request =
  cr_csv :: string
  cr_filename :: "string option"
  cr_reference :: "string option"
  cr_projectId :: "row_id option"
  cr_rejectDuplicateRecipients :: "bool option"
  cr_idempotencyKey :: "string option"

record batch_outcome =
  bo_created :: bool
  bo_id :: row_id
  bo_reference :: string
  bo_paymentCount :: nat
  bo_periodStart :: "instant option"
  bo_periodEnd :: "instant option"
  bo_total :: string
  bo_totalBaseUnits :: string
  bo_asset :: string
  bo_unlinkedRecipients :: nat
  bo_warnings :: "field_issue list"
  bo_possibleDuplicateOf :: "(row_id \<times> string \<times> instant) option"

datatype api_code = VALIDATION_FAILED | CSV_INVALID | STATE_CONFLICT | API_NOT_FOUND | Draft_code draft_code

datatype api_failure = Api_error nat api_code "field_issue list" | Client_threw client_error

definition draft_input_of ::
  "(string \<Rightarrow> string) \<Rightarrow> asset_config \<Rightarrow> create_request \<Rightarrow> draft_input" where
  "draft_input_of sha256Hex cfg rq =
     (let (report, parsed, asset) = validateCsv cfg (cr_csv rq) (cr_rejectDuplicateRecipients rq);
          rejectDuplicates = (case cr_rejectDuplicateRecipients rq of None \<Rightarrow> True | Some r \<Rightarrow> r)
      in \<lparr>di_rows = cp_rows parsed, di_asset = asset, di_reference = cr_reference rq,
          di_projectId = cr_projectId rq, di_sourceFilename = cr_filename rq,
          di_sourceRowCount = Some (cp_rowCount parsed), di_sourceChecksum = Some (sha256Hex (cr_csv rq)),
          di_idempotencyKey = cr_idempotencyKey rq,
          di_idempotencyFingerprint = Some (fingerprintCreateRequest sha256Hex (cr_csv rq) (cr_reference rq)
            (cr_projectId rq) (sa_code asset) rejectDuplicates)\<rparr>)"

definition createBatch ::
  "(string \<Rightarrow> string) \<Rightarrow> batch_env \<Rightarrow> asset_config \<Rightarrow> tenant_context \<Rightarrow> create_request \<Rightarrow> database
   \<Rightarrow> (api_failure + batch_outcome) \<times> database" where
  "createBatch sha256Hex be cfg ctx rq db =
     (let (report, parsed, asset) = validateCsv cfg (cr_csv rq) (cr_rejectDuplicateRecipients rq) in
      if \<not> vr_valid report
      then (Inl (Api_error 422 (if cp_rows parsed = [] \<and> cp_issues parsed = [] then VALIDATION_FAILED else CSV_INVALID)
              (vr_errors report)), db)
      else case createDraftBatch be ctx (draft_input_of sha256Hex cfg rq) db of
        (Inl err, db') \<Rightarrow> (Inl (Client_threw err), db')
      | (Inr (Draft_refused status code), db') \<Rightarrow>
          (Inl (Api_error (if status = 400 then 422 else 409)
             (case code of Some c \<Rightarrow> Draft_code c | None \<Rightarrow> STATE_CONFLICT) []), db')
      | (Inr (Draft_ok created b), db') \<Rightarrow>
          (Inr \<lparr>bo_created = created, bo_id = cb_id b, bo_reference = cb_reference b,
             bo_paymentCount = cb_paymentCount b, bo_periodStart = cb_periodStart b,
             bo_periodEnd = cb_periodEnd b,
             bo_total = formatAmountWithSeparators (cb_totalBaseUnits b) (sa_decimals asset) default_opts,
             bo_totalBaseUnits = show_int (cb_totalBaseUnits b), bo_asset = sa_code asset,
             bo_unlinkedRecipients = cb_unlinkedRecipients b, bo_warnings = vr_warnings report,
             bo_possibleDuplicateOf =
               (if created
                then findDuplicateUpload db' (tc_orgId ctx) (sha256Hex (cr_csv rq)) (now (be_env be)) (Some (cb_id b))
                else None)\<rparr>, db'))"

section \<open>Checking a draft again\<close>

record revalidation_report =
  rv_valid :: bool
  rv_batchId :: row_id
  rv_reference :: string
  rv_paymentCount :: nat
  rv_errors :: "field_issue list"
  rv_asset :: settlement_asset

definition recheck_payment :: "settlement_asset \<Rightarrow> payment_row \<Rightarrow> field_issue list" where
  "recheck_payment asset p =
     (let e = (\<lambda>field code. \<lparr>fi_row = None, fi_field = Some field, fi_code = code\<rparr>) in
      push_if (pm_assetCode p \<noteq> sa_code asset) (e ''asset'' ASSET_NOT_SETTLEABLE) @
      push_if (pm_hours p * pm_rateBaseUnits p \<noteq> pm_amountBaseUnits p) (e ''amount'' (Funding_code HOURS_RATE_MISMATCH)) @
      push_if (pm_amountBaseUnits p \<le> 0) (e ''amount'' (Funding_code AMOUNT_NOT_POSITIVE)))"

definition revalidateBatch :: "asset_config \<Rightarrow> batch_row \<Rightarrow> payment_row list \<Rightarrow> revalidation_report" where
  "revalidateBatch cfg b ps =
     (let asset = settlementAsset cfg;
          errors = concat (map (recheck_payment asset) ps) @
            push_if (sa_contractId asset = None)
              \<lparr>fi_row = None, fi_field = Some ''asset'', fi_code = Funding_code SETTLEMENT_ASSET_UNCONFIGURED\<rparr>
      in \<lparr>rv_valid = (errors = []), rv_batchId = ba_id b, rv_reference = ba_reference b,
          rv_paymentCount = length ps, rv_errors = errors, rv_asset = asset\<rparr>)"

section \<open>Approving a batch\<close>

definition APPROVABLE_STATES :: "payment_state list" where
  "APPROVABLE_STATES = [AWAITING_MANAGER, AWAITING_FINANCE, ORACLE_VERIFIED, DRAFT]"

record approval_line =
  al_paymentId :: row_id
  al_ok :: bool
  al_recorded :: bool
  al_state :: payment_state
  al_stateLabel :: string
  al_code :: "action_code option"

record batch_approval =
  bv_batchId :: row_id
  bv_approvalRole :: org_role
  bv_recorded :: nat
  bv_alreadyRecorded :: nat
  bv_failed :: nat
  bv_results :: "approval_line list"
  bv_completeForRole :: bool

record approve_opts =
  ao_paymentIds :: "row_id list option"
  ao_reason :: "string option"
  ao_idempotencyKey :: "string option"

text \<open>The variables of the loop.\<close>

record approve_loop =
  lp_recorded :: nat
  lp_alreadyRecorded :: nat
  lp_failed :: nat
  lp_results :: "approval_line list"
  lp_role :: "org_role option"

definition approval_context :: "tenant_context \<Rightarrow> approve_opts \<Rightarrow> row_id \<Rightarrow> action_context" where
  "approval_context ctx opts i =
     \<lparr>ac_membership = ctx, ac_paymentId = i,
      ac_idempotencyKey = (if truthy (ao_idempotencyKey opts)
        then Some (the (ao_idempotencyKey opts) @ CHR '':'' # i) else None),
      ac_reason = ao_reason opts\<rparr>"

definition approve_step ::
  "env \<Rightarrow> tenant_context \<Rightarrow> approve_opts \<Rightarrow> database \<times> approve_loop \<Rightarrow> row_id \<times> payment_state
   \<Rightarrow> database \<times> approve_loop" where
  "approve_step e ctx opts dl p =
     (let (db, l) = dl; (i, s) = p; (db', result) = approvePayment e db (approval_context ctx opts i) in
      case result of
        Inr (status, answer) \<Rightarrow>
          (let isNew = (status = 201) in
           (db', l\<lparr>lp_recorded := lp_recorded l + (if isNew then 1 else 0),
                   lp_alreadyRecorded := lp_alreadyRecorded l + (if isNew then 0 else 1),
                   lp_role := (case bd_approvalRole answer of Some r \<Rightarrow> Some r | None \<Rightarrow> lp_role l),
                   lp_results := lp_results l @
                     [\<lparr>al_paymentId = i, al_ok = True, al_recorded = isNew, al_state = bd_state answer,
                       al_stateLabel = label (describeState (bd_state answer)), al_code = None\<rparr>]\<rparr>))
      | Inl (status, code) \<Rightarrow>
          (db', l\<lparr>lp_failed := lp_failed l + 1,
                  lp_results := lp_results l @
                    [\<lparr>al_paymentId = i, al_ok = False, al_recorded = False, al_state = s,
                      al_stateLabel = label (describeState s), al_code = code\<rparr>]\<rparr>))"

definition inferRole :: "org_role \<Rightarrow> org_role" where
  "inferRole r = (if r = FINANCE then FINANCE else MANAGER)"

definition approval_candidates :: "approve_opts \<Rightarrow> (row_id \<times> payment_state) list \<Rightarrow> (row_id \<times> payment_state) list" where
  "approval_candidates opts ps =
     filter (\<lambda>(i, s). (case ao_paymentIds opts of None \<Rightarrow> True | Some is \<Rightarrow> i \<in> set is) \<and> s \<in> set APPROVABLE_STATES) ps"

definition approveBatch ::
  "env \<Rightarrow> tenant_context \<Rightarrow> row_id \<Rightarrow> (row_id \<times> payment_state) list \<Rightarrow> approve_opts \<Rightarrow> database
   \<Rightarrow> (api_failure + batch_approval) \<times> database" where
  "approveBatch e ctx batchId ps opts db =
     (let candidates = approval_candidates opts ps;
          missing = (case ao_paymentIds opts of None \<Rightarrow> [] | Some is \<Rightarrow> filter (\<lambda>i. i \<notin> fst ` set ps) is)
      in if missing \<noteq> [] then (Inl (Api_error 404 API_NOT_FOUND []), db)
         else if candidates = [] then (Inl (Api_error 409 STATE_CONFLICT []), db)
         else
           let (db', l) = foldl (approve_step e ctx opts)
                 (db, \<lparr>lp_recorded = 0, lp_alreadyRecorded = 0, lp_failed = 0, lp_results = [], lp_role = None\<rparr>)
                 candidates
           in (Inr \<lparr>bv_batchId = batchId,
                 bv_approvalRole = (case lp_role l of Some r \<Rightarrow> r | None \<Rightarrow> inferRole (tc_role ctx)),
                 bv_recorded = lp_recorded l, bv_alreadyRecorded = lp_alreadyRecorded l,
                 bv_failed = lp_failed l, bv_results = lp_results l,
                 bv_completeForRole = (lp_failed l = 0)\<rparr>, db'))"

section \<open>The detail view\<close>

record payment_view =
  pv_id :: row_id
  pv_recipient :: address
  pv_amount :: string
  pv_amountBaseUnits :: string
  pv_rate :: string
  pv_rateBaseUnits :: string
  pv_hours :: string
  pv_asset :: string
  pv_state :: payment_state
  pv_stateLabel :: string
  pv_tone :: tone
  pv_needsAttention :: bool
  pv_stateReason :: "string option"
  pv_reference :: "string option"
  pv_transactionHash :: "string option"
  pv_settledAt :: "instant option"
  pv_onChainPaymentIndex :: "int option"
  pv_approvals :: "(org_role \<times> approval_decision \<times> address) list"

record batch_view =
  bw_id :: row_id
  bw_reference :: string
  bw_projectId :: "row_id option"
  bw_periodStart :: "instant option"
  bw_periodEnd :: "instant option"
  bw_createdAt :: instant
  bw_sourceFilename :: "string option"
  bw_rowsSeen :: "nat option"
  bw_checksum :: "string option"
  bw_uploadedBy :: "row_id option"
  bw_total :: string
  bw_totalBaseUnits :: string
  bw_asset :: "string option"
  bw_paymentCount :: nat
  bw_headline :: string
  bw_byState :: "(payment_state \<times> nat) list"
  bw_needsAttention :: nat
  bw_paidAmountBaseUnits :: string
  bw_paid :: string
  bw_payments :: "payment_view list"

definition present_payment :: "approval_row list \<Rightarrow> payment_row \<Rightarrow> payment_view" where
  "present_payment aps p =
     (let d = describeState (pm_state p) in
      \<lparr>pv_id = pm_id p, pv_recipient = pm_recipientAddress p,
       pv_amount = formatAmountWithSeparators (pm_amountBaseUnits p) (pm_assetDecimals p) default_opts,
       pv_amountBaseUnits = show_int (pm_amountBaseUnits p),
       pv_rate = formatAmountWithSeparators (pm_rateBaseUnits p) (pm_assetDecimals p) default_opts,
       pv_rateBaseUnits = show_int (pm_rateBaseUnits p), pv_hours = show_int (pm_hours p),
       pv_asset = pm_assetCode p, pv_state = pm_state p, pv_stateLabel = label d, pv_tone = state_tone d,
       pv_needsAttention = needsAttention d, pv_stateReason = pm_stateReason p,
       pv_reference = pm_sourceReference p,
       pv_transactionHash = (if mayHaveTransaction d then pm_settlementTxHash p else None),
       pv_settledAt = pm_settledAt p, pv_onChainPaymentIndex = pm_onChainPaymentIndex p,
       pv_approvals = map (\<lambda>a. (ap_role a, ap_decision a, ap_actorAddress a))
         (filter (\<lambda>a. ap_orgId a = pm_orgId p \<and> ap_paymentId a = pm_id p) aps)\<rparr>)"

definition presentBatch :: "batch_row \<Rightarrow> payment_row list \<Rightarrow> approval_row list \<Rightarrow> batch_view" where
  "presentBatch b ps aps =
     (let decimals = (case ps of [] \<Rightarrow> SAC_DECIMALS | p # _ \<Rightarrow> pm_assetDecimals p);
          rollup = rollupBatch (map (\<lambda>p. (pm_state p, pm_amountBaseUnits p)) ps)
      in \<lparr>bw_id = ba_id b, bw_reference = ba_reference b, bw_projectId = ba_projectId b,
          bw_periodStart = ba_periodStart b, bw_periodEnd = ba_periodEnd b, bw_createdAt = ba_createdAt b,
          bw_sourceFilename = ba_sourceFilename b, bw_rowsSeen = ba_sourceRowCount b,
          bw_checksum = ba_sourceChecksum b, bw_uploadedBy = ba_uploadedBy b,
          bw_total = formatAmountWithSeparators (br_totalAmount rollup) decimals default_opts,
          bw_totalBaseUnits = show_int (br_totalAmount rollup),
          bw_asset = (case ps of [] \<Rightarrow> None | p # _ \<Rightarrow> Some (pm_assetCode p)), bw_paymentCount = length ps,
          bw_headline = br_headline rollup, bw_byState = br_byState rollup,
          bw_needsAttention = br_needsAttention rollup,
          bw_paidAmountBaseUnits = show_int (br_paidAmount rollup),
          bw_paid = formatAmountWithSeparators (br_paidAmount rollup) decimals default_opts,
          bw_payments = map (present_payment aps) ps\<rparr>)"

section \<open>Creation, refused and done\<close>

lemma try_references_keeps:
  assumes "try_references be ctx inp plan attempts db = (r, db')" "\<nexists>b. r = Inr (Draft_ok True b)"
  shows "db' = db"
  using assms
proof (induction attempts)
  case (Cons attempt rest)
  then show ?case by (auto simp: Let_def split: sum.splits prod.splits option.splits)
qed simp

lemma createDraftBatch_keeps:
  assumes "createDraftBatch be ctx inp db = (r, db')" "\<nexists>b. r = Inr (Draft_ok True b)"
  shows "db' = db"
  using assms try_references_keeps by (auto simp: createDraftBatch_def split: sum.splits)

lemma validateCsv_simps:
  "fst (snd (validateCsv cfg csv rej)) = parsePayrollCsv csv (csv_options_of cfg rej)"
  "snd (snd (validateCsv cfg csv rej)) = settlementAsset cfg"
  "vr_valid (fst (validateCsv cfg csv rej)) \<longleftrightarrow>
     cp_issues (parsePayrollCsv csv (csv_options_of cfg rej)) = [] \<and> cp_rows (parsePayrollCsv csv (csv_options_of cfg rej)) \<noteq> []"
  by (auto simp: validateCsv_def Let_def)

lemma draft_input_simps:
  "di_rows (draft_input_of sha cfg rq)
     = cp_rows (parsePayrollCsv (cr_csv rq) (csv_options_of cfg (cr_rejectDuplicateRecipients rq)))"
  "di_asset (draft_input_of sha cfg rq) = settlementAsset cfg"
  by (simp_all add: draft_input_of_def Let_def split_beta validateCsv_simps)

lemma created_by_api:
  assumes "createBatch sha be cfg ctx rq db = (Inr out, db')"
  obtains b where "createDraftBatch be ctx (draft_input_of sha cfg rq) db = (Inr (Draft_ok (bo_created out) b), db')"
    "bo_id out = cb_id b" "bo_paymentCount out = cb_paymentCount b"
    "bo_total out = formatAmountWithSeparators (cb_totalBaseUnits b) SAC_DECIMALS default_opts"
    "bo_totalBaseUnits out = show_int (cb_totalBaseUnits b)"
proof -
  obtain report parsed asset where v: "validateCsv cfg (cr_csv rq) (cr_rejectDuplicateRecipients rq) = (report, parsed, asset)"
    using prod_cases3 by blast
  have a: "asset = settlementAsset cfg" using validateCsv_simps(2) v by (metis snd_conv)
  obtain r db1 where r: "createDraftBatch be ctx (draft_input_of sha cfg rq) db = (r, db1)" by force
  have "vr_valid report" using assms v by (auto simp: createBatch_def split: if_splits)
  then show thesis
    using assms v r a that
    by (auto simp: createBatch_def settlementAsset_def Let_def split: sum.splits draft_result.splits)
qed

lemma parse_shown:
  "parseAmount (formatAmountWithSeparators u SAC_DECIMALS default_opts) SAC_DECIMALS = Inr u"
proof -
  have "faithful_opts SAC_DECIMALS default_opts" by (simp add: faithful_opts_def default_opts_def SAC_DECIMALS_def)
  then show ?thesis using parse_of_format by (simp add: format_clean strip_separators)
qed

lemma drafted_fundable:
  assumes "drafted ctx inp i r p" "settleable_row opts r" "di_asset inp = asset"
  shows "fundable_payment asset (funding_payment_of p)"
  using assms by (auto simp: drafted_def settleable_row_def fundable_payment_def funding_payment_of_def)

lemma fundable_rechecked:
  "fundable_payment asset (funding_payment_of p) \<Longrightarrow> recheck_payment asset p = []"
  by (auto simp: fundable_payment_def funding_payment_of_def recheck_payment_def Let_def
      mult_pos_pos not_le)

section \<open>One approval after another\<close>

lemma approvePayment_effect:
  assumes "approvePayment e db c = (db', r)"
  shows "payments db' = payments db \<and>
    ((\<exists>row answer. approvals db' = approvals db @ [row] \<and> r = Inr (201, answer) \<and> ap_paymentId row = ac_paymentId c \<and>
        ap_decision row = APPROVED \<and> ap_actorAddress row = tc_walletAddress (ac_membership c) \<and>
        ap_orgId row = tc_orgId (ac_membership c) \<and>
        find_approval db (ac_paymentId c) (ap_role row) = None) \<or>
     (db' = db \<and> (\<nexists>answer. r = Inr (201, answer))))"
  using assms
  by (auto simp: approvePayment_def Let_def recordAuditEvent_def findPaymentForMember_def findPayment_def scoped_def
      findFirst_def find_Some_iff split: if_splits sum.splits option.splits)

text \<open>What a part of the loop over the payments \<open>is\<close> did.\<close>

definition loop_did :: "tenant_context \<Rightarrow> row_id list \<Rightarrow> database \<times> approve_loop \<Rightarrow> database \<times> approve_loop \<Rightarrow> bool" where
  "loop_did ctx is dl dl' \<longleftrightarrow>
     (\<exists>made lines.
        approvals (fst dl') = approvals (fst dl) @ made \<and> payments (fst dl') = payments (fst dl) \<and>
        lp_results (snd dl') = lp_results (snd dl) @ lines \<and> map al_paymentId lines = is \<and>
        map ap_paymentId made = map al_paymentId (filter al_recorded lines) \<and>
        lp_recorded (snd dl') = lp_recorded (snd dl) + length (filter al_recorded lines) \<and>
        lp_failed (snd dl') = lp_failed (snd dl) + length (filter (\<lambda>x. \<not> al_ok x) lines) \<and>
        lp_alreadyRecorded (snd dl')
          = lp_alreadyRecorded (snd dl) + length (filter (\<lambda>x. al_ok x \<and> \<not> al_recorded x) lines) \<and>
        list_all (\<lambda>x. al_recorded x \<longrightarrow> al_ok x) lines \<and>
        list_all (\<lambda>a. ap_decision a = APPROVED \<and> ap_actorAddress a = tc_walletAddress ctx \<and>
          ap_orgId a = tc_orgId ctx) made)"

lemma loop_did_nothing: "loop_did ctx [] dl dl"
  unfolding loop_did_def by (intro exI [of _ "[]"]) simp

lemma loop_did_more:
  assumes "loop_did ctx is dl dl1" "loop_did ctx js dl1 dl2"
  shows "loop_did ctx (is @ js) dl dl2"
proof -
  obtain m1 l1 m2 l2 where "approvals (fst dl1) = approvals (fst dl) @ m1" "lp_results (snd dl1) = lp_results (snd dl) @ l1"
    "approvals (fst dl2) = approvals (fst dl1) @ m2" "lp_results (snd dl2) = lp_results (snd dl1) @ l2"
    using assms unfolding loop_did_def by blast
  then show ?thesis
    using assms unfolding loop_did_def by (intro exI [of _ "m1 @ m2"] exI [of _ "l1 @ l2"]) auto
qed

lemma approve_step_did: "loop_did ctx [fst p] dl (approve_step e ctx opts dl p)"
proof -
  obtain db l i s where p: "dl = (db, l)" "p = (i, s)" by force
  obtain db' r where r: "approvePayment e db (approval_context ctx opts i) = (db', r)" by force
  note a = approvePayment_effect [OF r]
  show ?thesis
  proof (cases "\<exists>answer. r = Inr (201, answer)")
    case True
    then obtain answer row where "r = Inr (201, answer)" "approvals db' = approvals db @ [row]" "payments db' = payments db"
      "ap_paymentId row = i" "ap_decision row = APPROVED" "ap_actorAddress row = tc_walletAddress ctx" "ap_orgId row = tc_orgId ctx"
      using a by (auto simp: approval_context_def)
    then show ?thesis
      unfolding loop_did_def using r p by (intro exI [of _ "[row]"]) (auto simp: approve_step_def Let_def)
  next
    case False
    then have "db' = db" using a by blast
    show ?thesis
    proof (cases r)
      case (Inl x)
      obtain status code where "x = (status, code)" by force
      then show ?thesis
        unfolding loop_did_def using r p Inl \<open>db' = db\<close>
        by (intro exI [of _ "[]"] exI [of _ "[\<lparr>al_paymentId = i, al_ok = False, al_recorded = False, al_state = s,
            al_stateLabel = label (describeState s), al_code = code\<rparr>]"]) (simp add: approve_step_def Let_def)
    next
      case (Inr x)
      obtain status answer where "x = (status, answer)" by force
      then show ?thesis
        unfolding loop_did_def using r p Inr False \<open>db' = db\<close>
        by (intro exI [of _ "[]"] exI [of _ "[\<lparr>al_paymentId = i, al_ok = True, al_recorded = False,
            al_state = bd_state answer, al_stateLabel = label (describeState (bd_state answer)), al_code = None\<rparr>]"])
          (simp add: approve_step_def Let_def)
    qed
  qed
qed

lemma approve_loop_did: "loop_did ctx (map fst ps) dl (foldl (approve_step e ctx opts) dl ps)"
proof (induction ps arbitrary: dl)
  case (Cons p ps)
  show ?case using loop_did_more [OF approve_step_did Cons] by simp
qed (simp add: loop_did_nothing)

lemma approveBatch_Inr:
  assumes "approveBatch e ctx i ps opts db = (Inr out, db')"
  obtains l where "bv_recorded out = lp_recorded l" "bv_alreadyRecorded out = lp_alreadyRecorded l"
    "bv_failed out = lp_failed l" "bv_results out = lp_results l" "bv_completeForRole out = (lp_failed l = 0)"
    "loop_did ctx (map fst (approval_candidates opts ps))
       (db, \<lparr>lp_recorded = 0, lp_alreadyRecorded = 0, lp_failed = 0, lp_results = [], lp_role = None\<rparr>) (db', l)"
proof -
  let ?l = "\<lparr>lp_recorded = 0, lp_alreadyRecorded = 0, lp_failed = 0, lp_results = [], lp_role = None\<rparr>"
  obtain db1 l where f: "foldl (approve_step e ctx opts) (db, ?l) (approval_candidates opts ps) = (db1, l)" by force
  then have "loop_did ctx (map fst (approval_candidates opts ps)) (db, ?l) (db1, l)" by (metis approve_loop_did)
  then show thesis using assms f that by (auto simp: approveBatch_def Let_def split: if_splits)
qed

section \<open>Instances for the concrete checks\<close>

definition sample_config :: asset_config where
  "sample_config = \<lparr>cf_assetCode = None, cf_tokenId = Some ''CU''\<rparr>"

definition sample_request :: "string \<Rightarrow> create_request" where
  "sample_request csv =
     \<lparr>cr_csv = csv, cr_filename = None, cr_reference = None, cr_projectId = None,
      cr_rejectDuplicateRecipients = None, cr_idempotencyKey = Some ''key-1''\<rparr>"

lemma sample_settlement:
  "settlementAsset sample_config = \<lparr>sa_code = ''USDC'', sa_contractId = Some ''CU'', sa_decimals = 7\<rparr>"
  by code_simp

lemma sample_file_parsed:
  "cp_issues (parsePayrollCsv sample_file (csv_options_of sample_config None)) = []"
  "cp_rows (parsePayrollCsv sample_file (csv_options_of sample_config None)) = [sample_row 2]"
proof -
  have "toUpperCase ''USDC'' = ''USDC''" by code_simp
  then have "''USDC'' \<in> set (map toUpperCase (co_supportedAssets (csv_options_of sample_config None)))"
    by (simp add: csv_options_of_def settleableAssetCodes_def sample_settlement)
  from sample_parsed_by [OF this]
  show "cp_issues (parsePayrollCsv sample_file (csv_options_of sample_config None)) = []"
    "cp_rows (parsePayrollCsv sample_file (csv_options_of sample_config None)) = [sample_row 2]"
    by simp_all
qed

lemma createBatch_ok:
  assumes "cp_issues (parsePayrollCsv (cr_csv rq) (csv_options_of cfg (cr_rejectDuplicateRecipients rq))) = []"
    "cp_rows (parsePayrollCsv (cr_csv rq) (csv_options_of cfg (cr_rejectDuplicateRecipients rq))) \<noteq> []"
    "createDraftBatch be ctx (draft_input_of sha cfg rq) db = (Inr (Draft_ok created b), db')"
  shows "\<exists>out. createBatch sha be cfg ctx rq db = (Inr out, db') \<and> bo_created out = created"
proof -
  have "vr_valid (fst (validateCsv cfg (cr_csv rq) (cr_rejectDuplicateRecipients rq)))"
    using assms(1,2) validateCsv_simps(3) by blast
  then show ?thesis
    using assms(3) by (auto simp: createBatch_def Let_def split: prod.splits)
qed

lemma sample_request_created:
  "\<exists>out db'. createBatch (\<lambda>s. s) sample_draft_env sample_config sample_draft_ctx (sample_request sample_file) empty_db
      = (Inr out, db') \<and> bo_created out"
proof -
  let ?inp = "draft_input_of (\<lambda>s. s) sample_config (sample_request sample_file)"
  have rows: "di_rows ?inp = [sample_row 2]"
    by (simp add: draft_input_simps sample_request_def sample_file_parsed)
  have "di_projectId ?inp = None" "di_reference ?inp = None"
    by (simp_all add: draft_input_of_def Let_def split_beta sample_request_def)
  then have "\<exists>b db'. createDraftBatch sample_draft_env sample_draft_ctx ?inp empty_db = (Inr (Draft_ok True b), db')"
    unfolding creation_iff rows
    by (auto simp: trim_or_none_def empty_db_def find_prior_def findFirst_def project_missing_def storable_def
        fits_bigint_def sample_row_def intro: exI [of _ 0])
  then show ?thesis
    using createBatch_ok [of "sample_request sample_file" sample_config]
    by (fastforce simp: sample_request_def sample_file_parsed)
qed

definition sample_approver :: "org_role \<Rightarrow> tenant_context" where
  "sample_approver r = \<lparr>tc_orgId = ''o1'', tc_orgName = ''Acme'', tc_orgSlug = ''acme'', tc_userId = ''u1'',
     tc_walletAddress = ''GM'', tc_role = r\<rparr>"

definition sample_clock :: env where
  "sample_clock = \<lparr>now = 0, cuid = (\<lambda>n. show_nat n)\<rparr>"

definition sample_approval_db :: database where
  "sample_approval_db = empty_db\<lparr>payments :=
     [\<lparr>pm_id = ''p1'', pm_orgId = ''o1'', pm_batchId = ''b1'', pm_escrowId = None, pm_workerId = None,
       pm_recipientAddress = ''GW'', pm_onChainPaymentIndex = None, pm_assetContractId = None,
       pm_assetDecimals = SAC_DECIMALS, pm_amountBaseUnits = 100, pm_rateBaseUnits = 50, pm_hours = 2,
       pm_periodStart = None, pm_periodEnd = None, pm_state = DRAFT, pm_stateUpdatedAt = 0,
       pm_stateReason = None, pm_settledAt = None, pm_settlementTxHash = None, pm_assetCode = ''USDC'',
       pm_projectId = None, pm_sourceReference = None, pm_createdAt = 0\<rparr>]\<rparr>"

definition sample_shown :: batch_row where
  "sample_shown =
     \<lparr>ba_id = ''b1'', ba_orgId = ''o1'', ba_reference = ''June'', ba_projectId = None, ba_periodStart = None,
      ba_periodEnd = None, ba_sourceFilename = None, ba_sourceRowCount = Some 1, ba_sourceChecksum = None,
      ba_idempotencyKey = None, ba_idempotencyFingerprint = None, ba_uploadedBy = None, ba_createdAt = 0\<rparr>"

definition sample_rejected_db :: database where
  "sample_rejected_db = sample_approval_db\<lparr>approvals :=
     [\<lparr>ap_id = ''a1'', ap_orgId = ''o1'', ap_paymentId = ''p1'', ap_role = MANAGER,
       ap_decision = DECISION_REJECTED, ap_actorAddress = ''GX'', ap_reason = None\<rparr>]\<rparr>"

lemmas sample_approval_defs = sample_approver_def sample_clock_def sample_approval_db_def empty_db_def

section \<open>Properties\<close>

text \<open>
  What the funding check says of anything but the payments: who asks, whether an attempt is open or was
  confirmed, and what the deployment lacks.
\<close>

definition circumstances :: "eligibility_input \<Rightarrow> funding_blocker list" where
  "circumstances inp =
     push_if (ei_role inp \<notin> set FUNDING_ROLES) (blocker ROLE_NOT_PERMITTED)
     @ attempt_blockers (ei_attempt inp)
     @ push_if (sa_contractId (ei_asset inp) = None) (blocker SETTLEMENT_ASSET_UNCONFIGURED)
     @ approver_blockers (ei_financeApproverAddress inp) (ei_walletAddress inp)
     @ push_if (\<not> truthy (ei_oraclePublicKey inp)) (blocker ORACLE_KEY_UNAVAILABLE)"

lemma fundable_payments_assessed:
  assumes "list_all (fundable_payment (ei_asset inp)) (ei_payments inp)"
    and "1 \<le> length (ei_payments inp)" "length (ei_payments inp) \<le> MAX_FUNDABLE_PAYMENTS"
  shows "fs_blockers (assessFundingEligibility inp) = circumstances inp"
proof -
  have none: "concat (map (\<lambda>(k, p). payment_blockers a p (k + 1)) (enumerate i ps)) = []"
    if "list_all (fundable_payment a) ps" for a i ps
    using that by (induction ps arbitrary: i) (simp_all add: payment_blockers_Nil)
  show ?thesis
    using none [OF assms(1)] one_asset [OF assms(1)] assms(2,3)
    by (cases "ei_payments inp = []")
      (simp_all add: assessFundingEligibility_def assess_payments_eq Let_def circumstances_def push_if_def not_less)
qed

text \<open>
  C25: From the file to the funding check: when a file was accepted and its batch created, every payment
  that was added is one the funding check has nothing against, there are at least one and at most 100,
  and the total that is shown reads back as their exact sum. Whoever then asks for the funding of these
  payments, and whatever is configured, the blockers \<open>assessFundingEligibility\<close> names are exactly those of the
  circumstances: the role, an open or confirmed attempt, a missing contract of the asset, finance approver or
  oracle key. None is about the file. Checking the draft again finds nothing but a missing contract of the asset.
\<close>

theorem accepted_file_is_fundable:
  assumes "createBatch sha be cfg ctx rq db = (Inr out, db')" "bo_created out"
  shows "\<exists>ps. payments db' = payments db @ ps \<and>
    list_all (\<lambda>p. fundable_payment (settlementAsset cfg) (funding_payment_of p)) ps \<and>
    1 \<le> length ps \<and> length ps \<le> MAX_FUNDABLE_PAYMENTS \<and> bo_paymentCount out = length ps \<and>
    parseAmount (bo_total out) SAC_DECIMALS = Inr (sum_list (map pm_amountBaseUnits ps)) \<and>
    (\<forall>inp. ei_payments inp = map funding_payment_of ps \<longrightarrow> ei_asset inp = settlementAsset cfg \<longrightarrow>
       fs_blockers (assessFundingEligibility inp) = circumstances inp) \<and>
    rv_valid (revalidateBatch cfg b ps) = (sa_contractId (settlementAsset cfg) \<noteq> None)"
proof -
  let ?inp = "draft_input_of sha cfg rq" and ?asset = "settlementAsset cfg"
  let ?opts = "csv_options_of cfg (cr_rejectDuplicateRecipients rq)"
  obtain c where c: "createDraftBatch be ctx ?inp db = (Inr (Draft_ok True c), db')"
    "bo_paymentCount out = cb_paymentCount c"
    "bo_total out = formatAmountWithSeparators (cb_totalBaseUnits c) SAC_DECIMALS default_opts"
    using created_by_api [OF assms(1)] assms(2) by metis
  obtain ps where ps: "payments db' = payments db @ ps" "list_all2 (drafted ctx ?inp (cb_id c)) (di_rows ?inp) ps"
    "ps \<noteq> []" "cb_paymentCount c = length ps" "cb_totalBaseUnits c = sum_list (map pm_amountBaseUnits ps)"
    using draft_created [OF c(1)] by blast
  have rows: "list_all (settleable_row ?opts) (di_rows ?inp)" "length (di_rows ?inp) \<le> MAX_ROWS"
    using kept_rows_ok unfolding draft_input_simps by blast+
  have fundable: "list_all (\<lambda>p. fundable_payment ?asset (funding_payment_of p)) ps"
    using ps(2) rows(1)
    by induction (auto intro: drafted_fundable [OF _ _ draft_input_simps(2)])
  have "concat (map (recheck_payment ?asset) ps) = []"
    using fundable fundable_rechecked by (auto simp: list_all_iff)
  then have "rv_valid (revalidateBatch cfg b ps) = (sa_contractId ?asset \<noteq> None)"
    by (simp add: revalidateBatch_def Let_def)
  moreover have "length ps \<le> MAX_FUNDABLE_PAYMENTS"
    using rows(2) list_all2_lengthD [OF ps(2)] by (simp add: MAX_ROWS_def MAX_FUNDABLE_PAYMENTS_def)
  moreover have "fs_blockers (assessFundingEligibility inp) = circumstances inp"
    if "ei_payments inp = map funding_payment_of ps" "ei_asset inp = ?asset" for inp
    by (rule fundable_payments_assessed)
      (use that fundable ps(3) calculation(2) in \<open>simp_all add: list.pred_map comp_def Suc_le_eq\<close>)
  ultimately show ?thesis
    using ps c(2,3) fundable parse_shown by (intro exI [of _ ps]) (auto simp: Suc_le_eq)
qed

lemma accepted_file_is_fundable_witness:
  "\<exists>out db'. createBatch (\<lambda>s. s) sample_draft_env sample_config sample_draft_ctx (sample_request sample_file) empty_db
      = (Inr out, db') \<and> bo_paymentCount out = length (payments db') \<and>
    rv_valid (revalidateBatch sample_config sample_shown (payments db'))"
proof -
  obtain out db' where r: "createBatch (\<lambda>s. s) sample_draft_env sample_config sample_draft_ctx (sample_request sample_file) empty_db
      = (Inr out, db')" "bo_created out"
    using sample_request_created by blast
  from accepted_file_is_fundable [OF r, of sample_shown] show ?thesis
    using r(1) by (auto simp: empty_db_def sample_settlement)
qed

text \<open>
  Nothing is written unless a batch is created: a file with an issue, a refused reference or key, a
  failure of the client and a replay leave the database as it was.
\<close>

theorem uncreated_batch_writes_nothing:
  assumes "createBatch sha be cfg ctx rq db = (r, db')" "\<nexists>out. r = Inr out \<and> bo_created out"
  shows "db' = db"
proof -
  obtain report parsed asset where v: "validateCsv cfg (cr_csv rq) (cr_rejectDuplicateRecipients rq) = (report, parsed, asset)"
    using prod_cases3 by blast
  obtain a db1 where d: "createDraftBatch be ctx (draft_input_of sha cfg rq) db = (a, db1)" by force
  show ?thesis
  proof (cases "vr_valid report")
    case False
    then show ?thesis using assms(1) v by (simp add: createBatch_def)
  next
    case True
    then have "db' = db1" "\<nexists>b. a = Inr (Draft_ok True b)"
      using assms v d by (auto simp: createBatch_def Let_def split: sum.splits draft_result.splits)
    then show ?thesis using createDraftBatch_keeps [OF d] by simp
  qed
qed

lemma uncreated_batch_writes_nothing_witness:
  "snd (createBatch (\<lambda>s. s) sample_draft_env sample_config sample_draft_ctx (sample_request []) empty_db) = empty_db"
proof -
  have "cp_rows (parsePayrollCsv [] opts) = []" for opts
    by (simp add: parsePayrollCsv_def utf8_length_def parseCsvText_def csv_failure_def new_reader_def)
  then have "\<exists>f. fst (createBatch (\<lambda>s. s) sample_draft_env sample_config sample_draft_ctx (sample_request []) empty_db) = Inl f"
    by (simp add: createBatch_def split_beta validateCsv_simps sample_request_def)
  then show ?thesis
    using uncreated_batch_writes_nothing [of "\<lambda>s. s" sample_draft_env sample_config sample_draft_ctx "sample_request []" empty_db]
    by (metis Inl_Inr_False prod.collapse)
qed

text \<open>
  What a batch approval writes: exactly the caller's own approvals, in his organization, of the payments
  it reports as recorded, one for each; every candidate is reported once, in order, as recorded, decided
  before or failed; and no payment changes.
\<close>

theorem batch_approval_accounts:
  assumes "approveBatch e ctx i ps opts db = (Inr out, db')"
  shows "\<exists>made. approvals db' = approvals db @ made \<and> payments db' = payments db \<and>
    map al_paymentId (bv_results out) = map fst (approval_candidates opts ps) \<and>
    map ap_paymentId made = map al_paymentId (filter al_recorded (bv_results out)) \<and>
    length made = bv_recorded out \<and>
    bv_recorded out + bv_alreadyRecorded out + bv_failed out = length (bv_results out) \<and>
    list_all (\<lambda>a. ap_decision a = APPROVED \<and> ap_actorAddress a = tc_walletAddress ctx \<and> ap_orgId a = tc_orgId ctx) made"
proof -
  obtain l where l: "bv_recorded out = lp_recorded l" "bv_alreadyRecorded out = lp_alreadyRecorded l"
    "bv_failed out = lp_failed l" "bv_results out = lp_results l"
    "loop_did ctx (map fst (approval_candidates opts ps))
       (db, \<lparr>lp_recorded = 0, lp_alreadyRecorded = 0, lp_failed = 0, lp_results = [], lp_role = None\<rparr>) (db', l)"
    using approveBatch_Inr [OF assms] by metis
  have split: "length (filter al_recorded xs) + length (filter (\<lambda>x. al_ok x \<and> \<not> al_recorded x) xs)
      + length (filter (\<lambda>x. \<not> al_ok x) xs) = length xs" if "list_all (\<lambda>x. al_recorded x \<longrightarrow> al_ok x) xs" for xs
    using that by (induction xs) auto
  obtain made where m: "approvals db' = approvals db @ made" "payments db' = payments db"
    "map al_paymentId (lp_results l) = map fst (approval_candidates opts ps)"
    "map ap_paymentId made = map al_paymentId (filter al_recorded (lp_results l))"
    "lp_recorded l = length (filter al_recorded (lp_results l))"
    "lp_failed l = length (filter (\<lambda>x. \<not> al_ok x) (lp_results l))"
    "lp_alreadyRecorded l = length (filter (\<lambda>x. al_ok x \<and> \<not> al_recorded x) (lp_results l))"
    "list_all (\<lambda>x. al_recorded x \<longrightarrow> al_ok x) (lp_results l)"
    "list_all (\<lambda>a. ap_decision a = APPROVED \<and> ap_actorAddress a = tc_walletAddress ctx \<and> ap_orgId a = tc_orgId ctx) made"
    using l(5) by (auto simp: loop_did_def)
  have "length made = lp_recorded l" using m(4,5) by (metis length_map)
  then show ?thesis using m l(1-4) split [OF m(8)] by (intro exI [of _ made]) simp
qed

lemma batch_approval_accounts_witness:
  "\<exists>out db'. approveBatch sample_clock (sample_approver MANAGER) ''b1'' [(''p1'', DRAFT), (''p9'', AWAITING_MANAGER)]
      \<lparr>ao_paymentIds = None, ao_reason = None, ao_idempotencyKey = None\<rparr> sample_approval_db = (Inr out, db') \<and>
    bv_recorded out = 1 \<and> bv_failed out = 1 \<and> length (approvals db') = 1"
proof -
  let ?opts = "\<lparr>ao_paymentIds = None, ao_reason = None, ao_idempotencyKey = None\<rparr>"
  obtain r db' where r: "approveBatch sample_clock (sample_approver MANAGER) ''b1'' [(''p1'', DRAFT), (''p9'', AWAITING_MANAGER)]
      ?opts sample_approval_db = (r, db')" by force
  have "fst (approveBatch sample_clock (sample_approver MANAGER) ''b1'' [(''p1'', DRAFT), (''p9'', AWAITING_MANAGER)]
      ?opts sample_approval_db) = r" using r by simp
  then obtain out where out: "r = Inr out" "bv_recorded out = 1" "bv_failed out = 1"
    by (auto simp: approveBatch_def approval_candidates_def APPROVABLE_STATES_def approve_step_def Let_def
        sample_approval_defs approvePayment_def approvalRole_def find_approval_def recordAuditEvent_def
        findPaymentForMember_def findPayment_def scoped_def findFirst_def approval_context_def body_def)
  show ?thesis
    using batch_approval_accounts [OF r [unfolded out(1)]] out r by (auto simp: sample_approval_defs)
qed

lemma decided_before:
  assumes "list_all (\<lambda>(i, s). \<exists>p a. findPayment db ctx i = Inr p \<and>
      find_approval db (pm_id p) (approvalRole (tc_role ctx) (pm_state p)) = Some a) cs"
    and "tc_role ctx \<in> {MANAGER, FINANCE, OWNER, ADMIN}"
  shows "\<exists>l'. foldl (approve_step e ctx opts) (db, l) cs = (db, l') \<and> lp_recorded l' = lp_recorded l \<and>
    lp_failed l' = lp_failed l"
  using assms(1)
proof (induction cs arbitrary: l)
  case (Cons c cs)
  obtain i s where c: "c = (i, s)" by force
  obtain p a where p: "findPayment db ctx i = Inr p"
    "find_approval db (pm_id p) (approvalRole (tc_role ctx) (pm_state p)) = Some a"
    using Cons.prems c by auto
  have "approvePayment e db (approval_context ctx opts i)
      = (db, Inr (200, (body None (pm_state p) False)\<lparr>bd_decision := Some (ap_decision a)\<rparr>))"
    using p assms(2) by (auto simp: approvePayment_def approval_context_def findPaymentForMember_def Let_def)
  then have "\<exists>l1. approve_step e ctx opts (db, l) c = (db, l1) \<and> lp_recorded l1 = lp_recorded l \<and> lp_failed l1 = lp_failed l"
    by (simp add: approve_step_def c body_def)
  then obtain l1 where "approve_step e ctx opts (db, l) c = (db, l1)" "lp_recorded l1 = lp_recorded l" "lp_failed l1 = lp_failed l"
    by blast
  then show ?case using Cons.IH [of l1] Cons.prems by auto
qed simp

text \<open>
  A batch is reported as completely approved when it was rejected: when the caller's half has a decision
  on every candidate, and every one of them is a rejection, the answer says that his half is complete,
  and nothing is recorded.
\<close>

theorem rejected_reported_complete:
  assumes "tc_role ctx = MANAGER" "ao_paymentIds opts = None" "approval_candidates opts ps \<noteq> []"
    and "list_all (\<lambda>(i, s). \<exists>p a. findPayment db ctx i = Inr p \<and> find_approval db (pm_id p) MANAGER = Some a \<and>
      ap_decision a = DECISION_REJECTED) (approval_candidates opts ps)"
  shows "\<exists>out. approveBatch e ctx i ps opts db = (Inr out, db) \<and> bv_completeForRole out \<and> bv_recorded out = 0"
proof -
  have "list_all (\<lambda>(i, s). \<exists>p a. findPayment db ctx i = Inr p \<and>
      find_approval db (pm_id p) (approvalRole (tc_role ctx) (pm_state p)) = Some a) (approval_candidates opts ps)"
    using assms(4) by (rule list.pred_mono_strong) (auto simp: assms(1) approvalRole_def)
  from decided_before [OF this, of e opts "\<lparr>lp_recorded = 0, lp_alreadyRecorded = 0, lp_failed = 0, lp_results = [], lp_role = None\<rparr>"]
  show ?thesis using assms(1-3) by (auto simp: approveBatch_def Let_def)
qed

lemma rejected_reported_complete_witness:
  "\<exists>out. approveBatch sample_clock (sample_approver MANAGER) ''b1'' [(''p1'', DRAFT)]
      \<lparr>ao_paymentIds = None, ao_reason = None, ao_idempotencyKey = None\<rparr> sample_rejected_db = (Inr out, sample_rejected_db) \<and>
    bv_completeForRole out"
proof -
  let ?opts = "\<lparr>ao_paymentIds = None, ao_reason = None, ao_idempotencyKey = None\<rparr>"
  have c: "approval_candidates ?opts [(''p1'', DRAFT)] = [(''p1'', DRAFT)]"
    by (simp add: approval_candidates_def APPROVABLE_STATES_def)
  have "\<exists>out. approveBatch sample_clock (sample_approver MANAGER) ''b1'' [(''p1'', DRAFT)] ?opts sample_rejected_db
      = (Inr out, sample_rejected_db) \<and> bv_completeForRole out \<and> bv_recorded out = 0"
    by (rule rejected_reported_complete)
      (simp_all add: c findPayment_def scoped_def find_approval_def findFirst_def sample_rejected_db_def sample_approval_defs)
  then show ?thesis by blast
qed

text \<open>
  What the detail view shows is exact: the total, the paid total, and every payment's amount and rate
  read back as the numbers they show, the total is the sum over the payments, and a transaction is only
  shown of a payment whose state can have one.
\<close>

theorem view_shows_exact_money:
  assumes "list_all (\<lambda>p. pm_assetDecimals p = SAC_DECIMALS) ps"
  shows "parseAmount (bw_total (presentBatch b ps aps)) SAC_DECIMALS = Inr (sum_list (map pm_amountBaseUnits ps)) \<and>
    parseAmount (bw_paid (presentBatch b ps aps)) SAC_DECIMALS
      = Inr (sum_list (map pm_amountBaseUnits (filter (\<lambda>p. pm_state p = PAID) ps))) \<and>
    bw_needsAttention (presentBatch b ps aps) = length (filter pv_needsAttention (bw_payments (presentBatch b ps aps))) \<and>
    list_all2 (\<lambda>p v. parseAmount (pv_amount v) SAC_DECIMALS = Inr (pm_amountBaseUnits p) \<and>
        parseAmount (pv_rate v) SAC_DECIMALS = Inr (pm_rateBaseUnits p) \<and>
        (mayHaveTransaction (describeState (pm_state p)) \<or> pv_transactionHash v = None))
      ps (bw_payments (presentBatch b ps aps))"
proof -
  have d: "(case ps of [] \<Rightarrow> SAC_DECIMALS | p # _ \<Rightarrow> pm_assetDecimals p) = SAC_DECIMALS"
    using assms by (cases ps) auto
  note r = rollupBatch_exact [of "map (\<lambda>p. (pm_state p, pm_amountBaseUnits p)) ps"]
  have "bw_needsAttention (presentBatch b ps aps) = length (filter pv_needsAttention (bw_payments (presentBatch b ps aps)))"
    using r by (simp add: presentBatch_def present_payment_def Let_def comp_def filter_map)
  moreover have "list_all2 (\<lambda>p v. parseAmount (pv_amount v) SAC_DECIMALS = Inr (pm_amountBaseUnits p) \<and>
        parseAmount (pv_rate v) SAC_DECIMALS = Inr (pm_rateBaseUnits p) \<and>
        (mayHaveTransaction (describeState (pm_state p)) \<or> pv_transactionHash v = None))
      ps (bw_payments (presentBatch b ps aps))"
    using assms by (auto simp: presentBatch_def present_payment_def Let_def list_all2_map2 list_all_iff parse_shown
        intro!: list_all2_same [THEN iffD2])
  ultimately show ?thesis
    using r d by (simp add: presentBatch_def Let_def parse_shown comp_def filter_map)
qed

lemma view_shows_exact_money_witness:
  "parseAmount (bw_total (presentBatch sample_shown (payments sample_approval_db) [])) SAC_DECIMALS = Inr 100"
  using view_shows_exact_money [of "payments sample_approval_db" sample_shown "[]"] by (simp add: sample_approval_defs)

end
