(* ===== verification/Members.thy ===== *)
theory Members
  imports Membership
begin

text \<open>
  The two routes that change a member, \<open>src/app/api/organizations/[id]/members/[memberId]/route.ts\<close>, each
  as its checks on the database and its transaction, so that requests interleave in between. The column
  \<open>removedAt\<close> is written and never read; it is left out.
\<close>

section \<open>The request\<close>

definition membership_status_name :: "membership_status \<Rightarrow> string" where
  "membership_status_name s = (case s of
     INVITED \<Rightarrow> ''INVITED'' | ACTIVE \<Rightarrow> ''ACTIVE'' | SUSPENDED \<Rightarrow> ''SUSPENDED'' | REMOVED \<Rightarrow> ''REMOVED'')"

text \<open>\<open>Object.values(OrgRole).includes(wantsRole)\<close>, and the role it names.\<close>

definition role_named :: "string \<Rightarrow> org_role option" where
  "role_named s = List.find (\<lambda>r. org_role_name r = s) [OWNER, ADMIN, MANAGER, FINANCE, WORKER, VIEWER]"

definition status_named :: "string \<Rightarrow> membership_status option" where
  "status_named s = List.find (\<lambda>t. membership_status_name t = s) [INVITED, ACTIVE, SUSPENDED, REMOVED]"

record member_patch =
  mp_role :: "string option"
  mp_status :: "string option"

definition loadMember :: "database \<Rightarrow> row_id \<Rightarrow> row_id \<Rightarrow> member_row option" where
  "loadMember db orgId memberId = findFirst (\<lambda>m. mb_id m = memberId \<and> mb_orgId m = orgId) (members db)"

definition requiresAdminCover :: "membership_status \<Rightarrow> bool" where
  "requiresAdminCover s \<longleftrightarrow> s = SUSPENDED \<or> s = REMOVED"

section \<open>The checks\<close>

definition check_new_role :: "database \<Rightarrow> tenant_context \<Rightarrow> member_row \<Rightarrow> string option \<Rightarrow> org_role option result" where
  "check_new_role db ctx m wantsRole =
     (if \<not> truthy wantsRole then Inr None
      else case role_named (the wantsRole) of
        None \<Rightarrow> Inl (deny 400 None)
      | Some r \<Rightarrow>
          (case checkRoleAssignment ctx r of
             Some d \<Rightarrow> Inl d
           | None \<Rightarrow>
               if mb_role m = r then Inr (Some r)
               else case checkNotLastAdministrator db (tc_orgId ctx) m of
                 None \<Rightarrow> Inr (Some r)
               | Some d \<Rightarrow> if r \<in> {OWNER, ADMIN} then Inr (Some r) else Inl d))"

definition check_new_status ::
  "database \<Rightarrow> tenant_context \<Rightarrow> member_row \<Rightarrow> string option \<Rightarrow> membership_status option result" where
  "check_new_status db ctx m wantsStatus =
     (if \<not> truthy wantsStatus then Inr None
      else case status_named (the wantsStatus) of
        None \<Rightarrow> Inl (deny 400 None)
      | Some s \<Rightarrow>
          if \<not> canTransitionMembership (mb_status m) s
          then Inl (deny 409 (Some ''INVALID_MEMBERSHIP_TRANSITION''))
          else case (if requiresAdminCover s then checkNotLastAdministrator db (tc_orgId ctx) m else None) of
            Some d \<Rightarrow> Inl d
          | None \<Rightarrow>
              if can (tc_role ctx) (if s = REMOVED then Member_remove else Member_suspend)
              then Inr (Some s) else Inl (deny 403 (Some ''PERMISSION_DENIED'')))"

text \<open>What a request changes: the row as it was read, the new role and the new status.\<close>

record member_change =
  mc_member :: member_row
  mc_role :: "org_role option"
  mc_status :: "membership_status option"

definition patch_check ::
  "database \<Rightarrow> tenant_context \<Rightarrow> row_id \<Rightarrow> row_id \<Rightarrow> member_patch \<Rightarrow> member_change result" where
  "patch_check db ctx orgId memberId patch =
     (if tc_orgId ctx \<noteq> orgId then Inl (deny 404 None)
      else case loadMember db (tc_orgId ctx) memberId of
        None \<Rightarrow> Inl (deny 404 None)
      | Some m \<Rightarrow>
          (case checkNotSelf ctx (mb_userId m) of
             Some d \<Rightarrow> Inl d
           | None \<Rightarrow>
               if \<not> truthy (mp_role patch) \<and> \<not> truthy (mp_status patch) then Inl (deny 400 None)
               else case check_new_role db ctx m (mp_role patch) of
                 Inl d \<Rightarrow> Inl d
               | Inr r \<Rightarrow>
                   (case check_new_status db ctx m (mp_status patch) of
                      Inl d \<Rightarrow> Inl d
                    | Inr s \<Rightarrow> Inr \<lparr>mc_member = m, mc_role = r, mc_status = s\<rparr>)))"

definition remove_check :: "database \<Rightarrow> tenant_context \<Rightarrow> row_id \<Rightarrow> row_id \<Rightarrow> member_change result" where
  "remove_check db ctx orgId memberId =
     (if tc_orgId ctx \<noteq> orgId then Inl (deny 404 None)
      else case loadMember db (tc_orgId ctx) memberId of
        None \<Rightarrow> Inl (deny 404 None)
      | Some m \<Rightarrow>
          (case checkNotSelf ctx (mb_userId m) of
             Some d \<Rightarrow> Inl d
           | None \<Rightarrow>
               (case checkNotLastAdministrator db (tc_orgId ctx) m of
                  Some d \<Rightarrow> Inl d
                | None \<Rightarrow>
                    if canTransitionMembership (mb_status m) REMOVED
                    then Inr \<lparr>mc_member = m, mc_role = None, mc_status = Some REMOVED\<rparr>
                    else Inl (deny 409 (Some ''INVALID_MEMBERSHIP_TRANSITION'')))))"

section \<open>The transactions\<close>

definition changed_row :: "env \<Rightarrow> member_change \<Rightarrow> member_row \<Rightarrow> member_row" where
  "changed_row e c q =
     (let q = (case mc_role c of None \<Rightarrow> q | Some r \<Rightarrow> q\<lparr>mb_role := r\<rparr>) in
      case mc_status c of
        None \<Rightarrow> q
      | Some s \<Rightarrow>
          (let q = q\<lparr>mb_status := s\<rparr> in
           if s = ACTIVE then q\<lparr>mb_activatedAt := Some (now e), mb_suspendedAt := None\<rparr>
           else if s = SUSPENDED then q\<lparr>mb_suspendedAt := Some (now e)\<rparr> else q))"

definition update_member :: "env \<Rightarrow> member_change \<Rightarrow> database \<Rightarrow> database" where
  "update_member e c db =
     db\<lparr>members := updated (\<lambda>q. mb_id q = mb_id (mc_member c)) (changed_row e c) (members db)\<rparr>"

definition lower_ascii :: "string \<Rightarrow> string" where
  "lower_ascii s = map (\<lambda>c. if 65 \<le> code_unit c \<and> code_unit c \<le> 90 then char_of (code_unit c + 32 :: nat) else c) s"

definition patch_commit :: "env \<Rightarrow> tenant_context \<Rightarrow> member_change \<Rightarrow> database \<Rightarrow> database" where
  "patch_commit e ctx c db =
     (let m = mc_member c;
          audit = (\<lambda>type old new db. writeMembershipAudit e db (tc_orgId ctx) type (Some (tc_walletAddress ctx)) None
            (Some (mb_userId m)) (Some [(''from'', JStr old), (''to'', JStr new), (''memberId'', JStr (mb_id m))]));
          db1 = update_member e c db;
          db2 = (case mc_role c of
                   Some r \<Rightarrow> if r \<noteq> mb_role m
                     then audit ''member.role.changed'' (org_role_name (mb_role m)) (org_role_name r) db1 else db1
                 | None \<Rightarrow> db1)
      in case mc_status c of
           Some s \<Rightarrow> if s \<noteq> mb_status m
             then audit (''member.'' @ lower_ascii (membership_status_name s)) (membership_status_name (mb_status m))
                    (membership_status_name s) db2
             else db2
         | None \<Rightarrow> db2)"

definition remove_commit :: "env \<Rightarrow> tenant_context \<Rightarrow> member_change \<Rightarrow> database \<Rightarrow> database" where
  "remove_commit e ctx c db =
     writeMembershipAudit e (update_member e c db) (tc_orgId ctx) ''member.removed'' (Some (tc_walletAddress ctx)) None
       (Some (mb_userId (mc_member c)))
       (Some [(''role'', JStr (org_role_name (mb_role (mc_member c)))), (''memberId'', JStr (mb_id (mc_member c)))])"

section \<open>The routes\<close>

text \<open>A request of a user: which organization he names, how, and what he wants of which member.\<close>

datatype member_action = Patch member_patch | Remove

record change_request =
  mr_user :: "row_id option"
  mr_header :: "string option"
  mr_query :: "string option"
  mr_bodyOrg :: "string option"
  mr_orgId :: row_id
  mr_memberId :: row_id
  mr_action :: member_action

definition member_check :: "database \<Rightarrow> change_request \<Rightarrow> (tenant_context \<times> member_change) result" where
  "member_check db rq =
     (case mr_action rq of
        Patch patch \<Rightarrow>
          (case withTenant db (mr_user rq) (mr_header rq) (mr_query rq) (mr_bodyOrg rq) None of
             Inl d \<Rightarrow> Inl d
           | Inr ctx \<Rightarrow>
               (case patch_check db ctx (mr_orgId rq) (mr_memberId rq) patch of
                  Inl d \<Rightarrow> Inl d | Inr c \<Rightarrow> Inr (ctx, c)))
      | Remove \<Rightarrow>
          (case withTenant db (mr_user rq) (mr_header rq) (mr_query rq) None (Some Member_remove) of
             Inl d \<Rightarrow> Inl d
           | Inr ctx \<Rightarrow>
               (case remove_check db ctx (mr_orgId rq) (mr_memberId rq) of
                  Inl d \<Rightarrow> Inl d | Inr c \<Rightarrow> Inr (ctx, c))))"

definition member_commit :: "env \<Rightarrow> member_action \<Rightarrow> tenant_context \<Rightarrow> member_change \<Rightarrow> database \<Rightarrow> database" where
  "member_commit e a ctx c db =
     (case a of Patch _ \<Rightarrow> patch_commit e ctx c db | Remove \<Rightarrow> remove_commit e ctx c db)"

definition changeMember :: "env \<Rightarrow> database \<Rightarrow> change_request \<Rightarrow> database \<times> unit result" where
  "changeMember e db rq =
     (case member_check db rq of
        Inl d \<Rightarrow> (db, Inl d)
      | Inr (ctx, c) \<Rightarrow> (member_commit e (mr_action rq) ctx c db, Inr ()))"

text \<open>Requests in flight together: one that passed its checks waits for its transaction.\<close>

record member_world =
  mw_db :: database
  mw_checked :: "(member_action \<times> tenant_context \<times> member_change) list"

inductive member_step :: "env \<Rightarrow> member_world \<Rightarrow> member_world \<Rightarrow> bool" for e where
  passes: "member_check (mw_db w) rq = Inr (ctx, c) \<Longrightarrow>
    member_step e w (w\<lparr>mw_checked := mw_checked w @ [(mr_action rq, ctx, c)]\<rparr>)"
| commits: "mw_checked w = before @ (a, ctx, c) # after \<Longrightarrow>
    member_step e w \<lparr>mw_db = member_commit e a ctx c (mw_db w), mw_checked = before @ after\<rparr>"

inductive_cases member_stepE: "member_step e w w'"

section \<open>Lemmas\<close>

lemma member_commit_members [simp]:
  "members (member_commit e a ctx c db)
     = updated (\<lambda>q. mb_id q = mb_id (mc_member c)) (changed_row e c) (members db)"
  by (simp add: member_commit_def patch_commit_def remove_commit_def update_member_def Let_def
      split: member_action.split option.split)

lemma changed_row_keeps [simp]:
  "mb_id (changed_row e c q) = mb_id q" "mb_orgId (changed_row e c q) = mb_orgId q"
  "mb_userId (changed_row e c q) = mb_userId q"
  "mb_role (changed_row e c q) = (case mc_role c of None \<Rightarrow> mb_role q | Some r \<Rightarrow> r)"
  "mb_status (changed_row e c q) = (case mc_status c of None \<Rightarrow> mb_status q | Some s \<Rightarrow> s)"
  by (simp_all add: changed_row_def Let_def split: option.split)

lemma withTenant_member:
  assumes "withTenant db user header query bodyOrg permission = Inr ctx"
  obtains m where "m \<in> set (members db)" "mb_status m = ACTIVE" "user = Some (mb_userId m)"
    "tc_orgId ctx = mb_orgId m" "tc_userId ctx = mb_userId m" "tc_role ctx = mb_role m"
    "case permission of None \<Rightarrow> True | Some p \<Rightarrow> can (tc_role ctx) p"
proof -
  obtain org where "resolveTenant db user org = Inr ctx" "case permission of None \<Rightarrow> True | Some p \<Rightarrow> can (tc_role ctx) p"
    using assms by (auto simp: withTenant_def Let_def requirePermission_def split: option.splits sum.splits if_splits)
  then show thesis using that by (elim resolveTenant_Inr) blast
qed

lemma loadMember_Some:
  "loadMember db orgId i = Some m \<Longrightarrow> m \<in> set (members db) \<and> mb_id m = i \<and> mb_orgId m = orgId"
  by (auto simp: loadMember_def findFirst_def find_Some_iff)

text \<open>What a request that passed its checks is.\<close>

lemma member_checked:
  assumes "member_check db rq = Inr (ctx, c)"
  shows "\<exists>caller. caller \<in> set (members db) \<and> mb_status caller = ACTIVE \<and> mr_user rq = Some (mb_userId caller) \<and>
    tc_orgId ctx = mb_orgId caller \<and> tc_userId ctx = mb_userId caller \<and> tc_role ctx = mb_role caller \<and>
    mr_orgId rq = mb_orgId caller \<and>
    mc_member c \<in> set (members db) \<and> mb_id (mc_member c) = mr_memberId rq \<and>
    mb_orgId (mc_member c) = mb_orgId caller \<and> mb_userId (mc_member c) \<noteq> mb_userId caller \<and>
    (mc_role c \<noteq> None \<or> mc_status c \<noteq> None) \<and>
    (case mc_role c of None \<Rightarrow> True | Some r \<Rightarrow> canAssignRole (mb_role caller) r) \<and>
    (case mc_status c of None \<Rightarrow> True
     | Some s \<Rightarrow> canTransitionMembership (mb_status (mc_member c)) s \<and>
         can (mb_role caller) (if s = REMOVED then Member_remove else Member_suspend))"
proof (cases "mr_action rq")
  case (Patch patch)
  then obtain r s where *: "withTenant db (mr_user rq) (mr_header rq) (mr_query rq) (mr_bodyOrg rq) None = Inr ctx"
    "tc_orgId ctx = mr_orgId rq" "loadMember db (tc_orgId ctx) (mr_memberId rq) = Some (mc_member c)"
    "checkNotSelf ctx (mb_userId (mc_member c)) = None" "truthy (mp_role patch) \<or> truthy (mp_status patch)"
    "check_new_role db ctx (mc_member c) (mp_role patch) = Inr (mc_role c)"
    "check_new_status db ctx (mc_member c) (mp_status patch) = Inr (mc_status c)"
    using assms by (auto simp: member_check_def patch_check_def split: sum.splits option.splits if_splits)
  have r: "case mc_role c of None \<Rightarrow> \<not> truthy (mp_role patch) | Some r \<Rightarrow> canAssignRole (tc_role ctx) r"
    using *(6) by (cases "mc_role c")
      (auto simp: check_new_role_def checkRoleAssignment_def split: if_splits option.splits)
  have s: "case mc_status c of None \<Rightarrow> \<not> truthy (mp_status patch)
    | Some s \<Rightarrow> canTransitionMembership (mb_status (mc_member c)) s \<and>
        can (tc_role ctx) (if s = REMOVED then Member_remove else Member_suspend)"
    using *(7) by (cases "mc_status c") (auto simp: check_new_status_def split: if_splits option.splits)
  have some: "mc_role c \<noteq> None \<or> mc_status c \<noteq> None"
    using r s *(5) by (cases "mc_role c"; cases "mc_status c") auto
  obtain m where m: "m \<in> set (members db)" "mb_status m = ACTIVE" "mr_user rq = Some (mb_userId m)"
    "tc_orgId ctx = mb_orgId m" "tc_userId ctx = mb_userId m" "tc_role ctx = mb_role m"
    using *(1) by (rule withTenant_member)
  show ?thesis
    by (rule exI [of _ m]) (use m r s some loadMember_Some [OF *(3)] *(2,4) in
      \<open>auto simp: checkNotSelf_def split: if_splits option.splits\<close>)
next
  case Remove
  then have *: "withTenant db (mr_user rq) (mr_header rq) (mr_query rq) None (Some Member_remove) = Inr ctx"
    "tc_orgId ctx = mr_orgId rq" "loadMember db (tc_orgId ctx) (mr_memberId rq) = Some (mc_member c)"
    "checkNotSelf ctx (mb_userId (mc_member c)) = None" "mc_role c = None" "mc_status c = Some REMOVED"
    "canTransitionMembership (mb_status (mc_member c)) REMOVED"
    using assms by (auto simp: member_check_def remove_check_def split: sum.splits option.splits if_splits)
  show ?thesis
    using *(1) loadMember_Some [OF *(3)] *(2,4,5,6,7)
    by (elim withTenant_member) (auto simp: checkNotSelf_def split: if_splits)
qed

lemma manages_members:
  "canAssignRole a r \<Longrightarrow> isAdministrative a" "can a Member_remove \<Longrightarrow> isAdministrative a"
  "can a Member_suspend \<Longrightarrow> isAdministrative a"
  by (cases a; cases r; simp add: canAssignRole_def DELEGATABLE_def isAdministrative_iff)
    (cases a; simp add: can_def GRANTS_def isAdministrative_iff)+

lemma member_caller:
  assumes "member_check db rq = Inr (ctx, c)"
  obtains caller where "caller \<in> set (members db)" "mb_status caller = ACTIVE"
    "isAdministrative (mb_role caller)" "mr_user rq = Some (mb_userId caller)" "mr_orgId rq = mb_orgId caller"
    "mc_member c \<in> set (members db)" "mb_id (mc_member c) = mr_memberId rq"
    "mb_orgId (mc_member c) = mb_orgId caller" "mb_userId (mc_member c) \<noteq> mb_userId caller"
    "\<And>r. mc_role c = Some r \<Longrightarrow> canAssignRole (mb_role caller) r"
    "\<And>s. mc_status c = Some s \<Longrightarrow> canTransitionMembership (mb_status (mc_member c)) s"
proof -
  obtain caller where *: "caller \<in> set (members db)" "mb_status caller = ACTIVE"
    "mr_user rq = Some (mb_userId caller)" "mr_orgId rq = mb_orgId caller"
    "mc_member c \<in> set (members db)" "mb_id (mc_member c) = mr_memberId rq"
    "mb_orgId (mc_member c) = mb_orgId caller" "mb_userId (mc_member c) \<noteq> mb_userId caller"
    "mc_role c \<noteq> None \<or> mc_status c \<noteq> None"
    "case mc_role c of None \<Rightarrow> True | Some r \<Rightarrow> canAssignRole (mb_role caller) r"
    "case mc_status c of None \<Rightarrow> True
     | Some s \<Rightarrow> canTransitionMembership (mb_status (mc_member c)) s \<and>
         can (mb_role caller) (if s = REMOVED then Member_remove else Member_suspend)"
    using member_checked [OF assms] by blast
  have "isAdministrative (mb_role caller)"
    using *(9,10,11) by (auto split: option.splits if_splits intro: manages_members)
  with * show thesis by (intro that [of caller]) auto
qed

lemma update_keeps_administrators:
  assumes check: "member_check db rq = Inr (ctx, c)" and keys: "distinct (map mb_id (members db))"
    and some: "active_administrators db o' \<noteq> []"
  shows "active_administrators (member_commit e a ctx c db) o' \<noteq> []"
proof -
  obtain caller where *: "caller \<in> set (members db)" "mb_status caller = ACTIVE"
    "isAdministrative (mb_role caller)" "mc_member c \<in> set (members db)"
    "mb_orgId (mc_member c) = mb_orgId caller" "mb_userId (mc_member c) \<noteq> mb_userId caller"
    using check by (rule member_caller)
  have key: "q \<in> set (members db) \<Longrightarrow> q \<noteq> mc_member c \<Longrightarrow> mb_id q \<noteq> mb_id (mc_member c)" for q
    using keys *(4) by (auto simp: distinct_map inj_on_def)
  obtain x where x: "x \<in> set (members db)" "mb_orgId x = o'" "mb_status x = ACTIVE" "isAdministrative (mb_role x)"
    using some by (auto simp: active_administrators_def filter_empty_conv)
  define q where "q = (if x = mc_member c then caller else x)"
  have q: "q \<in> set (members db)" "q \<noteq> mc_member c" "mb_orgId q = o'" "mb_status q = ACTIVE"
      "isAdministrative (mb_role q)"
    using x * by (auto simp: q_def)
  show ?thesis
    using administrators_survive [OF q(1) key [OF q(1,2)] q(3,4,5), of "changed_row e c"]
    by (simp add: active_administrators_def)
qed

text \<open>No member of the organization is an owner and not removed.\<close>

definition ownerless :: "database \<Rightarrow> row_id \<Rightarrow> bool" where
  "ownerless db o' \<longleftrightarrow>
     (\<forall>q \<in> set (members db). mb_orgId q = o' \<longrightarrow> mb_role q = OWNER \<longrightarrow> mb_status q = REMOVED)"

text \<open>A checked change finds its row where it read it and does not make a live owner.\<close>

definition grants_no_owner :: "database \<Rightarrow> row_id \<Rightarrow> member_change \<Rightarrow> bool" where
  "grants_no_owner db o' c \<longleftrightarrow>
     (\<forall>q \<in> set (members db). mb_id q = mb_id (mc_member c) \<longrightarrow> mb_orgId q = o' \<longrightarrow>
        mc_role c \<noteq> Some OWNER \<and> (mb_role q = OWNER \<longrightarrow> mc_status c = None \<or> mc_status c = Some REMOVED))"

lemma only_owners_make_owners: "canAssignRole a OWNER \<Longrightarrow> a = OWNER"
  by (cases a) (simp_all add: canAssignRole_def DELEGATABLE_def)

lemma removed_stays: "\<not> canTransitionMembership REMOVED s"
  by (simp add: canTransitionMembership_def membershipTransitionsFrom_def)

lemma check_grants_no_owner:
  assumes check: "member_check db rq = Inr (ctx, c)" and keys: "distinct (map mb_id (members db))"
    and none: "ownerless db o'"
  shows "grants_no_owner db o' c"
  using check
proof (rule member_caller)
  fix caller
  assume *: "caller \<in> set (members db)" "mb_status caller = ACTIVE" "mc_member c \<in> set (members db)"
    "mb_orgId (mc_member c) = mb_orgId caller"
    "\<And>r. mc_role c = Some r \<Longrightarrow> canAssignRole (mb_role caller) r"
    "\<And>s. mc_status c = Some s \<Longrightarrow> canTransitionMembership (mb_status (mc_member c)) s"
  have row: "q = mc_member c" if "q \<in> set (members db)" "mb_id q = mb_id (mc_member c)" for q
    using keys *(3) that by (auto simp: distinct_map inj_on_def)
  have "mc_role c \<noteq> Some OWNER" if "mb_orgId caller = o'"
    using *(1,2) *(5)[of OWNER] none that only_owners_make_owners by (force simp: ownerless_def)
  moreover have "mc_status c = None" if "mb_orgId (mc_member c) = o'" "mb_role (mc_member c) = OWNER"
    using *(3) *(6) none that removed_stays by (cases "mc_status c") (auto simp: ownerless_def)
  ultimately show ?thesis
    unfolding grants_no_owner_def using row *(4) by (metis (no_types))
qed

lemma commit_keeps_ownerless:
  assumes "ownerless db o'" and "grants_no_owner db o' c"
  shows "ownerless (member_commit e a ctx c db) o'"
  unfolding ownerless_def
proof (intro ballI impI)
  fix r assume "r \<in> set (members (member_commit e a ctx c db))" "mb_orgId r = o'" "mb_role r = OWNER"
  then obtain q where q: "q \<in> set (members db)" "mb_orgId q = o'"
    "r = (if mb_id q = mb_id (mc_member c) then changed_row e c q else q)"
    by (auto simp: set_updated split: if_splits)
  show "mb_status r = REMOVED"
  proof (cases "mb_id q = mb_id (mc_member c)")
    case True
    then have "mc_role c \<noteq> Some OWNER" "mb_role q = OWNER \<longrightarrow> mc_status c = None \<or> mc_status c = Some REMOVED"
      using assms(2) q by (auto simp: grants_no_owner_def)
    with True q \<open>mb_role r = OWNER\<close> assms(1) show ?thesis
      by (auto simp: ownerless_def split: option.splits)
  qed (use q \<open>mb_role r = OWNER\<close> assms(1) in \<open>auto simp: ownerless_def\<close>)
qed

lemma commit_keeps_grants:
  assumes "grants_no_owner db o' c'" and "grants_no_owner db o' c"
  shows "grants_no_owner (member_commit e a ctx c db) o' c'"
  unfolding grants_no_owner_def
proof (intro ballI impI)
  fix r assume "r \<in> set (members (member_commit e a ctx c db))"
    and r: "mb_id r = mb_id (mc_member c')" "mb_orgId r = o'"
  then obtain q where q: "q \<in> set (members db)"
    "r = (if mb_id q = mb_id (mc_member c) then changed_row e c q else q)"
    by (auto simp: set_updated split: if_splits)
  have same: "mb_id q = mb_id r" "mb_orgId q = mb_orgId r" by (simp_all add: q(2))
  have c: "mc_role c \<noteq> Some OWNER" if "mb_id q = mb_id (mc_member c)"
    using that q(1) same r(2) assms(2) by (simp add: grants_no_owner_def)
  have "mb_role q = OWNER" if "mb_role r = OWNER"
    using that c by (auto simp: q(2) split: if_splits option.splits)
  then show "mc_role c' \<noteq> Some OWNER \<and>
      (mb_role r = OWNER \<longrightarrow> mc_status c' = None \<or> mc_status c' = Some REMOVED)"
    using assms(1) q(1) same r by (auto simp: grants_no_owner_def)
qed

definition owner_lost :: "row_id \<Rightarrow> member_world \<Rightarrow> bool" where
  "owner_lost o' w \<longleftrightarrow> distinct (map mb_id (members (mw_db w))) \<and> ownerless (mw_db w) o' \<and>
     list_all (\<lambda>(a, ctx, c). grants_no_owner (mw_db w) o' c) (mw_checked w)"

lemma owner_lost_step:
  assumes "member_step e w w'" and "owner_lost o' w"
  shows "owner_lost o' w'"
  using assms(1)
proof (rule member_stepE)
  fix rq ctx c
  assume "w' = w\<lparr>mw_checked := mw_checked w @ [(mr_action rq, ctx, c)]\<rparr>"
    "member_check (mw_db w) rq = Inr (ctx, c)"
  then show ?thesis using assms(2) by (auto simp: owner_lost_def intro: check_grants_no_owner)
next
  fix before a ctx c after
  assume w': "w' = \<lparr>mw_db = member_commit e a ctx c (mw_db w), mw_checked = before @ after\<rparr>"
    and w: "mw_checked w = before @ (a, ctx, c) # after"
  have c: "grants_no_owner (mw_db w) o' c" using assms(2) w by (auto simp: owner_lost_def)
  show ?thesis
    using assms(2) w c unfolding w' owner_lost_def
    by (auto simp: map_updated list_all_iff intro: commit_keeps_ownerless intro!: commit_keeps_grants) blast+
qed

section \<open>Properties\<close>

text \<open>
  Only an administrator changes a member, and never himself. When either route answers with success,
  the caller has an ACTIVE membership with an administrative role in the organization named in the path;
  the row changed is one of that organization and of another user; a role is granted only within the
  caller's delegation and a status reached only along the membership machine; and every row of the new
  table that is not the changed one stood in the old.
\<close>

theorem member_change_authority:
  assumes "changeMember e db rq = (db', Inr ())"
  shows "\<exists>caller m. caller \<in> set (members db) \<and> m \<in> set (members db) \<and>
    mr_user rq = Some (mb_userId caller) \<and> mb_status caller = ACTIVE \<and> isAdministrative (mb_role caller) \<and>
    mb_orgId caller = mr_orgId rq \<and> mb_orgId m = mr_orgId rq \<and> mb_id m = mr_memberId rq \<and>
    mb_userId m \<noteq> mb_userId caller \<and>
    (\<exists>f. members db' = updated (\<lambda>q. mb_id q = mr_memberId rq) f (members db) \<and>
      (mb_role (f m) = mb_role m \<or> canAssignRole (mb_role caller) (mb_role (f m))) \<and>
      (mb_status (f m) = mb_status m \<or> canTransitionMembership (mb_status m) (mb_status (f m))))"
proof -
  obtain ctx c where c: "member_check db rq = Inr (ctx, c)" "db' = member_commit e (mr_action rq) ctx c db"
    using assms by (auto simp: changeMember_def split: sum.splits)
  from c(1) show ?thesis
  proof (rule member_caller)
    fix caller
    assume *: "caller \<in> set (members db)" "mb_status caller = ACTIVE"
      "isAdministrative (mb_role caller)" "mr_user rq = Some (mb_userId caller)" "mr_orgId rq = mb_orgId caller"
      "mc_member c \<in> set (members db)" "mb_id (mc_member c) = mr_memberId rq"
      "mb_orgId (mc_member c) = mb_orgId caller" "mb_userId (mc_member c) \<noteq> mb_userId caller"
      "\<And>r. mc_role c = Some r \<Longrightarrow> canAssignRole (mb_role caller) r"
      "\<And>s. mc_status c = Some s \<Longrightarrow> canTransitionMembership (mb_status (mc_member c)) s"
    show ?thesis
      by (rule exI [of _ caller], rule exI [of _ "mc_member c"])
        (use * c(2) in \<open>auto split: option.splits intro!: exI [of _ "changed_row e c"]\<close>)
  qed
qed

text \<open>
  Requests answered one after another never leave an organization without an active administrator,
  whatever they ask for and whoever sends them: from a table of members with distinct keys in which the
  organization has one, it still has one after any sequence of role changes, suspensions and removals. The check for
  the last administrator is not needed for this: whoever acts is an active administrator, and nobody acts on
  himself.
\<close>

theorem administration_survives_requests:
  assumes "distinct (map mb_id (members db))" and "active_administrators db o' \<noteq> []"
  shows "active_administrators (foldl (\<lambda>d (e, rq). fst (changeMember e d rq)) db reqs) o' \<noteq> []"
  using assms
proof (induction reqs arbitrary: db)
  case (Cons r reqs)
  obtain e rq where [simp]: "r = (e, rq)" by (cases r)
  have "map mb_id (members (fst (changeMember e db rq))) = map mb_id (members db)"
    by (auto simp: changeMember_def map_updated split: sum.split prod.split)
  moreover have "active_administrators (fst (changeMember e db rq)) o' \<noteq> []"
    using Cons.prems by (auto simp: changeMember_def split: sum.split prod.split dest: update_keeps_administrators)
  ultimately show ?case using Cons.IH Cons.prems by simp
qed simp

definition sample_admin :: member_row where
  "sample_admin = sample_member\<lparr>mb_id := ''m2'', mb_userId := ''u2'', mb_role := ADMIN, mb_status := ACTIVE\<rparr>"

definition sample_owner :: member_row where
  "sample_owner = sample_member\<lparr>mb_role := OWNER, mb_status := ACTIVE\<rparr>"

definition sample_members :: database where
  "sample_members = empty_db\<lparr>members := [sample_owner, sample_admin]\<rparr>"

definition sample_removal :: "row_id \<Rightarrow> row_id \<Rightarrow> change_request" where
  "sample_removal user memberId = \<lparr>mr_user = Some user, mr_header = Some ''o1'', mr_query = None,
     mr_bodyOrg = None, mr_orgId = ''o1'', mr_memberId = memberId, mr_action = Remove\<rparr>"

definition sample_seat :: "member_row \<Rightarrow> tenant_context" where
  "sample_seat m = \<lparr>tc_orgId = ''o1'', tc_orgName = [], tc_orgSlug = [], tc_userId = mb_userId m,
     tc_walletAddress = [], tc_role = mb_role m\<rparr>"

lemma sample_removals:
  "member_check sample_members (sample_removal ''u2'' ''m1'')
     = Inr (sample_seat sample_admin, \<lparr>mc_member = sample_owner, mc_role = None, mc_status = Some REMOVED\<rparr>)"
  "member_check sample_members (sample_removal ''u1'' ''m2'')
     = Inr (sample_seat sample_owner, \<lparr>mc_member = sample_admin, mc_role = None, mc_status = Some REMOVED\<rparr>)"
  by (simp_all add: member_check_def sample_members_def sample_removal_def withTenant_def requestedOrgId_def
      resolveTenant_def find_member_def findFirst_def sample_owner_def sample_admin_def sample_member_def
      requirePermission_def can_def GRANTS_def remove_check_def loadMember_def checkNotSelf_def
      checkNotLastAdministrator_def isAdministrative_def ADMINISTRATIVE_ROLES_def
      canTransitionMembership_def membershipTransitionsFrom_def sample_seat_def empty_db_def Let_def)

theorem member_change_authority_witness:
  "\<exists>db' caller m. changeMember sample_env sample_members (sample_removal ''u2'' ''m1'') = (db', Inr ()) \<and>
     caller \<in> set (members sample_members) \<and> m \<in> set (members sample_members) \<and>
     isAdministrative (mb_role caller) \<and> mb_id m = ''m1'' \<and> mb_userId m \<noteq> mb_userId caller"
proof -
  obtain db' where *: "changeMember sample_env sample_members (sample_removal ''u2'' ''m1'') = (db', Inr ())"
    by (simp add: changeMember_def sample_removals)
  show ?thesis
    using member_change_authority [OF *] * by (auto simp: sample_removal_def)
qed

lemma sample_member_keys: "distinct (map mb_id (members sample_members))"
  "active_administrators sample_members ''o1'' = [sample_owner, sample_admin]"
  by (simp_all add: sample_members_def sample_owner_def sample_admin_def sample_member_def empty_db_def
      active_administrators_def isAdministrative_iff)

theorem administration_survives_requests_witness:
  "active_administrators (foldl (\<lambda>d (e, rq). fst (changeMember e d rq)) sample_members
     [(sample_env, sample_removal ''u2'' ''m1''), (sample_env, sample_removal ''u1'' ''m2'')]) ''o1'' \<noteq> []"
  by (rule administration_survives_requests) (simp_all add: sample_member_keys)

text \<open>
  Two administrators who remove each other at the same time leave the organization with none. Each
  request passes its check of the last administrator on a database in which the other is still active,
  and neither transaction looks again; once both have committed nobody can manage the organization.
\<close>

theorem mutual_removal_strands_organization:
  "\<exists>w w'. mw_checked w = [] \<and> distinct (map mb_id (members (mw_db w))) \<and>
     length (active_administrators (mw_db w) ''o1'') = 2 \<and> (member_step e)\<^sup>*\<^sup>* w w' \<and>
     mw_checked w' = [] \<and> active_administrators (mw_db w') ''o1'' = []"
proof -
  let ?c = "\<lambda>m. \<lparr>mc_member = m, mc_role = None, mc_status = Some REMOVED\<rparr>"
  let ?r1 = "(Remove, sample_seat sample_admin, ?c sample_owner)"
  let ?r2 = "(Remove, sample_seat sample_owner, ?c sample_admin)"
  let ?db1 = "member_commit e Remove (sample_seat sample_admin) (?c sample_owner) sample_members"
  let ?db2 = "member_commit e Remove (sample_seat sample_owner) (?c sample_admin) ?db1"
  have a: "mr_action (sample_removal u i) = Remove" for u i by (simp add: sample_removal_def)
  have s1: "member_step e \<lparr>mw_db = sample_members, mw_checked = []\<rparr> \<lparr>mw_db = sample_members, mw_checked = [?r1]\<rparr>"
    using passes [of "\<lparr>mw_db = sample_members, mw_checked = []\<rparr>"] sample_removals(1) a by fastforce
  have s2: "member_step e \<lparr>mw_db = sample_members, mw_checked = [?r1]\<rparr>
      \<lparr>mw_db = sample_members, mw_checked = [?r1, ?r2]\<rparr>"
    using passes [of "\<lparr>mw_db = sample_members, mw_checked = [?r1]\<rparr>"] sample_removals(2) a by fastforce
  have s3: "member_step e \<lparr>mw_db = sample_members, mw_checked = [?r1, ?r2]\<rparr> \<lparr>mw_db = ?db1, mw_checked = [?r2]\<rparr>"
    using commits [of "\<lparr>mw_db = sample_members, mw_checked = [?r1, ?r2]\<rparr>" "[]"] by simp
  have s4: "member_step e \<lparr>mw_db = ?db1, mw_checked = [?r2]\<rparr> \<lparr>mw_db = ?db2, mw_checked = []\<rparr>"
    using commits [of "\<lparr>mw_db = ?db1, mw_checked = [?r2]\<rparr>" "[]"] by simp
  have "active_administrators ?db2 ''o1'' = []"
    by (simp add: active_administrators_def updated_eq sample_members_def sample_owner_def sample_admin_def
        sample_member_def)
  moreover have "(member_step e)\<^sup>*\<^sup>* \<lparr>mw_db = sample_members, mw_checked = []\<rparr> \<lparr>mw_db = ?db2, mw_checked = []\<rparr>"
    using s1 s2 s3 s4 by (meson converse_rtranclp_into_rtranclp r_into_rtranclp)
  ultimately show ?thesis
    using sample_member_keys by (intro exI [of _ "\<lparr>mw_db = sample_members, mw_checked = []\<rparr>"]
      exI [of _ "\<lparr>mw_db = ?db2, mw_checked = []\<rparr>"]) simp
qed

text \<open>
  C36: By changing members, an organization that has lost its owners does not get one again. When no request is in
  flight and every owner among its members is removed, no sequence of requests to the two member routes (a change
  of role, a suspension, a reactivation, a removal), however their checks and their transactions interleave,
  gives it a member with the role \<open>OWNER\<close> who is not removed, although \<open>checkNotLastAdministrator\<close> let the
  last owner go as long as an \<open>ADMIN\<close> stayed. Invitations are not among these requests: one that an owner had sent
  to an owner, and that is accepted afterwards, makes one.
\<close>

theorem lost_owner_never_replaced:
  assumes "(member_step e)\<^sup>*\<^sup>* w w'" and "mw_checked w = []"
    and "distinct (map mb_id (members (mw_db w)))" and "ownerless (mw_db w) o'"
  shows "ownerless (mw_db w') o'"
proof -
  have "owner_lost o' w" using assms(2-4) by (simp add: owner_lost_def)
  with assms(1) have "owner_lost o' w'" by (induction rule: rtranclp_induct) (auto intro: owner_lost_step)
  then show ?thesis by (simp add: owner_lost_def)
qed

text \<open>
  An \<open>ADMIN\<close> can remove an \<open>OWNER\<close>. The delegation rules bound the role that is granted and nothing
  bounds the member it is taken from: the request of an active \<open>ADMIN\<close> to remove an active owner of his
  organization succeeds, and the owner's row reads \<open>REMOVED\<close> afterwards.
\<close>

theorem admin_removes_owner:
  assumes "withTenant db (mr_user rq) (mr_header rq) (mr_query rq) None (Some Member_remove) = Inr ctx"
    and "tc_role ctx = ADMIN" and "mr_orgId rq = tc_orgId ctx" and "mr_action rq = Remove"
    and "loadMember db (tc_orgId ctx) (mr_memberId rq) = Some m" and "mb_role m = OWNER"
    and "mb_status m = ACTIVE" and "mb_userId m \<noteq> tc_userId ctx" and "distinct (map mb_id (members db))"
  shows "\<exists>db' q. changeMember e db rq = (db', Inr ()) \<and> q \<in> set (members db') \<and> mb_id q = mb_id m \<and>
    mb_role q = OWNER \<and> mb_status q = REMOVED"
proof -
  obtain caller where caller: "caller \<in> set (members db)" "mb_status caller = ACTIVE"
    "tc_orgId ctx = mb_orgId caller" "tc_userId ctx = mb_userId caller" "tc_role ctx = mb_role caller"
    using assms(1) by (rule withTenant_member)
  have m: "m \<in> set (members db)" "mb_orgId m = tc_orgId ctx"
    using loadMember_Some [OF assms(5)] by simp_all
  have "mb_id caller \<noteq> mb_id m"
    using assms(8,9) caller(1,4) m(1) by (auto simp: distinct_map inj_on_def)
  then have "checkNotLastAdministrator db (tc_orgId ctx) m = None"
    using caller assms(2) by (auto simp: checkNotLastAdministrator_def Let_def filter_empty_conv ADMINISTRATIVE_ROLES_def)
  then have "member_check db rq = Inr (ctx, \<lparr>mc_member = m, mc_role = None, mc_status = Some REMOVED\<rparr>)"
    using assms by (auto simp: member_check_def remove_check_def checkNotSelf_def canTransitionMembership_def
        membershipTransitionsFrom_def)
  then show ?thesis
    using m assms(6) by (auto simp: changeMember_def set_updated intro!: bexI [of _ m]
        exI [of _ "changed_row e \<lparr>mc_member = m, mc_role = None, mc_status = Some REMOVED\<rparr> m"])
qed

theorem admin_removes_owner_witness:
  "\<exists>db' q. changeMember sample_env sample_members (sample_removal ''u2'' ''m1'') = (db', Inr ()) \<and>
     q \<in> set (members db') \<and> mb_id q = ''m1'' \<and> mb_role q = OWNER \<and> mb_status q = REMOVED"
proof -
  let ?rq = "sample_removal ''u2'' ''m1''"
  have ctx: "withTenant sample_members (mr_user ?rq) (mr_header ?rq) (mr_query ?rq) None (Some Member_remove)
      = Inr (sample_seat sample_admin)"
    using sample_removals(1) by (auto simp: member_check_def sample_removal_def split: sum.splits)
  have m: "loadMember sample_members ''o1'' ''m1'' = Some sample_owner"
    by (simp add: loadMember_def findFirst_def sample_members_def sample_owner_def sample_member_def empty_db_def)
  have f: "mr_action ?rq = Remove" "mr_orgId ?rq = ''o1''" "mr_memberId ?rq = ''m1''"
    "tc_orgId (sample_seat sample_admin) = ''o1''" "tc_role (sample_seat sample_admin) = ADMIN"
    "mb_userId sample_owner \<noteq> tc_userId (sample_seat sample_admin)" "mb_role sample_owner = OWNER"
    "mb_status sample_owner = ACTIVE" "mb_id sample_owner = ''m1''"
    by (simp_all add: sample_removal_def sample_seat_def sample_admin_def sample_owner_def sample_member_def)
  show ?thesis
    using admin_removes_owner [OF ctx, of sample_owner] m f sample_member_keys(1) by simp
qed

definition sample_viewer :: member_row where
  "sample_viewer = sample_admin\<lparr>mb_id := ''m3'', mb_userId := ''u3'', mb_role := VIEWER\<rparr>"

definition removed_owner :: database where
  "removed_owner = empty_db\<lparr>members := [sample_owner\<lparr>mb_status := REMOVED\<rparr>, sample_admin, sample_viewer]\<rparr>"

theorem lost_owner_never_replaced_witness:
  "\<exists>w w' w''. mw_db w = removed_owner \<and> member_step sample_env w w' \<and> member_step sample_env w' w'' \<and>
     mw_db w'' \<noteq> removed_owner \<and> ownerless (mw_db w'') ''o1''"
proof -
  let ?c = "\<lparr>mc_member = sample_viewer, mc_role = None, mc_status = Some REMOVED\<rparr>"
  let ?d = "(Remove, sample_seat sample_admin, ?c)"
  let ?w = "\<lparr>mw_db = removed_owner, mw_checked = []\<rparr>"
  let ?w1 = "\<lparr>mw_db = removed_owner, mw_checked = [?d]\<rparr>"
  let ?w2 = "\<lparr>mw_db = member_commit sample_env Remove (sample_seat sample_admin) ?c removed_owner, mw_checked = []\<rparr>"
  have check: "member_check removed_owner (sample_removal ''u2'' ''m3'') = Inr (sample_seat sample_admin, ?c)"
    by (simp add: member_check_def removed_owner_def sample_removal_def withTenant_def requestedOrgId_def
      resolveTenant_def find_member_def findFirst_def sample_owner_def sample_admin_def sample_viewer_def
      sample_member_def requirePermission_def can_def GRANTS_def remove_check_def loadMember_def checkNotSelf_def
      checkNotLastAdministrator_def isAdministrative_def ADMINISTRATIVE_ROLES_def
      canTransitionMembership_def membershipTransitionsFrom_def sample_seat_def empty_db_def Let_def)
  have s1: "member_step sample_env ?w ?w1"
    using passes [of ?w] check by (fastforce simp: sample_removal_def)
  have s2: "member_step sample_env ?w1 ?w2"
    using commits [of ?w1 "[]"] by simp
  have keys: "distinct (map mb_id (members removed_owner))" "ownerless removed_owner ''o1''"
    by (simp_all add: removed_owner_def ownerless_def sample_owner_def sample_admin_def sample_viewer_def
        sample_member_def empty_db_def)
  have "ownerless (mw_db ?w2) ''o1''"
    by (rule lost_owner_never_replaced [of sample_env ?w]) (use s1 s2 keys in auto)
  moreover have ne: "members (mw_db ?w2) \<noteq> members removed_owner"
    by (simp add: removed_owner_def updated_eq sample_owner_def sample_admin_def sample_viewer_def
        sample_member_def changed_row_def empty_db_def)
  have "mw_db ?w2 \<noteq> removed_owner"
  proof
    assume "mw_db ?w2 = removed_owner"
    then have "members (mw_db ?w2) = members removed_owner" by (rule arg_cong)
    with ne show False ..
  qed
  moreover have "mw_db ?w = removed_owner" by simp
  ultimately show ?thesis using s1 s2 by blast
qed

end
