(* ===== verification/Auth.thy ===== *)
theory Auth
  imports RateLimit JsonText Database
begin

text \<open>
  Signing in: \<open>src/lib/auth/index.ts\<close>, \<open>jwt.ts\<close>, \<open>middleware.ts\<close>, the routes under \<open>api/auth\<close>, the edge
  middleware \<open>src/middleware.ts\<close>, and the routes that grant the platform's role. The digest, the keys and
  the tokens come from libraries; they are the parameter \<open>auth_lib\<close>. A request for a login is a sequence
  of phases with one call of the database each, so that logins interleave.
\<close>

section \<open>The tables\<close>

text \<open>The platform's \<open>Role\<close>; \<open>ADMIN\<close> is also a role of an organization.\<close>

datatype platform_role = ADMIN' | EMPLOYEE

definition role_text :: "platform_role \<Rightarrow> string" where
  "role_text r = (case r of ADMIN' \<Rightarrow> ''ADMIN'' | EMPLOYEE \<Rightarrow> ''EMPLOYEE'')"

record account_row =
  ac_id :: row_id
  ac_walletAddress :: address
  ac_role :: platform_role

record challenge_row =
  ch_id :: row_id
  ch_walletAddress :: address
  ch_nonce :: string
  ch_expiresAt :: instant
  ch_used :: bool
  ch_createdAt :: instant

record session_row =
  se_userId :: row_id
  se_token :: string
  se_expiresAt :: instant

record audit_log_row =
  al_action :: string
  al_actor :: "string option"
  al_target :: "string option"
  al_metadata :: "string option"

record auth_state =
  ax_accounts :: "account_row list"
  ax_challenges :: "challenge_row list"
  ax_sessions :: "session_row list"
  ax_auditLog :: "audit_log_row list"
  ax_limiter :: limiter

section \<open>What the process is given\<close>

record jwt_claims =
  jc_userId :: row_id
  jc_walletAddress :: address
  jc_role :: string
  jc_iat :: int
  jc_exp :: int

record auth_lib =
  li_sign :: "string \<Rightarrow> jwt_claims \<Rightarrow> string"
  li_jwtVerify :: "string \<Rightarrow> instant \<Rightarrow> string \<Rightarrow> jwt_claims option"
  li_sha256 :: "string \<Rightarrow> string"
  li_base64 :: "string \<Rightarrow> string"
  li_keyVerify :: "address \<Rightarrow> string \<Rightarrow> string \<Rightarrow> bool option"   \<comment> \<open>\<open>None\<close> when it throws\<close>

record auth_env =
  av_now :: instant
  av_id :: row_id
  av_nonce :: string
  av_secret :: "string option"
  av_adminWallets :: "string option"
  av_adminWallet :: "string option"
  av_bootstrapSecret :: "string option"
  av_lib :: auth_lib

section \<open>Tokens\<close>

definition JWT_EXPIRY_SECONDS :: int where
  "JWT_EXPIRY_SECONDS = 60 * 60 * 24"

text \<open>\<open>None\<close> is the thrown error.\<close>

definition getSecret :: "auth_env \<Rightarrow> string option" where
  "getSecret e = (case av_secret e of
     None \<Rightarrow> None | Some s \<Rightarrow> if s = [] \<or> length s < 32 then None else Some s)"

text \<open>The clock of a token counts seconds.\<close>

definition claims_for :: "auth_env \<Rightarrow> account_row \<Rightarrow> jwt_claims" where
  "claims_for e u =
     \<lparr>jc_userId = ac_id u, jc_walletAddress = ac_walletAddress u, jc_role = role_text (ac_role u),
      jc_iat = av_now e div 1000, jc_exp = av_now e div 1000 + JWT_EXPIRY_SECONDS\<rparr>"

definition signJwt :: "auth_env \<Rightarrow> account_row \<Rightarrow> string option" where
  "signJwt e u = (case getSecret e of None \<Rightarrow> None | Some k \<Rightarrow> Some (li_sign (av_lib e) k (claims_for e u)))"

definition verifyJwt :: "auth_env \<Rightarrow> string \<Rightarrow> jwt_claims option" where
  "verifyJwt e token =
     (case getSecret e of None \<Rightarrow> None | Some k \<Rightarrow> li_jwtVerify (av_lib e) k (av_now e) token)"

section \<open>Challenges\<close>

definition SEP53_PREFIX :: string where
  "SEP53_PREFIX = ''Stellar Signed Message:'' @ [char_of (10 :: nat)]"

definition CHALLENGE_TTL_SECONDS :: int where
  "CHALLENGE_TTL_SECONDS = 60 * 5"

definition CHALLENGE_PREFIX :: string where
  "CHALLENGE_PREFIX = ''CoreFlow:auth''"

definition buildChallengeString :: "address \<Rightarrow> string \<Rightarrow> string" where
  "buildChallengeString walletAddress nonce = CHALLENGE_PREFIX @ '':'' @ walletAddress @ '':'' @ nonce"

text \<open>The newest of the wallet's challenges that is unused and has not expired.\<close>

definition active_challenge :: "instant \<Rightarrow> address \<Rightarrow> challenge_row list \<Rightarrow> challenge_row option" where
  "active_challenge t w rows =
     findFirst (\<lambda>_. True) (js_sort (\<lambda>a b. ch_createdAt b - ch_createdAt a)
       (filter (\<lambda>c. ch_walletAddress c = w \<and> \<not> ch_used c \<and> ch_expiresAt c > t) rows))"

text \<open>The insert has two unique keys, the primary key and the nonce; \<open>None\<close> is the thrown \<open>P2002\<close>.\<close>

definition insert_challenge :: "auth_env \<Rightarrow> address \<Rightarrow> challenge_row list \<Rightarrow> challenge_row list option" where
  "insert_challenge e w rows =
     (let c = \<lparr>ch_id = av_id e, ch_walletAddress = w, ch_nonce = av_nonce e,
               ch_expiresAt = av_now e + CHALLENGE_TTL_SECONDS * 1000, ch_used = False,
               ch_createdAt = av_now e\<rparr>
      in if av_id e \<in> ch_id ` set rows then None else createUnique ch_nonce c rows)"

definition createChallenge :: "auth_env \<Rightarrow> address \<Rightarrow> auth_state \<Rightarrow> auth_state \<times> string option" where
  "createChallenge e w s =
     (case active_challenge (av_now e) w (ax_challenges s) of
        Some c \<Rightarrow> (s, Some (buildChallengeString w (ch_nonce c)))
      | None \<Rightarrow>
          (case insert_challenge e w (ax_challenges s) of
             None \<Rightarrow> (s, None)
           | Some rows \<Rightarrow> (s\<lparr>ax_challenges := rows\<rparr>, Some (buildChallengeString w (av_nonce e)))))"

text \<open>The conditional update that takes a challenge.\<close>

definition take_challenge :: "row_id \<Rightarrow> auth_state \<Rightarrow> auth_state \<times> nat" where
  "take_challenge i s =
     (let (rows, n) = updateMany (\<lambda>c. ch_id c = i \<and> \<not> ch_used c) (\<lambda>c. c\<lparr>ch_used := True\<rparr>) (ax_challenges s)
      in (s\<lparr>ax_challenges := rows\<rparr>, n))"

text \<open>The check of the signature; an exception of the library is a refusal.\<close>

definition signature_valid :: "auth_lib \<Rightarrow> address \<Rightarrow> string \<Rightarrow> challenge_row \<Rightarrow> bool" where
  "signature_valid l w signature c =
     (case li_keyVerify l w (li_sha256 l (SEP53_PREFIX @ buildChallengeString w (ch_nonce c)))
        (li_base64 l signature) of
        Some b \<Rightarrow> b | None \<Rightarrow> False)"

definition verifyChallenge :: "auth_env \<Rightarrow> address \<Rightarrow> string \<Rightarrow> auth_state \<Rightarrow> auth_state \<times> bool" where
  "verifyChallenge e w signature s =
     (case active_challenge (av_now e) w (ax_challenges s) of
        None \<Rightarrow> (s, False)
      | Some c \<Rightarrow>
          (let (s, n) = take_challenge (ch_id c) s in
           if n = 0 then (s, False) else (s, signature_valid (av_lib e) w signature c)))"

section \<open>Accounts\<close>

fun split_commas :: "string \<Rightarrow> string list" where
  "split_commas [] = [[]]"
| "split_commas (c # cs) =
     (if c = CHR '','' then [] # split_commas cs
      else (case split_commas cs of [] \<Rightarrow> [[c]] | p # ps \<Rightarrow> (c # p) # ps))"

definition adminAllowlist :: "auth_env \<Rightarrow> string list" where
  "adminAllowlist e =
     (let text = (\<lambda>v. case v of None \<Rightarrow> [] | Some s \<Rightarrow> s);
          envWallets = text (av_adminWallets e) @ '','' @ text (av_adminWallet e)
      in filter (\<lambda>s. s \<noteq> []) (map js_trim (split_commas envWallets)))"

definition find_account :: "address \<Rightarrow> auth_state \<Rightarrow> account_row option" where
  "find_account w s = findFirst (\<lambda>u. ac_walletAddress u = w) (ax_accounts s)"

text \<open>\<open>user.upsert\<close> by wallet: what it creates, and the role it writes on an existing row, if any.\<close>

definition upsert_account ::
  "row_id \<Rightarrow> address \<Rightarrow> platform_role \<Rightarrow> platform_role option \<Rightarrow> auth_state \<Rightarrow> auth_state \<times> account_row" where
  "upsert_account i w fresh again s =
     (case find_account w s of
        Some u \<Rightarrow>
          (case again of
             None \<Rightarrow> (s, u)
           | Some r \<Rightarrow> (s\<lparr>ax_accounts := updated (\<lambda>q. ac_walletAddress q = w) (\<lambda>q. q\<lparr>ac_role := r\<rparr>) (ax_accounts s)\<rparr>,
                        u\<lparr>ac_role := r\<rparr>))
      | None \<Rightarrow>
          (let u = \<lparr>ac_id = i, ac_walletAddress = w, ac_role = fresh\<rparr>
           in (s\<lparr>ax_accounts := ax_accounts s @ [u]\<rparr>, u)))"

definition set_role :: "address \<Rightarrow> platform_role \<Rightarrow> auth_state \<Rightarrow> auth_state" where
  "set_role w r s =
     s\<lparr>ax_accounts := updated (\<lambda>q. ac_walletAddress q = w) (\<lambda>q. q\<lparr>ac_role := r\<rparr>) (ax_accounts s)\<rparr>"

definition login_upsert :: "auth_env \<Rightarrow> address \<Rightarrow> auth_state \<Rightarrow> auth_state \<times> account_row" where
  "login_upsert e w s =
     upsert_account (av_id e) w (if w \<in> set (adminAllowlist e) then ADMIN' else EMPLOYEE) None s"

definition promote :: "auth_env \<Rightarrow> account_row \<Rightarrow> auth_state \<Rightarrow> auth_state \<times> account_row" where
  "promote e u s =
     (if ac_walletAddress u \<in> set (adminAllowlist e) \<and> ac_role u \<noteq> ADMIN'
      then (set_role (ac_walletAddress u) ADMIN' s, u\<lparr>ac_role := ADMIN'\<rparr>) else (s, u))"

definition upsertUser :: "auth_env \<Rightarrow> address \<Rightarrow> auth_state \<Rightarrow> auth_state \<times> account_row" where
  "upsertUser e w s = (let (s, u) = login_upsert e w s in promote e u s)"

section \<open>Sessions\<close>

definition createSession :: "auth_env \<Rightarrow> account_row \<Rightarrow> auth_state \<Rightarrow> auth_state \<times> string option" where
  "createSession e u s =
     (case signJwt e u of
        None \<Rightarrow> (s, None)
      | Some token \<Rightarrow>
          (case createUnique se_token \<lparr>se_userId = ac_id u, se_token = token,
                  se_expiresAt = av_now e + JWT_EXPIRY_SECONDS * 1000\<rparr> (ax_sessions s) of
             None \<Rightarrow> (s, None)
           | Some rows \<Rightarrow> (s\<lparr>ax_sessions := rows\<rparr>, Some token)))"

text \<open>\<open>AuthPayload\<close>, with the role and the wallet of the database.\<close>

record auth_payload =
  ap_userId :: row_id
  ap_walletAddress :: address
  ap_role :: string

definition getSession :: "auth_env \<Rightarrow> auth_state \<Rightarrow> string option \<Rightarrow> auth_payload option" where
  "getSession e s token =
     (if \<not> truthy token then None
      else case verifyJwt e (the token) of
        None \<Rightarrow> None
      | Some payload \<Rightarrow>
          (case findFirst (\<lambda>r. se_token r = the token) (ax_sessions s) of
             None \<Rightarrow> None
           | Some row \<Rightarrow>
               if se_expiresAt row < av_now e then None
               else map_option
                 (\<lambda>u. \<lparr>ap_userId = jc_userId payload, ap_walletAddress = ac_walletAddress u,
                       ap_role = role_text (ac_role u)\<rparr>)
                 (findFirst (\<lambda>u. ac_id u = se_userId row) (ax_accounts s))))"

definition deleteSession :: "string \<Rightarrow> auth_state \<Rightarrow> auth_state" where
  "deleteSession token s = s\<lparr>ax_sessions := filter (\<lambda>r. se_token r \<noteq> token) (ax_sessions s)\<rparr>"

definition audit :: "string \<Rightarrow> string option \<Rightarrow> string option \<Rightarrow> json_object option \<Rightarrow> auth_state \<Rightarrow> auth_state" where
  "audit action actor target metadata s =
     s\<lparr>ax_auditLog := ax_auditLog s @
       [\<lparr>al_action = action, al_actor = actor, al_target = target,
         al_metadata = map_option (\<lambda>m. json_text (JObj m)) metadata\<rparr>]\<rparr>"

section \<open>Guards\<close>

definition isAdmin :: "auth_payload option \<Rightarrow> bool" where
  "isAdmin p \<longleftrightarrow> (case p of None \<Rightarrow> False | Some p \<Rightarrow> ap_role p = role_text ADMIN')"

definition isEmployee :: "auth_payload option \<Rightarrow> bool" where
  "isEmployee p \<longleftrightarrow> (case p of None \<Rightarrow> False
     | Some p \<Rightarrow> ap_role p = role_text EMPLOYEE \<or> ap_role p = role_text ADMIN')"

definition hasRole :: "auth_payload option \<Rightarrow> string list \<Rightarrow> bool" where
  "hasRole p allowed \<longleftrightarrow> (case p of None \<Rightarrow> False
     | Some p \<Rightarrow> if ap_role p = role_text ADMIN' then True else ap_role p \<in> set allowed)"

definition requireAdmin :: "auth_payload option \<Rightarrow> nat option" where
  "requireAdmin p = (if p = None then Some 401 else if \<not> isAdmin p then Some 403 else None)"

definition withAuthGuard :: "auth_payload option \<Rightarrow> nat + auth_payload" where
  "withAuthGuard p = (case p of None \<Rightarrow> Inl 401 | Some u \<Rightarrow> Inr u)"

definition withAdminGuard :: "auth_payload option \<Rightarrow> nat + auth_payload" where
  "withAdminGuard p = (case p of None \<Rightarrow> Inl 401 | Some u \<Rightarrow> if \<not> isAdmin p then Inl 403 else Inr u)"

definition withRoleGuard :: "auth_payload option \<Rightarrow> platform_role list \<Rightarrow> nat + auth_payload" where
  "withRoleGuard p allowedRoles =
     (case p of None \<Rightarrow> Inl 401
      | Some u \<Rightarrow>
          if ap_role u = role_text ADMIN' then Inr u
          else if ap_role u \<notin> set (map role_text allowedRoles) then Inl 403 else Inr u)"

section \<open>Requests\<close>

definition stellarAddress :: "string \<Rightarrow> bool" where
  "stellarAddress s \<longleftrightarrow>
     length s = 56 \<and> hd s \<in> {CHR ''G'', CHR ''C''} \<and>
     list_all (\<lambda>c. let n = code_unit c in 65 \<le> n \<and> n \<le> (90 :: nat) \<or> 50 \<le> n \<and> n \<le> 55) (tl s)"

definition body_text :: "json \<Rightarrow> string \<Rightarrow> string option" where
  "body_text b k =
     (case b of JObj ms \<Rightarrow> (case map_of ms k of Some (JStr v) \<Rightarrow> Some v | _ \<Rightarrow> None) | _ \<Rightarrow> None)"

definition challengeSchema :: "json \<Rightarrow> address option" where
  "challengeSchema b =
     (case body_text b ''walletAddress'' of
        Some w \<Rightarrow> if stellarAddress w then Some w else None | None \<Rightarrow> None)"

definition verifySchema :: "json \<Rightarrow> (address \<times> string) option" where
  "verifySchema b =
     (case (challengeSchema b, body_text b ''signature'') of
        (Some w, Some sig) \<Rightarrow> if sig = [] then None else Some (w, sig) | _ \<Rightarrow> None)"

definition platform_role_named :: "string \<Rightarrow> platform_role option" where
  "platform_role_named s = List.find (\<lambda>r. role_text r = s) [ADMIN', EMPLOYEE]"

definition updateRoleSchema :: "json \<Rightarrow> platform_role option" where
  "updateRoleSchema b = (case body_text b ''role'' of None \<Rightarrow> None | Some s \<Rightarrow> platform_role_named s)"

definition roleGrantSchema :: "json \<Rightarrow> (address \<times> platform_role) option" where
  "roleGrantSchema b =
     (case (challengeSchema b, updateRoleSchema b) of (Some w, Some r) \<Rightarrow> Some (w, r) | _ \<Rightarrow> None)"

text \<open>The headers \<open>x-forwarded-for\<close>, \<open>x-real-ip\<close> and the cookie of a request.\<close>

record web_request =
  wr_forwarded :: "string option"
  wr_realIp :: "string option"
  wr_cookie :: "string option"
  wr_body :: json

definition throttle :: "auth_env \<Rightarrow> string \<Rightarrow> int \<Rightarrow> int \<Rightarrow> auth_state \<Rightarrow> auth_state \<times> limit_result" where
  "throttle e key limit window s =
     (let (l, r) = rateLimit (av_now e) (av_now e) key limit window (ax_limiter s) in (s\<lparr>ax_limiter := l\<rparr>, r))"

definition challenge_POST :: "auth_env \<Rightarrow> web_request \<Rightarrow> auth_state \<Rightarrow> auth_state \<times> (nat + string)" where
  "challenge_POST e rq s =
     (let (s, rl) = throttle e (''challenge:'' @ clientIp (wr_forwarded rq) (wr_realIp rq)) 20 60000 s in
      if \<not> lr_ok rl then (s, Inl 429)
      else case challengeSchema (wr_body rq) of
        None \<Rightarrow> (s, Inl 400)
      | Some w \<Rightarrow>
          (case createChallenge e w s of
             (s, None) \<Rightarrow> (s, Inl 500)
           | (s, Some challenge) \<Rightarrow> (s, Inr challenge)))"

section \<open>A login, call by call\<close>

datatype login_reply =
    Login_refused nat
  | Logged_in challenge_row account_row string

datatype login_phase =
    Arrived address string
  | Found address string challenge_row
  | Claimed address string challenge_row
  | Verified address challenge_row
  | Upserted account_row challenge_row
  | Named account_row challenge_row
  | Answered login_reply

definition login_advance :: "auth_env \<Rightarrow> login_phase \<Rightarrow> auth_state \<Rightarrow> login_phase \<times> auth_state" where
  "login_advance e p s = (case p of
     Arrived w sig \<Rightarrow>
       (case active_challenge (av_now e) w (ax_challenges s) of
          None \<Rightarrow> (Answered (Login_refused 401), s) | Some c \<Rightarrow> (Found w sig c, s))
   | Found w sig c \<Rightarrow>
       (let (s, n) = take_challenge (ch_id c) s in
        (if n = 0 then Answered (Login_refused 401) else Claimed w sig c, s))
   | Claimed w sig c \<Rightarrow>
       (if signature_valid (av_lib e) w sig c then Verified w c else Answered (Login_refused 401), s)
   | Verified w c \<Rightarrow> (let (s, u) = login_upsert e w s in (Upserted u c, s))
   | Upserted u c \<Rightarrow> (let (s, u) = promote e u s in (Named u c, s))
   | Named u c \<Rightarrow>
       (case createSession e u s of
          (s, None) \<Rightarrow> (Answered (Login_refused 500), s)
        | (s, Some token) \<Rightarrow> (Answered (Logged_in c u token), s))
   | Answered r \<Rightarrow> (Answered r, s))"

definition login_run :: "auth_env \<Rightarrow> login_phase \<Rightarrow> auth_state \<Rightarrow> login_phase \<times> auth_state" where
  "login_run e p s = ((\<lambda>(p, s). login_advance e p s) ^^ 6) (p, s)"

definition verify_begin :: "auth_env \<Rightarrow> web_request \<Rightarrow> auth_state \<Rightarrow> login_phase \<times> auth_state" where
  "verify_begin e rq s =
     (let (s, rl) = throttle e (''verify:'' @ clientIp (wr_forwarded rq) (wr_realIp rq)) 10 60000 s in
      if \<not> lr_ok rl then (Answered (Login_refused 429), s)
      else case verifySchema (wr_body rq) of
        None \<Rightarrow> (Answered (Login_refused 400), s)
      | Some (w, sig) \<Rightarrow> (Arrived w sig, s))"

definition verify_POST :: "auth_env \<Rightarrow> web_request \<Rightarrow> auth_state \<Rightarrow> login_phase \<times> auth_state" where
  "verify_POST e rq s = (let (p, s) = verify_begin e rq s in login_run e p s)"

section \<open>The other routes\<close>

definition logout_POST :: "auth_env \<Rightarrow> web_request \<Rightarrow> auth_state \<Rightarrow> auth_state" where
  "logout_POST e rq s =
     (if \<not> truthy (wr_cookie rq) then s
      else let token = the (wr_cookie rq); session = getSession e s (wr_cookie rq); s = deleteSession token s in
        case session of
          None \<Rightarrow> s
        | Some p \<Rightarrow> audit ''auth.logout'' (Some (ap_walletAddress p)) None None s)"

definition me_GET :: "auth_env \<Rightarrow> web_request \<Rightarrow> auth_state \<Rightarrow> nat + (address \<times> string)" where
  "me_GET e rq s =
     (case getSession e s (wr_cookie rq) of
        None \<Rightarrow> Inl 401 | Some p \<Rightarrow> Inr (ap_walletAddress p, ap_role p))"

definition profile_GET :: "auth_env \<Rightarrow> web_request \<Rightarrow> auth_state \<Rightarrow> nat + account_row" where
  "profile_GET e rq s =
     (case getSession e s (wr_cookie rq) of
        None \<Rightarrow> Inl 401
      | Some p \<Rightarrow>
          (case findFirst (\<lambda>u. ac_id u = ap_userId p) (ax_accounts s) of
             None \<Rightarrow> Inl 404 | Some u \<Rightarrow> Inr u))"

text \<open>\<open>POST /api/admin/roles\<close> and \<open>PATCH /api/admin/users/[id]/role\<close>.\<close>

definition grant_POST :: "auth_env \<Rightarrow> web_request \<Rightarrow> auth_state \<Rightarrow> auth_state \<times> (nat + account_row)" where
  "grant_POST e rq s =
     (let user = getSession e s (wr_cookie rq) in
      case requireAdmin user of
        Some status \<Rightarrow> (s, Inl status)
      | None \<Rightarrow>
          (case roleGrantSchema (wr_body rq) of
             None \<Rightarrow> (s, Inl 400)
           | Some (w, r) \<Rightarrow>
               (let (s, updated) = upsert_account (av_id e) w r (Some r) s
                in (audit ''role.grant'' (Some (ap_walletAddress (the user))) (Some w)
                      (Some [(''role'', JStr (role_text r))]) s, Inr updated))))"

definition role_PATCH :: "auth_env \<Rightarrow> web_request \<Rightarrow> row_id \<Rightarrow> auth_state \<Rightarrow> auth_state \<times> (nat + account_row)" where
  "role_PATCH e rq userId s =
     (let adminUser = getSession e s (wr_cookie rq) in
      case requireAdmin adminUser of
        Some status \<Rightarrow> (s, Inl status)
      | None \<Rightarrow>
          (case updateRoleSchema (wr_body rq) of
             None \<Rightarrow> (s, Inl 400)
           | Some r \<Rightarrow>
               (case findFirst (\<lambda>u. ac_id u = userId) (ax_accounts s) of
                  None \<Rightarrow> (s, Inl 404)
                | Some target \<Rightarrow>
                    (let s = s\<lparr>ax_accounts := updated (\<lambda>u. ac_id u = userId) (\<lambda>u. u\<lparr>ac_role := r\<rparr>) (ax_accounts s)\<rparr>
                     in (audit ''role.update'' (Some (ap_walletAddress (the adminUser)))
                           (Some (ac_walletAddress target))
                           (Some [(''previousRole'', JStr (role_text (ac_role target))),
                                  (''newRole'', JStr (role_text r))]) s,
                         Inr (target\<lparr>ac_role := r\<rparr>))))))"

subsection \<open>The first administrator\<close>

definition MIN_SECRET_LENGTH :: nat where
  "MIN_SECRET_LENGTH = 32"

definition BOOTSTRAP_ATTEMPT_LIMIT :: int where
  "BOOTSTRAP_ATTEMPT_LIMIT = 5"

definition BOOTSTRAP_WINDOW_MS :: int where
  "BOOTSTRAP_WINDOW_MS = 60 * 60 * 1000"

definition secretsMatch :: "auth_lib \<Rightarrow> string \<Rightarrow> string \<Rightarrow> bool" where
  "secretsMatch l provided expected \<longleftrightarrow> li_sha256 l provided = li_sha256 l expected"

text \<open>The wallets of the first of the two variables that is set.\<close>

definition default_wallet :: "auth_env \<Rightarrow> string option" where
  "default_wallet e =
     (let v = (if truthy (av_adminWallets e) then av_adminWallets e else av_adminWallet e);
          ws = filter (\<lambda>s. s \<noteq> []) (map js_trim (split_commas (case v of None \<Rightarrow> [] | Some s \<Rightarrow> s)))
      in case ws of [] \<Rightarrow> None | w # _ \<Rightarrow> Some w)"

definition bootstrap_enabled :: "auth_env \<Rightarrow> bool" where
  "bootstrap_enabled e \<longleftrightarrow> (case av_bootstrapSecret e of
     None \<Rightarrow> False | Some k \<Rightarrow> js_trim k \<noteq> [] \<and> \<not> length (js_trim k) < MIN_SECRET_LENGTH)"

text \<open>
  The account to promote. The body \<open>null\<close> has no fields to read and a name that is not a text is
  refused by the client; both end in the \<open>catch\<close>.
\<close>

definition bootstrap_target :: "auth_env \<Rightarrow> json \<Rightarrow> json option" where
  "bootstrap_target e body =
     (let named = (case body of JObj ms \<Rightarrow> map_of ms ''walletAddress'' | _ \<Rightarrow> None) in
      if named \<in> {None, Some JNull, Some (JBool False), Some (JNum 0), Some (JStr [])}
      then map_option JStr (default_wallet e) else named)"

definition bootstrap_account :: "auth_env \<Rightarrow> web_request \<Rightarrow> auth_state \<Rightarrow> auth_state \<times> (nat + account_row)" where
  "bootstrap_account e rq s =
     (if wr_body rq = JNull then (s, Inl 500)
      else case bootstrap_target e (wr_body rq) of
        None \<Rightarrow> (s, Inl 400)
      | Some (JStr w) \<Rightarrow>
          (let (s, user) = upsert_account (av_id e) w ADMIN' (Some ADMIN') s
           in (audit ''admin.bootstrap'' (Some w) (Some w)
                 (Some [(''message'', JStr ''Admin bootstrapped via /api/admin/bootstrap'')]) s,
               Inr user))
      | Some _ \<Rightarrow> (s, Inl 500))"

definition bootstrap_POST ::
  "auth_env \<Rightarrow> web_request \<Rightarrow> string option \<Rightarrow> auth_state \<Rightarrow> auth_state \<times> (nat + account_row)" where
  "bootstrap_POST e rq secretHeader s =
     (if \<not> bootstrap_enabled e then (s, Inl 404)
      else
        let ip = clientIp (wr_forwarded rq) (wr_realIp rq);
            (s, rl) = throttle e (''bootstrap:'' @ ip) BOOTSTRAP_ATTEMPT_LIMIT BOOTSTRAP_WINDOW_MS s in
        if \<not> lr_ok rl
        then (audit ''admin.bootstrap.throttled'' (Some ip) None (Some [(''retryAfter'', JNum (lr_retryAfter rl))]) s,
              Inl 404)
        else
          if \<not> truthy secretHeader \<and> wr_body rq = JNull then (s, Inl 500)
          else
            let requestSecret = (if truthy secretHeader then secretHeader
                                 else body_text (wr_body rq) ''bootstrapSecret'') in
            if requestSecret = None \<or> \<not> secretsMatch (av_lib e) (the requestSecret) (the (av_bootstrapSecret e))
            then (audit ''admin.bootstrap.denied'' (Some ip) None
                    (Some [(''reason'', JStr ''invalid bootstrap secret'')]) s, Inl 404)
            else bootstrap_account e rq s)"

subsection \<open>The edge middleware\<close>

definition starts_with :: "string \<Rightarrow> string \<Rightarrow> bool" where
  "starts_with p s \<longleftrightarrow> take (length p) s = p"

definition PROTECTED_API_PREFIXES :: "string list" where
  "PROTECTED_API_PREFIXES =
     [''/api/escrows'', ''/api/hours'', ''/api/admin'', ''/api/oracle/attest'', ''/api/submit-batch'']"

definition ADMIN_PUBLIC_ROUTES :: "string list" where
  "ADMIN_PUBLIC_ROUTES = [''/api/admin/bootstrap'']"

datatype edge_outcome =
    Next
  | Next_as jwt_claims
  | Stopped nat bool   \<comment> \<open>the status, and whether the cookie is cleared\<close>

definition middleware :: "auth_env \<Rightarrow> string \<Rightarrow> string option \<Rightarrow> edge_outcome" where
  "middleware e pathname cookie =
     (if pathname \<in> set ADMIN_PUBLIC_ROUTES then Next
      else if \<not> list_ex (\<lambda>p. starts_with p pathname) PROTECTED_API_PREFIXES then Next
      else if \<not> truthy cookie then Stopped 401 False
      else case getSecret e of
        None \<Rightarrow> Stopped 500 False
      | Some k \<Rightarrow>
          (case li_jwtVerify (av_lib e) k (av_now e) (the cookie) of
             None \<Rightarrow> Stopped 401 True | Some c \<Rightarrow> Next_as c))"

section \<open>Every operation, and logins in flight\<close>

datatype auth_op =
    Op_challenge web_request
  | Op_login web_request
  | Op_logout web_request
  | Op_grant web_request
  | Op_role web_request row_id
  | Op_bootstrap web_request "string option"

definition do_auth :: "auth_env \<Rightarrow> auth_op \<Rightarrow> auth_state \<Rightarrow> auth_state" where
  "do_auth e op s = (case op of
     Op_challenge rq \<Rightarrow> fst (challenge_POST e rq s)
   | Op_login rq \<Rightarrow> snd (verify_POST e rq s)
   | Op_logout rq \<Rightarrow> logout_POST e rq s
   | Op_grant rq \<Rightarrow> fst (grant_POST e rq s)
   | Op_role rq i \<Rightarrow> fst (role_PATCH e rq i s)
   | Op_bootstrap rq h \<Rightarrow> fst (bootstrap_POST e rq h s))"

record login_world =
  lw_state :: auth_state
  lw_phases :: "login_phase list"

inductive login_move :: "auth_lib \<Rightarrow> login_world \<Rightarrow> login_world \<Rightarrow> bool" for l where
  arrive: "login_move l w (w\<lparr>lw_phases := lw_phases w @ [Arrived a sig]\<rparr>)"
| advance: "i < length (lw_phases w) \<Longrightarrow> av_lib e = l \<Longrightarrow>
    login_advance e (lw_phases w ! i) (lw_state w) = (p, s) \<Longrightarrow>
    login_move l w \<lparr>lw_state = s, lw_phases = (lw_phases w)[i := p]\<rparr>"
| serve: "av_lib e = l \<Longrightarrow> login_move l w (w\<lparr>lw_state := do_auth e op (lw_state w)\<rparr>)"

inductive_cases login_moveE: "login_move l w w'"

section \<open>Lemmas\<close>

definition taken :: "row_id \<Rightarrow> auth_state \<Rightarrow> bool" where
  "taken i s \<longleftrightarrow> (\<exists>r \<in> set (ax_challenges s). ch_id r = i \<and> ch_used r)"

definition keys_unique :: "auth_state \<Rightarrow> bool" where
  "keys_unique s \<longleftrightarrow> distinct (map ch_id (ax_challenges s))"

text \<open>What every operation does to the challenges: none is handed back and none is doubled.\<close>

definition keeps_taken :: "auth_state \<Rightarrow> auth_state \<Rightarrow> bool" where
  "keeps_taken s s' \<longleftrightarrow> (keys_unique s \<longrightarrow> keys_unique s') \<and> (\<forall>i. taken i s \<longrightarrow> taken i s')"

lemma keeps_taken_refl [intro, simp]: "keeps_taken s s"
  by (simp add: keeps_taken_def)

lemma keeps_taken_trans: "keeps_taken s s' \<Longrightarrow> keeps_taken s' s'' \<Longrightarrow> keeps_taken s s''"
  by (auto simp: keeps_taken_def)

lemma keeps_taken_same: "ax_challenges s' = ax_challenges s \<Longrightarrow> keeps_taken s s'"
  by (simp add: keeps_taken_def keys_unique_def taken_def)

lemma throttle_keeps [simp]:
  "throttle e k n m s = (s', r) \<Longrightarrow> ax_challenges s' = ax_challenges s"
  "throttle e k n m s = (s', r) \<Longrightarrow> ax_accounts s' = ax_accounts s"
  "throttle e k n m s = (s', r) \<Longrightarrow> ax_sessions s' = ax_sessions s"
  by (auto simp: throttle_def split: prod.splits)

lemma audit_simps [simp]:
  "ax_challenges (audit a b c d s) = ax_challenges s" "ax_accounts (audit a b c d s) = ax_accounts s"
  "ax_sessions (audit a b c d s) = ax_sessions s"
  by (simp_all add: audit_def)

lemma upsert_keeps_challenges [simp]:
  "upsert_account i w f g s = (s', u) \<Longrightarrow> ax_challenges s' = ax_challenges s"
  by (auto simp: upsert_account_def Let_def split: option.splits)

lemma promote_keeps_challenges [simp]: "promote e u s = (s', u') \<Longrightarrow> ax_challenges s' = ax_challenges s"
  by (auto simp: promote_def set_role_def split: if_splits)

lemma createSession_keeps [simp]: "createSession e u s = (s', t) \<Longrightarrow> ax_challenges s' = ax_challenges s"
  by (auto simp: createSession_def split: option.splits)

lemma take_challenge_spec:
  assumes "take_challenge i s = (s', n)"
  shows "keeps_taken s s'" and "n \<noteq> 0 \<Longrightarrow> taken i s'" and "n \<noteq> 0 \<Longrightarrow> keys_unique s \<Longrightarrow> \<not> taken i s"
proof -
  have s': "ax_challenges s' = map (\<lambda>c. if ch_id c = i \<and> \<not> ch_used c then c\<lparr>ch_used := True\<rparr> else c) (ax_challenges s)"
    and n: "n = length (filter (\<lambda>c. ch_id c = i \<and> \<not> ch_used c) (ax_challenges s))"
    using assms by (auto simp: take_challenge_def updateMany_def)
  have "map ch_id (ax_challenges s') = map ch_id (ax_challenges s)"
    by (simp add: s')
  moreover have "taken j s'" if "taken j s" for j
    using that by (force simp: taken_def s')
  ultimately show "keeps_taken s s'" by (simp add: keeps_taken_def keys_unique_def)
  assume "n \<noteq> 0"
  then obtain c where c: "c \<in> set (ax_challenges s)" "ch_id c = i" "\<not> ch_used c"
    by (auto simp: n filter_empty_conv)
  then have "c\<lparr>ch_used := True\<rparr> \<in> set (ax_challenges s')"
    by (auto simp: s' image_iff intro!: bexI [of _ c])
  with c show "taken i s'" by (auto simp: taken_def intro!: bexI [of _ "c\<lparr>ch_used := True\<rparr>"])
  assume "keys_unique s"
  with c show "\<not> taken i s" by (auto simp: taken_def keys_unique_def distinct_map inj_on_def)
qed

lemma createChallenge_keeps: "createChallenge e w s = (s', r) \<Longrightarrow> keeps_taken s s'"
  by (auto simp: createChallenge_def insert_challenge_def createUnique_def keeps_taken_def keys_unique_def
      taken_def Let_def split: option.splits if_splits)

lemma advance_keeps: "login_advance e p s = (p', s') \<Longrightarrow> keeps_taken s s'"
proof (cases p)
  case (Found w sig c)
  then show "login_advance e p s = (p', s') \<Longrightarrow> keeps_taken s s'"
    by (auto simp: login_advance_def split: prod.splits intro: take_challenge_spec(1))
qed (auto simp: login_advance_def login_upsert_def split: option.splits prod.splits if_splits
    intro!: keeps_taken_same)

lemma run_keeps: "((\<lambda>(p, s). login_advance e p s) ^^ n) (p, s) = (p', s') \<Longrightarrow> keeps_taken s s'"
proof (induction n arbitrary: p' s')
  case (Suc n)
  obtain q t where "((\<lambda>(p, s). login_advance e p s) ^^ n) (p, s) = (q, t)" by (metis surj_pair)
  with Suc show ?case by (auto intro: keeps_taken_trans advance_keeps)
qed simp

lemma bootstrap_account_cases:
  obtains (fail) status where "bootstrap_account e rq s = (s, Inl status)"
  | (promotes) w t u where "bootstrap_account e rq s = (audit ''admin.bootstrap'' (Some w) (Some w)
      (Some [(''message'', JStr ''Admin bootstrapped via /api/admin/bootstrap'')]) t, Inr u)"
      "upsert_account (av_id e) w ADMIN' (Some ADMIN') s = (t, u)"
proof (cases "wr_body rq = JNull")
  case True
  then show ?thesis using fail by (simp add: bootstrap_account_def)
next
  case False
  show ?thesis
  proof (cases "bootstrap_target e (wr_body rq)")
    case None
    then show ?thesis using False fail by (simp add: bootstrap_account_def)
  next
    case (Some j)
    show ?thesis
    proof (cases "\<exists>w. j = JStr w")
      case True
      then obtain w where w: "j = JStr w" by blast
      obtain t u where "upsert_account (av_id e) w ADMIN' (Some ADMIN') s = (t, u)" by (metis surj_pair)
      with w Some False show ?thesis by (intro promotes) (simp_all add: bootstrap_account_def)
    next
      case other: False
      then have "bootstrap_account e rq s = (s, Inl 500)"
        using Some False by (cases j) (simp_all add: bootstrap_account_def)
      then show ?thesis by (rule fail)
    qed
  qed
qed

text \<open>What an attempt to bootstrap comes to: nothing but the limiter and the log, or the promotion.\<close>

lemma bootstrap_cases:
  obtains (refused) t status where "bootstrap_POST e rq h s = (t, Inl status)"
      "ax_accounts t = ax_accounts s" "ax_challenges t = ax_challenges s" "ax_sessions t = ax_sessions s"
  | (promoted) t where "bootstrap_POST e rq h s = bootstrap_account e rq t"
      "ax_accounts t = ax_accounts s" "ax_challenges t = ax_challenges s" "ax_sessions t = ax_sessions s"
      "bootstrap_enabled e"
      "\<exists>given. secretsMatch (av_lib e) given (the (av_bootstrapSecret e)) \<and>
         (h = Some given \<or> body_text (wr_body rq) ''bootstrapSecret'' = Some given)"
proof -
  obtain t rl where t: "throttle e (''bootstrap:'' @ clientIp (wr_forwarded rq) (wr_realIp rq))
      BOOTSTRAP_ATTEMPT_LIMIT BOOTSTRAP_WINDOW_MS s = (t, rl)" by (metis surj_pair)
  note same = throttle_keeps [OF t]
  define given where "given = (if truthy h then h else body_text (wr_body rq) ''bootstrapSecret'')"
  define wrong where "wrong \<longleftrightarrow> given = None \<or> \<not> secretsMatch (av_lib e) (the given) (the (av_bootstrapSecret e))"
  define throttled where "throttled = audit ''admin.bootstrap.throttled''
    (Some (clientIp (wr_forwarded rq) (wr_realIp rq))) None (Some [(''retryAfter'', JNum (lr_retryAfter rl))]) t"
  define denied where "denied = audit ''admin.bootstrap.denied''
    (Some (clientIp (wr_forwarded rq) (wr_realIp rq))) None (Some [(''reason'', JStr ''invalid bootstrap secret'')]) t"
  have eq: "bootstrap_POST e rq h s =
    (if \<not> bootstrap_enabled e then (s, Inl 404)
     else if \<not> lr_ok rl then (throttled, Inl 404)
     else if \<not> truthy h \<and> wr_body rq = JNull then (t, Inl 500)
     else if wrong then (denied, Inl 404) else bootstrap_account e rq t)"
    using t by (simp add: bootstrap_POST_def given_def wrong_def throttled_def denied_def Let_def)
  have logs: "ax_accounts throttled = ax_accounts s" "ax_challenges throttled = ax_challenges s"
    "ax_sessions throttled = ax_sessions s" "ax_accounts denied = ax_accounts s"
    "ax_challenges denied = ax_challenges s" "ax_sessions denied = ax_sessions s"
    by (simp_all add: throttled_def denied_def same)
  show thesis
  proof (cases "bootstrap_enabled e \<and> lr_ok rl \<and> \<not> (\<not> truthy h \<and> wr_body rq = JNull) \<and> \<not> wrong")
    case True
    then have "given \<noteq> None" "secretsMatch (av_lib e) (the given) (the (av_bootstrapSecret e))"
      by (auto simp: wrong_def)
    then have "\<exists>given. secretsMatch (av_lib e) given (the (av_bootstrapSecret e)) \<and>
         (h = Some given \<or> body_text (wr_body rq) ''bootstrapSecret'' = Some given)"
      by (auto simp: given_def split: if_splits)
    with True show thesis by (intro promoted [of t]) (auto simp: eq same)
  next
    case False
    then have "bootstrap_POST e rq h s \<in> {(s, Inl 404), (throttled, Inl 404), (t, Inl 500), (denied, Inl 404)}"
      unfolding eq by (simp split: if_split) blast
    then obtain t' status where "bootstrap_POST e rq h s = (t', Inl status)" "t' \<in> {s, throttled, t, denied}"
      by blast
    then show thesis by (intro refused [of t' status]) (auto simp: logs same)
  qed
qed

lemma bootstrap_keeps_challenges: "ax_challenges (fst (bootstrap_POST e rq h s)) = ax_challenges s"
proof (cases rule: bootstrap_cases [of e rq h s])
  case (promoted t)
  then show ?thesis by (cases rule: bootstrap_account_cases [of e rq t]) auto
qed simp

lemma do_auth_keeps: "keeps_taken s (do_auth e op s)"
proof (cases op)
  case (Op_challenge rq)
  obtain t rl where t: "throttle e (''challenge:'' @ clientIp (wr_forwarded rq) (wr_realIp rq)) 20 60000 s = (t, rl)"
    by (metis surj_pair)
  have "keeps_taken t (fst (createChallenge e w t))" for w
    by (cases "createChallenge e w t") (auto intro: createChallenge_keeps)
  then have "keeps_taken s (fst (createChallenge e w t))" for w
    using throttle_keeps(1) [OF t] by (blast intro: keeps_taken_trans keeps_taken_same)
  then show ?thesis
    using Op_challenge t throttle_keeps(1) [OF t]
    by (auto simp: do_auth_def challenge_POST_def keeps_taken_same split: prod.splits option.splits)
      (metis fst_conv)+
next
  case (Op_login rq)
  obtain p t where b: "verify_begin e rq s = (p, t)" by (metis surj_pair)
  then have "keeps_taken s t"
    by (auto simp: verify_begin_def split: prod.splits option.splits if_splits intro: keeps_taken_same)
  moreover obtain p' t' where "login_run e p t = (p', t')" by (metis surj_pair)
  ultimately show ?thesis using Op_login b run_keeps [of 6 e p t]
    by (auto simp: do_auth_def verify_POST_def login_run_def intro: keeps_taken_trans)
next
  case (Op_logout rq)
  then show ?thesis
    by (auto simp: do_auth_def logout_POST_def deleteSession_def Let_def split: option.splits intro: keeps_taken_same)
next
  case (Op_grant rq)
  then show ?thesis
    by (auto simp: do_auth_def grant_POST_def Let_def split: option.splits prod.splits intro: keeps_taken_same)
next
  case (Op_role rq i)
  then show ?thesis
    by (auto simp: do_auth_def role_PATCH_def Let_def split: option.splits intro: keeps_taken_same)
next
  case (Op_bootstrap rq h)
  show ?thesis
    by (rule keeps_taken_same) (simp add: Op_bootstrap do_auth_def bootstrap_keeps_challenges)
qed

text \<open>The challenge a request has taken, if it has.\<close>

definition holds :: "login_phase \<Rightarrow> challenge_row option" where
  "holds p = (case p of
     Claimed _ _ c \<Rightarrow> Some c | Verified _ c \<Rightarrow> Some c | Upserted _ c \<Rightarrow> Some c | Named _ c \<Rightarrow> Some c
   | Answered (Logged_in c _ _) \<Rightarrow> Some c | _ \<Rightarrow> None)"

definition signed_by :: "auth_lib \<Rightarrow> address \<Rightarrow> challenge_row \<Rightarrow> bool" where
  "signed_by l w c \<longleftrightarrow> ch_walletAddress c = w \<and> (\<exists>sig. signature_valid l w sig c)"

definition phase_ok :: "auth_lib \<Rightarrow> login_phase \<Rightarrow> bool" where
  "phase_ok l p \<longleftrightarrow> (case p of
     Found w _ c \<Rightarrow> ch_walletAddress c = w | Claimed w _ c \<Rightarrow> ch_walletAddress c = w
   | Verified w c \<Rightarrow> signed_by l w c | Upserted u c \<Rightarrow> signed_by l (ac_walletAddress u) c
   | Named u c \<Rightarrow> signed_by l (ac_walletAddress u) c
   | Answered (Logged_in c u _) \<Rightarrow> signed_by l (ac_walletAddress u) c | _ \<Rightarrow> True)"

lemma active_challenge_Some:
  "active_challenge t w rows = Some c \<Longrightarrow>
     c \<in> set rows \<and> ch_walletAddress c = w \<and> \<not> ch_used c \<and> ch_expiresAt c > t"
  by (auto simp: active_challenge_def dest!: findFirst_SomeD)

lemma upsert_wallet: "upsert_account i w f g s = (s', u) \<Longrightarrow> ac_walletAddress u = w"
  by (auto simp: upsert_account_def find_account_def Let_def split: option.splits dest: findFirst_SomeD)

lemma promote_wallet: "promote e u s = (s', u') \<Longrightarrow> ac_walletAddress u' = ac_walletAddress u"
  by (auto simp: promote_def split: if_splits)

lemma advance_ok:
  assumes "login_advance e p s = (p', s')" and "phase_ok (av_lib e) p"
  shows "phase_ok (av_lib e) p'"
proof (cases p)
  case (Verified w c)
  obtain t u where u: "login_upsert e w s = (t, u)" by (metis surj_pair)
  then have "ac_walletAddress u = w" by (auto simp: login_upsert_def dest: upsert_wallet)
  with Verified u assms show ?thesis by (auto simp: login_advance_def phase_ok_def)
next
  case (Upserted u c)
  obtain t v where v: "promote e u s = (t, v)" by (metis surj_pair)
  with Upserted assms promote_wallet [OF v] show ?thesis by (auto simp: login_advance_def phase_ok_def)
qed (use assms in \<open>auto simp: login_advance_def phase_ok_def signed_by_def
      split: option.splits prod.splits if_splits login_reply.splits dest: active_challenge_Some\<close>)

text \<open>A step of a request keeps what it holds, or takes a challenge no request has.\<close>

lemma advance_holds:
  assumes "login_advance e p s = (p', s')" and "holds p' = Some c"
  shows "holds p = Some c \<or> taken (ch_id c) s' \<and> (keys_unique s \<longrightarrow> \<not> taken (ch_id c) s)"
proof (cases p)
  case (Found w sig d)
  then show ?thesis
    using assms by (auto simp: login_advance_def holds_def split: prod.splits if_splits dest: take_challenge_spec)
qed (use assms in \<open>auto simp: login_advance_def holds_def login_upsert_def
    split: option.splits prod.splits if_splits login_reply.splits\<close>)

definition logins_ok :: "auth_lib \<Rightarrow> login_world \<Rightarrow> bool" where
  "logins_ok l w \<longleftrightarrow> keys_unique (lw_state w) \<and>
     (\<forall>i < length (lw_phases w). phase_ok l (lw_phases w ! i) \<and>
        (\<forall>c. holds (lw_phases w ! i) = Some c \<longrightarrow> taken (ch_id c) (lw_state w))) \<and>
     (\<forall>i j c d. i < length (lw_phases w) \<longrightarrow> j < length (lw_phases w) \<longrightarrow> holds (lw_phases w ! i) = Some c \<longrightarrow>
        holds (lw_phases w ! j) = Some d \<longrightarrow> ch_id c = ch_id d \<longrightarrow> i = j)"

lemma logins_ok_served:
  "logins_ok l w \<Longrightarrow> keeps_taken (lw_state w) s \<Longrightarrow> logins_ok l (w\<lparr>lw_state := s\<rparr>)"
  by (simp add: logins_ok_def keeps_taken_def)

lemma logins_ok_arrived:
  assumes "logins_ok l w"
  shows "logins_ok l (w\<lparr>lw_phases := lw_phases w @ [Arrived a sig]\<rparr>)"
proof -
  have new: "holds (Arrived a sig) = None" "phase_ok l (Arrived a sig)" by (simp_all add: holds_def phase_ok_def)
  let ?ps = "lw_phases w @ [Arrived a sig]"
  have ok: "phase_ok l (?ps ! i)" if "i < Suc (length (lw_phases w))" for i
    using assms that new by (cases "i = length (lw_phases w)") (auto simp: logins_ok_def nth_append)
  have old: "i < length (lw_phases w)" "holds (lw_phases w ! i) = Some c"
    if "i < Suc (length (lw_phases w))" "holds (?ps ! i) = Some c" for i c
    using that new by (cases "i = length (lw_phases w)"; auto simp: nth_append less_Suc_eq)+
  have held: "taken (ch_id c) (lw_state w)" if "i < Suc (length (lw_phases w))" "holds (?ps ! i) = Some c" for i c
    using old [OF that] assms by (auto simp: logins_ok_def)
  have unique: "i = j" if "i < Suc (length (lw_phases w))" "j < Suc (length (lw_phases w))"
    "holds (?ps ! i) = Some c" "holds (?ps ! j) = Some d" "ch_id c = ch_id d" for i j c d
    using old [OF that(1,3)] old [OF that(2,4)] that(5) assms unfolding logins_ok_def by blast
  have "keys_unique (lw_state w)" using assms by (simp add: logins_ok_def)
  then show ?thesis
    unfolding logins_ok_def using ok held unique
    by (intro conjI allI impI) simp_all
qed

lemma logins_ok_advanced:
  assumes ok: "logins_ok l w" and i: "i < length (lw_phases w)" and l: "av_lib e = l"
    and step: "login_advance e (lw_phases w ! i) (lw_state w) = (p, s)"
  shows "logins_ok l \<lparr>lw_state = s, lw_phases = (lw_phases w)[i := p]\<rparr>"
proof -
  let ?q = "\<lambda>j. (lw_phases w)[i := p] ! j"
  have keep: "keeps_taken (lw_state w) s" by (rule advance_keeps [OF step])
  have old: "phase_ok l (lw_phases w ! j)" "holds (lw_phases w ! j) = Some c \<Longrightarrow> taken (ch_id c) (lw_state w)"
    if "j < length (lw_phases w)" for j c
    using ok that by (auto simp: logins_ok_def)
  have unique: "j = k" if "j < length (lw_phases w)" "k < length (lw_phases w)" "holds (lw_phases w ! j) = Some c"
    "holds (lw_phases w ! k) = Some d" "ch_id c = ch_id d" for j k c d
    using ok that unfolding logins_ok_def by blast
  have kept: "taken n s" if "taken n (lw_state w)" for n using keep that by (simp add: keeps_taken_def)
  have held: "taken (ch_id c) s" "j \<noteq> i \<Longrightarrow> holds (lw_phases w ! j) = Some d \<Longrightarrow> j < length (lw_phases w) \<Longrightarrow>
      ch_id c \<noteq> ch_id d" if "holds p = Some c" for c d j
    using advance_holds [OF step that] old(2) kept unique i ok
    by (auto simp: logins_ok_def)
  have "phase_ok l p" using advance_ok [OF step] old(1) [OF i] l by simp
  then have one: "phase_ok l (?q j) \<and> (\<forall>c. holds (?q j) = Some c \<longrightarrow> taken (ch_id c) s)"
    if "j < length (lw_phases w)" for j
    using that old kept held(1) by (cases "j = i") auto
  have two: "j = k" if "j < length (lw_phases w)" "k < length (lw_phases w)" "holds (?q j) = Some c"
    "holds (?q k) = Some d" "ch_id c = ch_id d" for j k c d
  proof (rule ccontr)
    assume ne: "j \<noteq> k"
    consider (first) "j = i" "k \<noteq> i" | (second) "j \<noteq> i" "k = i" | (neither) "j \<noteq> i" "k \<noteq> i"
      using ne by blast
    then show False
    proof cases
      case first
      then show False using held(2) [of c k d] that i by simp
    next
      case second
      then show False using held(2) [of d j c] that i by simp
    next
      case neither
      then show False using unique [of j k c d] that ne by simp
    qed
  qed
  show ?thesis
    using one two keep ok unfolding logins_ok_def by (simp add: keeps_taken_def)
qed

lemma login_moves_ok:
  assumes "(login_move l)\<^sup>*\<^sup>* w w'" and "logins_ok l w"
  shows "logins_ok l w'"
  using assms
proof (induction rule: rtranclp_induct)
  case (step w' w'')
  from step.hyps(2) show ?case
    by (rule login_moveE)
      (use step.IH step.prems in \<open>auto intro: logins_ok_arrived logins_ok_advanced logins_ok_served do_auth_keeps\<close>)
qed

text \<open>The wallet a request signs in, and who becomes an administrator while it runs.\<close>

definition phase_wallet :: "login_phase \<Rightarrow> address option" where
  "phase_wallet p = (case p of
     Arrived w _ \<Rightarrow> Some w | Found w _ _ \<Rightarrow> Some w | Claimed w _ _ \<Rightarrow> Some w | Verified w _ \<Rightarrow> Some w
   | Upserted u _ \<Rightarrow> Some (ac_walletAddress u) | Named u _ \<Rightarrow> Some (ac_walletAddress u) | Answered _ \<Rightarrow> None)"

definition admin_wallets :: "auth_state \<Rightarrow> address set" where
  "admin_wallets s = {ac_walletAddress u |u. u \<in> set (ax_accounts s) \<and> ac_role u = ADMIN'}"

lemma admin_wallets_same: "ax_accounts s' = ax_accounts s \<Longrightarrow> admin_wallets s' = admin_wallets s"
  by (simp add: admin_wallets_def)

lemma createChallenge_accounts: "createChallenge e w s = (s', r) \<Longrightarrow> ax_accounts s' = ax_accounts s"
  by (auto simp: createChallenge_def split: option.splits)

lemma upsert_admins:
  "upsert_account i w f g s = (s', u) \<Longrightarrow>
     admin_wallets s' \<subseteq> admin_wallets s \<union> (if f = ADMIN' \<or> g = Some ADMIN' then {w} else {})"
  by (auto simp: upsert_account_def admin_wallets_def set_updated Let_def split: option.splits if_splits)

lemma promote_admins:
  "promote e u s = (s', v) \<Longrightarrow> admin_wallets s' \<subseteq> admin_wallets s \<union>
     (if ac_walletAddress u \<in> set (adminAllowlist e) then {ac_walletAddress u} else {})"
  by (auto simp: promote_def set_role_def admin_wallets_def set_updated split: if_splits)

lemma createSession_accounts: "createSession e u s = (s', t) \<Longrightarrow> ax_accounts s' = ax_accounts s"
  by (auto simp: createSession_def split: option.splits)

lemma take_accounts: "take_challenge i s = (s', n) \<Longrightarrow> ax_accounts s' = ax_accounts s"
  by (auto simp: take_challenge_def split: prod.splits)

definition signed_in :: "auth_env \<Rightarrow> address \<Rightarrow> bool" where
  "signed_in e w \<longleftrightarrow> w \<in> set (adminAllowlist e) \<and> (\<exists>c. signed_by (av_lib e) w c)"

lemma advance_admins:
  assumes step: "login_advance e p s = (p', s')" and ok: "phase_ok (av_lib e) p"
    and w: "phase_wallet p = None \<or> phase_wallet p = Some w"
  shows "(phase_wallet p' = None \<or> phase_wallet p' = Some w) \<and>
    admin_wallets s' \<subseteq> admin_wallets s \<union> (if signed_in e w then {w} else {})"
proof (cases p)
  case (Found a sig c)
  then show ?thesis
    using step w by (auto simp: login_advance_def phase_wallet_def admin_wallets_same [OF take_accounts]
        split: prod.splits if_splits)
next
  case (Verified a c)
  obtain t u where u: "login_upsert e a s = (t, u)" by (metis surj_pair)
  then have r: "upsert_account (av_id e) a (if a \<in> set (adminAllowlist e) then ADMIN' else EMPLOYEE) None s = (t, u)"
    by (simp add: login_upsert_def)
  show ?thesis
    using upsert_admins [OF r] upsert_wallet [OF r] Verified step ok w u
    by (auto simp: login_advance_def phase_wallet_def phase_ok_def signed_in_def split: if_splits)
next
  case (Upserted u c)
  obtain t v where v: "promote e u s = (t, v)" by (metis surj_pair)
  then show ?thesis
    using promote_admins [OF v] promote_wallet [OF v] Upserted step ok w
    by (auto simp: login_advance_def phase_wallet_def phase_ok_def signed_in_def split: if_splits)
next
  case (Named u c)
  obtain t x where x: "createSession e u s = (t, x)" by (metis surj_pair)
  then show ?thesis
    using createSession_accounts [OF x] Named step
    by (auto simp: login_advance_def phase_wallet_def admin_wallets_def split: option.splits)
qed (use step w in \<open>auto simp: login_advance_def phase_wallet_def split: option.splits if_splits\<close>)

lemma run_admins:
  assumes "((\<lambda>(p, s). login_advance e p s) ^^ n) (p, s) = (p', s')" and "phase_ok (av_lib e) p"
    and "phase_wallet p = None \<or> phase_wallet p = Some w"
  shows "phase_ok (av_lib e) p' \<and> (phase_wallet p' = None \<or> phase_wallet p' = Some w) \<and>
    admin_wallets s' \<subseteq> admin_wallets s \<union> (if signed_in e w then {w} else {})"
  using assms(1)
proof (induction n arbitrary: p' s')
  case (Suc n)
  obtain q t where q: "((\<lambda>(p, s). login_advance e p s) ^^ n) (p, s) = (q, t)" by (metis surj_pair)
  with Suc.prems have step: "login_advance e q t = (p', s')" by simp
  from Suc.IH [OF q] have IH: "phase_ok (av_lib e) q" "phase_wallet q = None \<or> phase_wallet q = Some w"
    "admin_wallets t \<subseteq> admin_wallets s \<union> (if signed_in e w then {w} else {})" by auto
  show ?case using advance_admins [OF step IH(1,2)] advance_ok [OF step IH(1)] IH(3) by blast
qed (use assms(2,3) in simp)

lemma getSession_Some:
  assumes "getSession e s token = Some p"
  obtains row u where "findFirst (\<lambda>r. se_token r = the token) (ax_sessions s) = Some row"
    "token \<noteq> None" "av_now e \<le> se_expiresAt row"
    "findFirst (\<lambda>u. ac_id u = se_userId row) (ax_accounts s) = Some u"
    "ap_walletAddress p = ac_walletAddress u" "ap_role p = role_text (ac_role u)"
proof -
  from assms have token: "truthy token" by (auto simp: getSession_def split: if_splits)
  then obtain claims row where "verifyJwt e (the token) = Some claims" and
    row: "findFirst (\<lambda>r. se_token r = the token) (ax_sessions s) = Some row" "\<not> se_expiresAt row < av_now e"
    using assms by (auto simp: getSession_def split: option.splits if_splits)
  with assms token obtain u where "findFirst (\<lambda>u. ac_id u = se_userId row) (ax_accounts s) = Some u"
    "ap_walletAddress p = ac_walletAddress u" "ap_role p = role_text (ac_role u)"
    by (auto simp: getSession_def)
  with row token show thesis by (intro that [of row u]) (auto simp: truthy_def)
qed

lemma role_text_inj [simp]: "role_text a = role_text b \<longleftrightarrow> a = b"
  by (cases a; cases b) (simp_all add: role_text_def)

section \<open>Properties\<close>

text \<open>
  C30: A challenge logs in one request, and only one that its wallet signed. Whatever logins are in flight and
  however their calls of the database interleave, with each other and with every other operation, two
  requests that were logged in on the same challenge are the same request; and for each there is a
  signature of the challenge's text that the account's own wallet verifies, where the challenge was issued
  for that wallet.
\<close>

theorem one_login_per_challenge:
  assumes "(login_move l)\<^sup>*\<^sup>* w w'" and "lw_phases w = []"
    and "distinct (map ch_id (ax_challenges (lw_state w)))"
    and "i < length (lw_phases w')" and "lw_phases w' ! i = Answered (Logged_in c u t)"
    and "j < length (lw_phases w')" and "lw_phases w' ! j = Answered (Logged_in d v t')"
  shows "(ch_id c = ch_id d \<longrightarrow> i = j) \<and> ch_walletAddress c = ac_walletAddress u \<and>
    (\<exists>sig. signature_valid l (ac_walletAddress u) sig c)"
proof -
  have "logins_ok l w" using assms(2,3) by (simp add: logins_ok_def keys_unique_def)
  then have ok: "logins_ok l w'" by (rule login_moves_ok [OF assms(1)])
  have held: "holds (lw_phases w' ! i) = Some c" "holds (lw_phases w' ! j) = Some d"
    using assms(5,7) by (simp_all add: holds_def)
  have "phase_ok l (lw_phases w' ! i)" using ok assms(4) by (simp add: logins_ok_def)
  then have "signed_by l (ac_walletAddress u) c" using assms(5) by (simp add: phase_ok_def)
  moreover have "ch_id c = ch_id d \<longrightarrow> i = j"
    using ok assms(4,6) held unfolding logins_ok_def by blast
  ultimately show ?thesis by (simp add: signed_by_def)
qed

definition sample_auth_lib :: auth_lib where
  "sample_auth_lib = \<lparr>li_sign = (\<lambda>k c. jc_userId c @ jc_role c), li_jwtVerify = (\<lambda>k t token. None),
     li_sha256 = (\<lambda>s. s), li_base64 = (\<lambda>s. s), li_keyVerify = (\<lambda>w d sig. Some (w = sig))\<rparr>"

definition sample_auth_env :: auth_env where
  "sample_auth_env = \<lparr>av_now = 5000, av_id = ''x1'', av_nonce = ''n'', av_secret = Some (replicate 32 CHR ''k''),
     av_adminWallets = Some ''GA'', av_adminWallet = None, av_bootstrapSecret = Some (replicate 32 CHR ''b''),
     av_lib = sample_auth_lib\<rparr>"

definition sample_challenge :: challenge_row where
  "sample_challenge = \<lparr>ch_id = ''c1'', ch_walletAddress = ''GA'', ch_nonce = ''n'', ch_expiresAt = 9000,
     ch_used = False, ch_createdAt = 0\<rparr>"

definition sample_auth :: auth_state where
  "sample_auth = \<lparr>ax_accounts = [], ax_challenges = [sample_challenge], ax_sessions = [], ax_auditLog = [],
     ax_limiter = empty_limiter\<rparr>"

definition sample_account :: account_row where
  "sample_account = \<lparr>ac_id = ''x1'', ac_walletAddress = ''GA'', ac_role = ADMIN'\<rparr>"

definition sample_session :: session_row where
  "sample_session = \<lparr>se_userId = ''x1'', se_token = ''x1ADMIN'', se_expiresAt = 86405000\<rparr>"

text \<open>The login of the sample's wallet, phase by phase.\<close>

lemma sample_login:
  "login_advance sample_auth_env (Arrived ''GA'' ''GA'') sample_auth
     = (Found ''GA'' ''GA'' sample_challenge, sample_auth)"
  "login_advance sample_auth_env (Found ''GA'' ''GA'' sample_challenge) sample_auth
     = (Claimed ''GA'' ''GA'' sample_challenge,
        sample_auth\<lparr>ax_challenges := [sample_challenge\<lparr>ch_used := True\<rparr>]\<rparr>)"
  "login_advance sample_auth_env (Claimed ''GA'' ''GA'' sample_challenge) s = (Verified ''GA'' sample_challenge, s)"
  "ax_accounts s = [] \<Longrightarrow> login_advance sample_auth_env (Verified ''GA'' sample_challenge) s
     = (Upserted sample_account sample_challenge, s\<lparr>ax_accounts := [sample_account]\<rparr>)"
  "login_advance sample_auth_env (Upserted sample_account sample_challenge) s
     = (Named sample_account sample_challenge, s)"
  "ax_sessions s = [] \<Longrightarrow> login_advance sample_auth_env (Named sample_account sample_challenge) s
     = (Answered (Logged_in sample_challenge sample_account ''x1ADMIN''), s\<lparr>ax_sessions := [sample_session]\<rparr>)"
  by (simp_all add: login_advance_def sample_auth_def sample_challenge_def sample_auth_env_def active_challenge_def
      findFirst_def js_sort_def take_challenge_def updateMany_def signature_valid_def sample_auth_lib_def
      login_upsert_def upsert_account_def find_account_def adminAllowlist_def js_trim_def js_ws_def
      sample_account_def promote_def createSession_def signJwt_def getSecret_def claims_for_def role_text_def
      createUnique_def sample_session_def JWT_EXPIRY_SECONDS_def Let_def)

lemma sample_move:
  "av_lib e = l \<Longrightarrow> login_advance e p s = (p', s') \<Longrightarrow>
   login_move l \<lparr>lw_state = s, lw_phases = [p]\<rparr> \<lparr>lw_state = s', lw_phases = [p']\<rparr>"
  using advance [of 0 "\<lparr>lw_state = s, lw_phases = [p]\<rparr>" e l p' s'] by simp

lemma sample_logged_in:
  "\<exists>s. (login_move sample_auth_lib)\<^sup>*\<^sup>* \<lparr>lw_state = sample_auth, lw_phases = []\<rparr>
     \<lparr>lw_state = s, lw_phases = [Answered (Logged_in sample_challenge sample_account ''x1ADMIN'')]\<rparr>"
proof -
  let ?move = "login_move sample_auth_lib"
  let ?w = "\<lambda>s p. \<lparr>lw_state = s, lw_phases = [p]\<rparr>"
  let ?s1 = "sample_auth\<lparr>ax_challenges := [sample_challenge\<lparr>ch_used := True\<rparr>]\<rparr>"
  let ?s2 = "?s1\<lparr>ax_accounts := [sample_account]\<rparr>"
  let ?s3 = "?s2\<lparr>ax_sessions := [sample_session]\<rparr>"
  have lib: "av_lib sample_auth_env = sample_auth_lib" by (simp add: sample_auth_env_def)
  have empty: "ax_accounts ?s1 = []" "ax_sessions ?s2 = []" by (simp_all add: sample_auth_def)
  note advances = sample_move [OF lib]
  have start: "?move \<lparr>lw_state = sample_auth, lw_phases = []\<rparr> (?w sample_auth (Arrived ''GA'' ''GA''))"
    using arrive [of sample_auth_lib "\<lparr>lw_state = sample_auth, lw_phases = []\<rparr>"] by simp
  note more = rtranclp.rtrancl_into_rtrancl [where r = ?move]
  note m1 = r_into_rtranclp [where r = ?move, OF start]
  note m2 = more [OF m1 advances [OF sample_login(1)]]
  note m3 = more [OF m2 advances [OF sample_login(2)]]
  note m4 = more [OF m3 advances [OF sample_login(3)]]
  note m5 = more [OF m4 advances [OF sample_login(4) [OF empty(1)]]]
  note m6 = more [OF m5 advances [OF sample_login(5)]]
  note m7 = more [OF m6 advances [OF sample_login(6) [OF empty(2)]]]
  show ?thesis using m7 by blast
qed

theorem one_login_per_challenge_witness:
  "\<exists>w'. (login_move sample_auth_lib)\<^sup>*\<^sup>* \<lparr>lw_state = sample_auth, lw_phases = []\<rparr> w' \<and>
     lw_phases w' = [Answered (Logged_in sample_challenge sample_account ''x1ADMIN'')] \<and>
     ch_walletAddress sample_challenge = ac_walletAddress sample_account"
proof -
  obtain s where run: "(login_move sample_auth_lib)\<^sup>*\<^sup>* \<lparr>lw_state = sample_auth, lw_phases = []\<rparr>
     \<lparr>lw_state = s, lw_phases = [Answered (Logged_in sample_challenge sample_account ''x1ADMIN'')]\<rparr>"
    using sample_logged_in by blast
  have "ch_walletAddress sample_challenge = ac_walletAddress sample_account"
    using one_login_per_challenge [OF run, of 0 sample_challenge sample_account "''x1ADMIN''" 0
        sample_challenge sample_account "''x1ADMIN''"]
    by (simp add: sample_auth_def)
  with run show ?thesis by auto
qed

text \<open>
  C35: The platform's administrator role is given by administrators, by the deployment or by the bootstrap
  secret, and by nothing else. If after any operation a wallet is an administrator that was none before,
  then either the operation was a login of this wallet, which is on the deployment's list and signed one
  of its challenges; or a grant or role change requested with a live session of an administrator; or a
  bootstrap at a deployment that enables it, with a secret of the digest of the configured one.
\<close>

theorem admin_needs_authority:
  assumes "w \<in> admin_wallets (do_auth e op s)" and "w \<notin> admin_wallets s"
  shows "(\<exists>rq. op = Op_login rq \<and> w \<in> set (adminAllowlist e) \<and> (\<exists>c. signed_by (av_lib e) w c)) \<or>
    (\<exists>rq. (op = Op_grant rq \<or> (\<exists>i. op = Op_role rq i)) \<and> isAdmin (getSession e s (wr_cookie rq))) \<or>
    (\<exists>rq h given. op = Op_bootstrap rq h \<and> bootstrap_enabled e \<and>
       secretsMatch (av_lib e) given (the (av_bootstrapSecret e)) \<and>
       (h = Some given \<or> body_text (wr_body rq) ''bootstrapSecret'' = Some given))"
proof (cases op)
  case (Op_challenge rq)
  then have "ax_accounts (do_auth e op s) = ax_accounts s"
    by (auto simp: do_auth_def challenge_POST_def createChallenge_accounts split: prod.split option.split)
  then show ?thesis using assms by (simp add: admin_wallets_def)
next
  case (Op_login rq)
  obtain p t where b: "verify_begin e rq s = (p, t)" by (metis surj_pair)
  then have t: "admin_wallets t = admin_wallets s" and p: "p = Answered (Login_refused 429) \<or>
      p = Answered (Login_refused 400) \<or> (\<exists>a sig. p = Arrived a sig)"
    by (auto simp: verify_begin_def admin_wallets_def split: prod.splits option.splits if_splits)
  obtain a where a: "phase_wallet p = None \<or> phase_wallet p = Some a" and ok: "phase_ok (av_lib e) p"
    using p by (auto simp: phase_wallet_def phase_ok_def)
  obtain p' t' where r: "login_run e p t = (p', t')" by (metis surj_pair)
  then have "w \<in> admin_wallets t'" using assms(1) Op_login b by (simp add: do_auth_def verify_POST_def)
  moreover have "admin_wallets t' \<subseteq> admin_wallets t \<union> (if signed_in e a then {a} else {})"
    using run_admins [OF r [unfolded login_run_def] ok a] by blast
  ultimately show ?thesis using assms(2) t Op_login by (auto simp: signed_in_def split: if_splits)
next
  case (Op_logout rq)
  have "ax_accounts (do_auth e op s) = ax_accounts s"
    by (simp add: Op_logout do_auth_def logout_POST_def deleteSession_def Let_def split: option.split)
  then show ?thesis using assms by (simp add: admin_wallets_def)
next
  case (Op_grant rq)
  have "isAdmin (getSession e s (wr_cookie rq))"
  proof (rule ccontr)
    assume "\<not> isAdmin (getSession e s (wr_cookie rq))"
    then have "do_auth e op s = s"
      using Op_grant by (auto simp: do_auth_def grant_POST_def requireAdmin_def Let_def)
    then show False using assms by simp
  qed
  then show ?thesis using Op_grant by blast
next
  case (Op_role rq i)
  have "isAdmin (getSession e s (wr_cookie rq))"
  proof (rule ccontr)
    assume "\<not> isAdmin (getSession e s (wr_cookie rq))"
    then have "do_auth e op s = s"
      using Op_role by (auto simp: do_auth_def role_PATCH_def requireAdmin_def Let_def)
    then show False using assms by simp
  qed
  then show ?thesis using Op_role by blast
next
  case (Op_bootstrap rq h)
  show ?thesis
  proof (cases rule: bootstrap_cases [of e rq h s])
    case (refused t status)
    then have False using assms Op_bootstrap by (simp add: do_auth_def admin_wallets_def)
    then show ?thesis ..
  next
    case (promoted t)
    then show ?thesis using Op_bootstrap by blast
  qed
qed

theorem admin_needs_authority_witness:
  "\<exists>rq s op. op = Op_bootstrap rq (Some (replicate 32 CHR ''b'')) \<and>
     ''GB'' \<in> admin_wallets (do_auth sample_auth_env op s) \<and> ''GB'' \<notin> admin_wallets s \<and> bootstrap_enabled sample_auth_env"
proof -
  let ?rq = "\<lparr>wr_forwarded = None, wr_realIp = None, wr_cookie = None,
    wr_body = JObj [(''walletAddress'', JStr ''GB'')]\<rparr>"
  let ?op = "Op_bootstrap ?rq (Some (replicate 32 CHR ''b''))"
  have "js_trim (replicate 32 CHR ''b'') = replicate 32 CHR ''b''"
    by (rule js_trim_id) (simp add: js_ws_def)
  then have on: "bootstrap_enabled sample_auth_env"
    by (simp add: bootstrap_enabled_def sample_auth_env_def MIN_SECRET_LENGTH_def)
  have new: "''GB'' \<in> admin_wallets (do_auth sample_auth_env ?op sample_auth)"
    using on by (simp add: do_auth_def bootstrap_POST_def throttle_def rateLimit_def tick_cleanup_def take_token_def
        sample_auth_def empty_limiter_def MAX_BUCKET_AGE_CHECK_def Let_def secretsMatch_def sample_auth_env_def
        bootstrap_account_def bootstrap_target_def upsert_account_def find_account_def findFirst_def
        admin_wallets_def)
  have old: "''GB'' \<notin> admin_wallets sample_auth" by (simp add: admin_wallets_def sample_auth_def)
  show ?thesis
    using admin_needs_authority [OF new old] new old by blast
qed

text \<open>
  A logout revokes its token and nothing else. Whatever the token says and however long it is valid,
  after the logout no request with it has a session, at any time and with any key, and every other token
  has exactly the session it had.
\<close>

theorem logout_revokes_its_token:
  "getSession e' (logout_POST e rq s) token =
     (if token = wr_cookie rq then None else getSession e' s token)"
proof (cases "truthy (wr_cookie rq)")
  case True
  then obtain t where t: "wr_cookie rq = Some t" "t \<noteq> []" by (cases "wr_cookie rq") auto
  have out: "ax_sessions (logout_POST e rq s) = filter (\<lambda>r. se_token r \<noteq> t) (ax_sessions s)"
    "ax_accounts (logout_POST e rq s) = ax_accounts s"
    using t by (simp_all add: logout_POST_def deleteSession_def Let_def split: option.split)
  have gone: "findFirst (\<lambda>r. se_token r = t) (filter (\<lambda>r. se_token r \<noteq> t) rows) = None" for rows
    by simp
  have other: "findFirst (\<lambda>r. se_token r = x) (filter (\<lambda>r. se_token r \<noteq> t) rows) = findFirst (\<lambda>r. se_token r = x) rows"
    if "x \<noteq> t" for x rows
    using that by (induction rows) (auto simp: findFirst_Cons)
  show ?thesis
  proof (cases "token = Some t")
    case True
    then show ?thesis by (simp add: getSession_def out gone t split: option.split)
  next
    case False
    show ?thesis
    proof (cases token)
      case (Some x)
      with False have "x \<noteq> t" by simp
      then show ?thesis
        unfolding getSession_def Some option.sel out by (simp add: other t split: option.split)
    qed (simp add: getSession_def t)
  qed
next
  case False
  then show ?thesis by (auto simp: logout_POST_def getSession_def)
qed

text \<open>
  A change of role reaches every session at once. After a successful change of a user's role, every live
  session of the user carries the new role, whatever role its token was issued with, and passes the
  administrator guard exactly when the new role is that of an administrator.
\<close>

theorem role_change_reaches_sessions:
  assumes "role_PATCH e rq i s = (s', Inr u)" and "distinct (map ac_id (ax_accounts s))"
    and "distinct (map se_token (ax_sessions s))"
    and "row \<in> set (ax_sessions s)" and "se_userId row = i" and "getSession e' s' (Some (se_token row)) = Some p"
  shows "ap_role p = role_text (ac_role u) \<and> (withAdminGuard (Some p) = Inr p \<longleftrightarrow> ac_role u = ADMIN')"
proof -
  obtain r target where target: "findFirst (\<lambda>u. ac_id u = i) (ax_accounts s) = Some target"
    and out: "ax_accounts s' = updated (\<lambda>u. ac_id u = i) (\<lambda>u. u\<lparr>ac_role := r\<rparr>) (ax_accounts s)"
      "ax_sessions s' = ax_sessions s" "u = target\<lparr>ac_role := r\<rparr>"
    using assms(1) by (auto simp: role_PATCH_def Let_def split: option.splits)
  from assms(6) obtain row' v where v: "findFirst (\<lambda>r. se_token r = se_token row) (ax_sessions s) = Some row'"
    "findFirst (\<lambda>u. ac_id u = se_userId row') (ax_accounts s') = Some v" "ap_role p = role_text (ac_role v)"
  proof (rule getSession_Some)
    fix q v
    assume "findFirst (\<lambda>r. se_token r = the (Some (se_token row))) (ax_sessions s') = Some q"
      "findFirst (\<lambda>u. ac_id u = se_userId q) (ax_accounts s') = Some v" "ap_role p = role_text (ac_role v)"
    then show thesis by (intro that [of q v]) (simp_all add: out(2))
  qed
  have "row' = row"
    by (rule inj_onD [of se_token "set (ax_sessions s)"])
      (use findFirst_SomeD [OF v(1)] assms(3,4) in \<open>simp_all add: distinct_map\<close>)
  then have "v \<in> set (ax_accounts s')" "ac_id v = i" using findFirst_SomeD [OF v(2)] assms(5) by auto
  then obtain q where "v = (if ac_id q = i then q\<lparr>ac_role := r\<rparr> else q)" "ac_id v = i"
    unfolding out(1) set_updated by blast
  then have "ac_role v = r" by (cases "ac_id q = i") simp_all
  then show ?thesis using v(3) out(3) by (simp add: withAdminGuard_def isAdmin_def)
qed

text \<open>
  Two logins of a wallet within one second do not both succeed. The token holds the user, the wallet, the
  role and the second, so the second login builds the token of the first; its session collides with the
  stored one and the request ends in the generic error, with its challenge already spent.
\<close>

theorem second_login_in_same_second_fails:
  assumes "createSession e u s = (s1, Some token)"
    and "av_now e2 div 1000 = av_now e div 1000" and "av_secret e2 = av_secret e" and "av_lib e2 = av_lib e"
    and "set (ax_sessions s1) \<subseteq> set (ax_sessions s2)"
  shows "login_advance e2 (Named u c) s2 = (Answered (Login_refused 500), s2)"
proof -
  have same: "signJwt e2 u = signJwt e u"
  proof -
    have "getSecret e2 = getSecret e" "claims_for e2 u = claims_for e u"
      using assms(2,3) by (simp_all add: getSecret_def claims_for_def)
    then show ?thesis using assms(4) by (simp add: signJwt_def split: option.split)
  qed
  have sign: "signJwt e u = Some token" "token \<in> se_token ` set (ax_sessions s1)"
    using assms(1) by (auto simp: createSession_def createUnique_def split: option.splits if_splits)
  then have "token \<in> se_token ` set (ax_sessions s2)" using assms(5) by blast
  then have "createSession e2 u s2 = (s2, None)"
    by (simp add: createSession_def same sign createUnique_def)
  then show ?thesis by (simp add: login_advance_def)
qed

theorem second_login_in_same_second_fails_witness:
  "\<exists>s1. createSession sample_auth_env sample_account sample_auth = (s1, Some ''x1ADMIN'') \<and>
     login_advance (sample_auth_env\<lparr>av_now := 5999\<rparr>) (Named sample_account sample_challenge) s1
       = (Answered (Login_refused 500), s1)"
proof -
  let ?s1 = "sample_auth\<lparr>ax_sessions := [sample_session]\<rparr>"
  have first: "createSession sample_auth_env sample_account sample_auth = (?s1, Some ''x1ADMIN'')"
    by (simp add: createSession_def signJwt_def getSecret_def claims_for_def role_text_def createUnique_def
        sample_session_def JWT_EXPIRY_SECONDS_def sample_auth_env_def sample_auth_lib_def sample_account_def
        sample_auth_def)
  have "login_advance (sample_auth_env\<lparr>av_now := 5999\<rparr>) (Named sample_account sample_challenge) ?s1
       = (Answered (Login_refused 500), ?s1)"
    by (rule second_login_in_same_second_fails [OF first]) (simp_all add: sample_auth_env_def)
  with first show ?thesis by blast
qed

text \<open>A library whose tokens are always read as the sample's claims, and an administrator's session.\<close>

definition reading_env :: auth_env where
  "reading_env = sample_auth_env\<lparr>av_lib := sample_auth_lib\<lparr>li_jwtVerify := (\<lambda>k t token. Some
     \<lparr>jc_userId = ''x1'', jc_walletAddress = ''GA'', jc_role = ''ADMIN'', jc_iat = 5, jc_exp = 86405\<rparr>)\<rparr>\<rparr>"

definition sample_office :: auth_state where
  "sample_office = sample_auth\<lparr>ax_accounts := [sample_account], ax_sessions := [sample_session]\<rparr>"

definition sample_demotion :: web_request where
  "sample_demotion = \<lparr>wr_forwarded = None, wr_realIp = None, wr_cookie = Some ''x1ADMIN'',
     wr_body = JObj [(''role'', JStr ''EMPLOYEE'')]\<rparr>"

theorem role_change_reaches_sessions_witness:
  "\<exists>s' u p. role_PATCH reading_env sample_demotion ''x1'' sample_office = (s', Inr u) \<and>
     getSession reading_env s' (Some ''x1ADMIN'') = Some p \<and> ap_role p = ''EMPLOYEE''"
proof -
  note defs = reading_env_def sample_auth_env_def sample_auth_lib_def sample_office_def sample_auth_def
    sample_account_def sample_session_def sample_demotion_def
  obtain s' u where r: "role_PATCH reading_env sample_demotion ''x1'' sample_office = (s', Inr u)"
    "ac_role u = EMPLOYEE" "ax_accounts s' = [sample_account\<lparr>ac_role := EMPLOYEE\<rparr>]" "ax_sessions s' = [sample_session]"
    by (simp add: role_PATCH_def requireAdmin_def isAdmin_def getSession_def verifyJwt_def getSecret_def
        role_text_def updateRoleSchema_def body_text_def platform_role_named_def findFirst_def updated_eq defs)
  obtain p where p: "getSession reading_env s' (Some ''x1ADMIN'') = Some p"
    using r(3,4) by (simp add: getSession_def verifyJwt_def getSecret_def findFirst_def defs)
  have "ap_role p = role_text (ac_role u)"
    using role_change_reaches_sessions [OF r(1), of sample_session reading_env p] p
    by (simp add: defs)
  with r(1,2) p show ?thesis by (auto simp: role_text_def)
qed

text \<open>
  The challenge of a wallet cannot be another wallet's. Two challenge texts of well-formed addresses are
  equal exactly when the address and the nonce are, so a signature of one is a signature of no other.
\<close>

theorem challenge_text_binds:
  assumes "stellarAddress w" and "stellarAddress w'"
  shows "buildChallengeString w n = buildChallengeString w' n' \<longleftrightarrow> w = w' \<and> n = n'"
  using assms by (auto simp: buildChallengeString_def stellarAddress_def)

theorem challenge_text_binds_witness:
  "buildChallengeString (CHR ''G'' # replicate 55 CHR ''A'') ''n'' \<noteq>
   buildChallengeString (CHR ''G'' # replicate 55 CHR ''B'') ''n''"
  using challenge_text_binds [of "CHR ''G'' # replicate 55 CHR ''A''" "CHR ''G'' # replicate 55 CHR ''B''"]
  by (simp add: stellarAddress_def list_all_iff)

text \<open>
  The bootstrap route tells whether it is enabled. Although every refusal is meant to look alike, a
  request without the header whose body is \<open>null\<close> is answered with the server error exactly when the
  deployment enables the route and the client is not throttled, and with the 404 otherwise.
\<close>

theorem null_body_reveals_bootstrap:
  assumes "wr_body rq = JNull"
  shows "snd (bootstrap_POST e rq None s) =
    (if bootstrap_enabled e \<and>
        lr_ok (snd (throttle e (''bootstrap:'' @ clientIp (wr_forwarded rq) (wr_realIp rq))
          BOOTSTRAP_ATTEMPT_LIMIT BOOTSTRAP_WINDOW_MS s))
     then Inl 500 else Inl 404)"
  using assms by (simp add: bootstrap_POST_def Let_def split: prod.split)

theorem null_body_reveals_bootstrap_witness:
  "\<exists>rq. snd (bootstrap_POST sample_auth_env rq None sample_auth) = Inl 500"
proof -
  let ?rq = "\<lparr>wr_forwarded = None, wr_realIp = None, wr_cookie = None, wr_body = JNull\<rparr>"
  have "js_trim (replicate 32 CHR ''b'') = replicate 32 CHR ''b''"
    by (rule js_trim_id) (simp add: js_ws_def)
  then have "bootstrap_enabled sample_auth_env"
    by (simp add: bootstrap_enabled_def sample_auth_env_def MIN_SECRET_LENGTH_def)
  then have "snd (bootstrap_POST sample_auth_env ?rq None sample_auth) = Inl 500"
    using null_body_reveals_bootstrap [of ?rq sample_auth_env sample_auth]
    by (simp add: throttle_def rateLimit_def tick_cleanup_def take_token_def sample_auth_def empty_limiter_def
        MAX_BUCKET_AGE_CHECK_def Let_def)
  then show ?thesis by blast
qed

section \<open>Guessing the bootstrap secret\<close>

text \<open>Attempts one after another, and whether the limiter let each pass.\<close>

fun attempts_pass :: "(auth_env \<times> web_request) list \<Rightarrow> auth_state \<Rightarrow> bool list" where
  "attempts_pass [] s = []"
| "attempts_pass ((e, rq) # rest) s =
     (let ip = clientIp (wr_forwarded rq) (wr_realIp rq);
          passed = lr_ok (snd (throttle e (''bootstrap:'' @ ip) BOOTSTRAP_ATTEMPT_LIMIT BOOTSTRAP_WINDOW_MS s))
      in passed # attempts_pass rest (fst (bootstrap_POST e rq None s)))"

definition no_bucket :: "string \<Rightarrow> auth_state \<Rightarrow> bool" where
  "no_bucket k s \<longleftrightarrow> lm_buckets (ax_limiter s) k = None"

lemma cleanup_no_bucket: "m k = None \<Longrightarrow> cleanupExpiredBuckets t m k = None"
  by (simp add: cleanupExpiredBuckets_def)

lemma throttle_no_bucket:
  assumes "no_bucket k s"
  shows "lr_ok (snd (throttle e k n m s))"
    and "k' \<noteq> k \<Longrightarrow> no_bucket k' s \<Longrightarrow> no_bucket k' (fst (throttle e k n m s))"
  using assms by (auto simp: no_bucket_def throttle_def rateLimit_def tick_cleanup_def take_token_def Let_def
      cleanup_no_bucket split: option.split prod.split)

lemma audit_limiter [simp]: "ax_limiter (audit a b c d s) = ax_limiter s"
  by (simp add: audit_def)

lemma upsert_limiter: "upsert_account i w f g s = (s', u) \<Longrightarrow> ax_limiter s' = ax_limiter s"
  by (auto simp: upsert_account_def Let_def split: option.splits)

lemma bootstrap_account_limiter: "ax_limiter (fst (bootstrap_account e rq s)) = ax_limiter s"
  by (cases rule: bootstrap_account_cases [of e rq s]) (auto simp: upsert_limiter)

lemma bootstrap_no_bucket:
  assumes "no_bucket k s" and "no_bucket (''bootstrap:'' @ clientIp (wr_forwarded rq) (wr_realIp rq)) s"
    and "k \<noteq> ''bootstrap:'' @ clientIp (wr_forwarded rq) (wr_realIp rq)"
  shows "no_bucket k (fst (bootstrap_POST e rq h s))"
proof -
  let ?k = "''bootstrap:'' @ clientIp (wr_forwarded rq) (wr_realIp rq)"
  obtain t rl where t: "throttle e ?k BOOTSTRAP_ATTEMPT_LIMIT BOOTSTRAP_WINDOW_MS s = (t, rl)"
    by (metis surj_pair)
  have "no_bucket k t"
    using throttle_no_bucket(2) [OF assms(2) assms(3) assms(1), of e BOOTSTRAP_ATTEMPT_LIMIT BOOTSTRAP_WINDOW_MS] t
    by simp
  then show ?thesis
    using assms(1) t by (simp add: bootstrap_POST_def Let_def no_bucket_def bootstrap_account_limiter)
qed

text \<open>
  The brake on guessing the bootstrap secret is released by a header. Attempts that name pairwise
  different client addresses in \<open>x-forwarded-for\<close>, which the sender chooses, are all let through to the
  comparison, however many there are and however fast they come.
\<close>

theorem forged_addresses_never_throttled:
  assumes "distinct (map (\<lambda>(e, rq). clientIp (wr_forwarded rq) (wr_realIp rq)) tries)"
    and "lm_buckets (ax_limiter s) = (\<lambda>_. None)"
  shows "attempts_pass tries s = replicate (length tries) True"
proof -
  have "attempts_pass tries s = replicate (length tries) True"
    if "distinct (map (\<lambda>(e, rq). clientIp (wr_forwarded rq) (wr_realIp rq)) tries)"
      "\<forall>(e, rq) \<in> set tries. no_bucket (''bootstrap:'' @ clientIp (wr_forwarded rq) (wr_realIp rq)) s" for tries s
    using that
  proof (induction tries arbitrary: s)
    case (Cons a tries)
    obtain e rq where [simp]: "a = (e, rq)" by (cases a)
    have "\<forall>(e', rq') \<in> set tries.
        no_bucket (''bootstrap:'' @ clientIp (wr_forwarded rq') (wr_realIp rq')) (fst (bootstrap_POST e rq None s))"
      using Cons.prems by (force intro: bootstrap_no_bucket)
    with Cons.prems Cons.IH show ?case by (simp add: throttle_no_bucket(1) Let_def)
  qed simp
  with assms show ?thesis by (auto simp: no_bucket_def)
qed

theorem forged_addresses_never_throttled_witness:
  "attempts_pass (map (\<lambda>n. (sample_auth_env, \<lparr>wr_forwarded = Some (replicate (Suc n) CHR ''1''),
      wr_realIp = None, wr_cookie = None, wr_body = JObj []\<rparr>)) [0..<10]) sample_auth = replicate 10 True"
proof -
  have "clientIp (Some (replicate (Suc n) CHR ''1'')) None = replicate (Suc n) CHR ''1''" for n
    by (simp add: clientIp_def js_trim_id js_ws_def)
  then have "inj_on (\<lambda>n. clientIp (Some (replicate (Suc n) CHR ''1'')) None) A" for A
    by (simp add: inj_on_def)
  then show ?thesis
    by (subst forged_addresses_never_throttled)
      (simp_all add: comp_def distinct_map sample_auth_def empty_limiter_def)
qed

end
