(* ===== verification/OrgRoutes.thy ===== *)
theory OrgRoutes
  imports Members PayrollCsv
begin

text \<open>
  Creating an organization, \<open>src/app/api/organizations/route.ts\<close>, and its invitations,
  \<open>api/organizations/[id]/invitations/route.ts\<close> and \<open>[invitationId]/route.ts\<close>. The columns \<open>invitedBy\<close> and
  \<open>revokedBy\<close> are written and only shown; they are left out. Names are texts of ASCII characters, on which
  the normalization of \<open>slugify\<close> is the identity.
\<close>

section \<open>Creating an organization\<close>

definition slug_char :: "char \<Rightarrow> bool" where
  "slug_char c \<longleftrightarrow> (let n = code_unit c :: nat in 48 \<le> n \<and> n \<le> 57 \<or> 97 \<le> n \<and> n \<le> 122)"

text \<open>\<open>replace(/[^\p{Letter}\p{Number}]+/gu, '-')\<close> on lower-case text; the flag says that a hyphen was written.\<close>

fun hyphenate :: "bool \<Rightarrow> string \<Rightarrow> string" where
  "hyphenate gap [] = []"
| "hyphenate gap (c # cs) =
     (if slug_char c then c # hyphenate False cs
      else if gap then hyphenate True cs else CHR ''-'' # hyphenate True cs)"

definition trim_hyphens :: "string \<Rightarrow> string" where
  "trim_hyphens s = rev (dropWhile (\<lambda>c. c = CHR ''-'') (rev (dropWhile (\<lambda>c. c = CHR ''-'') s)))"

definition slugify :: "string \<Rightarrow> string" where
  "slugify name = take 48 (trim_hyphens (hyphenate False (toLowerCase name)))"

definition slug_taken :: "database \<Rightarrow> string \<Rightarrow> bool" where
  "slug_taken db slug \<longleftrightarrow> findFirst (\<lambda>o'. og_slug o' = slug) (organizations db) \<noteq> None"

definition slug_suffixes :: "nat list" where
  "slug_suffixes = [2..<50]"

text \<open>The loop over \<open>i\<close>: the last candidate leaves it unchecked.\<close>

fun pick_slug :: "database \<Rightarrow> string \<Rightarrow> string \<Rightarrow> nat list \<Rightarrow> string" where
  "pick_slug db base slug [] = slug"
| "pick_slug db base slug (i # is) =
     (if slug_taken db slug then pick_slug db base (base @ ''-'' @ show_nat i) is else slug)"

record created_org =
  co_org :: organization_row
  co_member :: member_row

definition insert_organization ::
  "env \<Rightarrow> row_id \<Rightarrow> address \<Rightarrow> string \<Rightarrow> string \<Rightarrow> database \<Rightarrow> (database \<times> created_org) option" where
  "insert_organization e userId wallet name base db0 =
     (let slug = pick_slug db0 base base slug_suffixes;
          org = \<lparr>og_id = new_id e db0, og_name = name, og_slug = slug\<rparr> in
      case createUnique og_slug org (organizations db0) of
        None \<Rightarrow> None
      | Some orgs \<Rightarrow>
          let db = db0\<lparr>organizations := orgs, serial := Suc (serial db0)\<rparr>;
              member = \<lparr>mb_id = new_id e db, mb_orgId = og_id org, mb_userId = userId, mb_role = OWNER,
                mb_status = ACTIVE, mb_invitedAt = None, mb_activatedAt = Some (now e),
                mb_suspendedAt = None, mb_createdAt = now e\<rparr>;
              db = db\<lparr>members := members db @ [member], serial := Suc (serial db)\<rparr>;
              db = writeMembershipAudit e db (og_id org) ''organization.created'' (Some wallet) None (Some userId)
                (Some [(''name'', JStr name), (''slug'', JStr slug), (''role'', JStr (org_role_name OWNER))])
          in Some (db, \<lparr>co_org = org, co_member = member\<rparr>))"

definition createOrganization ::
  "env \<Rightarrow> (row_id \<times> address) option \<Rightarrow> string option \<Rightarrow> database \<Rightarrow> database \<times> (nat + created_org)" where
  "createOrganization e user bodyName db =
     (case user of
        None \<Rightarrow> (db, Inl 401)
      | Some (userId, wallet) \<Rightarrow>
          (let name = js_trim (case bodyName of None \<Rightarrow> [] | Some s \<Rightarrow> s) in
           if length name < 2 \<or> length name > 80 then (db, Inl 400)
           else let base = slugify name in
             if base = [] then (db, Inl 400)
             else case insert_organization e userId wallet name base db of
               None \<Rightarrow> (db, Inl 500)
             | Some (db', made) \<Rightarrow> (db', Inr made)))"

section \<open>A call on one organization\<close>

text \<open>What \<open>withTenant\<close> reads of a request, and the organization of its path.\<close>

record org_call =
  oc_user :: "row_id option"
  oc_header :: "string option"
  oc_query :: "string option"
  oc_bodyOrg :: "string option"
  oc_orgId :: row_id

definition org_entry :: "database \<Rightarrow> org_call \<Rightarrow> permission \<Rightarrow> tenant_context result" where
  "org_entry db call p =
     (case withTenant db (oc_user call) (oc_header call) (oc_query call) (oc_bodyOrg call) (Some p) of
        Inl d \<Rightarrow> Inl d
      | Inr ctx \<Rightarrow> if tc_orgId ctx \<noteq> oc_orgId call then Inl (deny 404 None) else Inr ctx)"

section \<open>Invitations\<close>

datatype shown_status = REVOKED | ACCEPTED | EXPIRED | PENDING

definition invitation_status :: "instant \<Rightarrow> invitation_row \<Rightarrow> shown_status" where
  "invitation_status t i =
     (if iv_revokedAt i \<noteq> None then REVOKED else if iv_usedAt i \<noteq> None then ACCEPTED
      else if iv_expiresAt i \<le> t then EXPIRED else PENDING)"

text \<open>The list, without the hash of the token; the order by creation is the order of the table.\<close>

record invitation_view =
  vi_id :: row_id
  vi_email :: string
  vi_orgRole :: org_role
  vi_status :: shown_status

definition listInvitations ::
  "env \<Rightarrow> database \<Rightarrow> org_call \<Rightarrow> (invitation_view list \<times> org_role list) result" where
  "listInvitations e db call =
     (case org_entry db call Member_read of
        Inl d \<Rightarrow> Inl d
      | Inr ctx \<Rightarrow> Inr (map (\<lambda>i. \<lparr>vi_id = iv_id i, vi_email = iv_email i, vi_orgRole = iv_orgRole i,
                                  vi_status = invitation_status (now e) i\<rparr>)
                        (rev (filter (\<lambda>i. iv_orgId i = tc_orgId ctx) (invitations db))),
                      assignableRoles (tc_role ctx)))"

text \<open>\<open>/^[^\s@]+@[^\s@]+\.[^\s@]+$/\<close>: one \<open>@\<close>, no white space, and a point inside the domain.\<close>

definition EMAIL :: "string \<Rightarrow> bool" where
  "EMAIL s \<longleftrightarrow>
     (let at = (\<lambda>c. c = CHR ''@''); local = takeWhile (\<lambda>c. \<not> at c) s; rest = dropWhile (\<lambda>c. \<not> at c) s;
          domain = tl rest
      in list_all (\<lambda>c. \<not> js_ws c) s \<and> local \<noteq> [] \<and> rest \<noteq> [] \<and> \<not> list_ex at domain \<and>
         list_ex (\<lambda>i. domain ! i = CHR ''.'') [1..<length domain - 1])"

definition seat :: "row_id \<Rightarrow> string \<Rightarrow> invitation_row \<Rightarrow> bool" where
  "seat orgId email i \<longleftrightarrow> iv_orgId i = orgId \<and> iv_email i = email"

text \<open>The upsert by organization and address, under the unique index on the hash.\<close>

definition upsert_invitation ::
  "env \<Rightarrow> row_id \<Rightarrow> string \<Rightarrow> org_role \<Rightarrow> string \<Rightarrow> database \<Rightarrow> (database \<times> invitation_row) option" where
  "upsert_invitation e orgId email orgRole tokenHash db =
     (let expiresAt = now e + int INVITATION_TTL_DAYS * 86400000 in
      case findFirst (seat orgId email) (invitations db) of
        Some i \<Rightarrow>
          (let f = (\<lambda>i. i\<lparr>iv_orgRole := orgRole, iv_tokenHash := tokenHash, iv_expiresAt := expiresAt,
                         iv_usedAt := None, iv_revokedAt := None\<rparr>) in
           if \<exists>j \<in> set (invitations db). iv_tokenHash j = tokenHash \<and> \<not> seat orgId email j then None
           else Some (db\<lparr>invitations := updated (seat orgId email) f (invitations db)\<rparr>, f i))
      | None \<Rightarrow>
          (let i = \<lparr>iv_id = new_id e db, iv_orgId = orgId, iv_email = email, iv_orgRole = orgRole,
                    iv_tokenHash = tokenHash, iv_expiresAt = expiresAt, iv_usedAt = None, iv_revokedAt = None\<rparr> in
           case createUnique iv_tokenHash i (invitations db) of
             None \<Rightarrow> None
           | Some rows \<Rightarrow> Some (db\<lparr>invitations := rows, serial := Suc (serial db)\<rparr>, i)))"

definition inviteMember ::
  "env \<Rightarrow> (string \<Rightarrow> string) \<Rightarrow> string \<Rightarrow> org_call \<Rightarrow> string option \<Rightarrow> string option \<Rightarrow> database \<Rightarrow>
   database \<times> invitation_row result" where
  "inviteMember e digest token call bodyEmail bodyRole db =
     (case org_entry db call Member_invite of
        Inl d \<Rightarrow> (db, Inl d)
      | Inr ctx \<Rightarrow>
          (let email = toLowerCase (js_trim (case bodyEmail of None \<Rightarrow> [] | Some s \<Rightarrow> s)) in
           if \<not> EMAIL email then (db, Inl (deny 400 None))
           else if \<not> truthy bodyRole then (db, Inl (deny 400 None))
           else case role_named (the bodyRole) of
             None \<Rightarrow> (db, Inl (deny 400 None))
           | Some orgRole \<Rightarrow>
               (case checkRoleAssignment ctx orgRole of
                  Some d \<Rightarrow> (db, Inl d)
                | None \<Rightarrow>
                    (case upsert_invitation e (tc_orgId ctx) email orgRole (digest token) db of
                       None \<Rightarrow> (db, Inl (deny 409 None))
                     | Some (db', i) \<Rightarrow>
                         (writeMembershipAudit e db' (tc_orgId ctx) ''invitation.sent'' (Some (tc_walletAddress ctx))
                            None None (Some [(''email'', JStr email), (''orgRole'', JStr (org_role_name orgRole)),
                                             (''invitationId'', JStr (iv_id i))]),
                          Inr i)))))"

text \<open>The revocation, as its checks and its transaction.\<close>

definition revoke_check :: "database \<Rightarrow> org_call \<Rightarrow> row_id \<Rightarrow> (tenant_context \<times> invitation_row) result" where
  "revoke_check db call invitationId =
     (case org_entry db call Member_invite of
        Inl d \<Rightarrow> Inl d
      | Inr ctx \<Rightarrow>
          (case findFirst (\<lambda>i. iv_id i = invitationId \<and> iv_orgId i = tc_orgId ctx) (invitations db) of
             None \<Rightarrow> Inl (deny 404 None)
           | Some i \<Rightarrow>
               if iv_usedAt i \<noteq> None then Inl (deny 409 (Some ''ALREADY_ACCEPTED'')) else Inr (ctx, i)))"

definition revoke_commit :: "env \<Rightarrow> tenant_context \<Rightarrow> invitation_row \<Rightarrow> database \<Rightarrow> database" where
  "revoke_commit e ctx i db =
     writeMembershipAudit e
       (db\<lparr>invitations := updated (\<lambda>q. iv_id q = iv_id i) (\<lambda>q. q\<lparr>iv_revokedAt := Some (now e)\<rparr>) (invitations db)\<rparr>)
       (tc_orgId ctx) ''invitation.revoked'' (Some (tc_walletAddress ctx)) None None
       (Some [(''invitationId'', JStr (iv_id i)), (''email'', JStr (iv_email i))])"

definition revokeInvitation :: "env \<Rightarrow> org_call \<Rightarrow> row_id \<Rightarrow> database \<Rightarrow> database \<times> unit result" where
  "revokeInvitation e call invitationId db =
     (case revoke_check db call invitationId of
        Inl d \<Rightarrow> (db, Inl d) | Inr (ctx, i) \<Rightarrow> (revoke_commit e ctx i db, Inr ()))"

section \<open>Lemmas\<close>

lemma slug_taken_iff: "slug_taken db slug \<longleftrightarrow> slug \<in> og_slug ` set (organizations db)"
  by (auto simp: slug_taken_def)

text \<open>The loop ends on a free slug exactly when it tried one.\<close>

lemma pick_slug_free:
  "slug_taken db (pick_slug db base slug is) \<longleftrightarrow>
     (\<forall>c \<in> set (slug # map (\<lambda>i. base @ ''-'' @ show_nat i) is). slug_taken db c)"
  by (induction "is" arbitrary: slug) auto

lemma insert_organization_Some:
  assumes "insert_organization e userId wallet name base db = Some (db', made)"
  shows "organizations db' = organizations db @ [co_org made] \<and> og_slug (co_org made) \<notin> og_slug ` set (organizations db) \<and>
    og_name (co_org made) = name \<and> og_id (co_org made) = new_id e db \<and>
    members db' = members db @ [co_member made] \<and> mb_orgId (co_member made) = new_id e db \<and>
    mb_userId (co_member made) = userId \<and> mb_role (co_member made) = OWNER \<and> mb_status (co_member made) = ACTIVE \<and>
    invitations db' = invitations db \<and> payments db' = payments db"
  using assms by (auto simp: insert_organization_def createUnique_def Let_def writeMembershipAudit_def
      split: if_splits)

lemma insert_organization_None:
  "insert_organization e userId wallet name base db = None \<longleftrightarrow> slug_taken db (pick_slug db base base slug_suffixes)"
  by (simp add: insert_organization_def createUnique_def Let_def slug_taken_iff)

lemma org_entry_member:
  assumes "org_entry db call p = Inr ctx"
  obtains m where "m \<in> set (members db)" "mb_status m = ACTIVE" "oc_user call = Some (mb_userId m)"
    "tc_orgId ctx = mb_orgId m" "oc_orgId call = mb_orgId m" "tc_role ctx = mb_role m" "can (mb_role m) p"
proof -
  have "withTenant db (oc_user call) (oc_header call) (oc_query call) (oc_bodyOrg call) (Some p) = Inr ctx"
    "tc_orgId ctx = oc_orgId call"
    using assms by (auto simp: org_entry_def split: sum.splits if_splits)
  then show thesis using that by (elim withTenant_member) auto
qed

lemma checkRoleAssignment_None: "checkRoleAssignment ctx r = None \<Longrightarrow> canAssignRole (tc_role ctx) r"
  by (auto simp: checkRoleAssignment_def split: option.splits if_splits)

lemma upsert_invitation_Some:
  assumes "upsert_invitation e o' email r h db = Some (db', i)"
  shows "iv_orgId i = o' \<and> iv_email i = email \<and> iv_orgRole i = r \<and> iv_tokenHash i = h \<and>
    iv_expiresAt i = now e + int INVITATION_TTL_DAYS * 86400000 \<and> iv_usedAt i = None \<and> iv_revokedAt i = None \<and>
    i \<in> set (invitations db') \<and> members db' = members db \<and>
    filter (\<lambda>q. \<not> seat o' email q) (invitations db') = filter (\<lambda>q. \<not> seat o' email q) (invitations db) \<and>
    (\<forall>q \<in> set (invitations db'). seat o' email q \<longrightarrow> iv_tokenHash q = h)"
proof (cases "findFirst (seat o' email) (invitations db)")
  case None
  then have none: "\<not> seat o' email q" if "q \<in> set (invitations db)" for q using that by simp
  have i: "i = \<lparr>iv_id = new_id e db, iv_orgId = o', iv_email = email, iv_orgRole = r, iv_tokenHash = h,
      iv_expiresAt = now e + int INVITATION_TTL_DAYS * 86400000, iv_usedAt = None, iv_revokedAt = None\<rparr>"
    and db': "db' = db\<lparr>invitations := invitations db @ [i], serial := Suc (serial db)\<rparr>"
    using assms unfolding upsert_invitation_def None option.case Let_def createUnique_def
    by (auto split: if_splits)
  have "seat o' email i" by (simp add: i seat_def)
  with none show ?thesis by (simp add: db') (auto simp: i)
next
  case (Some j)
  then have j: "j \<in> set (invitations db)" "seat o' email j" by (auto dest: findFirst_SomeD)
  let ?f = "\<lambda>i. i\<lparr>iv_orgRole := r, iv_tokenHash := h, iv_expiresAt := now e + int INVITATION_TTL_DAYS * 86400000,
                 iv_usedAt := None, iv_revokedAt := None\<rparr>"
  have i: "i = ?f j" and db': "db' = db\<lparr>invitations := updated (seat o' email) ?f (invitations db)\<rparr>"
    using assms Some by (auto simp: upsert_invitation_def Let_def split: if_splits)
  have keep: "seat o' email (?f q) = seat o' email q" for q by (simp add: seat_def)
  have "filter (\<lambda>q. \<not> seat o' email q) (updated (seat o' email) ?f rows) = filter (\<lambda>q. \<not> seat o' email q) rows" for rows
    by (induction rows) (simp_all add: updated_eq keep)
  moreover have "?f j \<in> set (updated (seat o' email) ?f (invitations db))"
    using j by (auto simp: set_updated intro: bexI [of _ j])
  ultimately show ?thesis
    using j by (auto simp: i db' seat_def set_updated)
qed

lemma revoke_check_id: "revoke_check db call k = Inr (ctx, i) \<Longrightarrow> iv_id i = k"
  by (auto simp: revoke_check_def split: sum.splits option.splits if_splits dest!: findFirst_SomeD)

lemma acceptInvitation_commit_member:
  assumes "acceptInvitation_commit e db a u w = (db', Inr r)" and "find_member db (ai_orgId a) u = None"
  shows "\<exists>m \<in> set (members db'). mb_userId m = u \<and> mb_orgId m = ai_orgId a \<and> mb_status m = ACTIVE"
proof -
  have "find_member (db\<lparr>invitations := t\<rparr>) (ai_orgId a) u = None" for t
    using assms(2) by (simp add: find_member_def)
  with assms(1) show ?thesis
    by (auto simp: acceptInvitation_commit_def Let_def split: prod.splits if_splits)
qed

section \<open>Properties\<close>

text \<open>
  Creating an organization makes its caller the owner of it and touches no other. A successful request
  appends one organization, under a slug nobody had, and one member, the caller, as its active owner, so
  that it starts with an administrator; the administrators of every other organization, the invitations
  and the payments are what they were.
\<close>

theorem organization_created_with_owner:
  assumes "createOrganization e user bodyName db = (db', Inr made)"
    and "\<forall>m \<in> set (members db). mb_orgId m \<noteq> new_id e db"
  shows "\<exists>w. user = Some (mb_userId (co_member made), w) \<and>
    organizations db' = organizations db @ [co_org made] \<and>
    og_slug (co_org made) \<notin> og_slug ` set (organizations db) \<and>
    members db' = members db @ [co_member made] \<and>
    active_administrators db' (og_id (co_org made)) = [co_member made] \<and> mb_role (co_member made) = OWNER \<and>
    (\<forall>o'. o' \<noteq> og_id (co_org made) \<longrightarrow> active_administrators db' o' = active_administrators db o') \<and>
    invitations db' = invitations db \<and> payments db' = payments db"
proof -
  obtain u w name base where user: "user = Some (u, w)"
    and ins: "insert_organization e u w name base db = Some (db', made)"
    using assms(1) by (auto simp: createOrganization_def Let_def split: option.splits if_splits)
  note made = insert_organization_Some [OF ins]
  have "active_administrators db (new_id e db) = []"
    using assms(2) by (auto simp: active_administrators_def filter_empty_conv)
  with made user show ?thesis
    by (auto simp: active_administrators_def isAdministrative_iff)
qed

text \<open>
  When an organization can be created. An authenticated caller's request succeeds exactly when the
  trimmed name has 2 to 80 characters, leaves a slug that is not empty, and this slug or one of its forms
  with a number from 2 to 49 is free; the fiftieth organization of a name is answered with the server
  error, not with a choice of another name.
\<close>

theorem organization_creation_succeeds_iff:
  "(\<exists>made. snd (createOrganization e (Some (u, w)) bodyName db) = Inr made) \<longleftrightarrow>
     (let name = js_trim (case bodyName of None \<Rightarrow> [] | Some s \<Rightarrow> s); base = slugify name in
      2 \<le> length name \<and> length name \<le> 80 \<and> base \<noteq> [] \<and>
      (\<exists>c \<in> set (base # map (\<lambda>i. base @ ''-'' @ show_nat i) slug_suffixes). c \<notin> og_slug ` set (organizations db)))"
proof -
  let ?name = "js_trim (case bodyName of None \<Rightarrow> [] | Some s \<Rightarrow> s)"
  let ?base = "slugify ?name"
  have "(\<exists>made. snd (createOrganization e (Some (u, w)) bodyName db) = Inr made) \<longleftrightarrow>
     2 \<le> length ?name \<and> length ?name \<le> 80 \<and> ?base \<noteq> [] \<and> insert_organization e u w ?name ?base db \<noteq> None"
    by (cases "insert_organization e u w ?name ?base db") (auto simp: createOrganization_def Let_def)
  moreover have "insert_organization e u w ?name ?base db \<noteq> None \<longleftrightarrow>
      (\<exists>c \<in> set (?base # map (\<lambda>i. ?base @ ''-'' @ show_nat i) slug_suffixes). c \<notin> og_slug ` set (organizations db))"
    unfolding insert_organization_None pick_slug_free unfolding slug_taken_iff by (rule ball_simps)
  ultimately show ?thesis unfolding Let_def by blast
qed

text \<open>
  C38: An invitation is given within the inviter's delegation and replaces the one before it. After a
  successful request the caller is an active member of the organization in the path whose role may delegate
  the invited role; the seats of all other addresses are as they were; the new token resolves to exactly
  this invitation until it expires; and a token whose hash is not the new one does not resolve to the seat.
\<close>

theorem invitation_replaces_token:
  assumes "inviteMember e digest token call bodyEmail bodyRole db = (db', Inr i)"
    and "distinct (map iv_tokenHash (invitations db'))"
  shows "(\<exists>m \<in> set (members db). mb_status m = ACTIVE \<and> oc_user call = Some (mb_userId m) \<and>
      mb_orgId m = iv_orgId i \<and> iv_orgId i = oc_orgId call \<and> canAssignRole (mb_role m) (iv_orgRole i)) \<and>
    filter (\<lambda>q. \<not> seat (iv_orgId i) (iv_email i) q) (invitations db') =
      filter (\<lambda>q. \<not> seat (iv_orgId i) (iv_email i) q) (invitations db) \<and>
    (now e' < now e + 604800000 \<longrightarrow> resolveInvitation e' digest db' token =
       Inr \<lparr>ai_id = iv_id i, ai_orgId = iv_orgId i, ai_orgRole = iv_orgRole i, ai_email = iv_email i\<rparr>) \<and>
    (\<forall>old a. digest old \<noteq> digest token \<longrightarrow> resolveInvitation e' digest db' old = Inr a \<longrightarrow>
       \<not> (ai_orgId a = iv_orgId i \<and> ai_email a = iv_email i))"
proof -
  let ?email = "toLowerCase (js_trim (case bodyEmail of None \<Rightarrow> [] | Some s \<Rightarrow> s))"
  obtain ctx db1 r where entry: "org_entry db call Member_invite = Inr ctx"
    and up: "upsert_invitation e (tc_orgId ctx) ?email r (digest token) db = Some (db1, i)"
    and check: "checkRoleAssignment ctx r = None" and inv: "invitations db' = invitations db1"
    using assms(1) unfolding inviteMember_def Let_def
    by (auto split: sum.splits if_splits option.splits prod.splits)
  have role: "checkRoleAssignment ctx (iv_orgRole i) = None"
    using check upsert_invitation_Some [OF up] by simp
  note i = upsert_invitation_Some [OF up]
  obtain m where m: "m \<in> set (members db)" "mb_status m = ACTIVE" "oc_user call = Some (mb_userId m)"
    "tc_orgId ctx = mb_orgId m" "oc_orgId call = mb_orgId m" "tc_role ctx = mb_role m"
    using entry by (rule org_entry_member)
  have found: "findFirst (\<lambda>q. iv_tokenHash q = digest token) (invitations db') = Some i"
    by (rule findFirst_unique [of iv_tokenHash]) (use i inv assms(2) in auto)
  have new: "now e' < now e + 604800000 \<Longrightarrow> resolveInvitation e' digest db' token =
       Inr \<lparr>ai_id = iv_id i, ai_orgId = iv_orgId i, ai_orgRole = iv_orgRole i, ai_email = iv_email i\<rparr>"
    using i found by (simp add: resolveInvitation_def Let_def INVITATION_TTL_DAYS_def)
  have old: False if hash: "digest old \<noteq> digest token" and res: "resolveInvitation e' digest db' old = Inr a"
      and same: "ai_orgId a = iv_orgId i" "ai_email a = iv_email i" for old a
  proof -
    obtain q where "q \<in> set (invitations db')" "iv_tokenHash q = digest old" "ai_orgId a = iv_orgId q"
      "ai_email a = iv_email q"
      using res by (auto simp: resolveInvitation_def Let_def split: option.splits if_splits dest!: findFirst_SomeD)
    then show False using hash same i by (auto simp: inv seat_def)
  qed
  show ?thesis
    using m checkRoleAssignment_None [OF role] i new old inv by auto
qed

definition sample_call :: org_call where
  "sample_call = \<lparr>oc_user = Some ''u2'', oc_header = Some ''o1'', oc_query = None, oc_bodyOrg = None, oc_orgId = ''o1''\<rparr>"

definition invited_db :: database where
  "invited_db = sample_members\<lparr>invitations := [sample_invitation]\<rparr>"

lemma sample_entry:
  "members db = members sample_members \<Longrightarrow> organizations db = [] \<Longrightarrow> users db = [] \<Longrightarrow>
   org_entry db sample_call Member_invite = Inr (sample_seat sample_admin)"
  by (simp add: org_entry_def sample_call_def withTenant_def requestedOrgId_def resolveTenant_def find_member_def
      findFirst_def sample_members_def sample_owner_def sample_admin_def sample_member_def empty_db_def Let_def
      requirePermission_def can_def GRANTS_def sample_seat_def)

lemma invited_entry: "org_entry invited_db sample_call Member_invite = Inr (sample_seat sample_admin)"
  by (rule sample_entry) (simp_all add: invited_db_def sample_members_def empty_db_def)

lemma invited_rows: "invitations invited_db = [sample_invitation]" "iv_tokenHash sample_invitation = ''h''"
  "\<not> seat o' ''a@b.c'' sample_invitation"
  by (simp_all add: invited_db_def sample_invitation_def seat_def)

theorem invitation_replaces_token_witness:
  "\<exists>db' i. inviteMember sample_env (\<lambda>t. t) ''new'' sample_call (Some ''a@b.c'') (Some ''VIEWER'') invited_db = (db', Inr i) \<and>
     iv_orgRole i = VIEWER \<and> (\<exists>a. resolveInvitation sample_env (\<lambda>t. t) db' ''new'' = Inr a)"
proof -
  have email: "toLowerCase (js_trim ''a@b.c'') = ''a@b.c''" "EMAIL ''a@b.c''"
    by code_simp+
  obtain db' i where inv: "inviteMember sample_env (\<lambda>t. t) ''new'' sample_call (Some ''a@b.c'') (Some ''VIEWER'') invited_db
      = (db', Inr i)" "iv_orgRole i = VIEWER" "distinct (map iv_tokenHash (invitations db'))"
    using email
    by (simp add: inviteMember_def invited_entry Let_def role_named_def org_role_name_def checkRoleAssignment_def
        requirePermission_def can_def GRANTS_def canAssignRole_def DELEGATABLE_def sample_seat_def sample_admin_def
        upsert_invitation_def findFirst_def invited_rows createUnique_def)
  have "now sample_env < now sample_env + 604800000" by simp
  then have "\<exists>a. resolveInvitation sample_env (\<lambda>t. t) db' ''new'' = Inr a"
    using invitation_replaces_token [OF inv(1,3), of sample_env] by blast
  with inv show ?thesis by blast
qed

theorem organization_created_with_owner_witness:
  "\<exists>db' made. createOrganization sample_env (Some (''u9'', ''GZ'')) (Some ''Acme'') sample_members = (db', Inr made) \<and>
     active_administrators db' (og_id (co_org made)) = [co_member made]"
proof -
  have name: "js_trim ''Acme'' = ''Acme''" "slugify ''Acme'' = ''acme''" by code_simp+
  obtain db' made where *: "createOrganization sample_env (Some (''u9'', ''GZ'')) (Some ''Acme'') sample_members
      = (db', Inr made)"
    using name by (simp add: createOrganization_def insert_organization_def slug_suffixes_def upt_conv_Cons
        slug_taken_def createUnique_def Let_def sample_members_def empty_db_def findFirst_def)
  have "\<forall>m \<in> set (members sample_members). mb_orgId m \<noteq> new_id sample_env sample_members"
    by (simp add: sample_members_def sample_owner_def sample_admin_def sample_member_def new_id_def sample_env_def
        empty_db_def)
  then show ?thesis using organization_created_with_owner [OF *] * by blast
qed

text \<open>
  A revoked invitation is never accepted, not even by a request that resolved it before. After a
  successful revocation the transaction of an acceptance whose lookup came first is refused and changes
  nothing, and no token resolves to the invitation.
\<close>

theorem revoked_never_accepted:
  assumes "revokeInvitation e call k db = (db', Inr ())" and "ai_id a = k"
  shows "acceptInvitation_commit e1 db' a u w = (db', Inl NOT_FOUND) \<and>
    (\<forall>token b. resolveInvitation e2 digest db' token = Inr b \<longrightarrow> ai_id b \<noteq> k)"
proof -
  obtain ctx i where check: "revoke_check db call k = Inr (ctx, i)" and db': "db' = revoke_commit e ctx i db"
    using assms(1) by (auto simp: revokeInvitation_def split: sum.splits prod.splits)
  have inv: "invitations db' = updated (\<lambda>q. iv_id q = k) (\<lambda>q. q\<lparr>iv_revokedAt := Some (now e)\<rparr>) (invitations db)"
    by (simp add: db' revoke_commit_def revoke_check_id [OF check])
  have revoked: "iv_revokedAt q \<noteq> None" if q: "q \<in> set (invitations db')" "iv_id q = k" for q
  proof -
    obtain p where "q = (if iv_id p = k then p\<lparr>iv_revokedAt := Some (now e)\<rparr> else p)"
      using q(1) unfolding inv set_updated by blast
    with q(2) show ?thesis by (cases "iv_id p = k") simp_all
  qed
  then have "snd (claim_invitation e1 (ai_id a) (invitations db')) = 0"
    using assms(2) by (auto simp: claim_invitation_def updateMany_def filter_empty_conv)
  moreover have "ai_id b \<noteq> k" if res: "resolveInvitation e2 digest db' token = Inr b" for token b
  proof
    assume "ai_id b = k"
    with res obtain q where "q \<in> set (invitations db')" "iv_id q = k" "iv_revokedAt q = None"
      by (auto simp: resolveInvitation_def Let_def split: option.splits if_splits dest!: findFirst_SomeD)
    with revoked [of q] show False by simp
  qed
  ultimately show ?thesis by (auto intro: commit_unclaimed)
qed

theorem revoked_never_accepted_witness:
  "\<exists>db'. revokeInvitation sample_env sample_call ''i1'' invited_db = (db', Inr ()) \<and>
     acceptInvitation_commit sample_env db' sample_resolved ''u9'' ''GZ'' = (db', Inl NOT_FOUND)"
proof -
  obtain db' where *: "revokeInvitation sample_env sample_call ''i1'' invited_db = (db', Inr ())"
    by (simp add: revokeInvitation_def revoke_check_def invited_entry findFirst_def)
      (simp add: invited_db_def sample_invitation_def sample_seat_def)
  have "ai_id sample_resolved = ''i1''" by (simp add: sample_resolved_def)
  then show ?thesis using revoked_never_accepted [OF *] * by blast
qed

text \<open>
  An invitation that was accepted can be shown as revoked. The revocation looks at \<open>usedAt\<close> before its
  transaction and not in it, so an acceptance in between stands, and the list calls the invitation
  \<open>REVOKED\<close> although the member it made is active.
\<close>

theorem accepted_shown_revoked:
  assumes "revoke_check db call k = Inr (ctx, i)" and "ai_id a = k"
    and "acceptInvitation_commit e1 db a u w = (db1, Inr r)" and "find_member db (ai_orgId a) u = None"
  shows "\<exists>q m. q \<in> set (invitations (revoke_commit e ctx i db1)) \<and> iv_id q = k \<and> iv_usedAt q \<noteq> None \<and>
    invitation_status t q = REVOKED \<and> m \<in> set (members (revoke_commit e ctx i db1)) \<and> mb_userId m = u \<and>
    mb_orgId m = ai_orgId a \<and> mb_status m = ACTIVE"
proof -
  have i: "iv_id i = k" by (rule revoke_check_id [OF assms(1)])
  have claimed: "snd (claim_invitation e1 (ai_id a) (invitations db)) \<noteq> 0"
    using assms(3) commit_unclaimed [of e1 a db u w] by auto
  then obtain p where p: "p \<in> set (invitations db)" "iv_id p = k" "iv_usedAt p = None" "iv_revokedAt p = None"
    using assms(2) by (auto simp: claim_invitation_def updateMany_def filter_empty_conv)
  have "invitations db1 = fst (claim_invitation e1 (ai_id a) (invitations db))"
    by (rule commit_claims [OF assms(3) claimed])
  then have q: "p\<lparr>iv_usedAt := Some (now e1)\<rparr> \<in> set (invitations db1)"
    using p assms(2) by (auto simp: claim_invitation_def updateMany_def image_iff intro!: bexI [of _ p])
  obtain m where m: "m \<in> set (members db1)" "mb_userId m = u" "mb_orgId m = ai_orgId a" "mb_status m = ACTIVE"
    using acceptInvitation_commit_member [OF assms(3,4)] by blast
  let ?q = "p\<lparr>iv_usedAt := Some (now e1), iv_revokedAt := Some (now e)\<rparr>"
  have "?q \<in> set (invitations (revoke_commit e ctx i db1))"
    using q p i by (auto simp: revoke_commit_def set_updated intro!: bexI [OF _ q])
  moreover have "members (revoke_commit e ctx i db1) = members db1" by (simp add: revoke_commit_def)
  ultimately show ?thesis
    using p m by (intro exI [of _ ?q] exI [of _ m]) (simp add: invitation_status_def)
qed

lemma invited_resolved:
  "find_member invited_db ''o1'' ''u9'' = None"
  "revoke_check invited_db sample_call ''i1'' = Inr (sample_seat sample_admin, sample_invitation)"
  by (simp_all add: find_member_def revoke_check_def invited_entry findFirst_def)
    (simp_all add: invited_db_def sample_members_def sample_owner_def sample_admin_def sample_member_def
      sample_invitation_def sample_seat_def)

theorem accepted_shown_revoked_witness:
  "\<exists>db1 q m. acceptInvitation_commit sample_env invited_db sample_resolved ''u9'' ''GZ'' = (db1, Inr (''o1'', MANAGER)) \<and>
     q \<in> set (invitations (revoke_commit sample_env (sample_seat sample_admin) sample_invitation db1)) \<and>
     iv_usedAt q \<noteq> None \<and> invitation_status 20 q = REVOKED \<and> m \<in> set (members db1) \<and> mb_status m = ACTIVE"
proof -
  have none: "find_member (invited_db\<lparr>invitations := t\<rparr>) ''o1'' ''u9'' = None" for t
    using invited_resolved(1) by (simp add: find_member_def)
  obtain db1 where *: "acceptInvitation_commit sample_env invited_db sample_resolved ''u9'' ''GZ''
      = (db1, Inr (''o1'', MANAGER))"
    by (simp add: acceptInvitation_commit_def claim_invitation_def updateMany_def invited_rows(1) none
        sample_resolved_def sample_invitation_def Let_def)
  have a: "ai_id sample_resolved = ''i1''" "find_member invited_db (ai_orgId sample_resolved) ''u9'' = None"
    using invited_resolved(1) by (simp_all add: sample_resolved_def)
  show ?thesis
    using accepted_shown_revoked [OF invited_resolved(2) a(1) * a(2), of sample_env 20] *
    by (auto simp: revoke_commit_def)
qed

text \<open>
  A slug can end in a hyphen. The hyphens are trimmed before the text is cut to 48 characters, so a name
  whose forty-eighth character is a separator gives a slug that the comment above the function rules out.
\<close>

theorem slug_ends_in_hyphen:
  "last (slugify (replicate 47 CHR ''a'' @ '' pay'')) = CHR ''-''"
  by code_simp

end
