(* ===== verification/EscrowRoutes.thy ===== *)
theory EscrowRoutes
  imports OrgRoutes Auth PayrollBatches Indexer
begin

text \<open>
  The routes that bring an escrow of the chain into the database:
  \<open>src/app/api/organizations/[id]/escrows/claim/route.ts\<close>, as its checks with the read of the contract and
  its transaction, so that claims interleave, and the older \<open>POST\<close> of \<open>src/app/api/escrows/route.ts\<close>. The
  configuration and the contract's read call are the parameter \<open>claim_env\<close>.
\<close>

section \<open>Claiming an escrow\<close>

record chain_claim =
  cc_manager :: address
  cc_finance_approver :: address
  cc_oracle_pubkey :: "string option"
  cc_payments :: "(base_units \<times> address) list"   \<comment> \<open>amount and token\<close>
  cc_manager_approved :: bool
  cc_finance_approved :: bool
  cc_cancelled :: bool
  cc_oracle_rotations :: int

record claim_env =
  cv_env :: env
  cv_contractId :: "string option"
  cv_network :: string
  cv_getEscrow :: "int \<Rightarrow> chain_claim option"   \<comment> \<open>\<open>None\<close> when the read fails\<close>

definition mapped_escrow :: "claim_env \<Rightarrow> int \<Rightarrow> database \<Rightarrow> escrow_row option" where
  "mapped_escrow c n db =
     findFirst (\<lambda>x. es_onChainId x = Some n \<and> Some (es_contractId x) = cv_contractId c \<and> es_network x = cv_network c)
       (escrows db)"

text \<open>An \<open>Int\<close> column has 32 bits; the client refuses a query or a row that needs more.\<close>

definition fits_int :: "int \<Rightarrow> bool" where
  "fits_int i \<longleftrightarrow> - (2 ^ 31) \<le> i \<and> i < 2 ^ 31"

text \<open>The checks end in the row that is mapped already, or in the proof that the claim needs.\<close>

datatype claim_verdict = Already row_id | Proven tenant_context int chain_claim

text \<open>\<open>onChainId\<close> is what \<open>Number\<close> makes of the field, when that is an integer.\<close>

definition claim_check :: "claim_env \<Rightarrow> database \<Rightarrow> org_call \<Rightarrow> int option \<Rightarrow> claim_verdict result" where
  "claim_check c db call onChainId =
     (case org_entry db call Escrow_create of
        Inl d \<Rightarrow> Inl d
      | Inr ctx \<Rightarrow>
          (case onChainId of
             None \<Rightarrow> Inl (deny 400 None)
           | Some n \<Rightarrow>
               if n < 1 then Inl (deny 400 None)
               else if \<not> truthy (cv_contractId c) then Inl (deny 503 None)
               else if \<not> fits_int n then Inl (deny 500 None)
               else case mapped_escrow c n db of
                 Some x \<Rightarrow>
                   if es_orgId x = tc_orgId ctx then Inr (Already (es_id x))
                   else Inl (deny 409 (Some ''ESCROW_UNAVAILABLE''))
               | None \<Rightarrow>
                   (case cv_getEscrow c n of
                      None \<Rightarrow> Inl (deny 502 None)
                    | Some ce \<Rightarrow>
                        if cc_manager ce \<noteq> tc_walletAddress ctx
                        then Inl (deny 403 (Some ''NOT_ON_CHAIN_MANAGER''))
                        else Inr (Proven ctx n ce))))"

definition claimed_row :: "claim_env \<Rightarrow> tenant_context \<Rightarrow> int \<Rightarrow> chain_claim \<Rightarrow> database \<Rightarrow> escrow_row" where
  "claimed_row c ctx n ce db =
     \<lparr>es_id = new_id (cv_env c) db, es_orgId = tc_orgId ctx, es_onChainId = Some n,
      es_contractId = the (cv_contractId c), es_network = cv_network c, es_managerAddress = cc_manager ce,
      es_financeApproverAddress = cc_finance_approver ce, es_assetDecimals = SAC_DECIMALS,
      es_totalAmountBaseUnits = sum_list (map fst (cc_payments ce)), es_managerApproved = cc_manager_approved ce,
      es_financeApproved = cc_finance_approved ce, es_cancelled = cc_cancelled ce,
      es_oracleRotations = cc_oracle_rotations ce, es_projectId = None, es_oraclePublicKey = cc_oracle_pubkey ce,
      es_tokenAddress = (case cc_payments ce of [] \<Rightarrow> None | p # _ \<Rightarrow> Some (snd p)),
      es_createdAt = now (cv_env c)\<rparr>"

text \<open>
  The transaction. \<open>None\<close> is a total or a count that its column cannot hold, or the violated unique index on
  \<open>onChainId\<close>: \<open>withTenant\<close> answers each with 500.
\<close>

definition claim_commit ::
  "claim_env \<Rightarrow> tenant_context \<Rightarrow> int \<Rightarrow> chain_claim \<Rightarrow> database \<Rightarrow> (database \<times> escrow_row) option" where
  "claim_commit c ctx n ce db =
     (let row = claimed_row c ctx n ce db in
      if \<not> fits_bigint (es_totalAmountBaseUnits row) \<or> \<not> fits_int (es_oracleRotations row) then None
      else case createUnique es_onChainId row (escrows db) of
        None \<Rightarrow> None
      | Some rows \<Rightarrow>
          Some (writeMembershipAudit (cv_env c) (db\<lparr>escrows := rows, serial := Suc (serial db)\<rparr>) (tc_orgId ctx)
                  ''escrow.claimed'' (Some (tc_walletAddress ctx)) None None
                  (Some [(''onChainId'', JNum n), (''contractId'', JStr (the (cv_contractId c))),
                         (''network'', JStr (cv_network c)),
                         (''paymentCount'', JNum (int (length (cc_payments ce)))),
                         (''totalAmountBaseUnits'', JStr (show_int (sum_list (map fst (cc_payments ce)))))]),
                row))"

definition claimEscrow ::
  "claim_env \<Rightarrow> org_call \<Rightarrow> int option \<Rightarrow> database \<Rightarrow> database \<times> row_id result" where
  "claimEscrow c call onChainId db =
     (case claim_check c db call onChainId of
        Inl d \<Rightarrow> (db, Inl d)
      | Inr (Already i) \<Rightarrow> (db, Inr i)
      | Inr (Proven ctx n ce) \<Rightarrow>
          (case claim_commit c ctx n ce db of
             None \<Rightarrow> (db, Inl (deny 500 None))
           | Some (db', row) \<Rightarrow> (db', Inr (es_id row))))"

text \<open>
  Claims in flight, of any members: \<open>cs\<close> holds what the servers read, the configuration of each and the contract
  as it answers at different times.
\<close>

record claim_world =
  mz_db :: database
  mz_proven :: "(claim_env \<times> tenant_context \<times> int \<times> chain_claim) list"

inductive claim_move :: "claim_env set \<Rightarrow> claim_world \<Rightarrow> claim_world \<Rightarrow> bool" for cs where
  proves: "c \<in> cs \<Longrightarrow> claim_check c (mz_db w) call n = Inr (Proven ctx i ce) \<Longrightarrow>
    claim_move cs w (w\<lparr>mz_proven := mz_proven w @ [(c, ctx, i, ce)]\<rparr>)"
| commits: "mz_proven w = before @ (c, ctx, i, ce) # after \<Longrightarrow>
    claim_move cs w \<lparr>mz_db = (case claim_commit c ctx i ce (mz_db w) of None \<Rightarrow> mz_db w | Some (db, _) \<Rightarrow> db),
                  mz_proven = before @ after\<rparr>"

inductive_cases claim_moveE: "claim_move cs w w'"

section \<open>Recording an escrow\<close>

text \<open>\<open>createEscrowSchema\<close>. An absent field and \<open>null\<close> are the same, the decimals default to 7.\<close>

record escrow_body =
  eb_onChainId :: "int option"
  eb_workerPubKey :: address
  eb_financeApprover :: "address option"
  eb_amount :: int
  eb_rate :: int
  eb_assetDecimals :: nat
  eb_tokenAddress :: "address option"

definition baseUnitString :: "string \<Rightarrow> int option" where
  "baseUnitString s = (if s \<noteq> [] \<and> all_digits s \<and> 0 < digits_val s then Some (int (digits_val s)) else None)"

definition body_field :: "json_object \<Rightarrow> string \<Rightarrow> json option" where
  "body_field ms k = (case map_of ms k of Some JNull \<Rightarrow> None | v \<Rightarrow> v)"

definition text_field :: "(string \<Rightarrow> bool) \<Rightarrow> json option \<Rightarrow> string option option" where
  "text_field ok v = (case v of None \<Rightarrow> Some None | Some (JStr s) \<Rightarrow> if ok s then Some (Some s) else None | _ \<Rightarrow> None)"

definition int_field :: "(int \<Rightarrow> bool) \<Rightarrow> json option \<Rightarrow> int option option" where
  "int_field ok v = (case v of None \<Rightarrow> Some None | Some (JNum n) \<Rightarrow> if ok n then Some (Some n) else None | _ \<Rightarrow> None)"

definition createEscrowSchema :: "json \<Rightarrow> escrow_body option" where
  "createEscrowSchema b = (case b of JObj ms \<Rightarrow>
     (case (int_field (\<lambda>n. 0 < n) (body_field ms ''onChainId''), body_text b ''workerPubKey'',
            text_field stellarAddress (body_field ms ''financeApprover''),
            body_text b ''amountBaseUnits'', body_text b ''rateBaseUnits'',
            int_field (\<lambda>n. 0 \<le> n \<and> n \<le> 18) (map_of ms ''assetDecimals''),
            text_field (\<lambda>s. s \<noteq> []) (body_field ms ''tokenAddress'')) of
        (Some i, Some worker, Some finance, Some amountText, Some rateText, Some decimals, Some token) \<Rightarrow>
          (case (baseUnitString amountText, baseUnitString rateText) of
             (Some amount, Some rate) \<Rightarrow>
               if worker = [] then None
               else Some \<lparr>eb_onChainId = i, eb_workerPubKey = worker, eb_financeApprover = finance,
                          eb_amount = amount, eb_rate = rate,
                          eb_assetDecimals = (case decimals of None \<Rightarrow> 7 | Some d \<Rightarrow> nat d),
                          eb_tokenAddress = token\<rparr>
           | _ \<Rightarrow> None)
      | _ \<Rightarrow> None)
   | _ \<Rightarrow> None)"

text \<open>\<open>orgMember.findFirst\<close> by the user's wallet, oldest first: a membership of any status.\<close>

definition first_membership :: "database \<Rightarrow> address \<Rightarrow> member_row option" where
  "first_membership db w =
     findFirst (\<lambda>_. True) (js_sort (\<lambda>a b. mb_createdAt a - mb_createdAt b)
       (filter (\<lambda>m. list_ex (\<lambda>u. us_id u = mb_userId m \<and> us_walletAddress u = w) (users db)) (members db)))"

definition escrow_reference :: "int option \<Rightarrow> row_id \<Rightarrow> string" where
  "escrow_reference n i =
     ''ESC-'' @ pad_start 5 CHR ''0'' (show_int (case n of None \<Rightarrow> 0 | Some k \<Rightarrow> k)) @ ''-'' @ drop (length i - 6) i"

definition recorded_escrow :: "claim_env \<Rightarrow> address \<Rightarrow> row_id \<Rightarrow> escrow_body \<Rightarrow> database \<Rightarrow> escrow_row" where
  "recorded_escrow c wallet orgId b db =
     \<lparr>es_id = new_id (cv_env c) db, es_orgId = orgId, es_onChainId = eb_onChainId b,
      es_contractId = (case cv_contractId c of None \<Rightarrow> [] | Some s \<Rightarrow> s), es_network = cv_network c,
      es_managerAddress = wallet,
      es_financeApproverAddress = (case eb_financeApprover b of None \<Rightarrow> [] | Some a \<Rightarrow> a),
      es_assetDecimals = eb_assetDecimals b, es_totalAmountBaseUnits = eb_amount b, es_managerApproved = False,
      es_financeApproved = False, es_cancelled = False, es_oracleRotations = 0, es_projectId = None,
      es_oraclePublicKey = None, es_tokenAddress = eb_tokenAddress b, es_createdAt = now (cv_env c)\<rparr>"

definition recorded_batch :: "claim_env \<Rightarrow> address \<Rightarrow> row_id \<Rightarrow> string \<Rightarrow> database \<Rightarrow> batch_row" where
  "recorded_batch c wallet orgId reference db =
     \<lparr>ba_id = new_id (cv_env c) db, ba_orgId = orgId, ba_reference = reference, ba_projectId = None,
      ba_periodStart = None, ba_periodEnd = None, ba_sourceFilename = None, ba_sourceRowCount = None,
      ba_sourceChecksum = None, ba_idempotencyKey = None, ba_idempotencyFingerprint = None,
      ba_uploadedBy = Some wallet, ba_createdAt = now (cv_env c)\<rparr>"

definition recorded_payment :: "claim_env \<Rightarrow> row_id \<Rightarrow> row_id \<Rightarrow> row_id \<Rightarrow> escrow_body \<Rightarrow> database \<Rightarrow> payment_row" where
  "recorded_payment c orgId batchId escrowId b db =
     \<lparr>pm_id = new_id (cv_env c) db, pm_orgId = orgId, pm_batchId = batchId, pm_escrowId = Some escrowId,
      pm_workerId = None, pm_recipientAddress = eb_workerPubKey b, pm_onChainPaymentIndex = Some 0,
      pm_assetContractId = eb_tokenAddress b, pm_assetDecimals = eb_assetDecimals b,
      pm_amountBaseUnits = eb_amount b, pm_rateBaseUnits = eb_rate b,
      pm_hours = (if 0 < eb_rate b then js_div (eb_amount b) (eb_rate b) else 0),
      pm_periodStart = None, pm_periodEnd = None, pm_state = VALIDATING, pm_stateUpdatedAt = now (cv_env c),
      pm_stateReason = None, pm_settledAt = None, pm_settlementTxHash = None, pm_assetCode = ''USDC'',
      pm_projectId = None, pm_sourceReference = None, pm_createdAt = now (cv_env c)\<rparr>"

datatype record_failure = Duplicate | Too_large

text \<open>The transaction: the unique indexes of the three tables, and the widths of the columns.\<close>

definition insert_recorded ::
  "claim_env \<Rightarrow> address \<Rightarrow> row_id \<Rightarrow> escrow_body \<Rightarrow> database \<Rightarrow> record_failure + (database \<times> payment_row)" where
  "insert_recorded c wallet orgId b db0 =
     (let x = recorded_escrow c wallet orgId b db0;
          db = db0\<lparr>escrows := escrows db0 @ [x], serial := Suc (serial db0)\<rparr>;
          k = recorded_batch c wallet orgId (escrow_reference (eb_onChainId b) (es_id x)) db;
          db = db\<lparr>batches := batches db @ [k], serial := Suc (serial db)\<rparr>;
          p = recorded_payment c orgId (ba_id k) (es_id x) b db;
          db = db\<lparr>payments := payments db @ [p], serial := Suc (serial db)\<rparr>
      in if \<not> fits_bigint (eb_amount b) \<or> (case es_onChainId x of None \<Rightarrow> False | Some n \<Rightarrow> \<not> fits_int n) then Inl Too_large
         else if es_onChainId x \<noteq> None \<and> es_onChainId x \<in> es_onChainId ` set (escrows db0) then Inl Duplicate
         else if (ba_orgId k, ba_reference k) \<in> (\<lambda>q. (ba_orgId q, ba_reference q)) ` set (batches db0) then Inl Duplicate
         else if \<not> fits_bigint (eb_rate b) then Inl Too_large
         else if (pm_escrowId p, pm_onChainPaymentIndex p)
                   \<in> (\<lambda>q. (pm_escrowId q, pm_onChainPaymentIndex q)) ` set (payments db0) then Inl Duplicate
         else Inr (db, p))"

datatype record_answer = Refused_with nat | Indexed_already | Recorded payment_row

definition recordEscrow ::
  "claim_env \<Rightarrow> auth_payload option \<Rightarrow> json \<Rightarrow> database \<Rightarrow> database \<times> record_answer" where
  "recordEscrow c user body db =
     (case requireAdmin user of
        Some status \<Rightarrow> (db, Refused_with status)
      | None \<Rightarrow>
          (case createEscrowSchema body of
             None \<Rightarrow> (db, Refused_with 400)
           | Some b \<Rightarrow>
               (case first_membership db (ap_walletAddress (the user)) of
                  None \<Rightarrow> (db, Refused_with 409)
                | Some m \<Rightarrow>
                    (case insert_recorded c (ap_walletAddress (the user)) (mb_orgId m) b db of
                       Inl Duplicate \<Rightarrow> (db, Indexed_already)
                     | Inl Too_large \<Rightarrow> (db, Refused_with 500)
                     | Inr (db', p) \<Rightarrow> (db', Recorded p)))))"

section \<open>What a claim needs\<close>

lemmas claim_defs = claimEscrow_def claim_check_def claim_commit_def Let_def

lemma claim_check_Proven:
  assumes "claim_check c db call n' = Inr (Proven ctx n ce)"
  shows "org_entry db call Escrow_create = Inr ctx" "n' = Some n" "1 \<le> n" "mapped_escrow c n db = None"
    "cv_getEscrow c n = Some ce" "cc_manager ce = tc_walletAddress ctx" "\<exists>s. cv_contractId c = Some s \<and> s \<noteq> []"
  using assms by (auto simp: claim_check_def truthy_def split: sum.splits option.splits if_splits)

lemma claim_check_Already:
  assumes "claim_check c db call n' = Inr (Already i)"
  obtains ctx n x where "org_entry db call Escrow_create = Inr ctx" "n' = Some n" "mapped_escrow c n db = Some x"
    "es_orgId x = tc_orgId ctx" "es_id x = i"
  using assms by (auto simp: claim_check_def split: sum.splits option.splits if_splits)

lemma claim_commit_Some:
  assumes "claim_commit c ctx n ce db = Some (db', row)"
  shows "row = claimed_row c ctx n ce db" "escrows db' = escrows db @ [row]" "payments db' = payments db"
    "batches db' = batches db" "es_onChainId row \<notin> es_onChainId ` set (escrows db)"
  using assms
  by (auto simp: claim_commit_def Let_def writeMembershipAudit_def createUnique_def split: if_splits)

text \<open>
  C24: A successful claim either names an escrow that the caller's organization holds already, and then changes
  nothing, or rests on the contract: the live escrow names the caller's wallet as its manager, the caller may
  create escrows in the organization, one row is added, with the caller's organization, the terms of the
  chain and nothing approved here, payments and batches stay as they are, and from then on the indexer attributes
  the events of that escrow to the organization.
\<close>

theorem claim_proves_manager:
  assumes "claimEscrow c call onChainId db = (db', Inr i)"
  shows "\<exists>ctx n. org_entry db call Escrow_create = Inr ctx \<and> onChainId = Some n \<and>
    ((\<exists>x. mapped_escrow c n db = Some x \<and> es_orgId x = tc_orgId ctx \<and> es_id x = i \<and> db' = db) \<or>
     (\<exists>ce row. cv_getEscrow c n = Some ce \<and> cc_manager ce = tc_walletAddress ctx \<and>
        row = claimed_row c ctx n ce db \<and> es_id row = i \<and>
        escrows db' = escrows db @ [row] \<and> payments db' = payments db \<and> batches db' = batches db \<and>
        (\<forall>ix. ix_contractId ix = the (cv_contractId c) \<longrightarrow> ix_network ix = cv_network c \<longrightarrow>
           resolveEscrowTenant db' ix n = Some row \<and> es_orgId row = tc_orgId ctx)))"
proof (cases "claim_check c db call onChainId")
  case (Inl d)
  then show ?thesis using assms by (simp add: claimEscrow_def)
next
  case (Inr v)
  show ?thesis
  proof (cases v)
    case (Already j)
    then have chk: "claim_check c db call onChainId = Inr (Already j)" using Inr by simp
    then have "j = i" "db' = db" using assms by (simp_all add: claimEscrow_def)
    with claim_check_Already [OF chk] show ?thesis by metis
  next
    case (Proven ctx n ce)
    then have chk: "claim_check c db call onChainId = Inr (Proven ctx n ce)" using Inr by simp
    note facts = claim_check_Proven [OF chk]
    obtain row where com: "claim_commit c ctx n ce db = Some (db', row)" and i: "es_id row = i"
      using assms chk by (auto simp: claimEscrow_def split: option.splits prod.splits)
    note made = claim_commit_Some [OF com]
    have on: "es_onChainId row = Some n" "es_contractId row = the (cv_contractId c)" "es_network row = cv_network c"
      "es_orgId row = tc_orgId ctx"
      by (simp_all add: made(1) claimed_row_def)
    have "resolveEscrowTenant db' ix n = Some row"
      if "ix_contractId ix = the (cv_contractId c)" "ix_network ix = cv_network c" for ix
    proof -
      have "\<forall>x \<in> set (escrows db). es_onChainId x \<noteq> Some n" using made(5) on(1) by force
      then show ?thesis using that on by (simp add: resolveEscrowTenant_def made(2) findFirst_after findFirst_Cons)
    qed
    then show ?thesis using facts made i on(4) by blast
  qed
qed

section \<open>Claims that interleave\<close>

lemma claim_commit_rest:
  assumes "claim_commit c ctx n ce db = Some (db', row)"
  shows "org_entry db' call p = org_entry db call p"
proof -
  have same: "members db' = members db" "users db' = users db" "organizations db' = organizations db"
    using assms by (auto simp: claim_commit_def Let_def writeMembershipAudit_def split: if_splits option.splits)
  show ?thesis
    unfolding org_entry_def withTenant_def resolveTenant_def [abs_def] find_member_def [abs_def] same ..
qed

definition evidenced_row :: "claim_env set \<Rightarrow> database \<Rightarrow> escrow_row \<Rightarrow> bool" where
  "evidenced_row cs db x \<longleftrightarrow> (\<exists>c \<in> cs. \<exists>call ctx n ce. es_onChainId x = Some n \<and>
     org_entry db call Escrow_create = Inr ctx \<and> es_orgId x = tc_orgId ctx \<and>
     cv_getEscrow c n = Some ce \<and> cc_manager ce = tc_walletAddress ctx)"

definition grows_evidenced :: "claim_env set \<Rightarrow> database \<Rightarrow> claim_world \<Rightarrow> bool" where
  "grows_evidenced cs db w \<longleftrightarrow>
     (\<forall>call p. org_entry (mz_db w) call p = org_entry db call p) \<and>
     (\<exists>new. escrows (mz_db w) = escrows db @ new \<and> distinct (map es_onChainId new) \<and>
        (\<forall>x \<in> set new. evidenced_row cs db x \<and> es_onChainId x \<notin> es_onChainId ` set (escrows db))) \<and>
     (\<forall>(c, ctx, n, ce) \<in> set (mz_proven w). c \<in> cs \<and> cv_getEscrow c n = Some ce \<and>
        cc_manager ce = tc_walletAddress ctx \<and> (\<exists>call. org_entry db call Escrow_create = Inr ctx))"

lemma grows_evidenced_step:
  assumes "grows_evidenced cs db w" and "claim_move cs w w'"
  shows "grows_evidenced cs db w'"
  using assms(2)
proof (cases rule: claim_move.cases)
  case (proves c call n ctx i ce)
  from claim_check_Proven [OF proves(3)] proves(1,2) assms(1) show ?thesis
    unfolding grows_evidenced_def by fastforce
next
  case (commits before c ctx i ce after)
  show ?thesis
  proof (cases "claim_commit c ctx i ce (mz_db w)")
    case None
    then show ?thesis using commits assms(1) by (simp add: grows_evidenced_def)
  next
    case (Some p)
    obtain db' row where p: "p = (db', row)" by (cases p)
    note com = Some [unfolded p]
    note made = claim_commit_Some [OF com]
    obtain new where new: "escrows (mz_db w) = escrows db @ new" "distinct (map es_onChainId new)"
        "\<forall>x \<in> set new. evidenced_row cs db x \<and> es_onChainId x \<notin> es_onChainId ` set (escrows db)"
      and ev: "c \<in> cs" "cv_getEscrow c i = Some ce" "cc_manager ce = tc_walletAddress ctx"
        "\<exists>call. org_entry db call Escrow_create = Inr ctx"
      using assms(1) commits(2) by (auto simp: grows_evidenced_def)
    have row: "evidenced_row cs db row"
      using ev by (auto simp: evidenced_row_def made(1) claimed_row_def)
    have "escrows db' = escrows db @ (new @ [row])" "distinct (map es_onChainId (new @ [row]))"
      "\<forall>x \<in> set (new @ [row]). evidenced_row cs db x \<and> es_onChainId x \<notin> es_onChainId ` set (escrows db)"
      using made(2,5) new row by auto
    then have "\<exists>new. escrows db' = escrows db @ new \<and> distinct (map es_onChainId new) \<and>
        (\<forall>x \<in> set new. evidenced_row cs db x \<and> es_onChainId x \<notin> es_onChainId ` set (escrows db))" by blast
    moreover have "mz_db w' = db'" "mz_proven w' = before @ after" using commits(1) Some p by simp_all
    moreover have "org_entry db' call p = org_entry db call p" for call p
      using assms(1) claim_commit_rest [OF com] by (simp add: grows_evidenced_def)
    ultimately show ?thesis using assms(1) commits(2) by (simp add: grows_evidenced_def)
  qed
qed

text \<open>
  C34: However claims interleave between their proof and their transaction, by any members of any organizations
  and through any deployments, the escrows that were in the database stay as they were, in front of the new
  ones; an escrow is never given to a second organization: no two new rows, and no old and new row, share an id of
  the chain; and every new row belongs to an organization one of whose members, with the permission to create
  escrows, the contract named as manager. What the indexer attributed before, it attributes to the same row after.
\<close>

theorem claims_never_reassign:
  assumes "(claim_move cs)\<^sup>*\<^sup>* \<lparr>mz_db = db, mz_proven = []\<rparr> w"
  shows "(\<exists>new. escrows (mz_db w) = escrows db @ new \<and> distinct (map es_onChainId new) \<and>
      (\<forall>x \<in> set new. evidenced_row cs db x \<and> es_onChainId x \<notin> es_onChainId ` set (escrows db))) \<and>
    (\<forall>ix n x. resolveEscrowTenant db ix n = Some x \<longrightarrow> resolveEscrowTenant (mz_db w) ix n = Some x)"
proof -
  have "grows_evidenced cs db \<lparr>mz_db = db, mz_proven = []\<rparr>" by (simp add: grows_evidenced_def)
  with assms have "grows_evidenced cs db w"
    by (induction rule: rtranclp_induct) (auto intro: grows_evidenced_step)
  then obtain new where new: "escrows (mz_db w) = escrows db @ new" "distinct (map es_onChainId new)"
      "\<forall>x \<in> set new. evidenced_row cs db x \<and> es_onChainId x \<notin> es_onChainId ` set (escrows db)"
    by (auto simp: grows_evidenced_def)
  then have "resolveEscrowTenant (mz_db w) ix n = Some x" if "resolveEscrowTenant db ix n = Some x" for ix n x
    using that by (simp add: resolveEscrowTenant_def findFirst_append)
  with new show ?thesis by blast
qed

text \<open>
  The id of an escrow is unique in the table although the check before the transaction, and the comment of the
  schema, count ids per deployment: once any organization has recorded id n under some deployment, the manager
  of escrow n of another deployment passes every check and is then answered with 500, and nothing changes.
\<close>

theorem id_of_other_deployment_blocks_claim:
  assumes "claim_check c db call onChainId = Inr (Proven ctx n ce)"
    and "x \<in> set (escrows db)" and "es_onChainId x = Some n"
  shows "claimEscrow c call onChainId db = (db, Inl (deny 500 None)) \<and>
    (es_contractId x, es_network x) \<noteq> (the (cv_contractId c), cv_network c)"
proof -
  note facts = claim_check_Proven [OF assms(1)]
  have "claim_commit c ctx n ce db = None"
    using assms(2,3) by (force simp: claim_commit_def Let_def createUnique_def claimed_row_def)
  moreover have "(es_contractId x, es_network x) \<noteq> (the (cv_contractId c), cv_network c)"
    using facts(4,7) assms(2,3) by (auto simp: mapped_escrow_def)
  ultimately show ?thesis using assms(1) by (simp add: claimEscrow_def)
qed

section \<open>What a recorded escrow is\<close>

lemma first_membership_Some:
  "first_membership db w = Some m \<Longrightarrow> m \<in> set (members db)"
  by (auto simp: first_membership_def dest!: findFirst_SomeD)

lemma insert_recorded_Inr:
  assumes "insert_recorded c wallet orgId b db = Inr (db', p)"
  shows "\<exists>x k. escrows db' = escrows db @ [x] \<and> batches db' = batches db @ [k] \<and> payments db' = payments db @ [p] \<and>
    es_orgId x = orgId \<and> ba_orgId k = orgId \<and> pm_orgId p = orgId \<and> pm_state p = VALIDATING \<and>
    pm_amountBaseUnits p = eb_amount b \<and> pm_escrowId p = Some (es_id x) \<and> pm_batchId p = ba_id k \<and>
    es_onChainId x = eb_onChainId b"
  using assms
  by (auto simp: insert_recorded_def Let_def recorded_escrow_def recorded_batch_def recorded_payment_def split: if_splits)

lemma recordEscrow_Recorded:
  assumes "recordEscrow c user body db = (db', Recorded p)"
  obtains u b m where "user = Some u" "requireAdmin user = None" "createEscrowSchema body = Some b"
    "first_membership db (ap_walletAddress u) = Some m"
    "insert_recorded c (ap_walletAddress u) (mb_orgId m) b db = Inr (db', p)"
  using assms
  by (cases user) (auto simp: recordEscrow_def requireAdmin_def split: option.splits sum.splits record_failure.splits prod.splits)

text \<open>The same table with other statuses.\<close>

definition restatus :: "(member_row \<Rightarrow> membership_status) \<Rightarrow> database \<Rightarrow> database" where
  "restatus f db = db\<lparr>members := map (\<lambda>m. m\<lparr>mb_status := f m\<rparr>) (members db)\<rparr>"

lemma js_sort_map:
  assumes "\<And>x y. cmp (g x) (g y) = cmp x y"
  shows "js_sort cmp (map g xs) = map g (js_sort cmp xs)"
proof -
  have "js_insert cmp (g x) (map g ys) = map g (js_insert cmp x ys)" for x ys
    by (induction ys) (simp_all add: assms)
  then show ?thesis by (induction xs) (simp_all add: js_sort_def)
qed

lemma first_membership_restatus:
  "first_membership (restatus f db) w = map_option (\<lambda>m. m\<lparr>mb_status := f m\<rparr>) (first_membership db w)"
proof -
  have first: "findFirst (\<lambda>_. True) (map g xs) = map_option g (findFirst (\<lambda>_. True) xs)" for g :: "'a \<Rightarrow> 'a" and xs
    by (cases xs) (simp_all add: findFirst_Cons)
  show ?thesis
    by (simp add: first_membership_def restatus_def filter_map comp_def js_sort_map first)
qed

lemma insert_recorded_restatus:
  "insert_recorded c w i b (restatus f db) =
     (case insert_recorded c w i b db of Inl e \<Rightarrow> Inl e | Inr (db', p) \<Rightarrow> Inr (restatus f db', p))"
proof -
  have id: "new_id e (restatus f db) = new_id e db" for e and db :: database
    by (simp add: new_id_def restatus_def)
  show ?thesis
    unfolding insert_recorded_def Let_def recorded_escrow_def recorded_batch_def recorded_payment_def id
    by (simp add: restatus_def new_id_def)
qed

text \<open>
  The older route records an escrow, a batch and a payment, in the state before funding, in the organization of
  the caller's oldest membership, and never looks whether that membership is in force: whatever the statuses of
  the memberships are set to, the same payment is recorded. A platform administrator who was removed from an
  organization keeps writing payroll into it.
\<close>

theorem removed_member_records_payment:
  assumes "recordEscrow c user body db = (db', Recorded p)"
  shows "\<exists>u m. user = Some u \<and> m \<in> set (members db) \<and> pm_orgId p = mb_orgId m \<and>
      list_ex (\<lambda>a. us_id a = mb_userId m \<and> us_walletAddress a = ap_walletAddress u) (users db) \<and>
      payments db' = payments db @ [p] \<and> pm_state p = VALIDATING \<and>
      (\<forall>f. recordEscrow c user body (restatus f db) = (restatus f db', Recorded p))"
proof -
  obtain u b m where facts: "user = Some u" "requireAdmin user = None" "createEscrowSchema body = Some b"
      "first_membership db (ap_walletAddress u) = Some m"
      "insert_recorded c (ap_walletAddress u) (mb_orgId m) b db = Inr (db', p)"
    using assms by (rule recordEscrow_Recorded)
  have "m \<in> set (members db) \<and> list_ex (\<lambda>a. us_id a = mb_userId m \<and> us_walletAddress a = ap_walletAddress u) (users db)"
    using facts(4) by (auto simp: first_membership_def dest!: findFirst_SomeD)
  moreover have "payments db' = payments db @ [p] \<and> pm_orgId p = mb_orgId m \<and> pm_state p = VALIDATING"
    using insert_recorded_Inr [OF facts(5)] by blast
  moreover have "recordEscrow c user body (restatus f db) = (restatus f db', Recorded p)" for f
    using facts by (simp add: recordEscrow_def first_membership_restatus insert_recorded_restatus)
  ultimately show ?thesis using facts(1) by blast
qed

text \<open>
  An escrow recorded with its id on the chain is recorded once: whoever sends that id afterwards, whatever
  the rest of the request and in whatever organization, no row is written.
\<close>

theorem escrow_recorded_once:
  assumes "recordEscrow c user body db = (db', Recorded p)" and "createEscrowSchema body = Some b"
    and "eb_onChainId b = Some n" and "createEscrowSchema again = Some b'" and "eb_onChainId b' = Some n"
  shows "fst (recordEscrow c' user' again db') = db' \<and> (\<forall>q. snd (recordEscrow c' user' again db') \<noteq> Recorded q)"
proof -
  obtain wallet orgId where ins: "insert_recorded c wallet orgId b db = Inr (db', p)"
    using assms(1)
  proof (rule recordEscrow_Recorded)
    fix u b1 m
    assume "createEscrowSchema body = Some b1" "insert_recorded c (ap_walletAddress u) (mb_orgId m) b1 db = Inr (db', p)"
    then show ?thesis using that assms(2) by simp
  qed
  then have taken: "Some n \<in> es_onChainId ` set (escrows db')"
    using insert_recorded_Inr [OF ins] assms(3) by force
  have "\<exists>e. insert_recorded c' w i b' db' = Inl e" for w i
    using taken assms(5) by (auto simp: insert_recorded_def Let_def recorded_escrow_def)
  then have "\<exists>e. insert_recorded c' w i b' db' = Inl e" for w i by blast
  then show ?thesis using assms(4)
    by (auto simp: recordEscrow_def split: option.split sum.split record_failure.split) (metis sum.distinct(1))+
qed

section \<open>Examples\<close>

definition sample_office_db :: database where
  "sample_office_db = sample_members\<lparr>users := [\<lparr>us_id = ''u2'', us_walletAddress = ''GADMIN''\<rparr>]\<rparr>"

definition sample_manager :: tenant_context where
  "sample_manager = (sample_seat sample_admin)\<lparr>tc_walletAddress := ''GADMIN''\<rparr>"

definition sample_live_escrow :: chain_claim where
  "sample_live_escrow = \<lparr>cc_manager = ''GADMIN'', cc_finance_approver = ''GF'', cc_oracle_pubkey = None,
     cc_payments = [(30, ''T''), (12, ''T'')], cc_manager_approved = False, cc_finance_approved = False,
     cc_cancelled = False, cc_oracle_rotations = 0\<rparr>"

definition sample_deployed :: claim_env where
  "sample_deployed = \<lparr>cv_env = sample_env, cv_contractId = Some ''C1'', cv_network = ''testnet'',
     cv_getEscrow = (\<lambda>n. if n = 7 then Some sample_live_escrow else None)\<rparr>"

lemma sample_office_entry: "org_entry sample_office_db sample_call Escrow_create = Inr sample_manager"
  by (simp add: org_entry_def sample_call_def withTenant_def requestedOrgId_def resolveTenant_def find_member_def
      findFirst_def sample_office_db_def sample_members_def sample_owner_def sample_admin_def sample_member_def empty_db_def
      Let_def requirePermission_def can_def GRANTS_def sample_seat_def sample_manager_def)

lemma sample_office_rows: "escrows sample_office_db = []"
  by (simp add: sample_office_db_def sample_members_def empty_db_def)

lemma sample_claim_check:
  assumes "org_entry db sample_call Escrow_create = Inr sample_manager" and "mapped_escrow sample_deployed 7 db = None"
  shows "claim_check sample_deployed db sample_call (Some 7) = Inr (Proven sample_manager 7 sample_live_escrow)"
proof -
  have "cv_contractId sample_deployed = Some ''C1''" "cv_getEscrow sample_deployed 7 = Some sample_live_escrow"
    "cc_manager sample_live_escrow = tc_walletAddress sample_manager"
    by (simp_all add: sample_deployed_def sample_live_escrow_def sample_manager_def)
  then show ?thesis using assms by (simp add: claim_check_def truthy_def fits_int_def)
qed

lemma sample_proof:
  "claim_check sample_deployed sample_office_db sample_call (Some 7) = Inr (Proven sample_manager 7 sample_live_escrow)"
  by (rule sample_claim_check [OF sample_office_entry]) (simp add: mapped_escrow_def sample_office_rows)

lemma sample_commit:
  "\<exists>db'. claim_commit sample_deployed sample_manager 7 sample_live_escrow sample_office_db =
     Some (db', claimed_row sample_deployed sample_manager 7 sample_live_escrow sample_office_db)"
  by (simp add: claim_commit_def Let_def createUnique_def sample_office_rows claimed_row_def sample_live_escrow_def
      fits_bigint_def fits_int_def)

theorem claim_proves_manager_witness:
  "\<exists>db' i row. claimEscrow sample_deployed sample_call (Some 7) sample_office_db = (db', Inr i) \<and>
     escrows db' = [row] \<and> es_totalAmountBaseUnits row = 42 \<and> es_orgId row = ''o1'' \<and> es_managerAddress row = ''GADMIN''"
proof -
  let ?row = "claimed_row sample_deployed sample_manager 7 sample_live_escrow sample_office_db"
  obtain db' where ok: "claimEscrow sample_deployed sample_call (Some 7) sample_office_db = (db', Inr (es_id ?row))"
    using sample_commit by (auto simp: claimEscrow_def sample_proof)
  have none: "mapped_escrow sample_deployed n sample_office_db = None" for n
    by (simp add: mapped_escrow_def sample_office_rows)
  obtain ctx n ce where facts: "org_entry sample_office_db sample_call Escrow_create = Inr ctx" "n = 7"
      "cv_getEscrow sample_deployed n = Some ce"
      "escrows db' = escrows sample_office_db @ [claimed_row sample_deployed ctx n ce sample_office_db]"
    using claim_proves_manager [OF ok] none by auto
  then have "escrows db' = [?row]"
    using sample_office_entry by (simp add: sample_office_rows sample_deployed_def)
  moreover have "es_totalAmountBaseUnits ?row = 42" "es_orgId ?row = ''o1''" "es_managerAddress ?row = ''GADMIN''"
    by (simp_all add: claimed_row_def sample_live_escrow_def sample_manager_def sample_seat_def)
  ultimately show ?thesis using ok by blast
qed

theorem claims_never_reassign_witness:
  "\<exists>w x. (claim_move {sample_deployed})\<^sup>*\<^sup>* \<lparr>mz_db = sample_office_db, mz_proven = []\<rparr> w \<and>
     escrows (mz_db w) = [x] \<and> evidenced_row {sample_deployed} sample_office_db x"
proof -
  let ?p = "(sample_deployed, sample_manager, 7, sample_live_escrow)"
  obtain db' where com: "claim_commit sample_deployed sample_manager 7 sample_live_escrow sample_office_db =
     Some (db', claimed_row sample_deployed sample_manager 7 sample_live_escrow sample_office_db)"
    using sample_commit by blast
  have a: "claim_move {sample_deployed} \<lparr>mz_db = sample_office_db, mz_proven = []\<rparr> \<lparr>mz_db = sample_office_db, mz_proven = [?p]\<rparr>"
    using claim_move.proves [of sample_deployed "{sample_deployed}" "\<lparr>mz_db = sample_office_db, mz_proven = []\<rparr>"] sample_proof
    by fastforce
  have b: "claim_move {sample_deployed} \<lparr>mz_db = sample_office_db, mz_proven = [?p]\<rparr> \<lparr>mz_db = db', mz_proven = []\<rparr>"
    using claim_move.commits [of "\<lparr>mz_db = sample_office_db, mz_proven = [?p]\<rparr>" "[]"] com by simp
  have run: "(claim_move {sample_deployed})\<^sup>*\<^sup>* \<lparr>mz_db = sample_office_db, mz_proven = []\<rparr> \<lparr>mz_db = db', mz_proven = []\<rparr>"
    using a b by (meson converse_rtranclp_into_rtranclp rtranclp.rtrancl_refl)
  have "\<exists>x. escrows db' = [x] \<and> evidenced_row {sample_deployed} sample_office_db x"
    using claims_never_reassign [OF run] claim_commit_Some(2) [OF com] by (auto simp: sample_office_rows)
  then show ?thesis using run by fastforce
qed

definition sample_elsewhere :: database where
  "sample_elsewhere = sample_office_db\<lparr>escrows :=
     [(claimed_row (sample_deployed\<lparr>cv_contractId := Some ''C0''\<rparr>) (sample_manager\<lparr>tc_orgId := ''o9''\<rparr>) 7
         sample_live_escrow sample_office_db)]\<rparr>"

theorem id_of_other_deployment_blocks_claim_witness:
  "claimEscrow sample_deployed sample_call (Some 7) sample_elsewhere = (sample_elsewhere, Inl (deny 500 None))"
proof -
  let ?x = "claimed_row (sample_deployed\<lparr>cv_contractId := Some ''C0''\<rparr>) (sample_manager\<lparr>tc_orgId := ''o9''\<rparr>) 7
         sample_live_escrow sample_office_db"
  have rows: "escrows sample_elsewhere = [?x]" "es_onChainId ?x = Some 7" "es_contractId ?x = ''C0''"
    by (simp_all add: sample_elsewhere_def claimed_row_def)
  have "org_entry sample_elsewhere sample_call Escrow_create = Inr sample_manager"
    by (simp add: org_entry_def sample_call_def withTenant_def requestedOrgId_def resolveTenant_def find_member_def
      findFirst_def sample_elsewhere_def sample_office_db_def sample_members_def sample_owner_def sample_admin_def
      sample_member_def empty_db_def Let_def requirePermission_def can_def GRANTS_def sample_seat_def sample_manager_def)
  moreover have "mapped_escrow sample_deployed 7 sample_elsewhere = None"
  proof -
    have "cv_contractId sample_deployed = Some ''C1''" by (simp add: sample_deployed_def)
    then show ?thesis by (simp add: mapped_escrow_def rows)
  qed
  ultimately have "claim_check sample_deployed sample_elsewhere sample_call (Some 7)
      = Inr (Proven sample_manager 7 sample_live_escrow)" by (rule sample_claim_check)
  from id_of_other_deployment_blocks_claim [OF this, of ?x] show ?thesis by (simp add: rows)
qed

definition sample_escrow_body :: json where
  "sample_escrow_body = JObj [(''onChainId'', JNum 7), (''workerPubKey'', JStr ''GW''),
     (''amountBaseUnits'', JStr ''100''), (''rateBaseUnits'', JStr ''10'')]"

definition sample_former :: database where
  "sample_former = sample_office_db\<lparr>members := [sample_admin\<lparr>mb_status := REMOVED\<rparr>]\<rparr>"

definition sample_platform_admin :: "auth_payload option" where
  "sample_platform_admin = Some \<lparr>ap_userId = ''u2'', ap_walletAddress = ''GADMIN'', ap_role = role_text ADMIN'\<rparr>"

lemma sample_recorded: "\<exists>db' p. recordEscrow sample_deployed sample_platform_admin sample_escrow_body sample_former
    = (db', Recorded p)"
proof -
  have schema: "createEscrowSchema sample_escrow_body = Some \<lparr>eb_onChainId = Some 7, eb_workerPubKey = ''GW'',
      eb_financeApprover = None, eb_amount = 100, eb_rate = 10, eb_assetDecimals = 7, eb_tokenAddress = None\<rparr>"
    by code_simp
  have member: "first_membership sample_former ''GADMIN'' = Some (sample_admin\<lparr>mb_status := REMOVED\<rparr>)"
    by (simp add: first_membership_def sample_former_def sample_office_db_def sample_members_def empty_db_def
        sample_admin_def sample_member_def js_sort_def findFirst_Cons)
  have rows: "escrows sample_former = []" "batches sample_former = []" "payments sample_former = []"
    by (simp_all add: sample_former_def sample_office_db_def sample_members_def empty_db_def)
  show ?thesis
    by (simp add: recordEscrow_def sample_platform_admin_def requireAdmin_def isAdmin_def schema member
        insert_recorded_def Let_def rows fits_bigint_def fits_int_def recorded_escrow_def)
qed

theorem removed_member_records_payment_witness:
  "\<exists>db' p. recordEscrow sample_deployed sample_platform_admin sample_escrow_body sample_former = (db', Recorded p) \<and>
     pm_orgId p = ''o1'' \<and> map mb_status (members sample_former) = [REMOVED] \<and> payments db' = [p]"
proof -
  obtain db' p where ok: "recordEscrow sample_deployed sample_platform_admin sample_escrow_body sample_former = (db', Recorded p)"
    using sample_recorded by blast
  have rows: "members sample_former = [sample_admin\<lparr>mb_status := REMOVED\<rparr>]" "payments sample_former = []"
    "mb_orgId sample_admin = ''o1''"
    by (simp_all add: sample_former_def sample_office_db_def sample_members_def empty_db_def sample_admin_def sample_member_def)
  then show ?thesis using removed_member_records_payment [OF ok] ok by auto
qed

theorem escrow_recorded_once_witness:
  "\<exists>db' p. recordEscrow sample_deployed sample_platform_admin sample_escrow_body sample_former = (db', Recorded p) \<and>
     fst (recordEscrow sample_deployed sample_platform_admin sample_escrow_body db') = db'"
proof -
  obtain db' p where ok: "recordEscrow sample_deployed sample_platform_admin sample_escrow_body sample_former = (db', Recorded p)"
    using sample_recorded by blast
  obtain b where "createEscrowSchema sample_escrow_body = Some b" "eb_onChainId b = Some 7"
  proof -
    have "map_option eb_onChainId (createEscrowSchema sample_escrow_body) = Some (Some 7)" by code_simp
    then show ?thesis using that by auto
  qed
  with escrow_recorded_once [OF ok this this] ok show ?thesis by blast
qed

end
