(* ===== verification/Params.thy ===== *)
theory Params
  imports Prelude
begin

text \<open>The numbers the routes read from the query of a request, such as \<open>limit\<close> and \<open>maxEscrows\<close>.\<close>

text \<open>\<open>parseInt(s, 10)\<close>; \<open>None\<close> is \<open>NaN\<close>.\<close>

definition parse_int10 :: "string \<Rightarrow> int option" where
  "parse_int10 s0 =
     (let s = dropWhile js_ws s0;
          negative = (s \<noteq> [] \<and> hd s = CHR ''-'');
          digits = takeWhile is_digit (if s \<noteq> [] \<and> hd s \<in> {CHR ''-'', CHR ''+''} then tl s else s)
      in if digits = [] then None
         else Some (if negative then - int (digits_val digits) else int (digits_val digits)))"

text \<open>\<open>Math.min(Math.max(parseInt(s || d, 10) || d, 1), m)\<close>.\<close>

definition clamped_param :: "string option \<Rightarrow> int \<Rightarrow> int \<Rightarrow> nat" where
  "clamped_param s d m =
     (let n = (case (if truthy s then parse_int10 (the s) else Some d) of None \<Rightarrow> d | Some n \<Rightarrow> if n = 0 then d else n)
      in nat (min (max n 1) m))"

lemma clamped_param_bounds: "1 \<le> m \<Longrightarrow> 1 \<le> clamped_param s d m \<and> int (clamped_param s d m) \<le> m"
proof -
  assume "1 \<le> m"
  then have "1 \<le> nat (min (max n 1) m) \<and> int (nat (min (max n 1) m)) \<le> m" for n :: int
    by (auto simp: min_def max_def Suc_le_eq)
  then show ?thesis by (simp only: clamped_param_def Let_def)
qed

end
