(* ===== verification/FindingRoutes.thy ===== *)
theory FindingRoutes
  imports OrgRoutes Auth Scheduler Params
begin

text \<open>
  The findings of the reconciliation as members see and close them:
  \<open>src/app/api/organizations/[id]/findings/route.ts\<close> and \<open>[findingId]/route.ts\<close>. The request that moves a
  row is its checks and its transaction, so that requests interleave. Of the list the rows are modelled, with
  their order and the page, and not the fields that are shown of each.
\<close>

section \<open>The list\<close>

definition finding_status_name :: "finding_status \<Rightarrow> string" where
  "finding_status_name s = (case s of OPEN \<Rightarrow> ''OPEN'' | ACKNOWLEDGED \<Rightarrow> ''ACKNOWLEDGED''
     | INVESTIGATING \<Rightarrow> ''INVESTIGATING'' | RESOLVED \<Rightarrow> ''RESOLVED'')"

definition finding_status_named :: "string \<Rightarrow> finding_status option" where
  "finding_status_named s = List.find (\<lambda>x. finding_status_name x = s) [OPEN, ACKNOWLEDGED, INVESTIGATING, RESOLVED]"

definition severity_name :: "finding_severity \<Rightarrow> string" where
  "severity_name s = (case s of CRITICAL \<Rightarrow> ''CRITICAL'' | HIGH \<Rightarrow> ''HIGH'' | MEDIUM \<Rightarrow> ''MEDIUM'' | LOW \<Rightarrow> ''LOW'')"

definition SEVERITY_ORDER :: "finding_severity list" where
  "SEVERITY_ORDER = [CRITICAL, HIGH, MEDIUM, LOW]"

definition severity_named :: "string \<Rightarrow> finding_severity option" where
  "severity_named s = List.find (\<lambda>x. severity_name x = s) SEVERITY_ORDER"

text \<open>The position of a severity in \<open>SEVERITY_ORDER\<close>, which is also the order of the declared values of the column.\<close>

definition severity_rank :: "finding_severity \<Rightarrow> int" where
  "severity_rank s = (case s of CRITICAL \<Rightarrow> 0 | HIGH \<Rightarrow> 1 | MEDIUM \<Rightarrow> 2 | LOW \<Rightarrow> 3)"

definition by_severity :: "finding_row \<Rightarrow> finding_row \<Rightarrow> int" where
  "by_severity a b = severity_rank (fd_severity a) - severity_rank (fd_severity b)"

definition by_urgency :: "finding_row \<Rightarrow> finding_row \<Rightarrow> int" where
  "by_urgency a b = (if fd_severity a \<noteq> fd_severity b then by_severity a b else fd_detectedAt a - fd_detectedAt b)"

definition wanted_finding :: "row_id \<Rightarrow> string option \<Rightarrow> string option \<Rightarrow> finding_row \<Rightarrow> bool" where
  "wanted_finding orgId status severity f \<longleftrightarrow>
     fd_orgId f = orgId \<and>
     (if truthy status then finding_status_named (the status) = Some (fd_status f) else fd_status f \<noteq> RESOLVED) \<and>
     (truthy severity \<longrightarrow> severity_named (the severity) = Some (fd_severity f))"

definition list_findings ::
  "database \<Rightarrow> org_call \<Rightarrow> string option \<Rightarrow> string option \<Rightarrow> string option \<Rightarrow> finding_row list result" where
  "list_findings db call status severity limit =
     (case org_entry db call Reconciliation_read of
        Inl d \<Rightarrow> Inl d
      | Inr ctx \<Rightarrow>
          if truthy status \<and> finding_status_named (the status) = None then Inl (deny 400 None)
          else if truthy severity \<and> severity_named (the severity) = None then Inl (deny 400 None)
          else Inr (js_sort by_severity
            (take (clamped_param limit 50 200)
              (js_sort by_urgency (filter (wanted_finding (tc_orgId ctx) status severity) (findings db))))))"

section \<open>Moving a finding\<close>

fun FINDING_TRANSITIONS :: "finding_status \<Rightarrow> finding_status list" where
  "FINDING_TRANSITIONS OPEN = [ACKNOWLEDGED, INVESTIGATING, RESOLVED]"
| "FINDING_TRANSITIONS ACKNOWLEDGED = [INVESTIGATING, RESOLVED]"
| "FINDING_TRANSITIONS INVESTIGATING = [RESOLVED, ACKNOWLEDGED]"
| "FINDING_TRANSITIONS RESOLVED = []"

definition MIN_RESOLUTION_LENGTH :: nat where
  "MIN_RESOLUTION_LENGTH = 10"

datatype finding_verdict = Unchanged finding_status | Advance tenant_context finding_row finding_status string

definition finding_check :: "database \<Rightarrow> org_call \<Rightarrow> row_id \<Rightarrow> json \<Rightarrow> finding_verdict result" where
  "finding_check db call findingId body =
     (case org_entry db call Reconciliation_resolve of
        Inl d \<Rightarrow> Inl d
      | Inr ctx \<Rightarrow>
          (case (case body_text body ''status'' of None \<Rightarrow> None | Some s \<Rightarrow> finding_status_named s) of
             None \<Rightarrow> Inl (deny 400 None)
           | Some target \<Rightarrow>
               (case findFirst (\<lambda>f. fd_id f = findingId \<and> fd_orgId f = tc_orgId ctx) (findings db) of
                  None \<Rightarrow> Inl (deny 404 None)
                | Some row \<Rightarrow>
                    if fd_status row = target then Inr (Unchanged target)
                    else if target \<notin> set (FINDING_TRANSITIONS (fd_status row))
                    then Inl (deny 409 (Some ''INVALID_FINDING_TRANSITION''))
                    else
                      (let reason = (case body_text body ''resolution'' of None \<Rightarrow> [] | Some r \<Rightarrow> js_trim r) in
                       if target = RESOLVED \<and> length reason < MIN_RESOLUTION_LENGTH
                       then Inl (deny 400 (Some ''RESOLUTION_REASON_REQUIRED''))
                       else Inr (Advance ctx row target reason)))))"

definition advanced :: "instant \<Rightarrow> address \<Rightarrow> finding_status \<Rightarrow> string \<Rightarrow> finding_row \<Rightarrow> finding_row" where
  "advanced t wallet target reason f =
     (case target of
        ACKNOWLEDGED \<Rightarrow> f\<lparr>fd_status := target, fd_acknowledgedAt := Some t, fd_acknowledgedBy := Some wallet\<rparr>
      | RESOLVED \<Rightarrow> f\<lparr>fd_status := target, fd_resolvedAt := Some t, fd_resolvedBy := Some wallet,
                    fd_resolution := Some reason\<rparr>
      | _ \<Rightarrow> f\<lparr>fd_status := target\<rparr>)"

definition finding_kind_name :: "finding_kind \<Rightarrow> string" where
  "finding_kind_name k = (case k of
       DB_PAID_CHAIN_NOT \<Rightarrow> ''DB_PAID_CHAIN_NOT'' | CHAIN_PAID_DB_NOT \<Rightarrow> ''CHAIN_PAID_DB_NOT''
     | AMOUNT_MISMATCH \<Rightarrow> ''AMOUNT_MISMATCH'' | ASSET_MISMATCH \<Rightarrow> ''ASSET_MISMATCH''
     | RECIPIENT_MISMATCH \<Rightarrow> ''RECIPIENT_MISMATCH'' | MISSING_ON_CHAIN \<Rightarrow> ''MISSING_ON_CHAIN''
     | ORPHAN_ON_CHAIN \<Rightarrow> ''ORPHAN_ON_CHAIN'' | UNKNOWN_ON_CHAIN_OBJECT \<Rightarrow> ''UNKNOWN_ON_CHAIN_OBJECT''
     | FAILED_TX_ACTUALLY_SUCCEEDED \<Rightarrow> ''FAILED_TX_ACTUALLY_SUCCEEDED''
     | MISSING_PAYMENT_EVENT \<Rightarrow> ''MISSING_PAYMENT_EVENT'' | DUPLICATE_PAYMENT_EVENT \<Rightarrow> ''DUPLICATE_PAYMENT_EVENT''
     | CHAIN_UNREADABLE \<Rightarrow> ''CHAIN_UNREADABLE'' | OTHER \<Rightarrow> ''OTHER'')"

text \<open>The transaction: the update by id, whatever the row is by then, and the audit event of what was read.\<close>

definition finding_commit ::
  "env \<Rightarrow> tenant_context \<Rightarrow> finding_row \<Rightarrow> finding_status \<Rightarrow> string \<Rightarrow> database \<Rightarrow> database" where
  "finding_commit e ctx row target reason db =
     (let db = db\<lparr>findings := updated (\<lambda>f. fd_id f = fd_id row)
            (advanced (now e) (tc_walletAddress ctx) target reason) (findings db)\<rparr>
      in recordAuditEvent e db
           \<lparr>in_orgId = tc_orgId ctx, in_type = ''reconciliation.finding.'' @ toLowerCase (finding_status_name target),
            in_actor = Some \<lparr>kind = User, role = Some (tc_role ctx), address = Some (tc_walletAddress ctx), system = None\<rparr>,
            in_paymentId = fd_paymentId row, in_batchId = None, in_escrowId = None, in_txHash = fd_txHash row,
            in_metadata = Some ([(''findingId'', JStr (fd_id row)),
              (''kind'', JStr (finding_kind_name (fd_kind row))),
              (''severity'', JStr (severity_name (fd_severity row))),
              (''previousStatus'', JStr (finding_status_name (fd_status row))),
              (''newStatus'', JStr (finding_status_name target))] @
              (if reason \<noteq> [] then [(''resolution'', JStr reason)] else []))\<rparr>)"

definition advanceFinding ::
  "env \<Rightarrow> org_call \<Rightarrow> row_id \<Rightarrow> json \<Rightarrow> database \<Rightarrow> database \<times> finding_status result" where
  "advanceFinding e call findingId body db =
     (case finding_check db call findingId body of
        Inl d \<Rightarrow> (db, Inl d)
      | Inr (Unchanged s) \<Rightarrow> (db, Inr s)
      | Inr (Advance ctx row target reason) \<Rightarrow> (finding_commit e ctx row target reason db, Inr target))"

text \<open>
  What a reconciliation run writes, one statement at a time: a finding, a state change of a payment with its audit
  event, a transaction that did not fail after all, and the row of the run itself.
\<close>

inductive run_write :: "database \<Rightarrow> database \<Rightarrow> bool" where
  observes: "run_write db (fst (upsertFinding e db inp))"
| settles: "run_write db (fst (applyTransition e db req))"
| corrects: "run_write db (db\<lparr>transactions := updated P confirmed_after_all (transactions db)\<rparr>)"
| locks: "lock_step db db' \<Longrightarrow> run_write db db'"

text \<open>Requests in flight, of any members, and reconciliation runs, of any organizations.\<close>

record finding_world =
  fw_db :: database
  fw_pending :: "(tenant_context \<times> finding_row \<times> finding_status \<times> string) list"

inductive finding_move :: "finding_world \<Rightarrow> finding_world \<Rightarrow> bool" where
  asks: "finding_check (fw_db w) call i body = Inr (Advance ctx f target reason) \<Longrightarrow>
    finding_move w (w\<lparr>fw_pending := fw_pending w @ [(ctx, f, target, reason)]\<rparr>)"
| writes: "fw_pending w = before @ (ctx, f, target, reason) # after \<Longrightarrow>
    finding_move w \<lparr>fw_db = finding_commit e ctx f target reason (fw_db w), fw_pending = before @ after\<rparr>"
| reconciles: "run_write (fw_db w) db' \<Longrightarrow> finding_move w (w\<lparr>fw_db := db'\<rparr>)"

section \<open>A run is a sequence of such writes\<close>

lemma writes_transitive: "run_write\<^sup>*\<^sup>* db db1 \<Longrightarrow> run_write db1 db2 \<Longrightarrow> run_write\<^sup>*\<^sup>* db db2"
  by (rule rtranclp.rtrancl_into_rtrancl)

interpretation written: run_invariant e v rc work "run_write\<^sup>*\<^sup>* db0" for e v rc work db0
  by unfold_locales (blast intro: writes_transitive run_write.intros)+

lemma failed_written:
  assumes "run_write\<^sup>*\<^sup>* db0 (fst st)"
  shows "run_write\<^sup>*\<^sup>* db0 (fst (failed_step e v rc x st))"
proof -
  obtain db r where st: "st = (db, r)" by fastforce
  let ?db1 = "fst (upsertFinding e db (false_failure rc x))"
  have one: "run_write\<^sup>*\<^sup>* db0 ?db1"
    using assms by (auto simp: st intro: writes_transitive run_write.observes)
  then have "run_write\<^sup>*\<^sup>* db0 (?db1\<lparr>transactions := updated (\<lambda>t. tx_id t = tx_id x) confirmed_after_all (transactions ?db1)\<rparr>)"
    by (rule writes_transitive) (rule run_write.corrects)
  then show ?thesis
    using assms by (auto simp: st fst_failed_step split: sum.split bool.split)
qed

lemma passes_written: "run_write\<^sup>*\<^sup>* db (fst (fst (run_passes e v rc f db)))"
proof (rule passes_keep [where I = "run_write\<^sup>*\<^sup>* db"])
  show "run_write\<^sup>*\<^sup>* db (fst (fold (reconcile_escrow e v rc) xs (db0, no_tally)))"
    if "run_write\<^sup>*\<^sup>* db db0" "set xs \<subseteq> set (escrows_to_examine db (rc_orgId rc) (rc_options rc))" for db0 xs
    using written.escrows [of db "(db0, no_tally)" xs "escrows_to_examine db (rc_orgId rc) (rc_options rc)" e v rc] that
    by simp
  show "run_write\<^sup>*\<^sup>* db (fst (unknown_step e rc c x st))" if "run_write\<^sup>*\<^sup>* db (fst st)" for c x st
    using that by (cases st) (auto simp: fst_unknown_step intro: writes_transitive run_write.observes)
qed (auto intro: failed_written)

lemma start_written: "run_write\<^sup>*\<^sup>* db (fst (startRun e o' scope c n corr db))"
proof -
  let ?db1 = "reclaim_stale e o' db"
  have "run_write\<^sup>*\<^sup>* db ?db1" by (blast intro: run_write.locks lock_step.step_reclaims)
  moreover from this have "run_write\<^sup>*\<^sup>* db (fst (insert_run e o' scope c n corr ?db1))"
    by (rule writes_transitive) (rule run_write.locks [OF lock_step.step_inserts])
  ultimately show ?thesis by (simp add: startRun_def Let_def split: option.split)
qed

lemma run_is_writes: "run_write\<^sup>*\<^sup>* db (fst (runReconciliation e v o' opts scope corr f db))"
proof -
  obtain db1 claim where start: "startRun e o' (case scope of None \<Rightarrow> ''organization'' | Some s \<Rightarrow> s)
      (ro_contractId opts) (ro_network opts) corr db = (db1, claim)" by fastforce
  have one: "run_write\<^sup>*\<^sup>* db db1" using start_written start by (metis fst_conv)
  have finished: "run_write\<^sup>*\<^sup>* db (finishRun e i s t m db2)"
    if "run_passes e v rc f db1 = ((db2, t2), thrown)" "s \<noteq> RUNNING" for i s t m rc db2 t2 thrown
  proof -
    have "run_write\<^sup>*\<^sup>* db1 db2" using passes_written [of db1 e v rc f] that(1) by simp
    then show ?thesis
      using one that(2) by (meson rtranclp_trans writes_transitive run_write.locks lock_step.step_finishes)
  qed
  show ?thesis
    using one finished
    by (auto simp: runReconciliation_def start split: start_result.split prod.split option.split)
qed

text \<open>So a whole run, with nothing of anybody else in between, is a sequence of moves of the world.\<close>

lemma run_is_moves:
  "finding_move\<^sup>*\<^sup>* \<lparr>fw_db = db, fw_pending = ps\<rparr>
     \<lparr>fw_db = fst (runReconciliation e v o' opts scope corr f db), fw_pending = ps\<rparr>"
proof -
  have "finding_move\<^sup>*\<^sup>* \<lparr>fw_db = db, fw_pending = ps\<rparr> \<lparr>fw_db = db', fw_pending = ps\<rparr>"
    if "run_write\<^sup>*\<^sup>* db db'" for db'
    using that
  proof (induction rule: rtranclp_induct)
    case (step y z)
    then have "finding_move \<lparr>fw_db = y, fw_pending = ps\<rparr> \<lparr>fw_db = z, fw_pending = ps\<rparr>"
      using finding_move.reconciles [of "\<lparr>fw_db = y, fw_pending = ps\<rparr>" z] by simp
    then show ?case using step.IH by simp
  qed simp
  then show ?thesis using run_is_writes by blast
qed

section \<open>The page is the most urgent part\<close>

lemma js_insert_sorted:
  assumes total: "\<And>x y. cmp x y \<le> 0 \<or> cmp y x \<le> 0"
    and trans: "\<And>x y z. cmp x y \<le> 0 \<Longrightarrow> cmp y z \<le> 0 \<Longrightarrow> cmp x z \<le> 0"
  shows "sorted_wrt (\<lambda>a b. cmp a b \<le> 0) xs \<Longrightarrow> sorted_wrt (\<lambda>a b. cmp a b \<le> 0) (js_insert cmp x xs)"
proof (induction xs)
  case (Cons y ys)
  show ?case
  proof (cases "cmp x y \<le> 0")
    case True
    then show ?thesis using Cons.prems trans by auto
  next
    case False
    then show ?thesis using Cons total [of x y] by auto
  qed
qed simp

lemma js_sort_wrt:
  assumes "\<And>x y. cmp x y \<le> 0 \<or> cmp y x \<le> 0" and "\<And>x y z. cmp x y \<le> 0 \<Longrightarrow> cmp y z \<le> 0 \<Longrightarrow> cmp x z \<le> 0"
  shows "sorted_wrt (\<lambda>a b. cmp a b \<le> 0) (js_sort cmp xs)"
  by (induction xs) (simp_all add: js_sort_def js_insert_sorted [OF assms])

lemma js_sort_id: "sorted_wrt (\<lambda>a b. cmp a b \<le> 0) xs \<Longrightarrow> js_sort cmp xs = xs"
proof (induction xs)
  case (Cons x xs)
  then have "js_sort cmp (x # xs) = js_insert cmp x xs" by (simp add: js_sort_def)
  also have "\<dots> = x # xs" using Cons.prems by (cases xs) simp_all
  finally show ?case .
qed (simp add: js_sort_def)

lemma severity_rank_inj: "severity_rank a = severity_rank b \<longleftrightarrow> a = b"
  by (cases a; cases b) (simp_all add: severity_rank_def)

lemma by_urgency_le:
  "by_urgency a b \<le> 0 \<longleftrightarrow> severity_rank (fd_severity a) < severity_rank (fd_severity b) \<or>
     fd_severity a = fd_severity b \<and> fd_detectedAt a \<le> fd_detectedAt b"
  by (auto simp: by_urgency_def by_severity_def severity_rank_inj [symmetric])

lemma by_urgency_sorted: "sorted_wrt (\<lambda>a b. by_urgency a b \<le> 0) (js_sort by_urgency fs)"
  by (rule js_sort_wrt) (auto simp: by_urgency_le severity_rank_inj [symmetric])

text \<open>
  The list of findings holds only findings of the caller's organization that match the filters, without the
  resolved ones unless they are asked for; it is in the order of urgency, then of age; and what a page leaves out is
  never more urgent, nor as urgent and older, than anything on it. The second sort of the handler, made because
  the order of the column was taken to be alphabetical, changes nothing.
\<close>

theorem findings_page_most_urgent:
  assumes "list_findings db call status severity limit = Inr page"
  shows "(\<forall>f \<in> set page. f \<in> set (findings db) \<and> fd_orgId f = oc_orgId call \<and> (\<not> truthy status \<longrightarrow> fd_status f \<noteq> RESOLVED)) \<and>
    sorted_wrt (\<lambda>a b. by_urgency a b \<le> 0) page \<and>
    (\<forall>f \<in> set (findings db). wanted_finding (oc_orgId call) status severity f \<longrightarrow> f \<notin> set page \<longrightarrow>
       length page = clamped_param limit 50 200 \<and> (\<forall>g \<in> set page. by_urgency g f \<le> 0))"
proof -
  define n where "n = clamped_param limit 50 200"
  obtain ctx where ctx: "org_entry db call Reconciliation_read = Inr ctx"
    using assms by (auto simp: list_findings_def split: sum.splits)
  then have org: "tc_orgId ctx = oc_orgId call" by (auto simp: org_entry_def split: sum.splits if_splits)
  define wanted where "wanted = js_sort by_urgency (filter (wanted_finding (oc_orgId call) status severity) (findings db))"
  have sorted: "sorted_wrt (\<lambda>a b. by_urgency a b \<le> 0) wanted" unfolding wanted_def by (rule by_urgency_sorted)
  then have part: "sorted_wrt (\<lambda>a b. by_urgency a b \<le> 0) (take n wanted)" by (rule sorted_wrt_take)
  then have "sorted_wrt (\<lambda>a b. by_severity a b \<le> 0) (take n wanted)"
    by (rule sorted_wrt_mono_rel [rotated]) (auto simp: by_urgency_le by_severity_def)
  then have page: "page = take n wanted"
    using assms ctx by (auto simp: list_findings_def org wanted_def n_def js_sort_id split: if_splits)
  have "set wanted = {f \<in> set (findings db). wanted_finding (oc_orgId call) status severity f}"
    by (simp add: wanted_def)
  moreover have "length page = n \<and> (\<forall>g \<in> set page. by_urgency g f \<le> 0)"
    if f: "f \<in> set wanted" "f \<notin> set page" for f
  proof -
    have "wanted = take n wanted @ drop n wanted" by simp
    then have "f \<in> set (drop n wanted)" using f page by (metis Un_iff set_append)
    moreover from this have "length (take n wanted) = n" by (cases "n \<le> length wanted") auto
    moreover have "sorted_wrt (\<lambda>a b. by_urgency a b \<le> 0) (take n wanted @ drop n wanted)" using sorted by simp
    ultimately show ?thesis by (simp only: page sorted_wrt_append) blast
  qed
  ultimately have out: "\<forall>f \<in> set (findings db). wanted_finding (oc_orgId call) status severity f \<longrightarrow> f \<notin> set page \<longrightarrow>
      length page = n \<and> (\<forall>g \<in> set page. by_urgency g f \<le> 0)"
    and sub: "set page \<subseteq> {f \<in> set (findings db). wanted_finding (oc_orgId call) status severity f}"
    using set_take_subset [of n wanted] by (blast, simp add: page)
  have "\<forall>f \<in> set page. f \<in> set (findings db) \<and> fd_orgId f = oc_orgId call \<and> (\<not> truthy status \<longrightarrow> fd_status f \<noteq> RESOLVED)"
    using sub by (auto simp: wanted_finding_def)
  with out part show ?thesis unfolding n_def page by blast
qed

section \<open>What requests and the reconciler keep of a finding\<close>

lemma finding_check_Advance:
  assumes "finding_check db call i body = Inr (Advance ctx f target reason)"
  shows "org_entry db call Reconciliation_resolve = Inr ctx" "f \<in> set (findings db)" "fd_id f = i"
    "fd_orgId f = tc_orgId ctx" "target \<in> set (FINDING_TRANSITIONS (fd_status f))"
    "target = RESOLVED \<Longrightarrow> MIN_RESOLUTION_LENGTH \<le> length reason"
  using assms
  by (auto simp: finding_check_def Let_def split: sum.splits option.splits if_splits dest!: findFirst_SomeD)

lemma finding_commit_simps [simp]:
  "findings (finding_commit e ctx f target reason db) =
     updated (\<lambda>g. fd_id g = fd_id f) (advanced (now e) (tc_walletAddress ctx) target reason) (findings db)"
  "payments (finding_commit e ctx f target reason db) = payments db"
  "escrows (finding_commit e ctx f target reason db) = escrows db"
  "transactions (finding_commit e ctx f target reason db) = transactions db"
  "batches (finding_commit e ctx f target reason db) = batches db"
  by (simp_all add: finding_commit_def recordAuditEvent_def Let_def)

definition explained :: "finding_row \<Rightarrow> bool" where
  "explained f \<longleftrightarrow> (fd_status f = RESOLVED \<longrightarrow>
     (\<exists>r. fd_resolution f = Some r \<and> MIN_RESOLUTION_LENGTH \<le> length r) \<and> fd_resolvedBy f \<noteq> None \<and> fd_resolvedAt f \<noteq> None)"

text \<open>What a row is about.\<close>

definition finding_subject :: "finding_row \<Rightarrow> row_id \<times> row_id \<times> finding_kind \<times> finding_severity \<times> row_id option" where
  "finding_subject f = (fd_id f, fd_orgId f, fd_kind f, fd_severity f, fd_paymentId f)"

lemma advanced_subject [simp]: "finding_subject (advanced t w target reason f) = finding_subject f"
  by (cases target) (simp_all add: advanced_def finding_subject_def)

lemma advanced_explained:
  "(target = RESOLVED \<Longrightarrow> MIN_RESOLUTION_LENGTH \<le> length reason) \<Longrightarrow> explained (advanced t w target reason f)"
  by (cases target) (simp_all add: advanced_def explained_def)

lemma upsertFinding_findings:
  "findings (fst (upsertFinding e db inp)) =
     (case findFirst (same_problem inp) (findings db) of
        Some f \<Rightarrow> updated (\<lambda>g. fd_id g = fd_id f) (observed_again e inp) (findings db)
      | None \<Rightarrow> findings db @ [new_finding e db inp])"
  by (cases "findFirst (same_problem inp) (findings db)") (simp_all add: upsertFinding_def del: findFirst_None_iff)

definition findings_sound :: "database \<Rightarrow> finding_world \<Rightarrow> bool" where
  "findings_sound db w \<longleftrightarrow>
     (\<forall>f \<in> set (findings (fw_db w)). explained f) \<and>
     (\<exists>new. map finding_subject (findings (fw_db w)) = map finding_subject (findings db) @ new) \<and>
     (\<forall>(ctx, f, target, reason) \<in> set (fw_pending w). target = RESOLVED \<longrightarrow> MIN_RESOLUTION_LENGTH \<le> length reason)"

lemma findings_sound_step:
  assumes "findings_sound db w" and "finding_move w w'"
  shows "findings_sound db w'"
  using assms(2)
proof (cases rule: finding_move.cases)
  case (asks call i body ctx f target reason)
  from finding_check_Advance(6) [OF asks(2)] asks(1) assms(1) show ?thesis
    by (auto simp: findings_sound_def)
next
  case (writes before ctx f target reason after e)
  let ?g = "advanced (now e) (tc_walletAddress ctx) target reason"
  have long: "target = RESOLVED \<Longrightarrow> MIN_RESOLUTION_LENGTH \<le> length reason"
    using assms(1) writes(2) by (auto simp: findings_sound_def)
  have "explained g" if "g \<in> set (updated (\<lambda>g. fd_id g = fd_id f) ?g (findings (fw_db w)))" for g
    using that assms(1) advanced_explained [OF long] by (auto simp: updated_eq findings_sound_def)
  moreover have "map finding_subject (updated P ?g t) = map finding_subject t" for P t
    by (simp add: updated_eq)
  ultimately show ?thesis
    using assms(1) writes by (auto simp: findings_sound_def)
next
  case (reconciles db')
  from reconciles(2) show ?thesis
  proof cases
    case (observes e inp)
    show ?thesis
    proof (cases "findFirst (same_problem inp) (findings (fw_db w))")
      case None
      have "explained (new_finding e (fw_db w) inp)" by (simp add: explained_def new_finding_def)
      then show ?thesis
        using assms(1) None observes reconciles(1)
        by (auto simp: findings_sound_def upsertFinding_def simp del: findFirst_None_iff)
    next
      case (Some f)
      let ?g = "observed_again e inp"
      have "explained (?g g) = explained g" "finding_subject (?g g) = finding_subject g" for g
        by (simp_all add: explained_def observed_again_def finding_subject_def)
      then have "map finding_subject (updated P ?g t) = map finding_subject t"
        "Ball (set t) explained \<Longrightarrow> Ball (set (updated P ?g t)) explained" for P t
        by (auto simp: updated_eq)
      then show ?thesis
        using assms(1) Some observes reconciles(1) by (auto simp: findings_sound_def upsertFinding_def)
    qed
  next
    case (settles e req)
    then have "findings db' = findings (fw_db w)" using applyTransition_keeps(10) by (metis prod.collapse)
    then show ?thesis using assms(1) reconciles(1) by (simp add: findings_sound_def)
  next
    case (corrects P)
    then show ?thesis using assms(1) reconciles(1) by (simp add: findings_sound_def)
  next
    case locks
    then have "findings db' = findings (fw_db w)"
      by (cases rule: lock_step.cases)
        (auto simp: reclaim_stale_def insert_run_cases heartbeat_def finishRun_def)
    then show ?thesis using assms(1) reconciles(1) by (simp add: findings_sound_def)
  qed
qed

text \<open>
  C37: Requests of any members, between the lookup and the transaction of each, interleave with each other and with
  the statements of any reconciliation runs, which record findings, change the states of payments, correct
  transactions and keep the lock (a whole \<open>runReconciliation\<close> is a sequence of these). However they do, a row
  that is resolved has an explanation of at least ten characters, an author and a time; and no finding
  disappears or becomes a finding about something else.
\<close>

theorem resolved_findings_explained:
  assumes "finding_move\<^sup>*\<^sup>* \<lparr>fw_db = db, fw_pending = []\<rparr> w" and "\<forall>f \<in> set (findings db). explained f"
  shows "(\<forall>f \<in> set (findings (fw_db w)). explained f) \<and>
    (\<exists>new. map finding_subject (findings (fw_db w)) = map finding_subject (findings db) @ new)"
proof -
  have "findings_sound db \<lparr>fw_db = db, fw_pending = []\<rparr>" using assms(2) by (simp add: findings_sound_def)
  with assms(1) have "findings_sound db w"
    by (induction rule: rtranclp_induct) (auto intro: findings_sound_step)
  then show ?thesis by (simp add: findings_sound_def)
qed

text \<open>
  Answered one at a time, no request touches a resolved row again: the row stays as it is, whatever is asked
  for whichever finding, and a request that names it and does not ask for the status it has is refused. An
  observation of the same problem leaves it too.
\<close>

theorem closed_finding_stays:
  assumes "f \<in> set (findings db)" and "fd_status f = RESOLVED" and "distinct (map fd_id (findings db))"
  shows "f \<in> set (findings (fst (advanceFinding e call i body db))) \<and>
    (i = fd_id f \<longrightarrow> fst (advanceFinding e call i body db) = db) \<and>
    f \<in> set (findings (fst (upsertFinding e db inp)))"
proof -
  have kept: "f \<in> set (updated (\<lambda>g. fd_id g = fd_id h) k (findings db))"
    if "h \<in> set (findings db)" "fd_status h \<noteq> RESOLVED" for h k
  proof -
    have "fd_id f \<noteq> fd_id h" using that assms by (metis distinct_map inj_onD)
    then show ?thesis using assms(1) by (force simp: updated_eq)
  qed
  have other: "i \<noteq> fd_id f \<and> f \<in> set (findings (finding_commit e ctx g target reason db))"
    if chk: "finding_check db call i body = Inr (Advance ctx g target reason)" for ctx g target reason
  proof -
    note facts = finding_check_Advance [OF chk]
    have open': "fd_status g \<noteq> RESOLVED" using facts(5) by auto
    then have "fd_id f \<noteq> fd_id g" using facts(2) assms by (metis distinct_map inj_onD)
    then show ?thesis using kept [OF facts(2) open'] facts(3) by simp
  qed
  have "f \<in> set (findings (fst (upsertFinding e db inp)))"
    using kept assms(1)
    by (auto simp: upsertFinding_findings same_problem_def split: option.split dest!: findFirst_SomeD)
  then show ?thesis
    using other assms(1) by (auto simp: advanceFinding_def split: sum.split finding_verdict.split)
qed

text \<open>
  Between its lookup and its transaction a request holds nothing: when one member resolves a row and another
  acknowledges it at the same time, the row ends as acknowledged although it has its explanation and its
  author, and the audit log says that it went from the earlier status to acknowledged. Resolved is meant to be
  terminal.
\<close>

theorem resolved_finding_reopened:
  assumes "finding_check db call i body = Inr (Advance ctx f RESOLVED reason)"
    and "finding_check db call' i body' = Inr (Advance ctx' f' ACKNOWLEDGED reason')"
  shows "\<exists>w g. finding_move\<^sup>*\<^sup>* \<lparr>fw_db = db, fw_pending = []\<rparr> w \<and> g \<in> set (findings (fw_db w)) \<and> fd_id g = i \<and>
    fd_status g = ACKNOWLEDGED \<and> fd_resolution g = Some reason \<and> fd_resolvedBy g = Some (tc_walletAddress ctx) \<and>
    fw_pending w = []"
proof -
  note one = finding_check_Advance [OF assms(1)] and two = finding_check_Advance [OF assms(2)]
  fix e :: env
  let ?w0 = "\<lparr>fw_db = db, fw_pending = []\<rparr>"
  let ?p = "(ctx, f, RESOLVED, reason)" and ?q = "(ctx', f', ACKNOWLEDGED, reason')"
  let ?d1 = "finding_commit e ctx f RESOLVED reason db"
  let ?d2 = "finding_commit e ctx' f' ACKNOWLEDGED reason' ?d1"
  have a: "finding_move ?w0 \<lparr>fw_db = db, fw_pending = [?p]\<rparr>"
    using finding_move.asks [of ?w0] assms(1) by fastforce
  have b: "finding_move \<lparr>fw_db = db, fw_pending = [?p]\<rparr> \<lparr>fw_db = db, fw_pending = [?p, ?q]\<rparr>"
    using finding_move.asks [of "\<lparr>fw_db = db, fw_pending = [?p]\<rparr>"] assms(2) by fastforce
  have c: "finding_move \<lparr>fw_db = db, fw_pending = [?p, ?q]\<rparr> \<lparr>fw_db = ?d1, fw_pending = [?q]\<rparr>"
    using finding_move.writes [of "\<lparr>fw_db = db, fw_pending = [?p, ?q]\<rparr>" "[]" ctx f RESOLVED reason "[?q]" e] by simp
  have d: "finding_move \<lparr>fw_db = ?d1, fw_pending = [?q]\<rparr> \<lparr>fw_db = ?d2, fw_pending = []\<rparr>"
    using finding_move.writes [of "\<lparr>fw_db = ?d1, fw_pending = [?q]\<rparr>" "[]" ctx' f' ACKNOWLEDGED reason' "[]" e] by simp
  have run: "finding_move\<^sup>*\<^sup>* ?w0 \<lparr>fw_db = ?d2, fw_pending = []\<rparr>"
    using a b c d by (meson converse_rtranclp_into_rtranclp rtranclp.rtrancl_refl)
  let ?g = "advanced (now e) (tc_walletAddress ctx') ACKNOWLEDGED reason' (advanced (now e) (tc_walletAddress ctx) RESOLVED reason f)"
  have "?g \<in> set (findings ?d2)" using one(2,3) two(3) by (force simp: updated_eq advanced_def)
  moreover have "fd_id ?g = i" "fd_status ?g = ACKNOWLEDGED" "fd_resolution ?g = Some reason"
    "fd_resolvedBy ?g = Some (tc_walletAddress ctx)"
    using one(3) by (simp_all add: advanced_def)
  ultimately show ?thesis using run by fastforce
qed

section \<open>Examples\<close>

definition sample_finding :: "row_id \<Rightarrow> finding_severity \<Rightarrow> finding_status \<Rightarrow> finding_row" where
  "sample_finding i v s =
     \<lparr>fd_id = i, fd_orgId = ''o1'', fd_paymentId = Some ''p1'', fd_kind = AMOUNT_MISMATCH, fd_dbState = None,
      fd_chainState = None, fd_metadata = [], fd_runId = None, fd_status = s, fd_severity = v, fd_txHash = None,
      fd_escrowOnChainId = None, fd_paymentIndex = None, fd_detectedAt = 5, fd_lastObservedAt = 5,
      fd_observationCount = 1, fd_acknowledgedAt = None, fd_acknowledgedBy = None, fd_resolvedAt = None,
      fd_resolvedBy = None, fd_resolution = None\<rparr>"

definition sample_queue :: database where
  "sample_queue = sample_members\<lparr>findings := [sample_finding ''f1'' LOW OPEN, sample_finding ''f2'' CRITICAL OPEN]\<rparr>"

lemma sample_queue_entry:
  "org_entry sample_queue sample_call Reconciliation_read = Inr (sample_seat sample_admin)"
  "org_entry sample_queue sample_call Reconciliation_resolve = Inr (sample_seat sample_admin)"
  by (simp_all add: org_entry_def sample_call_def withTenant_def requestedOrgId_def resolveTenant_def find_member_def
      findFirst_def sample_queue_def sample_members_def sample_owner_def sample_admin_def sample_member_def empty_db_def
      Let_def requirePermission_def can_def GRANTS_def sample_seat_def)

definition sample_resolution :: json where
  "sample_resolution = JObj [(''status'', JStr ''RESOLVED''), (''resolution'', JStr ''checked by hand'')]"

definition sample_acknowledgement :: json where
  "sample_acknowledgement = JObj [(''status'', JStr ''ACKNOWLEDGED'')]"

lemma sample_queue_findings:
  "findings sample_queue = [sample_finding ''f1'' LOW OPEN, sample_finding ''f2'' CRITICAL OPEN]"
  by (simp add: sample_queue_def)

lemma sample_checks:
  "finding_check sample_queue sample_call ''f1'' sample_resolution =
     Inr (Advance (sample_seat sample_admin) (sample_finding ''f1'' LOW OPEN) RESOLVED ''checked by hand'')"
  "finding_check sample_queue sample_call ''f1'' sample_acknowledgement =
     Inr (Advance (sample_seat sample_admin) (sample_finding ''f1'' LOW OPEN) ACKNOWLEDGED [])"
proof -
  have trim: "js_trim ''checked by hand'' = ''checked by hand''" by code_simp
  have org: "tc_orgId (sample_seat sample_admin) = ''o1''"
    by (simp add: sample_seat_def sample_admin_def sample_member_def)
  show "finding_check sample_queue sample_call ''f1'' sample_resolution =
     Inr (Advance (sample_seat sample_admin) (sample_finding ''f1'' LOW OPEN) RESOLVED ''checked by hand'')"
    by (simp add: finding_check_def sample_queue_entry sample_queue_findings sample_resolution_def body_text_def
        finding_status_named_def finding_status_name_def findFirst_def sample_finding_def org trim Let_def
        MIN_RESOLUTION_LENGTH_def)
  show "finding_check sample_queue sample_call ''f1'' sample_acknowledgement =
     Inr (Advance (sample_seat sample_admin) (sample_finding ''f1'' LOW OPEN) ACKNOWLEDGED [])"
    by (simp add: finding_check_def sample_queue_entry sample_queue_findings sample_acknowledgement_def body_text_def
        finding_status_named_def finding_status_name_def findFirst_def sample_finding_def org Let_def)
qed

theorem resolved_finding_reopened_witness:
  "\<exists>w g. finding_move\<^sup>*\<^sup>* \<lparr>fw_db = sample_queue, fw_pending = []\<rparr> w \<and> g \<in> set (findings (fw_db w)) \<and>
     fd_id g = ''f1'' \<and> fd_status g = ACKNOWLEDGED \<and> fd_resolution g = Some ''checked by hand''"
  using resolved_finding_reopened [OF sample_checks] by blast

definition sample_closed :: database where
  "sample_closed = finding_commit sample_env (sample_seat sample_admin) (sample_finding ''f1'' LOW OPEN) RESOLVED
     ''checked by hand'' sample_queue"

lemma sample_closed_findings:
  "findings sample_closed = [advanced (now sample_env) (tc_walletAddress (sample_seat sample_admin)) RESOLVED ''checked by hand''
     (sample_finding ''f1'' LOW OPEN), sample_finding ''f2'' CRITICAL OPEN]"
  by (simp add: sample_closed_def sample_queue_findings updated_eq sample_finding_def)

theorem resolved_findings_explained_witness:
  "finding_move\<^sup>*\<^sup>* \<lparr>fw_db = sample_queue, fw_pending = []\<rparr> \<lparr>fw_db = sample_closed, fw_pending = []\<rparr> \<and>
     list_ex (\<lambda>f. fd_status f = RESOLVED) (findings sample_closed) \<and> list_all explained (findings sample_closed)"
proof -
  let ?p = "(sample_seat sample_admin, sample_finding ''f1'' LOW OPEN, RESOLVED, ''checked by hand'')"
  have a: "finding_move \<lparr>fw_db = sample_queue, fw_pending = []\<rparr> \<lparr>fw_db = sample_queue, fw_pending = [?p]\<rparr>"
    using finding_move.asks [of "\<lparr>fw_db = sample_queue, fw_pending = []\<rparr>"] sample_checks(1) by fastforce
  have b: "finding_move \<lparr>fw_db = sample_queue, fw_pending = [?p]\<rparr> \<lparr>fw_db = sample_closed, fw_pending = []\<rparr>"
    using finding_move.writes [of "\<lparr>fw_db = sample_queue, fw_pending = [?p]\<rparr>" "[]"] by (simp add: sample_closed_def)
  have run: "finding_move\<^sup>*\<^sup>* \<lparr>fw_db = sample_queue, fw_pending = []\<rparr> \<lparr>fw_db = sample_closed, fw_pending = []\<rparr>"
    using a b by (meson converse_rtranclp_into_rtranclp rtranclp.rtrancl_refl)
  have "\<forall>f \<in> set (findings sample_queue). explained f"
    by (simp add: sample_queue_findings sample_finding_def explained_def)
  from resolved_findings_explained [OF run this] run show ?thesis
    by (simp add: sample_closed_findings advanced_def list_all_iff)
qed

theorem closed_finding_stays_witness:
  "let f = hd (findings sample_closed) in fd_status f = RESOLVED \<and>
     f \<in> set (findings (fst (advanceFinding sample_env sample_call ''f2'' sample_acknowledgement sample_closed)))"
proof -
  let ?f = "hd (findings sample_closed)"
  have "?f \<in> set (findings sample_closed)" "fd_status ?f = RESOLVED" "distinct (map fd_id (findings sample_closed))"
    by (simp_all add: sample_closed_findings advanced_def sample_finding_def)
  from this(2) closed_finding_stays [OF this] show ?thesis by (simp add: Let_def)
qed

theorem findings_page_most_urgent_witness:
  "\<exists>page. list_findings sample_queue sample_call None None (Some ''1'') = Inr page \<and>
     map fd_id page = [''f2''] \<and> (\<forall>g \<in> set page. by_urgency g (sample_finding ''f1'' LOW OPEN) \<le> 0)"
proof -
  have one: "clamped_param (Some ''1'') 50 200 = 1" by code_simp
  have org: "tc_orgId (sample_seat sample_admin) = ''o1''" "oc_orgId sample_call = ''o1''"
    by (simp_all add: sample_seat_def sample_admin_def sample_member_def sample_call_def)
  obtain page where page: "list_findings sample_queue sample_call None None (Some ''1'') = Inr page" "map fd_id page = [''f2'']"
    by (simp add: list_findings_def sample_queue_entry sample_queue_findings one org wanted_finding_def truthy_def
        sample_finding_def js_sort_def by_urgency_def by_severity_def severity_rank_def)
  have "wanted_finding ''o1'' None None (sample_finding ''f1'' LOW OPEN)" "sample_finding ''f1'' LOW OPEN \<notin> set page"
    using page(2) by (auto simp: wanted_finding_def truthy_def sample_finding_def)
  then have "\<forall>g \<in> set page. by_urgency g (sample_finding ''f1'' LOW OPEN) \<le> 0"
    using findings_page_most_urgent [OF page(1)] org(2) by (simp add: sample_queue_findings)
  with page show ?thesis by (intro exI [of _ page] conjI) assumption+
qed

end
