(* ===== verification/Paging.thy ===== *)
theory Paging
  imports Projection
begin

text \<open>
  What the page limit of \<open>runIndexerFromRpc\<close> (\<open>src/lib/indexer/run.ts\<close>) does to the events of a ledger: the
  cursor is a ledger, the page is a number of events.
\<close>

text \<open>What \<open>getEvents\<close> documents: events of the first ledger asked for, or later.\<close>

definition reads_forward :: "indexer_run \<Rightarrow> bool" where
  "reads_forward r \<longleftrightarrow> (\<forall>start n. \<forall>raw \<in> set (ir_fetch r start n). start \<le> re_ledger raw)"

definition page_of :: "indexer_run \<Rightarrow> database \<Rightarrow> raw_event list" where
  "page_of r db = ir_fetch r (start_ledger db (ir_ctx r) (ir_latest r)) PAGE_LIMIT"

fun pages :: "indexer_run list \<Rightarrow> database \<Rightarrow> raw_event list list" where
  "pages [] db = []"
| "pages (r # rs) db = page_of r db # pages rs (execute r db)"

lemma process_one_cursors: "cursors (fst (process_one e ctx faults raw p db)) = cursors db"
proof -
  have "cursors (fst (applyEvent e db ctx ev meta)) = cursors db" for ev meta
    using applyEvent_same_logs [OF surjective_pairing] by (simp add: same_logs_def)
  moreover have "cursors (upsert_marker e d ctx raw o' b) = cursors d" for d o' b
    by (simp add: upsert_marker_def split: option.split)
  ultimately show ?thesis
    by (simp add: process_one_def Let_def split: option.split tx_fault.split parsed.split prod.split) (metis fst_conv)
qed

lemma process_events_step:
  assumes "process_one e ctx faults raw (parseCoreFlowEvent (re_topic0 raw) (re_topic1 raw) (re_value raw)) db = (db1, out)"
  shows "process_events e ctx faults (raw # raws) (db, r, c) =
    (if parseCoreFlowEvent (re_topic0 raw) (re_topic1 raw) (re_value raw) = Syntax_error then (db, r, c, Escaped)
     else if out = Threw then (db1, r, c, Stopped)
     else process_events e ctx faults raws
       (db1, (case out of Applied a \<Rightarrow> count_effect a r | _ \<Rightarrow> r\<lparr>rr_skipped := rr_skipped r + 1\<rparr>), max c (re_ledger raw)))"
  using assms by (cases out) (simp_all add: Let_def)

lemma process_events_committed:
  "process_events e ctx faults raws (db, r, c) = (db', r', c', ending) \<Longrightarrow>
   cursors db' = cursors db \<and> (c' = c \<or> c' \<in> re_ledger ` set raws) \<and> c \<le> c' \<and>
   (ending = Completed \<longrightarrow> (\<forall>raw \<in> set raws. re_ledger raw \<le> c'))"
proof (induction raws arbitrary: db r c)
  case (Cons raw raws)
  let ?p = "parseCoreFlowEvent (re_topic0 raw) (re_topic1 raw) (re_value raw)"
  obtain db1 out where one: "process_one e ctx faults raw ?p db = (db1, out)" by fastforce
  have same: "cursors db1 = cursors db" using process_one_cursors [of e ctx faults raw ?p db] one by simp
  note step = process_events_step [OF one, of raws r c]
  show ?case
  proof (cases "?p = Syntax_error \<or> out = Threw")
    case True
    then have "process_events e ctx faults (raw # raws) (db, r, c) = (db, r, c, Escaped) \<or>
        process_events e ctx faults (raw # raws) (db, r, c) = (db1, r, c, Stopped)"
      using step by presburger
    then show ?thesis using Cons.prems same by auto
  next
    case False
    then obtain r1 where "process_events e ctx faults raws (db1, r1, max c (re_ledger raw)) = (db', r', c', ending)"
      using Cons.prems step by auto
    from Cons.IH [OF this] same show ?thesis by (auto simp: max_def split: if_splits)
  qed
qed simp

lemma process_events_order: "set (js_sort (event_order lc) raws) = set raws"
  by simp

lemma processBatch_cursor:
  assumes "processBatch e lc ctx faults raws db = (db', r, ending)"
    and "\<forall>raw \<in> set raws. 0 < getCursor db ctx \<longrightarrow> getCursor db ctx < re_ledger raw"
  shows "max 0 (getCursor db ctx) \<le> max 0 (getCursor db' ctx)"
    and "ending = Completed \<Longrightarrow> raw \<in> set raws \<Longrightarrow> 0 < re_ledger raw \<Longrightarrow> re_ledger raw \<le> getCursor db' ctx"
proof -
  obtain db1 r1 c ed where run: "process_events e ctx faults (js_sort (event_order lc) raws) (db, no_result, 0)
      = (db1, r1, c, ed)" by (metis prod_cases4)
  note facts = process_events_committed [OF run]
  have same: "getCursor db1 ctx = getCursor db ctx" using facts by (simp add: getCursor_def)
  have "db' = db1 \<or> 0 < c \<and> db' = setCursor db1 ctx c" "ending = ed"
    using assms(1) run by (auto simp: processBatch_def Let_def split: if_splits)
  moreover have "max 0 (getCursor db ctx) \<le> c" if "0 < c"
    using facts that assms(2) by fastforce
  ultimately show "max 0 (getCursor db ctx) \<le> max 0 (getCursor db' ctx)"
    using same by (auto simp: getCursor_setCursor)
  show "re_ledger raw \<le> getCursor db' ctx" if "ending = Completed" "raw \<in> set raws" "0 < re_ledger raw"
  proof -
    have "re_ledger raw \<le> c" using facts that \<open>ending = ed\<close> by auto
    moreover from this have "db' = setCursor db1 ctx c"
      using assms(1) run that by (auto simp: processBatch_def Let_def split: if_splits)
    ultimately show ?thesis by (simp add: getCursor_setCursor)
  qed
qed

lemma applyEvent_cursors: "applyEvent e db ctx ev m = (db', r) \<Longrightarrow> cursors db' = cursors db"
  by (drule applyEvent_same_logs) (simp add: same_logs_def)

lemma replay_rows_cursors:
  "replay_rows e ctx faults rows (db, out) = (db', out', ok) \<Longrightarrow> cursors db' = cursors db"
proof (induction rows arbitrary: db out)
  case (Cons row rows)
  have mark: "cursors (mark_attributed i b t d) = cursors d" for i b t d by (simp add: mark_attributed_def)
  show ?case
  proof (cases "deserializePayload (ce_payload row)")
    case (Stored ev)
    obtain db1 effect where ap: "applyEvent e db ctx ev \<lparr>mt_txHash = ce_txHash row, mt_ledger = ce_ledger row\<rparr>
        = (db1, effect)" by fastforce
    show ?thesis
      using Cons.prems Cons.IH applyEvent_cursors [OF ap] Stored ap
      by (auto simp: Let_def mark split: if_splits)
  qed (use Cons mark in \<open>auto\<close>)
qed simp

lemma execute_cursor:
  assumes "reads_forward r"
  shows "max 0 (getCursor db (ir_ctx r)) \<le> max 0 (getCursor (execute r db) (ir_ctx r))"
    and "\<exists>db1 res. processBatch (ir_env r) (ir_localeCompare r) (ir_ctx r) (ir_faults r) (page_of r db) db
           = (db1, res, ending) \<and> getCursor (execute r db) (ir_ctx r) = getCursor db1 (ir_ctx r)
         \<Longrightarrow> ending = Completed \<Longrightarrow> raw \<in> set (page_of r db) \<Longrightarrow> 0 < re_ledger raw \<Longrightarrow>
         re_ledger raw \<le> getCursor (execute r db) (ir_ctx r)"
    and "\<exists>db1 res ending. processBatch (ir_env r) (ir_localeCompare r) (ir_ctx r) (ir_faults r) (page_of r db) db
           = (db1, res, ending) \<and> getCursor (execute r db) (ir_ctx r) = getCursor db1 (ir_ctx r)"
proof -
  have ahead: "\<forall>raw \<in> set (page_of r db). 0 < getCursor db (ir_ctx r) \<longrightarrow> getCursor db (ir_ctx r) < re_ledger raw"
    using assms by (fastforce simp: reads_forward_def page_of_def start_ledger_def Let_def)
  obtain db1 res ed where batch: "processBatch (ir_env r) (ir_localeCompare r) (ir_ctx r) (ir_faults r) (page_of r db) db
      = (db1, res, ed)" by (metis prod_cases3)
  obtain db2 out ok where replay: "replayUnattributed (ir_env r) (ir_collate r) (ir_ctx r) (ir_faults r) None db1
      = (db2, out, ok)" by (metis prod_cases3)
  have "cursors db2 = cursors db1"
    using replay unfolding replayUnattributed_def Let_def by (rule replay_rows_cursors)
  then have "getCursor (execute r db) (ir_ctx r) = getCursor db1 (ir_ctx r)"
    using batch replay by (simp add: execute_def runIndexerFromRpc_def page_of_def Let_def getCursor_def)
  then have same: "\<exists>db1 res ending. processBatch (ir_env r) (ir_localeCompare r) (ir_ctx r) (ir_faults r) (page_of r db) db
           = (db1, res, ending) \<and> getCursor (execute r db) (ir_ctx r) = getCursor db1 (ir_ctx r)"
    using batch by blast
  then show "\<exists>db1 res ending. processBatch (ir_env r) (ir_localeCompare r) (ir_ctx r) (ir_faults r) (page_of r db) db
           = (db1, res, ending) \<and> getCursor (execute r db) (ir_ctx r) = getCursor db1 (ir_ctx r)" .
  show "max 0 (getCursor db (ir_ctx r)) \<le> max 0 (getCursor (execute r db) (ir_ctx r))"
    using same processBatch_cursor(1) [OF _ ahead] by metis
  show "re_ledger raw \<le> getCursor (execute r db) (ir_ctx r)"
    if "\<exists>db1 res. processBatch (ir_env r) (ir_localeCompare r) (ir_ctx r) (ir_faults r) (page_of r db) db
           = (db1, res, ending) \<and> getCursor (execute r db) (ir_ctx r) = getCursor db1 (ir_ctx r)"
      "ending = Completed" "raw \<in> set (page_of r db)" "0 < re_ledger raw"
    using that processBatch_cursor(2) [OF _ ahead] by metis
qed

text \<open>What is behind the cursor stays behind it and is in no page.\<close>

lemma behind_cursor_never_read:
  assumes "\<forall>r \<in> set runs. reads_forward r \<and> ir_ctx r = ctx"
    and "0 < re_ledger b" and "re_ledger b \<le> getCursor db ctx"
  shows "\<forall>page \<in> set (pages runs db). b \<notin> set page"
  using assms(1,3)
proof (induction runs arbitrary: db)
  case (Cons r rs)
  have r: "reads_forward r" "ir_ctx r = ctx" using Cons.prems(1) by simp_all
  have "b \<notin> set (page_of r db)"
    using r assms(2) Cons.prems(2) by (fastforce simp: reads_forward_def page_of_def start_ledger_def Let_def)
  moreover have "re_ledger b \<le> getCursor (execute r db) ctx"
    using execute_cursor(1) [OF r(1), of db] r(2) assms(2) Cons.prems(2) by simp
  ultimately show ?case using Cons by simp
qed simp

text \<open>The events of a page, as far as they went.\<close>

lemma process_events_append:
  "process_events e ctx faults (xs @ ys) st =
    (case process_events e ctx faults xs st of
       (db, r, c, Completed) \<Rightarrow> process_events e ctx faults ys (db, r, c)
     | stopped \<Rightarrow> stopped)"
proof (induction xs arbitrary: st)
  case Nil
  then show ?case by (cases st) simp
next
  case (Cons x xs)
  obtain db r c where st: "st = (db, r, c)" by (metis prod_cases3)
  let ?p = "parseCoreFlowEvent (re_topic0 x) (re_topic1 x) (re_value x)"
  obtain db1 out where one: "process_one e ctx faults x ?p db = (db1, out)" by fastforce
  show ?case
    unfolding st append_Cons process_events_step [OF one] Cons.IH
    by (cases "?p = Syntax_error"; cases "out = Threw") simp_all
qed

lemma process_one_other:
  assumes "process_one e ctx faults raw p db = (db1, out)" and "i \<noteq> re_id raw"
  shows "find_marker db1 i = find_marker db i"
  using assms
  by (auto simp: process_one_def upsert_other Let_def event_marker
      split: option.splits tx_fault.splits parsed.splits prod.splits if_splits)

lemma process_events_other:
  "process_events e ctx faults raws (db, r, c) = (db', r', c', ending) \<Longrightarrow> i \<notin> re_id ` set raws \<Longrightarrow>
   find_marker db' i = find_marker db i"
proof (induction raws arbitrary: db r c)
  case (Cons raw raws)
  let ?p = "parseCoreFlowEvent (re_topic0 raw) (re_topic1 raw) (re_value raw)"
  obtain db1 out where one: "process_one e ctx faults raw ?p db = (db1, out)" by fastforce
  have same: "find_marker db1 i = find_marker db i" using process_one_other [OF one] Cons.prems(2) by auto
  show ?case
    using Cons.prems(1,2) Cons.IH [of db1] same unfolding process_events_step [OF one]
    by (auto split: if_splits)
qed simp

text \<open>
  C39: An event that fails is lost when another event of its ledger was processed before it on the page. Let a run
  read a page, process some events of it, and then meet one whose transaction fails; the batch stops there, and
  of the events before it one is of the same ledger. Then the run leaves no marker of the failing
  event, and neither it nor any event after it on the page that is of this ledger is on a page of any later run,
  whatever those runs are and meet: the cursor is at the ledger already and every run asks for the ledgers
  behind it. The comment where the error is thrown again says that passing such an event would lose it
  permanently, and means to prevent that.
\<close>

theorem failed_event_never_fetched:
  assumes "\<forall>r \<in> set (r # rs). reads_forward r \<and> ir_ctx r = ctx"
    and "js_sort (event_order (ir_localeCompare r)) (page_of r db) = before @ b # after"
    and "process_events (ir_env r) ctx (ir_faults r) before (db, no_result, 0) = (db1, r1, c1, Completed)"
    and "ir_faults r (re_id b) = Some Other_fault"
    and "parseCoreFlowEvent (re_topic0 b) (re_topic1 b) (re_value b) \<noteq> Syntax_error"
    and "a \<in> set before" and "re_ledger a = re_ledger b" and "0 < re_ledger b"
    and "find_marker db (re_id b) = None" and "re_id b \<notin> re_id ` set before"
  shows "find_marker (execute r db) (re_id b) = None \<and>
    (\<forall>x \<in> set (b # after). re_ledger x = re_ledger b \<longrightarrow> (\<forall>page \<in> set (pages rs (execute r db)). x \<notin> set page))"
proof -
  have r: "reads_forward r" "ir_ctx r = ctx" using assms(1) by simp_all
  have fails: "process_one (ir_env r) ctx (ir_faults r) b p db1 = (db1, Threw)" for p
    by (simp add: process_one_def assms(4))
  have "process_events (ir_env r) ctx (ir_faults r) (before @ b # after) (db, no_result, 0) = (db1, r1, c1, Stopped)"
    unfolding process_events_append assms(3) using process_events_step [OF fails] assms(5) by simp
  moreover have c1: "re_ledger b \<le> c1" "0 < c1"
    using process_events_committed [OF assms(3)] assms(6-8) by fastforce+
  ultimately have batch: "processBatch (ir_env r) (ir_localeCompare r) ctx (ir_faults r) (page_of r db) db
      = (setCursor db1 ctx c1, r1\<lparr>rr_lastLedger := c1\<rparr>, Stopped)"
    by (simp add: processBatch_def assms(2))
  then have out: "execute r db = setCursor db1 ctx c1"
    by (simp add: execute_def runIndexerFromRpc_def page_of_def r(2))
  have "find_marker (execute r db) (re_id b) = None"
    using process_events_other [OF assms(3,10)] assms(9) by (simp add: out find_marker_def)
  moreover have "getCursor (execute r db) ctx = c1" by (simp add: out getCursor_setCursor)
  ultimately show ?thesis
    using behind_cursor_never_read [of rs ctx _ "execute r db"] assms(1,8) c1(1) by fastforce
qed

text \<open>
  A page that ends inside a ledger loses the rest of that ledger. The page is limited to 200 events, the
  cursor is the ledger of the last event of the page and the next run starts one ledger later: an event of that
  ledger that was not on the page is on no page of any later run, whatever those runs meet, although every event
  that was read was applied.
\<close>

theorem page_cut_loses_events:
  assumes "\<forall>r \<in> set (r # rs). reads_forward r \<and> ir_ctx r = ctx"
    and "processBatch (ir_env r) (ir_localeCompare r) ctx (ir_faults r) (page_of r db) db = (db1, res, Completed)"
    and "a \<in> set (page_of r db)" and "re_ledger b = re_ledger a" and "0 < re_ledger a" and "b \<notin> set (page_of r db)"
  shows "\<forall>page \<in> set (pages (r # rs) db). b \<notin> set page"
proof -
  have r: "reads_forward r" "ir_ctx r = ctx" using assms(1) by simp_all
  have "re_ledger a \<le> getCursor (execute r db) ctx"
    using execute_cursor(2,3) [OF r(1), of db] assms(2,3,5) r(2) by fastforce
  then have "\<forall>page \<in> set (pages rs (execute r db)). b \<notin> set page"
    using behind_cursor_never_read [of rs ctx b] assms(1,4,5) by simp
  then show ?thesis using assms(6) by simp
qed

lemma process_events_completes:
  assumes "\<forall>raw \<in> set raws. faults (re_id raw) = None \<and> (\<exists>o'. parsed_as raw o')"
  shows "\<exists>db' r' c'. process_events e ctx faults raws (db, r, c) = (db', r', c', Completed)"
  using assms
proof (induction raws arbitrary: db r c)
  case (Cons raw raws)
  let ?p = "parseCoreFlowEvent (re_topic0 raw) (re_topic1 raw) (re_value raw)"
  obtain db1 out where one: "process_one e ctx faults raw ?p db = (db1, out)" by fastforce
  obtain o' where o': "parsed_as raw o'" using Cons.prems by auto
  have p: "?p = (case o' of None \<Rightarrow> Unrecognised | Some ev \<Rightarrow> Recognised ev)" using o' by (simp add: parsed_as_def)
  then have "?p \<noteq> Syntax_error" by (simp split: option.split)
  moreover have "out \<noteq> Threw"
    using one Cons.prems unfolding p
    by (cases o') (auto simp: process_one_def Let_def split: if_splits prod.splits)
  ultimately show ?case using process_events_step [OF one, of raws r c] Cons by simp
qed simp

definition sample_page_event :: "nat \<Rightarrow> raw_event" where
  "sample_page_event i = sample_raw (show_nat i) 4 (PaymentPaid 7 0 ''GW'' ''T'' 100 10)"

text \<open>A ledger with one event more than a page holds, and a server that reads it.\<close>

definition sample_ledger :: "raw_event list" where
  "sample_ledger = map sample_page_event [0..<201]"

definition sample_reader :: indexer_run where
  "sample_reader = (sample_run [])\<lparr>ir_fetch := (\<lambda>start n. take n (filter (\<lambda>r. start \<le> re_ledger r) sample_ledger))\<rparr>"

lemma sample_page_event_simps: "re_ledger (sample_page_event i) = 4" "re_id (sample_page_event i) = show_nat i"
  by (simp_all add: sample_page_event_def sample_raw_def split: prod.split)

lemma sample_page_event_parsed: "parsed_as (sample_page_event i) (Some (PaymentPaid 7 0 ''GW'' ''T'' 100 10))"
proof -
  have "case wire (PaymentPaid 7 0 ''GW'' ''T'' 100 10) of (t0, t1, v) \<Rightarrow>
      parseCoreFlowEvent t0 t1 v = Recognised (PaymentPaid 7 0 ''GW'' ''T'' 100 10)" by code_simp
  then show ?thesis by (simp add: parsed_as_def sample_page_event_def sample_raw_def split: prod.splits)
qed

lemma sample_page: "page_of sample_reader empty_db = map sample_page_event [0..<200]"
proof -
  have "start_ledger empty_db sample_deployment 100 = 1" by code_simp
  then have "page_of sample_reader empty_db = take PAGE_LIMIT sample_ledger"
    by (simp add: page_of_def sample_reader_def sample_run_def sample_ledger_def sample_page_event_simps)
  also have "\<dots> = map sample_page_event (take 200 [0..<201])"
    by (simp only: sample_ledger_def PAGE_LIMIT_def take_map)
  also have "take 200 [0..<201] = [0..<200::nat]" by (simp add: take_upt)
  finally show ?thesis .
qed

theorem page_cut_loses_events_witness:
  "sample_page_event 200 \<in> set sample_ledger \<and>
   list_all (\<lambda>page. sample_page_event 200 \<notin> set page) (pages (replicate 9 sample_reader) empty_db)"
proof -
  have ctx: "\<forall>r \<in> set (sample_reader # replicate 8 sample_reader). reads_forward r \<and> ir_ctx r = sample_deployment"
    by (auto simp: reads_forward_def sample_reader_def sample_run_def dest!: in_set_takeD)
  have "\<forall>raw \<in> set (js_sort (event_order lc) (page_of sample_reader empty_db)). ir_faults sample_reader (re_id raw) = None \<and>
      (\<exists>o'. parsed_as raw o')" for lc
    unfolding sample_page set_js_sort using sample_page_event_parsed by (auto simp: sample_reader_def sample_run_def)
  then have "\<exists>db' r' c'. process_events (ir_env sample_reader) sample_deployment (ir_faults sample_reader)
      (js_sort (event_order (ir_localeCompare sample_reader)) (page_of sample_reader empty_db)) (empty_db, no_result, 0)
      = (db', r', c', Completed)" by (rule process_events_completes)
  then obtain db2 r2 c2 where "process_events (ir_env sample_reader) sample_deployment (ir_faults sample_reader)
      (js_sort (event_order (ir_localeCompare sample_reader)) (page_of sample_reader empty_db)) (empty_db, no_result, 0)
      = (db2, r2, c2, Completed)" by blast
  then have "\<exists>db1 res. processBatch (ir_env sample_reader) (ir_localeCompare sample_reader) sample_deployment
      (ir_faults sample_reader) (page_of sample_reader empty_db) empty_db = (db1, res, Completed)"
    by (simp add: processBatch_def)
  then obtain db1 res where run: "processBatch (ir_env sample_reader) (ir_localeCompare sample_reader) sample_deployment
      (ir_faults sample_reader) (page_of sample_reader empty_db) empty_db = (db1, res, Completed)" by blast
  have "sample_page_event 0 \<in> set (page_of sample_reader empty_db)" by (simp add: sample_page)
  moreover have "sample_page_event 200 \<notin> set (page_of sample_reader empty_db)"
  proof
    assume "sample_page_event 200 \<in> set (page_of sample_reader empty_db)"
    then obtain i where "i < 200" "sample_page_event i = sample_page_event 200" by (auto simp: sample_page)
    then have "show_nat i = show_nat 200" by (metis sample_page_event_simps(2))
    then show False using \<open>i < 200\<close> show_nat_inj by blast
  qed
  ultimately have "\<forall>page \<in> set (pages (sample_reader # replicate 8 sample_reader) empty_db). sample_page_event 200 \<notin> set page"
    using page_cut_loses_events [OF ctx run, of "sample_page_event 0" "sample_page_event 200"]
    by (simp add: sample_page_event_simps)
  moreover have "replicate 9 sample_reader = sample_reader # replicate 8 sample_reader"
    by (simp add: numeral_eq_Suc)
  moreover have "sample_page_event 200 \<in> set sample_ledger" by (simp add: sample_ledger_def)
  ultimately show ?thesis by (simp add: list_all_iff)
qed

text \<open>Two events of a ledger, of which the second meets a fault in the first run and in no other.\<close>

definition sample_failing :: raw_event where
  "sample_failing = sample_raw ''ev9'' 4 (PaymentPaid 7 0 ''GW'' ''T'' 100 10)"

definition sample_poll :: "(string \<Rightarrow> tx_fault option) \<Rightarrow> indexer_run" where
  "sample_poll faults = (sample_run [])\<lparr>ir_faults := faults, ir_localeCompare := (\<lambda>_ _. - 1),
     ir_fetch := (\<lambda>start n. take n (filter (\<lambda>r. start \<le> re_ledger r) [sample_added, sample_failing]))\<rparr>"

abbreviation fault_once :: "string \<Rightarrow> tx_fault option" where
  "fault_once \<equiv> (\<lambda>i. if i = ''ev9'' then Some Other_fault else None)"

theorem failed_event_never_fetched_witness:
  "find_marker (execute (sample_poll fault_once) indexed_db) ''ev9'' = None \<and>
   list_all (\<lambda>page. sample_failing \<notin> set page)
     (pages (replicate 3 (sample_poll (\<lambda>_. None))) (execute (sample_poll fault_once) indexed_db))"
proof -
  let ?r = "sample_poll fault_once" and ?rs = "replicate 3 (sample_poll (\<lambda>_. None))"
  have fields: "ir_env ?r = sample_clock" "ir_faults ?r = fault_once" "ir_localeCompare ?r = (\<lambda>_ _. - 1)"
    "ir_ctx ?r = sample_deployment"
    by (simp_all add: sample_poll_def sample_run_def)
  have ids: "re_id sample_added = ''ev0''" "re_id sample_failing = ''ev9''" "re_ledger sample_added = 4"
    "re_ledger sample_failing = 4"
    by (simp_all add: sample_added_def sample_failing_def sample_raw_def wire_def)
  have ctx: "\<forall>r \<in> set (?r # ?rs). reads_forward r \<and> ir_ctx r = sample_deployment"
    by (auto simp: reads_forward_def sample_poll_def sample_run_def dest!: in_set_takeD)
  have start: "start_ledger indexed_db sample_deployment 100 = 1" by code_simp
  have page: "page_of ?r indexed_db = [sample_added, sample_failing]"
    by (simp add: page_of_def sample_poll_def sample_run_def start ids PAGE_LIMIT_def)
  have order: "js_sort (event_order (ir_localeCompare ?r)) (page_of ?r indexed_db) = [sample_added] @ sample_failing # []"
    by (simp add: page fields js_sort_def event_order_def ids)
  have none: "case process_events sample_clock sample_deployment fault_once [sample_added] (indexed_db, no_result, 0) of
      (_, _, _, ending) \<Rightarrow> ending = Completed"
    by code_simp
  then obtain db1 r1 c1 where before: "process_events (ir_env ?r) sample_deployment (ir_faults ?r) [sample_added]
      (indexed_db, no_result, 0) = (db1, r1, c1, Completed)"
    unfolding fields by (auto split: prod.splits)
  have parsed: "parseCoreFlowEvent (re_topic0 sample_failing) (re_topic1 sample_failing) (re_value sample_failing) \<noteq> Syntax_error"
    by code_simp
  have fresh: "find_marker indexed_db (re_id sample_failing) = None"
    by (simp add: ids find_marker_def empty_db_def)
  show ?thesis
    using failed_event_never_fetched [OF ctx order before _ parsed, of sample_added] fresh
    by (simp add: fields ids list_all_iff del: replicate.simps)
qed

end
