(* ===== verification/JobRoutes.thy ===== *)
theory JobRoutes
  imports Params RateLimit Scheduler Projection
begin

text \<open>
  The endpoints for machines: \<open>src/app/api/reconciliation/run/route.ts\<close>, which reconciles every
  organization in turn, and \<open>src/app/api/indexer/run/route.ts\<close>. The environment of the process and the hash
  are the parameter \<open>job_env\<close>. A route answers a method it does not export with 405.
\<close>

section \<open>Who may trigger a job\<close>

record job_env =
  je_cronSecret :: "string option"
  je_indexerSecret :: "string option"
  je_sha256 :: "string \<Rightarrow> string"
  je_contractId :: "string option"
  je_network :: string

record job_request =
  jq_method :: string
  jq_authorization :: "string option"
  jq_cronSecret :: "string option"
  jq_forwarded :: "string option"
  jq_realIp :: "string option"
  jq_orgId :: "string option"
  jq_maxEscrows :: "string option"

definition JOB_SECRET_LENGTH :: nat where
  "JOB_SECRET_LENGTH = 16"

text \<open>\<open>a || b || ''\<close> of two settings.\<close>

definition first_secret :: "string option \<Rightarrow> string option \<Rightarrow> string" where
  "first_secret a b = (if truthy a then the a else if truthy b then the b else [])"

definition job_secrets_match :: "job_env \<Rightarrow> string \<Rightarrow> string \<Rightarrow> bool" where
  "job_secrets_match e provided expected \<longleftrightarrow> je_sha256 e provided = je_sha256 e expected"

definition BEARER :: string where
  "BEARER = ''Bearer ''"

definition provided_secret :: "job_request \<Rightarrow> string" where
  "provided_secret rq =
     (let header = (case jq_authorization rq of None \<Rightarrow> [] | Some h \<Rightarrow> h);
          bearer = (if take 7 header = BEARER then drop 7 header else [])
      in if bearer \<noteq> [] then bearer else case jq_cronSecret rq of None \<Rightarrow> [] | Some s \<Rightarrow> s)"

text \<open>The checks before the sweep, with the two readings of the clock that the limiter makes.\<close>

definition may_sweep :: "job_env \<Rightarrow> instant \<Rightarrow> instant \<Rightarrow> job_request \<Rightarrow> limiter \<Rightarrow> limiter \<times> bool" where
  "may_sweep e t0 t rq s =
     (let expected = first_secret (je_cronSecret e) (je_indexerSecret e) in
      if expected = [] \<or> length (js_trim expected) < JOB_SECRET_LENGTH then (s, False)
      else let (s, rl) = rateLimit t0 t (''reconcile-trigger:'' @ clientIp (jq_forwarded rq) (jq_realIp rq)) 10 60000 s
        in if \<not> lr_ok rl then (s, False)
           else (s, provided_secret rq \<noteq> [] \<and> job_secrets_match e (provided_secret rq) expected))"

definition isAuthorized :: "job_env \<Rightarrow> job_request \<Rightarrow> bool" where
  "isAuthorized e rq \<longleftrightarrow>
     (let secret = first_secret (je_indexerSecret e) (je_cronSecret e) in
      secret \<noteq> [] \<and> jq_authorization rq = Some (BEARER @ secret))"

section \<open>The sweep\<close>

text \<open>What the run of one organization meets; \<open>sr_broken\<close> is an exception outside the passes, before it claims its lock.\<close>

record sweep_run =
  sr_env :: env
  sr_verifier :: chain_verifier
  sr_correlationId :: string
  sr_fault :: "fault option"
  sr_broken :: "string option"

datatype swept = Swept row_id run_reply | Sweep_failed row_id string

definition sweep_organizations :: "database \<Rightarrow> string option \<Rightarrow> organization_row list" where
  "sweep_organizations db onlyOrg =
     take 50 (filter (\<lambda>o'. truthy onlyOrg \<longrightarrow> onlyOrg = Some (og_id o')) (organizations db))"

definition sweep_options :: "job_env \<Rightarrow> job_request \<Rightarrow> reconcile_options" where
  "sweep_options e rq =
     \<lparr>ro_contractId = (if truthy (je_contractId e) then je_contractId e else None), ro_network = Some (je_network e),
      ro_maxEscrows = Some (clamped_param (jq_maxEscrows rq) 50 500), ro_fromLedger = None\<rparr>"

definition sweep_step ::
  "job_env \<Rightarrow> job_request \<Rightarrow> (row_id \<Rightarrow> sweep_run) \<Rightarrow> organization_row \<Rightarrow> database \<times> swept list \<Rightarrow> database \<times> swept list" where
  "sweep_step e rq plan o' st =
     (let (db, done) = st; r = plan (og_id o') in
      case sr_broken r of
        Some m \<Rightarrow> (db, done @ [Sweep_failed (og_id o') m])
      | None \<Rightarrow>
          (let (db', reply) = runReconciliation (sr_env r) (sr_verifier r) (og_id o') (sweep_options e rq) None
                 (sr_correlationId r) (sr_fault r) db
           in (db', done @ [Swept (og_id o') reply])))"

definition sweep :: "job_env \<Rightarrow> job_request \<Rightarrow> (row_id \<Rightarrow> sweep_run) \<Rightarrow> database \<Rightarrow> database \<times> swept list" where
  "sweep e rq plan db = fold (sweep_step e rq plan) (sweep_organizations db (jq_orgId rq)) (db, [])"

definition serve_reconciliation ::
  "job_env \<Rightarrow> instant \<Rightarrow> instant \<Rightarrow> (row_id \<Rightarrow> sweep_run) \<Rightarrow> job_request \<Rightarrow> limiter \<times> database \<Rightarrow>
   (limiter \<times> database) \<times> (nat + swept list)" where
  "serve_reconciliation e t0 t plan rq st =
     (let (s, db) = st in
      if jq_method rq \<noteq> ''POST'' then (st, Inl 405)
      else let (s, ok) = may_sweep e t0 t rq s in
        if \<not> ok then ((s, db), Inl 404)
        else let (db, results) = sweep e rq plan db in ((s, db), Inr results))"

definition serve_indexer :: "job_env \<Rightarrow> indexer_run \<Rightarrow> job_request \<Rightarrow> database \<Rightarrow> database \<times> nat" where
  "serve_indexer e r rq db =
     (if jq_method rq \<noteq> ''GET'' then (db, 405)
      else if \<not> isAuthorized e rq then (db, 401)
      else if \<not> truthy (je_contractId e) then (db, 200)
      else case runIndexerFromRpc (ir_env r) (ir_localeCompare r) (ir_collate r) (ir_ctx r) (ir_faults r)
             (ir_latest r) (ir_fetch r) db of
          (db', Some _) \<Rightarrow> (db', 200)
        | (db', None) \<Rightarrow> (db', 500))"

section \<open>What the secret protects\<close>

text \<open>
  A request changes the database through the sweep only when it is a POST, the deployment has a secret of at least
  16 characters, and the request carries exactly that secret; a deployment with a shorter one, or none, runs no
  sweep for anybody. The hash is taken to be injective.
\<close>

theorem sweep_needs_secret:
  assumes "serve_reconciliation e t0 t plan rq (s, db) = ((s', db'), r)" and "inj (je_sha256 e)"
    and "db' \<noteq> db \<or> (\<exists>results. r = Inr results)"
  shows "jq_method rq = ''POST'' \<and> provided_secret rq = first_secret (je_cronSecret e) (je_indexerSecret e) \<and>
    16 \<le> length (js_trim (provided_secret rq))"
proof -
  have post: "jq_method rq = ''POST''" using assms(1,3) by (auto simp: serve_reconciliation_def split: if_splits)
  obtain s1 ok where ok: "may_sweep e t0 t rq s = (s1, ok)" by fastforce
  then have "ok" using assms(1,3) post by (auto simp: serve_reconciliation_def split: if_splits)
  then have "job_secrets_match e (provided_secret rq) (first_secret (je_cronSecret e) (je_indexerSecret e))"
    "16 \<le> length (js_trim (first_secret (je_cronSecret e) (je_indexerSecret e)))"
    using ok by (auto simp: may_sweep_def Let_def JOB_SECRET_LENGTH_def split: if_splits prod.splits)
  then show ?thesis using assms(2) post by (simp add: job_secrets_match_def inj_eq)
qed

text \<open>
  With both secrets set and different, the scheduler of the platform, which sends \<open>CRON_SECRET\<close>, is let into the
  reconciliation and turned away from the indexer: the two routes prefer different ones, although the comment of the
  indexer says that the scheduler calls it and the example configuration that \<open>CRON_SECRET\<close> is preferred.
\<close>

theorem cron_secret_refused_by_indexer:
  assumes "je_cronSecret e = Some cron" and "je_indexerSecret e = Some indexer" and "cron \<noteq> indexer"
    and "16 \<le> length (js_trim cron)" and "indexer \<noteq> []" and "jq_authorization rq = Some (BEARER @ cron)"
  shows "serve_indexer e r rq db = (db, if jq_method rq = ''GET'' then 401 else 405) \<and>
    (lr_ok (snd (rateLimit t0 t (''reconcile-trigger:'' @ clientIp (jq_forwarded rq) (jq_realIp rq)) 10 60000 s)) \<longrightarrow>
     snd (may_sweep e t0 t rq s))"
proof -
  have cron: "cron \<noteq> []" using assms(4) by (auto simp: js_trim_def)
  then have "first_secret (je_cronSecret e) (je_indexerSecret e) = cron"
    "first_secret (je_indexerSecret e) (je_cronSecret e) = indexer"
    using assms(1,2,5) by (simp_all add: first_secret_def truthy_def)
  moreover have "provided_secret rq = cron" using assms(6) cron by (simp add: provided_secret_def BEARER_def)
  ultimately show ?thesis
    using assms(3,4,6) cron
    by (auto simp: serve_indexer_def isAuthorized_def may_sweep_def job_secrets_match_def JOB_SECRET_LENGTH_def Let_def
        split: prod.split)
qed

section \<open>Whom the sweep reaches\<close>

interpretation orgs_kept: run_invariant e v rc work "\<lambda>db. organizations db = orgs" for e v rc work orgs
proof unfold_locales
  show "organizations (fst (upsertFinding e db inp)) = orgs" if "organizations db = orgs" for db inp
    using that by (simp add: upsertFinding_def split: option.split)
  show "organizations (fst (applyTransition e db req)) = orgs" if "organizations db = orgs" for db req
    using that by (auto simp: applyTransition_def applyTransition_commit_def Let_def split: sum.split prod.split)
qed

lemma passes_organizations: "organizations (fst (fst (run_passes e v rc f db))) = organizations db"
proof (rule passes_keep[where I = "\<lambda>x. organizations x = organizations db"])
  show "organizations (fst (fold (reconcile_escrow e v rc) xs (db0, no_tally))) = organizations db"
    if "organizations db0 = organizations db"
      "set xs \<subseteq> set (escrows_to_examine db (rc_orgId rc) (rc_options rc))" for db0 xs
    using orgs_kept.escrows[of "(db0, no_tally)" "organizations db" xs
        "escrows_to_examine db (rc_orgId rc) (rc_options rc)" e v rc] that by simp
  show "organizations (fst (failed_step e v rc x st)) = organizations db"
    if "organizations (fst st) = organizations db" for x st
    using that by (cases st) (auto simp: fst_failed_step orgs_kept.on_finding split: sum.split bool.split)
  show "organizations (fst (unknown_step e rc c x st)) = organizations db"
    if "organizations (fst st) = organizations db" for c x st
    using that by (cases st) (simp add: fst_unknown_step orgs_kept.on_finding)
qed simp

definition runs_of :: "row_id \<Rightarrow> database \<Rightarrow> row_id list" where
  "runs_of o' db = map rn_id (filter (\<lambda>r. rn_orgId r = o') (reconciliationRuns db))"

lemma runs_of_updated:
  assumes "\<And>r. rn_orgId (f r) = rn_orgId r" and "\<And>r. rn_id (f r) = rn_id r"
  shows "runs_of o' (db\<lparr>reconciliationRuns := updated P f (reconciliationRuns db)\<rparr>) = runs_of o' db"
proof -
  have "map rn_id (filter (\<lambda>r. rn_orgId r = o') (updated P f t)) = map rn_id (filter (\<lambda>r. rn_orgId r = o') t)" for t
    using assms by (induction t) (simp_all add: updated_eq)
  then show ?thesis by (simp add: runs_of_def)
qed

lemma runReconciliation_reach:
  assumes "runReconciliation e v o1 opts scope corr f db = (db', r)"
  shows "organizations db' = organizations db" and "o' \<noteq> o1 \<Longrightarrow> runs_of o' db' = runs_of o' db"
proof -
  obtain db1 claim where start: "startRun e o1 (case scope of None \<Rightarrow> ''organization'' | Some s \<Rightarrow> s)
      (ro_contractId opts) (ro_network opts) corr db = (db1, claim)" by fastforce
  have reclaim: "runs_of o' (reclaim_stale e o1 db) = runs_of o' db" for o'
    unfolding reclaim_stale_def by (rule runs_of_updated) simp_all
  have one: "organizations db1 = organizations db" "o' \<noteq> o1 \<Longrightarrow> runs_of o' db1 = runs_of o' db" for o'
    using start reclaim [of o']
    by (auto simp: startRun_eq Let_def reclaim_stale_def runs_of_def new_run_def split: if_splits)
  have ended: "runs_of o' (finishRun e i st t m d) = runs_of o' d" "organizations (finishRun e i st t m d) = organizations d"
    for o' i st t m d
    unfolding finishRun_def by (rule runs_of_updated, simp_all)
  have passes: "organizations (fst (fst (run_passes e v rc f db1))) = organizations db1"
    "runs_of o' (fst (fst (run_passes e v rc f db1))) = runs_of o' db1" for rc o'
    by (simp_all add: passes_organizations passes_runs runs_of_def)
  have "organizations db' = organizations db \<and> (o' \<noteq> o1 \<longrightarrow> runs_of o' db' = runs_of o' db)"
  proof (cases claim)
    case (Already_running i t)
    then show ?thesis using assms start one by (simp add: runReconciliation_def)
  next
    case (Started i c)
    let ?rc = "\<lparr>rc_orgId = o1, rc_runId = i, rc_correlationId = c, rc_options = opts\<rparr>"
    obtain db2 t thrown where run: "run_passes e v ?rc f db1 = ((db2, t), thrown)" by (metis prod.collapse)
    have "organizations db2 = organizations db1" "runs_of o' db2 = runs_of o' db1"
      using passes(1) [of ?rc] passes(2) [of o' ?rc] run by simp_all
    then show ?thesis
      using assms start Started run one(1) one(2) [of o'] by (cases thrown) (auto simp: runReconciliation_def ended)
  qed
  then show "organizations db' = organizations db" "o' \<noteq> o1 \<Longrightarrow> runs_of o' db' = runs_of o' db" by simp_all
qed

lemma sweep_steps_reach:
  "organizations (fst (fold (sweep_step e rq plan) os st)) = organizations (fst st) \<and>
   (o' \<notin> og_id ` set os \<longrightarrow> runs_of o' (fst (fold (sweep_step e rq plan) os st)) = runs_of o' (fst st))"
proof (induction os arbitrary: st)
  case (Cons x os)
  obtain db results where st: "st = (db, results)" by fastforce
  let ?r = "plan (og_id x)"
  obtain db' reply where run: "runReconciliation (sr_env ?r) (sr_verifier ?r) (og_id x) (sweep_options e rq) None
      (sr_correlationId ?r) (sr_fault ?r) db = (db', reply)" by fastforce
  have "organizations (fst (sweep_step e rq plan x st)) = organizations db"
    "o' \<noteq> og_id x \<Longrightarrow> runs_of o' (fst (sweep_step e rq plan x st)) = runs_of o' db"
    using runReconciliation_reach [OF run] run by (simp_all add: sweep_step_def st Let_def split: option.split)
  then show ?case using Cons.IH [of "sweep_step e rq plan x st"] st by auto
qed simp

lemma serve_reconciliation_reach:
  assumes "serve_reconciliation e t0 t plan rq (s, db) = ((s', db'), r)" and "\<not> truthy (jq_orgId rq)"
  shows "organizations db' = organizations db"
    and "o' \<notin> og_id ` set (take 50 (organizations db)) \<Longrightarrow> runs_of o' db' = runs_of o' db"
proof -
  have orgs: "sweep_organizations db (jq_orgId rq) = take 50 (organizations db)"
    using assms(2) by (simp add: sweep_organizations_def)
  have "db' = db \<or> db' = fst (sweep e rq plan db)"
    using assms(1) by (auto simp: serve_reconciliation_def Let_def split: if_splits prod.splits)
  then show "organizations db' = organizations db"
    "o' \<notin> og_id ` set (take 50 (organizations db)) \<Longrightarrow> runs_of o' db' = runs_of o' db"
    using sweep_steps_reach [where st = "(db, [])" and os = "take 50 (organizations db)" and o' = o'] orgs
    by (auto simp: sweep_def)
qed

text \<open>Ticks of a scheduler, each with its environment, its clock, what its runs meet, and its request.\<close>

type_synonym tick = "job_env \<times> instant \<times> instant \<times> (row_id \<Rightarrow> sweep_run) \<times> job_request"

definition tick_of :: "tick \<Rightarrow> limiter \<times> database \<Rightarrow> limiter \<times> database" where
  "tick_of k st = (case k of (e, t0, t, plan, rq) \<Rightarrow> fst (serve_reconciliation e t0 t plan rq st))"

text \<open>
  However often the sweep is triggered, an organization that is not among the first fifty rows gets no run: the query
  has a limit, no order by the last run and no cursor, and reconciling changes nothing it could select by. The
  comment says that unfinished organizations are picked up by the next tick.
\<close>

theorem sweep_skips_later_organizations:
  assumes "\<forall>(e, t0, t, plan, rq) \<in> set ticks. \<not> truthy (jq_orgId rq)"
    and "o' \<notin> og_id ` set (take 50 (organizations db))"
  shows "runs_of o' (snd (fold tick_of ticks (s, db))) = runs_of o' db"
proof -
  have "organizations (snd (fold tick_of ticks (s, d))) = organizations d \<and>
      runs_of o' (snd (fold tick_of ticks (s, d))) = runs_of o' d" if "organizations d = organizations db" for d
    using assms(1) that
  proof (induction ticks arbitrary: s d)
    case (Cons k ks)
    obtain e t0 t plan rq where k: "k = (e, t0, t, plan, rq)" by (cases k)
    obtain s1 d1 r where one: "serve_reconciliation e t0 t plan rq (s, d) = ((s1, d1), r)" by (metis prod.collapse)
    have "\<not> truthy (jq_orgId rq)" using Cons.prems(1) k by simp
    note reach = serve_reconciliation_reach [OF one this]
    have "tick_of k (s, d) = (s1, d1)" by (simp add: tick_of_def k one)
    moreover have "runs_of o' d1 = runs_of o' d" using reach(2) assms(2) Cons.prems(2) by simp
    ultimately show ?case using Cons.IH [of d1 s1] Cons.prems reach(1) by simp
  qed simp
  then show ?thesis by simp
qed

text \<open>
  The scheduler of the platform calls a job with GET (its documented behaviour), which the reconciliation does not
  export: the scheduled ticks of \<open>vercel.json\<close> change nothing at all, whatever secret they carry.
\<close>

theorem scheduled_reconciliation_never_runs:
  assumes "\<forall>(e, t0, t, plan, rq) \<in> set ticks. jq_method rq = ''GET''"
  shows "fold tick_of ticks st = st"
  using assms
proof (induction ticks arbitrary: st)
  case (Cons k ks)
  then have "tick_of k st = st" by (auto simp: tick_of_def serve_reconciliation_def split: prod.splits)
  then show ?case using Cons by simp
qed simp

section \<open>Examples\<close>

definition sample_job_env :: job_env where
  "sample_job_env = \<lparr>je_cronSecret = Some ''0123456789abcdef'', je_indexerSecret = Some ''fedcba9876543210'',
     je_sha256 = (\<lambda>s. s), je_contractId = Some ''C'', je_network = ''testnet''\<rparr>"

definition sample_job_request :: job_request where
  "sample_job_request = \<lparr>jq_method = ''POST'', jq_authorization = Some ''Bearer 0123456789abcdef'', jq_cronSecret = None,
     jq_forwarded = None, jq_realIp = None, jq_orgId = None, jq_maxEscrows = None\<rparr>"

definition sample_tenants :: database where
  "sample_tenants = empty_db\<lparr>organizations := map (\<lambda>i. \<lparr>og_id = show_nat i, og_name = [], og_slug = show_nat i\<rparr>) [0..<51]\<rparr>"

definition sample_sweep_run :: "row_id \<Rightarrow> sweep_run" where
  "sample_sweep_run i = \<lparr>sr_env = sample_clock, sr_verifier = sample_verifier 3 [], sr_correlationId = i,
     sr_fault = None, sr_broken = None\<rparr>"

definition sample_tick :: tick where
  "sample_tick = (sample_job_env, 5, 5, sample_sweep_run, sample_job_request)"

lemma sample_may_sweep: "snd (may_sweep sample_job_env 5 5 sample_job_request empty_limiter)"
  by code_simp

theorem sweep_skips_later_organizations_witness:
  "show_nat 50 \<in> og_id ` set (organizations sample_tenants) \<and>
   snd (may_sweep sample_job_env 5 5 sample_job_request empty_limiter) \<and>
   runs_of (show_nat 50) (snd (fold tick_of (replicate 9 sample_tick) (empty_limiter, sample_tenants))) = []"
proof -
  have ticks: "\<forall>(e, t0, t, plan, rq) \<in> set (replicate 9 sample_tick). \<not> truthy (jq_orgId rq)"
    by (simp add: sample_tick_def sample_job_request_def truthy_def)
  have upt: "take 50 [0..<51] = [0..<50::nat]" by (simp add: take_upt)
  have "take 50 (organizations sample_tenants) = map (\<lambda>i. \<lparr>og_id = show_nat i, og_name = [], og_slug = show_nat i\<rparr>) [0..<50]"
    by (simp add: sample_tenants_def take_map upt)
  then have "show_nat 50 \<notin> og_id ` set (take 50 (organizations sample_tenants))"
    using show_nat_inj by fastforce
  from sweep_skips_later_organizations [OF ticks this]
  have "runs_of (show_nat 50) (snd (fold tick_of (replicate 9 sample_tick) (empty_limiter, sample_tenants)))
      = runs_of (show_nat 50) sample_tenants" .
  moreover have "runs_of (show_nat 50) sample_tenants = []"
    by (simp add: runs_of_def sample_tenants_def empty_db_def)
  moreover have "show_nat 50 \<in> og_id ` set (organizations sample_tenants)"
    by (simp add: sample_tenants_def image_image)
  ultimately show ?thesis using sample_may_sweep by simp
qed

theorem sweep_needs_secret_witness:
  "\<exists>s' db' results. serve_reconciliation sample_job_env 5 5 sample_sweep_run sample_job_request (empty_limiter, empty_db)
     = ((s', db'), Inr results) \<and> provided_secret sample_job_request = ''0123456789abcdef''"
proof -
  obtain s' ok where may: "may_sweep sample_job_env 5 5 sample_job_request empty_limiter = (s', ok)" by fastforce
  then have "ok" using sample_may_sweep by simp
  obtain db' results where sw: "sweep sample_job_env sample_job_request sample_sweep_run empty_db = (db', results)" by fastforce
  have ok': "serve_reconciliation sample_job_env 5 5 sample_sweep_run sample_job_request (empty_limiter, empty_db)
      = ((s', db'), Inr results)"
    using may \<open>ok\<close> sw by (simp add: serve_reconciliation_def sample_job_request_def)
  have "provided_secret sample_job_request = first_secret (je_cronSecret sample_job_env) (je_indexerSecret sample_job_env)"
    using sweep_needs_secret [OF ok'] by (simp add: sample_job_env_def)
  then show ?thesis using ok' by (simp add: sample_job_env_def first_secret_def truthy_def)
qed

theorem cron_secret_refused_by_indexer_witness:
  "\<forall>r. serve_indexer sample_job_env r (sample_job_request\<lparr>jq_method := ''GET''\<rparr>) empty_db = (empty_db, 401)"
proof -
  have *: "je_cronSecret sample_job_env = Some ''0123456789abcdef''" "je_indexerSecret sample_job_env = Some ''fedcba9876543210''"
    "''0123456789abcdef'' \<noteq> ''fedcba9876543210''" "16 \<le> length (js_trim ''0123456789abcdef'')" "''fedcba9876543210'' \<noteq> []"
    "jq_authorization (sample_job_request\<lparr>jq_method := ''GET''\<rparr>) = Some (BEARER @ ''0123456789abcdef'')"
    by (simp_all add: sample_job_env_def sample_job_request_def BEARER_def) code_simp
  show ?thesis using cron_secret_refused_by_indexer [OF *] by simp
qed

end
