(* ===== verification/BatchAttest.thy ===== *)
theory BatchAttest
  imports OracleAttest Auth ChainEvents
begin

text \<open>
  The attestations of a whole batch, \<open>src/app/api/submit-batch/route.ts\<close>, and the log of submitted hours,
  \<open>src/app/api/hours/route.ts\<close>. Of an amount of the upload only what the handler reads of it is modelled: whether
  \<open>Number\<close> makes it positive. The contract's reads are part of the parameter; an exception that nothing catches
  is answered with 500.
\<close>

section \<open>The request for a batch\<close>

record signing_env =
  sv_oracle :: oracle_env
  sv_getNonce :: "int \<Rightarrow> int option"   \<comment> \<open>\<open>None\<close> when the read fails\<close>

record payee_input =
  bp_address :: string
  bp_positive :: bool

text \<open>\<open>escrow_id\<close> is what \<open>Number\<close> makes of it, when that is an integer; \<open>payees\<close> is absent when it is no array.\<close>

datatype batch_body = Not_json | Null_body | Batch_body "int option" "payee_input list option"

record batch_request =
  bq_user :: "session_user option"
  bq_header :: "string option"
  bq_query :: "string option"
  bq_body :: batch_body

text \<open>The state of the attestation route, and the rows of the audit log without their metadata.\<close>

record signing_state =
  sb_oracle :: oracle_state
  sb_audit :: "(string \<times> address \<times> string) list"

record issued_signature =
  ig_paymentId :: nat
  ig_address :: address
  ig_token :: address
  ig_hours :: int
  ig_nonce :: int
  ig_signature :: string

datatype batch_answer = Batch_refused nat | Batch_issued int string int "issued_signature list"

definition g_address :: "string \<Rightarrow> bool" where
  "g_address s \<longleftrightarrow> stellarAddress s \<and> hd s = CHR ''G''"

definition valid_payees :: "batch_body \<Rightarrow> (int \<times> payee_input list) option" where
  "valid_payees b =
     (case b of
        Batch_body (Some escrowId) (Some payees) \<Rightarrow>
          if 1 \<le> escrowId \<and> payees \<noteq> [] \<and> length payees \<le> 100 \<and>
             list_all (\<lambda>p. g_address (bp_address p) \<and> bp_positive p) payees
          then Some (escrowId, payees) else None
      | _ \<Rightarrow> None)"

definition batch_org :: "batch_request \<Rightarrow> session_user \<Rightarrow> database \<Rightarrow> row_id option" where
  "batch_org rq user db =
     (if bq_header rq \<noteq> None then bq_header rq
      else if bq_query rq \<noteq> None then bq_query rq
      else sole_membership db (su_userId user))"

text \<open>
  The rows in order, each with the next nonce; \<open>None\<close> is an exception: a rate of zero, or the oracle's. The
  hours are a bigint, signed as they are and answered as \<open>Number(hours)\<close>; the nonce is a number.
\<close>

fun sign_rows ::
  "oracle_env \<Rightarrow> int \<Rightarrow> int \<Rightarrow> nat \<Rightarrow> chain_payment list \<Rightarrow> bytes option \<Rightarrow> issued_signature list option \<times> bytes option" where
  "sign_rows e escrowId start i [] cache = (Some [], cache)"
| "sign_rows e escrowId start i (q # qs) cache =
     (if cq_rate_per_hour q = 0 then (None, cache)
      else
        let hours = js_div (cq_amount q) (cq_rate_per_hour q);
            nonce = to_double (start + int i);
            (signed, cache) = signHoursProof (oe_lib e) (oe_seedHex e) cache (attest_context e q) escrowId (int i) hours
              nonce
        in case signed of
             Inl _ \<Rightarrow> (None, cache)
           | Inr signature \<Rightarrow>
               (case sign_rows e escrowId start (Suc i) qs cache of
                  (None, cache) \<Rightarrow> (None, cache)
                | (Some rest, cache) \<Rightarrow>
                    (Some (\<lparr>ig_paymentId = i, ig_address = cq_worker q, ig_token = cq_token q,
                            ig_hours = to_double hours, ig_nonce = nonce, ig_signature = signature\<rparr> # rest), cache)))"

text \<open>From the read of the contract on.\<close>

definition batch_sign ::
  "signing_env \<Rightarrow> session_user \<Rightarrow> string \<Rightarrow> int \<Rightarrow> payee_input list \<Rightarrow> signing_state \<Rightarrow> batch_answer \<times> signing_state" where
  "batch_sign e user pubkey escrowId payees s =
     (case oe_getEscrow (sv_oracle e) escrowId of
        None \<Rightarrow> (Batch_refused 502, s)
      | Some escrow \<Rightarrow>
          if su_walletAddress user \<noteq> ce_manager escrow
          then (Batch_refused 403,
                s\<lparr>sb_audit := sb_audit s @ [(''oracle.attest.denied'', su_walletAddress user, show_int escrowId)]\<rparr>)
          else (case sv_getNonce e escrowId of
             None \<Rightarrow> (Batch_refused 502, s)
           | Some start \<Rightarrow>
               if length payees \<noteq> length (ce_payments escrow) then (Batch_refused 409, s)
               else if map cq_worker (ce_payments escrow) \<noteq> map bp_address payees then (Batch_refused 409, s)
               else
                 let (signed, cache) = sign_rows (sv_oracle e) escrowId start 0 (ce_payments escrow) (os_cache (sb_oracle s));
                     s = s\<lparr>sb_oracle := (sb_oracle s)\<lparr>os_cache := cache\<rparr>\<rparr>
                 in case signed of
                      None \<Rightarrow> (Batch_refused 500, s)
                    | Some signatures \<Rightarrow>
                        (Batch_issued escrowId pubkey start signatures,
                         s\<lparr>sb_audit := sb_audit s @ [(''oracle.attest.issued'', su_walletAddress user, show_int escrowId)]\<rparr>)))"

definition submit_batch :: "signing_env \<Rightarrow> batch_request \<Rightarrow> signing_state \<Rightarrow> batch_answer \<times> signing_state" where
  "submit_batch e rq s =
     (case bq_user rq of
        None \<Rightarrow> (Batch_refused 401, s)
      | Some user \<Rightarrow>
          let (lim, rl) = rateLimit (oe_clock (sv_oracle e)) (oe_clock (sv_oracle e))
                (''submit-batch:'' @ su_walletAddress user) 10 60000 (os_limiter (sb_oracle s));
              s = s\<lparr>sb_oracle := (sb_oracle s)\<lparr>os_limiter := lim\<rparr>\<rparr>
          in if \<not> lr_ok rl then (Batch_refused 429, s)
             else if bq_body rq = Null_body then (Batch_refused 500, s)
             else case valid_payees (bq_body rq) of
               None \<Rightarrow> (Batch_refused 400, s)
             | Some (escrowId, payees) \<Rightarrow>
                 let (key, cache) = getOraclePublicKeyHex (oe_lib (sv_oracle e)) (oe_seedHex (sv_oracle e)) (os_cache (sb_oracle s));
                     s = s\<lparr>sb_oracle := (sb_oracle s)\<lparr>os_cache := cache\<rparr>\<rparr>;
                     db = os_db (sb_oracle s)
                 in case key of
                      Inl _ \<Rightarrow> (Batch_refused 503, s)
                    | Inr pubkey \<Rightarrow>
                        (case resolveTenant db (Some (su_userId user)) (batch_org rq user db) of
                           Inl dn \<Rightarrow> (Batch_refused (dn_status dn), s)
                         | Inr ctx \<Rightarrow>
                             (case requirePermission ctx Oracle_attest_request of
                                Some _ \<Rightarrow> (Batch_refused 403, s)
                              | None \<Rightarrow>
                                  (case findEscrowByOnChainId db ctx escrowId of
                                     Inl dn \<Rightarrow> (Batch_refused (dn_status dn), s)
                                   | Inr _ \<Rightarrow> batch_sign e user pubkey escrowId payees s))))"

section \<open>The log of hours\<close>

record time_log_row =
  tl_escrowId :: row_id
  tl_hoursLogged :: int
  tl_paymentId :: int
  tl_txHash :: string

record hours_state =
  hs_db :: database
  hs_timeLogs :: "time_log_row list"

record hours_request =
  hq_user :: "auth_payload option"
  hq_header :: "string option"
  hq_query :: "string option"
  hq_body :: json

definition hoursSchema :: "json \<Rightarrow> (int \<times> int \<times> int \<times> string) option" where
  "hoursSchema b =
     (case (body_int b ''onChainId'', body_int b ''paymentId'', body_int b ''hoursLogged'', body_text b ''txHash'') of
        (Some e, Some p, Some h, Some t) \<Rightarrow> if 0 \<le> e \<and> 0 \<le> p \<and> 0 < h \<and> t \<noteq> [] then Some (e, p, h, t) else None
      | _ \<Rightarrow> None)"

datatype hours_answer = Hours_refused nat | Hours_indexed_already | Hours_logged time_log_row

definition hours_POST :: "hours_request \<Rightarrow> hours_state \<Rightarrow> hours_answer \<times> hours_state" where
  "hours_POST rq s =
     (case hq_user rq of
        None \<Rightarrow> (Hours_refused 401, s)
      | Some user \<Rightarrow>
          if \<not> isEmployee (Some user) then (Hours_refused 403, s)
          else case hoursSchema (hq_body rq) of
            None \<Rightarrow> (Hours_refused 400, s)
          | Some (onChainId, paymentId, hoursLogged, txHash) \<Rightarrow>
              let orgId = (if hq_header rq \<noteq> None then hq_header rq else if hq_query rq \<noteq> None then hq_query rq
                           else sole_membership (hs_db s) (ap_userId user))
              in case resolveTenant (hs_db s) (Some (ap_userId user)) orgId of
                   Inl dn \<Rightarrow> (Hours_refused (dn_status dn), s)
                 | Inr ctx \<Rightarrow>
                     (case findEscrowByOnChainId (hs_db s) ctx onChainId of
                        Inl dn \<Rightarrow> (Hours_refused (dn_status dn), s)
                      | Inr escrow \<Rightarrow>
                          let row = \<lparr>tl_escrowId = es_id escrow, tl_hoursLogged = hoursLogged, tl_paymentId = paymentId,
                                tl_txHash = txHash\<rparr>
                          in case createUnique tl_txHash row (hs_timeLogs s) of
                               None \<Rightarrow> (Hours_indexed_already, s)
                             | Some rows \<Rightarrow> (Hours_logged row, s\<lparr>hs_timeLogs := rows\<rparr>)))"

section \<open>What the signatures of a batch attest\<close>

definition signs_row :: "oracle_env \<Rightarrow> bytes \<Rightarrow> int \<Rightarrow> int \<Rightarrow> nat \<Rightarrow> chain_payment \<Rightarrow> issued_signature \<Rightarrow> bool" where
  "signs_row e seed escrowId start i q g \<longleftrightarrow>
     ig_paymentId g = i \<and> ig_address g = cq_worker q \<and> ig_token g = cq_token q \<and>
     ig_nonce g = to_double (start + int i) \<and>
     cq_rate_per_hour q \<noteq> 0 \<and> ig_hours g = to_double (js_div (cq_amount q) (cq_rate_per_hour q)) \<and>
     signHoursProof (oe_lib e) (oe_seedHex e) (Some seed) (attest_context e q) escrowId (int i)
       (js_div (cq_amount q) (cq_rate_per_hour q)) (ig_nonce g) = (Inr (ig_signature g), Some seed)"

lemma sign_cached: "snd (signHoursProof lib env (Some seed) c x p h n) = Some seed"
  by (auto simp: signHoursProof_def getOracleKeypair_def split: sum.splits)

lemma sign_rows_Some:
  "sign_rows e escrowId start i qs (Some seed) = (Some gs, cache') \<Longrightarrow>
   cache' = Some seed \<and> length gs = length qs \<and>
   (\<forall>k < length qs. signs_row e seed escrowId start (i + k) (qs ! k) (gs ! k))"
proof (induction qs arbitrary: i gs)
  case (Cons q qs)
  let ?hours = "js_div (cq_amount q) (cq_rate_per_hour q)" and ?nonce = "to_double (start + int i)"
  obtain signed where one: "signHoursProof (oe_lib e) (oe_seedHex e) (Some seed) (attest_context e q) escrowId (int i)
      ?hours ?nonce = (signed, Some seed)"
    using sign_cached by (metis prod.collapse)
  have rate: "cq_rate_per_hour q \<noteq> 0" using Cons.prems by (auto split: if_splits)
  then obtain sg where sg: "signed = Inr sg" using Cons.prems one by (cases signed) (auto simp: Let_def)
  obtain rest where rest: "sign_rows e escrowId start (Suc i) qs (Some seed) = (Some rest, cache')"
    using Cons.prems one sg rate by (auto simp: Let_def split: prod.splits option.splits)
  let ?g = "\<lparr>ig_paymentId = i, ig_address = cq_worker q, ig_token = cq_token q, ig_hours = to_double ?hours,
      ig_nonce = ?nonce, ig_signature = sg\<rparr>"
  have gs: "gs = ?g # rest" using Cons.prems one sg rate rest by (simp add: Let_def)
  have head: "signs_row e seed escrowId start i q ?g" using rate one sg by (auto simp: signs_row_def)
  note tail = Cons.IH [OF rest]
  have "signs_row e seed escrowId start (i + k) ((q # qs) ! k) (gs ! k)" if "k < length (q # qs)" for k
    using that head tail gs by (cases k) auto
  then show ?case using tail gs by simp
qed simp

lemma batch_sign_issued:
  assumes "batch_sign e user pubkey escrowId payees s = (Batch_issued n pk start gs, s')"
    and "os_cache (sb_oracle s) = Some seed"
  shows "\<exists>escrow. oe_getEscrow (sv_oracle e) escrowId = Some escrow \<and> ce_manager escrow = su_walletAddress user \<and>
    sv_getNonce e escrowId = Some start \<and> map cq_worker (ce_payments escrow) = map bp_address payees \<and>
    length gs = length (ce_payments escrow) \<and> n = escrowId \<and> os_cache (sb_oracle s') = Some seed \<and>
    (\<forall>k < length gs. signs_row (sv_oracle e) seed escrowId start k (ce_payments escrow ! k) (gs ! k)) \<and>
    os_attestations (sb_oracle s') = os_attestations (sb_oracle s) \<and> os_db (sb_oracle s') = os_db (sb_oracle s)"
  using assms sign_rows_Some [of "sv_oracle e" escrowId start 0 _ seed]
  by (fastforce simp: batch_sign_def Let_def split: option.splits if_splits prod.splits)

text \<open>The key that was configured, or the one the process had loaded before.\<close>

definition oracle_key :: "oracle_env \<Rightarrow> bytes option \<Rightarrow> bytes option" where
  "oracle_key e cache =
     (case cache of Some seed \<Rightarrow> Some seed | None \<Rightarrow> map_option hex_pairs (oe_seedHex e))"

lemma loaded_key:
  assumes "getOraclePublicKeyHex (oe_lib e) (oe_seedHex e) cache = (Inr pk, cache')"
  shows "\<exists>seed. oracle_key e cache = Some seed \<and> cache' = Some seed \<and> pk = toHex (ol_public (oe_lib e) seed)"
  using assms
  by (auto simp: getOraclePublicKeyHex_def getOracleKeypair_def oracle_key_def bind_ok_def truthy_def Let_def
      split: option.splits if_splits)

text \<open>Numbers up to \<open>Number.MAX_SAFE_INTEGER\<close> are exact.\<close>

lemma bit_length_le: "n < 2 ^ k \<Longrightarrow> bit_length n \<le> k"
proof (induction k arbitrary: n)
  case 0
  then show ?case by (simp add: bit_length.simps)
next
  case (Suc k)
  then have "bit_length (n div 2) \<le> k" by simp
  then show ?case by (simp add: bit_length.simps [of n])
qed

lemma to_double_exact: "\<bar>i\<bar> < 2 ^ 53 \<Longrightarrow> to_double i = i"
proof -
  assume "\<bar>i\<bar> < 2 ^ 53"
  then have "bit_length (nat \<bar>i\<bar>) - 53 = 0" using bit_length_le [of "nat \<bar>i\<bar>" 53] by (simp add: nat_less_iff)
  then show ?thesis unfolding to_double_def Let_def by (simp add: sgn_mult_abs)
qed

lemma submit_batch_issued:
  assumes "submit_batch e rq s = (Batch_issued n pk start gs, s')"
  shows "\<exists>user payees ctx x s1. bq_user rq = Some user \<and> valid_payees (bq_body rq) = Some (n, payees) \<and>
    resolveTenant (os_db (sb_oracle s)) (Some (su_userId user)) (batch_org rq user (os_db (sb_oracle s))) = Inr ctx \<and>
    requirePermission ctx Oracle_attest_request = None \<and>
    findEscrowByOnChainId (os_db (sb_oracle s)) ctx n = Inr x \<and>
    batch_sign e user pk n payees s1 = (Batch_issued n pk start gs, s') \<and>
    os_db (sb_oracle s1) = os_db (sb_oracle s) \<and> os_attestations (sb_oracle s1) = os_attestations (sb_oracle s) \<and>
    (\<exists>seed. oracle_key (sv_oracle e) (os_cache (sb_oracle s)) = Some seed \<and>
       pk = toHex (ol_public (oe_lib (sv_oracle e)) seed) \<and> os_cache (sb_oracle s1) = Some seed)"
proof -
  have same: "k = n \<and> p = pk" if "batch_sign e user p k payees s1 = (Batch_issued n pk start gs, s')" for user k p payees s1
    using that by (auto simp: batch_sign_def Let_def split: option.splits if_splits prod.splits)
  obtain user where user: "bq_user rq = Some user" using assms by (auto simp: submit_batch_def split: option.splits)
  obtain lim rl where rl: "rateLimit (oe_clock (sv_oracle e)) (oe_clock (sv_oracle e))
      (''submit-batch:'' @ su_walletAddress user) 10 60000 (os_limiter (sb_oracle s)) = (lim, rl)" by fastforce
  obtain k payees where payees: "valid_payees (bq_body rq) = Some (k, payees)"
    using assms user rl by (auto simp: submit_batch_def Let_def split: option.splits if_splits)
  obtain key cache where key: "getOraclePublicKeyHex (oe_lib (sv_oracle e)) (oe_seedHex (sv_oracle e))
      (os_cache (sb_oracle s)) = (key, cache)" by fastforce
  define s1 where "s1 = s\<lparr>sb_oracle := (sb_oracle s)\<lparr>os_limiter := lim, os_cache := cache\<rparr>\<rparr>"
  obtain p ctx x where rest:
    "resolveTenant (os_db (sb_oracle s)) (Some (su_userId user)) (batch_org rq user (os_db (sb_oracle s))) = Inr ctx"
    "requirePermission ctx Oracle_attest_request = None" "findEscrowByOnChainId (os_db (sb_oracle s)) ctx k = Inr x"
    "batch_sign e user p k payees s1 = (Batch_issued n pk start gs, s')" "key = Inr p"
    using assms user rl payees key
    by (auto simp: submit_batch_def Let_def s1_def split: if_splits sum.splits option.splits)
  moreover have "os_db (sb_oracle s1) = os_db (sb_oracle s)" "os_attestations (sb_oracle s1) = os_attestations (sb_oracle s)"
    by (simp_all add: s1_def)
  moreover have "\<exists>seed. oracle_key (sv_oracle e) (os_cache (sb_oracle s)) = Some seed \<and>
      p = toHex (ol_public (oe_lib (sv_oracle e)) seed) \<and> os_cache (sb_oracle s1) = Some seed"
    using loaded_key [OF key [unfolded rest(5)]] by (auto simp: s1_def)
  ultimately show ?thesis using user payees same [OF rest(4)] by auto
qed

lemma permitted_member:
  assumes "resolveTenant db (Some u) o' = Inr ctx" and "requirePermission ctx p = None"
  shows "\<exists>m. m \<in> set (members db) \<and> mb_userId m = u \<and> mb_status m = ACTIVE \<and> can (mb_role m) p \<and> mb_orgId m = tc_orgId ctx"
proof (rule resolveTenant_Inr [OF assms(1)])
  fix m assume "m \<in> set (members db)" "Some u = Some (mb_userId m)" "mb_status m = ACTIVE"
    "tc_role ctx = mb_role m" "tc_orgId ctx = mb_orgId m"
  moreover have "can (tc_role ctx) p"
    using assms(2) by (simp add: requirePermission_def split: if_splits)
  ultimately show ?thesis by auto
qed

text \<open>What a signed row attests, under the key of the process.\<close>

lemma signs_row_attests:
  assumes "oracle_lib_documented (oe_lib e)" and "signs_row e seed n start k q g"
  shows "ig_address g = cq_worker q \<and> ig_nonce g = to_double (start + int k) \<and>
    ig_hours g = to_double (js_div (cq_amount q) (cq_rate_per_hour q)) \<and>
    (\<bar>start + int k\<bar> < 2 ^ 53 \<longrightarrow> ig_nonce g = start + int k) \<and>
    (\<bar>js_div (cq_amount q) (cq_rate_per_hour q)\<bar> < 2 ^ 53 \<longrightarrow> ig_hours g = js_div (cq_amount q) (cq_rate_per_hour q)) \<and>
    (\<forall>env. fst (verifyHoursProof (oe_lib e) env (Some seed) (attest_context e q) n (int k)
       (js_div (cq_amount q) (cq_rate_per_hour q)) (ig_nonce g) (ig_signature g)) = Inr True)"
proof -
  have "signHoursProof (oe_lib e) (oe_seedHex e) (Some seed) (attest_context e q)
      n (int k) (js_div (cq_amount q) (cq_rate_per_hour q)) (ig_nonce g) = (Inr (ig_signature g), Some seed)"
    using assms(2) unfolding signs_row_def by blast
  note signed_proof_accepted [OF assms(1) this, THEN conjunct1]
  then show ?thesis using assms(2) by (simp add: signs_row_def to_double_exact)
qed

text \<open>
  C40: What a batch of signatures is worth: they are issued only to the manager the contract names, who is an active
  member with the permission to ask, in the organization that holds the escrow; there is one for each payment of the
  contract, in order, with consecutive nonces from the contract's watermark on; and each verifies, under the
  public key the answer names, for the terms read from the contract and the hours that its amount and rate
  give, whatever the upload says. That key is the process's own: the one it had loaded, or else the one the
  configuration holds. The hours and nonces in the answer are numbers: those signed, exactly, up to the largest safe
  integer, and rounded to a double beyond (a rounded nonce is also the one signed).
\<close>

theorem batch_signs_chain_terms:
  assumes "oracle_lib_documented (oe_lib (sv_oracle e))"
    and "submit_batch e rq s = (Batch_issued n pk start gs, s')"
  shows "\<exists>user payees m x escrow seed. bq_user rq = Some user \<and> valid_payees (bq_body rq) = Some (n, payees) \<and>
    m \<in> set (members (os_db (sb_oracle s))) \<and> mb_userId m = su_userId user \<and> mb_status m = ACTIVE \<and>
    can (mb_role m) Oracle_attest_request \<and>
    x \<in> set (escrows (os_db (sb_oracle s))) \<and> es_onChainId x = Some n \<and> es_orgId x = mb_orgId m \<and>
    oe_getEscrow (sv_oracle e) n = Some escrow \<and> ce_manager escrow = su_walletAddress user \<and>
    sv_getNonce e n = Some start \<and> map ig_address gs = map bp_address payees \<and> length gs = length (ce_payments escrow) \<and>
    oracle_key (sv_oracle e) (os_cache (sb_oracle s)) = Some seed \<and> pk = toHex (ol_public (oe_lib (sv_oracle e)) seed) \<and>
    (\<forall>k < length gs. let q = ce_payments escrow ! k; g = gs ! k; hours = js_div (cq_amount q) (cq_rate_per_hour q) in
       ig_address g = cq_worker q \<and> ig_nonce g = to_double (start + int k) \<and> ig_hours g = to_double hours \<and>
       (\<bar>start + int k\<bar> < 2 ^ 53 \<longrightarrow> ig_nonce g = start + int k) \<and> (\<bar>hours\<bar> < 2 ^ 53 \<longrightarrow> ig_hours g = hours) \<and>
       (\<forall>env. fst (verifyHoursProof (oe_lib (sv_oracle e)) env (Some seed) (attest_context (sv_oracle e) q) n (int k)
          hours (ig_nonce g) (ig_signature g)) = Inr True)) \<and>
    os_attestations (sb_oracle s') = os_attestations (sb_oracle s)"
proof -
  obtain user payees ctx x s1 seed where facts: "bq_user rq = Some user" "valid_payees (bq_body rq) = Some (n, payees)"
    "resolveTenant (os_db (sb_oracle s)) (Some (su_userId user)) (batch_org rq user (os_db (sb_oracle s))) = Inr ctx"
    "requirePermission ctx Oracle_attest_request = None" "findEscrowByOnChainId (os_db (sb_oracle s)) ctx n = Inr x"
    "batch_sign e user pk n payees s1 = (Batch_issued n pk start gs, s')"
    "os_db (sb_oracle s1) = os_db (sb_oracle s)" "os_attestations (sb_oracle s1) = os_attestations (sb_oracle s)"
    and key: "oracle_key (sv_oracle e) (os_cache (sb_oracle s)) = Some seed"
      "pk = toHex (ol_public (oe_lib (sv_oracle e)) seed)" "os_cache (sb_oracle s1) = Some seed"
    using submit_batch_issued [OF assms(2)] by blast
  obtain escrow where escrow: "oe_getEscrow (sv_oracle e) n = Some escrow" "ce_manager escrow = su_walletAddress user"
    "sv_getNonce e n = Some start" "map cq_worker (ce_payments escrow) = map bp_address payees"
    "length gs = length (ce_payments escrow)"
    "\<And>k. k < length gs \<Longrightarrow> signs_row (sv_oracle e) seed n start k (ce_payments escrow ! k) (gs ! k)"
    "os_attestations (sb_oracle s') = os_attestations (sb_oracle s1)"
    using batch_sign_issued [OF facts(6) key(3)] by blast
  obtain m where m: "m \<in> set (members (os_db (sb_oracle s)))" "mb_userId m = su_userId user" "mb_status m = ACTIVE"
    "can (mb_role m) Oracle_attest_request" "mb_orgId m = tc_orgId ctx"
    using permitted_member [OF facts(3,4)] by blast
  have each: "let q = ce_payments escrow ! k; g = gs ! k; hours = js_div (cq_amount q) (cq_rate_per_hour q) in
       ig_address g = cq_worker q \<and> ig_nonce g = to_double (start + int k) \<and> ig_hours g = to_double hours \<and>
       (\<bar>start + int k\<bar> < 2 ^ 53 \<longrightarrow> ig_nonce g = start + int k) \<and> (\<bar>hours\<bar> < 2 ^ 53 \<longrightarrow> ig_hours g = hours) \<and>
       (\<forall>env. fst (verifyHoursProof (oe_lib (sv_oracle e)) env (Some seed) (attest_context (sv_oracle e) q) n (int k)
          hours (ig_nonce g) (ig_signature g)) = Inr True)" if "k < length gs" for k
    unfolding Let_def by (rule signs_row_attests [OF assms(1) escrow(6) [OF that]])
  have addresses: "map ig_address gs = map bp_address payees"
    unfolding escrow(4) [symmetric]
    by (rule nth_equalityI) (use escrow(5,6) in \<open>auto simp: signs_row_def\<close>)
  have x: "x \<in> set (escrows (os_db (sb_oracle s)))" "es_onChainId x = Some n" "es_orgId x = mb_orgId m"
    using findEscrowByOnChainId_Inr [OF facts(5)] m(5) by simp_all
  have att: "os_attestations (sb_oracle s') = os_attestations (sb_oracle s)" using escrow(7) facts(8) by simp
  show ?thesis
    by (intro exI [of _ user] exI [of _ payees] exI [of _ m] exI [of _ x] exI [of _ escrow] exI [of _ seed] conjI allI impI
        facts(1,2) m(1-4) x escrow(1-3,5) addresses key(1,2) each att)
qed

text \<open>
  The amounts of the upload are not compared with the chain. Two uploads that name the same workers in the same order
  are answered alike, whatever positive amounts they have, although the comment says that a file that does not
  describe the escrow that was funded is rejected.
\<close>

theorem upload_amounts_ignored:
  assumes "bq_body rq = Batch_body i (Some payees)" and "map bp_address payees = map bp_address payees'"
    and "\<forall>p \<in> set payees \<union> set payees'. bp_positive p"
  shows "submit_batch e (rq\<lparr>bq_body := Batch_body i (Some payees')\<rparr>) s = submit_batch e rq s"
proof -
  have len: "length payees = length payees'" using assms(2) by (metis length_map)
  have each: "list_all (\<lambda>p. g_address (bp_address p) \<and> bp_positive p) ps \<longleftrightarrow> list_all g_address (map bp_address ps)"
    if "\<forall>p \<in> set ps. bp_positive p" for ps
    using that by (induction ps) auto
  have "list_all (\<lambda>p. g_address (bp_address p) \<and> bp_positive p) payees' \<longleftrightarrow>
      list_all (\<lambda>p. g_address (bp_address p) \<and> bp_positive p) payees"
    using each [of payees] each [of payees'] assms(2,3) by auto
  then have valid: "valid_payees (Batch_body i (Some payees')) =
      (case valid_payees (bq_body rq) of None \<Rightarrow> None | Some (k, _) \<Rightarrow> Some (k, payees'))"
    using len assms(1) by (cases i) (auto simp: valid_payees_def)
  have "payees = ps" if "valid_payees (bq_body rq) = Some (k, ps)" for k ps
    using that assms(1) by (cases i) (auto simp: valid_payees_def split: if_splits)
  moreover have "batch_sign e user p k payees' s1 = batch_sign e user p k payees s1" for user p k s1
    unfolding batch_sign_def assms(2) len ..
  moreover have "batch_org (rq\<lparr>bq_body := b\<rparr>) user db = batch_org rq user db" for b user db
    by (simp add: batch_org_def)
  ultimately show ?thesis
    using assms(1) by (cases "valid_payees (bq_body rq)") (auto simp: submit_batch_def valid Let_def split: option.split prod.split sum.split)
qed

text \<open>
  A proof is logged once: the hashes of the log stay distinct, and no request changes anything but the log. The hash is
  unique over all organizations, so one that another organization has logged first is answered as indexed
  already, and nothing is logged for its owner.
\<close>

theorem hours_logged_once:
  assumes "hours_POST rq s = (r, s')" and "distinct (map tl_txHash (hs_timeLogs s))"
  shows "hs_db s' = hs_db s \<and> distinct (map tl_txHash (hs_timeLogs s')) \<and>
    (\<exists>new. hs_timeLogs s' = hs_timeLogs s @ new \<and> (new \<noteq> [] \<longrightarrow> (\<exists>row. new = [row] \<and> r = Hours_logged row))) \<and>
    (\<forall>e p h t. hoursSchema (hq_body rq) = Some (e, p, h, t) \<longrightarrow> t \<in> tl_txHash ` set (hs_timeLogs s) \<longrightarrow>
       s' = s \<and> (\<forall>row. r \<noteq> Hours_logged row))"
  using assms
  by (auto simp: hours_POST_def Let_def createUnique_def split: option.splits if_splits sum.splits prod.splits)

section \<open>Examples\<close>

definition sample_worker :: string where
  "sample_worker = CHR ''G'' # replicate 55 CHR ''A''"

definition sample_row :: chain_payment where
  "sample_row = \<lparr>cq_worker = sample_worker, cq_token = ''T'', cq_amount = 100, cq_rate_per_hour = 20,
     cq_start_date = 1, cq_end_date = 2\<rparr>"

definition sample_signing_env :: signing_env where
  "sample_signing_env =
     \<lparr>sv_oracle = sample_oracle_env\<lparr>oe_getEscrow := (\<lambda>i. if i = 7 then Some \<lparr>ce_manager = ''GM'', ce_payments = [sample_row]\<rparr>
        else None)\<rparr>, sv_getNonce = (\<lambda>i. Some 3)\<rparr>"

definition sample_signing_state :: signing_state where
  "sample_signing_state = \<lparr>sb_oracle = sample_oracle_state, sb_audit = []\<rparr>"

definition sample_batch_request :: batch_request where
  "sample_batch_request =
     \<lparr>bq_user = Some \<lparr>su_userId = ''u1'', su_walletAddress = ''GM''\<rparr>, bq_header = Some ''o1'', bq_query = None,
      bq_body = Batch_body (Some 7) (Some [\<lparr>bp_address = sample_worker, bp_positive = True\<rparr>])\<rparr>"

lemma sample_rows_signed:
  "\<exists>g. sign_rows (sv_oracle sample_signing_env) 7 3 0 [sample_row] (Some [7]) = (Some [g], Some [7])"
proof -
  let ?e = "sv_oracle sample_signing_env"
  have env: "oe_lib ?e = sample_oracle" "oe_contractId ?e = ''C''"
    by (simp_all add: sample_signing_env_def sample_oracle_env_def)
  have "\<exists>m. buildProofMessage sample_oracle (attest_context ?e sample_row) 7 0 5 3 = Inr m \<and> length m = PROOF_MESSAGE_BYTES"
    by (rule buildProofMessage_ok [OF sample_oracle_documented])
      (auto simp: addressDigest_def sample_oracle_def attest_context_def env sample_row_def sample_worker_def
        is_u64_def U64_MAX_def)
  then obtain m where "buildProofMessage sample_oracle (attest_context ?e sample_row) 7 0 5 3 = Inr m" by blast
  then have "\<exists>sg. signHoursProof (oe_lib ?e) (oe_seedHex ?e) (Some [7]) (attest_context ?e sample_row) 7 0 5 3 = (Inr sg, Some [7])"
    by (simp add: signHoursProof_def getOracleKeypair_def env)
  moreover have "cq_amount sample_row = 100" "cq_rate_per_hour sample_row = 20" by (simp_all add: sample_row_def)
  ultimately show ?thesis by (auto simp: js_div_def to_double_exact)
qed

lemma sample_batch_valid:
  "valid_payees (bq_body sample_batch_request) = Some (7, [\<lparr>bp_address = sample_worker, bp_positive = True\<rparr>])"
proof -
  have "g_address sample_worker" by code_simp
  then show ?thesis by (simp add: valid_payees_def sample_batch_request_def)
qed

lemma sample_batch_issued:
  "\<exists>pk g s'. submit_batch sample_signing_env sample_batch_request sample_signing_state = (Batch_issued 7 pk 3 [g], s')"
proof -
  let ?u = "\<lparr>su_userId = ''u1'', su_walletAddress = ''GM''\<rparr>" and ?e = "sv_oracle sample_signing_env"
  have rq: "bq_user sample_batch_request = Some ?u" "bq_body sample_batch_request \<noteq> Null_body"
    "batch_org sample_batch_request ?u sample_oracle_db = Some ''o1''"
    by (simp_all add: sample_batch_request_def batch_org_def)
  obtain ctx where ctx: "resolveTenant sample_oracle_db (Some ''u1'') (Some ''o1'') = Inr ctx"
    "tc_orgId ctx = ''o1''" "tc_role ctx = MANAGER"
    by (simp add: resolveTenant_def find_member_def findFirst_def sample_oracle_db_def empty_db_def)
  have perm: "requirePermission ctx Oracle_attest_request = None"
    using ctx(3) by (simp add: requirePermission_def) code_simp
  obtain x where x: "findEscrowByOnChainId sample_oracle_db ctx 7 = Inr x"
    using ctx(2) by (simp add: findEscrowByOnChainId_def findFirst_def sample_oracle_db_def)
  obtain lim rl where rl: "rateLimit 0 0 ''submit-batch:GM'' 10 60000 empty_limiter = (lim, rl)" "lr_ok rl"
    by (simp add: rateLimit_def take_token_def tick_cleanup_def empty_limiter_def MAX_BUCKET_AGE_CHECK_def)
  have st: "os_db (sb_oracle sample_signing_state) = sample_oracle_db" "os_cache (sb_oracle sample_signing_state) = Some [7]"
    "os_limiter (sb_oracle sample_signing_state) = empty_limiter"
    by (simp_all add: sample_signing_state_def sample_oracle_state_def)
  have env: "oe_clock ?e = 0" "oe_getEscrow ?e 7 = Some \<lparr>ce_manager = ''GM'', ce_payments = [sample_row]\<rparr>"
    "sv_getNonce sample_signing_env 7 = Some 3"
    by (simp_all add: sample_signing_env_def sample_oracle_env_def)
  obtain pk where key: "getOraclePublicKeyHex (oe_lib ?e) (oe_seedHex ?e) (Some [7]) = (Inr pk, Some [7])"
    by (simp add: getOraclePublicKeyHex_def getOracleKeypair_def sample_signing_env_def sample_oracle_env_def sample_oracle_def)
  obtain g where g: "sign_rows ?e 7 3 0 [sample_row] (Some [7]) = (Some [g], Some [7])" using sample_rows_signed by blast
  have worker: "cq_worker sample_row = sample_worker" by (simp add: sample_row_def)
  have "\<exists>s'. batch_sign sample_signing_env ?u pk 7 [\<lparr>bp_address = sample_worker, bp_positive = True\<rparr>] s1
      = (Batch_issued 7 pk 3 [g], s')" if "os_cache (sb_oracle s1) = Some [7]" for s1
    unfolding batch_sign_def using env g that worker by (simp del: sign_rows.simps)
  moreover have "\<exists>s1. os_cache (sb_oracle s1) = Some [7] \<and>
      submit_batch sample_signing_env sample_batch_request sample_signing_state
      = batch_sign sample_signing_env ?u pk 7 [\<lparr>bp_address = sample_worker, bp_positive = True\<rparr>] s1"
    using rq ctx(1) perm x rl st env(1) key sample_batch_valid
    by (intro exI [of _ "sample_signing_state\<lparr>sb_oracle := (sb_oracle sample_signing_state)
          \<lparr>os_limiter := lim, os_cache := Some [7]\<rparr>\<rparr>"]) (simp add: submit_batch_def)
  ultimately show ?thesis by metis
qed

theorem batch_signs_chain_terms_witness:
  "\<exists>pk g s'. submit_batch sample_signing_env sample_batch_request sample_signing_state = (Batch_issued 7 pk 3 [g], s') \<and>
     ig_nonce g = 3 \<and> ig_hours g = 5 \<and> ig_address g = sample_worker"
proof -
  obtain pk g s' where ok: "submit_batch sample_signing_env sample_batch_request sample_signing_state = (Batch_issued 7 pk 3 [g], s')"
    using sample_batch_issued by blast
  have lib: "oracle_lib_documented (oe_lib (sv_oracle sample_signing_env))"
    using sample_oracle_documented by (simp add: sample_signing_env_def sample_oracle_env_def)
  obtain escrow where "oe_getEscrow (sv_oracle sample_signing_env) 7 = Some escrow"
    "let q = ce_payments escrow ! 0; hours = js_div (cq_amount q) (cq_rate_per_hour q) in
      ig_address g = cq_worker q \<and> ig_nonce g = 3 \<and> (\<bar>hours\<bar> < 2 ^ 53 \<longrightarrow> ig_hours g = hours)"
    using batch_signs_chain_terms [OF lib ok] by (fastforce simp: Let_def)
  moreover from this(1) have "escrow = \<lparr>ce_manager = ''GM'', ce_payments = [sample_row]\<rparr>"
    by (simp add: sample_signing_env_def)
  ultimately show ?thesis using ok by (simp add: Let_def sample_row_def js_div_def)
qed

theorem upload_amounts_ignored_witness:
  "submit_batch sample_signing_env (sample_batch_request\<lparr>bq_body := Batch_body (Some 7)
      (Some [\<lparr>bp_address = sample_worker, bp_positive = True\<rparr>])\<rparr>) sample_signing_state =
   submit_batch sample_signing_env sample_batch_request sample_signing_state"
  by (rule upload_amounts_ignored [where payees = "[\<lparr>bp_address = sample_worker, bp_positive = True\<rparr>]"])
    (simp_all add: sample_batch_request_def)

end
