(* ===== verification/ListRoutes.thy ===== *)
theory ListRoutes
  imports Params Auth Money Transitions Tenancy
begin

text \<open>
  The routes that show escrows and payments: \<open>GET\<close> of \<open>src/app/api/escrows/route.ts\<close>,
  \<open>src/app/api/payments/route.ts\<close> and \<open>payments/[id]/route.ts\<close>. The rows a page holds, their order and what is shown
  of each; times are shown as they are, and the counts and the attestations of a payment are left out. An
  exception of the escrow list and of the database client is answered with 500.
\<close>

section \<open>Pages\<close>

text \<open>\<open>take\<close> of the client: a negative number takes from the end. And \<open>slice(0, n)\<close>.\<close>

definition prisma_take :: "int \<Rightarrow> 'a list \<Rightarrow> 'a list" where
  "prisma_take n xs = (if 0 \<le> n then take (nat n) xs else drop (length xs - nat (- n)) xs)"

definition js_slice :: "int \<Rightarrow> 'a list \<Rightarrow> 'a list" where
  "js_slice n xs = (if 0 \<le> n then take (nat n) xs else take (length xs - nat (- n)) xs)"

text \<open>\<open>Math.min(parseInt(s || d, 10), m)\<close>; \<open>None\<close> is \<open>NaN\<close>.\<close>

definition page_limit :: "string option \<Rightarrow> int \<Rightarrow> int \<Rightarrow> int option" where
  "page_limit s d m = map_option (\<lambda>n. min n m) (if truthy s then parse_int10 (the s) else Some d)"

section \<open>The escrows a user may see\<close>

definition shown_payments :: "database \<Rightarrow> escrow_row \<Rightarrow> payment_row list" where
  "shown_payments db x =
     js_sort (\<lambda>a b. case (pm_onChainPaymentIndex a, pm_onChainPaymentIndex b) of
         (Some i, Some j) \<Rightarrow> i - j | (None, Some _) \<Rightarrow> 1 | (Some _, None) \<Rightarrow> -1 | _ \<Rightarrow> 0)
       (filter (\<lambda>p. pm_escrowId p = Some (es_id x)) (payments db))"

definition active_memberships :: "database \<Rightarrow> row_id \<Rightarrow> member_row list" where
  "active_memberships db userId = filter (\<lambda>m. mb_userId m = userId \<and> mb_status m = ACTIVE) (members db)"

definition escrow_visible :: "database \<Rightarrow> auth_payload \<Rightarrow> escrow_row \<Rightarrow> bool" where
  "escrow_visible db user x \<longleftrightarrow>
     (\<exists>m \<in> set (active_memberships db (ap_userId user)). mb_orgId m = es_orgId x \<and>
        (can (mb_role m) Escrow_read \<or>
         list_ex (\<lambda>p. pm_escrowId p = Some (es_id x) \<and> pm_recipientAddress p = ap_walletAddress user) (payments db)))"

record payee_line =
  pl_id :: row_id
  pl_index :: "int option"
  pl_recipient :: address
  pl_amount :: string
  pl_amountBaseUnits :: string
  pl_hours :: string
  pl_state :: payment_state
  pl_stateLabel :: string
  pl_txHash :: "string option"
  pl_settledAt :: "instant option"

record escrow_card =
  ec_escrowId :: row_id
  ec_onChainId :: "int option"
  ec_contractId :: string
  ec_network :: string
  ec_amount :: string
  ec_amountBaseUnits :: string
  ec_currency :: string
  ec_paymentCount :: nat
  ec_hoursLogged :: string
  ec_status :: string
  ec_managerApproved :: bool
  ec_financeApproved :: bool
  ec_hoursVerified :: bool
  ec_cancelled :: bool
  ec_createdAt :: instant
  ec_payments :: "payee_line list"

definition payee_line_of :: "payment_row \<Rightarrow> payee_line" where
  "payee_line_of p =
     \<lparr>pl_id = pm_id p, pl_index = pm_onChainPaymentIndex p, pl_recipient = pm_recipientAddress p,
      pl_amount = formatAmountWithSeparators (pm_amountBaseUnits p) (pm_assetDecimals p) default_opts,
      pl_amountBaseUnits = show_int (pm_amountBaseUnits p), pl_hours = show_int (pm_hours p), pl_state = pm_state p,
      pl_stateLabel = label (describeState (pm_state p)), pl_txHash = pm_settlementTxHash p,
      pl_settledAt = pm_settledAt p\<rparr>"

definition escrow_card_of :: "database \<Rightarrow> escrow_row \<Rightarrow> escrow_card" where
  "escrow_card_of db x =
     (let ps = shown_payments db x;
          rollup = rollupBatch (map (\<lambda>p. (pm_state p, pm_amountBaseUnits p)) ps);
          total = sumAmounts (map pm_amountBaseUnits ps)
      in \<lparr>ec_escrowId = es_id x, ec_onChainId = es_onChainId x, ec_contractId = es_contractId x, ec_network = es_network x,
          ec_amount = formatAmountWithSeparators total (es_assetDecimals x) default_opts,
          ec_amountBaseUnits = show_int total,
          ec_currency = (case ps of [] \<Rightarrow> ''USDC'' | p # _ \<Rightarrow> pm_assetCode p),
          ec_paymentCount = length ps, ec_hoursLogged = show_int (foldl (\<lambda>acc p. acc + pm_hours p) 0 ps),
          ec_status = br_headline rollup, ec_managerApproved = es_managerApproved x,
          ec_financeApproved = es_financeApproved x,
          ec_hoursVerified = list_all (\<lambda>p. pm_state p \<noteq> AWAITING_ORACLE) ps, ec_cancelled = es_cancelled x,
          ec_createdAt = es_createdAt x, ec_payments = map payee_line_of ps\<rparr>)"

text \<open>\<open>cursor\<close> is what \<open>new Date\<close> makes of the parameter: absent, invalid or a time.\<close>

datatype page_cursor = No_cursor | Invalid_cursor | After instant

definition escrows_in_order :: "database \<Rightarrow> auth_payload \<Rightarrow> page_cursor \<Rightarrow> escrow_row list" where
  "escrows_in_order db user cursor =
     js_sort (\<lambda>a b. es_createdAt b - es_createdAt a)
       (filter (\<lambda>x. escrow_visible db user x \<and> (case cursor of After t \<Rightarrow> es_createdAt x < t | _ \<Rightarrow> True)) (escrows db))"

definition list_escrows ::
  "database \<Rightarrow> auth_payload option \<Rightarrow> string option \<Rightarrow> page_cursor \<Rightarrow> nat + (escrow_card list \<times> instant option)" where
  "list_escrows db user limitParam cursor =
     (case user of
        None \<Rightarrow> Inl 401
      | Some u \<Rightarrow>
          if active_memberships db (ap_userId u) = [] then Inr ([], None)
          else if cursor = Invalid_cursor then Inl 500
          else case page_limit limitParam 10 50 of
            None \<Rightarrow> Inl 500
          | Some limit \<Rightarrow>
              let found = prisma_take (limit + 1) (escrows_in_order db u cursor);
                  more = limit < int (length found);
                  items = (if more then js_slice limit found else found)
              in if more \<and> items = [] then Inl 500
                 else Inr (map (escrow_card_of db) items, if more then Some (es_createdAt (last items)) else None))"

section \<open>The payments of an organization\<close>

record list_request =
  lr_user :: "row_id option"
  lr_header :: "string option"
  lr_query :: "string option"

record payment_card =
  pd_id :: row_id
  pd_batchId :: row_id
  pd_escrowOnChainId :: "int option"
  pd_network :: "string option"
  pd_recipient :: address
  pd_index :: "int option"
  pd_assetCode :: string
  pd_assetContractId :: "string option"
  pd_assetDecimals :: nat
  pd_amount :: string
  pd_amountBaseUnits :: string
  pd_rateBaseUnits :: string
  pd_hours :: string
  pd_state :: payment_state
  pd_descriptor :: state_descriptor
  pd_stateReason :: "string option"
  pd_transactionHash :: "string option"
  pd_settledAt :: "instant option"
  pd_approvals :: "(org_role \<times> approval_decision \<times> address) list"
  pd_createdAt :: instant

text \<open>The header, else the query; an empty text names no organization.\<close>

definition reading_membership :: "database \<Rightarrow> list_request \<Rightarrow> nat + membership" where
  "reading_membership db rq =
     (case lr_user rq of
        None \<Rightarrow> Inl 401
      | Some u \<Rightarrow>
          (let orgId = (if lr_header rq \<noteq> None then lr_header rq else lr_query rq) in
           if \<not> truthy orgId then Inl 400
           else case resolveMembership db (Some u) (the orgId) of
             Inl d \<Rightarrow> Inl (dn_status d)
           | Inr m \<Rightarrow> if \<not> canRead (tc_role m) then Inl 403 else Inr m))"

definition escrow_of :: "database \<Rightarrow> payment_row \<Rightarrow> escrow_row option" where
  "escrow_of db p = (case pm_escrowId p of None \<Rightarrow> None | Some i \<Rightarrow> findFirst (\<lambda>x. es_id x = i) (escrows db))"

definition payment_card_of :: "database \<Rightarrow> payment_row \<Rightarrow> payment_card" where
  "payment_card_of db p =
     (let d = describeState (pm_state p); x = escrow_of db p in
      \<lparr>pd_id = pm_id p, pd_batchId = pm_batchId p,
       pd_escrowOnChainId = (case x of None \<Rightarrow> None | Some x \<Rightarrow> es_onChainId x), pd_network = map_option es_network x,
       pd_recipient = pm_recipientAddress p, pd_index = pm_onChainPaymentIndex p, pd_assetCode = pm_assetCode p,
       pd_assetContractId = pm_assetContractId p, pd_assetDecimals = pm_assetDecimals p,
       pd_amount = formatAmountWithSeparators (pm_amountBaseUnits p) (pm_assetDecimals p) default_opts,
       pd_amountBaseUnits = show_int (pm_amountBaseUnits p), pd_rateBaseUnits = show_int (pm_rateBaseUnits p),
       pd_hours = show_int (pm_hours p), pd_state = pm_state p, pd_descriptor = d, pd_stateReason = pm_stateReason p,
       pd_transactionHash = (if mayHaveTransaction d then pm_settlementTxHash p else None), pd_settledAt = pm_settledAt p,
       pd_approvals = map (\<lambda>a. (approval_row.ap_role a, ap_decision a, ap_actorAddress a))
         (filter (\<lambda>a. ap_paymentId a = pm_id p) (approvals db)),
       pd_createdAt = pm_createdAt p\<rparr>)"

text \<open>The state and the batch of the query; an empty one filters nothing.\<close>

definition list_payments ::
  "database \<Rightarrow> list_request \<Rightarrow> string option \<Rightarrow> string option \<Rightarrow> string option \<Rightarrow> nat + payment_card list" where
  "list_payments db rq state batchId limitParam =
     (case reading_membership db rq of
        Inl s \<Rightarrow> Inl s
      | Inr m \<Rightarrow>
          if truthy state \<and> the state \<notin> payment_state_name ` set (enum_class.enum :: payment_state list) then Inl 400
          else case page_limit limitParam 50 200 of
            None \<Rightarrow> Inl 500
          | Some limit \<Rightarrow>
              Inr (map (payment_card_of db) (prisma_take limit (js_sort (\<lambda>a b. pm_createdAt b - pm_createdAt a)
                (filter (\<lambda>p. pm_orgId p = tc_orgId m \<and> (truthy state \<longrightarrow> payment_state_name (pm_state p) = the state) \<and>
                   (truthy batchId \<longrightarrow> pm_batchId p = the batchId)) (payments db))))))"

text \<open>One payment, with its history and what the caller may do next.\<close>

record payment_detail =
  pt_card :: payment_card
  pt_periodStart :: "instant option"
  pt_periodEnd :: "instant option"
  pt_escrow :: "escrow_row option"
  pt_transactions :: "transaction_row list"
  pt_history :: "audit_row list"
  pt_findings :: "finding_row list"
  pt_availableActions :: "payment_state list"

definition available_actions :: "org_role \<Rightarrow> payment_state \<Rightarrow> payment_state list" where
  "available_actions r s =
     map to_state (filter (\<lambda>t. User \<in> set (actors t) \<and> (case roles t of None \<Rightarrow> False | Some rs \<Rightarrow> r \<in> set rs))
       (transitionsFrom s))"

definition show_payment :: "database \<Rightarrow> list_request \<Rightarrow> row_id \<Rightarrow> nat + payment_detail" where
  "show_payment db rq i =
     (case reading_membership db rq of
        Inl s \<Rightarrow> Inl s
      | Inr m \<Rightarrow>
          (case findPaymentForMember db m i of
             Inl d \<Rightarrow> Inl (dn_status d)
           | Inr p \<Rightarrow>
               Inr \<lparr>pt_card = payment_card_of db p, pt_periodStart = pm_periodStart p, pt_periodEnd = pm_periodEnd p,
                 pt_escrow = escrow_of db p,
                 pt_transactions = filter (\<lambda>t. tx_paymentId t = Some (pm_id p)) (transactions db),
                 pt_history = filter (\<lambda>a. au_paymentId a = Some (pm_id p)) (auditEvents db),
                 pt_findings = js_sort (\<lambda>a b. fd_detectedAt b - fd_detectedAt a)
                   (filter (\<lambda>f. fd_paymentId f = Some (pm_id p)) (findings db)),
                 pt_availableActions = available_actions (tc_role m) (pm_state p)\<rparr>))"

section \<open>What the lists show\<close>

lemma set_prisma_take: "set (prisma_take n xs) \<subseteq> set xs"
  by (auto simp: prisma_take_def dest: in_set_takeD in_set_dropD)

lemma set_js_slice: "set (js_slice n xs) \<subseteq> set xs"
  by (auto simp: js_slice_def dest: in_set_takeD)

lemma set_shown_payments: "set (shown_payments db x) = {p \<in> set (payments db). pm_escrowId p = Some (es_id x)}"
  by (auto simp: shown_payments_def)

lemma list_escrows_Inr:
  assumes "list_escrows db (Some u) limit cursor = Inr (cards, next_cursor)"
  obtains items where "cards = map (escrow_card_of db) items" "set items \<subseteq> set (escrows_in_order db u cursor)"
    "next_cursor \<noteq> None \<Longrightarrow> items \<noteq> [] \<and> next_cursor = Some (es_createdAt (last items))"
proof (cases "active_memberships db (ap_userId u) = []")
  case True
  then show ?thesis using assms that [of "[]"] by (simp add: list_escrows_def)
next
  case False
  then obtain n where n: "page_limit limit 10 50 = Some n"
    using assms by (auto simp: list_escrows_def split: if_splits option.splits)
  define found where "found = prisma_take (n + 1) (escrows_in_order db u cursor)"
  define items where "items = (if n < int (length found) then js_slice n found else found)"
  have sub: "set items \<subseteq> set (escrows_in_order db u cursor)"
    unfolding items_def found_def
    by (simp add: order_trans [OF set_js_slice set_prisma_take] set_prisma_take)
  have cursor: "cursor \<noteq> Invalid_cursor" using assms False by (auto simp: list_escrows_def)
  have eq: "(if n < int (length found) \<and> items = [] then Inl 500
      else Inr (map (escrow_card_of db) items, if n < int (length found) then Some (es_createdAt (last items)) else None))
      = (Inr (cards, next_cursor) :: nat + _)"
    using assms False n cursor unfolding items_def found_def by (simp add: list_escrows_def Let_def)
  have out: "cards = map (escrow_card_of db) items \<and>
      (next_cursor \<noteq> None \<longrightarrow> items \<noteq> [] \<and> next_cursor = Some (es_createdAt (last items)))"
  proof (cases "n < int (length found)")
    case True
    then show ?thesis using eq by (cases "items = []") (auto simp only: if_True if_False sum.inject sum.distinct prod.inject simp_thms)
  next
    case False
    then show ?thesis using eq by simp
  qed
  show ?thesis by (rule that [OF _ sub]) (use out in simp_all)
qed

text \<open>
  The list of escrows shows an escrow only to an active member of its organization whose role may read escrows or whom
  the escrow pays; but of an escrow it shows every payment. A worker, whose role has no permission at all, sees the
  recipients, the amounts and the hours of all colleagues who are paid by an escrow that pays him.
\<close>

theorem worker_sees_colleagues_pay:
  assumes "list_escrows db (Some user) limit cursor = Inr (cards, next_cursor)" and "shown \<in> set cards"
  shows "\<exists>x \<in> set (escrows db). shown = escrow_card_of db x \<and>
    (\<exists>m \<in> set (members db). mb_userId m = ap_userId user \<and> mb_status m = ACTIVE \<and> mb_orgId m = es_orgId x \<and>
       (can (mb_role m) Escrow_read \<or> (\<exists>p \<in> set (payments db). pm_escrowId p = Some (es_id x) \<and>
          pm_recipientAddress p = ap_walletAddress user))) \<and>
    (\<forall>q \<in> set (payments db). pm_escrowId q = Some (es_id x) \<longrightarrow>
       (\<exists>l \<in> set (ec_payments shown). pl_id l = pm_id q \<and> pl_recipient l = pm_recipientAddress q \<and>
          pl_amountBaseUnits l = show_int (pm_amountBaseUnits q) \<and> pl_hours l = show_int (pm_hours q)))"
proof -
  obtain x where x: "x \<in> set (escrows_in_order db user cursor)" "shown = escrow_card_of db x"
    using assms by (elim list_escrows_Inr) auto
  then have seen: "x \<in> set (escrows db)" "escrow_visible db user x" by (auto simp: escrows_in_order_def)
  have "\<forall>q \<in> set (payments db). pm_escrowId q = Some (es_id x) \<longrightarrow> payee_line_of q \<in> set (ec_payments shown)"
    by (simp add: x(2) escrow_card_of_def Let_def set_shown_payments)
  moreover have "pl_id (payee_line_of q) = pm_id q \<and> pl_recipient (payee_line_of q) = pm_recipientAddress q \<and>
      pl_amountBaseUnits (payee_line_of q) = show_int (pm_amountBaseUnits q) \<and> pl_hours (payee_line_of q) = show_int (pm_hours q)"
    for q by (simp add: payee_line_of_def)
  ultimately have "\<forall>q \<in> set (payments db). pm_escrowId q = Some (es_id x) \<longrightarrow>
       (\<exists>l \<in> set (ec_payments shown). pl_id l = pm_id q \<and> pl_recipient l = pm_recipientAddress q \<and>
          pl_amountBaseUnits l = show_int (pm_amountBaseUnits q) \<and> pl_hours l = show_int (pm_hours q))" by blast
  moreover have "\<exists>m \<in> set (members db). mb_userId m = ap_userId user \<and> mb_status m = ACTIVE \<and> mb_orgId m = es_orgId x \<and>
       (can (mb_role m) Escrow_read \<or> (\<exists>p \<in> set (payments db). pm_escrowId p = Some (es_id x) \<and>
          pm_recipientAddress p = ap_walletAddress user))"
    using seen(2) by (auto simp: escrow_visible_def active_memberships_def list_ex_iff)
  ultimately show ?thesis using seen(1) x(2) by blast
qed

text \<open>
  Escrows of one moment are lost between pages. The next page starts before the time of the last escrow of this one, so
  an escrow of exactly that time that did not fit on the page is on no later page.
\<close>

theorem page_boundary_loses_escrows:
  assumes "list_escrows db (Some user) limit cursor = Inr (cards, Some t)"
    and "es_createdAt y = t" and "escrow_card_of db y \<notin> set cards"
    and "list_escrows db (Some user) limit' (After t') = Inr (cards', next')" and "t' \<le> t"
  shows "escrow_card_of db y \<notin> set cards \<union> set cards'"
proof -
  have "ec_createdAt shown < t'" if "shown \<in> set cards'" for shown
  proof -
    obtain items where "cards' = map (escrow_card_of db) items" "set items \<subseteq> set (escrows_in_order db user (After t'))"
      using assms(4) by (rule list_escrows_Inr)
    then obtain x where "x \<in> set (escrows_in_order db user (After t'))" "shown = escrow_card_of db x"
      using \<open>shown \<in> set cards'\<close> by auto
    then show ?thesis by (simp add: escrows_in_order_def escrow_card_of_def Let_def)
  qed
  moreover have "ec_createdAt (escrow_card_of db y) = t" by (simp add: escrow_card_of_def Let_def assms(2))
  ultimately show ?thesis using assms(3,5) by force
qed

text \<open>
  Hours are shown as verified before anything was verified: the flag asks only that no payment waits for the oracle,
  so a payment that is a draft or is being validated, and an escrow without payments, count as verified.
\<close>

theorem hours_verified_before_oracle:
  assumes "\<forall>p \<in> set (payments db). pm_escrowId p = Some (es_id x) \<longrightarrow> pm_state p \<in> {DRAFT, VALIDATING}"
  shows "ec_hoursVerified (escrow_card_of db x)"
  using assms by (auto simp: escrow_card_of_def Let_def list_all_iff set_shown_payments)

text \<open>
  What one payment offers is what its table allows: the next states a member is offered are exactly those that the check
  of the transition accepts from a user of that role, in every state and for every role.
\<close>

theorem offered_actions_accepted:
  "set (available_actions r s) = set (user_moves r s)"
proof -
  have "t \<in> set (available_actions r s) \<longleftrightarrow> allowed s t (user_actor r)" for t
    by (auto simp: available_actions_def transitionsFrom_def allowed_iff permitted_def user_actor_def
        split: option.splits)
  moreover have "set (enum_class.enum :: payment_state list) = UNIV" by (simp add: enum_UNIV)
  ultimately show ?thesis by (auto simp: user_moves_def)
qed

text \<open>
  The lists of payments stay in the organization: whatever the query, each payment shown belongs to an organization of
  which the caller is an active member with the permission to read payments, and a transaction hash is shown only
  in a state that can have one.
\<close>

theorem payment_list_scope:
  assumes "list_payments db rq state batchId limit = Inr cards" and "shown \<in> set cards"
  shows "\<exists>p \<in> set (payments db). shown = payment_card_of db p \<and>
    (\<exists>m \<in> set (members db). mb_orgId m = pm_orgId p \<and> Some (mb_userId m) = lr_user rq \<and> mb_status m = ACTIVE \<and>
       can (mb_role m) Payment_read) \<and>
    (pd_transactionHash shown \<noteq> None \<longrightarrow> mayHaveTransaction (describeState (pm_state p)))"
proof -
  obtain c where c: "reading_membership db rq = Inr c"
    using assms(1) by (auto simp: list_payments_def split: sum.splits)
  then obtain u i where u: "lr_user rq = Some u" "resolveTenant db (Some u) (Some i) = Inr c" "canRead (tc_role c)"
    by (auto simp: reading_membership_def resolveMembership_def Let_def split: option.splits if_splits sum.splits)
  obtain p where p: "p \<in> set (payments db)" "pm_orgId p = tc_orgId c" "shown = payment_card_of db p"
    using assms c set_prisma_take
    by (fastforce simp: list_payments_def split: if_splits option.splits)
  obtain m where m: "m \<in> set (members db)" "mb_status m = ACTIVE" "Some u = Some (mb_userId m)" "tc_role c = mb_role m"
    "tc_orgId c = mb_orgId m"
    using u(2) by (rule resolveTenant_Inr) blast
  have "pd_transactionHash shown \<noteq> None \<longrightarrow> mayHaveTransaction (describeState (pm_state p))"
    by (simp add: p(3) payment_card_of_def Let_def)
  moreover have "mb_orgId m = pm_orgId p" "Some (mb_userId m) = lr_user rq" "can (mb_role m) Payment_read"
    using p(2) m(3,4,5) u(1,3) by (simp_all add: canRead_def)
  ultimately show ?thesis using p(1,3) m(1,2) by blast
qed

section \<open>Samples\<close>

definition sample_shared_escrow :: escrow_row where
  "sample_shared_escrow = \<lparr>es_id = ''e1'', es_orgId = ''o1'', es_onChainId = Some 3, es_contractId = ''C1'', es_network = ''testnet'',
     es_managerAddress = ''GM'', es_financeApproverAddress = ''GF'', es_assetDecimals = 7, es_totalAmountBaseUnits = 200,
     es_managerApproved = False, es_financeApproved = False, es_cancelled = False, es_oracleRotations = 0,
     es_projectId = None, es_oraclePublicKey = None, es_tokenAddress = None, es_createdAt = 5\<rparr>"

definition sample_colleague_payment :: payment_row where
  "sample_colleague_payment = sample_payment\<lparr>pm_id := ''p2'', pm_recipientAddress := ''GX'', pm_amountBaseUnits := 900,
     pm_hours := 90, pm_onChainPaymentIndex := Some 1\<rparr>"

definition sample_shared :: database where
  "sample_shared = empty_db\<lparr>members := [sample_member\<lparr>mb_role := WORKER, mb_status := ACTIVE\<rparr>],
     escrows := [sample_shared_escrow], payments := [sample_payment, sample_colleague_payment]\<rparr>"

definition sample_worker_login :: auth_payload where
  "sample_worker_login = \<lparr>ap_userId = ''u1'', ap_walletAddress = ''GW'', ap_role = role_text EMPLOYEE\<rparr>"

lemma sample_shared_list:
  "list_escrows sample_shared (Some sample_worker_login) None No_cursor
     = Inr ([escrow_card_of sample_shared sample_shared_escrow], None)"
proof -
  have "active_memberships sample_shared (ap_userId sample_worker_login) = [sample_member\<lparr>mb_role := WORKER, mb_status := ACTIVE\<rparr>]"
    by (simp add: active_memberships_def sample_shared_def sample_worker_login_def sample_member_def)
  moreover from this have "escrows_in_order sample_shared sample_worker_login No_cursor = [sample_shared_escrow]"
    by (simp add: escrows_in_order_def escrow_visible_def, simp add: sample_shared_def sample_worker_login_def sample_member_def
        sample_shared_escrow_def sample_payment_def js_sort_def)
  moreover have "page_limit None 10 50 = Some 10" by (simp add: page_limit_def truthy_def)
  ultimately show ?thesis by (simp add: list_escrows_def prisma_take_def)
qed

theorem worker_sees_colleagues_pay_witness:
  "\<exists>cards. list_escrows sample_shared (Some sample_worker_login) None No_cursor = Inr (cards, None) \<and>
     list_ex (\<lambda>shown. \<exists>l \<in> set (ec_payments shown). pl_recipient l = ''GX'' \<and> pl_amountBaseUnits l = show_int 900 \<and>
       pl_recipient l \<noteq> ap_walletAddress sample_worker_login) cards \<and> \<not> can WORKER Escrow_read"
proof -
  have in_db: "sample_colleague_payment \<in> set (payments sample_shared)" "escrows sample_shared = [sample_shared_escrow]"
    "pm_escrowId sample_colleague_payment = Some (es_id sample_shared_escrow)"
    "pm_recipientAddress sample_colleague_payment = ''GX''" "pm_amountBaseUnits sample_colleague_payment = 900"
    by (simp_all add: sample_shared_def sample_colleague_payment_def sample_payment_def sample_shared_escrow_def)
  have "\<exists>l \<in> set (ec_payments (escrow_card_of sample_shared sample_shared_escrow)). pl_recipient l = ''GX'' \<and>
      pl_amountBaseUnits l = show_int 900"
    using worker_sees_colleagues_pay [OF sample_shared_list, of "escrow_card_of sample_shared sample_shared_escrow"] in_db by force
  moreover have "\<not> can WORKER Escrow_read" by code_simp
  ultimately show ?thesis using sample_shared_list by (auto simp: sample_worker_login_def)
qed

end
