(* ===== verification/Workbench.thy ===== *)
theory Workbench
  imports Claims
begin

text \<open>
  The checks the workbench shows: \<open>apps/workbench/src/lib/verification.ts\<close> lays the outcome of \<open>verifyClaim\<close> over the
  steps of the claim format, \<open>inspect.ts\<close> explains the fields of a preimage and warns of those a contract refuses, and
  \<open>errorCatalog.ts\<close> numbers the errors. The texts for the reader are left out: a step keeps its position, a field
  its bytes and its tone, a warning its reason.
\<close>

section \<open>The catalog of errors\<close>

record error_entry =
  en_code :: int
  en_name :: claim_error
  en_step :: "nat option"

definition KIT_MEANINGS :: "(int \<times> nat option) list" where
  "KIT_MEANINGS =
     [(1101, Some 1), (1102, Some 2), (1103, Some 3), (1104, Some 4), (1105, Some 5), (1106, Some 5),
      (1107, Some 7), (1108, None), (1109, None)]"

definition KIT_ERRORS :: "error_entry list" where
  "KIT_ERRORS = map (\<lambda>(code, step). \<lparr>en_code = code, en_name = the (fromContractErrorCode code), en_step = step\<rparr>) KIT_MEANINGS"

definition onChainCodeFor :: "claim_error \<Rightarrow> int option" where
  "onChainCodeFor code = map_option en_code (List.find (\<lambda>e. en_name e = code) KIT_ERRORS)"

section \<open>The report of a verification\<close>

datatype step_status = Pass | Fail | Not_reached | Contract_only

datatype step_id = S_registry | S_window | S_expiry | S_replay_fields | S_replay_state | S_signature | S_consume

record verification_step =
  vs_n :: nat
  vs_id :: step_id
  vs_status :: step_status

record verification_failure =
  vf_code :: claim_error
  vf_onChainCode :: "int option"

record verification_report =
  vr_ok :: bool
  vr_steps :: "verification_step list"
  vr_failure :: "verification_failure option"
  vr_inputError :: "verification_failure option"
  vr_preimageHex :: "string option"
  vr_now :: int

text \<open>Position, name, and whether only the contract can make the check (\<open>note\<close>).\<close>

definition STEPS :: "(nat \<times> step_id \<times> bool) list" where
  "STEPS = [(1, S_registry, True), (2, S_window, False), (3, S_expiry, False), (4, S_replay_fields, False),
     (5, S_replay_state, True), (6, S_signature, False), (7, S_consume, True)]"

definition OFF_CHAIN :: "(step_id \<times> claim_error) list" where
  "OFF_CHAIN = [(S_window, InvalidWindow), (S_expiry, ClaimExpired), (S_replay_fields, InvalidReplayFields),
     (S_signature, InvalidSignature)]"

definition failureOf :: "claim_error \<Rightarrow> verification_failure" where
  "failureOf e = \<lparr>vf_code = e, vf_onChainCode = onChainCodeFor e\<rparr>"

text \<open>\<open>findIndex\<close>\<close>

fun find_index :: "('a \<Rightarrow> bool) \<Rightarrow> 'a list \<Rightarrow> int" where
  "find_index P [] = -1"
| "find_index P (x # xs) = (if P x then 0 else let i = find_index P xs in if i = -1 then -1 else i + 1)"

definition step_status_of :: "verification_failure option \<Rightarrow> verification_failure option \<Rightarrow> int \<Rightarrow> step_id \<Rightarrow> bool \<Rightarrow> step_status" where
  "step_status_of failure inputError failedAt i note =
     (if note then Contract_only
      else if inputError \<noteq> None then Not_reached
      else let index = find_index (\<lambda>(j, _). j = i) OFF_CHAIN in
        if failure \<noteq> None \<and> failedAt = -1 then Not_reached
        else if failedAt = -1 then Pass
        else if index < failedAt then Pass
        else if index = failedAt then Fail
        else Not_reached)"

definition runVerification ::
  "stellar_base \<Rightarrow> instant \<Rightarrow> claim \<Rightarrow> claim_context \<Rightarrow> bytes \<Rightarrow> int \<Rightarrow> verification_report" where
  "runVerification lib clock c ctx signature secs =
     (case encodeClaim lib c ctx of
        Inl e \<Rightarrow>
          \<lparr>vr_ok = False,
           vr_steps = map (\<lambda>(n, i, note). \<lparr>vs_n = n, vs_id = i, vs_status = (if note then Contract_only else Not_reached)\<rparr>) STEPS,
           vr_failure = None, vr_inputError = Some (failureOf e), vr_preimageHex = None, vr_now = secs\<rparr>
      | Inr preimage \<Rightarrow>
          (let outcome = verifyClaim lib clock c ctx signature (NowBigint secs);
               inputError = (case outcome of Inl e \<Rightarrow> if e = InvalidInput then Some (failureOf e) else None | Inr _ \<Rightarrow> None);
               failure = (case outcome of Inl e \<Rightarrow> if e = InvalidInput then None else Some (failureOf e) | Inr _ \<Rightarrow> None);
               failedAt = (case failure of Some f \<Rightarrow> find_index (\<lambda>(_, code). code = vf_code f) OFF_CHAIN | None \<Rightarrow> -1)
           in \<lparr>vr_ok = (failure = None \<and> inputError = None),
               vr_steps = map (\<lambda>(n, i, note). \<lparr>vs_n = n, vs_id = i,
                 vs_status = step_status_of failure inputError failedAt i note\<rparr>) STEPS,
               vr_failure = failure, vr_inputError = inputError, vr_preimageHex = Some (toHex preimage), vr_now = secs\<rparr>))"

section \<open>The inspection of a preimage\<close>

datatype field_tone = Tone_neutral | Tone_ok | Tone_warn

record field_row =
  fr_name :: preimage_field_name
  fr_offset :: nat
  fr_size :: nat
  fr_hex :: string
  fr_tone :: field_tone

datatype inspection_warning = Not_a_preimage | Wrong_network | Unknown_network | Wrong_contract
  | Reserved_encoding byte | Undefined_mode byte | Sequence_with_claim_id | Unique_with_nonce
  | Empty_window | Claim_expired

record inspection =
  in_rows :: "field_row list"
  in_decodeError :: "claim_error option"
  in_decoded :: "decoded_preimage option"
  in_warnings :: "inspection_warning list"

record inspect_options =
  io_now :: int
  io_expectedPassphrase :: "string option"
  io_expectedContractId :: "string option"
  io_claimTypeNames :: "string list"

definition KNOWN_CLAIM_TYPES :: "string list" where
  "KNOWN_CLAIM_TYPES = [''marketplace.delivery.v1'']"

text \<open>Whether the network is the expected one, or one of the public ones when none is expected.\<close>

definition network_recognised :: "stellar_base \<Rightarrow> decoded_preimage \<Rightarrow> inspect_options \<Rightarrow> bool" where
  "network_recognised lib d opts =
     (if truthy (io_expectedPassphrase opts)
      then toHex (networkId lib (the (io_expectedPassphrase opts))) = toHex (dp_networkId d)
      else identifyNetwork lib (dp_networkId d) \<noteq> None)"

definition contract_matches :: "stellar_base \<Rightarrow> decoded_preimage \<Rightarrow> string \<Rightarrow> bool" where
  "contract_matches lib d contractId =
     (case contractDigest lib contractId of
        Inr k \<Rightarrow> toHex k = toHex (dp_contractDigest d) | Inl _ \<Rightarrow> False)"

definition known_claim_type :: "stellar_base \<Rightarrow> decoded_preimage \<Rightarrow> inspect_options \<Rightarrow> bool" where
  "known_claim_type lib d opts \<longleftrightarrow>
     list_ex (\<lambda>n. n \<noteq> [] \<and> map_sum id toHex (claimType lib n) = Inr (toHex (dp_claimType d)))
       (KNOWN_CLAIM_TYPES @ io_claimTypeNames opts)"

definition inspect_warnings :: "stellar_base \<Rightarrow> decoded_preimage \<Rightarrow> inspect_options \<Rightarrow> inspection_warning list" where
  "inspect_warnings lib d opts =
     (if network_recognised lib d opts then []
      else if truthy (io_expectedPassphrase opts) then [Wrong_network] else [Unknown_network])
     @ (if truthy (io_expectedContractId opts) \<and> \<not> contract_matches lib d (the (io_expectedContractId opts)) \<and>
           contractDigest lib (the (io_expectedContractId opts)) \<noteq> Inl InvalidInput then [Wrong_contract] else [])
     @ (if 1 < dp_payloadEncoding d then [Reserved_encoding (dp_payloadEncoding d)] else [])
     @ (if 1 < dp_replayMode d then [Undefined_mode (dp_replayMode d)] else [])
     @ (if dp_replayMode d = 0 then (if \<not> isZero (dp_claimId d) then [Sequence_with_claim_id] else [])
        else if dp_replayMode d = 1 then (if dp_nonce d \<noteq> 0 then [Unique_with_nonce] else []) else [])
     @ (if dp_expiresAt d \<le> dp_issuedAt d then [Empty_window]
        else if io_now opts > dp_expiresAt d then [Claim_expired] else [])"

definition warn_if :: "bool \<Rightarrow> field_tone \<Rightarrow> field_tone" where
  "warn_if b t = (if b then Tone_warn else t)"

definition field_tone_of ::
  "stellar_base \<Rightarrow> decoded_preimage \<Rightarrow> inspect_options \<Rightarrow> preimage_field_name \<Rightarrow> field_tone" where
  "field_tone_of lib d opts f =
     (case f of
        F_magic \<Rightarrow> Tone_ok
      | F_version \<Rightarrow> Tone_ok
      | F_network_id \<Rightarrow> warn_if (\<not> network_recognised lib d opts) Tone_ok
      | F_contract \<Rightarrow>
          (if truthy (io_expectedContractId opts)
           then warn_if (\<not> contract_matches lib d (the (io_expectedContractId opts))) Tone_ok else Tone_neutral)
      | F_claim_type \<Rightarrow> (if known_claim_type lib d opts then Tone_ok else Tone_neutral)
      | F_payload_encoding \<Rightarrow> warn_if (1 < dp_payloadEncoding d) Tone_neutral
      | F_replay_mode \<Rightarrow> warn_if (1 < dp_replayMode d) Tone_neutral
      | F_nonce \<Rightarrow> (if dp_replayMode d = 1 then warn_if (dp_nonce d \<noteq> 0) Tone_ok else Tone_neutral)
      | F_claim_id \<Rightarrow> (if dp_replayMode d = 0 then warn_if (\<not> isZero (dp_claimId d)) Tone_ok else Tone_neutral)
      | F_expires_at \<Rightarrow> warn_if (io_now opts > dp_expiresAt d) Tone_neutral
      | _ \<Rightarrow> Tone_neutral)"

definition raw_row :: "bytes \<Rightarrow> (preimage_field_name \<Rightarrow> field_tone) \<Rightarrow> preimage_field \<Rightarrow> field_row" where
  "raw_row p tone_of f =
     \<lparr>fr_name = pf_name f, fr_offset = pf_offset f, fr_size = pf_size f,
      fr_hex = toHex (slice_bytes (pf_offset f) (pf_size f) p), fr_tone = tone_of (pf_name f)\<rparr>"

definition inspectPreimage :: "stellar_base \<Rightarrow> bytes \<Rightarrow> inspect_options \<Rightarrow> inspection" where
  "inspectPreimage lib p opts =
     (case decodePreimage p of
        Inl e \<Rightarrow>
          \<lparr>in_rows = map (raw_row p (\<lambda>f. warn_if (f = F_magic \<or> f = F_version) Tone_neutral)) PREIMAGE_LAYOUT,
           in_decodeError = Some e, in_decoded = None, in_warnings = [Not_a_preimage]\<rparr>
      | Inr d \<Rightarrow>
          \<lparr>in_rows = map (raw_row p (field_tone_of lib d opts)) PREIMAGE_LAYOUT,
           in_decodeError = None, in_decoded = Some d, in_warnings = inspect_warnings lib d opts\<rparr>)"

section \<open>What the report shows\<close>

text \<open>The condition a step stands for.\<close>

definition step_holds :: "stellar_base \<Rightarrow> claim \<Rightarrow> bytes \<Rightarrow> bytes \<Rightarrow> int \<Rightarrow> step_id \<Rightarrow> bool" where
  "step_holds lib c preimage signature secs i =
     (case i of
        S_window \<Rightarrow> cl_issuedAt c < cl_expiresAt c
      | S_expiry \<Rightarrow> secs \<le> cl_expiresAt c
      | S_replay_fields \<Rightarrow> assertReplayFields c = Inr ()
      | S_signature \<Rightarrow> sb_verify lib (cl_issuer c) preimage signature
      | _ \<Rightarrow> True)"

lemma onChainCodes:
  "onChainCodeFor InvalidWindow = Some 1102" "onChainCodeFor ClaimExpired = Some 1103"
  "onChainCodeFor InvalidReplayFields = Some 1104" "onChainCodeFor InvalidSignature = None"
  by code_simp+

text \<open>The outcomes of the check of a claim that can be encoded.\<close>

lemma verifyClaim_outcomes:
  assumes "keys_documented lib" and "encodeClaim lib c ctx = Inr p"
  obtains "verifyClaim lib clock c ctx s (NowBigint secs) = Inl InvalidInput"
  | "verifyClaim lib clock c ctx s (NowBigint secs) = Inl InvalidWindow" "\<not> step_holds lib c p s secs S_window"
  | "verifyClaim lib clock c ctx s (NowBigint secs) = Inl ClaimExpired" "step_holds lib c p s secs S_window"
    "\<not> step_holds lib c p s secs S_expiry"
  | "verifyClaim lib clock c ctx s (NowBigint secs) = Inl InvalidReplayFields" "step_holds lib c p s secs S_window"
    "step_holds lib c p s secs S_expiry" "\<not> step_holds lib c p s secs S_replay_fields"
  | "verifyClaim lib clock c ctx s (NowBigint secs) = Inl InvalidSignature" "step_holds lib c p s secs S_window"
    "step_holds lib c p s secs S_expiry" "step_holds lib c p s secs S_replay_fields" "\<not> step_holds lib c p s secs S_signature"
  | "verifyClaim lib clock c ctx s (NowBigint secs) = Inr ()" "step_holds lib c p s secs S_window"
    "step_holds lib c p s secs S_expiry" "step_holds lib c p s secs S_replay_fields" "step_holds lib c p s secs S_signature"
proof -
  have key: "sb_decodePublic lib (sb_encodePublic lib (cl_issuer c)) = cl_issuer c"
    using assms by (auto simp: encodeClaim_def claimWireValues_def keys_documented_def split: if_splits)
  have replay: "assertReplayFields c \<in> {Inl InvalidReplayFields, Inr ()}"
    by (simp add: assertReplayFields_def Let_def)
  show thesis
  proof (cases "length s \<noteq> 64 \<or> \<not> is_u64 secs")
    case True
    then show thesis using that(1) by (auto simp: verifyClaim_def toUnixSeconds_def)
  next
    case False
    have run: "verifyClaim lib clock c ctx s (NowBigint secs) =
        (if cl_expiresAt c \<le> cl_issuedAt c then Inl InvalidWindow else if secs > cl_expiresAt c then Inl ClaimExpired
         else case assertReplayFields c of Inl e \<Rightarrow> Inl e
              | Inr _ \<Rightarrow> if \<not> sb_verify lib (cl_issuer c) p s then Inl InvalidSignature else Inr ())"
      using False by (simp add: verifyClaim_def toUnixSeconds_def assms(2) key Let_def split: sum.split)
    show thesis
      using that(2-6) replay unfolding run
      by (cases "cl_issuedAt c < cl_expiresAt c"; cases "secs \<le> cl_expiresAt c"; cases "assertReplayFields c = Inr ()";
          cases "sb_verify lib (cl_issuer c) p s") (auto simp: step_holds_def)
  qed
qed

text \<open>
  C32: The report is truthful: a step shown as passed holds, one shown as failed does not, at most one fails and every
  off-chain step before it is shown as passed; the report is good exactly when the claim verifies, and then every step that
  can be checked off the chain is shown as passed. A step only the contract can check is never shown as passed.
\<close>

theorem report_truthful:
  assumes "keys_documented lib" and "encodeClaim lib c ctx = Inr p"
  shows "let r = runVerification lib clock c ctx s secs in
    (vr_ok r \<longleftrightarrow> verifyClaim lib clock c ctx s (NowBigint secs) = Inr ()) \<and>
    (\<forall>t \<in> set (vr_steps r). (vs_status t = Pass \<longrightarrow> step_holds lib c p s secs (vs_id t)) \<and>
       (vs_status t = Fail \<longrightarrow> \<not> step_holds lib c p s secs (vs_id t)) \<and>
       (vs_status t = Contract_only \<longleftrightarrow> vs_id t \<in> {S_registry, S_replay_state, S_consume}) \<and>
       (vr_ok r \<longrightarrow> vs_status t \<in> {Pass, Contract_only})) \<and>
    (\<forall>i < 7. vs_status (vr_steps r ! i) = Fail \<longrightarrow> (\<forall>j < i. vs_status (vr_steps r ! j) \<in> {Pass, Contract_only}) \<and>
       (\<forall>j < 7. i < j \<longrightarrow> vs_status (vr_steps r ! j) \<in> {Not_reached, Contract_only})) \<and>
    (vr_failure r \<noteq> None \<longleftrightarrow> (\<exists>t \<in> set (vr_steps r). vs_status t = Fail)) \<and>
    (\<forall>f. vr_failure r = Some f \<longrightarrow> (vf_onChainCode f = None \<longleftrightarrow> vf_code f = InvalidSignature))"
proof -
  have less7: "i < 7 \<longleftrightarrow> i \<in> {0, 1, 2, 3, 4, 5, 6 :: nat}" for i by auto
  note shape = runVerification_def assms(2) Let_def STEPS_def OFF_CHAIN_def step_status_of_def failureOf_def less7 onChainCodes
  show ?thesis
    using assms(1,2)
    by (rule verifyClaim_outcomes [where clock = clock and s = s and secs = secs])
      (auto simp: shape less_Suc_eq numeral_eq_Suc)
qed

text \<open>The rows of an inspection hold every byte of the preimage, in order.\<close>

lemma toHex_append: "toHex (xs @ ys) = toHex xs @ toHex ys"
  by (simp add: toHex_def)

lemma inspection_shows_every_byte:
  assumes "length p = PREIMAGE_LENGTH"
  shows "concat (map fr_hex (in_rows (inspectPreimage lib p opts))) = toHex p"
proof -
  have "concat (map fr_hex (map (raw_row p t) PREIMAGE_LAYOUT)) = toHex (slice_bytes 0 256 p)" for t
    by (simp add: PREIMAGE_LAYOUT_def raw_row_def Let_def slice_append flip: toHex_append)
  moreover have "slice_bytes 0 256 p = p" using assms by (simp add: slice_bytes_def PREIMAGE_LENGTH_def)
  ultimately show ?thesis by (simp add: inspectPreimage_def split: sum.split)
qed

text \<open>
  The inspection is silent exactly when the time is right: of the preimage of a claim, inspected for its own network and
  contract, nothing is warned of exactly when its window is not empty and it has not expired. So what its issuer signed is
  shown without a warning and with every off-chain step passed.
\<close>

theorem inspection_silent_iff:
  assumes "sizes_documented lib" and "encodeClaim lib c ctx = Inr p"
    and "io_expectedPassphrase opts = Some (cx_networkPassphrase ctx)" "cx_networkPassphrase ctx \<noteq> []"
    and "io_expectedContractId opts = Some (cx_contractId ctx)"
  shows "in_warnings (inspectPreimage lib p opts) = [] \<longleftrightarrow>
    cl_issuedAt c < cl_expiresAt c \<and> io_now opts \<le> cl_expiresAt c"
proof -
  obtain w k where w: "claimWireValues c = Inr w" "contractDigest lib (cx_contractId ctx) = Inr k"
    using assms(1,2) by (auto elim: encodeClaim_InrE)
  have wire: "wv_encoding w \<in> {0, 1} \<and> (wv_mode w = 0 \<and> wv_claimId w = zero_bytes 32 \<or> wv_mode w = 1 \<and> wv_nonce w = 0)"
    using w(1) by (auto simp: claimWireValues_def Let_def split: if_splits option.splits js_value.splits)
  have "isZero (zero_bytes 32)" by (simp add: isZero_def zero_bytes_def list_all_iff)
  then show ?thesis
    using wire assms(3,4,5) w(2)
    by (auto simp: inspectPreimage_def decode_encode [OF assms(1,2) w] inspect_warnings_def network_recognised_def
        contract_matches_def truthy_def)
qed

theorem workbench_accepts_signed_claim:
  assumes "sizes_documented lib" "keys_documented lib" "genuine_secret lib secret"
    and "signClaim lib c ctx secret = Inr (p, s)" "cl_issuedAt c < cl_expiresAt c" "is_u64 secs" "secs \<le> cl_expiresAt c"
    and "io_expectedPassphrase opts = Some (cx_networkPassphrase ctx)" "cx_networkPassphrase ctx \<noteq> []"
    and "io_expectedContractId opts = Some (cx_contractId ctx)" "io_now opts = secs"
  shows "vr_ok (runVerification lib clock c ctx s secs) \<and> in_warnings (inspectPreimage lib p opts) = []"
proof -
  have enc: "encodeClaim lib c ctx = Inr p"
    using assms(4) by (auto simp: signClaim_def split: sum.splits if_splits)
  have "toUnixSeconds clock (NowBigint secs) = Inr secs" using assms(6) by (simp add: toUnixSeconds_def)
  then have "verifyClaim lib clock c ctx s (NowBigint secs) = Inr ()"
    using signed_claim_verifies [OF assms(1-5) _ assms(7)] by blast
  then show ?thesis
    using inspection_silent_iff [OF assms(1) enc assms(8,9,10)] assms(5,7,11)
    by (simp add: runVerification_def enc Let_def)
qed

section \<open>Samples\<close>

lemma sample_signs:
  "\<exists>p sg. signClaim sample_base sample_claim sample_context (SecretText [char_of (7 :: nat)]) = Inr (p, sg)"
proof -
  let ?s = "SecretText [char_of (7 :: nat)]"
  have "toKeypair sample_base ?s = Inr (fromRawEd25519Seed sample_base (fit32 [7]))"
    by (simp add: toKeypair_def sample_base_def fromRawEd25519Seed_def utf8_def utf8_char_def)
  moreover have "bytes_every (fit32 (fit32 [7])) (cl_issuer sample_claim)"
    by (simp add: sample_claim_def fit32_def)
  ultimately show ?thesis
    using sample_encodes declared_replay_ok [OF sample_declared]
    by (auto simp: signClaim_def fromRawEd25519Seed_def sample_base_def)
qed

definition sample_inspection :: inspect_options where
  "sample_inspection = \<lparr>io_now = 150, io_expectedPassphrase = Some ''Test'', io_expectedContractId = Some ''C'',
     io_claimTypeNames = []\<rparr>"

theorem report_truthful_witness:
  "\<exists>p. encodeClaim sample_base sample_claim sample_context = Inr p \<and>
     (let r = runVerification sample_base 0 sample_claim sample_context (zero_bytes 64) 150 in
      \<not> vr_ok r \<and> map vs_status (vr_steps r) =
        [Contract_only, Pass, Pass, Pass, Contract_only, Fail, Contract_only])"
proof -
  obtain p where p: "encodeClaim sample_base sample_claim sample_context = Inr p" using sample_encodes by blast
  let ?r = "runVerification sample_base 0 sample_claim sample_context (zero_bytes 64) 150"
  have bad: "\<not> sb_verify sample_base (cl_issuer sample_claim) p (zero_bytes 64)"
  proof
    assume "sb_verify sample_base (cl_issuer sample_claim) p (zero_bytes 64)"
    then have "hd (zero_bytes 64) = hd (fit32 [7])"
      by (simp add: sample_base_def sample_claim_def fit32_def)
    then show False by (simp add: fit32_def zero_bytes_def)
  qed
  have "verifyClaim sample_base 0 sample_claim sample_context (zero_bytes 64) (NowBigint 150) \<noteq> Inr ()"
    using bad p by (auto simp: verifyClaim_decides [OF sample_base_keys])
  then have "\<not> vr_ok ?r"
    using report_truthful [OF sample_base_keys p, of 0 "zero_bytes 64" 150] by (simp add: Let_def)
  moreover have "verifyClaim sample_base 0 sample_claim sample_context (zero_bytes 64) (NowBigint 150) = Inl InvalidSignature"
  proof -
    have "sb_decodePublic sample_base (sb_encodePublic sample_base k) = k" for k by (simp add: sample_base_def)
    moreover have "length (zero_bytes 64) = 64" "is_u64 150" "cl_issuedAt sample_claim = 100" "cl_expiresAt sample_claim = 200"
      by (simp_all add: zero_bytes_def is_u64_def U64_MAX_def sample_claim_def)
    ultimately show ?thesis
      using bad by (simp add: verifyClaim_def toUnixSeconds_def p declared_replay_ok [OF sample_declared] Let_def)
  qed
  then have "map vs_status (vr_steps ?r) = [Contract_only, Pass, Pass, Pass, Contract_only, Fail, Contract_only]"
    by (simp add: runVerification_def p Let_def STEPS_def OFF_CHAIN_def step_status_of_def failureOf_def)
  ultimately show ?thesis using p by (auto simp: Let_def)
qed

theorem inspection_silent_iff_witness:
  "\<exists>p. encodeClaim sample_base sample_claim sample_context = Inr p \<and>
     in_warnings (inspectPreimage sample_base p sample_inspection) = [] \<and>
     in_warnings (inspectPreimage sample_base p (sample_inspection\<lparr>io_now := 201\<rparr>)) \<noteq> []"
proof -
  obtain p where p: "encodeClaim sample_base sample_claim sample_context = Inr p" using sample_encodes by blast
  show ?thesis
    using inspection_silent_iff [OF sample_base_sizes p, of sample_inspection]
      inspection_silent_iff [OF sample_base_sizes p, of "sample_inspection\<lparr>io_now := 201\<rparr>"] p
    by (simp add: sample_inspection_def sample_context_def sample_claim_def)
qed

theorem workbench_accepts_signed_claim_witness:
  "\<exists>p sg. signClaim sample_base sample_claim sample_context (SecretText [char_of (7 :: nat)]) = Inr (p, sg) \<and>
     vr_ok (runVerification sample_base 0 sample_claim sample_context sg 150) \<and>
     in_warnings (inspectPreimage sample_base p sample_inspection) = []"
proof -
  let ?s = "SecretText [char_of (7 :: nat)]"
  obtain p sg where sg: "signClaim sample_base sample_claim sample_context ?s = Inr (p, sg)" using sample_signs by blast
  have "genuine_secret sample_base ?s" by (simp add: genuine_secret_def)
  from workbench_accepts_signed_claim [OF sample_base_sizes sample_base_keys this sg, of 150 sample_inspection 0] sg
  show ?thesis
    by (simp add: sample_claim_def sample_context_def sample_inspection_def is_u64_def U64_MAX_def)
qed

end
