(* ===== verification/LegacyReconcile.thy ===== *)
theory LegacyReconcile
  imports Indexer Reconciler
begin

text \<open>
  The older reconciliation of \<open>src/lib/payments/reconcile.ts\<close>, which compares the database with the live state of the
  contract and which no other module imports. The database, the reader of the chain and the clock are arguments; the
  \<open>detail\<close> of a finding is left out, and its metadata and states are kept.
\<close>

section \<open>Findings\<close>

text \<open>\<open>if (await recordFinding(...)) report.findingsOpened++\<close>\<close>

record reconcile_report =
  rk_escrowsChecked :: nat
  rk_paymentsChecked :: nat
  rk_findingsOpened :: nat
  rk_advancedToPaid :: nat
  rk_flaggedForReview :: nat
  rk_unreadable :: nat

type_synonym legacy_state = "database \<times> reconcile_report"

type_synonym chain_payment_view = chain_payment_facts

record chain_escrow_view =
  cw_onChainId :: int
  cw_managerApproved :: bool
  cw_financeApproved :: bool
  cw_cancelled :: bool
  cw_payments :: "chain_payment_view list"

definition open_problem :: "row_id \<Rightarrow> row_id option \<Rightarrow> finding_kind \<Rightarrow> finding_row \<Rightarrow> bool" where
  "open_problem orgId paymentId k f \<longleftrightarrow>
     fd_orgId f = orgId \<and> fd_paymentId f = paymentId \<and> fd_kind f = k \<and> fd_resolvedAt f = None"

definition recordFinding ::
  "env \<Rightarrow> row_id \<Rightarrow> row_id option \<Rightarrow> finding_kind \<Rightarrow> string option \<Rightarrow> string option \<Rightarrow> json_object \<Rightarrow> database \<Rightarrow>
   database \<times> bool" where
  "recordFinding e orgId paymentId k dbState chainState metadata db =
     (if findFirst (open_problem orgId paymentId k) (findings db) \<noteq> None then (db, False)
      else (openFinding e db orgId paymentId k dbState chainState metadata, True))"

definition opens ::
  "env \<Rightarrow> row_id \<Rightarrow> row_id option \<Rightarrow> finding_kind \<Rightarrow> string option \<Rightarrow> string option \<Rightarrow> json_object \<Rightarrow> legacy_state \<Rightarrow>
   legacy_state" where
  "opens e orgId paymentId k dbState chainState metadata = (\<lambda>(db, r).
     (let (db, opened) = recordFinding e orgId paymentId k dbState chainState metadata db
      in (db, if opened then r\<lparr>rk_findingsOpened := rk_findingsOpened r + 1\<rparr> else r)))"

definition tallied :: "(reconcile_report \<Rightarrow> reconcile_report) \<Rightarrow> legacy_state \<Rightarrow> legacy_state" where
  "tallied f = (\<lambda>(db, r). (db, f r))"

section \<open>One payment\<close>

definition legacy_request ::
  "row_id \<Rightarrow> payment_row \<Rightarrow> payment_state \<Rightarrow> string \<Rightarrow> json_object option \<Rightarrow> transition_request" where
  "legacy_request orgId p target reason metadata =
     \<lparr>rq_paymentId = pm_id p, rq_to = target, rq_actor = RECONCILER, rq_orgId = orgId, rq_reason = Some reason,
      rq_txHash = None, rq_metadata = metadata, rq_settledAt = None\<rparr>"

text \<open>\<open>outcome.ok && outcome.changed\<close>\<close>

definition moved :: "transition_outcome \<Rightarrow> bool" where
  "moved out = (case out of Changed _ _ \<Rightarrow> True | _ \<Rightarrow> False)"

definition legacy_settle :: "env \<Rightarrow> row_id \<Rightarrow> escrow_row \<Rightarrow> payment_row \<Rightarrow> chain_payment_view \<Rightarrow> legacy_state \<Rightarrow> legacy_state" where
  "legacy_settle e orgId x p cp = (\<lambda>(db, r).
     (let (db, out) = transitionPayment e db (legacy_request orgId p PAID
            ''Reconciliation: the chain reports this payment as settled.''
            (Some [(''source'', JStr ''reconciliation''), (''chainStatus'', JNum (cp_status cp)),
               (''escrowOnChainId'', JNum (the (es_onChainId x))), (''paymentIndex'', JNum (cp_index cp))]))
      in if moved out then (db, r\<lparr>rk_advancedToPaid := rk_advancedToPaid r + 1\<rparr>)
         else opens e orgId (Some (pm_id p)) CHAIN_PAID_DB_NOT (Some (payment_state_name (pm_state p)))
                (Some ''FINALIZED'') [] (db, r)))"

definition legacy_flag :: "env \<Rightarrow> transition_request \<Rightarrow> legacy_state \<Rightarrow> legacy_state" where
  "legacy_flag e req = (\<lambda>(db, r).
     (let (db, out) = transitionPayment e db req
      in (db, if moved out then r\<lparr>rk_flaggedForReview := rk_flaggedForReview r + 1\<rparr> else r)))"

definition legacy_slot :: "env \<Rightarrow> row_id \<Rightarrow> escrow_row \<Rightarrow> payment_row \<Rightarrow> chain_payment_view \<Rightarrow> legacy_state \<Rightarrow> legacy_state" where
  "legacy_slot e orgId x p cp st =
     (let chainSettled = (cp_status cp = CHAIN_FINALIZED);
          chainCancelled = (cp_status cp = CHAIN_CANCELLED);
          dbSettled = (pm_state p = PAID);
          st = (if pm_amountBaseUnits p \<noteq> cp_amountBaseUnits cp
                then opens e orgId (Some (pm_id p)) AMOUNT_MISMATCH (Some (show_int (pm_amountBaseUnits p)))
                       (Some (show_int (cp_amountBaseUnits cp))) [] st else st);
          st = (if pm_recipientAddress p \<noteq> cp_worker cp
                then opens e orgId (Some (pm_id p)) RECIPIENT_MISMATCH (Some (pm_recipientAddress p)) (Some (cp_worker cp)) [] st
                else st)
      in if chainSettled \<and> \<not> dbSettled then legacy_settle e orgId x p cp st
         else if dbSettled \<and> \<not> chainSettled
         then legacy_flag e (legacy_request orgId p RECONCILIATION_REQUIRED
                ''Reconciliation: recorded as PAID but the chain disagrees.'' (Some [(''chainStatus'', JNum (cp_status cp))]))
                (opens e orgId (Some (pm_id p)) DB_PAID_CHAIN_NOT (Some ''PAID'') (Some (show_int (cp_status cp))) [] st)
         else if chainCancelled \<and> pm_state p \<noteq> CANCELLED \<and> \<not> dbSettled
         then legacy_flag e (legacy_request orgId p CANCELLED ''Reconciliation: the escrow was cancelled on-chain.'' None) st
         else st)"

text \<open>\<open>byIndex\<close>: a later slot with the same index replaces an earlier one.\<close>

definition view_slot :: "chain_escrow_view \<Rightarrow> payment_row \<Rightarrow> chain_payment_view option" where
  "view_slot chain p =
     (case pm_onChainPaymentIndex p of
        None \<Rightarrow> None | Some i \<Rightarrow> List.find (\<lambda>cp. cp_index cp = i) (rev (cw_payments chain)))"

definition legacy_payment :: "env \<Rightarrow> row_id \<Rightarrow> escrow_row \<Rightarrow> chain_escrow_view \<Rightarrow> payment_row \<Rightarrow> legacy_state \<Rightarrow> legacy_state" where
  "legacy_payment e orgId x chain p st =
     (let st = tallied (\<lambda>r. r\<lparr>rk_paymentsChecked := rk_paymentsChecked r + 1\<rparr>) st in
      case view_slot chain p of
        None \<Rightarrow> opens e orgId (Some (pm_id p)) MISSING_ON_CHAIN (Some (payment_state_name (pm_state p))) None [] st
      | Some cp \<Rightarrow> legacy_slot e orgId x p cp st)"

section \<open>An organization\<close>

definition legacy_orphan :: "env \<Rightarrow> row_id \<Rightarrow> escrow_row \<Rightarrow> payment_row list \<Rightarrow> chain_payment_view \<Rightarrow> legacy_state \<Rightarrow> legacy_state" where
  "legacy_orphan e orgId x rows cp st =
     (if list_ex (\<lambda>p. pm_onChainPaymentIndex p = Some (cp_index cp)) rows then st
      else opens e orgId None ORPHAN_ON_CHAIN None (Some (show_int (cp_status cp)))
             [(''escrowId'', JStr (es_id x)), (''paymentIndex'', JNum (cp_index cp)), (''worker'', JStr (cp_worker cp)),
              (''amountBaseUnits'', JStr (show_int (cp_amountBaseUnits cp)))] st)"

definition legacy_escrow ::
  "env \<Rightarrow> (int \<Rightarrow> chain_escrow_view option) \<Rightarrow> row_id \<Rightarrow> escrow_row \<times> payment_row list \<Rightarrow> legacy_state \<Rightarrow> legacy_state" where
  "legacy_escrow e fetchChainEscrow orgId = (\<lambda>(x, rows) st.
     (let st = tallied (\<lambda>r. r\<lparr>rk_escrowsChecked := rk_escrowsChecked r + 1\<rparr>) st in
      case fetchChainEscrow (the (es_onChainId x)) of
        None \<Rightarrow>
          opens e orgId None MISSING_ON_CHAIN (Some (show_nat (length rows) @ '' payment(s)'')) (Some ''unreadable'')
            [(''escrowId'', JStr (es_id x)), (''onChainId'', JNum (the (es_onChainId x)))]
            (tallied (\<lambda>r. r\<lparr>rk_unreadable := rk_unreadable r + 1\<rparr>) st)
      | Some chain \<Rightarrow>
          fold (legacy_payment e orgId x chain) rows (fold (legacy_orphan e orgId x rows) (cw_payments chain) st)))"

record legacy_options =
  lo_contractId :: "string option"
  lo_network :: "string option"
  lo_limit :: "nat option"

definition legacy_work :: "database \<Rightarrow> row_id \<Rightarrow> legacy_options \<Rightarrow> (escrow_row \<times> payment_row list) list" where
  "legacy_work db orgId opts =
     map (\<lambda>x. (x, js_sort index_order (filter (\<lambda>p. pm_escrowId p = Some (es_id x)) (payments db))))
       (take (case lo_limit opts of None \<Rightarrow> 200 | Some n \<Rightarrow> n)
         (filter (\<lambda>x. es_orgId x = orgId \<and> es_onChainId x \<noteq> None \<and>
            (truthy (lo_contractId opts) \<longrightarrow> lo_contractId opts = Some (es_contractId x)) \<and>
            (truthy (lo_network opts) \<longrightarrow> lo_network opts = Some (es_network x))) (escrows db)))"

definition empty_report :: reconcile_report where
  "empty_report = \<lparr>rk_escrowsChecked = 0, rk_paymentsChecked = 0, rk_findingsOpened = 0, rk_advancedToPaid = 0,
     rk_flaggedForReview = 0, rk_unreadable = 0\<rparr>"

definition legacyReconcile ::
  "env \<Rightarrow> (int \<Rightarrow> chain_escrow_view option) \<Rightarrow> row_id \<Rightarrow> legacy_options \<Rightarrow> database \<Rightarrow> legacy_state" where
  "legacyReconcile e fetchChainEscrow orgId opts db =
     fold (legacy_escrow e fetchChainEscrow orgId) (legacy_work db orgId opts) (db, empty_report)"

section \<open>Failed transactions\<close>

text \<open>\<open>None\<close> is a hash that could not be read.\<close>

definition legacy_failed :: "env \<Rightarrow> (string \<Rightarrow> bool option) \<Rightarrow> row_id \<Rightarrow> transaction_row \<Rightarrow> database \<times> nat \<Rightarrow> database \<times> nat" where
  "legacy_failed e fetchTxSucceeded orgId tx = (\<lambda>(db, n).
     (case fetchTxSucceeded (the (tx_hash tx)) of
        Some True \<Rightarrow>
          (let (db, _) = recordFinding e orgId (tx_paymentId tx) FAILED_TX_ACTUALLY_SUCCEEDED (Some ''FAILED'') (Some ''SUCCESS'')
                 [(''transactionId'', JStr (tx_id tx)), (''hash'', JStr (the (tx_hash tx)))] db
           in (db\<lparr>transactions := updated (\<lambda>t. tx_id t = tx_id tx) confirmed_after_all (transactions db)\<rparr>, n + 1))
      | _ \<Rightarrow> (db, n)))"

definition legacyFailedTransactions :: "env \<Rightarrow> (string \<Rightarrow> bool option) \<Rightarrow> row_id \<Rightarrow> database \<Rightarrow> database \<times> nat \<times> nat" where
  "legacyFailedTransactions e fetchTxSucceeded orgId db =
     (let failed = failed_transactions db orgId;
          (db', falselyFailed) = fold (legacy_failed e fetchTxSucceeded orgId) failed (db, 0)
      in (db', length failed, falselyFailed))"

section \<open>A run as steps\<close>

text \<open>The status the contract gives to the payment with a key.\<close>

definition chain_says ::
  "(int \<Rightarrow> chain_escrow_view option) \<Rightarrow> (escrow_row \<times> payment_row list) list \<Rightarrow> int \<Rightarrow> row_id \<Rightarrow> bool" where
  "chain_says fetch work status i \<longleftrightarrow>
     (\<exists>x rows p chain cp. (x, rows) \<in> set work \<and> p \<in> set rows \<and> pm_id p = i \<and>
        fetch (the (es_onChainId x)) = Some chain \<and> view_slot chain p = Some cp \<and> cp_status cp = status)"

definition legacy_licensed ::
  "(int \<Rightarrow> chain_escrow_view option) \<Rightarrow> (escrow_row \<times> payment_row list) list \<Rightarrow> row_id \<Rightarrow> transition_request \<Rightarrow> bool" where
  "legacy_licensed fetch work orgId req \<longleftrightarrow> rq_orgId req = orgId \<and> rq_actor req = RECONCILER \<and>
     (rq_to req = PAID \<and> chain_says fetch work CHAIN_FINALIZED (rq_paymentId req) \<or>
      rq_to req = CANCELLED \<and> chain_says fetch work CHAIN_CANCELLED (rq_paymentId req) \<or>
      rq_to req = RECONCILIATION_REQUIRED \<and>
        (\<exists>p. p \<in> \<Union> (set ` snd ` set work) \<and> pm_id p = rq_paymentId req \<and> pm_state p = PAID))"

inductive legacy_step ::
  "env \<Rightarrow> (int \<Rightarrow> chain_escrow_view option) \<Rightarrow> (escrow_row \<times> payment_row list) list \<Rightarrow> row_id \<Rightarrow> database \<Rightarrow> database \<Rightarrow> bool"
  for e fetch work orgId where
  finds: "recordFinding e orgId i k d c m db = (db', opened) \<Longrightarrow> legacy_step e fetch work orgId db db'"
| moves: "legacy_licensed fetch work orgId req \<Longrightarrow> transitionPayment e db req = (db', out) \<Longrightarrow>
    legacy_step e fetch work orgId db db'"

abbreviation legacy_steps ::
  "env \<Rightarrow> (int \<Rightarrow> chain_escrow_view option) \<Rightarrow> (escrow_row \<times> payment_row list) list \<Rightarrow> row_id \<Rightarrow> database \<Rightarrow> database \<Rightarrow> bool" where
  "legacy_steps e fetch work orgId \<equiv> (legacy_step e fetch work orgId)\<^sup>*\<^sup>*"

lemma tallied_steps [simp]: "fst (tallied f st) = fst st"
  by (simp add: tallied_def split: prod.split)

lemma opens_steps: "legacy_steps e fetch work orgId (fst st) (fst (opens e orgId i k d c m st))"
proof -
  obtain db r where st: "st = (db, r)" by fastforce
  obtain db' b where run: "recordFinding e orgId i k d c m db = (db', b)" by fastforce
  then have "legacy_step e fetch work orgId db db'" by (rule finds)
  then show ?thesis by (auto simp: opens_def st run)
qed

lemma flag_steps:
  "legacy_licensed fetch work orgId req \<Longrightarrow> legacy_steps e fetch work orgId (fst st) (fst (legacy_flag e req st))"
proof -
  assume ok: "legacy_licensed fetch work orgId req"
  obtain db r where st: "st = (db, r)" by fastforce
  obtain db' out where run: "transitionPayment e db req = (db', out)" by fastforce
  with ok have "legacy_step e fetch work orgId db db'" by (rule moves)
  then show ?thesis by (auto simp: legacy_flag_def st run)
qed

lemma settle_steps:
  assumes "chain_says fetch work CHAIN_FINALIZED (pm_id p)"
  shows "legacy_steps e fetch work orgId (fst st) (fst (legacy_settle e orgId x p cp st))"
proof -
  obtain db r where st: "st = (db, r)" by fastforce
  define req where "req = legacy_request orgId p PAID ''Reconciliation: the chain reports this payment as settled.''
      (Some [(''source'', JStr ''reconciliation''), (''chainStatus'', JNum (cp_status cp)),
         (''escrowOnChainId'', JNum (the (es_onChainId x))), (''paymentIndex'', JNum (cp_index cp))])"
  obtain db' out where run: "transitionPayment e db req = (db', out)" by fastforce
  have "legacy_licensed fetch work orgId req"
    using assms by (simp add: legacy_licensed_def req_def legacy_request_def)
  then have one: "legacy_steps e fetch work orgId db db'" using run by (blast intro: r_into_rtranclp moves)
  have "fst (legacy_settle e orgId x p cp st) = db' \<or>
      fst (legacy_settle e orgId x p cp st) = fst (opens e orgId (Some (pm_id p)) CHAIN_PAID_DB_NOT
        (Some (payment_state_name (pm_state p))) (Some ''FINALIZED'') [] (db', r))"
    by (simp add: st legacy_settle_def req_def [symmetric] run)
  then show ?thesis
    using one rtranclp_trans [OF one opens_steps [of e fetch work orgId "(db', r)", simplified]] by (auto simp: st)
qed

lemma slot_steps:
  assumes "(x, rows) \<in> set work" "p \<in> set rows" "fetch (the (es_onChainId x)) = Some chain" "view_slot chain p = Some cp"
  shows "legacy_steps e fetch work orgId (fst st) (fst (legacy_slot e orgId x p cp st))"
proof -
  have says: "chain_says fetch work (cp_status cp) (pm_id p)"
    unfolding chain_says_def using assms by blast
  have paid: "\<exists>q. q \<in> \<Union> (set ` snd ` set work) \<and> pm_id q = pm_id p \<and> pm_state q = PAID" if "pm_state p = PAID"
    using assms(1,2) that by force
  define st1 where "st1 = (if pm_amountBaseUnits p \<noteq> cp_amountBaseUnits cp
      then opens e orgId (Some (pm_id p)) AMOUNT_MISMATCH (Some (show_int (pm_amountBaseUnits p)))
             (Some (show_int (cp_amountBaseUnits cp))) [] st else st)"
  define st2 where "st2 = (if pm_recipientAddress p \<noteq> cp_worker cp
      then opens e orgId (Some (pm_id p)) RECIPIENT_MISMATCH (Some (pm_recipientAddress p)) (Some (cp_worker cp)) [] st1 else st1)"
  have "legacy_steps e fetch work orgId (fst st) (fst st1)" "legacy_steps e fetch work orgId (fst st1) (fst st2)"
    unfolding st1_def st2_def using opens_steps by simp_all
  then have pre: "legacy_steps e fetch work orgId (fst st) (fst st2)" by (rule rtranclp_trans)
  have "legacy_steps e fetch work orgId (fst st2) (fst (legacy_slot e orgId x p cp st))"
  proof -
    let ?flag = "legacy_request orgId p RECONCILIATION_REQUIRED
        ''Reconciliation: recorded as PAID but the chain disagrees.'' (Some [(''chainStatus'', JNum (cp_status cp))])"
    let ?cancel = "legacy_request orgId p CANCELLED ''Reconciliation: the escrow was cancelled on-chain.'' None"
    have slot: "legacy_slot e orgId x p cp st =
        (if cp_status cp = CHAIN_FINALIZED \<and> pm_state p \<noteq> PAID then legacy_settle e orgId x p cp st2
         else if pm_state p = PAID \<and> cp_status cp \<noteq> CHAIN_FINALIZED
         then legacy_flag e ?flag
           (opens e orgId (Some (pm_id p)) DB_PAID_CHAIN_NOT (Some ''PAID'') (Some (show_int (cp_status cp))) [] st2)
         else if cp_status cp = CHAIN_CANCELLED \<and> pm_state p \<noteq> CANCELLED \<and> pm_state p \<noteq> PAID
         then legacy_flag e ?cancel st2 else st2)"
      unfolding legacy_slot_def Let_def st1_def st2_def ..
    have "legacy_licensed fetch work orgId ?flag" if "pm_state p = PAID"
      using paid [OF that] by (simp add: legacy_licensed_def legacy_request_def)
    moreover have "legacy_licensed fetch work orgId ?cancel" if "cp_status cp = CHAIN_CANCELLED"
      using says that by (simp add: legacy_licensed_def legacy_request_def)
    moreover have "legacy_steps e fetch work orgId (fst st2) (fst (legacy_settle e orgId x p cp st2))"
      if "cp_status cp = CHAIN_FINALIZED" using settle_steps says that by simp
    ultimately show ?thesis
      unfolding slot by (simp add: flag_steps rtranclp_trans [OF opens_steps flag_steps])
  qed
  with pre show ?thesis by (rule rtranclp_trans)
qed

lemma payment_steps:
  assumes "(x, rows) \<in> set work" "p \<in> set rows" "fetch (the (es_onChainId x)) = Some chain"
  shows "legacy_steps e fetch work orgId (fst st) (fst (legacy_payment e orgId x chain p st))"
proof -
  let ?st = "tallied (\<lambda>r. r\<lparr>rk_paymentsChecked := rk_paymentsChecked r + 1\<rparr>) st"
  have "legacy_steps e fetch work orgId (fst ?st) (fst (legacy_payment e orgId x chain p st))"
  proof (cases "view_slot chain p")
    case None
    show ?thesis unfolding legacy_payment_def Let_def None option.case by (rule opens_steps)
  next
    case (Some cp)
    show ?thesis
      unfolding legacy_payment_def Let_def Some option.case
      by (rule slot_steps [OF assms(1,2)]) (rule assms(3), rule Some)
  qed
  then show ?thesis by simp
qed

lemma fold_steps:
  assumes "\<And>y st. y \<in> set ys \<Longrightarrow> legacy_steps e fetch work orgId (fst st) (fst (f y st))"
  shows "legacy_steps e fetch work orgId (fst st) (fst (fold f ys st))"
  using assms
proof (induction ys arbitrary: st)
  case (Cons y ys)
  have "legacy_steps e fetch work orgId (fst st) (fst (f y st))" by (rule Cons.prems) simp
  moreover have "legacy_steps e fetch work orgId (fst (f y st)) (fst (fold f ys (f y st)))"
    by (rule Cons.IH) (simp add: Cons.prems)
  ultimately show ?case by simp
qed simp

lemma escrow_steps:
  assumes "(x, rows) \<in> set work"
  shows "legacy_steps e fetch work orgId (fst st) (fst (legacy_escrow e fetch orgId (x, rows) st))"
proof (cases "fetch (the (es_onChainId x))")
  case None
  then show ?thesis using opens_steps [of e fetch work orgId "tallied _ (tallied _ st)"] by (simp add: legacy_escrow_def Let_def)
next
  case fetched: (Some chain)
  have pay: "legacy_steps e fetch work orgId (fst st') (fst (legacy_payment e orgId x chain p st'))" if "p \<in> set rows" for p st'
    by (rule payment_steps [OF assms that]) (rule fetched)
  have orphan: "legacy_steps e fetch work orgId (fst st') (fst (legacy_orphan e orgId x rows cp st'))" for cp st'
    using opens_steps by (simp add: legacy_orphan_def)
  show ?thesis
    using rtranclp_trans [OF fold_steps [where f = "legacy_orphan e orgId x rows" and ys = "cw_payments chain", OF orphan]
        fold_steps [where f = "legacy_payment e orgId x chain" and ys = rows, OF pay], of "tallied _ st"]
    by (simp add: legacy_escrow_def Let_def fetched)
qed

lemma run_steps:
  "legacy_steps e fetch (legacy_work db orgId opts) orgId db (fst (legacyReconcile e fetch orgId opts db))"
  using fold_steps [of "legacy_work db orgId opts" e fetch "legacy_work db orgId opts" orgId "legacy_escrow e fetch orgId"
      "(db, empty_report)"]
  by (auto simp: legacyReconcile_def intro: escrow_steps)

section \<open>What a run does\<close>

definition legacy_change ::
  "env \<Rightarrow> (int \<Rightarrow> chain_escrow_view option) \<Rightarrow> (escrow_row \<times> payment_row list) list \<Rightarrow> row_id \<Rightarrow> payment_row \<Rightarrow> payment_row \<Rightarrow> bool" where
  "legacy_change e fetch work orgId p q \<longleftrightarrow> q = p \<or>
     pm_orgId p = orgId \<and> (\<exists>req. rq_paymentId req = pm_id p \<and> q = set_state e req p \<and>
       allowed (pm_state p) (rq_to req) RECONCILER \<and>
       (rq_to req = PAID \<and> chain_says fetch work CHAIN_FINALIZED (pm_id p) \<or>
        rq_to req = CANCELLED \<and> chain_says fetch work CHAIN_CANCELLED (pm_id p)))"

lemma set_state_terms [simp]:
  "pm_rateBaseUnits (set_state e req p) = pm_rateBaseUnits p" "pm_hours (set_state e req p) = pm_hours p"
  "pm_assetContractId (set_state e req p) = pm_assetContractId p"
  by (simp_all add: set_state_def Let_def)

lemma legacy_change_identity:
  "legacy_change e fetch work orgId p q \<Longrightarrow> pm_id q = pm_id p \<and> pm_orgId q = pm_orgId p"
  by (auto simp: legacy_change_def)

lemma legacy_change_terminal:
  "legacy_change e fetch work orgId p q \<Longrightarrow> isTerminal (pm_state p) \<Longrightarrow> q = p"
  using payments.terminal_refuses by (auto simp: legacy_change_def)

lemma legacy_change_moved: "legacy_change e fetch work orgId p q \<Longrightarrow> \<not> isTerminal (pm_state q) \<Longrightarrow> q = p"
  by (auto simp: legacy_change_def isTerminal_def TERMINAL_STATES_def)

lemma recordFinding_keeps:
  assumes "recordFinding e orgId i k d c m db = (db', opened)"
  shows "payments db' = payments db" "set (findings db) \<subseteq> set (findings db')"
  using assms by (auto simp: recordFinding_def openFinding_def split: if_splits)

text \<open>Every step keeps the relation to the payments before the run, whose keys are distinct.\<close>

lemma legacy_change_step:
  assumes "list_all2 (legacy_change e fetch work orgId) ps (payments db)" and "distinct (map pm_id ps)"
    and "\<Union> (set ` snd ` set work) \<subseteq> set ps" and "legacy_step e fetch work orgId db db'"
  shows "list_all2 (legacy_change e fetch work orgId) ps (payments db')"
  using assms(4)
proof cases
  case finds
  then show ?thesis using assms(1) recordFinding_keeps by simp
next
  case (moves req out)
  show ?thesis
  proof (cases "\<exists>f t. out = Changed f t")
    case True
    then obtain f t where run: "applyTransition e db req = (db', Changed f t)"
      using moves(2) by (auto simp: transitionPayment_def)
    obtain p tr where read: "applyTransition_read db req = Inr (p, tr)"
      and commit: "applyTransition_commit e db req p = (db', Changed f t)"
      using run by (rule applyTransition_Changed)
    have rows: "payments db' = updated (\<lambda>q. pm_id q = pm_id p \<and> pm_orgId q = rq_orgId req \<and>
        pm_state q = f) (set_state e req) (payments db)" and f: "f = pm_state p"
      using commit_changed [OF commit] by blast+
    have lic: "legacy_licensed fetch work orgId req" by (rule moves(1))
    have ok: "pm_id p = rq_paymentId req" "allowed f (rq_to req) RECONCILER" "rq_orgId req = orgId"
      using read_Inr [OF read] f lic by (auto simp: legacy_licensed_def)
    have busy: "\<not> isTerminal f" using ok(2) payments.terminal_refuses by blast
    have each: "legacy_change e fetch work orgId a (if pm_id q = pm_id p \<and> pm_orgId q = rq_orgId req \<and> pm_state q = f
        then set_state e req q else q)" if a: "a \<in> set ps" and s: "legacy_change e fetch work orgId a q" for a q
    proof (cases "pm_id q = pm_id p \<and> pm_orgId q = rq_orgId req \<and> pm_state q = f")
      case True
      then have same: "q = a" using legacy_change_moved [OF s] busy by auto
      have "rq_to req \<noteq> RECONCILIATION_REQUIRED"
      proof
        assume "rq_to req = RECONCILIATION_REQUIRED"
        then obtain b where b: "b \<in> set ps" "pm_id b = pm_id a" "pm_state b = PAID"
          using lic assms(3) True ok(1) same by (auto simp: legacy_licensed_def)
        then have "a = b" using assms(2) a by (auto simp: distinct_map dest: inj_onD)
        then show False using b(3) busy True same by (auto simp: isTerminal_def TERMINAL_STATES_def)
      qed
      then show ?thesis
        using True same ok lic by (auto simp: legacy_change_def legacy_licensed_def)
    next
      case False
      show ?thesis using s by (simp only: if_not_P [OF False])
    qed
    have "list_all2 (legacy_change e fetch work orgId) ps (map (\<lambda>q. if pm_id q = pm_id p \<and> pm_orgId q = rq_orgId req \<and>
        pm_state q = f then set_state e req q else q) (payments db))"
      unfolding list_all2_map2 by (rule list.rel_mono_strong [OF assms(1)]) (use each in blast)
    then show ?thesis by (simp add: rows updated_eq)
  next
    case False
    then show ?thesis using applyTransition_other [of e db req db' out] moves(2) assms(1) by (simp add: transitionPayment_def)
  qed
qed

lemma legacy_work_rows: "\<Union> (set ` snd ` set (legacy_work db orgId opts)) \<subseteq> set (payments db)"
  by (auto simp: legacy_work_def)

lemma legacy_change_run:
  assumes "distinct (map pm_id (payments db))"
  shows "list_all2 (legacy_change e fetch (legacy_work db orgId opts) orgId) (payments db)
    (payments (fst (legacyReconcile e fetch orgId opts db)))"
  using run_steps [of e fetch db orgId opts]
proof (induction rule: rtranclp_induct)
  case base
  show ?case by (simp add: list_all2_same legacy_change_def)
next
  case (step db1 db2)
  show ?case by (rule legacy_change_step [OF step.IH assms legacy_work_rows step.hyps(2)])
qed

text \<open>
  The older reconciliation changes no payment but those of its organization that the contract reports as finalized or
  cancelled, each at most once and by a move the table allows it; their money and payees stay, a payment in a
  terminal state stays as it is, and so does every payment the contract says nothing final about.
\<close>

theorem legacy_moves_on_contract_state:
  assumes "distinct (map pm_id (payments db))" and "legacyReconcile e fetch orgId opts db = (db', r)"
  shows "list_all2 (\<lambda>p q. q = p \<or> pm_orgId p = orgId \<and> \<not> isTerminal (pm_state p) \<and> allowed (pm_state p) (pm_state q) RECONCILER \<and>
      (pm_state q = PAID \<and> chain_says fetch (legacy_work db orgId opts) CHAIN_FINALIZED (pm_id p) \<or>
       pm_state q = CANCELLED \<and> chain_says fetch (legacy_work db orgId opts) CHAIN_CANCELLED (pm_id p)) \<and>
      (pm_id q, pm_recipientAddress q, pm_amountBaseUnits q, pm_rateBaseUnits q, pm_hours q, pm_assetContractId q) =
      (pm_id p, pm_recipientAddress p, pm_amountBaseUnits p, pm_rateBaseUnits p, pm_hours p, pm_assetContractId p))
    (payments db) (payments db')"
proof -
  have "list_all2 (legacy_change e fetch (legacy_work db orgId opts) orgId) (payments db) (payments db')"
    using legacy_change_run [OF assms(1), of e fetch orgId opts] assms(2) by simp
  then show ?thesis
  proof (rule list_all2_mono)
    fix p q assume "legacy_change e fetch (legacy_work db orgId opts) orgId p q"
    then show "q = p \<or> pm_orgId p = orgId \<and> \<not> isTerminal (pm_state p) \<and> allowed (pm_state p) (pm_state q) RECONCILER \<and>
      (pm_state q = PAID \<and> chain_says fetch (legacy_work db orgId opts) CHAIN_FINALIZED (pm_id p) \<or>
       pm_state q = CANCELLED \<and> chain_says fetch (legacy_work db orgId opts) CHAIN_CANCELLED (pm_id p)) \<and>
      (pm_id q, pm_recipientAddress q, pm_amountBaseUnits q, pm_rateBaseUnits q, pm_hours q, pm_assetContractId q) =
      (pm_id p, pm_recipientAddress p, pm_amountBaseUnits p, pm_rateBaseUnits p, pm_hours p, pm_assetContractId p)"
      using payments.terminal_refuses by (auto simp: legacy_change_def)
  qed
qed

section \<open>Findings of a run\<close>

lemma steps_keep_findings:
  "legacy_steps e fetch work orgId db db' \<Longrightarrow> set (findings db) \<subseteq> set (findings db')"
proof (induction rule: rtranclp_induct)
  case (step db1 db2)
  from step.hyps(2) have "set (findings db1) \<subseteq> set (findings db2)"
  proof cases
    case (moves req out)
    then show ?thesis using applyTransition_keeps(10) [of e db1 req db2 out] by (simp add: transitionPayment_def)
  qed (rule recordFinding_keeps(2))
  with step.IH show ?case by blast
qed simp

lemma opens_records: "\<exists>f \<in> set (findings (fst (opens e orgId i k d c m st))). open_problem orgId i k f"
proof -
  obtain db r where st: "st = (db, r)" by fastforce
  show ?thesis
  proof (cases "findFirst (open_problem orgId i k) (findings db)")
    case None
    then show ?thesis
      by (simp add: opens_def st recordFinding_def openFinding_def) (simp add: open_problem_def)
  next
    case (Some f)
    then show ?thesis using findFirst_SomeD [OF Some] by (auto simp: opens_def st recordFinding_def)
  qed
qed

lemma fold_reaches:
  assumes "y \<in> set ys" and "\<And>st. Q (f y st)" and "\<And>z st. z \<in> set ys \<Longrightarrow> Q st \<Longrightarrow> Q (f z st)"
  shows "Q (fold f ys st)"
  using assms(1,3)
proof (induction ys arbitrary: st)
  case (Cons z zs)
  have keep: "Q (fold f us st')" if "Q st'" "set us \<subseteq> set (z # zs)" for us st'
    using that by (induction us arbitrary: st') (simp_all add: Cons.prems(2))
  show ?case
  proof (cases "y = z")
    case True
    then show ?thesis using keep [OF assms(2), of zs] by auto
  next
    case False
    then show ?thesis using Cons by simp
  qed
qed simp

text \<open>
  A payment recorded as paid that the contract does not report as settled is reported, and stays paid. The comment at the head of the
  file and the text of the finding say that it has been moved to \<open>RECONCILIATION_REQUIRED\<close>, which the table refuses.
\<close>

theorem paid_claim_reported_not_moved:
  assumes "distinct (map pm_id (payments db))" and "legacyReconcile e fetch orgId opts db = (db', r)"
    and "(x, rows) \<in> set (legacy_work db orgId opts)" "p \<in> set rows" "pm_state p = PAID"
    and "fetch (the (es_onChainId x)) = Some chain" "view_slot chain p = Some cp" "cp_status cp \<noteq> CHAIN_FINALIZED"
  shows "p \<in> set (payments db') \<and> (\<exists>f \<in> set (findings db'). open_problem orgId (Some (pm_id p)) DB_PAID_CHAIN_NOT f)"
proof
  let ?work = "legacy_work db orgId opts"
  have p: "p \<in> set (payments db)" using assms(3,4) legacy_work_rows by fastforce
  have change: "list_all2 (legacy_change e fetch ?work orgId) (payments db) (payments db')"
    using legacy_change_run [OF assms(1), of e fetch orgId opts] assms(2) by simp
  obtain i where i: "i < length (payments db)" "payments db ! i = p" using p by (auto simp: in_set_conv_nth)
  then have "legacy_change e fetch ?work orgId p (payments db' ! i)" "i < length (payments db')"
    using change by (auto simp: list_all2_conv_all_nth)
  then show "p \<in> set (payments db')"
    using legacy_change_terminal [of e fetch ?work orgId p "payments db' ! i"] assms(5)
    by (auto simp: isTerminal_def TERMINAL_STATES_def)
  define Q where "Q = (\<lambda>st :: legacy_state. \<exists>f \<in> set (findings (fst st)). open_problem orgId (Some (pm_id p)) DB_PAID_CHAIN_NOT f)"
  have stable: "Q st'" if "legacy_steps e fetch ?work orgId (fst st) (fst st')" "Q st" for st st'
    using steps_keep_findings [OF that(1)] that(2) by (auto simp: Q_def)
  have slot: "Q (legacy_payment e orgId x chain p st)" for st
  proof -
    define st1 where "st1 = tallied (\<lambda>r. r\<lparr>rk_paymentsChecked := rk_paymentsChecked r + 1\<rparr>) st"
    define req where "req = legacy_request orgId p RECONCILIATION_REQUIRED
        ''Reconciliation: recorded as PAID but the chain disagrees.'' (Some [(''chainStatus'', JNum (cp_status cp))])"
    obtain st2 where "legacy_slot e orgId x p cp st1 = legacy_flag e req
        (opens e orgId (Some (pm_id p)) DB_PAID_CHAIN_NOT (Some ''PAID'') (Some (show_int (cp_status cp))) [] st2)"
      by (simp add: legacy_slot_def Let_def assms(5,8) req_def [symmetric])
    moreover have "legacy_licensed fetch ?work orgId req"
      using assms(3,4,5) by (force simp: legacy_licensed_def req_def legacy_request_def)
    ultimately have "Q (legacy_slot e orgId x p cp st1)"
      using stable [OF flag_steps] opens_records by (simp add: Q_def)
    then show ?thesis unfolding legacy_payment_def Let_def assms(7) option.case st1_def .
  qed
  have escrow: "Q (legacy_escrow e fetch orgId (x, rows) st)" for st
  proof -
    have keep: "Q (legacy_payment e orgId x chain q st')" if "q \<in> set rows" "Q st'" for q st'
      using stable [OF payment_steps [where fetch = fetch and chain = chain, OF assms(3) that(1) assms(6)] that(2)] .
    show ?thesis
      by (simp add: legacy_escrow_def Let_def assms(6)) (rule fold_reaches [where y = p and ys = rows and Q = Q and f = "legacy_payment e orgId x chain", OF assms(4) slot keep])
  qed
  have "Q (fold (legacy_escrow e fetch orgId) ?work (db, empty_report))"
  proof (rule fold_reaches [where y = "(x, rows)" and ys = ?work and Q = Q and f = "legacy_escrow e fetch orgId", OF assms(3) escrow])
    fix z st assume "z \<in> set ?work" "Q st"
    obtain y ys where z: "z = (y, ys)" by fastforce
    then have "(y, ys) \<in> set ?work" using \<open>z \<in> set ?work\<close> by simp
    then show "Q (legacy_escrow e fetch orgId z st)" unfolding z using \<open>Q st\<close> by (rule stable [OF escrow_steps])
  qed
  then show "\<exists>f \<in> set (findings db'). open_problem orgId (Some (pm_id p)) DB_PAID_CHAIN_NOT f"
    using assms(2) by (simp add: Q_def legacyReconcile_def)
qed

text \<open>One problem of an organization has one open finding, however often the reconciliation runs.\<close>

definition open_problems :: "row_id \<Rightarrow> database \<Rightarrow> (row_id option \<times> finding_kind) list" where
  "open_problems orgId db =
     map (\<lambda>f. (fd_paymentId f, fd_kind f)) (filter (\<lambda>f. fd_orgId f = orgId \<and> fd_resolvedAt f = None) (findings db))"

lemma open_problems_iff: "(i, k) \<in> set (open_problems orgId db) \<longleftrightarrow> (\<exists>f \<in> set (findings db). open_problem orgId i k f)"
  by (auto simp: open_problems_def open_problem_def)

lemma open_problems_step:
  assumes "legacy_step e fetch work orgId db db'" and "distinct (open_problems orgId db)"
  shows "distinct (open_problems orgId db')"
  using assms(1)
proof cases
  case (finds i k d c m opened)
  show ?thesis
  proof (cases "findFirst (open_problem orgId i k) (findings db)")
    case None
    then have "(i, k) \<notin> set (open_problems orgId db)" by (auto simp: open_problems_iff)
    moreover have "open_problems orgId db' = open_problems orgId db @ [(i, k)]"
      using finds None by (auto simp: recordFinding_def openFinding_def open_problems_def simp del: findFirst_None_iff)
    ultimately show ?thesis using assms(2) by simp
  next
    case (Some f)
    then show ?thesis using finds assms(2) by (auto simp: recordFinding_def)
  qed
next
  case (moves req out)
  then have "findings db' = findings db"
    using applyTransition_keeps(10) [of e db req db' out] by (simp add: transitionPayment_def)
  then show ?thesis using assms(2) by (simp add: open_problems_def)
qed

theorem legacy_problems_open_once:
  assumes "distinct (open_problems orgId db)" and "legacyReconcile e fetch orgId opts db = (db', r)"
  shows "distinct (open_problems orgId db')"
proof -
  have "distinct (open_problems orgId (fst (legacyReconcile e fetch orgId opts db)))"
    using run_steps [of e fetch db orgId opts]
  proof (induction rule: rtranclp_induct)
    case (step db1 db2)
    show ?case by (rule open_problems_step [OF step.hyps(2) step.IH])
  qed (rule assms(1))
  then show ?thesis using assms(2) by simp
qed

text \<open>
  A second unreadable escrow is not recorded. The finding of an escrow that cannot be read names no payment, and an open
  finding of that kind without a payment stops every other one, so of any number of unreadable escrows of an
  organization only the first has a finding, and only its key is stored.
\<close>

theorem only_first_unreadable_recorded:
  assumes "legacy_work db orgId opts = (x, rows) # rest" and "\<forall>w \<in> set (legacy_work db orgId opts). fetch (the (es_onChainId (fst w))) = None"
    and "(None, MISSING_ON_CHAIN) \<notin> set (open_problems orgId db)"
    and "legacyReconcile e fetch orgId opts db = (db', r)"
  shows "rk_unreadable r = Suc (length rest) \<and> rk_findingsOpened r = 1 \<and>
    (\<exists>f. findings db' = findings db @ [f] \<and>
       fd_metadata f = [(''escrowId'', JStr (es_id x)), (''onChainId'', JNum (the (es_onChainId x)))])"
proof -
  obtain f db1 r1 where first: "legacy_escrow e fetch orgId (x, rows) (db, empty_report) = (db1, r1)"
    "findings db1 = findings db @ [f]" "open_problem orgId None MISSING_ON_CHAIN f"
    "fd_metadata f = [(''escrowId'', JStr (es_id x)), (''onChainId'', JNum (the (es_onChainId x)))]"
    "rk_unreadable r1 = 1" "rk_findingsOpened r1 = 1"
  proof -
    have "findFirst (open_problem orgId None MISSING_ON_CHAIN) (findings db) = None"
      using assms(3) by (auto simp: open_problems_iff)
    then show thesis
      using that assms(1,2)
      by (simp add: legacy_escrow_def Let_def opens_def tallied_def recordFinding_def openFinding_def open_problem_def
          empty_report_def del: findFirst_None_iff)
  qed
  have later: "\<exists>r'. fold (legacy_escrow e fetch orgId) ws (db1, r) = (db1, r') \<and>
      rk_unreadable r' = rk_unreadable r + length ws \<and> rk_findingsOpened r' = rk_findingsOpened r"
    if "\<forall>w \<in> set ws. fetch (the (es_onChainId (fst w))) = None" for ws r
    using that
  proof (induction ws arbitrary: r)
    case (Cons w ws)
    have "findFirst (open_problem orgId None MISSING_ON_CHAIN) (findings db1) \<noteq> None"
      using first(2,3) by auto
    then have "\<exists>r1. legacy_escrow e fetch orgId w (db1, r) = (db1, r1) \<and> rk_unreadable r1 = rk_unreadable r + 1 \<and>
        rk_findingsOpened r1 = rk_findingsOpened r"
      using Cons.prems by (cases w) (simp add: legacy_escrow_def Let_def opens_def tallied_def recordFinding_def del: findFirst_None_iff)
    then obtain r1 where "legacy_escrow e fetch orgId w (db1, r) = (db1, r1)" "rk_unreadable r1 = rk_unreadable r + 1"
      "rk_findingsOpened r1 = rk_findingsOpened r" by blast
    then show ?case using Cons.IH [of r1] Cons.prems by auto
  qed simp
  have "fold (legacy_escrow e fetch orgId) rest (db1, r1) = (db', r)"
    using assms(4) first(1) by (simp add: legacyReconcile_def assms(1))
  then show ?thesis using later [of rest r1] assms(1,2) first(2,4,5,6) by auto
qed

section \<open>Samples\<close>

definition sample_legacy_escrow :: escrow_row where
  "sample_legacy_escrow = \<lparr>es_id = ''e1'', es_orgId = ''o1'', es_onChainId = Some 3, es_contractId = ''C1'', es_network = ''testnet'',
     es_managerAddress = ''GM'', es_financeApproverAddress = ''GF'', es_assetDecimals = 7, es_totalAmountBaseUnits = 100,
     es_managerApproved = True, es_financeApproved = True, es_cancelled = False, es_oracleRotations = 0,
     es_projectId = None, es_oraclePublicKey = None, es_tokenAddress = None, es_createdAt = 5\<rparr>"

definition sample_legacy_db :: "payment_state \<Rightarrow> database" where
  "sample_legacy_db s = empty_db\<lparr>escrows := [sample_legacy_escrow], payments := [sample_payment\<lparr>pm_state := s\<rparr>]\<rparr>"

definition sample_view :: "int \<Rightarrow> int \<Rightarrow> chain_escrow_view option" where
  "sample_view status n = Some \<lparr>cw_onChainId = n, cw_managerApproved = True, cw_financeApproved = True, cw_cancelled = False,
     cw_payments = [\<lparr>cp_index = 0, cp_worker = ''GW'', cp_token = ''T'', cp_amountBaseUnits = 100, cp_hours = 10,
       cp_proofVerified = True, cp_status = status\<rparr>]\<rparr>"

definition sample_legacy_options :: legacy_options where
  "sample_legacy_options = \<lparr>lo_contractId = None, lo_network = None, lo_limit = None\<rparr>"

lemma sample_legacy_work:
  "legacy_work (sample_legacy_db s) ''o1'' sample_legacy_options = [(sample_legacy_escrow, [sample_payment\<lparr>pm_state := s\<rparr>])]"
  by (simp add: legacy_work_def sample_legacy_db_def sample_legacy_options_def sample_legacy_escrow_def sample_payment_def
      truthy_def js_sort_def)

lemma sample_legacy_keys: "distinct (map pm_id (payments (sample_legacy_db s)))"
  by (simp add: sample_legacy_db_def)

theorem legacy_moves_on_contract_state_witness:
  "let db' = fst (legacyReconcile sample_clock (sample_view 0) ''o1'' sample_legacy_options (sample_legacy_db READY_TO_SETTLE))
   in map pm_state (payments db') = [READY_TO_SETTLE]"
proof -
  let ?run = "legacyReconcile sample_clock (sample_view 0) ''o1'' sample_legacy_options (sample_legacy_db READY_TO_SETTLE)"
  have "\<not> chain_says (sample_view 0) [(sample_legacy_escrow, [sample_payment\<lparr>pm_state := READY_TO_SETTLE\<rparr>])] k i"
    if "k \<in> {CHAIN_FINALIZED, CHAIN_CANCELLED}" for k i
    using that
    by (auto simp: chain_says_def sample_view_def view_slot_def CHAIN_FINALIZED_def CHAIN_CANCELLED_def split: option.splits if_splits)
  then show ?thesis
    using legacy_moves_on_contract_state [OF sample_legacy_keys, of "sample_clock" "sample_view 0" "''o1''" sample_legacy_options
        READY_TO_SETTLE "fst ?run" "snd ?run"]
    by (auto simp: sample_legacy_work [unfolded sample_legacy_db_def] Let_def sample_legacy_db_def list_all2_Cons1)
qed

theorem paid_claim_reported_not_moved_witness:
  "let db' = fst (legacyReconcile sample_clock (sample_view 0) ''o1'' sample_legacy_options (sample_legacy_db PAID))
   in map pm_state (payments db') = [PAID] \<and> list_ex (\<lambda>f. fd_kind f = DB_PAID_CHAIN_NOT) (findings db')"
proof -
  let ?run = "legacyReconcile sample_clock (sample_view 0) ''o1'' sample_legacy_options (sample_legacy_db PAID)"
  let ?p = "sample_payment\<lparr>pm_state := PAID\<rparr>"
  obtain chain cp where chain: "sample_view 0 (the (es_onChainId sample_legacy_escrow)) = Some chain" "view_slot chain ?p = Some cp"
    "cp_status cp \<noteq> CHAIN_FINALIZED"
    by (simp add: sample_view_def view_slot_def sample_payment_def CHAIN_FINALIZED_def)
  have kept: "?p \<in> set (payments (fst ?run)) \<and> (\<exists>f \<in> set (findings (fst ?run)). open_problem ''o1'' (Some (pm_id ?p)) DB_PAID_CHAIN_NOT f)"
    by (rule paid_claim_reported_not_moved [where fetch = "sample_view 0" and opts = sample_legacy_options and e = sample_clock
          and r = "snd ?run" and x = sample_legacy_escrow and rows = "[?p]" and chain = chain and cp = cp,
          OF sample_legacy_keys])
      (use chain in \<open>simp_all add: sample_legacy_work\<close>)
  have "length (payments (fst ?run)) = 1"
    using legacy_change_run [OF sample_legacy_keys [of PAID], of sample_clock "sample_view 0" "''o1''" sample_legacy_options]
    by (simp add: sample_legacy_db_def list_all2_lengthD [symmetric])
  with kept show ?thesis by (auto simp: Let_def open_problem_def list_ex_iff length_Suc_conv)
qed

theorem only_first_unreadable_recorded_witness:
  "let db = empty_db\<lparr>escrows := [sample_legacy_escrow, sample_legacy_escrow\<lparr>es_id := ''e2'', es_onChainId := Some 4\<rparr>]\<rparr>;
       (db', r) = legacyReconcile sample_clock (\<lambda>_. None) ''o1'' sample_legacy_options db
   in rk_unreadable r = 2 \<and> length (findings db') = 1"
proof -
  let ?y = "sample_legacy_escrow\<lparr>es_id := ''e2'', es_onChainId := Some 4\<rparr>"
  let ?db = "empty_db\<lparr>escrows := [sample_legacy_escrow, ?y]\<rparr>"
  let ?run = "legacyReconcile sample_clock (\<lambda>_. None) ''o1'' sample_legacy_options ?db"
  have work: "legacy_work ?db ''o1'' sample_legacy_options = [(sample_legacy_escrow, []), (?y, [])]"
    by (simp add: legacy_work_def sample_legacy_options_def sample_legacy_escrow_def truthy_def js_sort_def empty_db_def)
  have "(None, MISSING_ON_CHAIN) \<notin> set (open_problems ''o1'' ?db)" by (simp add: open_problems_def empty_db_def)
  from only_first_unreadable_recorded [OF work _ this, of "\<lambda>_. None" sample_clock "fst ?run" "snd ?run"]
  show ?thesis by (auto simp: Let_def split_beta empty_db_def)
qed

end
