(* ===== verification/Spec2Isabelle.thy ===== *)
theory Spec2Isabelle
  imports Actions Membership Projection Scheduler FundingSafety ClaimJson OracleAttest PayrollApi Members Auth OrgRoutes EscrowRoutes FindingRoutes Paging JobRoutes BatchAttest ListRoutes Workbench LegacyReconcile
begin

text \<open>
  CoreFlow is a payroll application: payments are prepared off-chain, put in custody by an escrow
  contract on Stellar, released there after an oracle's attestation and two approvals, and mirrored
  in a PostgreSQL database. This development models the TypeScript core under \<open>src/lib\<close> that decides
  what may happen to a payment and who may do it, and that mirrors the chain.

  The parts and their theories, in the order the code calls them:

    \<^item> \<open>Prelude\<close>: names of the basic types; the JavaScript the sources use (trimming, truncating
      division, decimal text, a stable sort, object spread).
    \<^item> \<open>Interfaces\<close>: the contracts between parts, as locales, each interpreted on the model in the
      theory of the part that provides it.
    \<^item> \<open>Enums\<close>, \<open>Database\<close>: \<open>prisma/schema.prisma\<close>. A table is a list of rows in insertion order, a
      transaction a function on \<open>database\<close>; \<open>findFirst\<close>, \<open>updateMany\<close> and \<open>create\<close> under a unique
      constraint are taken at their documented meaning. The clock and the key generator are the
      parameter \<open>env\<close>.
    \<^item> \<open>Money\<close>: \<open>money.ts\<close>, amounts in base units and their decimal text.
    \<^item> \<open>StateMachine\<close>: \<open>payments/state-machine.ts\<close>, the transition table and its check.
    \<^item> \<open>Rbac\<close>, \<open>Tenancy\<close>, \<open>Membership\<close>: \<open>tenancy/*.ts\<close>, \<open>payments/authz.ts\<close>, \<open>payments/http.ts\<close>; the
      permission matrix, the resolution of a request to one organization and the lookups scoped to
      it, the life of a membership and the acceptance of an invitation.
    \<^item> \<open>Transitions\<close>, \<open>Actions\<close>: \<open>payments/service.ts\<close>, \<open>payments/actions.ts\<close>; a state change as a
      read, a conditional update and an audit event, and the six actions of a member.
    \<^item> \<open>ChainEvents\<close>, \<open>Indexer\<close>, \<open>Projection\<close>: \<open>indexer/*.ts\<close>; decoding the contract's events, one
      definition per event, the batch loop with its cursor, the replay, and what any number of runs
      makes of the database.
    \<^item> \<open>Eligibility\<close>: \<open>funding/eligibility.ts\<close>, the decision whether a batch may be funded.
    \<^item> \<open>JsonText\<close>: the text of \<open>JSON.stringify\<close>.
    \<^item> \<open>ChainVerifier\<close>: \<open>reconciliation/chain-verifier.ts\<close>, what can be read of the chain (the
      verifier is a record of functions, a parameter) and the matching of transfers.
    \<^item> \<open>Reconciler\<close>, \<open>Scheduler\<close>: \<open>reconciliation/reconciler.ts\<close>, \<open>scheduler.ts\<close>; the verdict on
      every payment of an organization with its findings and corrections, and the lock, the run and
      its record.
    \<^item> \<open>Funding\<close>, \<open>FundingSafety\<close>: \<open>funding/service.ts\<close>; the frozen plan and its digest, opening,
      submitting, abandoning and confirming a funding intent, and what holds of them.

    \<^item> \<open>ClaimBytes\<close>, \<open>Claims\<close>, \<open>ClaimJson\<close>: \<open>packages/sdk/src\<close>; the bytes of a claim, its encoding, decoding,
      comparison, signature and check, and its JSON. The hash, the keys and the address codec of
      \<open>@stellar/stellar-base\<close> are the parameter \<open>stellar_base\<close>.
    \<^item> \<open>OracleProof\<close>, \<open>RateLimit\<close>, \<open>OracleAttest\<close>: \<open>oracle/index.ts\<close>, \<open>ratelimit.ts\<close>,
      \<open>api/oracle/attest/route.ts\<close>; the message an attestation signs, the limiter, and the request for an
      attestation as the part before and the part after its database lookup.
    \<^item> \<open>CsvText\<close>, \<open>PayrollCsv\<close>, \<open>PayrollBatches\<close>: \<open>payroll/csv.ts\<close>, \<open>payroll/batches.ts\<close>; the reader of
      a payroll file, the validation of its rows, and the creation of a draft batch.
    \<^item> \<open>PayrollApi\<close>: \<open>payroll/api.ts\<close>, \<open>payroll/assets.ts\<close>; validating a file, creating a batch from it,
      re-validating, approving and showing a batch.
    \<^item> \<open>Members\<close>: \<open>api/organizations/[id]/members/[memberId]/route.ts\<close>; changing and removing a member, as
      the checks and the transaction of each request.
    \<^item> \<open>Auth\<close>: \<open>auth/*.ts\<close>, \<open>middleware.ts\<close>, \<open>audit.ts\<close>, \<open>api/auth/*\<close>, \<open>api/admin/roles\<close>,
      \<open>api/admin/users/[id]/role\<close>, \<open>api/admin/bootstrap\<close>; challenges, logins by signature, sessions, the
      guards, and the ways to the platform role. The digest, the keys and the tokens are the parameter \<open>auth_lib\<close>.
    \<^item> \<open>OrgRoutes\<close>: \<open>api/organizations/route.ts\<close> and its invitations; creating an organization under a free
      slug, inviting and revoking.
    \<^item> \<open>EscrowRoutes\<close>: \<open>api/organizations/[id]/escrows/claim\<close> and the older \<open>POST /api/escrows\<close>; binding an
      escrow on the chain to an organization.
    \<^item> \<open>Params\<close>, \<open>FindingRoutes\<close>, \<open>ListRoutes\<close>: numbers of a query; the list and the life of findings; the
      lists of escrows and of payments.
    \<^item> \<open>JobRoutes\<close>, \<open>Paging\<close>: \<open>api/reconciliation/run\<close>, \<open>api/indexer/run\<close>; who may start a pass, the sweep
      over the organizations, and what the page limit of the indexer cuts off.
    \<^item> \<open>BatchAttest\<close>: \<open>api/submit-batch\<close>, \<open>api/hours\<close>; the attestations of a whole escrow, and logging hours.
    \<^item> \<open>LegacyReconcile\<close>: \<open>payments/reconcile.ts\<close>, the older reconciliation, which nothing imports.
    \<^item> \<open>Workbench\<close>: \<open>apps/workbench/src/lib/verification.ts\<close>, \<open>inspect.ts\<close> and the error numbers of
      \<open>errorCatalog.ts\<close>; the report of a verification and the inspection of a preimage.

  What the lemmas show. Money and payloads are read back as they were written. The table's check
  decides exactly the table, \<open>PAID\<close> and the other terminal states are final, and only observers of
  the chain reach \<open>PAID\<close>. A request is bound to one organization, and every operation leaves the
  other organizations' view of the database as it was. Interleaved transitions lose nothing and
  leave a gapless audit trail, and a payment is paid only after the gates in their order; an invitation is
  used once; an organization keeps an administrator.
  Whatever the indexer is given, a settled payment has its event in the log, no event is projected
  twice and the financial identity of a payment never changes. The reconciler settles on the evidence
  of the contract and of a transfer only, reports a problem once and runs once at a time. A batch has
  one funding intent at a time, its plan pays exactly its payments, and it is recorded as funded only
  when the chain agrees with the plan. A signed claim and an attestation bind every field they carry; an
  attestation is issued for the terms on the chain only, once for a nonce, and a repeated request is answered
  with the same one. A payroll file is read as its
  grammar says, every row kept is one the contract can settle, and however requests to create its batch
  interleave, each is answered, with a batch or a refusal, and one key makes one batch. Member requests answered
  one by one keep an administrator, interleaved ones need not, and they do not replace a lost owner (an
  invitation of an earlier owner can). A challenge logs in one
  request, and the platform role has one of four authorities behind it. An escrow belongs to the
  organization whose member is its manager on the chain and is never given to another; a resolved
  finding has a reason and an author. Some theorems record behaviour the code does not intend; their
  text says so.

  Concurrency is modelled where the code has it: requests interleave between their read and their
  commit (\<open>worker_step\<close>), invitation acceptances between their lookup and their transaction (\<open>accept_move\<close>), funding
  requests of any members and batches (\<open>funding_step\<close>), workers around the lock of the reconciliation
  (\<open>lock_step\<close>), requests for attestations (\<open>oracle_move\<close>) and for batches (\<open>draft_move\<close>),
  changes of members (\<open>member_step\<close>), logins (\<open>login_move\<close>), claims of escrows (\<open>claim_move\<close>), updates of
  findings among the writes of reconciliation runs (\<open>finding_move\<close>, \<open>run_write\<close>); a transaction of the indexer can be rolled back at any event (\<open>faults\<close>), and a
  reconciliation can throw in any pass (\<open>fault\<close>). The loops are structural recursions over finite
  lists, and the reader of a file ends because each step takes a character; so no fuel is used and every
  operation terminates.

  Not modelled: the React interface and its hooks; the scripts, and of the workbench all but the checks above; the routes that only call
  what is modelled and render the answer (payroll batches, reconciliation report, contract pause, audit log, health,
  API document); the request schemas of \<open>payroll/schemas.ts\<close>; the Soroban and Horizon clients; logging and metrics.
  The texts of messages are left
  out unless they are stored in a column.
\<close>

section \<open>The permission matrix and the other tables\<close>

text \<open>
  The three tables that say what a role may do agree. A role has the permission to submit, retry
  or reject exactly when the transition table lets it make that move, and the permission to create
  an escrow exactly when the funding check accepts it. The permission to cancel is the exception:
  finance holds it, and in every state the table refuses finance the move to \<open>CANCELLED\<close>, while for
  every other role the two agree.
\<close>

theorem permissions_match_transitions:
  "(can r Payment_submit \<longleftrightarrow> SUBMITTING \<in> set (user_moves r READY_TO_SETTLE)) \<and>
   (can r Payment_retry \<longleftrightarrow> READY_TO_SETTLE \<in> set (user_moves r SUBMISSION_FAILED)) \<and>
   (can r Payment_reject \<longleftrightarrow> (\<exists>s. REJECTED \<in> set (user_moves r s))) \<and>
   (can r Escrow_create \<longleftrightarrow> r \<in> set FUNDING_ROLES) \<and>
   (can r Payment_cancel \<longleftrightarrow> r = FINANCE \<or> (\<exists>s. CANCELLED \<in> set (user_moves r s))) \<and>
   \<not> (\<exists>s. CANCELLED \<in> set (user_moves FINANCE s))"
proof -
  have some: "(\<exists>s. P s) \<longleftrightarrow> list_ex P (enum_class.enum :: payment_state list)" for P
    by (simp add: list_ex_iff enum_UNIV)
  have "list_all (\<lambda>r. (can r Payment_submit \<longleftrightarrow> SUBMITTING \<in> set (user_moves r READY_TO_SETTLE)) \<and>
     (can r Payment_retry \<longleftrightarrow> READY_TO_SETTLE \<in> set (user_moves r SUBMISSION_FAILED)) \<and>
     (can r Payment_reject \<longleftrightarrow> list_ex (\<lambda>s. REJECTED \<in> set (user_moves r s)) enum_class.enum) \<and>
     (can r Escrow_create \<longleftrightarrow> r \<in> set FUNDING_ROLES) \<and>
     (can r Payment_cancel \<longleftrightarrow> r = FINANCE \<or> list_ex (\<lambda>s. CANCELLED \<in> set (user_moves r s)) enum_class.enum) \<and>
     \<not> list_ex (\<lambda>s. CANCELLED \<in> set (user_moves FINANCE s)) enum_class.enum) enum_class.enum"
    by code_simp
  then show ?thesis unfolding some org_role_all[symmetric] by blast
qed

end
